(* ===== verification/Prelude.thy ===== *)
theory Prelude
  imports Main "HOL-Library.Char_ord"
begin

text \<open>
  Shared vocabulary of the development: identifiers and instants, the tables of the database
  (lists of rows searched and updated by a key) with the counting and summing queries the
  services run on them, Python's \<open>str.strip\<close>, and the generic lemmas about them that the
  component proofs use.  The collection \<open>tbl\<close> holds the rewrite rules for queries over
  inserted and updated rows.
\<close>

named_theorems tbl \<open>queries over inserted and updated rows\<close>

section \<open>Identifiers, instants, results\<close>

type_synonym uuid = nat

text \<open>A timezone-aware \<open>datetime\<close> is compared as its UTC instant: microseconds since the epoch.\<close>

type_synonym instant = int

abbreviation microseconds_per_minute :: int where
  "microseconds_per_minute \<equiv> 60000000"

definition minutes :: "int \<Rightarrow> int" where
  "minutes n = n * microseconds_per_minute"

definition hours :: "int \<Rightarrow> int" where
  "hours n = minutes (60 * n)"

lemma minutes_mono [simp]: "minutes m \<le> minutes n \<longleftrightarrow> m \<le> n"
  by (simp add: minutes_def)

lemma minutes_pos [simp]: "0 < minutes n \<longleftrightarrow> 0 < n"
  by (simp add: minutes_def)

text \<open>An operation either raises (\<open>Inl\<close>, nothing written) or returns (\<open>Inr\<close>).\<close>

abbreviation ok :: "'e + 'a \<Rightarrow> bool" where
  "ok r \<equiv> \<not> isl r"

section \<open>Tables\<close>

definition row_of :: "('a \<Rightarrow> 'k) \<Rightarrow> 'k \<Rightarrow> 'a list \<Rightarrow> 'a option" where
  "row_of key k t = find (\<lambda>r. key r = k) t"

definition update_row :: "('a \<Rightarrow> 'k) \<Rightarrow> 'k \<Rightarrow> ('a \<Rightarrow> 'a) \<Rightarrow> 'a list \<Rightarrow> 'a list" where
  "update_row key k f t = map (\<lambda>r. if key r = k then f r else r) t"

definition count_rows :: "('a \<Rightarrow> bool) \<Rightarrow> 'a list \<Rightarrow> int" where
  "count_rows P t = int (length (filter P t))"

definition sum_rows :: "('a \<Rightarrow> bool) \<Rightarrow> ('a \<Rightarrow> int) \<Rightarrow> 'a list \<Rightarrow> int" where
  "sum_rows P v t = sum_list (map v (filter P t))"

lemma row_of_Nil [simp]: "row_of key k [] = None"
  by (simp add: row_of_def)

lemma row_of_Cons [simp]:
  "row_of key k (r # t) = (if key r = k then Some r else row_of key k t)"
  by (simp add: row_of_def)

lemma row_of_SomeD: "row_of key k t = Some r \<Longrightarrow> r \<in> set t \<and> key r = k"
  by (induction t) (auto split: if_splits)

lemma row_of_None: "row_of key k t = None \<longleftrightarrow> k \<notin> key ` set t"
  by (induction t) auto

lemma row_of_unique: "distinct (map key t) \<Longrightarrow> r \<in> set t \<Longrightarrow> row_of key (key r) t = Some r"
  by (induction t) (auto simp: image_iff)

lemma row_of_append:
  "row_of key k (t @ u) = (case row_of key k t of None \<Rightarrow> row_of key k u | Some r \<Rightarrow> Some r)"
  by (induction t) auto

lemma set_update_row:
  "set (update_row key k f t) = (\<lambda>r. if key r = k then f r else r) ` set t"
  by (simp add: update_row_def)

lemma keys_update_row [tbl]:
  "(\<And>r. key r = k \<Longrightarrow> key (f r) = k) \<Longrightarrow> map key (update_row key k f t) = map key t"
  by (simp add: update_row_def)

lemma map_other_update_row:
  "(\<And>r. g (f r) = g r) \<Longrightarrow> map g (update_row key k f t) = map g t"
  by (simp add: update_row_def)

lemma row_of_update_row [tbl]:
  assumes "\<And>r. key r = k \<Longrightarrow> key (f r) = k"
  shows "row_of key j (update_row key k f t) =
    (if j = k then map_option f (row_of key j t) else row_of key j t)"
  by (induction t) (auto simp: update_row_def assms)

lemma update_row_absent: "k \<notin> key ` set t \<Longrightarrow> update_row key k f t = t"
  by (induction t) (auto simp: update_row_def)

lemma count_rows_Nil [simp]: "count_rows P [] = 0"
  by (simp add: count_rows_def)

lemma count_rows_Cons [simp]: "count_rows P (r # t) = (if P r then 1 else 0) + count_rows P t"
  by (simp add: count_rows_def)

lemma count_rows_append [tbl]: "count_rows P (t @ u) = count_rows P t + count_rows P u"
  by (simp add: count_rows_def)

lemma count_rows_nonneg [simp]: "0 \<le> count_rows P t"
  by (simp add: count_rows_def)

lemma count_rows_cong: "(\<And>r. r \<in> set t \<Longrightarrow> P r = Q r) \<Longrightarrow> count_rows P t = count_rows Q t"
  by (induction t) auto

lemma count_rows_mono: "(\<And>r. r \<in> set t \<Longrightarrow> P r \<Longrightarrow> Q r) \<Longrightarrow> count_rows P t \<le> count_rows Q t"
proof (induction t)
  case (Cons r t)
  then have "count_rows P t \<le> count_rows Q t" by simp
  with Cons.prems [of r] show ?case by auto
qed simp

lemma count_rows_zero: "count_rows P t = 0 \<longleftrightarrow> (\<forall>r\<in>set t. \<not> P r)"
  by (simp add: count_rows_def filter_empty_conv)

lemma sum_rows_Nil [simp]: "sum_rows P v [] = 0"
  by (simp add: sum_rows_def)

lemma sum_rows_Cons [simp]: "sum_rows P v (r # t) = (if P r then v r else 0) + sum_rows P v t"
  by (simp add: sum_rows_def)

lemma sum_rows_append [tbl]: "sum_rows P v (t @ u) = sum_rows P v t + sum_rows P v u"
  by (simp add: sum_rows_def)

lemma sum_rows_cong:
  "(\<And>r. r \<in> set t \<Longrightarrow> P r = Q r) \<Longrightarrow> (\<And>r. r \<in> set t \<Longrightarrow> Q r \<Longrightarrow> v r = w r)
    \<Longrightarrow> sum_rows P v t = sum_rows Q w t"
  by (induction t) auto

lemma sum_rows_nonneg: "(\<And>r. r \<in> set t \<Longrightarrow> P r \<Longrightarrow> 0 \<le> v r) \<Longrightarrow> 0 \<le> sum_rows P v t"
proof (induction t)
  case (Cons r t)
  then have "0 \<le> sum_rows P v t" by simp
  with Cons.prems [of r] show ?case by auto
qed simp

lemma sum_rows_none: "(\<And>r. r \<in> set t \<Longrightarrow> \<not> P r) \<Longrightarrow> sum_rows P v t = 0"
  by (induction t) auto

text \<open>Sums over a table as sums over its set of rows, to match tables row by row.\<close>

lemma sum_rows_neg: "sum_rows P (\<lambda>x. - v x) t = - sum_rows P v t"
  by (induction t) auto

lemma sum_rows_set:
  "distinct t \<Longrightarrow> sum_rows P v t = (\<Sum>x\<in>{x \<in> set t. P x}. v x)"
  by (simp add: sum_rows_def sum_list_distinct_conv_sum_set)

lemma sum_rows_match:
  assumes "distinct t" "distinct u"
    and "inj_on f {x \<in> set t. P x}" "f ` {x \<in> set t. P x} = {y \<in> set u. Q y}"
    and "\<And>x. x \<in> set t \<Longrightarrow> P x \<Longrightarrow> w (f x) = v x"
  shows "sum_rows P v t = sum_rows Q w u"
proof -
  have "(\<Sum>y\<in>{y \<in> set u. Q y}. w y) = (\<Sum>x\<in>{x \<in> set t. P x}. w (f x))"
    using sum.reindex [OF assms(3), of w] assms(4) by simp
  also have "\<dots> = (\<Sum>x\<in>{x \<in> set t. P x}. v x)"
    using assms(5) by (intro sum.cong) auto
  finally show ?thesis by (simp add: sum_rows_set assms(1,2))
qed

lemma distinct_rows: "distinct (map f t) \<Longrightarrow> distinct t"
  by (simp add: distinct_map)

text \<open>
  Updating the one row that carries a key moves a count or a sum by that row's contribution.
\<close>

lemma count_rows_update_row:
  assumes "distinct (map key t)" "row_of key k t = Some r"
  shows "count_rows P (update_row key k f t) =
    count_rows P t - (if P r then 1 else 0) + (if P (f r) then 1 else 0)"
  using assms
proof (induction t)
  case (Cons q t)
  show ?case
  proof (cases "key q = k")
    case True
    with Cons.prems have "q = r" and "k \<notin> key ` set t" by auto
    with True show ?thesis
      using update_row_absent [of k key t f] by (simp add: update_row_def)
  next
    case False
    with Cons show ?thesis by (simp add: update_row_def)
  qed
qed simp

lemma sum_rows_update_row:
  assumes "distinct (map key t)" "row_of key k t = Some r"
  shows "sum_rows P v (update_row key k f t) =
    sum_rows P v t - (if P r then v r else 0) + (if P (f r) then v (f r) else 0)"
  using assms
proof (induction t)
  case (Cons q t)
  show ?case
  proof (cases "key q = k")
    case True
    with Cons.prems have "q = r" and "k \<notin> key ` set t" by auto
    with True show ?thesis
      using update_row_absent [of k key t f] by (simp add: update_row_def)
  next
    case False
    with Cons show ?thesis by (simp add: update_row_def)
  qed
qed simp

section \<open>Python strings\<close>

text \<open>
  Characters are the code points 0 to 255; \<open>py_space\<close> is \<open>str.isspace\<close> on that range and
  \<open>py_strip\<close> is \<open>str.strip()\<close>; \<open>py_lower\<close> is \<open>str.lower()\<close> on the ASCII letters.
\<close>

definition py_space :: "char \<Rightarrow> bool" where
  "py_space c = (let n = (of_char c :: nat) in
     (9 \<le> n \<and> n \<le> 13) \<or> (28 \<le> n \<and> n \<le> 32) \<or> n = 133 \<or> n = 160)"

definition py_strip :: "string \<Rightarrow> string" where
  "py_strip s = rev (dropWhile py_space (rev (dropWhile py_space s)))"

definition py_lower :: "string \<Rightarrow> string" where
  "py_lower s = map (\<lambda>c. let n = (of_char c :: nat) in
     if 65 \<le> n \<and> n \<le> 90 then char_of (n + 32) else c) s"

lemma dropWhile_id: "dropWhile P xs = xs" if "\<And>x. x \<in> set xs \<Longrightarrow> \<not> P x"
  using that by (cases xs) auto

lemma dropWhile_fixed: "xs = [] \<or> \<not> P (hd xs) \<Longrightarrow> dropWhile P xs = xs"
  by (cases xs) auto

lemma dropWhile_rev_keeps_hd:
  assumes "xs = [] \<or> \<not> P (hd xs)"
  shows "rev (dropWhile P (rev xs)) = [] \<or> \<not> P (hd (rev (dropWhile P (rev xs))))"
proof (cases "rev (dropWhile P (rev xs))")
  case (Cons y ys)
  have "xs = rev (dropWhile P (rev xs)) @ rev (takeWhile P (rev xs))"
    by (metis rev_append rev_rev_ident takeWhile_dropWhile_id)
  with Cons have "xs = y # ys @ rev (takeWhile P (rev xs))" by simp
  then have "hd xs = y" and "xs \<noteq> []" by (metis list.sel(1), metis list.distinct(1))
  with assms Cons show ?thesis by simp
qed simp

lemma py_strip_idem [simp]: "py_strip (py_strip s) = py_strip s"
proof -
  let ?d = "dropWhile py_space s"
  have "?d = [] \<or> \<not> py_space (hd ?d)"
    by (metis hd_dropWhile)
  then have "dropWhile py_space (py_strip s) = py_strip s"
    unfolding py_strip_def by (intro dropWhile_fixed dropWhile_rev_keeps_hd)
  moreover have "dropWhile py_space (dropWhile py_space (rev ?d)) = dropWhile py_space (rev ?d)"
    by simp
  ultimately show ?thesis
    by (simp add: py_strip_def)
qed

text \<open>A text argument that may be missing, reduced to its stripped non-blank content.\<close>

definition strip_or_none :: "string option \<Rightarrow> string option" where
  "strip_or_none r = (case r of None \<Rightarrow> None
     | Some t \<Rightarrow> (if py_strip t = [] then None else Some (py_strip t)))"

lemma strip_or_none_Some: "strip_or_none r = Some t \<Longrightarrow> t \<noteq> [] \<and> py_strip t = t"
  by (auto simp: strip_or_none_def split: option.splits if_splits)

text \<open>\<open>str(n)\<close> of a natural number.\<close>

fun py_str_nat :: "nat \<Rightarrow> string" where
  "py_str_nat n = (if n < 10 then [char_of (48 + n)]
     else py_str_nat (n div 10) @ [char_of (48 + n mod 10)])"

declare py_str_nat.simps [simp del]

end
