(* ===== verification/Core.thy ===== *)
theory Core
  imports Prelude
begin

text \<open>
  What every module shares: the role vocabulary and the role guards (\<open>core/rbac.py\<close>), the error
  code registry (\<open>core/error_codes.py\<close>) and the business-error envelope, JSON payloads with the
  audit redaction (\<open>audit/redaction.py\<close>), the append-only audit writer (\<open>audit/service.py\<close>), the
  domain-event stream (\<open>identity/events.py\<close>), and the part of the database state they write.
\<close>

section \<open>Roles\<close>

datatype Role = STUDENT | TEACHER | ADMIN

datatype UserStatus = PENDING_PHONE | ACTIVE | SUSPENDED | BANNED | PENDING_APPROVAL

fun role_value :: "Role \<Rightarrow> string" where
  "role_value STUDENT = ''STUDENT''"
| "role_value TEACHER = ''TEACHER''"
| "role_value ADMIN = ''ADMIN''"

definition is_student :: "Role \<Rightarrow> bool" where
  "is_student r = (role_value r = ''STUDENT'')"

definition is_staff :: "Role \<Rightarrow> bool" where
  "is_staff r = (role_value r \<in> {''TEACHER'', ''ADMIN''})"

definition is_admin :: "Role \<Rightarrow> bool" where
  "is_admin r = (role_value r = ''ADMIN'')"

definition has_any_role :: "Role \<Rightarrow> Role list \<Rightarrow> bool" where
  "has_any_role r allowed = (role_value r \<in> role_value ` set allowed)"

lemma role_value_inj: "role_value a = role_value b \<longleftrightarrow> a = b"
  by (cases a; cases b) simp_all

lemma is_admin_iff [simp]: "is_admin r \<longleftrightarrow> r = ADMIN"
  by (cases r) (simp_all add: is_admin_def)

lemma is_student_iff [simp]: "is_student r \<longleftrightarrow> r = STUDENT"
  by (cases r) (simp_all add: is_student_def)

lemma is_staff_iff [simp]: "is_staff r \<longleftrightarrow> r = TEACHER \<or> r = ADMIN"
  by (cases r) (simp_all add: is_staff_def)

record actor =
  actor_user_id :: uuid
  actor_role :: Role

section \<open>Error codes and the business-error envelope\<close>

datatype ErrorCode =
    VALIDATION_ERROR | AUTHENTICATION_REQUIRED | PERMISSION_DENIED | ACCOUNT_NOT_ACTIVE
  | PHONE_ALREADY_BOUND | USERNAME_ALREADY_EXISTS | TASK_NOT_CLAIMABLE | TASK_UNITS_REQUIRED
  | NO_ASSIGNMENT_AVAILABLE | ASSIGNMENT_LIMIT_REACHED | TASK_ACTIVE_CLAIM_EXISTS
  | CLAIM_CUTOFF_REACHED | ABANDON_LIMIT_REACHED | CLAIM_NOT_ABANDONABLE
  | CLAIM_NOT_SUBMITTABLE | SUBMISSION_WINDOW_CLOSED | FILE_TOO_LARGE
  | FILE_TYPE_NOT_ALLOWED | SUBMISSION_VALIDATION_FAILED | ALREADY_REVIEWED
  | INSUFFICIENT_POINTS | REWARD_OUT_OF_STOCK | REDEMPTION_LIMIT_REACHED
  | RATING_NOT_ELIGIBLE | TOTP_SETUP_REQUIRED | EMAIL_ALREADY_BOUND | INVALID_EMAIL_TOKEN
  | OTP_CODE_INVALID | OTP_TOO_MANY_ATTEMPTS | OTP_CHALLENGE_EXPIRED
  | OTP_CHALLENGE_CONSUMED | OTP_CHALLENGE_INVALID | OTP_TOKEN_INVALID
  | OTP_RESEND_COOLDOWN | RATE_LIMITED | CONFLICT | EMAIL_CODE_INVALID | ACCOUNT_LOCKED
  | EMAIL_DELIVERY_FAILED | MOBILE_CODE_INVALID | APPROVAL_PENDING
  | CHALLENGE_CODE_INVALID | TALENT_CONTACTS_UNAVAILABLE
  | PROJECT_DRAFT_VERSION_CONFLICT | PROJECT_DRAFT_REQUEST_CONFLICT
  | OWNER_PROFILE_VERSION_CONFLICT | RECRUITMENT_CONTACTS_UNAVAILABLE
  | INTERNAL_ERROR | NOT_FOUND | METHOD_NOT_ALLOWED | HTTP_ERROR

text \<open>A finite Python \<open>float\<close>: \<open>Float m e\<close> is m times 2 to the power e.\<close>

datatype pyfloat = Float int int

text \<open>
  JSON-like payload values.  \<open>JUuid\<close> and \<open>JTime\<close> stand for the texts \<open>str(id)\<close> and
  \<open>t.isoformat()\<close>; a mapping key is a string or some other hashable (\<open>KOther\<close>).
\<close>

datatype jkey = KStr string | KOther nat

datatype json =
    JNull
  | JBool bool
  | JInt int
  | JStr string
  | JNum pyfloat
  | JUuid uuid
  | JTime instant
  | JList "json list"
  | JTuple "json list"
  | JObj "(jkey \<times> json) list"

definition dict :: "(string \<times> json) list \<Rightarrow> json" where
  "dict kvs = JObj (map (\<lambda>(k, v). (KStr k, v)) kvs)"

definition jopt :: "('a \<Rightarrow> json) \<Rightarrow> 'a option \<Rightarrow> json" where
  "jopt f x = (case x of None \<Rightarrow> JNull | Some a \<Rightarrow> f a)"

record business_error =
  be_code :: ErrorCode
  be_status :: nat
  be_details :: "(string \<times> json) list"

abbreviation Business :: "ErrorCode \<Rightarrow> nat \<Rightarrow> (string \<times> json) list \<Rightarrow> business_error" where
  "Business c n ds \<equiv> \<lparr>be_code = c, be_status = n, be_details = ds\<rparr>"

text \<open>\<open>require_role\<close>: refused with no role at all, otherwise the guard of the route.\<close>

datatype role_guard_error = ValueError | Denied business_error

definition require_role :: "Role list \<Rightarrow> Role \<Rightarrow> role_guard_error + Role" where
  "require_role roles bearer =
     (if roles = [] then Inl ValueError
      else if \<not> has_any_role bearer roles
      then Inl (Denied (Business PERMISSION_DENIED 403 []))
      else Inr bearer)"

section \<open>Audit redaction\<close>

definition REDACTED :: string where
  "REDACTED = ''[REDACTED]''"

definition SENSITIVE_KEYS :: "string list" where
  "SENSITIVE_KEYS = [''access_token'', ''otp'', ''otp_code'', ''password'', ''password_hash'',
     ''recovery_code'', ''recovery_codes'', ''refresh_token'', ''secret'',
     ''secret_encrypted'', ''totp_secret'']"

fun is_sensitive :: "jkey \<Rightarrow> bool" where
  "is_sensitive (KStr k) = (py_lower k \<in> set SENSITIVE_KEYS)"
| "is_sensitive (KOther n) = False"

fun redact :: "json \<Rightarrow> json" where
  "redact (JObj kvs) =
     JObj (map (\<lambda>(k, v). (k, if is_sensitive k then JStr REDACTED else redact v)) kvs)"
| "redact (JList xs) = JList (map redact xs)"
| "redact (JTuple xs) = JTuple (map redact xs)"
| "redact v = v"

text \<open>
  The abstract promise of the redaction: at any nesting depth of mappings, lists and tuples a
  sensitive key carries the marker.
\<close>

fun secret_free :: "json \<Rightarrow> bool" where
  "secret_free (JObj kvs) = list_all (\<lambda>(k, v). if is_sensitive k then v = JStr REDACTED
     else secret_free v) kvs"
| "secret_free (JList xs) = list_all secret_free xs"
| "secret_free (JTuple xs) = list_all secret_free xs"
| "secret_free v = True"

lemma redact_secret_free: "secret_free (redact v)"
  by (induction v rule: redact.induct) (auto simp: list_all_iff)

lemma redact_id_on_secret_free: "secret_free v \<Longrightarrow> redact v = v"
proof (induction v rule: redact.induct)
  case (1 kvs)
  have "map (\<lambda>(k, v). (k, if is_sensitive k then JStr REDACTED else redact v)) kvs = kvs"
    using 1 by (intro map_idI) (auto simp: list_all_iff split: if_splits)
  then show ?case by simp
qed (auto simp: list_all_iff intro!: map_idI)

section \<open>Audit rows, domain events, notification intents, projection jobs\<close>

record audit_context =
  ac_ip_address :: "string option"
  ac_request_id :: "string option"

record audit_row =
  ar_actor_user_id :: uuid
  ar_actor_role :: string
  ar_action :: string
  ar_target_type :: string
  ar_target_id :: uuid
  ar_reason :: "string option"
  ar_details :: "json option"
  ar_before_snapshot :: "json option"
  ar_after_snapshot :: "json option"
  ar_ip_address :: "string option"
  ar_request_id :: "string option"

record domain_event =
  ev_type :: string
  ev_aggregate_type :: string
  ev_aggregate_id :: uuid
  ev_occurred_at :: instant
  ev_payload :: "(string \<times> json) list"

text \<open>
  One call of \<open>NotificationPort.record_event\<close>: the key's prefix, the id it is built over and its
  suffix (\<open>f"claim:{id}:created"\<close>), the event type, the recipient and the payload.
\<close>

record notification =
  nt_key :: "string \<times> uuid \<times> string"
  nt_type :: string
  nt_user_id :: uuid
  nt_payload :: "(string \<times> json) list"

record ranking_job =
  rj_user_id :: uuid
  rj_effective_at :: instant
  rj_request_id :: "string option"

text \<open>
  The projection dispatcher is an external publisher: it answers whether the publish went
  through.  \<open>armed_jobs\<close> are the listeners waiting for the caller's commit, \<open>ranking_jobs\<close> what
  was published.
\<close>

type_synonym dispatcher = "ranking_job \<Rightarrow> bool"

record core_db =
  audit_logs :: "audit_row list"
  domain_events :: "domain_event list"
  notifications :: "notification list"
  armed_jobs :: "(dispatcher \<times> ranking_job) list"
  ranking_jobs :: "ranking_job list"

definition audit_append ::
  "actor \<Rightarrow> string \<Rightarrow> string \<Rightarrow> uuid \<Rightarrow> string option \<Rightarrow> json option \<Rightarrow> json option \<Rightarrow> json option
    \<Rightarrow> audit_context option \<Rightarrow> 'a core_db_scheme \<Rightarrow> 'a core_db_scheme" where
  "audit_append actor action target_type target_id reason details before after ctx s =
     s\<lparr>audit_logs := audit_logs s @
        [\<lparr>ar_actor_user_id = actor_user_id actor,
          ar_actor_role = role_value (actor_role actor),
          ar_action = action, ar_target_type = target_type, ar_target_id = target_id,
          ar_reason = reason,
          ar_details = map_option redact details,
          ar_before_snapshot = map_option redact before,
          ar_after_snapshot = map_option redact after,
          ar_ip_address = Option.bind ctx ac_ip_address,
          ar_request_id = Option.bind ctx ac_request_id\<rparr>]\<rparr>"

definition publish_event :: "domain_event \<Rightarrow> 'a core_db_scheme \<Rightarrow> 'a core_db_scheme" where
  "publish_event e s = s\<lparr>domain_events := domain_events s @ [e]\<rparr>"

definition record_event :: "bool \<Rightarrow> notification \<Rightarrow> 'a core_db_scheme \<Rightarrow> 'a core_db_scheme" where
  "record_event wired n s =
     (if wired then s\<lparr>notifications := notifications s @ [n]\<rparr> else s)"

text \<open>Every payload column of an audit row the writer appended is free of secrets.\<close>

definition audit_clean :: "audit_row \<Rightarrow> bool" where
  "audit_clean r = (\<forall>j \<in> set_option (ar_details r) \<union> set_option (ar_before_snapshot r)
     \<union> set_option (ar_after_snapshot r). secret_free j)"

lemma audit_append_clean:
  "list_all audit_clean (audit_logs s)
   \<Longrightarrow> list_all audit_clean (audit_logs (audit_append a act tt ti r d b af c s))"
  by (auto simp: audit_append_def audit_clean_def redact_secret_free list_all_iff)

lemma audit_append_simps [simp]:
  "domain_events (audit_append a act tt ti r d b af c s) = domain_events s"
  "notifications (audit_append a act tt ti r d b af c s) = notifications s"
  "armed_jobs (audit_append a act tt ti r d b af c s) = armed_jobs s"
  "ranking_jobs (audit_append a act tt ti r d b af c s) = ranking_jobs s"
  "core_db.more (audit_append a act tt ti r d b af c s) = core_db.more s"
  by (simp_all add: audit_append_def)

lemma publish_event_simps [simp]:
  "audit_logs (publish_event e s) = audit_logs s"
  "notifications (publish_event e s) = notifications s"
  "armed_jobs (publish_event e s) = armed_jobs s"
  "ranking_jobs (publish_event e s) = ranking_jobs s"
  "core_db.more (publish_event e s) = core_db.more s"
  by (simp_all add: publish_event_def)

lemma record_event_simps [simp]:
  "audit_logs (record_event w n s) = audit_logs s"
  "domain_events (record_event w n s) = domain_events s"
  "armed_jobs (record_event w n s) = armed_jobs s"
  "ranking_jobs (record_event w n s) = ranking_jobs s"
  "core_db.more (record_event w n s) = core_db.more s"
  by (simp_all add: record_event_def)

end
