(* ===== verification/Points_Models.thy ===== *)
theory Points_Models
  imports Core
begin

text \<open>
  The tables of the points domain (\<open>points/models.py\<close>, \<open>points/enums.py\<close>): rows as records, the
  CHECK and UNIQUE constraints of each table as the insert operation that PostgreSQL runs, the
  state \<open>points_db\<close> that extends the shared \<open>core_db\<close>, and the sums and counts the services
  query.  Foreign keys and the 64-bit range of the BigInteger columns are not modelled.
\<close>

section \<open>Vocabularies\<close>

datatype LedgerType =
    ASSIGNMENT_REWARD | ASSIGNMENT_REWARD_REVERSAL | REWARD_REDEMPTION
  | REWARD_REDEMPTION_REFUND | ADMIN_ADJUSTMENT

datatype RedemptionStatus = REQUESTED | UNDER_REVIEW | APPROVED | FULFILLED | REJECTED

datatype ReservationStatus = ACTIVE | RELEASED | CONSUMED

fun ledger_type_value :: "LedgerType \<Rightarrow> string" where
  "ledger_type_value ASSIGNMENT_REWARD = ''ASSIGNMENT_REWARD''"
| "ledger_type_value ASSIGNMENT_REWARD_REVERSAL = ''ASSIGNMENT_REWARD_REVERSAL''"
| "ledger_type_value REWARD_REDEMPTION = ''REWARD_REDEMPTION''"
| "ledger_type_value REWARD_REDEMPTION_REFUND = ''REWARD_REDEMPTION_REFUND''"
| "ledger_type_value ADMIN_ADJUSTMENT = ''ADMIN_ADJUSTMENT''"

fun redemption_status_value :: "RedemptionStatus \<Rightarrow> string" where
  "redemption_status_value REQUESTED = ''REQUESTED''"
| "redemption_status_value UNDER_REVIEW = ''UNDER_REVIEW''"
| "redemption_status_value APPROVED = ''APPROVED''"
| "redemption_status_value FULFILLED = ''FULFILLED''"
| "redemption_status_value REJECTED = ''REJECTED''"

section \<open>Rows\<close>

record ledger_row =
  le_id :: uuid
  le_user_id :: uuid
  le_type :: LedgerType
  le_amount :: int
  le_source_type :: string
  le_source_id :: uuid
  le_affects_balance :: bool
  le_affects_ranking :: bool
  le_ranking_effective_at :: "instant option"
  le_reversal_of_id :: "uuid option"
  le_operator_id :: "uuid option"
  le_reason :: "string option"

record wallet =
  available_points :: int
  earned_points :: int

record reward_item =
  it_id :: uuid
  it_name :: string
  it_description :: "string option"
  it_point_cost :: int
  it_stock :: "int option"
  it_per_user_term_limit :: "int option"
  it_available_from :: "instant option"
  it_available_until :: "instant option"
  it_enabled :: bool
  it_requires_manual_review :: bool
  it_fulfillment_instructions :: "string option"

record redemption =
  rd_id :: uuid
  rd_user_id :: uuid
  rd_item_id :: uuid
  rd_status :: RedemptionStatus
  rd_term_key :: string
  rd_points :: int
  rd_created_at :: instant
  rd_decided_at :: "instant option"
  rd_decided_by :: "uuid option"
  rd_rejection_reason :: "string option"
  rd_fulfilled_at :: "instant option"
  rd_fulfillment_note :: "string option"

record reservation =
  rv_id :: uuid
  rv_user_id :: uuid
  rv_redemption_id :: uuid
  rv_points :: int
  rv_status :: ReservationStatus
  rv_released_at :: "instant option"

record review_grant =
  gr_teacher_id :: uuid
  gr_capability :: string
  gr_granted_by :: uuid
  gr_granted_at :: instant

record points_db = core_db +
  ledger :: "ledger_row list"
  wallets :: "uuid \<Rightarrow> wallet option"
  reward_items :: "reward_item list"
  redemptions :: "redemption list"
  reservations :: "reservation list"
  review_grants :: "review_grant list"

section \<open>Constraints\<close>

datatype constraint =
    Pk_points_ledger | Ck_ledger_amount | Ck_ranking_effective_required
  | Ck_admin_reason_required | Uq_source_triple
  | Pk_reward_items | Ck_item_point_cost | Ck_item_stock | Ck_item_limit | Ck_item_window
  | Pk_reward_redemptions | Ck_redemption_points
  | Pk_point_reservations | Ck_reservation_points | Ck_release_coherence
  | Uq_reservation_redemption
  | Pk_reward_review_grants | Ck_grant_capability

definition source_triple :: "ledger_row \<Rightarrow> string \<times> uuid \<times> LedgerType" where
  "source_triple e = (le_source_type e, le_source_id e, le_type e)"

definition insert_ledger :: "ledger_row \<Rightarrow> ledger_row list \<Rightarrow> constraint + ledger_row list" where
  "insert_ledger e t =
     (if le_amount e = 0 then Inl Ck_ledger_amount
      else if le_affects_ranking e \<and> le_ranking_effective_at e = None
      then Inl Ck_ranking_effective_required
      else if le_type e = ADMIN_ADJUSTMENT \<and> le_reason e = None
      then Inl Ck_admin_reason_required
      else if le_id e \<in> le_id ` set t then Inl Pk_points_ledger
      else if source_triple e \<in> source_triple ` set t then Inl Uq_source_triple
      else Inr (t @ [e]))"

definition item_checks :: "reward_item \<Rightarrow> constraint option" where
  "item_checks i =
     (if \<not> 0 < it_point_cost i then Some Ck_item_point_cost
      else if (case it_stock i of None \<Rightarrow> False | Some n \<Rightarrow> \<not> 0 \<le> n) then Some Ck_item_stock
      else if (case it_per_user_term_limit i of None \<Rightarrow> False | Some n \<Rightarrow> \<not> 0 \<le> n)
      then Some Ck_item_limit
      else if (case (it_available_from i, it_available_until i) of
                 (Some a, Some b) \<Rightarrow> \<not> a < b | _ \<Rightarrow> False) then Some Ck_item_window
      else None)"

definition insert_item :: "reward_item \<Rightarrow> reward_item list \<Rightarrow> constraint + reward_item list" where
  "insert_item i t = (case item_checks i of Some c \<Rightarrow> Inl c
     | None \<Rightarrow> (if it_id i \<in> it_id ` set t then Inl Pk_reward_items else Inr (t @ [i])))"

definition insert_redemption :: "redemption \<Rightarrow> redemption list \<Rightarrow> constraint + redemption list" where
  "insert_redemption r t =
     (if \<not> 0 < rd_points r then Inl Ck_redemption_points
      else if rd_id r \<in> rd_id ` set t then Inl Pk_reward_redemptions
      else Inr (t @ [r]))"

definition release_coherent :: "reservation \<Rightarrow> bool" where
  "release_coherent v \<longleftrightarrow>
     (rv_status v = ReservationStatus.ACTIVE \<and> rv_released_at v = None)
     \<or> (rv_status v \<in> {RELEASED, CONSUMED} \<and> rv_released_at v \<noteq> None)"

definition insert_reservation ::
  "reservation \<Rightarrow> reservation list \<Rightarrow> constraint + reservation list" where
  "insert_reservation v t =
     (if \<not> 0 < rv_points v then Inl Ck_reservation_points
      else if \<not> release_coherent v then Inl Ck_release_coherence
      else if rv_id v \<in> rv_id ` set t then Inl Pk_point_reservations
      else if rv_redemption_id v \<in> rv_redemption_id ` set t
      then Inl Uq_reservation_redemption
      else Inr (t @ [v]))"

definition REWARD_REVIEW_CAPABILITY :: string where
  "REWARD_REVIEW_CAPABILITY = ''REWARD_REVIEW''"

definition insert_grant :: "review_grant \<Rightarrow> review_grant list \<Rightarrow> constraint + review_grant list" where
  "insert_grant g t =
     (if gr_capability g \<noteq> REWARD_REVIEW_CAPABILITY then Inl Ck_grant_capability
      else if gr_teacher_id g \<in> gr_teacher_id ` set t then Inl Pk_reward_review_grants
      else Inr (t @ [g]))"

section \<open>Queries\<close>

definition empty_wallet :: wallet where
  "empty_wallet = \<lparr>available_points = 0, earned_points = 0\<rparr>"

definition wallet_of :: "'a points_db_scheme \<Rightarrow> uuid \<Rightarrow> wallet" where
  "wallet_of s u = (case wallets s u of None \<Rightarrow> empty_wallet | Some w \<Rightarrow> w)"

text \<open>The freshly migrated database.\<close>

definition initial_points :: points_db where
  "initial_points = \<lparr>audit_logs = [], domain_events = [], notifications = [], armed_jobs = [],
     ranking_jobs = [], ledger = [], wallets = Map.empty, reward_items = [], redemptions = [],
     reservations = [], review_grants = []\<rparr>"

text \<open>What the projection of a user must be, read off the ledger (\<open>PointWallet\<close>'s docstring).\<close>

definition balance_of :: "ledger_row list \<Rightarrow> uuid \<Rightarrow> int" where
  "balance_of t u = sum_rows (\<lambda>e. le_user_id e = u \<and> le_affects_balance e) le_amount t"

definition earned_of :: "ledger_row list \<Rightarrow> uuid \<Rightarrow> int" where
  "earned_of t u =
     sum_rows (\<lambda>e. le_user_id e = u \<and> le_affects_ranking e \<and> 0 < le_amount e) le_amount t"

definition active_of :: "uuid \<Rightarrow> reservation \<Rightarrow> bool" where
  "active_of u v \<longleftrightarrow> rv_user_id v = u \<and> rv_status v = ReservationStatus.ACTIVE"

definition frozen_of :: "'a points_db_scheme \<Rightarrow> uuid \<Rightarrow> int" where
  "frozen_of s u = sum_rows (active_of u) rv_points (reservations s)"

definition OCCUPYING_STATUSES :: "RedemptionStatus list" where
  "OCCUPYING_STATUSES = [REQUESTED, UNDER_REVIEW, APPROVED, FULFILLED]"

definition occupies :: "uuid \<Rightarrow> redemption \<Rightarrow> bool" where
  "occupies i r \<longleftrightarrow> rd_item_id r = i \<and> rd_status r \<in> set OCCUPYING_STATUSES"

definition occupancy :: "'a points_db_scheme \<Rightarrow> uuid \<Rightarrow> int" where
  "occupancy s i = count_rows (occupies i) (redemptions s)"

definition used_quota :: "'a points_db_scheme \<Rightarrow> uuid \<Rightarrow> uuid \<Rightarrow> string \<Rightarrow> int" where
  "used_quota s u i term = count_rows (\<lambda>r. rd_user_id r = u \<and> rd_item_id r = i
     \<and> rd_term_key r = term \<and> rd_status r \<in> set OCCUPYING_STATUSES) (redemptions s)"

lemma occupying_iff [simp]: "st \<in> set OCCUPYING_STATUSES \<longleftrightarrow> st \<noteq> REJECTED"
  by (cases st) (simp_all add: OCCUPYING_STATUSES_def)

lemma balance_of_append [tbl]:
  "balance_of (t @ [e]) u = balance_of t u
     + (if le_user_id e = u \<and> le_affects_balance e then le_amount e else 0)"
  by (simp add: balance_of_def tbl)

lemma earned_of_append [tbl]:
  "earned_of (t @ [e]) u = earned_of t u
     + (if le_user_id e = u \<and> le_affects_ranking e \<and> 0 < le_amount e then le_amount e else 0)"
  by (simp add: earned_of_def tbl)

lemma earned_of_nonneg: "0 \<le> earned_of t u"
  unfolding earned_of_def by (rule sum_rows_nonneg) auto

lemma insert_ledger_Inr:
  "insert_ledger e t = Inr t' \<Longrightarrow> t' = t @ [e] \<and> le_amount e \<noteq> 0
     \<and> (le_affects_ranking e \<longrightarrow> le_ranking_effective_at e \<noteq> None)
     \<and> (le_type e = ADMIN_ADJUSTMENT \<longrightarrow> le_reason e \<noteq> None)
     \<and> le_id e \<notin> le_id ` set t \<and> source_triple e \<notin> source_triple ` set t"
  by (auto simp: insert_ledger_def split: if_splits)

text \<open>Writes to the shared part of the state leave the points tables alone.\<close>

lemma audit_append_points [simp]:
  "ledger (audit_append a act tt ti r d b af c s) = ledger s"
  "wallets (audit_append a act tt ti r d b af c s) = wallets s"
  "reward_items (audit_append a act tt ti r d b af c s) = reward_items s"
  "redemptions (audit_append a act tt ti r d b af c s) = redemptions s"
  "reservations (audit_append a act tt ti r d b af c s) = reservations s"
  "review_grants (audit_append a act tt ti r d b af c s) = review_grants s"
  by (simp_all add: audit_append_def)

lemma publish_event_points [simp]:
  "ledger (publish_event e s) = ledger s"
  "wallets (publish_event e s) = wallets s"
  "reward_items (publish_event e s) = reward_items s"
  "redemptions (publish_event e s) = redemptions s"
  "reservations (publish_event e s) = reservations s"
  "review_grants (publish_event e s) = review_grants s"
  by (simp_all add: publish_event_def)

lemma record_event_points [simp]:
  "ledger (record_event w n s) = ledger s"
  "wallets (record_event w n s) = wallets s"
  "reward_items (record_event w n s) = reward_items s"
  "redemptions (record_event w n s) = redemptions s"
  "reservations (record_event w n s) = reservations s"
  "review_grants (record_event w n s) = review_grants s"
  by (simp_all add: record_event_def)

lemma queries_cong [simp]:
  "wallet_of (audit_append a act tt ti r d b af c s) = wallet_of s"
  "frozen_of (audit_append a act tt ti r d b af c s) = frozen_of s"
  "occupancy (audit_append a act tt ti r d b af c s) = occupancy s"
  "wallet_of (record_event w n s) = wallet_of s"
  "frozen_of (record_event w n s) = frozen_of s"
  "occupancy (record_event w n s) = occupancy s"
  "wallet_of (publish_event e s) = wallet_of s"
  "frozen_of (publish_event e s) = frozen_of s"
  "occupancy (publish_event e s) = occupancy s"
  by (simp_all add: fun_eq_iff wallet_of_def frozen_of_def occupancy_def)

end
