(* ===== verification/Ledger.thy ===== *)
theory Ledger
  imports Points_Models
begin

text \<open>
  The points ledger (\<open>points/ledger_service.py\<close>): the posting command and its friendly gate, the
  append-only \<open>post_entry\<close> with the wallet projection, the spendable and summary reads, the
  idempotent assignment-reward grant and its admin reversal, and the ranking trigger fired by the
  caller's commit.  An operation takes the UUIDs the database would generate as arguments; an
  error leaves nothing written.

  Concurrency: balance-moving writers of one user serialize on the wallet row lock.  The one read
  that runs before the lock, the replay lookup of the grant, gets its own argument \<open>s0\<close>, the
  committed state that read saw; \<open>s\<close> is the state once the lock is held.
\<close>

section \<open>Command, errors, gate\<close>

record PostLedgerEntry =
  pe_user_id :: uuid
  pe_ledger_type :: LedgerType
  pe_amount :: int
  pe_source_type :: string
  pe_affects_balance :: bool
  pe_affects_ranking :: bool
  pe_ranking_effective_at :: "instant option"
  pe_source_id :: "uuid option"
  pe_reversal_of_id :: "uuid option"
  pe_operator_id :: "uuid option"
  pe_reason :: "string option"

record WalletSummary =
  ws_available_points :: int
  ws_earned_points :: int
  ws_spendable_points :: int

datatype ledger_error =
    InvalidLedgerEntry string
  | RewardReversalPermissionDenied uuid Role
  | RewardReversalReasonRequired uuid
  | LedgerEntryNotFound uuid
  | LedgerEntryNotReversible uuid LedgerType
  | RewardAlreadyReversed uuid uuid uuid
  | LedgerIntegrityError "constraint"
  | LedgerAssertionError

text \<open>The envelope of each typed error; an integrity or assertion failure has none.\<close>

fun ledger_envelope :: "ledger_error \<Rightarrow> business_error option" where
  "ledger_envelope (InvalidLedgerEntry field) =
     Some (Business VALIDATION_ERROR 422 [(''field'', JStr field)])"
| "ledger_envelope (RewardReversalPermissionDenied a r) =
     Some (Business PERMISSION_DENIED 403
       [(''actor_id'', JUuid a), (''role'', JStr (role_value r))])"
| "ledger_envelope (RewardReversalReasonRequired l) =
     Some (Business VALIDATION_ERROR 422 [(''ledger_id'', JUuid l), (''field'', JStr ''reason'')])"
| "ledger_envelope (LedgerEntryNotFound l) =
     Some (Business NOT_FOUND 404 [(''ledger_id'', JUuid l)])"
| "ledger_envelope (LedgerEntryNotReversible l ty) =
     Some (Business VALIDATION_ERROR 422
       [(''ledger_id'', JUuid l), (''ledger_type'', JStr (ledger_type_value ty))])"
| "ledger_envelope (RewardAlreadyReversed l src rvl) =
     Some (Business VALIDATION_ERROR 409
       [(''ledger_id'', JUuid l), (''source_id'', JUuid src), (''reversal_ledger_id'', JUuid rvl)])"
| "ledger_envelope (LedgerIntegrityError c) = None"
| "ledger_envelope LedgerAssertionError = None"

definition validate :: "PostLedgerEntry \<Rightarrow> ledger_error option" where
  "validate c =
     (if pe_amount c = 0 then Some (InvalidLedgerEntry ''amount'')
      else if pe_ledger_type c = ADMIN_ADJUSTMENT \<and> strip_or_none (pe_reason c) = None
      then Some (InvalidLedgerEntry ''reason'')
      else if pe_affects_ranking c \<and> pe_ranking_effective_at c = None
      then Some (InvalidLedgerEntry ''ranking_effective_at'')
      else if \<not> pe_affects_ranking c \<and> pe_ranking_effective_at c \<noteq> None
      then Some (InvalidLedgerEntry ''ranking_effective_at'')
      else if pe_source_id c = None \<and> pe_ledger_type c \<noteq> ADMIN_ADJUSTMENT
      then Some (InvalidLedgerEntry ''source_id'')
      else None)"

section \<open>Posting\<close>

definition locked_or_created_wallet :: "uuid \<Rightarrow> 'a points_db_scheme \<Rightarrow> 'a points_db_scheme" where
  "locked_or_created_wallet u s = (case wallets s u of
       None \<Rightarrow> s\<lparr>wallets := (wallets s)(u \<mapsto> empty_wallet)\<rparr>
     | Some _ \<Rightarrow> s)"

definition entry_of :: "uuid \<Rightarrow> uuid \<Rightarrow> PostLedgerEntry \<Rightarrow> ledger_row" where
  "entry_of eid minted c =
     \<lparr>le_id = eid, le_user_id = pe_user_id c, le_type = pe_ledger_type c,
      le_amount = pe_amount c, le_source_type = pe_source_type c,
      le_source_id = (case pe_source_id c of Some i \<Rightarrow> i | None \<Rightarrow> minted),
      le_affects_balance = pe_affects_balance c, le_affects_ranking = pe_affects_ranking c,
      le_ranking_effective_at = pe_ranking_effective_at c,
      le_reversal_of_id = pe_reversal_of_id c, le_operator_id = pe_operator_id c,
      le_reason = strip_or_none (pe_reason c)\<rparr>"

definition post_entry ::
  "uuid \<Rightarrow> uuid \<Rightarrow> PostLedgerEntry \<Rightarrow> 'a points_db_scheme
    \<Rightarrow> ledger_error + ('a points_db_scheme \<times> ledger_row)" where
  "post_entry eid minted c s = (case validate c of Some e \<Rightarrow> Inl e | None \<Rightarrow>
     (let touches_balance = pe_affects_balance c;
          touches_earned = (pe_affects_ranking c \<and> 0 < pe_amount c);
          s1 = (if touches_balance \<or> touches_earned
                then locked_or_created_wallet (pe_user_id c) s else s);
          entry = entry_of eid minted c
      in case insert_ledger entry (ledger s1) of
           Inl k \<Rightarrow> Inl (LedgerIntegrityError k)
         | Inr t \<Rightarrow>
             (let w = wallet_of s1 (pe_user_id c);
                  w1 = (if touches_balance
                        then w\<lparr>available_points := available_points w + pe_amount c\<rparr> else w);
                  w2 = (if touches_earned
                        then w1\<lparr>earned_points := earned_points w1 + pe_amount c\<rparr> else w1);
                  s2 = s1\<lparr>ledger := t\<rparr>
              in Inr (if touches_balance \<or> touches_earned
                      then s2\<lparr>wallets := (wallets s2)(pe_user_id c \<mapsto> w2)\<rparr> else s2,
                      entry))))"

section \<open>Reads\<close>

definition get_spendable_points :: "'a points_db_scheme \<Rightarrow> uuid \<Rightarrow> int" where
  "get_spendable_points s u = (case wallets s u of
       None \<Rightarrow> 0
     | Some w \<Rightarrow> available_points w - frozen_of s u)"

definition get_wallet_summary :: "'a points_db_scheme \<Rightarrow> uuid \<Rightarrow> WalletSummary" where
  "get_wallet_summary s u = (case wallets s u of
       None \<Rightarrow> \<lparr>ws_available_points = 0, ws_earned_points = 0, ws_spendable_points = 0\<rparr>
     | Some w \<Rightarrow> \<lparr>ws_available_points = available_points w, ws_earned_points = earned_points w,
                  ws_spendable_points = available_points w - frozen_of s u\<rparr>)"

section \<open>The ranking trigger\<close>

definition resolve_dispatcher :: "dispatcher option \<Rightarrow> dispatcher option \<Rightarrow> dispatcher option" where
  "resolve_dispatcher override dflt = (case override of Some d \<Rightarrow> Some d | None \<Rightarrow> dflt)"

definition enqueue_after_commit ::
  "dispatcher option \<Rightarrow> uuid \<Rightarrow> instant \<Rightarrow> string option \<Rightarrow> 'a core_db_scheme \<Rightarrow> 'a core_db_scheme"
where
  "enqueue_after_commit disp u at req s = (case disp of
       None \<Rightarrow> s
     | Some d \<Rightarrow> s\<lparr>armed_jobs := armed_jobs s @
         [(d, \<lparr>rj_user_id = u, rj_effective_at = at, rj_request_id = req\<rparr>)]\<rparr>)"

text \<open>The caller's commit fires every armed listener once; a failed publish is swallowed.\<close>

definition commit :: "'a core_db_scheme \<Rightarrow> 'a core_db_scheme" where
  "commit s = s\<lparr>ranking_jobs := ranking_jobs s @ [j. (d, j) \<leftarrow> armed_jobs s, d j],
                armed_jobs := []\<rparr>"

section \<open>Grant and reversal\<close>

definition ASSIGNMENT_CLAIM_SOURCE :: string where
  "ASSIGNMENT_CLAIM_SOURCE = ''ASSIGNMENT_CLAIM''"

definition claim_reward :: "uuid \<Rightarrow> ledger_row list \<Rightarrow> ledger_row option" where
  "claim_reward cid t =
     row_of source_triple (ASSIGNMENT_CLAIM_SOURCE, cid, ASSIGNMENT_REWARD) t"

definition claim_reversal :: "string \<Rightarrow> uuid \<Rightarrow> ledger_row list \<Rightarrow> ledger_row option" where
  "claim_reversal st sid t = row_of source_triple (st, sid, ASSIGNMENT_REWARD_REVERSAL) t"

definition grant_command :: "uuid \<Rightarrow> uuid \<Rightarrow> int \<Rightarrow> instant \<Rightarrow> PostLedgerEntry" where
  "grant_command cid u amount at =
     \<lparr>pe_user_id = u, pe_ledger_type = ASSIGNMENT_REWARD, pe_amount = amount,
      pe_source_type = ASSIGNMENT_CLAIM_SOURCE, pe_affects_balance = True,
      pe_affects_ranking = True, pe_ranking_effective_at = Some at, pe_source_id = Some cid,
      pe_reversal_of_id = None, pe_operator_id = None, pe_reason = None\<rparr>"

definition grant_assignment_reward ::
  "'b points_db_scheme \<Rightarrow> uuid \<Rightarrow> uuid \<Rightarrow> uuid \<Rightarrow> uuid \<Rightarrow> int \<Rightarrow> instant option
    \<Rightarrow> dispatcher option \<Rightarrow> dispatcher option \<Rightarrow> string option \<Rightarrow> 'a points_db_scheme
    \<Rightarrow> ledger_error + ('a points_db_scheme \<times> ledger_row)" where
  "grant_assignment_reward s0 eid minted cid u amount at override dflt req s =
     (if amount \<le> 0 then Inl (InvalidLedgerEntry ''amount'')
      else case at of None \<Rightarrow> Inl (InvalidLedgerEntry ''ranking_effective_at'')
      | Some eff \<Rightarrow>
         (case claim_reward cid (ledger s0) of
            Some existing \<Rightarrow> Inr (s, existing)
          | None \<Rightarrow>
              (case post_entry eid minted (grant_command cid u amount eff) s of
                 Inl e \<Rightarrow>
                   (if e = LedgerIntegrityError Uq_source_triple
                    then (case claim_reward cid (ledger s) of
                            None \<Rightarrow> Inl e
                          | Some existing \<Rightarrow> Inr (s, existing))
                    else Inl e)
               | Inr (s', entry) \<Rightarrow>
                   Inr (enqueue_after_commit (resolve_dispatcher override dflt) u eff req s',
                        entry))))"

definition reversal_command ::
  "ledger_row \<Rightarrow> uuid \<Rightarrow> actor \<Rightarrow> instant \<Rightarrow> string \<Rightarrow> PostLedgerEntry" where
  "reversal_command original lid actor at reason =
     \<lparr>pe_user_id = le_user_id original, pe_ledger_type = ASSIGNMENT_REWARD_REVERSAL,
      pe_amount = - le_amount original, pe_source_type = le_source_type original,
      pe_affects_balance = True, pe_affects_ranking = True,
      pe_ranking_effective_at = Some at, pe_source_id = Some (le_source_id original),
      pe_reversal_of_id = Some lid, pe_operator_id = Some (actor_user_id actor),
      pe_reason = Some reason\<rparr>"

definition audit_reversal ::
  "actor \<Rightarrow> uuid \<Rightarrow> ledger_row \<Rightarrow> ledger_row \<Rightarrow> string \<Rightarrow> int \<Rightarrow> int \<Rightarrow> audit_context option
    \<Rightarrow> 'a core_db_scheme \<Rightarrow> 'a core_db_scheme" where
  "audit_reversal actor lid original rvl reason before after ctx =
     audit_append actor ''REWARD_REVERSAL'' ''points_ledger'' lid (Some reason)
       (Some (dict [(''user_id'', JUuid (le_user_id original))]))
       (Some (dict [(''wallet_available_points'', JInt before)]))
       (Some (dict [(''wallet_available_points'', JInt after),
                    (''reversal_amount'', JInt (le_amount rvl)),
                    (''original_ledger_id'', JUuid lid),
                    (''source_type'', JStr (le_source_type original)),
                    (''source_id'', JUuid (le_source_id original))]))
       ctx"

definition reverse_assignment_reward ::
  "uuid \<Rightarrow> uuid \<Rightarrow> actor \<Rightarrow> uuid \<Rightarrow> string option \<Rightarrow> dispatcher option \<Rightarrow> dispatcher option
    \<Rightarrow> string option \<Rightarrow> audit_context option \<Rightarrow> 'a points_db_scheme
    \<Rightarrow> ledger_error + ('a points_db_scheme \<times> ledger_row)" where
  "reverse_assignment_reward eid minted actor lid reason override dflt req ctx s =
     (case strip_or_none reason of None \<Rightarrow> Inl (RewardReversalReasonRequired lid)
      | Some reason_text \<Rightarrow>
      if actor_role actor \<noteq> ADMIN
      then Inl (RewardReversalPermissionDenied (actor_user_id actor) (actor_role actor))
      else case row_of le_id lid (ledger s) of None \<Rightarrow> Inl (LedgerEntryNotFound lid)
      | Some original \<Rightarrow>
      if le_type original \<noteq> ASSIGNMENT_REWARD
      then Inl (LedgerEntryNotReversible lid (le_type original))
      else case le_ranking_effective_at original of None \<Rightarrow> Inl LedgerAssertionError
      | Some eff \<Rightarrow>
        (let st = le_source_type original; sid = le_source_id original;
             u = le_user_id original;
             s1 = locked_or_created_wallet u s;
             before = available_points (wallet_of s1 u)
         in case claim_reversal st sid (ledger s1) of
              Some existing \<Rightarrow> Inl (RewardAlreadyReversed lid sid (le_id existing))
            | None \<Rightarrow>
                (case post_entry eid minted (reversal_command original lid actor eff reason_text) s1 of
                   Inl e \<Rightarrow>
                     (if e = LedgerIntegrityError Uq_source_triple
                      then (case claim_reversal st sid (ledger s1) of
                              None \<Rightarrow> Inl e
                            | Some winner \<Rightarrow> Inl (RewardAlreadyReversed lid sid (le_id winner)))
                      else Inl e)
                 | Inr (s2, rvl) \<Rightarrow>
                     (let after = available_points (wallet_of s2 u);
                          s3 = audit_reversal actor lid original rvl reason_text before after ctx s2
                      in Inr (enqueue_after_commit (resolve_dispatcher override dflt) u eff req s3,
                              rvl)))))"

section \<open>What a posting does\<close>

lemma locked_wallet_simps [simp]:
  "ledger (locked_or_created_wallet u s) = ledger s"
  "reservations (locked_or_created_wallet u s) = reservations s"
  "redemptions (locked_or_created_wallet u s) = redemptions s"
  "reward_items (locked_or_created_wallet u s) = reward_items s"
  "review_grants (locked_or_created_wallet u s) = review_grants s"
  "audit_logs (locked_or_created_wallet u s) = audit_logs s"
  "domain_events (locked_or_created_wallet u s) = domain_events s"
  "notifications (locked_or_created_wallet u s) = notifications s"
  "armed_jobs (locked_or_created_wallet u s) = armed_jobs s"
  "ranking_jobs (locked_or_created_wallet u s) = ranking_jobs s"
  "points_db.more (locked_or_created_wallet u s) = points_db.more s"
  by (simp_all add: locked_or_created_wallet_def split: option.split)

lemma wallet_of_locked [simp]: "wallet_of (locked_or_created_wallet u s) = wallet_of s"
  by (auto simp: wallet_of_def locked_or_created_wallet_def split: option.split)

lemma wallet_of_upd [simp]:
  "wallet_of (s\<lparr>ledger := l, wallets := (wallets s)(k \<mapsto> w)\<rparr>) u =
     (if u = k then w else wallet_of s u)"
  "wallet_of (s\<lparr>ledger := l\<rparr>) u = wallet_of s u"
  by (simp_all add: wallet_of_def)

lemma locked_wallet_exists: "wallets (locked_or_created_wallet u s) u \<noteq> None"
  by (simp add: locked_or_created_wallet_def split: option.split)

lemma queries_locked [simp]:
  "frozen_of (locked_or_created_wallet u s) = frozen_of s"
  "occupancy (locked_or_created_wallet u s) = occupancy s"
  by (simp_all add: fun_eq_iff frozen_of_def occupancy_def)

lemma enqueue_simps [simp]:
  "audit_logs (enqueue_after_commit d u a r s) = audit_logs s"
  "domain_events (enqueue_after_commit d u a r s) = domain_events s"
  "notifications (enqueue_after_commit d u a r s) = notifications s"
  "ranking_jobs (enqueue_after_commit d u a r s) = ranking_jobs s"
  by (simp_all add: enqueue_after_commit_def split: option.split)

lemma enqueue_points [simp]:
  "ledger (enqueue_after_commit d u a r s) = ledger s"
  "wallets (enqueue_after_commit d u a r s) = wallets s"
  "reward_items (enqueue_after_commit d u a r s) = reward_items s"
  "redemptions (enqueue_after_commit d u a r s) = redemptions s"
  "reservations (enqueue_after_commit d u a r s) = reservations s"
  "review_grants (enqueue_after_commit d u a r s) = review_grants s"
  "wallet_of (enqueue_after_commit d u a r s) = wallet_of s"
  "points_db.more (enqueue_after_commit d u a r s) = points_db.more s"
  by (simp_all add: enqueue_after_commit_def wallet_of_def fun_eq_iff split: option.split)

lemma entry_of_simps [simp]:
  "le_id (entry_of eid m c) = eid"
  "le_user_id (entry_of eid m c) = pe_user_id c"
  "le_type (entry_of eid m c) = pe_ledger_type c"
  "le_amount (entry_of eid m c) = pe_amount c"
  "le_source_type (entry_of eid m c) = pe_source_type c"
  "le_affects_balance (entry_of eid m c) = pe_affects_balance c"
  "le_affects_ranking (entry_of eid m c) = pe_affects_ranking c"
  "le_ranking_effective_at (entry_of eid m c) = pe_ranking_effective_at c"
  "le_reversal_of_id (entry_of eid m c) = pe_reversal_of_id c"
  "le_operator_id (entry_of eid m c) = pe_operator_id c"
  "le_reason (entry_of eid m c) = strip_or_none (pe_reason c)"
  by (simp_all add: entry_of_def)

lemma source_id_entry_of [simp]:
  "pe_source_id c = Some i \<Longrightarrow> le_source_id (entry_of eid m c) = i"
  by (simp add: entry_of_def)

text \<open>
  \<open>post_entry\<close> in one statement: the row is the command's, the ledger grows by exactly that row,
  only the command's user has a different wallet, and no other table moves.
\<close>

lemma post_entry_InrD:
  assumes "post_entry eid minted c s = Inr (s', e)"
  shows "validate c = None"
    and "e = entry_of eid minted c"
    and "insert_ledger e (ledger s) = Inr (ledger s')"
    and "ledger s' = ledger s @ [e]"
    and "wallet_of s' u = (let w = wallet_of s u in if u = pe_user_id c
           then \<lparr>available_points = available_points w
                   + (if pe_affects_balance c then pe_amount c else 0),
                 earned_points = earned_points w
                   + (if pe_affects_ranking c \<and> 0 < pe_amount c then pe_amount c else 0)\<rparr>
           else w)"
    and "reservations s' = reservations s"
    and "redemptions s' = redemptions s"
    and "reward_items s' = reward_items s"
    and "review_grants s' = review_grants s"
    and "audit_logs s' = audit_logs s"
    and "domain_events s' = domain_events s"
    and "notifications s' = notifications s"
    and "armed_jobs s' = armed_jobs s"
    and "ranking_jobs s' = ranking_jobs s"
    and "points_db.more s' = points_db.more s"
proof -
  show v: "validate c = None"
    using assms by (simp add: post_entry_def split: option.splits)
  note d = assms [unfolded post_entry_def v option.case Let_def]
  show "e = entry_of eid minted c" and i: "insert_ledger e (ledger s) = Inr (ledger s')"
    and "reservations s' = reservations s" and "redemptions s' = redemptions s"
    and "reward_items s' = reward_items s" and "review_grants s' = review_grants s"
    and "audit_logs s' = audit_logs s" and "domain_events s' = domain_events s"
    and "notifications s' = notifications s" and "armed_jobs s' = armed_jobs s"
    and "ranking_jobs s' = ranking_jobs s" and "points_db.more s' = points_db.more s"
    using d by (auto split: if_splits sum.splits)
  show "ledger s' = ledger s @ [e]"
    using insert_ledger_Inr [OF i] by simp
  show "wallet_of s' u = (let w = wallet_of s u in if u = pe_user_id c
           then \<lparr>available_points = available_points w
                   + (if pe_affects_balance c then pe_amount c else 0),
                 earned_points = earned_points w
                   + (if pe_affects_ranking c \<and> 0 < pe_amount c then pe_amount c else 0)\<rparr>
           else w)"
    using d by (auto simp: Let_def split: if_splits sum.splits)
qed

lemma queries_post_entry:
  assumes "post_entry eid minted c s = Inr (s', e)"
  shows "frozen_of s' = frozen_of s" and "occupancy s' = occupancy s"
  using post_entry_InrD(6,7) [OF assms] by (simp_all add: fun_eq_iff frozen_of_def occupancy_def)

lemma post_entry_wallet_exists:
  assumes "post_entry eid minted c s = Inr (s', e)" and "pe_affects_balance c"
  shows "wallets s' (pe_user_id c) \<noteq> None"
  using assms by (auto simp: post_entry_def Let_def split: option.splits sum.splits)

text \<open>When a validated command is refused, it is by a constraint of the table.\<close>

lemma post_entry_Inl:
  "post_entry eid minted c s = Inl e \<Longrightarrow> validate c = Some e \<or>
     (validate c = None \<and> (\<exists>k. e = LedgerIntegrityError k
        \<and> insert_ledger (entry_of eid minted c) (ledger s) = Inl k))"
  by (auto simp: post_entry_def Let_def split: option.splits sum.splits if_splits)

lemma post_entry_ok:
  assumes "validate c = None" and "eid \<notin> le_id ` set (ledger s)"
    and "source_triple (entry_of eid minted c) \<notin> source_triple ` set (ledger s)"
  shows "\<exists>s'. post_entry eid minted c s = Inr (s', entry_of eid minted c)"
proof -
  have "insert_ledger (entry_of eid minted c) (ledger s) = Inr (ledger s @ [entry_of eid minted c])"
    using assms by (auto simp: insert_ledger_def validate_def split: if_splits)
  then show ?thesis
    using assms(1) by (auto simp: post_entry_def Let_def)
qed

section \<open>The ledger contract\<close>

text \<open>
  \<open>projects\<close> is the rebuild rule of the wallet: both figures are sums over the ledger.
  \<open>rows_ok\<close> collects what the constraints of the table and the services' own posting rules
  keep of its rows: grants are positive and fully attributed, and a reversal mirrors the grant it
  points to.
\<close>

definition projects :: "(uuid \<Rightarrow> int) \<Rightarrow> (uuid \<Rightarrow> int) \<Rightarrow> ledger_row list \<Rightarrow> bool" where
  "projects av ea t \<longleftrightarrow> (\<forall>u. av u = balance_of t u \<and> ea u = earned_of t u)"

definition row_checks :: "ledger_row \<Rightarrow> bool" where
  "row_checks e \<longleftrightarrow> le_amount e \<noteq> 0
     \<and> (le_affects_ranking e \<longrightarrow> le_ranking_effective_at e \<noteq> None)
     \<and> (le_type e = ADMIN_ADJUSTMENT \<longrightarrow> le_reason e \<noteq> None)"

definition table_ok :: "ledger_row list \<Rightarrow> bool" where
  "table_ok t \<longleftrightarrow> distinct (map le_id t) \<and> distinct (map source_triple t) \<and> list_all row_checks t"

definition grant_row :: "ledger_row \<Rightarrow> bool" where
  "grant_row e \<longleftrightarrow> 0 < le_amount e \<and> le_affects_balance e \<and> le_affects_ranking e
     \<and> le_source_type e = ASSIGNMENT_CLAIM_SOURCE \<and> le_ranking_effective_at e \<noteq> None"

definition mirrors :: "ledger_row \<Rightarrow> ledger_row \<Rightarrow> bool" where
  "mirrors e g \<longleftrightarrow> le_type g = ASSIGNMENT_REWARD \<and> le_reversal_of_id e = Some (le_id g)
     \<and> le_user_id e = le_user_id g \<and> le_amount e = - le_amount g
     \<and> le_source_type e = le_source_type g \<and> le_source_id e = le_source_id g
     \<and> le_ranking_effective_at e = le_ranking_effective_at g
     \<and> le_affects_balance e \<and> le_affects_ranking e"

definition services_ok :: "ledger_row list \<Rightarrow> bool" where
  "services_ok t \<longleftrightarrow>
     (\<forall>e\<in>set t. le_type e = ASSIGNMENT_REWARD \<longrightarrow> grant_row e) \<and>
     (\<forall>e\<in>set t. le_type e = ASSIGNMENT_REWARD_REVERSAL \<longrightarrow> (\<exists>g\<in>set t. mirrors e g))"

definition ledger_inv :: "'a points_db_scheme \<Rightarrow> bool" where
  "ledger_inv s \<longleftrightarrow> table_ok (ledger s) \<and> services_ok (ledger s)
     \<and> projects (\<lambda>u. available_points (wallet_of s u)) (\<lambda>u. earned_points (wallet_of s u)) (ledger s)"

text \<open>
  The interface the redemption, adjustment and review services rely on: posting appends one row
  that the constraints admit and moves the figures of the command's user only.
\<close>

locale ledger_port =
  fixes post :: "uuid \<Rightarrow> uuid \<Rightarrow> PostLedgerEntry \<Rightarrow> 's \<Rightarrow> ledger_error + ('s \<times> ledger_row)"
    and entries :: "'s \<Rightarrow> ledger_row list"
    and available :: "'s \<Rightarrow> uuid \<Rightarrow> int"
    and earned :: "'s \<Rightarrow> uuid \<Rightarrow> int"
  assumes post_admits: "post eid m c s = Inr (s', e) \<Longrightarrow>
      e = entry_of eid m c \<and> insert_ledger e (entries s) = Inr (entries s')"
    and post_available: "post eid m c s = Inr (s', e) \<Longrightarrow> available s' u = available s u
      + (if u = pe_user_id c \<and> pe_affects_balance c then pe_amount c else 0)"
    and post_earned: "post eid m c s = Inr (s', e) \<Longrightarrow> earned s' u = earned s u
      + (if u = pe_user_id c \<and> pe_affects_ranking c \<and> 0 < pe_amount c then pe_amount c else 0)"
begin

lemma post_appends:
  assumes "post eid m c s = Inr (s', e)"
  shows "entries s' = entries s @ [e]"
  using insert_ledger_Inr [OF conjunct2 [OF post_admits [OF assms]]] by simp

lemma post_keeps_projection:
  assumes "post eid m c s = Inr (s', e)" "projects (available s) (earned s) (entries s)"
  shows "projects (available s') (earned s') (entries s')"
  using assms(2) post_admits [OF assms(1)]
  by (auto simp: projects_def post_appends [OF assms(1)] post_available [OF assms(1)]
      post_earned [OF assms(1)] tbl)

lemma post_keeps_table:
  assumes "post eid m c s = Inr (s', e)" "table_ok (entries s)"
  shows "table_ok (entries s')"
proof -
  have "insert_ledger e (entries s) = Inr (entries s')"
    by (rule conjunct2 [OF post_admits [OF assms(1)]])
  from insert_ledger_Inr [OF this] assms(2) show ?thesis
    by (auto simp: table_ok_def row_checks_def)
qed

end

lemma post_wallet_figures:
  assumes "post_entry eid m c s = Inr (s', e)"
  shows "available_points (wallet_of s' u) = available_points (wallet_of s u)
      + (if u = pe_user_id c \<and> pe_affects_balance c then pe_amount c else 0)"
    and "earned_points (wallet_of s' u) = earned_points (wallet_of s u)
      + (if u = pe_user_id c \<and> pe_affects_ranking c \<and> 0 < pe_amount c then pe_amount c else 0)"
  using post_entry_InrD(5) [OF assms, of u] by (simp_all add: Let_def)

interpretation points_ledger: ledger_port post_entry ledger
  "\<lambda>s u. available_points (wallet_of s u)" "\<lambda>s u. earned_points (wallet_of s u)"
proof unfold_locales
  fix eid m c and s s' :: "'a points_db_scheme" and e u
  assume p: "post_entry eid m c s = Inr (s', e)"
  show "e = entry_of eid m c \<and> insert_ledger e (ledger s) = Inr (ledger s')"
    using post_entry_InrD(2,3) [OF p] by simp
qed (fact post_wallet_figures)+

lemma services_ok_append:
  assumes "services_ok t"
    and "le_type e = ASSIGNMENT_REWARD \<Longrightarrow> grant_row e"
    and "le_type e = ASSIGNMENT_REWARD_REVERSAL \<Longrightarrow> \<exists>g\<in>set t. mirrors e g"
  shows "services_ok (t @ [e])"
  using assms by (auto simp: services_ok_def)

lemma post_keeps_ledger_inv:
  assumes p: "post_entry eid m c s = Inr (s', e)" and inv: "ledger_inv s"
    and g: "le_type e = ASSIGNMENT_REWARD \<Longrightarrow> grant_row e"
    and r: "le_type e = ASSIGNMENT_REWARD_REVERSAL \<Longrightarrow> \<exists>g\<in>set (ledger s). mirrors e g"
  shows "ledger_inv s'"
proof -
  have "services_ok (ledger s')"
    unfolding points_ledger.post_appends [OF p]
    using inv g r by (intro services_ok_append) (auto simp: ledger_inv_def)
  then show ?thesis
    using inv points_ledger.post_keeps_table [OF p] points_ledger.post_keeps_projection [OF p]
    by (simp add: ledger_inv_def)
qed

lemma ledger_inv_cong:
  "ledger t = ledger s \<Longrightarrow> wallet_of t = wallet_of s \<Longrightarrow> ledger_inv t = ledger_inv s"
  by (simp add: ledger_inv_def)

lemma claim_reward_unique:
  assumes "table_ok t" "e \<in> set t"
    "source_triple e = (ASSIGNMENT_CLAIM_SOURCE, cid, ASSIGNMENT_REWARD)"
  shows "claim_reward cid t = Some e"
  using assms row_of_unique [of source_triple t e] by (simp add: claim_reward_def table_ok_def)

section \<open>The grant\<close>

lemma post_entry_refused:
  "validate c = None \<Longrightarrow> insert_ledger (entry_of eid m c) (ledger s) = Inl k
    \<Longrightarrow> post_entry eid m c s = Inl (LedgerIntegrityError k)"
  by (simp add: post_entry_def Let_def)

lemma validate_grant [simp]: "validate (grant_command cid u amount at) = None \<longleftrightarrow> amount \<noteq> 0"
  by (simp add: validate_def grant_command_def)

lemma triple_grant [simp]: "source_triple (entry_of eid m (grant_command cid u amount at)) =
    (ASSIGNMENT_CLAIM_SOURCE, cid, ASSIGNMENT_REWARD)"
  by (simp add: source_triple_def entry_of_def grant_command_def)

lemma claim_reward_None:
  "claim_reward cid t = None
   \<longleftrightarrow> (ASSIGNMENT_CLAIM_SOURCE, cid, ASSIGNMENT_REWARD) \<notin> source_triple ` set t"
  by (simp add: claim_reward_def row_of_None)

lemma claim_reward_SomeD:
  "claim_reward cid t = Some e \<Longrightarrow> e \<in> set t
     \<and> source_triple e = (ASSIGNMENT_CLAIM_SOURCE, cid, ASSIGNMENT_REWARD)"
  unfolding claim_reward_def by (rule row_of_SomeD)

lemma grant_new:
  assumes "ledger_inv s" "claim_reward cid (ledger s) = None" "0 < amount"
    "eid \<notin> le_id ` set (ledger s)"
  obtains s1 where "post_entry eid m (grant_command cid u amount at) s
      = Inr (s1, entry_of eid m (grant_command cid u amount at))"
    and "ledger_inv s1"
proof -
  let ?c = "grant_command cid u amount at"
  obtain s1 where p: "post_entry eid m ?c s = Inr (s1, entry_of eid m ?c)"
    using post_entry_ok [of ?c eid s m] assms by (auto simp: claim_reward_None)
  moreover have "ledger_inv s1"
    by (rule post_keeps_ledger_inv [OF p assms(1)])
      (use assms(3) in \<open>auto simp: grant_row_def grant_command_def\<close>)
  ultimately show ?thesis by (rule that)
qed

lemma ledger_inv_enqueue [simp]: "ledger_inv (enqueue_after_commit d u a r s) = ledger_inv s"
  by (rule ledger_inv_cong) simp_all

lemma armed_enqueue [simp]:
  "armed_jobs (enqueue_after_commit d u a r s) = armed_jobs s @ (case d of None \<Rightarrow> []
     | Some d \<Rightarrow> [(d, \<lparr>rj_user_id = u, rj_effective_at = a, rj_request_id = r\<rparr>)])"
  by (simp add: enqueue_after_commit_def split: option.split)

lemma grant_command_simps [simp]:
  "pe_user_id (grant_command cid u amount at) = u"
  "pe_ledger_type (grant_command cid u amount at) = ASSIGNMENT_REWARD"
  "pe_amount (grant_command cid u amount at) = amount"
  "pe_affects_balance (grant_command cid u amount at)"
  "pe_affects_ranking (grant_command cid u amount at)"
  "pe_ranking_effective_at (grant_command cid u amount at) = Some at"
  "pe_source_id (grant_command cid u amount at) = Some cid"
  by (simp_all add: grant_command_def)

text \<open>C4: For a well-formed ledger and a positive amount the grant of a claim always succeeds and
  pays the claim exactly once: if the claim has its reward row already, that row is returned and
  nothing is written; otherwise one row is appended, the user's available and earned points both
  rise by the amount, and one projection job is armed for the caller's commit.  It holds whatever
  earlier committed state the lock-free replay read saw.\<close>

theorem grant_pays_each_claim_once:
  assumes inv: "ledger_inv s" and seen: "set (ledger s0) \<subseteq> set (ledger s)"
    and amount: "0 < amount" and fresh: "eid \<notin> le_id ` set (ledger s)"
  shows "\<exists>s' e. grant_assignment_reward s0 eid m cid u amount (Some at) ov df req s = Inr (s', e)
    \<and> ledger_inv s' \<and> claim_reward cid (ledger s') = Some e
    \<and> (case claim_reward cid (ledger s) of
         Some old \<Rightarrow> s' = s \<and> e = old
       | None \<Rightarrow> ledger s' = ledger s @ [e] \<and> le_user_id e = u \<and> le_amount e = amount
           \<and> le_ranking_effective_at e = Some at
           \<and> available_points (wallet_of s' u) = available_points (wallet_of s u) + amount
           \<and> earned_points (wallet_of s' u) = earned_points (wallet_of s u) + amount
           \<and> armed_jobs s' = armed_jobs s @ (case resolve_dispatcher ov df of None \<Rightarrow> []
               | Some d \<Rightarrow> [(d, \<lparr>rj_user_id = u, rj_effective_at = at, rj_request_id = req\<rparr>)]))"
proof (cases "claim_reward cid (ledger s)")
  case None
  let ?c = "grant_command cid u amount at"
  from None seen have none0: "claim_reward cid (ledger s0) = None"
    by (auto simp: claim_reward_None)
  obtain s1 where p: "post_entry eid m ?c s = Inr (s1, entry_of eid m ?c)" and inv1: "ledger_inv s1"
    using grant_new [OF inv None amount fresh] by blast
  note eff = post_entry_InrD [OF p]
  have "claim_reward cid (ledger s1) = Some (entry_of eid m ?c)"
    by (rule claim_reward_unique) (use inv1 eff(4) in \<open>auto simp: ledger_inv_def\<close>)
  moreover have "grant_assignment_reward s0 eid m cid u amount (Some at) ov df req s =
      Inr (enqueue_after_commit (resolve_dispatcher ov df) u at req s1, entry_of eid m ?c)"
    using none0 p amount by (simp add: grant_assignment_reward_def)
  ultimately show ?thesis
    using None inv1 eff(4,13) amount
    by (simp add: post_wallet_figures [OF p])
next
  case (Some old)
  show ?thesis
  proof (cases "claim_reward cid (ledger s0)")
    case (Some e0)
    with seen have "claim_reward cid (ledger s) = Some e0"
      using claim_reward_SomeD [OF Some] inv
      by (intro claim_reward_unique) (auto simp: ledger_inv_def)
    with Some \<open>claim_reward cid (ledger s) = Some old\<close> amount inv show ?thesis
      by (simp add: grant_assignment_reward_def)
  next
    case none0: None
    let ?c = "grant_command cid u amount at"
    have "insert_ledger (entry_of eid m ?c) (ledger s) = Inl Uq_source_triple"
      using claim_reward_SomeD [OF Some] amount fresh
      by (auto simp: insert_ledger_def grant_command_def entry_of_def source_triple_def image_iff)
    then have "post_entry eid m ?c s = Inl (LedgerIntegrityError Uq_source_triple)"
      using amount by (intro post_entry_refused) simp_all
    with none0 Some amount inv show ?thesis
      by (simp add: grant_assignment_reward_def)
  qed
qed
section \<open>The reversal\<close>

lemma reversal_command_simps [simp]:
  "pe_user_id (reversal_command g lid a at r) = le_user_id g"
  "pe_ledger_type (reversal_command g lid a at r) = ASSIGNMENT_REWARD_REVERSAL"
  "pe_amount (reversal_command g lid a at r) = - le_amount g"
  "pe_source_type (reversal_command g lid a at r) = le_source_type g"
  "pe_affects_balance (reversal_command g lid a at r)"
  "pe_affects_ranking (reversal_command g lid a at r)"
  "pe_ranking_effective_at (reversal_command g lid a at r) = Some at"
  "pe_source_id (reversal_command g lid a at r) = Some (le_source_id g)"
  "pe_reversal_of_id (reversal_command g lid a at r) = Some lid"
  "pe_operator_id (reversal_command g lid a at r) = Some (actor_user_id a)"
  "pe_reason (reversal_command g lid a at r) = Some r"
  by (simp_all add: reversal_command_def)

lemma validate_reversal [simp]:
  "validate (reversal_command g lid a at r) = None \<longleftrightarrow> le_amount g \<noteq> 0"
  by (simp add: validate_def)

lemma triple_reversal [simp]: "source_triple (entry_of eid m (reversal_command g lid a at r)) =
    (le_source_type g, le_source_id g, ASSIGNMENT_REWARD_REVERSAL)"
  by (simp add: source_triple_def)

lemma claim_reversal_None:
  "claim_reversal st sid t = None
   \<longleftrightarrow> (st, sid, ASSIGNMENT_REWARD_REVERSAL) \<notin> source_triple ` set t"
  by (simp add: claim_reversal_def row_of_None)

lemma claim_reversal_unique:
  assumes "table_ok t" "e \<in> set t" "source_triple e = (st, sid, ASSIGNMENT_REWARD_REVERSAL)"
  shows "claim_reversal st sid t = Some e"
  using assms row_of_unique [of source_triple t e] by (simp add: claim_reversal_def table_ok_def)

lemma inv_reward_row:
  assumes "ledger_inv s" "row_of le_id lid (ledger s) = Some g" "le_type g = ASSIGNMENT_REWARD"
  shows "g \<in> set (ledger s)" and "le_id g = lid" and "grant_row g" and "0 < le_amount g"
    and "\<exists>eff. le_ranking_effective_at g = Some eff"
  using row_of_SomeD [OF assms(2)] assms(1,3)
  by (auto simp: ledger_inv_def services_ok_def grant_row_def)

lemma reverse_gates:
  assumes "strip_or_none reason = Some r" "actor_role actor = ADMIN"
    "row_of le_id lid (ledger s) = Some g" "le_type g = ASSIGNMENT_REWARD"
    "le_ranking_effective_at g = Some eff"
  shows "claim_reversal (le_source_type g) (le_source_id g) (ledger s) = Some old \<Longrightarrow>
      reverse_assignment_reward eid m actor lid reason ov df req ctx s
        = Inl (RewardAlreadyReversed lid (le_source_id g) (le_id old))"
    and "claim_reversal (le_source_type g) (le_source_id g) (ledger s) = None \<Longrightarrow>
      post_entry eid m (reversal_command g lid actor eff r)
        (locked_or_created_wallet (le_user_id g) s) = Inr (s2, rvl) \<Longrightarrow>
      reverse_assignment_reward eid m actor lid reason ov df req ctx s
        = Inr (enqueue_after_commit (resolve_dispatcher ov df) (le_user_id g) eff req
            (audit_reversal actor lid g rvl r (available_points (wallet_of s (le_user_id g)))
              (available_points (wallet_of s2 (le_user_id g))) ctx s2), rvl)"
  using assms by (simp_all add: reverse_assignment_reward_def Let_def)

lemma reverse_InrD:
  assumes "reverse_assignment_reward eid m actor lid reason ov df req ctx s = Inr (s', rvl)"
  obtains r g eff s2 where "strip_or_none reason = Some r" "actor_role actor = ADMIN"
    "row_of le_id lid (ledger s) = Some g" "le_type g = ASSIGNMENT_REWARD"
    "le_ranking_effective_at g = Some eff"
    "claim_reversal (le_source_type g) (le_source_id g) (ledger s) = None"
    "post_entry eid m (reversal_command g lid actor eff r)
        (locked_or_created_wallet (le_user_id g) s) = Inr (s2, rvl)"
  using assms
  by (auto simp: reverse_assignment_reward_def Let_def split: option.splits if_splits sum.splits)

lemma reversal_mirrors:
  assumes "le_type g = ASSIGNMENT_REWARD" "le_id g = lid" "le_ranking_effective_at g = Some eff"
  shows "mirrors (entry_of eid m (reversal_command g lid actor eff r)) g"
  using assms by (simp add: mirrors_def)

lemma audit_reversal_points [simp]:
  "ledger (audit_reversal a l g e r b af ctx s) = ledger s"
  "wallet_of (audit_reversal a l g e r b af ctx s) = wallet_of s"
  "ledger_inv (audit_reversal a l g e r b af ctx s) = ledger_inv s"
  by (simp_all add: audit_reversal_def cong: ledger_inv_cong)

text \<open>A reversal that succeeds was asked for by an admin with a non-blank reason and appends
  exactly one row that mirrors the grant it names (same claim, same period, negated amount, linked
  to it); the owner's available points fall by the grant, the earned points and every other wallet
  stay, and the ledger invariant is kept.\<close>

theorem reversal_mirrors_the_grant:
  assumes inv: "ledger_inv s"
    and r: "reverse_assignment_reward eid m actor lid reason ov df req ctx s = Inr (s', rvl)"
  shows "actor_role actor = ADMIN \<and> le_reason rvl = strip_or_none reason \<and> le_reason rvl \<noteq> None
    \<and> le_operator_id rvl = Some (actor_user_id actor)
    \<and> (\<exists>g\<in>set (ledger s). le_id g = lid \<and> mirrors rvl g)
    \<and> ledger s' = ledger s @ [rvl] \<and> ledger_inv s'
    \<and> (\<forall>u. wallet_of s' u = (if u = le_user_id rvl
          then (wallet_of s u)\<lparr>available_points := available_points (wallet_of s u) + le_amount rvl\<rparr>
          else wallet_of s u))"
proof -
  obtain t g eff s2 where f: "strip_or_none reason = Some t" "actor_role actor = ADMIN"
    "row_of le_id lid (ledger s) = Some g" "le_type g = ASSIGNMENT_REWARD"
    "le_ranking_effective_at g = Some eff"
    "claim_reversal (le_source_type g) (le_source_id g) (ledger s) = None"
    and p: "post_entry eid m (reversal_command g lid actor eff t)
        (locked_or_created_wallet (le_user_id g) s) = Inr (s2, rvl)"
    by (rule reverse_InrD [OF r])
  note g = inv_reward_row [OF inv f(3,4)]
  note eff = post_entry_InrD(2,4,5) [OF p]
  have strip: "strip_or_none (Some t) = Some t"
    using strip_or_none_Some [OF f(1)] by (simp add: strip_or_none_def)
  have mir: "mirrors rvl g"
    using reversal_mirrors [OF f(4) g(2) f(5)] eff(1) by simp
  have s': "s' = enqueue_after_commit (resolve_dispatcher ov df) (le_user_id g) eff req
            (audit_reversal actor lid g rvl t (available_points (wallet_of s (le_user_id g)))
              (available_points (wallet_of s2 (le_user_id g))) ctx s2)"
    using reverse_gates(2) [OF f(1-5) f(6) p] r by simp
  have "ledger_inv s2"
    by (rule post_keeps_ledger_inv [OF p])
      (use inv g(1) mir eff(1) in \<open>auto simp: ledger_inv_cong [of "locked_or_created_wallet (le_user_id g) s" s]\<close>)
  moreover have "wallet_of s' u = (if u = le_user_id rvl
          then (wallet_of s u)\<lparr>available_points := available_points (wallet_of s u) + le_amount rvl\<rparr>
          else wallet_of s u)" for u
    using eff(3) [of u] g(4) by (simp add: s' eff(1) Let_def)
  ultimately show ?thesis
    using f(1,2) strip g(1,2) mir eff(1,2) by (auto simp: s')
qed

text \<open>On a well-formed ledger a reversal is accepted exactly when it has a non-blank reason, an
  admin asks for it, it names an assignment reward and that claim has no reversal yet.\<close>

theorem reversal_accepted_iff:
  assumes inv: "ledger_inv s" and fresh: "eid \<notin> le_id ` set (ledger s)"
  shows "ok (reverse_assignment_reward eid m actor lid reason ov df req ctx s) \<longleftrightarrow>
    strip_or_none reason \<noteq> None \<and> actor_role actor = ADMIN
    \<and> (\<exists>g\<in>set (ledger s). le_id g = lid \<and> le_type g = ASSIGNMENT_REWARD
          \<and> (\<forall>e\<in>set (ledger s). le_type e = ASSIGNMENT_REWARD_REVERSAL \<longrightarrow>
                (le_source_type e, le_source_id e) \<noteq> (le_source_type g, le_source_id g)))"
    (is "?L \<longleftrightarrow> ?R")
proof
  assume ?L
  then obtain s' rvl where r: "reverse_assignment_reward eid m actor lid reason ov df req ctx s
      = Inr (s', rvl)" by (cases "reverse_assignment_reward eid m actor lid reason ov df req ctx s") auto
  show ?R
    by (rule reverse_InrD [OF r], frule row_of_SomeD)
      (force simp: claim_reversal_None source_triple_def image_iff)
next
  assume R: ?R
  then obtain t where f: "strip_or_none reason = Some t" "actor_role actor = ADMIN" by auto
  from R obtain g where g: "g \<in> set (ledger s)" "le_id g = lid" "le_type g = ASSIGNMENT_REWARD"
    and none: "\<forall>e\<in>set (ledger s). le_type e = ASSIGNMENT_REWARD_REVERSAL \<longrightarrow>
                (le_source_type e, le_source_id e) \<noteq> (le_source_type g, le_source_id g)" by blast
  from none have none: "claim_reversal (le_source_type g) (le_source_id g) (ledger s) = None"
    by (auto simp: claim_reversal_None source_triple_def)
  have row: "row_of le_id lid (ledger s) = Some g"
    using row_of_unique [of le_id "ledger s" g] inv g(1,2)
    by (simp add: ledger_inv_def table_ok_def)
  note rr = inv_reward_row [OF inv row g(3)]
  then obtain eff where e: "le_ranking_effective_at g = Some eff" by blast
  obtain s2 where "post_entry eid m (reversal_command g lid actor eff t)
      (locked_or_created_wallet (le_user_id g) s)
      = Inr (s2, entry_of eid m (reversal_command g lid actor eff t))"
    using post_entry_ok [of "reversal_command g lid actor eff t" eid
        "locked_or_created_wallet (le_user_id g) s" m] fresh none rr(4)
    by (auto simp: claim_reversal_None)
  from reverse_gates(2) [OF f(1,2) row g(3) e none this] show ?L by simp
qed

text \<open>After a reversal every further well-formed attempt on the same reward, by any admin and for
  any reason, is refused with the already-reversed error that names the first reversal.\<close>

theorem reversal_not_repeatable:
  assumes inv: "ledger_inv s"
    and first: "reverse_assignment_reward eid m actor lid reason ov df req ctx s = Inr (s', rvl)"
    and again: "strip_or_none reason2 \<noteq> None" "actor_role actor2 = ADMIN"
  shows "reverse_assignment_reward eid2 m2 actor2 lid reason2 ov2 df2 req2 ctx2 s'
    = Inl (RewardAlreadyReversed lid (le_source_id rvl) (le_id rvl))"
proof -
  obtain t g eff s2 where f: "strip_or_none reason = Some t" "actor_role actor = ADMIN"
    "row_of le_id lid (ledger s) = Some g" "le_type g = ASSIGNMENT_REWARD"
    "le_ranking_effective_at g = Some eff"
    "claim_reversal (le_source_type g) (le_source_id g) (ledger s) = None"
    and p: "post_entry eid m (reversal_command g lid actor eff t)
        (locked_or_created_wallet (le_user_id g) s) = Inr (s2, rvl)"
    by (rule reverse_InrD [OF first])
  have eff: "ledger s2 = ledger s @ [rvl]" "rvl = entry_of eid m (reversal_command g lid actor eff t)"
    using post_entry_InrD(2,4) [OF p] by simp_all
  have s': "ledger s' = ledger s @ [rvl]"
    using reverse_gates(2) [OF f(1-5) f(6) p] first eff(1) by auto
  from again(1) obtain t2 where t2: "strip_or_none reason2 = Some t2" by blast
  have row: "row_of le_id lid (ledger s') = Some g"
    using f(3) by (simp add: s' row_of_append)
  have "claim_reversal (le_source_type g) (le_source_id g) (ledger s') = Some rvl"
    using f(6) eff(2) by (simp add: claim_reversal_def s' row_of_append)
  from reverse_gates(1) [OF t2 again(2) row f(4,5) this] show ?thesis
    by (simp add: eff(2))
qed

section \<open>Concrete runs\<close>

text \<open>Claim 7 of user 5 is paid 20 points on the freshly migrated database.\<close>

lemma initial_ledger: "ledger initial_points = []"
  by (simp add: initial_points_def)

lemma initial_ledger_inv [simp]: "ledger_inv initial_points"
  by (simp add: ledger_inv_def initial_points_def table_ok_def services_ok_def projects_def
      wallet_of_def empty_wallet_def balance_of_def earned_of_def)

definition paid_claim :: points_db where
  "paid_claim = (case post_entry 1 0 (grant_command 7 5 20 1000) initial_points of
     Inl e \<Rightarrow> initial_points | Inr (s, e) \<Rightarrow> s)"

definition paid_row :: ledger_row where
  "paid_row = entry_of 1 0 (grant_command 7 5 20 1000)"

lemma paid_claim_post:
  "post_entry 1 0 (grant_command 7 5 20 1000) initial_points = Inr (paid_claim, paid_row)"
  using post_entry_ok [of "grant_command 7 5 20 1000" 1 initial_points 0]
  by (auto simp: paid_claim_def paid_row_def initial_points_def)

lemma paid_claim_inv [simp]: "ledger_inv paid_claim"
  by (rule post_keeps_ledger_inv [OF paid_claim_post initial_ledger_inv])
    (auto simp: paid_row_def grant_row_def grant_command_def)

lemma paid_claim_ledger [simp]: "ledger paid_claim = [paid_row]"
  using post_entry_InrD(4) [OF paid_claim_post] by (simp add: initial_points_def)

lemma paid_row_simps [simp]:
  "le_id paid_row = 1" "le_type paid_row = ASSIGNMENT_REWARD" "le_amount paid_row = 20"
  "le_user_id paid_row = 5"
  by (simp_all add: paid_row_def)

theorem grant_pays_each_claim_once_witness:
  "\<exists>s e. grant_assignment_reward initial_points 2 0 8 5 30 (Some 1000) None None None paid_claim
       = Inr (s, e) \<and> ledger_inv s \<and> ledger s = [paid_row, e] \<and> le_amount e = 30"
proof -
  have new: "claim_reward 8 [paid_row] = None"
    by code_simp
  have "set (ledger initial_points) \<subseteq> set (ledger paid_claim)"
    by (simp add: initial_points_def)
  then show ?thesis
    using grant_pays_each_claim_once [OF paid_claim_inv, of initial_points 30 2 0 8 5 1000 None None None]
    by (auto simp: new)
qed

lemma paid_claim_reversal:
  obtains s e where "reverse_assignment_reward 2 0 \<lparr>actor_user_id = 9, actor_role = ADMIN\<rparr> 1
     (Some ''fraud'') None None None None paid_claim = Inr (s, e)"
proof -
  have "isl (reverse_assignment_reward 2 0 \<lparr>actor_user_id = 9, actor_role = ADMIN\<rparr> 1
     (Some ''fraud'') None None None None paid_claim) = False"
    by code_simp
  then show ?thesis
    using that by (cases "reverse_assignment_reward 2 0 \<lparr>actor_user_id = 9, actor_role = ADMIN\<rparr> 1
     (Some ''fraud'') None None None None paid_claim") auto
qed

theorem reversal_mirrors_the_grant_witness:
  "\<exists>s e. reverse_assignment_reward 2 0 \<lparr>actor_user_id = 9, actor_role = ADMIN\<rparr> 1
     (Some ''fraud'') None None None None paid_claim = Inr (s, e) \<and> ledger s = [paid_row, e]
     \<and> mirrors e paid_row \<and> ledger_inv s"
proof (rule paid_claim_reversal)
  fix s e
  assume r: "reverse_assignment_reward 2 0 \<lparr>actor_user_id = 9, actor_role = ADMIN\<rparr> 1
     (Some ''fraud'') None None None None paid_claim = Inr (s, e)"
  show ?thesis
    using r reversal_mirrors_the_grant [OF paid_claim_inv r] by simp
qed

theorem reversal_accepted_iff_witness:
  "ok (reverse_assignment_reward 2 0 \<lparr>actor_user_id = 9, actor_role = ADMIN\<rparr> 1
     (Some ''fraud'') None None None None paid_claim)"
proof -
  have r: "strip_or_none (Some ''fraud'') \<noteq> None" "claim_reversal ASSIGNMENT_CLAIM_SOURCE 7 [paid_row] = None"
    by code_simp+
  show ?thesis
    by (subst reversal_accepted_iff) (use r in \<open>simp_all\<close>)
qed

theorem reversal_not_repeatable_witness:
  "\<exists>s e. reverse_assignment_reward 2 0 \<lparr>actor_user_id = 9, actor_role = ADMIN\<rparr> 1
     (Some ''fraud'') None None None None paid_claim = Inr (s, e)
   \<and> reverse_assignment_reward 3 0 \<lparr>actor_user_id = 8, actor_role = ADMIN\<rparr> 1
     (Some ''again'') None None None None s = Inl (RewardAlreadyReversed 1 (le_source_id e) (le_id e))"
proof (rule paid_claim_reversal)
  fix s e
  assume r: "reverse_assignment_reward 2 0 \<lparr>actor_user_id = 9, actor_role = ADMIN\<rparr> 1
     (Some ''fraud'') None None None None paid_claim = Inr (s, e)"
  have "strip_or_none (Some ''again'') \<noteq> None" by code_simp
  with r show ?thesis
    using reversal_not_repeatable [OF paid_claim_inv r, of "Some ''again''"
        "\<lparr>actor_user_id = 8, actor_role = ADMIN\<rparr>" 3 0 None None None None] by simp
qed

end
