(* ===== verification/Redemption.thy ===== *)
theory Redemption
  imports Ledger "HOL-Library.Product_Lexorder"
begin

text \<open>
  The redemption lifecycle (\<open>points/redemption_service.py\<close>): the term key, the review guard, the
  atomic reservation of points and stock, the three staff decisions (approve, reject, fulfill)
  with their audit row, notification and ledger entry, and the two listings.  \<open>now\<close> is the
  injected clock's reading, \<open>db_now\<close> the database's; \<open>wired\<close> says whether a notification recorder
  was injected.
\<close>

section \<open>Errors\<close>

datatype redemption_error =
    AcademicTermConfiguration string
  | RewardItemNotFound uuid
  | RewardRedemptionNotFound uuid
  | RewardItemDisabled uuid
  | RedemptionWindowClosed uuid "instant option" "instant option"
  | RewardOutOfStock uuid int
  | RedemptionLimitReached uuid int string
  | InsufficientPoints int int
  | RedemptionPermissionDenied uuid Role
  | RedemptionRejectReasonRequired uuid
  | RedemptionNotReviewable uuid RedemptionStatus
  | RedemptionNotFulfillable uuid RedemptionStatus
  | ReservationMissing uuid
  | ItemNameMissing
  | Posting ledger_error
  | RedemptionIntegrityError "constraint"

fun redemption_envelope :: "redemption_error \<Rightarrow> business_error option" where
  "redemption_envelope (RewardItemNotFound i) =
     Some (Business NOT_FOUND 404 [(''reward_item_id'', JUuid i)])"
| "redemption_envelope (RewardRedemptionNotFound r) =
     Some (Business NOT_FOUND 404 [(''redemption_id'', JUuid r)])"
| "redemption_envelope (RewardItemDisabled i) =
     Some (Business VALIDATION_ERROR 422
       [(''reward_item_id'', JUuid i), (''reason'', JStr ''disabled'')])"
| "redemption_envelope (RedemptionWindowClosed i a b) =
     Some (Business VALIDATION_ERROR 422
       [(''reward_item_id'', JUuid i), (''reason'', JStr ''window_closed''),
        (''available_from'', jopt JTime a), (''available_until'', jopt JTime b)])"
| "redemption_envelope (RewardOutOfStock i n) =
     Some (Business REWARD_OUT_OF_STOCK 409 [(''reward_item_id'', JUuid i), (''stock'', JInt n)])"
| "redemption_envelope (RedemptionLimitReached i n term) =
     Some (Business REDEMPTION_LIMIT_REACHED 409
       [(''reward_item_id'', JUuid i), (''limit'', JInt n), (''term_key'', JStr term)])"
| "redemption_envelope (InsufficientPoints required spendable) =
     Some (Business INSUFFICIENT_POINTS 409
       [(''required'', JInt required), (''spendable'', JInt (max spendable 0))])"
| "redemption_envelope (RedemptionPermissionDenied a r) =
     Some (Business PERMISSION_DENIED 403
       [(''actor_id'', JUuid a), (''role'', JStr (role_value r))])"
| "redemption_envelope (RedemptionRejectReasonRequired r) =
     Some (Business VALIDATION_ERROR 422
       [(''redemption_id'', JUuid r), (''field'', JStr ''reason'')])"
| "redemption_envelope (RedemptionNotReviewable r st) =
     Some (Business VALIDATION_ERROR 409
       [(''redemption_id'', JUuid r), (''status'', JStr (redemption_status_value st))])"
| "redemption_envelope (RedemptionNotFulfillable r st) =
     Some (Business VALIDATION_ERROR 409
       [(''redemption_id'', JUuid r), (''status'', JStr (redemption_status_value st))])"
| "redemption_envelope (Posting e) = ledger_envelope e"
| "redemption_envelope (AcademicTermConfiguration t) = None"
| "redemption_envelope (ReservationMissing r) = None"
| "redemption_envelope ItemNameMissing = None"
| "redemption_envelope (RedemptionIntegrityError k) = None"

section \<open>The academic term\<close>

definition TERM_KEY_MAX_LENGTH :: nat where
  "TERM_KEY_MAX_LENGTH = 64"

definition validated_term_key :: "string \<Rightarrow> redemption_error + string" where
  "validated_term_key term_key = (let stripped = py_strip term_key in
     if stripped = [] \<or> TERM_KEY_MAX_LENGTH < length stripped
     then Inl (AcademicTermConfiguration term_key) else Inr stripped)"

text \<open>Each provider validates at construction; its value is the key it then answers.\<close>

definition StaticAcademicTermProvider :: "string \<Rightarrow> redemption_error + string" where
  "StaticAcademicTermProvider term_key = validated_term_key term_key"

definition SettingsAcademicTermProvider :: "string \<Rightarrow> redemption_error + string" where
  "SettingsAcademicTermProvider current_academic_term = validated_term_key current_academic_term"

definition SystemAcademicTermProvider :: "string option \<Rightarrow> string \<Rightarrow> redemption_error + string" where
  "SystemAcademicTermProvider configured_term fallback =
     validated_term_key (case configured_term of Some t \<Rightarrow> t | None \<Rightarrow> fallback)"

section \<open>Guards\<close>

definition has_reward_review_grant :: "'a points_db_scheme \<Rightarrow> uuid \<Rightarrow> bool" where
  "has_reward_review_grant s teacher_id = list_ex (\<lambda>g. gr_teacher_id g = teacher_id
     \<and> gr_capability g = REWARD_REVIEW_CAPABILITY) (review_grants s)"

definition require_reviewer :: "'a points_db_scheme \<Rightarrow> actor \<Rightarrow> redemption_error option" where
  "require_reviewer s actor =
     (if is_admin (actor_role actor) then None
      else if actor_role actor = TEACHER \<and> has_reward_review_grant s (actor_user_id actor)
      then None
      else Some (RedemptionPermissionDenied (actor_user_id actor) (actor_role actor)))"

definition window_open :: "reward_item \<Rightarrow> instant \<Rightarrow> bool" where
  "window_open item now =
     ((case it_available_from item of None \<Rightarrow> True | Some a \<Rightarrow> a \<le> now)
      \<and> (case it_available_until item of None \<Rightarrow> True | Some b \<Rightarrow> now < b))"

section \<open>Request\<close>

definition new_redemption ::
  "uuid \<Rightarrow> uuid \<Rightarrow> reward_item \<Rightarrow> string \<Rightarrow> instant \<Rightarrow> redemption" where
  "new_redemption rid u item term db_now =
     \<lparr>rd_id = rid, rd_user_id = u, rd_item_id = it_id item, rd_status = REQUESTED,
      rd_term_key = term, rd_points = it_point_cost item, rd_created_at = db_now,
      rd_decided_at = None, rd_decided_by = None, rd_rejection_reason = None,
      rd_fulfilled_at = None, rd_fulfillment_note = None\<rparr>"

definition new_reservation :: "uuid \<Rightarrow> redemption \<Rightarrow> reservation" where
  "new_reservation vid r =
     \<lparr>rv_id = vid, rv_user_id = rd_user_id r, rv_redemption_id = rd_id r,
      rv_points = rd_points r, rv_status = ReservationStatus.ACTIVE, rv_released_at = None\<rparr>"

definition request_redemption ::
  "string \<Rightarrow> uuid \<Rightarrow> uuid \<Rightarrow> uuid \<Rightarrow> uuid \<Rightarrow> instant \<Rightarrow> instant \<Rightarrow> 'a points_db_scheme
    \<Rightarrow> redemption_error + ('a points_db_scheme \<times> redemption)" where
  "request_redemption current_term rid vid u item_id now db_now s =
     (case validated_term_key current_term of Inl e \<Rightarrow> Inl e | Inr term_key \<Rightarrow>
      let s1 = locked_or_created_wallet u s in
      case row_of it_id item_id (reward_items s1) of None \<Rightarrow> Inl (RewardItemNotFound item_id)
      | Some item \<Rightarrow>
      if \<not> it_enabled item then Inl (RewardItemDisabled (it_id item))
      else if \<not> window_open item now
      then Inl (RedemptionWindowClosed (it_id item) (it_available_from item)
                  (it_available_until item))
      else case (case it_stock item of None \<Rightarrow> None
                 | Some stock \<Rightarrow> (if stock \<le> occupancy s1 (it_id item)
                     then Some (RewardOutOfStock (it_id item) stock) else None)) of
        Some e \<Rightarrow> Inl e
      | None \<Rightarrow>
      case (case it_per_user_term_limit item of None \<Rightarrow> None
            | Some limit \<Rightarrow> (if limit \<le> used_quota s1 u (it_id item) term_key
                then Some (RedemptionLimitReached (it_id item) limit term_key) else None)) of
        Some e \<Rightarrow> Inl e
      | None \<Rightarrow>
      let spendable = available_points (wallet_of s1 u) - frozen_of s1 u in
      if spendable < it_point_cost item
      then Inl (InsufficientPoints (it_point_cost item) spendable)
      else let r = new_redemption rid u item term_key db_now in
      case insert_redemption r (redemptions s1) of Inl k \<Rightarrow> Inl (RedemptionIntegrityError k)
      | Inr rs \<Rightarrow>
      case insert_reservation (new_reservation vid r) (reservations s1) of
        Inl k \<Rightarrow> Inl (RedemptionIntegrityError k)
      | Inr vs \<Rightarrow> Inr (s1\<lparr>redemptions := rs, reservations := vs\<rparr>, r))"

section \<open>The decisions\<close>

definition REDEMPTION_SOURCE :: string where
  "REDEMPTION_SOURCE = ''REWARD_REDEMPTION''"

definition consumption_command :: "redemption \<Rightarrow> actor \<Rightarrow> PostLedgerEntry" where
  "consumption_command r actor =
     \<lparr>pe_user_id = rd_user_id r, pe_ledger_type = REWARD_REDEMPTION, pe_amount = - rd_points r,
      pe_source_type = REDEMPTION_SOURCE, pe_affects_balance = True, pe_affects_ranking = False,
      pe_ranking_effective_at = None, pe_source_id = Some (rd_id r), pe_reversal_of_id = None,
      pe_operator_id = Some (actor_user_id actor), pe_reason = None\<rparr>"

definition audit_decision ::
  "actor \<Rightarrow> redemption \<Rightarrow> string \<Rightarrow> RedemptionStatus \<Rightarrow> audit_context option \<Rightarrow> string option
    \<Rightarrow> string option \<Rightarrow> 'a core_db_scheme \<Rightarrow> 'a core_db_scheme" where
  "audit_decision actor r action previous ctx reason note =
     audit_append actor action ''reward_redemption'' (rd_id r) reason
       (Some (dict ([(''user_id'', JUuid (rd_user_id r)),
                     (''reward_item_id'', JUuid (rd_item_id r))]
                    @ (case note of None \<Rightarrow> [] | Some n \<Rightarrow> [(''note'', JStr n)]))))
       (Some (dict [(''status'', JStr (redemption_status_value previous)),
                    (''points'', JInt (rd_points r))]))
       (Some (dict [(''status'', JStr (redemption_status_value (rd_status r))),
                    (''points'', JInt (rd_points r))]))
       ctx"

text \<open>\<open>rejected\<close> is \<open>None\<close> on an approval and the reason on a rejection.\<close>

definition record_redemption_decided ::
  "bool \<Rightarrow> redemption \<Rightarrow> string option \<Rightarrow> 'a points_db_scheme
    \<Rightarrow> redemption_error + 'a points_db_scheme" where
  "record_redemption_decided wired r rejected s =
     (if \<not> wired then Inr s
      else case row_of it_id (rd_item_id r) (reward_items s) of None \<Rightarrow> Inl ItemNameMissing
      | Some item \<Rightarrow> Inr (record_event wired
          (case rejected of
             None \<Rightarrow> \<lparr>nt_key = (''redemption:'', rd_id r, '':approved''),
               nt_type = ''REWARD_REDEMPTION_APPROVED'', nt_user_id = rd_user_id r,
               nt_payload = [(''item_name'', JStr (it_name item)),
                             (''points_spent'', JInt (rd_points r))]\<rparr>
           | Some reason \<Rightarrow> \<lparr>nt_key = (''redemption:'', rd_id r, '':rejected''),
               nt_type = ''REWARD_REDEMPTION_REJECTED'', nt_user_id = rd_user_id r,
               nt_payload = [(''item_name'', JStr (it_name item)),
                             (''rejection_reason'', JStr reason),
                             (''points_refunded'', JInt (rd_points r))]\<rparr>) s))"

definition settle ::
  "redemption \<Rightarrow> ReservationStatus \<Rightarrow> instant \<Rightarrow> 'a points_db_scheme \<Rightarrow> 'a points_db_scheme" where
  "settle r st now s = s\<lparr>
     reservations := update_row rv_redemption_id (rd_id r)
       (\<lambda>v. v\<lparr>rv_status := st, rv_released_at := Some now\<rparr>) (reservations s),
     redemptions := update_row rd_id (rd_id r) (\<lambda>_. r) (redemptions s)\<rparr>"

definition approve_redemption ::
  "bool \<Rightarrow> uuid \<Rightarrow> uuid \<Rightarrow> actor \<Rightarrow> uuid \<Rightarrow> instant \<Rightarrow> audit_context option \<Rightarrow> 'a points_db_scheme
    \<Rightarrow> redemption_error + ('a points_db_scheme \<times> redemption)" where
  "approve_redemption wired eid minted actor rid now ctx s =
     (case require_reviewer s actor of Some e \<Rightarrow> Inl e | None \<Rightarrow>
      case row_of rd_id rid (redemptions s) of None \<Rightarrow> Inl (RewardRedemptionNotFound rid)
      | Some r \<Rightarrow>
      if rd_status r = APPROVED then Inr (s, r)
      else if rd_status r \<notin> {REQUESTED, UNDER_REVIEW}
      then Inl (RedemptionNotReviewable rid (rd_status r))
      else let s1 = locked_or_created_wallet (rd_user_id r) s in
      case row_of rv_redemption_id (rd_id r) (reservations s1) of
        None \<Rightarrow> Inl (ReservationMissing rid)
      | Some v \<Rightarrow>
      case post_entry eid minted (consumption_command r actor) s1 of Inl e \<Rightarrow> Inl (Posting e)
      | Inr (s2, entry) \<Rightarrow>
      let r' = r\<lparr>rd_status := APPROVED, rd_decided_at := Some now,
                 rd_decided_by := Some (actor_user_id actor)\<rparr>;
          s3 = settle r' CONSUMED now s2;
          s4 = audit_decision actor r' ''REDEMPTION_APPROVE'' (rd_status r) ctx None None s3
      in case record_redemption_decided wired r' None s4 of Inl e \<Rightarrow> Inl e
      | Inr s5 \<Rightarrow> Inr (s5, r'))"

definition reject_redemption ::
  "bool \<Rightarrow> actor \<Rightarrow> uuid \<Rightarrow> string option \<Rightarrow> instant \<Rightarrow> audit_context option \<Rightarrow> 'a points_db_scheme
    \<Rightarrow> redemption_error + ('a points_db_scheme \<times> redemption)" where
  "reject_redemption wired actor rid reason now ctx s =
     (case strip_or_none reason of None \<Rightarrow> Inl (RedemptionRejectReasonRequired rid)
      | Some reason_text \<Rightarrow>
      case require_reviewer s actor of Some e \<Rightarrow> Inl e | None \<Rightarrow>
      case row_of rd_id rid (redemptions s) of None \<Rightarrow> Inl (RewardRedemptionNotFound rid)
      | Some r \<Rightarrow>
      if rd_status r = REJECTED then Inr (s, r)
      else if rd_status r \<notin> {REQUESTED, UNDER_REVIEW}
      then Inl (RedemptionNotReviewable rid (rd_status r))
      else let s1 = locked_or_created_wallet (rd_user_id r) s in
      case row_of rv_redemption_id (rd_id r) (reservations s1) of
        None \<Rightarrow> Inl (ReservationMissing rid)
      | Some v \<Rightarrow>
      let r' = r\<lparr>rd_status := REJECTED, rd_decided_at := Some now,
                 rd_decided_by := Some (actor_user_id actor),
                 rd_rejection_reason := Some reason_text\<rparr>;
          s3 = settle r' RELEASED now s1;
          s4 = audit_decision actor r' ''REDEMPTION_REJECT'' (rd_status r) ctx
                 (Some reason_text) None s3
      in case record_redemption_decided wired r' (Some reason_text) s4 of Inl e \<Rightarrow> Inl e
      | Inr s5 \<Rightarrow> Inr (s5, r'))"

definition fulfill_redemption ::
  "actor \<Rightarrow> uuid \<Rightarrow> string option \<Rightarrow> instant \<Rightarrow> audit_context option \<Rightarrow> 'a points_db_scheme
    \<Rightarrow> redemption_error + ('a points_db_scheme \<times> redemption)" where
  "fulfill_redemption actor rid note now ctx s =
     (case require_reviewer s actor of Some e \<Rightarrow> Inl e | None \<Rightarrow>
      case row_of rd_id rid (redemptions s) of None \<Rightarrow> Inl (RewardRedemptionNotFound rid)
      | Some r \<Rightarrow>
      if rd_status r = FULFILLED then Inr (s, r)
      else if rd_status r \<noteq> APPROVED then Inl (RedemptionNotFulfillable rid (rd_status r))
      else let note_text = strip_or_none note;
               r' = r\<lparr>rd_status := FULFILLED, rd_fulfilled_at := Some now,
                      rd_fulfillment_note := note_text\<rparr>;
               s1 = s\<lparr>redemptions := update_row rd_id (rd_id r) (\<lambda>_. r') (redemptions s)\<rparr>
      in Inr (audit_decision actor r' ''REDEMPTION_FULFILL'' (rd_status r) ctx None note_text s1,
              r'))"

section \<open>Listings\<close>

text \<open>\<open>collate\<close> is the database's ordering of names, a parameter.\<close>

definition list_reward_items ::
  "(string \<Rightarrow> 'k::linorder) \<Rightarrow> bool \<Rightarrow> 'a points_db_scheme \<Rightarrow> reward_item list" where
  "list_reward_items collate include_disabled s =
     sort_key (\<lambda>i. (collate (it_name i), it_id i))
       (if include_disabled then reward_items s else filter it_enabled (reward_items s))"

definition list_redemptions ::
  "RedemptionStatus list option \<Rightarrow> nat \<Rightarrow> nat \<Rightarrow> 'a points_db_scheme
    \<Rightarrow> (redemption \<times> string) list \<times> int" where
  "list_redemptions statuses limit offset s =
     (let sts = (case statuses of None \<Rightarrow> [REQUESTED, UNDER_REVIEW] | Some x \<Rightarrow> x);
          total = count_rows (\<lambda>r. rd_status r \<in> set sts) (redemptions s);
          joined = [(r, it_name i). r \<leftarrow> redemptions s, i \<leftarrow> reward_items s,
                      rd_item_id r = it_id i, rd_status r \<in> set sts];
          rows = take limit (drop offset (sort_key (\<lambda>(r, n). (rd_created_at r, rd_id r)) joined))
      in (rows, total))"

end
