(* ===== verification/Redemption_Facts.thy ===== *)
theory Redemption_Facts
  imports Redemption "HOL-Library.Multiset"
begin

text \<open>
  What the redemption lifecycle of \<open>Redemption\<close> keeps and promises: the well-formed shelf (each
  redemption is backed by the one reservation its status calls for, and consumed redemptions are
  exactly those with a ledger entry), the effect of each operation on points, stock and audit
  trail, the contract the three staff decisions share (locale \<open>decision\<close>), and the paging of the
  review queue.
\<close>

section \<open>Well-formed shelf\<close>

text \<open>
  Each status of a redemption has the reservation status that backs it, and the redemptions that
  consumed their points are exactly those with a ledger entry.
\<close>

fun backing :: "RedemptionStatus \<Rightarrow> ReservationStatus" where
  "backing REQUESTED = ReservationStatus.ACTIVE"
| "backing UNDER_REVIEW = ReservationStatus.ACTIVE"
| "backing APPROVED = CONSUMED"
| "backing FULFILLED = CONSUMED"
| "backing REJECTED = RELEASED"

definition backs :: "reservation \<Rightarrow> redemption \<Rightarrow> bool" where
  "backs v r \<longleftrightarrow> rv_redemption_id v = rd_id r \<and> rv_user_id v = rd_user_id r
     \<and> rv_points v = rd_points r \<and> rv_status v = backing (rd_status r)"

definition consumes :: "ledger_row \<Rightarrow> redemption \<Rightarrow> bool" where
  "consumes e r \<longleftrightarrow> source_triple e = (REDEMPTION_SOURCE, rd_id r, REWARD_REDEMPTION)
     \<and> le_user_id e = rd_user_id r \<and> le_amount e = - rd_points r \<and> le_affects_balance e
     \<and> \<not> le_affects_ranking e"

definition redemption_ok :: "'a points_db_scheme \<Rightarrow> redemption \<Rightarrow> bool" where
  "redemption_ok s r \<longleftrightarrow> 0 < rd_points r \<and> wallets s (rd_user_id r) \<noteq> None
     \<and> rd_item_id r \<in> it_id ` set (reward_items s)
     \<and> (\<exists>v\<in>set (reservations s). backs v r)
     \<and> (rd_status r \<in> {APPROVED, FULFILLED} \<longrightarrow> (\<exists>e\<in>set (ledger s). consumes e r))"

definition spends :: "'a points_db_scheme \<Rightarrow> ledger_row \<Rightarrow> bool" where
  "spends s e \<longleftrightarrow> (le_type e = REWARD_REDEMPTION \<longrightarrow>
     (\<exists>r\<in>set (redemptions s). consumes e r \<and> rd_status r \<in> {APPROVED, FULFILLED}))"

definition shelf_inv :: "'a points_db_scheme \<Rightarrow> bool" where
  "shelf_inv s \<longleftrightarrow> distinct (map rd_id (redemptions s))
     \<and> distinct (map rv_redemption_id (reservations s))
     \<and> list_all (redemption_ok s) (redemptions s)
     \<and> list_all (\<lambda>v. release_coherent v \<and> rv_redemption_id v \<in> rd_id ` set (redemptions s))
         (reservations s)
     \<and> list_all (spends s) (ledger s)"

lemma shelf_inv_cong:
  "redemptions t = redemptions s \<Longrightarrow> reservations t = reservations s \<Longrightarrow> ledger t = ledger s
   \<Longrightarrow> wallets t = wallets s \<Longrightarrow> it_id ` set (reward_items t) = it_id ` set (reward_items s)
   \<Longrightarrow> shelf_inv t = shelf_inv s"
  by (simp add: shelf_inv_def redemption_ok_def [abs_def] spends_def [abs_def])

lemma shelf_distinct:
  assumes "shelf_inv s"
  shows "distinct (map rd_id (redemptions s))" "distinct (map rv_redemption_id (reservations s))"
  using assms by (simp_all add: shelf_inv_def)

lemma shelf_redemption:
  assumes "shelf_inv s" "row_of rd_id rid (redemptions s) = Some r"
  obtains v where "redemption_ok s r" "rd_id r = rid" "r \<in> set (redemptions s)"
    "row_of rv_redemption_id rid (reservations s) = Some v" "backs v r"
proof -
  note r = row_of_SomeD [OF assms(2)]
  with assms(1) have ok: "redemption_ok s r" by (auto simp: shelf_inv_def list_all_iff)
  then obtain v where v: "v \<in> set (reservations s)" "backs v r"
    by (auto simp: redemption_ok_def)
  then have "row_of rv_redemption_id rid (reservations s) = Some v"
    using row_of_unique [of rv_redemption_id "reservations s" v] assms(1) r
    by (simp add: shelf_inv_def backs_def)
  with ok r v show ?thesis using that by blast
qed

lemma shelf_locked [simp]:
  "shelf_inv s \<Longrightarrow> shelf_inv (locked_or_created_wallet u s)"
  by (auto simp: shelf_inv_def list_all_iff redemption_ok_def spends_def
      locked_or_created_wallet_def split: option.splits)

text \<open>A posting of any other kind leaves the shelf well-formed; so does one that spends.\<close>

lemma wallets_post_entry:
  assumes "post_entry eid m c s = Inr (s', e)" "wallets s u \<noteq> None"
  shows "wallets s' u \<noteq> None"
  using assms
  by (auto simp: post_entry_def Let_def locked_or_created_wallet_def
      split: option.splits sum.splits if_splits)

lemma post_keeps_redemption_ok:
  assumes "post_entry eid m c s = Inr (s', e)" "redemption_ok s r"
  shows "redemption_ok s' r"
  using assms(2) wallets_post_entry [OF assms(1)] post_entry_InrD(4,6,8) [OF assms(1)]
  by (auto simp: redemption_ok_def)

lemma post_keeps_shelf:
  assumes p: "post_entry eid m c s = Inr (s', e)" and inv: "shelf_inv s"
    and ty: "le_type e \<noteq> REWARD_REDEMPTION"
  shows "shelf_inv s'"
  using inv ty post_keeps_redemption_ok [OF p] post_entry_InrD(4,6,7) [OF p]
  by (auto simp: shelf_inv_def list_all_iff spends_def)

section \<open>Spendable points\<close>

lemma spendable_eq: "wallets s u \<noteq> None \<Longrightarrow>
    get_spendable_points s u = available_points (wallet_of s u) - frozen_of s u"
  by (auto simp: get_spendable_points_def wallet_of_def)

lemma frozen_no_wallet:
  assumes "shelf_inv s" "wallets s u = None"
  shows "frozen_of s u = 0"
  unfolding frozen_of_def
proof (rule sum_rows_none)
  fix v assume "v \<in> set (reservations s)"
  with assms(1) obtain r where r: "r \<in> set (redemptions s)" "rd_id r = rv_redemption_id v"
    by (auto simp: shelf_inv_def list_all_iff)
  then have row: "row_of rd_id (rd_id r) (redemptions s) = Some r"
    using row_of_unique shelf_distinct(1) [OF assms(1)] by metis
  obtain v' where v': "row_of rv_redemption_id (rd_id r) (reservations s) = Some v'" "backs v' r"
      and ok: "redemption_ok s r"
    by (rule shelf_redemption [OF assms(1) row])
  have "v' = v"
    using v'(1) row_of_unique [OF shelf_distinct(2) [OF assms(1)] \<open>v \<in> _\<close>] r(2) by simp
  then show "\<not> active_of u v"
    using ok v'(2) assms(2) by (auto simp: active_of_def backs_def redemption_ok_def)
qed

lemma spendable_shelf:
  "shelf_inv s \<Longrightarrow> get_spendable_points s u = available_points (wallet_of s u) - frozen_of s u"
  using frozen_no_wallet spendable_eq [of s u]
  by (cases "wallets s u") (auto simp: get_spendable_points_def wallet_of_def empty_wallet_def)

section \<open>Settling a reservation\<close>

lemma settle_simps [simp]:
  "ledger (settle r st now s) = ledger s"
  "wallets (settle r st now s) = wallets s"
  "wallet_of (settle r st now s) = wallet_of s"
  "reward_items (settle r st now s) = reward_items s"
  "review_grants (settle r st now s) = review_grants s"
  "audit_logs (settle r st now s) = audit_logs s"
  "notifications (settle r st now s) = notifications s"
  "domain_events (settle r st now s) = domain_events s"
  "armed_jobs (settle r st now s) = armed_jobs s"
  "ranking_jobs (settle r st now s) = ranking_jobs s"
  "points_db.more (settle r st now s) = points_db.more s"
  "row_of rd_id (rd_id r) (redemptions (settle r st now s))
     = map_option (\<lambda>_. r) (row_of rd_id (rd_id r) (redemptions s))"
  by (simp_all add: settle_def wallet_of_def fun_eq_iff tbl)

text \<open>
  What settling a pending redemption \<open>r\<close> as \<open>r'\<close> needs to keep the shelf well-formed, after at
  most one posting (\<open>new\<close>) that belongs to it.
\<close>

lemma settle_keeps_shelf:
  assumes inv: "shelf_inv s" and row: "row_of rd_id rid (redemptions s) = Some r"
    and same: "rd_id r' = rd_id r" "rd_user_id r' = rd_user_id r" "rd_item_id r' = rd_item_id r"
      "rd_points r' = rd_points r"
    and pending: "rd_status r \<notin> {APPROVED, FULFILLED}"
    and st: "st = backing (rd_status r')" "st \<noteq> ReservationStatus.ACTIVE"
    and s2: "redemptions s2 = redemptions s" "reservations s2 = reservations s"
      "reward_items s2 = reward_items s" "ledger s2 = ledger s @ new"
      "\<And>u. wallets s u \<noteq> None \<Longrightarrow> wallets s2 u \<noteq> None"
    and new: "\<And>e. e \<in> set new \<Longrightarrow> consumes e r'"
      "rd_status r' \<in> {APPROVED, FULFILLED} \<longleftrightarrow> new \<noteq> []"
  shows "shelf_inv (settle r' st now s2)"
proof -
  let ?s = "settle r' st now s2" and ?f = "\<lambda>v. v\<lparr>rv_status := st, rv_released_at := Some now\<rparr>"
  obtain v where ok: "redemption_ok s r" "rd_id r = rid" "r \<in> set (redemptions s)"
    and v: "row_of rv_redemption_id rid (reservations s) = Some v" "backs v r"
    by (rule shelf_redemption [OF inv row])
  have reds: "redemptions ?s = update_row rd_id rid (\<lambda>_. r') (redemptions s)"
    and ress: "reservations ?s = update_row rv_redemption_id rid ?f (reservations s)"
    by (simp_all add: settle_def s2 same(1) ok(2))
  have set_reds: "q \<in> set (redemptions ?s) \<Longrightarrow> q = r' \<or> (q \<in> set (redemptions s) \<and> rd_id q \<noteq> rid)" for q
    by (auto simp: reds set_update_row split: if_splits)
  have mem: "q \<in> set (redemptions s) \<Longrightarrow> rd_id q \<noteq> rid \<Longrightarrow> q \<in> set (redemptions ?s)" for q
    by (auto simp: reds set_update_row)
  have r'_in: "r' \<in> set (redemptions ?s)"
    using ok(2,3) same(1) by (force simp: reds set_update_row)
  have keys: "map rd_id (redemptions ?s) = map rd_id (redemptions s)"
    "map rv_redemption_id (reservations ?s) = map rv_redemption_id (reservations s)"
    using same(1) ok(2) by (simp_all add: reds ress tbl)
  then have ids: "rd_id ` set (redemptions ?s) = rd_id ` set (redemptions s)"
    by (metis set_map)
  have w: "w \<in> set (reservations s) \<Longrightarrow> rv_redemption_id w \<noteq> rid \<Longrightarrow> w \<in> set (reservations ?s)" for w
    by (auto simp: ress set_update_row)
  have fv: "?f v \<in> set (reservations ?s)"
    using row_of_SomeD [OF v(1)] by (auto simp: ress set_update_row)
  have "redemption_ok ?s q" if "q \<in> set (redemptions ?s)" for q
  proof (cases "q = r'")
    case True
    have "backs (?f v) r'"
      using v(2) same by (simp add: backs_def st(1))
    then have "\<exists>v\<in>set (reservations ?s). backs v r'" using fv by blast
    moreover have "\<exists>e\<in>set (ledger ?s). consumes e r'" if "rd_status r' \<in> {APPROVED, FULFILLED}"
      using that new s2(4) by (cases new) auto
    moreover have "0 < rd_points r'" "wallets ?s (rd_user_id r') \<noteq> None"
      "rd_item_id r' \<in> it_id ` set (reward_items ?s)"
      using ok(1) s2(3) s2(5) [of "rd_user_id r"] same by (simp_all add: redemption_ok_def)
    ultimately show ?thesis
      unfolding True redemption_ok_def by blast
  next
    case False
    with set_reds [OF that] have q: "q \<in> set (redemptions s)" "rd_id q \<noteq> rid" by auto
    with inv have "redemption_ok s q" by (simp add: shelf_inv_def list_all_iff)
    then show ?thesis
      using q(2) s2(3-5) w by (auto simp: redemption_ok_def backs_def)
  qed
  moreover have "spends ?s e" if e: "e \<in> set (ledger s @ new)" for e
  proof (cases "e \<in> set new")
    case True
    then have "new \<noteq> []" by auto
    with True new r'_in show ?thesis by (auto simp: spends_def)
  next
    case False
    with e inv have "spends s e" by (simp add: shelf_inv_def list_all_iff)
    moreover have "q \<in> set (redemptions ?s)"
      if "q \<in> set (redemptions s)" "rd_status q \<in> {APPROVED, FULFILLED}" for q
      by (rule mem [OF that(1)])
        (use that row pending row_of_unique [OF shelf_distinct(1) [OF inv] that(1)] in auto)
    ultimately show ?thesis by (auto simp: spends_def)
  qed
  moreover have "release_coherent x \<and> rv_redemption_id x \<in> rd_id ` set (redemptions ?s)"
    if "x \<in> set (reservations ?s)" for x
  proof -
    from that obtain y where y: "y \<in> set (reservations s)"
      "x = (if rv_redemption_id y = rid then ?f y else y)"
      by (auto simp: ress set_update_row)
    with inv have "release_coherent y" "rv_redemption_id y \<in> rd_id ` set (redemptions s)"
      by (auto simp: shelf_inv_def list_all_iff)
    moreover have "rv_redemption_id x = rv_redemption_id y"
      using y(2) by simp
    moreover have "release_coherent (?f y)"
      using st by (cases "rd_status r'") (simp_all add: release_coherent_def)
    ultimately show ?thesis
      using y(2) by (simp add: ids split: if_splits)
  qed
  ultimately show ?thesis
    using shelf_distinct [OF inv] by (simp add: shelf_inv_def keys list_all_iff s2(4))
qed

lemma frozen_settle:
  assumes inv: "shelf_inv s" and row: "row_of rd_id rid (redemptions s) = Some r"
    and "rd_id r' = rd_id r" "reservations s2 = reservations s"
    and "rd_status r \<in> {REQUESTED, UNDER_REVIEW}" "st \<noteq> ReservationStatus.ACTIVE"
  shows "frozen_of (settle r' st now s2) u
    = frozen_of s u - (if u = rd_user_id r then rd_points r else 0)"
proof -
  obtain v where "rd_id r = rid" and v: "row_of rv_redemption_id rid (reservations s) = Some v" "backs v r"
    by (rule shelf_redemption [OF inv row])
  then show ?thesis
    using assms(3-) sum_rows_update_row [OF shelf_distinct(2) [OF inv] v(1)]
    by (auto simp: frozen_of_def settle_def active_of_def backs_def)
qed

lemma occupancy_settle:
  assumes inv: "shelf_inv s" and row: "row_of rd_id rid (redemptions s) = Some r"
    and "rd_id r' = rd_id r" "rd_item_id r' = rd_item_id r" "redemptions s2 = redemptions s"
  shows "occupancy (settle r' st now s2) i = occupancy s i
    - (if occupies i r then 1 else 0) + (if occupies i r' then 1 else 0)"
  using assms(3-) row_of_SomeD [OF row]
    count_rows_update_row [OF shelf_distinct(1) [OF inv] row, of "occupies i" "\<lambda>_. r'"]
  by (simp add: occupancy_def settle_def)

section \<open>The audit row and the notification of a decision\<close>

lemma audit_decision_simps [simp]:
  "ledger (audit_decision a r act p ctx rs n s) = ledger s"
  "wallets (audit_decision a r act p ctx rs n s) = wallets s"
  "wallet_of (audit_decision a r act p ctx rs n s) = wallet_of s"
  "frozen_of (audit_decision a r act p ctx rs n s) = frozen_of s"
  "occupancy (audit_decision a r act p ctx rs n s) = occupancy s"
  "reward_items (audit_decision a r act p ctx rs n s) = reward_items s"
  "redemptions (audit_decision a r act p ctx rs n s) = redemptions s"
  "reservations (audit_decision a r act p ctx rs n s) = reservations s"
  "review_grants (audit_decision a r act p ctx rs n s) = review_grants s"
  "notifications (audit_decision a r act p ctx rs n s) = notifications s"
  by (simp_all add: audit_decision_def)

text \<open>The row a decision leaves in the audit log, as far as a reader of the trail relies on it.\<close>

definition decision_row :: "actor \<Rightarrow> redemption \<Rightarrow> string \<Rightarrow> string option \<Rightarrow> audit_row \<Rightarrow> bool" where
  "decision_row actor r action reason row \<longleftrightarrow>
     ar_actor_user_id row = actor_user_id actor \<and> ar_action row = action
     \<and> ar_target_id row = rd_id r \<and> ar_reason row = reason
     \<and> ar_after_snapshot row = Some (dict [(''status'', JStr (redemption_status_value (rd_status r))),
         (''points'', JInt (rd_points r))])"

lemma not_sensitive [simp]:
  "py_lower ''status'' \<notin> set SENSITIVE_KEYS" "py_lower ''points'' \<notin> set SENSITIVE_KEYS"
  by code_simp+

lemma audit_decision_row:
  "\<exists>row. audit_logs (audit_decision a r act p ctx rs n s) = audit_logs s @ [row]
     \<and> decision_row a r act rs row"
  by (simp add: audit_decision_def audit_append_def decision_row_def dict_def)

lemma decided_Inr:
  assumes "record_redemption_decided w r rej s = Inr s'"
  shows "ledger s' = ledger s" "wallets s' = wallets s" "reward_items s' = reward_items s"
    "redemptions s' = redemptions s" "reservations s' = reservations s"
    "review_grants s' = review_grants s" "audit_logs s' = audit_logs s" "wallet_of s' = wallet_of s"
    "frozen_of s' = frozen_of s" "occupancy s' = occupancy s" "armed_jobs s' = armed_jobs s"
    "\<exists>new. notifications s' = notifications s @ new \<and> length new = (if w then 1 else 0)
       \<and> list_all (\<lambda>n. nt_user_id n = rd_user_id r) new"
  using assms
  by (auto simp: record_redemption_decided_def record_event_def wallet_of_def frozen_of_def
      occupancy_def fun_eq_iff split: option.splits if_splits)

lemma decided_ok:
  "rd_item_id r \<in> it_id ` set (reward_items s) \<Longrightarrow> \<exists>s'. record_redemption_decided w r rej s = Inr s'"
  using row_of_None [of it_id "rd_item_id r" "reward_items s"]
  by (auto simp: record_redemption_decided_def split: option.splits)

section \<open>Approval\<close>

lemma consumption_simps [simp]:
  "pe_user_id (consumption_command r a) = rd_user_id r"
  "pe_ledger_type (consumption_command r a) = REWARD_REDEMPTION"
  "pe_amount (consumption_command r a) = - rd_points r"
  "pe_affects_balance (consumption_command r a)"
  "\<not> pe_affects_ranking (consumption_command r a)"
  "validate (consumption_command r a) = None \<longleftrightarrow> rd_points r \<noteq> 0"
  by (simp_all add: consumption_command_def validate_def)

lemma triple_consumption [simp]:
  "source_triple (entry_of eid m (consumption_command r a))
    = (REDEMPTION_SOURCE, rd_id r, REWARD_REDEMPTION)"
  by (simp add: source_triple_def entry_of_def consumption_command_def)

lemma consumption_consumes:
  "rd_id r' = rd_id r \<Longrightarrow> rd_user_id r' = rd_user_id r \<Longrightarrow> rd_points r' = rd_points r
    \<Longrightarrow> consumes (entry_of eid m (consumption_command r a)) r'"
  by (simp add: consumes_def) 

abbreviation pending :: "redemption \<Rightarrow> bool" where
  "pending r \<equiv> rd_status r = REQUESTED \<or> rd_status r = RedemptionStatus.UNDER_REVIEW"

definition approved_by :: "redemption \<Rightarrow> actor \<Rightarrow> instant \<Rightarrow> redemption" where
  "approved_by r actor now = r\<lparr>rd_status := APPROVED, rd_decided_at := Some now,
     rd_decided_by := Some (actor_user_id actor)\<rparr>"

definition rejected_by :: "redemption \<Rightarrow> actor \<Rightarrow> string \<Rightarrow> instant \<Rightarrow> redemption" where
  "rejected_by r actor reason now = r\<lparr>rd_status := REJECTED, rd_decided_at := Some now,
     rd_decided_by := Some (actor_user_id actor), rd_rejection_reason := Some reason\<rparr>"

lemma decided_row_simps [simp]:
  "rd_id (approved_by r a n) = rd_id r" "rd_user_id (approved_by r a n) = rd_user_id r"
  "rd_item_id (approved_by r a n) = rd_item_id r" "rd_points (approved_by r a n) = rd_points r"
  "rd_status (approved_by r a n) = APPROVED"
  "rd_id (rejected_by r a t n) = rd_id r" "rd_user_id (rejected_by r a t n) = rd_user_id r"
  "rd_item_id (rejected_by r a t n) = rd_item_id r" "rd_points (rejected_by r a t n) = rd_points r"
  "rd_status (rejected_by r a t n) = REJECTED"
  by (simp_all add: approved_by_def rejected_by_def)

lemma approve_InrD:
  assumes "approve_redemption w eid m actor rid now ctx s = Inr (s', r')"
  obtains (replay) "require_reviewer s actor = None" "row_of rd_id rid (redemptions s) = Some r'"
      "rd_status r' = APPROVED" "s' = s"
  | (decided) r v s2 e where "require_reviewer s actor = None"
      "row_of rd_id rid (redemptions s) = Some r" "pending r"
      "row_of rv_redemption_id (rd_id r) (reservations s) = Some v"
      "r' = approved_by r actor now"
      "post_entry eid m (consumption_command r actor)
         (locked_or_created_wallet (rd_user_id r) s) = Inr (s2, e)"
      "record_redemption_decided w r' None (audit_decision actor r' ''REDEMPTION_APPROVE''
         (rd_status r) ctx None None (settle r' CONSUMED now s2)) = Inr s'"
  using assms
  by (auto simp: approve_redemption_def approved_by_def Let_def
      split: option.splits if_splits sum.splits)

lemma approve_decides:
  assumes "require_reviewer s actor = None" "row_of rd_id rid (redemptions s) = Some r" "pending r"
    "row_of rv_redemption_id (rd_id r) (reservations s) = Some v"
    "post_entry eid m (consumption_command r actor)
         (locked_or_created_wallet (rd_user_id r) s) = Inr (s2, e)"
    "record_redemption_decided w (approved_by r actor now) None
       (audit_decision actor (approved_by r actor now) ''REDEMPTION_APPROVE''
         (rd_status r) ctx None None (settle (approved_by r actor now) CONSUMED now s2)) = Inr s'"
  shows "approve_redemption w eid m actor rid now ctx s = Inr (s', approved_by r actor now)"
  using assms by (auto simp: approve_redemption_def approved_by_def Let_def)

text \<open>No ledger entry carries the source triple of a pending redemption.\<close>

lemma pending_unconsumed:
  assumes inv: "shelf_inv s" and row: "row_of rd_id rid (redemptions s) = Some r" and "pending r"
  shows "(REDEMPTION_SOURCE, rd_id r, REWARD_REDEMPTION) \<notin> source_triple ` set (ledger s)"
proof
  assume "(REDEMPTION_SOURCE, rd_id r, REWARD_REDEMPTION) \<in> source_triple ` set (ledger s)"
  then obtain e where e: "e \<in> set (ledger s)" "source_triple e = (REDEMPTION_SOURCE, rd_id r, REWARD_REDEMPTION)"
    by (metis imageE)
  then have "spends s e" "le_type e = REWARD_REDEMPTION"
    using inv by (simp_all add: shelf_inv_def list_all_iff source_triple_def)
  then obtain q where q: "q \<in> set (redemptions s)" "consumes e q" "rd_status q \<in> {APPROVED, FULFILLED}"
    unfolding spends_def by blast
  with e(2) have "rd_id q = rd_id r" by (simp add: consumes_def)
  then have "q = r"
    using row row_of_unique [OF shelf_distinct(1) [OF inv] q(1)] row_of_SomeD [OF row] by simp
  then show False
    using q(3) assms(3) by auto
qed

lemma locked_keeps_wallet: "wallets s u \<noteq> None \<Longrightarrow> wallets (locked_or_created_wallet k s) u \<noteq> None"
  by (simp add: locked_or_created_wallet_def split: option.split)

lemma approve_effect:
  assumes inv: "shelf_inv s" and row: "row_of rd_id rid (redemptions s) = Some r" and p: "pending r"
    and post: "post_entry eid m (consumption_command r actor)
         (locked_or_created_wallet (rd_user_id r) s) = Inr (s2, e)"
    and fin: "record_redemption_decided w (approved_by r actor now) None
       (audit_decision actor (approved_by r actor now) ''REDEMPTION_APPROVE''
         (rd_status r) ctx None None (settle (approved_by r actor now) CONSUMED now s2)) = Inr s'"
  shows "shelf_inv s'" and "ledger s' = ledger s @ [e]" and "consumes e (approved_by r actor now)"
    and "row_of rd_id rid (redemptions s') = Some (approved_by r actor now)"
    and "get_spendable_points s' u = get_spendable_points s u"
    and "occupancy s' i = occupancy s i"
    and "\<exists>row. audit_logs s' = audit_logs s @ [row]
           \<and> decision_row actor (approved_by r actor now) ''REDEMPTION_APPROVE'' None row"
    and "available_points (wallet_of s' u) = available_points (wallet_of s u)
           - (if u = rd_user_id r then rd_points r else 0)"
    and "earned_points (wallet_of s' u) = earned_points (wallet_of s u)"
proof -
  let ?r = "approved_by r actor now"
  note f = decided_Inr [OF fin] and q = post_entry_InrD [OF post]
  have id: "rd_id r = rid" using row_of_SomeD [OF row] by simp
  show cons: "consumes e ?r"
    using q(2) by (simp add: consumption_consumes)
  show "ledger s' = ledger s @ [e]"
    using f(1) q(4) by simp
  have w: "wallets s u \<noteq> None \<Longrightarrow> wallets s2 u \<noteq> None" for u
    using wallets_post_entry [OF post, of u] by (simp add: locked_keeps_wallet)
  have "shelf_inv (settle ?r CONSUMED now s2)"
    by (rule settle_keeps_shelf [OF inv row, where new = "[e]"])
      (use p q(4,6,7,8) cons w in auto)
  moreover have "shelf_inv s' = shelf_inv (settle ?r CONSUMED now s2)"
    by (rule shelf_inv_cong) (simp_all add: f(1-5))
  ultimately show sh: "shelf_inv s'" by simp
  show av: "available_points (wallet_of s' u) = available_points (wallet_of s u)
           - (if u = rd_user_id r then rd_points r else 0)" for u
    using f(8) post_wallet_figures(1) [OF post, of u] by simp
  show "earned_points (wallet_of s' u) = earned_points (wallet_of s u)"
    using f(8) post_wallet_figures(2) [OF post, of u] by simp
  have fr: "frozen_of s' u = frozen_of s u - (if u = rd_user_id r then rd_points r else 0)"
    unfolding f(9) audit_decision_simps
    by (rule frozen_settle [OF inv row]) (use p q(6) in auto)
  show "get_spendable_points s' u = get_spendable_points s u"
    using av [of u] fr by (simp add: spendable_shelf [OF sh] spendable_shelf [OF inv])
  show "occupancy s' i = occupancy s i"
    using occupancy_settle [OF inv row, of ?r s2 CONSUMED now i] q(7) p
    by (auto simp: f(10) occupies_def)
  show "row_of rd_id rid (redemptions s') = Some ?r"
    using row id by (simp add: f(4) settle_def q(7) tbl)
  show "\<exists>row. audit_logs s' = audit_logs s @ [row] \<and> decision_row actor ?r ''REDEMPTION_APPROVE'' None row"
    using audit_decision_row [of actor ?r "''REDEMPTION_APPROVE''" "rd_status r" ctx None None
        "settle ?r CONSUMED now s2"] f(7) q(10) by simp
qed

lemma approve_can:
  assumes inv: "shelf_inv s" and row: "row_of rd_id rid (redemptions s) = Some r" and p: "pending r"
    and rev: "require_reviewer s actor = None" and fresh: "eid \<notin> le_id ` set (ledger s)"
  obtains s2 s' where "post_entry eid m (consumption_command r actor)
      (locked_or_created_wallet (rd_user_id r) s) = Inr (s2, entry_of eid m (consumption_command r actor))"
    "record_redemption_decided w (approved_by r actor now) None
       (audit_decision actor (approved_by r actor now) ''REDEMPTION_APPROVE''
         (rd_status r) ctx None None (settle (approved_by r actor now) CONSUMED now s2)) = Inr s'"
    "approve_redemption w eid m actor rid now ctx s = Inr (s', approved_by r actor now)"
proof -
  obtain v where ok: "redemption_ok s r" "rd_id r = rid"
    "row_of rv_redemption_id rid (reservations s) = Some v"
    by (rule shelf_redemption [OF inv row])
  let ?c = "consumption_command r actor" and ?l = "locked_or_created_wallet (rd_user_id r) s"
  obtain s2 where post: "post_entry eid m ?c ?l = Inr (s2, entry_of eid m ?c)"
    using post_entry_ok [of ?c eid ?l m] pending_unconsumed [OF inv row p] ok(1) fresh
    by (auto simp: redemption_ok_def)
  have item: "rd_item_id (approved_by r actor now) \<in> it_id ` set (reward_items
      (audit_decision actor (approved_by r actor now) ''REDEMPTION_APPROVE'' (rd_status r) ctx None None
        (settle (approved_by r actor now) CONSUMED now s2)))"
    using ok(1) post_entry_InrD(8) [OF post] by (simp add: redemption_ok_def)
  obtain s' where fin: "record_redemption_decided w (approved_by r actor now) None
       (audit_decision actor (approved_by r actor now) ''REDEMPTION_APPROVE''
         (rd_status r) ctx None None (settle (approved_by r actor now) CONSUMED now s2)) = Inr s'"
    using decided_ok [OF item] by blast
  from approve_decides [OF rev row p _ post fin] ok(2,3)
  have run: "approve_redemption w eid m actor rid now ctx s = Inr (s', approved_by r actor now)"
    by simp
  from post fin run show ?thesis by (rule that)
qed

text \<open>On a well-formed shelf a permitted reviewer can always approve a pending redemption.
  The approval appends exactly one consuming ledger entry of minus the frozen points, turns the
  freeze into that spend so that no user's spendable points change, leaves earned points and stock
  occupancy alone, keeps the shelf well-formed and leaves one audit row.\<close>

theorem approve_consumes_the_freeze:
  assumes inv: "shelf_inv s" and row: "row_of rd_id rid (redemptions s) = Some r" and p: "pending r"
    and rev: "require_reviewer s actor = None" and fresh: "eid \<notin> le_id ` set (ledger s)"
  shows "\<exists>s' r' e. approve_redemption w eid m actor rid now ctx s = Inr (s', r')
    \<and> shelf_inv s' \<and> row_of rd_id rid (redemptions s') = Some r' \<and> rd_status r' = APPROVED
    \<and> ledger s' = ledger s @ [e] \<and> consumes e r'
    \<and> available_points (wallet_of s' (rd_user_id r))
        = available_points (wallet_of s (rd_user_id r)) - rd_points r
    \<and> (\<forall>u. get_spendable_points s' u = get_spendable_points s u
          \<and> earned_points (wallet_of s' u) = earned_points (wallet_of s u))
    \<and> (\<forall>i. occupancy s' i = occupancy s i)
    \<and> (\<exists>row. audit_logs s' = audit_logs s @ [row] \<and> decision_row actor r' ''REDEMPTION_APPROVE'' None row)"
proof -
  let ?e = "entry_of eid m (consumption_command r actor)"
  obtain s2 s' where post: "post_entry eid m (consumption_command r actor)
      (locked_or_created_wallet (rd_user_id r) s) = Inr (s2, ?e)"
    and fin: "record_redemption_decided w (approved_by r actor now) None
       (audit_decision actor (approved_by r actor now) ''REDEMPTION_APPROVE''
         (rd_status r) ctx None None (settle (approved_by r actor now) CONSUMED now s2)) = Inr s'"
    and run: "approve_redemption w eid m actor rid now ctx s = Inr (s', approved_by r actor now)"
    by (rule approve_can [OF inv row p rev fresh])
  note eff = approve_effect [OF inv row p post fin]
  show ?thesis
    by (rule exI [of _ s'], rule exI [of _ "approved_by r actor now"], rule exI [of _ ?e],
        intro conjI allI) (use run eff in simp_all)
qed

section \<open>Rejection\<close>

lemma reject_InrD:
  assumes "reject_redemption w actor rid reason now ctx s = Inr (s', r')"
  obtains (replay) t where "strip_or_none reason = Some t" "require_reviewer s actor = None"
      "row_of rd_id rid (redemptions s) = Some r'" "rd_status r' = REJECTED" "s' = s"
  | (decided) t r v where "strip_or_none reason = Some t" "require_reviewer s actor = None"
      "row_of rd_id rid (redemptions s) = Some r" "pending r"
      "row_of rv_redemption_id (rd_id r) (reservations s) = Some v"
      "r' = rejected_by r actor t now"
      "record_redemption_decided w r' (Some t) (audit_decision actor r' ''REDEMPTION_REJECT''
         (rd_status r) ctx (Some t) None
         (settle r' RELEASED now (locked_or_created_wallet (rd_user_id r) s))) = Inr s'"
  using assms
  by (auto simp: reject_redemption_def rejected_by_def Let_def
      split: option.splits if_splits sum.splits)

lemma reject_decides:
  assumes "strip_or_none reason = Some t" "require_reviewer s actor = None"
    "row_of rd_id rid (redemptions s) = Some r" "pending r"
    "row_of rv_redemption_id (rd_id r) (reservations s) = Some v"
    "record_redemption_decided w (rejected_by r actor t now) (Some t)
       (audit_decision actor (rejected_by r actor t now) ''REDEMPTION_REJECT'' (rd_status r) ctx
         (Some t) None (settle (rejected_by r actor t now) RELEASED now
            (locked_or_created_wallet (rd_user_id r) s))) = Inr s'"
  shows "reject_redemption w actor rid reason now ctx s = Inr (s', rejected_by r actor t now)"
  using assms by (auto simp: reject_redemption_def rejected_by_def Let_def)

lemma reject_effect:
  assumes inv: "shelf_inv s" and row: "row_of rd_id rid (redemptions s) = Some r" and p: "pending r"
    and fin: "record_redemption_decided w (rejected_by r actor t now) (Some t)
       (audit_decision actor (rejected_by r actor t now) ''REDEMPTION_REJECT'' (rd_status r) ctx
         (Some t) None (settle (rejected_by r actor t now) RELEASED now
            (locked_or_created_wallet (rd_user_id r) s))) = Inr s'"
  shows "shelf_inv s'" and "ledger s' = ledger s" and "wallet_of s' = wallet_of s"
    and "row_of rd_id rid (redemptions s') = Some (rejected_by r actor t now)"
    and "get_spendable_points s' u = get_spendable_points s u
           + (if u = rd_user_id r then rd_points r else 0)"
    and "occupancy s' i = occupancy s i - (if i = rd_item_id r then 1 else 0)"
    and "\<exists>row. audit_logs s' = audit_logs s @ [row]
           \<and> decision_row actor (rejected_by r actor t now) ''REDEMPTION_REJECT'' (Some t) row"
proof -
  let ?r = "rejected_by r actor t now" and ?l = "locked_or_created_wallet (rd_user_id r) s"
  note f = decided_Inr [OF fin]
  have id: "rd_id r = rid" using row_of_SomeD [OF row] by simp
  show "ledger s' = ledger s" "wallet_of s' = wallet_of s"
    using f(1,8) by simp_all
  have w: "wallets s u \<noteq> None \<Longrightarrow> wallets ?l u \<noteq> None" for u
    by (rule locked_keeps_wallet)
  have "shelf_inv (settle ?r RELEASED now ?l)"
    by (rule settle_keeps_shelf [OF inv row, where new = "[]"])
      (use p w in auto)
  moreover have "shelf_inv s' = shelf_inv (settle ?r RELEASED now ?l)"
    by (rule shelf_inv_cong) (simp_all add: f(1-5))
  ultimately show sh: "shelf_inv s'" by simp
  have fr: "frozen_of s' u = frozen_of s u - (if u = rd_user_id r then rd_points r else 0)"
    unfolding f(9) audit_decision_simps
    by (rule frozen_settle [OF inv row]) (use p in auto)
  show "get_spendable_points s' u = get_spendable_points s u
      + (if u = rd_user_id r then rd_points r else 0)"
    using fr f(8) by (simp add: spendable_shelf [OF sh] spendable_shelf [OF inv])
  show "occupancy s' i = occupancy s i - (if i = rd_item_id r then 1 else 0)"
    using occupancy_settle [OF inv row, of ?r ?l RELEASED now i] p
    by (auto simp: f(10) occupies_def)
  show "row_of rd_id rid (redemptions s') = Some ?r"
    using row id by (simp add: f(4) settle_def tbl)
  show "\<exists>row. audit_logs s' = audit_logs s @ [row]
      \<and> decision_row actor ?r ''REDEMPTION_REJECT'' (Some t) row"
    using audit_decision_row [of actor ?r "''REDEMPTION_REJECT''" "rd_status r" ctx "Some t" None
        "settle ?r RELEASED now ?l"] f(7) by simp
qed

text \<open>On a well-formed shelf a permitted reviewer with a non-blank reason can always
  reject a pending redemption.  The rejection writes no ledger entry and moves no wallet; it gives
  the frozen points back to the user's spendable points, frees one stock unit, stores the reason on
  the row and leaves one audit row.\<close>

theorem reject_releases_the_freeze:
  assumes inv: "shelf_inv s" and row: "row_of rd_id rid (redemptions s) = Some r" and p: "pending r"
    and rev: "require_reviewer s actor = None" and reason: "strip_or_none reason = Some t"
  shows "\<exists>s' r'. reject_redemption w actor rid reason now ctx s = Inr (s', r')
    \<and> shelf_inv s' \<and> row_of rd_id rid (redemptions s') = Some r' \<and> rd_status r' = REJECTED
    \<and> rd_rejection_reason r' = Some t \<and> ledger s' = ledger s \<and> wallet_of s' = wallet_of s
    \<and> (\<forall>u. get_spendable_points s' u = get_spendable_points s u
          + (if u = rd_user_id r then rd_points r else 0))
    \<and> (\<forall>i. occupancy s' i = occupancy s i - (if i = rd_item_id r then 1 else 0))
    \<and> (\<exists>row. audit_logs s' = audit_logs s @ [row]
          \<and> decision_row actor r' ''REDEMPTION_REJECT'' (Some t) row)"
proof -
  obtain v where ok: "redemption_ok s r" "rd_id r = rid"
    "row_of rv_redemption_id rid (reservations s) = Some v"
    by (rule shelf_redemption [OF inv row])
  let ?r = "rejected_by r actor t now"
  let ?a = "audit_decision actor ?r ''REDEMPTION_REJECT'' (rd_status r) ctx
      (Some t) None (settle ?r RELEASED now (locked_or_created_wallet (rd_user_id r) s))"
  have "rd_item_id ?r \<in> it_id ` set (reward_items ?a)"
    using ok(1) by (simp add: redemption_ok_def)
  then obtain s' where fin: "record_redemption_decided w ?r (Some t) ?a = Inr s'"
    using decided_ok by blast
  have run: "reject_redemption w actor rid reason now ctx s = Inr (s', ?r)"
    using reject_decides [OF reason rev row p _ fin] ok(2,3) by simp
  note eff = reject_effect [OF inv row p fin]
  have "rd_rejection_reason ?r = Some t" by (simp add: rejected_by_def)
  then show ?thesis
    by (intro exI [of _ s'] exI [of _ ?r] conjI allI) (use run eff in simp_all)
qed

section \<open>Fulfilment\<close>

definition fulfilled_with :: "redemption \<Rightarrow> string option \<Rightarrow> instant \<Rightarrow> redemption" where
  "fulfilled_with r note_text now = r\<lparr>rd_status := FULFILLED, rd_fulfilled_at := Some now,
     rd_fulfillment_note := note_text\<rparr>"

lemma fulfilled_with_simps [simp]:
  "rd_id (fulfilled_with r n now) = rd_id r" "rd_user_id (fulfilled_with r n now) = rd_user_id r"
  "rd_item_id (fulfilled_with r n now) = rd_item_id r" "rd_points (fulfilled_with r n now) = rd_points r"
  "rd_status (fulfilled_with r n now) = FULFILLED"
  by (simp_all add: fulfilled_with_def)

lemma fulfill_InrD:
  assumes "fulfill_redemption actor rid nt now ctx s = Inr (s', r')"
  obtains (replay) "require_reviewer s actor = None" "row_of rd_id rid (redemptions s) = Some r'"
      "rd_status r' = FULFILLED" "s' = s"
  | (decided) r where "require_reviewer s actor = None"
      "row_of rd_id rid (redemptions s) = Some r" "rd_status r = APPROVED"
      "r' = fulfilled_with r (strip_or_none nt) now"
      "s' = audit_decision actor r' ''REDEMPTION_FULFILL'' (rd_status r) ctx None (strip_or_none nt)
         (s\<lparr>redemptions := update_row rd_id (rd_id r) (\<lambda>_. r') (redemptions s)\<rparr>)"
  using assms
  by (auto simp: fulfill_redemption_def fulfilled_with_def Let_def split: option.splits if_splits)

lemma fulfil_keeps_shelf:
  assumes inv: "shelf_inv s" and row: "row_of rd_id rid (redemptions s) = Some r"
    and st: "rd_status r = APPROVED" and r': "r' = fulfilled_with r n now"
  shows "shelf_inv (s\<lparr>redemptions := update_row rd_id (rd_id r) (\<lambda>_. r') (redemptions s)\<rparr>)"
    (is "shelf_inv ?s")
proof -
  have keys: "map rd_id (redemptions ?s) = map rd_id (redemptions s)"
    by (simp add: r' tbl)
  then have ids: "rd_id ` set (redemptions ?s) = rd_id ` set (redemptions s)"
    by (metis set_map)
  have r: "r \<in> set (redemptions s)" using row_of_SomeD [OF row] by simp
  have r'_in: "r' \<in> set (redemptions ?s)"
    using r by (force simp: set_update_row)
  have mem: "q \<in> set (redemptions ?s)" if "q \<in> set (redemptions s)" "q \<noteq> r" for q
    using that row_of_unique [OF shelf_distinct(1) [OF inv] that(1)] row row_of_SomeD [OF row]
    by (force simp: set_update_row)
  have same: "consumes e r' = consumes e r" "backs v r' = backs v r" for e v
    by (simp_all add: consumes_def backs_def r' st)
  have ok: "redemption_ok s q" if "q \<in> set (redemptions s)" for q
    using that inv by (simp add: shelf_inv_def list_all_iff)
  have "rd_status r' = FULFILLED" "rd_points r' = rd_points r" "rd_user_id r' = rd_user_id r"
    "rd_item_id r' = rd_item_id r"
    by (simp_all add: r')
  then have "redemption_ok s r'"
    using ok [OF r] st by (simp add: redemption_ok_def same)
  then have "redemption_ok s q" if "q \<in> set (redemptions ?s)" for q
    using that ok by (auto simp: set_update_row)
  then have "redemption_ok ?s q" if "q \<in> set (redemptions ?s)" for q
    using that by (simp add: redemption_ok_def)
  moreover have "spends ?s e" if "spends s e" for e
    unfolding spends_def
  proof
    assume "le_type e = REWARD_REDEMPTION"
    with that obtain q where q: "q \<in> set (redemptions s)" "consumes e q"
      "rd_status q \<in> {APPROVED, FULFILLED}" by (auto simp: spends_def)
    show "\<exists>q\<in>set (redemptions ?s). consumes e q \<and> rd_status q \<in> {APPROVED, FULFILLED}"
    proof (cases "q = r")
      case True
      with q(2) same(1) have "consumes e r'" by simp
      moreover have "rd_status r' = FULFILLED" by (simp add: r')
      ultimately show ?thesis using r'_in by blast
    qed (use mem q in blast)
  qed
  ultimately show ?thesis
    using inv keys ids by (simp add: shelf_inv_def list_all_iff)
qed

lemma fulfill_effect:
  assumes inv: "shelf_inv s" and row: "row_of rd_id rid (redemptions s) = Some r"
    and st: "rd_status r = APPROVED" and r': "r' = fulfilled_with r n now"
    and s': "s' = audit_decision actor r' ''REDEMPTION_FULFILL'' (rd_status r) ctx None n
         (s\<lparr>redemptions := update_row rd_id (rd_id r) (\<lambda>_. r') (redemptions s)\<rparr>)"
  shows "shelf_inv s'" and "ledger s' = ledger s" and "wallet_of s' = wallet_of s"
    and "row_of rd_id rid (redemptions s') = Some r'"
    and "get_spendable_points s' = get_spendable_points s" and "occupancy s' = occupancy s"
    and "\<exists>row. audit_logs s' = audit_logs s @ [row] \<and> decision_row actor r' ''REDEMPTION_FULFILL'' None row"
proof -
  let ?s = "s\<lparr>redemptions := update_row rd_id (rd_id r) (\<lambda>_. r') (redemptions s)\<rparr>"
  have "shelf_inv s' = shelf_inv ?s"
    unfolding s' by (rule shelf_inv_cong) simp_all
  then show sh: "shelf_inv s'"
    using fulfil_keeps_shelf [OF inv row st r'] by simp
  show "ledger s' = ledger s" and w: "wallet_of s' = wallet_of s"
    by (simp_all add: s' wallet_of_def fun_eq_iff)
  show "row_of rd_id rid (redemptions s') = Some r'"
    using row row_of_SomeD [OF row] by (simp add: s' r' tbl)
  have "frozen_of s' = frozen_of s"
    by (simp add: s' frozen_of_def fun_eq_iff)
  then show "get_spendable_points s' = get_spendable_points s"
    by (simp add: fun_eq_iff spendable_shelf [OF sh] spendable_shelf [OF inv] w)
  have "occupies i r' = occupies i r" for i by (simp add: occupies_def r' st)
  then show "occupancy s' = occupancy s"
    using count_rows_update_row [OF shelf_distinct(1) [OF inv] row, of _ "\<lambda>_. r'"] row_of_SomeD [OF row]
    by (simp add: s' occupancy_def fun_eq_iff)
  show "\<exists>row. audit_logs s' = audit_logs s @ [row] \<and> decision_row actor r' ''REDEMPTION_FULFILL'' None row"
    using audit_decision_row [of actor r' "''REDEMPTION_FULFILL''" "rd_status r" ctx None n ?s]
    by (simp add: s')
qed

section \<open>The request\<close>

definition catalogue_ok :: "reward_item list \<Rightarrow> bool" where
  "catalogue_ok t \<longleftrightarrow> distinct (map it_id t) \<and> list_all (\<lambda>i. item_checks i = None) t"

lemma catalogue_cost: "catalogue_ok t \<Longrightarrow> i \<in> set t \<Longrightarrow> 0 < it_point_cost i"
  by (auto simp: catalogue_ok_def list_all_iff item_checks_def split: if_splits)

definition admissible :: "string \<Rightarrow> uuid \<Rightarrow> uuid \<Rightarrow> instant \<Rightarrow> 'a points_db_scheme \<Rightarrow> reward_item \<Rightarrow> string \<Rightarrow> bool" where
  "admissible current_term u item_id now s item tm \<longleftrightarrow>
     validated_term_key current_term = Inr tm
     \<and> row_of it_id item_id (reward_items s) = Some item \<and> it_enabled item \<and> window_open item now
     \<and> (case it_stock item of None \<Rightarrow> True | Some n \<Rightarrow> occupancy s item_id < n)
     \<and> (case it_per_user_term_limit item of None \<Rightarrow> True | Some n \<Rightarrow> used_quota s u item_id tm < n)
     \<and> it_point_cost item \<le> available_points (wallet_of s u) - frozen_of s u"

lemma used_quota_locked [simp]: "used_quota (locked_or_created_wallet u s) = used_quota s"
  by (simp add: fun_eq_iff used_quota_def)

lemma request_InrD:
  assumes "request_redemption ct rid vid u item_id now db_now s = Inr (s', r)"
  obtains item tm where "admissible ct u item_id now s item tm"
    "r = new_redemption rid u item tm db_now"
    "insert_redemption r (redemptions s) = Inr (redemptions s')"
    "insert_reservation (new_reservation vid r) (reservations s) = Inr (reservations s')"
    "s' = (locked_or_created_wallet u s)\<lparr>redemptions := redemptions s', reservations := reservations s'\<rparr>"
proof -
  from assms obtain tm item where g: "validated_term_key ct = Inr tm"
    "row_of it_id item_id (reward_items s) = Some item" "it_enabled item" "window_open item now"
    "case it_stock item of None \<Rightarrow> True | Some n \<Rightarrow> occupancy s (it_id item) < n"
    "case it_per_user_term_limit item of None \<Rightarrow> True | Some n \<Rightarrow> used_quota s u (it_id item) tm < n"
    "it_point_cost item \<le> available_points (wallet_of s u) - frozen_of s u"
    and i: "r = new_redemption rid u item tm db_now"
    "\<exists>rs vs. insert_redemption r (redemptions s) = Inr rs
      \<and> insert_reservation (new_reservation vid r) (reservations s) = Inr vs
      \<and> s' = (locked_or_created_wallet u s)\<lparr>redemptions := rs, reservations := vs\<rparr>"
    by (auto simp: request_redemption_def Let_def not_less not_le
        split: sum.splits option.splits if_splits)
  moreover have "it_id item = item_id" using row_of_SomeD [OF g(2)] by simp
  ultimately show ?thesis
    using that [of item tm] by (auto simp: admissible_def)
qed

lemma request_runs:
  assumes adm: "admissible ct u item_id now s item tm"
    and ins: "insert_redemption (new_redemption rid u item tm db_now) (redemptions s) = Inr rs"
      "insert_reservation (new_reservation vid (new_redemption rid u item tm db_now)) (reservations s) = Inr vs"
  shows "request_redemption ct rid vid u item_id now db_now s =
    Inr ((locked_or_created_wallet u s)\<lparr>redemptions := rs, reservations := vs\<rparr>,
         new_redemption rid u item tm db_now)"
proof -
  have "it_id item = item_id"
    using adm row_of_SomeD by (fastforce simp: admissible_def)
  with adm ins show ?thesis
    by (auto simp: request_redemption_def admissible_def Let_def split: option.splits)
qed

lemma new_redemption_simps [simp]:
  "rd_id (new_redemption rid u i t n) = rid" "rd_user_id (new_redemption rid u i t n) = u"
  "rd_item_id (new_redemption rid u i t n) = it_id i" "rd_points (new_redemption rid u i t n) = it_point_cost i"
  "rd_status (new_redemption rid u i t n) = REQUESTED" "rd_term_key (new_redemption rid u i t n) = t"
  by (simp_all add: new_redemption_def)

lemma new_reservation_simps [simp]:
  "rv_id (new_reservation vid r) = vid" "rv_redemption_id (new_reservation vid r) = rd_id r"
  "rv_user_id (new_reservation vid r) = rd_user_id r" "rv_points (new_reservation vid r) = rd_points r"
  "rv_status (new_reservation vid r) = ReservationStatus.ACTIVE" "release_coherent (new_reservation vid r)"
  by (simp_all add: new_reservation_def release_coherent_def)

text \<open>A redemption request is accepted exactly when the term key is usable, the item exists,
  is enabled and inside its half-open window, a stock unit is free, the user's quota of the term is
  open and the spendable points cover the cost.\<close>

theorem request_accepted_iff:
  assumes inv: "shelf_inv s" and cat: "catalogue_ok (reward_items s)"
    and fresh: "rid \<notin> rd_id ` set (redemptions s)" "vid \<notin> rv_id ` set (reservations s)"
  shows "ok (request_redemption ct rid vid u item_id now db_now s)
    \<longleftrightarrow> (\<exists>item tm. validated_term_key ct = Inr tm
         \<and> row_of it_id item_id (reward_items s) = Some item \<and> it_enabled item \<and> window_open item now
         \<and> (case it_stock item of None \<Rightarrow> True | Some n \<Rightarrow> occupancy s item_id < n)
         \<and> (case it_per_user_term_limit item of None \<Rightarrow> True
              | Some n \<Rightarrow> used_quota s u item_id tm < n)
         \<and> it_point_cost item \<le> get_spendable_points s u)"
    (is "?L \<longleftrightarrow> ?R")
proof
  assume ?L
  then obtain s' r where "request_redemption ct rid vid u item_id now db_now s = Inr (s', r)"
    by (cases "request_redemption ct rid vid u item_id now db_now s") auto
  then show ?R
    by (rule request_InrD) (auto simp: admissible_def spendable_shelf [OF inv])
next
  assume ?R
  then obtain item tm where adm: "admissible ct u item_id now s item tm"
    by (auto simp: admissible_def spendable_shelf [OF inv])
  let ?r = "new_redemption rid u item tm db_now"
  have pos: "0 < it_point_cost item"
    using adm catalogue_cost [OF cat] row_of_SomeD by (fastforce simp: admissible_def)
  have "rid \<notin> rv_redemption_id ` set (reservations s)"
    using fresh(1) inv by (auto simp: shelf_inv_def list_all_iff)
  then have "insert_reservation (new_reservation vid ?r) (reservations s)
      = Inr (reservations s @ [new_reservation vid ?r])"
    using fresh pos by (simp add: insert_reservation_def)
  moreover have "insert_redemption ?r (redemptions s) = Inr (redemptions s @ [?r])"
    using fresh pos by (simp add: insert_redemption_def)
  ultimately show ?L
    using request_runs [OF adm] by simp
qed

lemma request_effect:
  assumes inv: "shelf_inv s" and cat: "catalogue_ok (reward_items s)"
    and adm: "admissible ct u item_id now s item tm"
    and r: "r = new_redemption rid u item tm db_now"
    and i1: "insert_redemption r (redemptions s) = Inr (redemptions s')"
    and i2: "insert_reservation (new_reservation vid r) (reservations s) = Inr (reservations s')"
    and s': "s' = (locked_or_created_wallet u s)\<lparr>redemptions := redemptions s', reservations := reservations s'\<rparr>"
  shows "redemptions s' = redemptions s @ [r]" "reservations s' = reservations s @ [new_reservation vid r]"
    and "ledger s' = ledger s" "wallet_of s' = wallet_of s" "reward_items s' = reward_items s"
    and "shelf_inv s'"
proof -
  have item: "item \<in> set (reward_items s)" "it_id item = item_id"
    using adm row_of_SomeD by (fastforce simp: admissible_def)+
  have pos: "0 < rd_points r" using catalogue_cost [OF cat item(1)] by (simp add: r)
  have f: "rid \<notin> rd_id ` set (redemptions s)" "redemptions s' = redemptions s @ [r]"
    using i1 by (auto simp: insert_redemption_def r split: if_splits)
  have g: "rid \<notin> rv_redemption_id ` set (reservations s)" "reservations s' = reservations s @ [new_reservation vid r]"
    using i2 by (auto simp: insert_reservation_def r split: if_splits)
  let ?l = "locked_or_created_wallet u s"
  show "redemptions s' = redemptions s @ [r]" "reservations s' = reservations s @ [new_reservation vid r]"
    by (fact f g)+
  have t: "ledger s' = ledger s" "reward_items s' = reward_items s" "wallets s' = wallets ?l"
    by (subst s'; simp)+
  show "ledger s' = ledger s" "reward_items s' = reward_items s" by (fact t)+
  have "wallet_of s' = wallet_of ?l" by (rule ext) (simp only: wallet_of_def t)
  then show "wallet_of s' = wallet_of s" by simp
  have l: "shelf_inv ?l" using inv by simp
  then have "redemption_ok ?l q" if "q \<in> set (redemptions s)" for q
    using that by (simp add: shelf_inv_def list_all_iff)
  then have old: "redemption_ok s' q" if "q \<in> set (redemptions s)" for q
    using that by (auto simp: redemption_ok_def t g(2))
  have "backs (new_reservation vid r) r"
    by (simp add: backs_def r)
  moreover have "wallets s' (rd_user_id r) \<noteq> None"
    using locked_wallet_exists [of u s] by (simp add: t r)
  ultimately have "redemption_ok s' r"
    using pos item(1) by (simp add: redemption_ok_def t g(2) r)
  moreover have "spends s' e" if "spends s e" for e
    using that by (auto simp: spends_def f(2))
  ultimately show "shelf_inv s'"
    using inv old f g(1) by (auto simp: shelf_inv_def list_all_iff t(1) g(2) r)
qed

lemma used_quota_append:
  assumes "redemptions s' = redemptions s @ [r]"
  shows "used_quota s' u i t = used_quota s u i t
    + (if rd_user_id r = u \<and> rd_item_id r = i \<and> rd_term_key r = t \<and> rd_status r \<noteq> REJECTED then 1 else 0)"
  by (simp add: used_quota_def assms tbl)

text \<open>An accepted request appends one REQUESTED redemption at the item's price and the one
  ACTIVE reservation that backs it, writes no ledger entry, lowers only this user's spendable
  points, by the price and never below zero, and never oversells the stock nor exceeds the quota.\<close>

theorem request_reserves:
  assumes inv: "shelf_inv s" and cat: "catalogue_ok (reward_items s)"
    and run: "request_redemption ct rid vid u item_id now db_now s = Inr (s', r)"
  shows "\<exists>item v. row_of it_id item_id (reward_items s) = Some item
    \<and> redemptions s' = redemptions s @ [r] \<and> reservations s' = reservations s @ [v]
    \<and> rd_status r = REQUESTED \<and> rd_user_id r = u \<and> rd_points r = it_point_cost item
    \<and> backs v r \<and> ledger s' = ledger s \<and> wallet_of s' = wallet_of s \<and> shelf_inv s'
    \<and> 0 \<le> get_spendable_points s' u
    \<and> (\<forall>w. get_spendable_points s' w = get_spendable_points s w - (if w = u then rd_points r else 0))
    \<and> occupancy s' item_id = occupancy s item_id + 1
    \<and> (case it_stock item of None \<Rightarrow> True | Some n \<Rightarrow> occupancy s' item_id \<le> n)
    \<and> (case it_per_user_term_limit item of None \<Rightarrow> True
         | Some n \<Rightarrow> used_quota s' u item_id (rd_term_key r) \<le> n)"
proof (rule request_InrD [OF run])
  fix item tm
  assume adm: "admissible ct u item_id now s item tm"
    and r: "r = new_redemption rid u item tm db_now"
    and i: "insert_redemption r (redemptions s) = Inr (redemptions s')"
      "insert_reservation (new_reservation vid r) (reservations s) = Inr (reservations s')"
      "s' = (locked_or_created_wallet u s)\<lparr>redemptions := redemptions s', reservations := reservations s'\<rparr>"
  note eff = request_effect [OF inv cat adm r i]
  have id: "it_id item = item_id"
    using adm row_of_SomeD by (fastforce simp: admissible_def)
  have fr: "frozen_of s' w = frozen_of s w + (if w = u then rd_points r else 0)" for w
    by (simp add: frozen_of_def eff(2) tbl active_of_def r)
  have sp: "get_spendable_points s' w = get_spendable_points s w - (if w = u then rd_points r else 0)" for w
    by (simp add: spendable_shelf [OF eff(6)] spendable_shelf [OF inv] eff(4) fr)
  have nonneg: "0 \<le> get_spendable_points s' u"
    using sp [of u] adm by (simp add: spendable_shelf [OF inv] admissible_def r)
  have oc: "occupancy s' item_id = occupancy s item_id + 1"
    by (simp add: occupancy_def eff(1) tbl occupies_def r id)
  have q: "used_quota s' u item_id (rd_term_key r) = used_quota s u item_id tm + 1"
    using used_quota_append [OF eff(1)] by (simp add: r id)
  have "case it_stock item of None \<Rightarrow> True | Some n \<Rightarrow> occupancy s' item_id \<le> n"
    "case it_per_user_term_limit item of None \<Rightarrow> True | Some n \<Rightarrow> used_quota s' u item_id (rd_term_key r) \<le> n"
    using adm by (auto simp: admissible_def oc q split: option.splits)
  moreover have "row_of it_id item_id (reward_items s) = Some item" "rd_status r = REQUESTED"
    "rd_user_id r = u" "rd_points r = it_point_cost item" "backs (new_reservation vid r) r"
    using adm by (simp_all add: admissible_def r backs_def)
  ultimately show ?thesis
    using eff sp nonneg oc by (intro exI [of _ item] exI [of _ "new_reservation vid r"]) simp
qed

section \<open>The decision contract\<close>

text \<open>
  What the staff decisions share: a decision needs a permission that it does not change itself,
  it moves the row it names from a source status to its goal status with one audit row, and a
  replay of it returns the row with nothing written.  \<open>'a\<close> are the arguments of one call.
\<close>

locale decision =
  fixes decide :: "'a \<Rightarrow> 's \<Rightarrow> 'e + ('s \<times> 'r)"
    and permitted :: "'a \<Rightarrow> 's \<Rightarrow> bool"
    and row :: "'s \<Rightarrow> 'r option"
    and status :: "'r \<Rightarrow> 'st"
    and goal :: 'st
    and sources :: "'st set"
    and trail :: "'s \<Rightarrow> audit_row list"
  assumes decided: "decide a s = Inr (s', r) \<Longrightarrow> row s' = Some r \<and> status r = goal"
    and guarded: "decide a s = Inr (s', r) \<Longrightarrow> permitted a s"
    and from_source: "decide a s = Inr (s', r) \<Longrightarrow>
      \<exists>q. row s = Some q \<and> (status q = goal \<and> s' = s \<or> status q \<in> sources
        \<and> (\<exists>e. trail s' = trail s @ [e]))"
    and permission_kept: "decide a s = Inr (s', r) \<Longrightarrow> permitted b s' = permitted b s"
    and replay: "permitted a s \<Longrightarrow> row s = Some r \<Longrightarrow> status r = goal \<Longrightarrow> decide a s = Inr (s, r)"
    and goal_not_source: "goal \<notin> sources"
begin

lemma replay_after: "decide a s = Inr (s', r) \<Longrightarrow> permitted b s \<Longrightarrow> decide b s' = Inr (s', r)"
  using decided permission_kept replay by blast

lemma closed_elsewhere:
  "row s = Some q \<Longrightarrow> status q \<noteq> goal \<Longrightarrow> status q \<notin> sources \<Longrightarrow> \<not> ok (decide a s)"
  using from_source by (cases "decide a s") fastforce+

text \<open>Any run of repeated decisions writes what its first call wrote.\<close>

lemma repeated:
  "decide a s = Inr (s', r) \<Longrightarrow> list_all (\<lambda>b. permitted b s) bs
   \<Longrightarrow> foldl (\<lambda>t b. case decide b t of Inl e \<Rightarrow> t | Inr (t', _) \<Rightarrow> t') s' bs = s'"
  by (induction bs) (auto simp: replay_after)

end

lemma grants_after_post:
  assumes "post_entry eid m c (locked_or_created_wallet u s) = Inr (s2, e)"
  shows "review_grants s2 = review_grants s"
  using post_entry_InrD(9) [OF assms] by simp

lemma require_reviewer_cong:
  "review_grants t = review_grants s \<Longrightarrow> require_reviewer t = require_reviewer s"
  by (simp add: require_reviewer_def has_reward_review_grant_def fun_eq_iff)

definition approve_call :: "uuid \<Rightarrow> bool \<times> uuid \<times> uuid \<times> actor \<times> instant \<times> audit_context option
    \<Rightarrow> 'a points_db_scheme \<Rightarrow> redemption_error + ('a points_db_scheme \<times> redemption)" where
  "approve_call rid = (\<lambda>(w, eid, m, actor, now, ctx). approve_redemption w eid m actor rid now ctx)"

definition reject_call :: "uuid \<Rightarrow> bool \<times> actor \<times> string option \<times> instant \<times> audit_context option
    \<Rightarrow> 'a points_db_scheme \<Rightarrow> redemption_error + ('a points_db_scheme \<times> redemption)" where
  "reject_call rid = (\<lambda>(w, actor, reason, now, ctx). reject_redemption w actor rid reason now ctx)"

definition fulfill_call :: "uuid \<Rightarrow> actor \<times> string option \<times> instant \<times> audit_context option
    \<Rightarrow> 'a points_db_scheme \<Rightarrow> redemption_error + ('a points_db_scheme \<times> redemption)" where
  "fulfill_call rid = (\<lambda>(actor, nt, now, ctx). fulfill_redemption actor rid nt now ctx)"


lemma approve_keeps_grants:
  assumes "approve_redemption w eid m actor rid now ctx s = Inr (s', r)"
  shows "review_grants s' = review_grants s"
  by (rule approve_InrD [OF assms]) (simp_all add: decided_Inr(6) grants_after_post)

lemma approve_moves:
  assumes run: "approve_redemption w eid m actor rid now ctx s = Inr (s', r)"
  shows "row_of rd_id rid (redemptions s') = Some r \<and> rd_status r = APPROVED"
    and "require_reviewer s actor = None"
    and "\<exists>q. row_of rd_id rid (redemptions s) = Some q \<and> (rd_status q = APPROVED \<and> s' = s
        \<or> rd_status q \<in> {REQUESTED, RedemptionStatus.UNDER_REVIEW}
          \<and> (\<exists>e. audit_logs s' = audit_logs s @ [e]))"
proof -
  show "require_reviewer s actor = None"
    by (rule approve_InrD [OF run])
  show "row_of rd_id rid (redemptions s') = Some r \<and> rd_status r = APPROVED"
  proof (rule approve_InrD [OF run])
    fix q v s2 e
    assume q: "row_of rd_id rid (redemptions s) = Some q" and r: "r = approved_by q actor now"
      and p: "post_entry eid m (consumption_command q actor)
           (locked_or_created_wallet (rd_user_id q) s) = Inr (s2, e)"
      and d: "record_redemption_decided w r None (audit_decision actor r ''REDEMPTION_APPROVE''
           (rd_status q) ctx None None (settle r CONSUMED now s2)) = Inr s'"
    have "redemptions s' = update_row rd_id rid (\<lambda>_. r) (redemptions s)"
      using row_of_SomeD [OF q] by (simp add: decided_Inr(4) [OF d] settle_def post_entry_InrD(7) [OF p] r)
    then show ?thesis
      using q row_of_SomeD [OF q] by (simp add: r tbl)
  qed simp
  show "\<exists>q. row_of rd_id rid (redemptions s) = Some q \<and> (rd_status q = APPROVED \<and> s' = s
      \<or> rd_status q \<in> {REQUESTED, RedemptionStatus.UNDER_REVIEW}
        \<and> (\<exists>e. audit_logs s' = audit_logs s @ [e]))"
  proof (rule approve_InrD [OF run])
    fix q v s2 e
    assume q: "row_of rd_id rid (redemptions s) = Some q" "pending q"
      and p: "post_entry eid m (consumption_command q actor)
           (locked_or_created_wallet (rd_user_id q) s) = Inr (s2, e)"
      and d: "record_redemption_decided w r None (audit_decision actor r ''REDEMPTION_APPROVE''
           (rd_status q) ctx None None (settle r CONSUMED now s2)) = Inr s'"
    obtain e where "audit_logs s' = audit_logs s @ [e]"
      using audit_decision_row [of actor r "''REDEMPTION_APPROVE''" "rd_status q" ctx None None "settle r CONSUMED now s2"]
      by (auto simp: decided_Inr(7) [OF d] post_entry_InrD(10) [OF p])
    with q show ?thesis by simp
  qed simp
qed

lemma reject_keeps_grants:
  assumes "reject_redemption w actor rid reason now ctx s = Inr (s', r)"
  shows "review_grants s' = review_grants s"
  by (rule reject_InrD [OF assms]) (simp_all add: decided_Inr(6))

lemma reject_moves:
  assumes run: "reject_redemption w actor rid reason now ctx s = Inr (s', r)"
  shows "row_of rd_id rid (redemptions s') = Some r \<and> rd_status r = REJECTED"
    and "require_reviewer s actor = None \<and> strip_or_none reason \<noteq> None"
    and "\<exists>q. row_of rd_id rid (redemptions s) = Some q \<and> (rd_status q = REJECTED \<and> s' = s
        \<or> rd_status q \<in> {REQUESTED, RedemptionStatus.UNDER_REVIEW}
          \<and> (\<exists>e. audit_logs s' = audit_logs s @ [e]))"
proof -
  show "require_reviewer s actor = None \<and> strip_or_none reason \<noteq> None"
    by (rule reject_InrD [OF run]) simp_all
  show "row_of rd_id rid (redemptions s') = Some r \<and> rd_status r = REJECTED"
  proof (rule reject_InrD [OF run])
    fix t q v
    assume q: "row_of rd_id rid (redemptions s) = Some q" and r: "r = rejected_by q actor t now"
      and d: "record_redemption_decided w r (Some t) (audit_decision actor r ''REDEMPTION_REJECT''
         (rd_status q) ctx (Some t) None
         (settle r RELEASED now (locked_or_created_wallet (rd_user_id q) s))) = Inr s'"
    have "redemptions s' = update_row rd_id rid (\<lambda>_. r) (redemptions s)"
      using row_of_SomeD [OF q] by (simp add: decided_Inr(4) [OF d] settle_def r)
    then show ?thesis
      using q row_of_SomeD [OF q] by (simp add: r tbl)
  qed simp
  show "\<exists>q. row_of rd_id rid (redemptions s) = Some q \<and> (rd_status q = REJECTED \<and> s' = s
      \<or> rd_status q \<in> {REQUESTED, RedemptionStatus.UNDER_REVIEW}
        \<and> (\<exists>e. audit_logs s' = audit_logs s @ [e]))"
  proof (rule reject_InrD [OF run])
    fix t q v
    assume q: "row_of rd_id rid (redemptions s) = Some q" "pending q"
      and d: "record_redemption_decided w r (Some t) (audit_decision actor r ''REDEMPTION_REJECT''
         (rd_status q) ctx (Some t) None
         (settle r RELEASED now (locked_or_created_wallet (rd_user_id q) s))) = Inr s'"
    obtain e where "audit_logs s' = audit_logs s @ [e]"
      using audit_decision_row [of actor r "''REDEMPTION_REJECT''" "rd_status q" ctx "Some t" None
          "settle r RELEASED now (locked_or_created_wallet (rd_user_id q) s)"]
      by (auto simp: decided_Inr(7) [OF d])
    with q show ?thesis by simp
  qed simp
qed

lemma fulfill_moves:
  assumes run: "fulfill_redemption actor rid nt now ctx s = Inr (s', r)"
  shows "row_of rd_id rid (redemptions s') = Some r \<and> rd_status r = FULFILLED"
    and "require_reviewer s actor = None"
    and "\<exists>q. row_of rd_id rid (redemptions s) = Some q \<and> (rd_status q = FULFILLED \<and> s' = s
        \<or> rd_status q \<in> {APPROVED} \<and> (\<exists>e. audit_logs s' = audit_logs s @ [e]))"
    and "review_grants s' = review_grants s"
proof -
  show "require_reviewer s actor = None" "review_grants s' = review_grants s"
    by (rule fulfill_InrD [OF run]; simp)+
  show "row_of rd_id rid (redemptions s') = Some r \<and> rd_status r = FULFILLED"
  proof (rule fulfill_InrD [OF run])
    fix q
    assume q: "row_of rd_id rid (redemptions s) = Some q" and r: "r = fulfilled_with q (strip_or_none nt) now"
      and s': "s' = audit_decision actor r ''REDEMPTION_FULFILL'' (rd_status q) ctx None (strip_or_none nt)
         (s\<lparr>redemptions := update_row rd_id (rd_id q) (\<lambda>_. r) (redemptions s)\<rparr>)"
    have "redemptions s' = update_row rd_id rid (\<lambda>_. r) (redemptions s)"
      using row_of_SomeD [OF q] by (simp add: s')
    then show ?thesis
      using q row_of_SomeD [OF q] by (simp add: r tbl)
  qed simp
  show "\<exists>q. row_of rd_id rid (redemptions s) = Some q \<and> (rd_status q = FULFILLED \<and> s' = s
        \<or> rd_status q \<in> {APPROVED} \<and> (\<exists>e. audit_logs s' = audit_logs s @ [e]))"
    by (rule fulfill_InrD [OF run]) (simp_all add: audit_decision_def audit_append_def)
qed

interpretation approval: decision "approve_call rid"
  "\<lambda>(w, eid, m, actor, now, ctx) s. require_reviewer s actor = None"
  "\<lambda>s. row_of rd_id rid (redemptions s)" rd_status APPROVED
  "{REQUESTED, RedemptionStatus.UNDER_REVIEW}" audit_logs
proof (unfold_locales, goal_cases)
  case (1 a s s' r)
  then show ?case
    by (cases a) (simp add: approve_call_def, drule approve_moves(1), simp)
next
  case (2 a s s' r)
  then show ?case
    by (cases a) (simp add: approve_call_def, erule approve_moves(2))
next
  case (3 a s s' r)
  then show ?case
    by (cases a) (simp add: approve_call_def, drule approve_moves(3), simp)
next
  case (4 a s s' r b)
  then have "review_grants s' = review_grants s"
    by (cases a) (simp add: approve_call_def, erule approve_keeps_grants)
  from require_reviewer_cong [OF this] show ?case
    by (cases b) simp
next
  case (5 a s r)
  then show ?case
    by (cases a) (simp add: approve_call_def approve_redemption_def)
qed simp

interpretation rejection: decision "reject_call rid"
  "\<lambda>(w, actor, reason, now, ctx) s. require_reviewer s actor = None \<and> strip_or_none reason \<noteq> None"
  "\<lambda>s. row_of rd_id rid (redemptions s)" rd_status REJECTED
  "{REQUESTED, RedemptionStatus.UNDER_REVIEW}" audit_logs
proof (unfold_locales, goal_cases)
  case (1 a s s' r)
  then show ?case
    by (cases a) (simp add: reject_call_def, drule reject_moves(1), simp)
next
  case (2 a s s' r)
  then show ?case
    by (cases a) (simp add: reject_call_def, drule reject_moves(2), simp)
next
  case (3 a s s' r)
  then show ?case
    by (cases a) (simp add: reject_call_def, drule reject_moves(3), simp)
next
  case (4 a s s' r b)
  then have "review_grants s' = review_grants s"
    by (cases a) (simp add: reject_call_def, erule reject_keeps_grants)
  from require_reviewer_cong [OF this] show ?case
    by (cases b) simp
next
  case (5 a s r)
  then show ?case
    by (cases a) (auto simp: reject_call_def reject_redemption_def)
qed simp

interpretation fulfilment: decision "fulfill_call rid"
  "\<lambda>(actor, nt, now, ctx) s. require_reviewer s actor = None"
  "\<lambda>s. row_of rd_id rid (redemptions s)" rd_status FULFILLED "{APPROVED}" audit_logs
proof (unfold_locales, goal_cases)
  case (1 a s s' r)
  then show ?case
    by (cases a) (simp add: fulfill_call_def, drule fulfill_moves(1), simp)
next
  case (2 a s s' r)
  then show ?case
    by (cases a) (simp add: fulfill_call_def, erule fulfill_moves(2))
next
  case (3 a s s' r)
  then show ?case
    by (cases a) (simp add: fulfill_call_def, drule fulfill_moves(3), simp)
next
  case (4 a s s' r b)
  then have "review_grants s' = review_grants s"
    by (cases a) (simp add: fulfill_call_def, erule fulfill_moves(4))
  from require_reviewer_cong [OF this] show ?case
    by (cases b) simp
next
  case (5 a s r)
  then show ?case
    by (cases a) (simp add: fulfill_call_def fulfill_redemption_def)
qed simp

text \<open>An approved redemption can be approved again by any reviewer with the same row and
  nothing written, and can never be rejected any more.\<close>

theorem approval_is_final:
  assumes "approve_redemption w eid m a rid now ctx s = Inr (s', r)"
    and rev: "require_reviewer s b = None"
  shows "approve_redemption w' eid' m' b rid now' ctx' s' = Inr (s', r)
    \<and> \<not> ok (reject_redemption w' b rid reason now' ctx' s')"
proof
  show "approve_redemption w' eid' m' b rid now' ctx' s' = Inr (s', r)"
    using approval.replay_after [of rid "(w, eid, m, a, now, ctx)" s s' r "(w', eid', m', b, now', ctx')"]
      assms by (simp add: approve_call_def)
  show "\<not> ok (reject_redemption w' b rid reason now' ctx' s')"
    using rejection.closed_elsewhere [of rid s' r "(w', b, reason, now', ctx')"]
      approve_moves(1) [OF assms(1)] by (simp add: reject_call_def)
qed

text \<open>A rejected redemption can be rejected again with the same row and nothing written, and
  can never be approved or fulfilled any more.\<close>

theorem rejection_is_final:
  assumes "reject_redemption w a rid reason now ctx s = Inr (s', r)"
    and rev: "require_reviewer s b = None"
  shows "reject_redemption w' b rid reason now' ctx' s' = Inr (s', r)
    \<and> \<not> ok (approve_redemption w' eid m b rid now' ctx' s')
    \<and> \<not> ok (fulfill_redemption b rid nt now' ctx' s')"
proof (intro conjI)
  note rej = reject_moves(1,2) [OF assms(1)]
  show "reject_redemption w' b rid reason now' ctx' s' = Inr (s', r)"
    using rejection.replay_after [of rid "(w, a, reason, now, ctx)" s s' r "(w', b, reason, now', ctx')"]
      assms rej by (simp add: reject_call_def)
  show "\<not> ok (approve_redemption w' eid m b rid now' ctx' s')"
    using approval.closed_elsewhere [of rid s' r "(w', eid, m, b, now', ctx')"] rej
    by (simp add: approve_call_def)
  show "\<not> ok (fulfill_redemption b rid nt now' ctx' s')"
    using fulfilment.closed_elsewhere [of rid s' r "(b, nt, now', ctx')"] rej
    by (simp add: fulfill_call_def)
qed

section \<open>Paging\<close>

lemma pages_cover: "concat (map (\<lambda>k. take l (drop (k * l) xs)) [0..<n]) = take (n * l) xs"
proof (induction n)
  case (Suc n)
  have "take (n * l) xs @ take l (drop (n * l) xs) = take (n * l + l) xs"
    by (simp add: take_add)
  with Suc show ?case by (simp add: add.commute)
qed simp

lemma join_one:
  assumes "catalogue_ok t" "i \<in> set t"
  shows "[(r, it_name j). j \<leftarrow> t, it_id i = it_id j, b] = (if b then [(r, it_name i)] else [])"
proof (cases b)
  case True
  from assms have "distinct (map it_id t)" by (simp add: catalogue_ok_def)
  then have "[(r, it_name j). j \<leftarrow> t, it_id i = it_id j] = [(r, it_name i)]"
    using assms(2)
  proof (induction t)
    case (Cons j t)
    show ?case
    proof (cases "i = j")
      case True
      with Cons.prems have "\<forall>k\<in>set t. it_id j \<noteq> it_id k" by auto
      with True show ?thesis by simp
    next
      case False
      with Cons.prems have "i \<in> set t" and j: "it_id j \<notin> it_id ` set t"
        by simp_all
      then have "it_id i \<in> it_id ` set t" by (intro imageI)
      with j have "it_id i \<noteq> it_id j" by metis
      with Cons False show ?thesis by simp
    qed
  qed simp
  with True show ?thesis by (simp cong: if_cong)
qed (simp cong: if_cong)

lemma join_queue:
  assumes "catalogue_ok t" "\<forall>r\<in>set rs. rd_item_id r \<in> it_id ` set t"
  shows "map fst [(r, it_name i). r \<leftarrow> rs, i \<leftarrow> t, rd_item_id r = it_id i, P r] = filter P rs"
  using assms(2)
proof (induction rs)
  case (Cons r rs)
  then obtain i where i: "i \<in> set t" "rd_item_id r = it_id i" by auto
  show ?case
    using Cons join_one [OF assms(1) i(1), where r = r and b = "P r"] by (simp add: i(2))
qed simp


text \<open>The pages of the review queue cover every redemption of the asked statuses exactly once,
  oldest first, as soon as there are enough pages for the reported total.\<close>

theorem review_queue_pages:
  assumes inv: "shelf_inv s" and cat: "catalogue_ok (reward_items s)"
    and enough: "snd (list_redemptions sts limit 0 s) \<le> int (n * limit)"
  shows "mset (map fst (concat (map (\<lambda>k. fst (list_redemptions sts limit (k * limit) s)) [0..<n])))
      = mset (filter (\<lambda>r. rd_status r \<in> set (case sts of None \<Rightarrow> [REQUESTED, RedemptionStatus.UNDER_REVIEW]
          | Some l \<Rightarrow> l)) (redemptions s))
    \<and> sorted (map (\<lambda>(r, i). (rd_created_at r, rd_id r))
        (concat (map (\<lambda>k. fst (list_redemptions sts limit (k * limit) s)) [0..<n])))"
proof -
  let ?l = "case sts of None \<Rightarrow> [REQUESTED, RedemptionStatus.UNDER_REVIEW] | Some l \<Rightarrow> l"
  let ?j = "[(r, it_name i). r \<leftarrow> redemptions s, i \<leftarrow> reward_items s, rd_item_id r = it_id i,
      rd_status r \<in> set ?l]"
  let ?q = "sort_key (\<lambda>(r, n). (rd_created_at r, rd_id r)) ?j"
  have items: "\<forall>r\<in>set (redemptions s). rd_item_id r \<in> it_id ` set (reward_items s)"
    using inv by (auto simp: shelf_inv_def list_all_iff redemption_ok_def)
  have joined: "map fst ?j = filter (\<lambda>r. rd_status r \<in> set ?l) (redemptions s)"
    by (rule join_queue [OF cat items])
  have "length ?q = length (map fst ?j)"
    by (simp only: length_sort length_map)
  then have "length ?q = length (filter (\<lambda>r. rd_status r \<in> set ?l) (redemptions s))"
    unfolding joined .
  then have len: "length ?q \<le> n * limit"
    using enough by (simp add: list_redemptions_def Let_def count_rows_def del: of_nat_mult)
  have pages: "concat (map (\<lambda>k. fst (list_redemptions sts limit (k * limit) s)) [0..<n]) = ?q"
    using pages_cover [of limit ?q n] len by (simp add: list_redemptions_def Let_def)
  have "mset (map fst ?q) = mset (map fst ?j)"
    by (simp only: mset_map mset_sort)
  moreover have "sorted (map (\<lambda>(r, i). (rd_created_at r, rd_id r)) ?q)"
    by (rule sorted_sort_key)
  ultimately show ?thesis
    unfolding pages joined by blast
qed

section \<open>Concrete runs\<close>

text \<open>User 5, paid 20 points, redeems the one mug of the shop for 15 of them.\<close>

definition mug :: reward_item where
  "mug = \<lparr>it_id = 3, it_name = ''mug'', it_description = None, it_point_cost = 15,
     it_stock = Some 1, it_per_user_term_limit = Some 1, it_available_from = Some 0,
     it_available_until = None, it_enabled = True, it_requires_manual_review = True,
     it_fulfillment_instructions = None\<rparr>"

definition shop :: points_db where
  "shop = paid_claim\<lparr>reward_items := [mug]\<rparr>"

abbreviation boss :: actor where
  "boss \<equiv> \<lparr>actor_user_id = 9, actor_role = ADMIN\<rparr>"

lemma paid_claim_shelf [simp]:
  "redemptions paid_claim = []" "reservations paid_claim = []" "reward_items paid_claim = []"
  using post_entry_InrD(6,7,8) [OF paid_claim_post] by (simp_all add: initial_points_def)

lemma shop_shelf [simp]: "shelf_inv shop"
  by (simp add: shelf_inv_def shop_def spends_def)

lemma shop_catalogue [simp]: "catalogue_ok (reward_items shop)"
  by (simp add: catalogue_ok_def shop_def mug_def item_checks_def)

definition requested :: "points_db \<times> redemption" where
  "requested = (case request_redemption '' 2026-fall '' 11 12 5 3 100 100 shop of
     Inl e \<Rightarrow> undefined | Inr x \<Rightarrow> x)"

lemma requested_run:
  "request_redemption '' 2026-fall '' 11 12 5 3 100 100 shop = Inr (fst requested, snd requested)"
proof -
  have "isl (request_redemption '' 2026-fall '' 11 12 5 3 100 100 shop) = False"
    by code_simp
  then show ?thesis
    by (cases "request_redemption '' 2026-fall '' 11 12 5 3 100 100 shop") (auto simp: requested_def)
qed

lemma requested_facts:
  "shelf_inv (fst requested)" "catalogue_ok (reward_items (fst requested))"
  "row_of rd_id 11 (redemptions (fst requested)) = Some (snd requested)"
  "pending (snd requested)" "2 \<notin> le_id ` set (ledger (fst requested))"
proof -
  obtain item tm where adm: "admissible '' 2026-fall '' 5 3 100 shop item tm"
    and r: "snd requested = new_redemption 11 5 item tm 100"
    and i: "insert_redemption (snd requested) (redemptions shop) = Inr (redemptions (fst requested))"
      "insert_reservation (new_reservation 12 (snd requested)) (reservations shop)
         = Inr (reservations (fst requested))"
      "fst requested = (locked_or_created_wallet 5 shop)\<lparr>redemptions := redemptions (fst requested),
         reservations := reservations (fst requested)\<rparr>"
    by (rule request_InrD [OF requested_run])
  note eff = request_effect [OF shop_shelf shop_catalogue adm r i]
  show "shelf_inv (fst requested)" "catalogue_ok (reward_items (fst requested))"
    using eff by simp_all
  show "row_of rd_id 11 (redemptions (fst requested)) = Some (snd requested)" "pending (snd requested)"
    using eff(1) r by (simp_all add: shop_def)
  show "2 \<notin> le_id ` set (ledger (fst requested))"
    using eff(3) by (simp add: shop_def)
qed

theorem request_reserves_witness:
  "\<exists>s r. request_redemption '' 2026-fall '' 11 12 5 3 100 100 shop = Inr (s, r)
     \<and> rd_status r = REQUESTED \<and> 0 \<le> get_spendable_points s 5
     \<and> get_spendable_points s 5 = get_spendable_points shop 5 - rd_points r"
  using request_reserves [OF shop_shelf shop_catalogue requested_run] requested_run
  by (intro exI [of _ "fst requested"] exI [of _ "snd requested"]) auto

theorem request_accepted_iff_witness:
  "ok (request_redemption ''2026-fall'' 11 12 5 3 100 100 shop)"
proof -
  have fresh: "11 \<notin> rd_id ` set (redemptions shop)" "12 \<notin> rv_id ` set (reservations shop)"
    by (simp_all add: shop_def)
  have adm: "validated_term_key ''2026-fall'' = Inr ''2026-fall''" by code_simp
  have "window_open mug 100" "occupancy shop 3 < 1" "used_quota shop 5 3 ''2026-fall'' < 1"
    "15 \<le> get_spendable_points shop 5"
    by code_simp+
  moreover have "row_of it_id 3 (reward_items shop) = Some mug" "it_enabled mug"
    "it_stock mug = Some 1" "it_per_user_term_limit mug = Some 1" "it_point_cost mug = 15"
    by (simp_all add: shop_def mug_def)
  ultimately show ?thesis
    unfolding request_accepted_iff [OF shop_shelf shop_catalogue fresh]
    by (intro exI [of _ mug] exI [of _ "''2026-fall''"]) (simp add: adm)
qed

theorem approve_consumes_the_freeze_witness:
  "\<exists>s r. approve_redemption True 2 0 boss 11 200 None (fst requested) = Inr (s, r)
     \<and> rd_status r = APPROVED \<and> get_spendable_points s 5 = get_spendable_points (fst requested) 5"
  using approve_consumes_the_freeze [OF requested_facts(1,3,4) _ requested_facts(5),
      of boss True 0 200 None]
  by (auto simp: require_reviewer_def)

theorem reject_releases_the_freeze_witness:
  "\<exists>s r. reject_redemption True boss 11 (Some ''sold out'') 200 None (fst requested) = Inr (s, r)
     \<and> rd_status r = REJECTED \<and> ledger s = ledger (fst requested)
     \<and> get_spendable_points s 5 = get_spendable_points (fst requested) 5
         + (if 5 = rd_user_id (snd requested) then rd_points (snd requested) else 0)"
proof -
  have t: "strip_or_none (Some ''sold out'') = Some ''sold out''" by code_simp
  have "require_reviewer (fst requested) boss = None" by (simp add: require_reviewer_def)
  from reject_releases_the_freeze [OF requested_facts(1,3,4) this t, of True 200 None]
  show ?thesis by auto
qed

lemma approved_run:
  obtains s r where "approve_redemption True 2 0 boss 11 200 None (fst requested) = Inr (s, r)"
proof -
  have "isl (approve_redemption True 2 0 boss 11 200 None (fst requested)) = False" by code_simp
  then show ?thesis
    using that by (cases "approve_redemption True 2 0 boss 11 200 None (fst requested)") auto
qed

lemma rejected_run:
  obtains s r where "reject_redemption True boss 11 (Some ''no'') 200 None (fst requested) = Inr (s, r)"
proof -
  have "isl (reject_redemption True boss 11 (Some ''no'') 200 None (fst requested)) = False" by code_simp
  then show ?thesis
    using that by (cases "reject_redemption True boss 11 (Some ''no'') 200 None (fst requested)") auto
qed

theorem approval_is_final_witness:
  "\<exists>s r. approve_redemption True 2 0 boss 11 200 None (fst requested) = Inr (s, r)
     \<and> approve_redemption False 7 0 boss 11 900 None s = Inr (s, r)
     \<and> \<not> ok (reject_redemption False boss 11 (Some ''late'') 900 None s)"
proof (rule approved_run)
  fix s r
  assume run: "approve_redemption True 2 0 boss 11 200 None (fst requested) = Inr (s, r)"
  have "require_reviewer (fst requested) boss = None" by (simp add: require_reviewer_def)
  from run approval_is_final [OF run this] show ?thesis by blast
qed

theorem rejection_is_final_witness:
  "\<exists>s r. reject_redemption True boss 11 (Some ''no'') 200 None (fst requested) = Inr (s, r)
     \<and> reject_redemption True boss 11 (Some ''no'') 900 None s = Inr (s, r)
     \<and> \<not> ok (approve_redemption True 2 0 boss 11 900 None s)
     \<and> \<not> ok (fulfill_redemption boss 11 None 900 None s)"
proof (rule rejected_run)
  fix s r
  assume run: "reject_redemption True boss 11 (Some ''no'') 200 None (fst requested) = Inr (s, r)"
  have "require_reviewer (fst requested) boss = None" by (simp add: require_reviewer_def)
  from run rejection_is_final [OF run this] show ?thesis by blast
qed

theorem review_queue_pages_witness:
  "mset (map fst (fst (list_redemptions None 10 0 (fst requested))))
     = mset (filter pending (redemptions (fst requested)))"
proof -
  have "snd (list_redemptions None 10 0 (fst requested)) \<le> int (1 * 10)" by code_simp
  from review_queue_pages [OF requested_facts(1,2) this]
  show ?thesis by (simp add: disj_commute)
qed

end
