(* ===== verification/Points_Admin.thy ===== *)
theory Points_Admin
  imports Redemption_Facts
begin

text \<open>
  Administration of the points domain (\<open>points/admin_service.py\<close>): the reward catalogue, the
  reviewer grants and the manual points adjustment.  The identity module's user directory is the
  argument \<open>role_of\<close> (and \<open>nickname_of\<close> for the display name).
\<close>

section \<open>Errors\<close>

datatype admin_error =
    AdminPermissionDenied
  | AdminReasonRequired
  | RewardItemValidation string
  | AdminItemNotFound uuid
  | GrantTargetUnknown uuid
  | GrantTargetNotTeacher uuid Role
  | DuplicateRewardReviewGrant uuid
  | RewardReviewGrantNotFound uuid
  | PointsAdjustmentTargetNotFound uuid
  | PointsAdjustmentOperationConflict uuid
  | AdminPosting ledger_error
  | AdminIntegrityError "constraint"

fun admin_envelope :: "admin_error \<Rightarrow> business_error option" where
  "admin_envelope AdminPermissionDenied = Some (Business PERMISSION_DENIED 403 [])"
| "admin_envelope AdminReasonRequired =
     Some (Business VALIDATION_ERROR 400 [(''field'', JStr ''reason'')])"
| "admin_envelope (RewardItemValidation f) =
     Some (Business VALIDATION_ERROR 422 [(''field'', JStr f)])"
| "admin_envelope (AdminItemNotFound i) = redemption_envelope (RewardItemNotFound i)"
| "admin_envelope (GrantTargetUnknown t) =
     Some (Business VALIDATION_ERROR 400 [(''teacher_id'', JUuid t)])"
| "admin_envelope (GrantTargetNotTeacher t r) =
     Some (Business VALIDATION_ERROR 400
       [(''teacher_id'', JUuid t), (''role'', JStr (role_value r))])"
| "admin_envelope (DuplicateRewardReviewGrant t) =
     Some (Business VALIDATION_ERROR 409 [(''teacher_id'', JUuid t)])"
| "admin_envelope (RewardReviewGrantNotFound t) =
     Some (Business NOT_FOUND 404 [(''teacher_id'', JUuid t)])"
| "admin_envelope (PointsAdjustmentTargetNotFound u) =
     Some (Business NOT_FOUND 404 [(''user_id'', JUuid u)])"
| "admin_envelope (PointsAdjustmentOperationConflict k) =
     Some (Business CONFLICT 409 [(''operation_id'', JUuid k)])"
| "admin_envelope (AdminPosting e) = ledger_envelope e"
| "admin_envelope (AdminIntegrityError k) = None"

section \<open>The catalogue\<close>

text \<open>A partial update: \<open>None\<close> is \<open>UNSET\<close>, an inner \<open>None\<close> is the value that clears a column.\<close>

record RewardItemChanges =
  ch_name :: "string option"
  ch_description :: "string option option"
  ch_point_cost :: "int option"
  ch_stock :: "int option option"
  ch_per_user_term_limit :: "int option option"
  ch_available_from :: "instant option option"
  ch_available_until :: "instant option option"
  ch_requires_manual_review :: "bool option"
  ch_fulfillment_instructions :: "string option option"

definition field :: "string \<Rightarrow> ('a \<Rightarrow> json) \<Rightarrow> 'a option \<Rightarrow> (string \<times> json) list" where
  "field k f v = (case v of None \<Rightarrow> [] | Some x \<Rightarrow> [(k, f x)])"

text \<open>The provided fields in declaration order, with the values that the change carries.\<close>

definition provided :: "RewardItemChanges \<Rightarrow> (string \<times> json) list" where
  "provided c =
     field ''name'' JStr (ch_name c) @ field ''description'' (jopt JStr) (ch_description c)
     @ field ''point_cost'' JInt (ch_point_cost c) @ field ''stock'' (jopt JInt) (ch_stock c)
     @ field ''per_user_term_limit'' (jopt JInt) (ch_per_user_term_limit c)
     @ field ''available_from'' (jopt JTime) (ch_available_from c)
     @ field ''available_until'' (jopt JTime) (ch_available_until c)
     @ field ''requires_manual_review'' JBool (ch_requires_manual_review c)
     @ field ''fulfillment_instructions'' (jopt JStr) (ch_fulfillment_instructions c)"

definition item_field :: "reward_item \<Rightarrow> string \<Rightarrow> json" where
  "item_field i k =
     (if k = ''name'' then JStr (it_name i)
      else if k = ''description'' then jopt JStr (it_description i)
      else if k = ''point_cost'' then JInt (it_point_cost i)
      else if k = ''stock'' then jopt JInt (it_stock i)
      else if k = ''per_user_term_limit'' then jopt JInt (it_per_user_term_limit i)
      else if k = ''available_from'' then jopt JTime (it_available_from i)
      else if k = ''available_until'' then jopt JTime (it_available_until i)
      else if k = ''requires_manual_review'' then JBool (it_requires_manual_review i)
      else if k = ''fulfillment_instructions'' then jopt JStr (it_fulfillment_instructions i)
      else JBool (it_enabled i))"

definition getd :: "'a option \<Rightarrow> 'a \<Rightarrow> 'a" where
  "getd v d = (case v of None \<Rightarrow> d | Some x \<Rightarrow> x)"

definition apply_changes :: "RewardItemChanges \<Rightarrow> reward_item \<Rightarrow> reward_item" where
  "apply_changes c i = i\<lparr>it_name := getd (ch_name c) (it_name i),
     it_description := getd (ch_description c) (it_description i),
     it_point_cost := getd (ch_point_cost c) (it_point_cost i),
     it_stock := getd (ch_stock c) (it_stock i),
     it_per_user_term_limit := getd (ch_per_user_term_limit c) (it_per_user_term_limit i),
     it_available_from := getd (ch_available_from c) (it_available_from i),
     it_available_until := getd (ch_available_until c) (it_available_until i),
     it_requires_manual_review := getd (ch_requires_manual_review c) (it_requires_manual_review i),
     it_fulfillment_instructions :=
       getd (ch_fulfillment_instructions c) (it_fulfillment_instructions i)\<rparr>"

definition validate_catalog_shape :: "reward_item \<Rightarrow> admin_error option" where
  "validate_catalog_shape i =
     (if py_strip (it_name i) = [] then Some (RewardItemValidation ''name'')
      else if it_point_cost i \<le> 0 then Some (RewardItemValidation ''point_cost'')
      else if (case it_stock i of None \<Rightarrow> False | Some n \<Rightarrow> n < 0)
      then Some (RewardItemValidation ''stock'')
      else if (case it_per_user_term_limit i of None \<Rightarrow> False | Some n \<Rightarrow> n < 0)
      then Some (RewardItemValidation ''per_user_term_limit'')
      else if (case (it_available_from i, it_available_until i) of
                 (Some a, Some b) \<Rightarrow> b \<le> a | _ \<Rightarrow> False)
      then Some (RewardItemValidation ''available_from'')
      else None)"

text \<open>\<open>draft\<close> carries the arguments of the call; the stored row gets the id and starts enabled.\<close>

definition create_reward_item ::
  "uuid \<Rightarrow> actor \<Rightarrow> reward_item \<Rightarrow> string option \<Rightarrow> audit_context option \<Rightarrow> 'a points_db_scheme
    \<Rightarrow> admin_error + ('a points_db_scheme \<times> reward_item)" where
  "create_reward_item iid actor draft reason ctx s =
     (if \<not> is_admin (actor_role actor) then Inl AdminPermissionDenied
      else case validate_catalog_shape draft of Some e \<Rightarrow> Inl e | None \<Rightarrow>
      let item = draft\<lparr>it_id := iid, it_name := py_strip (it_name draft), it_enabled := True\<rparr> in
      case insert_item item (reward_items s) of Inl k \<Rightarrow> Inl (AdminIntegrityError k)
      | Inr t \<Rightarrow>
      Inr (audit_append actor ''REWARD_ITEM_CREATED'' ''reward_item'' iid (strip_or_none reason)
             None None
             (Some (dict [(k, item_field item k). k \<leftarrow> [''name'', ''point_cost'', ''stock'',
                ''per_user_term_limit'', ''available_from'', ''available_until'',
                ''requires_manual_review'', ''enabled'']]))
             ctx (s\<lparr>reward_items := t\<rparr>), item))"

definition update_reward_item ::
  "actor \<Rightarrow> uuid \<Rightarrow> RewardItemChanges \<Rightarrow> string option \<Rightarrow> audit_context option \<Rightarrow> 'a points_db_scheme
    \<Rightarrow> admin_error + ('a points_db_scheme \<times> reward_item)" where
  "update_reward_item actor item_id changes reason ctx s =
     (if \<not> is_admin (actor_role actor) then Inl AdminPermissionDenied
      else if provided changes = [] then Inl (RewardItemValidation ''changes'')
      else case row_of it_id item_id (reward_items s) of None \<Rightarrow> Inl (AdminItemNotFound item_id)
      | Some item \<Rightarrow>
      let item' = apply_changes changes item in
      case validate_catalog_shape item' of Some e \<Rightarrow> Inl e | None \<Rightarrow>
      case item_checks item' of Some k \<Rightarrow> Inl (AdminIntegrityError k) | None \<Rightarrow>
      Inr (audit_append actor ''REWARD_ITEM_UPDATED'' ''reward_item'' (it_id item)
             (strip_or_none reason) None
             (Some (dict [(k, item_field item k). (k, v) \<leftarrow> provided changes]))
             (Some (dict (provided changes)))
             ctx (s\<lparr>reward_items := update_row it_id item_id (\<lambda>_. item') (reward_items s)\<rparr>),
           item'))"

definition disable_reward_item ::
  "actor \<Rightarrow> uuid \<Rightarrow> string option \<Rightarrow> audit_context option \<Rightarrow> 'a points_db_scheme
    \<Rightarrow> admin_error + ('a points_db_scheme \<times> reward_item)" where
  "disable_reward_item actor item_id reason ctx s =
     (if \<not> is_admin (actor_role actor) then Inl AdminPermissionDenied
      else case strip_or_none reason of None \<Rightarrow> Inl AdminReasonRequired
      | Some reason_text \<Rightarrow>
      case row_of it_id item_id (reward_items s) of None \<Rightarrow> Inl (AdminItemNotFound item_id)
      | Some item \<Rightarrow>
      if \<not> it_enabled item then Inr (s, item)
      else let item' = item\<lparr>it_enabled := False\<rparr> in
      Inr (audit_append actor ''REWARD_ITEM_DISABLED'' ''reward_item'' (it_id item)
             (Some reason_text) None
             (Some (dict [(''enabled'', JBool True)])) (Some (dict [(''enabled'', JBool False)]))
             ctx (s\<lparr>reward_items := update_row it_id item_id (\<lambda>_. item') (reward_items s)\<rparr>),
           item'))"

section \<open>Reviewer grants\<close>

definition grant_reward_review ::
  "(uuid \<Rightarrow> Role option) \<Rightarrow> actor \<Rightarrow> uuid \<Rightarrow> string option \<Rightarrow> instant \<Rightarrow> audit_context option
    \<Rightarrow> 'a points_db_scheme \<Rightarrow> admin_error + ('a points_db_scheme \<times> review_grant)" where
  "grant_reward_review role_of actor teacher_id reason db_now ctx s =
     (if \<not> is_admin (actor_role actor) then Inl AdminPermissionDenied
      else case strip_or_none reason of None \<Rightarrow> Inl AdminReasonRequired
      | Some reason_text \<Rightarrow>
      case role_of teacher_id of None \<Rightarrow> Inl (GrantTargetUnknown teacher_id)
      | Some r \<Rightarrow>
      if r \<noteq> TEACHER then Inl (GrantTargetNotTeacher teacher_id r)
      else if row_of gr_teacher_id teacher_id (review_grants s) \<noteq> None
      then Inl (DuplicateRewardReviewGrant teacher_id)
      else let g = \<lparr>gr_teacher_id = teacher_id, gr_capability = REWARD_REVIEW_CAPABILITY,
                    gr_granted_by = actor_user_id actor, gr_granted_at = db_now\<rparr> in
      case insert_grant g (review_grants s) of
        Inl k \<Rightarrow> (if k = Pk_reward_review_grants then Inl (DuplicateRewardReviewGrant teacher_id)
                  else Inl (AdminIntegrityError k))
      | Inr t \<Rightarrow>
      Inr (audit_append actor ''REWARD_REVIEW_GRANTED'' ''user'' teacher_id (Some reason_text)
             None None (Some (dict [(''capability'', JStr REWARD_REVIEW_CAPABILITY)])) ctx
             (s\<lparr>review_grants := t\<rparr>), g))"

definition revoke_reward_review ::
  "actor \<Rightarrow> uuid \<Rightarrow> string option \<Rightarrow> audit_context option \<Rightarrow> 'a points_db_scheme
    \<Rightarrow> admin_error + 'a points_db_scheme" where
  "revoke_reward_review actor teacher_id reason ctx s =
     (if \<not> is_admin (actor_role actor) then Inl AdminPermissionDenied
      else case strip_or_none reason of None \<Rightarrow> Inl AdminReasonRequired
      | Some reason_text \<Rightarrow>
      case row_of gr_teacher_id teacher_id (review_grants s) of
        None \<Rightarrow> Inl (RewardReviewGrantNotFound teacher_id)
      | Some g \<Rightarrow>
      Inr (audit_append actor ''REWARD_REVIEW_REVOKED'' ''user'' teacher_id (Some reason_text)
             None (Some (dict [(''capability'', JStr (gr_capability g))])) None ctx
             (s\<lparr>review_grants := filter (\<lambda>h. gr_teacher_id h \<noteq> teacher_id) (review_grants s)\<rparr>)))"

record RewardReviewGrantLine =
  gl_teacher_id :: uuid
  gl_nickname :: "string option"
  gl_granted_by :: uuid
  gl_granted_at :: instant

definition list_reward_review_grants ::
  "(uuid \<Rightarrow> string option) \<Rightarrow> actor \<Rightarrow> nat \<Rightarrow> nat \<Rightarrow> 'a points_db_scheme
    \<Rightarrow> admin_error + (RewardReviewGrantLine list \<times> int)" where
  "list_reward_review_grants nickname_of actor limit offset s =
     (if \<not> is_admin (actor_role actor) then Inl AdminPermissionDenied
      else Inr ([\<lparr>gl_teacher_id = gr_teacher_id g, gl_nickname = nickname_of (gr_teacher_id g),
                  gl_granted_by = gr_granted_by g, gl_granted_at = gr_granted_at g\<rparr>.
                 g \<leftarrow> take limit (drop offset
                   (sort_key (\<lambda>g. (- gr_granted_at g, gr_teacher_id g)) (review_grants s)))],
                int (length (review_grants s))))"

section \<open>The manual adjustment\<close>

definition adjustment_row :: "uuid \<Rightarrow> ledger_row list \<Rightarrow> ledger_row option" where
  "adjustment_row operation_id t =
     row_of source_triple (''ADMIN_ADJUSTMENT'', operation_id, ADMIN_ADJUSTMENT) t"

definition replayed_adjustment ::
  "ledger_row \<Rightarrow> uuid \<Rightarrow> uuid \<Rightarrow> int \<Rightarrow> string \<Rightarrow> admin_error + ledger_row" where
  "replayed_adjustment existing operation_id u amount reason_text =
     (if le_user_id existing = u \<and> le_amount existing = amount
         \<and> getd (le_reason existing) [] = reason_text
      then Inr existing
      else Inl (PointsAdjustmentOperationConflict operation_id))"

definition adjustment_command :: "uuid \<Rightarrow> actor \<Rightarrow> uuid \<Rightarrow> int \<Rightarrow> string \<Rightarrow> PostLedgerEntry" where
  "adjustment_command operation_id actor u amount reason_text =
     \<lparr>pe_user_id = u, pe_ledger_type = ADMIN_ADJUSTMENT, pe_amount = amount,
      pe_source_type = ''ADMIN_ADJUSTMENT'', pe_affects_balance = True,
      pe_affects_ranking = False, pe_ranking_effective_at = None,
      pe_source_id = Some operation_id, pe_reversal_of_id = None,
      pe_operator_id = Some (actor_user_id actor), pe_reason = Some reason_text\<rparr>"

definition audit_adjustment ::
  "actor \<Rightarrow> uuid \<Rightarrow> string \<Rightarrow> int \<Rightarrow> int \<Rightarrow> ledger_row \<Rightarrow> audit_context option
    \<Rightarrow> 'a core_db_scheme \<Rightarrow> 'a core_db_scheme" where
  "audit_adjustment actor u reason_text before after entry ctx =
     audit_append actor ''ADMIN_POINTS_ADJUSTED'' ''user'' u (Some reason_text) None
       (Some (dict [(''available_points'', JInt before)]))
       (Some (dict [(''available_points'', JInt after),
                    (''amount'', JInt (le_amount entry)),
                    (''ledger_entry_id'', JUuid (le_id entry))]))
       ctx"

text \<open>
  \<open>s0\<close> is the committed state the lock-free replay lookup saw.  The result pairs the answer with
  the committed state: the loser of a race for one operation id commits (releasing the wallet lock,
  and keeping the wallet it may have created) before it answers.
\<close>

definition admin_adjust_points ::
  "(uuid \<Rightarrow> Role option) \<Rightarrow> 'b points_db_scheme \<Rightarrow> uuid \<Rightarrow> uuid \<Rightarrow> actor \<Rightarrow> uuid \<Rightarrow> int
    \<Rightarrow> string option \<Rightarrow> uuid \<Rightarrow> audit_context option \<Rightarrow> 'a points_db_scheme
    \<Rightarrow> (admin_error + ledger_row) \<times> 'a points_db_scheme" where
  "admin_adjust_points role_of s0 eid minted actor u amount reason operation_id ctx s =
     (if \<not> is_admin (actor_role actor) then (Inl AdminPermissionDenied, s)
      else case strip_or_none reason of None \<Rightarrow> (Inl AdminReasonRequired, s)
      | Some reason_text \<Rightarrow>
      if amount = 0 then (Inl (AdminPosting (InvalidLedgerEntry ''amount'')), s)
      else case adjustment_row operation_id (ledger s0) of
        Some existing \<Rightarrow> (replayed_adjustment existing operation_id u amount reason_text, s)
      | None \<Rightarrow>
      if role_of u = None then (Inl (PointsAdjustmentTargetNotFound u), s)
      else let s1 = locked_or_created_wallet u s;
               balance_before = available_points (wallet_of s1 u) in
      case post_entry eid minted (adjustment_command operation_id actor u amount reason_text) s1 of
        Inl e \<Rightarrow>
          (if e = LedgerIntegrityError Uq_source_triple
           then (case adjustment_row operation_id (ledger s1) of
                   None \<Rightarrow> (Inl (AdminPosting e), s)
                 | Some winner \<Rightarrow>
                     (replayed_adjustment winner operation_id u amount reason_text, s1))
           else (Inl (AdminPosting e), s))
      | Inr (s2, entry) \<Rightarrow>
          (Inr entry,
           audit_adjustment actor u reason_text balance_before
             (available_points (wallet_of s2 u)) entry ctx s2))"

section \<open>The catalogue never moves open requests\<close>

lemma shape_checks:
  "validate_catalog_shape i = None \<Longrightarrow> item_checks i = None \<and> py_strip (it_name i) \<noteq> []"
  by (auto simp: validate_catalog_shape_def item_checks_def split: if_splits option.splits)

lemma item_checks_cong [simp]:
  "item_checks (i\<lparr>it_id := a, it_name := b, it_enabled := e\<rparr>) = item_checks i"
  "item_checks (i\<lparr>it_enabled := e\<rparr>) = item_checks i"
  by (simp_all add: item_checks_def)

lemma apply_changes_id [simp]: "it_id (apply_changes c i) = it_id i"
  by (simp add: apply_changes_def)

lemma catalogue_update:
  assumes "catalogue_ok t" "it_id i' = k" "item_checks i' = None"
  shows "catalogue_ok (update_row it_id k (\<lambda>_. i') t)"
  using assms by (auto simp: catalogue_ok_def tbl list_all_iff set_update_row)

lemma create_InrD:
  assumes "create_reward_item iid actor draft reason ctx s = Inr (s', i)"
  shows "actor_role actor = ADMIN" and "reward_items s' = reward_items s @ [i]"
    and "ledger s' = ledger s" "wallets s' = wallets s" "redemptions s' = redemptions s"
      "reservations s' = reservations s" "review_grants s' = review_grants s"
    and "catalogue_ok (reward_items s) \<Longrightarrow> catalogue_ok (reward_items s')"
    and "it_enabled i" "it_id i = iid" "armed_jobs s' = armed_jobs s"
  using assms
  by (auto simp: create_reward_item_def Let_def insert_item_def catalogue_ok_def
      split: if_splits option.splits sum.splits)

lemma update_InrD:
  assumes "update_reward_item actor item_id c reason ctx s = Inr (s', i)"
  obtains old where "actor_role actor = ADMIN" "row_of it_id item_id (reward_items s) = Some old"
    "i = apply_changes c old" "item_checks i = None" "py_strip (it_name i) \<noteq> []"
    "s' = audit_append actor ''REWARD_ITEM_UPDATED'' ''reward_item'' (it_id old)
             (strip_or_none reason) None
             (Some (dict [(k, item_field old k). (k, v) \<leftarrow> provided c]))
             (Some (dict (provided c)))
             ctx (s\<lparr>reward_items := update_row it_id item_id (\<lambda>_. i) (reward_items s)\<rparr>)"
  using assms shape_checks
  by (auto simp: update_reward_item_def Let_def split: if_splits option.splits)

lemma disable_InrD:
  assumes "disable_reward_item actor item_id reason ctx s = Inr (s', i)"
  obtains (replay) "row_of it_id item_id (reward_items s) = Some i" "\<not> it_enabled i" "s' = s"
  | (disabled) old where "row_of it_id item_id (reward_items s) = Some old" "it_enabled old"
    "i = old\<lparr>it_enabled := False\<rparr>"
    "\<exists>t. s' = audit_append actor ''REWARD_ITEM_DISABLED'' ''reward_item'' (it_id old) (Some t) None
             (Some (dict [(''enabled'', JBool True)])) (Some (dict [(''enabled'', JBool False)]))
             ctx (s\<lparr>reward_items := update_row it_id item_id (\<lambda>_. i) (reward_items s)\<rparr>)"
  using assms
  by (auto simp: disable_reward_item_def Let_def split: if_splits option.splits)

text \<open>What a catalogue edit must respect: only the item table and the audit log move.\<close>

definition catalogue_step :: "'a points_db_scheme \<Rightarrow> 'a points_db_scheme \<Rightarrow> bool" where
  "catalogue_step s s' \<longleftrightarrow> ledger s' = ledger s \<and> wallets s' = wallets s
     \<and> redemptions s' = redemptions s \<and> reservations s' = reservations s
     \<and> review_grants s' = review_grants s
     \<and> it_id ` set (reward_items s) \<subseteq> it_id ` set (reward_items s')
     \<and> (catalogue_ok (reward_items s) \<longrightarrow> catalogue_ok (reward_items s'))"

lemma create_catalogue_step:
  "create_reward_item iid actor draft reason ctx s = Inr (s', i) \<Longrightarrow> catalogue_step s s'"
  using create_InrD [of iid actor draft reason ctx s s' i] by (auto simp: catalogue_step_def)

lemma ids_update_row:
  "it_id i = k \<Longrightarrow> it_id ` set (update_row it_id k (\<lambda>_. i) t) = it_id ` set t"
  by (metis (no_types, lifting) keys_update_row list.set_map)

lemma update_catalogue_step:
  assumes "update_reward_item actor item_id c reason ctx s = Inr (s', i)"
  shows "catalogue_step s s'"
proof (rule update_InrD [OF assms])
  fix old
  assume row: "row_of it_id item_id (reward_items s) = Some old" and i: "i = apply_changes c old"
    and ck: "item_checks i = None"
    and s': "s' = audit_append actor ''REWARD_ITEM_UPDATED'' ''reward_item'' (it_id old)
             (strip_or_none reason) None
             (Some (dict [(k, item_field old k). (k, v) \<leftarrow> provided c]))
             (Some (dict (provided c)))
             ctx (s\<lparr>reward_items := update_row it_id item_id (\<lambda>_. i) (reward_items s)\<rparr>)"
  have id: "it_id i = item_id" using row_of_SomeD [OF row] by (simp add: i)
  show ?thesis
    using catalogue_update [OF _ id ck] by (simp add: catalogue_step_def s' ids_update_row [OF id])
qed

lemma disable_catalogue_step:
  assumes "disable_reward_item actor item_id reason ctx s = Inr (s', i)"
  shows "catalogue_step s s'"
proof (rule disable_InrD [OF assms])
  fix old
  assume row: "row_of it_id item_id (reward_items s) = Some old" and i: "i = old\<lparr>it_enabled := False\<rparr>"
    and "\<exists>t. s' = audit_append actor ''REWARD_ITEM_DISABLED'' ''reward_item'' (it_id old) (Some t) None
             (Some (dict [(''enabled'', JBool True)])) (Some (dict [(''enabled'', JBool False)]))
             ctx (s\<lparr>reward_items := update_row it_id item_id (\<lambda>_. i) (reward_items s)\<rparr>)"
  then obtain t where s': "s' = audit_append actor ''REWARD_ITEM_DISABLED'' ''reward_item'' (it_id old)
             (Some t) None
             (Some (dict [(''enabled'', JBool True)])) (Some (dict [(''enabled'', JBool False)]))
             ctx (s\<lparr>reward_items := update_row it_id item_id (\<lambda>_. i) (reward_items s)\<rparr>)" by blast
  have id: "it_id i = item_id" using row_of_SomeD [OF row] by (simp add: i)
  have "catalogue_ok (reward_items s) \<Longrightarrow> item_checks i = None"
    using row_of_SomeD [OF row] by (auto simp: catalogue_ok_def list_all_iff i)
  then show ?thesis
    using catalogue_update [OF _ id] by (simp add: catalogue_step_def s' ids_update_row [OF id])
qed (simp add: catalogue_step_def)

lemma catalogue_step_keeps:
  assumes "catalogue_step s s'"
  shows "ledger_inv s \<Longrightarrow> ledger_inv s'" and "shelf_inv s \<Longrightarrow> shelf_inv s'"
    and "get_spendable_points s' = get_spendable_points s"
proof -
  have w: "wallet_of s' = wallet_of s" and f: "frozen_of s' = frozen_of s"
    using assms by (auto simp: catalogue_step_def wallet_of_def frozen_of_def fun_eq_iff)
  show "ledger_inv s'" if "ledger_inv s"
    using that ledger_inv_cong [OF _ w] assms by (simp add: catalogue_step_def)
  show "get_spendable_points s' = get_spendable_points s"
    using assms unfolding get_spendable_points_def [abs_def] f by (simp add: catalogue_step_def)
  show "shelf_inv s'" if "shelf_inv s"
    using that assms
    by (auto simp: shelf_inv_def list_all_iff redemption_ok_def spends_def catalogue_step_def)
qed

text \<open>Editing a catalogue item never touches an open redemption: redemptions, reservations
  and everybody's spendable points stay, and a permitted reviewer can still approve the pending
  redemption at the price it was requested for.\<close>

theorem catalogue_edits_spare_open_requests:
  assumes run: "update_reward_item actor item_id c reason ctx s = Inr (s', i)"
    and inv: "shelf_inv s" "catalogue_ok (reward_items s)"
    and open_request: "row_of rd_id rid (redemptions s) = Some r" "pending r"
    and rev: "require_reviewer s reviewer = None" and fresh: "eid \<notin> le_id ` set (ledger s)"
  shows "redemptions s' = redemptions s \<and> reservations s' = reservations s
    \<and> get_spendable_points s' = get_spendable_points s \<and> shelf_inv s'
    \<and> catalogue_ok (reward_items s')
    \<and> (\<exists>s2 r2. approve_redemption w eid m reviewer rid now ctx2 s' = Inr (s2, r2)
         \<and> rd_points r2 = rd_points r)"
proof -
  note st = update_catalogue_step [OF run]
  have sh: "shelf_inv s'" by (rule catalogue_step_keeps(2) [OF st inv(1)])
  have same: "redemptions s' = redemptions s" "ledger s' = ledger s" "review_grants s' = review_grants s"
    using st by (simp_all add: catalogue_step_def)
  have rv: "require_reviewer s' reviewer = None"
    using rev by (simp add: require_reviewer_cong [OF same(3)])
  obtain v where ok: "redemption_ok s' r" "rd_id r = rid"
    "row_of rv_redemption_id rid (reservations s') = Some v"
    by (rule shelf_redemption [OF sh]) (use open_request same in auto)
  have row: "row_of rd_id rid (redemptions s') = Some r" using open_request same by simp
  have "eid \<notin> le_id ` set (ledger s')" using fresh same(2) by simp
  then obtain s2 r2 where ap: "approve_redemption w eid m reviewer rid now ctx2 s' = Inr (s2, r2)"
    using approve_can [OF sh row open_request(2) rv] by metis
  have "rd_points r2 = rd_points r"
    by (rule approve_InrD [OF ap]) (use row open_request(2) in auto)
  with ap st sh inv(2) show ?thesis
    by (auto simp: catalogue_step_def catalogue_step_keeps(3) [OF st])
qed

section \<open>Reviewer grants\<close>

lemma grant_review_InrD:
  assumes "grant_reward_review role_of actor t reason n ctx s = Inr (s', g)"
  shows "role_of t = Some TEACHER" "review_grants s' = review_grants s @ [g]"
    "gr_teacher_id g = t" "gr_capability g = REWARD_REVIEW_CAPABILITY"
    "ledger s' = ledger s" "wallets s' = wallets s" "redemptions s' = redemptions s"
    "reservations s' = reservations s" "reward_items s' = reward_items s" "armed_jobs s' = armed_jobs s"
    "t \<notin> gr_teacher_id ` set (review_grants s)"
  using assms
  by (auto simp: grant_reward_review_def insert_grant_def Let_def split: if_splits option.splits sum.splits)

lemma revoke_review_InrD:
  assumes "revoke_reward_review actor t reason ctx s = Inr s'"
  shows "review_grants s' = filter (\<lambda>h. gr_teacher_id h \<noteq> t) (review_grants s)"
    "ledger s' = ledger s" "wallets s' = wallets s" "redemptions s' = redemptions s"
    "reservations s' = reservations s" "reward_items s' = reward_items s" "armed_jobs s' = armed_jobs s"
  using assms
  by (auto simp: revoke_reward_review_def split: if_splits option.splits)

lemma reviewer_iff:
  "require_reviewer s actor = None \<longleftrightarrow> actor_role actor = ADMIN
    \<or> (actor_role actor = TEACHER \<and> has_reward_review_grant s (actor_user_id actor))"
  by (auto simp: require_reviewer_def)

text \<open>A review grant admits its teacher on the very next call and its revocation refuses the
  same teacher on the very next call, restoring the grants as they were; a student is never
  admitted.\<close>

theorem review_delegation_takes_effect_at_once:
  assumes g: "grant_reward_review role_of admin t reason n ctx s = Inr (s1, g)"
    and r: "revoke_reward_review admin2 t reason2 ctx2 s1 = Inr s2"
  shows "require_reviewer s1 \<lparr>actor_user_id = t, actor_role = TEACHER\<rparr> = None
    \<and> require_reviewer s2 \<lparr>actor_user_id = t, actor_role = TEACHER\<rparr>
        = Some (RedemptionPermissionDenied t TEACHER)
    \<and> review_grants s2 = review_grants s
    \<and> (\<forall>u x. require_reviewer s1 \<lparr>actor_user_id = u, actor_role = STUDENT\<rparr> = Some x
          \<longleftrightarrow> x = RedemptionPermissionDenied u STUDENT)"
proof -
  note g1 = grant_review_InrD [OF g] and r1 = revoke_review_InrD [OF r]
  have "review_grants s2 = review_grants s"
    using g1(2,3,11) r1(1) by (auto simp: image_iff intro!: filter_True)
  moreover have "\<not> list_ex (\<lambda>h. gr_teacher_id h = t \<and> P h) (review_grants s)" for P
    using g1(11) by (auto simp: list_ex_iff)
  ultimately show ?thesis
    using g1 r1(1)
    by (auto simp: require_reviewer_def has_reward_review_grant_def)
qed

section \<open>The adjustment\<close>

lemma adjustment_simps [simp]:
  "pe_user_id (adjustment_command k a u n t) = u"
  "pe_ledger_type (adjustment_command k a u n t) = ADMIN_ADJUSTMENT"
  "pe_amount (adjustment_command k a u n t) = n"
  "pe_affects_balance (adjustment_command k a u n t)"
  "\<not> pe_affects_ranking (adjustment_command k a u n t)"
  "pe_reason (adjustment_command k a u n t) = Some t"
  "source_triple (entry_of eid m (adjustment_command k a u n t)) = (''ADMIN_ADJUSTMENT'', k, ADMIN_ADJUSTMENT)"
  by (simp_all add: adjustment_command_def source_triple_def entry_of_def)

lemma validate_adjustment:
  "strip_or_none r = Some t \<Longrightarrow> n \<noteq> 0 \<Longrightarrow> validate (adjustment_command k a u n t) = None"
  by (auto simp: validate_def strip_or_none_def adjustment_command_def split: option.splits if_splits)

lemma strip_twice: "strip_or_none r = Some t \<Longrightarrow> strip_or_none (Some t) = Some t"
  using strip_or_none_Some [of r t] by (simp add: strip_or_none_def)

lemma adjustment_row_None:
  "adjustment_row k t = None \<longleftrightarrow> (''ADMIN_ADJUSTMENT'', k, ADMIN_ADJUSTMENT) \<notin> source_triple ` set t"
  by (simp add: adjustment_row_def row_of_None)

lemma audit_adjustment_simps [simp]:
  "ledger (audit_adjustment a u t x y e ctx s) = ledger s"
  "wallets (audit_adjustment a u t x y e ctx s) = wallets s"
  "wallet_of (audit_adjustment a u t x y e ctx s) = wallet_of s"
  "reward_items (audit_adjustment a u t x y e ctx s) = reward_items s"
  "redemptions (audit_adjustment a u t x y e ctx s) = redemptions s"
  "reservations (audit_adjustment a u t x y e ctx s) = reservations s"
  "review_grants (audit_adjustment a u t x y e ctx s) = review_grants s"
  "armed_jobs (audit_adjustment a u t x y e ctx s) = armed_jobs s"
  by (simp_all add: audit_adjustment_def)

lemma adjust_cases:
  assumes "admin_adjust_points role_of s0 eid m actor u n reason k ctx s = (res, s')"
  obtains (refused) e where "res = Inl e" "s' = s"
  | (replayed) e t where "adjustment_row k (ledger s0) = Some e \<or> adjustment_row k (ledger s) = Some e"
      "strip_or_none reason = Some t" "res = replayed_adjustment e k u n t"
      "s' = s \<or> s' = locked_or_created_wallet u s"
  | (posted) t s2 e where "actor_role actor = ADMIN" "strip_or_none reason = Some t" "n \<noteq> 0" "res = Inr e"
      "role_of u \<noteq> None"
      "post_entry eid m (adjustment_command k actor u n t) (locked_or_created_wallet u s) = Inr (s2, e)"
      "s' = audit_adjustment actor u t (available_points (wallet_of s u))
         (available_points (wallet_of s2 u)) e ctx s2"
proof -
  note d = assms [unfolded admin_adjust_points_def Let_def]
  consider "actor_role actor \<noteq> ADMIN \<or> strip_or_none reason = None \<or> n = 0"
    | t where "actor_role actor = ADMIN" "strip_or_none reason = Some t" "n \<noteq> 0"
    by (cases "strip_or_none reason") auto
  then show ?thesis
  proof cases
    case 1
    with d have "isl res \<and> s' = s" by (auto split: option.splits if_splits)
    with refused show ?thesis by (cases res) auto
  next
    case (2 t)
    note d2 = d [simplified 2, simplified]
    let ?p = "post_entry eid m (adjustment_command k actor u n t) (locked_or_created_wallet u s)"
    show ?thesis
    proof (cases "adjustment_row k (ledger s0)")
      case (Some e)
      with d2 2(3) have "res = replayed_adjustment e k u n t" "s' = s" by simp_all
      with Some 2(2) replayed show ?thesis by blast
    next
      case none0: None
      show ?thesis
      proof (cases "role_of u = None \<or> (\<exists>e. ?p = Inl e \<and> e \<noteq> LedgerIntegrityError Uq_source_triple)")
        case True
        with d2 2(3) none0 have "isl res \<and> s' = s" by (auto split: if_splits)
        with refused show ?thesis by (cases res) auto
      next
        case False
        show ?thesis
        proof (cases ?p)
          case (Inl e)
          with False have e: "e = LedgerIntegrityError Uq_source_triple" "role_of u \<noteq> None" by auto
          show ?thesis
          proof (cases "adjustment_row k (ledger s)")
            case None
            with e d2 2(3) none0 Inl have "res = Inl (AdminPosting e)" "s' = s" by auto
            then show ?thesis by (rule refused)
          next
            case (Some w)
            with e d2 2(3) none0 Inl
            have "res = replayed_adjustment w k u n t" "s' = locked_or_created_wallet u s" by auto
            with Some 2(2) replayed show ?thesis by blast
          qed
        next
          case (Inr x)
          obtain s2 e where x: "x = (s2, e)" by (cases x)
          from False have "role_of u \<noteq> None" by simp
          with Inr x d2 2(3) none0 have "res = Inr e"
            "s' = audit_adjustment actor u t (available_points (wallet_of s u))
               (available_points (wallet_of s2 u)) e ctx s2" by auto
          with posted [OF 2] \<open>role_of u \<noteq> None\<close> Inr x show ?thesis by blast
        qed
      qed
    qed
  qed
qed

lemma adjust_first:
  assumes "actor_role actor = ADMIN" "strip_or_none reason = Some t" "n \<noteq> 0"
    "adjustment_row k (ledger s0) = None" "adjustment_row k (ledger s) = None"
    "role_of u \<noteq> None" "eid \<notin> le_id ` set (ledger s)"
  shows "\<exists>s2. post_entry eid m (adjustment_command k actor u n t) (locked_or_created_wallet u s)
       = Inr (s2, entry_of eid m (adjustment_command k actor u n t))
    \<and> admin_adjust_points role_of s0 eid m actor u n reason k ctx s
       = (Inr (entry_of eid m (adjustment_command k actor u n t)),
          audit_adjustment actor u t (available_points (wallet_of s u))
            (available_points (wallet_of s2 u)) (entry_of eid m (adjustment_command k actor u n t)) ctx s2)"
proof -
  let ?c = "adjustment_command k actor u n t"
  obtain s2 where p: "post_entry eid m ?c (locked_or_created_wallet u s) = Inr (s2, entry_of eid m ?c)"
    using post_entry_ok [of ?c eid "locked_or_created_wallet u s" m] assms
    by (auto simp: validate_adjustment [OF assms(2,3)] adjustment_row_None)
  show ?thesis
    by (rule exI [of _ s2]) (use p assms in \<open>simp add: admin_adjust_points_def Let_def\<close>)
qed

lemma adjustment_row_append:
  "adjustment_row k t = None \<Longrightarrow> source_triple e = (''ADMIN_ADJUSTMENT'', k, ADMIN_ADJUSTMENT)
    \<Longrightarrow> adjustment_row k (t @ [e]) = Some e"
  by (simp add: adjustment_row_def row_of_append)

text \<open>The first adjustment of an operation id to an existing account by an admin with a
  reason posts exactly one row and moves the available points by the amount, while the ranking
  figures stay and no projection job is armed.  Any later call under the same id writes nothing:
  it returns the original row when user, amount and trimmed reason agree and is a conflict
  otherwise.\<close>

theorem adjustment_posts_once_per_operation:
  assumes adm: "actor_role actor = ADMIN" and reason: "strip_or_none reason = Some t" and n: "n \<noteq> 0"
    and new: "adjustment_row k (ledger s0) = None" "adjustment_row k (ledger s) = None"
    and target: "role_of u \<noteq> None" and fresh: "eid \<notin> le_id ` set (ledger s)"
  shows "\<exists>e s'. admin_adjust_points role_of s0 eid m actor u n reason k ctx s = (Inr e, s')
    \<and> ledger s' = ledger s @ [e] \<and> le_amount e = n \<and> le_user_id e = u \<and> le_reason e = Some t
    \<and> available_points (wallet_of s' u) = available_points (wallet_of s u) + n
    \<and> (\<forall>v. earned_points (wallet_of s' v) = earned_points (wallet_of s v))
    \<and> (\<forall>v. earned_of (ledger s') v = earned_of (ledger s) v) \<and> armed_jobs s' = armed_jobs s
    \<and> (\<forall>eid2 m2 actor2 reason2 n2 u2 ctx2.
         actor_role actor2 = ADMIN \<longrightarrow> strip_or_none reason2 \<noteq> None \<longrightarrow> n2 \<noteq> 0 \<longrightarrow>
         admin_adjust_points role_of s' eid2 m2 actor2 u2 n2 reason2 k ctx2 s' =
           (if u2 = u \<and> n2 = n \<and> strip_or_none reason2 = Some t then Inr e
            else Inl (PointsAdjustmentOperationConflict k), s'))"
proof -
  let ?c = "adjustment_command k actor u n t" and ?e = "entry_of eid m (adjustment_command k actor u n t)"
  obtain s2 where p: "post_entry eid m ?c (locked_or_created_wallet u s) = Inr (s2, ?e)"
    and run: "admin_adjust_points role_of s0 eid m actor u n reason k ctx s = (Inr ?e,
        audit_adjustment actor u t (available_points (wallet_of s u))
            (available_points (wallet_of s2 u)) ?e ctx s2)"
    using adjust_first [where role_of = role_of and u = u, OF adm reason n new target fresh] by blast
  define s' where s': "s' = audit_adjustment actor u t (available_points (wallet_of s u))
            (available_points (wallet_of s2 u)) ?e ctx s2"
  from run have run: "admin_adjust_points role_of s0 eid m actor u n reason k ctx s = (Inr ?e, s')"
    by (simp add: s')
  note eff = post_entry_InrD [OF p]
  have led: "ledger s' = ledger s @ [?e]" using eff(4) by (simp add: s')
  have r: "le_reason ?e = Some t" using strip_twice [OF reason] by simp
  have "adjustment_row k (ledger s') = Some ?e"
    by (simp add: led adjustment_row_append new(2))
  then have again: "admin_adjust_points role_of s' eid2 m2 actor2 u2 n2 reason2 k ctx2 s' =
      (if u2 = u \<and> n2 = n \<and> strip_or_none reason2 = Some t then Inr ?e
       else Inl (PointsAdjustmentOperationConflict k), s')"
    if "actor_role actor2 = ADMIN" "strip_or_none reason2 \<noteq> None" "n2 \<noteq> 0"
    for eid2 m2 actor2 reason2 n2 u2 ctx2
    using that r by (auto simp: admin_adjust_points_def replayed_adjustment_def getd_def)
  have earn: "earned_of (ledger s') v = earned_of (ledger s) v" for v
    by (simp add: led tbl)
  show ?thesis
    by (rule exI [of _ ?e], rule exI [of _ s'])
      (use run led r earn again eff(13) in \<open>simp add: s' post_wallet_figures [OF p]\<close>)
qed

section \<open>Concrete runs\<close>

definition price_change :: RewardItemChanges where
  "price_change = \<lparr>ch_name = None, ch_description = None, ch_point_cost = Some 18, ch_stock = Some None,
     ch_per_user_term_limit = None, ch_available_from = None, ch_available_until = None,
     ch_requires_manual_review = None, ch_fulfillment_instructions = None\<rparr>"

theorem catalogue_edits_spare_open_requests_witness:
  "\<exists>s i. update_reward_item boss 3 price_change None None (fst requested) = Inr (s, i)
     \<and> get_spendable_points s 5 = get_spendable_points (fst requested) 5
     \<and> (\<exists>s2 r2. approve_redemption True 2 0 boss 11 300 None s = Inr (s2, r2)
          \<and> rd_points r2 = rd_points (snd requested))"
proof -
  have "isl (update_reward_item boss 3 price_change None None (fst requested)) = False"
    by code_simp
  then obtain s i where run: "update_reward_item boss 3 price_change None None (fst requested) = Inr (s, i)"
    by (cases "update_reward_item boss 3 price_change None None (fst requested)") auto
  have "require_reviewer (fst requested) boss = None" by (simp add: reviewer_iff)
  from catalogue_edits_spare_open_requests [OF run requested_facts(1-4) this requested_facts(5)] run
  show ?thesis by fastforce
qed

theorem review_delegation_takes_effect_at_once_witness:
  "\<exists>s1 g s2. grant_reward_review (\<lambda>_. Some TEACHER) boss 4 (Some ''helper'') 10 None initial_points = Inr (s1, g)
     \<and> revoke_reward_review boss 4 (Some ''done'') None s1 = Inr s2
     \<and> require_reviewer s1 \<lparr>actor_user_id = 4, actor_role = TEACHER\<rparr> = None
     \<and> require_reviewer s2 \<lparr>actor_user_id = 4, actor_role = TEACHER\<rparr> \<noteq> None"
proof -
  let ?g = "grant_reward_review (\<lambda>_. Some TEACHER) boss 4 (Some ''helper'') 10 None initial_points"
  have "(case ?g of Inl e \<Rightarrow> False | Inr (s1, g) \<Rightarrow> \<not> isl (revoke_reward_review boss 4 (Some ''done'') None s1))"
    by code_simp
  then obtain s1 g where g: "?g = Inr (s1, g)"
    and "\<not> isl (revoke_reward_review boss 4 (Some ''done'') None s1)"
    by (auto split: sum.splits)
  then obtain s2 where run: "?g = Inr (s1, g)" "revoke_reward_review boss 4 (Some ''done'') None s1 = Inr s2"
    by (cases "revoke_reward_review boss 4 (Some ''done'') None s1") auto
  from review_delegation_takes_effect_at_once [OF run] run show ?thesis by auto
qed

theorem adjustment_posts_once_per_operation_witness:
  "\<exists>e s. admin_adjust_points (\<lambda>_. Some STUDENT) paid_claim 2 0 boss 5 (- 30) (Some ''fix'') 77 None paid_claim
       = (Inr e, s) \<and> ledger s = [paid_row, e]
     \<and> admin_adjust_points (\<lambda>_. Some STUDENT) s 3 0 boss 5 (- 30) (Some '' fix '') 77 None s = (Inr e, s)"
proof -
  have t: "strip_or_none (Some ''fix'') = Some ''fix''" "strip_or_none (Some '' fix '') = Some ''fix''"
    "adjustment_row 77 [paid_row] = None" by code_simp+
  show ?thesis
    using adjustment_posts_once_per_operation [of boss "Some ''fix''" "''fix''" "- 30" 77 paid_claim paid_claim
        "\<lambda>_. Some STUDENT" 5 2 0 None] t
    by fastforce
qed

end
