(* ===== verification/Points_Lifecycle.thy ===== *)
theory Points_Lifecycle
  imports Points_Admin
begin

text \<open>
  The points domain as a state machine: one step per committed use case of the ledger, the
  redemption and the admin services, the invariant that every step keeps, and the properties of
  every reachable state (reconciliation of wallets, reservations and ledger, append-only history,
  a clean audit trail).
\<close>

section \<open>The steps\<close>

text \<open>
  One step is one committed use case of the points domain, with whatever arguments a caller may
  pass; \<open>earlier s0 s\<close> says that a lock-free read saw an earlier ledger.
\<close>

definition earlier :: "points_db \<Rightarrow> points_db \<Rightarrow> bool" where
  "earlier s0 s \<longleftrightarrow> set (ledger s0) \<subseteq> set (ledger s)"

inductive points_step :: "points_db \<Rightarrow> points_db \<Rightarrow> bool" where
  step_grant: "earlier s0 s \<Longrightarrow>
    grant_assignment_reward s0 eid m cid u n at ov df req s = Inr (s', e) \<Longrightarrow> points_step s s'"
| step_reverse: "reverse_assignment_reward eid m actor lid reason ov df req ctx s = Inr (s', e)
    \<Longrightarrow> points_step s s'"
| step_request: "request_redemption ct rid vid u i now db_now s = Inr (s', r) \<Longrightarrow> points_step s s'"
| step_approve: "approve_redemption w eid m actor rid now ctx s = Inr (s', r) \<Longrightarrow> points_step s s'"
| step_reject: "reject_redemption w actor rid reason now ctx s = Inr (s', r) \<Longrightarrow> points_step s s'"
| step_fulfill: "fulfill_redemption actor rid nt now ctx s = Inr (s', r) \<Longrightarrow> points_step s s'"
| step_create: "create_reward_item iid actor d reason ctx s = Inr (s', it) \<Longrightarrow> points_step s s'"
| step_update: "update_reward_item actor iid c reason ctx s = Inr (s', it) \<Longrightarrow> points_step s s'"
| step_disable: "disable_reward_item actor iid reason ctx s = Inr (s', it) \<Longrightarrow> points_step s s'"
| step_delegate: "grant_reward_review role_of actor t reason n ctx s = Inr (s', g) \<Longrightarrow> points_step s s'"
| step_revoke: "revoke_reward_review actor t reason ctx s = Inr s' \<Longrightarrow> points_step s s'"
| step_adjust: "earlier s0 s \<Longrightarrow>
    admin_adjust_points role_of s0 eid m actor u n reason k ctx s = (res, s') \<Longrightarrow> points_step s s'"
| step_commit: "points_step s (commit s)"

definition reachable_points :: "points_db \<Rightarrow> bool" where
  "reachable_points s \<longleftrightarrow> points_step\<^sup>*\<^sup>* initial_points s"

definition points_inv :: "'a points_db_scheme \<Rightarrow> bool" where
  "points_inv s \<longleftrightarrow> ledger_inv s \<and> shelf_inv s \<and> catalogue_ok (reward_items s)"

section \<open>Every step keeps the invariant\<close>

lemma enqueue_shelf [simp]: "shelf_inv (enqueue_after_commit d u a r s) = shelf_inv s"
  by (rule shelf_inv_cong) simp_all

lemma commit_points [simp]:
  "ledger (commit s) = ledger s" "wallets (commit s) = wallets s" "reward_items (commit s) = reward_items s"
  "redemptions (commit s) = redemptions s" "reservations (commit s) = reservations s"
  "review_grants (commit s) = review_grants s" "audit_logs (commit s) = audit_logs s"
  by (simp_all add: commit_def)

lemma wallets_wallet_of: "wallets t = wallets s \<Longrightarrow> wallet_of t = wallet_of s"
  by (simp add: wallet_of_def fun_eq_iff)

lemma points_inv_cong:
  "ledger t = ledger s \<Longrightarrow> wallets t = wallets s \<Longrightarrow> redemptions t = redemptions s
   \<Longrightarrow> reservations t = reservations s \<Longrightarrow> reward_items t = reward_items s
   \<Longrightarrow> points_inv t = points_inv s"
  using shelf_inv_cong [of t s] ledger_inv_cong [OF _ wallets_wallet_of, of t s]
  by (simp add: points_inv_def)

lemma grant_InrD:
  assumes "grant_assignment_reward s0 eid m cid u n at ov df req s = Inr (s', e)"
  obtains (replay) "s' = s"
  | (paid) eff s1 where "0 < n" "at = Some eff" "post_entry eid m (grant_command cid u n eff) s = Inr (s1, e)"
      "s' = enqueue_after_commit (resolve_dispatcher ov df) u eff req s1"
  using assms
  by (auto simp: grant_assignment_reward_def split: option.splits if_splits sum.splits)

lemma post_keeps_points_inv:
  assumes p: "post_entry eid m c s = Inr (s', e)" and inv: "points_inv s"
    and ty: "pe_ledger_type c \<noteq> REWARD_REDEMPTION"
    and g: "pe_ledger_type c = ASSIGNMENT_REWARD \<Longrightarrow> grant_row (entry_of eid m c)"
    and r: "pe_ledger_type c = ASSIGNMENT_REWARD_REVERSAL \<Longrightarrow> \<exists>g\<in>set (ledger s). mirrors (entry_of eid m c) g"
  shows "points_inv s'"
proof -
  note e = post_entry_InrD(2) [OF p]
  have "ledger_inv s'"
    by (rule post_keeps_ledger_inv [OF p]) (use inv g r e in \<open>auto simp: points_inv_def\<close>)
  moreover have "shelf_inv s'"
    by (rule post_keeps_shelf [OF p]) (use inv ty e in \<open>auto simp: points_inv_def\<close>)
  ultimately show ?thesis
    using inv post_entry_InrD(8) [OF p] by (simp add: points_inv_def)
qed

lemma points_inv_locked [simp]: "points_inv s \<Longrightarrow> points_inv (locked_or_created_wallet u s)"
  using ledger_inv_cong [of "locked_or_created_wallet u s" s] by (simp add: points_inv_def)

lemma grant_keeps:
  assumes run: "grant_assignment_reward s0 eid m cid u n at ov df req s = Inr (s', e)" and inv: "points_inv s"
  shows "points_inv s' \<and> (\<exists>new. ledger s' = ledger s @ new) \<and> redemptions s' = redemptions s"
proof (rule grant_InrD [OF run])
  fix eff s1
  assume n: "0 < n" and p: "post_entry eid m (grant_command cid u n eff) s = Inr (s1, e)"
    and s': "s' = enqueue_after_commit (resolve_dispatcher ov df) u eff req s1"
  have "points_inv s1"
    by (rule post_keeps_points_inv [OF p inv]) (use n in \<open>simp_all add: grant_row_def\<close>, simp add: grant_command_def)
  then have "points_inv s'"
    by (subst points_inv_cong [of s' s1]) (simp_all add: s')
  then show ?thesis
    using post_entry_InrD(4,7) [OF p] by (simp add: s')
qed (use inv in simp)

lemma reverse_keeps:
  assumes run: "reverse_assignment_reward eid m actor lid reason ov df req ctx s = Inr (s', e)"
    and inv: "points_inv s"
  shows "points_inv s' \<and> (\<exists>new. ledger s' = ledger s @ new) \<and> redemptions s' = redemptions s"
proof (rule reverse_InrD [OF run])
  fix t g eff s2
  assume f: "strip_or_none reason = Some t" "actor_role actor = ADMIN"
    "row_of le_id lid (ledger s) = Some g" "le_type g = ASSIGNMENT_REWARD"
    "le_ranking_effective_at g = Some eff"
    "claim_reversal (le_source_type g) (le_source_id g) (ledger s) = None"
    and p: "post_entry eid m (reversal_command g lid actor eff t)
        (locked_or_created_wallet (le_user_id g) s) = Inr (s2, e)"
  have s': "s' = enqueue_after_commit (resolve_dispatcher ov df) (le_user_id g) eff req
            (audit_reversal actor lid g e t (available_points (wallet_of s (le_user_id g)))
              (available_points (wallet_of s2 (le_user_id g))) ctx s2)"
    using reverse_gates(2) [OF f(1-5) f(6) p] run by simp
  note g = row_of_SomeD [OF f(3)]
  have "mirrors (entry_of eid m (reversal_command g lid actor eff t)) g"
    by (rule reversal_mirrors [OF f(4) _ f(5)]) (use g in simp)
  then have "points_inv s2"
    by (intro post_keeps_points_inv [OF p]) (use inv g in auto)
  moreover have "points_inv s' = points_inv s2"
    by (rule points_inv_cong) (simp_all add: s' audit_reversal_def)
  ultimately show ?thesis
    using post_entry_InrD(4,7) [OF p] by (simp add: s' audit_reversal_def)
qed

lemma request_keeps:
  assumes run: "request_redemption ct rid vid u i now db_now s = Inr (s', r)" and inv: "points_inv s"
  shows "points_inv s' \<and> ledger s' = ledger s \<and> redemptions s' = redemptions s @ [r]
    \<and> r \<notin> set (redemptions s)"
proof (rule request_InrD [OF run])
  fix item tm
  assume a: "admissible ct u i now s item tm" "r = new_redemption rid u item tm db_now"
    and ins: "insert_redemption r (redemptions s) = Inr (redemptions s')"
      "insert_reservation (new_reservation vid r) (reservations s) = Inr (reservations s')"
      "s' = (locked_or_created_wallet u s)\<lparr>redemptions := redemptions s', reservations := reservations s'\<rparr>"
  note eff = request_effect [OF _ _ a ins]
  have "ledger_inv s' = ledger_inv s"
    by (rule ledger_inv_cong) (use eff inv in \<open>simp_all add: points_inv_def\<close>)
  moreover have "r \<notin> set (redemptions s)"
    using ins(1) by (auto simp: insert_redemption_def split: if_splits)
  ultimately show ?thesis
    using eff inv by (simp add: points_inv_def)
qed

text \<open>The moves a redemption can make, and what of it never changes.\<close>

definition advances :: "RedemptionStatus \<Rightarrow> RedemptionStatus \<Rightarrow> bool" where
  "advances a b \<longleftrightarrow> a = b \<or> (a, b) \<in> {(REQUESTED, APPROVED), (RedemptionStatus.UNDER_REVIEW, APPROVED),
     (REQUESTED, REJECTED), (RedemptionStatus.UNDER_REVIEW, REJECTED), (APPROVED, FULFILLED)}"

definition continues :: "redemption \<Rightarrow> redemption \<Rightarrow> bool" where
  "continues r r' \<longleftrightarrow> rd_id r' = rd_id r \<and> rd_user_id r' = rd_user_id r \<and> rd_item_id r' = rd_item_id r
     \<and> rd_points r' = rd_points r \<and> rd_term_key r' = rd_term_key r \<and> advances (rd_status r) (rd_status r')"

definition table_continues :: "redemption list \<Rightarrow> redemption list \<Rightarrow> bool" where
  "table_continues t t' \<longleftrightarrow>
     (\<forall>rid r. row_of rd_id rid t = Some r \<longrightarrow> (\<exists>r'. row_of rd_id rid t' = Some r' \<and> continues r r'))"

lemma continues_refl [simp]: "continues r r"
  by (simp add: continues_def advances_def)

lemma table_continues_refl [simp]: "table_continues t t"
  by (simp add: table_continues_def)

lemma table_continues_append [simp]: "table_continues t (t @ u)"
  by (simp add: table_continues_def row_of_append)

lemma table_continues_update:
  assumes "row_of rd_id rid t = Some r" "continues r r'"
  shows "table_continues t (update_row rd_id rid (\<lambda>_. r') t)"
proof -
  have "rd_id r' = rid" using assms row_of_SomeD [OF assms(1)] by (simp add: continues_def)
  then show ?thesis using assms by (auto simp: table_continues_def tbl)
qed

lemma approve_keeps:
  assumes run: "approve_redemption w eid m actor rid now ctx s = Inr (s', r)" and inv: "points_inv s"
  shows "points_inv s' \<and> (\<exists>new. ledger s' = ledger s @ new) \<and> table_continues (redemptions s) (redemptions s')"
proof (rule approve_InrD [OF run])
  fix q v s2 e
  assume row: "row_of rd_id rid (redemptions s) = Some q" and p: "pending q"
    and r: "r = approved_by q actor now"
    and post: "post_entry eid m (consumption_command q actor) (locked_or_created_wallet (rd_user_id q) s) = Inr (s2, e)"
    and fin: "record_redemption_decided w r None (audit_decision actor r ''REDEMPTION_APPROVE''
         (rd_status q) ctx None None (settle r CONSUMED now s2)) = Inr s'"
  have sh: "shelf_inv s" using inv by (simp add: points_inv_def)
  note eff = approve_effect [OF sh row p post fin [unfolded r]]
  have "ledger_inv s2"
    by (rule post_keeps_ledger_inv [OF post])
      (use inv post_entry_InrD(2) [OF post] in
        \<open>auto simp: points_inv_def ledger_inv_cong [of "locked_or_created_wallet (rd_user_id q) s" s]\<close>)
  moreover have "ledger_inv s' = ledger_inv s2"
    by (rule ledger_inv_cong) (simp_all add: decided_Inr(1,8) [OF fin])
  moreover have "reward_items s' = reward_items s"
    using decided_Inr(3) [OF fin] post_entry_InrD(8) [OF post] by simp
  moreover have "redemptions s' = update_row rd_id rid (\<lambda>_. r) (redemptions s)"
    using row_of_SomeD [OF row] decided_Inr(4) [OF fin] post_entry_InrD(7) [OF post] by (simp add: settle_def r)
  moreover have "continues q r"
    using p by (auto simp: continues_def r advances_def approved_by_def)
  ultimately show ?thesis
    using eff(1,2) inv table_continues_update [OF row] by (simp add: points_inv_def)
qed (use inv in simp)

lemma reject_keeps:
  assumes run: "reject_redemption w actor rid reason now ctx s = Inr (s', r)" and inv: "points_inv s"
  shows "points_inv s' \<and> ledger s' = ledger s \<and> table_continues (redemptions s) (redemptions s')"
proof (rule reject_InrD [OF run])
  fix t q v
  assume row: "row_of rd_id rid (redemptions s) = Some q" and p: "pending q"
    and r: "r = rejected_by q actor t now"
    and fin: "record_redemption_decided w r (Some t) (audit_decision actor r ''REDEMPTION_REJECT''
         (rd_status q) ctx (Some t) None
         (settle r RELEASED now (locked_or_created_wallet (rd_user_id q) s))) = Inr s'"
  have sh: "shelf_inv s" using inv by (simp add: points_inv_def)
  note eff = reject_effect [OF sh row p fin [unfolded r]]
  have "ledger_inv s' = ledger_inv s"
    by (rule ledger_inv_cong) (simp_all add: eff(2,3))
  moreover have "reward_items s' = reward_items s"
    using decided_Inr(3) [OF fin] by simp
  moreover have "redemptions s' = update_row rd_id rid (\<lambda>_. r) (redemptions s)"
    using row_of_SomeD [OF row] decided_Inr(4) [OF fin] by (simp add: settle_def r)
  moreover have "continues q r"
    using p by (auto simp: continues_def r advances_def rejected_by_def)
  ultimately show ?thesis
    using eff(1,2) inv table_continues_update [OF row] by (simp add: points_inv_def)
qed (use inv in simp)

lemma fulfill_keeps:
  assumes run: "fulfill_redemption actor rid nt now ctx s = Inr (s', r)" and inv: "points_inv s"
  shows "points_inv s' \<and> ledger s' = ledger s \<and> table_continues (redemptions s) (redemptions s')"
proof (rule fulfill_InrD [OF run])
  fix q
  assume row: "row_of rd_id rid (redemptions s) = Some q" and st: "rd_status q = APPROVED"
    and r: "r = fulfilled_with q (strip_or_none nt) now"
    and s': "s' = audit_decision actor r ''REDEMPTION_FULFILL'' (rd_status q) ctx None (strip_or_none nt)
         (s\<lparr>redemptions := update_row rd_id (rd_id q) (\<lambda>_. r) (redemptions s)\<rparr>)"
  have sh: "shelf_inv s" using inv by (simp add: points_inv_def)
  note eff = fulfill_effect [OF sh row st r s']
  have "ledger_inv s' = ledger_inv s"
    by (rule ledger_inv_cong) (simp_all add: eff(2,3))
  moreover have "reward_items s' = reward_items s" by (simp add: s')
  moreover have "redemptions s' = update_row rd_id rid (\<lambda>_. r) (redemptions s)"
    using row_of_SomeD [OF row] by (simp add: s')
  moreover have "continues q r"
    using st by (simp add: continues_def r advances_def fulfilled_with_def)
  ultimately show ?thesis
    using eff(1,2) inv table_continues_update [OF row] by (simp add: points_inv_def)
qed (use inv in simp)

lemma catalogue_keeps:
  assumes "catalogue_step s s'" "points_inv s"
  shows "points_inv s' \<and> ledger s' = ledger s \<and> redemptions s' = redemptions s"
  using assms catalogue_step_keeps(1,2) [OF assms(1)] by (simp add: points_inv_def catalogue_step_def)

lemma adjust_keeps:
  assumes run: "admin_adjust_points role_of s0 eid m actor u n reason k ctx s = (res, s')" and inv: "points_inv s"
  shows "points_inv s' \<and> (\<exists>new. ledger s' = ledger s @ new) \<and> redemptions s' = redemptions s"
proof (rule adjust_cases [OF run])
  fix t s2 e
  assume p: "post_entry eid m (adjustment_command k actor u n t) (locked_or_created_wallet u s) = Inr (s2, e)"
    and s': "s' = audit_adjustment actor u t (available_points (wallet_of s u))
         (available_points (wallet_of s2 u)) e ctx s2"
  have "points_inv s2"
    by (rule post_keeps_points_inv [OF p]) (use inv in simp_all)
  moreover have "points_inv s' = points_inv s2"
    by (rule points_inv_cong) (simp_all add: s')
  ultimately show ?thesis
    using post_entry_InrD(4,7) [OF p] by (simp add: s')
qed (use inv in auto)

lemma step_keeps:
  assumes "points_step s s'" "points_inv s"
  shows "points_inv s' \<and> (\<exists>new. ledger s' = ledger s @ new) \<and> table_continues (redemptions s) (redemptions s')"
  using assms
proof (induction rule: points_step.induct)
  case step_grant then show ?case using grant_keeps by fastforce
next
  case step_reverse then show ?case using reverse_keeps by fastforce
next
  case step_request then show ?case using request_keeps by fastforce
next
  case step_approve then show ?case using approve_keeps by blast
next
  case step_reject then show ?case using reject_keeps by fastforce
next
  case step_fulfill then show ?case using fulfill_keeps by fastforce
next
  case step_create
  show ?case using catalogue_keeps [OF create_catalogue_step [OF step_create(1)] step_create(2)] by simp
next
  case step_update
  show ?case using catalogue_keeps [OF update_catalogue_step [OF step_update(1)] step_update(2)] by simp
next
  case step_disable
  show ?case using catalogue_keeps [OF disable_catalogue_step [OF step_disable(1)] step_disable(2)] by simp
next
  case step_delegate
  note eff = grant_review_InrD [OF step_delegate(1)]
  show ?case using points_inv_cong [OF eff(5,6,7,8,9)] step_delegate(2) eff(5,7) by simp
next
  case step_revoke
  note eff = revoke_review_InrD [OF step_revoke(1)]
  show ?case using points_inv_cong [OF eff(2-6)] step_revoke(2) eff(2,4) by simp
next
  case step_adjust then show ?case using adjust_keeps by fastforce
next
  case (step_commit s)
  then show ?case using points_inv_cong [of "commit s" s] by simp
qed


lemma initial_points_inv: "points_inv initial_points"
  by (simp add: points_inv_def) (simp add: initial_points_def shelf_inv_def catalogue_ok_def)

lemma reachable_inv: "reachable_points s \<Longrightarrow> points_inv s"
  unfolding reachable_points_def
  by (induction rule: rtranclp_induct) (auto simp: initial_points_inv dest: step_keeps)

section \<open>Reconciliation\<close>

lemma frozen_is_pending:
  assumes inv: "shelf_inv s"
  shows "frozen_of s u = sum_rows (\<lambda>r. rd_user_id r = u \<and> pending r) rd_points (redemptions s)"
proof -
  let ?f = "\<lambda>r. the (row_of rv_redemption_id (rd_id r) (reservations s))"
  have f: "?f r \<in> set (reservations s) \<and> backs (?f r) r" if "r \<in> set (redemptions s)" for r
  proof -
    have "row_of rd_id (rd_id r) (redemptions s) = Some r"
      by (rule row_of_unique [OF shelf_distinct(1) [OF inv] that])
    then obtain v where "row_of rv_redemption_id (rd_id r) (reservations s) = Some v" "backs v r"
      by (rule shelf_redemption [OF inv])
    then show ?thesis using row_of_SomeD by fastforce
  qed
  have act: "backs v r \<Longrightarrow> active_of u v \<longleftrightarrow> rd_user_id r = u \<and> pending r" for v r
    by (cases "rd_status r") (auto simp: backs_def active_of_def)
  have "sum_rows (\<lambda>r. rd_user_id r = u \<and> pending r) rd_points (redemptions s)
      = sum_rows (active_of u) rv_points (reservations s)"
  proof (rule sum_rows_match [where f = ?f])
    show "distinct (redemptions s)" "distinct (reservations s)"
      using shelf_distinct [OF inv] distinct_rows by blast+
    show "inj_on ?f {r \<in> set (redemptions s). rd_user_id r = u \<and> pending r}"
    proof (rule inj_onI)
      fix x y
      assume xy: "x \<in> {r \<in> set (redemptions s). rd_user_id r = u \<and> pending r}"
        "y \<in> {r \<in> set (redemptions s). rd_user_id r = u \<and> pending r}" "?f x = ?f y"
      then have "rd_id x = rd_id y" using f [of x] f [of y] by (simp add: backs_def)
      with xy shelf_distinct(1) [OF inv] show "x = y"
        by (auto simp: distinct_map dest: inj_onD)
    qed
    show "?f ` {r \<in> set (redemptions s). rd_user_id r = u \<and> pending r} = {v \<in> set (reservations s). active_of u v}"
    proof (intro equalityI subsetI)
      fix v assume v: "v \<in> {v \<in> set (reservations s). active_of u v}"
      then obtain r where r: "r \<in> set (redemptions s)" "rd_id r = rv_redemption_id v"
        using inv by (auto simp: shelf_inv_def list_all_iff)
      have "row_of rv_redemption_id (rd_id r) (reservations s) = Some v"
        using row_of_unique [OF shelf_distinct(2) [OF inv], of v] v r(2) by simp
      then have "?f r = v" by simp
      moreover have "rd_user_id r = u \<and> pending r"
        using f [OF r(1)] v act [of v r] \<open>?f r = v\<close> by simp
      ultimately show "v \<in> ?f ` {r \<in> set (redemptions s). rd_user_id r = u \<and> pending r}"
        using r(1) by blast
    qed (use f act in blast)
    show "rv_points (?f r) = rd_points r" if "r \<in> set (redemptions s)" for r
      using f [OF that] by (simp add: backs_def)
  qed
  then show ?thesis by (simp add: frozen_of_def)
qed

abbreviation spent :: "redemption \<Rightarrow> bool" where
  "spent r \<equiv> rd_status r = APPROVED \<or> rd_status r = FULFILLED"

lemma spending_is_consumption:
  assumes inv: "shelf_inv s" and tab: "table_ok (ledger s)"
  shows "sum_rows (\<lambda>e. le_user_id e = u \<and> le_type e = REWARD_REDEMPTION) le_amount (ledger s)
    = - sum_rows (\<lambda>r. rd_user_id r = u \<and> spent r) rd_points (redemptions s)"
proof -
  let ?k = "\<lambda>r. (REDEMPTION_SOURCE, rd_id r, REWARD_REDEMPTION)"
  let ?f = "\<lambda>r. the (row_of source_triple (?k r) (ledger s))"
  have dt: "distinct (map source_triple (ledger s))" using tab by (simp add: table_ok_def)
  have row: "row_of source_triple (?k r) (ledger s) = Some e" if "e \<in> set (ledger s)" "consumes e r" for e r
    using row_of_unique [OF dt that(1)] that(2) by (simp add: consumes_def)
  have f: "?f r \<in> set (ledger s) \<and> consumes (?f r) r" if "r \<in> set (redemptions s)" "spent r" for r
  proof -
    from that inv obtain e where "e \<in> set (ledger s)" "consumes e r"
      by (auto simp: shelf_inv_def list_all_iff redemption_ok_def)
    with row show ?thesis by fastforce
  qed
  have "sum_rows (\<lambda>r. rd_user_id r = u \<and> spent r) (\<lambda>r. - rd_points r) (redemptions s)
      = sum_rows (\<lambda>e. le_user_id e = u \<and> le_type e = REWARD_REDEMPTION) le_amount (ledger s)"
  proof (rule sum_rows_match [where f = ?f])
    show "distinct (redemptions s)" "distinct (ledger s)"
      using shelf_distinct(1) [OF inv] dt distinct_rows by blast+
    show "inj_on ?f {r \<in> set (redemptions s). rd_user_id r = u \<and> spent r}"
    proof (rule inj_onI)
      fix x y
      assume xy: "x \<in> {r \<in> set (redemptions s). rd_user_id r = u \<and> spent r}"
        "y \<in> {r \<in> set (redemptions s). rd_user_id r = u \<and> spent r}" "?f x = ?f y"
      then have "rd_id x = rd_id y" using f [of x] f [of y] by (simp add: consumes_def)
      with xy shelf_distinct(1) [OF inv] show "x = y"
        by (auto simp: distinct_map dest: inj_onD)
    qed
    show "?f ` {r \<in> set (redemptions s). rd_user_id r = u \<and> spent r}
        = {e \<in> set (ledger s). le_user_id e = u \<and> le_type e = REWARD_REDEMPTION}"
    proof (intro equalityI subsetI)
      fix e assume e: "e \<in> {e \<in> set (ledger s). le_user_id e = u \<and> le_type e = REWARD_REDEMPTION}"
      then have "spends s e" using inv by (simp add: shelf_inv_def list_all_iff)
      with e obtain r where r: "r \<in> set (redemptions s)" "consumes e r" "spent r"
        by (auto simp: spends_def)
      with e have "?f r = e" "rd_user_id r = u" using row by (auto simp: consumes_def)
      with r show "e \<in> ?f ` {r \<in> set (redemptions s). rd_user_id r = u \<and> spent r}" by blast
    next
      fix e assume "e \<in> ?f ` {r \<in> set (redemptions s). rd_user_id r = u \<and> spent r}"
      then show "e \<in> {e \<in> set (ledger s). le_user_id e = u \<and> le_type e = REWARD_REDEMPTION}"
        using f by (fastforce simp: consumes_def source_triple_def)
    qed
    show "le_amount (?f r) = - rd_points r" if "r \<in> set (redemptions s)" "rd_user_id r = u \<and> spent r" for r
      using f [of r] that by (simp add: consumes_def)
  qed
  moreover have "sum_rows (\<lambda>r. rd_user_id r = u \<and> spent r) (\<lambda>r. - rd_points r) (redemptions s)
      = - sum_rows (\<lambda>r. rd_user_id r = u \<and> spent r) rd_points (redemptions s)"
    by (rule sum_rows_neg)
  ultimately show ?thesis by simp
qed

section \<open>The properties\<close>

text \<open>C10: In every reachable state of the points domain, for every user: the wallet figures are
  the ledger's sums, spendable points are that balance less the points of the pending redemptions,
  and the ledger's redemption entries sum to minus the points of the approved and fulfilled ones.\<close>

theorem points_always_reconcile:
  assumes "reachable_points s"
  shows "available_points (wallet_of s u) = balance_of (ledger s) u
    \<and> earned_points (wallet_of s u) = earned_of (ledger s) u
    \<and> get_spendable_points s u = balance_of (ledger s) u
        - sum_rows (\<lambda>r. rd_user_id r = u \<and> pending r) rd_points (redemptions s)
    \<and> sum_rows (\<lambda>e. le_user_id e = u \<and> le_type e = REWARD_REDEMPTION) le_amount (ledger s)
        = - sum_rows (\<lambda>r. rd_user_id r = u \<and> spent r) rd_points (redemptions s)"
proof -
  have "ledger_inv s" and sh: "shelf_inv s"
    using reachable_inv [OF assms] by (simp_all add: points_inv_def)
  then show ?thesis
    using spending_is_consumption [OF sh] frozen_is_pending [OF sh] spendable_shelf [OF sh]
    by (simp add: ledger_inv_def projects_def)
qed

text \<open>No operation of the points domain changes or removes a ledger row, and a redemption
  keeps its id, owner, item, price and term for ever while its status only moves along the
  lifecycle (pending to approved or rejected, approved to fulfilled).\<close>

theorem points_history_is_append_only:
  assumes "reachable_points s" "points_step s s'"
  shows "(\<exists>new. ledger s' = ledger s @ new) \<and> table_continues (redemptions s) (redemptions s')"
  using step_keeps [OF assms(2) reachable_inv [OF assms(1)]] by blast


abbreviation clean_trail :: "'a core_db_scheme \<Rightarrow> bool" where
  "clean_trail s \<equiv> list_all audit_clean (audit_logs s)"

lemma clean_audit_append [simp]: "clean_trail (audit_append a act tt ti r d b af c s) = clean_trail s"
  by (auto simp: audit_append_def audit_clean_def redact_secret_free list_all_iff)

lemma clean_enqueue [simp]: "clean_trail (enqueue_after_commit d u a r s) = clean_trail s"
  by simp

lemma step_keeps_trail:
  assumes "points_step s s'" "clean_trail s"
  shows "clean_trail s'"
  using assms
proof (induction rule: points_step.induct)
  case (step_grant s0 s eid m cid u n at ov df req s' e)
  show ?case
    by (rule grant_InrD [OF step_grant(2)]) (use step_grant(3) in \<open>auto dest: post_entry_InrD(10)\<close>)
next
  case (step_reverse eid m actor lid reason ov df req ctx s s' e)
  then show ?case
    by (auto simp: reverse_assignment_reward_def audit_reversal_def Let_def dest!: post_entry_InrD(10)
        split: option.splits if_splits sum.splits)
next
  case (step_request ct rid vid u i now db_now s s' r)
  show ?case
  proof (rule request_InrD [OF step_request(1)])
    assume "s' = (locked_or_created_wallet u s)\<lparr>redemptions := redemptions s', reservations := reservations s'\<rparr>"
    then have "audit_logs s' = audit_logs ((locked_or_created_wallet u s)
        \<lparr>redemptions := redemptions s', reservations := reservations s'\<rparr>)" by (rule arg_cong)
    then have "audit_logs s' = audit_logs s" by simp
    then show ?thesis using step_request(2) by simp
  qed
next
  case (step_approve w eid m actor rid now ctx s s' r)
  show ?case
    by (rule approve_InrD [OF step_approve(1)])
      (use step_approve(2) in \<open>auto simp: audit_decision_def dest!: decided_Inr(7) post_entry_InrD(10)\<close>)
next
  case (step_reject w actor rid reason now ctx s s' r)
  show ?case
    by (rule reject_InrD [OF step_reject(1)])
      (use step_reject(2) in \<open>auto simp: audit_decision_def dest!: decided_Inr(7)\<close>)
next
  case (step_fulfill actor rid nt now ctx s s' r)
  show ?case
    by (rule fulfill_InrD [OF step_fulfill(1)]) (use step_fulfill(2) in \<open>simp_all add: audit_decision_def\<close>)
next
  case step_create
  then show ?case
    by (auto simp: create_reward_item_def Let_def split: option.splits if_splits sum.splits)
next
  case step_update
  then show ?case
    by (auto simp: update_reward_item_def Let_def split: option.splits if_splits)
next
  case step_disable
  then show ?case
    by (auto simp: disable_reward_item_def Let_def split: option.splits if_splits)
next
  case step_delegate
  then show ?case
    by (auto simp: grant_reward_review_def Let_def split: option.splits if_splits sum.splits)
next
  case step_revoke
  then show ?case
    by (auto simp: revoke_reward_review_def split: option.splits if_splits)
next
  case (step_adjust s0 s role_of eid m actor u n reason k ctx res s')
  show ?case
    by (rule adjust_cases [OF step_adjust(2)])
      (use step_adjust(3) in \<open>auto simp: audit_adjustment_def dest!: post_entry_InrD(10)\<close>)
qed simp

text \<open>In every reachable state, no payload column of the audit trail holds the value of a
  sensitive key at any nesting depth.\<close>

theorem audit_trail_holds_no_secret:
  assumes "reachable_points s"
  shows "list_all (\<lambda>row. \<forall>j \<in> set_option (ar_details row) \<union> set_option (ar_before_snapshot row)
     \<union> set_option (ar_after_snapshot row). secret_free j) (audit_logs s)"
proof -
  have "clean_trail s"
    using assms unfolding reachable_points_def
    by (induction rule: rtranclp_induct) (auto simp: initial_points_def intro: step_keeps_trail)
  then show ?thesis by (simp add: audit_clean_def [abs_def])
qed

lemma reachable_paid_claim: "reachable_points paid_claim"
proof -
  have "grant_assignment_reward initial_points 1 0 7 5 20 (Some 1000) None None None initial_points
      = Inr (paid_claim, paid_row)"
    using paid_claim_post claim_reward_None [of 7 "ledger initial_points"]
    by (simp add: grant_assignment_reward_def resolve_dispatcher_def enqueue_after_commit_def
        initial_ledger)
  then have "points_step initial_points paid_claim"
    by (rule step_grant [rotated]) (simp add: earlier_def)
  then show ?thesis by (simp add: reachable_points_def)
qed

theorem points_always_reconcile_witness:
  "available_points (wallet_of paid_claim 5) = balance_of (ledger paid_claim) 5"
  using points_always_reconcile [OF reachable_paid_claim, of 5] by blast

theorem points_history_is_append_only_witness:
  "\<exists>new. ledger (commit paid_claim) = ledger paid_claim @ new"
  using points_history_is_append_only [OF reachable_paid_claim step_commit] by blast

theorem audit_trail_holds_no_secret_witness:
  "\<exists>row. audit_logs (snd (admin_adjust_points (\<lambda>_. Some STUDENT) paid_claim 2 0 boss 5 (- 30) (Some ''fix'') 77 None paid_claim)) = [row]
     \<and> (\<forall>j \<in> set_option (ar_after_snapshot row). secret_free j)"
proof -
  let ?r = "admin_adjust_points (\<lambda>_. Some STUDENT) paid_claim 2 0 boss 5 (- 30) (Some ''fix'') 77 None paid_claim"
  have "points_step paid_claim (snd ?r)"
    by (rule step_adjust [of paid_claim paid_claim]) (auto simp: earlier_def intro: prod.collapse [symmetric])
  with reachable_paid_claim have "reachable_points (snd ?r)"
    by (simp add: reachable_points_def)
  from audit_trail_holds_no_secret [OF this]
  have "list_all (\<lambda>row. \<forall>j \<in> set_option (ar_after_snapshot row). secret_free j) (audit_logs (snd ?r))"
    by (auto simp: list_all_iff)
  moreover have "length (audit_logs (snd ?r)) = 1" by code_simp
  ultimately show ?thesis by (auto simp: length_Suc_conv)
qed

end
