(* ===== verification/Task_Models.thy ===== *)
theory Task_Models
  imports Points_Lifecycle
begin

text \<open>
  The tables of the task and submission modules (\<open>tasks/models.py\<close>, \<open>submissions/models.py\<close>) and
  the columns of the account table that they lock, with the vocabularies of \<open>tasks/enums.py\<close>,
  \<open>submissions/enums.py\<close> and \<open>tasks/collaborator_service.py\<close>.  The state \<open>campus_db\<close> extends
  \<open>points_db\<close>.  Columns that only the database sets (\<open>created_at\<close>, \<open>updated_at\<close>, surrogate ids
  of association rows) are left out.
\<close>

section \<open>Vocabularies\<close>

datatype TaskStatus = DRAFT | PUBLISHED | PAUSED | CLOSED | ARCHIVED

datatype DeadlineMode = FIXED | RELATIVE

datatype TaskType = DATA_CRAWL

datatype TaskRarity = NORMAL | RARE | EPIC | LEGENDARY

datatype FileType = CSV | XLSX | SQLITE | DOCX | PDF

datatype RetentionPolicy = DAYS_30 | DAYS_90 | DAYS_180 | PERMANENT

datatype AssignmentAvailability = AVAILABLE | OCCUPIED | COMPLETED | RETIRED

datatype ClaimStatus =
    CLAIMED | VALIDATING | UNDER_REVIEW | REVISION_REQUIRED | COMPLETED | ABANDONED | EXPIRED

datatype RewardLockStatus = NONE | PROVISIONAL | CONFIRMED | INVALIDATED

datatype ValidationStatus = UPLOADED | VALIDATING | VALIDATED | VALIDATION_FAILED

datatype ReviewStatus = PENDING_REVIEW | UNDER_REVIEW | APPROVED | REVISION_REQUIRED

datatype ReviewAction = APPROVE | REQUIRE_REVISION | INVALIDATE_LOCK

datatype CollaboratorPermission =
    VIEW_TASK | MANAGE_ASSIGNMENTS | REVIEW_SUBMISSIONS | MODERATE_COMMUNITY

fun task_status_value :: "TaskStatus \<Rightarrow> string" where
  "task_status_value DRAFT = ''DRAFT''"
| "task_status_value PUBLISHED = ''PUBLISHED''"
| "task_status_value PAUSED = ''PAUSED''"
| "task_status_value CLOSED = ''CLOSED''"
| "task_status_value ARCHIVED = ''ARCHIVED''"

fun deadline_mode_value :: "DeadlineMode \<Rightarrow> string" where
  "deadline_mode_value FIXED = ''FIXED''"
| "deadline_mode_value RELATIVE = ''RELATIVE''"

fun task_type_value :: "TaskType \<Rightarrow> string" where
  "task_type_value DATA_CRAWL = ''DATA_CRAWL''"

fun task_rarity_value :: "TaskRarity \<Rightarrow> string" where
  "task_rarity_value NORMAL = ''NORMAL''"
| "task_rarity_value RARE = ''RARE''"
| "task_rarity_value EPIC = ''EPIC''"
| "task_rarity_value LEGENDARY = ''LEGENDARY''"

fun file_type_value :: "FileType \<Rightarrow> string" where
  "file_type_value CSV = ''CSV''"
| "file_type_value XLSX = ''XLSX''"
| "file_type_value SQLITE = ''SQLITE''"
| "file_type_value DOCX = ''DOCX''"
| "file_type_value PDF = ''PDF''"

fun retention_policy_value :: "RetentionPolicy \<Rightarrow> string" where
  "retention_policy_value DAYS_30 = ''DAYS_30''"
| "retention_policy_value DAYS_90 = ''DAYS_90''"
| "retention_policy_value DAYS_180 = ''DAYS_180''"
| "retention_policy_value PERMANENT = ''PERMANENT''"

text \<open>\<open>Enum(value)\<close>: the member with that value, or a \<open>ValueError\<close>.\<close>

definition member_with :: "('e \<Rightarrow> string) \<Rightarrow> 'e list \<Rightarrow> string \<Rightarrow> 'e option" where
  "member_with value members v = find (\<lambda>m. value m = v) members"

definition FileType_of :: "string \<Rightarrow> FileType option" where
  "FileType_of = member_with file_type_value [CSV, XLSX, SQLITE, DOCX, PDF]"

lemma FileType_of_value [simp]: "FileType_of (file_type_value t) = Some t"
  by (cases t) (simp_all add: FileType_of_def member_with_def)

lemma FileType_of_SomeD: "FileType_of v = Some t \<Longrightarrow> v = file_type_value t"
  by (auto simp: FileType_of_def member_with_def split: if_splits)

fun claim_status_value :: "ClaimStatus \<Rightarrow> string" where
  "claim_status_value CLAIMED = ''CLAIMED''"
| "claim_status_value ClaimStatus.VALIDATING = ''VALIDATING''"
| "claim_status_value ClaimStatus.UNDER_REVIEW = ''UNDER_REVIEW''"
| "claim_status_value ClaimStatus.REVISION_REQUIRED = ''REVISION_REQUIRED''"
| "claim_status_value ClaimStatus.COMPLETED = ''COMPLETED''"
| "claim_status_value ABANDONED = ''ABANDONED''"
| "claim_status_value EXPIRED = ''EXPIRED''"

fun lock_status_value :: "RewardLockStatus \<Rightarrow> string" where
  "lock_status_value NONE = ''NONE''"
| "lock_status_value PROVISIONAL = ''PROVISIONAL''"
| "lock_status_value CONFIRMED = ''CONFIRMED''"
| "lock_status_value INVALIDATED = ''INVALIDATED''"

fun validation_status_value :: "ValidationStatus \<Rightarrow> string" where
  "validation_status_value UPLOADED = ''UPLOADED''"
| "validation_status_value ValidationStatus.VALIDATING = ''VALIDATING''"
| "validation_status_value VALIDATED = ''VALIDATED''"
| "validation_status_value VALIDATION_FAILED = ''VALIDATION_FAILED''"

fun review_status_value :: "ReviewStatus \<Rightarrow> string" where
  "review_status_value PENDING_REVIEW = ''PENDING_REVIEW''"
| "review_status_value ReviewStatus.UNDER_REVIEW = ''UNDER_REVIEW''"
| "review_status_value ReviewStatus.APPROVED = ''APPROVED''"
| "review_status_value ReviewStatus.REVISION_REQUIRED = ''REVISION_REQUIRED''"

section \<open>Rows\<close>

text \<open>A Python \<open>datetime\<close>: an aware one is its UTC instant, a naive one has none.\<close>

datatype datetime = Aware instant | Naive int

record user_row =
  us_id :: uuid
  us_status :: UserStatus
  us_role :: Role

record task =
  tk_id :: uuid
  tk_owner_teacher_id :: uuid
  tk_title :: string
  tk_description :: string
  tk_task_type :: TaskType
  tk_rarity :: TaskRarity
  tk_base_reward_points :: int
  tk_status :: TaskStatus
  tk_deadline_mode :: string
  tk_fixed_deadline_at :: "datetime option"
  tk_duration_minutes :: "int option"
  tk_grace_period_minutes :: "int option"
  tk_claim_cutoff_minutes :: "int option"
  tk_submission_schema :: "json option"
  tk_submission_schema_version :: "int option"
  tk_allowed_file_types :: "string list"
  tk_max_file_size_bytes :: int
  tk_notify_24h :: bool
  tk_notify_4h :: bool
  tk_notification_channels :: "string list"
  tk_retention_policy :: string
  tk_published_at :: "instant option"
  tk_closed_at :: "instant option"

record platform =
  pf_code :: string
  pf_display_name :: string
  pf_sort_order :: int
  pf_enabled :: bool

record collaborator =
  co_task_id :: uuid
  co_teacher_id :: uuid
  co_permissions :: "CollaboratorPermission list"

record assignment =
  as_id :: uuid
  as_task_id :: uuid
  as_platform :: string
  as_keyword :: string
  as_payload :: "json option"
  as_availability_status :: AssignmentAvailability

record claim =
  cl_id :: uuid
  cl_assignment_id :: uuid
  cl_task_id :: uuid
  cl_user_id :: uuid
  cl_status :: ClaimStatus
  cl_claimed_at :: instant
  cl_deadline_at :: instant
  cl_grace_deadline_at :: instant
  cl_reward_policy_snapshot :: json
  cl_base_reward_points_snapshot :: int
  cl_submission_schema_version :: "int option"
  cl_reward_lock_status :: RewardLockStatus
  cl_reward_tier_locked :: "int option"
  cl_reward_locked_at :: "instant option"
  cl_locked_reward_points :: "int option"
  cl_latest_submission_id :: "uuid option"
  cl_revision_deadline_at :: "instant option"
  cl_terminal_at :: "instant option"

record submission =
  sb_id :: uuid
  sb_claim_id :: uuid
  sb_version :: int
  sb_object_key :: string
  sb_original_filename :: string
  sb_declared_type :: FileType
  sb_detected_type :: "FileType option"
  sb_file_size :: int
  sb_submitted_at :: instant
  sb_validation_status :: ValidationStatus
  sb_review_status :: ReviewStatus
  sb_validation_report :: "json option"
  sb_reviewer_id :: "uuid option"
  sb_reviewed_at :: "instant option"
  sb_review_note :: "string option"
  sb_retention_until :: "instant option"
  sb_retention_permanent :: bool
  sb_legal_hold :: bool
  sb_deleted_at :: "instant option"
  sb_cleanup_claimed_at :: "instant option"
  sb_cleanup_lease_expires_at :: "instant option"
  sb_cleanup_claim_token :: "uuid option"

record upload_intent =
  ui_id :: uuid
  ui_claim_id :: uuid
  ui_object_key :: string
  ui_filename :: string
  ui_declared_type :: FileType
  ui_declared_size :: int
  ui_expires_at :: instant
  ui_consumed_at :: "instant option"
  ui_finalized_submission_id :: "uuid option"
  ui_cleanup_claimed_at :: "instant option"
  ui_cleanup_lease_expires_at :: "instant option"
  ui_cleanup_claim_token :: "uuid option"
  ui_cleanup_deleted_at :: "instant option"

record submission_validation =
  sv_id :: uuid
  sv_submission_id :: uuid
  sv_report :: "json option"
  sv_parser_version :: string
  sv_started_at :: instant
  sv_finished_at :: "instant option"
  sv_duration_ms :: "int option"
  sv_status :: ValidationStatus

text \<open>Why a lock changed: the service's fixed texts, or the reviewer's own.\<close>

datatype lock_reason =
    FirstLock | Relock | RelockClamped | ConfirmLock | ReviewerReason string

record reward_lock_history =
  lh_claim_id :: uuid
  lh_submission_id :: "uuid option"
  lh_lock_status_from :: "RewardLockStatus option"
  lh_lock_status_to :: RewardLockStatus
  lh_reward_tier_locked :: "int option"
  lh_locked_reward_points :: "int option"
  lh_changed_by :: "uuid option"
  lh_reason :: "lock_reason option"

record submission_review =
  sr_id :: uuid
  sr_submission_id :: uuid
  sr_reviewer_id :: uuid
  sr_action :: ReviewAction
  sr_note :: "string option"

text \<open>\<open>validation_jobs\<close> is what was handed to the validation pipeline, in publish order.\<close>

record campus_db = points_db +
  users :: "user_row list"
  tasks :: "task list"
  collaborators :: "collaborator list"
  assignments :: "assignment list"
  claims :: "claim list"
  submissions :: "submission list"
  lock_history :: "reward_lock_history list"
  submission_reviews :: "submission_review list"
  upload_intents :: "upload_intent list"
  submission_validations :: "submission_validation list"
  platforms :: "platform list"
  validation_jobs :: "(uuid \<times> string) list"

definition initial_campus :: campus_db where
  "initial_campus = points_db.extend initial_points
     \<lparr>users = [], tasks = [], collaborators = [], assignments = [], claims = [],
      submissions = [], lock_history = [], submission_reviews = [], upload_intents = [],
      submission_validations = [], platforms = [], validation_jobs = []\<rparr>"

section \<open>Claim statuses and constraints\<close>

definition ACTIVE_CLAIM_STATUSES :: "ClaimStatus list" where
  "ACTIVE_CLAIM_STATUSES =
     [CLAIMED, ClaimStatus.VALIDATING, ClaimStatus.UNDER_REVIEW, ClaimStatus.REVISION_REQUIRED]"

definition active_claim :: "claim \<Rightarrow> bool" where
  "active_claim c \<longleftrightarrow> cl_status c \<in> set ACTIVE_CLAIM_STATUSES"

datatype claim_constraint =
    Pk_assignment_claims | Ck_locked_reward_points | Uq_active_assignment | Uq_active_user_task

definition insert_claim :: "claim \<Rightarrow> claim list \<Rightarrow> claim_constraint + claim list" where
  "insert_claim c t =
     (if (case cl_locked_reward_points c of None \<Rightarrow> False | Some n \<Rightarrow> n < 0)
      then Inl Ck_locked_reward_points
      else if cl_id c \<in> cl_id ` set t then Inl Pk_assignment_claims
      else if active_claim c \<and> list_ex (\<lambda>d. active_claim d
                \<and> cl_assignment_id d = cl_assignment_id c) t
      then Inl Uq_active_assignment
      else if active_claim c \<and> list_ex (\<lambda>d. active_claim d
                \<and> cl_user_id d = cl_user_id c \<and> cl_task_id d = cl_task_id c) t
      then Inl Uq_active_user_task
      else Inr (t @ [c]))"

definition put_claim :: "claim \<Rightarrow> 'a campus_db_scheme \<Rightarrow> 'a campus_db_scheme" where
  "put_claim c s = s\<lparr>claims := update_row cl_id (cl_id c) (\<lambda>_. c) (claims s)\<rparr>"

definition put_submission :: "submission \<Rightarrow> 'a campus_db_scheme \<Rightarrow> 'a campus_db_scheme" where
  "put_submission b s = s\<lparr>submissions := update_row sb_id (sb_id b) (\<lambda>_. b) (submissions s)\<rparr>"

definition put_assignment :: "assignment \<Rightarrow> 'a campus_db_scheme \<Rightarrow> 'a campus_db_scheme" where
  "put_assignment a s = s\<lparr>assignments := update_row as_id (as_id a) (\<lambda>_. a) (assignments s)\<rparr>"

text \<open>The release that abandon and expiry share: only an OCCUPIED row becomes available again.\<close>

definition release_assignment :: "uuid \<Rightarrow> 'a campus_db_scheme \<Rightarrow> 'a campus_db_scheme" where
  "release_assignment aid s = (case row_of as_id aid (assignments s) of
       None \<Rightarrow> s
     | Some a \<Rightarrow> (if as_availability_status a = OCCUPIED
                  then put_assignment (a\<lparr>as_availability_status := AVAILABLE\<rparr>) s else s))"

lemma active_iff: "active_claim c \<longleftrightarrow>
    cl_status c = CLAIMED \<or> cl_status c = ClaimStatus.VALIDATING
    \<or> cl_status c = ClaimStatus.UNDER_REVIEW \<or> cl_status c = ClaimStatus.REVISION_REQUIRED"
  by (auto simp: active_claim_def ACTIVE_CLAIM_STATUSES_def)

section \<open>Frames\<close>

text \<open>Writes to one table leave the others alone.\<close>

lemma put_claim_frame [simp]:
  "audit_logs (put_claim c s) = audit_logs s"
  "domain_events (put_claim c s) = domain_events s"
  "notifications (put_claim c s) = notifications s"
  "armed_jobs (put_claim c s) = armed_jobs s"
  "ranking_jobs (put_claim c s) = ranking_jobs s"
  "ledger (put_claim c s) = ledger s"
  "wallets (put_claim c s) = wallets s"
  "reward_items (put_claim c s) = reward_items s"
  "redemptions (put_claim c s) = redemptions s"
  "reservations (put_claim c s) = reservations s"
  "review_grants (put_claim c s) = review_grants s"
  "users (put_claim c s) = users s"
  "tasks (put_claim c s) = tasks s"
  "collaborators (put_claim c s) = collaborators s"
  "assignments (put_claim c s) = assignments s"
  "submissions (put_claim c s) = submissions s"
  "lock_history (put_claim c s) = lock_history s"
  "submission_reviews (put_claim c s) = submission_reviews s"
  "upload_intents (put_claim c s) = upload_intents s"
  "submission_validations (put_claim c s) = submission_validations s"
  "platforms (put_claim c s) = platforms s"
  "validation_jobs (put_claim c s) = validation_jobs s"
  by (simp_all add: put_claim_def)

lemma put_submission_frame [simp]:
  "audit_logs (put_submission b s) = audit_logs s"
  "domain_events (put_submission b s) = domain_events s"
  "notifications (put_submission b s) = notifications s"
  "armed_jobs (put_submission b s) = armed_jobs s"
  "ranking_jobs (put_submission b s) = ranking_jobs s"
  "ledger (put_submission b s) = ledger s"
  "wallets (put_submission b s) = wallets s"
  "reward_items (put_submission b s) = reward_items s"
  "redemptions (put_submission b s) = redemptions s"
  "reservations (put_submission b s) = reservations s"
  "review_grants (put_submission b s) = review_grants s"
  "users (put_submission b s) = users s"
  "tasks (put_submission b s) = tasks s"
  "collaborators (put_submission b s) = collaborators s"
  "assignments (put_submission b s) = assignments s"
  "claims (put_submission b s) = claims s"
  "lock_history (put_submission b s) = lock_history s"
  "submission_reviews (put_submission b s) = submission_reviews s"
  "upload_intents (put_submission b s) = upload_intents s"
  "submission_validations (put_submission b s) = submission_validations s"
  "platforms (put_submission b s) = platforms s"
  "validation_jobs (put_submission b s) = validation_jobs s"
  by (simp_all add: put_submission_def)

lemma put_assignment_frame [simp]:
  "audit_logs (put_assignment a s) = audit_logs s"
  "domain_events (put_assignment a s) = domain_events s"
  "notifications (put_assignment a s) = notifications s"
  "armed_jobs (put_assignment a s) = armed_jobs s"
  "ranking_jobs (put_assignment a s) = ranking_jobs s"
  "ledger (put_assignment a s) = ledger s"
  "wallets (put_assignment a s) = wallets s"
  "reward_items (put_assignment a s) = reward_items s"
  "redemptions (put_assignment a s) = redemptions s"
  "reservations (put_assignment a s) = reservations s"
  "review_grants (put_assignment a s) = review_grants s"
  "users (put_assignment a s) = users s"
  "tasks (put_assignment a s) = tasks s"
  "collaborators (put_assignment a s) = collaborators s"
  "claims (put_assignment a s) = claims s"
  "submissions (put_assignment a s) = submissions s"
  "lock_history (put_assignment a s) = lock_history s"
  "submission_reviews (put_assignment a s) = submission_reviews s"
  "upload_intents (put_assignment a s) = upload_intents s"
  "submission_validations (put_assignment a s) = submission_validations s"
  "platforms (put_assignment a s) = platforms s"
  "validation_jobs (put_assignment a s) = validation_jobs s"
  by (simp_all add: put_assignment_def)

lemma release_assignment_frame [simp]:
  "audit_logs (release_assignment i s) = audit_logs s"
  "domain_events (release_assignment i s) = domain_events s"
  "notifications (release_assignment i s) = notifications s"
  "armed_jobs (release_assignment i s) = armed_jobs s"
  "ranking_jobs (release_assignment i s) = ranking_jobs s"
  "ledger (release_assignment i s) = ledger s"
  "wallets (release_assignment i s) = wallets s"
  "reward_items (release_assignment i s) = reward_items s"
  "redemptions (release_assignment i s) = redemptions s"
  "reservations (release_assignment i s) = reservations s"
  "review_grants (release_assignment i s) = review_grants s"
  "users (release_assignment i s) = users s"
  "tasks (release_assignment i s) = tasks s"
  "collaborators (release_assignment i s) = collaborators s"
  "claims (release_assignment i s) = claims s"
  "submissions (release_assignment i s) = submissions s"
  "lock_history (release_assignment i s) = lock_history s"
  "submission_reviews (release_assignment i s) = submission_reviews s"
  "upload_intents (release_assignment i s) = upload_intents s"
  "submission_validations (release_assignment i s) = submission_validations s"
  "platforms (release_assignment i s) = platforms s"
  "validation_jobs (release_assignment i s) = validation_jobs s"
  by (simp_all add: release_assignment_def split: option.splits)

lemma audit_append_campus [simp]:
  "users (audit_append a act tt ti r d b af c s) = users s"
  "tasks (audit_append a act tt ti r d b af c s) = tasks s"
  "collaborators (audit_append a act tt ti r d b af c s) = collaborators s"
  "assignments (audit_append a act tt ti r d b af c s) = assignments s"
  "claims (audit_append a act tt ti r d b af c s) = claims s"
  "submissions (audit_append a act tt ti r d b af c s) = submissions s"
  "lock_history (audit_append a act tt ti r d b af c s) = lock_history s"
  "submission_reviews (audit_append a act tt ti r d b af c s) = submission_reviews s"
  "upload_intents (audit_append a act tt ti r d b af c s) = upload_intents s"
  "submission_validations (audit_append a act tt ti r d b af c s) = submission_validations s"
  "platforms (audit_append a act tt ti r d b af c s) = platforms s"
  "validation_jobs (audit_append a act tt ti r d b af c s) = validation_jobs s"
  by (simp_all add: audit_append_def)

lemma publish_event_campus [simp]:
  "users (publish_event e s) = users s"
  "tasks (publish_event e s) = tasks s"
  "collaborators (publish_event e s) = collaborators s"
  "assignments (publish_event e s) = assignments s"
  "claims (publish_event e s) = claims s"
  "submissions (publish_event e s) = submissions s"
  "lock_history (publish_event e s) = lock_history s"
  "submission_reviews (publish_event e s) = submission_reviews s"
  "upload_intents (publish_event e s) = upload_intents s"
  "submission_validations (publish_event e s) = submission_validations s"
  "platforms (publish_event e s) = platforms s"
  "validation_jobs (publish_event e s) = validation_jobs s"
  by (simp_all add: publish_event_def)

lemma record_event_campus [simp]:
  "users (record_event w n s) = users s"
  "tasks (record_event w n s) = tasks s"
  "collaborators (record_event w n s) = collaborators s"
  "assignments (record_event w n s) = assignments s"
  "claims (record_event w n s) = claims s"
  "submissions (record_event w n s) = submissions s"
  "lock_history (record_event w n s) = lock_history s"
  "submission_reviews (record_event w n s) = submission_reviews s"
  "upload_intents (record_event w n s) = upload_intents s"
  "submission_validations (record_event w n s) = submission_validations s"
  "platforms (record_event w n s) = platforms s"
  "validation_jobs (record_event w n s) = validation_jobs s"
  by (simp_all add: record_event_def)

lemma claims_put_claim: "claims (put_claim c s) = update_row cl_id (cl_id c) (\<lambda>_. c) (claims s)"
  by (simp add: put_claim_def)

lemma submissions_put_submission:
  "submissions (put_submission b s) = update_row sb_id (sb_id b) (\<lambda>_. b) (submissions s)"
  by (simp add: put_submission_def)

lemma assignments_put_assignment:
  "assignments (put_assignment a s) = update_row as_id (as_id a) (\<lambda>_. a) (assignments s)"
  by (simp add: put_assignment_def)

lemma row_of_put_claim: "row_of cl_id k (claims (put_claim c s)) =
    (if k = cl_id c then map_option (\<lambda>_. c) (row_of cl_id k (claims s))
     else row_of cl_id k (claims s))"
  by (simp add: claims_put_claim row_of_update_row)

lemma row_of_put_assignment: "row_of as_id k (assignments (put_assignment a s)) =
    (if k = as_id a then map_option (\<lambda>_. a) (row_of as_id k (assignments s))
     else row_of as_id k (assignments s))"
  by (simp add: assignments_put_assignment row_of_update_row)

lemma row_of_put_submission: "row_of sb_id k (submissions (put_submission b s)) =
    (if k = sb_id b then map_option (\<lambda>_. b) (row_of sb_id k (submissions s))
     else row_of sb_id k (submissions s))"
  by (simp add: submissions_put_submission row_of_update_row)

lemmas put_rows = row_of_put_claim row_of_put_assignment row_of_put_submission

text \<open>What a release does to the one assignment it names.\<close>

definition released :: "assignment \<Rightarrow> assignment" where
  "released a = (if as_availability_status a = OCCUPIED
     then a\<lparr>as_availability_status := AVAILABLE\<rparr> else a)"

lemma released_simps [simp]: "as_id (released a) = as_id a" "as_task_id (released a) = as_task_id a"
  by (simp_all add: released_def)

lemma row_of_release: "row_of as_id k (assignments (release_assignment i s)) =
    (if k = i then map_option released (row_of as_id k (assignments s))
     else row_of as_id k (assignments s))"
proof (cases "row_of as_id i (assignments s)")
  case (Some a)
  then have "as_id a = i" using row_of_SomeD by fastforce
  with Some show ?thesis
    by (auto simp: release_assignment_def row_of_put_assignment released_def)
qed (auto simp: release_assignment_def)

lemma ids_release: "map as_id (assignments (release_assignment i s)) = map as_id (assignments s)"
  by (auto simp: release_assignment_def assignments_put_assignment keys_update_row
      split: option.splits)

end
