(* ===== verification/Deadlines.thy ===== *)
theory Deadlines
  imports Task_Models
begin

text \<open>
  The deadline and reward-tier calculator (\<open>tasks/deadlines.py\<close>).  A \<open>Decimal\<close> is a coefficient
  and a number of decimal places; the dynamically typed arguments of \<open>reward_points\<close> are the
  values \<open>pynum\<close>.  Python's overflow of instants beyond the year 9999 and the 28-digit context
  precision (base points are 32-bit columns) are not modelled.
\<close>

datatype decimal = Decimal int nat

datatype pynum = PyInt int | PyBool bool | PyDecimal decimal | PyFloat nat

datatype deadline_error =
    ValueErr string
  | TypeErr string
  | WindowClosed instant instant

fun deadline_envelope :: "deadline_error \<Rightarrow> business_error option" where
  "deadline_envelope (WindowClosed submitted grace) =
     Some (Business SUBMISSION_WINDOW_CLOSED 400
       [(''submitted_at'', JTime submitted), (''grace_deadline_at'', JTime grace)])"
| "deadline_envelope (ValueErr f) = None"
| "deadline_envelope (TypeErr f) = None"

definition FRACTION_FULL :: decimal where "FRACTION_FULL = Decimal 1 0"
definition FRACTION_EARLY :: decimal where "FRACTION_EARLY = Decimal 8 1"
definition FRACTION_MID :: decimal where "FRACTION_MID = Decimal 5 1"
definition FRACTION_LATE :: decimal where "FRACTION_LATE = Decimal 2 1"

lemmas fractions = FRACTION_FULL_def FRACTION_EARLY_def FRACTION_MID_def FRACTION_LATE_def

definition EARLY_TIER_WIDTH :: int where "EARLY_TIER_WIDTH = hours 4"
definition MID_TIER_WIDTH :: int where "MID_TIER_WIDTH = hours 12"

definition GRACE_PERIOD_DEFAULT_MINUTES :: int where "GRACE_PERIOD_DEFAULT_MINUTES = 1440"

record ClaimDeadlines =
  cd_deadline_at :: instant
  cd_grace_deadline_at :: instant

definition require_aware :: "datetime \<Rightarrow> string \<Rightarrow> deadline_error + instant" where
  "require_aware v name = (case v of Aware t \<Rightarrow> Inr t | Naive t \<Rightarrow> Inl (ValueErr name))"

text \<open>The deadline of a mode, before the grace width is added.\<close>

definition base_deadline :: "task \<Rightarrow> instant \<Rightarrow> deadline_error + instant" where
  "base_deadline task claimed_at =
     (if tk_deadline_mode task = deadline_mode_value FIXED
      then (case tk_fixed_deadline_at task of None \<Rightarrow> Inl (ValueErr ''fixed_deadline_at'')
            | Some d \<Rightarrow> require_aware d ''fixed_deadline_at'')
      else if tk_deadline_mode task = deadline_mode_value RELATIVE
      then (case tk_duration_minutes task of None \<Rightarrow> Inl (ValueErr ''duration_minutes'')
            | Some n \<Rightarrow> (if n \<le> 0 then Inl (ValueErr ''duration_minutes'')
                         else Inr (claimed_at + minutes n)))
      else Inl (ValueErr ''deadline_mode''))"

definition compute_claim_deadlines :: "task \<Rightarrow> datetime \<Rightarrow> deadline_error + ClaimDeadlines" where
  "compute_claim_deadlines task claimed_at =
     (case require_aware claimed_at ''claimed_at'' of Inl e \<Rightarrow> Inl e | Inr now \<Rightarrow>
      case base_deadline task now of Inl e \<Rightarrow> Inl e | Inr deadline_at \<Rightarrow>
      let grace_minutes = (case tk_grace_period_minutes task of
            None \<Rightarrow> GRACE_PERIOD_DEFAULT_MINUTES | Some g \<Rightarrow> g)
      in if grace_minutes \<le> 0 then Inl (ValueErr ''grace_period_minutes'')
         else Inr \<lparr>cd_deadline_at = deadline_at,
                   cd_grace_deadline_at = deadline_at + minutes grace_minutes\<rparr>)"

definition reward_fraction :: "datetime \<Rightarrow> datetime \<Rightarrow> datetime \<Rightarrow> deadline_error + decimal" where
  "reward_fraction submitted deadline grace =
     (case require_aware submitted ''submitted_at'' of Inl e \<Rightarrow> Inl e | Inr submitted_at \<Rightarrow>
      case require_aware deadline ''deadline_at'' of Inl e \<Rightarrow> Inl e | Inr deadline_at \<Rightarrow>
      case require_aware grace ''grace_deadline_at'' of Inl e \<Rightarrow> Inl e | Inr grace_deadline_at \<Rightarrow>
      if grace_deadline_at \<le> submitted_at then Inl (WindowClosed submitted_at grace_deadline_at)
      else if submitted_at \<le> deadline_at then Inr FRACTION_FULL
      else if submitted_at < deadline_at + EARLY_TIER_WIDTH then Inr FRACTION_EARLY
      else if submitted_at < deadline_at + MID_TIER_WIDTH then Inr FRACTION_MID
      else Inr FRACTION_LATE)"

text \<open>\<open>base * c / 10 ^ p\<close> rounded towards minus infinity, which is \<open>div\<close> on the integers.\<close>

fun floor_times :: "int \<Rightarrow> decimal \<Rightarrow> int" where
  "floor_times base (Decimal c p) = (base * c) div 10 ^ p"

fun reward_points :: "pynum \<Rightarrow> pynum \<Rightarrow> deadline_error + int" where
  "reward_points (PyInt base) (PyDecimal f) = Inr (floor_times base f)"
| "reward_points (PyInt base) f = Inl (TypeErr ''fraction'')"
| "reward_points b f = Inl (TypeErr ''base_points'')"

section \<open>The tier ladder\<close>

text \<open>The ladder as integer percentages of the base points, for comparison with the decimals.\<close>

definition tier_percent :: "instant \<Rightarrow> instant \<Rightarrow> int" where
  "tier_percent submitted deadline =
     (if submitted \<le> deadline then 100
      else if submitted < deadline + hours 4 then 80
      else if submitted < deadline + hours 12 then 50 else 20)"

definition points_at :: "int \<Rightarrow> instant \<Rightarrow> instant \<Rightarrow> instant \<Rightarrow> deadline_error + int" where
  "points_at base submitted deadline grace =
     (case reward_fraction (Aware submitted) (Aware deadline) (Aware grace) of
        Inl e \<Rightarrow> Inl e | Inr f \<Rightarrow> reward_points (PyInt base) (PyDecimal f))"

lemma hours_values: "hours 4 = 14400000000" "hours 12 = 43200000000"
  by (simp_all add: hours_def minutes_def)

lemma tier_percent_range: "0 \<le> tier_percent t d \<and> tier_percent t d \<le> 100"
  by (simp add: tier_percent_def)

lemma tier_percent_antimono: "t \<le> u \<Longrightarrow> tier_percent u d \<le> tier_percent t d"
  by (simp add: tier_percent_def hours_values)

lemma points_at_eq: "points_at base t d g =
    (if g \<le> t then Inl (WindowClosed t g) else Inr (base * tier_percent t d div 100))"
  by (simp add: points_at_def reward_fraction_def require_aware_def fractions tier_percent_def
      EARLY_TIER_WIDTH_def MID_TIER_WIDTH_def)

lemma reward_fraction_aware: "reward_fraction (Aware t) (Aware d) (Aware g) =
    (if g \<le> t then Inl (WindowClosed t g)
     else Inr (if t \<le> d then FRACTION_FULL else if t < d + hours 4 then FRACTION_EARLY
               else if t < d + hours 12 then FRACTION_MID else FRACTION_LATE))"
  by (simp add: reward_fraction_def require_aware_def EARLY_TIER_WIDTH_def MID_TIER_WIDTH_def)

lemma percent_bounds:
  assumes "0 \<le> (b :: int)" "0 \<le> p" "p \<le> 100"
  shows "0 \<le> b * p div 100 \<and> b * p div 100 \<le> b"
proof -
  have "b * p \<le> b * 100" using assms by (intro mult_left_mono) auto
  then have "b * p div 100 \<le> b * 100 div 100" by (rule zdiv_mono1) simp
  with assms show ?thesis by (simp add: pos_imp_zdiv_nonneg_iff)
qed

lemma percent_mono: "0 \<le> (b :: int) \<Longrightarrow> p \<le> q \<Longrightarrow> b * p div 100 \<le> b * q div 100"
  by (intro zdiv_mono1 mult_left_mono) auto

lemma claim_deadlines_iff:
  "compute_claim_deadlines task (Aware now) = Inr dl \<longleftrightarrow>
     (\<exists>d. base_deadline task now = Inr d
        \<and> 0 < (case tk_grace_period_minutes task of None \<Rightarrow> 1440 | Some g \<Rightarrow> g)
        \<and> dl = \<lparr>cd_deadline_at = d, cd_grace_deadline_at = d + minutes
             (case tk_grace_period_minutes task of None \<Rightarrow> 1440 | Some g \<Rightarrow> g)\<rparr>)"
  by (auto simp: compute_claim_deadlines_def require_aware_def Let_def
      GRACE_PERIOD_DEFAULT_MINUTES_def split: sum.splits option.splits)

section \<open>Properties\<close>

text \<open>\<open>reward_fraction\<close> followed by \<open>reward_points\<close> closes the window exactly from the grace
  deadline on; before it the payout is the base times 100, 80, 50 or 20 percent, divided by 100
  with the remainder dropped, with the edges at the deadline, +4h and +12h where the tier table
  puts them: the exact decimals never lose or gain a point against integer arithmetic.\<close>

theorem tier_payout_is_floored_percentage:
  "points_at base t d g =
     (if t < g then Inr (base * (if t \<le> d then 100 else if t - d < hours 4 then 80
                                 else if t - d < hours 12 then 50 else 20) div 100)
      else Inl (WindowClosed t g))"
  by (auto simp: points_at_eq tier_percent_def)

text \<open>Submitting later never pays more: if the later of two instants is still inside the
  window, so is the earlier one, and the payouts are ordered the other way round, both between
  zero and the base points.\<close>

theorem later_submission_never_pays_more:
  assumes "0 \<le> base" "t \<le> u" "points_at base u d g = Inr late"
  shows "\<exists>early. points_at base t d g = Inr early \<and> 0 \<le> late \<and> late \<le> early \<and> early \<le> base"
proof -
  have "t < g" and late: "late = base * tier_percent u d div 100"
    using assms by (auto simp: points_at_eq split: if_splits)
  then have "points_at base t d g = Inr (base * tier_percent t d div 100)"
    by (simp add: points_at_eq)
  moreover have "late \<le> base * tier_percent t d div 100"
    using percent_mono [OF assms(1) tier_percent_antimono [OF assms(2)]] late by simp
  moreover have "0 \<le> late \<and> base * tier_percent t d div 100 \<le> base"
    unfolding late
    using percent_bounds [OF assms(1), of "tier_percent u d"]
      percent_bounds [OF assms(1), of "tier_percent t d"] by (simp add: tier_percent_range)
  ultimately show ?thesis by blast
qed

theorem later_submission_never_pays_more_witness:
  "\<exists>early. points_at 101 (hours 100) (hours 100) (hours 124) = Inr early
     \<and> 0 \<le> (50 :: int) \<and> 50 \<le> early \<and> early \<le> 101"
proof (rule later_submission_never_pays_more)
  show "points_at 101 (hours 104) (hours 100) (hours 124) = Inr 50"
    by (simp add: points_at_eq tier_percent_def hours_def minutes_def)
qed (simp_all add: hours_def minutes_def)

text \<open>For a claim whose task carries the persisted grace width of 1440 minutes every tier is
  reachable before the window closes: the offsets 0, 1 microsecond, 4 and 12 hours past the
  computed deadline pay 100, 80, 50 and 20 percent, and the window closes exactly 24 hours past
  it.\<close>

theorem claim_window_offers_every_tier:
  assumes "compute_claim_deadlines task (Aware now) = Inr dl"
    and "tk_grace_period_minutes task = Some 1440"
  shows "map (\<lambda>off. points_at base (cd_deadline_at dl + off) (cd_deadline_at dl)
            (cd_grace_deadline_at dl)) [0, 1, hours 4, hours 12]
         = [Inr base, Inr (base * 80 div 100), Inr (base * 50 div 100), Inr (base * 20 div 100)]
       \<and> (\<forall>t. isl (points_at base t (cd_deadline_at dl) (cd_grace_deadline_at dl))
              = (cd_deadline_at dl + hours 24 \<le> t))"
proof -
  obtain d where "dl = \<lparr>cd_deadline_at = d, cd_grace_deadline_at = d + hours 24\<rparr>"
    using assms by (auto simp: claim_deadlines_iff hours_def)
  then show ?thesis
    by (simp add: points_at_eq tier_percent_def hours_def minutes_def)
qed

definition demo_task :: task where
  "demo_task = \<lparr>tk_id = 1, tk_owner_teacher_id = 50, tk_title = ''Survey'',
     tk_description = ''Count posts'', tk_task_type = DATA_CRAWL, tk_rarity = NORMAL,
     tk_base_reward_points = 101, tk_status = PUBLISHED, tk_deadline_mode = ''RELATIVE'',
     tk_fixed_deadline_at = None, tk_duration_minutes = Some 60,
     tk_grace_period_minutes = Some 1440, tk_claim_cutoff_minutes = Some 240,
     tk_submission_schema = None, tk_submission_schema_version = Some 1,
     tk_allowed_file_types = [''CSV''], tk_max_file_size_bytes = 1000, tk_notify_24h = True,
     tk_notify_4h = True, tk_notification_channels = [''IN_APP''], tk_retention_policy = ''DAYS_180'',
     tk_published_at = Some 0, tk_closed_at = None\<rparr>"

theorem claim_window_offers_every_tier_witness:
  "map (\<lambda>off. points_at 101 (hours 1 + off) (hours 1) (hours 25)) [0, 1, hours 4, hours 12]
         = [Inr 101, Inr 80, Inr 50, Inr 20]"
proof -
  have "compute_claim_deadlines demo_task (Aware 0)
      = Inr \<lparr>cd_deadline_at = hours 1, cd_grace_deadline_at = hours 25\<rparr>"
    by (simp add: claim_deadlines_iff base_deadline_def demo_task_def hours_def minutes_def)
  then show ?thesis
    using claim_window_offers_every_tier [of demo_task 0
      "\<lparr>cd_deadline_at = hours 1, cd_grace_deadline_at = hours 25\<rparr>" 101]
    by (simp add: demo_task_def)
qed

end
