(* ===== verification/Claims.thy ===== *)
theory Claims
  imports Deadlines
begin

text \<open>
  Random claiming and claim expiry (\<open>tasks/claim_service.py\<close>) with the expiry worker's discovery
  query and its submission inspector (\<open>workers/jobs/expire_claims.py\<close>).  What the database draws
  is an argument: the id of the new row, the clock's instant after the locks are held, the sort
  keys of \<open>ORDER BY random()\<close> and the candidate rows that other transactions hold locked
  (\<open>SKIP LOCKED\<close>).  Every definition is one whole transaction on the locked rows.
\<close>

section \<open>Frozen value sets\<close>

definition MAX_ACTIVE_CLAIMS :: int where "MAX_ACTIVE_CLAIMS = 3"

definition QUOTA_OCCUPYING_STATUSES :: "ClaimStatus list" where
  "QUOTA_OCCUPYING_STATUSES = [CLAIMED, ClaimStatus.REVISION_REQUIRED]"

definition REASSIGN_EXCLUDED_STATUSES :: "ClaimStatus list" where
  "REASSIGN_EXCLUDED_STATUSES = [ABANDONED, EXPIRED]"

definition TERMINAL_CLAIM_STATUSES :: "ClaimStatus list" where
  "TERMINAL_CLAIM_STATUSES = [ClaimStatus.COMPLETED, ABANDONED, EXPIRED]"

definition EXPIRY_ACTIONABLE_STATUSES :: "ClaimStatus list" where
  "EXPIRY_ACTIONABLE_STATUSES = [CLAIMED, ClaimStatus.REVISION_REQUIRED]"

definition CLAIM_EXPIRED :: string where "CLAIM_EXPIRED = ''CLAIM_EXPIRED''"

definition REWARD_POLICY_SNAPSHOT_V1 :: json where
  "REWARD_POLICY_SNAPSHOT_V1 = dict
     [(''version'', JInt 1),
      (''ladder_fractions'', JList [JStr ''1'', JStr ''0.8'', JStr ''0.5'', JStr ''0.2'']),
      (''ladder_boundaries_hours'', JList [JInt 0, JInt 4, JInt 12])]"

section \<open>Errors\<close>

datatype claim_error =
    UserNotFound uuid
  | AccountNotActive uuid
  | ClaimerNotStudent uuid Role
  | TaskNotFound uuid
  | TaskNotClaimable TaskStatus string
  | ClaimCutoffReached instant int
  | AssignmentLimitReached int
  | ActiveClaimExists uuid
  | NoAssignmentAvailable uuid
  | UnknownDeadlineMode
  | DeadlineFailure deadline_error
  | ClaimIntegrity claim_constraint

fun claim_envelope :: "claim_error \<Rightarrow> business_error option" where
  "claim_envelope (UserNotFound u) = Some (Business NOT_FOUND 404 [(''user_id'', JUuid u)])"
| "claim_envelope (AccountNotActive u) =
     Some (Business ACCOUNT_NOT_ACTIVE 403 [(''user_id'', JUuid u)])"
| "claim_envelope (ClaimerNotStudent u r) = Some (Business PERMISSION_DENIED 403
     [(''user_id'', JUuid u), (''role'', JStr (role_value r))])"
| "claim_envelope (TaskNotFound t) = Some (Business NOT_FOUND 404 [(''task_id'', JUuid t)])"
| "claim_envelope (TaskNotClaimable st reason) = Some (Business TASK_NOT_CLAIMABLE 409
     [(''task_status'', JStr (task_status_value st)), (''reason'', JStr reason)])"
| "claim_envelope (ClaimCutoffReached d n) = Some (Business CLAIM_CUTOFF_REACHED 409
     [(''fixed_deadline_at'', JTime d), (''claim_cutoff_minutes'', JInt n)])"
| "claim_envelope (AssignmentLimitReached n) =
     Some (Business ASSIGNMENT_LIMIT_REACHED 409 [(''limit'', JInt n)])"
| "claim_envelope (ActiveClaimExists t) =
     Some (Business TASK_ACTIVE_CLAIM_EXISTS 409 [(''task_id'', JUuid t)])"
| "claim_envelope (NoAssignmentAvailable t) =
     Some (Business NO_ASSIGNMENT_AVAILABLE 409 [(''task_id'', JUuid t)])"
| "claim_envelope UnknownDeadlineMode = None"
| "claim_envelope (DeadlineFailure e) = deadline_envelope e"
| "claim_envelope (ClaimIntegrity c) = None"

text \<open>Only the two partial unique indexes are translated; any other violation is re-raised.\<close>

fun map_claim_integrity_error :: "claim_constraint \<Rightarrow> uuid \<Rightarrow> claim_error" where
  "map_claim_integrity_error Uq_active_assignment t = NoAssignmentAvailable t"
| "map_claim_integrity_error Uq_active_user_task t = ActiveClaimExists t"
| "map_claim_integrity_error c t = ClaimIntegrity c"

section \<open>Eligibility\<close>

record Claimer =
  cm_id :: uuid
  cm_status :: UserStatus
  cm_role :: Role

record ActiveClaim =
  acl_task_id :: uuid
  acl_status :: ClaimStatus

definition require_claimable_account :: "Claimer \<Rightarrow> claim_error + unit" where
  "require_claimable_account user =
     (if cm_role user \<noteq> STUDENT then Inl (ClaimerNotStudent (cm_id user) (cm_role user))
      else if cm_status user \<noteq> UserStatus.ACTIVE then Inl (AccountNotActive (cm_id user))
      else Inr ())"

definition require_within_cutoff :: "task \<Rightarrow> instant \<Rightarrow> claim_error + unit" where
  "require_within_cutoff task now =
     (case tk_fixed_deadline_at task of
        Some (Aware deadline) \<Rightarrow>
          (let cutoff = (case tk_claim_cutoff_minutes task of None \<Rightarrow> 0 | Some n \<Rightarrow> n)
           in if deadline < now + minutes cutoff then Inl (ClaimCutoffReached deadline cutoff)
              else Inr ())
      | _ \<Rightarrow> Inl (TaskNotClaimable (tk_status task) ''invalid_fixed_deadline''))"

definition require_claimable_task :: "task \<Rightarrow> instant \<Rightarrow> claim_error + unit" where
  "require_claimable_task task now =
     (if tk_status task \<noteq> PUBLISHED
      then Inl (TaskNotClaimable (tk_status task) ''task_not_published'')
      else if tk_deadline_mode task = deadline_mode_value FIXED
      then require_within_cutoff task now
      else if tk_deadline_mode task = deadline_mode_value RELATIVE then Inr ()
      else Inl UnknownDeadlineMode)"

definition require_quota_slot :: "int \<Rightarrow> ActiveClaim list \<Rightarrow> claim_error + unit" where
  "require_quota_slot limit active =
     (if limit \<le> count_rows (\<lambda>c. acl_status c \<in> set QUOTA_OCCUPYING_STATUSES) active
      then Inl (AssignmentLimitReached limit) else Inr ())"

definition require_no_same_task_claim :: "uuid \<Rightarrow> ActiveClaim list \<Rightarrow> claim_error + unit" where
  "require_no_same_task_claim t active =
     (if list_ex (\<lambda>c. acl_task_id c = t \<and> acl_status c \<in> set ACTIVE_CLAIM_STATUSES) active
      then Inl (ActiveClaimExists t) else Inr ())"

definition eligibility_check ::
  "int \<Rightarrow> Claimer \<Rightarrow> task \<Rightarrow> instant \<Rightarrow> ActiveClaim list \<Rightarrow> claim_error + unit" where
  "eligibility_check limit user task now active =
     (case require_claimable_account user of Inl e \<Rightarrow> Inl e | Inr _ \<Rightarrow>
      case require_claimable_task task now of Inl e \<Rightarrow> Inl e | Inr _ \<Rightarrow>
      case require_quota_slot limit active of Inl e \<Rightarrow> Inl e | Inr _ \<Rightarrow>
      require_no_same_task_claim (tk_id task) active)"

definition load_active_claims :: "uuid \<Rightarrow> 'a campus_db_scheme \<Rightarrow> ActiveClaim list" where
  "load_active_claims u s = map (\<lambda>c. \<lparr>acl_task_id = cl_task_id c, acl_status = cl_status c\<rparr>)
     (filter (\<lambda>c. cl_user_id c = u \<and> active_claim c) (claims s))"

section \<open>Claiming\<close>

definition excluded_assignments :: "uuid \<Rightarrow> 'a campus_db_scheme \<Rightarrow> uuid list" where
  "excluded_assignments u s = map cl_assignment_id
     (filter (\<lambda>c. cl_user_id c = u \<and> cl_status c \<in> set REASSIGN_EXCLUDED_STATUSES) (claims s))"

definition candidate_assignments :: "uuid \<Rightarrow> uuid \<Rightarrow> 'a campus_db_scheme \<Rightarrow> assignment list" where
  "candidate_assignments u t s = filter (\<lambda>a. as_task_id a = t
     \<and> as_availability_status a = AVAILABLE
     \<and> as_id a \<notin> set (excluded_assignments u s)) (assignments s)"

definition pick_candidate ::
  "(uuid \<Rightarrow> int) \<Rightarrow> (uuid \<Rightarrow> bool) \<Rightarrow> assignment list \<Rightarrow> assignment option" where
  "pick_candidate rnd locked cs =
     (case filter (\<lambda>a. \<not> locked (as_id a)) (sort_key (\<lambda>a. rnd (as_id a)) cs) of
        [] \<Rightarrow> None | a # _ \<Rightarrow> Some a)"

definition new_claim ::
  "uuid \<Rightarrow> assignment \<Rightarrow> task \<Rightarrow> uuid \<Rightarrow> instant \<Rightarrow> ClaimDeadlines \<Rightarrow> claim" where
  "new_claim cid a task u now dl =
     \<lparr>cl_id = cid, cl_assignment_id = as_id a, cl_task_id = tk_id task, cl_user_id = u,
      cl_status = CLAIMED, cl_claimed_at = now, cl_deadline_at = cd_deadline_at dl,
      cl_grace_deadline_at = cd_grace_deadline_at dl,
      cl_reward_policy_snapshot = REWARD_POLICY_SNAPSHOT_V1,
      cl_base_reward_points_snapshot = tk_base_reward_points task,
      cl_submission_schema_version = tk_submission_schema_version task,
      cl_reward_lock_status = NONE, cl_reward_tier_locked = None, cl_reward_locked_at = None,
      cl_locked_reward_points = None, cl_latest_submission_id = None,
      cl_revision_deadline_at = None, cl_terminal_at = None\<rparr>"

definition claim_created :: "claim \<Rightarrow> task \<Rightarrow> notification" where
  "claim_created c task =
     \<lparr>nt_key = (''claim'', cl_id c, ''created''), nt_type = ''CLAIM_CREATED'',
      nt_user_id = cl_user_id c,
      nt_payload = [(''claim_id'', JUuid (cl_id c)), (''deadline_at'', JTime (cl_deadline_at c)),
        (''task_title'', JStr (tk_title task))]\<rparr>"

text \<open>
  One claim transaction: user row, account gate, task row, checklist, candidate, snapshot and
  occupancy, notification intent, commit.
\<close>

definition claim_random_assignment ::
  "int \<Rightarrow> bool \<Rightarrow> uuid \<Rightarrow> instant \<Rightarrow> (uuid \<Rightarrow> int) \<Rightarrow> (uuid \<Rightarrow> bool) \<Rightarrow> uuid \<Rightarrow> uuid
    \<Rightarrow> 'a campus_db_scheme \<Rightarrow> claim_error + (claim \<times> 'a campus_db_scheme)" where
  "claim_random_assignment limit wired new_id now rnd locked user_id task_id s =
     (case row_of us_id user_id (users s) of None \<Rightarrow> Inl (UserNotFound user_id) | Some acct \<Rightarrow>
      let claimer = \<lparr>cm_id = user_id, cm_status = us_status acct, cm_role = us_role acct\<rparr> in
      case require_claimable_account claimer of Inl e \<Rightarrow> Inl e | Inr _ \<Rightarrow>
      case row_of tk_id task_id (tasks s) of None \<Rightarrow> Inl (TaskNotFound task_id) | Some task \<Rightarrow>
      case eligibility_check limit claimer task now (load_active_claims user_id s) of
        Inl e \<Rightarrow> Inl e | Inr _ \<Rightarrow>
      case pick_candidate rnd locked (candidate_assignments user_id task_id s) of
        None \<Rightarrow> Inl (NoAssignmentAvailable task_id) | Some a \<Rightarrow>
      case compute_claim_deadlines task (Aware now) of
        Inl e \<Rightarrow> Inl (DeadlineFailure e) | Inr dl \<Rightarrow>
      let c = new_claim new_id a task user_id now dl in
      case insert_claim c (claims s) of
        Inl k \<Rightarrow> Inl (map_claim_integrity_error k task_id) | Inr cs \<Rightarrow>
      Inr (c, record_event wired (claim_created c task)
        (put_assignment (a\<lparr>as_availability_status := OCCUPIED\<rparr>) (s\<lparr>claims := cs\<rparr>))))"

section \<open>Expiry\<close>

definition effective_expiry_deadline :: "claim \<Rightarrow> instant" where
  "effective_expiry_deadline c = (case cl_revision_deadline_at c of
       None \<Rightarrow> cl_grace_deadline_at c | Some r \<Rightarrow> max (cl_grace_deadline_at c) r)"

datatype ExpiryOutcome =
    Expired | NotDue | Protected | ValidSubmission | AlreadyTerminal | Missing

fun outcome_value :: "ExpiryOutcome \<Rightarrow> string" where
  "outcome_value Expired = ''EXPIRED''"
| "outcome_value NotDue = ''NOT_DUE''"
| "outcome_value Protected = ''PROTECTED''"
| "outcome_value ValidSubmission = ''VALID_SUBMISSION''"
| "outcome_value AlreadyTerminal = ''ALREADY_TERMINAL''"
| "outcome_value Missing = ''MISSING''"

record ExpireResult =
  er_claim_id :: uuid
  er_outcome :: ExpiryOutcome
  er_status :: "ClaimStatus option"
  er_assignment_id :: "uuid option"
  er_task_id :: "uuid option"
  er_user_id :: "uuid option"
  er_terminal_at :: "instant option"

definition expire_result :: "claim \<Rightarrow> ExpiryOutcome \<Rightarrow> ExpireResult" where
  "expire_result c o' =
     \<lparr>er_claim_id = cl_id c, er_outcome = o', er_status = Some (cl_status c),
      er_assignment_id = Some (cl_assignment_id c), er_task_id = Some (cl_task_id c),
      er_user_id = Some (cl_user_id c), er_terminal_at = cl_terminal_at c\<rparr>"

text \<open>The behavior-history event that abandon and expiry share in shape.\<close>

definition claim_event :: "string \<Rightarrow> claim \<Rightarrow> instant \<Rightarrow> domain_event" where
  "claim_event ty c now =
     \<lparr>ev_type = ty, ev_aggregate_type = ''AssignmentClaim'', ev_aggregate_id = cl_id c,
      ev_occurred_at = now,
      ev_payload = [(''user_id'', JUuid (cl_user_id c)),
        (''assignment_id'', JUuid (cl_assignment_id c)), (''task_id'', JUuid (cl_task_id c)),
        (''terminal_at'', JTime now)]\<rparr>"

definition expire_claim_if_due ::
  "bool \<Rightarrow> ('a campus_db_scheme \<Rightarrow> uuid \<Rightarrow> bool) \<Rightarrow> datetime \<Rightarrow> uuid \<Rightarrow> 'a campus_db_scheme
    \<Rightarrow> deadline_error + (ExpireResult \<times> 'a campus_db_scheme)" where
  "expire_claim_if_due published inspect at claim_id s =
     (case require_aware at ''now'' of Inl e \<Rightarrow> Inl e | Inr now \<Rightarrow>
      case row_of cl_id claim_id (claims s) of
        None \<Rightarrow> Inr (\<lparr>er_claim_id = claim_id, er_outcome = Missing, er_status = None,
          er_assignment_id = None, er_task_id = None, er_user_id = None,
          er_terminal_at = None\<rparr>, s)
      | Some c \<Rightarrow>
        if cl_status c \<in> set TERMINAL_CLAIM_STATUSES then Inr (expire_result c AlreadyTerminal, s)
        else if cl_status c \<notin> set EXPIRY_ACTIONABLE_STATUSES
        then Inr (expire_result c Protected, s)
        else if now < effective_expiry_deadline c then Inr (expire_result c NotDue, s)
        else if inspect s claim_id then Inr (expire_result c ValidSubmission, s)
        else
          (let s1 = release_assignment (cl_assignment_id c) s;
               c1 = c\<lparr>cl_status := EXPIRED, cl_terminal_at := Some now\<rparr>;
               s2 = put_claim c1 s1
           in Inr (expire_result c1 Expired,
                   if published then publish_event (claim_event CLAIM_EXPIRED c1 now) s2
                   else s2)))"

text \<open>The two inspectors: the default of direct callers and the one the worker wires.\<close>

definition NoValidSubmissionsInspector :: "'a campus_db_scheme \<Rightarrow> uuid \<Rightarrow> bool" where
  "NoValidSubmissionsInspector s cid = False"

definition ValidatedSubmissionInspector :: "'a campus_db_scheme \<Rightarrow> uuid \<Rightarrow> bool" where
  "ValidatedSubmissionInspector s cid =
     (case row_of cl_id cid (claims s) of None \<Rightarrow> False | Some c \<Rightarrow>
      case cl_latest_submission_id c of None \<Rightarrow> False | Some b \<Rightarrow>
      case row_of sb_id b (submissions s) of None \<Rightarrow> False | Some sub \<Rightarrow>
      if sb_validation_status sub \<noteq> VALIDATED then False
      else if sb_review_status sub \<notin> {PENDING_REVIEW, ReviewStatus.UNDER_REVIEW} then False
      else sb_submitted_at sub < effective_expiry_deadline c)"

definition SCAN_BATCH_LIMIT :: nat where "SCAN_BATCH_LIMIT = 500"

definition due_row :: "instant \<Rightarrow> claim \<Rightarrow> bool" where
  "due_row now c \<longleftrightarrow> cl_status c \<in> set EXPIRY_ACTIONABLE_STATUSES \<and> cl_grace_deadline_at c \<le> now
     \<and> (case cl_revision_deadline_at c of None \<Rightarrow> True | Some r \<Rightarrow> r \<le> now)"

definition collect_due_claim_ids :: "nat \<Rightarrow> instant \<Rightarrow> 'a campus_db_scheme \<Rightarrow> uuid list" where
  "collect_due_claim_ids lim now s = take lim (map cl_id
     (sort_key cl_grace_deadline_at (sort_key cl_id (filter (due_row now) (claims s)))))"

text \<open>\<open>workers.expire_claim\<close>: the production wiring of the service, one job per id.\<close>

definition expire_one ::
  "instant \<Rightarrow> uuid \<Rightarrow> 'a campus_db_scheme \<Rightarrow> deadline_error + (ExpireResult \<times> 'a campus_db_scheme)"
  where
  "expire_one now cid s =
     expire_claim_if_due True ValidatedSubmissionInspector (Aware now) cid s"

definition expire_payload :: "ExpireResult \<Rightarrow> (string \<times> json) list" where
  "expire_payload r =
     [(''claim_id'', JUuid (er_claim_id r)), (''outcome'', JStr (outcome_value (er_outcome r))),
      (''status'', jopt (\<lambda>x. JStr (claim_status_value x)) (er_status r)),
      (''assignment_id'', jopt JUuid (er_assignment_id r)),
      (''task_id'', jopt JUuid (er_task_id r)), (''user_id'', jopt JUuid (er_user_id r)),
      (''terminal_at'', jopt JTime (er_terminal_at r))]"

end
