(* ===== verification/Claim_Facts.thy ===== *)
theory Claim_Facts
  imports Claims
begin

text \<open>
  Correctness of claiming and of expiry: the invariant of the claim and assignment tables, what a
  successful claim writes and when it is accepted, the expiry ladder, the agreement of the
  worker's discovery query with it, and the contract of a submission inspector as a locale.
\<close>

section \<open>The invariant of the claim table\<close>

definition active_unique :: "claim list \<Rightarrow> bool" where
  "active_unique t \<longleftrightarrow> (\<forall>c\<in>set t. \<forall>d\<in>set t. active_claim c \<and> active_claim d
     \<and> (cl_assignment_id c = cl_assignment_id d
        \<or> (cl_user_id c = cl_user_id d \<and> cl_task_id c = cl_task_id d))
     \<longrightarrow> cl_id c = cl_id d)"

text \<open>The unit of work of a claim is in the table and not free for others.\<close>

definition held :: "'a campus_db_scheme \<Rightarrow> claim \<Rightarrow> bool" where
  "held s c \<longleftrightarrow> (\<exists>a. row_of as_id (cl_assignment_id c) (assignments s) = Some a
     \<and> as_availability_status a \<noteq> AVAILABLE)"

definition claims_inv :: "'a campus_db_scheme \<Rightarrow> bool" where
  "claims_inv s \<longleftrightarrow> distinct (map cl_id (claims s)) \<and> distinct (map as_id (assignments s))
     \<and> active_unique (claims s)
     \<and> (\<forall>c\<in>set (claims s). (active_claim c \<longrightarrow> held s c)
          \<and> (active_claim c \<longleftrightarrow> cl_terminal_at c = None))"

lemma claims_inv_ids: "claims_inv s \<Longrightarrow> distinct (map cl_id (claims s))"
  by (simp add: claims_inv_def)

lemma claims_inv_assignment_ids: "claims_inv s \<Longrightarrow> distinct (map as_id (assignments s))"
  by (simp add: claims_inv_def)

lemma claims_inv_unique:
  "claims_inv s \<Longrightarrow> c \<in> set (claims s) \<Longrightarrow> d \<in> set (claims s) \<Longrightarrow> active_claim c \<Longrightarrow> active_claim d
    \<Longrightarrow> cl_assignment_id c = cl_assignment_id d
       \<or> cl_user_id c = cl_user_id d \<and> cl_task_id c = cl_task_id d \<Longrightarrow> cl_id c = cl_id d"
  unfolding claims_inv_def active_unique_def by blast

lemma claims_inv_held: "claims_inv s \<Longrightarrow> c \<in> set (claims s) \<Longrightarrow> active_claim c \<Longrightarrow> held s c"
  unfolding claims_inv_def by blast

lemma claims_inv_terminal:
  "claims_inv s \<Longrightarrow> c \<in> set (claims s) \<Longrightarrow> active_claim c \<longleftrightarrow> cl_terminal_at c = None"
  unfolding claims_inv_def by blast

lemma claims_inv_cong: "claims s' = claims s \<Longrightarrow> assignments s' = assignments s
    \<Longrightarrow> claims_inv s' = claims_inv s"
  by (simp add: claims_inv_def held_def)

lemma claims_inv_frames [simp]:
  "claims_inv (audit_append a act tt ti r d b af c s) = claims_inv s"
  "claims_inv (publish_event e s) = claims_inv s"
  "claims_inv (record_event w n s) = claims_inv s"
  "claims_inv (put_submission sb s) = claims_inv s"
  by (rule claims_inv_cong; simp)+

lemma id_unique: "claims_inv s \<Longrightarrow> c \<in> set (claims s) \<Longrightarrow> d \<in> set (claims s) \<Longrightarrow> cl_id c = cl_id d
    \<Longrightarrow> c = d"
  using claims_inv_ids by (metis inj_onD distinct_map)

text \<open>Same work, same owner: what no status change of a claim touches.\<close>

definition same_work :: "claim \<Rightarrow> claim \<Rightarrow> bool" where
  "same_work c d \<longleftrightarrow> cl_id d = cl_id c \<and> cl_assignment_id d = cl_assignment_id c
     \<and> cl_task_id d = cl_task_id c \<and> cl_user_id d = cl_user_id c"

lemma set_put_claim: "d \<in> set (claims (put_claim c1 s)) \<Longrightarrow>
    d = c1 \<and> cl_id c1 \<in> cl_id ` set (claims s) \<or> d \<in> set (claims s) \<and> cl_id d \<noteq> cl_id c1"
  unfolding claims_put_claim set_update_row by (auto split: if_splits) (metis image_eqI)+

lemma put_claim_keeps:
  assumes inv: "claims_inv s" and row: "row_of cl_id (cl_id c1) (claims s) = Some c"
    and same: "same_work c c1" and act: "active_claim c1 \<longrightarrow> active_claim c"
    and tm: "active_claim c1 \<longleftrightarrow> cl_terminal_at c1 = None"
  shows "claims_inv (put_claim c1 s)"
proof -
  have c: "c \<in> set (claims s)" using row_of_SomeD [OF row] by simp
  have ids: "map cl_id (claims (put_claim c1 s)) = map cl_id (claims s)"
    by (simp add: claims_put_claim keys_update_row)
  have old: "\<exists>d'\<in>set (claims s). same_work d' d \<and> (active_claim d \<longrightarrow> active_claim d')
      \<and> (active_claim d \<longleftrightarrow> cl_terminal_at d = None)"
    if "d \<in> set (claims (put_claim c1 s))" for d
    using set_put_claim [OF that]
  proof
    assume "d = c1 \<and> cl_id c1 \<in> cl_id ` set (claims s)"
    with c same act tm show ?thesis by (intro bexI [of _ c]) simp_all
  next
    assume "d \<in> set (claims s) \<and> cl_id d \<noteq> cl_id c1"
    moreover have "same_work d d" by (simp add: same_work_def)
    ultimately show ?thesis using claims_inv_terminal [OF inv] by blast
  qed
  have "active_unique (claims (put_claim c1 s))"
    unfolding active_unique_def
  proof (intro ballI impI)
    fix d e assume "d \<in> set (claims (put_claim c1 s))" "e \<in> set (claims (put_claim c1 s))"
      and both: "active_claim d \<and> active_claim e \<and> (cl_assignment_id d = cl_assignment_id e
        \<or> cl_user_id d = cl_user_id e \<and> cl_task_id d = cl_task_id e)"
    then obtain d' e' where "d' \<in> set (claims s)" "same_work d' d" "active_claim d'"
      and "e' \<in> set (claims s)" "same_work e' e" "active_claim e'"
      using old by blast
    moreover from this both have "cl_assignment_id d' = cl_assignment_id e'
        \<or> cl_user_id d' = cl_user_id e' \<and> cl_task_id d' = cl_task_id e'"
      by (simp add: same_work_def)
    ultimately show "cl_id d = cl_id e"
      using claims_inv_unique [OF inv, of d' e'] by (simp add: same_work_def)
  qed
  moreover have "held (put_claim c1 s) d" if d: "d \<in> set (claims (put_claim c1 s))" "active_claim d" for d
  proof -
    obtain d' where "d' \<in> set (claims s)" "same_work d' d" "active_claim d'"
      using old [OF d(1)] d(2) by blast
    with claims_inv_held [OF inv, of d'] show ?thesis by (simp add: held_def same_work_def)
  qed
  moreover have "active_claim d \<longleftrightarrow> cl_terminal_at d = None"
    if "d \<in> set (claims (put_claim c1 s))" for d
    using old [OF that] by blast
  ultimately show ?thesis
    unfolding claims_inv_def put_claim_frame ids
    using claims_inv_ids [OF inv] claims_inv_assignment_ids [OF inv] by blast
qed

lemma release_keeps:
  assumes inv: "claims_inv s"
    and free: "\<And>c. c \<in> set (claims s) \<Longrightarrow> active_claim c \<Longrightarrow> cl_assignment_id c \<noteq> i"
  shows "claims_inv (release_assignment i s)"
  using assms unfolding claims_inv_def held_def
  by (simp add: ids_release row_of_release)

lemma release_put_commute:
  "release_assignment i (put_claim c s) = put_claim c (release_assignment i s)"
  by (simp add: release_assignment_def put_claim_def put_assignment_def split: option.split)

lemma finish_keeps:
  assumes inv: "claims_inv s" and row: "row_of cl_id (cl_id c1) (claims s) = Some c"
    and same: "same_work c c1" and act: "active_claim c" and fin: "\<not> active_claim c1"
    and tm: "cl_terminal_at c1 \<noteq> None"
  shows "claims_inv (put_claim c1 (release_assignment (cl_assignment_id c) s))"
  unfolding release_put_commute [symmetric]
proof (rule release_keeps)
  show "claims_inv (put_claim c1 s)"
    using put_claim_keeps [OF inv row same] fin tm by blast
  fix d assume d: "d \<in> set (claims (put_claim c1 s))" "active_claim d"
  have c: "c \<in> set (claims s)" "cl_id c = cl_id c1" using row_of_SomeD [OF row] by auto
  from d fin have "d \<in> set (claims s)" "cl_id d \<noteq> cl_id c1" using set_put_claim by blast+
  then show "cl_assignment_id d \<noteq> cl_assignment_id c"
    using claims_inv_unique [OF inv _ c(1) d(2) act] c(2) by auto
qed

section \<open>A successful claim\<close>

lemma require_claimable_account_Inr: "require_claimable_account u = Inr x \<longleftrightarrow>
    cm_role u = STUDENT \<and> cm_status u = UserStatus.ACTIVE"
  by (simp add: require_claimable_account_def)

lemma quota_count: "count_rows (\<lambda>c. acl_status c \<in> set QUOTA_OCCUPYING_STATUSES)
     (load_active_claims u s)
   = count_rows (\<lambda>c. cl_user_id c = u \<and> cl_status c \<in> set QUOTA_OCCUPYING_STATUSES) (claims s)"
  by (simp add: load_active_claims_def count_rows_def QUOTA_OCCUPYING_STATUSES_def filter_map
      comp_def conj_ac disj_ac) (rule arg_cong [where f = length], rule filter_cong, auto simp: active_iff)

lemma same_task_ex: "list_ex (\<lambda>c. acl_task_id c = t \<and> acl_status c \<in> set ACTIVE_CLAIM_STATUSES)
     (load_active_claims u s)
   = list_ex (\<lambda>c. cl_user_id c = u \<and> cl_task_id c = t \<and> active_claim c) (claims s)"
  by (auto simp: load_active_claims_def list_ex_iff active_claim_def)

definition may_claim :: "int \<Rightarrow> instant \<Rightarrow> uuid \<Rightarrow> uuid \<Rightarrow> user_row \<Rightarrow> task \<Rightarrow> 'a campus_db_scheme \<Rightarrow> bool" where
  "may_claim limit now u t acct task s \<longleftrightarrow>
     row_of us_id u (users s) = Some acct \<and> us_role acct = STUDENT
     \<and> us_status acct = UserStatus.ACTIVE
     \<and> row_of tk_id t (tasks s) = Some task \<and> require_claimable_task task now = Inr ()
     \<and> count_rows (\<lambda>c. cl_user_id c = u \<and> cl_status c \<in> set QUOTA_OCCUPYING_STATUSES) (claims s)
         < limit
     \<and> \<not> list_ex (\<lambda>c. cl_user_id c = u \<and> cl_task_id c = t \<and> active_claim c) (claims s)"

lemma eligibility_Inr: "eligibility_check limit
      \<lparr>cm_id = u, cm_status = us_status acct, cm_role = us_role acct\<rparr> task now
      (load_active_claims u s) = Inr x \<longleftrightarrow>
    us_role acct = STUDENT \<and> us_status acct = UserStatus.ACTIVE
    \<and> require_claimable_task task now = Inr ()
    \<and> count_rows (\<lambda>c. cl_user_id c = u \<and> cl_status c \<in> set QUOTA_OCCUPYING_STATUSES) (claims s)
         < limit
    \<and> \<not> list_ex (\<lambda>c. cl_user_id c = u \<and> cl_task_id c = tk_id task \<and> active_claim c) (claims s)"
  by (auto simp: eligibility_check_def require_quota_slot_def require_no_same_task_claim_def
      quota_count same_task_ex require_claimable_account_def
      split: sum.splits)

lemma claim_Inr: "claim_random_assignment limit wired cid now rnd locked u t s = Inr (c, s') \<longleftrightarrow>
   (\<exists>acct task a dl cs. may_claim limit now u t acct task s
     \<and> pick_candidate rnd locked (candidate_assignments u t s) = Some a
     \<and> compute_claim_deadlines task (Aware now) = Inr dl
     \<and> c = new_claim cid a task u now dl \<and> insert_claim c (claims s) = Inr cs
     \<and> s' = record_event wired (claim_created c task)
              (put_assignment (a\<lparr>as_availability_status := OCCUPIED\<rparr>) (s\<lparr>claims := cs\<rparr>)))"
  (is "?L \<longleftrightarrow> ?R")
proof
  have tid: "tk_id task = t" if "row_of tk_id t (tasks s) = Some task" for task
    using row_of_SomeD [OF that] by simp
  show "?L \<Longrightarrow> ?R"
    by (auto simp: claim_random_assignment_def Let_def may_claim_def eligibility_Inr tid
        split: option.splits sum.splits)
  assume ?R
  then obtain acct task a dl cs where may: "may_claim limit now u t acct task s"
    and rest: "pick_candidate rnd locked (candidate_assignments u t s) = Some a"
      "compute_claim_deadlines task (Aware now) = Inr dl"
      "insert_claim (new_claim cid a task u now dl) (claims s) = Inr cs"
      "c = new_claim cid a task u now dl"
      "s' = record_event wired (claim_created c task)
              (put_assignment (a\<lparr>as_availability_status := OCCUPIED\<rparr>) (s\<lparr>claims := cs\<rparr>))"
    by blast
  have "eligibility_check limit \<lparr>cm_id = u, cm_status = us_status acct, cm_role = us_role acct\<rparr>
      task now (load_active_claims u s) = Inr ()"
    unfolding eligibility_Inr using may tid [of task] unfolding may_claim_def by blast
  with may rest show ?L
    by (simp add: claim_random_assignment_def Let_def may_claim_def
        require_claimable_account_def)
qed

lemma claimable_task_iff: "require_claimable_task task now = Inr () \<longleftrightarrow> tk_status task = PUBLISHED
    \<and> (tk_deadline_mode task = ''RELATIVE''
       \<or> tk_deadline_mode task = ''FIXED'' \<and> (\<exists>d. tk_fixed_deadline_at task = Some (Aware d)
           \<and> now + minutes (case tk_claim_cutoff_minutes task of None \<Rightarrow> 0 | Some n \<Rightarrow> n) \<le> d))"
  by (auto simp: require_claimable_task_def require_within_cutoff_def Let_def
      split: option.splits datetime.splits)

lemma pick_Some: "pick_candidate rnd locked cs = Some a \<Longrightarrow> a \<in> set cs \<and> \<not> locked (as_id a)"
proof -
  assume "pick_candidate rnd locked cs = Some a"
  then obtain rest where "filter (\<lambda>a. \<not> locked (as_id a)) (sort_key (\<lambda>a. rnd (as_id a)) cs)
      = a # rest"
    by (auto simp: pick_candidate_def split: list.splits)
  then have "a \<in> set (filter (\<lambda>a. \<not> locked (as_id a)) (sort_key (\<lambda>a. rnd (as_id a)) cs))" by simp
  then show ?thesis by simp
qed

lemma pick_None: "pick_candidate rnd locked cs = None \<longleftrightarrow> (\<forall>a\<in>set cs. locked (as_id a))"
proof -
  have "pick_candidate rnd locked cs = None
      \<longleftrightarrow> filter (\<lambda>a. \<not> locked (as_id a)) (sort_key (\<lambda>a. rnd (as_id a)) cs) = []"
    by (simp add: pick_candidate_def split: list.split)
  then show ?thesis by (auto simp: filter_empty_conv)
qed

lemma candidate_iff: "a \<in> set (candidate_assignments u t s) \<longleftrightarrow> a \<in> set (assignments s)
    \<and> as_task_id a = t \<and> as_availability_status a = AVAILABLE
    \<and> \<not> (\<exists>c\<in>set (claims s). cl_user_id c = u \<and> cl_assignment_id c = as_id a
          \<and> cl_status c \<in> {ABANDONED, EXPIRED})"
  by (auto simp: candidate_assignments_def excluded_assignments_def REASSIGN_EXCLUDED_STATUSES_def
      image_iff)

lemma insert_claim_Inr: "insert_claim c t = Inr t' \<Longrightarrow> t' = t @ [c] \<and> cl_id c \<notin> cl_id ` set t
    \<and> (\<forall>d\<in>set t. active_claim c \<and> active_claim d \<longrightarrow> cl_assignment_id d \<noteq> cl_assignment_id c
        \<and> \<not> (cl_user_id d = cl_user_id c \<and> cl_task_id d = cl_task_id c))"
  by (auto simp: insert_claim_def list_ex_iff split: if_splits option.splits)

lemma new_claim_simps [simp]:
  "cl_id (new_claim i a task u now dl) = i"
  "cl_assignment_id (new_claim i a task u now dl) = as_id a"
  "cl_task_id (new_claim i a task u now dl) = tk_id task"
  "cl_user_id (new_claim i a task u now dl) = u"
  "cl_status (new_claim i a task u now dl) = CLAIMED"
  "cl_terminal_at (new_claim i a task u now dl) = None"
  "cl_locked_reward_points (new_claim i a task u now dl) = None"
  "active_claim (new_claim i a task u now dl)"
  by (simp_all add: new_claim_def active_iff)

text \<open>The row a claim takes: open work of the task, never returned by this student before.\<close>

definition free_work :: "(uuid \<Rightarrow> bool) \<Rightarrow> uuid \<Rightarrow> uuid \<Rightarrow> assignment \<Rightarrow> 'a campus_db_scheme \<Rightarrow> bool" where
  "free_work locked u t a s \<longleftrightarrow> row_of as_id (as_id a) (assignments s) = Some a \<and> as_task_id a = t
     \<and> as_availability_status a = AVAILABLE \<and> \<not> locked (as_id a)
     \<and> \<not> (\<exists>c\<in>set (claims s). cl_user_id c = u \<and> cl_assignment_id c = as_id a
          \<and> cl_status c \<in> {ABANDONED, EXPIRED})"

lemma free_work_iff: "claims_inv s \<Longrightarrow>
    free_work locked u t a s \<longleftrightarrow> a \<in> set (candidate_assignments u t s) \<and> \<not> locked (as_id a)"
  unfolding free_work_def candidate_iff
  using row_of_SomeD [of as_id "as_id a" "assignments s" a] claims_inv_assignment_ids [of s]
    row_of_unique [of as_id "assignments s" a] by auto

lemma ids_put_assignment [simp]:
  "map as_id (assignments (put_assignment a s)) = map as_id (assignments s)"
  by (simp add: assignments_put_assignment keys_update_row)

lemma claim_effect:
  assumes "claim_random_assignment limit wired cid now rnd locked u t s = Inr (c, s')"
    and inv: "claims_inv s"
  obtains acct task a dl where "may_claim limit now u t acct task s" "free_work locked u t a s"
    and "compute_claim_deadlines task (Aware now) = Inr dl" "c = new_claim cid a task u now dl"
    and "insert_claim c (claims s) = Inr (claims s @ [c])" "claims s' = claims s @ [c]"
    and "\<And>k. row_of as_id k (assignments s') = (if k = as_id a
          then Some (a\<lparr>as_availability_status := OCCUPIED\<rparr>) else row_of as_id k (assignments s))"
    and "map as_id (assignments s') = map as_id (assignments s)"
    and "s' = record_event wired (claim_created c task)
        (put_assignment (a\<lparr>as_availability_status := OCCUPIED\<rparr>) (s\<lparr>claims := claims s @ [c]\<rparr>))"
proof -
  obtain acct task a dl cs where may: "may_claim limit now u t acct task s"
    and pick: "pick_candidate rnd locked (candidate_assignments u t s) = Some a"
    and dl: "compute_claim_deadlines task (Aware now) = Inr dl"
    and c: "c = new_claim cid a task u now dl" and cs: "insert_claim c (claims s) = Inr cs"
    and s': "s' = record_event wired (claim_created c task)
        (put_assignment (a\<lparr>as_availability_status := OCCUPIED\<rparr>) (s\<lparr>claims := cs\<rparr>))"
    using assms(1) unfolding claim_Inr by blast
  have work: "free_work locked u t a s" using pick_Some [OF pick] free_work_iff [OF inv] by blast
  have row: "row_of as_id (as_id a) (assignments s) = Some a" using work by (simp add: free_work_def)
  have cs': "cs = claims s @ [c]" using insert_claim_Inr [OF cs] by blast
  show thesis
    by (rule that [OF may work dl c]) (use cs cs' in
      \<open>simp_all add: s' row_of_put_assignment row\<close>)
qed

lemma claim_keeps:
  assumes run: "claim_random_assignment limit wired cid now rnd locked u t s = Inr (c, s')"
    and inv: "claims_inv s"
  shows "claims_inv s'"
proof -
  obtain acct task a dl where work: "free_work locked u t a s" and c: "c = new_claim cid a task u now dl"
    and ins: "insert_claim c (claims s) = Inr (claims s @ [c])" and cs: "claims s' = claims s @ [c]"
    and rows: "\<And>k. row_of as_id k (assignments s') = (if k = as_id a
          then Some (a\<lparr>as_availability_status := OCCUPIED\<rparr>) else row_of as_id k (assignments s))"
    and ids: "map as_id (assignments s') = map as_id (assignments s)"
    by (rule claim_effect [OF run inv]; rule that; assumption)
  have act: "active_claim c" and asg: "cl_assignment_id c = as_id a" using c by simp_all
  have fresh: "cl_id c \<notin> cl_id ` set (claims s)"
    and new: "\<And>d. d \<in> set (claims s) \<Longrightarrow> active_claim d \<Longrightarrow> cl_assignment_id d \<noteq> cl_assignment_id c
        \<and> \<not> (cl_user_id d = cl_user_id c \<and> cl_task_id d = cl_task_id c)"
    using insert_claim_Inr [OF ins] act by blast+
  have "active_unique (claims s')"
    unfolding cs active_unique_def
  proof (intro ballI impI)
    fix d e assume "d \<in> set (claims s @ [c])" "e \<in> set (claims s @ [c])"
      and both: "active_claim d \<and> active_claim e \<and> (cl_assignment_id d = cl_assignment_id e
        \<or> cl_user_id d = cl_user_id e \<and> cl_task_id d = cl_task_id e)"
    then consider "d \<in> set (claims s)" "e \<in> set (claims s)" | "d = c" "e = c"
      | "d = c" "e \<in> set (claims s)" | "e = c" "d \<in> set (claims s)" by auto
    then show "cl_id d = cl_id e"
    proof cases
      case 1
      then show ?thesis using claims_inv_unique [OF inv 1] both by blast
    next
      case 3
      then show ?thesis using new [of e] both by metis
    next
      case 4
      then show ?thesis using new [of d] both by metis
    qed simp
  qed
  moreover have "held s' d" if d: "d \<in> set (claims s')" "active_claim d" for d
  proof (cases "d = c")
    case True
    then show ?thesis by (simp add: held_def asg rows)
  next
    case False
    with d cs have "held s d" using claims_inv_held [OF inv] by auto
    then show ?thesis by (auto simp: held_def rows)
  qed
  moreover have "active_claim d \<longleftrightarrow> cl_terminal_at d = None" if "d \<in> set (claims s')" for d
    using that cs claims_inv_terminal [OF inv, of d] c by auto
  ultimately show ?thesis
    unfolding claims_inv_def ids cs
    using claims_inv_ids [OF inv] claims_inv_assignment_ids [OF inv] fresh by auto
qed

lemma claim_accepts:
  assumes may: "may_claim limit now u t acct task s" and work: "free_work locked u t a s"
    and dl: "compute_claim_deadlines task (Aware now) = Inr dl"
    and fresh: "cid \<notin> cl_id ` set (claims s)" and inv: "claims_inv s"
  shows "ok (claim_random_assignment limit wired cid now rnd locked u t s)"
proof -
  obtain b where pick: "pick_candidate rnd locked (candidate_assignments u t s) = Some b"
    using work free_work_iff [OF inv, of locked u t a] pick_None by fastforce
  then have b: "free_work locked u t b s" using pick_Some free_work_iff [OF inv] by blast
  define c where "c = new_claim cid b task u now dl"
  have tid: "tk_id task = t" using may row_of_SomeD unfolding may_claim_def by fastforce
  have "cl_assignment_id d \<noteq> as_id b" if "d \<in> set (claims s)" "active_claim d" for d
    using claims_inv_held [OF inv that] b by (auto simp: held_def free_work_def)
  then have "insert_claim c (claims s) = Inr (claims s @ [c])"
    using fresh may tid by (auto simp: insert_claim_def c_def list_ex_iff may_claim_def)
  then have "\<exists>s'. claim_random_assignment limit wired cid now rnd locked u t s = Inr (c, s')"
    unfolding claim_Inr using may pick dl c_def by blast
  then show ?thesis by auto
qed

section \<open>Properties of claiming\<close>

text \<open>A small campus: two students, a teacher, one task with one free and one retired unit.\<close>

definition demo_assignment :: assignment where
  "demo_assignment = \<lparr>as_id = 10, as_task_id = 1, as_platform = ''web'', as_keyword = ''k'',
     as_payload = None, as_availability_status = AVAILABLE\<rparr>"

definition demo_campus :: campus_db where
  "demo_campus = initial_campus
     \<lparr>users := [\<lparr>us_id = 7, us_status = UserStatus.ACTIVE, us_role = STUDENT\<rparr>,
                \<lparr>us_id = 8, us_status = UserStatus.ACTIVE, us_role = STUDENT\<rparr>,
                \<lparr>us_id = 50, us_status = UserStatus.ACTIVE, us_role = TEACHER\<rparr>],
      tasks := [demo_task],
      assignments := [demo_assignment, demo_assignment\<lparr>as_id := 11, as_availability_status := RETIRED\<rparr>]\<rparr>"

definition demo_claim :: claim where
  "demo_claim = new_claim 100 demo_assignment demo_task 7 0
     \<lparr>cd_deadline_at = hours 1, cd_grace_deadline_at = hours 25\<rparr>"

definition claimed_campus :: campus_db where
  "claimed_campus = demo_campus
     \<lparr>claims := [demo_claim],
      assignments := [demo_assignment\<lparr>as_availability_status := OCCUPIED\<rparr>,
        demo_assignment\<lparr>as_id := 11, as_availability_status := RETIRED\<rparr>],
      notifications := [claim_created demo_claim demo_task]\<rparr>"

lemmas demo_defs = demo_campus_def demo_task_def demo_assignment_def demo_claim_def
  claimed_campus_def initial_campus_def initial_points_def points_db.defs new_claim_def

lemma demo_deadlines: "compute_claim_deadlines demo_task (Aware 0)
    = Inr \<lparr>cd_deadline_at = hours 1, cd_grace_deadline_at = hours 25\<rparr>"
  by (simp add: claim_deadlines_iff base_deadline_def demo_task_def hours_def minutes_def)

lemma demo_inv: "claims_inv demo_campus"
  by (simp add: claims_inv_def active_unique_def demo_defs)

lemma demo_run: "claim_random_assignment 3 True 100 0 (\<lambda>_. 0) (\<lambda>_. False) 7 1 demo_campus
    = Inr (demo_claim, claimed_campus)"
proof -
  have "free_work (\<lambda>_. False) 7 1 demo_assignment demo_campus"
    by (simp add: free_work_def demo_defs)
  have may: "may_claim 3 0 7 1 \<lparr>us_id = 7, us_status = UserStatus.ACTIVE, us_role = STUDENT\<rparr>
      demo_task demo_campus"
    by (simp add: may_claim_def demo_defs claimable_task_iff)
  have pick: "pick_candidate (\<lambda>_. 0) (\<lambda>_. False) (candidate_assignments 7 1 demo_campus)
      = Some demo_assignment"
    by (simp add: pick_candidate_def candidate_assignments_def excluded_assignments_def demo_defs)
  have ins: "insert_claim demo_claim (claims demo_campus) = Inr [demo_claim]"
    by (simp add: insert_claim_def demo_defs)
  have s': "claimed_campus = record_event True (claim_created demo_claim demo_task)
      (put_assignment (demo_assignment\<lparr>as_availability_status := OCCUPIED\<rparr>)
        (demo_campus\<lparr>claims := [demo_claim]\<rparr>))"
    by (simp add: record_event_def put_assignment_def update_row_def demo_defs)
  show ?thesis
    unfolding claim_Inr
    using may pick demo_deadlines ins s' demo_claim_def by blast
qed

text \<open>C19: A successful claim takes a unit of the task that was AVAILABLE, was not locked by another
  transaction and was never abandoned or let expire by this student before; the unit becomes
  OCCUPIED and every other unit keeps its row; the new claim row is the only one added, in state
  CLAIMED with no reward lock, and carries the task's base points, schema version and computed
  deadlines as they stand at that moment.\<close>

theorem claiming_takes_free_work_and_snapshots:
  assumes "claim_random_assignment limit wired cid now rnd locked u t s = Inr (c, s')"
    and "claims_inv s"
  shows "\<exists>a task. row_of as_id (as_id a) (assignments s) = Some a \<and> as_task_id a = t
     \<and> as_availability_status a = AVAILABLE \<and> \<not> locked (as_id a)
     \<and> (\<forall>d\<in>set (claims s). cl_user_id d = u \<and> cl_assignment_id d = as_id a
          \<longrightarrow> cl_status d \<notin> {ABANDONED, EXPIRED})
     \<and> (\<forall>k. row_of as_id k (assignments s') = (if k = as_id a
          then Some (a\<lparr>as_availability_status := OCCUPIED\<rparr>) else row_of as_id k (assignments s)))
     \<and> claims s' = claims s @ [c] \<and> cl_assignment_id c = as_id a \<and> cl_user_id c = u
     \<and> cl_task_id c = t \<and> cl_status c = CLAIMED \<and> cl_reward_lock_status c = NONE
     \<and> cl_claimed_at c = now \<and> row_of tk_id t (tasks s) = Some task
     \<and> cl_base_reward_points_snapshot c = tk_base_reward_points task
     \<and> cl_submission_schema_version c = tk_submission_schema_version task
     \<and> compute_claim_deadlines task (Aware now) = Inr
          \<lparr>cd_deadline_at = cl_deadline_at c, cd_grace_deadline_at = cl_grace_deadline_at c\<rparr>
     \<and> ledger s' = ledger s \<and> wallets s' = wallets s"
proof -
  obtain acct task a dl where may: "may_claim limit now u t acct task s"
    and work: "free_work locked u t a s"
    and dl: "compute_claim_deadlines task (Aware now) = Inr dl"
    and c: "c = new_claim cid a task u now dl" and cs: "claims s' = claims s @ [c]"
    and rows: "\<And>k. row_of as_id k (assignments s') = (if k = as_id a
          then Some (a\<lparr>as_availability_status := OCCUPIED\<rparr>) else row_of as_id k (assignments s))"
    and s': "s' = record_event wired (claim_created c task)
        (put_assignment (a\<lparr>as_availability_status := OCCUPIED\<rparr>) (s\<lparr>claims := claims s @ [c]\<rparr>))"
    by (rule claim_effect [OF assms]; rule that; assumption)
  have "row_of tk_id t (tasks s) = Some task" using may by (simp add: may_claim_def)
  moreover from this have "tk_id task = t" using row_of_SomeD by fastforce
  moreover have "ledger s' = ledger s \<and> wallets s' = wallets s" by (simp add: s')
  ultimately show ?thesis
    using work rows cs dl
    by (intro exI [of _ a] exI [of _ task]) (auto simp: free_work_def c new_claim_def)
qed

theorem claiming_takes_free_work_and_snapshots_witness:
  "\<exists>(a :: assignment) task. as_id a = 10 \<and> cl_assignment_id demo_claim = as_id a
     \<and> row_of tk_id 1 (tasks demo_campus) = Some task
     \<and> cl_base_reward_points_snapshot demo_claim = tk_base_reward_points task"
proof -
  have ten: "cl_assignment_id demo_claim = 10" by (simp add: demo_defs)
  show ?thesis
    using claiming_takes_free_work_and_snapshots [OF demo_run demo_inv]
    apply (elim exE conjE)
    subgoal premises p for a task
      using ten p(8,14,15) by (intro exI [of _ a] exI [of _ task]) simp
    done
qed

lemma ok_iff: "ok r \<longleftrightarrow> (\<exists>x. r = Inr x)"
  by (cases r) auto

text \<open>With the tables in their invariant and a fresh id, a claim is accepted exactly when the
  account is an ACTIVE student, the task is PUBLISHED, a FIXED deadline is at least the cutoff
  away (a RELATIVE task has no cutoff), fewer than the limit of the student's claims still need
  action, none of them is an open claim of this task, the task's deadline columns are coherent,
  and some AVAILABLE unit that nobody holds locked was not handed back by this student.\<close>

theorem claim_accepted_iff:
  assumes "claims_inv s" "cid \<notin> cl_id ` set (claims s)"
  shows "ok (claim_random_assignment limit wired cid now rnd locked u t s) \<longleftrightarrow>
    (\<exists>acct task. row_of us_id u (users s) = Some acct \<and> us_role acct = STUDENT
       \<and> us_status acct = UserStatus.ACTIVE
       \<and> row_of tk_id t (tasks s) = Some task \<and> tk_status task = PUBLISHED
       \<and> (tk_deadline_mode task = ''RELATIVE''
          \<or> tk_deadline_mode task = ''FIXED'' \<and> (\<exists>d. tk_fixed_deadline_at task = Some (Aware d)
             \<and> now + minutes (case tk_claim_cutoff_minutes task of None \<Rightarrow> 0 | Some n \<Rightarrow> n) \<le> d))
       \<and> ok (compute_claim_deadlines task (Aware now)))
    \<and> count_rows (\<lambda>c. cl_user_id c = u
         \<and> cl_status c \<in> {CLAIMED, ClaimStatus.REVISION_REQUIRED}) (claims s) < limit
    \<and> \<not> (\<exists>c\<in>set (claims s). cl_user_id c = u \<and> cl_task_id c = t \<and> active_claim c)
    \<and> (\<exists>a. free_work locked u t a s)"
  (is "?L \<longleftrightarrow> ?R")
proof
  assume ?L
  then obtain c s' where
    run: "claim_random_assignment limit wired cid now rnd locked u t s = Inr (c, s')"
    by (cases "claim_random_assignment limit wired cid now rnd locked u t s") auto
  obtain acct task a dl where "may_claim limit now u t acct task s"
    and "free_work locked u t a s" "compute_claim_deadlines task (Aware now) = Inr dl"
    by (rule claim_effect [OF run assms(1)]; rule that; assumption)
  then show ?R
    by (auto simp: may_claim_def claimable_task_iff list_ex_iff QUOTA_OCCUPYING_STATUSES_def)
next
  assume ?R
  then obtain acct task a dl where "may_claim limit now u t acct task s"
    and "free_work locked u t a s" "compute_claim_deadlines task (Aware now) = Inr dl"
    by (auto simp: may_claim_def claimable_task_iff list_ex_iff QUOTA_OCCUPYING_STATUSES_def
        ok_iff)
  then show ?L using claim_accepts assms by blast
qed

theorem claim_accepted_iff_witness:
  "\<exists>a. free_work (\<lambda>_. False) 7 1 a demo_campus"
  using claim_accepted_iff [OF demo_inv, of 100 3 True 0 "\<lambda>_. 0" "\<lambda>_. False" 7 1]
    demo_run by (simp add: demo_campus_def initial_campus_def initial_points_def points_db.defs)

text \<open>A claim keeps the work exclusive: afterwards no two open claims share a unit or a
  student's task, every open claim's unit is not AVAILABLE, and the student holds at most the
  limit of claims that need action.\<close>

theorem claiming_keeps_work_exclusive:
  assumes "claim_random_assignment limit wired cid now rnd locked u t s = Inr (c, s')"
    and "claims_inv s"
  shows "claims_inv s' \<and> count_rows (\<lambda>d. cl_user_id d = u
     \<and> cl_status d \<in> {CLAIMED, ClaimStatus.REVISION_REQUIRED}) (claims s') \<le> limit"
proof -
  obtain acct task a dl where may: "may_claim limit now u t acct task s"
    and cs: "claims s' = claims s @ [c]"
    by (rule claim_effect [OF assms]; rule that; assumption)
  from may show ?thesis
    using claim_keeps [OF assms]
    by (simp add: cs tbl may_claim_def QUOTA_OCCUPYING_STATUSES_def)
qed

theorem claiming_keeps_work_exclusive_witness:
  "claims_inv claimed_campus \<and> count_rows (\<lambda>d. cl_user_id d = 7
     \<and> cl_status d \<in> {CLAIMED, ClaimStatus.REVISION_REQUIRED}) (claims claimed_campus) \<le> 3"
  by (rule claiming_keeps_work_exclusive [OF demo_run demo_inv])

end
