(* ===== verification/Expiry_Facts.thy ===== *)
theory Expiry_Facts
  imports Claim_Facts
begin

text \<open>
  Correctness of claim expiry: the decision ladder, what an expiry writes, replay, the worker's
  discovery query, and the contract of a submission inspector as a locale with its two
  implementations.
\<close>

lemma sets: "st \<in> set TERMINAL_CLAIM_STATUSES \<longleftrightarrow> st \<in> {ClaimStatus.COMPLETED, ABANDONED, EXPIRED}"
  "st \<in> set EXPIRY_ACTIONABLE_STATUSES \<longleftrightarrow> st \<in> {CLAIMED, ClaimStatus.REVISION_REQUIRED}"
  by (simp_all add: TERMINAL_CLAIM_STATUSES_def EXPIRY_ACTIONABLE_STATUSES_def)

lemma due_row_iff: "due_row now c \<longleftrightarrow> cl_status c \<in> {CLAIMED, ClaimStatus.REVISION_REQUIRED}
    \<and> effective_expiry_deadline c \<le> now"
  by (auto simp: due_row_def sets effective_expiry_deadline_def split: option.splits)

lemma due_active: "due_row now c \<Longrightarrow> active_claim c"
  by (auto simp: due_row_iff active_iff)

definition expired :: "instant \<Rightarrow> claim \<Rightarrow> claim" where
  "expired now c = c\<lparr>cl_status := EXPIRED, cl_terminal_at := Some now\<rparr>"

lemma expired_simps [simp]:
  "cl_id (expired now c) = cl_id c" "cl_status (expired now c) = EXPIRED"
  "cl_assignment_id (expired now c) = cl_assignment_id c" "cl_user_id (expired now c) = cl_user_id c"
  "cl_task_id (expired now c) = cl_task_id c" "cl_terminal_at (expired now c) = Some now"
  "\<not> active_claim (expired now c)" "same_work c (expired now c)"
  by (simp_all add: expired_def active_iff same_work_def)

text \<open>The state after an expiry, and the outcome as a function of the row and the inspector.\<close>

definition expiry_state :: "bool \<Rightarrow> instant \<Rightarrow> claim \<Rightarrow> 'a campus_db_scheme \<Rightarrow> 'a campus_db_scheme" where
  "expiry_state published now c s =
     (let s2 = put_claim (expired now c) (release_assignment (cl_assignment_id c) s)
      in if published then publish_event (claim_event CLAIM_EXPIRED (expired now c) now) s2 else s2)"

definition expiry_outcome :: "instant \<Rightarrow> claim option \<Rightarrow> bool \<Rightarrow> ExpiryOutcome" where
  "expiry_outcome now row protected = (case row of None \<Rightarrow> Missing
     | Some c \<Rightarrow> if due_row now c then (if protected then ValidSubmission else Expired)
       else if \<not> active_claim c then AlreadyTerminal
       else if cl_status c \<in> {CLAIMED, ClaimStatus.REVISION_REQUIRED} then NotDue else Protected)"

lemma expire_eq: "expire_claim_if_due published inspect (Aware now) cid s =
    (let row = row_of cl_id cid (claims s); o' = expiry_outcome now row (inspect s cid)
     in Inr (case row of None \<Rightarrow> (\<lparr>er_claim_id = cid, er_outcome = Missing, er_status = None,
               er_assignment_id = None, er_task_id = None, er_user_id = None,
               er_terminal_at = None\<rparr>, s)
          | Some c \<Rightarrow> if o' = Expired
              then (expire_result (expired now c) Expired, expiry_state published now c s)
              else (expire_result c o', s)))"
proof (cases "row_of cl_id cid (claims s)")
  case None
  then show ?thesis by (simp add: expire_claim_if_due_def require_aware_def)
next
  case (Some c)
  then show ?thesis
    by (cases "cl_status c") (simp_all add: expire_claim_if_due_def require_aware_def sets Let_def
        expiry_outcome_def due_row_iff active_iff expiry_state_def expired_def not_less)
qed

lemma expire_total: "\<exists>r s'. expire_claim_if_due published inspect (Aware now) cid s = Inr (r, s')"
  by (cases "expire_claim_if_due published inspect (Aware now) cid s") (auto simp: expire_eq Let_def)

lemma expire_outcome:
  "expire_claim_if_due published inspect (Aware now) cid s = Inr (r, s')
    \<Longrightarrow> er_outcome r = expiry_outcome now (row_of cl_id cid (claims s)) (inspect s cid)"
  by (auto simp: expire_eq Let_def expire_result_def expiry_outcome_def split: option.splits if_splits)

lemma expiry_state_frame [simp]:
  "ledger (expiry_state p now c s) = ledger s" "wallets (expiry_state p now c s) = wallets s"
  "submissions (expiry_state p now c s) = submissions s" "tasks (expiry_state p now c s) = tasks s"
  "users (expiry_state p now c s) = users s" "lock_history (expiry_state p now c s) = lock_history s"
  by (simp_all add: expiry_state_def Let_def)

lemma claims_expiry_state: "claims (expiry_state p now c s) = claims (put_claim (expired now c) s)"
  by (simp add: expiry_state_def claims_put_claim Let_def)

lemma assignments_expiry_state: "assignments (expiry_state p now c s)
    = assignments (release_assignment (cl_assignment_id c) s)"
  by (simp add: expiry_state_def Let_def)

lemma row_of_expiry_state:
  assumes "row_of cl_id cid (claims s) = Some c"
  shows "row_of cl_id k (claims (expiry_state p now c s)) =
    (if k = cid then Some (expired now c) else row_of cl_id k (claims s))"
  using assms row_of_SomeD [OF assms] by (auto simp: claims_expiry_state row_of_put_claim)

lemma expiry_state_keeps:
  assumes "claims_inv s" "row_of cl_id cid (claims s) = Some c" "active_claim c"
  shows "claims_inv (expiry_state p now c s)"
proof -
  have "cl_id c = cid" using row_of_SomeD [OF assms(2)] by simp
  with assms have "claims_inv (put_claim (expired now c) (release_assignment (cl_assignment_id c) s))"
    by (intro finish_keeps) auto
  then show ?thesis by (simp add: expiry_state_def Let_def)
qed

lemma expire_keeps:
  assumes "expire_claim_if_due published inspect (Aware now) cid s = Inr (r, s')" "claims_inv s"
  shows "claims_inv s'"
  using assms
  by (auto simp: expire_eq Let_def expiry_outcome_def due_active
      split: option.splits if_splits intro!: expiry_state_keeps)

section \<open>The contract of an inspector\<close>

text \<open>
  What the expiry transaction relies on: a protected claim has a current submission that is
  machine-VALIDATED, still awaits its review and came in before the effective deadline; and the
  answer for one claim depends on that claim's row and the submissions only.
\<close>

locale submission_inspector =
  fixes inspect :: "'a campus_db_scheme \<Rightarrow> uuid \<Rightarrow> bool"
  assumes strict: "inspect s cid \<Longrightarrow> \<exists>c b sub. row_of cl_id cid (claims s) = Some c
      \<and> cl_latest_submission_id c = Some b \<and> row_of sb_id b (submissions s) = Some sub
      \<and> sb_validation_status sub = VALIDATED
      \<and> sb_review_status sub \<in> {PENDING_REVIEW, ReviewStatus.UNDER_REVIEW}
      \<and> sb_submitted_at sub < effective_expiry_deadline c"
    and own_row: "row_of cl_id cid (claims s') = row_of cl_id cid (claims s)
      \<Longrightarrow> submissions s' = submissions s \<Longrightarrow> inspect s' cid = inspect s cid"
begin

lemma unvalidated_never_protects:
  "row_of cl_id cid (claims s) = Some c \<Longrightarrow>
    (\<And>b sub. cl_latest_submission_id c = Some b \<Longrightarrow> row_of sb_id b (submissions s) = Some sub
       \<Longrightarrow> sb_validation_status sub \<noteq> VALIDATED) \<Longrightarrow> \<not> inspect s cid"
  using strict by fastforce

lemma returned_never_protects:
  "row_of cl_id cid (claims s) = Some c \<Longrightarrow> cl_latest_submission_id c = Some b
    \<Longrightarrow> row_of sb_id b (submissions s) = Some sub
    \<Longrightarrow> sb_review_status sub = ReviewStatus.REVISION_REQUIRED \<Longrightarrow> \<not> inspect s cid"
  using strict by fastforce

end

interpretation none: submission_inspector NoValidSubmissionsInspector
  by unfold_locales (simp_all add: NoValidSubmissionsInspector_def)

lemma ValidatedSubmissionInspector_iff: "ValidatedSubmissionInspector s cid \<longleftrightarrow>
    (\<exists>c b sub. row_of cl_id cid (claims s) = Some c
      \<and> cl_latest_submission_id c = Some b \<and> row_of sb_id b (submissions s) = Some sub
      \<and> sb_validation_status sub = VALIDATED
      \<and> sb_review_status sub \<in> {PENDING_REVIEW, ReviewStatus.UNDER_REVIEW}
      \<and> sb_submitted_at sub < effective_expiry_deadline c)"
  by (auto simp: ValidatedSubmissionInspector_def split: option.splits if_splits)

interpretation worker: submission_inspector ValidatedSubmissionInspector
  by unfold_locales (simp_all add: ValidatedSubmissionInspector_iff)

section \<open>A round of expiry jobs\<close>

fun run_expiry_jobs ::
  "bool \<Rightarrow> ('a campus_db_scheme \<Rightarrow> uuid \<Rightarrow> bool) \<Rightarrow> instant \<Rightarrow> uuid list \<Rightarrow> 'a campus_db_scheme
    \<Rightarrow> 'a campus_db_scheme" where
  "run_expiry_jobs published inspect now [] s = s"
| "run_expiry_jobs published inspect now (cid # ids) s =
     (case expire_claim_if_due published inspect (Aware now) cid s of
        Inl e \<Rightarrow> run_expiry_jobs published inspect now ids s
      | Inr (r, s') \<Rightarrow> run_expiry_jobs published inspect now ids s')"

context submission_inspector
begin

text \<open>One job changes the row of its own claim at most.\<close>

lemma job_row:
  assumes "expire_claim_if_due published inspect (Aware now) cid s = Inr (r, s')"
  shows "row_of cl_id k (claims s') =
    (if k = cid \<and> expiry_outcome now (row_of cl_id k (claims s)) (inspect s k) = Expired
     then map_option (expired now) (row_of cl_id k (claims s)) else row_of cl_id k (claims s))
    \<and> submissions s' = submissions s"
proof (cases "row_of cl_id cid (claims s)")
  case None
  then have "s' = s" using assms by (simp add: expire_eq Let_def)
  then show ?thesis using None by simp
next
  case (Some c)
  show ?thesis
  proof (cases "expiry_outcome now (Some c) (inspect s cid) = Expired")
    case True
    then have s': "s' = expiry_state published now c s" using assms Some by (simp add: expire_eq Let_def)
    show ?thesis unfolding s' row_of_expiry_state [OF Some] using Some True by simp
  next
    case False
    then have "s' = s" using assms Some by (simp add: expire_eq Let_def)
    then show ?thesis using Some False by auto
  qed
qed

lemma outcome_after_expiry: "expiry_outcome now (map_option (expired now) row) p \<noteq> Expired"
  by (auto simp: expiry_outcome_def due_row_iff split: option.splits)

lemma jobs_row:
  "row_of cl_id k (claims (run_expiry_jobs published inspect now ids s)) =
    (if k \<in> set ids \<and> expiry_outcome now (row_of cl_id k (claims s)) (inspect s k) = Expired
     then map_option (expired now) (row_of cl_id k (claims s)) else row_of cl_id k (claims s))"
proof (induction ids arbitrary: s)
  case (Cons cid ids)
  obtain r s' where run: "expire_claim_if_due published inspect (Aware now) cid s = Inr (r, s')"
    using expire_total [of published inspect now cid s] by blast
  have row: "row_of cl_id k (claims s') =
    (if k = cid \<and> expiry_outcome now (row_of cl_id k (claims s)) (inspect s k) = Expired
     then map_option (expired now) (row_of cl_id k (claims s)) else row_of cl_id k (claims s))"
    and subs: "submissions s' = submissions s"
    using job_row [OF run, of k] by (rule conjunct1, rule conjunct2)
  have step: "run_expiry_jobs published inspect now (cid # ids) s
      = run_expiry_jobs published inspect now ids s'" by (simp add: run)
  show ?case
  proof (cases "k = cid \<and> expiry_outcome now (row_of cl_id k (claims s)) (inspect s k) = Expired")
    case True
    have "row_of cl_id k (claims s') = map_option (expired now) (row_of cl_id k (claims s))"
      by (rule row [unfolded if_P [OF True]])
    with True show ?thesis unfolding step Cons.IH by (auto simp: outcome_after_expiry)
  next
    case False
    have same: "row_of cl_id k (claims s') = row_of cl_id k (claims s)"
      by (rule row [unfolded if_not_P [OF False]])
    from False show ?thesis
      unfolding step Cons.IH same own_row [OF same subs] by auto
  qed
qed simp

lemma jobs_keep: "claims_inv s \<Longrightarrow> claims_inv (run_expiry_jobs published inspect now ids s)"
  by (induction ids arbitrary: s) (auto split: sum.split intro: expire_keeps)

end

section \<open>The discovery query\<close>

lemma collect_set: "set (collect_due_claim_ids lim now s)
    \<subseteq> cl_id ` {c \<in> set (claims s). due_row now c}"
  unfolding collect_due_claim_ids_def by (rule order.trans [OF set_take_subset]) auto

lemma collect_all: "count_rows (due_row now) (claims s) \<le> int lim
    \<Longrightarrow> set (collect_due_claim_ids lim now s) = cl_id ` {c \<in> set (claims s). due_row now c}"
  by (auto simp: collect_due_claim_ids_def count_rows_def)

lemma due_row_of: "claims_inv s \<Longrightarrow> c \<in> set (claims s) \<Longrightarrow> row_of cl_id (cl_id c) (claims s) = Some c"
  by (rule row_of_unique [OF claims_inv_ids])

lemma due_ids_iff: "claims_inv s \<Longrightarrow> cid \<in> cl_id ` {c \<in> set (claims s). due_row now c}
    \<longleftrightarrow> (\<exists>c. row_of cl_id cid (claims s) = Some c \<and> due_row now c)"
  using due_row_of row_of_SomeD [of cl_id cid "claims s"] by fastforce

lemma due_iff_outcome: "expiry_outcome now row p \<in> {Expired, ValidSubmission}
    \<longleftrightarrow> (\<exists>c. row = Some c \<and> due_row now c)"
  by (auto simp: expiry_outcome_def split: option.splits)

section \<open>Properties of expiry\<close>

text \<open>The expiry ladder: an attempt at an aware instant never fails; it answers EXPIRED exactly
  when the claim exists, still needs student action, both its grace deadline and any revision
  deadline have been reached, and no submission protects it; any other answer leaves the whole
  state as it was.\<close>

theorem expiry_decides_under_the_row:
  "\<exists>r s'. expire_claim_if_due published inspect (Aware now) cid s = Inr (r, s')
     \<and> (er_outcome r = Expired \<longleftrightarrow> (\<exists>c. row_of cl_id cid (claims s) = Some c
          \<and> cl_status c \<in> {CLAIMED, ClaimStatus.REVISION_REQUIRED} \<and> cl_grace_deadline_at c \<le> now
          \<and> (\<forall>d. cl_revision_deadline_at c = Some d \<longrightarrow> d \<le> now) \<and> \<not> inspect s cid))
     \<and> (er_outcome r \<noteq> Expired \<longrightarrow> s' = s)"
proof -
  obtain r s' where run: "expire_claim_if_due published inspect (Aware now) cid s = Inr (r, s')"
    using expire_total [of published inspect now cid s] by blast
  have "er_outcome r = Expired \<longleftrightarrow> (\<exists>c. row_of cl_id cid (claims s) = Some c
      \<and> due_row now c \<and> \<not> inspect s cid)"
    unfolding expire_outcome [OF run] by (auto simp: expiry_outcome_def split: option.splits)
  moreover have "er_outcome r \<noteq> Expired \<longrightarrow> s' = s"
    using run by (auto simp: expire_eq Let_def expire_result_def split: option.splits if_splits)
  ultimately show ?thesis
    using run by (fastforce simp: due_row_def sets split: option.splits)
qed

theorem expiry_decides_under_the_row_witness:
  "\<exists>r s'. expire_one (hours 25) 100 claimed_campus = Inr (r, s') \<and> er_outcome r = Expired"
proof -
  obtain r s' where
    "expire_claim_if_due True ValidatedSubmissionInspector (Aware (hours 25)) 100 claimed_campus
      = Inr (r, s')"
    and iff: "er_outcome r = Expired \<longleftrightarrow> (\<exists>c. row_of cl_id 100 (claims claimed_campus) = Some c
          \<and> cl_status c \<in> {CLAIMED, ClaimStatus.REVISION_REQUIRED}
          \<and> cl_grace_deadline_at c \<le> hours 25
          \<and> (\<forall>d. cl_revision_deadline_at c = Some d \<longrightarrow> d \<le> hours 25)
          \<and> \<not> ValidatedSubmissionInspector claimed_campus 100)"
    using expiry_decides_under_the_row [of True ValidatedSubmissionInspector "hours 25" 100
        claimed_campus] by (elim exE conjE) (rule that; assumption)
  moreover have "er_outcome r = Expired"
    unfolding iff by (simp add: demo_defs ValidatedSubmissionInspector_def)
  ultimately show ?thesis by (simp add: expire_one_def)
qed

lemma demo_expiry: "expire_one (hours 25) 100 claimed_campus
    = Inr (expire_result (expired (hours 25) demo_claim) Expired,
           expiry_state True (hours 25) demo_claim claimed_campus)"
  by (simp add: expire_one_def expire_eq expiry_outcome_def due_row_iff demo_defs
      effective_expiry_deadline_def ValidatedSubmissionInspector_def)

lemma claimed_inv: "claims_inv claimed_campus"
  by (rule claim_keeps [OF demo_run demo_inv])

text \<open>An expiry ends the claim at the attempt's instant and changes nothing else in its row (the
  reward lock and the snapshots stay), frees its unit only if that is still OCCUPIED (RETIRED and
  COMPLETED units stay as they are), touches no other claim or unit, and pays nothing.\<close>

theorem expiry_ends_the_claim_and_frees_the_unit:
  assumes "expire_claim_if_due published inspect (Aware now) cid s = Inr (r, s')"
    and "er_outcome r = Expired" "claims_inv s"
  shows "\<exists>c. row_of cl_id cid (claims s) = Some c
     \<and> (\<forall>k. row_of cl_id k (claims s') = (if k = cid
          then Some (c\<lparr>cl_status := EXPIRED, cl_terminal_at := Some now\<rparr>)
          else row_of cl_id k (claims s)))
     \<and> (\<forall>k. row_of as_id k (assignments s') = map_option (\<lambda>a.
          if k = cl_assignment_id c \<and> as_availability_status a = OCCUPIED
          then a\<lparr>as_availability_status := AVAILABLE\<rparr> else a) (row_of as_id k (assignments s)))
     \<and> claims_inv s' \<and> ledger s' = ledger s \<and> wallets s' = wallets s"
proof -
  obtain c where c: "row_of cl_id cid (claims s) = Some c" and s': "s' = expiry_state published now c s"
    using assms(1,2) by (auto simp: expire_eq Let_def expire_result_def split: option.splits if_splits)
  have "row_of as_id k (assignments s') = map_option (\<lambda>a.
      if k = cl_assignment_id c \<and> as_availability_status a = OCCUPIED
      then a\<lparr>as_availability_status := AVAILABLE\<rparr> else a) (row_of as_id k (assignments s))" for k
    by (cases "row_of as_id k (assignments s)")
      (auto simp: s' assignments_expiry_state row_of_release released_def)
  then show ?thesis
    using c expire_keeps [OF assms(1,3)] row_of_expiry_state [OF c, of _ published now]
    by (intro exI [of _ c]) (simp add: s' expired_def)
qed

theorem expiry_ends_the_claim_and_frees_the_unit_witness:
  "\<exists>c. row_of cl_id 100 (claims claimed_campus) = Some c
     \<and> claims_inv (expiry_state True (hours 25) demo_claim claimed_campus)"
  using expiry_ends_the_claim_and_frees_the_unit
    [OF demo_expiry [unfolded expire_one_def] _ claimed_inv]
  by (auto simp: expire_result_def)

text \<open>Expiry is idempotent under redelivery: once an attempt answered EXPIRED, any further
  attempt, at any instant and with any inspector, answers ALREADY_TERMINAL with the first
  attempt's terminal instant and writes nothing, so there is no second event and no second
  release.\<close>

theorem expiry_replay_writes_nothing:
  assumes "expire_claim_if_due published inspect (Aware now) cid s = Inr (r, s')"
    and "er_outcome r = Expired"
  shows "\<exists>r'. expire_claim_if_due published' inspect' (Aware later) cid s' = Inr (r', s')
     \<and> er_outcome r' = AlreadyTerminal \<and> er_terminal_at r' = Some now"
proof -
  obtain c where c: "row_of cl_id cid (claims s) = Some c" and s': "s' = expiry_state published now c s"
    using assms by (auto simp: expire_eq Let_def expire_result_def split: option.splits if_splits)
  have "row_of cl_id cid (claims s') = Some (expired now c)"
    by (simp add: s' row_of_expiry_state [OF c])
  then show ?thesis
    by (simp add: expire_eq Let_def expiry_outcome_def due_row_iff expire_result_def)
qed

theorem expiry_replay_writes_nothing_witness:
  "\<exists>r'. expire_one (hours 30) 100 (expiry_state True (hours 25) demo_claim claimed_campus)
       = Inr (r', expiry_state True (hours 25) demo_claim claimed_campus)
     \<and> er_outcome r' = AlreadyTerminal \<and> er_terminal_at r' = Some (hours 25)"
  using expiry_replay_writes_nothing [OF demo_expiry [unfolded expire_one_def],
      of True ValidatedSubmissionInspector "hours 30"]
  by (simp add: expire_one_def expire_result_def)

text \<open>The worker's protection is strict: a due claim whose current submission is missing, is not
  machine-VALIDATED, or was returned by a teacher for revision is expired by the job.\<close>

theorem worker_expires_unprotected_claims:
  assumes "row_of cl_id cid (claims s) = Some c" "due_row now c"
    and "\<And>b sub. cl_latest_submission_id c = Some b \<Longrightarrow> row_of sb_id b (submissions s) = Some sub
       \<Longrightarrow> sb_validation_status sub \<noteq> VALIDATED \<or> sb_review_status sub = ReviewStatus.REVISION_REQUIRED"
  shows "\<exists>r. expire_one now cid s = Inr (r, expiry_state True now c s) \<and> er_outcome r = Expired"
proof -
  have "\<not> ValidatedSubmissionInspector s cid"
  proof (cases "\<exists>b sub. cl_latest_submission_id c = Some b \<and> row_of sb_id b (submissions s) = Some sub
      \<and> sb_validation_status sub = VALIDATED")
    case True
    then show ?thesis using assms(3) worker.returned_never_protects [OF assms(1)] by blast
  next
    case False
    then show ?thesis using worker.unvalidated_never_protects [OF assms(1)] by blast
  qed
  with assms(1,2) show ?thesis
    by (simp add: expire_one_def expire_eq expiry_outcome_def expire_result_def)
qed

theorem worker_expires_unprotected_claims_witness:
  "\<exists>r. expire_one (hours 25) 100 claimed_campus
     = Inr (r, expiry_state True (hours 25) demo_claim claimed_campus) \<and> er_outcome r = Expired"
  by (rule worker_expires_unprotected_claims)
    (simp_all add: demo_defs due_row_iff effective_expiry_deadline_def)



text \<open>The batch is ordered by grace deadline (ties by id), never longer than its limit, and
  holds due claims only: a backlog beyond the limit is served oldest deadline first.\<close>

theorem discovery_is_bounded_and_ordered:
  "length (collect_due_claim_ids lim now s) \<le> lim
   \<and> (\<exists>batch. collect_due_claim_ids lim now s = map cl_id batch \<and> set batch \<subseteq> set (claims s)
        \<and> sorted (map cl_grace_deadline_at batch) \<and> list_all (due_row now) batch)"
proof -
  let ?all = "sort_key cl_grace_deadline_at (sort_key cl_id (filter (due_row now) (claims s)))"
  have "sorted (map cl_grace_deadline_at (take lim ?all))"
    unfolding take_map [symmetric] by (rule sorted_wrt_take) simp
  moreover have "set (take lim ?all) \<subseteq> {c \<in> set (claims s). due_row now c}"
    by (rule order.trans [OF set_take_subset]) auto
  ultimately show ?thesis
    by (intro conjI exI [of _ "take lim ?all"])
      (auto simp: collect_due_claim_ids_def take_map list_all_iff)
qed

end
