(* ===== verification/Abandon.thy ===== *)
theory Abandon
  imports Expiry_Facts
begin

text \<open>
  Student-initiated abandon (\<open>tasks/abandon_service.py\<close>): the natural-day window of the business
  timezone, the daily limit and its store-backed provider, and the abandon transaction; then its
  correctness.  The timezone database is not part of the program: a zone is a parameter, the
  local calendar day of an instant and the UTC instant of a local midnight, and what the daily
  limit relies on is the locale \<open>business_zone\<close>.
\<close>

section \<open>The natural-day window\<close>

record zone =
  zn_key :: string
  zn_local_day :: "instant \<Rightarrow> int"
  zn_midnight :: "int \<Rightarrow> instant"

definition business_day_window :: "datetime \<Rightarrow> zone \<Rightarrow> deadline_error + (instant \<times> instant)" where
  "business_day_window at tz = (case require_aware at ''now'' of Inl e \<Rightarrow> Inl e | Inr now \<Rightarrow>
     let local_date = zn_local_day tz now
     in Inr (zn_midnight tz local_date, zn_midnight tz (local_date + 1)))"

section \<open>The daily limit\<close>

definition DAILY_ABANDON_LIMIT :: int where "DAILY_ABANDON_LIMIT = 2"

definition ABANDONABLE_STATUSES :: "ClaimStatus list" where
  "ABANDONABLE_STATUSES = [CLAIMED, ClaimStatus.REVISION_REQUIRED]"

definition CLAIM_ABANDONED :: string where "CLAIM_ABANDONED = ''CLAIM_ABANDONED''"

datatype abandon_error =
    AccountGate claim_error
  | ClaimNotFound uuid
  | ClaimNotOwned uuid uuid
  | ClaimNotAbandonable ClaimStatus
  | AbandonLimitReached int instant instant string
  | AbandonValueError string

fun abandon_envelope :: "abandon_error \<Rightarrow> business_error option" where
  "abandon_envelope (AccountGate e) = claim_envelope e"
| "abandon_envelope (ClaimNotFound c) = Some (Business NOT_FOUND 404 [(''claim_id'', JUuid c)])"
| "abandon_envelope (ClaimNotOwned c u) = Some (Business PERMISSION_DENIED 403
     [(''claim_id'', JUuid c), (''user_id'', JUuid u)])"
| "abandon_envelope (ClaimNotAbandonable st) = Some (Business CLAIM_NOT_ABANDONABLE 409
     [(''claim_status'', JStr (claim_status_value st)),
      (''abandonable_statuses'',
        JList (map (\<lambda>x. JStr (claim_status_value x)) ABANDONABLE_STATUSES))])"
| "abandon_envelope (AbandonLimitReached n a b tz) = Some (Business ABANDON_LIMIT_REACHED 409
     [(''limit'', JInt n), (''window_start_at'', JTime a), (''window_end_at'', JTime b),
      (''business_timezone'', JStr tz)])"
| "abandon_envelope (AbandonValueError m) = None"

definition require_daily_limit :: "int \<Rightarrow> string \<Rightarrow> abandon_error + unit" where
  "require_daily_limit limit origin =
     (if limit < 0 then Inl (AbandonValueError origin) else Inr ())"

text \<open>Python's \<open>int(text)\<close> in base ten: surrounding space, a sign, digits with single underscores.\<close>

fun digits_value :: "int \<Rightarrow> bool \<Rightarrow> string \<Rightarrow> int option" where
  "digits_value acc after_digit [] = (if after_digit then Some acc else None)"
| "digits_value acc after_digit (c # cs) =
     (let n = (of_char c :: int) in
      if 48 \<le> n \<and> n \<le> 57 then digits_value (10 * acc + (n - 48)) True cs
      else if c = CHR ''_'' \<and> after_digit then digits_value acc False cs else None)"

definition py_int :: "string \<Rightarrow> int option" where
  "py_int text = (let t = py_strip text in
     if t \<noteq> [] \<and> hd t = CHR ''-'' then map_option uminus (digits_value 0 False (tl t))
     else if t \<noteq> [] \<and> hd t = CHR ''+'' then digits_value 0 False (tl t)
     else digits_value 0 False t)"

definition SystemDailyAbandonLimit :: "string option \<Rightarrow> int \<Rightarrow> abandon_error + int" where
  "SystemDailyAbandonLimit configured fallback =
     (case configured of
        None \<Rightarrow> (case require_daily_limit fallback ''the Settings seed'' of
            Inl e \<Rightarrow> Inl e | Inr _ \<Rightarrow> Inr fallback)
      | Some text \<Rightarrow> (case py_int text of
            None \<Rightarrow> Inl (AbandonValueError ''ABANDON_DAILY_LIMIT row is not decimal text'')
          | Some limit \<Rightarrow> (case require_daily_limit limit ''the ABANDON_DAILY_LIMIT row'' of
              Inl e \<Rightarrow> Inl e | Inr _ \<Rightarrow> Inr limit)))"

text \<open>The injected limit: a plain int checked at construction, or a provider and its answer.\<close>

datatype daily_limit = PlainLimit int | ProvidedLimit int

definition AbandonService_init :: "daily_limit \<Rightarrow> abandon_error + daily_limit" where
  "AbandonService_init l = (case l of
       PlainLimit n \<Rightarrow> (case require_daily_limit n ''the constructor'' of
           Inl e \<Rightarrow> Inl e | Inr _ \<Rightarrow> Inr l)
     | ProvidedLimit n \<Rightarrow> Inr l)"

definition daily_limit_now :: "daily_limit \<Rightarrow> abandon_error + int" where
  "daily_limit_now l = (let limit = (case l of PlainLimit n \<Rightarrow> n | ProvidedLimit n \<Rightarrow> n) in
     if limit < 0 then Inl (AbandonValueError ''daily abandon limit provider'') else Inr limit)"

section \<open>Abandoning\<close>

definition abandoned_within :: "uuid \<Rightarrow> instant \<Rightarrow> instant \<Rightarrow> claim \<Rightarrow> bool" where
  "abandoned_within u a b c \<longleftrightarrow> cl_user_id c = u \<and> cl_status c = ABANDONED
     \<and> (case cl_terminal_at c of None \<Rightarrow> False | Some t \<Rightarrow> a \<le> t \<and> t < b)"

definition abandon_claim ::
  "zone \<Rightarrow> daily_limit \<Rightarrow> instant \<Rightarrow> uuid \<Rightarrow> uuid \<Rightarrow> 'a campus_db_scheme
    \<Rightarrow> abandon_error + (claim \<times> 'a campus_db_scheme)" where
  "abandon_claim tz lim now user_id claim_id s =
     (case row_of us_id user_id (users s) of
        None \<Rightarrow> Inl (AccountGate (UserNotFound user_id)) | Some acct \<Rightarrow>
      if us_role acct \<noteq> STUDENT
      then Inl (AccountGate (ClaimerNotStudent user_id (us_role acct)))
      else if us_status acct \<noteq> UserStatus.ACTIVE
      then Inl (AccountGate (AccountNotActive user_id))
      else case row_of cl_id claim_id (claims s) of None \<Rightarrow> Inl (ClaimNotFound claim_id) | Some c \<Rightarrow>
      if cl_user_id c \<noteq> user_id then Inl (ClaimNotOwned claim_id user_id)
      else if cl_status c = ABANDONED then Inr (c, s)
      else if cl_status c \<notin> set ABANDONABLE_STATUSES then Inl (ClaimNotAbandonable (cl_status c))
      else case business_day_window (Aware now) tz of
        Inl e \<Rightarrow> Inl (AbandonValueError ''now'') | Inr (window_start, window_end) \<Rightarrow>
      case daily_limit_now lim of Inl e \<Rightarrow> Inl e | Inr limit \<Rightarrow>
      let used = count_rows (abandoned_within user_id window_start window_end) (claims s) in
      if limit \<le> used then Inl (AbandonLimitReached limit window_start window_end (zn_key tz))
      else
        let c1 = c\<lparr>cl_status := ABANDONED, cl_terminal_at := Some now\<rparr>;
            s1 = put_claim c1 (release_assignment (cl_assignment_id c) s)
        in Inr (c1, publish_event (claim_event CLAIM_ABANDONED c1 now) s1))"

section \<open>The contract of a business zone\<close>

text \<open>
  The local day of an instant is the one whose two midnights enclose it.  Zones that repeat
  their midnight when clocks go back break the second law at that hour; fixed-offset zones,
  among them the deployed Asia/Shanghai, satisfy both.
\<close>

locale business_zone =
  fixes tz :: zone
  assumes encloses: "zn_midnight tz (zn_local_day tz t) \<le> t \<and> t < zn_midnight tz (zn_local_day tz t + 1)"
    and only_day: "zn_midnight tz d \<le> t \<Longrightarrow> t < zn_midnight tz (d + 1) \<Longrightarrow> zn_local_day tz t = d"
begin

lemma in_window_iff: "zn_midnight tz (zn_local_day tz now) \<le> t
    \<and> t < zn_midnight tz (zn_local_day tz now + 1) \<longleftrightarrow> zn_local_day tz t = zn_local_day tz now"
  using encloses [of t] only_day [of "zn_local_day tz now" t] by metis

lemma window_counts_the_day:
  "abandoned_within u (zn_midnight tz (zn_local_day tz now)) (zn_midnight tz (zn_local_day tz now + 1)) c
    \<longleftrightarrow> cl_user_id c = u \<and> cl_status c = ABANDONED
      \<and> (\<exists>t. cl_terminal_at c = Some t \<and> zn_local_day tz t = zn_local_day tz now)"
  using in_window_iff [of now] by (auto simp: abandoned_within_def split: option.splits)

end

definition fixed_offset_zone :: "string \<Rightarrow> int \<Rightarrow> zone" where
  "fixed_offset_zone key off = \<lparr>zn_key = key, zn_local_day = (\<lambda>t. (t + off) div hours 24),
     zn_midnight = (\<lambda>d. d * hours 24 - off)\<rparr>"

lemma day_div: "0 < (n :: int) \<Longrightarrow> d * n \<le> x \<and> x < (d + 1) * n \<longleftrightarrow> x div n = d"
proof
  assume n: "0 < n" and "d * n \<le> x \<and> x < (d + 1) * n"
  then show "x div n = d"
    by (intro int_div_pos_eq [of x n d "x - d * n"]) (simp_all add: algebra_simps)
next
  assume "0 < n" "x div n = d"
  then have "0 \<le> x mod n" "x mod n < n" "d * n + x mod n = x"
    using div_mult_mod_eq [of x n] by simp_all
  then show "d * n \<le> x \<and> x < (d + 1) * n"
    unfolding distrib_right by linarith
qed

interpretation fixed_offset: business_zone "fixed_offset_zone key off" for key off
proof
  have pos: "0 < hours 24" by (simp add: hours_def)
  fix t d :: int
  show "zn_midnight (fixed_offset_zone key off) (zn_local_day (fixed_offset_zone key off) t) \<le> t
      \<and> t < zn_midnight (fixed_offset_zone key off) (zn_local_day (fixed_offset_zone key off) t + 1)"
    using day_div [OF pos, of "(t + off) div hours 24" "t + off"]
    by (simp add: fixed_offset_zone_def)
  assume "zn_midnight (fixed_offset_zone key off) d \<le> t"
    "t < zn_midnight (fixed_offset_zone key off) (d + 1)"
  then show "zn_local_day (fixed_offset_zone key off) t = d"
    using day_div [OF pos, of d "t + off"] by (simp add: fixed_offset_zone_def)
qed

section \<open>What an abandon does\<close>

definition abandoned :: "instant \<Rightarrow> claim \<Rightarrow> claim" where
  "abandoned now c = c\<lparr>cl_status := ABANDONED, cl_terminal_at := Some now\<rparr>"

lemma abandoned_simps [simp]:
  "cl_id (abandoned now c) = cl_id c" "cl_status (abandoned now c) = ABANDONED"
  "cl_assignment_id (abandoned now c) = cl_assignment_id c"
  "cl_user_id (abandoned now c) = cl_user_id c" "cl_task_id (abandoned now c) = cl_task_id c"
  "cl_terminal_at (abandoned now c) = Some now"
  "\<not> active_claim (abandoned now c)" "same_work c (abandoned now c)"
  by (simp_all add: abandoned_def active_iff same_work_def)

definition abandon_state :: "instant \<Rightarrow> claim \<Rightarrow> 'a campus_db_scheme \<Rightarrow> 'a campus_db_scheme" where
  "abandon_state now c s = publish_event (claim_event CLAIM_ABANDONED (abandoned now c) now)
     (put_claim (abandoned now c) (release_assignment (cl_assignment_id c) s))"

definition used_today :: "zone \<Rightarrow> instant \<Rightarrow> uuid \<Rightarrow> 'a campus_db_scheme \<Rightarrow> int" where
  "used_today tz now u s = count_rows (abandoned_within u (zn_midnight tz (zn_local_day tz now))
     (zn_midnight tz (zn_local_day tz now + 1))) (claims s)"

lemma daily_limit_now_Inr: "daily_limit_now l = Inr n \<longleftrightarrow> 0 \<le> n \<and> (l = PlainLimit n \<or> l = ProvidedLimit n)"
  by (cases l) (auto simp: daily_limit_now_def)

lemma abandon_Inr: "abandon_claim tz lim now u cid s = Inr (c', s') \<longleftrightarrow>
   (\<exists>acct c. row_of us_id u (users s) = Some acct \<and> us_role acct = STUDENT
      \<and> us_status acct = UserStatus.ACTIVE \<and> row_of cl_id cid (claims s) = Some c \<and> cl_user_id c = u
      \<and> (cl_status c = ABANDONED \<and> c' = c \<and> s' = s
         \<or> cl_status c \<in> {CLAIMED, ClaimStatus.REVISION_REQUIRED}
           \<and> (\<exists>n. daily_limit_now lim = Inr n \<and> used_today tz now u s < n)
           \<and> c' = abandoned now c \<and> s' = abandon_state now c s))"
proof (cases "row_of us_id u (users s)")
  case None
  then show ?thesis by (simp add: abandon_claim_def)
next
  case acct: (Some acct)
  show ?thesis
  proof (cases "row_of cl_id cid (claims s)")
    case None
    with acct show ?thesis by (simp add: abandon_claim_def)
  next
    case c: (Some c)
    show ?thesis
      using acct c
      by (cases "cl_status c"; cases "daily_limit_now lim")
        (auto simp: abandon_claim_def business_day_window_def require_aware_def Let_def
          used_today_def ABANDONABLE_STATUSES_def abandon_state_def abandoned_def)
  qed
qed

lemma row_of_abandon_state:
  assumes "row_of cl_id cid (claims s) = Some c"
  shows "row_of cl_id k (claims (abandon_state now c s)) =
    (if k = cid then Some (abandoned now c) else row_of cl_id k (claims s))"
  using assms row_of_SomeD [OF assms]
  by (auto simp: abandon_state_def claims_put_claim row_of_update_row)

lemma claims_abandon_state:
  "claims (abandon_state now c s) = update_row cl_id (cl_id c) (\<lambda>_. abandoned now c) (claims s)"
  by (simp add: abandon_state_def claims_put_claim)

lemma abandon_state_keeps:
  assumes "claims_inv s" "row_of cl_id cid (claims s) = Some c" "active_claim c"
  shows "claims_inv (abandon_state now c s)"
proof -
  have "cl_id c = cid" using row_of_SomeD [OF assms(2)] by simp
  with assms show ?thesis
    unfolding abandon_state_def claims_inv_frames by (intro finish_keeps) auto
qed

lemma abandon_keeps:
  assumes "abandon_claim tz lim now u cid s = Inr (c', s')" "claims_inv s"
  shows "claims_inv s'"
  using assms unfolding abandon_Inr
  by (auto simp: active_iff intro: abandon_state_keeps)

lemma used_today_after:
  assumes "claims_inv s" "row_of cl_id cid (claims s) = Some c" "cl_user_id c = u"
    and "cl_status c \<noteq> ABANDONED"
    and "zn_midnight tz (zn_local_day tz now) \<le> now" "now < zn_midnight tz (zn_local_day tz now + 1)"
  shows "used_today tz now u (abandon_state now c s) = used_today tz now u s + 1"
proof -
  have "cl_id c = cid" using row_of_SomeD [OF assms(2)] by simp
  then show ?thesis
    using count_rows_update_row [OF claims_inv_ids [OF assms(1)] assms(2)] assms(3-)
    by (simp add: used_today_def claims_abandon_state abandoned_within_def)
qed

section \<open>Properties\<close>

text \<open>On a fixed-offset business zone an abandon is accepted exactly when the caller is an ACTIVE
  student who owns the claim, and either the claim is already ABANDONED (a replay) or it still
  needs student action and the student's abandons of the local calendar day of this instant are
  fewer than a non-negative limit; with the limit 0 only replays are accepted.\<close>

theorem abandon_accepted_iff:
  "ok (abandon_claim (fixed_offset_zone key off) lim now u cid s) \<longleftrightarrow>
    (\<exists>acct c. row_of us_id u (users s) = Some acct \<and> us_role acct = STUDENT
      \<and> us_status acct = UserStatus.ACTIVE \<and> row_of cl_id cid (claims s) = Some c \<and> cl_user_id c = u
      \<and> (cl_status c = ABANDONED \<or> cl_status c \<in> {CLAIMED, ClaimStatus.REVISION_REQUIRED}
          \<and> (\<exists>n. lim \<in> {PlainLimit n, ProvidedLimit n}
              \<and> count_rows (\<lambda>d. cl_user_id d = u \<and> cl_status d = ABANDONED
                  \<and> (\<exists>t. cl_terminal_at d = Some t
                      \<and> (t + off) div hours 24 = (now + off) div hours 24)) (claims s) < n)))"
proof -
  have used: "used_today (fixed_offset_zone key off) now u s = count_rows (\<lambda>d. cl_user_id d = u
      \<and> cl_status d = ABANDONED \<and> (\<exists>t. cl_terminal_at d = Some t
          \<and> (t + off) div hours 24 = (now + off) div hours 24)) (claims s)"
    unfolding used_today_def fixed_offset.window_counts_the_day by (simp add: fixed_offset_zone_def)
  have lim: "(\<exists>n. daily_limit_now lim = Inr n \<and> used_today (fixed_offset_zone key off) now u s < n)
      \<longleftrightarrow> (\<exists>n. lim \<in> {PlainLimit n, ProvidedLimit n}
            \<and> used_today (fixed_offset_zone key off) now u s < n)"
    by (auto simp: daily_limit_now_Inr used_today_def)
      (metis count_rows_nonneg less_le_not_le linorder_linear order.trans)+
  show ?thesis
    unfolding ok_iff split_paired_Ex abandon_Inr used lim [unfolded used] by blast
qed

text \<open>A fresh abandon (not a replay) counts once against the day it happens: on a fixed-offset
  zone the student's abandons of that local day go up by exactly one and stay within the limit,
  the claim ends as ABANDONED at this instant, its unit is free again only if it was OCCUPIED, no
  other claim row changes, nothing is paid, and the tables keep their invariant.\<close>

theorem abandon_counts_and_releases:
  assumes "abandon_claim (fixed_offset_zone key off) lim now u cid s = Inr (c', s')"
    and "claims_inv s" "row_of cl_id cid (claims s) = Some c" "cl_status c \<noteq> ABANDONED"
  shows "c' = c\<lparr>cl_status := ABANDONED, cl_terminal_at := Some now\<rparr>
     \<and> (\<forall>k. row_of cl_id k (claims s') = (if k = cid then Some c' else row_of cl_id k (claims s)))
     \<and> (\<forall>k. row_of as_id k (assignments s') = map_option (\<lambda>a.
          if k = cl_assignment_id c \<and> as_availability_status a = OCCUPIED
          then a\<lparr>as_availability_status := AVAILABLE\<rparr> else a) (row_of as_id k (assignments s)))
     \<and> used_today (fixed_offset_zone key off) now u s'
         = used_today (fixed_offset_zone key off) now u s + 1
     \<and> (\<exists>n. lim \<in> {PlainLimit n, ProvidedLimit n}
          \<and> used_today (fixed_offset_zone key off) now u s' \<le> n)
     \<and> claims_inv s' \<and> ledger s' = ledger s \<and> wallets s' = wallets s"
proof -
  let ?z = "fixed_offset_zone key off"
  obtain n where owner: "cl_user_id c = u" and n: "daily_limit_now lim = Inr n" "used_today ?z now u s < n"
    and c': "c' = abandoned now c" and s': "s' = abandon_state now c s"
    using assms(1,3,4) unfolding abandon_Inr by auto
  have "zn_midnight ?z (zn_local_day ?z now) \<le> now" "now < zn_midnight ?z (zn_local_day ?z now + 1)"
    using fixed_offset.encloses by blast+
  then have count: "used_today ?z now u s' = used_today ?z now u s + 1"
    unfolding s' by (rule used_today_after [OF assms(2,3) owner assms(4)])
  have units: "row_of as_id k (assignments s') = map_option (\<lambda>a.
      if k = cl_assignment_id c \<and> as_availability_status a = OCCUPIED
      then a\<lparr>as_availability_status := AVAILABLE\<rparr> else a) (row_of as_id k (assignments s))" for k
    by (cases "row_of as_id k (assignments s)")
      (auto simp: s' abandon_state_def row_of_release released_def)
  have lim: "lim \<in> {PlainLimit n, ProvidedLimit n} \<and> used_today ?z now u s' \<le> n"
    using n count by (auto simp: daily_limit_now_Inr)
  have rows: "row_of cl_id k (claims s') = (if k = cid then Some c' else row_of cl_id k (claims s))" for k
    by (simp add: s' c' row_of_abandon_state [OF assms(3)])
  have "ledger s' = ledger s \<and> wallets s' = wallets s" by (simp add: s' abandon_state_def)
  with rows units count lim abandon_keeps [OF assms(1,2)] show ?thesis
    by (intro conjI exI [of _ n] allI) (simp_all add: c' abandoned_def)
qed

definition shanghai :: zone where
  "shanghai = fixed_offset_zone ''Asia/Shanghai'' (hours 8)"

lemma demo_abandon: "abandon_claim shanghai (PlainLimit DAILY_ABANDON_LIMIT) (hours 2) 7 100
    claimed_campus = Inr (abandoned (hours 2) demo_claim, abandon_state (hours 2) demo_claim claimed_campus)"
  unfolding abandon_Inr
  by (simp add: demo_defs daily_limit_now_def used_today_def abandoned_within_def
      DAILY_ABANDON_LIMIT_def)

theorem abandon_counts_and_releases_witness:
  "used_today shanghai (hours 2) 7 (abandon_state (hours 2) demo_claim claimed_campus) \<le> 2"
  using abandon_counts_and_releases [OF demo_abandon [unfolded shanghai_def] claimed_inv, of demo_claim]
  by (simp add: shanghai_def demo_defs DAILY_ABANDON_LIMIT_def)

text \<open>Replaying a successful abandon, at any later instant and under any limit, returns the same
  terminal row and writes nothing.\<close>

theorem abandon_replay_writes_nothing:
  assumes "abandon_claim tz lim now u cid s = Inr (c', s')"
  shows "abandon_claim tz' lim' later u cid s' = Inr (c', s')"
  using assms unfolding abandon_Inr
  by (auto simp: abandon_Inr row_of_abandon_state) (simp_all add: abandon_state_def)

theorem abandon_replay_writes_nothing_witness:
  "abandon_claim shanghai (PlainLimit 0) (hours 3) 7 100
     (abandon_state (hours 2) demo_claim claimed_campus)
   = Inr (abandoned (hours 2) demo_claim, abandon_state (hours 2) demo_claim claimed_campus)"
  by (rule abandon_replay_writes_nothing [OF demo_abandon])

text \<open>A unit the student handed back is never dealt to that student again: whatever the random
  order, the rows other transactions hold and the later instant are, a claim on the state an
  abandon left gets another unit.\<close>

theorem abandoned_unit_never_returns:
  assumes "abandon_claim tz lim now u cid s = Inr (c', s')" "claims_inv s"
    and "claim_random_assignment limit wired new later rnd locked u t s' = Inr (d, s2)"
  shows "cl_assignment_id d \<noteq> cl_assignment_id c'"
proof -
  have "c' \<in> set (claims s')" "cl_user_id c' = u" "cl_status c' = ABANDONED"
    using assms(1) unfolding abandon_Inr
    by (auto dest: row_of_SomeD row_of_SomeD [OF trans [OF row_of_abandon_state]])
  moreover obtain acct task a dl where "free_work locked u t a s'" "d = new_claim new a task u later dl"
    by (rule claim_effect [OF assms(3) abandon_keeps [OF assms(1,2)]]; rule that; assumption)
  ultimately show ?thesis by (auto simp: free_work_def)
qed

definition two_units :: campus_db where
  "two_units = claimed_campus\<lparr>assignments := assignments claimed_campus
     @ [demo_assignment\<lparr>as_id := 12\<rparr>]\<rparr>"

lemma two_units_inv: "claims_inv two_units"
  by (simp add: claims_inv_def active_unique_def held_def two_units_def demo_defs active_iff)

lemma two_units_abandon: "abandon_claim shanghai (PlainLimit 2) (hours 2) 7 100 two_units
    = Inr (abandoned (hours 2) demo_claim, abandon_state (hours 2) demo_claim two_units)"
  unfolding abandon_Inr
  by (simp add: two_units_def demo_defs daily_limit_now_def used_today_def abandoned_within_def)

theorem abandoned_unit_never_returns_witness:
  "\<exists>d s2. claim_random_assignment 3 True 101 (hours 3) (\<lambda>_. 0) (\<lambda>_. False) 7 1
       (abandon_state (hours 2) demo_claim two_units) = Inr (d, s2)
     \<and> cl_assignment_id d \<noteq> 10"
proof -
  let ?run = "claim_random_assignment 3 True 101 (hours 3) (\<lambda>_. 0) (\<lambda>_. False) 7 1
       (abandon_state (hours 2) demo_claim two_units)"
  have "isl ?run = False" by code_simp
  then obtain d s2 where run: "?run = Inr (d, s2)" by (cases ?run) auto
  have "cl_assignment_id (abandoned (hours 2) demo_claim) = 10" by (simp add: demo_defs)
  with run abandoned_unit_never_returns [OF two_units_abandon two_units_inv run] show ?thesis by auto
qed

end
