(* ===== verification/Reward_Lock.thy ===== *)
theory Reward_Lock
  imports Abandon
begin

text \<open>
  The reward lock (\<open>submissions/reward_lock_service.py\<close>): what happens to the claim when a
  submission passes machine validation, with the guard against an unfinished file cleanup
  (\<open>submissions/cleanup_claim.py\<close>); then its correctness.
\<close>

section \<open>Errors and the tier ladder\<close>

datatype lock_error =
    SubmissionNotFound uuid
  | SubmissionNotValidated uuid ValidationStatus
  | RewardWindowInconsistent uuid instant instant
  | CleanupClaimConflict uuid "uuid list"
  | DanglingClaim
  | UnknownFraction

fun lock_envelope :: "lock_error \<Rightarrow> business_error option" where
  "lock_envelope (SubmissionNotFound b) =
     Some (Business NOT_FOUND 404 [(''submission_id'', JUuid b)])"
| "lock_envelope (SubmissionNotValidated b st) = Some (Business VALIDATION_ERROR 409
     [(''submission_id'', JUuid b), (''validation_status'', JStr (validation_status_value st))])"
| "lock_envelope (RewardWindowInconsistent b t g) = Some (Business SUBMISSION_WINDOW_CLOSED 500
     [(''submission_id'', JUuid b), (''submitted_at'', JTime t), (''grace_deadline_at'', JTime g)])"
| "lock_envelope (CleanupClaimConflict c bs) = Some (Business CONFLICT 409
     [(''claim_id'', JUuid c), (''submission_ids'', JList (map JUuid bs))])"
| "lock_envelope DanglingClaim = None"
| "lock_envelope UnknownFraction = None"

definition REWARD_LOCKED :: string where "REWARD_LOCKED = ''REWARD_LOCKED''"

definition REVIEW_ENTRY_STATUSES :: "ClaimStatus list" where
  "REVIEW_ENTRY_STATUSES = [CLAIMED, ClaimStatus.VALIDATING, ClaimStatus.REVISION_REQUIRED]"

definition TIER_PERCENT_BY_FRACTION :: "(decimal \<times> int) list" where
  "TIER_PERCENT_BY_FRACTION = [(FRACTION_FULL, 100), (FRACTION_EARLY, 80), (FRACTION_MID, 50),
     (FRACTION_LATE, 20)]"

section \<open>The cleanup guard\<close>

definition unfinished_cleanup :: "uuid \<Rightarrow> submission \<Rightarrow> bool" where
  "unfinished_cleanup cid b \<longleftrightarrow> sb_claim_id b = cid \<and> sb_deleted_at b = None
     \<and> (sb_cleanup_claimed_at b \<noteq> None \<or> sb_cleanup_claim_token b \<noteq> None)"

definition ensure_no_active_cleanup_claim ::
  "uuid \<Rightarrow> 'a campus_db_scheme \<Rightarrow> lock_error + unit" where
  "ensure_no_active_cleanup_claim cid s =
     (let claimed = map sb_id (filter (unfinished_cleanup cid) (submissions s))
      in if claimed \<noteq> [] then Inl (CleanupClaimConflict cid claimed) else Inr ())"

section \<open>The transition\<close>

text \<open>The tier, the points and the reason of a lock to establish, or none when one is kept.\<close>

definition lock_to_establish ::
  "submission \<Rightarrow> claim \<Rightarrow> lock_error + (int \<times> int \<times> lock_reason) option" where
  "lock_to_establish sub c =
     (if cl_reward_lock_status c \<notin> {NONE, INVALIDATED} then Inr None
      else
        let attempt = (case reward_fraction (Aware (sb_submitted_at sub))
                (Aware (cl_deadline_at c)) (Aware (cl_grace_deadline_at c)) of
              Inr f \<Rightarrow> Inr (f, False)
            | Inl e \<Rightarrow> (if cl_reward_lock_status c \<noteq> INVALIDATED
                then Inl (RewardWindowInconsistent (sb_id sub) (sb_submitted_at sub)
                            (cl_grace_deadline_at c))
                else Inr (FRACTION_LATE, True)))
        in case attempt of Inl e \<Rightarrow> Inl e | Inr (f, clamped) \<Rightarrow>
           case map_of TIER_PERCENT_BY_FRACTION f of None \<Rightarrow> Inl UnknownFraction | Some tier \<Rightarrow>
           case reward_points (PyInt (cl_base_reward_points_snapshot c)) (PyDecimal f) of
             Inl e \<Rightarrow> Inl UnknownFraction
           | Inr points \<Rightarrow> Inr (Some (tier, points,
               if clamped then RelockClamped
               else if cl_reward_lock_status c = NONE then FirstLock else Relock)))"

definition bump_latest :: "claim \<Rightarrow> submission \<Rightarrow> 'a campus_db_scheme \<Rightarrow> uuid option" where
  "bump_latest c sub s =
     (if cl_latest_submission_id c = Some (sb_id sub) then cl_latest_submission_id c
      else case cl_latest_submission_id c of None \<Rightarrow> Some (sb_id sub)
      | Some latest \<Rightarrow> (case row_of sb_id latest (submissions s) of
            None \<Rightarrow> Some (sb_id sub)
          | Some cur \<Rightarrow> (if sb_version sub \<le> sb_version cur then Some latest
                         else Some (sb_id sub))))"

definition reward_locked_event ::
  "claim \<Rightarrow> submission \<Rightarrow> RewardLockStatus \<Rightarrow> int \<Rightarrow> int \<Rightarrow> instant \<Rightarrow> domain_event" where
  "reward_locked_event c sub from tier points now =
     \<lparr>ev_type = REWARD_LOCKED, ev_aggregate_type = ''AssignmentClaim'', ev_aggregate_id = cl_id c,
      ev_occurred_at = now,
      ev_payload = [(''user_id'', JUuid (cl_user_id c)), (''task_id'', JUuid (cl_task_id c)),
        (''submission_id'', JUuid (sb_id sub)),
        (''lock_status_from'', JStr (lock_status_value from)),
        (''lock_status_to'', JStr (lock_status_value PROVISIONAL)),
        (''reward_tier_locked'', JInt tier), (''locked_reward_points'', JInt points),
        (''reward_locked_at'', JTime (sb_submitted_at sub))]\<rparr>"

definition on_validation_passed ::
  "instant \<Rightarrow> uuid \<Rightarrow> 'a campus_db_scheme \<Rightarrow> lock_error + (claim \<times> 'a campus_db_scheme)" where
  "on_validation_passed now submission_id s =
     (case row_of sb_id submission_id (submissions s) of
        None \<Rightarrow> Inl (SubmissionNotFound submission_id) | Some sub \<Rightarrow>
      case row_of cl_id (sb_claim_id sub) (claims s) of None \<Rightarrow> Inl DanglingClaim | Some c \<Rightarrow>
      if sb_validation_status sub \<noteq> VALIDATED
      then Inl (SubmissionNotValidated submission_id (sb_validation_status sub))
      else if cl_status c \<in> set TERMINAL_CLAIM_STATUSES then Inr (c, s)
      else case lock_to_establish sub c of Inl e \<Rightarrow> Inl e | Inr established \<Rightarrow>
      let c1 = (case established of None \<Rightarrow> c | Some (tier, points, r) \<Rightarrow>
            c\<lparr>cl_reward_lock_status := PROVISIONAL, cl_reward_tier_locked := Some tier,
              cl_locked_reward_points := Some points,
              cl_reward_locked_at := Some (sb_submitted_at sub)\<rparr>);
          s1 = (case established of None \<Rightarrow> s | Some (tier, points, r) \<Rightarrow>
            s\<lparr>lock_history := lock_history s @
              [\<lparr>lh_claim_id = cl_id c, lh_submission_id = Some (sb_id sub),
                lh_lock_status_from = Some (cl_reward_lock_status c),
                lh_lock_status_to = PROVISIONAL, lh_reward_tier_locked = Some tier,
                lh_locked_reward_points = Some points, lh_changed_by = None,
                lh_reason = Some r\<rparr>]\<rparr>)
      in case (if cl_status c \<in> set REVIEW_ENTRY_STATUSES
               then ensure_no_active_cleanup_claim (cl_id c) s else Inr ()) of
           Inl e \<Rightarrow> Inl e
         | Inr _ \<Rightarrow>
           let c2 = (if cl_status c \<in> set REVIEW_ENTRY_STATUSES
                     then c1\<lparr>cl_status := ClaimStatus.UNDER_REVIEW\<rparr> else c1);
               c3 = c2\<lparr>cl_latest_submission_id := bump_latest c2 sub s\<rparr>;
               s2 = put_claim c3 s1
           in Inr (c3, case established of None \<Rightarrow> s2 | Some (tier, points, r) \<Rightarrow>
                publish_event (reward_locked_event c3 sub (cl_reward_lock_status c) tier points now)
                  s2))"

section \<open>The lock as a state machine\<close>

text \<open>
  What the lock columns of a claim must say together: a live lock carries a tier, the floored
  percentage of the claim's base points and the instant it was earned; no lock carries nothing.
\<close>

definition lock_ok :: "claim \<Rightarrow> bool" where
  "lock_ok c = (if cl_reward_lock_status c \<in> {NONE, INVALIDATED}
     then cl_reward_tier_locked c = None \<and> cl_locked_reward_points c = None
       \<and> cl_reward_locked_at c = None
     else cl_reward_locked_at c \<noteq> None \<and> cl_reward_tier_locked c \<noteq> None
       \<and> the (cl_reward_tier_locked c) \<in> {100, 80, 50, 20}
       \<and> cl_locked_reward_points c
           = Some (cl_base_reward_points_snapshot c * the (cl_reward_tier_locked c) div 100))"

text \<open>The tier of a submission instant: the ladder inside the window, the lowest tier after it.\<close>

definition clamped_tier :: "instant \<Rightarrow> instant \<Rightarrow> instant \<Rightarrow> int" where
  "clamped_tier t d g = (if g \<le> t then 20 else tier_percent t d)"

lemma clamped_tier_cases: "clamped_tier t d g \<in> {100, 80, 50, 20}"
  by (simp add: clamped_tier_def tier_percent_def)

lemma lock_to_establish_eq: "lock_to_establish sub c =
    (if cl_reward_lock_status c \<notin> {NONE, INVALIDATED} then Inr None
     else if cl_grace_deadline_at c \<le> sb_submitted_at sub \<and> cl_reward_lock_status c = NONE
     then Inl (RewardWindowInconsistent (sb_id sub) (sb_submitted_at sub) (cl_grace_deadline_at c))
     else let tier = clamped_tier (sb_submitted_at sub) (cl_deadline_at c) (cl_grace_deadline_at c)
       in Inr (Some (tier, cl_base_reward_points_snapshot c * tier div 100,
         if cl_grace_deadline_at c \<le> sb_submitted_at sub then RelockClamped
         else if cl_reward_lock_status c = NONE then FirstLock else Relock)))"
  by (auto simp: lock_to_establish_def reward_fraction_aware TIER_PERCENT_BY_FRACTION_def fractions
      clamped_tier_def tier_percent_def Let_def)

definition locked_claim :: "submission \<Rightarrow> claim \<Rightarrow> claim" where
  "locked_claim sub c = (if cl_reward_lock_status c \<notin> {NONE, INVALIDATED} then c else
     let tier = clamped_tier (sb_submitted_at sub) (cl_deadline_at c) (cl_grace_deadline_at c)
     in c\<lparr>cl_reward_lock_status := PROVISIONAL, cl_reward_tier_locked := Some tier,
          cl_locked_reward_points := Some (cl_base_reward_points_snapshot c * tier div 100),
          cl_reward_locked_at := Some (sb_submitted_at sub)\<rparr>)"

definition in_review :: "submission \<Rightarrow> claim \<Rightarrow> 'a campus_db_scheme \<Rightarrow> claim" where
  "in_review sub c s = (locked_claim sub c)\<lparr>cl_status := ClaimStatus.UNDER_REVIEW,
     cl_latest_submission_id := bump_latest c sub s\<rparr>"

lemma locked_claim_simps [simp]:
  "cl_id (locked_claim sub c) = cl_id c" "cl_status (locked_claim sub c) = cl_status c"
  "cl_assignment_id (locked_claim sub c) = cl_assignment_id c"
  "cl_user_id (locked_claim sub c) = cl_user_id c" "cl_task_id (locked_claim sub c) = cl_task_id c"
  "cl_terminal_at (locked_claim sub c) = cl_terminal_at c"
  "cl_latest_submission_id (locked_claim sub c) = cl_latest_submission_id c"
  "cl_base_reward_points_snapshot (locked_claim sub c) = cl_base_reward_points_snapshot c"
  by (simp_all add: locked_claim_def Let_def)

lemma in_review_simps [simp]:
  "cl_id (in_review sub c s) = cl_id c" "cl_status (in_review sub c s) = ClaimStatus.UNDER_REVIEW"
  "cl_assignment_id (in_review sub c s) = cl_assignment_id c"
  "cl_user_id (in_review sub c s) = cl_user_id c" "cl_task_id (in_review sub c s) = cl_task_id c"
  "cl_terminal_at (in_review sub c s) = cl_terminal_at c"
  "cl_latest_submission_id (in_review sub c s) = bump_latest c sub s"
  "cl_base_reward_points_snapshot (in_review sub c s) = cl_base_reward_points_snapshot c"
  "cl_reward_lock_status (in_review sub c s) = cl_reward_lock_status (locked_claim sub c)"
  "cl_reward_tier_locked (in_review sub c s) = cl_reward_tier_locked (locked_claim sub c)"
  "cl_locked_reward_points (in_review sub c s) = cl_locked_reward_points (locked_claim sub c)"
  "cl_reward_locked_at (in_review sub c s) = cl_reward_locked_at (locked_claim sub c)"
  by (simp_all add: in_review_def)

lemma bump_latest_cong: "cl_latest_submission_id c1 = cl_latest_submission_id c
    \<Longrightarrow> bump_latest c1 sub s = bump_latest c sub s"
  by (simp add: bump_latest_def)

lemma bump_latest_upd [simp]:
  "bump_latest (c\<lparr>cl_status := st\<rparr>) sub s = bump_latest c sub s"
  "bump_latest (c\<lparr>cl_reward_lock_status := ls, cl_reward_tier_locked := t,
     cl_locked_reward_points := p, cl_reward_locked_at := at\<rparr>) sub s = bump_latest c sub s"
  "bump_latest (c\<lparr>cl_status := st, cl_reward_lock_status := ls, cl_reward_tier_locked := t,
     cl_locked_reward_points := p, cl_reward_locked_at := at\<rparr>) sub s = bump_latest c sub s"
  by (rule bump_latest_cong; simp)+

lemma lock_ok_locked_claim: "lock_ok c \<Longrightarrow> lock_ok (locked_claim sub c)"
  using clamped_tier_cases [of "sb_submitted_at sub" "cl_deadline_at c" "cl_grace_deadline_at c"]
  by (auto simp: locked_claim_def lock_ok_def Let_def)

lemma lock_ok_cong: "cl_reward_lock_status d = cl_reward_lock_status c
    \<Longrightarrow> cl_reward_tier_locked d = cl_reward_tier_locked c
    \<Longrightarrow> cl_locked_reward_points d = cl_locked_reward_points c
    \<Longrightarrow> cl_reward_locked_at d = cl_reward_locked_at c
    \<Longrightarrow> cl_base_reward_points_snapshot d = cl_base_reward_points_snapshot c \<Longrightarrow> lock_ok d = lock_ok c"
  by (simp add: lock_ok_def)

lemma lock_ok_in_review: "lock_ok c \<Longrightarrow> lock_ok (in_review sub c s)"
proof -
  have "lock_ok (in_review sub c s) = lock_ok (locked_claim sub c)"
    by (rule lock_ok_cong) simp_all
  then show "lock_ok c \<Longrightarrow> lock_ok (in_review sub c s)" by (simp add: lock_ok_locked_claim)
qed

lemma terminal_iff: "cl_status c \<in> set TERMINAL_CLAIM_STATUSES \<longleftrightarrow> \<not> active_claim c"
  by (cases "cl_status c") (simp_all add: sets active_iff)

lemma entry_iff: "active_claim c \<Longrightarrow>
    cl_status c \<in> set REVIEW_ENTRY_STATUSES \<longleftrightarrow> cl_status c \<noteq> ClaimStatus.UNDER_REVIEW"
  by (auto simp: active_iff REVIEW_ENTRY_STATUSES_def)

definition no_unfinished_cleanup :: "uuid \<Rightarrow> 'a campus_db_scheme \<Rightarrow> bool" where
  "no_unfinished_cleanup cid s \<longleftrightarrow> (\<forall>b\<in>set (submissions s). \<not> unfinished_cleanup cid b)"

lemma ensure_Inr: "ensure_no_active_cleanup_claim cid s = Inr u \<longleftrightarrow> no_unfinished_cleanup cid s"
  by (auto simp: ensure_no_active_cleanup_claim_def no_unfinished_cleanup_def Let_def
      filter_empty_conv)

definition may_lock :: "submission \<Rightarrow> claim \<Rightarrow> 'a campus_db_scheme \<Rightarrow> bool" where
  "may_lock sub c s \<longleftrightarrow>
     (cl_reward_lock_status c = NONE \<longrightarrow> sb_submitted_at sub < cl_grace_deadline_at c)
     \<and> (cl_status c = ClaimStatus.UNDER_REVIEW \<or> no_unfinished_cleanup (cl_id c) s)"

text \<open>The state after a processed submission: the row, and for a new lock its history and event.\<close>

definition review_state :: "instant \<Rightarrow> submission \<Rightarrow> claim \<Rightarrow> 'a campus_db_scheme \<Rightarrow> 'a campus_db_scheme" where
  "review_state now sub c s =
     (let c3 = in_review sub c s;
          tier = clamped_tier (sb_submitted_at sub) (cl_deadline_at c) (cl_grace_deadline_at c);
          points = cl_base_reward_points_snapshot c * tier div 100
      in if cl_reward_lock_status c \<notin> {NONE, INVALIDATED} then put_claim c3 s
         else publish_event (reward_locked_event c3 sub (cl_reward_lock_status c) tier points now)
           (put_claim c3 (s\<lparr>lock_history := lock_history s @
              [\<lparr>lh_claim_id = cl_id c, lh_submission_id = Some (sb_id sub),
                lh_lock_status_from = Some (cl_reward_lock_status c),
                lh_lock_status_to = PROVISIONAL, lh_reward_tier_locked = Some tier,
                lh_locked_reward_points = Some points, lh_changed_by = None,
                lh_reason = Some (if cl_grace_deadline_at c \<le> sb_submitted_at sub then RelockClamped
                  else if cl_reward_lock_status c = NONE then FirstLock else Relock)\<rparr>]\<rparr>)))"

lemma keep_status: "cl_status c = ClaimStatus.UNDER_REVIEW \<Longrightarrow>
    c\<lparr>cl_status := ClaimStatus.UNDER_REVIEW, cl_latest_submission_id := b\<rparr>
    = c\<lparr>cl_latest_submission_id := b\<rparr>"
  by (cases c) simp

lemma passed_active:
  assumes "row_of sb_id b (submissions s) = Some sub" "row_of cl_id (sb_claim_id sub) (claims s) = Some c"
    and "sb_validation_status sub = VALIDATED" "active_claim c"
  shows "on_validation_passed now b s =
    (if cl_reward_lock_status c = NONE \<and> cl_grace_deadline_at c \<le> sb_submitted_at sub
     then Inl (RewardWindowInconsistent (sb_id sub) (sb_submitted_at sub) (cl_grace_deadline_at c))
     else if cl_status c \<noteq> ClaimStatus.UNDER_REVIEW \<and> \<not> no_unfinished_cleanup (cl_id c) s
     then Inl (CleanupClaimConflict (cl_id c)
       (map sb_id (filter (unfinished_cleanup (cl_id c)) (submissions s))))
     else Inr (in_review sub c s, review_state now sub c s))"
proof -
  have guard: "ensure_no_active_cleanup_claim (cl_id c) s = (if no_unfinished_cleanup (cl_id c) s
      then Inr () else Inl (CleanupClaimConflict (cl_id c)
        (map sb_id (filter (unfinished_cleanup (cl_id c)) (submissions s)))))"
    by (auto simp: ensure_no_active_cleanup_claim_def no_unfinished_cleanup_def Let_def
        filter_empty_conv)
  note unfolded = on_validation_passed_def assms(1,2) option.case terminal_iff entry_iff [OF assms(4)]
      guard lock_to_establish_eq
  show ?thesis
  proof (cases "cl_reward_lock_status c \<in> {NONE, INVALIDATED}")
    case False
    with assms(3,4) show ?thesis
      unfolding unfolded
      by (simp add: in_review_def locked_claim_def review_state_def Let_def keep_status)
  next
    case True
    with assms(3,4) show ?thesis
      unfolding unfolded
      by (simp add: in_review_def locked_claim_def review_state_def Let_def keep_status)
  qed
qed

lemma passed_Inr: "on_validation_passed now b s = Inr (c', s') \<longleftrightarrow>
   (\<exists>sub c. row_of sb_id b (submissions s) = Some sub
      \<and> row_of cl_id (sb_claim_id sub) (claims s) = Some c \<and> sb_validation_status sub = VALIDATED
      \<and> (\<not> active_claim c \<and> c' = c \<and> s' = s \<or> active_claim c \<and> may_lock sub c s
          \<and> c' = in_review sub c s \<and> s' = review_state now sub c s))"
proof (cases "row_of sb_id b (submissions s)")
  case None
  then show ?thesis by (simp add: on_validation_passed_def)
next
  case sub: (Some sub)
  show ?thesis
  proof (cases "row_of cl_id (sb_claim_id sub) (claims s)")
    case None
    with sub show ?thesis by (simp add: on_validation_passed_def)
  next
    case c: (Some c)
    show ?thesis
    proof (cases "sb_validation_status sub = VALIDATED \<and> active_claim c")
      case True
      then show ?thesis
        using passed_active [OF sub c, of now] sub c by (auto simp: may_lock_def)
    next
      case False
      with sub c show ?thesis by (auto simp: on_validation_passed_def terminal_iff)
    qed
  qed
qed

lemma review_state_frame [simp]:
  "assignments (review_state now sub c s) = assignments s"
  "submissions (review_state now sub c s) = submissions s" "ledger (review_state now sub c s) = ledger s"
  "wallets (review_state now sub c s) = wallets s" "tasks (review_state now sub c s) = tasks s"
  "users (review_state now sub c s) = users s" "audit_logs (review_state now sub c s) = audit_logs s"
  "reservations (review_state now sub c s) = reservations s"
  "upload_intents (review_state now sub c s) = upload_intents s"
  "submission_validations (review_state now sub c s) = submission_validations s"
  "validation_jobs (review_state now sub c s) = validation_jobs s"
  "redemptions (review_state now sub c s) = redemptions s"
  "reward_items (review_state now sub c s) = reward_items s"
  "collaborators (review_state now sub c s) = collaborators s"
  "claims (review_state now sub c s) = claims (put_claim (in_review sub c s) s)"
  by (simp_all add: review_state_def Let_def claims_put_claim)

lemma row_of_review_state:
  assumes "row_of cl_id cid (claims s) = Some c"
  shows "row_of cl_id k (claims (review_state now sub c s)) =
    (if k = cid then Some (in_review sub c s) else row_of cl_id k (claims s))"
  using assms row_of_SomeD [OF assms] by (auto simp: row_of_put_claim)

lemma passed_keeps:
  assumes "on_validation_passed now b s = Inr (c', s')" "claims_inv s"
  shows "claims_inv s'"
proof -
  obtain sub c where c: "row_of cl_id (sb_claim_id sub) (claims s) = Some c"
    and out: "\<not> active_claim c \<and> s' = s \<or> active_claim c \<and> s' = review_state now sub c s"
    using assms(1) unfolding passed_Inr by blast
  have cin: "c \<in> set (claims s)" "cl_id c = sb_claim_id sub" using row_of_SomeD [OF c] by auto
  have "claims_inv (put_claim (in_review sub c s) s)" if "active_claim c"
    by (rule put_claim_keeps [OF assms(2), where c = c])
      (use c cin that claims_inv_terminal [OF assms(2) cin(1)] in
        \<open>simp_all add: same_work_def active_iff\<close>)
  moreover have "claims_inv (review_state now sub c s) = claims_inv (put_claim (in_review sub c s) s)"
    by (rule claims_inv_cong) simp_all
  ultimately show ?thesis using out assms(2) by auto
qed

lemma bump_again: "cl_latest_submission_id c' = bump_latest c sub s \<Longrightarrow> submissions s' = submissions s
    \<Longrightarrow> bump_latest c' sub s' = cl_latest_submission_id c'"
  by (auto simp: bump_latest_def split: option.splits if_splits)

lemma put_claim_id: "distinct (map cl_id (claims s)) \<Longrightarrow> c \<in> set (claims s) \<Longrightarrow> put_claim c s = s"
proof -
  assume "distinct (map cl_id (claims s))" "c \<in> set (claims s)"
  then have "update_row cl_id (cl_id c) (\<lambda>_. c) (claims s) = claims s"
    by (auto simp: update_row_def distinct_map inj_on_def intro!: map_idI)
  then show ?thesis by (simp add: put_claim_def)
qed

lemma passed_ok: "ok (on_validation_passed now b s) \<longleftrightarrow>
   (\<exists>sub c. row_of sb_id b (submissions s) = Some sub
      \<and> row_of cl_id (sb_claim_id sub) (claims s) = Some c \<and> sb_validation_status sub = VALIDATED
      \<and> (\<not> active_claim c \<or> may_lock sub c s))" (is "?L \<longleftrightarrow> ?R")
proof
  assume ?L
  then obtain c' s' where "on_validation_passed now b s = Inr (c', s')"
    by (cases "on_validation_passed now b s") auto
  then show ?R unfolding passed_Inr by blast
next
  assume ?R
  then have "\<exists>c' s'. on_validation_passed now b s = Inr (c', s')" unfolding passed_Inr by blast
  then show ?L by auto
qed

section \<open>Properties\<close>

text \<open>C7: When a validated submission is processed on an open claim the claim enters review, and its
  lock is: untouched if one is live (PROVISIONAL or CONFIRMED), so a later version can never lower
  or raise it; otherwise a new PROVISIONAL lock at the points of the submission's own submit
  instant, which for a first lock lies inside the window and for a lock that replaces an
  invalidated one past the grace deadline falls to the 20 percent tier.  A terminal claim is
  returned as it is, and no points move in either case.\<close>

theorem validated_submission_locks_its_tier:
  assumes "on_validation_passed now b s = Inr (c', s')"
    and "row_of sb_id b (submissions s) = Some sub" "row_of cl_id (sb_claim_id sub) (claims s) = Some c"
  shows "sb_validation_status sub = VALIDATED \<and> ledger s' = ledger s \<and> wallets s' = wallets s
    \<and> (if active_claim c then
         cl_status c' = ClaimStatus.UNDER_REVIEW \<and> row_of cl_id (cl_id c) (claims s') = Some c'
         \<and> (case cl_reward_lock_status c of
              PROVISIONAL \<Rightarrow> cl_reward_lock_status c' = PROVISIONAL
                \<and> cl_locked_reward_points c' = cl_locked_reward_points c
                \<and> cl_reward_locked_at c' = cl_reward_locked_at c
            | CONFIRMED \<Rightarrow> cl_reward_lock_status c' = CONFIRMED
                \<and> cl_locked_reward_points c' = cl_locked_reward_points c
                \<and> cl_reward_locked_at c' = cl_reward_locked_at c
            | _ \<Rightarrow> cl_reward_lock_status c' = PROVISIONAL
                \<and> cl_reward_locked_at c' = Some (sb_submitted_at sub)
                \<and> (case points_at (cl_base_reward_points_snapshot c) (sb_submitted_at sub)
                          (cl_deadline_at c) (cl_grace_deadline_at c) of
                     Inr p \<Rightarrow> cl_locked_reward_points c' = Some p
                   | Inl _ \<Rightarrow> cl_reward_lock_status c = INVALIDATED
                       \<and> cl_locked_reward_points c'
                           = Some (cl_base_reward_points_snapshot c * 20 div 100)))
       else c' = c \<and> s' = s)"
proof -
  have out: "sb_validation_status sub = VALIDATED" "\<not> active_claim c \<and> c' = c \<and> s' = s
      \<or> active_claim c \<and> may_lock sub c s \<and> c' = in_review sub c s \<and> s' = review_state now sub c s"
    using assms unfolding passed_Inr by auto
  have cid: "sb_claim_id sub = cl_id c" using row_of_SomeD [OF assms(3)] by simp
  show ?thesis
  proof (cases "active_claim c")
    case True
    with out have may: "may_lock sub c s" and c': "c' = in_review sub c s"
      and s': "s' = review_state now sub c s" by auto
    have row: "row_of cl_id (cl_id c) (claims s') = Some c'"
      unfolding s' c' using row_of_review_state [OF assms(3), of "cl_id c"] by (simp add: cid)
    with may True out(1) show ?thesis
      by (cases "cl_reward_lock_status c")
        (simp_all add: c' s' locked_claim_def Let_def points_at_eq clamped_tier_def may_lock_def)
  qed (use out in auto)
qed

text \<open>Processing a validation result twice is the same as once: a redelivered job on the state the
  first left returns the same claim and writes nothing (no second history row, no second event),
  whether the claim was open or already terminal.\<close>

theorem validation_replay_writes_nothing:
  assumes "on_validation_passed now b s = Inr (c', s')" "claims_inv s"
  shows "on_validation_passed later b s' = Inr (c', s')"
proof -
  obtain sub c where sub: "row_of sb_id b (submissions s) = Some sub"
    and c: "row_of cl_id (sb_claim_id sub) (claims s) = Some c" and v: "sb_validation_status sub = VALIDATED"
    and out: "\<not> active_claim c \<and> c' = c \<and> s' = s \<or> active_claim c \<and> may_lock sub c s
          \<and> c' = in_review sub c s \<and> s' = review_state now sub c s"
    using assms(1) unfolding passed_Inr by blast
  show ?thesis
  proof (cases "active_claim c")
    case False
    with sub c v out show ?thesis unfolding passed_Inr by auto
  next
    case True
    with out have c': "c' = in_review sub c s" and s': "s' = review_state now sub c s" by auto
    have row: "row_of cl_id (sb_claim_id sub) (claims s') = Some c'"
      unfolding s' c' by (simp add: row_of_review_state [OF c] del: review_state_frame)
    have live: "cl_reward_lock_status c' \<notin> {NONE, INVALIDATED}"
      by (auto simp: c' locked_claim_def Let_def)
    have "bump_latest c' sub s' = cl_latest_submission_id c'"
      by (rule bump_again [of _ c _ s]) (simp_all add: c' s')
    moreover have "cl_status c' = ClaimStatus.UNDER_REVIEW" by (simp add: c')
    ultimately have same: "in_review sub c' s' = c'"
      using live by (cases c') (simp add: in_review_def locked_claim_def)
    have "put_claim c' s' = s'"
      by (rule put_claim_id [OF claims_inv_ids [OF passed_keeps [OF assms]]])
        (use row_of_SomeD [OF row] in blast)
    then have "review_state later sub c' s' = s'"
      using live same by (simp add: review_state_def Let_def)
    moreover have "active_claim c'" "may_lock sub c' s'"
      using live by (auto simp: c' active_iff may_lock_def)
    ultimately show ?thesis
      unfolding passed_Inr using sub row v same by (intro exI [of _ sub] exI [of _ c']) (simp add: s')
  qed
qed

text \<open>A result is processed exactly when the submission and its claim exist, it is
  machine-VALIDATED, and the claim is already terminal (nothing to do) or: its first lock falls
  inside the window, and no version under the claim has an unfinished file cleanup unless the
  claim is in review already; an expired cleanup lease does not lift that refusal.\<close>

theorem validation_accepted_iff:
  "ok (on_validation_passed now b s) \<longleftrightarrow>
    (\<exists>sub c. row_of sb_id b (submissions s) = Some sub
      \<and> row_of cl_id (sb_claim_id sub) (claims s) = Some c \<and> sb_validation_status sub = VALIDATED
      \<and> (\<not> active_claim c
         \<or> (cl_reward_lock_status c \<noteq> NONE \<or> sb_submitted_at sub < cl_grace_deadline_at c)
           \<and> (cl_status c = ClaimStatus.UNDER_REVIEW \<or> \<not> (\<exists>d\<in>set (submissions s).
               sb_claim_id d = cl_id c \<and> sb_deleted_at d = None
               \<and> (sb_cleanup_claimed_at d \<noteq> None \<or> sb_cleanup_claim_token d \<noteq> None)))))"
  unfolding passed_ok may_lock_def no_unfinished_cleanup_def unfinished_cleanup_def by simp

text \<open>The claim's pointer to its current submission never goes back to an older version, whatever
  order the validation jobs of its versions finish in.\<close>

theorem latest_pointer_never_regresses:
  assumes "on_validation_passed now b s = Inr (c', s')" "row_of sb_id b (submissions s) = Some sub"
    and "row_of cl_id (sb_claim_id sub) (claims s) = Some c" "active_claim c"
    and "cl_latest_submission_id c = Some old" "row_of sb_id old (submissions s) = Some before"
  shows "\<exists>new after. cl_latest_submission_id c' = Some new
    \<and> row_of sb_id new (submissions s') = Some after \<and> sb_version before \<le> sb_version after
    \<and> (sb_version before < sb_version sub \<longrightarrow> new = b)"
proof -
  have c': "c' = in_review sub c s" and s': "s' = review_state now sub c s"
    using assms(1-4) unfolding passed_Inr by auto
  have "sb_id sub = b" using row_of_SomeD [OF assms(2)] by simp
  with assms show ?thesis by (auto simp: c' s' bump_latest_def)
qed

section \<open>Witnesses\<close>

definition demo_submission :: submission where
  "demo_submission = \<lparr>sb_id = 200, sb_claim_id = 100, sb_version = 1, sb_object_key = ''submissions/a'',
     sb_original_filename = ''a.csv'', sb_declared_type = CSV, sb_detected_type = Some CSV,
     sb_file_size = 10, sb_submitted_at = hours 2,
     sb_validation_status = VALIDATED, sb_review_status = PENDING_REVIEW,
     sb_validation_report = None, sb_reviewer_id = None, sb_reviewed_at = None,
     sb_review_note = None, sb_retention_until = Some (hours 999),
     sb_retention_permanent = False, sb_legal_hold = False, sb_deleted_at = None,
     sb_cleanup_claimed_at = None, sb_cleanup_lease_expires_at = None,
     sb_cleanup_claim_token = None\<rparr>"

definition submitted_campus :: campus_db where
  "submitted_campus = claimed_campus\<lparr>submissions := [demo_submission,
     demo_submission\<lparr>sb_id := 201, sb_version := 2, sb_submitted_at := hours 14\<rparr>]\<rparr>"

definition reviewed_campus :: campus_db where
  "reviewed_campus = review_state (hours 3) demo_submission demo_claim submitted_campus"

lemma submitted_inv: "claims_inv submitted_campus"
  using claimed_inv by (subst claims_inv_cong [of _ claimed_campus]) (simp_all add: submitted_campus_def)

lemma demo_claim_row: "row_of cl_id 100 (claims submitted_campus) = Some demo_claim"
  by (simp add: submitted_campus_def demo_defs)

lemma submitted_submissions: "submissions submitted_campus = [demo_submission,
     demo_submission\<lparr>sb_id := 201, sb_version := 2, sb_submitted_at := hours 14\<rparr>]"
  by (simp add: submitted_campus_def)

lemma demo_sub_row: "row_of sb_id 200 (submissions submitted_campus) = Some demo_submission"
  by (simp add: submitted_campus_def demo_submission_def)

lemma demo_claim_facts [simp]: "active_claim demo_claim" "cl_id demo_claim = 100"
  "cl_reward_lock_status demo_claim = NONE" "cl_latest_submission_id demo_claim = None"
  "cl_deadline_at demo_claim = hours 1" "cl_grace_deadline_at demo_claim = hours 25"
  "cl_base_reward_points_snapshot demo_claim = 101" "cl_user_id demo_claim = 7"
  "cl_task_id demo_claim = 1" "cl_assignment_id demo_claim = 10" "cl_terminal_at demo_claim = None"
  "cl_status demo_claim = CLAIMED"
  by (simp_all add: demo_claim_def new_claim_def demo_assignment_def demo_task_def active_iff)

lemma demo_submission_facts [simp]: "sb_id demo_submission = 200" "sb_claim_id demo_submission = 100"
  "sb_version demo_submission = 1" "sb_submitted_at demo_submission = hours 2"
  "sb_validation_status demo_submission = VALIDATED"
  by (simp_all add: demo_submission_def)

lemma demo_lock: "on_validation_passed (hours 3) 200 submitted_campus
    = Inr (in_review demo_submission demo_claim submitted_campus, reviewed_campus)"
  unfolding passed_Inr reviewed_campus_def
  by (intro exI [of _ demo_submission] exI [of _ demo_claim])
    (auto simp: demo_claim_row demo_sub_row may_lock_def no_unfinished_cleanup_def
      unfinished_cleanup_def submitted_submissions hours_def minutes_def demo_submission_def)

theorem validated_submission_locks_its_tier_witness:
  "cl_locked_reward_points (in_review demo_submission demo_claim submitted_campus) = Some 80"
  using validated_submission_locks_its_tier [OF demo_lock demo_sub_row, of demo_claim]
  by (simp add: demo_claim_row points_at_eq tier_percent_def hours_def minutes_def)

theorem validation_replay_writes_nothing_witness:
  "on_validation_passed (hours 9) 200 reviewed_campus
    = Inr (in_review demo_submission demo_claim submitted_campus, reviewed_campus)"
  by (rule validation_replay_writes_nothing [OF demo_lock submitted_inv])

theorem validation_accepted_iff_witness:
  "ok (on_validation_passed (hours 3) 200 submitted_campus)
   \<and> \<not> ok (on_validation_passed (hours 3) 200 (submitted_campus\<lparr>submissions :=
        [demo_submission\<lparr>sb_cleanup_claimed_at := Some 0\<rparr>]\<rparr>))"
  unfolding validation_accepted_iff
  by (auto simp: demo_sub_row demo_claim_row submitted_campus_def demo_submission_def hours_def minutes_def
      demo_defs active_iff)

lemma reviewed_inv: "claims_inv reviewed_campus"
  by (rule passed_keeps [OF demo_lock submitted_inv])

lemma reviewed_claim_row: "row_of cl_id 100 (claims reviewed_campus)
    = Some (in_review demo_submission demo_claim submitted_campus)"
  unfolding reviewed_campus_def row_of_review_state [OF demo_claim_row] by simp

theorem latest_pointer_never_regresses_witness:
  "\<exists>c' s'. on_validation_passed (hours 15) 201 reviewed_campus = Inr (c', s')
     \<and> cl_latest_submission_id c' = Some 201"
proof -
  let ?sub = "demo_submission\<lparr>sb_id := 201, sb_version := 2, sb_submitted_at := hours 14\<rparr>"
  let ?c = "in_review demo_submission demo_claim submitted_campus"
  have rows: "row_of sb_id 201 (submissions reviewed_campus) = Some ?sub"
    "row_of sb_id 200 (submissions reviewed_campus) = Some demo_submission"
    by (simp_all add: reviewed_campus_def submitted_campus_def)
  have act: "active_claim ?c" by (simp add: active_iff)
  have lock: "cl_reward_lock_status (locked_claim demo_submission demo_claim) = PROVISIONAL"
    by (simp add: locked_claim_def Let_def)
  have latest: "cl_latest_submission_id ?c = Some 200" by (simp add: bump_latest_def)
  have run: "on_validation_passed (hours 15) 201 reviewed_campus
      = Inr (in_review ?sub ?c reviewed_campus, review_state (hours 15) ?sub ?c reviewed_campus)"
    unfolding passed_Inr
    by (intro exI [of _ ?sub] exI [of _ ?c]) (simp add: rows reviewed_claim_row act may_lock_def lock)
  show ?thesis
    using latest_pointer_never_regresses [OF run rows(1) _ act latest rows(2)]
    by (auto simp: run reviewed_claim_row)
qed

end
