(* ===== verification/Review.thy ===== *)
theory Review
  imports Reward_Lock
begin

text \<open>
  The human review (\<open>submissions/review_service.py\<close>): returning a submission for revision,
  invalidating its reward lock, and the ten-step approval, with the frozen points port and its
  adapter over the ledger (\<open>PointsRewardPortAdapter\<close> in \<open>points/ledger_service.py\<close>).  The ids the
  database draws, the clock's instant after the locks, the text form of a UUID, the placeholder
  text of an empty review comment and the honor trigger are arguments.
\<close>

section \<open>Errors\<close>

datatype review_error =
    LockErr lock_error
  | ReviewerPermissionDenied uuid uuid
  | StaleSubmissionVersion uuid "uuid option"
  | ClaimNotReviewable uuid ClaimStatus
  | LockNotInvalidatable uuid RewardLockStatus
  | InvalidationReasonRequired uuid
  | LockNotProvisional uuid RewardLockStatus
  | PointsFailure ledger_error
  | AssertionFailed string

fun review_envelope :: "review_error \<Rightarrow> business_error option" where
  "review_envelope (LockErr e) = lock_envelope e"
| "review_envelope (ReviewerPermissionDenied t a) = Some (Business PERMISSION_DENIED 403
     [(''task_id'', JUuid t), (''actor_id'', JUuid a)])"
| "review_envelope (StaleSubmissionVersion b latest) = Some (Business VALIDATION_ERROR 409
     [(''submission_id'', JUuid b), (''latest_submission_id'', jopt JUuid latest)])"
| "review_envelope (ClaimNotReviewable c st) = Some (Business VALIDATION_ERROR 409
     [(''claim_id'', JUuid c), (''status'', JStr (claim_status_value st))])"
| "review_envelope (LockNotInvalidatable b ls) = Some (Business VALIDATION_ERROR 409
     [(''submission_id'', JUuid b), (''reward_lock_status'', JStr (lock_status_value ls))])"
| "review_envelope (InvalidationReasonRequired b) =
     Some (Business VALIDATION_ERROR 400 [(''submission_id'', JUuid b)])"
| "review_envelope (LockNotProvisional c ls) = Some (Business VALIDATION_ERROR 409
     [(''claim_id'', JUuid c), (''reward_lock_status'', JStr (lock_status_value ls))])"
| "review_envelope (PointsFailure e) = ledger_envelope e"
| "review_envelope (AssertionFailed m) = None"

section \<open>The points port\<close>

record GrantResult =
  gres_user_id :: uuid
  gres_claim_id :: uuid
  gres_points_granted :: int

text \<open>User, claim, base points, locked points, idempotency key.\<close>

type_synonym 's reward_port =
  "uuid \<Rightarrow> uuid \<Rightarrow> int \<Rightarrow> int \<Rightarrow> string \<Rightarrow> 's \<Rightarrow> ledger_error + (GrantResult \<times> 's)"

definition claim_lock_time :: "uuid \<Rightarrow> 'a campus_db_scheme \<Rightarrow> ledger_error + instant" where
  "claim_lock_time cid s = (case row_of cl_id cid (claims s) of
       None \<Rightarrow> Inl (InvalidLedgerEntry ''claim_id'')
     | Some c \<Rightarrow> (case cl_reward_locked_at c of Some at \<Rightarrow> Inr at
         | None \<Rightarrow> (case cl_terminal_at c of Some at \<Rightarrow> Inr at
             | None \<Rightarrow> Inl (InvalidLedgerEntry ''ranking_effective_at''))))"

definition PointsRewardPortAdapter ::
  "uuid \<Rightarrow> uuid \<Rightarrow> dispatcher option \<Rightarrow> dispatcher option \<Rightarrow> 'a campus_db_scheme reward_port" where
  "PointsRewardPortAdapter eid minted override dflt user_id claim_id base locked key s =
     (case claim_lock_time claim_id s of Inl e \<Rightarrow> Inl e | Inr at \<Rightarrow>
      case grant_assignment_reward s eid minted claim_id user_id locked (Some at) override dflt
             (Some key) s of
        Inl e \<Rightarrow> Inl e
      | Inr (s', entry) \<Rightarrow> Inr (\<lparr>gres_user_id = user_id, gres_claim_id = claim_id,
                             gres_points_granted = le_amount entry\<rparr>, s'))"

section \<open>Gates\<close>

definition require_submission_gates :: "claim \<Rightarrow> submission \<Rightarrow> review_error + unit" where
  "require_submission_gates c sub =
     (if sb_validation_status sub \<noteq> VALIDATED
      then Inl (LockErr (SubmissionNotValidated (sb_id sub) (sb_validation_status sub)))
      else if cl_latest_submission_id c \<noteq> Some (sb_id sub)
      then Inl (StaleSubmissionVersion (sb_id sub) (cl_latest_submission_id c))
      else Inr ())"

definition require_review_permission ::
  "claim \<Rightarrow> actor \<Rightarrow> 'a campus_db_scheme \<Rightarrow> review_error + unit" where
  "require_review_permission c a s =
     (let denied = Inl (ReviewerPermissionDenied (cl_task_id c) (actor_user_id a)) in
      case row_of tk_id (cl_task_id c) (tasks s) of None \<Rightarrow> denied | Some task \<Rightarrow>
      if tk_owner_teacher_id task = actor_user_id a \<or> is_admin (actor_role a) then Inr ()
      else case row_of (\<lambda>r. (co_task_id r, co_teacher_id r)) (cl_task_id c, actor_user_id a)
                  (collaborators s) of
          None \<Rightarrow> denied
        | Some r \<Rightarrow> (if REVIEW_SUBMISSIONS \<notin> set (co_permissions r) then denied else Inr ()))"

definition locked_reviewable ::
  "actor \<Rightarrow> uuid \<Rightarrow> 'a campus_db_scheme \<Rightarrow> review_error + (submission \<times> claim)" where
  "locked_reviewable a submission_id s =
     (case row_of sb_id submission_id (submissions s) of
        None \<Rightarrow> Inl (LockErr (SubmissionNotFound submission_id)) | Some sub \<Rightarrow>
      case row_of cl_id (sb_claim_id sub) (claims s) of
        None \<Rightarrow> Inl (LockErr DanglingClaim) | Some c \<Rightarrow>
      if cl_status c \<in> set TERMINAL_CLAIM_STATUSES
      then Inl (ClaimNotReviewable (cl_id c) (cl_status c))
      else case require_submission_gates c sub of Inl e \<Rightarrow> Inl e | Inr _ \<Rightarrow>
      case require_review_permission c a s of Inl e \<Rightarrow> Inl e | Inr _ \<Rightarrow> Inr (sub, c))"

definition REVISION_WINDOW :: int where "REVISION_WINDOW = hours 24"

definition revision_deadline :: "claim \<Rightarrow> instant \<Rightarrow> instant" where
  "revision_deadline c now = max (case cl_revision_deadline_at c of
     None \<Rightarrow> cl_grace_deadline_at c | Some r \<Rightarrow> r) (now + REVISION_WINDOW)"

section \<open>Audit and notification material\<close>

definition REVISION_REQUIRED_EVENT :: string where
  "REVISION_REQUIRED_EVENT = ''REVISION_REQUIRED''"
definition SUBMISSION_APPROVED_EVENT :: string where
  "SUBMISSION_APPROVED_EVENT = ''SUBMISSION_APPROVED''"
definition REWARD_LOCK_INVALIDATED_EVENT :: string where
  "REWARD_LOCK_INVALIDATED_EVENT = ''REWARD_LOCK_INVALIDATED''"
definition AUDIT_ACTION_SUBMISSION_APPROVED :: string where
  "AUDIT_ACTION_SUBMISSION_APPROVED = ''SUBMISSION_APPROVED''"
definition AUDIT_ACTION_SUBMISSION_REVISION_REQUIRED :: string where
  "AUDIT_ACTION_SUBMISSION_REVISION_REQUIRED = ''SUBMISSION_REVISION_REQUIRED''"
definition AUDIT_ACTION_REWARD_LOCK_INVALIDATED :: string where
  "AUDIT_ACTION_REWARD_LOCK_INVALIDATED = ''REWARD_LOCK_INVALIDATED''"

fun validation_report_summary :: "json option \<Rightarrow> json" where
  "validation_report_summary (Some (JObj kvs)) =
     (let get = (\<lambda>k. map_of kvs (KStr k));
          size_of = (\<lambda>v. case v of Some (JList xs) \<Rightarrow> JInt (int (length xs)) | _ \<Rightarrow> JNull);
          raw = (\<lambda>v. case v of None \<Rightarrow> JNull | Some x \<Rightarrow> x)
      in dict [(''present'', JBool True), (''file_type'', raw (get ''file_type'')),
           (''row_count'', raw (get ''row_count'')),
           (''error_count'', size_of (get ''errors'')),
           (''warning_count'', size_of (get ''warnings''))])"
| "validation_report_summary r = dict [(''present'', JBool False)]"

definition review_audit_details :: "claim \<Rightarrow> submission \<Rightarrow> json" where
  "review_audit_details c sub = dict [(''task_id'', JUuid (cl_task_id c)),
     (''claim_id'', JUuid (cl_id c)), (''submission_id'', JUuid (sb_id sub))]"

text \<open>The wiring of a review service: whether a recorder is bound, and the placeholder text.\<close>

record review_env =
  env_recorder :: bool
  env_no_comment :: string

definition task_title :: "claim \<Rightarrow> 'a campus_db_scheme \<Rightarrow> review_error + string" where
  "task_title c s = (case row_of tk_id (cl_task_id c) (tasks s) of
     None \<Rightarrow> Inl (AssertionFailed ''title'') | Some t \<Rightarrow> Inr (tk_title t))"

definition record_revision_required ::
  "review_env \<Rightarrow> claim \<Rightarrow> uuid \<Rightarrow> instant \<Rightarrow> string option \<Rightarrow> 'a campus_db_scheme
    \<Rightarrow> review_error + 'a campus_db_scheme" where
  "record_revision_required env c review_id deadline comment s =
     (if \<not> env_recorder env then Inr s
      else case task_title c s of Inl e \<Rightarrow> Inl e | Inr title \<Rightarrow>
        Inr (record_event True
          \<lparr>nt_key = (''submission_review'', review_id, ''revision_required''),
           nt_type = ''REVISION_REQUIRED'', nt_user_id = cl_user_id c,
           nt_payload = [(''task_title'', JStr title), (''revision_deadline_at'', JTime deadline),
             (''review_comment'', JStr (case comment of Some t \<Rightarrow> (if t \<noteq> [] then t
                else env_no_comment env) | None \<Rightarrow> env_no_comment env))]\<rparr> s))"

definition record_submission_approved ::
  "review_env \<Rightarrow> claim \<Rightarrow> int \<Rightarrow> 'a campus_db_scheme \<Rightarrow> review_error + 'a campus_db_scheme" where
  "record_submission_approved env c points s =
     (if \<not> env_recorder env then Inr s
      else case task_title c s of Inl e \<Rightarrow> Inl e | Inr title \<Rightarrow>
        Inr (record_event True
          \<lparr>nt_key = (''claim'', cl_id c, ''submission_approved''),
           nt_type = ''SUBMISSION_APPROVED'', nt_user_id = cl_user_id c,
           nt_payload = [(''task_title'', JStr title), (''reward_points'', JInt points)]\<rparr> s))"

section \<open>Returning for revision\<close>

definition review_row :: "uuid \<Rightarrow> uuid \<Rightarrow> actor \<Rightarrow> ReviewAction \<Rightarrow> string option \<Rightarrow> submission_review" where
  "review_row rid b a action note = \<lparr>sr_id = rid, sr_submission_id = b,
     sr_reviewer_id = actor_user_id a, sr_action = action, sr_note = note\<rparr>"

definition reviewed_submission ::
  "submission \<Rightarrow> ReviewStatus \<Rightarrow> actor \<Rightarrow> instant \<Rightarrow> string option \<Rightarrow> submission" where
  "reviewed_submission sub st a now note = sub\<lparr>sb_review_status := st,
     sb_reviewer_id := Some (actor_user_id a), sb_reviewed_at := Some now, sb_review_note := note\<rparr>"

definition require_revision ::
  "review_env \<Rightarrow> instant \<Rightarrow> uuid \<Rightarrow> actor \<Rightarrow> uuid \<Rightarrow> string option \<Rightarrow> audit_context option
    \<Rightarrow> 'a campus_db_scheme \<Rightarrow> review_error + (claim \<times> 'a campus_db_scheme)" where
  "require_revision env now rid a submission_id note ctx s =
     (case locked_reviewable a submission_id s of Inl e \<Rightarrow> Inl e | Inr (sub, c) \<Rightarrow>
      let note_text = strip_or_none note;
          deadline = revision_deadline c now;
          c1 = c\<lparr>cl_status := ClaimStatus.REVISION_REQUIRED,
                 cl_revision_deadline_at := Some deadline\<rparr>;
          s1 = put_claim c1 (put_submission
                 (reviewed_submission sub ReviewStatus.REVISION_REQUIRED a now note_text) s);
          s2 = s1\<lparr>submission_reviews := submission_reviews s1 @
                 [review_row rid (sb_id sub) a REQUIRE_REVISION note_text]\<rparr>;
          s3 = publish_event
                 \<lparr>ev_type = REVISION_REQUIRED_EVENT, ev_aggregate_type = ''AssignmentClaim'',
                  ev_aggregate_id = cl_id c, ev_occurred_at = now,
                  ev_payload = [(''user_id'', JUuid (cl_user_id c)),
                    (''task_id'', JUuid (cl_task_id c)), (''submission_id'', JUuid (sb_id sub)),
                    (''reviewer_id'', JUuid (actor_user_id a)),
                    (''revision_deadline_at'', JTime deadline), (''note'', jopt JStr note_text)]\<rparr> s2;
          s4 = audit_append a AUDIT_ACTION_SUBMISSION_REVISION_REQUIRED ''submission'' (sb_id sub)
                 note_text (Some (review_audit_details c sub))
                 (Some (dict
                   [(''submission_review_status'', JStr (review_status_value (sb_review_status sub))),
                    (''claim_status'', JStr (claim_status_value (cl_status c))),
                    (''reward_lock_status'', JStr (lock_status_value (cl_reward_lock_status c)))]))
                 (Some (dict
                   [(''submission_review_status'',
                       JStr (review_status_value ReviewStatus.REVISION_REQUIRED)),
                    (''claim_status'', JStr (claim_status_value ClaimStatus.REVISION_REQUIRED)),
                    (''reward_lock_status'', JStr (lock_status_value (cl_reward_lock_status c))),
                    (''revision_deadline_at'', JTime deadline)])) ctx s3
      in case record_revision_required env c1 rid deadline note_text s4 of
           Inl e \<Rightarrow> Inl e | Inr s5 \<Rightarrow> Inr (c1, s5))"

section \<open>Invalidating the lock\<close>

definition invalidate_reward_lock ::
  "review_env \<Rightarrow> instant \<Rightarrow> uuid \<Rightarrow> actor \<Rightarrow> uuid \<Rightarrow> string option \<Rightarrow> audit_context option
    \<Rightarrow> 'a campus_db_scheme \<Rightarrow> review_error + (claim \<times> 'a campus_db_scheme)" where
  "invalidate_reward_lock env now rid a submission_id reason ctx s =
     (case strip_or_none reason of None \<Rightarrow> Inl (InvalidationReasonRequired submission_id)
      | Some reason_text \<Rightarrow>
      case locked_reviewable a submission_id s of Inl e \<Rightarrow> Inl e | Inr (sub, c) \<Rightarrow>
      if cl_reward_lock_status c \<noteq> PROVISIONAL
      then Inl (LockNotInvalidatable submission_id (cl_reward_lock_status c))
      else
      let deadline = revision_deadline c now;
          c1 = c\<lparr>cl_reward_lock_status := INVALIDATED, cl_reward_tier_locked := None,
                 cl_locked_reward_points := None, cl_reward_locked_at := None,
                 cl_status := ClaimStatus.REVISION_REQUIRED,
                 cl_revision_deadline_at := Some deadline\<rparr>;
          s1 = put_claim c1 (put_submission
                 (reviewed_submission sub ReviewStatus.REVISION_REQUIRED a now (Some reason_text)) s);
          s2 = s1\<lparr>lock_history := lock_history s1 @
                 [\<lparr>lh_claim_id = cl_id c, lh_submission_id = Some (sb_id sub),
                   lh_lock_status_from = Some PROVISIONAL, lh_lock_status_to = INVALIDATED,
                   lh_reward_tier_locked = cl_reward_tier_locked c,
                   lh_locked_reward_points = cl_locked_reward_points c,
                   lh_changed_by = Some (actor_user_id a),
                   lh_reason = Some (ReviewerReason reason_text)\<rparr>],
               submission_reviews := submission_reviews s1 @
                 [review_row rid (sb_id sub) a INVALIDATE_LOCK (Some reason_text)]\<rparr>;
          s3 = publish_event
                 \<lparr>ev_type = REWARD_LOCK_INVALIDATED_EVENT, ev_aggregate_type = ''AssignmentClaim'',
                  ev_aggregate_id = cl_id c, ev_occurred_at = now,
                  ev_payload = [(''user_id'', JUuid (cl_user_id c)),
                    (''task_id'', JUuid (cl_task_id c)), (''submission_id'', JUuid (sb_id sub)),
                    (''reviewer_id'', JUuid (actor_user_id a)), (''reason'', JStr reason_text),
                    (''lock_status_from'', JStr (lock_status_value PROVISIONAL)),
                    (''lock_status_to'', JStr (lock_status_value INVALIDATED)),
                    (''previous_reward_tier_locked'', jopt JInt (cl_reward_tier_locked c)),
                    (''previous_locked_reward_points'', jopt JInt (cl_locked_reward_points c)),
                    (''previous_reward_locked_at'', jopt JTime (cl_reward_locked_at c))]\<rparr> s2;
          s4 = audit_append a AUDIT_ACTION_REWARD_LOCK_INVALIDATED ''submission'' (sb_id sub)
                 (Some reason_text) (Some (review_audit_details c sub))
                 (Some (dict
                   [(''submission_review_status'', JStr (review_status_value (sb_review_status sub))),
                    (''claim_status'', JStr (claim_status_value (cl_status c))),
                    (''reward_lock_status'', JStr (lock_status_value PROVISIONAL)),
                    (''reward_tier_locked'', jopt JInt (cl_reward_tier_locked c)),
                    (''locked_reward_points'', jopt JInt (cl_locked_reward_points c))]))
                 (Some (dict
                   [(''submission_review_status'',
                       JStr (review_status_value ReviewStatus.REVISION_REQUIRED)),
                    (''claim_status'', JStr (claim_status_value ClaimStatus.REVISION_REQUIRED)),
                    (''reward_lock_status'', JStr (lock_status_value INVALIDATED)),
                    (''reward_tier_locked'', JNull), (''locked_reward_points'', JNull),
                    (''revision_deadline_at'', JTime deadline),
                    (''validation_report_summary'',
                       validation_report_summary (sb_validation_report sub))])) ctx s3
      in case record_revision_required env c1 rid deadline (Some reason_text) s4 of
           Inl e \<Rightarrow> Inl e | Inr s5 \<Rightarrow> Inr (c1, s5))"

section \<open>Approving\<close>

record ApprovalResult =
  ap_claim :: claim
  ap_grant :: "GrantResult option"
  ap_already_reviewed :: bool

definition approved_claim :: "instant \<Rightarrow> claim \<Rightarrow> claim" where
  "approved_claim now c = c\<lparr>cl_status := ClaimStatus.COMPLETED, cl_terminal_at := Some now,
     cl_reward_lock_status := CONFIRMED\<rparr>"

text \<open>Steps 5 to 7 and 9: the submission, the claim, the lock and the unit of work.\<close>

definition settle_approval ::
  "instant \<Rightarrow> uuid \<Rightarrow> actor \<Rightarrow> submission \<Rightarrow> claim \<Rightarrow> 'a campus_db_scheme \<Rightarrow> 'a campus_db_scheme" where
  "settle_approval now rid a sub c s =
     (let s1 = put_claim (approved_claim now c) (put_submission
                 (reviewed_submission sub ReviewStatus.APPROVED a now None) s);
          s2 = s1\<lparr>lock_history := lock_history s1 @
                 [\<lparr>lh_claim_id = cl_id c, lh_submission_id = Some (sb_id sub),
                   lh_lock_status_from = Some PROVISIONAL, lh_lock_status_to = CONFIRMED,
                   lh_reward_tier_locked = cl_reward_tier_locked c,
                   lh_locked_reward_points = cl_locked_reward_points c,
                   lh_changed_by = Some (actor_user_id a), lh_reason = Some ConfirmLock\<rparr>],
               submission_reviews := submission_reviews s1 @
                 [review_row rid (sb_id sub) a APPROVE None]\<rparr>
      in case row_of as_id (cl_assignment_id c) (assignments s2) of
           None \<Rightarrow> s2
         | Some u \<Rightarrow> (if as_availability_status u = OCCUPIED
             then put_assignment (u\<lparr>as_availability_status := AssignmentAvailability.COMPLETED\<rparr>) s2
             else s2))"

text \<open>Step 10: the event and the audit row of one approval.\<close>

definition approval_trail ::
  "instant \<Rightarrow> actor \<Rightarrow> submission \<Rightarrow> claim \<Rightarrow> int \<Rightarrow> int \<Rightarrow> int \<Rightarrow> audit_context option
    \<Rightarrow> 'a campus_db_scheme \<Rightarrow> 'a campus_db_scheme" where
  "approval_trail now a sub c tier points granted ctx s =
     audit_append a AUDIT_ACTION_SUBMISSION_APPROVED ''submission'' (sb_id sub) None
       (Some (review_audit_details c sub))
       (Some (dict
         [(''submission_review_status'', JStr (review_status_value (sb_review_status sub))),
          (''claim_status'', JStr (claim_status_value (cl_status c))),
          (''reward_lock_status'', JStr (lock_status_value PROVISIONAL)),
          (''reward_tier_locked'', JInt tier), (''locked_reward_points'', JInt points)]))
       (Some (dict
         [(''submission_review_status'', JStr (review_status_value ReviewStatus.APPROVED)),
          (''claim_status'', JStr (claim_status_value ClaimStatus.COMPLETED)),
          (''reward_lock_status'', JStr (lock_status_value CONFIRMED)),
          (''reward_tier_locked'', JInt tier), (''locked_reward_points'', JInt points),
          (''points_granted'', JInt granted)])) ctx
       (publish_event
         \<lparr>ev_type = SUBMISSION_APPROVED_EVENT, ev_aggregate_type = ''AssignmentClaim'',
          ev_aggregate_id = cl_id c, ev_occurred_at = now,
          ev_payload = [(''user_id'', JUuid (cl_user_id c)), (''task_id'', JUuid (cl_task_id c)),
            (''submission_id'', JUuid (sb_id sub)), (''reviewer_id'', JUuid (actor_user_id a)),
            (''reward_tier_locked'', JInt tier), (''locked_reward_points'', JInt points),
            (''terminal_at'', JTime now)]\<rparr> s)"

text \<open>
  The honor trigger runs after the commit in a transaction of its own and writes the tables of the
  rankings module only, which are the extension of the modelled state; \<open>None\<close> is a failure, which
  is rolled back and swallowed.
\<close>

definition evaluate_honors ::
  "(uuid \<Rightarrow> 'a campus_db_scheme \<Rightarrow> 'a option) option \<Rightarrow> uuid \<Rightarrow> 'a campus_db_scheme
    \<Rightarrow> 'a campus_db_scheme" where
  "evaluate_honors honors u s = (case honors of None \<Rightarrow> s
     | Some trigger \<Rightarrow> (case trigger u s of None \<Rightarrow> s | Some m \<Rightarrow> s\<lparr>campus_db.more := m\<rparr>))"

definition approve_submission ::
  "review_env \<Rightarrow> (uuid \<Rightarrow> string) \<Rightarrow> 'a campus_db_scheme reward_port
    \<Rightarrow> (uuid \<Rightarrow> 'a campus_db_scheme \<Rightarrow> 'a option) option
    \<Rightarrow> instant \<Rightarrow> uuid \<Rightarrow> actor \<Rightarrow> uuid \<Rightarrow> audit_context option \<Rightarrow> 'a campus_db_scheme
    \<Rightarrow> review_error + (ApprovalResult \<times> 'a campus_db_scheme)" where
  "approve_submission env str_uuid port honors now rid a submission_id ctx s =
     (case row_of sb_id submission_id (submissions s) of
        None \<Rightarrow> Inl (LockErr (SubmissionNotFound submission_id)) | Some sub \<Rightarrow>
      case row_of cl_id (sb_claim_id sub) (claims s) of
        None \<Rightarrow> Inl (LockErr DanglingClaim) | Some c \<Rightarrow>
      if cl_status c = ClaimStatus.COMPLETED
      then Inr (\<lparr>ap_claim = c, ap_grant = None, ap_already_reviewed = True\<rparr>, s)
      else if cl_status c \<in> set TERMINAL_CLAIM_STATUSES
      then Inl (ClaimNotReviewable (cl_id c) (cl_status c))
      else case require_submission_gates c sub of Inl e \<Rightarrow> Inl e | Inr _ \<Rightarrow>
      case require_review_permission c a s of Inl e \<Rightarrow> Inl e | Inr _ \<Rightarrow>
      if cl_reward_lock_status c \<noteq> PROVISIONAL
      then Inl (LockNotProvisional (cl_id c) (cl_reward_lock_status c))
      else case (cl_reward_tier_locked c, cl_locked_reward_points c) of
        (Some tier, Some points) \<Rightarrow>
          (if row_of as_id (cl_assignment_id c) (assignments s) = None
           then Inl (AssertionFailed ''assignment'')
           else case port (cl_user_id c) (cl_id c) (cl_base_reward_points_snapshot c) points
                  (''assignment_reward:'' @ str_uuid (cl_id c)) (settle_approval now rid a sub c s) of
             Inl e \<Rightarrow> Inl (PointsFailure e)
           | Inr (grant, s2) \<Rightarrow>
             let s3 = approval_trail now a sub c tier points (gres_points_granted grant) ctx s2
             in case record_submission_approved env (approved_claim now c) points s3 of
                  Inl e \<Rightarrow> Inl e
                | Inr s4 \<Rightarrow>
                  Inr (\<lparr>ap_claim = approved_claim now c, ap_grant = Some grant,
                        ap_already_reviewed = False\<rparr>,
                       evaluate_honors honors (cl_user_id c) (commit s4)))
      | _ \<Rightarrow> Inl (AssertionFailed ''locked values''))"

end
