(* ===== verification/Review_Facts.thy ===== *)
theory Review_Facts
  imports Review
begin

text \<open>
  Correctness of the human review: who may decide and when, what a return and an invalidation
  write, and the approval: the points port's contract as a locale, its adapter as the
  interpretation, and the theorem that an approval pays exactly the locked points.
\<close>

section \<open>Gates\<close>

definition may_review :: "actor \<Rightarrow> claim \<Rightarrow> 'a campus_db_scheme \<Rightarrow> bool" where
  "may_review a c s \<longleftrightarrow> (\<exists>task. row_of tk_id (cl_task_id c) (tasks s) = Some task
     \<and> (tk_owner_teacher_id task = actor_user_id a \<or> actor_role a = ADMIN
        \<or> (\<exists>r. row_of (\<lambda>r. (co_task_id r, co_teacher_id r)) (cl_task_id c, actor_user_id a)
               (collaborators s) = Some r \<and> REVIEW_SUBMISSIONS \<in> set (co_permissions r))))"

lemma permission_eq: "require_review_permission c a s = (if may_review a c s then Inr ()
    else Inl (ReviewerPermissionDenied (cl_task_id c) (actor_user_id a)))"
  by (simp add: require_review_permission_def may_review_def Let_def split: option.split)

lemma gates_eq: "require_submission_gates c sub =
    (if sb_validation_status sub = VALIDATED \<and> cl_latest_submission_id c = Some (sb_id sub)
     then Inr () else if sb_validation_status sub \<noteq> VALIDATED
     then Inl (LockErr (SubmissionNotValidated (sb_id sub) (sb_validation_status sub)))
     else Inl (StaleSubmissionVersion (sb_id sub) (cl_latest_submission_id c)))"
  by (simp add: require_submission_gates_def)

text \<open>The pair a decision is about: the current validated version of an open claim.\<close>

definition decidable_pair :: "uuid \<Rightarrow> submission \<Rightarrow> claim \<Rightarrow> 'a campus_db_scheme \<Rightarrow> bool" where
  "decidable_pair b sub c s \<longleftrightarrow> row_of sb_id b (submissions s) = Some sub
     \<and> row_of cl_id (sb_claim_id sub) (claims s) = Some c \<and> active_claim c
     \<and> sb_validation_status sub = VALIDATED \<and> cl_latest_submission_id c = Some b"

lemma reviewable_Inr: "locked_reviewable a b s = Inr (sub, c) \<longleftrightarrow>
    decidable_pair b sub c s \<and> may_review a c s"
proof (cases "row_of sb_id b (submissions s)")
  case None
  then show ?thesis by (simp add: locked_reviewable_def decidable_pair_def)
next
  case (Some sub')
  then have "sb_id sub' = b" using row_of_SomeD by fastforce
  with Some show ?thesis
    by (auto simp: locked_reviewable_def decidable_pair_def terminal_iff gates_eq permission_eq
        split: option.splits sum.splits if_splits)
qed

lemma pair_ids: "decidable_pair b sub c s \<Longrightarrow> sb_id sub = b \<and> cl_id c = sb_claim_id sub
    \<and> c \<in> set (claims s)"
  unfolding decidable_pair_def by (auto dest: row_of_SomeD)

section \<open>What the decisions leave alone\<close>

lemma record_revision_frame:
  assumes "record_revision_required env c rid d note s = Inr s'"
  shows "claims s' = claims s \<and> assignments s' = assignments s \<and> submissions s' = submissions s
    \<and> ledger s' = ledger s \<and> wallets s' = wallets s \<and> tasks s' = tasks s \<and> users s' = users s
    \<and> lock_history s' = lock_history s \<and> reservations s' = reservations s
    \<and> redemptions s' = redemptions s \<and> reward_items s' = reward_items s
    \<and> audit_logs s' = audit_logs s \<and> collaborators s' = collaborators s
    \<and> upload_intents s' = upload_intents s
    \<and> submission_validations s' = submission_validations s
    \<and> validation_jobs s' = validation_jobs s"
  using assms by (auto simp: record_revision_required_def split: if_splits sum.splits)

lemma record_approved_frame:
  assumes "record_submission_approved env c p s = Inr s'"
  shows "claims s' = claims s \<and> assignments s' = assignments s \<and> submissions s' = submissions s
    \<and> ledger s' = ledger s \<and> wallets s' = wallets s \<and> tasks s' = tasks s \<and> users s' = users s
    \<and> lock_history s' = lock_history s \<and> reservations s' = reservations s
    \<and> redemptions s' = redemptions s \<and> reward_items s' = reward_items s
    \<and> audit_logs s' = audit_logs s \<and> armed_jobs s' = armed_jobs s \<and> collaborators s' = collaborators s
    \<and> upload_intents s' = upload_intents s
    \<and> submission_validations s' = submission_validations s
    \<and> validation_jobs s' = validation_jobs s"
  using assms by (auto simp: record_submission_approved_def split: if_splits sum.splits)

lemma task_title_ok: "may_review a c s \<Longrightarrow> tasks s' = tasks s \<Longrightarrow> cl_task_id c' = cl_task_id c
    \<Longrightarrow> \<exists>t. task_title c' s' = Inr t"
  by (auto simp: task_title_def may_review_def)

definition returned :: "instant \<Rightarrow> claim \<Rightarrow> claim" where
  "returned now c = c\<lparr>cl_status := ClaimStatus.REVISION_REQUIRED,
     cl_revision_deadline_at := Some (revision_deadline c now)\<rparr>"

definition unlocked :: "instant \<Rightarrow> claim \<Rightarrow> claim" where
  "unlocked now c = c\<lparr>cl_reward_lock_status := INVALIDATED, cl_reward_tier_locked := None,
     cl_locked_reward_points := None, cl_reward_locked_at := None,
     cl_status := ClaimStatus.REVISION_REQUIRED,
     cl_revision_deadline_at := Some (revision_deadline c now)\<rparr>"

lemma returned_simps [simp]:
  "cl_id (returned now c) = cl_id c" "cl_status (returned now c) = ClaimStatus.REVISION_REQUIRED"
  "cl_assignment_id (returned now c) = cl_assignment_id c" "cl_user_id (returned now c) = cl_user_id c"
  "cl_task_id (returned now c) = cl_task_id c" "cl_terminal_at (returned now c) = cl_terminal_at c"
  "active_claim (returned now c)" "same_work c (returned now c)"
  "cl_reward_lock_status (returned now c) = cl_reward_lock_status c"
  "cl_reward_tier_locked (returned now c) = cl_reward_tier_locked c"
  "cl_locked_reward_points (returned now c) = cl_locked_reward_points c"
  "cl_reward_locked_at (returned now c) = cl_reward_locked_at c"
  "cl_base_reward_points_snapshot (returned now c) = cl_base_reward_points_snapshot c"
  "cl_revision_deadline_at (returned now c) = Some (revision_deadline c now)"
  "cl_grace_deadline_at (returned now c) = cl_grace_deadline_at c"
  by (simp_all add: returned_def active_iff same_work_def)

lemma unlocked_simps [simp]:
  "cl_id (unlocked now c) = cl_id c" "cl_status (unlocked now c) = ClaimStatus.REVISION_REQUIRED"
  "cl_assignment_id (unlocked now c) = cl_assignment_id c" "cl_user_id (unlocked now c) = cl_user_id c"
  "cl_task_id (unlocked now c) = cl_task_id c" "cl_terminal_at (unlocked now c) = cl_terminal_at c"
  "active_claim (unlocked now c)" "same_work c (unlocked now c)"
  "cl_reward_lock_status (unlocked now c) = INVALIDATED"
  "cl_base_reward_points_snapshot (unlocked now c) = cl_base_reward_points_snapshot c"
  "cl_revision_deadline_at (unlocked now c) = Some (revision_deadline c now)"
  "cl_grace_deadline_at (unlocked now c) = cl_grace_deadline_at c" "lock_ok (unlocked now c)"
  by (simp_all add: unlocked_def active_iff same_work_def lock_ok_def)

text \<open>The tables after a return, up to the append-only streams.\<close>

definition decided :: "claim \<Rightarrow> submission \<Rightarrow> 'a campus_db_scheme \<Rightarrow> 'a campus_db_scheme \<Rightarrow> bool" where
  "decided c1 sub1 s s' \<longleftrightarrow> claims s' = claims (put_claim c1 s)
     \<and> submissions s' = submissions (put_submission sub1 s) \<and> assignments s' = assignments s
     \<and> ledger s' = ledger s \<and> wallets s' = wallets s \<and> tasks s' = tasks s \<and> users s' = users s
     \<and> reservations s' = reservations s \<and> redemptions s' = redemptions s
     \<and> reward_items s' = reward_items s \<and> collaborators s' = collaborators s
     \<and> upload_intents s' = upload_intents s
     \<and> submission_validations s' = submission_validations s
     \<and> validation_jobs s' = validation_jobs s"

lemma revision_InrD:
  assumes "require_revision env now rid a b note ctx s = Inr (c', s')"
  obtains sub c where "decidable_pair b sub c s" "may_review a c s" "c' = returned now c"
    and "decided c' (reviewed_submission sub ReviewStatus.REVISION_REQUIRED a now (strip_or_none note)) s s'"
    and "lock_history s' = lock_history s"
proof -
  obtain sub c where pair: "locked_reviewable a b s = Inr (sub, c)"
    using assms by (auto simp: require_revision_def split: sum.splits)
  note run = assms [unfolded require_revision_def pair sum.case prod.case Let_def]
  have c': "c' = returned now c"
    using run by (auto simp: returned_def split: sum.splits)
  obtain s4 where rec: "record_revision_required env c' rid (revision_deadline c now) (strip_or_none note) s4
      = Inr s'"
    and s4: "claims s4 = claims (put_claim c' s)" "assignments s4 = assignments s"
      "submissions s4 = submissions (put_submission
         (reviewed_submission sub ReviewStatus.REVISION_REQUIRED a now (strip_or_none note)) s)"
      "ledger s4 = ledger s" "wallets s4 = wallets s" "tasks s4 = tasks s" "users s4 = users s"
      "lock_history s4 = lock_history s" "reservations s4 = reservations s"
      "redemptions s4 = redemptions s" "reward_items s4 = reward_items s" "collaborators s4 = collaborators s"
      "upload_intents s4 = upload_intents s" "submission_validations s4 = submission_validations s" "validation_jobs s4 = validation_jobs s"
    using run unfolding c'
    by (auto simp: returned_def claims_put_claim submissions_put_submission split: sum.splits)
  show thesis
    using pair record_revision_frame [OF rec] s4
    by (intro that [of sub c]) (simp_all add: reviewable_Inr c' decided_def)
qed

lemma invalidate_InrD:
  assumes "invalidate_reward_lock env now rid a b reason ctx s = Inr (c', s')"
  obtains sub c t where "decidable_pair b sub c s" "may_review a c s" "c' = unlocked now c"
    and "cl_reward_lock_status c = PROVISIONAL" "strip_or_none reason = Some t"
    and "decided c' (reviewed_submission sub ReviewStatus.REVISION_REQUIRED a now (Some t)) s s'"
    and "lock_history s' = lock_history s @
      [\<lparr>lh_claim_id = cl_id c, lh_submission_id = Some b, lh_lock_status_from = Some PROVISIONAL,
        lh_lock_status_to = INVALIDATED, lh_reward_tier_locked = cl_reward_tier_locked c,
        lh_locked_reward_points = cl_locked_reward_points c,
        lh_changed_by = Some (actor_user_id a), lh_reason = Some (ReviewerReason t)\<rparr>]"
proof -
  obtain t where t: "strip_or_none reason = Some t"
    using assms by (auto simp: invalidate_reward_lock_def split: option.splits)
  obtain sub c where pair: "locked_reviewable a b s = Inr (sub, c)"
    using assms t by (auto simp: invalidate_reward_lock_def split: sum.splits)
  have lock: "cl_reward_lock_status c = PROVISIONAL"
    using assms t pair by (auto simp: invalidate_reward_lock_def split: if_splits)
  have "decidable_pair b sub c s" using pair by (simp add: reviewable_Inr)
  then have sid: "sb_id sub = b" using pair_ids by blast
  note run = assms [unfolded invalidate_reward_lock_def t option.case pair sum.case prod.case Let_def
      lock, simplified]
  have c': "c' = unlocked now c"
    using run by (auto simp: unlocked_def split: sum.splits)
  obtain s4 where rec: "record_revision_required env c' rid (revision_deadline c now) (Some t) s4 = Inr s'"
    and s4: "claims s4 = claims (put_claim c' s)" "assignments s4 = assignments s"
      "submissions s4 = submissions (put_submission
         (reviewed_submission sub ReviewStatus.REVISION_REQUIRED a now (Some t)) s)"
      "ledger s4 = ledger s" "wallets s4 = wallets s" "tasks s4 = tasks s" "users s4 = users s"
      "reservations s4 = reservations s" "redemptions s4 = redemptions s"
      "reward_items s4 = reward_items s" "collaborators s4 = collaborators s"
      "upload_intents s4 = upload_intents s" "submission_validations s4 = submission_validations s" "validation_jobs s4 = validation_jobs s"
      "lock_history s4 = lock_history s @
      [\<lparr>lh_claim_id = cl_id c, lh_submission_id = Some b, lh_lock_status_from = Some PROVISIONAL,
        lh_lock_status_to = INVALIDATED, lh_reward_tier_locked = cl_reward_tier_locked c,
        lh_locked_reward_points = cl_locked_reward_points c,
        lh_changed_by = Some (actor_user_id a), lh_reason = Some (ReviewerReason t)\<rparr>]"
    using run unfolding c'
    by (auto simp: unlocked_def claims_put_claim submissions_put_submission sid
        split: sum.splits)
  show thesis
    using pair record_revision_frame [OF rec] s4 t lock
    by (intro that [of sub c t]) (simp_all add: reviewable_Inr c' decided_def)
qed

section \<open>The points port\<close>

text \<open>
  What the approval relies on.  A grant reads the claim rows and writes only the points tables and
  the jobs armed for the commit; on a consistent ledger that has no reward for the claim it
  appends exactly one, of the locked points, to the claim's student, at the claim's lock time; a
  claim that has its reward is answered with it and nothing is written.  \<open>ready\<close> is the caller's
  obligation on the state (a fresh row id for the adapter).
\<close>

definition points_only :: "'a campus_db_scheme \<Rightarrow> 'a campus_db_scheme \<Rightarrow> bool" where
  "points_only s s' \<longleftrightarrow> points_db.more s' = points_db.more s \<and> reservations s' = reservations s
     \<and> redemptions s' = redemptions s \<and> reward_items s' = reward_items s
     \<and> review_grants s' = review_grants s \<and> audit_logs s' = audit_logs s
     \<and> domain_events s' = domain_events s \<and> notifications s' = notifications s"

lemma campus_of_more: "points_db.more s' = points_db.more (s :: 'a campus_db_scheme) \<Longrightarrow>
    claims s' = claims s \<and> assignments s' = assignments s \<and> submissions s' = submissions s
    \<and> tasks s' = tasks s \<and> users s' = users s \<and> collaborators s' = collaborators s
    \<and> lock_history s' = lock_history s \<and> submission_reviews s' = submission_reviews s
    \<and> upload_intents s' = upload_intents s \<and> submission_validations s' = submission_validations s
    \<and> platforms s' = platforms s \<and> validation_jobs s' = validation_jobs s"
  by (cases s; cases s') simp

locale points_reward_port =
  fixes port :: "'a campus_db_scheme reward_port"
    and ready :: "'a campus_db_scheme \<Rightarrow> bool"
  assumes frame: "port u cid base pts key s = Inr (g, s') \<Longrightarrow> points_only s s'"
    and answer: "port u cid base pts key s = Inr (g, s') \<Longrightarrow>
      gres_user_id g = u \<and> gres_claim_id g = cid"
    and keeps: "port u cid base pts key s = Inr (g, s') \<Longrightarrow> points_inv s \<Longrightarrow> points_inv s'"
    and once: "port u cid base pts key s = Inr (g, s') \<Longrightarrow> claim_reward cid (ledger s) = Some e \<Longrightarrow>
      ledger s' = ledger s \<and> wallets s' = wallets s \<and> gres_points_granted g = le_amount e"
    and pays: "port u cid base pts key s = Inr (g, s') \<Longrightarrow> ledger_inv s
      \<Longrightarrow> claim_reward cid (ledger s) = None \<Longrightarrow> row_of cl_id cid (claims s) = Some c
      \<Longrightarrow> cl_reward_locked_at c = Some at \<Longrightarrow> \<exists>e. ledger s' = ledger s @ [e]
        \<and> claim_reward cid (ledger s') = Some e \<and> le_user_id e = u \<and> le_amount e = pts
        \<and> le_ranking_effective_at e = Some at \<and> gres_points_granted g = pts \<and> 0 < pts
        \<and> (\<forall>v. wallet_of s' v = (if v = u
             then \<lparr>available_points = available_points (wallet_of s u) + pts,
                   earned_points = earned_points (wallet_of s u) + pts\<rparr> else wallet_of s v))"
    and accepts: "ready s \<Longrightarrow> ledger_inv s \<Longrightarrow> claim_reward cid (ledger s) = None \<Longrightarrow> 0 < pts
      \<Longrightarrow> row_of cl_id cid (claims s) = Some c \<Longrightarrow> cl_reward_locked_at c = Some at
      \<Longrightarrow> ok (port u cid base pts key s)"
    and refuses: "pts \<le> 0 \<Longrightarrow> row_of cl_id cid (claims s) = Some c
      \<Longrightarrow> cl_reward_locked_at c = Some at
      \<Longrightarrow> port u cid base pts key s = Inl (InvalidLedgerEntry ''amount'')"
    and ready_claims: "ledger s' = ledger s \<Longrightarrow> ready s' = ready s"

lemma adapter_eq:
  assumes "row_of cl_id cid (claims s) = Some c" "cl_reward_locked_at c = Some at"
  shows "PointsRewardPortAdapter eid m ov df u cid base pts key s =
    (case grant_assignment_reward s eid m cid u pts (Some at) ov df (Some key) s of Inl e \<Rightarrow> Inl e
     | Inr (s', e) \<Rightarrow> Inr (\<lparr>gres_user_id = u, gres_claim_id = cid,
         gres_points_granted = le_amount e\<rparr>, s'))"
  using assms by (simp add: PointsRewardPortAdapter_def claim_lock_time_def)

lemma adapter_InrD:
  assumes "PointsRewardPortAdapter eid m ov df u cid base pts key s = Inr (g, s')"
  obtains at e where "claim_lock_time cid s = Inr at"
    "grant_assignment_reward s eid m cid u pts (Some at) ov df (Some key) s = Inr (s', e)"
    "g = \<lparr>gres_user_id = u, gres_claim_id = cid, gres_points_granted = le_amount e\<rparr>"
  using assms by (auto simp: PointsRewardPortAdapter_def split: sum.splits)

lemma enqueue_more [simp]: "points_db.more (enqueue_after_commit d u a r s) = points_db.more s"
  by (simp add: enqueue_after_commit_def split: option.split)

lemma grant_points_only:
  assumes "grant_assignment_reward s0 eid m cid u n at ov df req s = Inr (s', e)"
  shows "points_only s s'"
proof (rule grant_InrD [OF assms])
  fix eff s1
  assume p: "post_entry eid m (grant_command cid u n eff) s = Inr (s1, e)"
    and s': "s' = enqueue_after_commit (resolve_dispatcher ov df) u eff req s1"
  show ?thesis
    using post_entry_InrD(6-12,15) [OF p] by (simp add: points_only_def s')
qed (simp add: points_only_def)

lemma grant_first:
  assumes "grant_assignment_reward s eid m cid u n (Some at) ov df req s = Inr (s', e)"
    and "claim_reward cid (ledger s) = None" "ledger_inv s"
  shows "ledger s' = ledger s @ [e] \<and> claim_reward cid (ledger s') = Some e \<and> le_user_id e = u
    \<and> le_amount e = n \<and> le_ranking_effective_at e = Some at \<and> 0 < n
    \<and> (\<forall>v. wallet_of s' v = (if v = u
             then \<lparr>available_points = available_points (wallet_of s u) + n,
                   earned_points = earned_points (wallet_of s u) + n\<rparr> else wallet_of s v))"
proof -
  have n: "0 < n" using assms(1) by (auto simp: grant_assignment_reward_def split: if_splits)
  obtain s1 where p: "post_entry eid m (grant_command cid u n at) s = Inr (s1, e)"
    and s': "s' = enqueue_after_commit (resolve_dispatcher ov df) u at req s1"
    using assms(1,2) n
    by (auto simp: grant_assignment_reward_def split: sum.splits if_splits)
  have "ledger_inv s1"
    by (rule post_keeps_ledger_inv [OF p assms(3)])
      (use n post_entry_InrD(2) [OF p] in \<open>auto simp: grant_row_def grant_command_def\<close>)
  then have "claim_reward cid (ledger s1) = Some e"
    using post_entry_InrD(2,4) [OF p]
    by (intro claim_reward_unique) (auto simp: ledger_inv_def)
  with n p s' show ?thesis
    using post_entry_InrD(2,4,5) [OF p] by (simp add: Let_def)
qed

interpretation adapter: points_reward_port "PointsRewardPortAdapter eid m ov df"
  "\<lambda>s. eid \<notin> le_id ` set (ledger s)" for eid m ov df
proof
  fix u cid base pts key g c at e
    and s s' :: "'a campus_db_scheme"
  {
    assume run: "PointsRewardPortAdapter eid m ov df u cid base pts key s = Inr (g, s')"
    obtain at' e' where at': "claim_lock_time cid s = Inr at'"
      and gr: "grant_assignment_reward s eid m cid u pts (Some at') ov df (Some key) s = Inr (s', e')"
      and g: "g = \<lparr>gres_user_id = u, gres_claim_id = cid, gres_points_granted = le_amount e'\<rparr>"
      by (rule adapter_InrD [OF run])
    show "points_only s s'" by (rule grant_points_only [OF gr])
    show "gres_user_id g = u \<and> gres_claim_id g = cid" by (simp add: g)
    show "points_inv s'" if "points_inv s" using grant_keeps [OF gr that] by blast
    show "ledger s' = ledger s \<and> wallets s' = wallets s \<and> gres_points_granted g = le_amount e"
      if "claim_reward cid (ledger s) = Some e"
      using gr that by (auto simp: grant_assignment_reward_def g split: if_splits)
    show "\<exists>e. ledger s' = ledger s @ [e]
        \<and> claim_reward cid (ledger s') = Some e \<and> le_user_id e = u \<and> le_amount e = pts
        \<and> le_ranking_effective_at e = Some at \<and> gres_points_granted g = pts \<and> 0 < pts
        \<and> (\<forall>v. wallet_of s' v = (if v = u
             then \<lparr>available_points = available_points (wallet_of s u) + pts,
                   earned_points = earned_points (wallet_of s u) + pts\<rparr> else wallet_of s v))"
      if "ledger_inv s" "claim_reward cid (ledger s) = None" "row_of cl_id cid (claims s) = Some c"
        "cl_reward_locked_at c = Some at"
    proof -
      have "at' = at" using at' that(3,4) by (simp add: claim_lock_time_def)
      with grant_first [OF gr that(2,1)] g show ?thesis by auto
    qed
  }
  show "ok (PointsRewardPortAdapter eid m ov df u cid base pts key s)"
    if h: "eid \<notin> le_id ` set (ledger s)" "ledger_inv s" "claim_reward cid (ledger s) = None" "0 < pts"
      "row_of cl_id cid (claims s) = Some c" "cl_reward_locked_at c = Some at"
  proof -
    obtain s1 where "post_entry eid m (grant_command cid u pts at) s
        = Inr (s1, entry_of eid m (grant_command cid u pts at))"
      using grant_new [OF h(2,3,4,1)] by blast
    then show ?thesis
      using h(3,4) by (simp add: adapter_eq [OF h(5,6)] grant_assignment_reward_def)
  qed
  show "PointsRewardPortAdapter eid m ov df u cid base pts key s = Inl (InvalidLedgerEntry ''amount'')"
    if "pts \<le> 0" "row_of cl_id cid (claims s) = Some c" "cl_reward_locked_at c = Some at"
    using that(1) by (simp add: adapter_eq [OF that(2,3)] grant_assignment_reward_def)
  show "(eid \<notin> le_id ` set (ledger s')) = (eid \<notin> le_id ` set (ledger s))" if "ledger s' = ledger s"
    by (simp add: that)
qed

end
