(* ===== verification/Approval.thy ===== *)
theory Approval
  imports Review_Facts
begin

text \<open>
  Correctness of the approval: proved once for any provider of the points port, inside the locale
  of its contract, and then for the ledger adapter through its interpretation.
\<close>

section \<open>What the approval leaves alone\<close>

lemma commit_campus [simp]:
  "claims (commit s) = claims s" "assignments (commit s) = assignments s"
  "submissions (commit s) = submissions s" "tasks (commit s) = tasks s" "users (commit s) = users s"
  "collaborators (commit s) = collaborators s" "lock_history (commit s) = lock_history s"
  "upload_intents (commit s) = upload_intents s" "submission_validations (commit s) = submission_validations s" "validation_jobs (commit s) = validation_jobs s"
  "domain_events (commit s) = domain_events s" "notifications (commit s) = notifications s"
  by (simp_all add: commit_def)

lemma honors_frame [simp]:
  "claims (evaluate_honors h u s) = claims s" "assignments (evaluate_honors h u s) = assignments s"
  "submissions (evaluate_honors h u s) = submissions s" "tasks (evaluate_honors h u s) = tasks s"
  "users (evaluate_honors h u s) = users s" "collaborators (evaluate_honors h u s) = collaborators s"
  "lock_history (evaluate_honors h u s) = lock_history s" "ledger (evaluate_honors h u s) = ledger s"
  "wallets (evaluate_honors h u s) = wallets s" "audit_logs (evaluate_honors h u s) = audit_logs s"
  "reservations (evaluate_honors h u s) = reservations s"
  "redemptions (evaluate_honors h u s) = redemptions s"
  "reward_items (evaluate_honors h u s) = reward_items s"
  "upload_intents (evaluate_honors h u s) = upload_intents s"
  "submission_validations (evaluate_honors h u s) = submission_validations s"
  "validation_jobs (evaluate_honors h u s) = validation_jobs s"
  by (simp_all add: evaluate_honors_def split: option.split)

lemma trail_frame [simp]:
  "claims (approval_trail now a sub c t p g ctx s) = claims s"
  "assignments (approval_trail now a sub c t p g ctx s) = assignments s"
  "submissions (approval_trail now a sub c t p g ctx s) = submissions s"
  "tasks (approval_trail now a sub c t p g ctx s) = tasks s"
  "users (approval_trail now a sub c t p g ctx s) = users s"
  "collaborators (approval_trail now a sub c t p g ctx s) = collaborators s"
  "lock_history (approval_trail now a sub c t p g ctx s) = lock_history s"
  "ledger (approval_trail now a sub c t p g ctx s) = ledger s"
  "wallets (approval_trail now a sub c t p g ctx s) = wallets s"
  "reservations (approval_trail now a sub c t p g ctx s) = reservations s"
  "redemptions (approval_trail now a sub c t p g ctx s) = redemptions s"
  "reward_items (approval_trail now a sub c t p g ctx s) = reward_items s"
  "upload_intents (approval_trail now a sub c t p g ctx s) = upload_intents s"
  "submission_validations (approval_trail now a sub c t p g ctx s) = submission_validations s"
  "validation_jobs (approval_trail now a sub c t p g ctx s) = validation_jobs s"
  by (simp_all add: approval_trail_def)

text \<open>The settled unit of work: completed only from OCCUPIED.\<close>

definition finished_unit :: "assignment \<Rightarrow> assignment" where
  "finished_unit u = (if as_availability_status u = OCCUPIED
     then u\<lparr>as_availability_status := AssignmentAvailability.COMPLETED\<rparr> else u)"

lemma settle_frame [simp]:
  "ledger (settle_approval now rid a sub c s) = ledger s"
  "wallets (settle_approval now rid a sub c s) = wallets s"
  "reservations (settle_approval now rid a sub c s) = reservations s"
  "redemptions (settle_approval now rid a sub c s) = redemptions s"
  "reward_items (settle_approval now rid a sub c s) = reward_items s"
  "tasks (settle_approval now rid a sub c s) = tasks s"
  "users (settle_approval now rid a sub c s) = users s"
  "collaborators (settle_approval now rid a sub c s) = collaborators s"
  "upload_intents (settle_approval now rid a sub c s) = upload_intents s"
  "submission_validations (settle_approval now rid a sub c s) = submission_validations s"
  "validation_jobs (settle_approval now rid a sub c s) = validation_jobs s"
  "claims (settle_approval now rid a sub c s) = claims (put_claim (approved_claim now c) s)"
  "submissions (settle_approval now rid a sub c s) = submissions (put_submission
     (reviewed_submission sub ReviewStatus.APPROVED a now None) s)"
  by (simp_all add: settle_approval_def Let_def claims_put_claim submissions_put_submission
      split: option.split)

lemma settle_assignments: "row_of as_id k (assignments (settle_approval now rid a sub c s)) =
    (if k = cl_assignment_id c then map_option finished_unit (row_of as_id k (assignments s))
     else row_of as_id k (assignments s))"
proof (cases "row_of as_id (cl_assignment_id c) (assignments s)")
  case (Some u)
  then have "as_id u = cl_assignment_id c" using row_of_SomeD by fastforce
  with Some show ?thesis
    by (auto simp: settle_approval_def Let_def row_of_put_assignment finished_unit_def)
qed (auto simp: settle_approval_def Let_def)

lemma settle_assignment_ids [simp]:
  "map as_id (assignments (settle_approval now rid a sub c s)) = map as_id (assignments s)"
  by (simp add: settle_approval_def Let_def split: option.split)

lemma finished_unit_simps [simp]: "as_id (finished_unit u) = as_id u"
  "as_availability_status (finished_unit u) = AVAILABLE \<longleftrightarrow> as_availability_status u = AVAILABLE"
  by (simp_all add: finished_unit_def)

lemma approved_claim_simps [simp]:
  "cl_id (approved_claim now c) = cl_id c"
  "cl_status (approved_claim now c) = ClaimStatus.COMPLETED"
  "cl_assignment_id (approved_claim now c) = cl_assignment_id c"
  "cl_user_id (approved_claim now c) = cl_user_id c"
  "cl_task_id (approved_claim now c) = cl_task_id c"
  "cl_terminal_at (approved_claim now c) = Some now"
  "\<not> active_claim (approved_claim now c)" "same_work c (approved_claim now c)"
  "cl_reward_lock_status (approved_claim now c) = CONFIRMED"
  "cl_reward_tier_locked (approved_claim now c) = cl_reward_tier_locked c"
  "cl_locked_reward_points (approved_claim now c) = cl_locked_reward_points c"
  "cl_reward_locked_at (approved_claim now c) = cl_reward_locked_at c"
  "cl_base_reward_points_snapshot (approved_claim now c) = cl_base_reward_points_snapshot c"
  by (simp_all add: approved_claim_def active_iff same_work_def)

lemma settle_points_inv [simp]: "points_inv (settle_approval now rid a sub c s) = points_inv s"
  by (rule points_inv_cong) simp_all

lemma settle_keeps:
  assumes inv: "claims_inv s" and pair: "decidable_pair b sub c s"
  shows "claims_inv (settle_approval now rid a sub c s)"
proof -
  have row: "row_of cl_id (cl_id (approved_claim now c)) (claims s) = Some c"
    using pair pair_ids [OF pair] by (simp add: decidable_pair_def)
  have put: "claims_inv (put_claim (approved_claim now c) s)"
    by (rule put_claim_keeps [OF inv row]) simp_all
  have "held (settle_approval now rid a sub c s) d" if "held (put_claim (approved_claim now c) s) d" for d
    using that by (auto simp: held_def settle_assignments)
  then show ?thesis
    using put unfolding claims_inv_def settle_frame settle_assignment_ids put_claim_frame by blast
qed

section \<open>The approval step\<close>

text \<open>The state of a payable claim: reviewable, by someone allowed to, with a live lock.\<close>

definition payable :: "actor \<Rightarrow> uuid \<Rightarrow> submission \<Rightarrow> claim \<Rightarrow> int \<Rightarrow> 'a campus_db_scheme \<Rightarrow> bool" where
  "payable a b sub c points s \<longleftrightarrow> decidable_pair b sub c s \<and> may_review a c s
     \<and> cl_reward_lock_status c = PROVISIONAL \<and> cl_reward_tier_locked c \<noteq> None
     \<and> cl_locked_reward_points c = Some points
     \<and> row_of as_id (cl_assignment_id c) (assignments s) \<noteq> None"

definition approval_key :: "(uuid \<Rightarrow> string) \<Rightarrow> claim \<Rightarrow> string" where
  "approval_key str c = ''assignment_reward:'' @ str (cl_id c)"

context points_reward_port
begin

lemma approve_cases:
  assumes "approve_submission env str port honors now rid a b ctx s = Inr (r, s')"
  obtains (replay) sub c where "row_of sb_id b (submissions s) = Some sub"
      "row_of cl_id (sb_claim_id sub) (claims s) = Some c" "cl_status c = ClaimStatus.COMPLETED"
      "r = \<lparr>ap_claim = c, ap_grant = None, ap_already_reviewed = True\<rparr>" "s' = s"
  | (paid) sub c points g s2 where "payable a b sub c points s"
      "port (cl_user_id c) (cl_id c) (cl_base_reward_points_snapshot c) points (approval_key str c)
         (settle_approval now rid a sub c s) = Inr (g, s2)"
      "r = \<lparr>ap_claim = approved_claim now c, ap_grant = Some g, ap_already_reviewed = False\<rparr>"
      "claims s' = claims s2" "assignments s' = assignments s2" "submissions s' = submissions s2"
      "ledger s' = ledger s2" "wallets s' = wallets s2" "tasks s' = tasks s2" "users s' = users s2"
      "collaborators s' = collaborators s2" "reservations s' = reservations s2"
      "redemptions s' = redemptions s2" "reward_items s' = reward_items s2"
      "upload_intents s' = upload_intents s2" "submission_validations s' = submission_validations s2" "validation_jobs s' = validation_jobs s2"
proof -
  obtain sub where sub: "row_of sb_id b (submissions s) = Some sub"
    using assms by (auto simp: approve_submission_def split: option.splits)
  obtain c where c: "row_of cl_id (sb_claim_id sub) (claims s) = Some c"
    using assms sub by (auto simp: approve_submission_def split: option.splits)
  have sid: "sb_id sub = b" using row_of_SomeD [OF sub] by simp
  note run = assms [unfolded approve_submission_def sub c option.case terminal_iff gates_eq
      permission_eq approval_key_def [symmetric]]
  show thesis
  proof (cases "cl_status c = ClaimStatus.COMPLETED")
    case True
    with run show thesis by (intro replay [OF sub c]) simp_all
  next
    case False
    with run have act: "active_claim c" by (auto split: if_splits)
    from run False act have pair: "decidable_pair b sub c s" "may_review a c s"
      using sub c sid by (auto simp: decidable_pair_def split: if_splits)
    note run1 = run [simplified False act pair if_True if_False simp_thms]
    have v: "sb_validation_status sub = VALIDATED" "cl_latest_submission_id c = Some b"
      using pair(1) by (simp_all add: decidable_pair_def)
    have lock: "cl_reward_lock_status c = PROVISIONAL"
      using run1 v by (simp add: sid split: if_splits)
    obtain tier points where vals: "cl_reward_tier_locked c = Some tier"
      "cl_locked_reward_points c = Some points"
      using run1 v lock by (auto simp: sid split: option.splits)
    have unit: "row_of as_id (cl_assignment_id c) (assignments s) \<noteq> None"
      using run1 v lock vals by (auto simp: sid split: if_splits)
    then obtain g s2 where pay: "port (cl_user_id c) (cl_id c) (cl_base_reward_points_snapshot c)
        points (approval_key str c) (settle_approval now rid a sub c s) = Inr (g, s2)"
      using run1 v lock vals by (auto simp: sid split: sum.splits)
    obtain s4 where rec: "record_submission_approved env (approved_claim now c) points
        (approval_trail now a sub c tier points (gres_points_granted g) ctx s2) = Inr s4"
      and res: "r = \<lparr>ap_claim = approved_claim now c, ap_grant = Some g, ap_already_reviewed = False\<rparr>"
      "s' = evaluate_honors honors (cl_user_id c) (commit s4)"
      using run1 v lock vals unit pay by (auto simp: sid Let_def split: sum.splits)
    show thesis
    proof (rule paid)
      show "payable a b sub c points s" using pair lock vals unit by (simp add: payable_def)
    qed (use pay res record_approved_frame [OF rec] in simp_all)
  qed
qed

text \<open>What one paying approval does to the money and to the rows.\<close>

lemma approve_pays:
  assumes run: "approve_submission env str port honors now rid a b ctx s = Inr (r, s')"
    and fresh: "\<not> ap_already_reviewed r" and inv: "points_inv s" "claims_inv s"
    and row: "row_of sb_id b (submissions s) = Some sub" "row_of cl_id (sb_claim_id sub) (claims s) = Some c"
    and locks: "lock_ok c" and unpaid: "claim_reward (cl_id c) (ledger s) = None"
  shows "\<exists>e points at. payable a b sub c points s \<and> cl_reward_locked_at c = Some at \<and> 0 < points
    \<and> ledger s' = ledger s @ [e] \<and> claim_reward (cl_id c) (ledger s') = Some e
    \<and> le_user_id e = cl_user_id c \<and> le_amount e = points \<and> le_ranking_effective_at e = Some at
    \<and> (\<forall>v. wallet_of s' v = (if v = cl_user_id c
         then \<lparr>available_points = available_points (wallet_of s v) + points,
               earned_points = earned_points (wallet_of s v) + points\<rparr> else wallet_of s v))
    \<and> claims s' = claims (put_claim (approved_claim now c) s)
    \<and> submissions s' = submissions (put_submission (reviewed_submission sub ReviewStatus.APPROVED a now None) s)
    \<and> (\<forall>k. row_of as_id k (assignments s') = (if k = cl_assignment_id c
         then map_option finished_unit (row_of as_id k (assignments s)) else row_of as_id k (assignments s)))"
  using run
proof (cases rule: approve_cases)
  case replay
  with fresh show ?thesis by simp
next
  case (paid sub' c' points g s2)
  have same: "sub' = sub" "c' = c"
    using paid(1) row by (auto simp: payable_def decidable_pair_def)
  note pay = paid(1,2)[unfolded same]
  have pair: "decidable_pair b sub c s" and pts: "cl_locked_reward_points c = Some points"
    using pay(1) by (simp_all add: payable_def)
  obtain at where at: "cl_reward_locked_at c = Some at"
    using pay(1) locks by (auto simp: lock_ok_def payable_def)
  have crow: "row_of cl_id (cl_id c) (claims (settle_approval now rid a sub c s)) = Some (approved_claim now c)"
    using row(2) pair_ids [OF pair] by (simp add: row_of_put_claim)
  have linv: "ledger_inv (settle_approval now rid a sub c s)"
    using settle_points_inv [of now rid a sub c s] inv(1) by (simp add: points_inv_def)
  obtain e where e: "ledger s2 = ledger s @ [e]" "claim_reward (cl_id c) (ledger s2) = Some e"
      "le_user_id e = cl_user_id c" "le_amount e = points" "le_ranking_effective_at e = Some at" "0 < points"
    and w: "\<forall>v. wallet_of s2 v = (if v = cl_user_id c
         then \<lparr>available_points = available_points (wallet_of s (cl_user_id c)) + points,
               earned_points = earned_points (wallet_of s (cl_user_id c)) + points\<rparr> else wallet_of s v)"
    using pays [OF pay(2) linv _ crow, of at] unpaid at by (auto simp: wallet_of_def)
  have more: "points_db.more s2 = points_db.more (settle_approval now rid a sub c s)"
    using frame [OF pay(2)] by (simp add: points_only_def)
  have "wallet_of s' = wallet_of s2" using paid(8) by (rule wallets_wallet_of)
  then have wal: "wallet_of s' v = (if v = cl_user_id c
         then \<lparr>available_points = available_points (wallet_of s v) + points,
               earned_points = earned_points (wallet_of s v) + points\<rparr> else wallet_of s v)" for v
    using w by simp
  show ?thesis
    using pay(1) at e wal campus_of_more [OF more] paid(4-7)
    by (intro exI [of _ e] exI [of _ points] exI [of _ at]) (simp add: same settle_assignments)
qed

lemma approval_keeps:
  assumes run: "approve_submission env str port honors now rid a b ctx s = Inr (r, s')"
    and inv: "points_inv s" "claims_inv s"
  shows "points_inv s' \<and> claims_inv s'"
  using run
proof (cases rule: approve_cases)
  case replay
  with inv show ?thesis by simp
next
  case (paid sub c points g s2)
  have pair: "decidable_pair b sub c s" using paid(1) by (simp add: payable_def)
  have more: "points_db.more s2 = points_db.more (settle_approval now rid a sub c s)"
    using frame [OF paid(2)] by (simp add: points_only_def)
  have "points_inv s2"
    by (rule keeps [OF paid(2)]) (simp add: inv)
  then have "points_inv s'"
    by (subst points_inv_cong [of s' s2]) (simp_all add: paid(7-14))
  moreover have "claims_inv s'"
    using settle_keeps [OF inv(2) pair, of now rid a]
    by (subst claims_inv_cong [of s' "settle_approval now rid a sub c s"])
      (simp_all add: paid(4,5) campus_of_more [OF more, THEN conjunct1]
        campus_of_more [OF more, THEN conjunct2, THEN conjunct1])
  ultimately show ?thesis by blast
qed

lemma record_approved_ok: "may_review a c s \<Longrightarrow> tasks s1 = tasks s
    \<Longrightarrow> ok (record_submission_approved env (approved_claim now c) p s1)"
  using task_title_ok [of a c s s1 "approved_claim now c"]
  by (auto simp: record_submission_approved_def)

lemma approve_accepts:
  assumes pay: "payable a b sub c points s" and pos: "0 < points" and locks: "lock_ok c"
    and inv: "points_inv s" and unpaid: "claim_reward (cl_id c) (ledger s) = None" and ready: "ready s"
  shows "\<exists>r s'. approve_submission env str port honors now rid a b ctx s = Inr (r, s')
    \<and> \<not> ap_already_reviewed r"
proof -
  let ?s1 = "settle_approval now rid a sub c s"
  have pair: "decidable_pair b sub c s" and perm: "may_review a c s"
    and lock: "cl_reward_lock_status c = PROVISIONAL" and pts: "cl_locked_reward_points c = Some points"
    and unit: "row_of as_id (cl_assignment_id c) (assignments s) \<noteq> None"
    using pay by (simp_all add: payable_def)
  obtain at tier where at: "cl_reward_locked_at c = Some at" and tier: "cl_reward_tier_locked c = Some tier"
    using locks lock by (auto simp: lock_ok_def)
  have ids: "sb_id sub = b" "cl_id c = sb_claim_id sub" using pair_ids [OF pair] by auto
  have crow: "row_of cl_id (cl_id c) (claims ?s1) = Some (approved_claim now c)"
    using pair ids by (simp add: row_of_put_claim decidable_pair_def)
  have "ok (port (cl_user_id c) (cl_id c) (cl_base_reward_points_snapshot c) points (approval_key str c) ?s1)"
  proof (rule accepts [OF _ _ _ pos crow, of at])
    show "ready ?s1" using ready ready_claims [of ?s1 s] by simp
    show "ledger_inv ?s1"
      using settle_points_inv [of now rid a sub c s] inv by (simp add: points_inv_def)
    show "claim_reward (cl_id c) (ledger ?s1) = None" using unpaid by simp
    show "cl_reward_locked_at (approved_claim now c) = Some at" using at by simp
  qed
  then obtain g s2 where port: "port (cl_user_id c) (cl_id c) (cl_base_reward_points_snapshot c) points
      (approval_key str c) ?s1 = Inr (g, s2)" by (auto simp: ok_iff)
  have "tasks s2 = tasks s"
    using frame [OF port] campus_of_more [of s2 ?s1] by (simp add: points_only_def)
  then have "tasks (approval_trail now a sub c tier points (gres_points_granted g) ctx s2) = tasks s"
    by simp
  then have "ok (record_submission_approved env (approved_claim now c) points
      (approval_trail now a sub c tier points (gres_points_granted g) ctx s2))"
    by (rule record_approved_ok [OF perm])
  then obtain s4 where rec: "record_submission_approved env (approved_claim now c) points
      (approval_trail now a sub c tier points (gres_points_granted g) ctx s2) = Inr s4"
    unfolding ok_iff by blast
  have rows: "row_of sb_id b (submissions s) = Some sub" "row_of cl_id (sb_claim_id sub) (claims s) = Some c"
    and act: "active_claim c" "cl_status c \<noteq> ClaimStatus.COMPLETED"
    and gate: "sb_validation_status sub = VALIDATED" "cl_latest_submission_id c = Some b"
    using pair by (auto simp: decidable_pair_def active_iff)
  have "approve_submission env str port honors now rid a b ctx s
      = Inr (\<lparr>ap_claim = approved_claim now c, ap_grant = Some g, ap_already_reviewed = False\<rparr>,
             evaluate_honors honors (cl_user_id c) (commit s4))"
    unfolding approve_submission_def rows option.case terminal_iff gates_eq permission_eq
      approval_key_def [symmetric]
    using act gate perm lock tier pts unit port rec by (simp add: ids(1) Let_def)
  then show ?thesis by simp
qed

end

end
