(* ===== verification/Upload.thy ===== *)
theory Upload
  imports Approval
begin

text \<open>
  Presigned uploads (\<open>submissions/upload_service.py\<close>): issuing a single-use upload intent and
  finalizing it into the next submission version.  The object store (\<open>integrations/object_storage.py\<close>
  is only its port) is a pair of arguments: what a presign call answers and what a HEAD finds.  The
  row ids, the instant after the locks, and the dispatcher of the validation job are arguments too.
  Both operations can commit and then raise (a burned intent, a failed publish), so they return the
  outcome next to the state that is left.
\<close>

section \<open>The object-store port\<close>

datatype provider_failure = TemporaryProviderError | PermanentProviderError | UnknownOutcomeError

record UploadUrl =
  uu_object_key :: string
  uu_url :: string
  uu_expires_at :: instant
  uu_client_headers :: "(string \<times> string) list"
  uu_pinned_content_length :: "int option"

record ObjectHead =
  oh_object_key :: string
  oh_size :: int
  oh_content_type :: string

text \<open>Claim, content type, time to live, content length; and the lookup of one key.\<close>

type_synonym presigner = "uuid \<Rightarrow> string \<Rightarrow> int \<Rightarrow> int \<Rightarrow> provider_failure + UploadUrl"

type_synonym head_port = "string \<Rightarrow> provider_failure + ObjectHead option"

section \<open>Value sets\<close>

definition SUBMITTABLE_STATUSES :: "ClaimStatus list" where
  "SUBMITTABLE_STATUSES = [CLAIMED, ClaimStatus.REVISION_REQUIRED]"

definition days :: "int \<Rightarrow> int" where "days n = hours (24 * n)"

definition RETENTION_POLICY_DAYS :: "(string \<times> int) list" where
  "RETENTION_POLICY_DAYS = [(retention_policy_value DAYS_30, 30),
     (retention_policy_value DAYS_90, 90), (retention_policy_value DAYS_180, 180)]"

fun DECLARED_TYPE_CONTENT_TYPES :: "FileType \<Rightarrow> string" where
  "DECLARED_TYPE_CONTENT_TYPES CSV = ''text/csv''"
| "DECLARED_TYPE_CONTENT_TYPES XLSX =
     ''application/vnd.openxmlformats-officedocument.spreadsheetml.sheet''"
| "DECLARED_TYPE_CONTENT_TYPES SQLITE = ''application/vnd.sqlite3''"
| "DECLARED_TYPE_CONTENT_TYPES DOCX =
     ''application/vnd.openxmlformats-officedocument.wordprocessingml.document''"
| "DECLARED_TYPE_CONTENT_TYPES PDF = ''application/pdf''"

definition DEFAULT_UPLOAD_URL_TTL :: int where "DEFAULT_UPLOAD_URL_TTL = minutes 10"

definition DEFAULT_INTENT_TTL :: int where "DEFAULT_INTENT_TTL = minutes 15"

definition DEFAULT_MAX_UPLOAD_BYTES :: int where
  "DEFAULT_MAX_UPLOAD_BYTES = 200 * 1024 * 1024"

definition MAX_FILENAME_LENGTH :: nat where "MAX_FILENAME_LENGTH = 255"

definition FILENAME_FALLBACK :: string where "FILENAME_FALLBACK = ''unnamed''"

section \<open>Errors\<close>

datatype upload_constraint =
    Pk_row | Uq_object_key | Uq_claim_version | Ck_declared_size | Ck_file_size | Ck_version
  | Ck_retention_exclusive

datatype upload_error =
    UploadIntentNotFound uuid
  | UploaderNotStudent uuid Role
  | AccountError claim_error
  | ClaimError abandon_error
  | ClaimNotSubmittable ClaimStatus
  | FileTypeNotAllowed string "string list"
  | FileTooLarge int int
  | SubmissionWindowClosed ClaimStatus instant "instant option"
  | UploadObjectMissing uuid
  | UploadSizeMismatch int int
  | UploadTypeMismatch FileType string string
  | ProviderFailed provider_failure
  | UploadValueError string
  | UnsignedContentLength
  | UploadIntegrity upload_constraint
  | DispatchFailed

fun upload_envelope :: "upload_error \<Rightarrow> business_error option" where
  "upload_envelope (UploadIntentNotFound i) = Some (Business NOT_FOUND 404 [(''intent_id'', JUuid i)])"
| "upload_envelope (UploaderNotStudent u r) = Some (Business PERMISSION_DENIED 403
     [(''user_id'', JUuid u), (''role'', JStr (role_value r))])"
| "upload_envelope (AccountError e) = claim_envelope e"
| "upload_envelope (ClaimError e) = abandon_envelope e"
| "upload_envelope (ClaimNotSubmittable st) = Some (Business CLAIM_NOT_SUBMITTABLE 409
     [(''claim_status'', JStr (claim_status_value st)),
      (''submittable_statuses'',
        JList (map (\<lambda>x. JStr (claim_status_value x)) SUBMITTABLE_STATUSES))])"
| "upload_envelope (FileTypeNotAllowed t ts) = Some (Business FILE_TYPE_NOT_ALLOWED 400
     [(''declared_type'', JStr t), (''allowed_file_types'', JList (map JStr ts))])"
| "upload_envelope (FileTooLarge n limit) = Some (Business FILE_TOO_LARGE 400
     [(''declared_size'', JInt n), (''limit'', JInt limit)])"
| "upload_envelope (SubmissionWindowClosed st g r) = Some (Business SUBMISSION_WINDOW_CLOSED 409
     [(''claim_status'', JStr (claim_status_value st)), (''grace_deadline_at'', JTime g),
      (''revision_deadline_at'', jopt JTime r)])"
| "upload_envelope (UploadObjectMissing i) = Some (Business NOT_FOUND 404 [(''intent_id'', JUuid i)])"
| "upload_envelope (UploadSizeMismatch d n) = Some (Business FILE_TOO_LARGE 400
     [(''declared_size'', JInt d), (''actual_size'', JInt n)])"
| "upload_envelope (UploadTypeMismatch t actual expected) = Some (Business FILE_TYPE_NOT_ALLOWED 400
     [(''declared_type'', JStr (file_type_value t)), (''actual_content_type'', JStr actual),
      (''expected_content_type'', JStr expected)])"
| "upload_envelope e = None"

section \<open>Pure helpers\<close>

text \<open>\<open>str.isprintable\<close> of one character, on the code points 0 to 255.\<close>

definition py_printable :: "char \<Rightarrow> bool" where
  "py_printable c = (let n = (of_char c :: nat) in
     (32 \<le> n \<and> n \<le> 126) \<or> (161 \<le> n \<and> n \<noteq> 173))"

definition basename :: "string \<Rightarrow> string" where
  "basename s = rev (takeWhile (\<lambda>c. c \<noteq> CHR ''/'') (rev s))"

definition sanitize_filename :: "string \<Rightarrow> string" where
  "sanitize_filename filename =
     (let name = basename (map (\<lambda>c. if c = CHR 0x5C then CHR ''/'' else c) filename);
          name = py_strip (filter py_printable name);
          name = take MAX_FILENAME_LENGTH name
      in if name = [] then FILENAME_FALLBACK else name)"

definition retention_snapshot :: "string \<Rightarrow> instant \<Rightarrow> upload_error + (instant option \<times> bool)" where
  "retention_snapshot policy submitted_at =
     (if policy = retention_policy_value PERMANENT then Inr (None, True)
      else case map_of RETENTION_POLICY_DAYS policy of
          None \<Rightarrow> Inl (UploadValueError policy)
        | Some n \<Rightarrow> Inr (Some (submitted_at + days n), False))"

definition submission_window_open :: "claim \<Rightarrow> instant \<Rightarrow> bool" where
  "submission_window_open c now =
     (case (if cl_status c = ClaimStatus.REVISION_REQUIRED then cl_revision_deadline_at c
            else Some (cl_grace_deadline_at c)) of
        None \<Rightarrow> False | Some deadline \<Rightarrow> now < deadline)"

section \<open>The policy\<close>

definition require_active_student :: "Claimer \<Rightarrow> upload_error + unit" where
  "require_active_student user =
     (if cm_role user \<noteq> STUDENT then Inl (UploaderNotStudent (cm_id user) (cm_role user))
      else if cm_status user \<noteq> UserStatus.ACTIVE then Inl (AccountError (AccountNotActive (cm_id user)))
      else Inr ())"

definition upload_policy_check ::
  "Claimer \<Rightarrow> claim \<Rightarrow> task \<Rightarrow> string \<Rightarrow> int \<Rightarrow> instant \<Rightarrow> int \<Rightarrow> upload_error + unit" where
  "upload_policy_check user c task declared_type declared_size now max_upload_bytes =
     (case require_active_student user of Inl e \<Rightarrow> Inl e | Inr _ \<Rightarrow>
      if cl_user_id c \<noteq> cm_id user then Inl (ClaimError (ClaimNotOwned (cl_id c) (cm_id user)))
      else if cl_status c \<notin> set SUBMITTABLE_STATUSES then Inl (ClaimNotSubmittable (cl_status c))
      else if declared_type \<notin> set (tk_allowed_file_types task)
      then Inl (FileTypeNotAllowed declared_type (tk_allowed_file_types task))
      else let limit = min (tk_max_file_size_bytes task) max_upload_bytes in
      if limit < declared_size then Inl (FileTooLarge declared_size limit)
      else if \<not> submission_window_open c now
      then Inl (SubmissionWindowClosed (cl_status c) (cl_grace_deadline_at c)
             (cl_revision_deadline_at c))
      else Inr ())"

definition lock_account :: "uuid \<Rightarrow> 'a campus_db_scheme \<Rightarrow> upload_error + Claimer" where
  "lock_account u s = (case row_of us_id u (users s) of
       None \<Rightarrow> Inl (AccountError (UserNotFound u))
     | Some acct \<Rightarrow>
       let user = \<lparr>cm_id = u, cm_status = us_status acct, cm_role = us_role acct\<rparr>
       in case require_active_student user of Inl e \<Rightarrow> Inl e | Inr _ \<Rightarrow> Inr user)"

section \<open>The service\<close>

record upload_config =
  uc_url_ttl :: int
  uc_intent_ttl :: int
  uc_max_upload_bytes :: int

definition UploadService_init :: "int \<Rightarrow> int \<Rightarrow> int \<Rightarrow> upload_error + upload_config" where
  "UploadService_init url_ttl intent_ttl max_bytes =
     (if intent_ttl \<le> url_ttl then Inl (UploadValueError ''upload_url_ttl'')
      else Inr \<lparr>uc_url_ttl = url_ttl, uc_intent_ttl = intent_ttl, uc_max_upload_bytes = max_bytes\<rparr>)"

definition insert_intent ::
  "upload_intent \<Rightarrow> upload_intent list \<Rightarrow> upload_constraint + upload_intent list" where
  "insert_intent i t =
     (if ui_declared_size i < 0 then Inl Ck_declared_size
      else if ui_id i \<in> ui_id ` set t then Inl Pk_row
      else if ui_object_key i \<in> ui_object_key ` set t then Inl Uq_object_key
      else Inr (t @ [i]))"

definition insert_submission ::
  "submission \<Rightarrow> submission list \<Rightarrow> upload_constraint + submission list" where
  "insert_submission b t =
     (if sb_file_size b < 0 then Inl Ck_file_size
      else if sb_version b < 1 then Inl Ck_version
      else if sb_retention_permanent b = (sb_retention_until b \<noteq> None) then Inl Ck_retention_exclusive
      else if sb_id b \<in> sb_id ` set t then Inl Pk_row
      else if list_ex (\<lambda>d. sb_claim_id d = sb_claim_id b \<and> sb_version d = sb_version b) t
      then Inl Uq_claim_version
      else if sb_object_key b \<in> sb_object_key ` set t then Inl Uq_object_key
      else Inr (t @ [b]))"

record IssuedUploadIntent =
  iu_intent_id :: uuid
  iu_claim_id :: uuid
  iu_object_key :: string
  iu_upload_url :: string
  iu_url_expires_at :: instant
  iu_intent_expires_at :: instant
  iu_signed_headers :: "(string \<times> string) list"
  iu_pinned_content_length :: int

definition create_upload_intent ::
  "upload_config \<Rightarrow> presigner \<Rightarrow> uuid \<Rightarrow> instant \<Rightarrow> actor \<Rightarrow> uuid \<Rightarrow> string \<Rightarrow> string \<Rightarrow> int
    \<Rightarrow> 'a campus_db_scheme \<Rightarrow> (upload_error + IssuedUploadIntent) \<times> 'a campus_db_scheme" where
  "create_upload_intent cfg presign iid now a claim_id filename declared_type nbytes s =
     (case lock_account (actor_user_id a) s of Inl e \<Rightarrow> (Inl e, s) | Inr user \<Rightarrow>
      case row_of cl_id claim_id (claims s) of
        None \<Rightarrow> (Inl (ClaimError (ClaimNotFound claim_id)), s) | Some c \<Rightarrow>
      if cl_user_id c \<noteq> actor_user_id a
      then (Inl (ClaimError (ClaimNotOwned claim_id (actor_user_id a))), s)
      else case row_of tk_id (cl_task_id c) (tasks s) of
        None \<Rightarrow> (Inl (AccountError (TaskNotFound (cl_task_id c))), s) | Some task \<Rightarrow>
      case upload_policy_check user c task declared_type nbytes now (uc_max_upload_bytes cfg) of
        Inl e \<Rightarrow> (Inl e, s) | Inr _ \<Rightarrow>
      case FileType_of declared_type of
        None \<Rightarrow> (Inl (UploadValueError declared_type), s) | Some ft \<Rightarrow>
      case presign (cl_id c) (DECLARED_TYPE_CONTENT_TYPES ft) (uc_url_ttl cfg) nbytes of
        Inl e \<Rightarrow> (Inl (ProviderFailed e), s) | Inr url \<Rightarrow>
      let intent = \<lparr>ui_id = iid, ui_claim_id = cl_id c, ui_object_key = uu_object_key url,
            ui_filename = sanitize_filename filename, ui_declared_type = ft,
            ui_declared_size = nbytes, ui_expires_at = now + uc_intent_ttl cfg, ui_consumed_at = None,
            ui_finalized_submission_id = None, ui_cleanup_claimed_at = None,
            ui_cleanup_lease_expires_at = None, ui_cleanup_claim_token = None,
            ui_cleanup_deleted_at = None\<rparr>
      in case insert_intent intent (upload_intents s) of
           Inl k \<Rightarrow> (Inl (UploadIntegrity k), s)
         | Inr t \<Rightarrow>
           let s1 = s\<lparr>upload_intents := t\<rparr> in
           case uu_pinned_content_length url of
             None \<Rightarrow> (Inl UnsignedContentLength, s1)
           | Some pinned \<Rightarrow>
             (Inr \<lparr>iu_intent_id = iid, iu_claim_id = cl_id c, iu_object_key = uu_object_key url,
                iu_upload_url = uu_url url, iu_url_expires_at = uu_expires_at url,
                iu_intent_expires_at = ui_expires_at intent,
                iu_signed_headers = uu_client_headers url, iu_pinned_content_length = pinned\<rparr>, s1))"

section \<open>Finalizing\<close>

text \<open>
  Step 0 runs before any lock, so it can see an older state than the locked steps: the immutable
  columns of the intent, whether it was finalized already, and only if not, the HEAD.
\<close>

record upload_locator =
  lo_claim_id :: uuid
  lo_object_key :: string
  lo_finalized :: "uuid option"

definition locate_upload ::
  "head_port \<Rightarrow> uuid \<Rightarrow> 'a campus_db_scheme
    \<Rightarrow> upload_error + (upload_locator \<times> ObjectHead option)" where
  "locate_upload head intent_id s =
     (case row_of ui_id intent_id (upload_intents s) of
        None \<Rightarrow> Inl (UploadIntentNotFound intent_id)
      | Some i \<Rightarrow>
        let locator = \<lparr>lo_claim_id = ui_claim_id i, lo_object_key = ui_object_key i,
              lo_finalized = ui_finalized_submission_id i\<rparr>
        in if lo_finalized locator \<noteq> None then Inr (locator, None)
           else case head (lo_object_key locator) of
               Inl e \<Rightarrow> Inl (ProviderFailed e) | Inr found \<Rightarrow> Inr (locator, found))"

text \<open>The dispatcher publishes a job or fails; \<open>None\<close> is a service without one.\<close>

type_synonym validation_dispatcher = "(uuid \<times> string \<Rightarrow> bool) option"

definition dispatch_if_pipeline_not_started ::
  "validation_dispatcher \<Rightarrow> string \<Rightarrow> submission \<Rightarrow> string option \<Rightarrow> 'a campus_db_scheme
    \<Rightarrow> (upload_error + submission) \<times> 'a campus_db_scheme" where
  "dispatch_if_pipeline_not_started disp fresh_id sub request_id s =
     (case disp of None \<Rightarrow> (Inr sub, s) | Some publish \<Rightarrow>
      if sb_validation_status sub \<noteq> UPLOADED then (Inr sub, s)
      else let job = (sb_id sub, case request_id of None \<Rightarrow> fresh_id | Some r \<Rightarrow> r)
           in if publish job then (Inr sub, s\<lparr>validation_jobs := validation_jobs s @ [job]\<rparr>)
              else (Inl DispatchFailed, s))"

definition put_intent :: "upload_intent \<Rightarrow> 'a campus_db_scheme \<Rightarrow> 'a campus_db_scheme" where
  "put_intent i s = s\<lparr>upload_intents := update_row ui_id (ui_id i) (\<lambda>_. i) (upload_intents s)\<rparr>"

definition burn_intent :: "upload_intent \<Rightarrow> instant \<Rightarrow> 'a campus_db_scheme \<Rightarrow> 'a campus_db_scheme" where
  "burn_intent i now s = put_intent (i\<lparr>ui_consumed_at := Some now\<rparr>) s"

definition current_max_version :: "uuid \<Rightarrow> 'a campus_db_scheme \<Rightarrow> int option" where
  "current_max_version cid s =
     (let vs = map sb_version (filter (\<lambda>b. sb_claim_id b = cid) (submissions s))
      in if vs = [] then None else Some (foldr max (tl vs) (hd vs)))"

definition next_version :: "uuid \<Rightarrow> 'a campus_db_scheme \<Rightarrow> int" where
  "next_version cid s = (case current_max_version cid s of None \<Rightarrow> 0 | Some n \<Rightarrow> n) + 1"

definition new_submission ::
  "uuid \<Rightarrow> claim \<Rightarrow> int \<Rightarrow> upload_intent \<Rightarrow> ObjectHead \<Rightarrow> instant \<Rightarrow> instant option \<times> bool
    \<Rightarrow> submission" where
  "new_submission sid c version i head now retention =
     \<lparr>sb_id = sid, sb_claim_id = cl_id c, sb_version = version, sb_object_key = ui_object_key i,
      sb_original_filename = ui_filename i, sb_declared_type = ui_declared_type i,
      sb_detected_type = None, sb_file_size = oh_size head, sb_submitted_at = now,
      sb_validation_status = UPLOADED, sb_review_status = PENDING_REVIEW,
      sb_validation_report = None, sb_reviewer_id = None, sb_reviewed_at = None,
      sb_review_note = None, sb_retention_until = fst retention,
      sb_retention_permanent = snd retention, sb_legal_hold = False, sb_deleted_at = None,
      sb_cleanup_claimed_at = None, sb_cleanup_lease_expires_at = None,
      sb_cleanup_claim_token = None\<rparr>"

definition finalize_locked ::
  "validation_dispatcher \<Rightarrow> string \<Rightarrow> uuid \<Rightarrow> instant \<Rightarrow> actor \<Rightarrow> uuid \<Rightarrow> string option
    \<Rightarrow> upload_locator \<times> ObjectHead option \<Rightarrow> 'a campus_db_scheme
    \<Rightarrow> (upload_error + submission) \<times> 'a campus_db_scheme" where
  "finalize_locked disp fresh_id sid now a intent_id request_id probe s =
     (case lock_account (actor_user_id a) s of Inl e \<Rightarrow> (Inl e, s) | Inr _ \<Rightarrow>
      let claim_id = lo_claim_id (fst probe) in
      case row_of cl_id claim_id (claims s) of
        None \<Rightarrow> (Inl (ClaimError (ClaimNotFound claim_id)), s) | Some c \<Rightarrow>
      if cl_user_id c \<noteq> actor_user_id a
      then (Inl (ClaimError (ClaimNotOwned claim_id (actor_user_id a))), s)
      else case row_of ui_id intent_id (upload_intents s) of
        None \<Rightarrow> (Inl (UploadIntentNotFound intent_id), s) | Some i \<Rightarrow>
      case ui_finalized_submission_id i of
        Some fid \<Rightarrow> (case row_of sb_id fid (submissions s) of
            None \<Rightarrow> (Inl (UploadIntentNotFound intent_id), s)
          | Some sub \<Rightarrow> dispatch_if_pipeline_not_started disp fresh_id sub request_id s)
      | None \<Rightarrow>
      if ui_consumed_at i \<noteq> None then (Inl (UploadIntentNotFound intent_id), s)
      else if cl_status c \<notin> set SUBMITTABLE_STATUSES then (Inl (ClaimNotSubmittable (cl_status c)), s)
      else if ui_expires_at i \<le> now then (Inl (UploadIntentNotFound intent_id), s)
      else if \<not> submission_window_open c now
      then (Inl (SubmissionWindowClosed (cl_status c) (cl_grace_deadline_at c)
              (cl_revision_deadline_at c)), s)
      else case snd probe of
        None \<Rightarrow> (Inl (UploadObjectMissing intent_id), s) | Some head \<Rightarrow>
      let expected = DECLARED_TYPE_CONTENT_TYPES (ui_declared_type i) in
      if oh_size head \<noteq> ui_declared_size i
      then (Inl (UploadSizeMismatch (ui_declared_size i) (oh_size head)), burn_intent i now s)
      else if oh_content_type head \<noteq> expected
      then (Inl (UploadTypeMismatch (ui_declared_type i) (oh_content_type head) expected),
            burn_intent i now s)
      else case row_of tk_id (cl_task_id c) (tasks s) of
        None \<Rightarrow> (Inl (AccountError (TaskNotFound (cl_task_id c))), s) | Some task \<Rightarrow>
      case retention_snapshot (tk_retention_policy task) now of Inl e \<Rightarrow> (Inl e, s) | Inr retention \<Rightarrow>
      let sub = new_submission sid c (next_version (cl_id c) s) i head now retention in
      case insert_submission sub (submissions s) of
        Inl k \<Rightarrow> (Inl (UploadIntegrity k), s)
      | Inr t \<Rightarrow>
        let s1 = put_intent (i\<lparr>ui_consumed_at := Some now,
                     ui_finalized_submission_id := Some sid\<rparr>) (s\<lparr>submissions := t\<rparr>);
            s2 = put_claim (c\<lparr>cl_latest_submission_id := Some sid\<rparr>) s1
        in dispatch_if_pipeline_not_started disp fresh_id sub request_id s2)"

definition finalize_upload ::
  "head_port \<Rightarrow> validation_dispatcher \<Rightarrow> string \<Rightarrow> uuid \<Rightarrow> instant \<Rightarrow> actor \<Rightarrow> uuid \<Rightarrow> string option
    \<Rightarrow> 'a campus_db_scheme \<Rightarrow> (upload_error + submission) \<times> 'a campus_db_scheme" where
  "finalize_upload head disp fresh_id sid now a intent_id request_id s =
     (case locate_upload head intent_id s of
        Inl e \<Rightarrow> (Inl e, s)
      | Inr probe \<Rightarrow> finalize_locked disp fresh_id sid now a intent_id request_id probe s)"

end
