(* ===== verification/Upload_Facts.thy ===== *)
theory Upload_Facts
  imports Upload
begin

text \<open>
  Correctness of the upload flow: the invariant that ties intents to submission versions, what a
  first finalize writes and what a replay answers, when an intent is issued, and the agreement of
  the submission window with the expiry worker.
\<close>

section \<open>File names\<close>

lemma set_basename: "CHR ''/'' \<notin> set (basename s)" "set (basename s) \<subseteq> set s"
  using set_takeWhileD [of "CHR ''/''" "\<lambda>c. c \<noteq> CHR ''/''" "rev s"]
  by (auto simp: basename_def dest: set_takeWhileD)

lemma set_py_strip: "set (py_strip s) \<subseteq> set s"
  unfolding py_strip_def by (auto dest!: set_dropWhileD)

definition stripped_name :: "string \<Rightarrow> string" where
  "stripped_name f = take MAX_FILENAME_LENGTH (py_strip (filter py_printable
     (basename (map (\<lambda>c. if c = CHR 0x5C then CHR ''/'' else c) f))))"

lemma sanitize_eq: "sanitize_filename f =
    (if stripped_name f = [] then FILENAME_FALLBACK else stripped_name f)"
  by (simp add: sanitize_filename_def stripped_name_def Let_def)

lemma stripped_safe:
  assumes "c \<in> set (stripped_name f)"
  shows "py_printable c \<and> c \<noteq> CHR ''/'' \<and> c \<noteq> CHR 0x5C"
proof -
  let ?h = "\<lambda>c. if c = CHR 0x5C then CHR ''/'' else c"
  have "c \<in> set (filter py_printable (basename (map ?h f)))"
    using assms set_py_strip unfolding stripped_name_def by (blast dest: in_set_takeD)
  then have c: "c \<in> set (basename (map ?h f))" "py_printable c" by simp_all
  then have "c \<in> ?h ` set f" "c \<noteq> CHR ''/''"
    using set_basename(1) [of "map ?h f"] set_basename(2) [of "map ?h f"] unfolding set_map by blast+
  with c(2) show ?thesis by (auto split: if_splits)
qed

lemma fallback_safe: "\<forall>c\<in>set FILENAME_FALLBACK. py_printable c \<and> c \<noteq> CHR ''/'' \<and> c \<noteq> CHR 0x5C"
  by (simp add: FILENAME_FALLBACK_def py_printable_def Let_def)

section \<open>Tables\<close>

lemma put_intent_frame [simp]:
  "audit_logs (put_intent i s) = audit_logs s" "domain_events (put_intent i s) = domain_events s"
  "notifications (put_intent i s) = notifications s" "ledger (put_intent i s) = ledger s"
  "wallets (put_intent i s) = wallets s" "reward_items (put_intent i s) = reward_items s"
  "redemptions (put_intent i s) = redemptions s" "reservations (put_intent i s) = reservations s"
  "users (put_intent i s) = users s" "tasks (put_intent i s) = tasks s"
  "collaborators (put_intent i s) = collaborators s" "assignments (put_intent i s) = assignments s"
  "claims (put_intent i s) = claims s" "submissions (put_intent i s) = submissions s"
  "lock_history (put_intent i s) = lock_history s"
  "submission_validations (put_intent i s) = submission_validations s"
  "validation_jobs (put_intent i s) = validation_jobs s"
  "upload_intents (put_intent i s) = update_row ui_id (ui_id i) (\<lambda>_. i) (upload_intents s)"
  by (simp_all add: put_intent_def)

lemma row_of_put_intent: "row_of ui_id k (upload_intents (put_intent i s)) =
    (if k = ui_id i then map_option (\<lambda>_. i) (row_of ui_id k (upload_intents s))
     else row_of ui_id k (upload_intents s))"
  by (simp add: row_of_update_row)

definition versions :: "uuid \<Rightarrow> 'a campus_db_scheme \<Rightarrow> int list" where
  "versions cid s = map sb_version (filter (\<lambda>b. sb_claim_id b = cid) (submissions s))"

lemma foldr_max: "foldr max vs (v :: int) = Max (set (v # vs))"
proof (induction vs)
  case (Cons w vs)
  have "Max (insert v (insert w (set vs))) = max w (Max (insert v (set vs)))"
    by (subst insert_commute) (simp add: Max_insert)
  with Cons show ?case by simp
qed simp

lemma next_version_dense:
  assumes "versions cid s = map int [1..<Suc n]"
  shows "next_version cid s = int n + 1"
proof (cases n)
  case 0
  with assms show ?thesis
    by (simp add: next_version_def current_max_version_def versions_def)
next
  case (Suc m)
  have ne: "versions cid s \<noteq> []" using assms Suc by simp
  then have "current_max_version cid s = Some (Max (set (versions cid s)))"
    by (simp add: current_max_version_def versions_def [symmetric] foldr_max Let_def del: upt_Suc)
  moreover have "Max (set (versions cid s)) = int n"
  proof (rule Max_eqI)
    show "int n \<in> set (versions cid s)" using assms Suc by simp
    show "v \<le> int n" if "v \<in> set (versions cid s)" for v using that assms by auto
  qed simp
  ultimately show ?thesis by (simp add: next_version_def)
qed

section \<open>The invariant of uploads\<close>

text \<open>
  Every submission came from exactly one intent, which names it, shares its object and its claim
  and is consumed; no two intents share an object; and the versions of a claim are 1, 2, \<open>\<dots>\<close> in
  the order they were created.
\<close>

definition backs_submission :: "upload_intent \<Rightarrow> submission \<Rightarrow> bool" where
  "backs_submission i b \<longleftrightarrow> ui_finalized_submission_id i = Some (sb_id b) \<and> ui_consumed_at i \<noteq> None
     \<and> ui_object_key i = sb_object_key b \<and> ui_claim_id i = sb_claim_id b"

definition uploads_inv :: "'a campus_db_scheme \<Rightarrow> bool" where
  "uploads_inv s \<longleftrightarrow> distinct (map ui_id (upload_intents s))
     \<and> distinct (map ui_object_key (upload_intents s)) \<and> distinct (map sb_id (submissions s))
     \<and> (\<forall>b\<in>set (submissions s). \<exists>i\<in>set (upload_intents s). backs_submission i b)
     \<and> (\<forall>i\<in>set (upload_intents s). 0 \<le> ui_declared_size i \<and> (ui_finalized_submission_id i \<noteq> None
          \<longrightarrow> (\<exists>b\<in>set (submissions s). backs_submission i b)))
     \<and> (\<forall>cid. \<exists>n. versions cid s = map int [1..<Suc n])"

lemma uploads_inv_dense: "uploads_inv s \<Longrightarrow> \<exists>n. versions cid s = map int [1..<Suc n]"
  unfolding uploads_inv_def by blast

lemma uploads_inv_backed: "uploads_inv s \<Longrightarrow> b \<in> set (submissions s)
    \<Longrightarrow> \<exists>i\<in>set (upload_intents s). backs_submission i b"
  unfolding uploads_inv_def by blast

lemma uploads_inv_same_object: "uploads_inv s \<Longrightarrow> i \<in> set (upload_intents s) \<Longrightarrow> j \<in> set (upload_intents s)
    \<Longrightarrow> ui_object_key i = ui_object_key j \<or> ui_id i = ui_id j \<Longrightarrow> i = j"
  unfolding uploads_inv_def by (auto simp: distinct_map dest: inj_onD)

text \<open>The columns of a submission that no later operation writes.\<close>

definition upload_key :: "submission \<Rightarrow> uuid \<times> uuid \<times> int \<times> string" where
  "upload_key b = (sb_id b, sb_claim_id b, sb_version b, sb_object_key b)"

lemma upload_key_cols:
  "sb_id = fst \<circ> upload_key" "sb_claim_id = fst \<circ> snd \<circ> upload_key"
  "sb_version = fst \<circ> snd \<circ> snd \<circ> upload_key" "sb_object_key = snd \<circ> snd \<circ> snd \<circ> upload_key"
  by (simp_all add: fun_eq_iff upload_key_def)

lemma versions_upload_key: "versions cid s = map (fst \<circ> snd \<circ> snd)
    (filter (\<lambda>k. fst (snd k) = cid) (map upload_key (submissions s)))"
  unfolding versions_def by (induction "submissions s") (auto simp: upload_key_def filter_map o_def)

definition backs_key :: "upload_intent \<Rightarrow> uuid \<times> uuid \<times> int \<times> string \<Rightarrow> bool" where
  "backs_key i k \<longleftrightarrow> ui_finalized_submission_id i = Some (fst k) \<and> ui_consumed_at i \<noteq> None
     \<and> ui_object_key i = snd (snd (snd k)) \<and> ui_claim_id i = fst (snd k)"

lemma backs_key: "backs_submission i b = backs_key i (upload_key b)"
  by (simp add: backs_submission_def backs_key_def upload_key_def)

lemma uploads_inv_keys: "uploads_inv s \<longleftrightarrow> distinct (map ui_id (upload_intents s))
     \<and> distinct (map ui_object_key (upload_intents s)) \<and> distinct (map fst (map upload_key (submissions s)))
     \<and> (\<forall>k\<in>set (map upload_key (submissions s)). \<exists>i\<in>set (upload_intents s). backs_key i k)
     \<and> (\<forall>i\<in>set (upload_intents s). 0 \<le> ui_declared_size i \<and> (ui_finalized_submission_id i \<noteq> None
          \<longrightarrow> (\<exists>k\<in>set (map upload_key (submissions s)). backs_key i k)))
     \<and> (\<forall>cid. \<exists>n. map (fst \<circ> snd \<circ> snd)
          (filter (\<lambda>k. fst (snd k) = cid) (map upload_key (submissions s))) = map int [1..<Suc n])"
  unfolding uploads_inv_def backs_key versions_upload_key upload_key_cols(1) by simp

lemma uploads_inv_cong:
  "upload_intents s' = upload_intents s
    \<Longrightarrow> map upload_key (submissions s') = map upload_key (submissions s)
    \<Longrightarrow> uploads_inv s' = uploads_inv s"
  unfolding uploads_inv_keys by simp

lemma upload_key_update: "(\<And>r. upload_key (f r) = upload_key r) \<Longrightarrow>
    map upload_key (update_row sb_id k f t) = map upload_key t"
  by (rule map_other_update_row)

section \<open>The gates\<close>

definition account_ok :: "uuid \<Rightarrow> 'a campus_db_scheme \<Rightarrow> bool" where
  "account_ok u s \<longleftrightarrow> (\<exists>acct. row_of us_id u (users s) = Some acct \<and> us_role acct = STUDENT
     \<and> us_status acct = UserStatus.ACTIVE)"

lemma lock_account_Inr: "lock_account u s = Inr user \<longleftrightarrow>
    account_ok u s \<and> user = \<lparr>cm_id = u, cm_status = UserStatus.ACTIVE, cm_role = STUDENT\<rparr>"
  by (auto simp: lock_account_def account_ok_def require_active_student_def Let_def
      split: option.splits)

lemma submittable_iff: "st \<in> set SUBMITTABLE_STATUSES \<longleftrightarrow> st \<in> {CLAIMED, ClaimStatus.REVISION_REQUIRED}"
  by (simp add: SUBMITTABLE_STATUSES_def)

lemma policy_Inr: "upload_policy_check user c task ty n now cap = Inr u \<longleftrightarrow>
    cm_role user = STUDENT \<and> cm_status user = UserStatus.ACTIVE \<and> cl_user_id c = cm_id user
    \<and> cl_status c \<in> {CLAIMED, ClaimStatus.REVISION_REQUIRED} \<and> ty \<in> set (tk_allowed_file_types task)
    \<and> n \<le> tk_max_file_size_bytes task \<and> n \<le> cap \<and> submission_window_open c now"
  by (auto simp: upload_policy_check_def require_active_student_def submittable_iff Let_def
      split: if_splits)

section \<open>Issuing an intent\<close>

definition fresh_intent ::
  "upload_config \<Rightarrow> uuid \<Rightarrow> instant \<Rightarrow> claim \<Rightarrow> string \<Rightarrow> FileType \<Rightarrow> int \<Rightarrow> UploadUrl \<Rightarrow> upload_intent" where
  "fresh_intent cfg iid now c filename ft n url = \<lparr>ui_id = iid, ui_claim_id = cl_id c,
     ui_object_key = uu_object_key url, ui_filename = sanitize_filename filename,
     ui_declared_type = ft, ui_declared_size = n, ui_expires_at = now + uc_intent_ttl cfg,
     ui_consumed_at = None, ui_finalized_submission_id = None, ui_cleanup_claimed_at = None,
     ui_cleanup_lease_expires_at = None, ui_cleanup_claim_token = None, ui_cleanup_deleted_at = None\<rparr>"

definition issued :: "upload_config \<Rightarrow> uuid \<Rightarrow> instant \<Rightarrow> claim \<Rightarrow> UploadUrl \<Rightarrow> int \<Rightarrow> IssuedUploadIntent" where
  "issued cfg iid now c url pinned = \<lparr>iu_intent_id = iid, iu_claim_id = cl_id c,
     iu_object_key = uu_object_key url, iu_upload_url = uu_url url,
     iu_url_expires_at = uu_expires_at url, iu_intent_expires_at = now + uc_intent_ttl cfg,
     iu_signed_headers = uu_client_headers url, iu_pinned_content_length = pinned\<rparr>"

text \<open>The conditions under which the grant is written.\<close>

definition may_issue ::
  "upload_config \<Rightarrow> instant \<Rightarrow> actor \<Rightarrow> uuid \<Rightarrow> FileType \<Rightarrow> int \<Rightarrow> claim \<Rightarrow> task \<Rightarrow> 'a campus_db_scheme
    \<Rightarrow> bool" where
  "may_issue cfg now a cid ft n c task s \<longleftrightarrow> account_ok (actor_user_id a) s
     \<and> row_of cl_id cid (claims s) = Some c \<and> cl_user_id c = actor_user_id a
     \<and> row_of tk_id (cl_task_id c) (tasks s) = Some task
     \<and> cl_status c \<in> {CLAIMED, ClaimStatus.REVISION_REQUIRED} \<and> submission_window_open c now
     \<and> file_type_value ft \<in> set (tk_allowed_file_types task)
     \<and> n \<le> tk_max_file_size_bytes task \<and> n \<le> uc_max_upload_bytes cfg"

lemma create_cases:
  assumes "create_upload_intent cfg presign iid now a cid filename ty n s = (r, s')"
  obtains (refused) "isl r" "s' = s"
  | (written) c task ft url t where "may_issue cfg now a cid ft n c task s" "ty = file_type_value ft"
      "presign cid (DECLARED_TYPE_CONTENT_TYPES ft) (uc_url_ttl cfg) n = Inr url"
      "insert_intent (fresh_intent cfg iid now c filename ft n url) (upload_intents s) = Inr t"
      "s' = s\<lparr>upload_intents := t\<rparr>"
      "r = (case uu_pinned_content_length url of None \<Rightarrow> Inl UnsignedContentLength
            | Some pinned \<Rightarrow> Inr (issued cfg iid now c url pinned))"
proof (cases "isl r \<and> s' = s")
  case True
  then show thesis by (intro refused) auto
next
  case out: False
  obtain user where acct: "lock_account (actor_user_id a) s = Inr user"
    using assms out by (cases "lock_account (actor_user_id a) s") (auto simp: create_upload_intent_def)
  obtain c where c: "row_of cl_id cid (claims s) = Some c"
    using assms out acct by (cases "row_of cl_id cid (claims s)") (auto simp: create_upload_intent_def)
  have own: "cl_user_id c = actor_user_id a"
    using assms out acct c by (auto simp: create_upload_intent_def split: if_splits)
  obtain task where task: "row_of tk_id (cl_task_id c) (tasks s) = Some task"
    using assms out acct c own
    by (cases "row_of tk_id (cl_task_id c) (tasks s)") (auto simp: create_upload_intent_def)
  note run = assms [unfolded create_upload_intent_def acct c own task sum.case option.case, simplified]
  obtain pol where pol: "upload_policy_check user c task ty n now (uc_max_upload_bytes cfg) = Inr pol"
    using run out by (cases "upload_policy_check user c task ty n now (uc_max_upload_bytes cfg)") auto
  obtain ft where ft: "FileType_of ty = Some ft"
    using run out pol by (cases "FileType_of ty") auto
  have cid: "cl_id c = cid" using row_of_SomeD [OF c] by simp
  obtain url where url: "presign cid (DECLARED_TYPE_CONTENT_TYPES ft) (uc_url_ttl cfg) n = Inr url"
    using run out pol ft cid
    by (cases "presign cid (DECLARED_TYPE_CONTENT_TYPES ft) (uc_url_ttl cfg) n") auto
  obtain t where t: "insert_intent (fresh_intent cfg iid now c filename ft n url) (upload_intents s) = Inr t"
    using run out pol ft cid url
    by (cases "insert_intent (fresh_intent cfg iid now c filename ft n url) (upload_intents s)")
      (auto simp: Let_def fresh_intent_def)
  have "may_issue cfg now a cid ft n c task s"
    using acct c own task pol FileType_of_SomeD [OF ft]
    by (auto simp: may_issue_def lock_account_Inr policy_Inr)
  then show thesis
    using FileType_of_SomeD [OF ft] url t run pol ft cid
    by (intro written) (auto simp: Let_def fresh_intent_def issued_def split: option.splits)
qed

section \<open>Finalizing\<close>

text \<open>The hand-over to the validation pipeline: whether it went through, and the jobs it leaves.\<close>

definition published :: "validation_dispatcher \<Rightarrow> string \<Rightarrow> submission \<Rightarrow> string option \<Rightarrow> bool" where
  "published disp fresh_id sub rq = (case disp of None \<Rightarrow> True
     | Some p \<Rightarrow> sb_validation_status sub \<noteq> UPLOADED
         \<or> p (sb_id sub, case rq of None \<Rightarrow> fresh_id | Some r \<Rightarrow> r))"

definition handed_jobs :: "validation_dispatcher \<Rightarrow> string \<Rightarrow> submission \<Rightarrow> string option \<Rightarrow> (uuid \<times> string) list" where
  "handed_jobs disp fresh_id sub rq = (case disp of None \<Rightarrow> []
     | Some p \<Rightarrow> let job = (sb_id sub, case rq of None \<Rightarrow> fresh_id | Some r \<Rightarrow> r)
         in if sb_validation_status sub = UPLOADED \<and> p job then [job] else [])"

definition handed ::
  "validation_dispatcher \<Rightarrow> string \<Rightarrow> submission \<Rightarrow> string option \<Rightarrow> 'a campus_db_scheme \<Rightarrow> 'a campus_db_scheme" where
  "handed disp fresh_id sub rq s = s\<lparr>validation_jobs := validation_jobs s @ handed_jobs disp fresh_id sub rq\<rparr>"

lemma dispatch_eq: "dispatch_if_pipeline_not_started disp fresh_id sub rq s =
    (if published disp fresh_id sub rq then Inr sub else Inl DispatchFailed, handed disp fresh_id sub rq s)"
  by (auto simp: dispatch_if_pipeline_not_started_def published_def handed_def handed_jobs_def Let_def
      split: option.split)

lemma handed_frame [simp]:
  "audit_logs (handed d f b r s) = audit_logs s" "ledger (handed d f b r s) = ledger s"
  "wallets (handed d f b r s) = wallets s" "reward_items (handed d f b r s) = reward_items s"
  "redemptions (handed d f b r s) = redemptions s" "reservations (handed d f b r s) = reservations s"
  "users (handed d f b r s) = users s" "tasks (handed d f b r s) = tasks s"
  "collaborators (handed d f b r s) = collaborators s" "assignments (handed d f b r s) = assignments s"
  "claims (handed d f b r s) = claims s" "submissions (handed d f b r s) = submissions s"
  "lock_history (handed d f b r s) = lock_history s" "upload_intents (handed d f b r s) = upload_intents s"
  "submission_validations (handed d f b r s) = submission_validations s"
  "validation_jobs (handed d f b r s) = validation_jobs s @ handed_jobs d f b r"
  by (simp_all add: handed_def)

text \<open>What a first finalize needs, and the rows it writes before the hand-over.\<close>

definition may_finalize ::
  "instant \<Rightarrow> actor \<Rightarrow> uuid \<Rightarrow> upload_locator \<times> ObjectHead option \<Rightarrow> upload_intent \<Rightarrow> claim \<Rightarrow> ObjectHead \<Rightarrow> task
    \<Rightarrow> 'a campus_db_scheme \<Rightarrow> bool" where
  "may_finalize now a iid probe i c head task s \<longleftrightarrow> account_ok (actor_user_id a) s
     \<and> row_of cl_id (lo_claim_id (fst probe)) (claims s) = Some c \<and> cl_user_id c = actor_user_id a
     \<and> row_of ui_id iid (upload_intents s) = Some i \<and> ui_finalized_submission_id i = None
     \<and> ui_consumed_at i = None \<and> cl_status c \<in> {CLAIMED, ClaimStatus.REVISION_REQUIRED}
     \<and> now < ui_expires_at i \<and> submission_window_open c now \<and> snd probe = Some head
     \<and> oh_size head = ui_declared_size i
     \<and> oh_content_type head = DECLARED_TYPE_CONTENT_TYPES (ui_declared_type i)
     \<and> row_of tk_id (cl_task_id c) (tasks s) = Some task"

definition finalized_state ::
  "uuid \<Rightarrow> instant \<Rightarrow> upload_intent \<Rightarrow> claim \<Rightarrow> submission \<Rightarrow> 'a campus_db_scheme \<Rightarrow> 'a campus_db_scheme" where
  "finalized_state sid now i c b s = put_claim (c\<lparr>cl_latest_submission_id := Some sid\<rparr>)
     (put_intent (i\<lparr>ui_consumed_at := Some now, ui_finalized_submission_id := Some sid\<rparr>)
       (s\<lparr>submissions := submissions s @ [b]\<rparr>))"

lemma insert_submission_Inr: "insert_submission b t = Inr u \<Longrightarrow> u = t @ [b]"
  by (auto simp: insert_submission_def split: if_splits)

lemma insert_intent_Inr: "insert_intent i t = Inr u \<Longrightarrow> u = t @ [i] \<and> 0 \<le> ui_declared_size i
    \<and> ui_id i \<notin> ui_id ` set t \<and> ui_object_key i \<notin> ui_object_key ` set t"
  by (auto simp: insert_intent_def split: if_splits)

lemma finalize_cases:
  assumes "finalize_locked disp fr sid now a iid rq probe s = (r, s')"
  obtains (refused) "isl r" "s' = s"
  | (burned) i where "isl r" "s' = burn_intent i now s" "row_of ui_id iid (upload_intents s) = Some i"
      "ui_finalized_submission_id i = None" "ui_consumed_at i = None"
  | (replay) c i fid sub where "account_ok (actor_user_id a) s"
      "row_of cl_id (lo_claim_id (fst probe)) (claims s) = Some c" "cl_user_id c = actor_user_id a"
      "row_of ui_id iid (upload_intents s) = Some i" "ui_finalized_submission_id i = Some fid"
      "row_of sb_id fid (submissions s) = Some sub" "s' = handed disp fr sub rq s"
      "r = (if published disp fr sub rq then Inr sub else Inl DispatchFailed)"
  | (first) i c head task keep b where "may_finalize now a iid probe i c head task s"
      "retention_snapshot (tk_retention_policy task) now = Inr keep"
      "b = new_submission sid c (next_version (cl_id c) s) i head now keep"
      "ok (insert_submission b (submissions s))"
      "s' = handed disp fr b rq (finalized_state sid now i c b s)"
      "r = (if published disp fr b rq then Inr b else Inl DispatchFailed)"
proof (cases "isl r \<and> s' = s")
  case True
  then show thesis by (intro refused) auto
next
  case out: False
  obtain user where acct: "lock_account (actor_user_id a) s = Inr user"
    using assms out by (cases "lock_account (actor_user_id a) s") (auto simp: finalize_locked_def)
  then have ok: "account_ok (actor_user_id a) s" by (simp add: lock_account_Inr)
  obtain c where c: "row_of cl_id (lo_claim_id (fst probe)) (claims s) = Some c"
    using assms out acct by (cases "row_of cl_id (lo_claim_id (fst probe)) (claims s)")
      (auto simp: finalize_locked_def)
  have own: "cl_user_id c = actor_user_id a"
    using assms out acct c by (auto simp: finalize_locked_def split: if_splits)
  obtain i where i: "row_of ui_id iid (upload_intents s) = Some i"
    using assms out acct c own
    by (cases "row_of ui_id iid (upload_intents s)") (auto simp: finalize_locked_def)
  note run = assms [unfolded finalize_locked_def acct c own i sum.case option.case Let_def, simplified]
  show thesis
  proof (cases "ui_finalized_submission_id i")
    case (Some fid)
    obtain sub where sub: "row_of sb_id fid (submissions s) = Some sub"
      using run out Some by (cases "row_of sb_id fid (submissions s)") auto
    with run Some show thesis by (intro replay [OF ok c own i Some sub]) (auto simp: dispatch_eq)
  next
    case None
    have open': "ui_consumed_at i = None" and st: "cl_status c \<in> {CLAIMED, ClaimStatus.REVISION_REQUIRED}"
      and live: "now < ui_expires_at i" and win: "submission_window_open c now"
      using run out None by (auto simp: submittable_iff split: if_splits)
    note run1 = run [simplified None option.case open' live win submittable_iff st]
    obtain head where head: "snd probe = Some head"
      using run1 out st live by (cases "snd probe") (auto split: if_splits)
    show thesis
    proof (cases "oh_size head = ui_declared_size i
        \<and> oh_content_type head = DECLARED_TYPE_CONTENT_TYPES (ui_declared_type i)")
      case False
      with run1 st live head show thesis
        by (intro burned [OF _ _ i None open']) (auto split: if_splits)
    next
      case verified: True
      obtain task where task: "row_of tk_id (cl_task_id c) (tasks s) = Some task"
        using run1 out st live head verified by (cases "row_of tk_id (cl_task_id c) (tasks s)") auto
      obtain keep where keep: "retention_snapshot (tk_retention_policy task) now = Inr keep"
        using run1 out st live head verified task
        by (cases "retention_snapshot (tk_retention_policy task) now") auto
      let ?b = "new_submission sid c (next_version (cl_id c) s) i head now keep"
      obtain t where t: "insert_submission ?b (submissions s) = Inr t"
        using run1 out st live head verified task keep
        by (cases "insert_submission ?b (submissions s)") auto
      have "may_finalize now a iid probe i c head task s"
        using ok c own i None open' st live win head verified task by (simp add: may_finalize_def)
      then show thesis
        using run1 st live head verified task keep t insert_submission_Inr [OF t]
        by (intro first [OF _ keep refl]) (auto simp: dispatch_eq finalized_state_def)
    qed
  qed
qed

section \<open>Preservation\<close>

lemma new_submission_simps [simp]:
  "sb_id (new_submission sid c n i h now k) = sid" "sb_claim_id (new_submission sid c n i h now k) = cl_id c"
  "sb_version (new_submission sid c n i h now k) = n"
  "sb_object_key (new_submission sid c n i h now k) = ui_object_key i"
  "sb_file_size (new_submission sid c n i h now k) = oh_size h"
  "sb_submitted_at (new_submission sid c n i h now k) = now"
  "sb_validation_status (new_submission sid c n i h now k) = UPLOADED"
  "sb_review_status (new_submission sid c n i h now k) = PENDING_REVIEW"
  "sb_retention_until (new_submission sid c n i h now k) = fst k"
  "sb_retention_permanent (new_submission sid c n i h now k) = snd k"
  by (simp_all add: new_submission_def)

lemma finalized_state_frame [simp]:
  "audit_logs (finalized_state sid now i c b s) = audit_logs s" "ledger (finalized_state sid now i c b s) = ledger s"
  "wallets (finalized_state sid now i c b s) = wallets s"
  "reward_items (finalized_state sid now i c b s) = reward_items s"
  "redemptions (finalized_state sid now i c b s) = redemptions s"
  "reservations (finalized_state sid now i c b s) = reservations s"
  "users (finalized_state sid now i c b s) = users s" "tasks (finalized_state sid now i c b s) = tasks s"
  "assignments (finalized_state sid now i c b s) = assignments s"
  "collaborators (finalized_state sid now i c b s) = collaborators s"
  "lock_history (finalized_state sid now i c b s) = lock_history s"
  "submissions (finalized_state sid now i c b s) = submissions s @ [b]"
  "claims (finalized_state sid now i c b s) = claims (put_claim (c\<lparr>cl_latest_submission_id := Some sid\<rparr>) s)"
  "upload_intents (finalized_state sid now i c b s) = update_row ui_id (ui_id i)
     (\<lambda>_. i\<lparr>ui_consumed_at := Some now, ui_finalized_submission_id := Some sid\<rparr>) (upload_intents s)"
  "validation_jobs (finalized_state sid now i c b s) = validation_jobs s"
  "submission_validations (finalized_state sid now i c b s) = submission_validations s"
  by (simp_all add: finalized_state_def claims_put_claim put_intent_def put_claim_def)

lemma retention_exclusive: "retention_snapshot p now = Inr k \<Longrightarrow> snd k \<longleftrightarrow> fst k = None"
  by (auto simp: retention_snapshot_def split: if_splits option.splits)

text \<open>Under the invariant the constraints that the database enforces never fire.\<close>

lemma finalize_inserts:
  assumes inv: "uploads_inv s" and may: "may_finalize now a iid probe i c head task s"
    and keep: "retention_snapshot p now = Inr keep" and fresh: "sid \<notin> sb_id ` set (submissions s)"
  shows "ok (insert_submission (new_submission sid c (next_version (cl_id c) s) i head now keep) (submissions s))"
proof -
  obtain n where n: "versions (cl_id c) s = map int [1..<Suc n]"
    using uploads_inv_dense [OF inv] by blast
  then have ver: "next_version (cl_id c) s = int n + 1" by (rule next_version_dense)
  have i: "i \<in> set (upload_intents s)" "ui_finalized_submission_id i = None"
    using may row_of_SomeD [of ui_id iid "upload_intents s" i] by (auto simp: may_finalize_def)
  have "ui_object_key i \<noteq> sb_object_key b" if "b \<in> set (submissions s)" for b
  proof
    assume eq: "ui_object_key i = sb_object_key b"
    obtain j where j: "j \<in> set (upload_intents s)" "backs_submission j b"
      using uploads_inv_backed [OF inv \<open>b \<in> set (submissions s)\<close>] by blast
    then have "j = i"
      using uploads_inv_same_object [OF inv j(1) i(1)] eq by (simp add: backs_submission_def)
    with j i(2) show False by (simp add: backs_submission_def)
  qed
  moreover have "sb_version b \<noteq> int n + 1" if "b \<in> set (submissions s)" "sb_claim_id b = cl_id c" for b
  proof -
    have "sb_version b \<in> set (versions (cl_id c) s)" using that by (auto simp: versions_def)
    then show ?thesis unfolding n by auto
  qed
  moreover have "0 \<le> oh_size head"
    using inv i(1) may by (auto simp: uploads_inv_def may_finalize_def)
  ultimately show ?thesis
    using fresh retention_exclusive [OF keep]
    by (auto simp: insert_submission_def ver list_ex_iff image_iff)
qed

lemma create_keeps:
  assumes "create_upload_intent cfg presign iid now a cid filename ty n s = (r, s')" "uploads_inv s"
  shows "uploads_inv s'"
  using assms(1)
proof (cases rule: create_cases)
  case refused
  with assms(2) show ?thesis by simp
next
  case (written c task ft url t)
  have t: "t = upload_intents s @ [fresh_intent cfg iid now c filename ft n url]" and new:
    "0 \<le> n" "iid \<notin> ui_id ` set (upload_intents s)" "uu_object_key url \<notin> ui_object_key ` set (upload_intents s)"
    using insert_intent_Inr [OF written(4)] by (simp_all add: fresh_intent_def)
  have v: "versions cid' s' = versions cid' s" for cid' by (simp add: versions_def written(5))
  show ?thesis
    using assms(2) new unfolding uploads_inv_def v
    by (simp add: written(5) t fresh_intent_def)
qed

text \<open>Rewriting one intent in place, its object kept.\<close>

lemma put_intent_rows:
  assumes inv: "uploads_inv s" and i: "row_of ui_id iid (upload_intents s) = Some i"
    and same: "ui_id i' = ui_id i" "ui_object_key i' = ui_object_key i"
  shows "set (update_row ui_id (ui_id i) (\<lambda>_. i') (upload_intents s)) = insert i' (set (upload_intents s) - {i})"
    and "map ui_id (update_row ui_id (ui_id i) (\<lambda>_. i') (upload_intents s)) = map ui_id (upload_intents s)"
    and "map ui_object_key (update_row ui_id (ui_id i) (\<lambda>_. i') (upload_intents s))
      = map ui_object_key (upload_intents s)"
proof -
  have iin: "i \<in> set (upload_intents s)" using row_of_SomeD [OF i] by simp
  have only: "j = i" if "j \<in> set (upload_intents s)" "ui_id j = ui_id i" for j
    using uploads_inv_same_object [OF inv that(1) iin] that(2) by blast
  show "set (update_row ui_id (ui_id i) (\<lambda>_. i') (upload_intents s)) = insert i' (set (upload_intents s) - {i})"
    unfolding set_update_row using iin only by (auto simp: image_iff)
  show "map ui_id (update_row ui_id (ui_id i) (\<lambda>_. i') (upload_intents s)) = map ui_id (upload_intents s)"
    by (rule keys_update_row) (simp add: same)
  show "map ui_object_key (update_row ui_id (ui_id i) (\<lambda>_. i') (upload_intents s))
      = map ui_object_key (upload_intents s)"
    using only same by (auto simp: update_row_def)
qed

lemma burn_keeps:
  assumes inv: "uploads_inv s" and i: "row_of ui_id iid (upload_intents s) = Some i"
    "ui_finalized_submission_id i = None"
  shows "uploads_inv (burn_intent i now s)"
proof -
  let ?i = "i\<lparr>ui_consumed_at := Some now\<rparr>"
  note rows = put_intent_rows [OF inv i(1), of ?i, simplified]
  have U: "upload_intents (burn_intent i now s)
      = update_row ui_id (ui_id i) (\<lambda>_. ?i) (upload_intents s)"
    by (simp add: burn_intent_def)
  have v: "versions cid' (burn_intent i now s) = versions cid' s" for cid'
    by (simp add: versions_def burn_intent_def)
  have subs: "submissions (burn_intent i now s) = submissions s" by (simp add: burn_intent_def)
  have none: "\<not> backs_submission i b" "\<not> backs_submission ?i b" for b
    using i(2) by (simp_all add: backs_submission_def)
  have iin: "i \<in> set (upload_intents s)" using row_of_SomeD [OF i(1)] by simp
  have backed: "\<exists>j\<in>insert ?i (set (upload_intents s) - {i}). backs_submission j b"
    if "b \<in> set (submissions s)" for b
    using uploads_inv_backed [OF inv that] none by blast
  show ?thesis
    unfolding uploads_inv_def v U rows subs
    using inv iin i(2) backed unfolding uploads_inv_def by (auto simp del: upt_Suc)
qed

lemma finalize_first_keeps:
  assumes inv: "uploads_inv s" and may: "may_finalize now a iid probe i c head task s"
    and b: "b = new_submission sid c (next_version (cl_id c) s) i head now keep"
    and ins: "ok (insert_submission b (submissions s))" and loc: "ui_claim_id i = cl_id c"
  shows "uploads_inv (finalized_state sid now i c b s)"
proof -
  let ?i = "i\<lparr>ui_consumed_at := Some now, ui_finalized_submission_id := Some sid\<rparr>"
  let ?s = "finalized_state sid now i c b s"
  have row: "row_of ui_id iid (upload_intents s) = Some i" and none: "\<not> backs_submission i d" for d
    using may by (auto simp: may_finalize_def backs_submission_def)
  note rows = put_intent_rows [OF inv row, of ?i, simplified]
  have U: "upload_intents ?s = update_row ui_id (ui_id i) (\<lambda>_. ?i) (upload_intents s)" by simp
  have iin: "i \<in> set (upload_intents s)" using row_of_SomeD [OF row] by simp
  have fresh: "sid \<notin> sb_id ` set (submissions s)"
    using ins by (auto simp: insert_submission_def b split: if_splits)
  have new: "backs_submission ?i b" by (simp add: backs_submission_def b loc)
  have vers: "\<exists>n. versions cid ?s = map int [1..<Suc n]" for cid
  proof -
    obtain n where n: "versions cid s = map int [1..<Suc n]" using uploads_inv_dense [OF inv] by blast
    have "versions cid ?s = versions cid s @ (if cid = cl_id c then [next_version (cl_id c) s] else [])"
      by (simp add: versions_def b)
    also have "\<dots> = map int [1..<Suc (if cid = cl_id c then Suc n else n)]"
      using next_version_dense [of "cl_id c" s n] n by (cases "cid = cl_id c") simp_all
    finally show ?thesis by blast
  qed
  have backed: "\<exists>j\<in>insert ?i (set (upload_intents s) - {i}). backs_submission j d"
    if "d \<in> set (submissions ?s)" for d
  proof (cases "d = b")
    case False
    with that have "d \<in> set (submissions s)" by simp
    then obtain j where "j \<in> set (upload_intents s)" "backs_submission j d"
      using uploads_inv_backed [OF inv] by blast
    with none show ?thesis by blast
  qed (use new in blast)
  have named: "0 \<le> ui_declared_size j \<and> (ui_finalized_submission_id j \<noteq> None
      \<longrightarrow> (\<exists>d\<in>set (submissions ?s). backs_submission j d))"
    if "j \<in> insert ?i (set (upload_intents s) - {i})" for j
  proof (cases "j = ?i")
    case True
    have "b \<in> set (submissions ?s)" by simp
    moreover have "0 \<le> ui_declared_size i" using inv iin by (simp add: uploads_inv_def)
    ultimately show ?thesis using new unfolding True by auto
  next
    case False
    with that inv show ?thesis unfolding uploads_inv_def by auto
  qed
  have dist: "distinct (map ui_id (upload_intents s))" "distinct (map ui_object_key (upload_intents s))"
      "distinct (map sb_id (submissions ?s))"
    using inv fresh by (auto simp: uploads_inv_def b)
  show ?thesis
    unfolding uploads_inv_def U rows using dist vers backed named by blast
qed

lemma handed_keeps [simp]: "uploads_inv (handed d f b r s) = uploads_inv s"
  by (rule uploads_inv_cong) simp_all

text \<open>Any run of the locked steps, whatever it answers, given the locator of the intent's own row.\<close>

definition locates :: "upload_locator \<times> ObjectHead option \<Rightarrow> uuid \<Rightarrow> 'a campus_db_scheme \<Rightarrow> bool" where
  "locates probe iid s \<longleftrightarrow> (\<forall>i. row_of ui_id iid (upload_intents s) = Some i
     \<longrightarrow> lo_claim_id (fst probe) = ui_claim_id i)"

lemma locate_locates: "locate_upload head iid s = Inr probe \<Longrightarrow> locates probe iid s"
  by (auto simp: locate_upload_def locates_def Let_def split: option.splits if_splits sum.splits)

lemma finalize_keeps:
  assumes "finalize_locked disp fr sid now a iid rq probe s = (r, s')" "uploads_inv s"
    and "locates probe iid s"
  shows "uploads_inv s'"
  using assms(1)
proof (cases rule: finalize_cases)
  case refused
  with assms(2) show ?thesis by simp
next
  case (burned i)
  then show ?thesis using burn_keeps [OF assms(2) burned(3,4)] by simp
next
  case (replay c i fid sub)
  with assms(2) show ?thesis by simp
next
  case (first i c head task keep b)
  have "ui_claim_id i = lo_claim_id (fst probe)" using assms(3) first(1)
    by (auto simp: locates_def may_finalize_def)
  moreover have "cl_id c = lo_claim_id (fst probe)"
    using first(1) row_of_SomeD [of cl_id "lo_claim_id (fst probe)" "claims s" c]
    by (simp add: may_finalize_def)
  ultimately show ?thesis
    using finalize_first_keeps [OF assms(2) first(1,3,4)] by (simp add: first(5))
qed

lemma finalize_replays:
  assumes "account_ok (actor_user_id a) s" "row_of cl_id (lo_claim_id (fst probe)) (claims s) = Some c"
    and "cl_user_id c = actor_user_id a" "row_of ui_id iid (upload_intents s) = Some i"
    and "ui_finalized_submission_id i = Some fid" "row_of sb_id fid (submissions s) = Some sub"
  shows "finalize_locked disp fr sid now a iid rq probe s =
    (if published disp fr sub rq then Inr sub else Inl DispatchFailed, handed disp fr sub rq s)"
  using assms by (simp add: finalize_locked_def lock_account_Inr [THEN iffD2] Let_def dispatch_eq)

lemma finalize_first:
  assumes may: "may_finalize now a iid probe i c head task s"
    and keep: "retention_snapshot (tk_retention_policy task) now = Inr keep"
    and b: "b = new_submission sid c (next_version (cl_id c) s) i head now keep"
    and ins: "ok (insert_submission b (submissions s))"
  shows "finalize_locked disp fr sid now a iid rq probe s =
    (if published disp fr b rq then Inr b else Inl DispatchFailed,
     handed disp fr b rq (finalized_state sid now i c b s))"
proof -
  obtain t where t: "insert_submission b (submissions s) = Inr t" using ins by (cases "insert_submission b (submissions s)") auto
  have st: "cl_status c \<in> set SUBMITTABLE_STATUSES" using may by (auto simp: may_finalize_def submittable_iff)
  have acct: "lock_account (actor_user_id a) s
      = Inr \<lparr>cm_id = actor_user_id a, cm_status = UserStatus.ACTIVE, cm_role = STUDENT\<rparr>"
    using may by (simp add: may_finalize_def lock_account_Inr)
  have run: "cl_user_id c = actor_user_id a" "ui_consumed_at i = None" "\<not> ui_expires_at i \<le> now"
    "submission_window_open c now" "oh_size head = ui_declared_size i"
    "oh_content_type head = DECLARED_TYPE_CONTENT_TYPES (ui_declared_type i)"
    and rows: "row_of cl_id (lo_claim_id (fst probe)) (claims s) = Some c"
    "row_of ui_id iid (upload_intents s) = Some i" "ui_finalized_submission_id i = None"
    "snd probe = Some head" "row_of tk_id (cl_task_id c) (tasks s) = Some task"
    using may by (simp_all add: may_finalize_def)
  show ?thesis
    unfolding finalize_locked_def acct sum.case Let_def rows option.case keep b [symmetric] t
      insert_submission_Inr [OF t]
    using run st by (simp add: dispatch_eq finalized_state_def)
qed

lemma locate_Inr: "locate_upload head iid s = Inr probe \<longleftrightarrow>
    (\<exists>i. row_of ui_id iid (upload_intents s) = Some i \<and> lo_claim_id (fst probe) = ui_claim_id i
       \<and> lo_object_key (fst probe) = ui_object_key i \<and> lo_finalized (fst probe) = ui_finalized_submission_id i
       \<and> (if ui_finalized_submission_id i \<noteq> None then snd probe = None
          else head (ui_object_key i) = Inr (snd probe)))"
  by (cases probe) (auto simp: locate_upload_def Let_def split: option.splits sum.splits if_splits)

lemma pointer_keeps:
  assumes "claims_inv s" "row_of cl_id cid (claims s) = Some c"
  shows "claims_inv (put_claim (c\<lparr>cl_latest_submission_id := b\<rparr>) s)"
proof -
  have cin: "c \<in> set (claims s)" "cl_id c = cid" using row_of_SomeD [OF assms(2)] by auto
  show ?thesis
    by (rule put_claim_keeps [OF assms(1), where c = c])
      (use assms(2) cin claims_inv_terminal [OF assms(1) cin(1)] in
        \<open>auto simp: same_work_def active_claim_def\<close>)
qed

section \<open>Properties\<close>


text \<open>Notifying the backend again returns the same submission and never a second version: after a
  first finalize, in any later state that still has the student's account, the claim under the
  student and the submission row, a second call answers that row whatever has become of the claim's
  status, however late it is, and whatever the object store says or fails to say; it writes nothing
  except, while the pipeline has not started, another hand-over of the same job.\<close>

theorem finalize_replay_returns_the_same_submission:
  assumes run: "finalize_upload head disp fr sid now a iid rq s = (Inr b, s1)" and inv: "uploads_inv s"
    and intent: "row_of ui_id iid (upload_intents s) = Some i" "ui_finalized_submission_id i = None"
    and later: "upload_intents s2 = upload_intents s1" "users s2 = users s"
      "row_of cl_id (sb_claim_id b) (claims s2) = Some c2" "cl_user_id c2 = actor_user_id a"
      "row_of sb_id sid (submissions s2) = Some b2"
    and again: "finalize_upload head2 disp2 fr2 sid2 now2 a iid rq2 s2 = (r, s3)"
  shows "submissions s3 = submissions s2 \<and> claims s3 = claims s2 \<and> upload_intents s3 = upload_intents s2
    \<and> r \<in> {Inr b2, Inl DispatchFailed} \<and> (sb_validation_status b2 \<noteq> UPLOADED \<longrightarrow> r = Inr b2 \<and> s3 = s2)"
proof -
  obtain probe where probe: "locate_upload head iid s = Inr probe"
    and locked: "finalize_locked disp fr sid now a iid rq probe s = (Inr b, s1)"
    using run by (auto simp: finalize_upload_def split: sum.splits)
  have loc: "lo_claim_id (fst probe) = ui_claim_id i" using probe intent by (auto simp: locate_Inr)
  let ?i = "i\<lparr>ui_consumed_at := Some now, ui_finalized_submission_id := Some sid\<rparr>"
  have facts: "account_ok (actor_user_id a) s \<and> sb_claim_id b = ui_claim_id i
      \<and> row_of ui_id iid (upload_intents s1) = Some ?i"
    using locked
  proof (cases rule: finalize_cases)
    case (replay c i' fid sub)
    with intent show ?thesis by simp
  next
    case (first i' c h task keep d)
    have may: "may_finalize now a iid probe i c h task s" and "i' = i"
      using first(1) intent by (auto simp: may_finalize_def)
    have b: "b = new_submission sid c (next_version (cl_id c) s) i h now keep"
      using first(3,6) \<open>i' = i\<close> by (auto split: if_splits)
    have "cl_id c = ui_claim_id i"
      using may row_of_SomeD [of cl_id _ "claims s" c] by (auto simp: may_finalize_def loc)
    then show ?thesis
      using may b intent row_of_SomeD [OF intent(1)]
      by (simp add: may_finalize_def first(5) \<open>i' = i\<close> row_of_update_row)
  qed simp_all
  have i2: "row_of ui_id iid (upload_intents s2) = Some ?i" using facts later(1) by simp
  obtain p2 where p2: "locate_upload head2 iid s2 = Inr p2" "lo_claim_id (fst p2) = sb_claim_id b"
    using i2 facts by (auto simp: locate_upload_def Let_def)
  have ok: "account_ok (actor_user_id a) s2" using facts later(2) by (simp add: account_ok_def)
  have "row_of cl_id (lo_claim_id (fst p2)) (claims s2) = Some c2" using later(3) p2(2) by simp
  then have res: "r = (if published disp2 fr2 b2 rq2 then Inr b2 else Inl DispatchFailed)"
      "s3 = handed disp2 fr2 b2 rq2 s2"
    using again finalize_replays [OF ok _ later(4) i2 _ later(5)] p2(1)
    by (simp_all add: finalize_upload_def)
  moreover have "published disp2 fr2 b2 rq2 \<and> handed disp2 fr2 b2 rq2 s2 = s2"
    if "sb_validation_status b2 \<noteq> UPLOADED"
    using that by (simp add: published_def handed_def handed_jobs_def Let_def split: option.split)
  ultimately show ?thesis by auto
qed

text \<open>Under the upload invariant, and with a fresh id and a broker that takes the job, an open
  intent is finalized exactly when its gates hold: no integrity error, no stale version number and
  no reused object can surface in between.\<close>

theorem finalize_accepted_iff:
  assumes inv: "uploads_inv s" and fresh: "sid \<notin> sb_id ` set (submissions s)"
    and intent: "row_of ui_id iid (upload_intents s) = Some i" "ui_finalized_submission_id i = None"
    and broker: "\<forall>p. disp = Some p \<longrightarrow> (\<forall>j. p j)"
  shows "(\<exists>b s'. finalize_upload head disp fr sid now a iid rq s = (Inr b, s')) \<longleftrightarrow>
    account_ok (actor_user_id a) s \<and> now < ui_expires_at i \<and> ui_consumed_at i = None
    \<and> (\<exists>h. head (ui_object_key i) = Inr (Some h) \<and> oh_size h = ui_declared_size i
         \<and> oh_content_type h = DECLARED_TYPE_CONTENT_TYPES (ui_declared_type i))
    \<and> (\<exists>c task. row_of cl_id (ui_claim_id i) (claims s) = Some c \<and> cl_user_id c = actor_user_id a
         \<and> cl_status c \<in> {CLAIMED, ClaimStatus.REVISION_REQUIRED} \<and> submission_window_open c now
         \<and> row_of tk_id (cl_task_id c) (tasks s) = Some task
         \<and> ok (retention_snapshot (tk_retention_policy task) now))" (is "?L \<longleftrightarrow> ?R")
proof
  assume ?L
  then obtain b s' probe where probe: "locate_upload head iid s = Inr probe"
    and locked: "finalize_locked disp fr sid now a iid rq probe s = (Inr b, s')"
    by (auto simp: finalize_upload_def split: sum.splits)
  have loc: "lo_claim_id (fst probe) = ui_claim_id i" "head (ui_object_key i) = Inr (snd probe)"
    using probe intent by (auto simp: locate_Inr)
  from locked show ?R
  proof (cases rule: finalize_cases)
    case (replay c i' fid sub)
    with intent show ?thesis by simp
  next
    case (first i' c h task keep d)
    then have "may_finalize now a iid probe i c h task s"
      using intent by (auto simp: may_finalize_def)
    with loc first(2) show ?thesis by (auto simp: may_finalize_def)
  qed simp_all
next
  assume R: ?R
  then obtain h c task where h: "head (ui_object_key i) = Inr (Some h)"
    and rest: "account_ok (actor_user_id a) s" "now < ui_expires_at i" "ui_consumed_at i = None"
      "oh_size h = ui_declared_size i" "oh_content_type h = DECLARED_TYPE_CONTENT_TYPES (ui_declared_type i)"
      "row_of cl_id (ui_claim_id i) (claims s) = Some c" "cl_user_id c = actor_user_id a"
      "cl_status c \<in> {CLAIMED, ClaimStatus.REVISION_REQUIRED}" "submission_window_open c now"
      "row_of tk_id (cl_task_id c) (tasks s) = Some task"
    and keep: "ok (retention_snapshot (tk_retention_policy task) now)" by blast
  obtain k where k: "retention_snapshot (tk_retention_policy task) now = Inr k"
    using keep by (cases "retention_snapshot (tk_retention_policy task) now") auto
  obtain probe where probe: "locate_upload head iid s = Inr probe" "lo_claim_id (fst probe) = ui_claim_id i"
      "snd probe = Some h"
    using h intent by (auto simp: locate_upload_def Let_def)
  have may: "may_finalize now a iid probe i c h task s"
    using rest intent probe by (simp add: may_finalize_def)
  have "published disp fr b rq" for b using broker by (auto simp: published_def split: option.split)
  then show ?L
    using finalize_first [OF may k refl finalize_inserts [OF inv may k fresh]] probe(1)
    by (simp add: finalize_upload_def)
qed

text \<open>Uploads stay consistent whatever the calls answer: each submission has its one consumed
  intent with the same object and claim, no object is used twice, and each claim's versions are
  1, 2, 3 and so on, through every outcome of issuing and of finalizing, burned intents and
  failed publishes included.\<close>

theorem uploads_stay_consistent:
  assumes "uploads_inv s"
  shows "uploads_inv (snd (create_upload_intent cfg presign iid now a cid filename ty n s))
    \<and> uploads_inv (snd (finalize_upload head disp fr sid now a jid rq s))"
proof
  show "uploads_inv (snd (create_upload_intent cfg presign iid now a cid filename ty n s))"
    by (rule create_keeps [OF prod.collapse [symmetric] assms])
  show "uploads_inv (snd (finalize_upload head disp fr sid now a jid rq s))"
  proof (cases "locate_upload head jid s")
    case (Inl e)
    with assms show ?thesis by (simp add: finalize_upload_def)
  next
    case (Inr probe)
    then show ?thesis
      using finalize_keeps [OF prod.collapse [symmetric] assms locate_locates [OF Inr]]
      by (simp add: finalize_upload_def)
  qed
qed

text \<open>The deadlines of an open claim: a revision deadline exists exactly while one was granted.\<close>

definition window_ok :: "claim \<Rightarrow> bool" where
  "window_ok c \<longleftrightarrow> (cl_status c = CLAIMED \<longrightarrow> cl_revision_deadline_at c = None)
     \<and> (cl_status c = ClaimStatus.REVISION_REQUIRED \<longrightarrow> cl_revision_deadline_at c \<noteq> None)
     \<and> (\<forall>r. cl_revision_deadline_at c = Some r \<longrightarrow> cl_grace_deadline_at c \<le> r)"

lemma window_open_iff: "window_ok c \<Longrightarrow> cl_status c \<in> {CLAIMED, ClaimStatus.REVISION_REQUIRED}
    \<Longrightarrow> submission_window_open c now \<longleftrightarrow> now < effective_expiry_deadline c"
  by (auto simp: window_ok_def submission_window_open_def effective_expiry_deadline_def)

text \<open>The upload gate and the expiry worker read the same instant: on a claim that still needs the
  student's action the submission window is open at an instant exactly when the expiry transaction
  would answer NOT DUE there, so there is neither a gap in which a claim can be neither submitted
  nor expired nor an overlap in which both are possible.\<close>

theorem window_closes_when_expiry_opens:
  assumes "row_of cl_id cid (claims s) = Some c" "window_ok c"
    and "cl_status c \<in> {CLAIMED, ClaimStatus.REVISION_REQUIRED}"
    and "expire_claim_if_due pub inspect (Aware now) cid s = Inr (r, s')"
  shows "submission_window_open c now \<longleftrightarrow> er_outcome r = NotDue"
  using expire_outcome [OF assms(4)] assms(1,3) window_open_iff [OF assms(2,3), of now]
  by (auto simp: expiry_outcome_def due_row_iff active_iff)

text \<open>The stored display name is never empty, never longer than its column, printable throughout
  and free of both path separators, whatever the client sends.\<close>

theorem sanitized_name_is_safe:
  "sanitize_filename f \<noteq> [] \<and> length (sanitize_filename f) \<le> 255
   \<and> (\<forall>c\<in>set (sanitize_filename f). py_printable c \<and> c \<noteq> CHR ''/'' \<and> c \<noteq> CHR 0x5C)"
proof (cases "stripped_name f = []")
  case True
  then have "sanitize_filename f = FILENAME_FALLBACK" by (simp add: sanitize_eq)
  with fallback_safe show ?thesis by (simp add: FILENAME_FALLBACK_def)
next
  case False
  then have eq: "sanitize_filename f = stripped_name f" by (simp add: sanitize_eq)
  have "length (stripped_name f) \<le> 255" by (simp add: stripped_name_def MAX_FILENAME_LENGTH_def)
  with False stripped_safe show ?thesis unfolding eq by blast
qed

section \<open>Witnesses\<close>

definition demo_intent :: upload_intent where
  "demo_intent = \<lparr>ui_id = 300, ui_claim_id = 100, ui_object_key = ''submissions/x'',
     ui_filename = ''a.csv'', ui_declared_type = CSV, ui_declared_size = 10,
     ui_expires_at = minutes 15, ui_consumed_at = None, ui_finalized_submission_id = None,
     ui_cleanup_claimed_at = None, ui_cleanup_lease_expires_at = None, ui_cleanup_claim_token = None,
     ui_cleanup_deleted_at = None\<rparr>"

definition intent_campus :: campus_db where
  "intent_campus = claimed_campus\<lparr>upload_intents := [demo_intent]\<rparr>"

definition demo_head :: head_port where
  "demo_head k = Inr (Some \<lparr>oh_object_key = k, oh_size = 10, oh_content_type = ''text/csv''\<rparr>)"

definition demo_student :: actor where
  "demo_student = \<lparr>actor_user_id = 7, actor_role = STUDENT\<rparr>"

definition demo_upload :: submission where
  "demo_upload = new_submission 200 demo_claim 1 demo_intent
     \<lparr>oh_object_key = ''submissions/x'', oh_size = 10, oh_content_type = ''text/csv''\<rparr> (minutes 5)
     (Some (minutes 5 + days 180), False)"

definition uploaded_campus :: campus_db where
  "uploaded_campus = finalized_state 200 (minutes 5) demo_intent demo_claim demo_upload intent_campus"

lemma intent_inv: "uploads_inv intent_campus"
  by (auto simp: uploads_inv_def intent_campus_def demo_intent_def claimed_campus_def demo_campus_def
      initial_campus_def initial_points_def points_db.defs versions_def intro!: exI [of _ 0])

lemma intent_rows: "row_of ui_id 300 (upload_intents intent_campus) = Some demo_intent"
  "row_of cl_id 100 (claims intent_campus) = Some demo_claim" "submissions intent_campus = []"
  "row_of tk_id 1 (tasks intent_campus) = Some demo_task" "account_ok 7 intent_campus"
  "ui_finalized_submission_id demo_intent = None" "ui_claim_id demo_intent = 100"
  by (simp_all add: intent_campus_def demo_intent_def demo_defs account_ok_def)

lemma demo_may_finalize: "may_finalize (minutes 5) demo_student 300
    (\<lparr>lo_claim_id = 100, lo_object_key = ''submissions/x'', lo_finalized = None\<rparr>,
     Some \<lparr>oh_object_key = ''submissions/x'', oh_size = 10, oh_content_type = ''text/csv''\<rparr>)
    demo_intent demo_claim
    \<lparr>oh_object_key = ''submissions/x'', oh_size = 10, oh_content_type = ''text/csv''\<rparr> demo_task intent_campus"
  using intent_rows
  by (simp add: may_finalize_def demo_student_def demo_intent_def submission_window_open_def
      hours_def minutes_def)

lemma demo_finalize: "finalize_upload demo_head None [] 200 (minutes 5) demo_student 300 None intent_campus
    = (Inr demo_upload, uploaded_campus)"
proof -
  have keep: "retention_snapshot (tk_retention_policy demo_task) (minutes 5)
      = Inr (Some (minutes 5 + days 180), False)"
    by (simp add: retention_snapshot_def RETENTION_POLICY_DAYS_def demo_task_def)
  have b: "demo_upload = new_submission 200 demo_claim (next_version (cl_id demo_claim) intent_campus) demo_intent
     \<lparr>oh_object_key = ''submissions/x'', oh_size = 10, oh_content_type = ''text/csv''\<rparr> (minutes 5)
     (Some (minutes 5 + days 180), False)"
    by (simp add: demo_upload_def next_version_def current_max_version_def intent_rows)
  have "ok (insert_submission demo_upload (submissions intent_campus))"
    unfolding b by (rule finalize_inserts [OF intent_inv demo_may_finalize keep]) (simp add: intent_rows)
  then show ?thesis
    using finalize_first [OF demo_may_finalize keep b, where disp = None and fr = "[]" and rq = None]
    by (simp add: finalize_upload_def locate_upload_def intent_rows demo_head_def demo_intent_def
        published_def handed_def handed_jobs_def uploaded_campus_def)
qed


theorem finalize_replay_returns_the_same_submission_witness:
  "finalize_upload (\<lambda>_. Inl TemporaryProviderError) None [] 201 (hours 99) demo_student 300 None
     (put_submission (demo_upload\<lparr>sb_validation_status := ValidationStatus.VALIDATING\<rparr>) uploaded_campus)
   = (Inr (demo_upload\<lparr>sb_validation_status := ValidationStatus.VALIDATING\<rparr>),
      put_submission (demo_upload\<lparr>sb_validation_status := ValidationStatus.VALIDATING\<rparr>) uploaded_campus)"
proof -
  let ?s2 = "put_submission (demo_upload\<lparr>sb_validation_status := ValidationStatus.VALIDATING\<rparr>) uploaded_campus"
  let ?run = "finalize_upload (\<lambda>_. Inl TemporaryProviderError) None [] 201 (hours 99) demo_student 300 None ?s2"
  have rows: "upload_intents ?s2 = upload_intents uploaded_campus" "users ?s2 = users intent_campus"
    "row_of cl_id (sb_claim_id demo_upload) (claims ?s2) = Some (demo_claim\<lparr>cl_latest_submission_id := Some 200\<rparr>)"
    "row_of sb_id 200 (submissions ?s2) = Some (demo_upload\<lparr>sb_validation_status := ValidationStatus.VALIDATING\<rparr>)"
    by (simp_all add: uploaded_campus_def demo_upload_def row_of_put_claim row_of_put_submission
        intent_rows)
  obtain r s3 where run: "?run = (r, s3)" by (cases ?run) auto
  show ?thesis
    using finalize_replay_returns_the_same_submission
      [OF demo_finalize intent_inv intent_rows(1,6) rows(1,2,3) _ rows(4) run] run
    by (simp add: demo_student_def)
qed

theorem finalize_accepted_iff_witness:
  "\<exists>b s'. finalize_upload demo_head None [] 200 (minutes 5) demo_student 300 None intent_campus = (Inr b, s')"
proof -
  have "200 \<notin> sb_id ` set (submissions intent_campus)" by (simp add: intent_rows)
  from finalize_accepted_iff [OF intent_inv this intent_rows(1,6), of None demo_head "[]" "minutes 5" demo_student None]
  show ?thesis using demo_finalize by blast
qed

theorem uploads_stay_consistent_witness: "uploads_inv uploaded_campus"
  using uploads_stay_consistent [OF intent_inv, where head = demo_head and disp = None and fr = "[]"
      and sid = 200 and now = "minutes 5" and a = demo_student and jid = 300 and rq = None]
  by (simp add: demo_finalize)

theorem window_closes_when_expiry_opens_witness:
  "submission_window_open demo_claim (hours 2) \<longleftrightarrow> er_outcome (expire_result demo_claim NotDue) = NotDue"
proof (rule window_closes_when_expiry_opens)
  show "row_of cl_id 100 (claims intent_campus) = Some demo_claim" by (rule intent_rows(2))
  show "window_ok demo_claim" by (simp add: window_ok_def demo_claim_def new_claim_def)
  show "expire_claim_if_due True NoValidSubmissionsInspector (Aware (hours 2)) 100 intent_campus
      = Inr (expire_result demo_claim NotDue, intent_campus)"
    by (simp add: expire_eq Let_def intent_rows expiry_outcome_def due_row_iff
        effective_expiry_deadline_def demo_claim_def new_claim_def active_iff hours_def minutes_def)
qed simp

end
