(* ===== verification/Decisions.thy ===== *)
theory Decisions
  imports Approval Upload_Facts
begin

text \<open>
  Properties of the human review: what an approval pays and when it is refused, what a return for
  revision grants, and what invalidating a lock costs.
\<close>

section \<open>Approval\<close>

text \<open>C5: An approval pays the locked points exactly once: the first approval of a claim without a reward
  appends one ledger entry of exactly the claim's locked points (not its base points) to the claim's
  student, dated for the ranking at the instant the lock was earned; both of the student's wallet
  figures rise by it and nobody else's move; the claim completes under a confirmed lock, the
  submission is approved, and an OCCUPIED unit is completed.  Approving again, by anyone and with
  any wiring, returns the claim without writing.\<close>

theorem approval_pays_the_locked_points_once:
  assumes run: "approve_submission env str (PointsRewardPortAdapter eid m ov df) honors now rid a b ctx s
      = Inr (r, s')"
    and first: "\<not> ap_already_reviewed r" and inv: "points_inv s" "claims_inv s"
    and rows: "row_of sb_id b (submissions s) = Some sub" "row_of cl_id (sb_claim_id sub) (claims s) = Some c"
    and lock: "lock_ok c" and unpaid: "claim_reward (cl_id c) (ledger s) = None"
  shows "\<exists>e points at. cl_locked_reward_points c = Some points \<and> cl_reward_locked_at c = Some at
    \<and> ledger s' = ledger s @ [e] \<and> claim_reward (cl_id c) (ledger s') = Some e
    \<and> le_user_id e = cl_user_id c \<and> le_amount e = points \<and> le_ranking_effective_at e = Some at
    \<and> (\<forall>v. wallet_of s' v = (if v = cl_user_id c
         then \<lparr>available_points = available_points (wallet_of s v) + points,
               earned_points = earned_points (wallet_of s v) + points\<rparr> else wallet_of s v))
    \<and> row_of cl_id (cl_id c) (claims s') = Some (c\<lparr>cl_status := ClaimStatus.COMPLETED,
         cl_terminal_at := Some now, cl_reward_lock_status := CONFIRMED\<rparr>)
    \<and> (\<exists>v. row_of sb_id b (submissions s') = Some v \<and> sb_review_status v = ReviewStatus.APPROVED
         \<and> sb_reviewer_id v = Some (actor_user_id a))
    \<and> row_of as_id (cl_assignment_id c) (assignments s')
        = map_option finished_unit (row_of as_id (cl_assignment_id c) (assignments s))
    \<and> (\<forall>env2 port2 honors2 now2 rid2 a2 ctx2. \<exists>r2.
         approve_submission env2 str port2 honors2 now2 rid2 a2 b ctx2 s' = Inr (r2, s')
         \<and> ap_already_reviewed r2 \<and> ap_grant r2 = None)"
proof -
  obtain e points at where pay: "payable a b sub c points s" and at: "cl_reward_locked_at c = Some at"
    and led: "ledger s' = ledger s @ [e]" "claim_reward (cl_id c) (ledger s') = Some e"
      "le_user_id e = cl_user_id c" "le_amount e = points" "le_ranking_effective_at e = Some at"
    and wal: "\<forall>v. wallet_of s' v = (if v = cl_user_id c
         then \<lparr>available_points = available_points (wallet_of s v) + points,
               earned_points = earned_points (wallet_of s v) + points\<rparr> else wallet_of s v)"
    and cls: "claims s' = claims (put_claim (approved_claim now c) s)"
    and subs: "submissions s' = submissions (put_submission
         (reviewed_submission sub ReviewStatus.APPROVED a now None) s)"
    and units: "\<forall>k. row_of as_id k (assignments s') = (if k = cl_assignment_id c
         then map_option finished_unit (row_of as_id k (assignments s)) else row_of as_id k (assignments s))"
    using adapter.approve_pays [OF run first inv rows lock unpaid] by blast
  have ids: "cl_id c = sb_claim_id sub" "sb_id sub = b"
    using row_of_SomeD [OF rows(2)] row_of_SomeD [OF rows(1)] by simp_all
  have c': "row_of cl_id (cl_id c) (claims s') = Some (approved_claim now c)"
    using rows(2) by (simp add: cls row_of_put_claim ids(1))
  let ?v = "reviewed_submission sub ReviewStatus.APPROVED a now None"
  have v: "row_of sb_id b (submissions s') = Some ?v" "sb_claim_id ?v = cl_id c"
    using rows(1) ids by (simp_all add: subs row_of_put_submission reviewed_submission_def)
  have again: "\<exists>r2. approve_submission env2 str port2 honors2 now2 rid2 a2 b ctx2 s' = Inr (r2, s')
      \<and> ap_already_reviewed r2 \<and> ap_grant r2 = None" for env2 port2 honors2 now2 rid2 a2 ctx2
    using v c' by (simp add: approve_submission_def)
  have "cl_locked_reward_points c = Some points" using pay by (simp add: payable_def)
  then show ?thesis
    using at led wal c' v units again
    by (intro exI [of _ e] exI [of _ points] exI [of _ at])
      (simp add: approved_claim_def reviewed_submission_def)
qed


section \<open>Return and invalidation\<close>

lemma record_revision_ok: "may_review a c s \<Longrightarrow> tasks s1 = tasks s \<Longrightarrow> cl_task_id c1 = cl_task_id c
    \<Longrightarrow> ok (record_revision_required env c1 rid d n s1)"
  using task_title_ok [of a c s s1 c1] by (auto simp: record_revision_required_def)

lemma ok_map: "ok (case x of Inl e \<Rightarrow> Inl e | Inr y \<Rightarrow> Inr (f y)) = ok x"
  by (cases x) simp_all

lemma revision_runs:
  assumes "decidable_pair b sub c s" "may_review a c s"
  shows "ok (require_revision env now rid a b note ctx s)"
proof -
  have pair: "locked_reviewable a b s = Inr (sub, c)" using assms by (simp add: reviewable_Inr)
  show ?thesis
    unfolding require_revision_def pair sum.case prod.case Let_def ok_map
    by (rule record_revision_ok [OF assms(2)]) simp_all
qed

lemma invalidation_runs:
  assumes "decidable_pair b sub c s" "may_review a c s" "cl_reward_lock_status c = PROVISIONAL"
    and "strip_or_none reason = Some t"
  shows "ok (invalidate_reward_lock env now rid a b reason ctx s)"
proof -
  have pair: "locked_reviewable a b s = Inr (sub, c)" using assms by (simp add: reviewable_Inr)
  show ?thesis
    unfolding invalidate_reward_lock_def assms(4) option.case pair sum.case prod.case Let_def assms(3) ok_map
      not_not if_False simp_thms
    by (rule record_revision_ok [OF assms(2)]) simp_all
qed

text \<open>C18: A return for revision never shortens the student's time and never touches the money: the claim
  comes back as REVISION_REQUIRED with a deadline at least 24 hours away and no earlier than the
  grace deadline or any revision deadline granted before; until that instant uploads are accepted and
  an expiry attempt cannot end the claim; the lock columns, the ledger and the units stay as they
  were, and the submission carries the reviewer's verdict.\<close>

theorem revision_extends_the_window_and_keeps_the_lock:
  assumes run: "require_revision env now rid a b note ctx s = Inr (c', s')"
    and rows: "row_of sb_id b (submissions s) = Some sub" "row_of cl_id (sb_claim_id sub) (claims s) = Some c"
    and window: "window_ok c"
  shows "\<exists>d. row_of cl_id (cl_id c) (claims s') = Some c' \<and> cl_status c' = ClaimStatus.REVISION_REQUIRED
    \<and> cl_revision_deadline_at c' = Some d \<and> now + hours 24 \<le> d \<and> cl_grace_deadline_at c \<le> d
    \<and> (\<forall>r. cl_revision_deadline_at c = Some r \<longrightarrow> r \<le> d)
    \<and> (\<forall>t<d. submission_window_open c' t \<and> (\<forall>p i r s2.
         expire_claim_if_due p i (Aware t) (cl_id c) s' = Inr (r, s2) \<longrightarrow> er_outcome r = NotDue))
    \<and> cl_reward_lock_status c' = cl_reward_lock_status c
    \<and> cl_locked_reward_points c' = cl_locked_reward_points c
    \<and> (\<exists>v. row_of sb_id b (submissions s') = Some v \<and> sb_review_status v = ReviewStatus.REVISION_REQUIRED
         \<and> sb_reviewer_id v = Some (actor_user_id a) \<and> sb_review_note v = strip_or_none note)
    \<and> ledger s' = ledger s \<and> wallets s' = wallets s \<and> assignments s' = assignments s"
proof -
  obtain sub2 c2 where pair: "decidable_pair b sub2 c2 s" and c2: "c' = returned now c2"
    and dec: "decided c' (reviewed_submission sub2 ReviewStatus.REVISION_REQUIRED a now (strip_or_none note)) s s'"
    by (rule revision_InrD [OF run])
  have same: "sub2 = sub" "c2 = c" using pair rows by (auto simp: decidable_pair_def)
  have ids: "cl_id c = sb_claim_id sub" "sb_id sub = b"
    using row_of_SomeD [OF rows(2)] row_of_SomeD [OF rows(1)] by simp_all
  have c': "c' = returned now c" using c2 same by simp
  have row: "row_of cl_id (cl_id c) (claims s') = Some c'"
    using dec rows(2) by (simp add: decided_def row_of_put_claim c' ids(1))
  let ?d = "revision_deadline c now"
  have d: "now + hours 24 \<le> ?d" "cl_grace_deadline_at c \<le> ?d"
      "\<And>r. cl_revision_deadline_at c = Some r \<Longrightarrow> r \<le> ?d"
    using window by (auto simp: revision_deadline_def REVISION_WINDOW_def window_ok_def split: option.split)
  have "submission_window_open c' t" if "t < ?d" for t
    using that by (simp add: submission_window_open_def c')
  moreover have "er_outcome r = NotDue"
    if "t < ?d" "expire_claim_if_due p i (Aware t) (cl_id c) s' = Inr (r, s2)" for t p i r s2
    using expire_outcome [OF that(2)] that(1) row d(2)
    by (auto simp: expiry_outcome_def due_row_iff c' effective_expiry_deadline_def)
  moreover have "row_of sb_id b (submissions s')
      = Some (reviewed_submission sub ReviewStatus.REVISION_REQUIRED a now (strip_or_none note))"
    using dec rows(1) ids by (simp add: decided_def same row_of_put_submission reviewed_submission_def)
  ultimately show ?thesis
    using row d dec
    by (intro exI [of _ ?d]) (simp add: c' decided_def reviewed_submission_def)
qed


section \<open>Witnesses\<close>

definition demo_teacher :: actor where
  "demo_teacher = \<lparr>actor_user_id = 50, actor_role = TEACHER\<rparr>"

definition demo_review_env :: review_env where
  "demo_review_env = \<lparr>env_recorder = True, env_no_comment = ''-''\<rparr>"

definition demo_reviewed :: claim where
  "demo_reviewed = in_review demo_submission demo_claim submitted_campus"

lemma initial_campus_inv: "points_inv initial_campus"
  by (simp add: points_inv_def) (simp add: initial_campus_def initial_points_def points_db.defs
      ledger_inv_def shelf_inv_def catalogue_ok_def table_ok_def services_ok_def projects_def wallet_of_def
      empty_wallet_def balance_of_def earned_of_def)

lemma points_inv_campus: "ledger s = [] \<Longrightarrow> wallets s = wallets initial_campus \<Longrightarrow> redemptions s = []
    \<Longrightarrow> reservations s = [] \<Longrightarrow> reward_items s = [] \<Longrightarrow> points_inv (s :: campus_db)"
  using points_inv_cong [of s initial_campus] initial_campus_inv
  by (simp add: initial_campus_def initial_points_def points_db.defs)

lemma reviewed_points: "ledger reviewed_campus = []" "points_inv reviewed_campus"
proof -
  show l: "ledger reviewed_campus = []"
    by (simp add: reviewed_campus_def submitted_campus_def demo_defs)
  show "points_inv reviewed_campus"
    by (rule points_inv_campus [OF l]) (simp_all add: reviewed_campus_def submitted_campus_def demo_defs)
qed

lemma reviewed_rows: "row_of cl_id 100 (claims reviewed_campus) = Some demo_reviewed"
  "row_of sb_id 200 (submissions reviewed_campus) = Some demo_submission"
  "row_of as_id 10 (assignments reviewed_campus) = Some (demo_assignment\<lparr>as_availability_status := OCCUPIED\<rparr>)"
  "row_of tk_id 1 (tasks reviewed_campus) = Some demo_task"
  unfolding demo_reviewed_def
  by (rule reviewed_claim_row)
    (simp_all add: reviewed_campus_def submitted_campus_def demo_submission_def demo_defs)

lemma demo_reviewed_facts: "cl_reward_lock_status demo_reviewed = PROVISIONAL"
  "cl_locked_reward_points demo_reviewed = Some 80" "cl_reward_tier_locked demo_reviewed = Some 80"
  "cl_reward_locked_at demo_reviewed = Some (hours 2)" "cl_latest_submission_id demo_reviewed = Some 200"
  "cl_id demo_reviewed = 100" "cl_task_id demo_reviewed = 1" "cl_assignment_id demo_reviewed = 10"
  "active_claim demo_reviewed" "cl_base_reward_points_snapshot demo_reviewed = 101"
  "cl_user_id demo_reviewed = 7" "cl_status demo_reviewed = ClaimStatus.UNDER_REVIEW"
  "cl_revision_deadline_at demo_reviewed = None" "cl_grace_deadline_at demo_reviewed = hours 25"
  by (simp_all add: demo_reviewed_def locked_claim_def Let_def clamped_tier_def tier_percent_def
      bump_latest_def active_iff hours_def minutes_def in_review_def)
    (simp_all add: demo_claim_def new_claim_def demo_task_def demo_assignment_def)

lemma demo_lock_ok: "lock_ok demo_reviewed"
  by (simp add: lock_ok_def demo_reviewed_facts)

lemma demo_may_review: "may_review demo_teacher demo_reviewed reviewed_campus"
  by (simp add: may_review_def demo_reviewed_facts reviewed_rows(4) [simplified] demo_teacher_def demo_task_def)

lemma demo_pair: "decidable_pair 200 demo_submission demo_reviewed reviewed_campus"
  by (simp add: decidable_pair_def reviewed_rows demo_reviewed_facts)

lemma unpaid_demo: "claim_reward (cl_id demo_reviewed) (ledger reviewed_campus) = None"
  by (simp add: reviewed_points claim_reward_def)


theorem approval_pays_the_locked_points_once_witness:
  "\<exists>r s'. approve_submission demo_review_env (\<lambda>_. []) (PointsRewardPortAdapter 900 0 None None) None
     (hours 5) 1 demo_teacher 200 None reviewed_campus = (Inr (r, s') :: review_error + _)
     \<and> available_points (wallet_of s' 7) = 80"
proof -
  have pay: "payable demo_teacher 200 demo_submission demo_reviewed 80 reviewed_campus"
    by (simp add: payable_def demo_pair demo_may_review demo_reviewed_facts reviewed_rows)
  have "900 \<notin> le_id ` set (ledger reviewed_campus)" by (simp add: reviewed_points)
  from adapter.approve_accepts [OF pay _ demo_lock_ok reviewed_points(2) unpaid_demo this]
  obtain r s' where run: "approve_submission demo_review_env (\<lambda>_. []) (PointsRewardPortAdapter 900 0 None None) None
     (hours 5) 1 demo_teacher 200 None reviewed_campus = Inr (r, s')" and new: "\<not> ap_already_reviewed r"
    by fastforce
  have "wallet_of reviewed_campus 7 = \<lparr>available_points = 0, earned_points = 0\<rparr>"
    by (simp add: wallet_of_def reviewed_campus_def submitted_campus_def demo_defs empty_wallet_def)
  then show ?thesis
    using approval_pays_the_locked_points_once [OF run new reviewed_points(2) reviewed_inv reviewed_rows(2) _
        demo_lock_ok unpaid_demo] run
    by (auto simp: reviewed_rows demo_reviewed_facts)
qed

theorem revision_extends_the_window_and_keeps_the_lock_witness:
  "\<exists>c' s'. require_revision demo_review_env (hours 20) 1 demo_teacher 200 (Some ''redo'') None reviewed_campus
      = Inr (c', s') \<and> cl_locked_reward_points c' = Some 80 \<and> cl_status c' = ClaimStatus.REVISION_REQUIRED"
proof -
  obtain c' s' where run: "require_revision demo_review_env (hours 20) 1 demo_teacher 200 (Some ''redo'') None
      reviewed_campus = Inr (c', s')"
    using revision_runs [OF demo_pair demo_may_review, of demo_review_env "hours 20" 1 "Some ''redo''" None]
    by (auto simp: ok_iff)
  have "window_ok demo_reviewed" by (simp add: window_ok_def demo_reviewed_facts)
  then show ?thesis
    using revision_extends_the_window_and_keeps_the_lock [OF run reviewed_rows(2), of demo_reviewed] run
    by (auto simp: reviewed_rows demo_reviewed_facts)
qed


end
