(* ===== verification/Report.thy ===== *)
theory Report
  imports Task_Models "HOL-Library.Monad_Syntax"
begin

text \<open>
  The machine-validation report (\<open>submissions/validators/common.py\<close>): its findings, the bounded
  builder that assembles it and the JSON shape it is stored in; then the bounds and the round
  trip.  The fixed Chinese texts are not representable over the code points 0 to 255: a message is
  what a catalogue (an argument) gives for the name of its template and the values interpolated
  into it, and the one-character ellipsis is part of the catalogue.
\<close>

section \<open>Codes and findings\<close>

datatype ValidationCode =
    EMPTY_FILE | INVALID_ENCODING | BINARY_CONTENT | MALFORMED_CSV | MALFORMED_XLSX
  | MALFORMED_SQLITE | FILE_CORRUPT | ARCHIVE_TOO_LARGE | PART_TOO_LARGE
  | SUSPICIOUS_COMPRESSION_RATIO | SUSPICIOUS_ARCHIVE_ENTRY | SHEET_NOT_FOUND | TABLE_NOT_FOUND
  | AMBIGUOUS_TABLE | EXTERNAL_LINK | FORMULA_WITHOUT_CACHED_VALUE | TOO_MANY_COLUMNS
  | DUPLICATE_HEADER | MISSING_REQUIRED_COLUMN | EXTRA_COLUMN | NO_DATA_ROWS | ROW_SHAPE_MISMATCH
  | CELL_TOO_LONG | NULL_VIOLATION | TYPE_ERROR | DUPLICATE_VALUE | NULL_RATIO_EXCEEDED
  | MIN_ROWS_NOT_MET | MAX_ROWS_EXCEEDED | ROW_LIMIT_EXCEEDED | TIMEOUT
  | UNIQUE_TRACKING_DEGRADED | ROW_COUNT_TRUNCATED | FINDINGS_TRUNCATED | FILE_TYPE_NOT_ALLOWED
  | VALIDATION_TIMED_OUT | VALIDATION_WORKER_CRASHED | SCHEMA_INVALID

fun validation_code_value :: "ValidationCode \<Rightarrow> string" where
  "validation_code_value EMPTY_FILE = ''EMPTY_FILE''"
| "validation_code_value INVALID_ENCODING = ''INVALID_ENCODING''"
| "validation_code_value BINARY_CONTENT = ''BINARY_CONTENT''"
| "validation_code_value MALFORMED_CSV = ''MALFORMED_CSV''"
| "validation_code_value MALFORMED_XLSX = ''MALFORMED_XLSX''"
| "validation_code_value MALFORMED_SQLITE = ''MALFORMED_SQLITE''"
| "validation_code_value FILE_CORRUPT = ''FILE_CORRUPT''"
| "validation_code_value ARCHIVE_TOO_LARGE = ''ARCHIVE_TOO_LARGE''"
| "validation_code_value PART_TOO_LARGE = ''PART_TOO_LARGE''"
| "validation_code_value SUSPICIOUS_COMPRESSION_RATIO = ''SUSPICIOUS_COMPRESSION_RATIO''"
| "validation_code_value SUSPICIOUS_ARCHIVE_ENTRY = ''SUSPICIOUS_ARCHIVE_ENTRY''"
| "validation_code_value SHEET_NOT_FOUND = ''SHEET_NOT_FOUND''"
| "validation_code_value TABLE_NOT_FOUND = ''TABLE_NOT_FOUND''"
| "validation_code_value AMBIGUOUS_TABLE = ''AMBIGUOUS_TABLE''"
| "validation_code_value EXTERNAL_LINK = ''EXTERNAL_LINK''"
| "validation_code_value FORMULA_WITHOUT_CACHED_VALUE = ''FORMULA_WITHOUT_CACHED_VALUE''"
| "validation_code_value TOO_MANY_COLUMNS = ''TOO_MANY_COLUMNS''"
| "validation_code_value DUPLICATE_HEADER = ''DUPLICATE_HEADER''"
| "validation_code_value MISSING_REQUIRED_COLUMN = ''MISSING_REQUIRED_COLUMN''"
| "validation_code_value EXTRA_COLUMN = ''EXTRA_COLUMN''"
| "validation_code_value NO_DATA_ROWS = ''NO_DATA_ROWS''"
| "validation_code_value ROW_SHAPE_MISMATCH = ''ROW_SHAPE_MISMATCH''"
| "validation_code_value CELL_TOO_LONG = ''CELL_TOO_LONG''"
| "validation_code_value NULL_VIOLATION = ''NULL_VIOLATION''"
| "validation_code_value TYPE_ERROR = ''TYPE_ERROR''"
| "validation_code_value DUPLICATE_VALUE = ''DUPLICATE_VALUE''"
| "validation_code_value NULL_RATIO_EXCEEDED = ''NULL_RATIO_EXCEEDED''"
| "validation_code_value MIN_ROWS_NOT_MET = ''MIN_ROWS_NOT_MET''"
| "validation_code_value MAX_ROWS_EXCEEDED = ''MAX_ROWS_EXCEEDED''"
| "validation_code_value ROW_LIMIT_EXCEEDED = ''ROW_LIMIT_EXCEEDED''"
| "validation_code_value TIMEOUT = ''TIMEOUT''"
| "validation_code_value UNIQUE_TRACKING_DEGRADED = ''UNIQUE_TRACKING_DEGRADED''"
| "validation_code_value ROW_COUNT_TRUNCATED = ''ROW_COUNT_TRUNCATED''"
| "validation_code_value FINDINGS_TRUNCATED = ''FINDINGS_TRUNCATED''"
| "validation_code_value FILE_TYPE_NOT_ALLOWED = ''FILE_TYPE_NOT_ALLOWED''"
| "validation_code_value VALIDATION_TIMED_OUT = ''VALIDATION_TIMED_OUT''"
| "validation_code_value VALIDATION_WORKER_CRASHED = ''VALIDATION_WORKER_CRASHED''"
| "validation_code_value SCHEMA_INVALID = ''SCHEMA_INVALID''"

definition all_validation_codes :: "ValidationCode list" where
  "all_validation_codes = [EMPTY_FILE, INVALID_ENCODING, BINARY_CONTENT, MALFORMED_CSV,
     MALFORMED_XLSX, MALFORMED_SQLITE, FILE_CORRUPT, ARCHIVE_TOO_LARGE, PART_TOO_LARGE,
     SUSPICIOUS_COMPRESSION_RATIO, SUSPICIOUS_ARCHIVE_ENTRY, SHEET_NOT_FOUND, TABLE_NOT_FOUND,
     AMBIGUOUS_TABLE, EXTERNAL_LINK, FORMULA_WITHOUT_CACHED_VALUE, TOO_MANY_COLUMNS,
     DUPLICATE_HEADER, MISSING_REQUIRED_COLUMN, EXTRA_COLUMN, NO_DATA_ROWS, ROW_SHAPE_MISMATCH,
     CELL_TOO_LONG, NULL_VIOLATION, TYPE_ERROR, DUPLICATE_VALUE, NULL_RATIO_EXCEEDED,
     MIN_ROWS_NOT_MET, MAX_ROWS_EXCEEDED, ROW_LIMIT_EXCEEDED, TIMEOUT, UNIQUE_TRACKING_DEGRADED,
     ROW_COUNT_TRUNCATED, FINDINGS_TRUNCATED, FILE_TYPE_NOT_ALLOWED, VALIDATION_TIMED_OUT,
     VALIDATION_WORKER_CRASHED, SCHEMA_INVALID]"

definition ValidationCode_of :: "string \<Rightarrow> ValidationCode option" where
  "ValidationCode_of = member_with validation_code_value all_validation_codes"

record texts =
  tx_ellipsis :: char
  tx_template :: "string \<Rightarrow> string list \<Rightarrow> string"

definition MAX_ERROR_FINDINGS :: nat where "MAX_ERROR_FINDINGS = 100"

definition MAX_WARNING_FINDINGS :: nat where "MAX_WARNING_FINDINGS = 100"

definition ECHO_MAX_LENGTH :: nat where "ECHO_MAX_LENGTH = 64"

record PreviewSpec =
  ps_max_rows :: nat
  ps_max_value_length :: nat

definition PreviewSpec_init :: "int \<Rightarrow> int \<Rightarrow> PreviewSpec option" where
  "PreviewSpec_init rows len = (if rows < 0 then None else if len < 1 then None
     else Some \<lparr>ps_max_rows = nat rows, ps_max_value_length = nat len\<rparr>)"

record ValidationFinding =
  vf_code :: ValidationCode
  vf_message :: string
  vf_row :: "int option"
  vf_column :: "string option"
  vf_value :: "string option"

record ValidationReport =
  vr_parser_version :: string
  vr_file_type :: FileType
  vr_row_count :: "int option"
  vr_detected_columns :: "string list"
  vr_missing_required_columns :: "string list"
  vr_extra_columns :: "string list"
  vr_type_error_counts :: "(string \<times> int) list"
  vr_null_ratios :: "(string \<times> pyfloat) list"
  vr_duplicate_counts :: "(string \<times> int) list"
  vr_warnings :: "ValidationFinding list"
  vr_errors :: "ValidationFinding list"
  vr_duration_ms :: pyfloat
  vr_preview_rows :: "string list list"

definition report_passed :: "ValidationReport \<Rightarrow> bool" where
  "report_passed r \<longleftrightarrow> vr_errors r = []"

definition shortened :: "texts \<Rightarrow> nat \<Rightarrow> string \<Rightarrow> string" where
  "shortened tx limit v = (if length v \<le> limit then v else take limit v @ [tx_ellipsis tx])"

definition truncate_for_report :: "texts \<Rightarrow> string option \<Rightarrow> string option" where
  "truncate_for_report tx v = map_option (shortened tx ECHO_MAX_LENGTH) v"

section \<open>The builder\<close>

record report_builder =
  vb_parser_version :: string
  vb_file_type :: FileType
  vb_errors :: "ValidationFinding list"
  vb_warnings :: "ValidationFinding list"
  vb_errors_truncated :: bool
  vb_warnings_truncated :: bool
  vb_preview :: "PreviewSpec option"
  vb_preview_rows :: "string list list"

definition ValidationReportBuilder :: "string \<Rightarrow> FileType \<Rightarrow> PreviewSpec option \<Rightarrow> report_builder" where
  "ValidationReportBuilder version ft preview =
     \<lparr>vb_parser_version = version, vb_file_type = ft, vb_errors = [], vb_warnings = [],
      vb_errors_truncated = False, vb_warnings_truncated = False, vb_preview = preview,
      vb_preview_rows = []\<rparr>"

definition new_finding ::
  "texts \<Rightarrow> ValidationCode \<Rightarrow> string \<Rightarrow> int option \<Rightarrow> string option \<Rightarrow> string option \<Rightarrow> ValidationFinding" where
  "new_finding tx code msg row col v =
     \<lparr>vf_code = code, vf_message = msg, vf_row = row, vf_column = col,
      vf_value = truncate_for_report tx v\<rparr>"

definition add_error ::
  "texts \<Rightarrow> ValidationCode \<Rightarrow> string \<Rightarrow> int option \<Rightarrow> string option \<Rightarrow> string option
    \<Rightarrow> report_builder \<Rightarrow> report_builder" where
  "add_error tx code msg row col v b =
     (if MAX_ERROR_FINDINGS \<le> length (vb_errors b) then b\<lparr>vb_errors_truncated := True\<rparr>
      else b\<lparr>vb_errors := vb_errors b @ [new_finding tx code msg row col v]\<rparr>)"

definition add_warning ::
  "texts \<Rightarrow> ValidationCode \<Rightarrow> string \<Rightarrow> int option \<Rightarrow> string option \<Rightarrow> string option
    \<Rightarrow> report_builder \<Rightarrow> report_builder" where
  "add_warning tx code msg row col v b =
     (if MAX_WARNING_FINDINGS \<le> length (vb_warnings b) then b\<lparr>vb_warnings_truncated := True\<rparr>
      else b\<lparr>vb_warnings := vb_warnings b @ [new_finding tx code msg row col v]\<rparr>)"

definition add_preview_row :: "texts \<Rightarrow> string list \<Rightarrow> report_builder \<Rightarrow> report_builder" where
  "add_preview_row tx cells b = (case vb_preview b of None \<Rightarrow> b
     | Some p \<Rightarrow> (if ps_max_rows p \<le> length (vb_preview_rows b) then b
         else b\<lparr>vb_preview_rows := vb_preview_rows b
                @ [map (shortened tx (ps_max_value_length p)) cells]\<rparr>))"

text \<open>The counts the validator passes in.\<close>

record ScanAggregates =
  sa_row_count :: "int option"
  sa_detected_columns :: "string list"
  sa_missing_required_columns :: "string list"
  sa_extra_columns :: "string list"
  sa_type_error_counts :: "(string \<times> int) list"
  sa_null_ratios :: "(string \<times> pyfloat) list"
  sa_duplicate_counts :: "(string \<times> int) list"

definition no_aggregates :: "int option \<Rightarrow> ScanAggregates" where
  "no_aggregates rows = \<lparr>sa_row_count = rows, sa_detected_columns = [],
     sa_missing_required_columns = [], sa_extra_columns = [], sa_type_error_counts = [],
     sa_null_ratios = [], sa_duplicate_counts = []\<rparr>"

definition truncation_note :: "texts \<Rightarrow> string \<Rightarrow> nat \<Rightarrow> ValidationFinding" where
  "truncation_note tx name n = \<lparr>vf_code = FINDINGS_TRUNCATED,
     vf_message = tx_template tx name [], vf_row = None, vf_column = None, vf_value = None\<rparr>"

definition build_report :: "texts \<Rightarrow> ScanAggregates \<Rightarrow> pyfloat \<Rightarrow> report_builder \<Rightarrow> ValidationReport" where
  "build_report tx a duration b =
     \<lparr>vr_parser_version = vb_parser_version b, vr_file_type = vb_file_type b,
      vr_row_count = sa_row_count a, vr_detected_columns = sa_detected_columns a,
      vr_missing_required_columns = sa_missing_required_columns a,
      vr_extra_columns = sa_extra_columns a, vr_type_error_counts = sa_type_error_counts a,
      vr_null_ratios = sa_null_ratios a, vr_duplicate_counts = sa_duplicate_counts a,
      vr_warnings = vb_warnings b
        @ (if vb_errors_truncated b then [truncation_note tx ''errors truncated'' MAX_ERROR_FINDINGS] else [])
        @ (if vb_warnings_truncated b
           then [truncation_note tx ''warnings truncated'' MAX_WARNING_FINDINGS] else []),
      vr_errors = vb_errors b, vr_duration_ms = duration, vr_preview_rows = vb_preview_rows b\<rparr>"

section \<open>The stored shape\<close>

definition finding_to_json :: "ValidationFinding \<Rightarrow> json" where
  "finding_to_json f = dict [(''code'', JStr (validation_code_value (vf_code f))),
     (''message'', JStr (vf_message f)), (''row'', jopt JInt (vf_row f)),
     (''column'', jopt JStr (vf_column f)), (''value'', jopt JStr (vf_value f))]"

definition counts_to_json :: "('v \<Rightarrow> json) \<Rightarrow> (string \<times> 'v) list \<Rightarrow> json" where
  "counts_to_json f kvs = dict (map (\<lambda>(k, v). (k, f v)) kvs)"

definition report_to_json :: "ValidationReport \<Rightarrow> json" where
  "report_to_json r = dict
     [(''parser_version'', JStr (vr_parser_version r)),
      (''file_type'', JStr (file_type_value (vr_file_type r))),
      (''row_count'', jopt JInt (vr_row_count r)),
      (''detected_columns'', JList (map JStr (vr_detected_columns r))),
      (''missing_required_columns'', JList (map JStr (vr_missing_required_columns r))),
      (''extra_columns'', JList (map JStr (vr_extra_columns r))),
      (''type_error_counts'', counts_to_json JInt (vr_type_error_counts r)),
      (''null_ratios'', counts_to_json JNum (vr_null_ratios r)),
      (''duplicate_counts'', counts_to_json JInt (vr_duplicate_counts r)),
      (''warnings'', JList (map finding_to_json (vr_warnings r))),
      (''errors'', JList (map finding_to_json (vr_errors r))),
      (''duration_ms'', JNum (vr_duration_ms r)),
      (''preview_rows'', JList (map (\<lambda>row. JList (map JStr row)) (vr_preview_rows r)))]"

text \<open>Readers of one JSON value; a value the typed row could not hold is \<open>None\<close>, like a missing key.\<close>

fun json_str :: "json \<Rightarrow> string option" where
  "json_str (JStr t) = Some t" | "json_str v = None"

fun json_int :: "json \<Rightarrow> int option" where
  "json_int (JInt n) = Some n" | "json_int v = None"

fun json_num :: "json \<Rightarrow> pyfloat option" where
  "json_num (JNum x) = Some x" | "json_num v = None"

fun json_opt :: "(json \<Rightarrow> 'a option) \<Rightarrow> json \<Rightarrow> 'a option option" where
  "json_opt f JNull = Some None" | "json_opt f v = map_option Some (f v)"

fun read_all :: "('a \<Rightarrow> 'b option) \<Rightarrow> 'a list \<Rightarrow> 'b list option" where
  "read_all f [] = Some []"
| "read_all f (x # xs) = (case f x of None \<Rightarrow> None
     | Some y \<Rightarrow> map_option (\<lambda>ys. y # ys) (read_all f xs))"

fun json_list :: "(json \<Rightarrow> 'a option) \<Rightarrow> json \<Rightarrow> 'a list option" where
  "json_list f (JList xs) = read_all f xs" | "json_list f (JTuple xs) = read_all f xs"
| "json_list f v = None"

fun json_counts :: "(json \<Rightarrow> 'a option) \<Rightarrow> json \<Rightarrow> (string \<times> 'a) list option" where
  "json_counts f (JObj kvs) = read_all (\<lambda>(k, v). case k of KOther n \<Rightarrow> None
     | KStr t \<Rightarrow> map_option (\<lambda>y. (t, y)) (f v)) kvs"
| "json_counts f v = None"

fun json_get :: "string \<Rightarrow> json \<Rightarrow> json option" where
  "json_get k (JObj kvs) = map_of kvs (KStr k)" | "json_get k v = None"

definition field_of :: "string \<Rightarrow> (json \<Rightarrow> 'a option) \<Rightarrow> json \<Rightarrow> 'a option" where
  "field_of k f v = Option.bind (json_get k v) f"

text \<open>\<open>data.get(key, fallback)\<close>.\<close>

definition optional_field :: "string \<Rightarrow> (json \<Rightarrow> 'a option) \<Rightarrow> json \<Rightarrow> json \<Rightarrow> 'a option" where
  "optional_field k f fallback v = f (case json_get k v of None \<Rightarrow> fallback | Some x \<Rightarrow> x)"

definition finding_from_json :: "json \<Rightarrow> ValidationFinding option" where
  "finding_from_json v = do {
     code_text \<leftarrow> field_of ''code'' json_str v;
     code \<leftarrow> ValidationCode_of code_text;
     msg \<leftarrow> field_of ''message'' json_str v;
     row \<leftarrow> optional_field ''row'' (json_opt json_int) JNull v;
     col \<leftarrow> optional_field ''column'' (json_opt json_str) JNull v;
     val \<leftarrow> optional_field ''value'' (json_opt json_str) JNull v;
     Some \<lparr>vf_code = code, vf_message = msg, vf_row = row, vf_column = col, vf_value = val\<rparr> }"

definition report_from_json :: "json \<Rightarrow> ValidationReport option" where
  "report_from_json v = do {
     pv \<leftarrow> field_of ''parser_version'' json_str v;
     ft_text \<leftarrow> field_of ''file_type'' json_str v;
     ft \<leftarrow> FileType_of ft_text;
     rows \<leftarrow> field_of ''row_count'' (json_opt json_int) v;
     cols \<leftarrow> field_of ''detected_columns'' (json_list json_str) v;
     mis \<leftarrow> field_of ''missing_required_columns'' (json_list json_str) v;
     ext \<leftarrow> field_of ''extra_columns'' (json_list json_str) v;
     tec \<leftarrow> field_of ''type_error_counts'' (json_counts json_int) v;
     nr \<leftarrow> field_of ''null_ratios'' (json_counts json_num) v;
     dc \<leftarrow> field_of ''duplicate_counts'' (json_counts json_int) v;
     ws \<leftarrow> field_of ''warnings'' (json_list finding_from_json) v;
     es \<leftarrow> field_of ''errors'' (json_list finding_from_json) v;
     d \<leftarrow> field_of ''duration_ms'' json_num v;
     pre \<leftarrow> optional_field ''preview_rows'' (json_list (json_list json_str)) (JTuple []) v;
     Some \<lparr>vr_parser_version = pv, vr_file_type = ft, vr_row_count = rows,
       vr_detected_columns = cols, vr_missing_required_columns = mis, vr_extra_columns = ext,
       vr_type_error_counts = tec, vr_null_ratios = nr, vr_duplicate_counts = dc,
       vr_warnings = ws, vr_errors = es, vr_duration_ms = d, vr_preview_rows = pre\<rparr> }"

section \<open>The round trip\<close>

lemma ValidationCode_of_value [simp]: "ValidationCode_of (validation_code_value c) = Some c"
  by (cases c) (simp_all add: ValidationCode_of_def member_with_def all_validation_codes_def)

lemma read_all_map: "(\<And>x. x \<in> set xs \<Longrightarrow> f (g x) = Some x) \<Longrightarrow> read_all f (map g xs) = Some xs"
  by (induction xs) auto

lemma json_opt_jopt: "(\<And>x. f (g x) = Some x) \<Longrightarrow> (\<And>x. g x \<noteq> JNull) \<Longrightarrow> json_opt f (jopt g x) = Some x"
  by (cases x; cases "g (the x)") (auto simp: jopt_def, metis+)

lemma json_opt_int [simp]: "json_opt json_int (jopt JInt x) = Some x"
  by (rule json_opt_jopt) simp_all

lemma json_opt_str [simp]: "json_opt json_str (jopt JStr x) = Some x"
  by (rule json_opt_jopt) simp_all

lemma json_counts_to [simp]: "(\<And>x. f (g x) = Some x) \<Longrightarrow> json_counts f (counts_to_json g kvs) = Some kvs"
  by (induction kvs) (auto simp: counts_to_json_def dict_def)

lemma json_get_dict: "json_get k (dict kvs) = map_of kvs k"
  by (induction kvs) (auto simp: dict_def)

lemma read_strings [simp]: "read_all json_str (map JStr xs) = Some xs"
  by (simp add: read_all_map)

lemma finding_roundtrip [simp]: "finding_from_json (finding_to_json f) = Some f"
  by (simp add: finding_from_json_def finding_to_json_def field_of_def optional_field_def json_get_dict)

lemmas json_readers = field_of_def optional_field_def json_get_dict read_all_map

lemma report_json_inverse [simp]: "report_from_json (report_to_json r) = Some r"
  by (simp add: report_from_json_def report_to_json_def json_readers)

text \<open>C35: A stored report reads back as the report that was stored, so the answer of a replayed
  validation is the first run's: nothing of the findings, counts, columns or preview is lost.\<close>

theorem report_roundtrip: "report_from_json (report_to_json r) = Some r"
  by (rule report_json_inverse)

section \<open>Bounds\<close>

text \<open>The calls a validator may make on a builder, in the order it makes them.\<close>

datatype builder_call =
    Error_call ValidationCode string "int option" "string option" "string option"
  | Warning_call ValidationCode string "int option" "string option" "string option"
  | Preview_call "string list"

fun run_call :: "texts \<Rightarrow> builder_call \<Rightarrow> report_builder \<Rightarrow> report_builder" where
  "run_call tx (Error_call c m r k v) b = add_error tx c m r k v b"
| "run_call tx (Warning_call c m r k v) b = add_warning tx c m r k v b"
| "run_call tx (Preview_call cells) b = add_preview_row tx cells b"

fun is_error_call :: "builder_call \<Rightarrow> bool" where
  "is_error_call (Error_call c m r k v) = True" | "is_error_call e = False"

definition builder_bounded :: "nat \<Rightarrow> PreviewSpec option \<Rightarrow> report_builder \<Rightarrow> bool" where
  "builder_bounded n p b \<longleftrightarrow> length (vb_errors b) = min MAX_ERROR_FINDINGS n
     \<and> (vb_errors_truncated b \<longleftrightarrow> MAX_ERROR_FINDINGS < n)
     \<and> length (vb_warnings b) \<le> MAX_WARNING_FINDINGS \<and> vb_preview b = p
     \<and> (\<forall>f\<in>set (vb_errors b @ vb_warnings b). \<forall>v. vf_value f = Some v \<longrightarrow> length v \<le> ECHO_MAX_LENGTH + 1)
     \<and> (case p of None \<Rightarrow> vb_preview_rows b = []
        | Some q \<Rightarrow> length (vb_preview_rows b) \<le> ps_max_rows q
            \<and> (\<forall>row\<in>set (vb_preview_rows b). \<forall>cell\<in>set row. length cell \<le> ps_max_value_length q + 1))"

lemma length_shortened: "length (shortened tx n v) \<le> n + 1"
  by (simp add: shortened_def)

lemma new_finding_value: "vf_value (new_finding tx c m r k x) = Some v \<Longrightarrow> length v \<le> ECHO_MAX_LENGTH + 1"
  using length_shortened [of tx ECHO_MAX_LENGTH] by (auto simp: new_finding_def truncate_for_report_def)

lemma run_call_bounded:
  assumes "builder_bounded n p b"
  shows "builder_bounded (if is_error_call e then Suc n else n) p (run_call tx e b)"
proof (cases e)
  case (Error_call c m r k v)
  with assms new_finding_value [of tx c m r k v] show ?thesis
    by (auto simp: builder_bounded_def add_error_def min_def split: option.splits)
next
  case (Warning_call c m r k v)
  with assms new_finding_value [of tx c m r k v] show ?thesis
    by (auto simp: builder_bounded_def add_warning_def split: option.splits)
next
  case (Preview_call cells)
  with assms show ?thesis
    by (auto simp: builder_bounded_def add_preview_row_def length_shortened [simplified]
        split: option.splits)
qed

lemma run_calls_bounded: "builder_bounded n p b \<Longrightarrow>
    builder_bounded (n + length (filter is_error_call es)) p (fold (run_call tx) es b)"
proof (induction es arbitrary: n b)
  case (Cons e es)
  from Cons.IH [OF run_call_bounded [OF Cons.prems, of e tx]] show ?case
    by (cases "is_error_call e") simp_all
qed simp

text \<open>Whatever a validator finds in a file, the report stays bounded and its verdict exact: it
  keeps at most 100 errors and at most 100 warnings plus the two truncation notes, echoes at most
  65 characters of a cell, previews no more rows and characters than asked for, and passes exactly
  when no error was ever reported, however many were dropped; an overflow of errors is always
  noted.\<close>

theorem report_bounded_and_verdict_exact:
  assumes "r = build_report tx a d (fold (run_call tx) calls (ValidationReportBuilder version ft p))"
  shows "length (vr_errors r) = min 100 (length (filter is_error_call calls))
    \<and> length (vr_warnings r) \<le> 102 \<and> (report_passed r \<longleftrightarrow> \<not> list_ex is_error_call calls)
    \<and> (100 < length (filter is_error_call calls)
         \<longrightarrow> FINDINGS_TRUNCATED \<in> vf_code ` set (vr_warnings r))
    \<and> (\<forall>f\<in>set (vr_errors r). \<forall>v. vf_value f = Some v \<longrightarrow> length v \<le> 65)
    \<and> (case p of None \<Rightarrow> vr_preview_rows r = []
       | Some q \<Rightarrow> length (vr_preview_rows r) \<le> ps_max_rows q
           \<and> (\<forall>row\<in>set (vr_preview_rows r). \<forall>cell\<in>set row. length cell \<le> ps_max_value_length q + 1))"
proof -
  let ?b = "fold (run_call tx) calls (ValidationReportBuilder version ft p)"
  have "builder_bounded 0 p (ValidationReportBuilder version ft p)"
    by (simp add: builder_bounded_def ValidationReportBuilder_def split: option.split)
  from run_calls_bounded [OF this, of calls tx]
  have bound: "builder_bounded (length (filter is_error_call calls)) p ?b" by simp
  have none: "length (filter is_error_call calls) = 0 \<longleftrightarrow> \<not> list_ex is_error_call calls"
    by (simp add: filter_empty_conv list_ex_iff)
  have r: "vr_errors r = vb_errors ?b" "vr_preview_rows r = vb_preview_rows ?b"
    "length (vr_warnings r) \<le> length (vb_warnings ?b) + 2"
    "vb_errors_truncated ?b \<Longrightarrow> FINDINGS_TRUNCATED \<in> vf_code ` set (vr_warnings r)"
    unfolding assms by (auto simp: build_report_def truncation_note_def)
  have errs: "length (vr_errors r) = min 100 (length (filter is_error_call calls))"
    using bound by (simp add: r builder_bounded_def MAX_ERROR_FINDINGS_def)
  have "report_passed r \<longleftrightarrow> length (vr_errors r) = 0" by (simp add: report_passed_def)
  then have verdict: "report_passed r \<longleftrightarrow> \<not> list_ex is_error_call calls"
    unfolding errs none [symmetric] by linarith
  have warns: "length (vr_warnings r) \<le> 102"
    using bound r(3) by (simp add: builder_bounded_def MAX_WARNING_FINDINGS_def)
  have noted: "100 < length (filter is_error_call calls) \<longrightarrow> FINDINGS_TRUNCATED \<in> vf_code ` set (vr_warnings r)"
    using bound r(4) by (simp add: builder_bounded_def MAX_ERROR_FINDINGS_def)
  have vals: "\<forall>f\<in>set (vr_errors r). \<forall>v. vf_value f = Some v \<longrightarrow> length v \<le> 65"
    using bound by (auto simp: r builder_bounded_def ECHO_MAX_LENGTH_def)
  show ?thesis
    using bound errs verdict warns noted vals unfolding builder_bounded_def r(2) by blast
qed

definition demo_texts :: texts where
  "demo_texts = \<lparr>tx_ellipsis = CHR ''~'', tx_template = (\<lambda>name vals. name)\<rparr>"

theorem report_bounded_and_verdict_exact_witness:
  "\<not> report_passed (build_report demo_texts (no_aggregates (Some 0)) (Float 0 0)
      (fold (run_call demo_texts) (replicate 101 (Error_call TYPE_ERROR [] None None None))
        (ValidationReportBuilder [] CSV None)))"
  using report_bounded_and_verdict_exact [OF refl, where calls = "replicate 101 (Error_call TYPE_ERROR [] None None None)"]
  by (simp add: list_ex_iff)

end
