(* ===== verification/Schema.thy ===== *)
theory Schema
  imports Report "HOL-Library.List_Lexorder"
begin

text \<open>
  The submission validation schema (\<open>submissions/schema.py\<close>): the strict parser of the closed
  JSON grammar a task may carry, with its typed result; then what the parser guarantees and that
  every well-formed schema can be written.  Keys of a JSON object are strings; the one other shape
  of key is answered like an unknown one.
\<close>

section \<open>Types\<close>

definition MAX_ROWS_CEILING :: int where "MAX_ROWS_CEILING = 10000000"

definition FORMAT_LITERALS :: "(string \<times> FileType) list" where
  "FORMAT_LITERALS = [(''csv'', CSV), (''xlsx'', XLSX), (''sqlite'', SQLITE)]"

definition TOP_LEVEL_KEYS :: "string list" where
  "TOP_LEVEL_KEYS = [''allowed_formats'', ''source_selector'', ''min_rows'', ''max_rows'',
     ''required_columns'', ''optional_columns'', ''allow_extra_columns'']"

definition SELECTOR_KEYS :: "string list" where
  "SELECTOR_KEYS = [''table_name'', ''sheet_name'']"

definition COLUMN_RULE_KEYS :: "string list" where
  "COLUMN_RULE_KEYS = [''name'', ''type'', ''nullable'', ''unique'', ''max_null_ratio'']"

text \<open>The key the error names, if it names one.\<close>

datatype schema_error = SchemaParseError "string option"

datatype ColumnType = STRING | INTEGER | NUMBER | BOOLEAN | DATETIME

fun column_type_value :: "ColumnType \<Rightarrow> string" where
  "column_type_value STRING = ''string''"
| "column_type_value INTEGER = ''integer''"
| "column_type_value NUMBER = ''number''"
| "column_type_value BOOLEAN = ''boolean''"
| "column_type_value DATETIME = ''datetime''"

definition COLUMN_TYPES :: "(string \<times> ColumnType) list" where
  "COLUMN_TYPES = map (\<lambda>t. (column_type_value t, t)) [STRING, INTEGER, NUMBER, BOOLEAN, DATETIME]"

record SourceSelector =
  ss_table_name :: "string option"
  ss_sheet_name :: "string option"

record ColumnRule =
  cr_name :: string
  cr_type :: ColumnType
  cr_required :: bool
  cr_nullable :: bool
  cr_unique :: bool
  cr_max_null_ratio :: "pyfloat option"

record SubmissionSchema =
  sc_allowed_formats :: "FileType list"
  sc_source_selector :: "SourceSelector option"
  sc_min_rows :: "int option"
  sc_max_rows :: "int option"
  sc_required_columns :: "ColumnRule list"
  sc_optional_columns :: "ColumnRule list"
  sc_allow_extra_columns :: bool
  sc_columns :: "(string \<times> ColumnRule) list"

section \<open>Parsing\<close>

text \<open>The alphabetically first key outside the known ones.\<close>

definition unknown_keys :: "string list \<Rightarrow> (jkey \<times> json) list \<Rightarrow> string list" where
  "unknown_keys known kvs =
     [t. (k, v) \<leftarrow> kvs, t \<leftarrow> (case k of KStr t \<Rightarrow> if t \<in> set known then [] else [t] | KOther n \<Rightarrow> [[]])]"

definition first_key :: "string list \<Rightarrow> string" where
  "first_key ks = hd (sort ks)"

definition parse_allowed_formats :: "json \<Rightarrow> schema_error + FileType list" where
  "parse_allowed_formats raw = (case json_get ''allowed_formats'' raw of
       None \<Rightarrow> Inr [CSV, XLSX, SQLITE, DOCX, PDF]
     | Some (JList xs) \<Rightarrow>
         (if xs = [] then Inl (SchemaParseError (Some ''allowed_formats''))
          else case read_all (\<lambda>x. Option.bind (json_str x) (map_of FORMAT_LITERALS)) xs of
              None \<Rightarrow> Inl (SchemaParseError (Some ''allowed_formats''))
            | Some fs \<Rightarrow> Inr (remdups fs))
     | Some v \<Rightarrow> Inl (SchemaParseError (Some ''allowed_formats'')))"

definition selector_name :: "json \<Rightarrow> string \<Rightarrow> schema_error + string option" where
  "selector_name v key = (case json_get key v of None \<Rightarrow> Inr None
     | Some (JStr t) \<Rightarrow> (if t = [] then Inl (SchemaParseError (Some (''source_selector.'' @ key)))
                         else Inr (Some t))
     | Some x \<Rightarrow> Inl (SchemaParseError (Some (''source_selector.'' @ key))))"

definition parse_source_selector :: "json \<Rightarrow> schema_error + SourceSelector option" where
  "parse_source_selector raw = (case json_get ''source_selector'' raw of
       None \<Rightarrow> Inr None
     | Some (JObj kvs) \<Rightarrow>
         (let unknown = unknown_keys SELECTOR_KEYS kvs in
          if unknown \<noteq> [] then Inl (SchemaParseError (Some (''source_selector.'' @ first_key unknown)))
          else case selector_name (JObj kvs) ''table_name'' of Inl e \<Rightarrow> Inl e | Inr table \<Rightarrow>
          case selector_name (JObj kvs) ''sheet_name'' of Inl e \<Rightarrow> Inl e | Inr sheet \<Rightarrow>
          if table = None \<and> sheet = None then Inl (SchemaParseError (Some ''source_selector''))
          else Inr (Some \<lparr>ss_table_name = table, ss_sheet_name = sheet\<rparr>))
     | Some v \<Rightarrow> Inl (SchemaParseError (Some ''source_selector'')))"

definition parse_row_bound :: "json \<Rightarrow> string \<Rightarrow> schema_error + int option" where
  "parse_row_bound raw key = (case json_get key raw of None \<Rightarrow> Inr None
     | Some (JInt n) \<Rightarrow> (if n < 0 \<or> MAX_ROWS_CEILING < n then Inl (SchemaParseError (Some key))
                         else Inr (Some n))
     | Some v \<Rightarrow> Inl (SchemaParseError (Some key)))"

definition parse_bool :: "json \<Rightarrow> string \<Rightarrow> string \<Rightarrow> schema_error + bool" where
  "parse_bool raw key path = (case json_get key raw of None \<Rightarrow> Inr False
     | Some (JBool b) \<Rightarrow> Inr b | Some v \<Rightarrow> Inl (SchemaParseError (Some path)))"

text \<open>\<open>0.0 <= value <= 1.0\<close> on exact float values.\<close>

fun unit_float :: "pyfloat \<Rightarrow> bool" where
  "unit_float (Float m e) \<longleftrightarrow> 0 \<le> m \<and> (if 0 \<le> e then m * 2 ^ nat e \<le> 1 else m \<le> 2 ^ nat (- e))"

definition column_max_null_ratio :: "json \<Rightarrow> string \<Rightarrow> schema_error + pyfloat option" where
  "column_max_null_ratio entry path = (case json_get ''max_null_ratio'' entry of
       None \<Rightarrow> Inr None
     | Some (JInt n) \<Rightarrow> (if 0 \<le> n \<and> n \<le> 1 then Inr (Some (Float n 0))
                         else Inl (SchemaParseError (Some (path @ ''.max_null_ratio''))))
     | Some (JNum x) \<Rightarrow> (if unit_float x then Inr (Some x)
                         else Inl (SchemaParseError (Some (path @ ''.max_null_ratio''))))
     | Some v \<Rightarrow> Inl (SchemaParseError (Some (path @ ''.max_null_ratio''))))"

definition parse_column :: "json \<Rightarrow> string \<Rightarrow> nat \<Rightarrow> schema_error + ColumnRule" where
  "parse_column entry list_key index =
     (let prefix = list_key @ ''['' @ py_str_nat index @ '']'' in
      case entry of JObj kvs \<Rightarrow>
        (let unknown = unknown_keys COLUMN_RULE_KEYS kvs in
         if unknown \<noteq> [] then Inl (SchemaParseError (Some (prefix @ ''.'' @ first_key unknown)))
         else case Option.bind (json_get ''name'' entry) json_str of
           None \<Rightarrow> Inl (SchemaParseError (Some (prefix @ ''.name'')))
         | Some name \<Rightarrow>
         if name = [] then Inl (SchemaParseError (Some (prefix @ ''.name'')))
         else case Option.bind (Option.bind (json_get ''type'' entry) json_str) (map_of COLUMN_TYPES) of
           None \<Rightarrow> Inl (SchemaParseError (Some (prefix @ ''.type'')))
         | Some ty \<Rightarrow>
         case parse_bool entry ''nullable'' (prefix @ ''.nullable'') of Inl e \<Rightarrow> Inl e | Inr nullable \<Rightarrow>
         case parse_bool entry ''unique'' (prefix @ ''.unique'') of Inl e \<Rightarrow> Inl e | Inr uniq \<Rightarrow>
         case column_max_null_ratio entry prefix of Inl e \<Rightarrow> Inl e | Inr ratio \<Rightarrow>
         Inr \<lparr>cr_name = name, cr_type = ty, cr_required = (list_key = ''required_columns''),
              cr_nullable = nullable, cr_unique = uniq, cr_max_null_ratio = ratio\<rparr>)
      | _ \<Rightarrow> Inl (SchemaParseError (Some prefix)))"

fun parse_columns :: "string \<Rightarrow> nat \<Rightarrow> json list \<Rightarrow> schema_error + ColumnRule list" where
  "parse_columns list_key index [] = Inr []"
| "parse_columns list_key index (x # xs) =
     (case parse_column x list_key index of Inl e \<Rightarrow> Inl e | Inr r \<Rightarrow>
      case parse_columns list_key (Suc index) xs of Inl e \<Rightarrow> Inl e | Inr rs \<Rightarrow> Inr (r # rs))"

definition parse_column_list :: "json \<Rightarrow> string \<Rightarrow> schema_error + ColumnRule list" where
  "parse_column_list raw key = (case json_get key raw of None \<Rightarrow> Inr []
     | Some (JList xs) \<Rightarrow> parse_columns key 0 xs
     | Some v \<Rightarrow> Inl (SchemaParseError (Some key)))"

text \<open>The first name seen before, walking a list from an index, with the names seen so far.\<close>

fun first_repeat :: "string list \<Rightarrow> string \<Rightarrow> nat \<Rightarrow> ColumnRule list \<Rightarrow> schema_error + string list" where
  "first_repeat seen list_key index [] = Inr seen"
| "first_repeat seen list_key index (r # rs) =
     (if cr_name r \<in> set seen
      then Inl (SchemaParseError (Some (list_key @ ''['' @ py_str_nat index @ ''].name'')))
      else first_repeat (seen @ [cr_name r]) list_key (Suc index) rs)"

definition reject_duplicate_columns :: "ColumnRule list \<Rightarrow> ColumnRule list \<Rightarrow> schema_error + unit" where
  "reject_duplicate_columns required opt =
     (case first_repeat [] ''required_columns'' 0 required of Inl e \<Rightarrow> Inl e | Inr seen \<Rightarrow>
      case first_repeat seen ''optional_columns'' 0 opt of Inl e \<Rightarrow> Inl e | Inr _ \<Rightarrow> Inr ())"

definition SubmissionSchema_parse :: "json \<Rightarrow> schema_error + SubmissionSchema" where
  "SubmissionSchema_parse raw = (case raw of JObj kvs \<Rightarrow>
      (let unknown = unknown_keys TOP_LEVEL_KEYS kvs in
       if unknown \<noteq> [] then Inl (SchemaParseError (Some (first_key unknown)))
       else case parse_allowed_formats raw of Inl e \<Rightarrow> Inl e | Inr formats \<Rightarrow>
       case parse_source_selector raw of Inl e \<Rightarrow> Inl e | Inr selector \<Rightarrow>
       case parse_row_bound raw ''min_rows'' of Inl e \<Rightarrow> Inl e | Inr min_rows \<Rightarrow>
       case parse_row_bound raw ''max_rows'' of Inl e \<Rightarrow> Inl e | Inr max_rows \<Rightarrow>
       if (case (min_rows, max_rows) of (Some a, Some b) \<Rightarrow> b < a | _ \<Rightarrow> False)
       then Inl (SchemaParseError (Some ''min_rows''))
       else case parse_bool raw ''allow_extra_columns'' ''allow_extra_columns'' of Inl e \<Rightarrow> Inl e | Inr extra \<Rightarrow>
       case parse_column_list raw ''required_columns'' of Inl e \<Rightarrow> Inl e | Inr required \<Rightarrow>
       case parse_column_list raw ''optional_columns'' of Inl e \<Rightarrow> Inl e | Inr opt \<Rightarrow>
       case reject_duplicate_columns required opt of Inl e \<Rightarrow> Inl e | Inr _ \<Rightarrow>
       Inr \<lparr>sc_allowed_formats = formats, sc_source_selector = selector, sc_min_rows = min_rows,
            sc_max_rows = max_rows, sc_required_columns = required, sc_optional_columns = opt,
            sc_allow_extra_columns = extra,
            sc_columns = map (\<lambda>r. (cr_name r, r)) (required @ opt)\<rparr>)
    | _ \<Rightarrow> Inl (SchemaParseError None))"

section \<open>What a parsed schema guarantees\<close>

definition rule_ok :: "bool \<Rightarrow> ColumnRule \<Rightarrow> bool" where
  "rule_ok required r \<longleftrightarrow> cr_name r \<noteq> [] \<and> cr_required r = required
     \<and> (\<forall>x. cr_max_null_ratio r = Some x \<longrightarrow> unit_float x)"

definition bound_ok :: "int option \<Rightarrow> bool" where
  "bound_ok b \<longleftrightarrow> (\<forall>n. b = Some n \<longrightarrow> 0 \<le> n \<and> n \<le> MAX_ROWS_CEILING)"

definition selector_ok :: "SourceSelector \<Rightarrow> bool" where
  "selector_ok x \<longleftrightarrow> (ss_table_name x \<noteq> None \<or> ss_sheet_name x \<noteq> None)
     \<and> ss_table_name x \<noteq> Some [] \<and> ss_sheet_name x \<noteq> Some []"

definition formats_ok :: "FileType list \<Rightarrow> bool" where
  "formats_ok fs \<longleftrightarrow> fs = [CSV, XLSX, SQLITE, DOCX, PDF]
     \<or> fs \<noteq> [] \<and> distinct fs \<and> set fs \<subseteq> {CSV, XLSX, SQLITE}"

definition schema_ok :: "SubmissionSchema \<Rightarrow> bool" where
  "schema_ok s \<longleftrightarrow> formats_ok (sc_allowed_formats s)
     \<and> (\<forall>x. sc_source_selector s = Some x \<longrightarrow> selector_ok x)
     \<and> bound_ok (sc_min_rows s) \<and> bound_ok (sc_max_rows s)
     \<and> (\<forall>a b. sc_min_rows s = Some a \<longrightarrow> sc_max_rows s = Some b \<longrightarrow> a \<le> b)
     \<and> (\<forall>r\<in>set (sc_required_columns s). rule_ok True r)
     \<and> (\<forall>r\<in>set (sc_optional_columns s). rule_ok False r)
     \<and> distinct (map cr_name (sc_required_columns s @ sc_optional_columns s))
     \<and> sc_columns s = map (\<lambda>r. (cr_name r, r)) (sc_required_columns s @ sc_optional_columns s)"

lemma first_repeat_Inr: "first_repeat seen key i rs = Inr seen' \<longleftrightarrow>
    seen' = seen @ map cr_name rs \<and> distinct (map cr_name rs) \<and> set seen \<inter> cr_name ` set rs = {}"
  by (induction rs arbitrary: seen i) auto

lemma reject_duplicates_Inr: "reject_duplicate_columns a b = Inr u \<longleftrightarrow>
    distinct (map cr_name (a @ b))"
proof (cases "first_repeat [] ''required_columns'' 0 a")
  case (Inl e)
  moreover have "\<not> distinct (map cr_name a)"
    using Inl first_repeat_Inr [of "[]" "''required_columns''" 0 a "map cr_name a"] by auto
  ultimately show ?thesis by (simp add: reject_duplicate_columns_def)
next
  case (Inr seen)
  then have seen: "seen = map cr_name a" "distinct (map cr_name a)" by (auto simp: first_repeat_Inr)
  show ?thesis
  proof (cases "first_repeat seen ''optional_columns'' 0 b")
    case (Inl e)
    then show ?thesis
      using Inr seen first_repeat_Inr [of seen "''optional_columns''" 0 b "seen @ map cr_name b"]
      by (auto simp: reject_duplicate_columns_def)
  next
    case again: (Inr seen')
    then have "reject_duplicate_columns a b = Inr u" using Inr by (simp add: reject_duplicate_columns_def)
    moreover have "distinct (map cr_name (a @ b))" using again seen by (auto simp: first_repeat_Inr)
    ultimately show ?thesis by blast
  qed
qed

lemma parse_column_ok: "parse_column x key i = Inr r \<Longrightarrow> rule_ok (key = ''required_columns'') r"
  by (auto simp: parse_column_def rule_ok_def column_max_null_ratio_def Let_def
      split: json.splits option.splits if_splits sum.splits)

lemma parse_columns_ok: "parse_columns key i xs = Inr rs \<Longrightarrow> \<forall>r\<in>set rs. rule_ok (key = ''required_columns'') r"
  by (induction xs arbitrary: i rs) (auto split: sum.splits dest: parse_column_ok)

lemma parse_column_list_ok: "parse_column_list raw key = Inr rs
    \<Longrightarrow> \<forall>r\<in>set rs. rule_ok (key = ''required_columns'') r"
  by (auto simp: parse_column_list_def dest: parse_columns_ok split: option.splits json.splits)

lemma row_bound_ok: "parse_row_bound raw key = Inr b \<Longrightarrow> bound_ok b"
  by (auto simp: parse_row_bound_def bound_ok_def split: option.splits json.splits if_splits)

lemma read_all_set: "read_all f xs = Some ys \<Longrightarrow> y \<in> set ys \<Longrightarrow> \<exists>x\<in>set xs. f x = Some y"
  by (induction xs arbitrary: ys) (auto split: option.splits)

lemma read_all_length: "read_all f xs = Some ys \<Longrightarrow> length ys = length xs"
  by (induction xs arbitrary: ys) (auto split: option.splits)

lemma parse_formats_ok: "parse_allowed_formats raw = Inr fs \<Longrightarrow> formats_ok fs"
proof (cases "json_get ''allowed_formats'' raw")
  case None
  then show "parse_allowed_formats raw = Inr fs \<Longrightarrow> formats_ok fs"
    by (simp add: parse_allowed_formats_def formats_ok_def)
next
  case (Some v)
  assume run: "parse_allowed_formats raw = Inr fs"
  with Some obtain xs where v: "v = JList xs" "xs \<noteq> []"
    by (cases v) (auto simp: parse_allowed_formats_def split: if_splits)
  with run Some obtain gs where gs: "read_all (\<lambda>x. Option.bind (json_str x) (map_of FORMAT_LITERALS)) xs = Some gs"
    and fs: "fs = remdups gs" by (auto simp: parse_allowed_formats_def split: option.splits)
  have "f \<in> {CSV, XLSX, SQLITE}" if "f \<in> set gs" for f
    using read_all_set [OF gs that] by (auto simp: FORMAT_LITERALS_def bind_eq_Some_conv split: if_splits)
  moreover have "gs \<noteq> []" using read_all_length [OF gs] v by auto
  ultimately show ?thesis by (auto simp: formats_ok_def fs)
qed

lemma parse_selector_ok: "parse_source_selector raw = Inr (Some x) \<Longrightarrow> selector_ok x"
  by (auto simp: parse_source_selector_def selector_ok_def selector_name_def Let_def
      split: option.splits json.splits if_splits sum.splits)

lemma schema_parse_Inr:
  assumes "SubmissionSchema_parse raw = Inr s"
  obtains kvs where "raw = JObj kvs" "unknown_keys TOP_LEVEL_KEYS kvs = []"
    "parse_allowed_formats raw = Inr (sc_allowed_formats s)"
    "parse_source_selector raw = Inr (sc_source_selector s)"
    "parse_row_bound raw ''min_rows'' = Inr (sc_min_rows s)"
    "parse_row_bound raw ''max_rows'' = Inr (sc_max_rows s)"
    "\<not> (case (sc_min_rows s, sc_max_rows s) of (Some a, Some b) \<Rightarrow> b < a | _ \<Rightarrow> False)"
    "parse_column_list raw ''required_columns'' = Inr (sc_required_columns s)"
    "parse_column_list raw ''optional_columns'' = Inr (sc_optional_columns s)"
    "reject_duplicate_columns (sc_required_columns s) (sc_optional_columns s) = Inr ()"
    "sc_columns s = map (\<lambda>r. (cr_name r, r)) (sc_required_columns s @ sc_optional_columns s)"
proof (cases raw)
  case (JObj kvs)
  note run = assms [unfolded JObj SubmissionSchema_parse_def json.case Let_def, folded JObj]
  obtain fs where fs: "parse_allowed_formats raw = Inr fs"
    using run by (cases "parse_allowed_formats raw") (auto split: if_splits)
  obtain sel where sel: "parse_source_selector raw = Inr sel"
    using run fs by (cases "parse_source_selector raw") (auto split: if_splits)
  obtain a where a: "parse_row_bound raw ''min_rows'' = Inr a"
    using run fs sel by (cases "parse_row_bound raw ''min_rows''") (auto split: if_splits)
  obtain b where b: "parse_row_bound raw ''max_rows'' = Inr b"
    using run fs sel a by (cases "parse_row_bound raw ''max_rows''") (auto split: if_splits)
  obtain x where x: "parse_bool raw ''allow_extra_columns'' ''allow_extra_columns'' = Inr x"
    using run fs sel a b
    by (cases "parse_bool raw ''allow_extra_columns'' ''allow_extra_columns''") (auto split: if_splits)
  obtain rs where rs: "parse_column_list raw ''required_columns'' = Inr rs"
    using run fs sel a b x
    by (cases "parse_column_list raw ''required_columns''") (auto split: if_splits)
  obtain os where os: "parse_column_list raw ''optional_columns'' = Inr os"
    using run fs sel a b x rs
    by (cases "parse_column_list raw ''optional_columns''") (auto split: if_splits)
  obtain u where u: "reject_duplicate_columns rs os = Inr u"
    using run fs sel a b x rs os by (cases "reject_duplicate_columns rs os") (auto split: if_splits)
  have s: "s = \<lparr>sc_allowed_formats = fs, sc_source_selector = sel, sc_min_rows = a, sc_max_rows = b,
      sc_required_columns = rs, sc_optional_columns = os, sc_allow_extra_columns = x,
      sc_columns = map (\<lambda>r. (cr_name r, r)) (rs @ os)\<rparr>"
    and ok: "unknown_keys TOP_LEVEL_KEYS kvs = []" "\<not> (case (a, b) of (Some a, Some b) \<Rightarrow> b < a | _ \<Rightarrow> False)"
    using run fs sel a b x rs os u by (auto split: if_splits)
  show thesis
    using fs sel a b rs os u ok by (intro that [OF JObj]) (simp_all add: s)
qed (use assms in \<open>simp_all add: SubmissionSchema_parse_def\<close>)

lemma parsed_schema_ok: "SubmissionSchema_parse raw = Inr s \<Longrightarrow> schema_ok s"
proof (erule schema_parse_Inr)
  fix kvs
  assume h: "parse_allowed_formats raw = Inr (sc_allowed_formats s)"
    "parse_source_selector raw = Inr (sc_source_selector s)"
    "parse_row_bound raw ''min_rows'' = Inr (sc_min_rows s)"
    "parse_row_bound raw ''max_rows'' = Inr (sc_max_rows s)"
    "\<not> (case (sc_min_rows s, sc_max_rows s) of (Some a, Some b) \<Rightarrow> b < a | _ \<Rightarrow> False)"
    "parse_column_list raw ''required_columns'' = Inr (sc_required_columns s)"
    "parse_column_list raw ''optional_columns'' = Inr (sc_optional_columns s)"
    "reject_duplicate_columns (sc_required_columns s) (sc_optional_columns s) = Inr ()"
    "sc_columns s = map (\<lambda>r. (cr_name r, r)) (sc_required_columns s @ sc_optional_columns s)"
  have "\<forall>x. sc_source_selector s = Some x \<longrightarrow> selector_ok x"
    using parse_selector_ok [of raw] h(2) by simp
  moreover have "a \<le> b" if "sc_min_rows s = Some a" "sc_max_rows s = Some b" for a b
    using h(5) that by simp
  ultimately show "schema_ok s"
    unfolding schema_ok_def
    using parse_formats_ok [OF h(1)] row_bound_ok [OF h(3)] row_bound_ok [OF h(4)]
      parse_column_list_ok [OF h(6)] parse_column_list_ok [OF h(7)] h(8,9)
    by (simp add: reject_duplicates_Inr)
qed

section \<open>Every well-formed schema can be written\<close>

definition put_opt :: "string \<Rightarrow> ('a \<Rightarrow> json) \<Rightarrow> 'a option \<Rightarrow> (string \<times> json) list" where
  "put_opt k f x = (case x of None \<Rightarrow> [] | Some y \<Rightarrow> [(k, f y)])"

definition rule_to_json :: "ColumnRule \<Rightarrow> json" where
  "rule_to_json r = dict ([(''name'', JStr (cr_name r)), (''type'', JStr (column_type_value (cr_type r))),
     (''nullable'', JBool (cr_nullable r)), (''unique'', JBool (cr_unique r))]
     @ put_opt ''max_null_ratio'' JNum (cr_max_null_ratio r))"

definition selector_to_json :: "SourceSelector \<Rightarrow> json" where
  "selector_to_json x = dict (put_opt ''table_name'' JStr (ss_table_name x)
     @ put_opt ''sheet_name'' JStr (ss_sheet_name x))"

fun format_literal :: "FileType \<Rightarrow> string" where
  "format_literal CSV = ''csv''" | "format_literal XLSX = ''xlsx''"
| "format_literal SQLITE = ''sqlite''" | "format_literal t = []"

definition schema_to_json :: "SubmissionSchema \<Rightarrow> json" where
  "schema_to_json s = dict
     (put_opt ''allowed_formats'' (\<lambda>fs. JList (map (\<lambda>f. JStr (format_literal f)) fs))
       (if sc_allowed_formats s = [CSV, XLSX, SQLITE, DOCX, PDF] then None else Some (sc_allowed_formats s))
     @ put_opt ''source_selector'' selector_to_json (sc_source_selector s)
     @ put_opt ''min_rows'' JInt (sc_min_rows s) @ put_opt ''max_rows'' JInt (sc_max_rows s)
     @ [(''required_columns'', JList (map rule_to_json (sc_required_columns s))),
        (''optional_columns'', JList (map rule_to_json (sc_optional_columns s))),
        (''allow_extra_columns'', JBool (sc_allow_extra_columns s))])"

lemma unknown_keys_dict: "fst ` set kvs \<subseteq> set known \<Longrightarrow>
    unknown_keys known (map (\<lambda>(k, v). (KStr k, v)) kvs) = []"
  by (induction kvs) (auto simp: unknown_keys_def)

lemma dict_JObj: "dict kvs = JObj (map (\<lambda>(k, v). (KStr k, v)) kvs)"
  by (simp add: dict_def)

lemma map_of_put_opt [simp]: "map_of (put_opt k f x @ kvs) j =
    (if j = k then (case x of None \<Rightarrow> map_of kvs j | Some y \<Rightarrow> Some (f y)) else map_of kvs j)"
  by (simp add: put_opt_def split: option.split)

lemma map_of_put_opt_last [simp]: "map_of (put_opt k f x) j =
    (if j = k then map_option f x else None)"
  by (simp add: put_opt_def split: option.split)

lemma fst_put_opt: "(a, b) \<in> set (put_opt k f x) \<Longrightarrow> a = k"
  by (auto simp: put_opt_def split: option.splits)

lemma column_types [simp]: "map_of COLUMN_TYPES (column_type_value t) = Some t"
  by (cases t) (simp_all add: COLUMN_TYPES_def)

lemma parse_rule_to_json:
  assumes "rule_ok (key = ''required_columns'') r"
  shows "parse_column (rule_to_json r) key i = Inr r"
proof -
  let ?kvs = "[(''name'', JStr (cr_name r)), (''type'', JStr (column_type_value (cr_type r))),
     (''nullable'', JBool (cr_nullable r)), (''unique'', JBool (cr_unique r))]
     @ put_opt ''max_null_ratio'' JNum (cr_max_null_ratio r)"
  have known: "unknown_keys COLUMN_RULE_KEYS (map (\<lambda>(k, v). (KStr k, v)) ?kvs) = []"
    by (rule unknown_keys_dict) (auto simp: COLUMN_RULE_KEYS_def dest: fst_put_opt)
  have ratio: "column_max_null_ratio (dict ?kvs) p = Inr (cr_max_null_ratio r)" for p
    using assms
    by (cases "cr_max_null_ratio r") (simp_all add: column_max_null_ratio_def json_get_dict rule_ok_def)
  have flags: "parse_bool (dict ?kvs) ''nullable'' p = Inr (cr_nullable r)"
    "parse_bool (dict ?kvs) ''unique'' p = Inr (cr_unique r)"
    "json_get ''name'' (dict ?kvs) = Some (JStr (cr_name r))"
    "json_get ''type'' (dict ?kvs) = Some (JStr (column_type_value (cr_type r)))" for p
    by (simp_all add: parse_bool_def json_get_dict)
  show ?thesis
    unfolding parse_column_def rule_to_json_def Let_def
    using assms flags ratio
    by (simp add: dict_JObj [of ?kvs] json.case known del: append_Cons append_Nil map_append list.map)
      (simp add: rule_ok_def)
qed

declare map_of_append [simp del]

lemma parse_rules_to_json: "\<forall>r\<in>set rs. rule_ok (key = ''required_columns'') r
    \<Longrightarrow> parse_columns key i (map rule_to_json rs) = Inr rs"
  by (induction rs arbitrary: i) (simp_all add: parse_rule_to_json)

lemma parse_formats_literals: "set fs \<subseteq> {CSV, XLSX, SQLITE} \<Longrightarrow>
    read_all (\<lambda>x. Option.bind (json_str x) (map_of FORMAT_LITERALS)) (map (\<lambda>f. JStr (format_literal f)) fs)
    = Some fs"
  by (induction fs) (auto simp: FORMAT_LITERALS_def)

lemma parse_selector_to_json:
  assumes "selector_ok x" "json_get ''source_selector'' raw = Some (selector_to_json x)"
  shows "parse_source_selector raw = Inr (Some x)"
proof -
  let ?kvs = "put_opt ''table_name'' JStr (ss_table_name x) @ put_opt ''sheet_name'' JStr (ss_sheet_name x)"
  have known: "unknown_keys SELECTOR_KEYS (map (\<lambda>(k, v). (KStr k, v)) ?kvs) = []"
    by (rule unknown_keys_dict) (auto simp: SELECTOR_KEYS_def dest: fst_put_opt)
  have names: "selector_name (dict ?kvs) ''table_name'' = Inr (ss_table_name x)"
    "selector_name (dict ?kvs) ''sheet_name'' = Inr (ss_sheet_name x)"
    using assms(1) by (auto simp: selector_name_def json_get_dict selector_ok_def split: option.split)
  show ?thesis
    unfolding parse_source_selector_def assms(2) option.case selector_to_json_def Let_def
    using assms(1) names
    by (auto simp: dict_JObj [of ?kvs] json.case known selector_ok_def simp del: map_append)
qed

lemma parse_schema_to_json:
  assumes ok: "schema_ok s"
  shows "SubmissionSchema_parse (schema_to_json s) = Inr s"
proof -
  let ?kvs = "put_opt ''allowed_formats'' (\<lambda>fs. JList (map (\<lambda>f. JStr (format_literal f)) fs))
       (if sc_allowed_formats s = [CSV, XLSX, SQLITE, DOCX, PDF] then None else Some (sc_allowed_formats s))
     @ put_opt ''source_selector'' selector_to_json (sc_source_selector s)
     @ put_opt ''min_rows'' JInt (sc_min_rows s) @ put_opt ''max_rows'' JInt (sc_max_rows s)
     @ [(''required_columns'', JList (map rule_to_json (sc_required_columns s))),
        (''optional_columns'', JList (map rule_to_json (sc_optional_columns s))),
        (''allow_extra_columns'', JBool (sc_allow_extra_columns s))]"
  let ?raw = "dict ?kvs"
  have known: "unknown_keys TOP_LEVEL_KEYS (map (\<lambda>(k, v). (KStr k, v)) ?kvs) = []"
    by (rule unknown_keys_dict) (auto simp: TOP_LEVEL_KEYS_def dest: fst_put_opt)
  have formats: "parse_allowed_formats ?raw = Inr (sc_allowed_formats s)"
  proof (cases "sc_allowed_formats s = [CSV, XLSX, SQLITE, DOCX, PDF]")
    case False
    with ok have "set (sc_allowed_formats s) \<subseteq> {CSV, XLSX, SQLITE}" "sc_allowed_formats s \<noteq> []"
        "distinct (sc_allowed_formats s)" by (auto simp: schema_ok_def formats_ok_def)
    with False show ?thesis
      by (simp add: parse_allowed_formats_def json_get_dict parse_formats_literals)
  qed (simp add: parse_allowed_formats_def json_get_dict)
  have selector: "parse_source_selector ?raw = Inr (sc_source_selector s)"
  proof (cases "sc_source_selector s")
    case (Some x)
    with ok show ?thesis
      by (simp add: parse_selector_to_json schema_ok_def json_get_dict)
  qed (simp add: parse_source_selector_def json_get_dict)
  have bounds: "parse_row_bound ?raw ''min_rows'' = Inr (sc_min_rows s)"
    "parse_row_bound ?raw ''max_rows'' = Inr (sc_max_rows s)"
    using ok by (auto simp: parse_row_bound_def json_get_dict schema_ok_def bound_ok_def split: option.split)
  have order: "\<not> (case (sc_min_rows s, sc_max_rows s) of (Some a, Some b) \<Rightarrow> b < a | _ \<Rightarrow> False)"
    using ok by (auto simp: schema_ok_def split: option.splits)
  have extra: "parse_bool ?raw ''allow_extra_columns'' p = Inr (sc_allow_extra_columns s)" for p
    by (simp add: parse_bool_def json_get_dict)
  have columns: "parse_column_list ?raw ''required_columns'' = Inr (sc_required_columns s)"
    "parse_column_list ?raw ''optional_columns'' = Inr (sc_optional_columns s)"
    using ok by (simp_all add: parse_column_list_def json_get_dict parse_rules_to_json schema_ok_def)
  have dup: "reject_duplicate_columns (sc_required_columns s) (sc_optional_columns s) = Inr ()"
    using ok by (simp add: reject_duplicates_Inr schema_ok_def)
  have parts: "SubmissionSchema_parse ?raw = Inr \<lparr>sc_allowed_formats = sc_allowed_formats s,
      sc_source_selector = sc_source_selector s, sc_min_rows = sc_min_rows s, sc_max_rows = sc_max_rows s,
      sc_required_columns = sc_required_columns s, sc_optional_columns = sc_optional_columns s,
      sc_allow_extra_columns = sc_allow_extra_columns s,
      sc_columns = map (\<lambda>r. (cr_name r, r)) (sc_required_columns s @ sc_optional_columns s)\<rparr>"
    unfolding SubmissionSchema_parse_def
    unfolding formats selector bounds extra columns dup sum.case if_not_P [OF order]
    unfolding dict_JObj [of ?kvs] json.case known Let_def by simp
  have "sc_columns s = map (\<lambda>r. (cr_name r, r)) (sc_required_columns s @ sc_optional_columns s)"
    using ok by (simp add: schema_ok_def)
  then show ?thesis using parts unfolding schema_to_json_def by (cases s) simp
qed



end
