(* ===== verification/Validation.thy ===== *)
theory Validation
  imports Upload_Facts Schema
begin

text \<open>
  Asynchronous validation of a submission: the service's two transactions around the parse
  (\<open>submissions/validation_service.py\<close>), the sandbox that runs the parser
  (\<open>submissions/validation_runner.py\<close>), the worker that chains the reward lock
  (\<open>workers/jobs/validate_submission.py\<close>) and the recovery scan
  (\<open>workers/jobs/requeue_stale_validating.py\<close>).  The parser child process is an argument: how it
  exited and the JSON it printed; so are the download, the run ids and the instants.
\<close>

section \<open>Float arithmetic\<close>

text \<open>
  Binary64: the quotient of two integers is the nearest value with a 53-bit significand, ties to
  even.  Durations and ratios stay far from the ends of the exponent range.
\<close>

fun bit_length :: "nat \<Rightarrow> nat" where
  "bit_length n = (if n = 0 then 0 else Suc (bit_length (n div 2)))"

declare bit_length.simps [simp del]

definition div_half_even :: "nat \<Rightarrow> nat \<Rightarrow> nat" where
  "div_half_even p q = (let d = p div q; r = p mod q in
     if 2 * r < q then d else if q < 2 * r then d + 1 else if even d then d else d + 1)"

definition scaled :: "nat \<Rightarrow> nat \<Rightarrow> int \<Rightarrow> nat \<times> nat" where
  "scaled p q e = (if 0 \<le> e then (p, q * 2 ^ nat e) else (p * 2 ^ nat (- e), q))"

definition float_quotient :: "int \<Rightarrow> int \<Rightarrow> pyfloat" where
  "float_quotient a b =
     (let p = nat \<bar>a\<bar>; q = nat \<bar>b\<bar>;
          e0 = int (bit_length p) - int (bit_length q) - 53;
          e = (case scaled p q e0 of (p', q') \<Rightarrow> if q' * 2 ^ 53 \<le> p' then e0 + 1 else e0)
      in if a = 0 then Float 0 0
         else case scaled p q e of (p', q') \<Rightarrow> Float (sgn a * sgn b * int (div_half_even p' q')) e)"

fun float_times_int :: "pyfloat \<Rightarrow> int \<Rightarrow> pyfloat" where
  "float_times_int (Float m e) n =
     (if 0 \<le> e then float_quotient (m * n * 2 ^ nat e) 1 else float_quotient (m * n) (2 ^ nat (- e)))"

text \<open>\<open>int(x)\<close>: truncation towards zero.\<close>

fun int_of_float :: "pyfloat \<Rightarrow> int" where
  "int_of_float (Float m e) = (if 0 \<le> e then m * 2 ^ nat e
     else sgn m * (\<bar>m\<bar> div 2 ^ nat (- e)))"

definition duration_ms :: "instant \<Rightarrow> instant \<Rightarrow> int" where
  "duration_ms started finished =
     int_of_float (float_times_int (float_quotient (finished - started) 1000000) 1000)"

section \<open>Constants and errors\<close>

definition DETECTION_PARSER_VERSION :: string where "DETECTION_PARSER_VERSION = ''detect-1''"

definition RUN_STARTED_PARSER_VERSION :: string where "RUN_STARTED_PARSER_VERSION = ''pending''"

definition SANDBOX_PARSER_VERSION :: string where "SANDBOX_PARSER_VERSION = ''sandbox-1''"

definition CLAIM_ACTIONABLE_STATUSES :: "ClaimStatus list" where
  "CLAIM_ACTIONABLE_STATUSES = [CLAIMED, ClaimStatus.REVISION_REQUIRED]"

definition TERMINAL_STATUSES :: "ValidationStatus list" where
  "TERMINAL_STATUSES = [VALIDATED, VALIDATION_FAILED]"

definition DOCUMENT_FILE_TYPES :: "FileType list" where "DOCUMENT_FILE_TYPES = [DOCX, PDF]"

definition STRUCTURED_FILE_TYPES :: "FileType list" where
  "STRUCTURED_FILE_TYPES = [CSV, XLSX, SQLITE]"

datatype transient_failure = OSError | Provider provider_failure

datatype validation_error =
    LockFailure lock_error
  | TerminalWithoutReport uuid
  | UnreadableReport
  | StorageFailure transient_failure
  | AssertionError

section \<open>The sandbox\<close>

record SandboxedValidation =
  sx_detected_type :: "FileType option"
  sx_report :: "ValidationReport option"
  sx_failure_code :: "ValidationCode option"

text \<open>How the child ended: killed at the wall timeout, or its exit code and what it printed.\<close>

datatype child_exit = TimeoutExpired | Completed int "json option"

record sandbox_limits =
  sl_wall_timeout_text :: string
  sl_wall_timeout_ms :: pyfloat

definition failure_report ::
  "texts \<Rightarrow> ValidationCode \<Rightarrow> string \<Rightarrow> FileType \<Rightarrow> pyfloat \<Rightarrow> ValidationReport" where
  "failure_report tx code msg declared duration =
     build_report tx (no_aggregates (Some 0)) duration
       (add_error tx code msg None None None
         (ValidationReportBuilder SANDBOX_PARSER_VERSION declared None))"

definition sandbox_crashed :: "texts \<Rightarrow> FileType \<Rightarrow> SandboxedValidation" where
  "sandbox_crashed tx declared = \<lparr>sx_detected_type = None,
     sx_report = Some (failure_report tx VALIDATION_WORKER_CRASHED
       (tx_template tx ''worker crashed'' []) declared (Float 0 0)),
     sx_failure_code = Some VALIDATION_WORKER_CRASHED\<rparr>"

definition read_answer :: "json \<Rightarrow> (FileType option \<times> ValidationReport option) option" where
  "read_answer answer = do {
     raw \<leftarrow> json_get ''detected_type'' answer;
     detected \<leftarrow> json_opt (\<lambda>v. Option.bind (json_str v) FileType_of) raw;
     body \<leftarrow> json_get ''report'' answer;
     report \<leftarrow> json_opt report_from_json body;
     Some (detected, report) }"

definition sandbox_run ::
  "texts \<Rightarrow> sandbox_limits \<Rightarrow> FileType \<Rightarrow> child_exit \<Rightarrow> SandboxedValidation" where
  "sandbox_run tx limits declared child =
     (case child of
        TimeoutExpired \<Rightarrow> \<lparr>sx_detected_type = None,
          sx_report = Some (failure_report tx VALIDATION_TIMED_OUT
            (tx_template tx ''timed out'' [sl_wall_timeout_text limits]) declared
            (sl_wall_timeout_ms limits)),
          sx_failure_code = Some VALIDATION_TIMED_OUT\<rparr>
      | Completed code stdout \<Rightarrow>
          if code \<noteq> 0 then sandbox_crashed tx declared
          else (case Option.bind stdout read_answer of
              None \<Rightarrow> sandbox_crashed tx declared
            | Some (detected, report) \<Rightarrow>
                if report = None \<and> detected \<noteq> None then sandbox_crashed tx declared
                else \<lparr>sx_detected_type = detected, sx_report = report, sx_failure_code = None\<rparr>))"

section \<open>Assembling the verdict\<close>

fun LENIENT_NEXT_STEPS :: "ValidationCode \<Rightarrow> string option" where
  "LENIENT_NEXT_STEPS EMPTY_FILE = Some ''add a header''"
| "LENIENT_NEXT_STEPS NO_DATA_ROWS = Some ''add a data row''"
| "LENIENT_NEXT_STEPS MIN_ROWS_NOT_MET = Some ''add a data row''"
| "LENIENT_NEXT_STEPS MALFORMED_CSV = Some ''check the CSV''"
| "LENIENT_NEXT_STEPS MALFORMED_XLSX = Some ''check the workbook''"
| "LENIENT_NEXT_STEPS MALFORMED_SQLITE = Some ''check the database''"
| "LENIENT_NEXT_STEPS INVALID_ENCODING = Some ''use UTF-8''"
| "LENIENT_NEXT_STEPS BINARY_CONTENT = Some ''not a data table''"
| "LENIENT_NEXT_STEPS c = None"

definition lenient_failure_report :: "texts \<Rightarrow> ValidationReport \<Rightarrow> ValidationReport" where
  "lenient_failure_report tx r = (case vr_errors r of [] \<Rightarrow> r
     | first # rest \<Rightarrow> (case LENIENT_NEXT_STEPS (vf_code first) of None \<Rightarrow> r
         | Some name \<Rightarrow> r\<lparr>vr_errors := first\<lparr>vf_message := tx_template tx name []\<rparr> # rest\<rparr>))"

definition synthetic_report ::
  "texts \<Rightarrow> string \<Rightarrow> FileType \<Rightarrow> ValidationCode \<Rightarrow> string \<Rightarrow> int option \<Rightarrow> ValidationReport" where
  "synthetic_report tx version ft code msg rows =
     build_report tx (no_aggregates rows) (Float 0 0)
       (add_error tx code msg None None None (ValidationReportBuilder version ft None))"

definition assemble_document ::
  "texts \<Rightarrow> SandboxedValidation \<Rightarrow> FileType \<Rightarrow> validation_error + (ValidationReport \<times> FileType option)" where
  "assemble_document tx out declared =
     (if sx_failure_code out \<noteq> None
      then (case sx_report out of None \<Rightarrow> Inl AssertionError | Some r \<Rightarrow> Inr (r, None))
      else if sx_detected_type out \<noteq> Some declared
      then Inr (synthetic_report tx DETECTION_PARSER_VERSION declared FILE_CORRUPT
                  (tx_template tx ''corrupt'' []) None, None)
      else (case sx_report out of None \<Rightarrow> Inl AssertionError | Some r \<Rightarrow> Inr (r, Some declared)))"

definition assemble ::
  "texts \<Rightarrow> SandboxedValidation \<Rightarrow> FileType \<Rightarrow> SubmissionSchema
    \<Rightarrow> validation_error + (ValidationReport \<times> FileType option)" where
  "assemble tx out declared schema =
     (let refused = (\<lambda>name vals. synthetic_report tx DETECTION_PARSER_VERSION declared
            ValidationCode.FILE_TYPE_NOT_ALLOWED (tx_template tx name vals) (Some 0)) in
      if sx_failure_code out \<noteq> None
      then (case sx_report out of None \<Rightarrow> Inl AssertionError | Some r \<Rightarrow> Inr (r, None))
      else (case sx_detected_type out of None \<Rightarrow> Inr (refused ''unrecognised'' [], None) | Some detected \<Rightarrow>
      if detected \<noteq> declared
      then Inr (refused ''mismatch'' [file_type_value detected, file_type_value declared], Some detected)
      else if detected \<notin> set (sc_allowed_formats schema)
      then Inr (refused ''format refused'' [file_type_value detected], Some detected)
      else (case sx_report out of None \<Rightarrow> Inl AssertionError | Some r \<Rightarrow> Inr (r, Some detected))))"

definition lenient_schema :: json where
  "lenient_schema = dict [(''allow_extra_columns'', JBool True), (''min_rows'', JInt 1)]"

text \<open>The schema a task validates with, and whether it is the task's own.\<close>

definition task_schema :: "task \<Rightarrow> json \<times> bool" where
  "task_schema task = (case tk_submission_schema task of
       Some (JObj (kv # kvs)) \<Rightarrow> (JObj (kv # kvs), True) | _ \<Rightarrow> (lenient_schema, False))"

text \<open>
  The parse phase, on no locks: the download of the object and the sandboxed run are an argument,
  from the object key, the schema and the declared type.
\<close>

definition execute_validation ::
  "texts \<Rightarrow> (string \<Rightarrow> json \<Rightarrow> FileType \<Rightarrow> transient_failure + SandboxedValidation) \<Rightarrow> uuid \<Rightarrow> FileType
    \<Rightarrow> 'a campus_db_scheme \<Rightarrow> validation_error + (ValidationReport \<times> FileType option)" where
  "execute_validation tx run submission_id declared s =
     (case row_of sb_id submission_id (submissions s) of None \<Rightarrow> Inl AssertionError | Some sub \<Rightarrow>
      (case row_of cl_id (sb_claim_id sub) (claims s) of
        None \<Rightarrow> Inl (LockFailure (SubmissionNotFound submission_id)) | Some c \<Rightarrow>
      (case row_of tk_id (cl_task_id c) (tasks s) of
        None \<Rightarrow> Inl (LockFailure (SubmissionNotFound submission_id)) | Some task \<Rightarrow>
      (case SubmissionSchema_parse (fst (task_schema task)) of
        Inl (SchemaParseError key) \<Rightarrow>
          Inr (synthetic_report tx DETECTION_PARSER_VERSION declared SCHEMA_INVALID
            (tx_template tx ''schema invalid'' (case key of None \<Rightarrow> [] | Some k \<Rightarrow> [k])) (Some 0), None)
      | Inr schema \<Rightarrow>
      if file_type_value declared \<notin> set (tk_allowed_file_types task)
      then Inr (synthetic_report tx DETECTION_PARSER_VERSION declared
             ValidationCode.FILE_TYPE_NOT_ALLOWED (tx_template tx ''type refused'' []) (Some 0), None)
      else (case run (sb_object_key sub) (fst (task_schema task)) declared of
        Inl e \<Rightarrow> Inl (StorageFailure e) | Inr out \<Rightarrow>
      if declared \<in> set DOCUMENT_FILE_TYPES then assemble_document tx out declared
      else (case assemble tx out declared schema of Inl e \<Rightarrow> Inl e | Inr (report, detected) \<Rightarrow>
        Inr (if \<not> snd (task_schema task) \<and> detected \<noteq> None \<and> \<not> report_passed report
             then lenient_failure_report tx report else report, detected)))))))"

section \<open>The two transactions\<close>

record ValidationRunResult =
  vx_report :: ValidationReport
  vx_status :: ValidationStatus
  vx_detected_type :: "FileType option"
  vx_run_id :: "uuid option"
  vx_already_terminal :: bool

datatype validation_entry = Replayed ValidationRunResult | Started submission

definition start_validation ::
  "instant \<Rightarrow> uuid \<Rightarrow> uuid \<Rightarrow> 'a campus_db_scheme
    \<Rightarrow> validation_error + (validation_entry \<times> 'a campus_db_scheme)" where
  "start_validation started_at run_id submission_id s =
     (case row_of sb_id submission_id (submissions s) of
        None \<Rightarrow> Inl (LockFailure (SubmissionNotFound submission_id)) | Some sub \<Rightarrow>
      if sb_validation_status sub \<in> set TERMINAL_STATUSES
      then (case sb_validation_report sub of
          None \<Rightarrow> Inl (TerminalWithoutReport submission_id)
        | Some body \<Rightarrow> (case report_from_json body of None \<Rightarrow> Inl UnreadableReport | Some report \<Rightarrow>
            Inr (Replayed \<lparr>vx_report = report, vx_status = sb_validation_status sub,
                   vx_detected_type = sb_detected_type sub, vx_run_id = None,
                   vx_already_terminal = True\<rparr>, s)))
      else
        let sub1 = sub\<lparr>sb_validation_status := ValidationStatus.VALIDATING\<rparr>;
            s1 = put_submission sub1 s;
            run = \<lparr>sv_id = run_id, sv_submission_id = sb_id sub, sv_report = None,
                   sv_parser_version = RUN_STARTED_PARSER_VERSION, sv_started_at = started_at,
                   sv_finished_at = None, sv_duration_ms = None,
                   sv_status = ValidationStatus.VALIDATING\<rparr>;
            logged = (\<lambda>s'. Inr (Started sub1,
                        s'\<lparr>submission_validations := submission_validations s' @ [run]\<rparr>))
        in (case row_of cl_id (sb_claim_id sub) (claims s) of
             None \<Rightarrow> logged s1
           | Some c \<Rightarrow>
            (if cl_status c \<in> set CLAIM_ACTIONABLE_STATUSES
             then (case ensure_no_active_cleanup_claim (cl_id c) s1 of
                 Inl e \<Rightarrow> Inl (LockFailure e)
               | Inr _ \<Rightarrow> logged (put_claim (c\<lparr>cl_status := ClaimStatus.VALIDATING\<rparr>) s1))
             else logged s1)))"

definition restore_actionable_claim :: "submission \<Rightarrow> 'a campus_db_scheme \<Rightarrow> 'a campus_db_scheme" where
  "restore_actionable_claim sub s =
     (case row_of cl_id (sb_claim_id sub) (claims s) of None \<Rightarrow> s | Some c \<Rightarrow>
      if cl_latest_submission_id c \<noteq> Some (sb_id sub) then s
      else if cl_status c \<noteq> ClaimStatus.VALIDATING then s
      else put_claim (c\<lparr>cl_status := (if cl_revision_deadline_at c \<noteq> None
             then ClaimStatus.REVISION_REQUIRED else CLAIMED)\<rparr>) s)"

text \<open>The notification also re-arms the deadline reminders, from the task row it is given.\<close>

definition record_validation_failed ::
  "texts \<Rightarrow> submission \<Rightarrow> ValidationReport \<Rightarrow> 'a campus_db_scheme
    \<Rightarrow> validation_error + 'a campus_db_scheme" where
  "record_validation_failed tx sub report s =
     (case row_of cl_id (sb_claim_id sub) (claims s) of None \<Rightarrow> Inr s | Some c \<Rightarrow>
      (case row_of tk_id (cl_task_id c) (tasks s) of None \<Rightarrow> Inl AssertionError | Some task \<Rightarrow>
      let n = py_str_nat (length (vr_errors report));
          summary = (case vr_errors report of
              [] \<Rightarrow> tx_template tx ''error count'' [n]
            | f # fs \<Rightarrow> tx_template tx ''error count'' [n]
                @ tx_template tx ''first error'' [validation_code_value (vf_code f), vf_message f])
      in Inr (record_event True
           \<lparr>nt_key = (''submission'', sb_id sub, ''validation_failed''),
            nt_type = ''SUBMISSION_VALIDATION_FAILED'', nt_user_id = cl_user_id c,
            nt_payload = [(''task_title'', JStr (tk_title task)), (''validation_summary'', JStr summary),
              (''claim_id'', JUuid (cl_id c)), (''deadline_at'', JTime (cl_deadline_at c))]\<rparr> s)))"

definition finish_validation ::
  "texts \<Rightarrow> bool \<Rightarrow> instant \<Rightarrow> instant \<Rightarrow> uuid \<Rightarrow> uuid \<Rightarrow> ValidationReport \<times> FileType option
    \<Rightarrow> 'a campus_db_scheme \<Rightarrow> validation_error + (ValidationRunResult \<times> 'a campus_db_scheme)" where
  "finish_validation tx recorder started_at finished_at run_id submission_id verdict s =
     (let report = fst verdict; detected = snd verdict;
          final = (if report_passed report then VALIDATED else VALIDATION_FAILED) in
      case row_of sb_id submission_id (submissions s) of
        None \<Rightarrow> Inl (LockFailure (SubmissionNotFound submission_id)) | Some sub \<Rightarrow>
      let sub1 = sub\<lparr>sb_validation_status := final,
                  sb_validation_report := Some (report_to_json report),
                  sb_detected_type := (case detected of None \<Rightarrow> sb_detected_type sub | Some t \<Rightarrow> Some t)\<rparr>;
          s1 = put_submission sub1 s;
          s2 = (if final = VALIDATION_FAILED then restore_actionable_claim sub1 s1 else s1)
      in (case (if final = VALIDATION_FAILED \<and> recorder then record_validation_failed tx sub1 report s2
               else Inr s2) of
           Inl e \<Rightarrow> Inl e
         | Inr s3 \<Rightarrow>
      (case row_of sv_id run_id (submission_validations s3) of None \<Rightarrow> Inl AssertionError | Some run \<Rightarrow>
      let run1 = run\<lparr>sv_parser_version := vr_parser_version report, sv_status := final,
                  sv_report := Some (report_to_json report), sv_finished_at := Some finished_at,
                  sv_duration_ms := Some (duration_ms started_at finished_at)\<rparr>
      in Inr (\<lparr>vx_report = report, vx_status = final, vx_detected_type = detected,
               vx_run_id = Some run_id, vx_already_terminal = False\<rparr>,
              s3\<lparr>submission_validations := update_row sv_id run_id (\<lambda>_. run1)
                    (submission_validations s3)\<rparr>))))"

text \<open>
  One uninterrupted run.  A failure of the parse phase leaves the first transaction committed, so
  the outcome stands next to the state.
\<close>

definition validate_submission ::
  "texts \<Rightarrow> bool \<Rightarrow> (string \<Rightarrow> json \<Rightarrow> FileType \<Rightarrow> transient_failure + SandboxedValidation)
    \<Rightarrow> instant \<Rightarrow> instant \<Rightarrow> uuid \<Rightarrow> uuid \<Rightarrow> 'a campus_db_scheme
    \<Rightarrow> (validation_error + ValidationRunResult) \<times> 'a campus_db_scheme" where
  "validate_submission tx recorder run started_at finished_at run_id submission_id s =
     (case start_validation started_at run_id submission_id s of
        Inl e \<Rightarrow> (Inl e, s)
      | Inr (Replayed r, s1) \<Rightarrow> (Inr r, s1)
      | Inr (Started sub, s1) \<Rightarrow>
        (case execute_validation tx run submission_id (sb_declared_type sub) s1 of
           Inl e \<Rightarrow> (Inl e, s1)
         | Inr verdict \<Rightarrow>
           (case finish_validation tx recorder started_at finished_at run_id submission_id verdict s1 of
              Inl e \<Rightarrow> (Inl e, s1) | Inr (r, s2) \<Rightarrow> (Inr r, s2))))"

section \<open>The worker and the recovery scan\<close>

text \<open>The job chains the reward lock after a VALIDATED answer, in a transaction of its own.\<close>

definition run_submission_validation ::
  "texts \<Rightarrow> (string \<Rightarrow> json \<Rightarrow> FileType \<Rightarrow> transient_failure + SandboxedValidation)
    \<Rightarrow> instant \<Rightarrow> instant \<Rightarrow> instant \<Rightarrow> uuid \<Rightarrow> uuid \<Rightarrow> 'a campus_db_scheme
    \<Rightarrow> (validation_error + ValidationRunResult) \<times> 'a campus_db_scheme" where
  "run_submission_validation tx run started_at finished_at locked_at run_id submission_id s =
     (case validate_submission tx True run started_at finished_at run_id submission_id s of
        (Inl e, s1) \<Rightarrow> (Inl e, s1)
      | (Inr r, s1) \<Rightarrow>
        (if vx_status r \<noteq> VALIDATED then (Inr r, s1)
         else case on_validation_passed locked_at submission_id s1 of
             Inl e \<Rightarrow> (Inl (LockFailure e), s1) | Inr (c, s2) \<Rightarrow> (Inr r, s2)))"

definition newest_started :: "uuid \<Rightarrow> 'a campus_db_scheme \<Rightarrow> instant option" where
  "newest_started b s =
     (let ts = map sv_started_at (filter (\<lambda>r. sv_submission_id r = b) (submission_validations s))
      in if ts = [] then None else Some (foldr max (tl ts) (hd ts)))"

definition stale_validating :: "instant \<Rightarrow> int \<Rightarrow> 'a campus_db_scheme \<Rightarrow> submission \<Rightarrow> bool" where
  "stale_validating now stale_after s b \<longleftrightarrow> sb_validation_status b = ValidationStatus.VALIDATING
     \<and> (case newest_started (sb_id b) s of None \<Rightarrow> False | Some t \<Rightarrow> t \<le> now - stale_after)"

definition collect_stale_validating_ids ::
  "instant \<Rightarrow> int \<Rightarrow> nat \<Rightarrow> 'a campus_db_scheme \<Rightarrow> uuid list" where
  "collect_stale_validating_ids now stale_after lim s = take lim (map sb_id
     (sort_key (\<lambda>b. the (newest_started (sb_id b) s))
       (sort_key sb_id (filter (stale_validating now stale_after s) (submissions s)))))"

definition collect_stale_uploaded_ids ::
  "instant \<Rightarrow> int \<Rightarrow> nat \<Rightarrow> 'a campus_db_scheme \<Rightarrow> uuid list" where
  "collect_stale_uploaded_ids now grace lim s = take lim (map sb_id
     (sort_key sb_submitted_at (sort_key sb_id
       (filter (\<lambda>b. sb_validation_status b = UPLOADED \<and> sb_submitted_at b \<le> now - grace)
         (submissions s)))))"

definition requeue_stale_validating ::
  "instant \<Rightarrow> int \<Rightarrow> int \<Rightarrow> string \<Rightarrow> 'a campus_db_scheme \<Rightarrow> 'a campus_db_scheme" where
  "requeue_stale_validating now stale_after grace request_id s =
     s\<lparr>validation_jobs := validation_jobs s @ map (\<lambda>b. (b, request_id))
        (collect_stale_validating_ids now stale_after 500 s
         @ collect_stale_uploaded_ids now grace 500 s)\<rparr>"

end
