(* ===== verification/Validation_Facts.thy ===== *)
theory Validation_Facts
  imports Validation
begin

text \<open>
  Correctness of the validation pipeline: what each of the two transactions writes, that a failed
  run gives the claim back, that a finished run is never done again, and that a run which died
  between the two is found by the recovery scan; then the two interleavings of versions in which a
  claim is stranded.
\<close>

section \<open>The first transaction\<close>

lemma actionable_iff:
  "st \<in> set CLAIM_ACTIONABLE_STATUSES \<longleftrightarrow> st \<in> {CLAIMED, ClaimStatus.REVISION_REQUIRED}"
  by (simp add: CLAIM_ACTIONABLE_STATUSES_def)

lemma terminal_statuses_iff: "st \<in> set TERMINAL_STATUSES \<longleftrightarrow> st \<in> {VALIDATED, VALIDATION_FAILED}"
  by (simp add: TERMINAL_STATUSES_def)

definition pending_run :: "instant \<Rightarrow> uuid \<Rightarrow> uuid \<Rightarrow> submission_validation" where
  "pending_run at rid b = \<lparr>sv_id = rid, sv_submission_id = b, sv_report = None,
     sv_parser_version = RUN_STARTED_PARSER_VERSION, sv_started_at = at, sv_finished_at = None,
     sv_duration_ms = None, sv_status = ValidationStatus.VALIDATING\<rparr>"

definition in_validation :: "submission \<Rightarrow> submission" where
  "in_validation sub = sub\<lparr>sb_validation_status := ValidationStatus.VALIDATING\<rparr>"

definition enter_validation :: "uuid \<Rightarrow> 'a campus_db_scheme \<Rightarrow> 'a campus_db_scheme" where
  "enter_validation cid s = (case row_of cl_id cid (claims s) of None \<Rightarrow> s
     | Some c \<Rightarrow> (if cl_status c \<in> {CLAIMED, ClaimStatus.REVISION_REQUIRED}
         then put_claim (c\<lparr>cl_status := ClaimStatus.VALIDATING\<rparr>) s else s))"

definition started_state :: "instant \<Rightarrow> uuid \<Rightarrow> submission \<Rightarrow> 'a campus_db_scheme \<Rightarrow> 'a campus_db_scheme" where
  "started_state at rid sub s =
     (let s1 = enter_validation (sb_claim_id sub) (put_submission (in_validation sub) s)
      in s1\<lparr>submission_validations := submission_validations s1 @ [pending_run at rid (sb_id sub)]\<rparr>)"

text \<open>The cleanup guard applies only to a run that takes the claim out of the student's hands.\<close>

definition may_start :: "submission \<Rightarrow> 'a campus_db_scheme \<Rightarrow> bool" where
  "may_start sub s \<longleftrightarrow> sb_validation_status sub \<notin> {VALIDATED, VALIDATION_FAILED}
     \<and> (\<forall>c. row_of cl_id (sb_claim_id sub) (claims s) = Some c
          \<and> cl_status c \<in> {CLAIMED, ClaimStatus.REVISION_REQUIRED}
          \<longrightarrow> no_unfinished_cleanup (cl_id c) (put_submission (in_validation sub) s))"

lemma start_cases:
  assumes "start_validation at rid b s = Inr (e, s')"
  obtains (replayed) sub body report where "row_of sb_id b (submissions s) = Some sub"
      "sb_validation_status sub \<in> {VALIDATED, VALIDATION_FAILED}"
      "sb_validation_report sub = Some body" "report_from_json body = Some report" "s' = s"
      "e = Replayed \<lparr>vx_report = report, vx_status = sb_validation_status sub,
         vx_detected_type = sb_detected_type sub, vx_run_id = None, vx_already_terminal = True\<rparr>"
  | (started) sub where "row_of sb_id b (submissions s) = Some sub" "may_start sub s"
      "e = Started (in_validation sub)" "s' = started_state at rid sub s"
proof -
  obtain sub where sub: "row_of sb_id b (submissions s) = Some sub"
    using assms by (auto simp: start_validation_def split: option.splits)
  note run = assms [unfolded start_validation_def sub option.case terminal_statuses_iff]
  show thesis
  proof (cases "sb_validation_status sub \<in> {VALIDATED, VALIDATION_FAILED}")
    case True
    then obtain body report where "sb_validation_report sub = Some body" "report_from_json body = Some report"
      using run by (auto split: option.splits)
    with run True show thesis by (intro replayed [OF sub True]) auto
  next
    case False
    show thesis
    proof (cases "row_of cl_id (sb_claim_id sub) (claims s)")
      case None
      with run False show thesis
        by (intro started [OF sub])
          (simp_all add: may_start_def started_state_def enter_validation_def in_validation_def
            pending_run_def Let_def)
    next
      case (Some c)
      show thesis
      proof (cases "cl_status c \<in> {CLAIMED, ClaimStatus.REVISION_REQUIRED}")
        case act: True
        then obtain u where u: "ensure_no_active_cleanup_claim (cl_id c) (put_submission (in_validation sub) s) = Inr u"
          using run False Some unfolding actionable_iff
          by (cases "ensure_no_active_cleanup_claim (cl_id c) (put_submission (in_validation sub) s)")
            (auto simp: Let_def in_validation_def)
        then have may: "may_start sub s" using False Some by (auto simp: may_start_def ensure_Inr)
        have "e = Started (in_validation sub)" "s' = started_state at rid sub s"
          using run False Some act u [unfolded in_validation_def]
          by (auto simp: started_state_def enter_validation_def in_validation_def pending_run_def
              Let_def actionable_iff)
        then show thesis by (rule started [OF sub may])
      next
        case idle: False
        with run False Some show thesis
          by (intro started [OF sub])
            (auto simp: may_start_def started_state_def enter_validation_def in_validation_def
              pending_run_def Let_def actionable_iff)
      qed
    qed
  qed
qed

lemma start_runs:
  assumes "row_of sb_id b (submissions s) = Some sub" "may_start sub s"
  shows "start_validation at rid b s = Inr (Started (in_validation sub), started_state at rid sub s)"
proof -
  have st: "sb_validation_status sub \<notin> {VALIDATED, VALIDATION_FAILED}"
    using assms(2) by (simp add: may_start_def)
  show ?thesis
  proof (cases "row_of cl_id (sb_claim_id sub) (claims s)")
    case None
    then show ?thesis
      unfolding start_validation_def assms(1) option.case terminal_statuses_iff
      using st by (simp add: started_state_def enter_validation_def in_validation_def pending_run_def Let_def)
  next
    case (Some c)
    show ?thesis
    proof (cases "cl_status c \<in> {CLAIMED, ClaimStatus.REVISION_REQUIRED}")
      case act: True
      then have "ensure_no_active_cleanup_claim (cl_id c) (put_submission (in_validation sub) s) = Inr ()"
        using assms(2) Some by (auto simp: may_start_def ensure_Inr)
      with Some act st show ?thesis
        unfolding start_validation_def assms(1) option.case terminal_statuses_iff actionable_iff
        by (auto simp: started_state_def enter_validation_def in_validation_def pending_run_def Let_def)
    next
      case False
      with Some st show ?thesis
        unfolding start_validation_def assms(1) option.case terminal_statuses_iff actionable_iff
        by (auto simp: started_state_def enter_validation_def in_validation_def pending_run_def Let_def)
    qed
  qed
qed

lemma started_state_frame [simp]:
  "ledger (started_state at rid sub s) = ledger s" "wallets (started_state at rid sub s) = wallets s"
  "audit_logs (started_state at rid sub s) = audit_logs s"
  "reward_items (started_state at rid sub s) = reward_items s"
  "redemptions (started_state at rid sub s) = redemptions s"
  "reservations (started_state at rid sub s) = reservations s"
  "users (started_state at rid sub s) = users s" "tasks (started_state at rid sub s) = tasks s"
  "collaborators (started_state at rid sub s) = collaborators s"
  "assignments (started_state at rid sub s) = assignments s"
  "lock_history (started_state at rid sub s) = lock_history s"
  "upload_intents (started_state at rid sub s) = upload_intents s"
  "validation_jobs (started_state at rid sub s) = validation_jobs s"
  "submissions (started_state at rid sub s) = submissions (put_submission (in_validation sub) s)"
  "claims (started_state at rid sub s) = claims (enter_validation (sb_claim_id sub) s)"
  "submission_validations (started_state at rid sub s)
     = submission_validations s @ [pending_run at rid (sb_id sub)]"
  by (simp_all add: started_state_def enter_validation_def Let_def claims_put_claim
      submissions_put_submission split: option.split)

lemma row_of_enter_validation: "row_of cl_id k (claims (enter_validation cid s)) =
    (case row_of cl_id k (claims s) of None \<Rightarrow> None
     | Some c \<Rightarrow> Some (if k = cid \<and> cl_status c \<in> {CLAIMED, ClaimStatus.REVISION_REQUIRED}
         then c\<lparr>cl_status := ClaimStatus.VALIDATING\<rparr> else c))"
proof (cases "row_of cl_id cid (claims s)")
  case (Some c)
  then have "cl_id c = cid" using row_of_SomeD by fastforce
  with Some show ?thesis
    by (auto simp: enter_validation_def row_of_put_claim split: option.split)
qed (auto simp: enter_validation_def split: option.split)

section \<open>The second transaction\<close>

definition verdict_status :: "ValidationReport \<Rightarrow> ValidationStatus" where
  "verdict_status report = (if report_passed report then VALIDATED else VALIDATION_FAILED)"

definition judged :: "ValidationReport \<Rightarrow> FileType option \<Rightarrow> submission \<Rightarrow> submission" where
  "judged report detected sub = sub\<lparr>sb_validation_status := verdict_status report,
     sb_validation_report := Some (report_to_json report),
     sb_detected_type := (case detected of None \<Rightarrow> sb_detected_type sub | Some t \<Rightarrow> Some t)\<rparr>"

definition finished_run ::
  "ValidationReport \<Rightarrow> instant \<Rightarrow> instant \<Rightarrow> submission_validation \<Rightarrow> submission_validation" where
  "finished_run report t0 t1 run = run\<lparr>sv_parser_version := vr_parser_version report,
     sv_status := verdict_status report, sv_report := Some (report_to_json report),
     sv_finished_at := Some t1, sv_duration_ms := Some (duration_ms t0 t1)\<rparr>"

lemma judged_simps [simp]:
  "sb_id (judged r d sub) = sb_id sub" "sb_claim_id (judged r d sub) = sb_claim_id sub"
  "sb_validation_status (judged r d sub) = verdict_status r"
  "sb_submitted_at (judged r d sub) = sb_submitted_at sub" "sb_version (judged r d sub) = sb_version sub"
  "sb_validation_report (judged r d sub) = Some (report_to_json r)"
  "upload_key (judged r d sub) = upload_key sub"
  by (simp_all add: judged_def upload_key_def)

lemma in_validation_simps [simp]:
  "sb_id (in_validation sub) = sb_id sub" "sb_claim_id (in_validation sub) = sb_claim_id sub"
  "sb_validation_status (in_validation sub) = ValidationStatus.VALIDATING"
  "sb_submitted_at (in_validation sub) = sb_submitted_at sub"
  "sb_version (in_validation sub) = sb_version sub"
  "sb_declared_type (in_validation sub) = sb_declared_type sub"
  "upload_key (in_validation sub) = upload_key sub" "judged r d (in_validation sub) = judged r d sub"
  by (simp_all add: in_validation_def upload_key_def judged_def split: option.split)

lemma verdict_status_terminal: "verdict_status r \<in> {VALIDATED, VALIDATION_FAILED}"
  by (simp add: verdict_status_def)

lemma restore_frame [simp]:
  "ledger (restore_actionable_claim b s) = ledger s" "wallets (restore_actionable_claim b s) = wallets s"
  "audit_logs (restore_actionable_claim b s) = audit_logs s"
  "reward_items (restore_actionable_claim b s) = reward_items s"
  "redemptions (restore_actionable_claim b s) = redemptions s"
  "reservations (restore_actionable_claim b s) = reservations s"
  "users (restore_actionable_claim b s) = users s" "tasks (restore_actionable_claim b s) = tasks s"
  "collaborators (restore_actionable_claim b s) = collaborators s"
  "assignments (restore_actionable_claim b s) = assignments s"
  "lock_history (restore_actionable_claim b s) = lock_history s"
  "submissions (restore_actionable_claim b s) = submissions s"
  "upload_intents (restore_actionable_claim b s) = upload_intents s"
  "submission_validations (restore_actionable_claim b s) = submission_validations s"
  "validation_jobs (restore_actionable_claim b s) = validation_jobs s"
  by (simp_all add: restore_actionable_claim_def split: option.split)

text \<open>The claim a failing run gives back, and to which status.\<close>

definition given_back :: "uuid \<Rightarrow> claim \<Rightarrow> claim" where
  "given_back b c = (if cl_latest_submission_id c = Some b \<and> cl_status c = ClaimStatus.VALIDATING
     then c\<lparr>cl_status := (if cl_revision_deadline_at c \<noteq> None
            then ClaimStatus.REVISION_REQUIRED else CLAIMED)\<rparr> else c)"

lemma row_of_restore: "row_of cl_id k (claims (restore_actionable_claim sub s)) =
    (if k = sb_claim_id sub then map_option (given_back (sb_id sub)) (row_of cl_id k (claims s))
     else row_of cl_id k (claims s))"
proof (cases "row_of cl_id (sb_claim_id sub) (claims s)")
  case (Some c)
  then have "cl_id c = sb_claim_id sub" using row_of_SomeD by fastforce
  with Some show ?thesis
    by (auto simp: restore_actionable_claim_def given_back_def row_of_put_claim)
qed (auto simp: restore_actionable_claim_def)

lemma record_failed_frame:
  assumes "record_validation_failed tx sub report s = Inr s'"
  shows "claims s' = claims s" "assignments s' = assignments s" "submissions s' = submissions s"
    "ledger s' = ledger s" "wallets s' = wallets s" "tasks s' = tasks s" "users s' = users s"
    "lock_history s' = lock_history s" "reservations s' = reservations s"
    "redemptions s' = redemptions s" "reward_items s' = reward_items s" "audit_logs s' = audit_logs s"
    "collaborators s' = collaborators s" "upload_intents s' = upload_intents s"
    "submission_validations s' = submission_validations s" "validation_jobs s' = validation_jobs s"
  using assms by (auto simp: record_validation_failed_def Let_def split: option.splits)

definition settled_claims :: "ValidationReport \<Rightarrow> submission \<Rightarrow> 'a campus_db_scheme \<Rightarrow> claim list" where
  "settled_claims report sub s =
     claims (if report_passed report then s else restore_actionable_claim sub s)"

lemma finish_InrD:
  assumes run: "finish_validation tx rec t0 t1 rid b (report, detected) s = Inr (r, s')"
  obtains sub row where "row_of sb_id b (submissions s) = Some sub"
    and "row_of sv_id rid (submission_validations s) = Some row"
    and "r = \<lparr>vx_report = report, vx_status = verdict_status report, vx_detected_type = detected,
           vx_run_id = Some rid, vx_already_terminal = False\<rparr>"
    and "submissions s' = submissions (put_submission (judged report detected sub) s)"
    and "claims s' = settled_claims report sub s"
    and "submission_validations s' = update_row sv_id rid (\<lambda>_. finished_run report t0 t1 row)
           (submission_validations s)"
    and "ledger s' = ledger s" "wallets s' = wallets s" "assignments s' = assignments s"
    and "users s' = users s" "tasks s' = tasks s" "lock_history s' = lock_history s"
    and "upload_intents s' = upload_intents s" "validation_jobs s' = validation_jobs s"
    and "reservations s' = reservations s" "redemptions s' = redemptions s"
    and "reward_items s' = reward_items s" "audit_logs s' = audit_logs s"
    and "collaborators s' = collaborators s"
proof -
  obtain sub where sub: "row_of sb_id b (submissions s) = Some sub"
    using run by (auto simp: finish_validation_def Let_def split: option.splits)
  define s1 where "s1 = put_submission (judged report detected sub) s"
  define s2 where "s2 = (if report_passed report then s1 else restore_actionable_claim (judged report detected sub) s1)"
  have same: "claims s2 = settled_claims report sub s" "submissions s2 = submissions s1"
    "submission_validations s2 = submission_validations s" "ledger s2 = ledger s" "wallets s2 = wallets s"
    "assignments s2 = assignments s" "users s2 = users s" "tasks s2 = tasks s"
    "lock_history s2 = lock_history s" "upload_intents s2 = upload_intents s"
    "validation_jobs s2 = validation_jobs s" "reservations s2 = reservations s"
    "redemptions s2 = redemptions s" "reward_items s2 = reward_items s" "audit_logs s2 = audit_logs s"
    "collaborators s2 = collaborators s"
    by (simp_all add: s2_def s1_def settled_claims_def restore_actionable_claim_def claims_put_claim
        split: option.split)
  have run1: "(case (if \<not> report_passed report \<and> rec
                then record_validation_failed tx (judged report detected sub) report s2 else Inr s2) of
           Inl e \<Rightarrow> Inl e
         | Inr s3 \<Rightarrow> (case row_of sv_id rid (submission_validations s3) of None \<Rightarrow> Inl AssertionError
           | Some row \<Rightarrow> Inr (\<lparr>vx_report = report, vx_status = verdict_status report,
               vx_detected_type = detected, vx_run_id = Some rid, vx_already_terminal = False\<rparr>,
              s3\<lparr>submission_validations := update_row sv_id rid (\<lambda>_. finished_run report t0 t1 row)
                    (submission_validations s3)\<rparr>))) = Inr (r, s')"
    using run unfolding finish_validation_def fst_conv snd_conv Let_def sub option.case
    by (cases "report_passed report"; cases rec)
      (auto simp: s2_def s1_def judged_def verdict_status_def finished_run_def
        split: sum.splits option.splits)
  obtain s3 where s3: "(if \<not> report_passed report \<and> rec
                then record_validation_failed tx (judged report detected sub) report s2 else Inr s2) = Inr s3"
    using run1 by (auto split: sum.splits)
  obtain row where row: "row_of sv_id rid (submission_validations s3) = Some row"
    using run1 unfolding s3 by (auto split: option.splits)
  have keep: "claims s3 = claims s2" "submissions s3 = submissions s2" "ledger s3 = ledger s2"
    "submission_validations s3 = submission_validations s2" "wallets s3 = wallets s2"
    "assignments s3 = assignments s2" "users s3 = users s2" "tasks s3 = tasks s2"
    "lock_history s3 = lock_history s2" "upload_intents s3 = upload_intents s2"
    "validation_jobs s3 = validation_jobs s2" "reservations s3 = reservations s2"
    "redemptions s3 = redemptions s2" "reward_items s3 = reward_items s2" "audit_logs s3 = audit_logs s2"
    "collaborators s3 = collaborators s2"
    using s3 record_failed_frame [of tx "judged report detected sub" report s2 s3]
    by (auto split: if_splits)
  show thesis
    using run1 row sub unfolding s3
    by (intro that [of sub row]) (auto simp: keep same s1_def)
qed

section \<open>One uninterrupted run\<close>

lemma validate_cases:
  assumes "validate_submission tx rec sandbox t0 t1 rid b s = (out, s')"
  obtains (refused) e where "out = Inl e" "s' = s"
  | (replayed) sub body report where "row_of sb_id b (submissions s) = Some sub"
      "sb_validation_status sub \<in> {VALIDATED, VALIDATION_FAILED}" "sb_validation_report sub = Some body"
      "report_from_json body = Some report" "s' = s"
      "out = Inr \<lparr>vx_report = report, vx_status = sb_validation_status sub,
         vx_detected_type = sb_detected_type sub, vx_run_id = None, vx_already_terminal = True\<rparr>"
  | (interrupted) sub e where "row_of sb_id b (submissions s) = Some sub" "may_start sub s"
      "out = Inl e" "s' = started_state t0 rid sub s"
  | (ran) sub report detected r where "row_of sb_id b (submissions s) = Some sub" "may_start sub s"
      "execute_validation tx sandbox b (sb_declared_type sub) (started_state t0 rid sub s)
         = Inr (report, detected)"
      "finish_validation tx rec t0 t1 rid b (report, detected) (started_state t0 rid sub s) = Inr (r, s')"
      "out = Inr r"
proof (cases "start_validation t0 rid b s")
  case (Inl e)
  with assms show thesis by (intro refused [of e]) (simp_all add: validate_submission_def)
next
  case (Inr x)
  then obtain e s1 where start: "start_validation t0 rid b s = Inr (e, s1)" by (cases x) auto
  then show thesis
  proof (cases rule: start_cases)
    case (replayed sub body report)
    with assms start show thesis
      by (intro that(2) [OF replayed(1-4)]) (auto simp: validate_submission_def)
  next
    case (started sub)
    note run = assms [unfolded validate_submission_def start sum.case prod.case started validation_entry.case]
    show thesis
    proof (cases "execute_validation tx sandbox b (sb_declared_type (in_validation sub)) (started_state t0 rid sub s)")
      case (Inl e)
      with run started show thesis by (intro interrupted [of sub e]) simp_all
    next
      case (Inr v)
      show thesis
      proof (cases "finish_validation tx rec t0 t1 rid b v (started_state t0 rid sub s)")
        case (Inl e)
        with Inr run started show thesis by (intro interrupted [of sub e]) simp_all
      next
        case fin: (Inr y)
        with Inr run started show thesis
          by (cases v; cases y) (intro ran [of sub "fst v" "snd v" "fst y"]; simp)
      qed
    qed
  qed
qed

text \<open>The claim rows after a run that finished: a failure gives the current claim back.\<close>

lemma enter_then_back:
  assumes "window_ok c" "cl_latest_submission_id c = Some b"
    and "cl_status c \<in> {CLAIMED, ClaimStatus.REVISION_REQUIRED}"
  shows "given_back b (c\<lparr>cl_status := ClaimStatus.VALIDATING\<rparr>) = c"
  using assms by (cases c) (auto simp: given_back_def window_ok_def)

lemma row_of_settled: "row_of cl_id k (settled_claims report sub s) =
    (if \<not> report_passed report \<and> k = sb_claim_id sub
     then map_option (given_back (sb_id sub)) (row_of cl_id k (claims s)) else row_of cl_id k (claims s))"
  by (simp add: settled_claims_def row_of_restore)

definition run_effect ::
  "uuid \<Rightarrow> ValidationReport \<Rightarrow> FileType option \<Rightarrow> submission \<Rightarrow> 'a campus_db_scheme \<Rightarrow> 'b campus_db_scheme \<Rightarrow> bool" where
  "run_effect b report detected sub s s' \<longleftrightarrow>
     row_of sb_id b (submissions s') = Some (judged report detected sub)
     \<and> (\<forall>k. k \<noteq> b \<longrightarrow> row_of sb_id k (submissions s') = row_of sb_id k (submissions s))
     \<and> map sb_id (submissions s') = map sb_id (submissions s)
     \<and> (\<forall>k. row_of cl_id k (claims s') = (if k \<noteq> sb_claim_id sub then row_of cl_id k (claims s)
          else map_option (\<lambda>c. let c1 = (if cl_status c \<in> {CLAIMED, ClaimStatus.REVISION_REQUIRED}
                 then c\<lparr>cl_status := ClaimStatus.VALIDATING\<rparr> else c)
               in if report_passed report then c1 else given_back b c1) (row_of cl_id k (claims s))))
     \<and> ledger s' = ledger s \<and> wallets s' = wallets s \<and> assignments s' = assignments s
     \<and> upload_intents s' = upload_intents s \<and> validation_jobs s' = validation_jobs s
     \<and> tasks s' = tasks s \<and> users s' = users s \<and> lock_history s' = lock_history s"

lemma ran_effect:
  assumes sub: "row_of sb_id b (submissions s) = Some sub"
    and fin: "finish_validation tx rec t0 t1 rid b (report, detected) (started_state t0 rid sub s) = Inr (r, s')"
    and fresh: "rid \<notin> sv_id ` set (submission_validations s)"
  shows "run_effect b report detected sub s s'
    \<and> r = \<lparr>vx_report = report, vx_status = verdict_status report, vx_detected_type = detected,
           vx_run_id = Some rid, vx_already_terminal = False\<rparr>
    \<and> submission_validations s' = submission_validations s
        @ [finished_run report t0 t1 (pending_run t0 rid b)]"
proof -
  let ?s = "started_state t0 rid sub s"
  have sid: "sb_id sub = b" using row_of_SomeD [OF sub] by simp
  obtain sub2 row where sub2: "row_of sb_id b (submissions ?s) = Some sub2"
    and row: "row_of sv_id rid (submission_validations ?s) = Some row"
    and out: "r = \<lparr>vx_report = report, vx_status = verdict_status report, vx_detected_type = detected,
           vx_run_id = Some rid, vx_already_terminal = False\<rparr>"
      "submissions s' = submissions (put_submission (judged report detected sub2) ?s)"
      "claims s' = settled_claims report sub2 ?s"
      "submission_validations s' = update_row sv_id rid (\<lambda>_. finished_run report t0 t1 row)
         (submission_validations ?s)"
      "ledger s' = ledger ?s" "wallets s' = wallets ?s" "assignments s' = assignments ?s"
      "users s' = users ?s" "tasks s' = tasks ?s" "lock_history s' = lock_history ?s"
      "upload_intents s' = upload_intents ?s" "validation_jobs s' = validation_jobs ?s"
    by (rule finish_InrD [OF fin])
  have s2: "sub2 = in_validation sub" using sub2 sub sid by (simp add: row_of_put_submission)
  have "row_of sv_id rid (submission_validations s) = None" using fresh by (simp add: row_of_None)
  then have "row = pending_run t0 rid b"
    using row by (simp add: row_of_append pending_run_def sid)
  moreover have "update_row sv_id rid f (submission_validations s) = submission_validations s" for f
    using fresh by (rule update_row_absent)
  moreover have "update_row sv_id rid f (xs @ ys) = update_row sv_id rid f xs @ update_row sv_id rid f ys" for f xs ys
    by (simp add: update_row_def)
  ultimately have runs: "submission_validations s' = submission_validations s
      @ [finished_run report t0 t1 (pending_run t0 rid b)]"
    using out(4) by (simp add: sid update_row_def pending_run_def)
  have subs: "row_of sb_id k (submissions s') = (if k = b then Some (judged report detected sub)
      else row_of sb_id k (submissions s))" for k
    using sub by (simp add: out(2) s2 row_of_put_submission sid)
  have cls: "row_of cl_id k (claims s') = (if k \<noteq> sb_claim_id sub then row_of cl_id k (claims s)
          else map_option (\<lambda>c. let c1 = (if cl_status c \<in> {CLAIMED, ClaimStatus.REVISION_REQUIRED}
                 then c\<lparr>cl_status := ClaimStatus.VALIDATING\<rparr> else c)
               in if report_passed report then c1 else given_back b c1) (row_of cl_id k (claims s)))" for k
    by (cases "row_of cl_id k (claims s)")
      (auto simp: out(3) s2 row_of_settled row_of_enter_validation sid Let_def)
  have ids: "map sb_id (submissions s') = map sb_id (submissions s)"
    by (simp add: out(2) s2 submissions_put_submission keys_update_row)
  show ?thesis
    using runs subs cls ids out(1,5-) by (simp add: run_effect_def)
qed

section \<open>Properties\<close>

text \<open>C8: A worker run that finishes on the current version of a claim that waits for its student
  decides it, and nothing else: a failed report gives every claim row back exactly as it was, so the
  student can upload again at once; a passing one brings the claim into review at that version, under
  the lock it had if one is live and otherwise under a provisional lock of the tier of the submit
  instant.  Either way the stored verdict and the stored report are those of the answer, the run row
  is completed, and no points and no unit of work move.\<close>

theorem worker_run_decides_the_claim:
  assumes run: "run_submission_validation tx sandbox t0 t1 t2 rid b s = (Inr r, s')"
    and first: "\<not> vx_already_terminal r" and fresh: "rid \<notin> sv_id ` set (submission_validations s)"
    and rows: "row_of sb_id b (submissions s) = Some sub" "row_of cl_id (sb_claim_id sub) (claims s) = Some c"
    and open_claim: "cl_status c \<in> {CLAIMED, ClaimStatus.REVISION_REQUIRED}" "window_ok c"
      "cl_latest_submission_id c = Some b"
  shows "(if vr_errors (vx_report r) \<noteq> []
      then vx_status r = VALIDATION_FAILED \<and> lock_history s' = lock_history s
        \<and> (\<forall>k. row_of cl_id k (claims s') = row_of cl_id k (claims s))
      else vx_status r = VALIDATED \<and> (\<exists>c'. row_of cl_id (cl_id c) (claims s') = Some c'
        \<and> cl_status c' = ClaimStatus.UNDER_REVIEW \<and> cl_latest_submission_id c' = Some b
        \<and> (if cl_reward_lock_status c \<in> {PROVISIONAL, CONFIRMED}
           then cl_reward_lock_status c' = cl_reward_lock_status c
             \<and> cl_locked_reward_points c' = cl_locked_reward_points c
           else cl_reward_lock_status c' = PROVISIONAL \<and> cl_locked_reward_points c'
             = Some (cl_base_reward_points_snapshot c
                 * clamped_tier (sb_submitted_at sub) (cl_deadline_at c) (cl_grace_deadline_at c) div 100))))
    \<and> (\<exists>v. row_of sb_id b (submissions s') = Some v \<and> sb_validation_status v = vx_status r
         \<and> sb_validation_report v = Some (report_to_json (vx_report r)))
    \<and> submission_validations s' = submission_validations s
        @ [finished_run (vx_report r) t0 t1 (pending_run t0 rid b)]
    \<and> ledger s' = ledger s \<and> wallets s' = wallets s \<and> assignments s' = assignments s"
proof -
  obtain s1 where val: "validate_submission tx True sandbox t0 t1 rid b s = (Inr r, s1)"
    and chain: "if vx_status r \<noteq> VALIDATED then s' = s1
      else \<exists>c'. on_validation_passed t2 b s1 = Inr (c', s')"
    using run by (auto simp: run_submission_validation_def split: prod.splits sum.splits if_splits)
  obtain sub' report detected where "row_of sb_id b (submissions s) = Some sub'" "may_start sub' s"
    and fin: "finish_validation tx True t0 t1 rid b (report, detected) (started_state t0 rid sub' s) = Inr (r, s1)"
    using val by (cases rule: validate_cases) (use first in auto)
  then have sub': "sub' = sub" using rows by simp
  have eff: "run_effect b report detected sub s s1"
    and r: "r = \<lparr>vx_report = report, vx_status = verdict_status report, vx_detected_type = detected,
           vx_run_id = Some rid, vx_already_terminal = False\<rparr>"
    and runs: "submission_validations s1 = submission_validations s
        @ [finished_run report t0 t1 (pending_run t0 rid b)]"
    using ran_effect [OF rows(1) fin [unfolded sub'] fresh] by blast+
  have cid: "cl_id c = sb_claim_id sub" using row_of_SomeD [OF rows(2)] by simp
  have sub1: "row_of sb_id b (submissions s1) = Some (judged report detected sub)"
    using eff by (simp add: run_effect_def)
  show ?thesis
  proof (cases "report_passed report")
    case False
    then have "row_of cl_id k (claims s1) = row_of cl_id k (claims s)" for k
      using eff rows enter_then_back [OF open_claim(2,3,1)] open_claim(1)
      by (auto simp: run_effect_def Let_def)
    with False eff runs sub1 chain show ?thesis
      by (auto simp: r verdict_status_def run_effect_def report_passed_def)
  next
    case True
    let ?c = "c\<lparr>cl_status := ClaimStatus.VALIDATING\<rparr>" and ?sub = "judged report detected sub"
    have c1: "row_of cl_id (sb_claim_id ?sub) (claims s1) = Some ?c"
      using True eff rows open_claim(1) by (auto simp: run_effect_def Let_def)
    obtain c' where passed: "on_validation_passed t2 b s1 = Inr (c', s')"
      using chain True by (auto simp: r verdict_status_def)
    have act: "active_claim ?c" by (simp add: active_iff)
    then have c': "c' = in_review ?sub ?c s1" and s': "s' = review_state t2 ?sub ?c s1"
      using passed sub1 c1 unfolding passed_Inr by auto
    have row': "row_of cl_id (cl_id c) (claims s') = Some c'"
      using row_of_review_state [OF c1, of "cl_id c" t2 ?sub] by (simp add: s' c' cid)
    have "bump_latest ?c ?sub s1 = Some b"
      using open_claim(3) row_of_SomeD [OF rows(1)] by (simp add: bump_latest_def)
    with True eff runs sub1 row' show ?thesis
      by (cases "cl_reward_lock_status c")
        (auto simp: r verdict_status_def report_passed_def s' c' locked_claim_def Let_def run_effect_def)
  qed
qed

text \<open>A finished validation is never done again: in any later state that still has the verdict, a
  further run of the job answers the stored report and verdict without parsing (whatever the sandbox
  or the store would say) and writes nothing.\<close>

theorem finished_validation_is_never_redone:
  assumes run: "validate_submission tx rec sandbox t0 t1 rid b s = (Inr r, s1)"
    and fresh: "rid \<notin> sv_id ` set (submission_validations s)"
    and later: "row_of sb_id b (submissions s2) = row_of sb_id b (submissions s1)"
  shows "\<exists>r2. validate_submission tx2 rec2 sandbox2 t2 t3 rid2 b s2 = (Inr r2, s2)
    \<and> vx_report r2 = vx_report r \<and> vx_status r2 = vx_status r \<and> vx_already_terminal r2"
proof -
  have "\<exists>v. row_of sb_id b (submissions s1) = Some v \<and> sb_validation_status v = vx_status r
      \<and> vx_status r \<in> {VALIDATED, VALIDATION_FAILED}
      \<and> (\<exists>body. sb_validation_report v = Some body \<and> report_from_json body = Some (vx_report r))"
    using run
  proof (cases rule: validate_cases)
    case (replayed sub body report)
    then show ?thesis by auto
  next
    case (ran sub report detected r')
    with ran_effect [OF ran(1) ran(4) fresh] verdict_status_terminal [of report]
    show ?thesis by (auto simp: run_effect_def)
  qed simp_all
  then show ?thesis
    using later by (auto simp: validate_submission_def start_validation_def terminal_statuses_iff)
qed

text \<open>A worker that dies in the middle of a run loses nothing: the submission stays VALIDATING, from
  the stale threshold on the recovery scan lists it as long as its batch is not full of other stale
  ones, and the requeued job can start again.\<close>

theorem interrupted_run_is_found_again:
  assumes start: "start_validation t0 rid b s = Inr (Started sub, s1)"
    and ids: "distinct (map sb_id (submissions s))"
    and earlier: "\<forall>r\<in>set (submission_validations s). sv_submission_id r = b \<longrightarrow> sv_started_at r \<le> t0"
    and due: "t0 + stale \<le> now" "count_rows (stale_validating now stale s1) (submissions s1) \<le> int lim"
  shows "b \<in> set (collect_stale_validating_ids now stale lim s1)
    \<and> (\<exists>sub2 s2. start_validation t1 rid2 b s1 = Inr (Started sub2, s2))"
proof -
  obtain old where old: "row_of sb_id b (submissions s) = Some old" and s1: "s1 = started_state t0 rid old s"
    using start by (cases rule: start_cases) auto
  have oid: "sb_id old = b" using row_of_SomeD [OF old] by simp
  have row: "row_of sb_id b (submissions s1) = Some (in_validation old)"
    using old by (simp add: s1 row_of_put_submission oid)
  then have mem: "in_validation old \<in> set (submissions s1)" using row_of_SomeD [OF row] by simp
  let ?ts = "map sv_started_at (filter (\<lambda>r. sv_submission_id r = b) (submission_validations s))"
  have ts: "map sv_started_at (filter (\<lambda>r. sv_submission_id r = b) (submission_validations s1)) = ?ts @ [t0]"
    by (simp add: s1 pending_run_def oid)
  have "newest_started b s1 = Some (Max (set (?ts @ [t0])))"
    unfolding newest_started_def ts Let_def foldr_max by simp
  also have "Max (set (?ts @ [t0])) = t0"
    by (rule Max_eqI) (use earlier in auto)
  finally have "stale_validating now stale s1 (in_validation old)"
    using due(1) by (simp add: stale_validating_def oid)
  with mem have "b \<in> sb_id ` {d \<in> set (submissions s1). stale_validating now stale s1 d}"
    using oid by (intro image_eqI [of _ _ "in_validation old"]) simp_all
  moreover have "set (collect_stale_validating_ids now stale lim s1)
      = sb_id ` {d \<in> set (submissions s1). stale_validating now stale s1 d}"
    using due(2) by (auto simp: collect_stale_validating_ids_def count_rows_def)
  moreover have "may_start (in_validation old) s1"
    using row_of_enter_validation [of _ "sb_claim_id old" s]
    by (auto simp: may_start_def s1 split: option.splits if_splits)
  ultimately show ?thesis using start_runs [OF row] by blast
qed

section \<open>Stranded claims\<close>

text \<open>
  A claim out of the student's hands whose current version failed, with no other version left that
  could still fail or pass in its favour.
\<close>

definition stranded :: "uuid \<Rightarrow> 'a campus_db_scheme \<Rightarrow> bool" where
  "stranded cid s \<longleftrightarrow> (\<exists>c b sub. row_of cl_id cid (claims s) = Some c
     \<and> cl_latest_submission_id c = Some b \<and> row_of sb_id b (submissions s) = Some sub
     \<and> sb_validation_status sub = VALIDATION_FAILED
     \<and> (cl_status c = ClaimStatus.VALIDATING \<and> (\<forall>d\<in>set (submissions s). sb_claim_id d = cid
            \<longrightarrow> sb_validation_status d = VALIDATION_FAILED)
        \<or> cl_status c = ClaimStatus.UNDER_REVIEW \<and> (\<forall>d\<in>set (submissions s). sb_claim_id d = cid
            \<longrightarrow> sb_validation_status d \<in> {VALIDATED, VALIDATION_FAILED}
              \<and> (sb_validation_status d = VALIDATED \<longrightarrow> sb_version d \<le> sb_version sub))))"

definition nobody_can_act :: "uuid \<Rightarrow> 'a campus_db_scheme \<Rightarrow> bool" where
  "nobody_can_act cid s \<longleftrightarrow>
     (\<forall>p i now r s2. expire_claim_if_due p i (Aware now) cid s = Inr (r, s2) \<longrightarrow> er_outcome r \<noteq> Expired)
     \<and> (\<forall>tz lim now u. \<not> ok (abandon_claim tz lim now u cid s))
     \<and> (\<forall>cfg presign iid now a f ty n. isl (fst (create_upload_intent cfg presign iid now a cid f ty n s)))
     \<and> (\<forall>a b d. row_of sb_id b (submissions s) = Some d \<and> sb_claim_id d = cid
          \<longrightarrow> \<not> ok (locked_reviewable a b s))"

lemma stranded_dead_end:
  assumes "stranded cid s"
  shows "nobody_can_act cid s"
proof -
  obtain c b sub where c: "row_of cl_id cid (claims s) = Some c" and st: "cl_status c
      \<in> {ClaimStatus.VALIDATING, ClaimStatus.UNDER_REVIEW}" and latest: "cl_latest_submission_id c = Some b"
    and sub: "row_of sb_id b (submissions s) = Some sub" and bad: "sb_validation_status sub = VALIDATION_FAILED"
    using assms by (auto simp: stranded_def)
  have "er_outcome r \<noteq> Expired" if "expire_claim_if_due p i (Aware now) cid s = Inr (r, s2)" for p i now r s2
    using expire_outcome [OF that] c st by (auto simp: expiry_outcome_def due_row_def sets)
  moreover have "\<not> ok (abandon_claim tz lim now u cid s)" for tz lim now u
  proof
    assume "ok (abandon_claim tz lim now u cid s)"
    then obtain c' s2 where "abandon_claim tz lim now u cid s = Inr (c', s2)" by (auto simp: ok_iff)
    then show False unfolding abandon_Inr using c st by auto
  qed
  moreover have "isl (fst (create_upload_intent cfg presign iid now a cid f ty n s))" for cfg presign iid now a f ty n
  proof -
    obtain r s2 where run: "create_upload_intent cfg presign iid now a cid f ty n s = (r, s2)"
      by (cases "create_upload_intent cfg presign iid now a cid f ty n s") auto
    then have "isl r"
      by (cases rule: create_cases) (use c st in \<open>auto simp: may_issue_def\<close>)
    with run show ?thesis by simp
  qed
  moreover have "\<not> ok (locked_reviewable a k s)"
    if "row_of sb_id k (submissions s) = Some d" "sb_claim_id d = cid" for a k d
  proof
    assume "ok (locked_reviewable a k s)"
    then obtain x where "locked_reviewable a k s = Inr x" by (auto simp: ok_iff)
    then show False
      using that c latest sub bad by (cases x) (auto simp: reviewable_Inr decidable_pair_def)
  qed
  ultimately show ?thesis unfolding nobody_can_act_def by blast
qed

text \<open>C20: The pipeline loses a claim when an older version is validated after the current one has failed:
  whatever the verdict, the run leaves the claim VALIDATING or UNDER_REVIEW with a failed version as
  its current one.  The back-edge of a failure and the pointer rule both skip an older version, so
  the student can neither upload nor abandon, no reviewer can decide any version, and expiry leaves
  the claim alone at every later instant.\<close>

theorem late_run_of_an_old_version_strands_the_claim:
  assumes run: "run_submission_validation tx sandbox t0 t1 t2 rid b s = (Inr r, s')"
    and first: "\<not> vx_already_terminal r" and fresh: "rid \<notin> sv_id ` set (submission_validations s)"
    and ids: "distinct (map sb_id (submissions s))"
    and rows: "row_of sb_id b (submissions s) = Some sub" "row_of cl_id (sb_claim_id sub) (claims s) = Some c"
    and open_claim: "cl_status c \<in> {CLAIMED, ClaimStatus.REVISION_REQUIRED}"
    and newer: "cl_latest_submission_id c = Some b2" "row_of sb_id b2 (submissions s) = Some sub2"
      "sb_version sub < sb_version sub2"
    and failed: "\<forall>d\<in>set (submissions s). sb_claim_id d = cl_id c \<and> sb_id d \<noteq> b
        \<longrightarrow> sb_validation_status d = VALIDATION_FAILED" "sb_claim_id sub2 = cl_id c"
  shows "stranded (cl_id c) s' \<and> nobody_can_act (cl_id c) s'"
proof -
  obtain s1 where val: "validate_submission tx True sandbox t0 t1 rid b s = (Inr r, s1)"
    and chain: "if vx_status r \<noteq> VALIDATED then s' = s1
      else \<exists>c'. on_validation_passed t2 b s1 = Inr (c', s')"
    using run by (auto simp: run_submission_validation_def split: prod.splits sum.splits if_splits)
  obtain sub' report detected where "row_of sb_id b (submissions s) = Some sub'" "may_start sub' s"
    and fin: "finish_validation tx True t0 t1 rid b (report, detected) (started_state t0 rid sub' s) = Inr (r, s1)"
    using val by (cases rule: validate_cases) (use first in auto)
  then have sub': "sub' = sub" using rows by simp
  have eff: "run_effect b report detected sub s s1" and r: "vx_status r = verdict_status report"
    using ran_effect [OF rows(1) fin [unfolded sub'] fresh] by simp_all
  have cid: "cl_id c = sb_claim_id sub" using row_of_SomeD [OF rows(2)] by simp
  have b2: "b2 \<noteq> b" using newer rows by auto
  have sub1: "row_of sb_id b (submissions s1) = Some (judged report detected sub)"
    and others: "\<And>k. k \<noteq> b \<Longrightarrow> row_of sb_id k (submissions s1) = row_of sb_id k (submissions s)"
    and ids1: "distinct (map sb_id (submissions s1))"
    using eff ids by (simp_all add: run_effect_def)
  let ?c = "c\<lparr>cl_status := ClaimStatus.VALIDATING\<rparr>" and ?sub = "judged report detected sub"
  have c1: "row_of cl_id (cl_id c) (claims s1) = Some ?c"
    using eff rows(2) open_claim newer(1) b2 by (auto simp: run_effect_def Let_def cid given_back_def)
  have row2: "row_of sb_id b2 (submissions s1) = Some sub2" using others [OF b2] newer(2) by simp
  have bad: "sb_validation_status sub2 = VALIDATION_FAILED"
    using failed row_of_SomeD [OF newer(2)] b2 by auto
  have only: "d = ?sub \<or> sb_validation_status d = VALIDATION_FAILED"
    if d: "d \<in> set (submissions s1)" "sb_claim_id d = cl_id c" for d
  proof (cases "sb_id d = b")
    case True
    with row_of_unique [OF ids1 d(1)] sub1 show ?thesis by simp
  next
    case False
    with row_of_unique [OF ids1 d(1)] others [OF False] row_of_SomeD [of sb_id "sb_id d" "submissions s" d]
    show ?thesis using failed(1) d(2) by auto
  qed
  have "stranded (cl_id c) s'"
  proof (cases "report_passed report")
    case False
    then have "sb_validation_status d = VALIDATION_FAILED"
      if "d \<in> set (submissions s1)" "sb_claim_id d = cl_id c" for d
      using only [OF that] by (auto simp: verdict_status_def)
    with False chain c1 row2 bad newer(1) show ?thesis
      by (auto simp: stranded_def r verdict_status_def)
  next
    case True
    obtain c' where passed: "on_validation_passed t2 b s1 = Inr (c', s')"
      using chain True by (auto simp: r verdict_status_def)
    have c1': "row_of cl_id (sb_claim_id ?sub) (claims s1) = Some ?c" using c1 by (simp add: cid)
    have act: "active_claim ?c" by (simp add: active_iff)
    then have s': "s' = review_state t2 ?sub ?c s1" using passed sub1 c1' unfolding passed_Inr by auto
    have row': "row_of cl_id (cl_id c) (claims s') = Some (in_review ?sub ?c s1)"
      using row_of_review_state [OF c1', of "cl_id c" t2 ?sub] by (simp add: s' cid)
    have latest: "bump_latest ?c ?sub s1 = Some b2"
      using newer(1,3) b2 row2 row_of_SomeD [OF rows(1)] by (auto simp: bump_latest_def)
    have subs: "submissions s' = submissions s1" by (simp add: s')
    have terminal: "sb_validation_status d \<in> {VALIDATED, VALIDATION_FAILED}
        \<and> (sb_validation_status d = VALIDATED \<longrightarrow> sb_version d \<le> sb_version sub2)"
      if "d \<in> set (submissions s1)" "sb_claim_id d = cl_id c" for d
      using only [OF that] newer(3) True by (auto simp: verdict_status_def)
    show ?thesis
      unfolding stranded_def subs
      using row' latest row2 bad terminal
      by (intro exI [of _ "in_review ?sub ?c s1"] exI [of _ b2] exI [of _ sub2]) simp
  qed
  then show ?thesis using stranded_dead_end by blast
qed

text \<open>The same dead end when a slow twin of a run that already passed fails in the end: the second
  transaction writes its verdict over the stored one without looking at it.\<close>

theorem late_twin_overwrites_the_verdict:
  assumes fin: "finish_validation tx rec t0 t1 rid b (report, detected) s = Inr (r, s')"
    and bad: "\<not> report_passed report" and ids: "distinct (map sb_id (submissions s))"
    and rows: "row_of sb_id b (submissions s) = Some sub" "row_of cl_id (sb_claim_id sub) (claims s) = Some c"
    and review: "cl_status c = ClaimStatus.UNDER_REVIEW" "cl_latest_submission_id c = Some b"
    and others: "\<forall>d\<in>set (submissions s). sb_claim_id d = cl_id c
        \<longrightarrow> sb_validation_status d \<in> {VALIDATED, VALIDATION_FAILED} \<and> sb_version d \<le> sb_version sub"
  shows "stranded (cl_id c) s' \<and> nobody_can_act (cl_id c) s'"
proof -
  let ?v = "judged report detected sub"
  obtain subs: "submissions s' = submissions (put_submission ?v s)"
    and cls: "claims s' = settled_claims report sub s"
    by (rule finish_InrD [OF fin]) (use rows in simp)
  have cid: "cl_id c = sb_claim_id sub" and bid: "sb_id sub = b"
    using row_of_SomeD [OF rows(2)] row_of_SomeD [OF rows(1)] by simp_all
  have c': "row_of cl_id (cl_id c) (claims s') = Some c"
    using rows(2) review by (simp add: cls row_of_settled cid given_back_def)
  have v: "row_of sb_id b (submissions s') = Some ?v"
    using rows(1) by (simp add: subs row_of_put_submission bid)
  have "sb_validation_status d \<in> {VALIDATED, VALIDATION_FAILED} \<and> sb_version d \<le> sb_version sub"
    if d: "d \<in> set (submissions s')" "sb_claim_id d = cl_id c" for d
  proof -
    have "d = ?v \<or> d \<in> set (submissions s)"
      using d(1) by (auto simp: subs submissions_put_submission set_update_row)
    then show ?thesis using others d(2) verdict_status_terminal [of report] by auto
  qed
  then have "stranded (cl_id c) s'"
    unfolding stranded_def using c' v review bad
    by (intro exI [of _ c] exI [of _ b] exI [of _ ?v]) (simp add: verdict_status_def)
  then show ?thesis using stranded_dead_end by blast
qed

section \<open>Witnesses\<close>

lemma finish_runs:
  assumes "row_of sb_id b (submissions s) = Some sub" "row_of cl_id (sb_claim_id sub) (claims s) = Some c"
    and "row_of tk_id (cl_task_id c) (tasks s) = Some task"
    and "row_of sv_id rid (submission_validations s) \<noteq> None"
  shows "ok (finish_validation tx rec t0 t1 rid b (report, detected) s)"
proof -
  let ?v = "judged report detected sub"
  let ?s2 = "if report_passed report then put_submission ?v s
     else restore_actionable_claim ?v (put_submission ?v s)"
  have "row_of cl_id (sb_claim_id sub) (claims ?s2)
      = Some (if report_passed report then c else given_back (sb_id sub) c)"
    using assms(2) by (simp add: row_of_restore)
  moreover have "cl_task_id (given_back (sb_id sub) c) = cl_task_id c" by (simp add: given_back_def)
  ultimately have "ok (record_validation_failed tx ?v report ?s2)"
    using assms(3) by (simp add: record_validation_failed_def Let_def)
  then obtain s3 where s3: "record_validation_failed tx ?v report ?s2 = Inr s3" by (auto simp: ok_iff)
  have "submission_validations s3 = submission_validations s"
    using record_failed_frame(15) [OF s3] by (simp split: if_splits)
  with s3 assms(1,4) show ?thesis
    by (auto simp: finish_validation_def Let_def judged_def verdict_status_def split: option.split)
qed

definition demo_sandbox :: "string \<Rightarrow> json \<Rightarrow> FileType \<Rightarrow> transient_failure + SandboxedValidation" where
  "demo_sandbox key schema declared = Inr (sandbox_run demo_texts
     \<lparr>sl_wall_timeout_text = ''60'', sl_wall_timeout_ms = Float 60000 0\<rparr> declared TimeoutExpired)"

definition timed_out :: ValidationReport where
  "timed_out = failure_report demo_texts VALIDATION_TIMED_OUT ''timed out'' CSV (Float 60000 0)"

lemma timed_out_fails: "\<not> report_passed timed_out"
  by (simp add: timed_out_def failure_report_def build_report_def report_passed_def add_error_def
      ValidationReportBuilder_def MAX_ERROR_FINDINGS_def)

lemma lenient_schema_parses: "ok (SubmissionSchema_parse lenient_schema)"
  by code_simp

lemma demo_executes:
  assumes "row_of sb_id b (submissions s) = Some sub" "row_of cl_id (sb_claim_id sub) (claims s) = Some c"
    and "row_of tk_id (cl_task_id c) (tasks s) = Some demo_task"
  shows "execute_validation demo_texts demo_sandbox b CSV s = Inr (timed_out, None)"
proof -
  have schema: "task_schema demo_task = (lenient_schema, False)"
    by (simp add: task_schema_def demo_task_def)
  obtain p where "SubmissionSchema_parse lenient_schema = Inr p"
    using lenient_schema_parses by (auto simp: ok_iff)
  moreover have "file_type_value CSV \<in> set (tk_allowed_file_types demo_task)"
    by (simp add: demo_task_def)
  moreover have "CSV \<notin> set DOCUMENT_FILE_TYPES" by (simp add: DOCUMENT_FILE_TYPES_def)
  ultimately show ?thesis
    using assms schema
    by (simp add: execute_validation_def demo_sandbox_def sandbox_run_def assemble_def Let_def
        timed_out_def demo_texts_def)
qed

lemma validate_fails:
  assumes start: "row_of sb_id b (submissions s) = Some sub" "may_start sub s" "sb_declared_type sub = CSV"
    and rows: "row_of cl_id (sb_claim_id sub) (claims s) = Some c"
      "row_of tk_id (cl_task_id c) (tasks s) = Some demo_task"
    and fresh: "rid \<notin> sv_id ` set (submission_validations s)"
  shows "\<exists>r s'. run_submission_validation demo_texts demo_sandbox t0 t1 t2 rid b s = (Inr r, s')
    \<and> \<not> vx_already_terminal r \<and> vx_report r = timed_out"
proof -
  let ?s = "started_state t0 rid sub s"
  obtain d where d: "row_of cl_id (sb_claim_id sub) (claims ?s) = Some d" "cl_task_id d = cl_task_id c"
    using rows(1) by (auto simp: row_of_enter_validation)
  have sid: "sb_id sub = b" using row_of_SomeD [OF start(1)] by simp
  have sub: "row_of sb_id b (submissions ?s) = Some (in_validation sub)"
    using start(1) by (simp add: row_of_put_submission sid)
  have task: "row_of tk_id (cl_task_id d) (tasks ?s) = Some demo_task" using rows(2) d by simp
  have exec: "execute_validation demo_texts demo_sandbox b CSV ?s = Inr (timed_out, None)"
    by (rule demo_executes [OF sub _ task]) (use d in simp)
  have "row_of sv_id rid (submission_validations ?s) \<noteq> None"
    by (simp add: row_of_append pending_run_def split: option.split)
  then have "ok (finish_validation demo_texts True t0 t1 rid b (timed_out, None) ?s)"
    by (intro finish_runs [OF sub _ task]) (use d in simp_all)
  then obtain r s1 where fin: "finish_validation demo_texts True t0 t1 rid b (timed_out, None) ?s = Inr (r, s1)"
    by (auto simp: ok_iff)
  have r: "r = \<lparr>vx_report = timed_out, vx_status = verdict_status timed_out, vx_detected_type = None,
           vx_run_id = Some rid, vx_already_terminal = False\<rparr>"
    using ran_effect [OF start(1) fin fresh] by blast
  show ?thesis
    using exec fin start(3) timed_out_fails
    by (simp add: run_submission_validation_def validate_submission_def start_runs [OF start(1,2)] r
        verdict_status_def)
qed

lemma uploaded_rows: "row_of sb_id 200 (submissions uploaded_campus) = Some demo_upload"
  "row_of cl_id 100 (claims uploaded_campus) = Some (demo_claim\<lparr>cl_latest_submission_id := Some 200\<rparr>)"
  "row_of tk_id 1 (tasks uploaded_campus) = Some demo_task" "submission_validations uploaded_campus = []"
  "sb_claim_id demo_upload = 100" "sb_declared_type demo_upload = CSV"
  "sb_cleanup_claimed_at demo_upload = None" "sb_cleanup_claim_token demo_upload = None"
  "submissions uploaded_campus = [demo_upload]" "sb_submitted_at demo_upload = minutes 5"
  by (simp_all add: uploaded_campus_def intent_rows row_of_put_claim demo_upload_def intent_campus_def
      claimed_campus_def demo_campus_def initial_campus_def initial_points_def points_db.defs
      new_submission_def demo_intent_def demo_task_def)

lemma demo_may_start: "may_start demo_upload uploaded_campus"
  by (auto simp: may_start_def uploaded_rows no_unfinished_cleanup_def unfinished_cleanup_def
      submissions_put_submission update_row_def in_validation_def demo_upload_def new_submission_def)

lemma uploaded_claim_facts: "cl_task_id (demo_claim\<lparr>cl_latest_submission_id := Some 200\<rparr>) = 1"
  "window_ok (demo_claim\<lparr>cl_latest_submission_id := Some 200\<rparr>)"
  by (simp_all add: window_ok_def demo_claim_def new_claim_def demo_task_def)

lemma demo_worker_run:
  "\<exists>r s'. run_submission_validation demo_texts demo_sandbox (minutes 6) (minutes 7) (minutes 7) 400 200
      uploaded_campus = (Inr r, s') \<and> \<not> vx_already_terminal r \<and> vx_report r = timed_out"
proof (rule validate_fails [OF uploaded_rows(1) demo_may_start uploaded_rows(6)])
  show "row_of cl_id (sb_claim_id demo_upload) (claims uploaded_campus)
      = Some (demo_claim\<lparr>cl_latest_submission_id := Some 200\<rparr>)"
    using uploaded_rows(2,5) by simp
  show "row_of tk_id (cl_task_id (demo_claim\<lparr>cl_latest_submission_id := Some 200\<rparr>)) (tasks uploaded_campus)
      = Some demo_task"
    using uploaded_rows(3) uploaded_claim_facts(1) by simp
qed (simp add: uploaded_rows)

theorem worker_run_decides_the_claim_witness:
  "\<exists>r s'. run_submission_validation demo_texts demo_sandbox (minutes 6) (minutes 7) (minutes 7) 400 200
      uploaded_campus = (Inr r, s') \<and> vx_status r = VALIDATION_FAILED
     \<and> row_of cl_id 100 (claims s') = row_of cl_id 100 (claims uploaded_campus)"
proof -
  obtain r s' where run: "run_submission_validation demo_texts demo_sandbox (minutes 6) (minutes 7) (minutes 7)
      400 200 uploaded_campus = (Inr r, s')" and r: "\<not> vx_already_terminal r" "vx_report r = timed_out"
    using demo_worker_run by blast
  show ?thesis
    using worker_run_decides_the_claim [OF run r(1) _ uploaded_rows(1)] run r(2) timed_out_fails
    by (auto simp: uploaded_rows uploaded_claim_facts report_passed_def)
qed

theorem finished_validation_is_never_redone_witness:
  "\<exists>r s'. validate_submission demo_texts True demo_sandbox (minutes 6) (minutes 7) 400 200 uploaded_campus
      = (Inr r, s')
     \<and> (\<exists>r2. validate_submission demo_texts True (\<lambda>_ _ _. Inl OSError) (hours 9) (hours 9) 401 200 s'
           = (Inr r2, s') \<and> vx_report r2 = timed_out)"
proof -
  obtain r s' where run: "run_submission_validation demo_texts demo_sandbox (minutes 6) (minutes 7) (minutes 7)
      400 200 uploaded_campus = (Inr r, s')" and r: "vx_report r = timed_out"
    using demo_worker_run by blast
  then obtain s1 where val: "validate_submission demo_texts True demo_sandbox (minutes 6) (minutes 7) 400 200
      uploaded_campus = (Inr r, s1)"
    by (auto simp: run_submission_validation_def split: prod.splits sum.splits if_splits)
  with finished_validation_is_never_redone [OF val _ refl] r show ?thesis
    by (fastforce simp: uploaded_rows)
qed

theorem interrupted_run_is_found_again_witness:
  "200 \<in> set (collect_stale_validating_ids (hours 9) (hours 1) 500
     (started_state (minutes 6) 400 demo_upload uploaded_campus))"
  using interrupted_run_is_found_again [OF start_runs [OF uploaded_rows(1) demo_may_start, of "minutes 6" 400],
      of "hours 1" "hours 9" 500]
  by (simp add: uploaded_rows count_rows_def hours_def minutes_def submissions_put_submission update_row_def)

text \<open>Two versions before the first job ran; the current one has already failed.\<close>

definition two_versions :: campus_db where
  "two_versions = uploaded_campus\<lparr>claims := [demo_claim\<lparr>cl_latest_submission_id := Some 201\<rparr>],
     submissions := [demo_upload, demo_upload\<lparr>sb_id := 201, sb_version := 2,
        sb_validation_status := VALIDATION_FAILED\<rparr>]\<rparr>"

theorem late_run_of_an_old_version_strands_the_claim_witness:
  "\<exists>r s'. run_submission_validation demo_texts demo_sandbox (minutes 6) (minutes 7) (minutes 7) 400 200
      two_versions = (Inr r, s') \<and> nobody_can_act 100 s'"
proof -
  let ?c = "demo_claim\<lparr>cl_latest_submission_id := Some 201\<rparr>"
    and ?new = "demo_upload\<lparr>sb_id := 201, sb_version := 2, sb_validation_status := VALIDATION_FAILED\<rparr>"
  have ids: "sb_id demo_upload = 200" "sb_version demo_upload = 1" "cl_task_id ?c = 1"
    by (simp_all add: demo_upload_def new_submission_def demo_claim_def new_claim_def demo_task_def)
  have rows: "row_of sb_id 200 (submissions two_versions) = Some demo_upload"
    "row_of cl_id (sb_claim_id demo_upload) (claims two_versions) = Some ?c"
    "row_of sb_id 201 (submissions two_versions) = Some ?new"
    "submissions two_versions = [demo_upload, ?new]" "submission_validations two_versions = []"
    "row_of tk_id (cl_task_id ?c) (tasks two_versions) = Some demo_task"
    using uploaded_rows(3,4) by (simp_all add: two_versions_def ids uploaded_rows(5))
  have start: "may_start demo_upload two_versions"
    by (auto simp: may_start_def rows no_unfinished_cleanup_def unfinished_cleanup_def
        submissions_put_submission update_row_def in_validation_def demo_upload_def new_submission_def)
  have fresh: "400 \<notin> sv_id ` set (submission_validations two_versions)" by (simp add: rows)
  obtain r s' where run: "run_submission_validation demo_texts demo_sandbox (minutes 6) (minutes 7) (minutes 7)
      400 200 two_versions = (Inr r, s')" and r: "\<not> vx_already_terminal r"
    using validate_fails [OF rows(1) start uploaded_rows(6) rows(2,6) fresh, of "minutes 6" "minutes 7" "minutes 7"]
    by auto
  show ?thesis
    using late_run_of_an_old_version_strands_the_claim [OF run r fresh _ rows(1,2) _ _ rows(3)] run
    by (simp add: rows(4) ids uploaded_rows(5))
qed

end
