(* ===== verification/Campus.thy ===== *)
theory Campus
  imports Decisions Validation_Facts
begin

text \<open>
  The campus as one system: every operation of the claim, upload, validation, review and points
  services as a step on the shared tables, interleaved in any order with any arguments, and the
  invariant that ties the tables together.  Each step is one committed transaction; validation is
  two steps, because its two transactions can be separated by anything.
\<close>

section \<open>Steps\<close>

text \<open>
  The points services run on the points tables alone.  The only one left out is a grant of an
  assignment reward: in this system it happens inside an approval.  Accounts, tasks, collaborators
  and platforms are edited by their own modules at any time, and new units of work are added.
\<close>

inductive campus_step :: "campus_db \<Rightarrow> campus_db \<Rightarrow> bool" where
  step_claim: "claim_random_assignment limit wired cid now rnd locked u t s = Inr (c, s')
    \<Longrightarrow> campus_step s s'"
| step_expire: "expire_claim_if_due pub inspect (Aware now) cid s = Inr (er, s') \<Longrightarrow> campus_step s s'"
| step_abandon: "abandon_claim tz lim now u cid s = Inr (c, s') \<Longrightarrow> campus_step s s'"
| step_intent: "create_upload_intent cfg presign iid now a cid fname ty n s = (ir, s')
    \<Longrightarrow> campus_step s s'"
| step_finalize: "locates probe iid s
    \<Longrightarrow> finalize_locked disp fr sid now a iid rq probe s = (fo, s') \<Longrightarrow> campus_step s s'"
| step_start: "rid \<notin> sv_id ` set (submission_validations s)
    \<Longrightarrow> start_validation at rid b s = Inr (ve, s') \<Longrightarrow> campus_step s s'"
| step_finish: "row_of sv_id rid (submission_validations s) = Some run
    \<Longrightarrow> sv_submission_id run = b \<Longrightarrow> sv_finished_at run = None
    \<Longrightarrow> finish_validation tx notify (sv_started_at run) t1 rid b (report, detected) s = Inr (vr, s')
    \<Longrightarrow> campus_step s s'"
| step_lock: "on_validation_passed now b s = Inr (c, s') \<Longrightarrow> campus_step s s'"
| step_revise: "require_revision env now rid a b note ctx s = Inr (c, s') \<Longrightarrow> campus_step s s'"
| step_invalidate: "invalidate_reward_lock env now rid a b reason ctx s = Inr (c, s') \<Longrightarrow> campus_step s s'"
| step_approve: "approve_submission env str (PointsRewardPortAdapter eid m ov df) honors now rid a b ctx s
      = Inr (ar, s') \<Longrightarrow> campus_step s s'"
| step_requeue: "campus_step s (requeue_stale_validating now stale grace req s)"
| step_points: "points_step (points_db.truncate s) p
    \<Longrightarrow> \<forall>e\<in>set (ledger p). le_type e = ASSIGNMENT_REWARD \<longrightarrow> e \<in> set (ledger s)
    \<Longrightarrow> campus_step s (points_db.extend p (points_db.more s))"
| step_admin: "campus_step s (s\<lparr>users := us, tasks := ts, collaborators := cos, platforms := ps\<rparr>)"
| step_units: "distinct (map as_id (assignments s @ new))
    \<Longrightarrow> campus_step s (s\<lparr>assignments := assignments s @ new\<rparr>)"

definition reachable_campus :: "campus_db \<Rightarrow> bool" where
  "reachable_campus s \<longleftrightarrow> campus_step\<^sup>*\<^sup>* initial_campus s"

section \<open>The invariant of one claim\<close>

text \<open>
  The current version of a claim is its newest one; a completed claim is paid exactly the points of
  its confirmed lock, and no other claim is paid anything.
\<close>

definition latest_ok :: "(uuid \<times> uuid \<times> int \<times> string) list \<Rightarrow> claim \<Rightarrow> bool" where
  "latest_ok ks c \<longleftrightarrow> (case cl_latest_submission_id c of
       None \<Rightarrow> (\<forall>k\<in>set ks. fst (snd k) \<noteq> cl_id c)
     | Some b \<Rightarrow> (\<exists>k\<in>set ks. fst k = b \<and> fst (snd k) = cl_id c
         \<and> (\<forall>j\<in>set ks. fst (snd j) = cl_id c \<longrightarrow> fst (snd (snd j)) \<le> fst (snd (snd k)))))"

definition paid_ok :: "ledger_row list \<Rightarrow> claim \<Rightarrow> bool" where
  "paid_ok t c \<longleftrightarrow> (if cl_status c = ClaimStatus.COMPLETED
     then cl_reward_lock_status c = CONFIRMED \<and> (\<exists>e. claim_reward (cl_id c) t = Some e
       \<and> cl_locked_reward_points c = Some (le_amount e) \<and> le_user_id e = cl_user_id c
       \<and> le_ranking_effective_at e = cl_reward_locked_at c)
     else cl_reward_lock_status c \<noteq> CONFIRMED \<and> claim_reward (cl_id c) t = None)"

definition claim_ok :: "ledger_row list \<Rightarrow> (uuid \<times> uuid \<times> int \<times> string) list \<Rightarrow> claim \<Rightarrow> bool" where
  "claim_ok t ks c \<longleftrightarrow> lock_ok c \<and> window_ok c \<and> latest_ok ks c \<and> paid_ok t c"

definition reward_of :: "uuid \<Rightarrow> ledger_row \<Rightarrow> bool" where
  "reward_of u e \<longleftrightarrow> le_type e = ASSIGNMENT_REWARD \<and> le_user_id e = u"

definition completed_of :: "uuid \<Rightarrow> claim \<Rightarrow> bool" where
  "completed_of u c \<longleftrightarrow> cl_status c = ClaimStatus.COMPLETED \<and> cl_user_id c = u"

definition locked_points :: "claim \<Rightarrow> int" where
  "locked_points c = (case cl_locked_reward_points c of None \<Rightarrow> 0 | Some n \<Rightarrow> n)"

definition upload_keys :: "'a campus_db_scheme \<Rightarrow> (uuid \<times> uuid \<times> int \<times> string) list" where
  "upload_keys s = map upload_key (submissions s)"

definition campus_inv :: "'a campus_db_scheme \<Rightarrow> bool" where
  "campus_inv s \<longleftrightarrow> points_inv s \<and> claims_inv s \<and> uploads_inv s
     \<and> (\<forall>c\<in>set (claims s). claim_ok (ledger s) (upload_keys s) c)
     \<and> (\<forall>k\<in>set (upload_keys s). fst (snd k) \<in> cl_id ` set (claims s))
     \<and> (\<forall>cid. claim_reward cid (ledger s) \<noteq> None \<longrightarrow> cid \<in> cl_id ` set (claims s))
     \<and> (\<forall>u. sum_rows (reward_of u) le_amount (ledger s) = sum_rows (completed_of u) locked_points (claims s))"

lemma campus_invD:
  assumes "campus_inv s"
  shows "points_inv s" "claims_inv s" "uploads_inv s"
    "c \<in> set (claims s) \<Longrightarrow> claim_ok (ledger s) (upload_keys s) c"
    "k \<in> set (upload_keys s) \<Longrightarrow> fst (snd k) \<in> cl_id ` set (claims s)"
    "claim_reward cid (ledger s) \<noteq> None \<Longrightarrow> cid \<in> cl_id ` set (claims s)"
    "sum_rows (reward_of u) le_amount (ledger s) = sum_rows (completed_of u) locked_points (claims s)"
  using assms unfolding campus_inv_def by blast+

lemma claim_ok_row: "campus_inv s \<Longrightarrow> row_of cl_id cid (claims s) = Some c
    \<Longrightarrow> claim_ok (ledger s) (upload_keys s) c"
  using campus_invD(4) row_of_SomeD by fast

lemma latest_ok_cong: "cl_id d = cl_id c \<Longrightarrow> cl_latest_submission_id d = cl_latest_submission_id c
    \<Longrightarrow> latest_ok ks d = latest_ok ks c"
  by (simp add: latest_ok_def split: option.split)

text \<open>The claims of two states with the same ledger, uploads and claims.\<close>

lemma campus_inv_cong:
  assumes "campus_inv s" "points_inv s'" "claims_inv s'" "uploads_inv s'" "claims s' = claims s"
    and "ledger s' = ledger s" "upload_keys s' = upload_keys s"
  shows "campus_inv s'"
  using assms unfolding campus_inv_def by simp

text \<open>One open claim is rewritten, and stays open or ends unpaid.\<close>

lemma rewrite_keeps:
  assumes inv: "campus_inv s" and parts: "points_inv s'" "claims_inv s'" "uploads_inv s'"
    and row: "row_of cl_id (cl_id c) (claims s) = Some c"
    and claims: "claims s' = update_row cl_id (cl_id c) (\<lambda>_. c1) (claims s)"
    and same: "cl_id c1 = cl_id c" "ledger s' = ledger s" "upload_keys s' = upload_keys s"
    and unpaid: "cl_status c \<noteq> ClaimStatus.COMPLETED" "cl_status c1 \<noteq> ClaimStatus.COMPLETED"
    and good: "claim_ok (ledger s) (upload_keys s) c1"
  shows "campus_inv s'"
proof -
  have "claim_ok (ledger s') (upload_keys s') d" if "d \<in> set (claims s')" for d
    using that campus_invD(4) [OF inv] good by (auto simp: claims set_update_row same split: if_splits)
  moreover have ids: "cl_id ` set (claims s') = cl_id ` set (claims s)"
    using keys_update_row [of cl_id "cl_id c" "\<lambda>_. c1" "claims s"] same(1)
    unfolding claims by (metis list.set_map)
  moreover have "sum_rows (completed_of u) locked_points (claims s') = sum_rows (completed_of u) locked_points (claims s)" for u
    using unpaid sum_rows_update_row [OF claims_inv_ids [OF campus_invD(2) [OF inv]] row]
    by (simp add: claims completed_of_def)
  ultimately show ?thesis
    using parts campus_invD(5-7) [OF inv] unfolding campus_inv_def ids same by simp
qed

section \<open>Every step keeps the invariant\<close>

lemma claim_ok_open: "claim_ok t ks d \<longleftrightarrow> lock_ok d \<and> window_ok d \<and> latest_ok ks d
    \<and> cl_reward_lock_status d \<noteq> CONFIRMED \<and> claim_reward (cl_id d) t = None"
  if "cl_status d \<noteq> ClaimStatus.COMPLETED"
  using that by (auto simp: claim_ok_def paid_ok_def)

lemma active_not_completed: "active_claim c \<Longrightarrow> cl_status c \<noteq> ClaimStatus.COMPLETED"
  by (auto simp: active_iff)

lemma claim_ok_moved:
  assumes "claim_ok t ks c" "cl_status c \<noteq> ClaimStatus.COMPLETED" "cl_status d \<noteq> ClaimStatus.COMPLETED"
    and "cl_id d = cl_id c" "cl_latest_submission_id d = cl_latest_submission_id c"
    and "cl_reward_lock_status d = cl_reward_lock_status c" "cl_reward_tier_locked d = cl_reward_tier_locked c"
    and "cl_locked_reward_points d = cl_locked_reward_points c" "cl_reward_locked_at d = cl_reward_locked_at c"
    and "cl_base_reward_points_snapshot d = cl_base_reward_points_snapshot c" "window_ok d"
  shows "claim_ok t ks d"
  using assms lock_ok_cong [of d c] latest_ok_cong [of d c] by (simp add: claim_ok_open)

lemma upload_keys_put:
  assumes "distinct (map sb_id (submissions s))" "row_of sb_id (sb_id b) (submissions s) = Some sub"
    and "upload_key b = upload_key sub"
  shows "upload_keys (put_submission b s) = upload_keys s"
proof -
  have "upload_key (if sb_id r = sb_id b then b else r) = upload_key r" if "r \<in> set (submissions s)" for r
    using row_of_unique [OF assms(1) that] assms(2,3) by auto
  then show ?thesis by (simp add: upload_keys_def submissions_put_submission update_row_def)
qed

lemma upload_keys_cong: "submissions s' = submissions s \<Longrightarrow> upload_keys s' = upload_keys s"
  by (simp add: upload_keys_def)

lemma uploads_inv_upload_keys: "upload_intents s' = upload_intents s \<Longrightarrow> upload_keys s' = upload_keys s
    \<Longrightarrow> uploads_inv s' = uploads_inv s"
  by (rule uploads_inv_cong) (simp_all add: upload_keys_def)

lemma campus_submission_ids: "campus_inv s \<Longrightarrow> distinct (map sb_id (submissions s))"
  by (drule campus_invD(3)) (unfold uploads_inv_def, blast)

lemma claim_keeps_campus:
  assumes run: "claim_random_assignment limit wired cid now rnd locked u t s = Inr (c, s')"
    and inv: "campus_inv s"
  shows "campus_inv s'"
proof -
  obtain task a dl where c: "c = new_claim cid a task u now dl"
    and ins: "insert_claim c (claims s) = Inr (claims s @ [c])" and cs: "claims s' = claims s @ [c]"
    and s': "s' = record_event wired (claim_created c task)
        (put_assignment (a\<lparr>as_availability_status := OCCUPIED\<rparr>) (s\<lparr>claims := claims s @ [c]\<rparr>))"
    by (rule claim_effect [OF run campus_invD(2) [OF inv]]; rule that; assumption)
  have same: "ledger s' = ledger s" "submissions s' = submissions s" "upload_intents s' = upload_intents s"
    "wallets s' = wallets s" "redemptions s' = redemptions s" "reservations s' = reservations s"
    "reward_items s' = reward_items s"
    by (simp_all add: s')
  have fresh: "cl_id c \<notin> cl_id ` set (claims s)"
    using ins by (auto simp: insert_claim_def split: if_splits)
  have st: "cl_status c \<noteq> ClaimStatus.COMPLETED" and cols: "lock_ok c" "window_ok c"
    "cl_latest_submission_id c = None" "cl_reward_lock_status c = NONE"
    by (simp_all add: c new_claim_def lock_ok_def window_ok_def)
  have "claim_reward (cl_id c) (ledger s) = None"
    using campus_invD(6) [OF inv, of "cl_id c"] fresh by auto
  moreover have "latest_ok (upload_keys s) c"
    using campus_invD(5) [OF inv] fresh cols(3) by (fastforce simp: latest_ok_def)
  ultimately have good: "claim_ok (ledger s) (upload_keys s) c" using cols st by (simp add: claim_ok_open)
  have "points_inv s'" using campus_invD(1) [OF inv] points_inv_cong [of s' s] same by simp
  moreover have "uploads_inv s'"
    using campus_invD(3) [OF inv] uploads_inv_upload_keys [of s' s] upload_keys_cong [of s' s] same by simp
  moreover have "sum_rows (completed_of v) locked_points (claims s')
      = sum_rows (completed_of v) locked_points (claims s)" for v
    using st by (simp add: cs sum_rows_append completed_of_def)
  ultimately show ?thesis
    using claim_keeps [OF run campus_invD(2) [OF inv]] good campus_invD(4-7) [OF inv]
    unfolding campus_inv_def upload_keys_cong [OF same(2)] same(1) cs by auto
qed

lemma close_keeps_campus:
  assumes inv: "campus_inv s" and row: "row_of cl_id cid (claims s) = Some c" and act: "active_claim c"
    and d: "d = c\<lparr>cl_status := st, cl_terminal_at := at\<rparr>" "st \<in> {ABANDONED, EXPIRED}"
    and claims: "claims s' = update_row cl_id (cl_id c) (\<lambda>_. d) (claims s)" "claims_inv s'"
    and same: "ledger s' = ledger s" "submissions s' = submissions s" "upload_intents s' = upload_intents s"
      "wallets s' = wallets s" "redemptions s' = redemptions s" "reservations s' = reservations s"
      "reward_items s' = reward_items s"
  shows "campus_inv s'"
proof (rule rewrite_keeps [OF inv _ claims(2) _ _ claims(1)])
  have "cl_id c = cid" using row_of_SomeD [OF row] by simp
  then show "row_of cl_id (cl_id c) (claims s) = Some c" using row by simp
  show "points_inv s'" using campus_invD(1) [OF inv] points_inv_cong [of s' s] same by simp
  show keys: "upload_keys s' = upload_keys s" by (rule upload_keys_cong [OF same(2)])
  show "uploads_inv s'" using campus_invD(3) [OF inv] uploads_inv_upload_keys [OF same(3) keys] by simp
  show "claim_ok (ledger s) (upload_keys s) d"
    by (rule claim_ok_moved [OF claim_ok_row [OF inv row] active_not_completed [OF act]])
      (use d claim_ok_row [OF inv row] in \<open>auto simp: claim_ok_def window_ok_def\<close>)
qed (use d act in \<open>auto simp: active_iff same(1)\<close>)

lemma expire_keeps_campus:
  assumes run: "expire_claim_if_due pub inspect (Aware now) cid s = Inr (r, s')" and inv: "campus_inv s"
  shows "campus_inv s'"
proof (cases "s' = s")
  case False
  then obtain c where c: "row_of cl_id cid (claims s) = Some c" and s': "s' = expiry_state pub now c s"
    and due: "due_row now c"
    using run by (auto simp: expire_eq Let_def expiry_outcome_def split: option.splits if_splits)
  show ?thesis
    by (rule close_keeps_campus [OF inv c due_active [OF due],
        where d = "expired now c" and st = EXPIRED and at = "Some now"])
      (use expire_keeps [OF run campus_invD(2) [OF inv]] in
        \<open>simp_all add: expired_def s' claims_expiry_state claims_put_claim\<close>,
        simp_all add: expiry_state_def Let_def)
qed (use inv in simp)

lemma abandon_keeps_campus:
  assumes run: "abandon_claim tz lim now u cid s = Inr (c', s')" and inv: "campus_inv s"
  shows "campus_inv s'"
proof (cases "s' = s")
  case False
  then obtain c where c: "row_of cl_id cid (claims s) = Some c" and s': "s' = abandon_state now c s"
    and act: "active_claim c"
    using run unfolding abandon_Inr by (auto simp: active_iff)
  show ?thesis
    by (rule close_keeps_campus [OF inv c act,
        where d = "abandoned now c" and st = ABANDONED and at = "Some now"])
      (use abandon_keeps [OF run campus_invD(2) [OF inv]] in
        \<open>simp_all add: abandoned_def s' claims_abandon_state\<close>, simp_all add: abandon_state_def)
qed (use inv in simp)

lemma intent_keeps_campus:
  assumes run: "create_upload_intent cfg presign iid now a cid fname ty n s = (r, s')" and inv: "campus_inv s"
  shows "campus_inv s'"
proof -
  have s': "s' = s \<or> (\<exists>t. s' = s\<lparr>upload_intents := t\<rparr>)"
    using run by (cases rule: create_cases) auto
  then have same: "claims s' = claims s" "ledger s' = ledger s" "upload_keys s' = upload_keys s"
    "points_inv s' = points_inv s" "claims_inv s' = claims_inv s"
    using points_inv_cong [of s' s] claims_inv_cong [of s' s] by (auto simp: upload_keys_def)
  show ?thesis
    by (rule campus_inv_cong [OF inv])
      (use create_keeps [OF run] same campus_invD(1-3) [OF inv] in simp_all)
qed

lemma pointer_moves:
  assumes "claim_ok t ks c" "latest_ok ks' (c\<lparr>cl_latest_submission_id := l\<rparr>)"
  shows "claim_ok t ks' (c\<lparr>cl_latest_submission_id := l\<rparr>)"
  using assms lock_ok_cong [of "c\<lparr>cl_latest_submission_id := l\<rparr>" c]
  by (simp add: claim_ok_def window_ok_def paid_ok_def)

lemma new_version_is_newest:
  assumes inv: "uploads_inv s" and k: "k \<in> set (upload_keys s)" "fst (snd k) = cid"
  shows "fst (snd (snd k)) < next_version cid s"
proof -
  obtain n where n: "versions cid s = map int [1..<Suc n]" using uploads_inv_dense [OF inv] by blast
  have "fst (snd (snd k)) \<in> set (versions cid s)"
    using k by (auto simp: versions_def upload_keys_def upload_key_def)
  then show ?thesis unfolding next_version_dense [OF n] unfolding n by auto
qed

lemma finalize_keeps_campus:
  assumes run: "finalize_locked disp fr sid now a iid rq probe s = (out, s')" and loc: "locates probe iid s"
    and inv: "campus_inv s"
  shows "campus_inv s'"
  using run
proof (cases rule: finalize_cases)
  case refused
  with inv show ?thesis by simp
next
  case (burned i)
  have "points_inv s'" using campus_invD(1) [OF inv] points_inv_cong [of s' s]
    by (simp add: burned(2) burn_intent_def put_intent_def)
  moreover have "claims_inv s'" using campus_invD(2) [OF inv] claims_inv_cong [of s' s]
    by (simp add: burned(2) burn_intent_def put_intent_def)
  ultimately show ?thesis
    using finalize_keeps [OF run campus_invD(3) [OF inv] loc]
    by (intro campus_inv_cong [OF inv]) (simp_all add: burned(2) burn_intent_def put_intent_def upload_keys_def)
next
  case (replay c i fid sub)
  have "points_inv s'" using campus_invD(1) [OF inv] points_inv_cong [of s' s]
    by (simp add: replay(7) handed_def)
  moreover have "claims_inv s'" using campus_invD(2) [OF inv] claims_inv_cong [of s' s]
    by (simp add: replay(7) handed_def)
  ultimately show ?thesis
    using finalize_keeps [OF run campus_invD(3) [OF inv] loc]
    by (intro campus_inv_cong [OF inv]) (simp_all add: replay(7) upload_keys_def)
next
  case (first i c head task keep b)
  let ?c = "c\<lparr>cl_latest_submission_id := Some sid\<rparr>" and ?k = "(sid, cl_id c, next_version (cl_id c) s, ui_object_key i)"
  have row: "row_of cl_id (cl_id c) (claims s) = Some c"
    using first(1) row_of_SomeD [of cl_id _ "claims s" c] by (auto simp: may_finalize_def)
  then have cin: "c \<in> set (claims s)" using row_of_SomeD by fast
  have keys: "upload_keys s' = upload_keys s @ [?k]"
    by (simp add: upload_keys_def first(3,5) upload_key_def)
  have claims: "claims s' = update_row cl_id (cl_id c) (\<lambda>_. ?c) (claims s)"
    by (simp add: first(5) claims_put_claim)
  have same: "ledger s' = ledger s" by (simp add: first(5))
  have pts: "points_inv s'" using campus_invD(1) [OF inv] points_inv_cong [of s' s]
    by (simp add: first(5) handed_def)
  have cls: "claims_inv s'"
    using pointer_keeps [OF campus_invD(2) [OF inv] row, of "Some sid"]
      claims_inv_cong [of s' "put_claim ?c s"] by (simp add: first(5))
  have "latest_ok (upload_keys s @ [?k]) ?c"
    using new_version_is_newest [OF campus_invD(3) [OF inv]] by (fastforce simp: latest_ok_def)
  then have good: "claim_ok (ledger s) (upload_keys s') ?c"
    unfolding keys by (rule pointer_moves [OF claim_ok_row [OF inv row]])
  have other: "claim_ok (ledger s) (upload_keys s') d" if "d \<in> set (claims s)" "cl_id d \<noteq> cl_id c" for d
    using campus_invD(4) [OF inv that(1)] that(2)
    by (auto simp: keys claim_ok_def latest_ok_def split: option.splits)
  have ids: "map cl_id (claims s') = map cl_id (claims s)"
    unfolding claims by (simp add: keys_update_row)
  have "claim_ok (ledger s') (upload_keys s') d" if "d \<in> set (claims s')" for d
    using that good other by (auto simp: claims set_update_row same split: if_splits)
  moreover have "sum_rows (completed_of u) locked_points (claims s')
      = sum_rows (completed_of u) locked_points (claims s)" for u
    using sum_rows_update_row [OF claims_inv_ids [OF campus_invD(2) [OF inv]] row]
    by (simp add: claims completed_of_def locked_points_def)
  moreover have "cl_id ` set (claims s') = cl_id ` set (claims s)"
    using arg_cong [OF ids, of set] by simp
  moreover have "cl_id c \<in> cl_id ` set (claims s)" using cin by simp
  ultimately show ?thesis
    using pts cls finalize_keeps [OF run campus_invD(3) [OF inv] loc] campus_invD(5-7) [OF inv]
    unfolding campus_inv_def same keys by auto
qed

text \<open>An operation that rewrites one open claim and leaves it open, and touches no points.\<close>

definition points_same :: "'a points_db_scheme \<Rightarrow> 'b points_db_scheme \<Rightarrow> bool" where
  "points_same s s' \<longleftrightarrow> ledger s' = ledger s \<and> wallets s' = wallets s \<and> redemptions s' = redemptions s
     \<and> reservations s' = reservations s \<and> reward_items s' = reward_items s"

lemma points_same_inv: "points_same s s' \<Longrightarrow> points_inv s' = points_inv s"
  unfolding points_same_def by (rule points_inv_cong) blast+

lemma idle_keeps:
  assumes "campus_inv s" "points_same s s'" "claims s' = claims s" "assignments s' = assignments s"
    and "upload_intents s' = upload_intents s" "upload_keys s' = upload_keys s"
  shows "campus_inv s'"
  using assms campus_invD(1-3) [OF assms(1)] points_same_inv [OF assms(2)] claims_inv_cong [OF assms(3,4)]
    uploads_inv_upload_keys [OF assms(5,6)]
  by (intro campus_inv_cong [OF assms(1)]) (simp_all add: points_same_def)

lemma open_rewrite_keeps:
  assumes inv: "campus_inv s" and row: "row_of cl_id cid (claims s) = Some c" and act: "active_claim c"
    and d: "same_work c d" "active_claim d" "cl_terminal_at d = cl_terminal_at c" "lock_ok d" "window_ok d"
      "latest_ok (upload_keys s) d" "cl_reward_lock_status d \<noteq> CONFIRMED"
    and claims: "claims s' = claims (put_claim d s)" "assignments s' = assignments s"
    and same: "points_same s s'" "upload_intents s' = upload_intents s" "upload_keys s' = upload_keys s"
  shows "campus_inv s'"
proof (rule rewrite_keeps [OF inv])
  have cid: "cl_id c = cid" "cl_id d = cid" using row_of_SomeD [OF row] d(1) by (simp_all add: same_work_def)
  show "points_inv s'" using campus_invD(1) [OF inv] points_same_inv [OF same(1)] by simp
  have cin: "c \<in> set (claims s)" using row_of_SomeD [OF row] by simp
  have "claims_inv (put_claim d s)"
    by (rule put_claim_keeps [OF campus_invD(2) [OF inv], where c = c])
      (use row d act cid claims_inv_terminal [OF campus_invD(2) [OF inv] cin] in simp_all)
  then show "claims_inv s'" using claims_inv_cong [of s' "put_claim d s"] claims by simp
  show "uploads_inv s'" using campus_invD(3) [OF inv] uploads_inv_upload_keys [OF same(2,3)] by simp
  show "row_of cl_id (cl_id c) (claims s) = Some c" using row cid by simp
  show "claims s' = update_row cl_id (cl_id c) (\<lambda>_. d) (claims s)"
    by (simp add: claims claims_put_claim cid)
  have "claim_reward (cl_id d) (ledger s) = None"
    using claim_ok_row [OF inv row] active_not_completed [OF act] cid by (simp add: claim_ok_open)
  then show "claim_ok (ledger s) (upload_keys s) d"
    using d active_not_completed [OF d(2)] by (simp add: claim_ok_open)
qed (use same d act in \<open>auto simp: points_same_def same_work_def active_iff\<close>)

lemma open_claim_ok:
  assumes "campus_inv s" "row_of cl_id cid (claims s) = Some c" "active_claim c"
  shows "lock_ok c" "window_ok c" "latest_ok (upload_keys s) c" "cl_reward_lock_status c \<noteq> CONFIRMED"
    "claim_reward (cl_id c) (ledger s) = None"
  using claim_ok_row [OF assms(1,2)] active_not_completed [OF assms(3)] by (simp_all add: claim_ok_open)

lemma status_move_ok:
  assumes "campus_inv s" "row_of cl_id cid (claims s) = Some c" "active_claim c" "active_claim (c\<lparr>cl_status := st\<rparr>)"
    and "window_ok (c\<lparr>cl_status := st\<rparr>)" "claims s' = claims (put_claim (c\<lparr>cl_status := st\<rparr>) s)"
    and "assignments s' = assignments s" "points_same s s'" "upload_intents s' = upload_intents s"
    and "upload_keys s' = upload_keys s"
  shows "campus_inv s'"
  by (rule open_rewrite_keeps [OF assms(1-3) _ assms(4) _ _ assms(5) _ _ assms(6-10)])
    (use open_claim_ok [OF assms(1-3)] lock_ok_cong [of "c\<lparr>cl_status := st\<rparr>" c]
        latest_ok_cong [of "c\<lparr>cl_status := st\<rparr>" c] in \<open>simp_all add: same_work_def\<close>)

lemma start_keeps_campus:
  assumes run: "start_validation at rid b s = Inr (e, s')" and inv: "campus_inv s"
  shows "campus_inv s'"
  using run
proof (cases rule: start_cases)
  case (replayed sub body report)
  with inv show ?thesis by simp
next
  case (started sub)
  have sub: "row_of sb_id (sb_id sub) (submissions s) = Some sub"
    using started(1) row_of_SomeD [OF started(1)] by simp
  have keys: "upload_keys s' = upload_keys s"
    using upload_keys_put [OF campus_submission_ids [OF inv], of "in_validation sub" sub] sub
    by (simp add: started(4) upload_keys_def)
  have pts: "points_same s s'" by (simp add: points_same_def started(4))
  show ?thesis
  proof (cases "\<exists>c. row_of cl_id (sb_claim_id sub) (claims s) = Some c
      \<and> cl_status c \<in> {CLAIMED, ClaimStatus.REVISION_REQUIRED}")
    case True
    then obtain c where c: "row_of cl_id (sb_claim_id sub) (claims s) = Some c"
      and st: "cl_status c \<in> {CLAIMED, ClaimStatus.REVISION_REQUIRED}" by blast
    then have act: "active_claim c" by (auto simp: active_iff)
    show ?thesis
      by (rule status_move_ok [OF inv c act, of ClaimStatus.VALIDATING])
        (use c st keys pts open_claim_ok(2) [OF inv c act] in
          \<open>auto simp: started(4) enter_validation_def active_iff window_ok_def\<close>)
  next
    case False
    then have "enter_validation (sb_claim_id sub) s = s"
      by (auto simp: enter_validation_def split: option.split)
    then show ?thesis
      by (intro idle_keeps [OF inv pts _ _ _ keys]) (simp_all add: started(4))
  qed
qed

lemma finish_keeps_campus:
  assumes run: "finish_validation tx notify t0 t1 rid b (report, detected) s = Inr (r, s')" and inv: "campus_inv s"
  shows "campus_inv s'"
proof (rule finish_InrD [OF run])
  fix sub row
  assume sub0: "row_of sb_id b (submissions s) = Some sub"
    and subs: "submissions s' = submissions (put_submission (judged report detected sub) s)"
    and cls: "claims s' = settled_claims report sub s"
    and same: "ledger s' = ledger s" "wallets s' = wallets s" "assignments s' = assignments s"
      "upload_intents s' = upload_intents s" "reservations s' = reservations s"
      "redemptions s' = redemptions s" "reward_items s' = reward_items s"
  have sub: "row_of sb_id (sb_id sub) (submissions s) = Some sub"
    using sub0 row_of_SomeD [OF sub0] by simp
  have keys: "upload_keys s' = upload_keys s"
    using upload_keys_put [OF campus_submission_ids [OF inv], of "judged report detected sub" sub] sub
    by (simp add: upload_keys_def subs)
  have pts: "points_same s s'" using same by (simp add: points_same_def)
  show ?thesis
  proof (cases "\<exists>c. \<not> report_passed report \<and> row_of cl_id (sb_claim_id sub) (claims s) = Some c
      \<and> cl_latest_submission_id c = Some (sb_id sub) \<and> cl_status c = ClaimStatus.VALIDATING")
    case True
    then obtain c where bad: "\<not> report_passed report" and c: "row_of cl_id (sb_claim_id sub) (claims s) = Some c"
      and mine: "cl_latest_submission_id c = Some (sb_id sub)" "cl_status c = ClaimStatus.VALIDATING" by blast
    then have act: "active_claim c" by (auto simp: active_iff)
    let ?st = "if cl_revision_deadline_at c \<noteq> None then ClaimStatus.REVISION_REQUIRED else CLAIMED"
    show ?thesis
      by (rule status_move_ok [OF inv c act, of ?st])
        (use bad c mine keys pts same open_claim_ok(2) [OF inv c act] in
          \<open>auto simp: cls settled_claims_def restore_actionable_claim_def active_iff window_ok_def\<close>)
  next
    case False
    then have "settled_claims report sub s = claims s"
      by (auto simp: settled_claims_def restore_actionable_claim_def split: option.split)
    then show ?thesis
      by (intro idle_keeps [OF inv pts _ same(3,4) keys]) (simp add: cls)
  qed
qed

text \<open>Under the invariant the pointer is already at the newest version, so the lock never moves it.\<close>

lemma bump_is_idle:
  assumes inv: "campus_inv s" and sub: "row_of sb_id b (submissions s) = Some sub"
    and c: "row_of cl_id (sb_claim_id sub) (claims s) = Some c"
  shows "bump_latest c sub s = cl_latest_submission_id c"
proof -
  have latest: "latest_ok (upload_keys s) c" using claim_ok_row [OF inv c] by (simp add: claim_ok_def)
  have mem: "upload_key sub \<in> set (upload_keys s)" "sb_claim_id sub = cl_id c"
    using row_of_SomeD [OF sub] row_of_SomeD [OF c] by (simp_all add: upload_keys_def)
  obtain l k where l: "cl_latest_submission_id c = Some l" and k: "k \<in> set (upload_keys s)" "fst k = l"
    and top: "\<forall>j\<in>set (upload_keys s). fst (snd j) = cl_id c \<longrightarrow> fst (snd (snd j)) \<le> fst (snd (snd k))"
    using latest mem by (cases "cl_latest_submission_id c") (auto simp: latest_ok_def upload_key_def)
  obtain cur where cur: "cur \<in> set (submissions s)" "upload_key cur = k" using k by (auto simp: upload_keys_def)
  have "sb_id cur = l" using cur k by (auto simp: upload_key_def)
  then have "row_of sb_id l (submissions s) = Some cur"
    using row_of_unique [OF campus_submission_ids [OF inv] cur(1)] by simp
  moreover have "sb_version sub \<le> sb_version cur"
    using top mem cur(2) by (fastforce simp: upload_key_def)
  ultimately show ?thesis by (simp add: bump_latest_def l)
qed

lemma lock_keeps_campus:
  assumes run: "on_validation_passed now b s = Inr (c', s')" and inv: "campus_inv s"
  shows "campus_inv s'"
proof -
  obtain sub c where sub: "row_of sb_id b (submissions s) = Some sub"
    and c: "row_of cl_id (sb_claim_id sub) (claims s) = Some c"
    and out: "\<not> active_claim c \<and> s' = s \<or> active_claim c \<and> s' = review_state now sub c s"
    using run unfolding passed_Inr by blast
  show ?thesis
  proof (cases "active_claim c")
    case False
    with out inv show ?thesis by simp
  next
    case act: True
    with out have s': "s' = review_state now sub c s" by simp
    note ok = open_claim_ok [OF inv c act]
    have "window_ok (in_review sub c s)"
      using ok(2) by (simp add: window_ok_def in_review_def locked_claim_def Let_def)
    moreover have "latest_ok (upload_keys s) (in_review sub c s)"
      using ok(3) latest_ok_cong [of "in_review sub c s" c] bump_is_idle [OF inv sub c] by simp
    moreover have "cl_reward_lock_status (in_review sub c s) \<noteq> CONFIRMED"
      using ok(4) by (simp add: locked_claim_def Let_def)
    ultimately show ?thesis
      by (intro open_rewrite_keeps [OF inv c act, of "in_review sub c s"])
        (use lock_ok_in_review [OF ok(1)] in \<open>simp_all add: s' same_work_def active_iff points_same_def
          upload_keys_def\<close>)
  qed
qed

lemma decided_keeps_campus:
  assumes inv: "campus_inv s" and pair: "decidable_pair b sub c s"
    and dec: "decided d (reviewed_submission sub st a now note) s s'"
    and d: "same_work c d" "active_claim d" "cl_terminal_at d = cl_terminal_at c" "lock_ok d" "window_ok d"
      "cl_latest_submission_id d = cl_latest_submission_id c" "cl_reward_lock_status d \<noteq> CONFIRMED"
  shows "campus_inv s'"
proof -
  have rows: "row_of sb_id b (submissions s) = Some sub" "row_of cl_id (sb_claim_id sub) (claims s) = Some c"
    and act: "active_claim c"
    using pair by (simp_all add: decidable_pair_def)
  have "sb_id sub = b" using row_of_SomeD [OF rows(1)] by simp
  then have "upload_keys (put_submission (reviewed_submission sub st a now note) s) = upload_keys s"
    using rows(1)
    by (intro upload_keys_put [OF campus_submission_ids [OF inv], of _ sub])
      (simp_all add: reviewed_submission_def upload_key_def)
  then have "upload_keys s' = upload_keys s" using dec by (simp add: decided_def upload_keys_def)
  then show ?thesis
    using dec d latest_ok_cong [of d c] open_claim_ok(3) [OF inv rows(2) act]
    by (intro open_rewrite_keeps [OF inv rows(2) act, of d])
      (simp_all add: decided_def points_same_def same_work_def)
qed

lemma revise_keeps_campus:
  assumes run: "require_revision env now rid a b note ctx s = Inr (c', s')" and inv: "campus_inv s"
  shows "campus_inv s'"
proof (rule revision_InrD [OF run])
  fix sub c
  assume pair: "decidable_pair b sub c s" and c': "c' = returned now c"
    and dec: "decided c' (reviewed_submission sub ReviewStatus.REVISION_REQUIRED a now (strip_or_none note)) s s'"
  have rows: "row_of cl_id (sb_claim_id sub) (claims s) = Some c" "active_claim c"
    using pair by (simp_all add: decidable_pair_def)
  note ok = open_claim_ok [OF inv rows]
  show ?thesis
    by (rule decided_keeps_campus [OF inv pair dec])
      (use ok lock_ok_cong [of c' c] in \<open>auto simp: c' window_ok_def revision_deadline_def returned_def
        active_iff same_work_def split: option.split\<close>)
qed

lemma invalidate_keeps_campus:
  assumes run: "invalidate_reward_lock env now rid a b reason ctx s = Inr (c', s')" and inv: "campus_inv s"
  shows "campus_inv s'"
proof (rule invalidate_InrD [OF run])
  fix sub c t
  assume pair: "decidable_pair b sub c s" and c': "c' = unlocked now c"
    and dec: "decided c' (reviewed_submission sub ReviewStatus.REVISION_REQUIRED a now (Some t)) s s'"
  have rows: "row_of cl_id (sb_claim_id sub) (claims s) = Some c" "active_claim c"
    using pair by (simp_all add: decidable_pair_def)
  note ok = open_claim_ok [OF inv rows]
  show ?thesis
    by (rule decided_keeps_campus [OF inv pair dec])
      (use ok in \<open>auto simp: c' window_ok_def revision_deadline_def unlocked_def
        active_iff same_work_def lock_ok_def split: option.split\<close>)
qed

lemma requeue_keeps_campus: "campus_inv s \<Longrightarrow> campus_inv (requeue_stale_validating now st gr req s)"
  by (rule idle_keeps) (simp_all add: requeue_stale_validating_def points_same_def upload_keys_def)

lemma admin_keeps_campus:
  "campus_inv s \<Longrightarrow> campus_inv (s\<lparr>users := us, tasks := ts, collaborators := cos, platforms := ps\<rparr>)"
  by (rule idle_keeps) (simp_all add: points_same_def upload_keys_def)

lemma units_keep_campus:
  assumes inv: "campus_inv s" and ids: "distinct (map as_id (assignments s @ new))"
  shows "campus_inv (s\<lparr>assignments := assignments s @ new\<rparr>)" (is "campus_inv ?s")
proof -
  have "held ?s c" if "held s c" for c using that by (auto simp: held_def row_of_append)
  then have "claims_inv ?s"
    using campus_invD(2) [OF inv] ids by (simp add: claims_inv_def)
  moreover have "points_inv ?s" using campus_invD(1) [OF inv] points_inv_cong [of ?s s] by simp
  moreover have "uploads_inv ?s" using campus_invD(3) [OF inv] uploads_inv_upload_keys [of ?s s]
    by (simp add: upload_keys_def)
  ultimately show ?thesis by (intro campus_inv_cong [OF inv]) (simp_all add: upload_keys_def)
qed

lemma extend_campus [simp]:
  "claims (points_db.extend p (points_db.more s)) = claims s"
  "assignments (points_db.extend p (points_db.more s)) = assignments s"
  "submissions (points_db.extend p (points_db.more s)) = submissions s"
  "upload_intents (points_db.extend p (points_db.more s)) = upload_intents s"
  "submission_validations (points_db.extend p (points_db.more s)) = submission_validations s"
  "ledger (points_db.extend p (points_db.more s)) = ledger p"
  "wallets (points_db.extend p (points_db.more s)) = wallets p"
  "redemptions (points_db.extend p (points_db.more s)) = redemptions p"
  "reservations (points_db.extend p (points_db.more s)) = reservations p"
  "reward_items (points_db.extend p (points_db.more s)) = reward_items p"
  for s :: campus_db
  by (cases s; simp add: points_db.defs)+

lemma truncate_points [simp]:
  "ledger (points_db.truncate s) = ledger s" "wallets (points_db.truncate s) = wallets s"
  "redemptions (points_db.truncate s) = redemptions s" "reservations (points_db.truncate s) = reservations s"
  "reward_items (points_db.truncate s) = reward_items s"
  by (simp_all add: points_db.defs)

lemma points_keep_campus:
  fixes s :: campus_db
  assumes step: "points_step (points_db.truncate s) p" and inv: "campus_inv s"
    and no_grant: "\<forall>e\<in>set (ledger p). le_type e = ASSIGNMENT_REWARD \<longrightarrow> e \<in> set (ledger s)"
  shows "campus_inv (points_db.extend p (points_db.more s))" (is "campus_inv ?s")
proof -
  have "points_inv (points_db.truncate s)"
    using campus_invD(1) [OF inv] points_same_inv [of s "points_db.truncate s"] by (simp add: points_same_def)
  from step_keeps [OF step this] obtain new where p: "points_inv p" "ledger p = ledger s @ new" by auto
  have pts: "points_inv ?s" using p(1) points_same_inv [of p ?s] by (simp add: points_same_def)
  have plain: "le_type e \<noteq> ASSIGNMENT_REWARD" if "e \<in> set new" for e
  proof
    assume "le_type e = ASSIGNMENT_REWARD"
    then have "e \<in> set (ledger s)" using no_grant that p(2) by simp
    moreover have "distinct (map le_id (ledger s @ new))"
      using p by (simp add: points_inv_def ledger_inv_def table_ok_def)
    ultimately show False using that by auto
  qed
  have "row_of source_triple (ASSIGNMENT_CLAIM_SOURCE, cid, ASSIGNMENT_REWARD) new = None" for cid
    using plain [THEN not_sym] by (auto simp: row_of_None source_triple_def)
  then have rewards: "claim_reward cid (ledger ?s) = claim_reward cid (ledger s)" for cid
    by (simp add: claim_reward_def p(2) row_of_append split: option.split)
  have sums: "sum_rows (reward_of u) le_amount (ledger ?s) = sum_rows (reward_of u) le_amount (ledger s)" for u
    using plain sum_rows_none [of new "reward_of u" le_amount]
    by (auto simp: p(2) sum_rows_append reward_of_def)
  have keys: "upload_keys ?s = upload_keys s" by (simp add: upload_keys_def)
  have ok: "claim_ok (ledger ?s) ks c = claim_ok (ledger s) ks c" for ks c
    unfolding claim_ok_def paid_ok_def rewards by simp
  show ?thesis
    using pts campus_invD [OF inv] claims_inv_cong [of ?s s] uploads_inv_upload_keys [of ?s s]
    unfolding campus_inv_def rewards sums ok keys by simp
qed

lemma approve_rest:
  assumes "approve_submission env str (PointsRewardPortAdapter eid m ov df) honors now rid a b ctx s
      = Inr (r, s')"
  shows "upload_intents s' = upload_intents s"
    "\<not> ap_already_reviewed r \<Longrightarrow> \<exists>sub c. decidable_pair b sub c s"
proof -
  have "upload_intents s' = upload_intents s \<and> (\<not> ap_already_reviewed r \<longrightarrow> (\<exists>sub c. decidable_pair b sub c s))"
    using assms
  proof (cases rule: adapter.approve_cases)
    case (paid sub c points g s2)
    have "upload_intents s2 = upload_intents s"
      using campus_of_more [of s2 "settle_approval now rid a sub c s"] adapter.frame [OF paid(2)]
      by (simp add: points_only_def)
    then show ?thesis using paid by (auto simp: payable_def)
  qed simp
  then show "upload_intents s' = upload_intents s"
    "\<not> ap_already_reviewed r \<Longrightarrow> \<exists>sub c. decidable_pair b sub c s" by blast+
qed

lemma approve_keeps_campus:
  assumes run: "approve_submission env str (PointsRewardPortAdapter eid m ov df) honors now rid a b ctx s
      = Inr (r, s')" and inv: "campus_inv s"
  shows "campus_inv s'"
proof (cases "ap_already_reviewed r")
  case True
  with run have "s' = s" by (cases rule: adapter.approve_cases) auto
  with inv show ?thesis by simp
next
  case first: False
  then obtain sub c where pair: "decidable_pair b sub c s" using approve_rest(2) [OF run] by blast
  then have rows: "row_of sb_id b (submissions s) = Some sub" "row_of cl_id (sb_claim_id sub) (claims s) = Some c"
    and act: "active_claim c" by (simp_all add: decidable_pair_def)
  note ok = open_claim_ok [OF inv rows(2) act]
  let ?d = "approved_claim now c" and ?v = "reviewed_submission sub ReviewStatus.APPROVED a now None"
  obtain e points at where pay: "payable a b sub c points s" and at: "cl_reward_locked_at c = Some at"
    and led: "ledger s' = ledger s @ [e]" "claim_reward (cl_id c) (ledger s') = Some e"
      "le_user_id e = cl_user_id c" "le_amount e = points" "le_ranking_effective_at e = Some at"
    and cls: "claims s' = claims (put_claim ?d s)" and subs: "submissions s' = submissions (put_submission ?v s)"
    using adapter.approve_pays [OF run first campus_invD(1,2) [OF inv] rows ok(1,5)] by blast
  have pts: "points_inv s'" and cin: "claims_inv s'"
    using adapter.approval_keeps [OF run campus_invD(1,2) [OF inv]] by auto
  have ids: "cl_id c = sb_claim_id sub" "sb_id sub = b"
    using row_of_SomeD [OF rows(2)] row_of_SomeD [OF rows(1)] by simp_all
  have row: "row_of cl_id (cl_id c) (claims s) = Some c" using rows(2) ids by simp
  have locked: "cl_locked_reward_points c = Some points" using pay by (simp add: payable_def)
  have keys: "upload_keys s' = upload_keys s"
    using upload_keys_put [OF campus_submission_ids [OF inv], of ?v sub] rows(1) ids
    by (simp add: upload_keys_def subs reviewed_submission_def upload_key_def)
  have upl: "uploads_inv s'"
    using campus_invD(3) [OF inv] uploads_inv_upload_keys [OF approve_rest(1) [OF run] keys] by simp
  have claims: "claims s' = update_row cl_id (cl_id c) (\<lambda>_. ?d) (claims s)"
    by (simp add: cls claims_put_claim)
  have src: "source_triple e = (ASSIGNMENT_CLAIM_SOURCE, cl_id c, ASSIGNMENT_REWARD)"
    using claim_reward_SomeD [OF led(2)] by simp
  have reward: "claim_reward cid (ledger s') = (if cid = cl_id c then Some e else claim_reward cid (ledger s))" for cid
    using ok(5) src by (auto simp: claim_reward_def led(1) row_of_append split: option.split)
  have "claim_ok (ledger s') (upload_keys s) ?d"
    using ok pay at led locked lock_ok_cong [of ?d c] latest_ok_cong [of ?d c]
    by (simp add: claim_ok_def paid_ok_def lock_ok_def payable_def window_ok_def approved_claim_def latest_ok_def)
  moreover have "claim_ok (ledger s') (upload_keys s) d" if "d \<in> set (claims s)" "cl_id d \<noteq> cl_id c" for d
    using campus_invD(4) [OF inv that(1)] that(2) by (simp add: claim_ok_def paid_ok_def reward)
  ultimately have good: "claim_ok (ledger s') (upload_keys s') d" if "d \<in> set (claims s')" for d
    using that by (auto simp: claims set_update_row keys split: if_splits)
  have all_ids: "cl_id ` set (claims s') = cl_id ` set (claims s)"
    using arg_cong [OF keys_update_row [of cl_id "cl_id c" "\<lambda>_. ?d" "claims s"], of set]
    by (simp add: claims)
  have mine: "cl_id c \<in> cl_id ` set (claims s)" using row_of_SomeD [OF row] by auto
  have "sum_rows (completed_of u) locked_points (claims s')
      = sum_rows (completed_of u) locked_points (claims s) + (if cl_user_id c = u then points else 0)" for u
    using sum_rows_update_row [OF claims_inv_ids [OF campus_invD(2) [OF inv]] row] active_not_completed [OF act]
    by (simp add: claims completed_of_def locked_points_def locked)
  moreover have "sum_rows (reward_of u) le_amount (ledger s')
      = sum_rows (reward_of u) le_amount (ledger s) + (if cl_user_id c = u then points else 0)" for u
    using src led by (simp add: sum_rows_append reward_of_def source_triple_def)
  ultimately show ?thesis
    using pts cin upl good campus_invD(5-7) [OF inv] mine
    unfolding campus_inv_def all_ids keys by (auto simp: reward split: if_splits)
qed

lemma campus_step_keeps: "campus_step s s' \<Longrightarrow> campus_inv s \<Longrightarrow> campus_inv s'"
proof (induction rule: campus_step.induct)
  case step_claim then show ?case by (rule claim_keeps_campus)
next
  case step_expire then show ?case by (rule expire_keeps_campus)
next
  case step_abandon then show ?case by (rule abandon_keeps_campus)
next
  case step_intent then show ?case by (rule intent_keeps_campus)
next
  case step_finalize then show ?case by (blast intro: finalize_keeps_campus)
next
  case step_start then show ?case by (blast intro: start_keeps_campus)
next
  case step_finish then show ?case by (blast intro: finish_keeps_campus)
next
  case step_lock then show ?case by (rule lock_keeps_campus)
next
  case step_revise then show ?case by (rule revise_keeps_campus)
next
  case step_invalidate then show ?case by (rule invalidate_keeps_campus)
next
  case step_approve then show ?case by (rule approve_keeps_campus)
next
  case step_requeue then show ?case by (rule requeue_keeps_campus)
next
  case step_points then show ?case by (blast intro: points_keep_campus)
next
  case step_admin then show ?case by (rule admin_keeps_campus)
next
  case step_units then show ?case by (blast intro: units_keep_campus)
qed

lemma initial_campus_ok: "campus_inv initial_campus"
proof -
  have "claims_inv initial_campus"
    by (simp add: claims_inv_def active_unique_def initial_campus_def points_db.defs initial_points_def)
  moreover have "uploads_inv initial_campus"
    by (auto simp: uploads_inv_def versions_def initial_campus_def points_db.defs initial_points_def
        intro!: exI [of _ 0])
  ultimately show ?thesis
    using initial_campus_inv
    by (simp add: campus_inv_def upload_keys_def initial_campus_def points_db.defs initial_points_def
        claim_reward_def)
qed

lemma reachable_campus_inv: "reachable_campus s \<Longrightarrow> campus_inv s"
  unfolding reachable_campus_def
  by (induction rule: rtranclp_induct) (auto simp: initial_campus_ok dest: campus_step_keeps)

end
