(* ===== verification/Campus_Facts.thy ===== *)
theory Campus_Facts
  imports Campus
begin

text \<open>
  What holds of the campus as a whole, in every state that any interleaving of its operations can
  reach: completed claims and paid claims are the same claims, work is exclusive, and every claim
  row follows the claim automaton.
\<close>

section \<open>Properties of every reachable state\<close>

text \<open>C1: In every reachable state a claim is completed if and only if the ledger holds an assignment
  reward for it; that reward is the only one, goes to the claim's student, is dated at the instant
  the lock was earned, and amounts to exactly the locked points, the floored 100, 80, 50 or 20
  percent of the base points promised when the unit was claimed; and the rewards of a student sum
  up to the locked points of the claims the student completed.\<close>

theorem completed_claims_are_paid_exactly_their_locks:
  assumes "reachable_campus s"
  shows "(\<forall>c\<in>set (claims s). cl_status c = ClaimStatus.COMPLETED
        \<longleftrightarrow> (\<exists>e\<in>set (ledger s). source_triple e = (ASSIGNMENT_CLAIM_SOURCE, cl_id c, ASSIGNMENT_REWARD)))
    \<and> (\<forall>c\<in>set (claims s). \<forall>e\<in>set (ledger s).
        source_triple e = (ASSIGNMENT_CLAIM_SOURCE, cl_id c, ASSIGNMENT_REWARD) \<longrightarrow>
          le_user_id e = cl_user_id c \<and> le_ranking_effective_at e = cl_reward_locked_at c
          \<and> (\<exists>tier\<in>{100, 80, 50, 20}. le_amount e = cl_base_reward_points_snapshot c * tier div 100)
          \<and> (\<forall>e2\<in>set (ledger s). source_triple e2 = source_triple e \<longrightarrow> e2 = e))
    \<and> (\<forall>u. sum_rows (\<lambda>e. le_type e = ASSIGNMENT_REWARD \<and> le_user_id e = u) le_amount (ledger s)
        = sum_rows (\<lambda>c. cl_status c = ClaimStatus.COMPLETED \<and> cl_user_id c = u) locked_points (claims s))"
proof -
  have inv: "campus_inv s" by (rule reachable_campus_inv [OF assms])
  have tab: "table_ok (ledger s)" using campus_invD(1) [OF inv] by (simp add: points_inv_def ledger_inv_def)
  have found: "claim_reward (cl_id c) (ledger s) = Some e" if "e \<in> set (ledger s)"
    "source_triple e = (ASSIGNMENT_CLAIM_SOURCE, cl_id c, ASSIGNMENT_REWARD)" for c e
    by (rule claim_reward_unique [OF tab that])
  have completed: "cl_status c = ClaimStatus.COMPLETED \<longleftrightarrow> (\<exists>e\<in>set (ledger s).
      source_triple e = (ASSIGNMENT_CLAIM_SOURCE, cl_id c, ASSIGNMENT_REWARD))" if c: "c \<in> set (claims s)" for c
  proof -
    have ok: "paid_ok (ledger s) c" using campus_invD(4) [OF inv c] by (simp add: claim_ok_def)
    show ?thesis
    proof
      assume "cl_status c = ClaimStatus.COMPLETED"
      then obtain e where "claim_reward (cl_id c) (ledger s) = Some e" using ok by (auto simp: paid_ok_def)
      from claim_reward_SomeD [OF this] show "\<exists>e\<in>set (ledger s).
          source_triple e = (ASSIGNMENT_CLAIM_SOURCE, cl_id c, ASSIGNMENT_REWARD)" by blast
    next
      assume "\<exists>e\<in>set (ledger s). source_triple e = (ASSIGNMENT_CLAIM_SOURCE, cl_id c, ASSIGNMENT_REWARD)"
      then have "claim_reward (cl_id c) (ledger s) \<noteq> None" using found by blast
      then show "cl_status c = ClaimStatus.COMPLETED" using ok by (auto simp: paid_ok_def split: if_splits)
    qed
  qed
  have paid: "le_user_id e = cl_user_id c \<and> le_ranking_effective_at e = cl_reward_locked_at c
      \<and> (\<exists>tier\<in>{100, 80, 50, 20}. le_amount e = cl_base_reward_points_snapshot c * tier div 100)
      \<and> (\<forall>e2\<in>set (ledger s). source_triple e2 = source_triple e \<longrightarrow> e2 = e)"
    if c: "c \<in> set (claims s)" and e: "e \<in> set (ledger s)"
      "source_triple e = (ASSIGNMENT_CLAIM_SOURCE, cl_id c, ASSIGNMENT_REWARD)" for c e
  proof -
    have "cl_status c = ClaimStatus.COMPLETED" using completed [OF c] e by blast
    then have "le_user_id e = cl_user_id c" "le_ranking_effective_at e = cl_reward_locked_at c"
      "cl_locked_reward_points c = Some (le_amount e)" "lock_ok c" "cl_reward_lock_status c = CONFIRMED"
      using campus_invD(4) [OF inv c] found [OF e] by (auto simp: claim_ok_def paid_ok_def)
    moreover have "e2 = e" if "e2 \<in> set (ledger s)" "source_triple e2 = source_triple e" for e2
      using found [OF that(1), of c] found [OF e] that(2) e(2) by simp
    ultimately show ?thesis by (auto simp: lock_ok_def)
  qed
  have "sum_rows (\<lambda>e. le_type e = ASSIGNMENT_REWARD \<and> le_user_id e = u) le_amount (ledger s)
        = sum_rows (\<lambda>c. cl_status c = ClaimStatus.COMPLETED \<and> cl_user_id c = u) locked_points (claims s)" for u
    using campus_invD(7) [OF inv, of u] by (simp add: reward_of_def [abs_def] completed_of_def [abs_def])
  with completed paid show ?thesis by blast
qed

text \<open>C9: In every reachable state work is exclusive: two open claims never share a unit, a student never
  has two open claims of one task, and a unit that is AVAILABLE is held by no open claim.\<close>

theorem work_stays_exclusive:
  assumes "reachable_campus s" "c \<in> set (claims s)" "active_claim c"
  shows "(\<forall>d\<in>set (claims s). active_claim d \<and> d \<noteq> c \<longrightarrow> cl_assignment_id d \<noteq> cl_assignment_id c
        \<and> \<not> (cl_user_id d = cl_user_id c \<and> cl_task_id d = cl_task_id c))
    \<and> (\<exists>u\<in>set (assignments s). as_id u = cl_assignment_id c \<and> as_availability_status u \<noteq> AVAILABLE)"
proof -
  have inv: "claims_inv s" using reachable_campus_inv [OF assms(1)] by (rule campus_invD(2))
  have "cl_assignment_id d \<noteq> cl_assignment_id c \<and> \<not> (cl_user_id d = cl_user_id c \<and> cl_task_id d = cl_task_id c)"
    if d: "d \<in> set (claims s)" "active_claim d" "d \<noteq> c" for d
    using claims_inv_unique [OF inv d(1) assms(2) d(2) assms(3)] id_unique [OF inv d(1) assms(2)] d(3) by blast
  moreover obtain u where u: "row_of as_id (cl_assignment_id c) (assignments s) = Some u"
    "as_availability_status u \<noteq> AVAILABLE"
    using claims_inv_held [OF inv assms(2,3)] by (auto simp: held_def)
  ultimately show ?thesis using row_of_SomeD [OF u(1)] u(2) by blast
qed

section \<open>The claim automaton\<close>

text \<open>What an observer of one claim sees, and the moves the life cycle allows.\<close>

type_synonym claim_view = "ClaimStatus \<times> RewardLockStatus \<times> int option"

definition view :: "claim \<Rightarrow> claim_view" where
  "view c = (cl_status c, cl_reward_lock_status c, cl_locked_reward_points c)"

definition open_status :: "ClaimStatus \<Rightarrow> bool" where
  "open_status st \<longleftrightarrow> st \<in> {CLAIMED, ClaimStatus.VALIDATING, ClaimStatus.UNDER_REVIEW, ClaimStatus.REVISION_REQUIRED}"

inductive claim_automaton :: "claim_view \<Rightarrow> claim_view \<Rightarrow> bool" where
  validate: "st \<in> {CLAIMED, ClaimStatus.REVISION_REQUIRED}
    \<Longrightarrow> claim_automaton (st, l, p) (ClaimStatus.VALIDATING, l, p)"
| give_back: "st \<in> {CLAIMED, ClaimStatus.REVISION_REQUIRED}
    \<Longrightarrow> claim_automaton (ClaimStatus.VALIDATING, l, p) (st, l, p)"
| enter_review: "open_status st \<Longrightarrow> l = PROVISIONAL
    \<Longrightarrow> claim_automaton (st, l, p) (ClaimStatus.UNDER_REVIEW, l, p)"
| lock_and_enter: "open_status st \<Longrightarrow> l \<in> {NONE, INVALIDATED}
    \<Longrightarrow> claim_automaton (st, l, p) (ClaimStatus.UNDER_REVIEW, PROVISIONAL, Some q)"
| revise: "open_status st \<Longrightarrow> claim_automaton (st, l, p) (ClaimStatus.REVISION_REQUIRED, l, p)"
| invalidate: "open_status st
    \<Longrightarrow> claim_automaton (st, PROVISIONAL, p) (ClaimStatus.REVISION_REQUIRED, INVALIDATED, None)"
| approve: "open_status st \<Longrightarrow> claim_automaton (st, PROVISIONAL, Some q) (ClaimStatus.COMPLETED, CONFIRMED, Some q)"
| close: "st \<in> {CLAIMED, ClaimStatus.REVISION_REQUIRED} \<Longrightarrow> st' \<in> {ABANDONED, EXPIRED}
    \<Longrightarrow> claim_automaton (st, l, p) (st', l, p)"

inductive_cases claim_automatonE: "claim_automaton (st, l, p) v"

lemma terminal_view_stays: "\<not> open_status st \<Longrightarrow> \<not> claim_automaton (st, l, p) v"
  by (auto elim!: claim_automatonE simp: open_status_def)

lemma open_status_active [simp]: "open_status (cl_status c) = active_claim c"
  by (auto simp: open_status_def active_iff)

text \<open>What the claim was taken on: never rewritten.\<close>

definition snapshot :: "claim \<Rightarrow> uuid \<times> uuid \<times> uuid \<times> uuid \<times> instant \<times> instant \<times> instant \<times> int \<times> int option" where
  "snapshot c = (cl_id c, cl_assignment_id c, cl_task_id c, cl_user_id c, cl_claimed_at c, cl_deadline_at c,
     cl_grace_deadline_at c, cl_base_reward_points_snapshot c, cl_submission_schema_version c)"

definition claim_continues :: "claim \<Rightarrow> claim \<Rightarrow> bool" where
  "claim_continues c d \<longleftrightarrow> snapshot d = snapshot c
     \<and> (d = c \<or> active_claim c \<and> (view d = view c \<or> claim_automaton (view c) (view d)))"

definition moves :: "'a campus_db_scheme \<Rightarrow> 'b campus_db_scheme \<Rightarrow> bool" where
  "moves s s' \<longleftrightarrow> (\<forall>k c. row_of cl_id k (claims s) = Some c
     \<longrightarrow> (\<exists>d. row_of cl_id k (claims s') = Some d \<and> claim_continues c d))"

lemma claim_continues_refl [simp]: "claim_continues c c"
  by (simp add: claim_continues_def)

lemma moves_same: "claims s' = claims s \<Longrightarrow> moves s s'"
  by (simp add: moves_def)

lemma moves_put:
  assumes "row_of cl_id cid (claims s) = Some c" "claims s' = claims (put_claim d s)" "claim_continues c d"
  shows "moves s s'"
proof -
  have "cl_id d = cid" using assms row_of_SomeD [OF assms(1)] by (simp add: claim_continues_def snapshot_def)
  with assms show ?thesis by (auto simp: moves_def row_of_put_claim)
qed

lemma claim_moves: "claim_random_assignment limit wired cid now rnd locked u t s = Inr (c, s')
    \<Longrightarrow> claims_inv s \<Longrightarrow> moves s s'"
  by (erule claim_effect) (auto simp: moves_def row_of_append)

lemma start_moves:
  assumes "start_validation at rid b s = Inr (e, s')"
  shows "moves s s'"
  using assms
proof (cases rule: start_cases)
  case (started sub)
  have "claim_continues c (c\<lparr>cl_status := ClaimStatus.VALIDATING\<rparr>)"
    if "cl_status c \<in> {CLAIMED, ClaimStatus.REVISION_REQUIRED}" for c
    using claim_automaton.validate [OF that] that
    by (auto simp: claim_continues_def snapshot_def view_def active_iff)
  then show ?thesis
    unfolding moves_def started(4) started_state_frame row_of_enter_validation by auto
qed (simp add: moves_same)

lemma finish_moves:
  assumes "finish_validation tx notify t0 t1 rid b (report, detected) s = Inr (r, s')"
  shows "moves s s'"
proof (rule finish_InrD [OF assms])
  fix sub
  assume cls: "claims s' = settled_claims report sub s"
  have "claim_continues c (given_back k c)" for c k
    using claim_automaton.give_back [of "if cl_revision_deadline_at c \<noteq> None then ClaimStatus.REVISION_REQUIRED else CLAIMED"]
    by (auto simp: given_back_def claim_continues_def snapshot_def view_def active_iff)
  then show ?thesis
    unfolding moves_def cls row_of_settled by auto
qed

lemma lock_moves:
  assumes "on_validation_passed now b s = Inr (c', s')" "campus_inv s"
  shows "moves s s'"
proof -
  obtain sub c where c: "row_of cl_id (sb_claim_id sub) (claims s) = Some c"
    and out: "\<not> active_claim c \<and> s' = s \<or> active_claim c \<and> s' = review_state now sub c s"
    using assms(1) unfolding passed_Inr by blast
  show ?thesis
  proof (cases "active_claim c")
    case act: True
    have "cl_reward_lock_status c \<noteq> CONFIRMED" by (rule open_claim_ok(4) [OF assms(2) c act])
    then have "claim_automaton (view c) (view (in_review sub c s))"
      using act claim_automaton.enter_review [of "cl_status c"]
        claim_automaton.lock_and_enter [of "cl_status c" "cl_reward_lock_status c" "cl_locked_reward_points c"]
      by (cases "cl_reward_lock_status c") (simp_all add: view_def locked_claim_def Let_def)
    moreover have "snapshot (in_review sub c s) = snapshot c"
      by (simp add: snapshot_def in_review_def locked_claim_def Let_def)
    ultimately show ?thesis
      using out act by (intro moves_put [OF c, of _ "in_review sub c s"]) (simp_all add: claim_continues_def)
  qed (use out in \<open>simp add: moves_same\<close>)
qed

lemma campus_step_moves: "campus_step s s' \<Longrightarrow> campus_inv s \<Longrightarrow> moves s s'"
proof (induction rule: campus_step.induct)
  case step_claim then show ?case using claim_moves campus_invD(2) by blast
next
  case (step_expire pub inspect now cid s er s')
  show ?case
  proof (cases "s' = s")
    case False
    then obtain c where c: "row_of cl_id cid (claims s) = Some c" and s': "s' = expiry_state pub now c s"
      and due: "due_row now c"
      using step_expire by (auto simp: expire_eq Let_def expiry_outcome_def split: option.splits if_splits)
    have "cl_status c \<in> {CLAIMED, ClaimStatus.REVISION_REQUIRED}" using due by (auto simp: due_row_def sets)
    then have "claim_continues c (expired now c)"
      using claim_automaton.close [of "cl_status c" EXPIRED] due_active [OF due]
      by (auto simp: claim_continues_def snapshot_def view_def expired_def)
    then show ?thesis
      by (intro moves_put [OF c, of _ "expired now c"])
        (simp_all add: s' claims_expiry_state claims_put_claim)
  qed (simp add: moves_same)
next
  case (step_abandon tz lim now u cid s c' s')
  show ?case
  proof (cases "s' = s")
    case False
    then obtain c where c: "row_of cl_id cid (claims s) = Some c" and s': "s' = abandon_state now c s"
      and st: "cl_status c \<in> {CLAIMED, ClaimStatus.REVISION_REQUIRED}"
      using step_abandon unfolding abandon_Inr by auto
    then have "claim_continues c (abandoned now c)"
      using claim_automaton.close [of "cl_status c" ABANDONED]
      by (auto simp: claim_continues_def snapshot_def view_def abandoned_def active_iff)
    then show ?thesis
      by (intro moves_put [OF c, of _ "abandoned now c"]) (simp_all add: s' claims_abandon_state claims_put_claim)
  qed (simp add: moves_same)
next
  case (step_intent cfg presign iid now a cid fname ty n s ir s')
  then show ?case by (elim create_cases) (auto intro: moves_same)
next
  case (step_finalize probe iid s disp fr sid now a rq fo s')
  from step_finalize(2) show ?case
  proof (cases rule: finalize_cases)
    case (first i c head task keep b)
    let ?d = "c\<lparr>cl_latest_submission_id := Some sid\<rparr>"
    have row: "row_of cl_id (lo_claim_id (fst probe)) (claims s) = Some c"
      and st: "cl_status c \<in> {CLAIMED, ClaimStatus.REVISION_REQUIRED}"
      using first(1) by (auto simp: may_finalize_def)
    then have "claim_continues c ?d" by (auto simp: claim_continues_def snapshot_def view_def active_iff)
    then show ?thesis by (intro moves_put [OF row, of _ ?d]) (simp_all add: first(5))
  qed (auto intro!: moves_same simp: burn_intent_def put_intent_def handed_def)
next
  case step_start then show ?case by (blast intro: start_moves)
next
  case step_finish then show ?case by (blast intro: finish_moves)
next
  case step_lock then show ?case by (rule lock_moves)
next
  case (step_revise env now rid a b remark ctx s c' s')
  show ?case
  proof (rule revision_InrD [OF step_revise(1)])
    fix sub c
    assume pair: "decidable_pair b sub c s" and c': "c' = returned now c"
      and dec: "decided c' (reviewed_submission sub ReviewStatus.REVISION_REQUIRED a now (strip_or_none remark)) s s'"
    have row: "row_of cl_id (sb_claim_id sub) (claims s) = Some c" and act: "active_claim c"
      using pair by (simp_all add: decidable_pair_def)
    have "claim_continues c c'"
      using act claim_automaton.revise [of "cl_status c"]
      by (simp add: claim_continues_def view_def c') (simp add: snapshot_def returned_def)
    then show ?thesis using dec by (intro moves_put [OF row]) (simp_all add: decided_def)
  qed
next
  case (step_invalidate env now rid a b reason ctx s c' s')
  show ?case
  proof (rule invalidate_InrD [OF step_invalidate(1)])
    fix sub c t
    assume pair: "decidable_pair b sub c s" and c': "c' = unlocked now c"
      and lock: "cl_reward_lock_status c = PROVISIONAL"
      and dec: "decided c' (reviewed_submission sub ReviewStatus.REVISION_REQUIRED a now (Some t)) s s'"
    have row: "row_of cl_id (sb_claim_id sub) (claims s) = Some c" and act: "active_claim c"
      using pair by (simp_all add: decidable_pair_def)
    have "claim_continues c c'"
      using act lock claim_automaton.invalidate [of "cl_status c"]
      by (simp add: claim_continues_def view_def c') (simp add: snapshot_def unlocked_def)
    then show ?thesis using dec by (intro moves_put [OF row]) (simp_all add: decided_def)
  qed
next
  case (step_approve env str eid m ov df honors now rid a b ctx s ar s')
  from step_approve(1) show ?case
  proof (cases rule: adapter.approve_cases)
    case (paid sub c points g s2)
    have row: "row_of cl_id (sb_claim_id sub) (claims s) = Some c" and act: "active_claim c"
      and lock: "cl_reward_lock_status c = PROVISIONAL" "cl_locked_reward_points c = Some points"
      using paid(1) by (simp_all add: payable_def decidable_pair_def)
    have "claims s2 = claims (put_claim (approved_claim now c) s)"
      using campus_of_more [of s2 "settle_approval now rid a sub c s"] adapter.frame [OF paid(2)]
      by (simp add: points_only_def)
    moreover have "claim_continues c (approved_claim now c)"
      using act lock claim_automaton.approve [of "cl_status c"]
      by (simp add: claim_continues_def view_def) (simp add: snapshot_def approved_claim_def)
    ultimately show ?thesis using paid(4) by (intro moves_put [OF row]) simp_all
  qed (simp add: moves_same)
next
  case step_requeue show ?case by (simp add: moves_same requeue_stale_validating_def)
next
  case step_points show ?case by (simp add: moves_same)
next
  case step_admin show ?case by (simp add: moves_same)
next
  case step_units show ?case by (simp add: moves_same)
qed

lemma reachable_step: "reachable_campus s \<Longrightarrow> campus_step s s' \<Longrightarrow> reachable_campus s'"
  unfolding reachable_campus_def by (rule rtranclp.rtrancl_into_rtrancl)

lemma claim_continues_path:
  assumes "claim_continues c d" "claim_automaton\<^sup>*\<^sup>* v (view c)"
  shows "claim_automaton\<^sup>*\<^sup>* v (view d)"
  using assms by (auto simp: claim_continues_def intro: rtranclp.rtrancl_into_rtrancl)

lemma campus_path:
  assumes "campus_step\<^sup>*\<^sup>* s s'" "campus_inv s" "row_of cl_id cid (claims s) = Some c"
  shows "campus_inv s' \<and> (\<exists>d. row_of cl_id cid (claims s') = Some d \<and> snapshot d = snapshot c
    \<and> claim_automaton\<^sup>*\<^sup>* (view c) (view d) \<and> (\<not> active_claim c \<longrightarrow> d = c))"
  using assms(1)
proof (induction rule: rtranclp_induct)
  case base
  with assms show ?case by blast
next
  case (step s1 s2)
  then obtain d where inv: "campus_inv s1" and d: "row_of cl_id cid (claims s1) = Some d"
    "snapshot d = snapshot c" "claim_automaton\<^sup>*\<^sup>* (view c) (view d)" "\<not> active_claim c \<longrightarrow> d = c" by blast
  obtain e where e: "row_of cl_id cid (claims s2) = Some e" "claim_continues d e"
    using campus_step_moves [OF step.hyps(2) inv] d(1) by (auto simp: moves_def)
  moreover have "snapshot e = snapshot c" "\<not> active_claim c \<longrightarrow> e = c"
    using e(2) d by (auto simp: claim_continues_def)
  ultimately show ?case
    using campus_step_keeps [OF step.hyps(2) inv] claim_continues_path [OF e(2) d(3)] by blast
qed

text \<open>C2: The services refine the claim life cycle: however their transactions interleave from a reachable
  state, the row of a claim follows a path of the claim automaton and its snapshots (unit, student,
  claim instant, both deadlines, base points, schema version) never change; in particular locked
  points change only when a lock is earned or invalidated, a confirmed lock never changes, and the
  row of a completed, abandoned or expired claim is never written again.\<close>

theorem campus_refines_the_claim_automaton:
  assumes "reachable_campus s" "campus_step\<^sup>*\<^sup>* s s'" "row_of cl_id cid (claims s) = Some c"
  shows "\<exists>d. row_of cl_id cid (claims s') = Some d \<and> claim_automaton\<^sup>*\<^sup>* (view c) (view d)
    \<and> snapshot d = snapshot c \<and> (\<not> active_claim c \<longrightarrow> d = c)"
  using campus_path [OF assms(2) reachable_campus_inv [OF assms(1)] assms(3)] by blast

section \<open>Witnesses\<close>

text \<open>One student's day: claim, upload, pass, lock, approval.\<close>

lemma reachable_demo: "reachable_campus demo_campus"
proof -
  let ?s = "initial_campus\<lparr>users := users demo_campus, tasks := tasks demo_campus,
     collaborators := [], platforms := []\<rparr>"
  have "campus_step initial_campus ?s" by (rule step_admin)
  moreover have "campus_step ?s (?s\<lparr>assignments := assignments ?s @ assignments demo_campus\<rparr>)"
    by (rule step_units) (simp add: demo_defs)
  moreover have "?s\<lparr>assignments := assignments ?s @ assignments demo_campus\<rparr> = demo_campus"
    by (simp add: demo_defs)
  ultimately show ?thesis unfolding reachable_campus_def by (auto intro: rtranclp.rtrancl_into_rtrancl)
qed

lemma demo_intent_run: "create_upload_intent
    \<lparr>uc_url_ttl = minutes 10, uc_intent_ttl = minutes 15, uc_max_upload_bytes = 1000\<rparr>
    (\<lambda>_ _ _ n. Inr \<lparr>uu_object_key = ''submissions/x'', uu_url = [], uu_expires_at = minutes 10,
       uu_client_headers = [], uu_pinned_content_length = Some n\<rparr>)
    300 0 demo_student 100 ''a.csv'' ''CSV'' 10 claimed_campus = (ir, intent_campus)"
  if "ir = Inr (issued \<lparr>uc_url_ttl = minutes 10, uc_intent_ttl = minutes 15, uc_max_upload_bytes = 1000\<rparr> 300 0
      demo_claim \<lparr>uu_object_key = ''submissions/x'', uu_url = [], uu_expires_at = minutes 10,
       uu_client_headers = [], uu_pinned_content_length = Some 10\<rparr> 10)"
proof -
  have acct: "lock_account 7 claimed_campus
      = Inr \<lparr>cm_id = 7, cm_status = UserStatus.ACTIVE, cm_role = STUDENT\<rparr>"
    by (simp add: lock_account_Inr account_ok_def demo_defs)
  have rows: "row_of cl_id 100 (claims claimed_campus) = Some demo_claim"
    "row_of tk_id (cl_task_id demo_claim) (tasks claimed_campus) = Some demo_task" "upload_intents claimed_campus = []"
    by (simp_all add: demo_defs)
  have pol: "upload_policy_check \<lparr>cm_id = 7, cm_status = UserStatus.ACTIVE, cm_role = STUDENT\<rparr> demo_claim demo_task
      ''CSV'' 10 0 1000 = Inr ()"
    by (simp add: policy_Inr demo_task_def submission_window_open_def) (simp add: hours_def minutes_def)
  have ft: "FileType_of ''CSV'' = Some CSV" using FileType_of_value [of CSV] by simp
  have name: "sanitize_filename ''a.csv'' = ''a.csv''" by code_simp
  show ?thesis
    using that name
    by (simp add: create_upload_intent_def demo_student_def acct rows rows(2) [simplified] pol ft Let_def insert_intent_def issued_def
        intent_campus_def demo_intent_def)
qed

lemma reachable_claimed_uploaded: "reachable_campus claimed_campus \<and> campus_step\<^sup>*\<^sup>* claimed_campus uploaded_campus"
proof -
  have "campus_step claimed_campus intent_campus" by (rule step_intent [OF demo_intent_run [OF refl]])
  moreover obtain probe where probe: "locate_upload demo_head 300 intent_campus = Inr probe"
    and run: "finalize_locked None [] 200 (minutes 5) demo_student 300 None probe intent_campus
      = (Inr demo_upload, uploaded_campus)"
    using demo_finalize by (auto simp: finalize_upload_def split: sum.splits)
  moreover have "campus_step intent_campus uploaded_campus"
    by (rule step_finalize [OF locate_locates [OF probe] run])
  ultimately show ?thesis
    using reachable_step [OF reachable_demo step_claim [OF demo_run]] by (auto intro: rtranclp.rtrancl_into_rtrancl)
qed

lemma reachable_uploaded: "reachable_campus uploaded_campus"
  using reachable_claimed_uploaded unfolding reachable_campus_def by auto

definition clean_report :: ValidationReport where
  "clean_report = build_report demo_texts (no_aggregates (Some 1)) (Float 0 0) (ValidationReportBuilder [] CSV None)"

lemma clean_report_passes: "report_passed clean_report"
  by (simp add: clean_report_def build_report_def report_passed_def ValidationReportBuilder_def)

lemma demo_day:
  "\<exists>s c. reachable_campus s \<and> row_of cl_id 100 (claims s) = Some c \<and> cl_status c = ClaimStatus.COMPLETED
     \<and> cl_base_reward_points_snapshot c = 101"
proof -
  let ?c0 = "demo_claim\<lparr>cl_latest_submission_id := Some 200\<rparr>" and ?v = "judged clean_report None demo_upload"
  let ?s4 = "started_state (minutes 6) 400 demo_upload uploaded_campus"
  have started: "start_validation (minutes 6) 400 200 uploaded_campus = Inr (Started (in_validation demo_upload), ?s4)"
    by (rule start_runs [OF uploaded_rows(1) demo_may_start])
  have r4: "reachable_campus ?s4"
    by (rule reachable_step [OF reachable_uploaded step_start [OF _ started]]) (simp add: uploaded_rows)
  have upload: "sb_id demo_upload = 200" by (simp add: demo_upload_def)
  have run: "row_of sv_id 400 (submission_validations ?s4) = Some (pending_run (minutes 6) 400 200)"
    by (simp add: uploaded_rows pending_run_def upload)
  have row4: "row_of sb_id 200 (submissions ?s4) = Some (in_validation demo_upload)"
    using uploaded_rows(1) by (simp add: row_of_put_submission upload)
  have claim4: "row_of cl_id 100 (claims ?s4) = Some (?c0\<lparr>cl_status := ClaimStatus.VALIDATING\<rparr>)"
    using uploaded_rows(2) by (simp add: row_of_enter_validation uploaded_rows(5))
  have "ok (finish_validation demo_texts True (minutes 6) (minutes 7) 400 200 (clean_report, None) ?s4)"
    by (rule finish_runs [OF row4 _ _, of "?c0\<lparr>cl_status := ClaimStatus.VALIDATING\<rparr>" demo_task])
      (use claim4 uploaded_rows(3) uploaded_claim_facts(1) run in \<open>simp_all add: uploaded_rows(5)\<close>)
  then obtain vr s5 where fin: "finish_validation demo_texts True (minutes 6) (minutes 7) 400 200 (clean_report, None) ?s4
      = Inr (vr, s5)" by (auto simp: ok_iff)
  have fin': "finish_validation demo_texts True (sv_started_at (pending_run (minutes 6) 400 200)) (minutes 7) 400 200
      (clean_report, None) ?s4 = Inr (vr, s5)" using fin by (simp add: pending_run_def)
  have r5: "reachable_campus s5"
    by (rule reachable_step [OF r4 step_finish [OF run _ _ fin']]) (simp_all add: pending_run_def)
  have eff: "run_effect 200 clean_report None demo_upload uploaded_campus s5"
    using ran_effect [OF uploaded_rows(1) fin] by (simp add: uploaded_rows)
  have claim5: "row_of cl_id 100 (claims s5) = Some (?c0\<lparr>cl_status := ClaimStatus.VALIDATING\<rparr>)"
    using eff uploaded_rows(2) clean_report_passes by (simp add: run_effect_def uploaded_rows(5))
  have sub5: "row_of sb_id 200 (submissions s5) = Some ?v" "map sb_id (submissions s5) = [200]"
    using eff by (simp_all add: run_effect_def uploaded_rows upload)
  then have subs5: "submissions s5 = [?v]" by (auto split: if_splits)
  have claim_id: "sb_claim_id ?v = 100" by (simp add: uploaded_rows)
  let ?c5 = "?c0\<lparr>cl_status := ClaimStatus.VALIDATING\<rparr>"
  have c5: "cl_id ?c5 = 100" "active_claim ?c5" "cl_reward_lock_status ?c5 = NONE" "cl_latest_submission_id ?c5 = Some 200"
    "cl_assignment_id ?c5 = 10" "cl_task_id ?c5 = 1" "cl_base_reward_points_snapshot ?c5 = 101"
    "cl_deadline_at ?c5 = hours 1" "cl_grace_deadline_at ?c5 = hours 25" "cl_user_id ?c5 = 7"
    by (simp_all add: active_iff demo_claim_def new_claim_def demo_task_def demo_assignment_def hours_def minutes_def)
  have "may_lock ?v ?c5 s5"
    using c5 by (auto simp: may_lock_def no_unfinished_cleanup_def subs5 uploaded_rows unfinished_cleanup_def
        judged_def hours_def minutes_def)
  then have "on_validation_passed (minutes 8) 200 s5 = Inr (in_review ?v ?c5 s5, review_state (minutes 8) ?v ?c5 s5)"
    using sub5(1) claim5 claim_id c5(2) clean_report_passes unfolding passed_Inr
    by (intro exI [of _ ?v] exI [of _ ?c5]) (simp add: verdict_status_def)
  then have r6: "reachable_campus (review_state (minutes 8) ?v ?c5 s5)" (is "reachable_campus ?s6")
    by (rule reachable_step [OF r5 step_lock])
  let ?c6 = "in_review ?v ?c5 s5"
  have c6: "cl_reward_lock_status ?c6 = PROVISIONAL" "cl_locked_reward_points ?c6 = Some 101"
    "cl_reward_tier_locked ?c6 = Some 100" "lock_ok ?c6"
    using c5 by (simp_all add: locked_claim_def Let_def clamped_tier_def tier_percent_def uploaded_rows
        hours_def minutes_def lock_ok_def)
  have latest: "bump_latest ?c5 ?v s5 = Some 200"
    using bump_is_idle [OF reachable_campus_inv [OF r5] sub5(1)] claim5 claim_id by simp
  have rows6: "row_of sb_id 200 (submissions ?s6) = Some ?v" "row_of cl_id (sb_claim_id ?v) (claims ?s6) = Some ?c6"
    using sub5(1) claim5 c5(1) claim_id by (simp_all add: row_of_put_claim)
  have t5: "tasks s5 = tasks uploaded_campus" "ledger s5 = ledger uploaded_campus"
    "assignments s5 = assignments uploaded_campus" using eff by (simp_all add: run_effect_def)
  have unit: "row_of as_id 10 (assignments ?s6) \<noteq> None"
    by (simp add: t5) (simp add: uploaded_campus_def intent_campus_def claimed_campus_def demo_campus_def
        demo_assignment_def)
  have ledger6: "ledger ?s6 = []"
    by (simp add: t5) (simp add: uploaded_campus_def intent_campus_def claimed_campus_def demo_campus_def
        initial_campus_def initial_points_def points_db.defs)
  have pay: "payable demo_teacher 200 ?v ?c6 101 ?s6"
    using c6 latest c5 clean_report_passes rows6 unit uploaded_rows(3)
    by (simp add: payable_def decidable_pair_def may_review_def demo_teacher_def t5 verdict_status_def active_iff
        demo_task_def)
  have inv: "points_inv ?s6" using reachable_campus_inv [OF r6] by (rule campus_invD(1))
  obtain r s7 where appr: "approve_submission demo_review_env (\<lambda>_. []) (PointsRewardPortAdapter 900 0 None None)
      None (minutes 9) 1 demo_teacher 200 None ?s6 = Inr (r, s7)" and new: "\<not> ap_already_reviewed r"
    using adapter.approve_accepts [OF pay _ c6(4) inv, where eid = 900 and env = demo_review_env and str = "\<lambda>_. []"
        and now = "minutes 9" and rid = 1 and m = 0 and ov = None and df = None and honors = None and ctx = None]
      ledger6 by (auto simp: claim_reward_def)
  have r7: "reachable_campus s7" by (rule reachable_step [OF r6 step_approve [OF appr]])
  from appr have "\<exists>c. row_of cl_id 100 (claims s7) = Some c \<and> cl_status c = ClaimStatus.COMPLETED
     \<and> snapshot c = snapshot ?c6"
  proof (cases rule: adapter.approve_cases)
    case (paid sub c points g s2)
    have c: "c = ?c6" using paid(1) rows6 by (auto simp: payable_def decidable_pair_def)
    have "claims s2 = claims (put_claim (approved_claim (minutes 9) c) ?s6)"
      using campus_of_more [of s2 "settle_approval (minutes 9) 1 demo_teacher sub c ?s6"] adapter.frame [OF paid(2)]
      by (simp add: points_only_def)
    then show ?thesis
      using rows6(2) claim_id c5(1) paid(4)
      by (simp add: c row_of_put_claim) (simp add: snapshot_def approved_claim_def)
  qed (use new in simp)
  then show ?thesis using r7 c5(7) by (auto simp: snapshot_def)
qed

theorem completed_claims_are_paid_exactly_their_locks_witness:
  "\<exists>s. reachable_campus s \<and> (\<exists>e\<in>set (ledger s).
     source_triple e = (ASSIGNMENT_CLAIM_SOURCE, 100, ASSIGNMENT_REWARD) \<and> le_amount e \<in> {101, 80, 50, 20})"
proof -
  obtain s c where s: "reachable_campus s" and row: "row_of cl_id 100 (claims s) = Some c"
    and st: "cl_status c = ClaimStatus.COMPLETED" and base: "cl_base_reward_points_snapshot c = 101"
    using demo_day by blast
  have c: "c \<in> set (claims s)" "cl_id c = 100" using row_of_SomeD [OF row] by auto
  note facts = completed_claims_are_paid_exactly_their_locks [OF s]
  obtain e where e: "e \<in> set (ledger s)"
    "source_triple e = (ASSIGNMENT_CLAIM_SOURCE, cl_id c, ASSIGNMENT_REWARD)"
    using facts c(1) st by blast
  have "\<exists>tier\<in>{100, 80, 50, 20}. le_amount e = cl_base_reward_points_snapshot c * tier div 100"
    using facts c(1) e by blast
  then have "le_amount e \<in> {101, 80, 50, 20}" by (auto simp: base)
  with s e c(2) show ?thesis by auto
qed

theorem work_stays_exclusive_witness:
  "active_claim demo_claim
   \<and> (\<exists>u\<in>set (assignments claimed_campus). as_id u = 10 \<and> as_availability_status u \<noteq> AVAILABLE)"
proof -
  have r: "reachable_campus claimed_campus" by (rule reachable_step [OF reachable_demo step_claim [OF demo_run]])
  have c: "demo_claim \<in> set (claims claimed_campus)" by (simp add: claimed_campus_def)
  have act: "active_claim demo_claim" by (simp add: active_iff demo_claim_def new_claim_def)
  have unit: "cl_assignment_id demo_claim = 10" by (simp add: demo_claim_def new_claim_def demo_assignment_def)
  show ?thesis using work_stays_exclusive [OF r c act] act unfolding unit by blast
qed

theorem campus_refines_the_claim_automaton_witness:
  "\<exists>d. row_of cl_id 100 (claims uploaded_campus) = Some d \<and> claim_automaton\<^sup>*\<^sup>* (view demo_claim) (view d)
     \<and> cl_base_reward_points_snapshot d = 101"
proof -
  have r: "reachable_campus claimed_campus" by (rule reachable_step [OF reachable_demo step_claim [OF demo_run]])
  have path: "campus_step\<^sup>*\<^sup>* claimed_campus uploaded_campus"
    using reachable_claimed_uploaded by (rule conjunct2)
  have row: "row_of cl_id 100 (claims claimed_campus) = Some demo_claim" by (simp add: demo_defs)
  have "cl_base_reward_points_snapshot demo_claim = 101" by (simp add: demo_claim_def new_claim_def demo_task_def)
  then show ?thesis
    using campus_refines_the_claim_automaton [OF r path row] by (auto simp: snapshot_def)
qed

end
