(* ===== verification/Tasks.thy ===== *)
theory Tasks
  imports Claims "HOL-Library.List_Lexorder"
begin

text \<open>
  The life cycle of a task (\<open>tasks/service.py\<close> with the commands of \<open>tasks/commands.py\<close>): creation
  with its units of work, the status verbs, the partial edit and the claim gate.  Arguments stand
  for what the database and the deployment supply: the new ids, the two clock readings of a publish,
  the platform cap on upload sizes and the text \<open>texts_unit\<close> of a generated unit's keyword.
\<close>

section \<open>Closed value sets\<close>

definition SUPPORTED_FILE_TYPES :: "string list" where
  "SUPPORTED_FILE_TYPES = [''CSV'', ''XLSX'', ''SQLITE'', ''DOCX'', ''PDF'']"

definition STRUCTURED_FILE_TYPE_CODES :: "string list" where
  "STRUCTURED_FILE_TYPE_CODES = [''CSV'', ''XLSX'', ''SQLITE'']"

definition DOCUMENT_FILE_TYPE_CODES :: "string list" where
  "DOCUMENT_FILE_TYPE_CODES = [''DOCX'', ''PDF'']"

definition SUPPORTED_NOTIFICATION_CHANNELS :: "string list" where
  "SUPPORTED_NOTIFICATION_CHANNELS = [''SMS'', ''EMAIL'', ''IN_APP'']"

definition DEFAULT_GRACE_PERIOD_MINUTES :: int where "DEFAULT_GRACE_PERIOD_MINUTES = 1440"

definition MAX_TARGET_COUNT :: int where "MAX_TARGET_COUNT = 200"

definition GENERIC_PLATFORM_CODE :: string where "GENERIC_PLATFORM_CODE = ''generic''"

fun ALLOWED_TASK_TRANSITIONS :: "TaskStatus \<Rightarrow> TaskStatus list" where
  "ALLOWED_TASK_TRANSITIONS DRAFT = [PUBLISHED]"
| "ALLOWED_TASK_TRANSITIONS PUBLISHED = [PAUSED, CLOSED]"
| "ALLOWED_TASK_TRANSITIONS PAUSED = [PUBLISHED, CLOSED]"
| "ALLOWED_TASK_TRANSITIONS CLOSED = [ARCHIVED]"
| "ALLOWED_TASK_TRANSITIONS ARCHIVED = []"

text \<open>The audit verb of each edge; \<open>None\<close> is a missing key.\<close>

fun TRANSITION_AUDIT_ACTIONS :: "TaskStatus \<times> TaskStatus \<Rightarrow> string option" where
  "TRANSITION_AUDIT_ACTIONS (DRAFT, PUBLISHED) = Some ''TASK_PUBLISHED''"
| "TRANSITION_AUDIT_ACTIONS (PUBLISHED, PAUSED) = Some ''TASK_PAUSED''"
| "TRANSITION_AUDIT_ACTIONS (PAUSED, PUBLISHED) = Some ''TASK_RESUMED''"
| "TRANSITION_AUDIT_ACTIONS (PUBLISHED, CLOSED) = Some ''TASK_CLOSED''"
| "TRANSITION_AUDIT_ACTIONS (PAUSED, CLOSED) = Some ''TASK_CLOSED''"
| "TRANSITION_AUDIT_ACTIONS (CLOSED, ARCHIVED) = Some ''TASK_ARCHIVED''"
| "TRANSITION_AUDIT_ACTIONS _ = None"

section \<open>Commands\<close>

record CreateTask =
  ct_title :: string
  ct_description :: string
  ct_base_reward_points :: int
  ct_deadline_mode :: string
  ct_allowed_file_types :: "string list"
  ct_max_file_size_bytes :: int
  ct_task_type :: string
  ct_rarity :: string
  ct_fixed_deadline_at :: "datetime option"
  ct_duration_minutes :: "int option"
  ct_claim_cutoff_minutes :: int
  ct_submission_schema :: "json option"
  ct_submission_schema_version :: "int option"
  ct_target_count :: "int option"
  ct_notify_24h :: bool
  ct_notify_4h :: bool
  ct_notification_channels :: "string list"

text \<open>\<open>None\<close> means unchanged.\<close>

record UpdateTask =
  ut_title :: "string option"
  ut_description :: "string option"
  ut_notify_24h :: "bool option"
  ut_notify_4h :: "bool option"
  ut_notification_channels :: "string list option"
  ut_base_reward_points :: "int option"
  ut_deadline_mode :: "string option"
  ut_fixed_deadline_at :: "datetime option"
  ut_duration_minutes :: "int option"
  ut_claim_cutoff_minutes :: "int option"
  ut_submission_schema :: "json option"
  ut_submission_schema_version :: "int option"
  ut_allowed_file_types :: "string list option"
  ut_max_file_size_bytes :: "int option"

section \<open>Errors\<close>

text \<open>
  The typed refusals; \<open>TaskValueError\<close> is a stored value outside its vocabulary and
  \<open>TaskIntegrity\<close> a violated constraint, both unhandled.
\<close>

datatype task_error =
    RoleDenied | NotOwner | InvalidTitle | InvalidDescription | InvalidReward | InvalidDuration
  | NegativeCutoff | InvalidSizeCap | InvalidSchema | InvalidTargetCount | UnsupportedValue string
  | UnsupportedCodes "string list" | InvalidDeadline | TaskMissing uuid
  | IllegalTransition TaskStatus TaskStatus | ImmutableFields "string list" TaskStatus
  | UnitsRequired | MissingFixedDeadline | PastDeadline | CutoffPassed "int option"
  | DocumentSchemaForbidden | InvalidFilePolicy | MixedFileFamily "string list" "string list"
  | TaskValueError | TaskIntegrity

fun task_envelope :: "task_error \<Rightarrow> business_error option" where
  "task_envelope RoleDenied = Some (Business PERMISSION_DENIED 403 [])"
| "task_envelope NotOwner = Some (Business PERMISSION_DENIED 403 [])"
| "task_envelope NegativeCutoff =
     Some (Business VALIDATION_ERROR 400 [(''field'', JStr ''claim_cutoff_minutes'')])"
| "task_envelope InvalidTargetCount = Some (Business VALIDATION_ERROR 400
     [(''field'', JStr ''target_count''), (''max'', JInt MAX_TARGET_COUNT)])"
| "task_envelope (UnsupportedValue v) = Some (Business VALIDATION_ERROR 400 [(''value'', JStr v)])"
| "task_envelope (UnsupportedCodes cs) =
     Some (Business VALIDATION_ERROR 400 [(''unsupported'', JList (map JStr cs))])"
| "task_envelope (TaskMissing t) = Some (Business NOT_FOUND 404 [(''task_id'', JUuid t)])"
| "task_envelope (IllegalTransition a b) = Some (Business VALIDATION_ERROR 400
     [(''from'', JStr (task_status_value a)), (''to'', JStr (task_status_value b))])"
| "task_envelope (ImmutableFields fs st) = Some (Business VALIDATION_ERROR 400
     [(''fields'', JList (map JStr (sort fs))), (''status'', JStr (task_status_value st))])"
| "task_envelope UnitsRequired = Some (Business TASK_UNITS_REQUIRED 409 [])"
| "task_envelope (CutoffPassed n) =
     Some (Business TASK_NOT_CLAIMABLE 409 [(''claim_cutoff_minutes'', jopt JInt n)])"
| "task_envelope (MixedFileFamily a b) = Some (Business VALIDATION_ERROR 400
     [(''structured'', JList (map JStr a)), (''documents'', JList (map JStr b))])"
| "task_envelope TaskValueError = None"
| "task_envelope TaskIntegrity = None"
| "task_envelope _ = Some (Business VALIDATION_ERROR 400 [])"

section \<open>Helpers\<close>

text \<open>\<open>str.upper()\<close> on the code points 0 to 255 (two of them leave that range and stay here).\<close>

definition upper_char :: "char \<Rightarrow> string" where
  "upper_char c = (let n = (of_char c :: nat) in
     if 97 \<le> n \<and> n \<le> 122 \<or> 224 \<le> n \<and> n \<le> 254 \<and> n \<noteq> 247 then [char_of (n - 32)]
     else if n = 223 then ''SS'' else [c])"

definition py_upper :: "string \<Rightarrow> string" where
  "py_upper s = concat (map upper_char s)"

definition utc_instant :: "datetime \<Rightarrow> task_error + instant" where
  "utc_instant d = (case d of Naive n \<Rightarrow> Inl InvalidDeadline | Aware t \<Rightarrow> Inr t)"

definition member_or :: "('e \<Rightarrow> string) \<Rightarrow> 'e list \<Rightarrow> string \<Rightarrow> task_error + 'e" where
  "member_or value members v =
     (case member_with value members v of None \<Rightarrow> Inl (UnsupportedValue v) | Some m \<Rightarrow> Inr m)"

definition required_text :: "string \<Rightarrow> task_error \<Rightarrow> nat option \<Rightarrow> task_error + string" where
  "required_text v e max_length = (let stripped = py_strip v in
     if stripped = [] \<or> (case max_length of None \<Rightarrow> False | Some n \<Rightarrow> n < length stripped)
     then Inl e else Inr stripped)"

fun collect_codes :: "string list \<Rightarrow> string list \<Rightarrow> string list" where
  "collect_codes acc [] = acc"
| "collect_codes acc (raw # rest) = (let code = py_upper (py_strip raw) in
     collect_codes (if code \<noteq> [] \<and> code \<notin> set acc then acc @ [code] else acc) rest)"

definition normalize_codes :: "string list \<Rightarrow> string list \<Rightarrow> task_error + string list" where
  "normalize_codes raws supported =
     (let normalized = collect_codes [] raws;
          unsupported = sort (filter (\<lambda>c. c \<notin> set supported) normalized)
      in if unsupported \<noteq> [] then Inl (UnsupportedCodes unsupported) else Inr normalized)"

definition validate_size_cap :: "int \<Rightarrow> int \<Rightarrow> task_error + unit" where
  "validate_size_cap max_upload_bytes n =
     (if n \<le> 0 \<or> max_upload_bytes < n then Inl InvalidSizeCap else Inr ())"

definition deadline_mode_of :: "string \<Rightarrow> DeadlineMode option" where
  "deadline_mode_of = member_with deadline_mode_value [FIXED, RELATIVE]"

definition put_task :: "task \<Rightarrow> 'a campus_db_scheme \<Rightarrow> 'a campus_db_scheme" where
  "put_task t s = s\<lparr>tasks := update_row tk_id (tk_id t) (\<lambda>_. t) (tasks s)\<rparr>"

section \<open>Creation\<close>

definition empty_schema :: "json option \<Rightarrow> bool" where
  "empty_schema js = (js = Some (JObj []))"

definition create_checks :: "int \<Rightarrow> CreateTask \<Rightarrow> task_error + unit" where
  "create_checks max_upload_bytes cmd =
     (if ct_base_reward_points cmd \<le> 0 then Inl InvalidReward
      else if (case ct_duration_minutes cmd of None \<Rightarrow> False | Some n \<Rightarrow> n \<le> 0) then Inl InvalidDuration
      else if ct_claim_cutoff_minutes cmd < 0 then Inl NegativeCutoff
      else case validate_size_cap max_upload_bytes (ct_max_file_size_bytes cmd) of Inl e \<Rightarrow> Inl e | Inr _ \<Rightarrow>
      if empty_schema (ct_submission_schema cmd) then Inl InvalidSchema
      else if (case ct_submission_schema_version cmd of None \<Rightarrow> False | Some n \<Rightarrow> n < 1) then Inl InvalidSchema
      else if (case ct_target_count cmd of None \<Rightarrow> False | Some n \<Rightarrow> \<not> (1 \<le> n \<and> n \<le> MAX_TARGET_COUNT))
      then Inl InvalidTargetCount
      else Inr ())"

text \<open>The constructor call: its converting arguments are evaluated in the order they are written.\<close>

definition new_task :: "uuid \<Rightarrow> actor \<Rightarrow> string \<Rightarrow> string \<Rightarrow> CreateTask \<Rightarrow> task_error + task" where
  "new_task tid a title description cmd =
     (case member_or task_type_value [DATA_CRAWL] (ct_task_type cmd) of Inl e \<Rightarrow> Inl e | Inr ty \<Rightarrow>
      case member_or task_rarity_value [NORMAL, RARE, EPIC, LEGENDARY] (ct_rarity cmd) of
        Inl e \<Rightarrow> Inl e | Inr rarity \<Rightarrow>
      case member_or deadline_mode_value [FIXED, RELATIVE] (ct_deadline_mode cmd) of
        Inl e \<Rightarrow> Inl e | Inr mode \<Rightarrow>
      case (case ct_fixed_deadline_at cmd of None \<Rightarrow> Inr None | Some d \<Rightarrow>
              (case utc_instant d of Inl e \<Rightarrow> Inl e | Inr t \<Rightarrow> Inr (Some (Aware t)))) of
        Inl e \<Rightarrow> Inl e | Inr fixed \<Rightarrow>
      case normalize_codes (ct_allowed_file_types cmd) SUPPORTED_FILE_TYPES of Inl e \<Rightarrow> Inl e | Inr types \<Rightarrow>
      case normalize_codes (ct_notification_channels cmd) SUPPORTED_NOTIFICATION_CHANNELS of
        Inl e \<Rightarrow> Inl e | Inr channels \<Rightarrow>
      Inr \<lparr>tk_id = tid, tk_owner_teacher_id = actor_user_id a, tk_title = title,
           tk_description = description, tk_task_type = ty, tk_rarity = rarity,
           tk_base_reward_points = ct_base_reward_points cmd, tk_status = DRAFT,
           tk_deadline_mode = deadline_mode_value mode, tk_fixed_deadline_at = fixed,
           tk_duration_minutes = ct_duration_minutes cmd,
           tk_grace_period_minutes = Some DEFAULT_GRACE_PERIOD_MINUTES,
           tk_claim_cutoff_minutes = Some (ct_claim_cutoff_minutes cmd),
           tk_submission_schema = ct_submission_schema cmd,
           tk_submission_schema_version = ct_submission_schema_version cmd,
           tk_allowed_file_types = types, tk_max_file_size_bytes = ct_max_file_size_bytes cmd,
           tk_notify_24h = ct_notify_24h cmd, tk_notify_4h = ct_notify_4h cmd,
           tk_notification_channels = channels, tk_retention_policy = ''DAYS_180'',
           tk_published_at = None, tk_closed_at = None\<rparr>)"

text \<open>The generated units, numbered from 1, and the two inserts with their keys and foreign key.\<close>

definition target_units ::
  "(nat \<Rightarrow> string) \<Rightarrow> (nat \<Rightarrow> uuid) \<Rightarrow> uuid \<Rightarrow> int option \<Rightarrow> assignment list" where
  "target_units unit_text unit_id tid target = (case target of None \<Rightarrow> [] | Some n \<Rightarrow>
     map (\<lambda>i. \<lparr>as_id = unit_id i, as_task_id = tid, as_platform = GENERIC_PLATFORM_CODE,
              as_keyword = unit_text i, as_payload = None, as_availability_status = AVAILABLE\<rparr>)
       [1..<Suc (nat n)])"

definition units_admissible :: "assignment list \<Rightarrow> 'a campus_db_scheme \<Rightarrow> bool" where
  "units_admissible us s \<longleftrightarrow> distinct (map as_id (assignments s @ us))
     \<and> list_all (\<lambda>u. as_platform u \<in> pf_code ` set (platforms s)) us
     \<and> distinct (map (\<lambda>u. (as_task_id u, as_platform u, as_keyword u)) (assignments s @ us))"

definition create_task ::
  "int \<Rightarrow> (nat \<Rightarrow> string) \<Rightarrow> uuid \<Rightarrow> (nat \<Rightarrow> uuid) \<Rightarrow> actor \<Rightarrow> CreateTask \<Rightarrow> 'a campus_db_scheme
    \<Rightarrow> task_error + (task \<times> 'a campus_db_scheme)" where
  "create_task max_upload_bytes unit_text tid unit_id a cmd s =
     (if \<not> is_staff (actor_role a) then Inl RoleDenied
      else case required_text (ct_title cmd) InvalidTitle (Some 255) of Inl e \<Rightarrow> Inl e | Inr title \<Rightarrow>
      case required_text (ct_description cmd) InvalidDescription None of Inl e \<Rightarrow> Inl e | Inr description \<Rightarrow>
      case create_checks max_upload_bytes cmd of Inl e \<Rightarrow> Inl e | Inr _ \<Rightarrow>
      case new_task tid a title description cmd of Inl e \<Rightarrow> Inl e | Inr t \<Rightarrow>
      let us = target_units unit_text unit_id tid (ct_target_count cmd) in
      if tid \<in> tk_id ` set (tasks s) \<or> \<not> units_admissible us s then Inl TaskIntegrity
      else Inr (t, s\<lparr>tasks := tasks s @ [t], assignments := assignments s @ us\<rparr>))"

section \<open>The publish gate\<close>

definition validate_deadline_policy :: "instant \<Rightarrow> task \<Rightarrow> task_error + unit" where
  "validate_deadline_policy now t =
     (case deadline_mode_of (tk_deadline_mode t) of
        None \<Rightarrow> Inl TaskValueError
      | Some FIXED \<Rightarrow>
          (case tk_fixed_deadline_at t of None \<Rightarrow> Inl MissingFixedDeadline | Some d \<Rightarrow>
           case utc_instant d of Inl e \<Rightarrow> Inl e | Inr deadline \<Rightarrow>
           if deadline \<le> now then Inl PastDeadline
           else if deadline < now + minutes (case tk_claim_cutoff_minutes t of None \<Rightarrow> 0 | Some n \<Rightarrow> n)
           then Inl (CutoffPassed (tk_claim_cutoff_minutes t)) else Inr ())
      | Some RELATIVE \<Rightarrow>
          (case tk_duration_minutes t of None \<Rightarrow> Inl InvalidDuration
           | Some n \<Rightarrow> if n \<le> 0 then Inl InvalidDuration else Inr ()))"

definition validate_file_policy :: "task \<Rightarrow> task_error + unit" where
  "validate_file_policy t =
     (let allowed = tk_allowed_file_types t;
          structured = sort (remdups (filter (\<lambda>c. c \<in> set STRUCTURED_FILE_TYPE_CODES) allowed));
          documents = sort (remdups (filter (\<lambda>c. c \<in> set DOCUMENT_FILE_TYPE_CODES) allowed));
          is_document_task = (documents \<noteq> []);
          unsupported = sort (remdups (filter (\<lambda>c. c \<notin> set SUPPORTED_FILE_TYPES) allowed))
      in if is_document_task \<and> tk_submission_schema t \<noteq> None \<and> \<not> empty_schema (tk_submission_schema t)
      then Inl DocumentSchemaForbidden
      else if allowed = [] then Inl InvalidFilePolicy
      else if unsupported \<noteq> [] then Inl (UnsupportedCodes unsupported)
      else if structured \<noteq> [] \<and> documents \<noteq> [] then Inl (MixedFileFamily structured documents)
      else if is_document_task \<and> documents = [] then Inl InvalidFilePolicy
      else Inr ())"

definition validate_publishable :: "int \<Rightarrow> instant \<Rightarrow> task \<Rightarrow> task_error + unit" where
  "validate_publishable max_upload_bytes now t =
     (if tk_base_reward_points t \<le> 0 then Inl InvalidReward
      else case validate_deadline_policy now t of Inl e \<Rightarrow> Inl e | Inr _ \<Rightarrow>
      case validate_file_policy t of Inl e \<Rightarrow> Inl e | Inr _ \<Rightarrow>
      validate_size_cap max_upload_bytes (tk_max_file_size_bytes t))"

section \<open>Status verbs\<close>

definition require_owner_or_admin :: "task \<Rightarrow> actor \<Rightarrow> task_error + unit" where
  "require_owner_or_admin t a =
     (if actor_user_id a \<noteq> tk_owner_teacher_id t \<and> \<not> is_admin (actor_role a) then Inl NotOwner
      else Inr ())"

definition require_transition :: "task \<Rightarrow> TaskStatus \<Rightarrow> task_error + unit" where
  "require_transition t target =
     (if target \<notin> set (ALLOWED_TASK_TRANSITIONS (tk_status t))
      then Inl (IllegalTransition (tk_status t) target) else Inr ())"

text \<open>What entering the target demands and writes besides the status.\<close>

definition enter_target ::
  "int \<Rightarrow> instant \<Rightarrow> task \<Rightarrow> TaskStatus \<Rightarrow> 'a campus_db_scheme \<Rightarrow> task_error + task" where
  "enter_target max_upload_bytes now t target s =
     (if target = PUBLISHED then
        (case validate_publishable max_upload_bytes now t of Inl e \<Rightarrow> Inl e | Inr _ \<Rightarrow>
         if tk_status t = DRAFT \<and> count_rows (\<lambda>u. as_task_id u = tk_id t) (assignments s) = 0
         then Inl UnitsRequired
         else Inr (if tk_published_at t = None then t\<lparr>tk_published_at := Some now\<rparr> else t))
      else if target = CLOSED then Inr (t\<lparr>tk_closed_at := Some now\<rparr>)
      else Inr t)"

definition transition ::
  "int \<Rightarrow> instant \<Rightarrow> actor \<Rightarrow> uuid \<Rightarrow> TaskStatus \<Rightarrow> 'a campus_db_scheme
    \<Rightarrow> task_error + (task \<times> 'a campus_db_scheme)" where
  "transition max_upload_bytes now a tid target s =
     (case row_of tk_id tid (tasks s) of None \<Rightarrow> Inl (TaskMissing tid) | Some t \<Rightarrow>
      case require_owner_or_admin t a of Inl e \<Rightarrow> Inl e | Inr _ \<Rightarrow>
      case require_transition t target of Inl e \<Rightarrow> Inl e | Inr _ \<Rightarrow>
      case enter_target max_upload_bytes now t target s of Inl e \<Rightarrow> Inl e | Inr t1 \<Rightarrow>
      let t2 = t1\<lparr>tk_status := target\<rparr> in
      case TRANSITION_AUDIT_ACTIONS (tk_status t, target) of None \<Rightarrow> Inl TaskValueError | Some action \<Rightarrow>
      Inr (t2, audit_append a action ''task'' (tk_id t) None None
        (Some (dict [(''status'', JStr (task_status_value (tk_status t)))]))
        (Some (dict [(''status'', JStr (task_status_value target))])) None (put_task t2 s)))"

section \<open>The claim gate and the verbs\<close>

definition is_claimable :: "task \<Rightarrow> instant \<Rightarrow> task_error + bool" where
  "is_claimable t now =
     (if tk_status t \<noteq> PUBLISHED then Inr False
      else case deadline_mode_of (tk_deadline_mode t) of
        None \<Rightarrow> Inl TaskValueError
      | Some RELATIVE \<Rightarrow> Inr True
      | Some FIXED \<Rightarrow> Inr (case tk_fixed_deadline_at t of
            Some (Aware deadline) \<Rightarrow>
              now + minutes (case tk_claim_cutoff_minutes t of None \<Rightarrow> 0 | Some n \<Rightarrow> n) \<le> deadline
          | _ \<Rightarrow> False))"

record PublishResult =
  pr_task_id :: uuid
  pr_status :: TaskStatus
  pr_published_at :: instant
  pr_claimable :: bool

text \<open>The second clock reading, after the commit, decides the reported claimability.\<close>

definition publish_task ::
  "int \<Rightarrow> instant \<Rightarrow> instant \<Rightarrow> actor \<Rightarrow> uuid \<Rightarrow> 'a campus_db_scheme
    \<Rightarrow> task_error + (PublishResult \<times> 'a campus_db_scheme)" where
  "publish_task max_upload_bytes now after a tid s =
     (case transition max_upload_bytes now a tid PUBLISHED s of Inl e \<Rightarrow> Inl e | Inr (t, s') \<Rightarrow>
      case is_claimable t after of Inl e \<Rightarrow> Inl e | Inr b \<Rightarrow>
      Inr (\<lparr>pr_task_id = tk_id t, pr_status = tk_status t,
            pr_published_at = (case tk_published_at t of None \<Rightarrow> after | Some p \<Rightarrow> p),
            pr_claimable = b\<rparr>, s'))"

definition pause_task where "pause_task m now a tid s = transition m now a tid PAUSED s"

definition resume_task where "resume_task m now a tid s = transition m now a tid PUBLISHED s"

definition close_task where "close_task m now a tid s = transition m now a tid CLOSED s"

definition archive_task where "archive_task m now a tid s = transition m now a tid ARCHIVED s"

section \<open>Edits\<close>

text \<open>The names of the fields the command provides, in the order the dataclass declares them.\<close>

definition presentation_provided :: "UpdateTask \<Rightarrow> string list" where
  "presentation_provided u = concat
     [if ut_title u \<noteq> None then [''title''] else [],
      if ut_description u \<noteq> None then [''description''] else [],
      if ut_notify_24h u \<noteq> None then [''notify_24h''] else [],
      if ut_notify_4h u \<noteq> None then [''notify_4h''] else [],
      if ut_notification_channels u \<noteq> None then [''notification_channels''] else []]"

definition contract_provided :: "UpdateTask \<Rightarrow> string list" where
  "contract_provided u = concat
     [if ut_base_reward_points u \<noteq> None then [''base_reward_points''] else [],
      if ut_deadline_mode u \<noteq> None then [''deadline_mode''] else [],
      if ut_fixed_deadline_at u \<noteq> None then [''fixed_deadline_at''] else [],
      if ut_duration_minutes u \<noteq> None then [''duration_minutes''] else [],
      if ut_claim_cutoff_minutes u \<noteq> None then [''claim_cutoff_minutes''] else [],
      if ut_submission_schema u \<noteq> None then [''submission_schema''] else [],
      if ut_submission_schema_version u \<noteq> None then [''submission_schema_version''] else [],
      if ut_allowed_file_types u \<noteq> None then [''allowed_file_types''] else [],
      if ut_max_file_size_bytes u \<noteq> None then [''max_file_size_bytes''] else []]"

text \<open>The value a provided field is set to, or the stored one.\<close>

definition set_to :: "'v option \<Rightarrow> 'c \<Rightarrow> ('v \<Rightarrow> task_error + 'c) \<Rightarrow> task_error + 'c" where
  "set_to v old check = (case v of None \<Rightarrow> Inr old | Some x \<Rightarrow> check x)"

definition guarded :: "task_error \<Rightarrow> ('v \<Rightarrow> bool) \<Rightarrow> ('v \<Rightarrow> 'c) \<Rightarrow> 'v \<Rightarrow> task_error + 'c" where
  "guarded e good f x = (if good x then Inr (f x) else Inl e)"

definition edit_presentation :: "UpdateTask \<Rightarrow> task \<Rightarrow> task_error + task" where
  "edit_presentation u t =
     (case set_to (ut_title u) (tk_title t) (\<lambda>v. required_text v InvalidTitle (Some 255)) of
        Inl e \<Rightarrow> Inl e | Inr title \<Rightarrow>
      case set_to (ut_description u) (tk_description t) (\<lambda>v. required_text v InvalidDescription None) of
        Inl e \<Rightarrow> Inl e | Inr description \<Rightarrow>
      case set_to (ut_notification_channels u) (tk_notification_channels t)
             (\<lambda>v. normalize_codes v SUPPORTED_NOTIFICATION_CHANNELS) of Inl e \<Rightarrow> Inl e | Inr channels \<Rightarrow>
      Inr (t\<lparr>tk_title := title, tk_description := description,
             tk_notify_24h := (case ut_notify_24h u of None \<Rightarrow> tk_notify_24h t | Some b \<Rightarrow> b),
             tk_notify_4h := (case ut_notify_4h u of None \<Rightarrow> tk_notify_4h t | Some b \<Rightarrow> b),
             tk_notification_channels := channels\<rparr>))"

definition edit_deadline :: "UpdateTask \<Rightarrow> task \<Rightarrow> task_error + task" where
  "edit_deadline u t =
     (case set_to (ut_base_reward_points u) (tk_base_reward_points t)
             (guarded InvalidReward (\<lambda>n. 0 < n) id) of Inl e \<Rightarrow> Inl e | Inr base \<Rightarrow>
      case set_to (ut_deadline_mode u) (tk_deadline_mode t) (\<lambda>v.
             map_sum id deadline_mode_value (member_or deadline_mode_value [FIXED, RELATIVE] v)) of
        Inl e \<Rightarrow> Inl e | Inr mode \<Rightarrow>
      case set_to (ut_fixed_deadline_at u) (tk_fixed_deadline_at t)
             (\<lambda>d. map_sum id (Some \<circ> Aware) (utc_instant d)) of Inl e \<Rightarrow> Inl e | Inr fixed \<Rightarrow>
      case set_to (ut_duration_minutes u) (tk_duration_minutes t)
             (guarded InvalidDuration (\<lambda>n. 0 < n) Some) of Inl e \<Rightarrow> Inl e | Inr duration \<Rightarrow>
      Inr (t\<lparr>tk_base_reward_points := base, tk_deadline_mode := mode, tk_fixed_deadline_at := fixed,
             tk_duration_minutes := duration\<rparr>))"

definition edit_contract :: "int \<Rightarrow> UpdateTask \<Rightarrow> task \<Rightarrow> task_error + task" where
  "edit_contract max_upload_bytes u t0 =
     (case edit_deadline u t0 of Inl e \<Rightarrow> Inl e | Inr t \<Rightarrow>
      case set_to (ut_claim_cutoff_minutes u) (tk_claim_cutoff_minutes t)
             (guarded NegativeCutoff (\<lambda>n. 0 \<le> n) Some) of Inl e \<Rightarrow> Inl e | Inr cutoff \<Rightarrow>
      case set_to (ut_submission_schema u) (tk_submission_schema t)
             (guarded InvalidSchema (\<lambda>j. j \<noteq> JObj []) Some) of Inl e \<Rightarrow> Inl e | Inr schema \<Rightarrow>
      case set_to (ut_submission_schema_version u) (tk_submission_schema_version t)
             (guarded InvalidSchema (\<lambda>n. 1 \<le> n) Some) of Inl e \<Rightarrow> Inl e | Inr version \<Rightarrow>
      case set_to (ut_allowed_file_types u) (tk_allowed_file_types t)
             (\<lambda>v. normalize_codes v SUPPORTED_FILE_TYPES) of Inl e \<Rightarrow> Inl e | Inr types \<Rightarrow>
      case set_to (ut_max_file_size_bytes u) (tk_max_file_size_bytes t)
             (\<lambda>n. map_sum id (\<lambda>_. n) (validate_size_cap max_upload_bytes n)) of Inl e \<Rightarrow> Inl e | Inr cap \<Rightarrow>
      Inr (t\<lparr>tk_claim_cutoff_minutes := cutoff, tk_submission_schema := schema,
             tk_submission_schema_version := version, tk_allowed_file_types := types,
             tk_max_file_size_bytes := cap\<rparr>))"

definition update_task ::
  "int \<Rightarrow> actor \<Rightarrow> uuid \<Rightarrow> UpdateTask \<Rightarrow> 'a campus_db_scheme
    \<Rightarrow> task_error + (task \<times> 'a campus_db_scheme)" where
  "update_task max_upload_bytes a tid u s =
     (case row_of tk_id tid (tasks s) of None \<Rightarrow> Inl (TaskMissing tid) | Some t \<Rightarrow>
      case require_owner_or_admin t a of Inl e \<Rightarrow> Inl e | Inr _ \<Rightarrow>
      let provided = presentation_provided u @ contract_provided u in
      if tk_status t \<in> {CLOSED, ARCHIVED}
      then (if provided \<noteq> [] then Inl (ImmutableFields provided (tk_status t)) else Inr (t, s))
      else if tk_status t \<in> {PUBLISHED, PAUSED} \<and> contract_provided u \<noteq> []
      then Inl (ImmutableFields (contract_provided u) (tk_status t))
      else case edit_presentation u t of Inl e \<Rightarrow> Inl e | Inr t1 \<Rightarrow>
      case edit_contract max_upload_bytes u t1 of Inl e \<Rightarrow> Inl e | Inr t2 \<Rightarrow>
      Inr (t2, put_task t2 s))"

end
