(* ===== verification/Messages.thy ===== *)
theory Messages
  imports Core
begin

text \<open>
  Notification texts: the event and channel vocabularies (\<open>notifications/enums.py\<close>), the single-pass
  placeholder scanner, the render function and the write gate for edited templates
  (\<open>notifications/templates.py\<close>).  The seed texts are not ASCII; they are an argument.
\<close>

section \<open>Vocabularies\<close>

datatype NotificationChannel = SMS | EMAIL | IN_APP

fun channel_value :: "NotificationChannel \<Rightarrow> string" where
  "channel_value SMS = ''SMS''"
| "channel_value EMAIL = ''EMAIL''"
| "channel_value IN_APP = ''IN_APP''"

definition all_channels :: "NotificationChannel list" where
  "all_channels = [SMS, EMAIL, IN_APP]"

datatype NotificationEventType =
    ASSIGNMENT_DEADLINE_24H | ASSIGNMENT_DEADLINE_4H | REVISION_REQUIRED | SUBMISSION_APPROVED
  | SUBMISSION_VALIDATION_FAILED | REWARD_REDEMPTION_APPROVED | REWARD_REDEMPTION_REJECTED
  | ACCOUNT_SECURITY | IE_ACHIEVEMENT_APPROVED | IE_ACHIEVEMENT_RETURNED
  | IE_RECRUITMENT_CONFIRMATION_DUE

fun event_type_value :: "NotificationEventType \<Rightarrow> string" where
  "event_type_value ASSIGNMENT_DEADLINE_24H = ''ASSIGNMENT_DEADLINE_24H''"
| "event_type_value ASSIGNMENT_DEADLINE_4H = ''ASSIGNMENT_DEADLINE_4H''"
| "event_type_value NotificationEventType.REVISION_REQUIRED = ''REVISION_REQUIRED''"
| "event_type_value SUBMISSION_APPROVED = ''SUBMISSION_APPROVED''"
| "event_type_value NotificationEventType.SUBMISSION_VALIDATION_FAILED = ''SUBMISSION_VALIDATION_FAILED''"
| "event_type_value REWARD_REDEMPTION_APPROVED = ''REWARD_REDEMPTION_APPROVED''"
| "event_type_value REWARD_REDEMPTION_REJECTED = ''REWARD_REDEMPTION_REJECTED''"
| "event_type_value ACCOUNT_SECURITY = ''ACCOUNT_SECURITY''"
| "event_type_value IE_ACHIEVEMENT_APPROVED = ''IE_ACHIEVEMENT_APPROVED''"
| "event_type_value IE_ACHIEVEMENT_RETURNED = ''IE_ACHIEVEMENT_RETURNED''"
| "event_type_value IE_RECRUITMENT_CONFIRMATION_DUE = ''IE_RECRUITMENT_CONFIRMATION_DUE''"

definition all_event_types :: "NotificationEventType list" where
  "all_event_types = [ASSIGNMENT_DEADLINE_24H, ASSIGNMENT_DEADLINE_4H, NotificationEventType.REVISION_REQUIRED,
     SUBMISSION_APPROVED, NotificationEventType.SUBMISSION_VALIDATION_FAILED, REWARD_REDEMPTION_APPROVED,
     REWARD_REDEMPTION_REJECTED, ACCOUNT_SECURITY, IE_ACHIEVEMENT_APPROVED, IE_ACHIEVEMENT_RETURNED,
     IE_RECRUITMENT_CONFIRMATION_DUE]"

text \<open>\<open>NotificationEventType(s)\<close> and \<open>NotificationChannel(s)\<close>: the member with that value.\<close>

definition event_type_of :: "string \<Rightarrow> NotificationEventType option" where
  "event_type_of s = find (\<lambda>e. event_type_value e = s) all_event_types"

definition channel_of :: "string \<Rightarrow> NotificationChannel option" where
  "channel_of s = find (\<lambda>c. channel_value c = s) all_channels"

definition SKIPPED_LAST_ERROR_PREFIX :: string where
  "SKIPPED_LAST_ERROR_PREFIX = ''skipped:''"

text \<open>The frozen whitelists, sorted by name.\<close>

fun EVENT_VARIABLES :: "NotificationEventType \<Rightarrow> string list" where
  "EVENT_VARIABLES ASSIGNMENT_DEADLINE_24H = [''deadline_at'', ''task_title'']"
| "EVENT_VARIABLES ASSIGNMENT_DEADLINE_4H = [''deadline_at'', ''task_title'']"
| "EVENT_VARIABLES NotificationEventType.REVISION_REQUIRED =
     [''review_comment'', ''revision_deadline_at'', ''task_title'']"
| "EVENT_VARIABLES SUBMISSION_APPROVED = [''reward_points'', ''task_title'']"
| "EVENT_VARIABLES NotificationEventType.SUBMISSION_VALIDATION_FAILED = [''task_title'', ''validation_summary'']"
| "EVENT_VARIABLES REWARD_REDEMPTION_APPROVED = [''item_name'', ''points_spent'']"
| "EVENT_VARIABLES REWARD_REDEMPTION_REJECTED = [''item_name'', ''points_refunded'', ''rejection_reason'']"
| "EVENT_VARIABLES ACCOUNT_SECURITY = [''event_summary'', ''event_time'']"
| "EVENT_VARIABLES IE_ACHIEVEMENT_APPROVED = [''achievement_title'']"
| "EVENT_VARIABLES IE_ACHIEVEMENT_RETURNED = [''achievement_title'', ''review_reason'']"
| "EVENT_VARIABLES IE_RECRUITMENT_CONFIRMATION_DUE = [''manage_path'', ''role_name'']"

section \<open>The scanner\<close>

text \<open>
  \<open>_PLACEHOLDER_RE.sub\<close> reads a text once from the left: a brace opens a placeholder when the next brace
  closes it, and is an ordinary character otherwise.
\<close>

datatype piece = Lit char | Hole string

definition brace :: "char \<Rightarrow> bool" where
  "brace c \<longleftrightarrow> c = CHR ''{'' \<or> c = CHR ''}''"

definition hole_at :: "string \<Rightarrow> (string \<times> string) option" where
  "hole_at cs = (case dropWhile (\<lambda>c. \<not> brace c) cs of
       [] \<Rightarrow> None
     | d # rest \<Rightarrow> if d = CHR ''}'' then Some (takeWhile (\<lambda>c. \<not> brace c) cs, rest) else None)"

lemma hole_at_shorter: "hole_at cs = Some (n, rest) \<Longrightarrow> length rest < length cs"
proof -
  assume "hole_at cs = Some (n, rest)"
  then have "dropWhile (\<lambda>c. \<not> brace c) cs = CHR ''}'' # rest"
    by (auto simp: hole_at_def split: list.splits if_splits)
  then have "Suc (length rest) = length (dropWhile (\<lambda>c. \<not> brace c) cs)" by simp
  then show ?thesis using length_dropWhile_le [of "\<lambda>c. \<not> brace c" cs] by simp
qed

function pieces :: "string \<Rightarrow> piece list" where
  "pieces [] = []"
| "pieces (c # cs) = (if c = CHR ''{'' then (case hole_at cs of
       None \<Rightarrow> Lit c # pieces cs
     | Some (name, rest) \<Rightarrow> Hole name # pieces rest)
     else Lit c # pieces cs)"
  by pat_completeness auto
termination
  by (relation "measure length") (auto dest: hole_at_shorter)

text \<open>\<open>_VARIABLE_NAME_RE.match\<close>: Python's dollar also matches before a final newline.\<close>

definition lower :: "char \<Rightarrow> bool" where
  "lower c \<longleftrightarrow> of_char c \<in> {97 .. (122 :: nat)}"

definition digit :: "char \<Rightarrow> bool" where
  "digit c \<longleftrightarrow> of_char c \<in> {48 .. (57 :: nat)}"

definition variable_name :: "string \<Rightarrow> bool" where
  "variable_name n = (case n of [] \<Rightarrow> False | c # cs \<Rightarrow> lower c
     \<and> list_all (\<lambda>d. lower d \<or> digit d \<or> d = CHR ''_'')
         (if cs \<noteq> [] \<and> last cs = CHR 0x0A then butlast cs else cs))"

section \<open>Rendering\<close>

datatype template_error =
    InvalidTemplate NotificationEventType NotificationChannel string "string list"
  | MissingTemplateVariable NotificationEventType NotificationChannel string
  | UnsafeTemplateMarkup NotificationEventType NotificationChannel string string

record TemplateText =
  tt_title :: string
  tt_body :: string

record RenderedMessage =
  rm_title :: string
  rm_body :: string

type_synonym seeds = "NotificationEventType \<Rightarrow> NotificationChannel \<Rightarrow> TemplateText"

definition whitelisted :: "NotificationEventType \<Rightarrow> string \<Rightarrow> bool" where
  "whitelisted et n \<longleftrightarrow> variable_name n \<and> n \<in> set (EVENT_VARIABLES et)"

fun substitute_pieces ::
  "NotificationEventType \<Rightarrow> NotificationChannel \<Rightarrow> (string \<rightharpoonup> string) \<Rightarrow> piece list \<Rightarrow> template_error + string" where
  "substitute_pieces et ch vars [] = Inr []"
| "substitute_pieces et ch vars (Lit c # ps) =
     (case substitute_pieces et ch vars ps of Inl e \<Rightarrow> Inl e | Inr t \<Rightarrow> Inr (c # t))"
| "substitute_pieces et ch vars (Hole n # ps) =
     (if \<not> whitelisted et n then Inl (InvalidTemplate et ch n (EVENT_VARIABLES et))
      else case vars n of None \<Rightarrow> Inl (MissingTemplateVariable et ch n) | Some v \<Rightarrow>
      case substitute_pieces et ch vars ps of Inl e \<Rightarrow> Inl e | Inr t \<Rightarrow> Inr (v @ t))"

definition substitute_placeholders ::
  "NotificationEventType \<Rightarrow> NotificationChannel \<Rightarrow> (string \<rightharpoonup> string) \<Rightarrow> string \<Rightarrow> template_error + string" where
  "substitute_placeholders et ch vars text = substitute_pieces et ch vars (pieces text)"

definition render_template ::
  "seeds \<Rightarrow> NotificationEventType \<Rightarrow> NotificationChannel \<Rightarrow> (string \<rightharpoonup> string) \<Rightarrow> TemplateText option
    \<Rightarrow> template_error + RenderedMessage" where
  "render_template seed et ch vars template =
     (let source = (case template of None \<Rightarrow> seed et ch | Some t \<Rightarrow> t) in
      case substitute_placeholders et ch vars (tt_title source) of Inl e \<Rightarrow> Inl e | Inr title \<Rightarrow>
      case substitute_placeholders et ch vars (tt_body source) of Inl e \<Rightarrow> Inl e | Inr body \<Rightarrow>
      Inr \<lparr>rm_title = title, rm_body = body\<rparr>)"

section \<open>The write gate\<close>

definition UNSAFE_TEMPLATE_MARKERS :: "string list" where
  "UNSAFE_TEMPLATE_MARKERS = [''{{'', ''}}'', ''{%'', ''${'']"

fun occurs_in :: "string \<Rightarrow> string \<Rightarrow> bool" where
  "occurs_in m [] = (m = [])"
| "occurs_in m (c # cs) = (take (length m) (c # cs) = m \<or> occurs_in m cs)"

definition find_unsafe_template_marker :: "string \<Rightarrow> string option" where
  "find_unsafe_template_marker text = find (\<lambda>m. occurs_in m text) UNSAFE_TEMPLATE_MARKERS"

definition first_bad_hole :: "NotificationEventType \<Rightarrow> string \<Rightarrow> string option" where
  "first_bad_hole et text = find (\<lambda>n. \<not> whitelisted et n)
     (concat (map (\<lambda>p. case p of Lit c \<Rightarrow> [] | Hole n \<Rightarrow> [n]) (pieces text)))"

definition validate_admin_template ::
  "NotificationEventType \<Rightarrow> NotificationChannel \<Rightarrow> string \<Rightarrow> string \<Rightarrow> template_error + unit" where
  "validate_admin_template et ch title body =
     (case find_unsafe_template_marker title of Some m \<Rightarrow> Inl (UnsafeTemplateMarkup et ch ''title'' m) | None \<Rightarrow>
      case find_unsafe_template_marker body of Some m \<Rightarrow> Inl (UnsafeTemplateMarkup et ch ''template_body'' m) | None \<Rightarrow>
      case first_bad_hole et title of Some n \<Rightarrow> Inl (InvalidTemplate et ch n (EVENT_VARIABLES et)) | None \<Rightarrow>
      case first_bad_hole et body of Some n \<Rightarrow> Inl (InvalidTemplate et ch n (EVENT_VARIABLES et)) | None \<Rightarrow>
      Inr ())"

text \<open>The check that runs when the module is imported.\<close>

definition validate_seed_templates :: "seeds \<Rightarrow> bool" where
  "validate_seed_templates seed \<longleftrightarrow> list_all (\<lambda>et. list_all (\<lambda>ch.
     first_bad_hole et (tt_title (seed et ch)) = None \<and> first_bad_hole et (tt_body (seed et ch)) = None)
     all_channels) all_event_types"

section \<open>What the scanner reads\<close>

fun text_of :: "piece list \<Rightarrow> string" where
  "text_of [] = []"
| "text_of (Lit c # ps) = c # text_of ps"
| "text_of (Hole n # ps) = CHR ''{'' # n @ CHR ''}'' # text_of ps"

lemma hole_at_Some: "hole_at cs = Some (n, rest) \<longleftrightarrow> cs = n @ CHR ''}'' # rest \<and> list_all (\<lambda>c. \<not> brace c) n"
proof
  assume h: "hole_at cs = Some (n, rest)"
  then have d: "dropWhile (\<lambda>c. \<not> brace c) cs = CHR ''}'' # rest" "n = takeWhile (\<lambda>c. \<not> brace c) cs"
    by (auto simp: hole_at_def split: list.splits if_splits)
  then show "cs = n @ CHR ''}'' # rest \<and> list_all (\<lambda>c. \<not> brace c) n"
    using takeWhile_dropWhile_id [of "\<lambda>c. \<not> brace c" cs] by (auto simp: list_all_iff dest: set_takeWhileD)
next
  assume "cs = n @ CHR ''}'' # rest \<and> list_all (\<lambda>c. \<not> brace c) n"
  then show "hole_at cs = Some (n, rest)"
    by (simp add: hole_at_def list_all_iff brace_def dropWhile_append3 takeWhile_tail)
qed

lemma text_of_pieces: "text_of (pieces t) = t"
  by (induction t rule: pieces.induct) (auto simp: hole_at_Some split: option.splits)

lemma pieces_eq_Nil [simp]: "pieces t = [] \<longleftrightarrow> t = []"
  by (cases t) (auto split: option.splits)

text \<open>A text made of brace-free literals and named holes is read back as written.\<close>

fun plain :: "piece \<Rightarrow> bool" where
  "plain (Lit c) = (\<not> brace c)"
| "plain (Hole n) = list_all (\<lambda>c. \<not> brace c) n"

lemma pieces_text_of: "list_all plain ps \<Longrightarrow> pieces (text_of ps) = ps"
proof (induction ps rule: text_of.induct)
  case (3 n ps)
  then have "hole_at (n @ CHR ''}'' # text_of ps) = Some (n, text_of ps)" by (simp add: hole_at_Some)
  then show ?case using 3 by simp
qed (auto simp: brace_def)

section \<open>What the gate promises\<close>

fun holes :: "piece list \<Rightarrow> string list" where
  "holes [] = []"
| "holes (Lit c # ps) = holes ps"
| "holes (Hole n # ps) = n # holes ps"

fun fill :: "(string \<rightharpoonup> string) \<Rightarrow> piece list \<Rightarrow> string" where
  "fill vars [] = []"
| "fill vars (Lit c # ps) = c # fill vars ps"
| "fill vars (Hole n # ps) = the (vars n) @ fill vars ps"

lemma holes_eq: "concat (map (\<lambda>p. case p of Lit c \<Rightarrow> [] | Hole n \<Rightarrow> [n]) ps) = holes ps"
  by (induction ps rule: holes.induct) auto

lemma first_bad_None: "first_bad_hole et t = None \<longleftrightarrow> (\<forall>n\<in>set (holes (pieces t)). whitelisted et n)"
  by (auto simp: first_bad_hole_def holes_eq find_None_iff)

lemma substitute_clean:
  "\<forall>n\<in>set (holes ps). whitelisted et n \<and> vars n \<noteq> None \<Longrightarrow> substitute_pieces et ch vars ps = Inr (fill vars ps)"
  by (induction ps rule: holes.induct) (auto split: option.split)

lemma substitute_Inr: "substitute_pieces et ch vars ps = Inr t
    \<Longrightarrow> (\<forall>n\<in>set (holes ps). whitelisted et n \<and> vars n \<noteq> None) \<and> t = fill vars ps"
  by (induction ps arbitrary: t rule: holes.induct) (auto split: option.splits sum.splits if_splits)

lemma substitute_Invalid: "substitute_pieces et ch vars ps = Inl (InvalidTemplate a b n k)
    \<Longrightarrow> n \<in> set (holes ps) \<and> \<not> whitelisted et n"
  by (induction ps rule: holes.induct) (auto split: option.splits sum.splits if_splits)

lemma validate_Inr: "validate_admin_template et ch title body = Inr u \<longleftrightarrow>
    find_unsafe_template_marker title = None \<and> find_unsafe_template_marker body = None
    \<and> (\<forall>n\<in>set (holes (pieces title)) \<union> set (holes (pieces body)). whitelisted et n)"
  by (auto simp: validate_admin_template_def first_bad_None [symmetric] ball_Un split: option.splits)

text \<open>The write gate and the renderer agree, and nobody can inject a second substitution: a template the gate
  accepts is read as literal characters and whitelisted placeholders that spell exactly its text; from any
  variables that give the placeholders it uses a value it renders, and the result is the literals and the values,
  each value inserted verbatim whatever braces it contains.\<close>

theorem accepted_template_renders_verbatim:
  assumes "validate_admin_template et ch title body = Inr ()"
    and "\<forall>n\<in>set (holes (pieces title)) \<union> set (holes (pieces body)). vars n \<noteq> None"
  shows "text_of (pieces title) = title \<and> text_of (pieces body) = body
    \<and> set (holes (pieces title)) \<union> set (holes (pieces body)) \<subseteq> set (EVENT_VARIABLES et)
    \<and> render_template seed et ch vars (Some \<lparr>tt_title = title, tt_body = body\<rparr>)
      = Inr \<lparr>rm_title = fill vars (pieces title), rm_body = fill vars (pieces body)\<rparr>"
proof -
  have white: "\<forall>n\<in>set (holes (pieces title)) \<union> set (holes (pieces body)). whitelisted et n"
    using assms(1) by (simp add: validate_Inr)
  then have "substitute_pieces et ch vars (pieces title) = Inr (fill vars (pieces title))"
    "substitute_pieces et ch vars (pieces body) = Inr (fill vars (pieces body))"
    using assms(2) by (auto intro!: substitute_clean)
  then show ?thesis
    using white by (auto simp: render_template_def substitute_placeholders_def text_of_pieces whitelisted_def)
qed

text \<open>A template composed of literals without braces and of placeholders is read back as composed.\<close>

lemma composed_template_renders:
  assumes "list_all plain ps" "\<forall>n\<in>set (holes ps). whitelisted et n \<and> vars n \<noteq> None"
  shows "substitute_placeholders et ch vars (text_of ps) = Inr (fill vars ps)"
  using assms by (simp add: substitute_placeholders_def pieces_text_of substitute_clean)

definition demo_body :: string where "demo_body = ''{task_title}: +{reward_points}''"
definition demo_values :: "string \<rightharpoonup> string" where
  "demo_values = [''task_title'' \<mapsto> ''{reward_points}'', ''reward_points'' \<mapsto> ''7'']"

theorem accepted_template_renders_verbatim_witness:
  "render_template (\<lambda>_ _. \<lparr>tt_title = [], tt_body = []\<rparr>) SUBMISSION_APPROVED SMS demo_values
     (Some \<lparr>tt_title = demo_body, tt_body = demo_body\<rparr>)
   = Inr \<lparr>rm_title = ''{reward_points}: +7'', rm_body = ''{reward_points}: +7''\<rparr>"
proof -
  have h: "holes (pieces demo_body) = [''task_title'', ''reward_points'']" by code_simp
  have gate: "validate_admin_template SUBMISSION_APPROVED SMS demo_body demo_body = Inr ()" by code_simp
  have filled: "fill demo_values (pieces demo_body) = ''{reward_points}: +7''" by code_simp
  show ?thesis
    using accepted_template_renders_verbatim [OF gate, of demo_values] by (simp add: h filled) (simp add: demo_values_def)
qed

end
