(* ===== verification/Outbox.thy ===== *)
theory Outbox
  imports Messages Deadlines
begin

text \<open>
  From a business event to durable deliveries: channel eligibility (\<open>notifications/service.py\<close>), the
  reminder planner (\<open>deadline_scheduler.py\<close>), the event routing (\<open>event_handlers.py\<close>), the tables
  (\<open>models.py\<close>) and the port that writes them inside the caller's transaction (\<open>port.py\<close>).
\<close>

section \<open>The text form of an identifier\<close>

definition hex_digits :: string where "hex_digits = ''0123456789abcdef''"

fun hex_text :: "nat \<Rightarrow> nat \<Rightarrow> string" where
  "hex_text 0 n = []"
| "hex_text (Suc k) n = hex_text k (n div 16) @ [hex_digits ! (n mod 16)]"

definition uuid_str :: "uuid \<Rightarrow> string" where
  "uuid_str u = (let h = hex_text 32 u in take 8 h @ ''-'' @ take 4 (drop 8 h) @ ''-'' @ take 4 (drop 12 h)
     @ ''-'' @ take 4 (drop 16 h) @ ''-'' @ drop 20 h)"

definition hex_value :: "char \<Rightarrow> nat option" where
  "hex_value c = (let n = (of_char c :: nat) in
     if 48 \<le> n \<and> n \<le> 57 then Some (n - 48)
     else if 97 \<le> n \<and> n \<le> 102 then Some (n - 87)
     else if 65 \<le> n \<and> n \<le> 70 then Some (n - 55) else None)"

fun read_hex :: "nat \<Rightarrow> string \<Rightarrow> nat option" where
  "read_hex acc [] = Some acc"
| "read_hex acc (c # cs) = (case hex_value c of None \<Rightarrow> None | Some v \<Rightarrow> read_hex (16 * acc + v) cs)"

text \<open>The 8-4-4-4-12 group of \<open>_CLAIM_EVENT_KEY_RE\<close> and its value.\<close>

definition strict_uuid :: "string \<Rightarrow> uuid option" where
  "strict_uuid t = (if length t = 36 \<and> t ! 8 = CHR ''-'' \<and> t ! 13 = CHR ''-'' \<and> t ! 18 = CHR ''-'' \<and> t ! 23 = CHR ''-''
     then read_hex 0 (take 8 t @ take 4 (drop 9 t) @ take 4 (drop 14 t) @ take 4 (drop 19 t) @ drop 24 t) else None)"

definition claim_id_from_event_key :: "string \<Rightarrow> uuid option" where
  "claim_id_from_event_key key = (if take 6 key = ''claim:'' \<and> 42 < length key \<and> key ! 42 = CHR '':''
     then strict_uuid (take 36 (drop 6 key)) else None)"

section \<open>Recipients and policies\<close>

text \<open>The columns of \<open>User\<close> that routing reads.\<close>

record recipient =
  rc_id :: uuid
  rc_status :: UserStatus
  rc_phone_e164 :: "string option"
  rc_email_normalized :: "string option"
  rc_email_verified_at :: "instant option"

record TaskNotificationPolicy =
  np_notify_24h :: bool
  np_notify_4h :: bool
  np_channels :: "string list"

definition default_policy :: TaskNotificationPolicy where
  "default_policy = \<lparr>np_notify_24h = True, np_notify_4h = True, np_channels = map channel_value all_channels\<rparr>"

definition from_task :: "task \<Rightarrow> TaskNotificationPolicy" where
  "from_task t = \<lparr>np_notify_24h = tk_notify_24h t, np_notify_4h = tk_notify_4h t,
     np_channels = tk_notification_channels t\<rparr>"

definition DEADLINE_REMINDER_EVENTS :: "NotificationEventType list" where
  "DEADLINE_REMINDER_EVENTS = [ASSIGNMENT_DEADLINE_24H, ASSIGNMENT_DEADLINE_4H]"

datatype ChannelStatus = ELIGIBLE | SKIPPED_CHANNEL

record ChannelDecision =
  dc_channel :: NotificationChannel
  dc_status :: ChannelStatus
  dc_reason :: "string option"

text \<open>Python's truth of an optional text: absent and empty are both false.\<close>

definition present :: "string option \<Rightarrow> bool" where
  "present t \<longleftrightarrow> t \<noteq> None \<and> t \<noteq> Some []"

definition skip_reason ::
  "recipient \<Rightarrow> TaskNotificationPolicy \<Rightarrow> NotificationEventType \<Rightarrow> NotificationChannel \<Rightarrow> string option" where
  "skip_reason user policy et ch =
     (if rc_status user = BANNED then Some ''account_banned''
      else if rc_status user = PENDING_PHONE then Some ''account_pending_phone''
      else if et \<in> set DEADLINE_REMINDER_EVENTS \<and> et = ASSIGNMENT_DEADLINE_24H \<and> \<not> np_notify_24h policy
      then Some ''task_notify_24h_disabled''
      else if et \<in> set DEADLINE_REMINDER_EVENTS \<and> et = ASSIGNMENT_DEADLINE_4H \<and> \<not> np_notify_4h policy
      then Some ''task_notify_4h_disabled''
      else if et \<in> set DEADLINE_REMINDER_EVENTS \<and> channel_value ch \<notin> set (np_channels policy)
      then Some ''task_channel_disabled''
      else if ch = SMS \<and> \<not> present (rc_phone_e164 user) then Some ''no_phone''
      else if ch = EMAIL \<and> \<not> present (rc_email_normalized user) then Some ''no_email''
      else if ch = EMAIL \<and> rc_email_verified_at user = None then Some ''email_not_verified''
      else None)"

datatype notify_error =
    UnknownEventType string
  | PolicyRequired
  | NaiveInstant string
  | UnknownClaimStatus string
  | BadClaimId string
  | BadDeadline
  | MissingUser string uuid
  | NoTextForm string
  | RenderError template_error
  | TitleTooLong string
  | MissingReference uuid
  | NoAddress uuid
  | ResolverRequired
  | ReminderRequiresInApp
  | BadReminderKey string

text \<open>Only a deadline reminder reads the policy, and it needs one.\<close>

definition eligible_channels ::
  "recipient \<Rightarrow> TaskNotificationPolicy option \<Rightarrow> NotificationEventType \<Rightarrow> notify_error + ChannelDecision list" where
  "eligible_channels user policy et =
     (if et \<in> set DEADLINE_REMINDER_EVENTS \<and> policy = None then Inl PolicyRequired
      else Inr (map (\<lambda>ch. let reason = skip_reason user (case policy of None \<Rightarrow> default_policy | Some p \<Rightarrow> p) et ch in
        \<lparr>dc_channel = ch, dc_status = (if reason = None then ELIGIBLE else SKIPPED_CHANNEL), dc_reason = reason\<rparr>)
        all_channels))"

definition eligible_of :: "ChannelDecision list \<Rightarrow> NotificationChannel list" where
  "eligible_of ds = map dc_channel (filter (\<lambda>d. dc_status d = ELIGIBLE) ds)"

section \<open>Planning the reminders of a claim\<close>

definition ACTIONABLE_CLAIM_STATUSES :: "string list" where
  "ACTIONABLE_CLAIM_STATUSES = [''CLAIMED'', ''REVISION_REQUIRED'']"

definition SUPPRESSED_CLAIM_STATUSES :: "string list" where
  "SUPPRESSED_CLAIM_STATUSES = [''VALIDATING'', ''UNDER_REVIEW'', ''COMPLETED'', ''ABANDONED'', ''EXPIRED'']"

record ReminderSpec =
  rs_event_type :: NotificationEventType
  rs_key_suffix :: string
  rs_lead_time :: int

definition REMINDER_SPECS :: "ReminderSpec list" where
  "REMINDER_SPECS =
     [\<lparr>rs_event_type = ASSIGNMENT_DEADLINE_24H, rs_key_suffix = ''deadline_24h'', rs_lead_time = hours 24\<rparr>,
      \<lparr>rs_event_type = ASSIGNMENT_DEADLINE_4H, rs_key_suffix = ''deadline_4h'', rs_lead_time = hours 4\<rparr>]"

text \<open>\<open>DeliveryPlan\<close> and \<open>RecordIntent\<close> have the same fields.\<close>

record RecordIntent =
  in_event_key :: string
  in_event_type :: NotificationEventType
  in_user_id :: uuid
  in_scheduled_at :: instant
  in_channels :: "NotificationChannel list"

definition deadline_event_key :: "uuid \<Rightarrow> NotificationEventType \<Rightarrow> notify_error + string" where
  "deadline_event_key claim_id et = (case find (\<lambda>r. rs_event_type r = et) REMINDER_SPECS of
       None \<Rightarrow> Inl (UnknownEventType (event_type_value et))
     | Some r \<Rightarrow> Inr (''claim:'' @ uuid_str claim_id @ '':'' @ rs_key_suffix r))"

fun plan_reminders ::
  "uuid \<Rightarrow> uuid \<Rightarrow> instant \<Rightarrow> recipient \<Rightarrow> instant \<Rightarrow> TaskNotificationPolicy \<Rightarrow> ReminderSpec list
    \<Rightarrow> notify_error + RecordIntent list" where
  "plan_reminders claim_id user_id deadline user now policy [] = Inr []"
| "plan_reminders claim_id user_id deadline user now policy (r # rs) =
     (let scheduled_at = deadline - rs_lead_time r in
      if scheduled_at < now then plan_reminders claim_id user_id deadline user now policy rs
      else case eligible_channels user (Some policy) (rs_event_type r) of Inl e \<Rightarrow> Inl e | Inr ds \<Rightarrow>
      if eligible_of ds = [] then plan_reminders claim_id user_id deadline user now policy rs
      else case plan_reminders claim_id user_id deadline user now policy rs of Inl e \<Rightarrow> Inl e | Inr plans \<Rightarrow>
      Inr (\<lparr>in_event_key = ''claim:'' @ uuid_str claim_id @ '':'' @ rs_key_suffix r, in_event_type = rs_event_type r,
            in_user_id = user_id, in_scheduled_at = scheduled_at, in_channels = eligible_of ds\<rparr> # plans))"

definition schedule_claim_deadline_notifications ::
  "uuid \<Rightarrow> uuid \<Rightarrow> datetime \<Rightarrow> recipient \<Rightarrow> datetime \<Rightarrow> TaskNotificationPolicy
    \<Rightarrow> notify_error + RecordIntent list" where
  "schedule_claim_deadline_notifications claim_id user_id deadline user now policy =
     (case now of Naive n \<Rightarrow> Inl (NaiveInstant ''now'') | Aware t \<Rightarrow>
      case deadline of Naive n \<Rightarrow> Inl (NaiveInstant ''claim.deadline_at'') | Aware d \<Rightarrow>
      plan_reminders claim_id user_id d user t policy REMINDER_SPECS)"

definition should_send_reminder :: "string \<Rightarrow> datetime \<Rightarrow> datetime \<Rightarrow> notify_error + bool" where
  "should_send_reminder claim_status now scheduled =
     (case now of Naive n \<Rightarrow> Inl (NaiveInstant ''now'') | Aware t \<Rightarrow>
      case scheduled of Naive n \<Rightarrow> Inl (NaiveInstant ''scheduled'') | Aware d \<Rightarrow>
      if claim_status \<notin> set (ACTIONABLE_CLAIM_STATUSES @ SUPPRESSED_CLAIM_STATUSES)
      then Inl (UnknownClaimStatus claim_status)
      else Inr (claim_status \<in> set ACTIONABLE_CLAIM_STATUSES \<and> d \<le> t))"

section \<open>Routing an event\<close>

definition CLAIM_CREATED :: string where "CLAIM_CREATED = ''CLAIM_CREATED''"

text \<open>\<open>normalize_event_type\<close>: the planning trigger (none) or a member.\<close>

definition normalize_event_type :: "string \<Rightarrow> notify_error + NotificationEventType option" where
  "normalize_event_type s = (if s = CLAIM_CREATED then Inr None
     else case event_type_of s of None \<Rightarrow> Inl (UnknownEventType s) | Some et \<Rightarrow> Inr (Some et))"

text \<open>
  The claim facts of a payload: the id as a UUID or as a text (\<open>UUID(str(x))\<close>, an argument), the deadline as a
  \<open>datetime\<close>; a key that is absent or null means there is nothing to plan.
\<close>

type_synonym payload = "(string \<times> json) list"

definition claim_deadline_snapshot ::
  "(json \<Rightarrow> uuid option) \<Rightarrow> payload \<Rightarrow> notify_error + (uuid \<times> instant) option" where
  "claim_deadline_snapshot parse_id p =
     (case map_of p ''claim_id'' of None \<Rightarrow> Inr None | Some JNull \<Rightarrow> Inr None | Some raw \<Rightarrow>
      case map_of p ''deadline_at'' of None \<Rightarrow> Inr None | Some JNull \<Rightarrow> Inr None | Some d \<Rightarrow>
      case (case raw of JUuid u \<Rightarrow> Some u | _ \<Rightarrow> parse_id raw) of
        None \<Rightarrow> Inl (BadClaimId ''claim_id'') | Some u \<Rightarrow>
      case d of JTime t \<Rightarrow> Inr (Some (u, t)) | _ \<Rightarrow> Inl BadDeadline)"

definition deadline_planning_intents ::
  "(json \<Rightarrow> uuid option) \<Rightarrow> recipient \<Rightarrow> payload \<Rightarrow> instant \<Rightarrow> TaskNotificationPolicy option
    \<Rightarrow> notify_error + RecordIntent list" where
  "deadline_planning_intents parse_id user p now policy =
     (case claim_deadline_snapshot parse_id p of Inl e \<Rightarrow> Inl e | Inr None \<Rightarrow> Inr [] | Inr (Some (cid, d)) \<Rightarrow>
      case policy of None \<Rightarrow> Inl PolicyRequired | Some pol \<Rightarrow>
      schedule_claim_deadline_notifications cid (rc_id user) (Aware d) user (Aware now) pol)"

definition fanout_intent ::
  "recipient \<Rightarrow> string \<Rightarrow> NotificationEventType \<Rightarrow> instant \<Rightarrow> TaskNotificationPolicy option
    \<Rightarrow> notify_error + RecordIntent" where
  "fanout_intent user key et now policy =
     (case eligible_channels user policy et of Inl e \<Rightarrow> Inl e | Inr ds \<Rightarrow>
      Inr \<lparr>in_event_key = key, in_event_type = et, in_user_id = rc_id user, in_scheduled_at = now,
           in_channels = eligible_of ds\<rparr>)"

definition build_record_intents ::
  "(json \<Rightarrow> uuid option) \<Rightarrow> recipient \<Rightarrow> string \<Rightarrow> string \<Rightarrow> payload \<Rightarrow> instant
    \<Rightarrow> TaskNotificationPolicy option \<Rightarrow> notify_error + RecordIntent list" where
  "build_record_intents parse_id user key et p now policy =
     (case normalize_event_type et of Inl e \<Rightarrow> Inl e
      | Inr None \<Rightarrow> deadline_planning_intents parse_id user p now policy
      | Inr (Some t) \<Rightarrow>
        (case fanout_intent user key t now policy of Inl e \<Rightarrow> Inl e | Inr i \<Rightarrow>
         if t = NotificationEventType.SUBMISSION_VALIDATION_FAILED
         then (case deadline_planning_intents parse_id user p now policy of Inl e \<Rightarrow> Inl e | Inr is \<Rightarrow> Inr (i # is))
         else Inr [i]))"

section \<open>The tables\<close>

datatype DeliveryStatus = PENDING | RETRYABLE | SENDING | SENT | FAILED

record Notification =
  nf_id :: uuid
  nf_user_id :: uuid
  nf_event_key :: string
  nf_event_type :: NotificationEventType
  nf_title :: string
  nf_body :: string
  nf_read_at :: "instant option"
  nf_created_at :: instant

record NotificationDelivery =
  nd_id :: uuid
  nd_notification_id :: uuid
  nd_user_id :: uuid
  nd_event_key :: string
  nd_channel :: NotificationChannel
  nd_status :: DeliveryStatus
  nd_scheduled_at :: instant
  nd_attempts :: nat
  nd_sent_at :: "instant option"
  nd_provider_message_id :: "string option"
  nd_last_error :: "string option"
  nd_updated_at :: instant

record NotificationTemplate =
  tp_id :: uuid
  tp_event_type :: NotificationEventType
  tp_channel :: NotificationChannel
  tp_title :: string
  tp_template_body :: string
  tp_enabled :: bool
  tp_version :: nat

record outbox = core_db +
  recipients :: "recipient list"
  messages :: "Notification list"
  deliveries :: "NotificationDelivery list"
  templates :: "NotificationTemplate list"

definition note_key :: "Notification \<Rightarrow> string \<times> uuid" where
  "note_key n = (nf_event_key n, nf_user_id n)"

definition delivery_key :: "NotificationDelivery \<Rightarrow> string \<times> uuid \<times> NotificationChannel" where
  "delivery_key d = (nd_event_key d, nd_user_id d, nd_channel d)"

definition template_key :: "NotificationTemplate \<Rightarrow> NotificationEventType \<times> NotificationChannel" where
  "template_key t = (tp_event_type t, tp_channel t)"

section \<open>The port\<close>

text \<open>
  What the outside supplies: the seed texts, the ids and row instant the database generates, \<open>isoformat\<close> and
  \<open>str\<close> of numbers, and \<open>UUID(str(x))\<close>.
\<close>

record port_env =
  pe_seeds :: seeds
  pe_note_id :: "string \<Rightarrow> uuid"
  pe_delivery_id :: "string \<Rightarrow> NotificationChannel \<Rightarrow> uuid"
  pe_db_now :: instant
  pe_isoformat :: "instant \<Rightarrow> string"
  pe_str_int :: "int \<Rightarrow> string"
  pe_parse_id :: "json \<Rightarrow> uuid option"

fun render_value :: "port_env \<Rightarrow> string \<Rightarrow> json \<Rightarrow> notify_error + string" where
  "render_value env name (JStr s) = Inr s"
| "render_value env name (JTime t) = Inr (pe_isoformat env t)"
| "render_value env name (JInt n) = Inr (pe_str_int env n)"
| "render_value env name _ = Inl (NoTextForm name)"

fun render_variables :: "port_env \<Rightarrow> payload \<Rightarrow> string list \<Rightarrow> notify_error + (string \<times> string) list" where
  "render_variables env p [] = Inr []"
| "render_variables env p (n # ns) = (case map_of p n of
       None \<Rightarrow> render_variables env p ns
     | Some v \<Rightarrow> (case render_value env n v of Inl e \<Rightarrow> Inl e | Inr t \<Rightarrow>
        case render_variables env p ns of Inl e \<Rightarrow> Inl e | Inr vs \<Rightarrow> Inr ((n, t) # vs)))"

definition snapshot_event_key :: "string \<Rightarrow> NotificationChannel \<Rightarrow> string" where
  "snapshot_event_key key ch = key @ '':'' @ channel_value ch"

definition row_text :: "NotificationTemplate \<Rightarrow> TemplateText" where
  "row_text t = \<lparr>tt_title = tp_title t, tt_body = tp_template_body t\<rparr>"

definition channel_template ::
  "NotificationEventType \<Rightarrow> NotificationChannel \<Rightarrow> 'a outbox_scheme \<Rightarrow> NotificationTemplate option" where
  "channel_template et ch s = row_of template_key (et, ch) (templates s)"

definition render_in_app_snapshot ::
  "port_env \<Rightarrow> RecordIntent \<Rightarrow> NotificationTemplate option \<Rightarrow> (string \<rightharpoonup> string) \<Rightarrow> template_error + RenderedMessage" where
  "render_in_app_snapshot env i row vars =
     (let seed = render_template (pe_seeds env) (in_event_type i) IN_APP vars None in
      case row of None \<Rightarrow> seed | Some t \<Rightarrow>
      if tp_enabled t
      then (case render_template (pe_seeds env) (in_event_type i) IN_APP vars (Some (row_text t)) of
          Inl e \<Rightarrow> seed | Inr m \<Rightarrow> Inr m)
      else seed)"

definition render_channel_product ::
  "port_env \<Rightarrow> RecordIntent \<Rightarrow> NotificationChannel \<Rightarrow> (string \<rightharpoonup> string) \<Rightarrow> 'a outbox_scheme \<Rightarrow> RenderedMessage option" where
  "render_channel_product env i ch vars s =
     (case channel_template (in_event_type i) ch s of None \<Rightarrow> None | Some t \<Rightarrow>
      if \<not> tp_enabled t then None
      else (case render_template (pe_seeds env) (in_event_type i) ch vars (Some (row_text t)) of
          Inl e \<Rightarrow> None | Inr m \<Rightarrow> Some m))"

text \<open>Insert on conflict do nothing; a title over the column's 255 characters is an error of the database.\<close>

definition insert_notification ::
  "port_env \<Rightarrow> RecordIntent \<Rightarrow> RenderedMessage \<Rightarrow> 'a outbox_scheme \<Rightarrow> notify_error + (uuid \<times> 'a outbox_scheme)" where
  "insert_notification env i m s =
     (if 255 < length (rm_title m) then Inl (TitleTooLong (rm_title m))
      else case row_of note_key (in_event_key i, in_user_id i) (messages s) of
        Some n \<Rightarrow> Inr (nf_id n, s)
      | None \<Rightarrow> let n = \<lparr>nf_id = pe_note_id env (in_event_key i), nf_user_id = in_user_id i, nf_event_key = in_event_key i,
            nf_event_type = in_event_type i, nf_title = rm_title m, nf_body = rm_body m, nf_read_at = None,
            nf_created_at = pe_db_now env\<rparr>
          in Inr (nf_id n, s\<lparr>messages := messages s @ [n]\<rparr>))"

definition insert_delivery ::
  "port_env \<Rightarrow> RecordIntent \<Rightarrow> uuid \<Rightarrow> NotificationChannel \<Rightarrow> 'a outbox_scheme \<Rightarrow> 'a outbox_scheme" where
  "insert_delivery env i nid ch s =
     (if row_of delivery_key (in_event_key i, in_user_id i, ch) (deliveries s) \<noteq> None then s
      else s\<lparr>deliveries := deliveries s @ [\<lparr>nd_id = pe_delivery_id env (in_event_key i) ch, nd_notification_id = nid,
         nd_user_id = in_user_id i, nd_event_key = in_event_key i, nd_channel = ch, nd_status = PENDING,
         nd_scheduled_at = in_scheduled_at i, nd_attempts = 0, nd_sent_at = None, nd_provider_message_id = None,
         nd_last_error = None, nd_updated_at = pe_db_now env\<rparr>]\<rparr>)"

fun freeze_products ::
  "port_env \<Rightarrow> RecordIntent \<Rightarrow> (string \<rightharpoonup> string) \<Rightarrow> NotificationChannel list \<Rightarrow> 'a outbox_scheme
    \<Rightarrow> notify_error + ((NotificationChannel \<times> uuid) list \<times> 'a outbox_scheme)" where
  "freeze_products env i vars [] s = Inr ([], s)"
| "freeze_products env i vars (ch # chs) s =
     (case (if ch = IN_APP then None else render_channel_product env i ch vars s) of
        None \<Rightarrow> freeze_products env i vars chs s
      | Some m \<Rightarrow>
        (case insert_notification env (i\<lparr>in_event_key := snapshot_event_key (in_event_key i) ch\<rparr>) m s of
           Inl e \<Rightarrow> Inl e
         | Inr (nid, s1) \<Rightarrow> (case freeze_products env i vars chs s1 of Inl e \<Rightarrow> Inl e
             | Inr (ids, s2) \<Rightarrow> Inr ((ch, nid) # ids, s2))))"

definition persist_intent ::
  "port_env \<Rightarrow> payload \<Rightarrow> RecordIntent \<Rightarrow> 'a outbox_scheme \<Rightarrow> notify_error + 'a outbox_scheme" where
  "persist_intent env p i s =
     (if in_channels i = [] then Inr s
      else case render_variables env p (EVENT_VARIABLES (in_event_type i)) of Inl e \<Rightarrow> Inl e | Inr vs \<Rightarrow>
      case render_in_app_snapshot env i (channel_template (in_event_type i) IN_APP s) (map_of vs) of
        Inl e \<Rightarrow> Inl (RenderError e) | Inr m \<Rightarrow>
      case insert_notification env i m s of Inl e \<Rightarrow> Inl e | Inr (nid, s1) \<Rightarrow>
      case freeze_products env i (map_of vs) (in_channels i) s1 of Inl e \<Rightarrow> Inl e | Inr (ids, s2) \<Rightarrow>
      Inr (fold (\<lambda>ch. insert_delivery env i (case map_of ids ch of None \<Rightarrow> nid | Some j \<Rightarrow> j) ch) (in_channels i) s2))"

fun persist_intents ::
  "port_env \<Rightarrow> payload \<Rightarrow> RecordIntent list \<Rightarrow> 'a outbox_scheme \<Rightarrow> notify_error + 'a outbox_scheme" where
  "persist_intents env p [] s = Inr s"
| "persist_intents env p (i # is) s =
     (case persist_intent env p i s of Inl e \<Rightarrow> Inl e | Inr s1 \<Rightarrow> persist_intents env p is s1)"

definition port_record_event ::
  "port_env \<Rightarrow> instant \<Rightarrow> string \<Rightarrow> string \<Rightarrow> uuid \<Rightarrow> payload \<Rightarrow> TaskNotificationPolicy option \<Rightarrow> 'a outbox_scheme
    \<Rightarrow> notify_error + 'a outbox_scheme" where
  "port_record_event env now key et uid p policy s =
     (case row_of rc_id uid (recipients s) of None \<Rightarrow> Inl (MissingUser key uid) | Some user \<Rightarrow>
      case build_record_intents (pe_parse_id env) user key et p now policy of Inl e \<Rightarrow> Inl e | Inr is \<Rightarrow>
      persist_intents env p is s)"

end
