(* ===== verification/Comments.thy ===== *)
theory Comments
  imports Campus_Facts Collaborators Outbox
begin

text \<open>
  Comments on tasks: the tables of \<open>community/models.py\<close>, the gates of \<open>community/gates.py\<close>, the
  content rule, the serializers of \<open>community/serializers.py\<close> and every operation of
  \<open>community/comment_service.py\<close>.  Creating a comment reads its parent without a lock, so the state
  it reads and the state it writes are two arguments; every other operation locks the comment row.
\<close>

section \<open>Tables\<close>

record comment =
  cc_id :: uuid
  cc_task_id :: uuid
  cc_user_id :: uuid
  cc_parent_id :: "uuid option"
  cc_content :: string
  cc_is_anonymous :: bool
  cc_created_at :: instant
  cc_updated_at :: instant
  cc_deleted_at :: "instant option"
  cc_deleted_by :: "uuid option"
  cc_delete_reason :: "string option"
  cc_is_hard_hidden :: bool

record comment_revision =
  cr_comment_id :: uuid
  cr_content :: string
  cr_edited_at :: instant

record comment_vote =
  cv_comment_id :: uuid
  cv_user_id :: uuid
  cv_value :: int

record comment_reaction =
  cx_comment_id :: uuid
  cx_user_id :: uuid
  cx_emoji :: string

datatype ReportCategory = SPAM | HARASSMENT | PRIVACY | OTHER

datatype ReportStatus = OPEN | HANDLED | DISMISSED

record comment_report =
  rp_id :: uuid
  rp_comment_id :: uuid
  rp_reporter_user_id :: uuid
  rp_category :: ReportCategory
  rp_note :: "string option"
  rp_status :: ReportStatus
  rp_handled_by :: "uuid option"
  rp_handled_at :: "instant option"
  rp_created_at :: instant

record task_rating =
  rg_task_id :: uuid
  rg_user_id :: uuid
  rg_rating :: int

text \<open>
  \<open>user_names\<close> are the columns nickname and username of the account table, which are never NULL.
\<close>

record community_db = campus_db +
  user_names :: "uuid \<Rightarrow> string \<times> string"
  comments :: "comment list"
  comment_revisions :: "comment_revision list"
  comment_votes :: "comment_vote list"
  comment_reactions :: "comment_reaction list"
  comment_reports :: "comment_report list"
  task_ratings :: "task_rating list"

fun report_category_value :: "ReportCategory \<Rightarrow> string" where
  "report_category_value SPAM = ''SPAM''"
| "report_category_value HARASSMENT = ''HARASSMENT''"
| "report_category_value PRIVACY = ''PRIVACY''"
| "report_category_value OTHER = ''OTHER''"

fun report_status_value :: "ReportStatus \<Rightarrow> string" where
  "report_status_value OPEN = ''OPEN''"
| "report_status_value HANDLED = ''HANDLED''"
| "report_status_value DISMISSED = ''DISMISSED''"

section \<open>Errors\<close>

text \<open>
  \<open>IntegrityError\<close> is the database's own refusal, with the name of the violated constraint.  A
  value that is not of the expected Python type arrives as its JSON value.
\<close>

datatype community_error =
    CommenterNotFound uuid
  | CommenterNotParticipant uuid Role
  | CommenterNotStudent uuid Role
  | CommenterAccountNotActive uuid
  | CommentNotFound uuid
  | CommentDeleted uuid
  | CommentTaskNotFound uuid
  | ParentCommentNotFound uuid
  | ParentCommentCrossTask uuid uuid
  | ParentCommentDeleted uuid
  | CommentOwnerRequired uuid
  | ModerationReasonRequired
  | CommentModerationDenied uuid
  | CommentAdminRequired uuid
  | EmptyContent
  | ContentTooLong nat
  | InvalidVoteValue int
  | UnknownEmoji string
  | InvalidRating json
  | TaskCompletionRequired uuid uuid
  | InvalidReportCategory json
  | ReportNoteInvalid
  | ReportNoteTooLong nat
  | ReportViewDenied uuid
  | ReportClosureDenied uuid
  | ReportDismissReasonRequired
  | ReportNotFound uuid uuid
  | ReportAlreadyClosed uuid ReportStatus
  | RevealReasonRequired
  | RevealDenied Role
  | IntegrityError string

text \<open>The envelope of each; \<open>str\<close> is Python's text of a value.\<close>

fun community_envelope :: "(json \<Rightarrow> string) \<Rightarrow> community_error \<Rightarrow> business_error" where
  "community_envelope str (CommenterNotFound u) = Business NOT_FOUND 404 [(''user_id'', JUuid u)]"
| "community_envelope str (CommenterNotParticipant u r) = Business PERMISSION_DENIED 403
     [(''user_id'', JUuid u), (''role'', JStr (role_value r))]"
| "community_envelope str (CommenterNotStudent u r) = Business PERMISSION_DENIED 403
     [(''user_id'', JUuid u), (''role'', JStr (role_value r))]"
| "community_envelope str (CommenterAccountNotActive u) = Business ACCOUNT_NOT_ACTIVE 403
     [(''user_id'', JUuid u)]"
| "community_envelope str (CommentNotFound c) = Business NOT_FOUND 404 [(''comment_id'', JUuid c)]"
| "community_envelope str (CommentDeleted c) = Business VALIDATION_ERROR 400 [(''comment_id'', JUuid c)]"
| "community_envelope str (CommentTaskNotFound t) = Business NOT_FOUND 404 [(''task_id'', JUuid t)]"
| "community_envelope str (ParentCommentNotFound p) = Business VALIDATION_ERROR 400
     [(''parent_id'', JUuid p)]"
| "community_envelope str (ParentCommentCrossTask p t) = Business VALIDATION_ERROR 400
     [(''parent_id'', JUuid p), (''task_id'', JUuid t)]"
| "community_envelope str (ParentCommentDeleted p) = Business VALIDATION_ERROR 400
     [(''parent_id'', JUuid p)]"
| "community_envelope str (CommentOwnerRequired c) = Business PERMISSION_DENIED 403
     [(''comment_id'', JUuid c)]"
| "community_envelope str ModerationReasonRequired = Business VALIDATION_ERROR 400 []"
| "community_envelope str (CommentModerationDenied t) = Business PERMISSION_DENIED 403
     [(''task_id'', JUuid t)]"
| "community_envelope str (CommentAdminRequired c) = Business PERMISSION_DENIED 403
     [(''comment_id'', JUuid c)]"
| "community_envelope str EmptyContent = Business VALIDATION_ERROR 400 []"
| "community_envelope str (ContentTooLong n) = Business VALIDATION_ERROR 400
     [(''max_length'', JInt (int n))]"
| "community_envelope str (InvalidVoteValue v) = Business VALIDATION_ERROR 400
     [(''value'', JStr (str (JInt v)))]"
| "community_envelope str (UnknownEmoji e) = Business VALIDATION_ERROR 400 [(''emoji'', JStr e)]"
| "community_envelope str (InvalidRating v) = Business VALIDATION_ERROR 400 [(''rating'', v)]"
| "community_envelope str (TaskCompletionRequired u t) = Business PERMISSION_DENIED 403
     [(''user_id'', JUuid u), (''task_id'', JUuid t)]"
| "community_envelope str (InvalidReportCategory v) = Business VALIDATION_ERROR 400
     [(''category'', JStr (str v))]"
| "community_envelope str ReportNoteInvalid = Business VALIDATION_ERROR 400 []"
| "community_envelope str (ReportNoteTooLong n) = Business VALIDATION_ERROR 400
     [(''max_length'', JInt (int n))]"
| "community_envelope str (ReportViewDenied t) = Business PERMISSION_DENIED 403 [(''task_id'', JUuid t)]"
| "community_envelope str (ReportClosureDenied t) = Business PERMISSION_DENIED 403
     [(''task_id'', JUuid t)]"
| "community_envelope str ReportDismissReasonRequired = Business VALIDATION_ERROR 400 []"
| "community_envelope str (ReportNotFound t r) = Business NOT_FOUND 404
     [(''task_id'', JUuid t), (''report_id'', JUuid r)]"
| "community_envelope str (ReportAlreadyClosed r st) = Business VALIDATION_ERROR 409
     [(''report_id'', JUuid r), (''status'', JStr (report_status_value st))]"
| "community_envelope str RevealReasonRequired = Business VALIDATION_ERROR 400 []"
| "community_envelope str (RevealDenied r) = Business PERMISSION_DENIED 403 [(''role'', JStr (role_value r))]"
| "community_envelope str (IntegrityError c) = Business INTERNAL_ERROR 500 []"

section \<open>Gates\<close>

definition require_community_writer :: "uuid \<Rightarrow> 'a community_db_scheme \<Rightarrow> community_error + string" where
  "require_community_writer u s = (case row_of us_id u (users s) of None \<Rightarrow> Inl (CommenterNotFound u) | Some r \<Rightarrow>
     if \<not> has_any_role (us_role r) [STUDENT, TEACHER] then Inl (CommenterNotParticipant u (us_role r))
     else if us_status r \<noteq> UserStatus.ACTIVE then Inl (CommenterAccountNotActive u)
     else Inr (fst (user_names s u)))"

definition require_student_writer :: "uuid \<Rightarrow> 'a community_db_scheme \<Rightarrow> community_error + string" where
  "require_student_writer u s = (case row_of us_id u (users s) of None \<Rightarrow> Inl (CommenterNotFound u) | Some r \<Rightarrow>
     if us_role r \<noteq> STUDENT then Inl (CommenterNotStudent u (us_role r))
     else if us_status r \<noteq> UserStatus.ACTIVE then Inl (CommenterAccountNotActive u)
     else Inr (fst (user_names s u)))"

definition published_task :: "uuid \<Rightarrow> 'a community_db_scheme \<Rightarrow> bool" where
  "published_task t s = (case row_of tk_id t (tasks s) of None \<Rightarrow> False | Some r \<Rightarrow> tk_status r = PUBLISHED)"

definition require_visible_comment :: "uuid \<Rightarrow> 'a community_db_scheme \<Rightarrow> community_error + comment" where
  "require_visible_comment cid s = (case row_of cc_id cid (comments s) of None \<Rightarrow> Inl (CommentNotFound cid) | Some c \<Rightarrow>
     if cc_deleted_at c \<noteq> None then Inl (CommentDeleted cid)
     else if \<not> published_task (cc_task_id c) s then Inl (CommentTaskNotFound (cc_task_id c))
     else Inr c)"

text \<open>\<open>Some\<close> is the error that is raised.\<close>

definition require_task_moderation_site ::
  "bool \<Rightarrow> (uuid \<Rightarrow> community_error) \<Rightarrow> actor \<Rightarrow> uuid \<Rightarrow> 'a community_db_scheme \<Rightarrow> community_error option" where
  "require_task_moderation_site admit_admin denied a tid s =
     (if \<not> admit_admin \<and> actor_role a \<noteq> TEACHER then Some (denied tid)
      else case row_of tk_id tid (tasks s) of None \<Rightarrow> Some (CommentTaskNotFound tid) | Some t \<Rightarrow>
      if admit_admin \<and> is_admin (actor_role a) then None
      else if actor_role a \<noteq> TEACHER then Some (denied tid)
      else if tk_owner_teacher_id t = actor_user_id a then None
      else case row_of collaborator_key (tid, actor_user_id a) (collaborators s) of None \<Rightarrow> Some (denied tid)
      | Some r \<Rightarrow> if MODERATE_COMMUNITY \<in> set (co_permissions r) then None else Some (denied tid))"

section \<open>Content\<close>

text \<open>The Unicode category Cc on the code points 0 to 255.\<close>

definition control_character :: "char \<Rightarrow> bool" where
  "control_character c = (let n = (of_char c :: nat) in n \<le> 31 \<or> (127 \<le> n \<and> n \<le> 159))"

definition KEPT_CONTROL_CHARACTERS :: "char list" where
  "KEPT_CONTROL_CHARACTERS = [char_of (10 :: nat), char_of (9 :: nat)]"

definition strip_control_characters :: "string \<Rightarrow> string" where
  "strip_control_characters t = filter (\<lambda>c. c \<in> set KEPT_CONTROL_CHARACTERS \<or> \<not> control_character c) t"

definition normalize_comment_content :: "json \<Rightarrow> nat \<Rightarrow> community_error + string" where
  "normalize_comment_content content max_length = (case content of
       JStr t \<Rightarrow> (let normalized = py_strip (strip_control_characters t) in
         if normalized = [] then Inl EmptyContent
         else if max_length < length normalized then Inl (ContentTooLong max_length)
         else Inr normalized)
     | _ \<Rightarrow> Inl EmptyContent)"

definition require_moderation_reason :: "json \<Rightarrow> community_error + string" where
  "require_moderation_reason reason = (case reason of
       JStr t \<Rightarrow> (if py_strip t = [] then Inl ModerationReasonRequired else Inr (py_strip t))
     | _ \<Rightarrow> Inl ModerationReasonRequired)"

section \<open>What a reader sees\<close>

datatype author_display = NicknameDisplay string | AnonymousDisplay | DeletedDisplay

record comment_public =
  cp_id :: uuid
  cp_task_id :: uuid
  cp_parent_id :: "uuid option"
  cp_content :: "string option"
  cp_is_anonymous :: bool
  cp_author_display :: author_display
  cp_created_at :: instant
  cp_updated_at :: instant
  cp_edited :: bool
  cp_deleted :: bool

record moderation_comment = comment_public +
  mc_moderation_key :: "string option"
  mc_hard_hidden :: bool

definition serialize_public_comment :: "comment \<Rightarrow> string \<Rightarrow> bool \<Rightarrow> comment_public" where
  "serialize_public_comment c nickname edited =
     \<lparr>cp_id = cc_id c, cp_task_id = cc_task_id c, cp_parent_id = cc_parent_id c,
      cp_content = Some (cc_content c), cp_is_anonymous = cc_is_anonymous c,
      cp_author_display = (if cc_is_anonymous c then AnonymousDisplay else NicknameDisplay nickname),
      cp_created_at = cc_created_at c, cp_updated_at = cc_updated_at c, cp_edited = edited,
      cp_deleted = (cc_deleted_at c \<noteq> None)\<rparr>"

definition serialize_tombstone_comment :: "comment \<Rightarrow> comment_public" where
  "serialize_tombstone_comment c =
     \<lparr>cp_id = cc_id c, cp_task_id = cc_task_id c, cp_parent_id = cc_parent_id c,
      cp_content = None, cp_is_anonymous = cc_is_anonymous c, cp_author_display = DeletedDisplay,
      cp_created_at = cc_created_at c, cp_updated_at = cc_updated_at c, cp_edited = False,
      cp_deleted = True\<rparr>"

text \<open>
  \<open>hm key message\<close> is HMAC-SHA256, as bytes; \<open>hexdigest\<close> spells them.
\<close>

definition hexdigest :: "string \<Rightarrow> string" where
  "hexdigest d = concat (map (\<lambda>c. hex_text 2 (of_char c)) d)"

definition MODERATION_KEY_LABEL :: string where
  "MODERATION_KEY_LABEL = ''campusquest:community:moderation-key:v1''"

definition derive_moderation_key ::
  "(string \<Rightarrow> string \<Rightarrow> string) \<Rightarrow> uuid \<Rightarrow> uuid \<Rightarrow> string \<Rightarrow> string" where
  "derive_moderation_key hm t u secret =
     take 16 (hexdigest (hm (hm secret MODERATION_KEY_LABEL) (uuid_str t @ '':'' @ uuid_str u)))"

definition serialize_moderation_comment ::
  "(string \<Rightarrow> string \<Rightarrow> string) \<Rightarrow> comment \<Rightarrow> string \<Rightarrow> string \<Rightarrow> bool \<Rightarrow> moderation_comment" where
  "serialize_moderation_comment hm c nickname secret edited =
     \<lparr>cp_id = cc_id c, cp_task_id = cc_task_id c, cp_parent_id = cc_parent_id c,
      cp_content = Some (cc_content c), cp_is_anonymous = cc_is_anonymous c,
      cp_author_display = (if cc_is_anonymous c then AnonymousDisplay else NicknameDisplay nickname),
      cp_created_at = cc_created_at c, cp_updated_at = cc_updated_at c, cp_edited = edited,
      cp_deleted = (cc_deleted_at c \<noteq> None),
      mc_moderation_key = (if cc_is_anonymous c
        then Some (derive_moderation_key hm (cc_task_id c) (cc_user_id c) secret) else None),
      mc_hard_hidden = cc_is_hard_hidden c\<rparr>"

section \<open>Creating\<close>

record CreateComment =
  nc_task_id :: uuid
  nc_content :: json
  nc_parent_id :: "uuid option"
  nc_is_anonymous :: bool

definition validate_parent :: "uuid \<Rightarrow> uuid \<Rightarrow> 'a community_db_scheme \<Rightarrow> community_error option" where
  "validate_parent tid pid s = (case row_of cc_id pid (comments s) of None \<Rightarrow> Some (ParentCommentNotFound pid) | Some p \<Rightarrow>
     if cc_task_id p \<noteq> tid then Some (ParentCommentCrossTask pid tid)
     else if cc_deleted_at p \<noteq> None then Some (ParentCommentDeleted pid) else None)"

text \<open>The checks, all on unlocked reads, give the author's nickname and the stored content.\<close>

definition checked_comment ::
  "nat \<Rightarrow> actor \<Rightarrow> CreateComment \<Rightarrow> 'a community_db_scheme \<Rightarrow> community_error + (string \<times> string)" where
  "checked_comment max_length a cmd s =
     (case require_community_writer (actor_user_id a) s of Inl e \<Rightarrow> Inl e | Inr nickname \<Rightarrow>
      case normalize_comment_content (nc_content cmd) max_length of Inl e \<Rightarrow> Inl e | Inr content \<Rightarrow>
      if \<not> published_task (nc_task_id cmd) s then Inl (CommentTaskNotFound (nc_task_id cmd))
      else case Option.bind (nc_parent_id cmd) (\<lambda>p. validate_parent (nc_task_id cmd) p s) of
        Some e \<Rightarrow> Inl e | None \<Rightarrow> Inr (nickname, content))"

definition new_comment :: "actor \<Rightarrow> CreateComment \<Rightarrow> string \<Rightarrow> uuid \<Rightarrow> instant \<Rightarrow> comment" where
  "new_comment a cmd content cid now =
     \<lparr>cc_id = cid, cc_task_id = nc_task_id cmd, cc_user_id = actor_user_id a,
      cc_parent_id = nc_parent_id cmd, cc_content = content, cc_is_anonymous = nc_is_anonymous cmd,
      cc_created_at = now, cc_updated_at = now, cc_deleted_at = None, cc_deleted_by = None,
      cc_delete_reason = None, cc_is_hard_hidden = False\<rparr>"

text \<open>The insertion, with the table's keys: the primary key and the three references.\<close>

definition insert_comment :: "comment \<Rightarrow> 'a community_db_scheme \<Rightarrow> community_error + 'a community_db_scheme" where
  "insert_comment c s =
     (if cc_id c \<in> cc_id ` set (comments s) then Inl (IntegrityError ''pk_comments'')
      else if row_of tk_id (cc_task_id c) (tasks s) = None then Inl (IntegrityError ''fk_comments_task_id_tasks'')
      else if row_of us_id (cc_user_id c) (users s) = None then Inl (IntegrityError ''fk_comments_user_id_users'')
      else if (case cc_parent_id c of None \<Rightarrow> False | Some p \<Rightarrow> p \<notin> cc_id ` set (comments s))
      then Inl (IntegrityError ''fk_comments_parent_id_comments'')
      else Inr (s\<lparr>comments := comments s @ [c]\<rparr>))"

definition create_comment ::
  "nat \<Rightarrow> actor \<Rightarrow> CreateComment \<Rightarrow> uuid \<Rightarrow> instant \<Rightarrow> 'a community_db_scheme \<Rightarrow> 'a community_db_scheme
    \<Rightarrow> community_error + (comment_public \<times> 'a community_db_scheme)" where
  "create_comment max_length a cmd cid now seen s =
     (case checked_comment max_length a cmd seen of Inl e \<Rightarrow> Inl e | Inr (nickname, content) \<Rightarrow>
      let c = new_comment a cmd content cid now in
      case insert_comment c s of Inl e \<Rightarrow> Inl e
      | Inr s' \<Rightarrow> Inr (serialize_public_comment c nickname False, s'))"

section \<open>The public list\<close>

definition edited_flag :: "uuid \<Rightarrow> 'a community_db_scheme \<Rightarrow> bool" where
  "edited_flag cid s = list_ex (\<lambda>r. cr_comment_id r = cid) (comment_revisions s)"

text \<open>The rows of one task joined to their authors, newest first, ties by id.\<close>

definition thread_rows :: "uuid \<Rightarrow> 'a community_db_scheme \<Rightarrow> comment list" where
  "thread_rows tid s = sort_key (\<lambda>c. - cc_created_at c) (sort_key cc_id
     (filter (\<lambda>c. cc_task_id c = tid \<and> row_of us_id (cc_user_id c) (users s) \<noteq> None) (comments s)))"

definition thread_children :: "comment list \<Rightarrow> uuid \<Rightarrow> uuid list" where
  "thread_children rows cid = map cc_id (filter (\<lambda>c. cc_parent_id c = Some cid) rows)"

definition live :: "comment \<Rightarrow> bool" where
  "live c \<longleftrightarrow> cc_deleted_at c = None \<and> \<not> cc_is_hard_hidden c"

text \<open>One pass of the inner loop: the rendered ids so far and whether one was added.\<close>

fun render_pass :: "comment list \<Rightarrow> comment list \<Rightarrow> uuid set \<Rightarrow> uuid set \<times> bool" where
  "render_pass rows [] rendered = (rendered, False)"
| "render_pass rows (c # cs) rendered =
     (if cc_id c \<in> rendered \<or> cc_is_hard_hidden c \<or> cc_deleted_at c = None then render_pass rows cs rendered
      else if list_ex (\<lambda>k. k \<in> rendered) (thread_children rows (cc_id c))
      then (fst (render_pass rows cs (insert (cc_id c) rendered)), True)
      else render_pass rows cs rendered)"

lemma render_pass_grows: "rendered \<subseteq> fst (render_pass rows cs rendered)"
  by (induction cs arbitrary: rendered) (auto simp: subset_iff)

lemma render_pass_adds:
  "snd (render_pass rows cs rendered)
    \<Longrightarrow> \<exists>c\<in>set cs. cc_id c \<notin> rendered \<and> cc_id c \<in> fst (render_pass rows cs rendered)"
proof (induction cs arbitrary: rendered)
  case (Cons c cs)
  show ?case
  proof (cases "cc_id c \<in> rendered \<or> cc_is_hard_hidden c \<or> cc_deleted_at c = None
      \<or> \<not> list_ex (\<lambda>k. k \<in> rendered) (thread_children rows (cc_id c))")
    case True
    then show ?thesis using Cons by auto
  next
    case False
    then show ?thesis using render_pass_grows [of "insert (cc_id c) rendered" rows cs] by auto
  qed
qed simp

lemma render_pass_progress:
  assumes "snd (render_pass rows rows rendered)"
  shows "card (cc_id ` set rows - fst (render_pass rows rows rendered)) < card (cc_id ` set rows - rendered)"
proof (rule psubset_card_mono)
  obtain c where "c \<in> set rows" "cc_id c \<notin> rendered" "cc_id c \<in> fst (render_pass rows rows rendered)"
    using render_pass_adds [OF assms] by blast
  then show "cc_id ` set rows - fst (render_pass rows rows rendered) \<subset> cc_id ` set rows - rendered"
    using render_pass_grows [of rendered rows rows] by blast
qed simp

function render_loop :: "comment list \<Rightarrow> uuid set \<Rightarrow> uuid set" where
  "render_loop rows rendered =
     (if snd (render_pass rows rows rendered) then render_loop rows (fst (render_pass rows rows rendered))
      else fst (render_pass rows rows rendered))"
  by pat_completeness auto
termination
  by (relation "measure (\<lambda>(rows, rendered). card (cc_id ` set rows - rendered))")
    (auto intro: render_pass_progress)

declare render_loop.simps [simp del]

definition rendered_comment_ids :: "comment list \<Rightarrow> uuid set" where
  "rendered_comment_ids rows = render_loop rows (set (map cc_id (filter live rows)))"

definition serialize_row :: "comment \<Rightarrow> string \<Rightarrow> bool \<Rightarrow> comment_public" where
  "serialize_row c nickname edited = (if cc_deleted_at c \<noteq> None then serialize_tombstone_comment c
     else serialize_public_comment c nickname edited)"

definition list_comments ::
  "uuid \<Rightarrow> nat \<Rightarrow> nat \<Rightarrow> 'a community_db_scheme \<Rightarrow> community_error + (comment_public list \<times> nat)" where
  "list_comments tid limit offset s =
     (if \<not> published_task tid s then Inl (CommentTaskNotFound tid)
      else let rows = thread_rows tid s; rendered = rendered_comment_ids rows in
        Inr (take limit (drop offset (map (\<lambda>c. serialize_row c (fst (user_names s (cc_user_id c)))
            (edited_flag (cc_id c) s)) (filter (\<lambda>c. cc_id c \<in> rendered) rows))),
          card rendered))"

section \<open>Editing and deleting\<close>

definition put_comment :: "comment \<Rightarrow> 'a community_db_scheme \<Rightarrow> 'a community_db_scheme" where
  "put_comment c s = s\<lparr>comments := update_row cc_id (cc_id c) (\<lambda>_. c) (comments s)\<rparr>"

definition locked_comment :: "uuid \<Rightarrow> 'a community_db_scheme \<Rightarrow> community_error + comment" where
  "locked_comment cid s = (case row_of cc_id cid (comments s) of None \<Rightarrow> Inl (CommentNotFound cid) | Some c \<Rightarrow> Inr c)"

text \<open>The checks that the author's edit and the author's delete share.\<close>

definition own_comment :: "actor \<Rightarrow> uuid \<Rightarrow> 'a community_db_scheme \<Rightarrow> community_error + comment" where
  "own_comment a cid s = (case locked_comment cid s of Inl e \<Rightarrow> Inl e | Inr c \<Rightarrow>
     if cc_user_id c \<noteq> actor_user_id a then Inl (CommentOwnerRequired cid)
     else if cc_deleted_at c \<noteq> None then Inl (CommentDeleted cid) else Inr c)"

definition edit_comment ::
  "nat \<Rightarrow> actor \<Rightarrow> uuid \<Rightarrow> json \<Rightarrow> instant \<Rightarrow> 'a community_db_scheme
    \<Rightarrow> community_error + (comment_public \<times> 'a community_db_scheme)" where
  "edit_comment max_length a cid content now s =
     (case own_comment a cid s of Inl e \<Rightarrow> Inl e | Inr c \<Rightarrow>
      case normalize_comment_content content max_length of Inl e \<Rightarrow> Inl e | Inr new_content \<Rightarrow>
      if row_of us_id (cc_user_id c) (users s) = None then Inl (CommenterNotFound (cc_user_id c))
      else let c' = c\<lparr>cc_content := new_content, cc_updated_at := now\<rparr> in
        Inr (serialize_public_comment c' (fst (user_names s (cc_user_id c))) True,
          put_comment c' (s\<lparr>comment_revisions := comment_revisions s @
            [\<lparr>cr_comment_id = cid, cr_content = cc_content c, cr_edited_at = now\<rparr>]\<rparr>)))"

definition OWNER_DELETE_REASON :: string where "OWNER_DELETE_REASON = ''owner''"

definition HARD_HIDDEN_REASON_CODE :: string where "HARD_HIDDEN_REASON_CODE = ''ADMIN_HARD_HIDE''"

definition deleted_comment :: "instant \<Rightarrow> uuid \<Rightarrow> string \<Rightarrow> comment \<Rightarrow> comment" where
  "deleted_comment now u reason c = c\<lparr>cc_deleted_at := Some now, cc_deleted_by := Some u,
     cc_delete_reason := Some reason, cc_updated_at := now\<rparr>"

definition delete_own_comment ::
  "actor \<Rightarrow> uuid \<Rightarrow> string option \<Rightarrow> instant \<Rightarrow> 'a community_db_scheme
    \<Rightarrow> community_error + 'a community_db_scheme" where
  "delete_own_comment a cid reason now s = (case own_comment a cid s of Inl e \<Rightarrow> Inl e | Inr c \<Rightarrow>
     let stored = (case strip_or_none reason of None \<Rightarrow> OWNER_DELETE_REASON | Some t \<Rightarrow> t) in
     Inr (put_comment (deleted_comment now (actor_user_id a) stored c) s))"

definition moderate_delete_comment ::
  "actor \<Rightarrow> uuid \<Rightarrow> json \<Rightarrow> audit_context option \<Rightarrow> instant \<Rightarrow> 'a community_db_scheme
    \<Rightarrow> community_error + 'a community_db_scheme" where
  "moderate_delete_comment a cid reason ctx now s =
     (case locked_comment cid s of Inl e \<Rightarrow> Inl e | Inr c \<Rightarrow>
      case require_task_moderation_site False CommentModerationDenied a (cc_task_id c) s of Some e \<Rightarrow> Inl e | None \<Rightarrow>
      if cc_deleted_at c \<noteq> None then Inl (CommentDeleted cid)
      else case require_moderation_reason reason of Inl e \<Rightarrow> Inl e | Inr stored \<Rightarrow>
      Inr (audit_append a ''COMMENT_MODERATE_DELETED'' ''comment'' cid (Some stored)
        (Some (dict [(''task_id'', JUuid (cc_task_id c))]))
        (Some (dict [(''deleted_at'', jopt JTime (cc_deleted_at c)), (''delete_reason'', JNull),
                     (''is_hard_hidden'', JBool (cc_is_hard_hidden c))]))
        (Some (dict [(''deleted_at'', JTime now), (''deleted_by'', JUuid (actor_user_id a)),
                     (''delete_reason'', JStr stored), (''is_hard_hidden'', JBool (cc_is_hard_hidden c))])) ctx
        (publish_event \<lparr>ev_type = ''COMMENT_MODERATION_DELETED'', ev_aggregate_type = ''Comment'',
            ev_aggregate_id = cid, ev_occurred_at = now,
            ev_payload = [(''comment_id'', JUuid cid), (''task_id'', JUuid (cc_task_id c)),
              (''deleted_by'', JUuid (actor_user_id a)), (''reason'', JStr stored)]\<rparr>
          (put_comment (deleted_comment now (actor_user_id a) stored c) s))))"

section \<open>Hard hide\<close>

text \<open>
  The breadth-first collection of a subtree ends only when a batch is empty: on a cycle of parents
  it would not return, so its value is an option.
\<close>

partial_function (option) collect_subtree ::
  "comment list \<Rightarrow> uuid list \<Rightarrow> comment list \<Rightarrow> comment list option" where
  "collect_subtree table frontier subtree =
     (if frontier = [] then Some subtree
      else let batch = filter (\<lambda>c. case cc_parent_id c of None \<Rightarrow> False | Some p \<Rightarrow> p \<in> set frontier) table in
        collect_subtree table (map cc_id batch) (subtree @ batch))"

definition hidden_comment :: "instant \<Rightarrow> uuid \<Rightarrow> string \<Rightarrow> comment \<Rightarrow> comment" where
  "hidden_comment now u reason c = deleted_comment now u reason (c\<lparr>cc_is_hard_hidden := True\<rparr>)"

definition hide_rows :: "instant \<Rightarrow> uuid \<Rightarrow> string \<Rightarrow> uuid set \<Rightarrow> comment list \<Rightarrow> comment list" where
  "hide_rows now u reason ids table =
     map (\<lambda>c. if cc_id c \<in> ids then hidden_comment now u reason c else c) table"

definition admin_hard_hide_subtree ::
  "actor \<Rightarrow> uuid \<Rightarrow> json \<Rightarrow> audit_context option \<Rightarrow> instant \<Rightarrow> 'a community_db_scheme
    \<Rightarrow> (community_error + 'a community_db_scheme) option" where
  "admin_hard_hide_subtree a cid reason ctx now s =
     (if \<not> is_admin (actor_role a) then Some (Inl (CommentAdminRequired cid))
      else case locked_comment cid s of Inl e \<Rightarrow> Some (Inl e) | Inr root \<Rightarrow>
      case require_moderation_reason reason of Inl e \<Rightarrow> Some (Inl e) | Inr stored \<Rightarrow>
      case collect_subtree (comments s) [cid] [root] of None \<Rightarrow> None | Some subtree \<Rightarrow>
      let n = JInt (int (length subtree)); ids = map cc_id subtree;
          row_reason = HARD_HIDDEN_REASON_CODE @ '': '' @ stored in
      Some (Inr (audit_append a ''COMMENT_ADMIN_HARD_HIDDEN'' ''comment'' cid (Some stored)
        (Some (dict [(''task_id'', JUuid (cc_task_id root))]))
        (Some (dict [(''subtree_size'', n), (''root_is_hard_hidden'', JBool (cc_is_hard_hidden root)),
                     (''root_deleted_at'', jopt JTime (cc_deleted_at root))]))
        (Some (dict [(''subtree_size'', n), (''root_is_hard_hidden'', JBool True),
                     (''root_deleted_at'', JTime now), (''root_delete_reason_code'', JStr HARD_HIDDEN_REASON_CODE)])) ctx
        (publish_event \<lparr>ev_type = ''COMMENT_HARD_HIDDEN'', ev_aggregate_type = ''Comment'',
            ev_aggregate_id = cid, ev_occurred_at = now,
            ev_payload = [(''comment_id'', JUuid cid), (''task_id'', JUuid (cc_task_id root)),
              (''deleted_by'', JUuid (actor_user_id a)), (''reason'', JStr stored),
              (''hidden_comment_ids'', JList (map JUuid (sort ids)))]\<rparr>
          (s\<lparr>comments := hide_rows now (actor_user_id a) row_reason (set ids) (comments s)\<rparr>)))))"

end
