(* ===== verification/Engagement.thy ===== *)
theory Engagement
  imports Comments
begin

text \<open>
  Votes, reactions and ratings (\<open>community/vote_service.py\<close>, \<open>reaction_service.py\<close>,
  \<open>rating_service.py\<close>, \<open>settings_emoji_whitelist.py\<close>).  The three writes have one shape: gates, a
  read of the keyed row \<open>FOR UPDATE\<close>, a write, and one retry when the insertion lost the race to the
  unique key.  An attempt takes the state of its gates, the row it read and the state it writes: a row
  that was read stays locked, but a missing row can be inserted by somebody else meanwhile.
\<close>

section \<open>One attempt and its retry\<close>

type_synonym ('row, 'db) attempt = "'db \<times> 'row option \<times> 'db"

definition retry_once :: "string \<Rightarrow> community_error + 'r \<Rightarrow> community_error + 'r \<Rightarrow> community_error + 'r" where
  "retry_once anchor first second = (case first of
       Inl (IntegrityError c) \<Rightarrow> (if c = anchor then second else first)
     | _ \<Rightarrow> first)"

definition insert_anchored :: "string \<Rightarrow> ('row \<Rightarrow> 'k) \<Rightarrow> 'row \<Rightarrow> 'row list \<Rightarrow> community_error + 'row list" where
  "insert_anchored anchor key r t =
     (if key r \<in> key ` set t then Inl (IntegrityError anchor) else Inr (t @ [r]))"

definition delete_row :: "('row \<Rightarrow> 'k) \<Rightarrow> 'k \<Rightarrow> 'row list \<Rightarrow> 'row list" where
  "delete_row key k t = filter (\<lambda>r. key r \<noteq> k) t"

definition community_gate :: "uuid \<Rightarrow> uuid \<Rightarrow> 'a community_db_scheme \<Rightarrow> community_error option" where
  "community_gate u cid s = (case require_community_writer u s of Inl e \<Rightarrow> Some e | Inr _ \<Rightarrow>
     case require_visible_comment cid s of Inl e \<Rightarrow> Some e | Inr _ \<Rightarrow> None)"

section \<open>Votes\<close>

definition vote_key :: "comment_vote \<Rightarrow> uuid \<times> uuid" where
  "vote_key v = (cv_comment_id v, cv_user_id v)"

definition UQ_COMMENT_VOTES :: string where "UQ_COMMENT_VOTES = ''uq_comment_votes_comment_id_user_id''"

record vote_result =
  vr_current_value :: int
  vr_likes :: int
  vr_dislikes :: int

definition vote_counts :: "uuid \<Rightarrow> comment_vote list \<Rightarrow> int \<times> int" where
  "vote_counts cid t = (count_rows (\<lambda>v. cv_comment_id v = cid \<and> cv_value v = 1) t,
     count_rows (\<lambda>v. cv_comment_id v = cid \<and> cv_value v = -1) t)"

definition write_vote ::
  "uuid \<times> uuid \<Rightarrow> comment_vote option \<Rightarrow> int \<Rightarrow> comment_vote list \<Rightarrow> community_error + comment_vote list" where
  "write_vote k seen v t =
     (if v = 0 then (case seen of None \<Rightarrow> Inr t | Some w \<Rightarrow> Inr (delete_row vote_key k t))
      else case seen of
        None \<Rightarrow> insert_anchored UQ_COMMENT_VOTES vote_key
          \<lparr>cv_comment_id = fst k, cv_user_id = snd k, cv_value = v\<rparr> t
      | Some w \<Rightarrow> (if cv_value w \<noteq> v then Inr (update_row vote_key k (\<lambda>r. r\<lparr>cv_value := v\<rparr>) t) else Inr t))"

definition vote_attempt ::
  "uuid \<Rightarrow> uuid \<Rightarrow> int \<Rightarrow> (comment_vote, 'a community_db_scheme) attempt
    \<Rightarrow> community_error + (vote_result \<times> 'a community_db_scheme)" where
  "vote_attempt u cid v at = (case at of (gates, seen, s) \<Rightarrow>
     case community_gate u cid gates of Some e \<Rightarrow> Inl e | None \<Rightarrow>
     case write_vote (cid, u) seen v (comment_votes s) of Inl e \<Rightarrow> Inl e | Inr t \<Rightarrow>
     Inr (\<lparr>vr_current_value = v, vr_likes = fst (vote_counts cid t), vr_dislikes = snd (vote_counts cid t)\<rparr>,
       s\<lparr>comment_votes := t\<rparr>))"

definition set_vote ::
  "uuid \<Rightarrow> uuid \<Rightarrow> int \<Rightarrow> (comment_vote, 'a community_db_scheme) attempt
    \<Rightarrow> (comment_vote, 'a community_db_scheme) attempt \<Rightarrow> community_error + (vote_result \<times> 'a community_db_scheme)" where
  "set_vote u cid v first second = (if v \<noteq> -1 \<and> v \<noteq> 0 \<and> v \<noteq> 1 then Inl (InvalidVoteValue v)
     else retry_once UQ_COMMENT_VOTES (vote_attempt u cid v first) (vote_attempt u cid v second))"

section \<open>Reactions\<close>

definition reaction_key :: "comment_reaction \<Rightarrow> uuid \<times> uuid \<times> string" where
  "reaction_key x = (cx_comment_id x, cx_user_id x, cx_emoji x)"

definition UQ_COMMENT_REACTIONS :: string where
  "UQ_COMMENT_REACTIONS = ''uq_comment_reactions_comment_id_user_id_emoji''"

text \<open>
  The whitelist: the setting's row when there is one, else the seed \<open>default\<close>.  \<open>loads\<close> is
  \<open>json.loads\<close> (\<open>None\<close> when it raises); \<open>len\<close> counts code points; \<open>None\<close> is the \<open>ValueError\<close>.
\<close>

definition members_from ::
  "(string \<Rightarrow> json option) \<Rightarrow> (string \<Rightarrow> nat) \<Rightarrow> string \<Rightarrow> string list option" where
  "members_from loads len stored = (case loads stored of
       Some (JList items) \<Rightarrow>
         (if list_all (\<lambda>i. case i of JStr e \<Rightarrow> True | _ \<Rightarrow> False) items
          then let es = map (\<lambda>i. case i of JStr e \<Rightarrow> e | _ \<Rightarrow> []) items in
            (if list_all (\<lambda>e. 1 \<le> len e \<and> len e \<le> 8) es then Some es else None)
          else None)
     | _ \<Rightarrow> None)"

definition emoji_whitelist ::
  "(string \<Rightarrow> json option) \<Rightarrow> (string \<Rightarrow> nat) \<Rightarrow> string list \<Rightarrow> string option \<Rightarrow> string list option" where
  "emoji_whitelist loads len default_emoji configured = (case configured of
     None \<Rightarrow> Some default_emoji | Some stored \<Rightarrow> members_from loads len stored)"

text \<open>The answer of a toggle and the new table: \<open>True\<close> when the reaction is now there.\<close>

definition write_reaction ::
  "uuid \<times> uuid \<times> string \<Rightarrow> comment_reaction option \<Rightarrow> bool \<Rightarrow> comment_reaction list
    \<Rightarrow> community_error + (bool \<times> comment_reaction list)" where
  "write_reaction k seen judge t =
     (if (if judge then seen = None else True)
      then (case seen of Some x \<Rightarrow> Inr (True, t)
        | None \<Rightarrow> (case insert_anchored UQ_COMMENT_REACTIONS reaction_key
            \<lparr>cx_comment_id = fst k, cx_user_id = fst (snd k), cx_emoji = snd (snd k)\<rparr> t of
            Inl e \<Rightarrow> Inl e | Inr t' \<Rightarrow> Inr (True, t')))
      else case seen of Some x \<Rightarrow> Inr (False, delete_row reaction_key k t) | None \<Rightarrow> Inr (False, t))"

definition reaction_attempt ::
  "uuid \<Rightarrow> uuid \<Rightarrow> string \<Rightarrow> bool \<Rightarrow> (comment_reaction, 'a community_db_scheme) attempt
    \<Rightarrow> community_error + (bool \<times> 'a community_db_scheme)" where
  "reaction_attempt u cid emoji judge at = (case at of (gates, seen, s) \<Rightarrow>
     case community_gate u cid gates of Some e \<Rightarrow> Inl e | None \<Rightarrow>
     case write_reaction (cid, u, emoji) seen judge (comment_reactions s) of Inl e \<Rightarrow> Inl e
     | Inr (added, t) \<Rightarrow> Inr (added, s\<lparr>comment_reactions := t\<rparr>))"

definition toggle_reaction ::
  "string list \<Rightarrow> uuid \<Rightarrow> uuid \<Rightarrow> string \<Rightarrow> (comment_reaction, 'a community_db_scheme) attempt
    \<Rightarrow> (comment_reaction, 'a community_db_scheme) attempt \<Rightarrow> community_error + (bool \<times> 'a community_db_scheme)" where
  "toggle_reaction allowed u cid emoji first second =
     (if emoji \<notin> set allowed then Inl (UnknownEmoji emoji)
      else retry_once UQ_COMMENT_REACTIONS (reaction_attempt u cid emoji True first)
        (reaction_attempt u cid emoji False second))"

section \<open>Ratings\<close>

definition rating_key :: "task_rating \<Rightarrow> uuid \<times> uuid" where
  "rating_key r = (rg_task_id r, rg_user_id r)"

definition UQ_TASK_RATINGS :: string where "UQ_TASK_RATINGS = ''uq_task_ratings_task_id_user_id''"

definition valid_rating :: "json \<Rightarrow> int option" where
  "valid_rating v = (case v of JInt n \<Rightarrow> (if 1 \<le> n \<and> n \<le> 5 then Some n else None) | _ \<Rightarrow> None)"

definition completed_on :: "uuid \<Rightarrow> uuid \<Rightarrow> claim \<Rightarrow> bool" where
  "completed_on t u c \<longleftrightarrow> cl_task_id c = t \<and> cl_user_id c = u \<and> cl_status c = ClaimStatus.COMPLETED"

definition rating_gate :: "uuid \<Rightarrow> uuid \<Rightarrow> 'a community_db_scheme \<Rightarrow> community_error option" where
  "rating_gate u tid s = (case require_student_writer u s of Inl e \<Rightarrow> Some e | Inr _ \<Rightarrow>
     if row_of tk_id tid (tasks s) = None then Some (CommentTaskNotFound tid)
     else if \<not> list_ex (completed_on tid u) (claims s) then Some (TaskCompletionRequired u tid)
     else None)"

definition write_rating ::
  "uuid \<times> uuid \<Rightarrow> task_rating option \<Rightarrow> int \<Rightarrow> task_rating list \<Rightarrow> community_error + task_rating list" where
  "write_rating k seen n t = (case seen of
       None \<Rightarrow> insert_anchored UQ_TASK_RATINGS rating_key
         \<lparr>rg_task_id = fst k, rg_user_id = snd k, rg_rating = n\<rparr> t
     | Some r \<Rightarrow> Inr (update_row rating_key k (\<lambda>r. r\<lparr>rg_rating := n\<rparr>) t))"

definition rating_attempt ::
  "uuid \<Rightarrow> uuid \<Rightarrow> int \<Rightarrow> (task_rating, 'a community_db_scheme) attempt
    \<Rightarrow> community_error + (task_rating \<times> 'a community_db_scheme)" where
  "rating_attempt u tid n at = (case at of (gates, seen, s) \<Rightarrow>
     case rating_gate u tid gates of Some e \<Rightarrow> Inl e | None \<Rightarrow>
     case write_rating (tid, u) seen n (task_ratings s) of Inl e \<Rightarrow> Inl e
     | Inr t \<Rightarrow> Inr (\<lparr>rg_task_id = tid, rg_user_id = u, rg_rating = n\<rparr>, s\<lparr>task_ratings := t\<rparr>))"

definition rate_task ::
  "uuid \<Rightarrow> uuid \<Rightarrow> json \<Rightarrow> (task_rating, 'a community_db_scheme) attempt
    \<Rightarrow> (task_rating, 'a community_db_scheme) attempt \<Rightarrow> community_error + (task_rating \<times> 'a community_db_scheme)" where
  "rate_task u tid v first second = (case valid_rating v of None \<Rightarrow> Inl (InvalidRating v) | Some n \<Rightarrow>
     retry_once UQ_TASK_RATINGS (rating_attempt u tid n first) (rating_attempt u tid n second))"

text \<open>\<open>mean total n\<close> is \<open>float\<close> of the database's average.\<close>

definition rating_summary ::
  "(int \<Rightarrow> int \<Rightarrow> pyfloat) \<Rightarrow> uuid \<Rightarrow> 'a community_db_scheme \<Rightarrow> (pyfloat \<times> int) option" where
  "rating_summary mean tid s =
     (let n = count_rows (\<lambda>r. rg_task_id r = tid) (task_ratings s) in
      if n = 0 then None
      else Some (mean (sum_rows (\<lambda>r. rg_task_id r = tid) rg_rating (task_ratings s)) n, n))"

section \<open>What the retry gives\<close>

text \<open>
  The contract of a keyed write: it fails only on its own anchor, never when the row it read is the
  row of the table, it keeps the keys unique and touches no other row.
\<close>

locale anchored_write =
  fixes anchor :: string
    and key :: "'row \<Rightarrow> 'k"
    and keyed_write :: "'k \<Rightarrow> 'row option \<Rightarrow> 'v \<Rightarrow> 'row list \<Rightarrow> community_error + ('r \<times> 'row list)"
  assumes only_anchor: "keyed_write k seen v t = Inl e \<Longrightarrow> e = IntegrityError anchor"
    and serial_succeeds: "ok (keyed_write k (row_of key k t) v t)"
    and keeps_unique: "keyed_write k seen v t = Inr (r, t') \<Longrightarrow> distinct (map key t) \<Longrightarrow> distinct (map key t')"
    and other_rows: "keyed_write k seen v t = Inr (r, t') \<Longrightarrow> j \<noteq> k \<Longrightarrow> row_of key j t' = row_of key j t"
begin

lemma retried_write_succeeds:
  "ok (retry_once anchor (keyed_write k seen v t) (keyed_write k (row_of key k u) w u))"
  using only_anchor [of k seen v t] serial_succeeds [of k u w]
  by (cases "keyed_write k seen v t") (auto simp: retry_once_def)

end

definition answering :: "'r \<Rightarrow> community_error + 't \<Rightarrow> community_error + ('r \<times> 't)" where
  "answering r x = (case x of Inl e \<Rightarrow> Inl e | Inr t \<Rightarrow> Inr (r, t))"

lemma row_of_delete_row: "row_of key j (delete_row key k t) = (if j = k then None else row_of key j t)"
  by (induction t) (auto simp: delete_row_def)

lemma distinct_delete_row: "distinct (map key t) \<Longrightarrow> distinct (map key (delete_row key k t))"
  by (simp add: delete_row_def distinct_map_filter)

lemma insert_anchored_Inl: "insert_anchored anchor key r t = Inl e \<longleftrightarrow> e = IntegrityError anchor \<and> key r \<in> key ` set t"
  by (auto simp: insert_anchored_def)

lemma insert_anchored_Inr: "insert_anchored anchor key r t = Inr t' \<longleftrightarrow> t' = t @ [r] \<and> key r \<notin> key ` set t"
  by (auto simp: insert_anchored_def)

lemma row_keys [simp]:
  "vote_key (v\<lparr>cv_value := n\<rparr>) = vote_key v"
  "vote_key \<lparr>cv_comment_id = c, cv_user_id = u, cv_value = n\<rparr> = (c, u)"
  "reaction_key \<lparr>cx_comment_id = c, cx_user_id = u, cx_emoji = e\<rparr> = (c, u, e)"
  "rating_key (g\<lparr>rg_rating := n\<rparr>) = rating_key g"
  "rating_key \<lparr>rg_task_id = c, rg_user_id = u, rg_rating = n\<rparr> = (c, u)"
  by (simp_all add: vote_key_def reaction_key_def rating_key_def)

lemmas keyed_rows = insert_anchored_Inl insert_anchored_Inr row_of_delete_row distinct_delete_row
  row_of_append row_of_update_row keys_update_row

interpretation votes: anchored_write UQ_COMMENT_VOTES vote_key
  "\<lambda>k seen v t. answering () (write_vote k seen v t)"
proof unfold_locales
  show "ok (answering () (write_vote k (row_of vote_key k t) v t))" for k v t
    using row_of_None [of vote_key k t]
    by (auto simp: answering_def write_vote_def insert_anchored_def split: option.splits)
qed (auto simp: answering_def write_vote_def keyed_rows split: sum.splits option.splits if_splits)

interpretation reactions: anchored_write UQ_COMMENT_REACTIONS reaction_key write_reaction
proof unfold_locales
  show "ok (write_reaction k (row_of reaction_key k t) v t)" for k v t
    using row_of_None [of reaction_key k t]
    by (auto simp: write_reaction_def insert_anchored_def split: option.splits)
qed (auto simp: write_reaction_def keyed_rows split: sum.splits option.splits if_splits)

interpretation ratings: anchored_write UQ_TASK_RATINGS rating_key
  "\<lambda>k seen n t. answering () (write_rating k seen n t)"
proof unfold_locales
  show "ok (answering () (write_rating k (row_of rating_key k t) n t))" for k n t
    using row_of_None [of rating_key k t]
    by (auto simp: answering_def write_rating_def insert_anchored_def split: option.splits)
qed (auto simp: answering_def write_rating_def keyed_rows split: sum.splits option.splits if_splits)

end
