(* ===== verification/Comment_Reports.thy ===== *)
theory Comment_Reports
  imports Engagement
begin

text \<open>
  The moderation queue (\<open>community/report_service.py\<close>) and the identity reveal
  (\<open>moderation_service.py\<close>).  Filing reads without a lock: the row it found and the state it writes
  are separate arguments.  A closure holds the report's row lock, so it is one step.
\<close>

section \<open>Input\<close>

definition require_category :: "json \<Rightarrow> community_error + ReportCategory" where
  "require_category v = (case v of
       JStr t \<Rightarrow> (case member_with report_category_value [SPAM, HARASSMENT, PRIVACY, OTHER] t of
         None \<Rightarrow> Inl (InvalidReportCategory v) | Some c \<Rightarrow> Inr c)
     | _ \<Rightarrow> Inl (InvalidReportCategory v))"

definition normalize_report_note :: "json \<Rightarrow> nat \<Rightarrow> community_error + string option" where
  "normalize_report_note note max_length = (case note of
       JNull \<Rightarrow> Inr None
     | JStr t \<Rightarrow> (if py_strip t = [] then Inr None
         else if max_length < length (py_strip t) then Inl (ReportNoteTooLong max_length)
         else Inr (Some (py_strip t)))
     | _ \<Rightarrow> Inl ReportNoteInvalid)"

definition normalize_dismiss_reason :: "json \<Rightarrow> community_error + string" where
  "normalize_dismiss_reason reason = (case reason of
       JStr t \<Rightarrow> (if py_strip t = [] then Inl ReportDismissReasonRequired else Inr (py_strip t))
     | _ \<Rightarrow> Inl ReportDismissReasonRequired)"

definition normalize_reveal_reason :: "json \<Rightarrow> community_error + string" where
  "normalize_reveal_reason reason = (case reason of
       JStr t \<Rightarrow> (if py_strip t = [] then Inl RevealReasonRequired else Inr (py_strip t))
     | _ \<Rightarrow> Inl RevealReasonRequired)"

section \<open>Filing\<close>

definition report_key :: "comment_report \<Rightarrow> uuid \<times> uuid \<times> ReportCategory" where
  "report_key r = (rp_comment_id r, rp_reporter_user_id r, rp_category r)"

definition UQ_COMMENT_REPORTS :: string where
  "UQ_COMMENT_REPORTS = ''uq_comment_reports_comment_id_reporter_user_id_category''"

definition insert_report :: "comment_report \<Rightarrow> comment_report list \<Rightarrow> community_error + comment_report list" where
  "insert_report r t = (if rp_id r \<in> rp_id ` set t then Inl (IntegrityError ''pk_comment_reports'')
     else insert_anchored UQ_COMMENT_REPORTS report_key r t)"

definition new_report :: "uuid \<Rightarrow> uuid \<Rightarrow> uuid \<Rightarrow> ReportCategory \<Rightarrow> string option \<Rightarrow> instant \<Rightarrow> comment_report" where
  "new_report rid u cid category note now =
     \<lparr>rp_id = rid, rp_comment_id = cid, rp_reporter_user_id = u, rp_category = category, rp_note = note,
      rp_status = OPEN, rp_handled_by = None, rp_handled_at = None, rp_created_at = now\<rparr>"

text \<open>\<open>gates\<close> is the state the gates and the duplicate read see.\<close>

definition report_comment ::
  "nat \<Rightarrow> uuid \<Rightarrow> uuid \<Rightarrow> json \<Rightarrow> json \<Rightarrow> uuid \<Rightarrow> instant \<Rightarrow> 'a community_db_scheme \<Rightarrow> 'a community_db_scheme
    \<Rightarrow> community_error + (comment_report \<times> 'a community_db_scheme)" where
  "report_comment max_length u cid category note rid now gates s =
     (case require_category category of Inl e \<Rightarrow> Inl e | Inr c \<Rightarrow>
      case normalize_report_note note max_length of Inl e \<Rightarrow> Inl e | Inr stored \<Rightarrow>
      case community_gate u cid gates of Some e \<Rightarrow> Inl e | None \<Rightarrow>
      case row_of report_key (cid, u, c) (comment_reports gates) of Some r \<Rightarrow> Inr (r, s) | None \<Rightarrow>
      case insert_report (new_report rid u cid c stored now) (comment_reports s) of
        Inr t \<Rightarrow> Inr (new_report rid u cid c stored now, s\<lparr>comment_reports := t\<rparr>)
      | Inl e \<Rightarrow> (case row_of report_key (cid, u, c) (comment_reports s) of
          None \<Rightarrow> Inl e | Some winner \<Rightarrow> Inr (winner, s)))"

section \<open>The queue\<close>

record comment_report_view =
  rw_id :: uuid
  rw_comment :: moderation_comment
  rw_category :: ReportCategory
  rw_note :: "string option"
  rw_status :: ReportStatus
  rw_reporter_user_id :: "uuid option"
  rw_reporter_nickname :: "string option"
  rw_created_at :: instant
  rw_handled_by :: "uuid option"
  rw_handled_at :: "instant option"

definition report_view ::
  "(string \<Rightarrow> string \<Rightarrow> string) \<Rightarrow> string \<Rightarrow> 'a community_db_scheme \<Rightarrow> comment_report \<times> comment \<Rightarrow> comment_report_view" where
  "report_view hm secret s rc = (case rc of (r, c) \<Rightarrow>
     \<lparr>rw_id = rp_id r,
      rw_comment = serialize_moderation_comment hm c (fst (user_names s (cc_user_id c))) secret (edited_flag (cc_id c) s),
      rw_category = rp_category r, rw_note = rp_note r, rw_status = rp_status r,
      rw_reporter_user_id = (if rp_reporter_user_id r = cc_user_id c then None else Some (rp_reporter_user_id r)),
      rw_reporter_nickname = (if rp_reporter_user_id r = cc_user_id c then None
        else Some (fst (user_names s (rp_reporter_user_id r)))),
      rw_created_at = rp_created_at r, rw_handled_by = rp_handled_by r, rw_handled_at = rp_handled_at r\<rparr>)"

text \<open>Reports joined to the comments of one task, and the same joined to both accounts.\<close>

definition queue_pairs :: "uuid \<Rightarrow> 'a community_db_scheme \<Rightarrow> (comment_report \<times> comment) list" where
  "queue_pairs tid s = List.map_filter (\<lambda>r. case row_of cc_id (rp_comment_id r) (comments s) of
       None \<Rightarrow> None | Some c \<Rightarrow> (if cc_task_id c = tid then Some (r, c) else None)) (comment_reports s)"

definition known_user :: "uuid \<Rightarrow> 'a community_db_scheme \<Rightarrow> bool" where
  "known_user u s \<longleftrightarrow> row_of us_id u (users s) \<noteq> None"

definition queue_rows :: "uuid \<Rightarrow> 'a community_db_scheme \<Rightarrow> (comment_report \<times> comment) list" where
  "queue_rows tid s = sort_key (\<lambda>(r, c). - rp_created_at r) (sort_key (\<lambda>(r, c). rp_id r)
     (filter (\<lambda>(r, c). known_user (rp_reporter_user_id r) s \<and> known_user (cc_user_id c) s) (queue_pairs tid s)))"

definition list_task_reports ::
  "(string \<Rightarrow> string \<Rightarrow> string) \<Rightarrow> string \<Rightarrow> actor \<Rightarrow> uuid \<Rightarrow> nat \<Rightarrow> nat \<Rightarrow> 'a community_db_scheme
    \<Rightarrow> community_error + (comment_report_view list \<times> nat)" where
  "list_task_reports hm secret a tid limit offset s =
     (case require_task_moderation_site True ReportViewDenied a tid s of Some e \<Rightarrow> Inl e | None \<Rightarrow>
      let total = length (queue_pairs tid s) in
      if total = 0 \<or> total \<le> offset then Inr ([], total)
      else Inr (map (report_view hm secret s) (take limit (drop offset (queue_rows tid s))), total))"

section \<open>Closing\<close>

definition require_closable :: "actor \<Rightarrow> uuid \<Rightarrow> uuid \<Rightarrow> 'a community_db_scheme \<Rightarrow> community_error + comment_report" where
  "require_closable a tid rid s =
     (case require_task_moderation_site True ReportClosureDenied a tid s of Some e \<Rightarrow> Inl e | None \<Rightarrow>
      case row_of rp_id rid (comment_reports s) of None \<Rightarrow> Inl (ReportNotFound tid rid) | Some r \<Rightarrow>
      case row_of cc_id (rp_comment_id r) (comments s) of None \<Rightarrow> Inl (ReportNotFound tid rid) | Some c \<Rightarrow>
      if cc_task_id c = tid then Inr r else Inl (ReportNotFound tid rid))"

definition closed_report :: "ReportStatus \<Rightarrow> uuid \<Rightarrow> instant \<Rightarrow> comment_report \<Rightarrow> comment_report" where
  "closed_report target u now r = r\<lparr>rp_status := target, rp_handled_by := Some u, rp_handled_at := Some now\<rparr>"

definition closure_action :: "ReportStatus \<Rightarrow> string" where
  "closure_action target = (if target = DISMISSED then ''REPORT_DISMISSED'' else ''REPORT_HANDLED'')"

definition close_report ::
  "actor \<Rightarrow> uuid \<Rightarrow> comment_report \<Rightarrow> ReportStatus \<Rightarrow> string option \<Rightarrow> string option \<Rightarrow> audit_context option
    \<Rightarrow> instant \<Rightarrow> 'a community_db_scheme \<Rightarrow> community_error + (comment_report \<times> 'a community_db_scheme)" where
  "close_report a tid r target reason note ctx now s =
     (if rp_status r \<noteq> OPEN then Inl (ReportAlreadyClosed (rp_id r) (rp_status r))
      else let r' = closed_report target (actor_user_id a) now r in
      Inr (r', audit_append a (closure_action target) ''comment_report'' (rp_id r) reason
        (Some (dict ([(''task_id'', JUuid tid), (''comment_id'', JUuid (rp_comment_id r)),
            (''reporter_user_id'', JUuid (rp_reporter_user_id r))]
          @ (case note of None \<Rightarrow> [] | Some t \<Rightarrow> [(''note'', JStr t)]))))
        (Some (dict [(''status'', JStr (report_status_value OPEN))]))
        (Some (dict [(''status'', JStr (report_status_value target))])) ctx
        (s\<lparr>comment_reports := update_row rp_id (rp_id r) (\<lambda>_. r') (comment_reports s)\<rparr>)))"

definition dismiss_report ::
  "actor \<Rightarrow> uuid \<Rightarrow> uuid \<Rightarrow> json \<Rightarrow> audit_context option \<Rightarrow> instant \<Rightarrow> 'a community_db_scheme
    \<Rightarrow> community_error + (comment_report \<times> 'a community_db_scheme)" where
  "dismiss_report a tid rid reason ctx now s =
     (case normalize_dismiss_reason reason of Inl e \<Rightarrow> Inl e | Inr t \<Rightarrow>
      case require_closable a tid rid s of Inl e \<Rightarrow> Inl e | Inr r \<Rightarrow>
      if rp_status r = DISMISSED then Inr (r, s)
      else close_report a tid r DISMISSED (Some t) None ctx now s)"

definition handle_report ::
  "nat \<Rightarrow> actor \<Rightarrow> uuid \<Rightarrow> uuid \<Rightarrow> json \<Rightarrow> audit_context option \<Rightarrow> instant \<Rightarrow> 'a community_db_scheme
    \<Rightarrow> community_error + (comment_report \<times> 'a community_db_scheme)" where
  "handle_report max_length a tid rid note ctx now s =
     (case normalize_report_note note max_length of Inl e \<Rightarrow> Inl e | Inr stored \<Rightarrow>
      case require_closable a tid rid s of Inl e \<Rightarrow> Inl e | Inr r \<Rightarrow>
      if rp_status r = HANDLED then Inr (r, s)
      else close_report a tid r HANDLED None stored ctx now s)"

section \<open>Reveal\<close>

record revealed_identity =
  ri_user_id :: uuid
  ri_nickname :: string
  ri_username :: string

definition request_identity_reveal ::
  "actor \<Rightarrow> uuid \<Rightarrow> json \<Rightarrow> audit_context option \<Rightarrow> instant \<Rightarrow> 'a community_db_scheme
    \<Rightarrow> community_error + (revealed_identity \<times> 'a community_db_scheme)" where
  "request_identity_reveal a cid reason ctx now s =
     (if \<not> is_admin (actor_role a) then Inl (RevealDenied (actor_role a))
      else case normalize_reveal_reason reason of Inl e \<Rightarrow> Inl e | Inr t \<Rightarrow>
      case row_of cc_id cid (comments s) of None \<Rightarrow> Inl (CommentNotFound cid) | Some c \<Rightarrow>
      if \<not> known_user (cc_user_id c) s then Inl (CommenterNotFound (cc_user_id c))
      else Inr (\<lparr>ri_user_id = cc_user_id c, ri_nickname = fst (user_names s (cc_user_id c)),
          ri_username = snd (user_names s (cc_user_id c))\<rparr>,
        audit_append a ''COMMUNITY_IDENTITY_REVEAL'' ''comment'' cid (Some t)
          (Some (dict [(''task_id'', JUuid (cc_task_id c)), (''revealed_user_id'', JUuid (cc_user_id c))]))
          None None ctx
        (publish_event \<lparr>ev_type = ''COMMENT_IDENTITY_REVEALED'', ev_aggregate_type = ''Comment'',
            ev_aggregate_id = cid, ev_occurred_at = now,
            ev_payload = [(''actor_user_id'', JUuid (actor_user_id a)), (''comment_id'', JUuid cid),
              (''task_id'', JUuid (cc_task_id c)), (''reason'', JStr t),
              (''revealed_user_id'', JUuid (cc_user_id c))]\<rparr> s)))"

end
