(* ===== verification/Comment_Facts.thy ===== *)
theory Comment_Facts
  imports Comment_Reports
begin

text \<open>
  Threads: a comment table is \<open>threaded\<close> when every parent is an earlier row of the same task.  On
  such a table the breadth-first collection of the hard hide returns the descendants, and the loop
  of the public list computes the least set closed under its rule, which is then the only fixpoint.
\<close>

section \<open>Threads\<close>

definition threaded :: "comment list \<Rightarrow> bool" where
  "threaded t \<longleftrightarrow> distinct (map cc_id t)
     \<and> (\<forall>i<length t. \<forall>p. cc_parent_id (t ! i) = Some p
          \<longrightarrow> (\<exists>j<i. cc_id (t ! j) = p \<and> cc_task_id (t ! j) = cc_task_id (t ! i)))"

definition thread_key :: "comment \<Rightarrow> uuid \<times> uuid \<times> uuid option" where
  "thread_key c = (cc_id c, cc_task_id c, cc_parent_id c)"

lemma threaded_cong:
  assumes "map thread_key u = map thread_key t" "threaded t"
  shows "threaded u"
proof -
  have len: "length u = length t" using assms(1) by (rule map_eq_imp_length_eq)
  have eq: "thread_key (u ! i) = thread_key (t ! i)" if "i < length t" for i
    using arg_cong [OF assms(1), of "\<lambda>l. l ! i"] that len by simp
  have "map cc_id u = map cc_id t"
    using eq by (intro nth_equalityI) (simp_all add: len thread_key_def)
  moreover have "\<exists>j<i. cc_id (u ! j) = p \<and> cc_task_id (u ! j) = cc_task_id (u ! i)"
    if i: "i < length u" and p: "cc_parent_id (u ! i) = Some p" for i p
  proof -
    have "cc_parent_id (t ! i) = Some p" using eq [of i] i p by (simp add: len thread_key_def)
    then obtain j where "j < i" "cc_id (t ! j) = p" "cc_task_id (t ! j) = cc_task_id (t ! i)"
      using assms(2) i unfolding threaded_def len by blast
    then show ?thesis using eq [of i] eq [of j] i by (auto simp: len thread_key_def)
  qed
  ultimately show ?thesis using assms(2) by (simp add: threaded_def)
qed

lemma threaded_append:
  assumes "threaded t" "cc_id c \<notin> cc_id ` set t"
    and "\<And>p. cc_parent_id c = Some p \<Longrightarrow> \<exists>d\<in>set t. cc_id d = p \<and> cc_task_id d = cc_task_id c"
  shows "threaded (t @ [c])"
proof -
  have "\<exists>j<i. cc_id ((t @ [c]) ! j) = p \<and> cc_task_id ((t @ [c]) ! j) = cc_task_id ((t @ [c]) ! i)"
    if i: "i < length (t @ [c])" and p: "cc_parent_id ((t @ [c]) ! i) = Some p" for i p
  proof (cases "i < length t")
    case True
    then obtain j where "j < i" "cc_id (t ! j) = p" "cc_task_id (t ! j) = cc_task_id (t ! i)"
      using assms(1) p unfolding threaded_def by (auto simp: nth_append)
    then show ?thesis using True by (auto simp: nth_append intro!: exI [of _ j])
  next
    case False
    then have "i = length t" using i by simp
    with p obtain d where "d \<in> set t" "cc_id d = p" "cc_task_id d = cc_task_id c" using assms(3) by auto
    then obtain j where "j < length t" "t ! j = d" by (auto simp: in_set_conv_nth)
    then show ?thesis using \<open>i = length t\<close> \<open>cc_id d = p\<close> \<open>cc_task_id d = cc_task_id c\<close>
      by (auto simp: nth_append intro!: exI [of _ j])
  qed
  then show ?thesis using assms(1,2) by (simp add: threaded_def)
qed

definition replies :: "comment list \<Rightarrow> (uuid \<times> uuid) set" where
  "replies t = {(p, cc_id c) | p c. c \<in> set t \<and> cc_parent_id c = Some p}"

definition place :: "comment list \<Rightarrow> uuid \<Rightarrow> nat" where
  "place t k = length (takeWhile (\<lambda>c. cc_id c \<noteq> k) t)"

lemma place_nth: "distinct (map cc_id t) \<Longrightarrow> i < length t \<Longrightarrow> place t (cc_id (t ! i)) = i"
proof (induction t arbitrary: i)
  case (Cons a t)
  then show ?case
    by (cases i) (auto simp: place_def dest: nth_mem)
qed simp

lemma replies_forward:
  assumes "threaded t" "(p, k) \<in> replies t"
  shows "place t p < place t k \<and> place t k < length t
    \<and> (\<exists>c\<in>set t. \<exists>d\<in>set t. cc_id c = k \<and> cc_id d = p \<and> cc_task_id d = cc_task_id c)"
proof -
  obtain i where i: "i < length t" "cc_id (t ! i) = k" "cc_parent_id (t ! i) = Some p"
    using assms(2) by (auto simp: replies_def in_set_conv_nth)
  obtain j where j: "j < i" "cc_id (t ! j) = p" "cc_task_id (t ! j) = cc_task_id (t ! i)"
    using assms(1) i unfolding threaded_def by blast
  have "place t k = i" "place t p = j"
    using place_nth [of t i] place_nth [of t j] i j assms(1) by (auto simp: threaded_def)
  moreover have "t ! i \<in> set t" "t ! j \<in> set t" using i j by simp_all
  ultimately show ?thesis using i j by (intro conjI bexI [of _ "t ! i"] bexI [of _ "t ! j"]) simp_all
qed

lemma replies_trancl_forward:
  assumes "threaded t" "(p, k) \<in> (replies t)\<^sup>+"
  shows "place t p < place t k \<and> place t k < length t"
  using assms(2)
proof (induction rule: trancl_induct)
  case base then show ?case using replies_forward [OF assms(1)] by blast
next
  case step then show ?case using replies_forward [OF assms(1)] by fastforce
qed

text \<open>No comment is its own ancestor, and a whole subtree lies on one task.\<close>

lemma threads_are_acyclic: "threaded t \<Longrightarrow> acyclic (replies t)"
  using replies_trancl_forward by (fastforce simp: acyclic_def)

lemma subtree_task:
  assumes "threaded t" "(cc_id c, cc_id d) \<in> (replies t)\<^sup>*" "c \<in> set t" "d \<in> set t"
  shows "cc_task_id d = cc_task_id c"
proof -
  have inj: "inj_on cc_id (set t)" using assms(1) by (simp add: threaded_def distinct_map)
  have "\<exists>e\<in>set t. cc_id e = k \<and> cc_task_id e = cc_task_id c" if "(cc_id c, k) \<in> (replies t)\<^sup>*" for k
    using that
  proof (induction rule: rtrancl_induct)
    case base show ?case using assms(3) by blast
  next
    case (step y z)
    obtain a b where "a \<in> set t" "b \<in> set t" "cc_id a = z" "cc_id b = y" "cc_task_id b = cc_task_id a"
      using replies_forward [OF assms(1) step(2)] by blast
    moreover obtain e where "e \<in> set t" "cc_id e = y" "cc_task_id e = cc_task_id c" using step.IH by blast
    moreover have "b = e" using calculation by (intro inj_onD [OF inj]) simp_all
    ultimately show ?case by (metis)
  qed
  then obtain e where "e \<in> set t" "cc_id e = cc_id d" "cc_task_id e = cc_task_id c" using assms(2) by blast
  moreover have "e = d" using calculation assms(4) by (intro inj_onD [OF inj]) simp_all
  ultimately show ?thesis by simp
qed

section \<open>The collection of a subtree\<close>

definition batch :: "comment list \<Rightarrow> uuid set \<Rightarrow> comment list" where
  "batch t f = filter (\<lambda>c. case cc_parent_id c of None \<Rightarrow> False | Some p \<Rightarrow> p \<in> f) t"

lemma collect_subtree_unfold:
  "collect_subtree t f acc = (if f = [] then Some acc
     else collect_subtree t (map cc_id (batch t (set f))) (acc @ batch t (set f)))"
  by (subst collect_subtree.simps) (simp add: batch_def Let_def)

lemma batch_ids: "cc_id ` set (batch t f) = replies t `` f"
  by (auto simp: batch_def replies_def split: option.splits)

lemma collect_subtree_returns:
  assumes "threaded t" "\<And>k. k \<in> set f \<Longrightarrow> n \<le> place t k"
  shows "\<exists>r. collect_subtree t f acc = Some (acc @ r) \<and> set r \<subseteq> set t
    \<and> cc_id ` set r = (replies t)\<^sup>+ `` set f"
  using assms(2)
proof (induction "length t - n" arbitrary: n f acc rule: less_induct)
  case less
  let ?b = "batch t (set f)"
  show ?case
  proof (cases "f = []")
    case True
    then show ?thesis by (subst collect_subtree_unfold) simp
  next
    case False
    have far: "Suc n \<le> place t k \<and> n < length t" if "k \<in> set (map cc_id ?b)" for k
    proof -
      have "k \<in> replies t `` set f" using that batch_ids [of t "set f"] by simp
      then obtain p where "p \<in> set f" "(p, k) \<in> replies t" by blast
      then show ?thesis using less.prems [of p] replies_forward [OF assms(1), of p k] by linarith
    qed
    have sub: "set ?b \<subseteq> set t" by (auto simp: batch_def)
    have "\<exists>r. collect_subtree t (map cc_id ?b) (acc @ ?b) = Some ((acc @ ?b) @ r) \<and> set r \<subseteq> set t
        \<and> cc_id ` set r = (replies t)\<^sup>+ `` set (map cc_id ?b)"
    proof (cases "?b = []")
      case True
      then show ?thesis by (subst collect_subtree_unfold) simp
    next
      case False
      then have "cc_id (hd ?b) \<in> set (map cc_id ?b)" by simp
      then have "n < length t" using far by blast
      then have "length t - Suc n < length t - n" by simp
      then show ?thesis using far by (intro less.hyps [of "Suc n"]) auto
    qed
    then obtain r where r: "collect_subtree t (map cc_id ?b) (acc @ ?b) = Some ((acc @ ?b) @ r)"
      "set r \<subseteq> set t" "cc_id ` set r = (replies t)\<^sup>+ `` (replies t `` set f)"
      by (auto simp: batch_ids)
    have "(replies t)\<^sup>+ `` set f = replies t `` set f \<union> (replies t)\<^sup>+ `` (replies t `` set f)"
      by (auto elim: converse_tranclE intro: trancl_into_trancl2)
    then have "cc_id ` set (?b @ r) = (replies t)\<^sup>+ `` set f" using r(3) by (simp add: batch_ids image_Un)
    moreover have "collect_subtree t f acc = Some (acc @ (?b @ r))"
      using False r(1) by (subst collect_subtree_unfold) simp
    ultimately show ?thesis using r(2) sub by (intro exI [of _ "?b @ r"]) auto
  qed
qed

lemma subtree_is_collected:
  assumes "threaded t" "row_of cc_id cid t = Some root"
  shows "\<exists>r. collect_subtree t [cid] [root] = Some r \<and> set r \<subseteq> set t
    \<and> cc_id ` set r = (replies t)\<^sup>* `` {cid}"
proof -
  obtain r where "collect_subtree t [cid] [root] = Some ([root] @ r)" "set r \<subseteq> set t"
    "cc_id ` set r = (replies t)\<^sup>+ `` {cid}"
    using collect_subtree_returns [OF assms(1), of "[cid]" 0 "[root]"] by auto
  moreover have "(replies t)\<^sup>* `` {cid} = insert cid ((replies t)\<^sup>+ `` {cid})"
    by (auto simp: rtrancl_eq_or_trancl)
  ultimately show ?thesis using row_of_SomeD [OF assms(2)] by (intro exI [of _ "[root] @ r"]) auto
qed

section \<open>The public list\<close>

text \<open>The rule of the list: live comments, and tombstones that anchor something shown.\<close>

inductive_set shown :: "comment list \<Rightarrow> uuid set" for rows :: "comment list" where
  shown_live: "c \<in> set rows \<Longrightarrow> live c \<Longrightarrow> cc_id c \<in> shown rows"
| shown_anchor: "c \<in> set rows \<Longrightarrow> cc_deleted_at c \<noteq> None \<Longrightarrow> \<not> cc_is_hard_hidden c
    \<Longrightarrow> d \<in> set rows \<Longrightarrow> cc_parent_id d = Some (cc_id c) \<Longrightarrow> cc_id d \<in> shown rows \<Longrightarrow> cc_id c \<in> shown rows"

lemma children_mem: "k \<in> set (thread_children rows p) \<longleftrightarrow> (\<exists>d\<in>set rows. cc_id d = k \<and> cc_parent_id d = Some p)"
  by (auto simp: thread_children_def)

lemma render_pass_sound:
  "rendered \<subseteq> shown rows \<Longrightarrow> set cs \<subseteq> set rows \<Longrightarrow> fst (render_pass rows cs rendered) \<subseteq> shown rows"
proof (induction cs arbitrary: rendered)
  case (Cons c cs)
  show ?case
  proof (cases "cc_id c \<in> rendered \<or> cc_is_hard_hidden c \<or> cc_deleted_at c = None
      \<or> \<not> list_ex (\<lambda>k. k \<in> rendered) (thread_children rows (cc_id c))")
    case True
    then show ?thesis using Cons by auto
  next
    case False
    then obtain d where "d \<in> set rows" "cc_parent_id d = Some (cc_id c)" "cc_id d \<in> rendered"
      by (auto simp: list_ex_iff children_mem)
    then have "cc_id c \<in> shown rows" using False Cons.prems by (auto intro: shown_anchor)
    then show ?thesis using False Cons.IH [of "insert (cc_id c) rendered"] Cons.prems by auto
  qed
qed simp

lemma render_pass_stable:
  "\<not> snd (render_pass rows cs rendered) \<Longrightarrow> fst (render_pass rows cs rendered) = rendered
    \<and> (\<forall>c\<in>set cs. cc_deleted_at c \<noteq> None \<longrightarrow> \<not> cc_is_hard_hidden c
        \<longrightarrow> (\<exists>k\<in>set (thread_children rows (cc_id c)). k \<in> rendered) \<longrightarrow> cc_id c \<in> rendered)"
  by (induction cs arbitrary: rendered) (auto simp: list_ex_iff split: if_splits)

lemma render_loop_sound: "rendered \<subseteq> shown rows \<Longrightarrow> render_loop rows rendered \<subseteq> shown rows"
proof (induction rows rendered rule: render_loop.induct)
  case (1 rows rendered)
  have "fst (render_pass rows rows rendered) \<subseteq> shown rows" using 1 render_pass_sound by simp
  then show ?case using 1 by (subst render_loop.simps) simp
qed

lemma render_loop_complete:
  assumes "{cc_id c |c. c \<in> set rows \<and> live c} \<subseteq> rendered"
  shows "shown rows \<subseteq> render_loop rows rendered"
  using assms
proof (induction rows rendered rule: render_loop.induct)
  case (1 rows rendered)
  let ?p = "render_pass rows rows rendered"
  show ?case
  proof (cases "snd ?p")
    case True
    have "{cc_id c |c. c \<in> set rows \<and> live c} \<subseteq> fst ?p" using 1 render_pass_grows by blast
    then show ?thesis using 1(1) True by (subst render_loop.simps) simp
  next
    case False
    note fixed = render_pass_stable [OF False]
    have "k \<in> rendered" if "k \<in> shown rows" for k
      using that
    proof (induction rule: shown.induct)
      case (shown_live c) then show ?case using 1(2) by blast
    next
      case (shown_anchor c d)
      then have "cc_id d \<in> set (thread_children rows (cc_id c))" by (auto simp: children_mem)
      then show ?case using fixed shown_anchor by blast
    qed
    then show ?thesis using fixed False by (subst render_loop.simps) auto
  qed
qed

lemma rendered_is_shown: "rendered_comment_ids rows = shown rows"
proof
  show "rendered_comment_ids rows \<subseteq> shown rows"
    unfolding rendered_comment_ids_def by (rule render_loop_sound) (auto intro: shown_live)
  show "shown rows \<subseteq> rendered_comment_ids rows"
    unfolding rendered_comment_ids_def by (rule render_loop_complete) auto
qed

text \<open>One application of the rule.\<close>

definition show_step :: "comment list \<Rightarrow> uuid set \<Rightarrow> uuid set" where
  "show_step rows X = {cc_id c |c. c \<in> set rows \<and> \<not> cc_is_hard_hidden c
     \<and> (cc_deleted_at c = None \<or> (\<exists>d\<in>set rows. cc_parent_id d = Some (cc_id c) \<and> cc_id d \<in> X))}"

lemma shown_fixpoint: "show_step rows (shown rows) = shown rows"
proof
  show "show_step rows (shown rows) \<subseteq> shown rows"
  proof
    fix k assume "k \<in> show_step rows (shown rows)"
    then obtain c where c: "c \<in> set rows" "\<not> cc_is_hard_hidden c" "k = cc_id c"
      and how: "cc_deleted_at c = None \<or> (\<exists>d\<in>set rows. cc_parent_id d = Some (cc_id c) \<and> cc_id d \<in> shown rows)"
      by (auto simp: show_step_def)
    show "k \<in> shown rows"
      using how c shown_live [of c rows] shown_anchor [of c rows]
      by (cases "cc_deleted_at c = None") (auto simp: live_def)
  qed
  show "shown rows \<subseteq> show_step rows (shown rows)"
  proof
    fix k assume "k \<in> shown rows"
    then show "k \<in> show_step rows (shown rows)"
      by cases (auto simp: show_step_def live_def)
  qed
qed

lemma any_fixpoint_is_shown:
  assumes "threaded t" "set rows \<subseteq> set t" "show_step rows X = X"
  shows "X = shown rows"
proof
  show "shown rows \<subseteq> X"
  proof
    fix k assume "k \<in> shown rows"
    then show "k \<in> X"
    proof induction
      case (shown_live c)
      then have "cc_id c \<in> show_step rows X" by (auto simp: show_step_def live_def)
      then show ?case using assms(3) by simp
    next
      case (shown_anchor c d)
      then have "cc_id c \<in> show_step rows X" by (auto simp: show_step_def)
      then show ?case using assms(3) by simp
    qed
  qed
  show "X \<subseteq> shown rows"
  proof
    fix k assume "k \<in> X"
    then show "k \<in> shown rows"
    proof (induction "length t - place t k" arbitrary: k rule: less_induct)
      case less
      then obtain c where c: "c \<in> set rows" "\<not> cc_is_hard_hidden c" "cc_id c = k"
        and how: "cc_deleted_at c = None \<or> (\<exists>d\<in>set rows. cc_parent_id d = Some k \<and> cc_id d \<in> X)"
        using less.prems unfolding arg_cong [OF assms(3), of "\<lambda>Y. k \<in> Y", symmetric] show_step_def by blast
      show ?case
      proof (cases "cc_deleted_at c")
        case None
        then show ?thesis using shown_live [of c rows] c by (simp add: live_def)
      next
        case (Some x)
        then obtain d where d: "d \<in> set rows" "cc_parent_id d = Some k" "cc_id d \<in> X" using how by auto
        then have "(k, cc_id d) \<in> replies t" using assms(2) by (auto simp: replies_def)
        then have "length t - place t (cc_id d) < length t - place t k"
          using replies_forward [OF assms(1)] by fastforce
        then have "cc_id d \<in> shown rows" using less.hyps d(3) by blast
        then show ?thesis using shown_anchor [of c rows d] c d Some by simp
      qed
    qed
  qed
qed

lemma hidden_not_shown: "k \<in> shown rows \<Longrightarrow> \<exists>c\<in>set rows. cc_id c = k \<and> \<not> cc_is_hard_hidden c"
  by (induction rule: shown.induct) (auto simp: live_def)

end
