(* ===== verification/Community.thy ===== *)
theory Community
  imports Comment_Facts
begin

text \<open>
  The community beside the campus: every operation of the comment, vote, reaction, rating, report and
  moderation services as a step, interleaved with each other and with every step of the campus.  A run
  is the list of its states, newest first; an operation that reads without a lock may read any earlier
  state of the run.
\<close>

section \<open>Steps and runs\<close>

text \<open>
  The two attempts of a retried write: gates and first writes at any time, a row that was read stays
  locked until the write, and the attempt that commits writes the present state.
\<close>

definition attempt_in ::
  "'a community_db_scheme list \<Rightarrow> ('a community_db_scheme \<Rightarrow> 'row option) \<Rightarrow> ('row, 'a community_db_scheme) attempt \<Rightarrow> bool" where
  "attempt_in past row at \<longleftrightarrow> (case at of (gates, seen, s) \<Rightarrow>
     gates \<in> set past \<and> s \<in> set past \<and> (seen = None \<or> seen = row s))"

definition attempts_in ::
  "'a community_db_scheme list \<Rightarrow> 'a community_db_scheme \<Rightarrow> ('a community_db_scheme \<Rightarrow> 'row option)
    \<Rightarrow> (('row, 'a community_db_scheme) attempt \<Rightarrow> bool) \<Rightarrow> ('row, 'a community_db_scheme) attempt
    \<Rightarrow> ('row, 'a community_db_scheme) attempt \<Rightarrow> bool" where
  "attempts_in past s row committed first second \<longleftrightarrow>
     attempt_in past row first \<and> attempt_in past row second
     \<and> (committed first \<longrightarrow> snd (snd first) = s) \<and> snd (snd second) = s"

abbreviation vote_row :: "uuid \<Rightarrow> uuid \<Rightarrow> 'a community_db_scheme \<Rightarrow> comment_vote option" where
  "vote_row cid u s \<equiv> row_of vote_key (cid, u) (comment_votes s)"

abbreviation reaction_row :: "uuid \<Rightarrow> uuid \<Rightarrow> string \<Rightarrow> 'a community_db_scheme \<Rightarrow> comment_reaction option" where
  "reaction_row cid u e s \<equiv> row_of reaction_key (cid, u, e) (comment_reactions s)"

abbreviation rating_row :: "uuid \<Rightarrow> uuid \<Rightarrow> 'a community_db_scheme \<Rightarrow> task_rating option" where
  "rating_row tid u s \<equiv> row_of rating_key (tid, u) (task_ratings s)"

inductive community_step :: "community_db list \<Rightarrow> community_db \<Rightarrow> community_db \<Rightarrow> bool" for past s where
  com_campus: "campus_step (campus_db.truncate s) c
    \<Longrightarrow> community_step past s (campus_db.extend c (campus_db.more s))"
| com_names: "community_step past s (s\<lparr>user_names := names\<rparr>)"
| com_create: "seen \<in> set past \<Longrightarrow> create_comment limit a cmd cid now seen s = Inr (cp, s')
    \<Longrightarrow> community_step past s s'"
| com_edit: "edit_comment limit a cid content now s = Inr (cp, s') \<Longrightarrow> community_step past s s'"
| com_delete: "delete_own_comment a cid reason now s = Inr s' \<Longrightarrow> community_step past s s'"
| com_moderate: "moderate_delete_comment a cid why ctx now s = Inr s' \<Longrightarrow> community_step past s s'"
| com_hide: "admin_hard_hide_subtree a cid why ctx now s = Some (Inr s') \<Longrightarrow> community_step past s s'"
| com_vote: "attempts_in past s (vote_row cid u) (\<lambda>at. ok (vote_attempt u cid v at)) first second
    \<Longrightarrow> set_vote u cid v first second = Inr (vr, s') \<Longrightarrow> community_step past s s'"
| com_react: "attempts_in past s (reaction_row cid u e) (\<lambda>at. ok (reaction_attempt u cid e True at)) first2 second2
    \<Longrightarrow> toggle_reaction allowed u cid e first2 second2 = Inr (added, s') \<Longrightarrow> community_step past s s'"
| com_rate: "attempts_in past s (rating_row tid u)
      (\<lambda>at. \<forall>n. valid_rating j = Some n \<longrightarrow> ok (rating_attempt u tid n at)) first3 second3
    \<Longrightarrow> rate_task u tid j first3 second3 = Inr (tr, s') \<Longrightarrow> community_step past s s'"
| com_report: "gates \<in> set past \<Longrightarrow> report_comment nlimit u cid category note rid now gates s = Inr (rr, s')
    \<Longrightarrow> community_step past s s'"
| com_dismiss: "dismiss_report a tid rid why ctx now s = Inr (rr, s') \<Longrightarrow> community_step past s s'"
| com_handle: "handle_report nlimit a tid rid note ctx now s = Inr (rr, s') \<Longrightarrow> community_step past s s'"
| com_reveal: "request_identity_reveal a cid why ctx now s = Inr (ri, s') \<Longrightarrow> community_step past s s'"

definition initial_community :: community_db where
  "initial_community = campus_db.extend initial_campus
     \<lparr>user_names = (\<lambda>_. ([], [])), comments = [], comment_revisions = [], comment_votes = [],
      comment_reactions = [], comment_reports = [], task_ratings = []\<rparr>"

inductive community_run :: "community_db list \<Rightarrow> bool" where
  run_start: "community_run [initial_community]"
| run_step: "community_run (s # past) \<Longrightarrow> community_step (s # past) s s' \<Longrightarrow> community_run (s' # s # past)"

inductive_cases community_runE: "community_run (s # past)"

section \<open>The invariant\<close>

definition comment_continues :: "comment \<Rightarrow> comment \<Rightarrow> bool" where
  "comment_continues c d \<longleftrightarrow> thread_key d = thread_key c \<and> cc_user_id d = cc_user_id c
     \<and> cc_is_anonymous d = cc_is_anonymous c \<and> cc_created_at d = cc_created_at c
     \<and> (cc_deleted_at c \<noteq> None \<longrightarrow> cc_deleted_at d \<noteq> None) \<and> (cc_is_hard_hidden c \<longrightarrow> cc_is_hard_hidden d)"

text \<open>What a later state still has of an earlier one.\<close>

definition carries :: "'a community_db_scheme \<Rightarrow> 'a community_db_scheme \<Rightarrow> bool" where
  "carries s s' \<longleftrightarrow> (\<forall>c\<in>set (comments s). \<exists>d\<in>set (comments s'). comment_continues c d)
     \<and> (\<forall>c\<in>set (claims s). cl_status c = ClaimStatus.COMPLETED \<longrightarrow> c \<in> set (claims s'))"

definition closed_ok :: "comment_report \<Rightarrow> bool" where
  "closed_ok r \<longleftrightarrow> (rp_handled_by r = None \<longleftrightarrow> rp_status r = OPEN) \<and> (rp_handled_at r = None \<longleftrightarrow> rp_status r = OPEN)"

definition reports_inv :: "comment_report list \<Rightarrow> bool" where
  "reports_inv t \<longleftrightarrow> distinct (map rp_id t) \<and> distinct (map report_key t) \<and> (\<forall>r\<in>set t. closed_ok r)"

definition ratings_inv :: "claim list \<Rightarrow> task_rating list \<Rightarrow> bool" where
  "ratings_inv cs t \<longleftrightarrow> distinct (map rating_key t)
     \<and> (\<forall>r\<in>set t. 1 \<le> rg_rating r \<and> rg_rating r \<le> 5 \<and> (\<exists>c\<in>set cs. completed_on (rg_task_id r) (rg_user_id r) c))"

definition hidden_is_deleted :: "comment list \<Rightarrow> bool" where
  "hidden_is_deleted t \<longleftrightarrow> (\<forall>c\<in>set t. cc_is_hard_hidden c \<longrightarrow> cc_deleted_at c \<noteq> None)"

definition votes_inv :: "comment_vote list \<Rightarrow> bool" where
  "votes_inv t \<longleftrightarrow> distinct (map vote_key t) \<and> (\<forall>v\<in>set t. cv_value v = 1 \<or> cv_value v = -1)"

definition community_inv :: "community_db \<Rightarrow> bool" where
  "community_inv s \<longleftrightarrow> campus_inv s \<and> threaded (comments s) \<and> hidden_is_deleted (comments s)
     \<and> votes_inv (comment_votes s) \<and> distinct (map reaction_key (comment_reactions s))
     \<and> reports_inv (comment_reports s) \<and> ratings_inv (claims s) (task_ratings s)"

lemma comment_continues_refl [simp]: "comment_continues c c"
  by (simp add: comment_continues_def)

lemma comment_continues_trans: "comment_continues c d \<Longrightarrow> comment_continues d e \<Longrightarrow> comment_continues c e"
  by (auto simp: comment_continues_def)

lemma carries_refl [simp]: "carries s s"
  unfolding carries_def by (blast intro: comment_continues_refl)

lemma carries_trans:
  assumes "carries s t" "carries t u"
  shows "carries s u"
  using assms comment_continues_trans unfolding carries_def by meson

section \<open>Operations that leave the campus alone\<close>

definition quiet :: "'a community_db_scheme \<Rightarrow> 'a community_db_scheme \<Rightarrow> bool" where
  "quiet s s' \<longleftrightarrow> points_same s s' \<and> claims s' = claims s \<and> assignments s' = assignments s
     \<and> upload_intents s' = upload_intents s \<and> submissions s' = submissions s"

lemma quiet_campus: "quiet s s' \<Longrightarrow> campus_inv s \<Longrightarrow> campus_inv s'"
  unfolding quiet_def by (intro idle_keeps [of s s']) (simp_all add: upload_keys_def)

lemma quiet_simps [simp]:
  "quiet s (s\<lparr>user_names := names\<rparr>)"
  "quiet s (s\<lparr>comments := cs\<rparr>)"
  "quiet s (s\<lparr>comment_revisions := rs\<rparr>)"
  "quiet s (s\<lparr>comment_votes := vs\<rparr>)"
  "quiet s (s\<lparr>comment_reactions := xs\<rparr>)"
  "quiet s (s\<lparr>comment_reports := ps\<rparr>)"
  "quiet s (s\<lparr>task_ratings := gs\<rparr>)"
  "quiet s s"
  by (simp_all add: quiet_def points_same_def)

lemma quiet_logs [simp]:
  "quiet s (audit_append a act tt ti r d b af ctx t) = quiet s t"
  "quiet s (publish_event e t) = quiet s t"
  by (simp_all add: quiet_def points_same_def upload_keys_def audit_append_def publish_event_def)

lemma logs_community [simp]:
  "comments (audit_append a act tt ti r d b af ctx t) = comments t"
  "comment_votes (audit_append a act tt ti r d b af ctx t) = comment_votes t"
  "comment_reactions (audit_append a act tt ti r d b af ctx t) = comment_reactions t"
  "comment_reports (audit_append a act tt ti r d b af ctx t) = comment_reports t"
  "task_ratings (audit_append a act tt ti r d b af ctx t) = task_ratings t"
  "comments (publish_event e t) = comments t"
  "comment_votes (publish_event e t) = comment_votes t"
  "comment_reactions (publish_event e t) = comment_reactions t"
  "comment_reports (publish_event e t) = comment_reports t"
  "task_ratings (publish_event e t) = task_ratings t"
  by (simp_all add: audit_append_def publish_event_def)

lemma quiet_trans: "quiet s t \<Longrightarrow> quiet t u \<Longrightarrow> quiet s u"
  by (simp add: quiet_def points_same_def)

lemma quiet_claims: "quiet s s' \<Longrightarrow> claims s' = claims s"
  by (simp add: quiet_def)

text \<open>What an operation other than a campus step has to show.\<close>

lemma quiet_keeps:
  assumes "quiet s s'" "community_inv s"
    and "threaded (comments s')" "hidden_is_deleted (comments s')" "votes_inv (comment_votes s')"
    and "distinct (map reaction_key (comment_reactions s'))" "reports_inv (comment_reports s')"
    and "ratings_inv (claims s) (task_ratings s')"
    and "\<And>c. c \<in> set (comments s) \<Longrightarrow> \<exists>d\<in>set (comments s'). comment_continues c d"
  shows "community_inv s' \<and> carries s s'"
  using assms quiet_campus [OF assms(1)] quiet_claims [OF assms(1)]
  by (simp add: community_inv_def carries_def)

text \<open>Operations that rewrite the comments one by one.\<close>

lemma rewritten_comments:
  assumes "community_inv s" "quiet s s'" "comments s' = map f (comments s)"
    and "\<And>c. c \<in> set (comments s) \<Longrightarrow> comment_continues c (f c)"
    and "\<And>c. c \<in> set (comments s) \<Longrightarrow> cc_is_hard_hidden (f c) \<Longrightarrow> cc_deleted_at (f c) \<noteq> None"
    and same: "comment_votes s' = comment_votes s" "comment_reactions s' = comment_reactions s"
      "comment_reports s' = comment_reports s" "task_ratings s' = task_ratings s"
  shows "community_inv s' \<and> carries s s'"
proof (rule quiet_keeps [OF assms(2,1)])
  have "map thread_key (comments s') = map thread_key (comments s)"
    using assms(4) by (simp add: assms(3) comment_continues_def)
  then show "threaded (comments s')" using threaded_cong assms(1) by (simp add: community_inv_def)
  show "hidden_is_deleted (comments s')" using assms(5) by (auto simp: hidden_is_deleted_def assms(3))
  show "\<exists>d\<in>set (comments s'). comment_continues c d" if "c \<in> set (comments s)" for c
    using assms(4) [OF that] that by (auto simp: assms(3))
qed (use assms(1) same in \<open>simp_all add: community_inv_def\<close>)

lemma put_comment_map:
  assumes "threaded (comments s)" "row_of cc_id cid (comments s) = Some c" "cc_id c' = cid"
  shows "comments (put_comment c' s) = map (\<lambda>d. if d = c then c' else d) (comments s)"
proof -
  have inj: "inj_on cc_id (set (comments s))" using assms(1) by (simp add: threaded_def distinct_map)
  have c: "c \<in> set (comments s)" "cc_id c = cid" using row_of_SomeD [OF assms(2)] by simp_all
  have "(cc_id d = cid) = (d = c)" if "d \<in> set (comments s)" for d
    using inj_on_eq_iff [OF inj that c(1)] c(2) by simp
  then show ?thesis by (simp add: put_comment_def update_row_def assms(3))
qed

text \<open>Operations that touch no comment.\<close>

lemma other_tables:
  assumes "community_inv s" "quiet s s'" "comments s' = comments s"
    and "votes_inv (comment_votes s')" "distinct (map reaction_key (comment_reactions s'))"
    and "reports_inv (comment_reports s')" "ratings_inv (claims s) (task_ratings s')"
  shows "community_inv s' \<and> carries s s'"
proof (rule quiet_keeps [OF assms(2,1)])
  show "\<exists>d\<in>set (comments s'). comment_continues c d" if "c \<in> set (comments s)" for c
    using that comment_continues_refl unfolding assms(3) by blast
qed (use assms in \<open>simp_all add: community_inv_def\<close>)

end
