(* ===== verification/Community_Facts.thy ===== *)
theory Community_Facts
  imports Community
begin

text \<open>
  Every step of the community keeps its invariant and carries the earlier states.
\<close>

section \<open>Comments\<close>

lemma own_comment_Inr:
  "own_comment a cid s = Inr c \<longleftrightarrow> row_of cc_id cid (comments s) = Some c
     \<and> cc_user_id c = actor_user_id a \<and> cc_deleted_at c = None"
  by (auto simp: own_comment_def locked_comment_def split: sum.splits option.splits if_splits)

lemma create_effect:
  assumes "create_comment limit a cmd cid now seen s = Inr (cp, s')"
  obtains content where "s' = s\<lparr>comments := comments s @ [new_comment a cmd content cid now]\<rparr>"
    and "cid \<notin> cc_id ` set (comments s)"
    and "\<And>p. nc_parent_id cmd = Some p \<Longrightarrow> \<exists>d\<in>set (comments seen). cc_id d = p \<and> cc_task_id d = nc_task_id cmd
       \<and> cc_deleted_at d = None"
proof -
  obtain nick content where chk: "checked_comment limit a cmd seen = Inr (nick, content)"
    and ins: "insert_comment (new_comment a cmd content cid now) s = Inr s'"
    using assms by (auto simp: create_comment_def Let_def split: sum.splits)
  have "s' = s\<lparr>comments := comments s @ [new_comment a cmd content cid now]\<rparr>" "cid \<notin> cc_id ` set (comments s)"
    using ins by (auto simp: insert_comment_def new_comment_def split: if_splits)
  moreover have "\<exists>d\<in>set (comments seen). cc_id d = p \<and> cc_task_id d = nc_task_id cmd \<and> cc_deleted_at d = None"
    if p: "nc_parent_id cmd = Some p" for p
  proof -
    have "validate_parent (nc_task_id cmd) p seen = None"
      using chk p by (auto simp: checked_comment_def split: sum.splits option.splits if_splits)
    then obtain d where "row_of cc_id p (comments seen) = Some d" "cc_task_id d = nc_task_id cmd" "cc_deleted_at d = None"
      by (auto simp: validate_parent_def split: option.splits if_splits)
    then show ?thesis using row_of_SomeD by fast
  qed
  ultimately show thesis by (rule that)
qed

lemma comment_create_keeps:
  assumes inv: "community_inv s" and earlier: "carries seen s"
    and run: "create_comment limit a cmd cid now seen s = Inr (cp, s')"
  shows "community_inv s' \<and> carries s s'"
  using run
proof (rule create_effect)
  fix content
  let ?c = "new_comment a cmd content cid now"
  assume s': "s' = s\<lparr>comments := comments s @ [?c]\<rparr>" and fresh: "cid \<notin> cc_id ` set (comments s)"
    and parent: "\<And>p. nc_parent_id cmd = Some p \<Longrightarrow> \<exists>d\<in>set (comments seen). cc_id d = p
      \<and> cc_task_id d = nc_task_id cmd \<and> cc_deleted_at d = None"
  have "threaded (comments s @ [?c])"
  proof (rule threaded_append)
    fix p assume "cc_parent_id ?c = Some p"
    then obtain d where d: "d \<in> set (comments seen)" "cc_id d = p" "cc_task_id d = nc_task_id cmd"
      using parent by (auto simp: new_comment_def)
    then obtain e where "e \<in> set (comments s)" "comment_continues d e"
      using earlier by (auto simp: carries_def)
    then show "\<exists>d\<in>set (comments s). cc_id d = p \<and> cc_task_id d = cc_task_id ?c"
      using d by (auto simp: comment_continues_def thread_key_def new_comment_def)
  qed (use inv fresh in \<open>simp_all add: community_inv_def new_comment_def\<close>)
  moreover have "hidden_is_deleted (comments s @ [?c])"
    using inv by (auto simp: community_inv_def hidden_is_deleted_def new_comment_def)
  moreover have "\<exists>d\<in>set (comments s'). comment_continues c d" if "c \<in> set (comments s)" for c
    using that comment_continues_refl [of c] by (intro bexI [of _ c]) (simp_all add: s')
  ultimately show ?thesis
    using inv by (intro quiet_keeps) (simp_all add: s' community_inv_def)
qed

lemma one_comment_keeps:
  assumes inv: "community_inv s" and row: "row_of cc_id cid (comments s) = Some c"
    and c': "comment_continues c c'" "cc_is_hard_hidden c' \<Longrightarrow> cc_deleted_at c' \<noteq> None"
    and s': "quiet s s'" "comments s' = comments (put_comment c' s)"
    and same: "comment_votes s' = comment_votes s" "comment_reactions s' = comment_reactions s"
      "comment_reports s' = comment_reports s" "task_ratings s' = task_ratings s"
  shows "community_inv s' \<and> carries s s'"
proof (rule rewritten_comments [OF inv s'(1) _ _ _ same])
  have "threaded (comments s)" using inv by (simp add: community_inv_def)
  moreover have "cc_id c' = cid"
    using c'(1) row_of_SomeD [OF row] by (simp add: comment_continues_def thread_key_def)
  ultimately show "comments s' = map (\<lambda>d. if d = c then c' else d) (comments s)"
    using s'(2) put_comment_map row by simp
  show "comment_continues d (if d = c then c' else d)" for d using c'(1) by simp
  show "cc_deleted_at (if d = c then c' else d) \<noteq> None"
    if "d \<in> set (comments s)" "cc_is_hard_hidden (if d = c then c' else d)" for d
    using that c'(2) inv by (auto simp: community_inv_def hidden_is_deleted_def split: if_splits)
qed

lemma put_comment_tables [simp]:
  "comment_votes (put_comment c s) = comment_votes s"
  "comment_reactions (put_comment c s) = comment_reactions s"
  "comment_reports (put_comment c s) = comment_reports s"
  "task_ratings (put_comment c s) = task_ratings s"
  "quiet s (put_comment c t) = quiet s t"
  by (simp_all add: put_comment_def quiet_def points_same_def)

lemma deleted_continues [simp]: "comment_continues c (deleted_comment now u reason c)"
  by (simp add: comment_continues_def deleted_comment_def thread_key_def)

lemma deleted_deleted [simp]: "cc_deleted_at (deleted_comment now u reason c) = Some now"
  by (simp add: deleted_comment_def)

lemma edit_keeps:
  assumes "community_inv s" "edit_comment limit a cid content now s = Inr (cp, s')"
  shows "community_inv s' \<and> carries s s'"
proof -
  obtain c tx where own: "own_comment a cid s = Inr c"
    and s': "s' = put_comment (c\<lparr>cc_content := tx, cc_updated_at := now\<rparr>)
      (s\<lparr>comment_revisions := comment_revisions s @ [\<lparr>cr_comment_id = cid, cr_content = cc_content c, cr_edited_at = now\<rparr>]\<rparr>)"
    using assms(2) by (auto simp: edit_comment_def Let_def split: sum.splits if_splits)
  have row: "row_of cc_id cid (comments s) = Some c" and open': "cc_deleted_at c = None"
    using own by (simp_all add: own_comment_Inr)
  have "\<not> cc_is_hard_hidden c"
    using assms(1) open' row_of_SomeD [OF row] by (auto simp: community_inv_def hidden_is_deleted_def)
  then show ?thesis
    by (intro one_comment_keeps [OF assms(1) row, of "c\<lparr>cc_content := tx, cc_updated_at := now\<rparr>"])
      (simp_all add: s' comment_continues_def thread_key_def put_comment_def quiet_def points_same_def)
qed

lemma delete_keeps:
  assumes "community_inv s" "delete_own_comment a cid reason now s = Inr s'"
  shows "community_inv s' \<and> carries s s'"
proof -
  obtain c tx where own: "own_comment a cid s = Inr c"
    and s': "s' = put_comment (deleted_comment now (actor_user_id a) tx c) s"
    using assms(2) by (auto simp: delete_own_comment_def Let_def split: sum.splits)
  then show ?thesis
    by (intro one_comment_keeps [OF assms(1), of cid c "deleted_comment now (actor_user_id a) tx c"])
      (simp_all add: own_comment_Inr)
qed

lemma moderate_Inr:
  assumes "moderate_delete_comment a cid why ctx now s = Inr s'"
  obtains c tx where "row_of cc_id cid (comments s) = Some c" "cc_deleted_at c = None"
    and "require_task_moderation_site False CommentModerationDenied a (cc_task_id c) s = None"
    and "require_moderation_reason why = Inr tx"
    and "comments s' = comments (put_comment (deleted_comment now (actor_user_id a) tx c) s)" "quiet s s'"
    and "comment_votes s' = comment_votes s" "comment_reactions s' = comment_reactions s"
    and "comment_reports s' = comment_reports s" "task_ratings s' = task_ratings s"
proof -
  obtain c where c: "locked_comment cid s = Inr c" "cc_deleted_at c = None"
    "require_task_moderation_site False CommentModerationDenied a (cc_task_id c) s = None"
    using assms by (auto simp: moderate_delete_comment_def split: sum.splits option.splits if_splits)
  moreover obtain tx where "require_moderation_reason why = Inr tx"
    using assms c by (auto simp: moderate_delete_comment_def split: sum.splits)
  ultimately show thesis
    using assms by (intro that [of c tx]) (auto simp: moderate_delete_comment_def locked_comment_def split: option.splits)
qed

lemma moderate_keeps:
  assumes "community_inv s" "moderate_delete_comment a cid why ctx now s = Inr s'"
  shows "community_inv s' \<and> carries s s'"
  using assms(2)
proof (rule moderate_Inr)
  fix c tx
  assume row: "row_of cc_id cid (comments s) = Some c"
    and out: "comments s' = comments (put_comment (deleted_comment now (actor_user_id a) tx c) s)" "quiet s s'"
      "comment_votes s' = comment_votes s" "comment_reactions s' = comment_reactions s"
      "comment_reports s' = comment_reports s" "task_ratings s' = task_ratings s"
  show ?thesis by (rule one_comment_keeps [OF assms(1) row _ _ out(2,1,3-6)]) simp_all
qed

text \<open>The hard hide of an administrator, on a threaded table.\<close>

lemma hide_Inr:
  assumes "threaded (comments s)" "actor_role a = ADMIN" "row_of cc_id cid (comments s) = Some root"
    and "require_moderation_reason why = Inr tx"
  shows "\<exists>s' r. admin_hard_hide_subtree a cid why ctx now s = Some (Inr s') \<and> quiet s s'
    \<and> comments s' = hide_rows now (actor_user_id a) (HARD_HIDDEN_REASON_CODE @ '': '' @ tx)
        ((replies (comments s))\<^sup>* `` {cid}) (comments s)
    \<and> comment_revisions s' = comment_revisions s \<and> comment_votes s' = comment_votes s
    \<and> comment_reactions s' = comment_reactions s
    \<and> comment_reports s' = comment_reports s \<and> task_ratings s' = task_ratings s
    \<and> audit_logs s' = audit_logs s @ [r] \<and> ar_action r = ''COMMENT_ADMIN_HARD_HIDDEN'' \<and> ar_target_id r = cid
    \<and> ar_actor_user_id r = actor_user_id a \<and> ar_reason r = Some tx"
proof -
  obtain r where r: "collect_subtree (comments s) [cid] [root] = Some r"
    "cc_id ` set r = (replies (comments s))\<^sup>* `` {cid}"
    using subtree_is_collected [OF assms(1,3)] by blast
  then show ?thesis
    using assms(2-4)
    by (simp add: admin_hard_hide_subtree_def locked_comment_def Let_def)
      (simp add: audit_append_def publish_event_def quiet_def points_same_def)
qed

lemma hide_accepted:
  assumes "admin_hard_hide_subtree a cid why ctx now s = Some (Inr s')"
  obtains root tx where "actor_role a = ADMIN" "row_of cc_id cid (comments s) = Some root"
    "require_moderation_reason why = Inr tx"
  using assms
  by (auto simp: admin_hard_hide_subtree_def locked_comment_def split: if_splits sum.splits option.splits)

lemma hide_keeps:
  assumes "community_inv s" "admin_hard_hide_subtree a cid why ctx now s = Some (Inr s')"
  shows "community_inv s' \<and> carries s s'"
  using assms(2)
proof (rule hide_accepted)
  fix root tx
  assume "actor_role a = ADMIN" "row_of cc_id cid (comments s) = Some root" "require_moderation_reason why = Inr tx"
  from hide_Inr [OF _ this, of ctx now] assms
  have out: "quiet s s'" "comments s' = hide_rows now (actor_user_id a) (HARD_HIDDEN_REASON_CODE @ '': '' @ tx)
        ((replies (comments s))\<^sup>* `` {cid}) (comments s)"
    "comment_votes s' = comment_votes s" "comment_reactions s' = comment_reactions s"
    "comment_reports s' = comment_reports s" "task_ratings s' = task_ratings s"
    by (auto simp: community_inv_def)
  have "comment_continues c (hidden_comment now u reason c)" for c u reason
    by (simp add: comment_continues_def hidden_comment_def deleted_comment_def thread_key_def)
  moreover have "cc_deleted_at (hidden_comment now u reason c) \<noteq> None" for c u reason
    by (simp add: hidden_comment_def)
  ultimately show ?thesis
    using assms(1) by (intro rewritten_comments [OF assms(1) out(1) out(2) [unfolded hide_rows_def] _ _ out(3-6)])
      (auto simp: community_inv_def hidden_is_deleted_def split: if_splits)
qed

section \<open>Votes, reactions, ratings\<close>

lemma retry_Inr:
  "retry_once anchor first second = Inr r \<Longrightarrow> first = Inr r \<or> isl first \<and> second = Inr r"
  by (auto simp: retry_once_def split: sum.splits community_error.splits if_splits)

lemma votes_unique: "write_vote k seen v t = Inr t' \<Longrightarrow> distinct (map vote_key t) \<Longrightarrow> distinct (map vote_key t')"
  using votes.keeps_unique [of k seen v t "()" t'] by (simp add: answering_def)

lemma ratings_unique: "write_rating k seen n t = Inr t' \<Longrightarrow> distinct (map rating_key t) \<Longrightarrow> distinct (map rating_key t')"
  using ratings.keeps_unique [of k seen n t "()" t'] by (simp add: answering_def)

lemma write_vote_values:
  "write_vote k seen v t = Inr t' \<Longrightarrow> x \<in> set t' \<Longrightarrow> cv_value x = v \<and> v \<noteq> 0 \<or> x \<in> set t"
  by (auto simp: write_vote_def insert_anchored_Inr delete_row_def set_update_row split: option.splits if_splits)

lemma vote_attempt_keeps:
  assumes "community_inv s" "v = -1 \<or> v = 0 \<or> v = 1" "vote_attempt u cid v (gates, seen, s) = Inr (vr, s')"
  shows "community_inv s' \<and> carries s s'"
proof -
  obtain t where t: "write_vote (cid, u) seen v (comment_votes s) = Inr t" and s': "s' = s\<lparr>comment_votes := t\<rparr>"
    using assms(3) by (auto simp: vote_attempt_def split: option.splits sum.splits)
  have "votes_inv t"
    using votes_unique [OF t] write_vote_values [OF t] assms(1,2)
    by (auto simp: votes_inv_def community_inv_def)
  then show ?thesis using assms(1) by (intro other_tables) (simp_all add: s' community_inv_def)
qed

lemma attempts_write:
  assumes "attempts_in past s row committed first second" "f first = Inr x \<or> h second = Inr x"
    and "f first = Inr x \<Longrightarrow> committed first"
  obtains g seen where "f (g, seen, s) = Inr x" "g \<in> set past" | g seen where "h (g, seen, s) = Inr x" "g \<in> set past"
proof (cases "f first = Inr x")
  case True
  obtain g seen w where first: "first = (g, seen, w)" by (cases first)
  with True assms(1,3) have "w = s" "g \<in> set past" by (simp_all add: attempts_in_def attempt_in_def)
  with True first that(1) show thesis by blast
next
  case False
  obtain g seen w where second: "second = (g, seen, w)" by (cases second)
  with assms(1) have "w = s" "g \<in> set past" by (simp_all add: attempts_in_def attempt_in_def)
  with False second assms(2) that(2) show thesis by blast
qed

lemma set_vote_Inr:
  assumes "set_vote u cid v first second = Inr r"
  shows "(v = -1 \<or> v = 0 \<or> v = 1)
    \<and> retry_once UQ_COMMENT_VOTES (vote_attempt u cid v first) (vote_attempt u cid v second) = Inr r"
proof (cases "v \<noteq> -1 \<and> v \<noteq> 0 \<and> v \<noteq> 1")
  case True
  then have "set_vote u cid v first second = Inl (InvalidVoteValue v)" unfolding set_vote_def by (rule if_P)
  with assms show ?thesis by simp
next
  case False
  then have "set_vote u cid v first second
      = retry_once UQ_COMMENT_VOTES (vote_attempt u cid v first) (vote_attempt u cid v second)"
    unfolding set_vote_def by (rule if_not_P)
  with assms False show ?thesis by argo
qed

lemma set_vote_keeps:
  assumes inv: "community_inv s" and run: "set_vote u cid v first second = Inr (vr, s')"
    and at: "attempts_in past s row (\<lambda>at. ok (vote_attempt u cid v at)) first second"
  shows "community_inv s' \<and> carries s s'"
proof -
  note out = set_vote_Inr [OF run]
  have v: "v = -1 \<or> v = 0 \<or> v = 1" by (rule out [THEN conjunct1])
  have "vote_attempt u cid v first = Inr (vr, s') \<or> vote_attempt u cid v second = Inr (vr, s')"
    using retry_Inr [OF out [THEN conjunct2]] by argo
  then show ?thesis
  proof (rule attempts_write [OF at, where f = "vote_attempt u cid v" and h = "vote_attempt u cid v" and x = "(vr, s')"])
  qed (simp, (erule vote_attempt_keeps [OF inv v])+)
qed

lemma reaction_attempt_keeps:
  assumes "community_inv s" "reaction_attempt u cid e judge (gates, seen, s) = Inr (added, s')"
  shows "community_inv s' \<and> carries s s'"
proof -
  obtain t where t: "write_reaction (cid, u, e) seen judge (comment_reactions s) = Inr (added, t)"
    and s': "s' = s\<lparr>comment_reactions := t\<rparr>"
    using assms(2) by (auto simp: reaction_attempt_def split: option.splits sum.splits)
  have "distinct (map reaction_key t)"
    using reactions.keeps_unique [OF t] assms(1) by (simp add: community_inv_def)
  then show ?thesis using assms(1) by (intro other_tables) (simp_all add: s' community_inv_def)
qed

lemma toggle_keeps:
  assumes inv: "community_inv s" and run: "toggle_reaction allowed u cid e first second = Inr (added, s')"
    and at: "attempts_in past s row (\<lambda>at. ok (reaction_attempt u cid e True at)) first second"
  shows "community_inv s' \<and> carries s s'"
proof -
  have "reaction_attempt u cid e True first = Inr (added, s') \<or> reaction_attempt u cid e False second = Inr (added, s')"
    using run by (auto simp: toggle_reaction_def split: if_splits dest: retry_Inr)
  then show ?thesis
  proof (rule attempts_write [OF at, where f = "reaction_attempt u cid e True" and h = "reaction_attempt u cid e False"
        and x = "(added, s')"])
  qed (simp, (erule reaction_attempt_keeps [OF inv])+)
qed

lemma write_rating_values:
  "write_rating k seen n t = Inr t' \<Longrightarrow> x \<in> set t' \<Longrightarrow> rating_key x = k \<and> rg_rating x = n \<or> x \<in> set t"
  by (auto simp: write_rating_def insert_anchored_Inr set_update_row split: option.splits if_splits)

lemma rating_attempt_keeps:
  assumes inv: "community_inv s" and n: "1 \<le> n" "n \<le> 5" and earlier: "carries gates s"
    and run: "rating_attempt u tid n (gates, seen, s) = Inr (tr, s')"
  shows "community_inv s' \<and> carries s s'"
proof -
  obtain t where t: "write_rating (tid, u) seen n (task_ratings s) = Inr t" and s': "s' = s\<lparr>task_ratings := t\<rparr>"
    and gate: "rating_gate u tid gates = None"
    using run by (auto simp: rating_attempt_def split: option.splits sum.splits)
  obtain c where "c \<in> set (claims gates)" "completed_on tid u c"
    using gate by (auto simp: rating_gate_def list_ex_iff split: sum.splits if_splits)
  then have c: "c \<in> set (claims s)" "completed_on tid u c"
    using earlier by (auto simp: carries_def completed_on_def)
  have "ratings_inv (claims s) t"
    using ratings_unique [OF t] write_rating_values [OF t] inv n c
    by (fastforce simp: ratings_inv_def community_inv_def rating_key_def)
  then show ?thesis using inv by (intro other_tables) (simp_all add: s' community_inv_def)
qed

lemma rate_keeps:
  assumes inv: "community_inv s" and run: "rate_task u tid j first second = Inr (tr, s')"
    and at: "attempts_in past s row (\<lambda>at. \<forall>n. valid_rating j = Some n \<longrightarrow> ok (rating_attempt u tid n at)) first second"
    and earlier: "\<And>g. g \<in> set past \<Longrightarrow> carries g s"
  shows "community_inv s' \<and> carries s s'"
proof -
  obtain n where n: "valid_rating j = Some n"
    and written: "rating_attempt u tid n first = Inr (tr, s') \<or> rating_attempt u tid n second = Inr (tr, s')"
    using run by (auto simp: rate_task_def split: option.splits dest: retry_Inr)
  have "1 \<le> n" "n \<le> 5" using n by (auto simp: valid_rating_def split: json.splits if_splits)
  note keeps = rating_attempt_keeps [OF inv this]
  show ?thesis
    using written
  proof (rule attempts_write [OF at, where f = "rating_attempt u tid n" and h = "rating_attempt u tid n" and x = "(tr, s')"])
  qed (simp add: n, (erule keeps [OF earlier, rotated], assumption)+)
qed

section \<open>Reports\<close>

lemma report_keeps:
  assumes "community_inv s" "report_comment nlimit u cid category note rid now gates s = Inr (rr, s')"
  shows "community_inv s' \<and> carries s s'"
proof (cases "s' = s")
  case False
  then obtain c stored where
    ins: "insert_report (new_report rid u cid c stored now) (comment_reports s) = Inr (comment_reports s')"
    and s': "s' = s\<lparr>comment_reports := comment_reports s'\<rparr>"
    using assms(2) by (auto simp: report_comment_def split: sum.splits option.splits)
  have "reports_inv (comment_reports s')"
    using ins assms(1)
    by (auto simp: insert_report_def insert_anchored_Inr reports_inv_def community_inv_def closed_ok_def
      new_report_def split: if_splits)
  then show ?thesis using assms(1)
    by (subst (1 2) s') (intro other_tables; simp add: community_inv_def)
qed (use assms in simp)

lemma closable_Inr:
  "require_closable a tid rid s = Inr r \<Longrightarrow> row_of rp_id rid (comment_reports s) = Some r
    \<and> require_task_moderation_site True ReportClosureDenied a tid s = None"
  by (auto simp: require_closable_def split: option.splits if_splits)

lemma closed_report_keeps:
  assumes "reports_inv t" "r \<in> set t" "target \<noteq> OPEN"
  shows "reports_inv (update_row rp_id (rp_id r) (\<lambda>_. closed_report target u now r) t)"
proof -
  have ids: "inj_on rp_id (set t)" using assms(1) by (simp add: reports_inv_def distinct_map)
  let ?f = "\<lambda>x. if rp_id x = rp_id r then closed_report target u now r else x"
  have "report_key (?f x) = report_key x \<and> rp_id (?f x) = rp_id x \<and> closed_ok (?f x)" if "x \<in> set t" for x
    using that assms inj_onD [OF ids, of x r]
    by (auto simp: closed_report_def report_key_def reports_inv_def closed_ok_def)
  moreover from this have "\<forall>x\<in>set (map ?f t). closed_ok x" unfolding set_map by blast
  ultimately have "map report_key (map ?f t) = map report_key t" "map rp_id (map ?f t) = map rp_id t"
    "\<forall>x\<in>set (map ?f t). closed_ok x" by simp_all
  then show ?thesis using assms(1) unfolding reports_inv_def update_row_def by metis
qed

lemma close_keeps:
  assumes "community_inv s" "close_report a tid r target reason note ctx now s = Inr (rr, s')"
    and "r \<in> set (comment_reports s)" "target \<noteq> OPEN"
  shows "community_inv s' \<and> carries s s'"
proof -
  have "reports_inv (comment_reports s')" "comments s' = comments s" "quiet s s'"
    "comment_votes s' = comment_votes s" "comment_reactions s' = comment_reactions s" "task_ratings s' = task_ratings s"
    using assms closed_report_keeps [of "comment_reports s" r target]
    by (auto simp: close_report_def Let_def community_inv_def split: if_splits)
  then show ?thesis using assms(1) by (intro other_tables) (simp_all add: community_inv_def)
qed

lemma dismiss_keeps:
  assumes "community_inv s" "dismiss_report a tid rid why ctx now s = Inr (rr, s')"
  shows "community_inv s' \<and> carries s s'"
proof (cases "s' = s")
  case False
  then obtain r tx where r: "require_closable a tid rid s = Inr r"
    and run: "close_report a tid r DISMISSED (Some tx) None ctx now s = Inr (rr, s')"
    using assms(2) by (auto simp: dismiss_report_def split: sum.splits if_splits)
  have "r \<in> set (comment_reports s)" using closable_Inr [OF r] row_of_SomeD by fast
  then show ?thesis using close_keeps [OF assms(1) run] by simp
qed (use assms in simp)

lemma handle_keeps:
  assumes "community_inv s" "handle_report nlimit a tid rid note ctx now s = Inr (rr, s')"
  shows "community_inv s' \<and> carries s s'"
proof (cases "s' = s")
  case False
  then obtain r tx where r: "require_closable a tid rid s = Inr r"
    and run: "close_report a tid r HANDLED None tx ctx now s = Inr (rr, s')"
    using assms(2) by (auto simp: handle_report_def split: sum.splits if_splits)
  have "r \<in> set (comment_reports s)" using closable_Inr [OF r] row_of_SomeD by fast
  then show ?thesis using close_keeps [OF assms(1) run] by simp
qed (use assms in simp)

lemma reveal_keeps:
  assumes "community_inv s" "request_identity_reveal a cid why ctx now s = Inr (ri, s')"
  shows "community_inv s' \<and> carries s s'"
proof -
  have "comments s' = comments s" "quiet s s'" "comment_votes s' = comment_votes s"
    "comment_reactions s' = comment_reactions s" "comment_reports s' = comment_reports s" "task_ratings s' = task_ratings s"
    using assms(2) by (auto simp: request_identity_reveal_def split: if_splits sum.splits option.splits)
  then show ?thesis using assms(1) by (intro other_tables) (simp_all add: community_inv_def)
qed

section \<open>Campus steps beside the community\<close>

lemma extended_campus [simp]:
  "comments (campus_db.extend c (campus_db.more s)) = comments s"
  "comment_revisions (campus_db.extend c (campus_db.more s)) = comment_revisions s"
  "comment_votes (campus_db.extend c (campus_db.more s)) = comment_votes s"
  "comment_reactions (campus_db.extend c (campus_db.more s)) = comment_reactions s"
  "comment_reports (campus_db.extend c (campus_db.more s)) = comment_reports s"
  "task_ratings (campus_db.extend c (campus_db.more s)) = task_ratings s"
  "claims (campus_db.extend c (campus_db.more s)) = claims c"
  "users (campus_db.extend c (campus_db.more s)) = users c"
  "tasks (campus_db.extend c (campus_db.more s)) = tasks c"
  for s :: community_db
  by (cases s; simp add: campus_db.defs)+

lemma truncate_campus: "campus_inv (campus_db.truncate s) = campus_inv s"
proof -
  have "points_inv (campus_db.truncate s) = points_inv s"
    by (rule points_same_inv) (simp add: points_same_def campus_db.defs)
  moreover have "claims_inv (campus_db.truncate s) = claims_inv s" by (rule claims_inv_cong) (simp_all add: campus_db.defs)
  moreover have "uploads_inv (campus_db.truncate s) = uploads_inv s"
    by (rule uploads_inv_upload_keys) (simp_all add: upload_keys_def campus_db.defs)
  moreover have "claims (campus_db.truncate s) = claims s" "ledger (campus_db.truncate s) = ledger s"
    "upload_keys (campus_db.truncate s) = upload_keys s" by (simp_all add: upload_keys_def campus_db.defs)
  ultimately show ?thesis by (simp add: campus_inv_def)
qed

lemma extend_campus_inv:
  fixes s :: community_db
  shows "campus_inv (campus_db.extend c (campus_db.more s)) = campus_inv c"
proof -
  have "campus_db.truncate (campus_db.extend c (campus_db.more s)) = c" by (cases c; simp add: campus_db.defs)
  then show ?thesis using truncate_campus [of "campus_db.extend c (campus_db.more s)"] by simp
qed

lemma campus_keeps_community:
  assumes inv: "community_inv s" and step: "campus_step (campus_db.truncate s) c"
  shows "community_inv (campus_db.extend c (campus_db.more s)) \<and> carries s (campus_db.extend c (campus_db.more s))"
proof -
  let ?s = "campus_db.extend c (campus_db.more s)"
  have start: "campus_inv (campus_db.truncate s)" using inv by (simp add: truncate_campus community_inv_def)
  have done': "campus_inv c" by (rule campus_step_keeps [OF step start])
  have kept: "d \<in> set (claims c)" if d: "d \<in> set (claims s)" "cl_status d = ClaimStatus.COMPLETED" for d
  proof -
    have "distinct (map cl_id (claims s))"
      using inv by (simp add: community_inv_def campus_inv_def claims_inv_def)
    then have "row_of cl_id (cl_id d) (claims (campus_db.truncate s)) = Some d"
      using d(1) row_of_unique [of cl_id "claims s" d] by (simp add: campus_db.defs)
    then obtain e where "row_of cl_id (cl_id d) (claims c) = Some e" "claim_continues d e"
      using campus_step_moves [OF step start] unfolding moves_def by blast
    moreover have "\<not> active_claim d" using d(2) by (simp add: active_iff)
    ultimately show ?thesis using row_of_SomeD [of cl_id "cl_id d" "claims c" e] by (auto simp: claim_continues_def)
  qed
  have "ratings_inv (claims c) (task_ratings s)"
    using inv kept unfolding community_inv_def ratings_inv_def completed_on_def by blast
  then have "community_inv ?s" using inv done' by (simp add: community_inv_def extend_campus_inv)
  moreover have "carries s ?s" using kept comment_continues_refl unfolding carries_def extended_campus by blast
  ultimately show ?thesis ..
qed

section \<open>Runs\<close>

lemma community_step_keeps:
  assumes "community_step past s s'" "community_inv s" "\<And>g. g \<in> set past \<Longrightarrow> carries g s"
  shows "community_inv s' \<and> carries s s'"
  using assms
proof (induction rule: community_step.induct)
  case com_campus then show ?case using campus_keeps_community by blast
next
  case com_names then show ?case by (intro other_tables) (simp_all add: community_inv_def)
next
  case com_create then show ?case using comment_create_keeps by blast
next
  case com_edit then show ?case using edit_keeps by blast
next
  case com_delete then show ?case using delete_keeps by blast
next
  case com_moderate then show ?case using moderate_keeps by blast
next
  case com_hide then show ?case using hide_keeps by blast
next
  case com_vote then show ?case using set_vote_keeps by blast
next
  case com_react then show ?case using toggle_keeps by blast
next
  case com_rate then show ?case using rate_keeps by blast
next
  case com_report then show ?case using report_keeps by blast
next
  case com_dismiss then show ?case using dismiss_keeps by blast
next
  case com_handle then show ?case using handle_keeps by blast
next
  case com_reveal then show ?case using reveal_keeps by blast
qed

lemma initial_community_inv: "community_inv initial_community"
proof -
  have "campus_db.truncate initial_community = initial_campus"
    by (simp add: initial_community_def initial_campus_def campus_db.defs points_db.defs)
  then have "campus_inv initial_community" using truncate_campus [of initial_community] initial_campus_ok by simp
  then show ?thesis
    by (simp add: community_inv_def initial_community_def campus_db.defs threaded_def hidden_is_deleted_def
      votes_inv_def reports_inv_def ratings_inv_def)
qed

lemma community_run_inv: "community_run ss \<Longrightarrow> ss = s # past
    \<Longrightarrow> community_inv s \<and> (\<forall>g\<in>set ss. carries g s)"
proof (induction arbitrary: s past rule: community_run.induct)
  case run_start
  then show ?case using initial_community_inv by simp
next
  case (run_step t earlier t')
  then have inv: "community_inv t" "\<forall>g\<in>set (t # earlier). carries g t" by blast+
  have "community_inv t' \<and> carries t t'" by (rule community_step_keeps [OF run_step(2) inv(1)]) (use inv in blast)
  then show ?case using inv carries_trans [of _ t t'] run_step(4) by auto
qed

lemmas run_invD = community_run_inv [OF _ refl, THEN conjunct1]
lemmas run_continues = community_run_inv [OF _ refl, THEN conjunct2, rule_format]

end
