(* ===== verification/Community_Laws.thy ===== *)
theory Community_Laws
  imports Community_Facts
begin

text \<open>
  What the community promises, over its runs beside the campus: removal, the public list, anonymity,
  ratings, toggles and the moderation queue; and the race that the hard hide does not close.
\<close>

section \<open>Removal\<close>

lemma page_ids:
  assumes "list_comments tid limit offset s = Inr (page, n)"
  shows "map cp_id page = take limit (drop offset (map cc_id
      (filter (\<lambda>c. cc_id c \<in> shown (thread_rows tid s)) (thread_rows tid s))))"
    and "n = card (shown (thread_rows tid s))"
  using assms
  by (auto simp: list_comments_def Let_def rendered_is_shown take_map drop_map comp_def serialize_row_def
    serialize_tombstone_comment_def serialize_public_comment_def split: if_splits intro!: map_cong)

lemma set_thread_rows:
  "set (thread_rows tid s) = {c \<in> set (comments s). cc_task_id c = tid \<and> row_of us_id (cc_user_id c) (users s) \<noteq> None}"
  by (auto simp: thread_rows_def)

lemma hidden_off_the_page:
  assumes "list_comments tid limit offset s = Inr (page, n)"
    and "\<And>c. c \<in> set (comments s) \<Longrightarrow> cc_id c = k \<Longrightarrow> cc_is_hard_hidden c"
  shows "k \<notin> cp_id ` set page"
proof
  assume "k \<in> cp_id ` set page"
  then have "k \<in> set (map cp_id page)" by simp
  then have "k \<in> shown (thread_rows tid s)"
    unfolding page_ids(1) [OF assms(1)] by (auto dest!: in_set_takeD in_set_dropD)
  then obtain c where "c \<in> set (thread_rows tid s)" "cc_id c = k" "\<not> cc_is_hard_hidden c"
    using hidden_not_shown by blast
  then show False using assms(2) by (auto simp: set_thread_rows)
qed

text \<open>C36: On every state that the community and the campus reach, the hard hide of an administrator with
  a reason returns: its search ends although the code bounds neither depth nor width, because no
  sequence of writes makes a cycle of replies.  It marks exactly the comment and its descendants, which
  all lie on one task, keeps their texts, touches no other comment, writes one audit row, and no list
  shows any of them afterwards.\<close>

theorem hard_hide_returns_and_hides_the_subtree:
  assumes "community_run (s # past)" "actor_role a = ADMIN" "row_of cc_id cid (comments s) = Some root"
    and "require_moderation_reason why = Inr tx"
  shows "\<exists>s' r. admin_hard_hide_subtree a cid why ctx now s = Some (Inr s')
    \<and> comments s' = map (\<lambda>c. if (cid, cc_id c) \<in> (replies (comments s))\<^sup>*
        then hidden_comment now (actor_user_id a) (HARD_HIDDEN_REASON_CODE @ '': '' @ tx) c else c) (comments s)
    \<and> map cc_content (comments s') = map cc_content (comments s)
    \<and> (\<forall>c\<in>set (comments s). (cid, cc_id c) \<in> (replies (comments s))\<^sup>* \<longrightarrow> cc_task_id c = cc_task_id root)
    \<and> audit_logs s' = audit_logs s @ [r] \<and> ar_action r = ''COMMENT_ADMIN_HARD_HIDDEN'' \<and> ar_target_id r = cid
    \<and> (\<forall>tid limit offset page n. list_comments tid limit offset s' = Inr (page, n)
        \<longrightarrow> (\<forall>p\<in>set page. (cid, cp_id p) \<notin> (replies (comments s))\<^sup>*))"
proof -
  have ok: "threaded (comments s)" using run_invD [OF assms(1)] by (simp add: community_inv_def)
  obtain s' r where out: "admin_hard_hide_subtree a cid why ctx now s = Some (Inr s')"
    "comments s' = hide_rows now (actor_user_id a) (HARD_HIDDEN_REASON_CODE @ '': '' @ tx)
        ((replies (comments s))\<^sup>* `` {cid}) (comments s)"
    "audit_logs s' = audit_logs s @ [r]" "ar_action r = ''COMMENT_ADMIN_HARD_HIDDEN''" "ar_target_id r = cid"
    using hide_Inr [OF ok assms(2-4), of ctx now] by blast
  have root: "root \<in> set (comments s)" "cc_id root = cid" using row_of_SomeD [OF assms(3)] by simp_all
  have task: "cc_task_id c = cc_task_id root"
    if "c \<in> set (comments s)" "(cid, cc_id c) \<in> (replies (comments s))\<^sup>*" for c
    using subtree_task [OF ok, of root c] that root by simp
  have gone: "(cid, cp_id p) \<notin> (replies (comments s))\<^sup>*"
    if page: "list_comments tid limit offset s' = Inr (page, n)" and p: "p \<in> set page" for tid limit offset page n p
  proof
    assume "(cid, cp_id p) \<in> (replies (comments s))\<^sup>*"
    then have "cc_is_hard_hidden c" if "c \<in> set (comments s')" "cc_id c = cp_id p" for c
      using that by (auto simp: out(2) hide_rows_def hidden_comment_def deleted_comment_def split: if_splits)
    from hidden_off_the_page [OF page this] p show False by blast
  qed
  have "comments s' = map (\<lambda>c. if (cid, cc_id c) \<in> (replies (comments s))\<^sup>*
        then hidden_comment now (actor_user_id a) (HARD_HIDDEN_REASON_CODE @ '': '' @ tx) c else c) (comments s)"
    by (simp add: out(2) hide_rows_def)
  moreover from this have "map cc_content (comments s') = map cc_content (comments s)"
    by (simp add: hidden_comment_def deleted_comment_def)
  ultimately show ?thesis using out(1,3-5) task gone by blast
qed

section \<open>The public list\<close>

text \<open>C37: What the public list of a task shows is determined by its rule alone: on every reachable state
  exactly one set of comments satisfies the rule that a live comment is shown, a hard-hidden one is
  not and a tombstone is shown when one of its replies is; the loop computes that set, its size is the
  total, and the page is the newest-first sequence of its members, tombstones without text or author.\<close>

theorem the_list_is_the_only_fixpoint:
  assumes "community_run (s # past)" "published_task tid s"
  shows "\<exists>X page. list_comments tid limit offset s = Inr (page, card X)
    \<and> (\<forall>Y. show_step (thread_rows tid s) Y = Y \<longleftrightarrow> Y = X)
    \<and> map cp_id page = take limit (drop offset (map cc_id (filter (\<lambda>c. cc_id c \<in> X) (thread_rows tid s))))
    \<and> (\<forall>p\<in>set page. \<exists>c\<in>set (comments s). cp_id p = cc_id c \<and> cc_task_id c = tid \<and> \<not> cc_is_hard_hidden c
        \<and> (if cc_deleted_at c = None then cp_content p = Some (cc_content c)
           else cp_content p = None \<and> cp_author_display p = DeletedDisplay))"
proof -
  have ok: "threaded (comments s)" using run_invD [OF assms(1)] by (simp add: community_inv_def)
  let ?rows = "thread_rows tid s" and ?X = "shown (thread_rows tid s)"
  obtain page where page: "list_comments tid limit offset s = Inr (page, card ?X)"
    "page = take limit (drop offset (map (\<lambda>c. serialize_row c (fst (user_names s (cc_user_id c)))
            (edited_flag (cc_id c) s)) (filter (\<lambda>c. cc_id c \<in> ?X) ?rows)))"
    using assms(2) by (simp add: list_comments_def Let_def rendered_is_shown)
  have "show_step ?rows Y = Y \<longleftrightarrow> Y = ?X" for Y
    using any_fixpoint_is_shown [OF ok, of ?rows Y] shown_fixpoint [of ?rows] by (auto simp: set_thread_rows)
  moreover have "\<exists>c\<in>set (comments s). cp_id p = cc_id c \<and> cc_task_id c = tid \<and> \<not> cc_is_hard_hidden c
        \<and> (if cc_deleted_at c = None then cp_content p = Some (cc_content c)
           else cp_content p = None \<and> cp_author_display p = DeletedDisplay)" if mem: "p \<in> set page" for p
  proof -
    obtain c where c: "c \<in> set ?rows" "cc_id c \<in> ?X"
      "p = serialize_row c (fst (user_names s (cc_user_id c))) (edited_flag (cc_id c) s)"
      using in_set_dropD [OF in_set_takeD [OF mem [unfolded page(2)]]] by auto
    obtain d where d: "d \<in> set ?rows" "cc_id d = cc_id c" "\<not> cc_is_hard_hidden d"
      using hidden_not_shown [OF c(2)] by blast
    have "d = c" using d(1,2) c(1) ok by (auto simp: set_thread_rows threaded_def distinct_map inj_on_def)
    then show ?thesis using c d
      by (auto simp: set_thread_rows serialize_row_def serialize_tombstone_comment_def serialize_public_comment_def)
  qed
  ultimately show ?thesis using page(1) page_ids(1) [OF page(1)] by blast
qed

text \<open>
  On rows that no service writes, two deleted comments that answer each other, the rule has two
  fixpoints, and the loop computes the least one.
\<close>

definition tombstone_row :: "uuid \<Rightarrow> uuid option \<Rightarrow> comment" where
  "tombstone_row k p = \<lparr>cc_id = k, cc_task_id = 7, cc_user_id = 3, cc_parent_id = p, cc_content = ''x'',
     cc_is_anonymous = False, cc_created_at = 0, cc_updated_at = 0, cc_deleted_at = Some 1,
     cc_deleted_by = Some 3, cc_delete_reason = Some ''owner'', cc_is_hard_hidden = False\<rparr>"

lemma show_step_filter:
  "show_step rows X = set (map cc_id (filter (\<lambda>c. \<not> cc_is_hard_hidden c
     \<and> (cc_deleted_at c = None \<or> list_ex (\<lambda>d. cc_parent_id d = Some (cc_id c) \<and> cc_id d \<in> X) rows)) rows))"
  by (auto simp: show_step_def list_ex_iff)

lemma a_cycle_of_tombstones_renders_nothing:
  "rendered_comment_ids [tombstone_row 1 (Some 2), tombstone_row 2 (Some 1)] = {}
   \<and> show_step [tombstone_row 1 (Some 2), tombstone_row 2 (Some 1)] {1, 2} = {1, 2}"
proof
  show "rendered_comment_ids [tombstone_row 1 (Some 2), tombstone_row 2 (Some 1)] = {}"
    by (simp add: rendered_comment_ids_def render_loop.simps thread_children_def live_def tombstone_row_def)
  show "show_step [tombstone_row 1 (Some 2), tombstone_row 2 (Some 1)] {1, 2} = {1, 2}"
    by (simp add: show_step_filter tombstone_row_def)
qed

section \<open>Anonymity\<close>

definition reassigned :: "(comment \<Rightarrow> uuid) \<Rightarrow> comment \<Rightarrow> comment" where
  "reassigned f c = (if cc_is_anonymous c \<or> cc_deleted_at c \<noteq> None then c\<lparr>cc_user_id := f c\<rparr> else c)"

lemma reassigned_simps [simp]:
  "cc_id (reassigned f c) = cc_id c" "cc_task_id (reassigned f c) = cc_task_id c"
  "cc_parent_id (reassigned f c) = cc_parent_id c" "cc_created_at (reassigned f c) = cc_created_at c"
  "cc_deleted_at (reassigned f c) = cc_deleted_at c" "cc_is_hard_hidden (reassigned f c) = cc_is_hard_hidden c"
  "cc_is_anonymous (reassigned f c) = cc_is_anonymous c" "cc_content (reassigned f c) = cc_content c"
  "cc_updated_at (reassigned f c) = cc_updated_at c"
  by (simp_all add: reassigned_def)

lemma sort_key_map: "sort_key k (map g xs) = map g (sort_key (\<lambda>x. k (g x)) xs)"
proof -
  have ins: "insort_key k (g x) (map g ys) = map g (insort_key (\<lambda>x. k (g x)) x ys)" for x ys
    by (induction ys) auto
  show ?thesis by (induction xs) (simp_all add: ins sort_key_def)
qed

lemma shown_reassigned: "shown (map (reassigned f) rows) = shown rows"
proof -
  have "rendered_comment_ids (map (reassigned f) rows) = rendered_comment_ids rows"
  proof -
    have kids: "thread_children (map (reassigned f) rows) k = thread_children rows k" for k rows
      by (simp add: thread_children_def filter_map comp_def)
    have pass: "render_pass (map (reassigned f) rows) (map (reassigned f) cs) R = render_pass rows cs R" for rows cs R
      by (induction cs arbitrary: R) (simp_all add: kids)
    have "render_loop (map (reassigned f) rows) R = render_loop rows R" for rows R
      by (induction rows R rule: render_loop.induct) (subst (1 2) render_loop.simps, simp add: pass)
    then show ?thesis by (simp add: rendered_comment_ids_def filter_map comp_def live_def)
  qed
  then show ?thesis by (simp add: rendered_is_shown)
qed

text \<open>C38: Readers cannot tell who wrote an anonymous comment: give every anonymous or deleted comment any
  other registered author, and each page of each task's public list, with its total, is the same.\<close>

theorem anonymous_authors_are_unobservable:
  assumes "\<forall>c\<in>set (comments s). known_user (cc_user_id c) s \<and> known_user (f c) s"
  shows "list_comments tid limit offset (s\<lparr>comments := map (reassigned f) (comments s)\<rparr>)
    = list_comments tid limit offset s"
proof -
  let ?s = "s\<lparr>comments := map (reassigned f) (comments s)\<rparr>"
  have known: "row_of us_id (cc_user_id (reassigned f c)) (users s) \<noteq> None
      \<and> row_of us_id (cc_user_id c) (users s) \<noteq> None" if "c \<in> set (comments s)" for c
    using assms that by (auto simp: reassigned_def known_user_def)
  have "filter (\<lambda>c. cc_task_id c = tid \<and> row_of us_id (cc_user_id c) (users s) \<noteq> None) (map (reassigned f) (comments s))
      = map (reassigned f) (filter (\<lambda>c. cc_task_id c = tid \<and> row_of us_id (cc_user_id c) (users s) \<noteq> None) (comments s))"
    unfolding filter_map using known by (intro arg_cong [of _ _ "map (reassigned f)"] filter_cong) auto
  then have rows: "thread_rows tid ?s = map (reassigned f) (thread_rows tid s)"
    by (simp add: thread_rows_def sort_key_map)
  have row: "serialize_row (reassigned f c) n1 e = serialize_row c n2 e"
    if "cc_is_anonymous c \<or> cc_deleted_at c \<noteq> None \<or> n1 = n2" for c n1 n2 e
    using that by (auto simp: serialize_row_def serialize_tombstone_comment_def serialize_public_comment_def)
  have "serialize_row (reassigned f c) (fst (user_names s (cc_user_id (reassigned f c)))) (edited_flag (cc_id c) ?s)
      = serialize_row c (fst (user_names s (cc_user_id c))) (edited_flag (cc_id c) s)" for c
    using row [of c] by (simp add: edited_flag_def reassigned_def split: if_splits)
  then show ?thesis
    by (simp add: list_comments_def Let_def rows rendered_is_shown shown_reassigned filter_map comp_def published_task_def)
qed

section \<open>Toggles\<close>

text \<open>Clicking at the same time is harmless.  An allowed reaction by an admitted account, whatever a
  racing click of the same account inserted between its read and its write, never surfaces the
  database's refusal: its answer is exactly whether the reaction is there afterwards, a lost race
  confirms the reaction instead of removing it, and no other reaction changes.\<close>

theorem a_toggle_answers_the_state:
  assumes "e \<in> set allowed" "community_gate u cid g1 = None" "community_gate u cid g2 = None"
    and "seen = None \<or> seen = reaction_row cid u e s1"
  shows "\<exists>added s' s. toggle_reaction allowed u cid e (g1, seen, s1) (g2, reaction_row cid u e s2, s2) = Inr (added, s')
    \<and> (s = s1 \<or> s = s2 \<and> seen = None \<and> reaction_row cid u e s1 \<noteq> None \<and> added)
    \<and> (added \<longleftrightarrow> reaction_row cid u e s' \<noteq> None) \<and> (\<not> added \<longleftrightarrow> s = s1 \<and> seen \<noteq> None)
    \<and> s' = s\<lparr>comment_reactions := comment_reactions s'\<rparr>
    \<and> (\<forall>k. k \<noteq> (cid, u, e) \<longrightarrow> row_of reaction_key k (comment_reactions s') = row_of reaction_key k (comment_reactions s))"
proof (cases "seen = None \<and> reaction_row cid u e s1 \<noteq> None")
  case True
  then have "(cid, u, e) \<in> reaction_key ` set (comment_reactions s1)"
    using row_of_None [of reaction_key "(cid, u, e)" "comment_reactions s1"] by simp
  then have first: "reaction_attempt u cid e True (g1, seen, s1) = Inl (IntegrityError UQ_COMMENT_REACTIONS)"
    using True assms(2) by (simp add: reaction_attempt_def write_reaction_def insert_anchored_def)
  obtain t where t: "write_reaction (cid, u, e) (reaction_row cid u e s2) False (comment_reactions s2) = Inr (True, t)"
    and there: "row_of reaction_key (cid, u, e) t \<noteq> None"
    using row_of_None [of reaction_key "(cid, u, e)" "comment_reactions s2"]
    by (auto simp: write_reaction_def insert_anchored_def row_of_append split: option.splits)
  then have "toggle_reaction allowed u cid e (g1, seen, s1) (g2, reaction_row cid u e s2, s2)
      = Inr (True, s2\<lparr>comment_reactions := t\<rparr>)"
    using first assms(1,3) by (simp add: toggle_reaction_def retry_once_def reaction_attempt_def)
  then show ?thesis using True there reactions.other_rows [OF t] by (intro exI) auto
next
  case False
  then have seen: "seen = reaction_row cid u e s1" using assms(4) by metis
  let ?add = "seen = None"
  obtain t where t: "write_reaction (cid, u, e) seen True (comment_reactions s1) = Inr (?add, t)"
    and there: "(row_of reaction_key (cid, u, e) t \<noteq> None) = ?add"
    using row_of_None [of reaction_key "(cid, u, e)" "comment_reactions s1"]
    by (auto simp: seen write_reaction_def insert_anchored_def row_of_append row_of_delete_row split: option.splits)
  then have "toggle_reaction allowed u cid e (g1, seen, s1) (g2, reaction_row cid u e s2, s2)
      = Inr (?add, s1\<lparr>comment_reactions := t\<rparr>)"
    using assms(1,2) by (simp add: toggle_reaction_def retry_once_def reaction_attempt_def)
  then show ?thesis using there reactions.other_rows [OF t] by (intro exI [of _ ?add] exI [of _ "s1\<lparr>comment_reactions := t\<rparr>"] exI [of _ s1]) auto
qed

text \<open>A like or dislike settles the same way, and the totals it echoes are those of the state it wrote.\<close>

lemma a_vote_settles:
  assumes "v = 1 \<or> v = -1" "community_gate u cid g1 = None" "community_gate u cid g2 = None"
    and "seen = None \<or> seen = vote_row cid u s1"
  shows "\<exists>vr s'. set_vote u cid v (g1, seen, s1) (g2, vote_row cid u s2, s2) = Inr (vr, s')
    \<and> (\<exists>w. vote_row cid u s' = Some w \<and> cv_value w = v)
    \<and> (vr_likes vr, vr_dislikes vr) = vote_counts cid (comment_votes s')"
proof -
  have stored: "\<exists>t. write_vote (cid, u) x v r = Inr t \<and> (\<exists>w. row_of vote_key (cid, u) t = Some w \<and> cv_value w = v)"
    if "x = row_of vote_key (cid, u) r" for x r
    using that assms(1) row_of_None [of vote_key "(cid, u)" r]
    by (auto simp: write_vote_def insert_anchored_def row_of_append row_of_update_row split: option.splits)
  have vals: "\<not> (v \<noteq> -1 \<and> v \<noteq> 0 \<and> v \<noteq> 1)" using assms(1) by argo
  show ?thesis
  proof (cases "seen = vote_row cid u s1")
    case True
    from stored [OF this] obtain t w where t: "write_vote (cid, u) seen v (comment_votes s1) = Inr t"
      "row_of vote_key (cid, u) t = Some w" "cv_value w = v" by blast
    then have "set_vote u cid v (g1, seen, s1) (g2, vote_row cid u s2, s2) =
        Inr (\<lparr>vr_current_value = v, vr_likes = fst (vote_counts cid t), vr_dislikes = snd (vote_counts cid t)\<rparr>,
          s1\<lparr>comment_votes := t\<rparr>)"
      unfolding set_vote_def if_not_P [OF vals] by (simp add: retry_once_def vote_attempt_def assms(2))
    then show ?thesis using t(2,3) by simp
  next
    case False
    then have "seen = None" "vote_row cid u s1 \<noteq> None" using assms(4) by auto
    then have first: "vote_attempt u cid v (g1, seen, s1) = Inl (IntegrityError UQ_COMMENT_VOTES)"
      using row_of_None [of vote_key "(cid, u)" "comment_votes s1"] assms(1,2)
      by (auto simp: vote_attempt_def write_vote_def insert_anchored_def)
    from stored [of "vote_row cid u s2" "comment_votes s2"] obtain t w
      where t: "write_vote (cid, u) (vote_row cid u s2) v (comment_votes s2) = Inr t"
      "row_of vote_key (cid, u) t = Some w" "cv_value w = v" by blast
    then have "set_vote u cid v (g1, seen, s1) (g2, vote_row cid u s2, s2) =
        Inr (\<lparr>vr_current_value = v, vr_likes = fst (vote_counts cid t), vr_dislikes = snd (vote_counts cid t)\<rparr>,
          s2\<lparr>comment_votes := t\<rparr>)"
      unfolding set_vote_def if_not_P [OF vals] by (simp add: retry_once_def first) (simp add: vote_attempt_def assms(3))
    then show ?thesis using t(2,3) by simp
  qed
qed

section \<open>Ratings\<close>

text \<open>C39: Ratings come from paid work: in every reachable state each rating lies between 1 and 5, is the
  only one of its student on its task, and belongs to a completed claim of that student on that task
  whose reward the points ledger has paid to the same student.\<close>

theorem ratings_come_from_paid_work:
  assumes "community_run (s # past)" "r \<in> set (task_ratings s)"
  shows "1 \<le> rg_rating r \<and> rg_rating r \<le> 5
    \<and> (\<forall>q\<in>set (task_ratings s). rating_key q = rating_key r \<longrightarrow> q = r)
    \<and> (\<exists>c\<in>set (claims s). completed_on (rg_task_id r) (rg_user_id r) c
        \<and> (\<exists>e\<in>set (ledger s). claim_reward (cl_id c) (ledger s) = Some e \<and> le_user_id e = rg_user_id r
            \<and> cl_locked_reward_points c = Some (le_amount e)))"
proof -
  have inv: "community_inv s" by (rule run_invD [OF assms(1)])
  then have rt: "ratings_inv (claims s) (task_ratings s)" and ci: "campus_inv s" by (simp_all add: community_inv_def)
  then obtain c where c: "c \<in> set (claims s)" "completed_on (rg_task_id r) (rg_user_id r) c"
    using assms(2) by (auto simp: ratings_inv_def)
  have "paid_ok (ledger s) c" using campus_invD(4) [OF ci c(1)] by (simp add: claim_ok_def)
  then obtain e where e: "claim_reward (cl_id c) (ledger s) = Some e" "le_user_id e = cl_user_id c"
    "cl_locked_reward_points c = Some (le_amount e)"
    using c(2) by (auto simp: paid_ok_def completed_on_def)
  have "e \<in> set (ledger s)" using e(1) row_of_SomeD by (fastforce simp: claim_reward_def)
  moreover have "q = r" if "q \<in> set (task_ratings s)" "rating_key q = rating_key r" for q
    using that rt assms(2) by (auto simp: ratings_inv_def distinct_map inj_on_def)
  moreover have "1 \<le> rg_rating r" "rg_rating r \<le> 5" using rt assms(2) by (simp_all add: ratings_inv_def)
  ultimately show ?thesis using c e by (fastforce simp: completed_on_def)
qed

section \<open>The queue\<close>

text \<open>A closure request of a moderator, and what a sequence of them leaves; a refused one changes nothing.\<close>

datatype closure_request =
    Dismiss actor json "audit_context option" instant
  | Handle actor json "audit_context option" instant

fun closure :: "nat \<Rightarrow> uuid \<Rightarrow> uuid \<Rightarrow> closure_request \<Rightarrow> 'a community_db_scheme
    \<Rightarrow> community_error + (comment_report \<times> 'a community_db_scheme)" where
  "closure limit tid rid (Dismiss a why ctx now) s = dismiss_report a tid rid why ctx now s"
| "closure limit tid rid (Handle a note ctx now) s = handle_report limit a tid rid note ctx now s"

fun closures :: "nat \<Rightarrow> uuid \<Rightarrow> uuid \<Rightarrow> closure_request list \<Rightarrow> 'a community_db_scheme \<Rightarrow> 'a community_db_scheme" where
  "closures limit tid rid [] s = s"
| "closures limit tid rid (q # qs) s = closures limit tid rid qs
     (case closure limit tid rid q s of Inl e \<Rightarrow> s | Inr (r, s') \<Rightarrow> s')"

fun verdict :: "closure_request \<Rightarrow> ReportStatus" where
  "verdict (Dismiss a why ctx now) = DISMISSED"
| "verdict (Handle a note ctx now) = HANDLED"

fun requester :: "closure_request \<Rightarrow> actor" where
  "requester (Dismiss a why ctx now) = a"
| "requester (Handle a note ctx now) = a"

lemma closure_closed:
  assumes "row_of rp_id rid (comment_reports s) = Some r" "rp_status r \<noteq> OPEN"
  shows "case closure limit tid rid q s of Inl e \<Rightarrow> True | Inr (x, s') \<Rightarrow> s' = s \<and> x = r \<and> verdict q = rp_status r"
  using assms
  by (cases q; cases "rp_status r")
    (auto simp: dismiss_report_def handle_report_def close_report_def dest!: closable_Inr split: sum.splits if_splits)

lemma closures_closed:
  assumes "row_of rp_id rid (comment_reports s) = Some r" "rp_status r \<noteq> OPEN"
  shows "closures limit tid rid qs s = s"
proof (induction qs)
  case (Cons q qs)
  then show ?case using closure_closed [OF assms, where limit = limit and tid = tid and q = q] by (auto split: sum.splits)
qed simp

lemma closure_open:
  assumes "row_of rp_id rid (comment_reports s) = Some r" "rp_status r = OPEN" "closure limit tid rid q s = Inr (x, s')"
  shows "\<exists>now entry. x = closed_report (verdict q) (actor_user_id (requester q)) now r
    \<and> comment_reports s' = update_row rp_id rid (\<lambda>_. x) (comment_reports s) \<and> comments s' = comments s
    \<and> audit_logs s' = audit_logs s @ [entry] \<and> ar_target_id entry = rid \<and> ar_action entry = closure_action (verdict q)
    \<and> ar_actor_user_id entry = actor_user_id (requester q)
    \<and> require_task_moderation_site True ReportClosureDenied (requester q) tid s = None"
proof -
  have rid: "rp_id r = rid" using row_of_SomeD [OF assms(1)] by simp
  show ?thesis
    using assms rid
    by (cases q) (auto simp: dismiss_report_def handle_report_def close_report_def Let_def audit_append_def
      dest!: closable_Inr split: sum.splits if_splits)
qed

text \<open>C40: A report leaves the queue once.  However many moderators send closure requests in whatever order,
  either none is admitted and nothing changes, or the first admitted one decides: the report carries its
  verdict and its author, exactly one audit row records it, every later request changes nothing, and the
  reported comment is never touched.\<close>

theorem a_report_is_decided_once:
  assumes "row_of rp_id rid (comment_reports s) = Some r" "rp_status r = OPEN"
  shows "closures limit tid rid qs s = s \<and> (\<forall>q\<in>set qs. isl (closure limit tid rid q s))
    \<or> (\<exists>before q after x s' entry. qs = before @ q # after \<and> (\<forall>p\<in>set before. isl (closure limit tid rid p s))
        \<and> closure limit tid rid q s = Inr (x, s') \<and> closures limit tid rid qs s = s'
        \<and> row_of rp_id rid (comment_reports s') = Some x \<and> rp_status x = verdict q
        \<and> rp_handled_by x = Some (actor_user_id (requester q)) \<and> report_key x = report_key r
        \<and> require_task_moderation_site True ReportClosureDenied (requester q) tid s = None
        \<and> audit_logs s' = audit_logs s @ [entry] \<and> ar_target_id entry = rid
        \<and> ar_action entry = closure_action (verdict q) \<and> ar_actor_user_id entry = actor_user_id (requester q)
        \<and> comments s' = comments s)"
proof (induction qs)
  case (Cons q qs)
  show ?case
  proof (cases "closure limit tid rid q s")
    case (Inl e)
    then have step: "closures limit tid rid (q # qs) s = closures limit tid rid qs s" and refused: "isl (closure limit tid rid q s)"
      by simp_all
    from Cons.IH show ?thesis
    proof (elim disjE exE conjE)
      fix before p after x s' entry
      assume "qs = before @ p # after" "\<forall>p\<in>set before. isl (closure limit tid rid p s)"
      then have "q # qs = (q # before) @ p # after" "\<forall>p\<in>set (q # before). isl (closure limit tid rid p s)"
        using refused by simp_all
      moreover assume "closure limit tid rid p s = Inr (x, s')" "closures limit tid rid qs s = s'"
        "row_of rp_id rid (comment_reports s') = Some x" "rp_status x = verdict p"
        "rp_handled_by x = Some (actor_user_id (requester p))" "report_key x = report_key r"
        "require_task_moderation_site True ReportClosureDenied (requester p) tid s = None"
        "audit_logs s' = audit_logs s @ [entry]" "ar_target_id entry = rid"
        "ar_action entry = closure_action (verdict p)" "ar_actor_user_id entry = actor_user_id (requester p)"
        "comments s' = comments s"
      ultimately show ?thesis unfolding step by blast
    qed (use step refused in simp)
  next
    case (Inr y)
    obtain x s' where run: "closure limit tid rid q s = Inr (x, s')" using Inr by (cases y) simp
    obtain now entry where x: "x = closed_report (verdict q) (actor_user_id (requester q)) now r"
      and reports: "comment_reports s' = update_row rp_id rid (\<lambda>_. x) (comment_reports s)"
      and rest: "comments s' = comments s" "audit_logs s' = audit_logs s @ [entry]" "ar_target_id entry = rid"
        "ar_action entry = closure_action (verdict q)" "ar_actor_user_id entry = actor_user_id (requester q)"
        "require_task_moderation_site True ReportClosureDenied (requester q) tid s = None"
      using closure_open [OF assms run] by blast
    have status: "rp_status x = verdict q" "rp_handled_by x = Some (actor_user_id (requester q))"
      "report_key x = report_key r" "rp_id x = rid"
      using row_of_SomeD [OF assms(1)] by (simp_all add: x closed_report_def report_key_def)
    then have row: "row_of rp_id rid (comment_reports s') = Some x"
      using assms(1) by (simp add: reports row_of_update_row)
    have "verdict q \<noteq> OPEN" by (cases q) simp_all
    then have last: "closures limit tid rid (q # qs) s = s'"
      using closures_closed [OF row, where limit = limit and tid = tid and qs = qs] status(1) run by simp
    have "q # qs = [] @ q # qs" "\<forall>p\<in>set []. isl (closure limit tid rid p s)" by simp_all
    then show ?thesis using run last row status(1-3) rest by blast
  qed
qed simp

section \<open>Witnesses\<close>

definition beside :: "campus_db \<Rightarrow> community_db" where
  "beside c = campus_db.extend c (campus_db.more initial_community)"

lemma beside_tables [simp]:
  "comments (beside c) = []" "comment_reactions (beside c) = []" "comment_reports (beside c) = []"
  "task_ratings (beside c) = []" "users (beside c) = users c" "tasks (beside c) = tasks c" "claims (beside c) = claims c"
  by (simp_all add: beside_def) (simp_all add: initial_community_def campus_db.defs)

lemma campus_beside: "reachable_campus c \<Longrightarrow> \<exists>past. community_run (beside c # past)"
  unfolding reachable_campus_def
proof (induction rule: rtranclp_induct)
  case base
  have "beside initial_campus = initial_community"
    by (simp add: beside_def initial_community_def campus_db.defs)
  then show ?case using run_start by metis
next
  case (step c d)
  then obtain past where run: "community_run (beside c # past)" by blast
  have "campus_db.truncate (beside c) = c" by (cases c; simp add: beside_def campus_db.defs)
  moreover have "campus_db.more (beside c) = campus_db.more initial_community" by (simp add: beside_def campus_db.defs)
  ultimately have "community_step (beside c # past) (beside c) (beside d)"
    using com_campus [of "beside c" d] step.hyps(2) by (simp add: beside_def)
  then show ?case using run_step [OF run] by blast
qed

definition demo_member :: actor where "demo_member = \<lparr>actor_user_id = 7, actor_role = STUDENT\<rparr>"

definition demo_admin :: actor where "demo_admin = \<lparr>actor_user_id = 90, actor_role = ADMIN\<rparr>"

definition demo_comment :: "uuid option \<Rightarrow> CreateComment" where
  "demo_comment p = \<lparr>nc_task_id = 1, nc_content = JStr ''hello'', nc_parent_id = p, nc_is_anonymous = True\<rparr>"

definition demo_row :: "uuid \<Rightarrow> uuid option \<Rightarrow> comment" where
  "demo_row k p = new_comment demo_member (demo_comment p) ''hello'' k 5"

definition demo_thread :: community_db where
  "demo_thread = (beside demo_campus)\<lparr>comments := [demo_row 11 None, demo_row 12 (Some 11)]\<rparr>"

lemmas thread_defs = demo_row_def new_comment_def demo_comment_def demo_member_def

lemma demo_writer [simp]:
  "users s = users demo_campus \<Longrightarrow> ok (require_community_writer 7 s)"
  "tasks s = tasks demo_campus \<Longrightarrow> published_task 1 s"
  by (simp_all add: require_community_writer_def published_task_def has_any_role_def demo_defs)

lemma demo_create:
  assumes "users seen = users demo_campus" "tasks seen = tasks demo_campus" "users s = users seen" "tasks s = tasks seen"
    and "cid \<notin> cc_id ` set (comments s)"
    and "case p of None \<Rightarrow> True | Some k \<Rightarrow> \<exists>d. row_of cc_id k (comments seen) = Some d \<and> cc_task_id d = 1
      \<and> cc_deleted_at d = None \<and> k \<in> cc_id ` set (comments s)"
  shows "\<exists>cp. create_comment 2000 demo_member (demo_comment p) cid 5 seen s = Inr (cp, s\<lparr>comments := comments s @ [demo_row cid p]\<rparr>)"
proof -
  obtain n where w: "require_community_writer 7 seen = Inr n"
    using demo_writer(1) [OF assms(1)] by (cases "require_community_writer 7 seen") simp_all
  have norm: "normalize_comment_content (JStr ''hello'') 2000 = Inr ''hello''" by code_simp
  have "checked_comment 2000 demo_member (demo_comment p) seen = Inr (n, ''hello'')"
    using w norm demo_writer(2) [OF assms(2)] assms(6)
    by (auto simp: checked_comment_def demo_comment_def demo_member_def validate_parent_def split: option.splits)
  moreover have "insert_comment (demo_row cid p) s = Inr (s\<lparr>comments := comments s @ [demo_row cid p]\<rparr>)"
    using assms by (auto simp: insert_comment_def thread_defs split: option.splits) (simp_all add: demo_defs)
  ultimately show ?thesis by (simp add: create_comment_def demo_row_def Let_def)
qed

lemma demo_thread_run: "\<exists>past. community_run (demo_thread # past)"
proof -
  let ?s0 = "beside demo_campus" and ?s1 = "(beside demo_campus)\<lparr>comments := [demo_row 11 None]\<rparr>"
  obtain past where run: "community_run (?s0 # past)" using campus_beside [OF reachable_demo] by blast
  obtain cp where "create_comment 2000 demo_member (demo_comment None) 11 5 ?s0 ?s0 = Inr (cp, ?s1)"
    using demo_create [of ?s0 ?s0 11 None] by auto
  then have "community_step (?s0 # past) ?s0 ?s1" by (rule com_create [rotated]) simp
  then have run1: "community_run (?s1 # ?s0 # past)" by (rule run_step [OF run])
  obtain cp where "create_comment 2000 demo_member (demo_comment (Some 11)) 12 5 ?s1 ?s1 = Inr (cp, demo_thread)"
    using demo_create [of ?s1 ?s1 12 "Some 11"] by (auto simp: thread_defs demo_thread_def)
  then have "community_step (?s1 # ?s0 # past) ?s1 demo_thread" by (rule com_create [rotated]) simp
  then show ?thesis using run_step [OF run1] by blast
qed

lemma demo_reply: "(11, 12) \<in> replies (comments demo_thread)"
  by (auto simp: replies_def demo_thread_def thread_defs intro!: exI [of _ "demo_row 12 (Some 11)"])

lemma demo_reason: "require_moderation_reason (JStr ''privacy'') = Inr ''privacy''"
  by code_simp

lemma demo_root: "row_of cc_id 11 (comments demo_thread) = Some (demo_row 11 None)"
  by (simp add: demo_thread_def thread_defs)

theorem hard_hide_returns_and_hides_the_subtree_witness:
  "\<exists>s'. admin_hard_hide_subtree demo_admin 11 (JStr ''privacy'') None 9 demo_thread = Some (Inr s')
    \<and> map cc_content (comments s') = [''hello'', ''hello'']
    \<and> (\<forall>page n. list_comments 1 10 0 s' = Inr (page, n) \<longrightarrow> 12 \<notin> cp_id ` set page)"
proof -
  obtain past where run: "community_run (demo_thread # past)" using demo_thread_run by blast
  have role: "actor_role demo_admin = ADMIN" by (simp add: demo_admin_def)
  have texts: "map cc_content (comments demo_thread) = [''hello'', ''hello'']" by (simp add: demo_thread_def thread_defs)
  have reply: "(11, 12) \<in> (replies (comments demo_thread))\<^sup>*" using demo_reply by blast
  obtain s' where s': "admin_hard_hide_subtree demo_admin 11 (JStr ''privacy'') None 9 demo_thread = Some (Inr s')"
    "map cc_content (comments s') = map cc_content (comments demo_thread)"
    and gone: "\<forall>tid limit offset page n. list_comments tid limit offset s' = Inr (page, n)
        \<longrightarrow> (\<forall>p\<in>set page. (11, cp_id p) \<notin> (replies (comments demo_thread))\<^sup>*)"
    using hard_hide_returns_and_hides_the_subtree [OF run role demo_root demo_reason, of None 9] by blast
  have "12 \<notin> cp_id ` set page" if "list_comments 1 10 0 s' = Inr (page, n)" for page n
    using gone that reply by force
  then show ?thesis using s' texts by (intro exI [of _ s']) simp
qed

theorem the_list_is_the_only_fixpoint_witness:
  "\<exists>X page. list_comments 1 10 0 demo_thread = Inr (page, card X)
    \<and> (\<forall>Y. show_step (thread_rows 1 demo_thread) Y = Y \<longleftrightarrow> Y = X)"
proof -
  obtain past where run: "community_run (demo_thread # past)" using demo_thread_run by blast
  have "published_task 1 demo_thread" by (rule demo_writer) (simp add: demo_thread_def)
  from the_list_is_the_only_fixpoint [OF run this, of 10 0] show ?thesis by blast
qed

theorem anonymous_authors_are_unobservable_witness:
  "list_comments 1 10 0 (demo_thread\<lparr>comments := map (reassigned (\<lambda>_. 8)) (comments demo_thread)\<rparr>)
    = list_comments 1 10 0 demo_thread"
proof (rule anonymous_authors_are_unobservable)
  show "\<forall>c\<in>set (comments demo_thread). known_user (cc_user_id c) demo_thread \<and> known_user 8 demo_thread"
    by (simp add: demo_thread_def known_user_def thread_defs demo_defs)
qed

lemma demo_gate: "community_gate 7 11 demo_thread = None"
proof -
  have "users demo_thread = users demo_campus" by (simp add: demo_thread_def)
  from demo_writer(1) [OF this] obtain n where "require_community_writer 7 demo_thread = Inr n"
    by (cases "require_community_writer 7 demo_thread") simp_all
  moreover have "published_task 1 demo_thread" by (rule demo_writer) (simp add: demo_thread_def)
  ultimately show ?thesis
    using demo_root by (simp add: community_gate_def require_visible_comment_def thread_defs)
qed

theorem a_toggle_answers_the_state_witness:
  "\<exists>s'. toggle_reaction [''+1''] 7 11 ''+1'' (demo_thread, None, demo_thread) (demo_thread, None, demo_thread) = Inr (True, s')
    \<and> reaction_row 11 7 ''+1'' s' \<noteq> None"
proof -
  have "reaction_row 11 7 ''+1'' demo_thread = None" by (simp add: demo_thread_def)
  then show ?thesis
    using a_toggle_answers_the_state [of "''+1''" "[''+1'']" 7 11 demo_thread demo_thread None demo_thread demo_thread]
      demo_gate by force
qed

theorem ratings_come_from_paid_work_witness:
  "\<exists>s past r. community_run (s # past) \<and> r \<in> set (task_ratings s) \<and> rg_rating r = 4
    \<and> (\<exists>e\<in>set (ledger s). le_user_id e = rg_user_id r)"
proof -
  obtain c0 cl where c0: "reachable_campus c0" and row: "row_of cl_id 100 (claims c0) = Some cl"
    and st: "cl_status cl = ClaimStatus.COMPLETED" using demo_day by blast
  let ?u = "cl_user_id cl" and ?t = "cl_task_id cl"
  define c where "c = c0\<lparr>users := [\<lparr>us_id = ?u, us_status = UserStatus.ACTIVE, us_role = STUDENT\<rparr>],
    tasks := [demo_task\<lparr>tk_id := ?t\<rparr>], collaborators := [], platforms := []\<rparr>"
  have "reachable_campus c" unfolding c_def by (rule reachable_step [OF c0 step_admin])
  then obtain past where run: "community_run (beside c # past)" using campus_beside by blast
  have "cl \<in> set (claims c)" using row_of_SomeD [OF row] by (simp add: c_def)
  then have gate: "rating_gate ?u ?t (beside c) = None"
    using st by (auto simp: rating_gate_def require_student_writer_def c_def list_ex_iff completed_on_def)
  let ?s = "(beside c)\<lparr>task_ratings := [\<lparr>rg_task_id = ?t, rg_user_id = ?u, rg_rating = 4\<rparr>]\<rparr>"
  have at: "rating_attempt ?u ?t 4 (beside c, None, beside c) = Inr (\<lparr>rg_task_id = ?t, rg_user_id = ?u, rg_rating = 4\<rparr>, ?s)"
    using gate by (simp add: rating_attempt_def write_rating_def insert_anchored_def)
  have "community_step (beside c # past) (beside c) ?s"
    by (rule com_rate [of "beside c # past" "beside c" ?t ?u "JInt 4" "(beside c, None, beside c)" "(beside c, None, beside c)"])
      (simp_all add: attempts_in_def attempt_in_def rate_task_def valid_rating_def retry_once_def at)
  then have run': "community_run (?s # beside c # past)" by (rule run_step [OF run])
  have r: "\<lparr>rg_task_id = ?t, rg_user_id = ?u, rg_rating = 4\<rparr> \<in> set (task_ratings ?s)" by simp
  from ratings_come_from_paid_work [OF run' r] run' r show ?thesis by fastforce
qed

definition demo_queue :: community_db where
  "demo_queue = demo_thread\<lparr>comment_reports := [new_report 60 8 11 SPAM None 6]\<rparr>"

theorem a_report_is_decided_once_witness:
  "\<exists>x. row_of rp_id 60 (comment_reports (closures 500 1 60
      [Dismiss demo_member (JStr ''no'') None 7, Handle demo_admin JNull None 8, Dismiss demo_admin (JStr ''no'') None 9] demo_queue)) = Some x
    \<and> rp_status x \<noteq> OPEN"
proof -
  let ?qs = "[Dismiss demo_member (JStr ''no'') None 7, Handle demo_admin JNull None 8, Dismiss demo_admin (JStr ''no'') None 9]"
  have row: "row_of rp_id 60 (comment_reports demo_queue) = Some (new_report 60 8 11 SPAM None 6)"
    by (simp add: demo_queue_def new_report_def)
  have site: "require_task_moderation_site True ReportClosureDenied demo_admin 1 demo_queue = None"
    by (simp add: require_task_moderation_site_def demo_queue_def demo_thread_def demo_admin_def demo_defs)
  have "require_closable demo_admin 1 60 demo_queue = Inr (new_report 60 8 11 SPAM None 6)"
    using site row demo_root by (simp add: require_closable_def) (simp add: demo_queue_def new_report_def thread_defs)
  then have "ok (closure 500 1 60 (Handle demo_admin JNull None 8) demo_queue)"
    by (simp add: handle_report_def normalize_report_note_def close_report_def new_report_def Let_def)
  moreover have "verdict q \<noteq> OPEN" for q by (cases q) simp_all
  moreover have "rp_status (new_report 60 8 11 SPAM None 6) = OPEN" by (simp add: new_report_def)
  ultimately show ?thesis
    using a_report_is_decided_once [OF row, of 500 1 ?qs] by fastforce
qed

section \<open>The race that the hard hide leaves open\<close>

text \<open>
  A reply whose parent check ran before the hide and whose insertion comes after it is accepted, and
  the public list shows it under the hidden thread.
\<close>

lemma a_reply_slips_under_a_hidden_parent:
  "\<exists>past h s' cp page n. community_run (s' # h # demo_thread # past)
    \<and> admin_hard_hide_subtree demo_admin 11 (JStr ''privacy'') None 9 demo_thread = Some (Inr h)
    \<and> create_comment 2000 demo_member (demo_comment (Some 12)) 13 5 demo_thread h = Inr (cp, s')
    \<and> list_comments 1 10 0 s' = Inr (page, n) \<and> map cp_id page = [13]"
proof -
  obtain past where run: "community_run (demo_thread # past)" using demo_thread_run by blast
  have inv: "threaded (comments demo_thread)" using run_invD [OF run] by (simp add: community_inv_def)
  have role: "actor_role demo_admin = ADMIN" by (simp add: demo_admin_def)
  let ?hide = "hidden_comment 9 (actor_user_id demo_admin) (HARD_HIDDEN_REASON_CODE @ '': '' @ ''privacy'')"
  obtain h where h: "admin_hard_hide_subtree demo_admin 11 (JStr ''privacy'') None 9 demo_thread = Some (Inr h)"
    and "comments h = hide_rows 9 (actor_user_id demo_admin) (HARD_HIDDEN_REASON_CODE @ '': '' @ ''privacy'')
        ((replies (comments demo_thread))\<^sup>* `` {11}) (comments demo_thread)"
    using hide_Inr [OF inv role demo_root demo_reason, of None 9] by blast
  moreover have "(11, 12) \<in> (replies (comments demo_thread))\<^sup>*" using demo_reply by blast
  ultimately have rows: "comments h = [?hide (demo_row 11 None), ?hide (demo_row 12 (Some 11))]"
    by (simp add: demo_thread_def hide_rows_def) (simp add: thread_defs)
  have accounts: "users h = users demo_thread" "tasks h = tasks demo_thread"
    using h by (auto simp: admin_hard_hide_subtree_def Let_def audit_append_def publish_event_def
      split: if_splits sum.splits option.splits)
  let ?s = "h\<lparr>comments := comments h @ [demo_row 13 (Some 12)]\<rparr>"
  have "users demo_thread = users demo_campus" "tasks demo_thread = tasks demo_campus" by (simp_all add: demo_thread_def)
  then obtain cp where cp: "create_comment 2000 demo_member (demo_comment (Some 12)) 13 5 demo_thread h = Inr (cp, ?s)"
    using demo_create [of demo_thread h 13 "Some 12"] accounts
    by (auto simp: rows hidden_comment_def deleted_comment_def demo_thread_def thread_defs)
  have run1: "community_run (h # demo_thread # past)" by (rule run_step [OF run com_hide [OF h]])
  have run2: "community_run (?s # h # demo_thread # past)"
    by (rule run_step [OF run1 com_create [OF _ cp]]) simp
  have sorted: "thread_rows 1 ?s = [?hide (demo_row 11 None), ?hide (demo_row 12 (Some 11)), demo_row 13 (Some 12)]"
    using accounts by (simp add: thread_rows_def rows) (simp add: hidden_comment_def deleted_comment_def thread_defs
      demo_thread_def demo_defs sort_key_def)
  have "rendered_comment_ids (thread_rows 1 ?s) = {13}"
    unfolding sorted by (simp add: rendered_comment_ids_def render_loop.simps live_def
      hidden_comment_def deleted_comment_def thread_defs)
  moreover have "published_task 1 ?s" using accounts by (intro demo_writer) (simp add: demo_thread_def)
  ultimately obtain page n where page: "list_comments 1 10 0 ?s = Inr (page, n)" "map cp_id page = [13]"
    unfolding list_comments_def Let_def sorted
    by (simp add: hidden_comment_def deleted_comment_def thread_defs serialize_row_def serialize_public_comment_def)
  show ?thesis
    by (intro exI [of _ past] exI [of _ h] exI [of _ ?s] exI [of _ cp] exI [of _ page] exI [of _ n] conjI)
      (rule run2 h cp page)+
qed

end
