(* ===== verification/Delivery.thy ===== *)
theory Delivery
  imports Outbox Upload
begin

text \<open>
  Delivering what the port recorded: one send is a claim transaction, a policy decision, a provider call
  and a finalize transaction (\<open>notifications/delivery_service.py\<close>); the due scan and the stuck-claim monitor
  (\<open>workers/jobs/dispatch_due_notifications.py\<close>, \<open>recover_stuck_sending.py\<close>); the inbox
  (\<open>notifications/inbox_service.py\<close>).
\<close>

section \<open>Outcomes\<close>

definition RETRY_DELAYS :: "int list" where
  "RETRY_DELAYS = [minutes 1, minutes 5, minutes 20]"

definition DEFAULT_MAX_ATTEMPTS :: nat where "DEFAULT_MAX_ATTEMPTS = 3"

definition DEFAULT_STALE_CLAIM_THRESHOLD :: int where "DEFAULT_STALE_CLAIM_THRESHOLD = minutes 15"

datatype SendOutcome =
    OUTCOME_SENT | SKIPPED | RETRY_SCHEDULED | OUTCOME_FAILED | ALREADY_SENT | ALREADY_FAILED
  | NOT_DUE | IN_FLIGHT | OUTCOME_MISSING

record SendResult =
  se_delivery_id :: uuid
  se_outcome :: SendOutcome
  se_status :: "DeliveryStatus option"
  se_attempts :: nat
  se_scheduled_at :: "instant option"
  se_skip_reason :: "string option"

definition observed :: "NotificationDelivery \<Rightarrow> SendOutcome \<Rightarrow> SendResult" where
  "observed d out = \<lparr>se_delivery_id = nd_id d, se_outcome = out, se_status = Some (nd_status d),
     se_attempts = nd_attempts d, se_scheduled_at = Some (nd_scheduled_at d), se_skip_reason = None\<rparr>"

definition missing_result :: "uuid \<Rightarrow> SendResult" where
  "missing_result did = \<lparr>se_delivery_id = did, se_outcome = OUTCOME_MISSING, se_status = None, se_attempts = 0,
     se_scheduled_at = None, se_skip_reason = None\<rparr>"

definition provider_idempotency_key :: "string \<Rightarrow> NotificationChannel \<Rightarrow> uuid \<Rightarrow> string" where
  "provider_idempotency_key key ch uid = key @ '':'' @ channel_value ch @ '':'' @ uuid_str uid"

text \<open>The snapshot a claim takes along.\<close>

record send_claim =
  sc_delivery_id :: uuid
  sc_user_id :: uuid
  sc_event_key :: string
  sc_event_type :: NotificationEventType
  sc_channel :: NotificationChannel
  sc_attempts :: nat
  sc_scheduled_at :: instant
  sc_title :: string
  sc_body :: string
  sc_phone_e164 :: "string option"
  sc_email_normalized :: "string option"
  sc_channel_skip_reason :: "string option"

text \<open>The service as it is configured; the provider ports are functions of the request.\<close>

record send_request =
  sq_channel :: NotificationChannel
  sq_to :: string
  sq_template :: string
  sq_title :: string
  sq_body :: string
  sq_idempotency_key :: string

datatype send_answer = Receipt "string option" | Failure provider_failure string

record delivery_config =
  dv_max_attempts :: nat
  dv_stale_claim_threshold :: int
  dv_claim_status :: "(uuid \<Rightarrow> string option) option"
  dv_recruitment :: "(uuid \<times> uuid \<Rightarrow> bool) option"
  dv_parse_uuid :: "string \<Rightarrow> uuid option"
  dv_iso_aware :: "string \<Rightarrow> bool"

definition DeliveryService_init :: "delivery_config \<Rightarrow> unit + delivery_config" where
  "DeliveryService_init c = (if dv_max_attempts c < 1 then Inl ()
     else if dv_stale_claim_threshold c < 1000000 then Inl () else Inr c)"

section \<open>tx1: the claim\<close>

definition put_delivery :: "NotificationDelivery \<Rightarrow> 'a outbox_scheme \<Rightarrow> 'a outbox_scheme" where
  "put_delivery d s = s\<lparr>deliveries := update_row nd_id (nd_id d) (\<lambda>_. d) (deliveries s)\<rparr>"

text \<open>The routing decision again, with the default task policy for reminders.\<close>

definition dispatch_skip_reason :: "recipient \<Rightarrow> NotificationEventType \<Rightarrow> NotificationChannel \<Rightarrow> string option" where
  "dispatch_skip_reason user et ch = skip_reason user default_policy et ch"

definition claimed_delivery :: "instant \<Rightarrow> NotificationDelivery \<Rightarrow> NotificationDelivery" where
  "claimed_delivery now d = d\<lparr>nd_status := SENDING, nd_attempts := nd_attempts d + 1, nd_updated_at := now\<rparr>"

definition claim_delivery ::
  "delivery_config \<Rightarrow> uuid \<Rightarrow> instant \<Rightarrow> 'a outbox_scheme
    \<Rightarrow> notify_error + ((SendResult + send_claim) \<times> 'a outbox_scheme)" where
  "claim_delivery cfg did now s =
     (case row_of nd_id did (deliveries s) of None \<Rightarrow> Inr (Inl (missing_result did), s) | Some d \<Rightarrow>
      if nd_status d = SENT then Inr (Inl (observed d ALREADY_SENT), s)
      else if nd_status d = FAILED then Inr (Inl (observed d ALREADY_FAILED), s)
      else if nd_status d = SENDING \<and> now - nd_updated_at d < dv_stale_claim_threshold cfg
      then Inr (Inl (observed d IN_FLIGHT), s)
      else if now < nd_scheduled_at d then Inr (Inl (observed d NOT_DUE), s)
      else case row_of nf_id (nd_notification_id d) (messages s) of None \<Rightarrow> Inl (MissingReference did) | Some n \<Rightarrow>
      case row_of rc_id (nd_user_id d) (recipients s) of None \<Rightarrow> Inl (MissingReference did) | Some u \<Rightarrow>
      let d' = claimed_delivery now d in
      Inr (Inr \<lparr>sc_delivery_id = nd_id d', sc_user_id = nd_user_id d', sc_event_key = nd_event_key d',
          sc_event_type = nf_event_type n, sc_channel = nd_channel d', sc_attempts = nd_attempts d',
          sc_scheduled_at = nd_scheduled_at d', sc_title = nf_title n, sc_body = nf_body n,
          sc_phone_e164 = rc_phone_e164 u, sc_email_normalized = rc_email_normalized u,
          sc_channel_skip_reason = dispatch_skip_reason u (nf_event_type n) (nd_channel d')\<rparr>,
        put_delivery d' s))"

section \<open>The decision between the transactions\<close>

record finalize_request =
  fz_outcome :: SendOutcome
  fz_status :: DeliveryStatus
  fz_last_error :: "string option"
  fz_retry_due_at :: "instant option"
  fz_clear_read_at :: bool
  fz_provider_message_id :: "string option"
  fz_recruitment :: "(uuid \<times> uuid) option"

definition plain_request :: "SendOutcome \<Rightarrow> DeliveryStatus \<Rightarrow> string option \<Rightarrow> finalize_request" where
  "plain_request out st err = \<lparr>fz_outcome = out, fz_status = st, fz_last_error = err, fz_retry_due_at = None,
     fz_clear_read_at = False, fz_provider_message_id = None, fz_recruitment = None\<rparr>"

text \<open>\<open>split(":", 3)\<close>: at most four parts, the last one unsplit.\<close>

fun split_at_colon :: "string \<Rightarrow> string \<times> string option" where
  "split_at_colon [] = ([], None)"
| "split_at_colon (c # cs) = (if c = CHR '':'' then ([], Some cs)
     else case split_at_colon cs of (a, b) \<Rightarrow> (c # a, b))"

fun split_colons :: "nat \<Rightarrow> string \<Rightarrow> string list" where
  "split_colons 0 t = [t]"
| "split_colons (Suc n) t = (case split_at_colon t of (a, None) \<Rightarrow> [a] | (a, Some rest) \<Rightarrow> a # split_colons n rest)"

definition recruitment_reminder_ids :: "delivery_config \<Rightarrow> string \<Rightarrow> notify_error + (uuid \<times> uuid)" where
  "recruitment_reminder_ids cfg key = (case split_colons 3 key of
       [p, r, c, due] \<Rightarrow>
         if p \<noteq> ''ie-recruitment'' then Inl (BadReminderKey key)
         else case dv_parse_uuid cfg r of None \<Rightarrow> Inl (BadReminderKey key) | Some rid \<Rightarrow>
         case dv_parse_uuid cfg c of None \<Rightarrow> Inl (BadReminderKey key) | Some cid \<Rightarrow>
         if \<not> dv_iso_aware cfg due then Inl (BadReminderKey key) else Inr (rid, cid)
     | _ \<Rightarrow> Inl (BadReminderKey key))"

definition dispatch_skip_token :: "delivery_config \<Rightarrow> send_claim \<Rightarrow> instant \<Rightarrow> notify_error + string option" where
  "dispatch_skip_token cfg c now =
     (case sc_channel_skip_reason c of Some r \<Rightarrow> Inr (Some (SKIPPED_LAST_ERROR_PREFIX @ r)) | None \<Rightarrow>
      if sc_event_type c = IE_RECRUITMENT_CONFIRMATION_DUE
      then (if dv_recruitment cfg = None then Inl ResolverRequired
            else case recruitment_reminder_ids cfg (sc_event_key c) of Inl e \<Rightarrow> Inl e | Inr ids \<Rightarrow>
            if sc_channel c \<noteq> IN_APP then Inl ReminderRequiresInApp else Inr None)
      else if sc_event_type c \<in> set DEADLINE_REMINDER_EVENTS
      then (case dv_claim_status cfg of None \<Rightarrow> Inr None | Some resolve \<Rightarrow>
        case claim_id_from_event_key (sc_event_key c) of None \<Rightarrow> Inr None | Some cid \<Rightarrow>
        case resolve cid of
          None \<Rightarrow> Inr (Some (SKIPPED_LAST_ERROR_PREFIX @ ''deadline_claim_status:missing''))
        | Some st \<Rightarrow> (case should_send_reminder st (Aware now) (Aware (sc_scheduled_at c)) of Inl e \<Rightarrow> Inl e
            | Inr goes \<Rightarrow> Inr (if goes then None
                else Some (SKIPPED_LAST_ERROR_PREFIX @ ''deadline_claim_status:'' @ st))))
      else Inr None)"

definition retry_or_fail :: "delivery_config \<Rightarrow> send_claim \<Rightarrow> instant \<Rightarrow> string \<Rightarrow> finalize_request" where
  "retry_or_fail cfg c now token =
     (if dv_max_attempts cfg \<le> sc_attempts c then plain_request OUTCOME_FAILED FAILED (Some token)
      else (plain_request RETRY_SCHEDULED RETRYABLE (Some token))
        \<lparr>fz_retry_due_at := Some (now + RETRY_DELAYS ! (min (sc_attempts c) (length RETRY_DELAYS) - 1))\<rparr>)"

definition provider_request :: "send_claim \<Rightarrow> notify_error + send_request" where
  "provider_request c =
     (case (if sc_channel c = SMS then sc_phone_e164 c else sc_email_normalized c) of
        None \<Rightarrow> Inl (NoAddress (sc_delivery_id c))
      | Some address \<Rightarrow> Inr \<lparr>sq_channel = sc_channel c, sq_to = address,
          sq_template = py_lower (event_type_value (sc_event_type c)), sq_title = sc_title c, sq_body = sc_body c,
          sq_idempotency_key = provider_idempotency_key (sc_event_key c) (sc_channel c) (sc_user_id c)\<rparr>)"

definition provider_outcome :: "delivery_config \<Rightarrow> send_claim \<Rightarrow> instant \<Rightarrow> send_answer \<Rightarrow> finalize_request" where
  "provider_outcome cfg c now answer = (case answer of
       Receipt r \<Rightarrow> (plain_request OUTCOME_SENT SENT None)\<lparr>fz_provider_message_id := r\<rparr>
     | Failure PermanentProviderError t \<Rightarrow> plain_request OUTCOME_FAILED FAILED (Some (''permanent:'' @ t))
     | Failure UnknownOutcomeError t \<Rightarrow> retry_or_fail cfg c now (''unknown_outcome:'' @ t)
     | Failure TemporaryProviderError t \<Rightarrow> retry_or_fail cfg c now (''temporary:'' @ t))"

definition decide_send ::
  "delivery_config \<Rightarrow> (send_request \<Rightarrow> send_answer) \<Rightarrow> send_claim \<Rightarrow> instant \<Rightarrow> notify_error + finalize_request" where
  "decide_send cfg provider c now =
     (case dispatch_skip_token cfg c now of Inl e \<Rightarrow> Inl e
      | Inr (Some token) \<Rightarrow> Inr (plain_request SKIPPED SENT (Some token))
      | Inr None \<Rightarrow>
        if sc_channel c = IN_APP
        then (if sc_event_type c = IE_RECRUITMENT_CONFIRMATION_DUE
          then (case recruitment_reminder_ids cfg (sc_event_key c) of Inl e \<Rightarrow> Inl e | Inr ids \<Rightarrow>
            Inr ((plain_request OUTCOME_SENT SENT None)\<lparr>fz_clear_read_at := True, fz_recruitment := Some ids\<rparr>))
          else Inr ((plain_request OUTCOME_SENT SENT None)\<lparr>fz_clear_read_at := True\<rparr>))
        else case provider_request c of Inl e \<Rightarrow> Inl e | Inr q \<Rightarrow> Inr (provider_outcome cfg c now (provider q)))"

section \<open>tx2: the outcome\<close>

text \<open>A recruitment reminder that is no longer current is a skip.\<close>

definition settle_recruitment :: "delivery_config \<Rightarrow> finalize_request \<Rightarrow> notify_error + finalize_request" where
  "settle_recruitment cfg f = (case fz_recruitment f of None \<Rightarrow> Inr f | Some ids \<Rightarrow>
     case dv_recruitment cfg of None \<Rightarrow> Inl ResolverRequired | Some current \<Rightarrow>
     Inr (if current ids then f else f\<lparr>fz_outcome := SKIPPED,
       fz_last_error := Some (SKIPPED_LAST_ERROR_PREFIX @ ''recruitment_obsolete''), fz_clear_read_at := False\<rparr>))"

definition finalized_delivery :: "instant \<Rightarrow> finalize_request \<Rightarrow> NotificationDelivery \<Rightarrow> NotificationDelivery" where
  "finalized_delivery now f d = d\<lparr>nd_status := fz_status f, nd_updated_at := now, nd_last_error := fz_last_error f,
     nd_provider_message_id := fz_provider_message_id f,
     nd_sent_at := (if fz_status f = SENT then Some now else nd_sent_at d),
     nd_scheduled_at := (case fz_retry_due_at f of None \<Rightarrow> nd_scheduled_at d | Some t \<Rightarrow> t)\<rparr>"

definition clear_read :: "uuid \<Rightarrow> 'a outbox_scheme \<Rightarrow> 'a outbox_scheme" where
  "clear_read nid s = s\<lparr>messages := update_row nf_id nid (\<lambda>n. n\<lparr>nf_read_at := None\<rparr>) (messages s)\<rparr>"

definition finalize_delivery ::
  "delivery_config \<Rightarrow> uuid \<Rightarrow> instant \<Rightarrow> finalize_request \<Rightarrow> 'a outbox_scheme
    \<Rightarrow> notify_error + (SendResult \<times> 'a outbox_scheme)" where
  "finalize_delivery cfg did now req s =
     (case settle_recruitment cfg req of Inl e \<Rightarrow> Inl e | Inr f \<Rightarrow>
      case row_of nd_id did (deliveries s) of None \<Rightarrow> Inr (missing_result did, s) | Some d \<Rightarrow>
      if nd_status d \<noteq> SENDING
      then Inr (observed d (if nd_status d = SENT then ALREADY_SENT else if nd_status d = FAILED then ALREADY_FAILED
             else IN_FLIGHT), s)
      else let d' = finalized_delivery now f d; s1 = put_delivery d' s;
             s2 = (if fz_clear_read_at f then clear_read (nd_notification_id d) s1 else s1) in
        Inr (\<lparr>se_delivery_id = nd_id d, se_outcome = fz_outcome f, se_status = Some (fz_status f),
          se_attempts = nd_attempts d, se_scheduled_at = Some (nd_scheduled_at d'),
          se_skip_reason = (if fz_outcome f = SKIPPED then fz_last_error f else None)\<rparr>, s2))"

text \<open>
  One uninterrupted send: an error between the transactions leaves the committed claim behind.
\<close>

definition send ::
  "delivery_config \<Rightarrow> (send_request \<Rightarrow> send_answer) \<Rightarrow> uuid \<Rightarrow> instant \<Rightarrow> 'a outbox_scheme
    \<Rightarrow> (notify_error + SendResult) \<times> 'a outbox_scheme" where
  "send cfg provider did now s =
     (case claim_delivery cfg did now s of Inl e \<Rightarrow> (Inl e, s)
      | Inr (Inl r, s1) \<Rightarrow> (Inr r, s1)
      | Inr (Inr c, s1) \<Rightarrow>
        (case decide_send cfg provider c now of Inl e \<Rightarrow> (Inl e, s1) | Inr f \<Rightarrow>
         case finalize_delivery cfg (sc_delivery_id c) now f s1 of Inl e \<Rightarrow> (Inl e, s1) | Inr (r, s2) \<Rightarrow> (Inr r, s2)))"

section \<open>The due scan and the monitor\<close>

datatype due_reason = REASON_DUE | REASON_STUCK_SENDING

definition due_delivery :: "instant \<Rightarrow> int \<Rightarrow> NotificationDelivery \<Rightarrow> bool" where
  "due_delivery now stale_after d \<longleftrightarrow> nd_status d \<in> {PENDING, RETRYABLE} \<and> nd_scheduled_at d \<le> now
     \<or> nd_status d = SENDING \<and> nd_updated_at d \<le> now - stale_after"

definition event_selected :: "NotificationEventType list option \<Rightarrow> 'a outbox_scheme \<Rightarrow> NotificationDelivery \<Rightarrow> bool" where
  "event_selected ets s d = (case ets of None \<Rightarrow> True | Some es \<Rightarrow>
     list_ex (\<lambda>n. nf_id n = nd_notification_id d \<and> nf_event_type n \<in> set es) (messages s))"

definition collect_due_deliveries ::
  "NotificationEventType list option \<Rightarrow> nat \<Rightarrow> int \<Rightarrow> instant \<Rightarrow> 'a outbox_scheme \<Rightarrow> (uuid \<times> due_reason) list" where
  "collect_due_deliveries ets lim stale_after now s =
     map (\<lambda>d. (nd_id d, if nd_status d = SENDING then REASON_STUCK_SENDING else REASON_DUE))
       (take lim (sort_key nd_scheduled_at (sort_key nd_id
          (filter (\<lambda>d. event_selected ets s d \<and> due_delivery now stale_after d) (deliveries s)))))"

text \<open>
  The scan job enqueues one send per discovery, on the given queue.  Its argument \<open>event_types\<close> is accepted and
  not handed to the scan.
\<close>

record dispatch_report =
  dr_enqueued :: nat
  dr_due :: nat
  dr_stuck_sending :: nat
  dr_delivery_ids :: "uuid list"

definition dispatch_due_notifications ::
  "nat \<Rightarrow> int \<Rightarrow> NotificationEventType list option \<Rightarrow> string option \<Rightarrow> instant \<Rightarrow> 'a outbox_scheme
    \<Rightarrow> (uuid \<times> string option) list \<times> dispatch_report" where
  "dispatch_due_notifications lim stale_after ets queue now s =
     (let discovered = collect_due_deliveries None lim stale_after now s in
      (map (\<lambda>(did, _). (did, queue)) discovered,
       \<lparr>dr_enqueued = length discovered,
        dr_due = length (filter (\<lambda>r. r = REASON_DUE) (map snd discovered)),
        dr_stuck_sending = length (filter (\<lambda>r. r = REASON_STUCK_SENDING) (map snd discovered)),
        dr_delivery_ids = map fst discovered\<rparr>))"

text \<open>The production service: three attempts, the scan's threshold, the status column of the claim.\<close>

definition claim_status_of :: "claim list \<Rightarrow> uuid \<Rightarrow> string option" where
  "claim_status_of cs cid = map_option (\<lambda>c. claim_status_value (cl_status c)) (row_of cl_id cid cs)"

definition build_delivery_service ::
  "int \<Rightarrow> claim list \<Rightarrow> (uuid \<times> uuid \<Rightarrow> bool) \<Rightarrow> (string \<Rightarrow> uuid option) \<Rightarrow> (string \<Rightarrow> bool) \<Rightarrow> unit + delivery_config" where
  "build_delivery_service stale_after cs recruitment_current parse_uuid iso_aware =
     DeliveryService_init \<lparr>dv_max_attempts = DEFAULT_MAX_ATTEMPTS, dv_stale_claim_threshold = stale_after,
       dv_claim_status = Some (claim_status_of cs), dv_recruitment = Some recruitment_current,
       dv_parse_uuid = parse_uuid, dv_iso_aware = iso_aware\<rparr>"

definition STUCK_SENDING_RECOVERY_MARKER :: string where
  "STUCK_SENDING_RECOVERY_MARKER = ''stuck-SENDING recovery''"

definition recovered :: "instant \<Rightarrow> NotificationDelivery \<Rightarrow> NotificationDelivery" where
  "recovered now d = d\<lparr>nd_status := RETRYABLE, nd_last_error := Some STUCK_SENDING_RECOVERY_MARKER, nd_updated_at := now\<rparr>"

definition recover_stuck_sending_deliveries ::
  "int \<Rightarrow> nat \<Rightarrow> instant \<Rightarrow> 'a outbox_scheme \<Rightarrow> uuid list \<times> 'a outbox_scheme" where
  "recover_stuck_sending_deliveries stuck_after lim now s =
     (let ids = map nd_id (take lim (sort_key nd_updated_at (sort_key nd_id
          (filter (\<lambda>d. nd_status d = SENDING \<and> nd_updated_at d \<le> now - stuck_after) (deliveries s))))) in
      (ids, s\<lparr>deliveries := map (\<lambda>d. if nd_id d \<in> set ids then recovered now d else d) (deliveries s)\<rparr>))"

section \<open>The inbox\<close>

definition skipped_marker :: "string option \<Rightarrow> bool" where
  "skipped_marker e \<longleftrightarrow> (case e of None \<Rightarrow> False | Some t \<Rightarrow>
     take (length SKIPPED_LAST_ERROR_PREFIX) t = SKIPPED_LAST_ERROR_PREFIX)"

definition in_app_delivery_completed :: "'a outbox_scheme \<Rightarrow> Notification \<Rightarrow> bool" where
  "in_app_delivery_completed s n \<longleftrightarrow> list_ex (\<lambda>d. nd_notification_id d = nf_id n \<and> nd_channel d = IN_APP
     \<and> nd_status d = SENT \<and> \<not> skipped_marker (nd_last_error d)) (deliveries s)"

definition inbox_rows :: "uuid \<Rightarrow> bool \<Rightarrow> 'a outbox_scheme \<Rightarrow> Notification list" where
  "inbox_rows uid unread_only s = filter (\<lambda>n. nf_user_id n = uid \<and> in_app_delivery_completed s n
     \<and> (unread_only \<longrightarrow> nf_read_at n = None)) (messages s)"

definition list_inbox ::
  "uuid \<Rightarrow> bool \<Rightarrow> nat \<Rightarrow> nat \<Rightarrow> 'a outbox_scheme \<Rightarrow> Notification list \<times> nat" where
  "list_inbox uid unread_only lim offset s =
     (take lim (drop offset (rev (sort_key nf_created_at (sort_key nf_id (inbox_rows uid unread_only s))))),
      length (inbox_rows uid unread_only s))"

datatype inbox_error = NotificationNotFound uuid | NotificationNotOwned uuid uuid

fun inbox_envelope :: "inbox_error \<Rightarrow> business_error" where
  "inbox_envelope (NotificationNotFound nid) = Business NOT_FOUND 404 [(''notification_id'', JUuid nid)]"
| "inbox_envelope (NotificationNotOwned nid uid) =
     Business PERMISSION_DENIED 403 [(''notification_id'', JUuid nid), (''user_id'', JUuid uid)]"

definition mark_read :: "instant \<Rightarrow> uuid \<Rightarrow> uuid \<Rightarrow> 'a outbox_scheme \<Rightarrow> inbox_error + (Notification \<times> 'a outbox_scheme)" where
  "mark_read now nid uid s =
     (case row_of nf_id nid (messages s) of None \<Rightarrow> Inl (NotificationNotFound nid) | Some n \<Rightarrow>
      if nf_user_id n \<noteq> uid then Inl (NotificationNotOwned nid uid)
      else if nf_read_at n = None
      then let n' = n\<lparr>nf_read_at := Some now\<rparr> in
        Inr (n', s\<lparr>messages := update_row nf_id nid (\<lambda>_. n') (messages s)\<rparr>)
      else Inr (n, s))"

definition list_failures :: "nat \<Rightarrow> nat \<Rightarrow> 'a outbox_scheme \<Rightarrow> NotificationDelivery list \<times> nat" where
  "list_failures lim offset s =
     (take lim (drop offset (rev (sort_key nd_updated_at (sort_key nd_id
        (filter (\<lambda>d. nd_status d = FAILED) (deliveries s)))))),
      length (filter (\<lambda>d. nd_status d = FAILED) (deliveries s)))"

end
