(* ===== verification/Template_Admin.thy ===== *)
theory Template_Admin
  imports Outbox
begin

text \<open>
  Administration of the managed templates (\<open>notifications/template_admin.py\<close>): creation, edits with a
  version bump and toggles, each audited in its transaction.  An argument supplies the texts that are not ASCII.
\<close>

definition AUDIT_NOTIFICATION_TEMPLATE_UPSERTED :: string where
  "AUDIT_NOTIFICATION_TEMPLATE_UPSERTED = ''NOTIFICATION_TEMPLATE_UPSERTED''"

definition AUDIT_NOTIFICATION_TEMPLATE_TOGGLED :: string where
  "AUDIT_NOTIFICATION_TEMPLATE_TOGGLED = ''NOTIFICATION_TEMPLATE_TOGGLED''"

definition TITLE_MAX_LENGTH :: nat where "TITLE_MAX_LENGTH = 255"
definition SUMMARY_MAX_LENGTH :: nat where "SUMMARY_MAX_LENGTH = 120"

datatype template_admin_error =
    AdminRequired
  | UnknownMember string string
  | TextsRequired
  | BlankText string
  | TitleOverflow
  | MarkupRejected template_error string
  | TemplateConflict NotificationEventType NotificationChannel
  | TemplateNotFound uuid
  | NotABoolean

type_synonym texts = "string \<Rightarrow> string"

fun template_admin_envelope :: "texts \<Rightarrow> template_admin_error \<Rightarrow> business_error" where
  "template_admin_envelope tx AdminRequired = Business PERMISSION_DENIED 403 []"
| "template_admin_envelope tx (UnknownMember fld v) =
     Business VALIDATION_ERROR 422 [(''field'', JStr fld), (''value'', JStr v)]"
| "template_admin_envelope tx TextsRequired =
     Business VALIDATION_ERROR 422 [(''reason'', JStr (tx ''texts required''))]"
| "template_admin_envelope tx (BlankText fld) =
     Business VALIDATION_ERROR 422 [(''field'', JStr fld), (''reason'', JStr (tx ''blank''))]"
| "template_admin_envelope tx TitleOverflow =
     Business VALIDATION_ERROR 422 [(''field'', JStr ''title''), (''reason'', JStr (tx ''too long''))]"
| "template_admin_envelope tx (MarkupRejected (UnsafeTemplateMarkup et ch f m) fld) = Business VALIDATION_ERROR 422
     [(''field'', JStr f), (''marker'', JStr m), (''event_type'', JStr (event_type_value et)),
      (''channel'', JStr (channel_value ch))]"
| "template_admin_envelope tx (MarkupRejected (InvalidTemplate et ch n known) fld) = Business VALIDATION_ERROR 422
     [(''field'', JStr fld), (''placeholder'', JStr n), (''known_variables'', JList (map JStr known)),
      (''event_type'', JStr (event_type_value et)), (''channel'', JStr (channel_value ch))]"
| "template_admin_envelope tx (MarkupRejected (MissingTemplateVariable et ch n) fld) = Business INTERNAL_ERROR 500 []"
| "template_admin_envelope tx (TemplateConflict et ch) = Business VALIDATION_ERROR 409
     [(''event_type'', JStr (event_type_value et)), (''channel'', JStr (channel_value ch))]"
| "template_admin_envelope tx (TemplateNotFound tid) = Business NOT_FOUND 404 [(''template_id'', JUuid tid)]"
| "template_admin_envelope tx NotABoolean =
     Business VALIDATION_ERROR 422 [(''field'', JStr ''enabled''), (''reason'', JStr (tx ''not a boolean''))]"

definition summary_of :: "texts \<Rightarrow> string \<Rightarrow> string" where
  "summary_of tx t = (if length t \<le> SUMMARY_MAX_LENGTH then t else take (SUMMARY_MAX_LENGTH - 1) t @ tx ''ellipsis'')"

definition template_snapshot :: "texts \<Rightarrow> NotificationTemplate \<Rightarrow> json" where
  "template_snapshot tx t = dict [(''title'', JStr (summary_of tx (tp_title t))),
     (''template_body'', JStr (summary_of tx (tp_template_body t))),
     (''version'', JInt (int (tp_version t))), (''enabled'', JBool (tp_enabled t))]"

definition typed_event_type :: "string \<Rightarrow> template_admin_error + NotificationEventType" where
  "typed_event_type v = (case event_type_of v of None \<Rightarrow> Inl (UnknownMember ''event_type'' v) | Some et \<Rightarrow> Inr et)"

definition typed_channel :: "string \<Rightarrow> template_admin_error + NotificationChannel" where
  "typed_channel v = (case channel_of v of None \<Rightarrow> Inl (UnknownMember ''channel'' v) | Some ch \<Rightarrow> Inr ch)"

text \<open>Stored texts are stripped; the rejected placeholder is attributed to the title when it occurs there.\<close>

definition validated_texts ::
  "NotificationEventType \<Rightarrow> NotificationChannel \<Rightarrow> string option \<Rightarrow> string option
    \<Rightarrow> template_admin_error + (string \<times> string)" where
  "validated_texts et ch title body =
     (case title of None \<Rightarrow> Inl TextsRequired | Some t \<Rightarrow>
      case body of None \<Rightarrow> Inl TextsRequired | Some b \<Rightarrow>
      let stored_title = py_strip t; stored_body = py_strip b in
      if stored_title = [] then Inl (BlankText ''title'')
      else if TITLE_MAX_LENGTH < length stored_title then Inl TitleOverflow
      else if stored_body = [] then Inl (BlankText ''template_body'')
      else case validate_admin_template et ch stored_title stored_body of
        Inl (InvalidTemplate e c n k) \<Rightarrow> Inl (MarkupRejected (InvalidTemplate e c n k)
           (if occurs_in (''{'' @ n @ ''}'') stored_title then ''title'' else ''template_body''))
      | Inl e \<Rightarrow> Inl (MarkupRejected e [])
      | Inr _ \<Rightarrow> Inr (stored_title, stored_body))"

definition template_audit ::
  "actor \<Rightarrow> string \<Rightarrow> uuid \<Rightarrow> json option \<Rightarrow> json \<Rightarrow> audit_context option \<Rightarrow> 'a outbox_scheme \<Rightarrow> 'a outbox_scheme" where
  "template_audit a action tid before after ctx s =
     audit_append a action ''notification_template'' tid None None before (Some after) ctx s"

definition put_template :: "NotificationTemplate \<Rightarrow> 'a outbox_scheme \<Rightarrow> 'a outbox_scheme" where
  "put_template t s = s\<lparr>templates := update_row tp_id (tp_id t) (\<lambda>_. t) (templates s)\<rparr>"

definition create_template ::
  "texts \<Rightarrow> uuid \<Rightarrow> actor \<Rightarrow> string \<Rightarrow> string \<Rightarrow> string option \<Rightarrow> string option \<Rightarrow> audit_context option
    \<Rightarrow> 'a outbox_scheme \<Rightarrow> template_admin_error + (NotificationTemplate \<times> 'a outbox_scheme)" where
  "create_template tx tid a event_type channel title body ctx s =
     (if \<not> is_admin (actor_role a) then Inl AdminRequired
      else case typed_event_type event_type of Inl e \<Rightarrow> Inl e | Inr et \<Rightarrow>
      case typed_channel channel of Inl e \<Rightarrow> Inl e | Inr ch \<Rightarrow>
      case validated_texts et ch title body of Inl e \<Rightarrow> Inl e | Inr (t, b) \<Rightarrow>
      if channel_template et ch s \<noteq> None then Inl (TemplateConflict et ch)
      else let row = \<lparr>tp_id = tid, tp_event_type = et, tp_channel = ch, tp_title = t, tp_template_body = b,
             tp_enabled = True, tp_version = 1\<rparr> in
        Inr (row, template_audit a AUDIT_NOTIFICATION_TEMPLATE_UPSERTED tid None (template_snapshot tx row) ctx
          (s\<lparr>templates := templates s @ [row]\<rparr>)))"

definition update_template ::
  "texts \<Rightarrow> actor \<Rightarrow> uuid \<Rightarrow> string option \<Rightarrow> string option \<Rightarrow> audit_context option
    \<Rightarrow> 'a outbox_scheme \<Rightarrow> template_admin_error + (NotificationTemplate \<times> 'a outbox_scheme)" where
  "update_template tx a tid title body ctx s =
     (if \<not> is_admin (actor_role a) then Inl AdminRequired
      else case row_of tp_id tid (templates s) of None \<Rightarrow> Inl (TemplateNotFound tid) | Some row \<Rightarrow>
      case validated_texts (tp_event_type row) (tp_channel row) title body of Inl e \<Rightarrow> Inl e | Inr (t, b) \<Rightarrow>
      let row' = row\<lparr>tp_title := t, tp_template_body := b, tp_version := tp_version row + 1\<rparr> in
      Inr (row', template_audit a AUDIT_NOTIFICATION_TEMPLATE_UPSERTED tid (Some (template_snapshot tx row))
        (template_snapshot tx row') ctx (put_template row' s)))"

definition set_template_enabled ::
  "texts \<Rightarrow> actor \<Rightarrow> uuid \<Rightarrow> bool option \<Rightarrow> audit_context option \<Rightarrow> 'a outbox_scheme
    \<Rightarrow> template_admin_error + (NotificationTemplate \<times> 'a outbox_scheme)" where
  "set_template_enabled tx a tid enabled ctx s =
     (if \<not> is_admin (actor_role a) then Inl AdminRequired
      else case enabled of None \<Rightarrow> Inl NotABoolean | Some v \<Rightarrow>
      case row_of tp_id tid (templates s) of None \<Rightarrow> Inl (TemplateNotFound tid) | Some row \<Rightarrow>
      if tp_enabled row = v then Inr (row, s)
      else let row' = row\<lparr>tp_enabled := v\<rparr> in
        Inr (row', template_audit a AUDIT_NOTIFICATION_TEMPLATE_TOGGLED tid (Some (template_snapshot tx row))
          (template_snapshot tx row') ctx (put_template row' s)))"

end
