(* ===== verification/Outbox_Facts.thy ===== *)
theory Outbox_Facts
  imports Template_Admin Claim_Facts
begin

text \<open>
  What registration guarantees: event keys name their claim, recording an event again changes nothing,
  managed templates always render, and when a registration can fail at all.
\<close>

section \<open>Identifiers in event keys\<close>

lemma length_hex_text [simp]: "length (hex_text k n) = k"
  by (induction k arbitrary: n) auto

lemma hex_digit_value: "v < 16 \<Longrightarrow> hex_value (hex_digits ! v) = Some v"
proof -
  assume "v < 16"
  moreover have "list_all (\<lambda>v. hex_value (hex_digits ! v) = Some v) [0..<16]" by code_simp
  ultimately show ?thesis by (simp add: list_all_iff)
qed

lemma read_hex_append: "read_hex acc (xs @ ys) = Option.bind (read_hex acc xs) (\<lambda>a. read_hex a ys)"
  by (induction xs arbitrary: acc) (auto split: option.splits)

lemma read_hex_text: "read_hex acc (hex_text k n) = Some (acc * 16 ^ k + n mod 16 ^ k)"
proof (induction k arbitrary: n)
  case (Suc k)
  have "16 * (acc * 16 ^ k + n div 16 mod 16 ^ k) + n mod 16 = acc * 16 ^ Suc k + n mod 16 ^ Suc k"
    by (simp add: mod_mult2_eq distrib_left)
  then show ?case using hex_digit_value [of "n mod 16"] by (simp add: read_hex_append Suc.IH)
qed simp

lemma uuid_str_length [simp]: "length (uuid_str u) = 36"
  by (simp add: uuid_str_def Let_def)

lemma strict_uuid_str:
  assumes "u < 16 ^ 32"
  shows "strict_uuid (uuid_str u) = Some u"
proof -
  define h where "h = hex_text 32 u"
  have len: "length h = 32" by (simp add: h_def)
  have parts: "uuid_str u = take 8 h @ ''-'' @ take 4 (drop 8 h) @ ''-'' @ take 4 (drop 12 h) @ ''-'' @ take 4 (drop 16 h) @ ''-'' @ drop 20 h"
    by (simp add: uuid_str_def h_def Let_def)
  have "take 8 (uuid_str u) @ take 4 (drop 9 (uuid_str u)) @ take 4 (drop 14 (uuid_str u)) @ take 4 (drop 19 (uuid_str u)) @ drop 24 (uuid_str u)
      = take 8 h @ take 4 (drop 8 h) @ take 4 (drop 12 h) @ take 4 (drop 16 h) @ drop 20 h"
    by (simp add: parts len)
  also have "\<dots> = h"
  proof -
    have "take 4 (drop 16 h) @ drop 20 h = drop 16 h" using append_take_drop_id [of 4 "drop 16 h"] by simp
    moreover have "take 4 (drop 12 h) @ drop 16 h = drop 12 h" using append_take_drop_id [of 4 "drop 12 h"] by simp
    moreover have "take 4 (drop 8 h) @ drop 12 h = drop 8 h" using append_take_drop_id [of 4 "drop 8 h"] by simp
    ultimately show ?thesis using append_take_drop_id [of 8 h] by simp
  qed
  finally show ?thesis
    using assms read_hex_text [of 0 32 u] by (simp add: strict_uuid_def parts len nth_append h_def)
qed

text \<open>The dispatcher reads the claim of a reminder back from its event key.\<close>

lemma reminder_key_names_its_claim:
  assumes "u < 16 ^ 32"
  shows "claim_id_from_event_key (''claim:'' @ uuid_str u @ '':'' @ suffix) = Some u"
  using strict_uuid_str [OF assms] by (simp add: claim_id_from_event_key_def nth_append)

section \<open>Idempotent registration\<close>

lemma insert_notification_Inr:
  assumes "insert_notification env i m s = Inr (nid, s')"
  shows "length (rm_title m) \<le> 255" "row_of note_key (in_event_key i, in_user_id i) (messages s') \<noteq> None"
    "\<exists>new. messages s' = messages s @ new" "templates s' = templates s" "deliveries s' = deliveries s" "recipients s' = recipients s"
  using assms
  by (auto simp: insert_notification_def row_of_append note_key_def Let_def split: if_splits option.splits)

lemma insert_notification_again:
  "length (rm_title m) \<le> 255 \<Longrightarrow> row_of note_key (in_event_key i, in_user_id i) (messages s) \<noteq> None
    \<Longrightarrow> \<exists>nid. insert_notification env i m s = Inr (nid, s)"
  by (auto simp: insert_notification_def)

definition product_of ::
  "port_env \<Rightarrow> RecordIntent \<Rightarrow> (string \<rightharpoonup> string) \<Rightarrow> NotificationChannel \<Rightarrow> 'a outbox_scheme \<Rightarrow> RenderedMessage option" where
  "product_of env i vars ch s = (if ch = IN_APP then None else render_channel_product env i ch vars s)"

definition frozen ::
  "port_env \<Rightarrow> RecordIntent \<Rightarrow> (string \<rightharpoonup> string) \<Rightarrow> NotificationChannel list \<Rightarrow> 'a outbox_scheme \<Rightarrow> bool" where
  "frozen env i vars chs s \<longleftrightarrow> (\<forall>ch\<in>set chs. \<forall>m. product_of env i vars ch s = Some m \<longrightarrow> length (rm_title m) \<le> 255
     \<and> row_of note_key (snapshot_event_key (in_event_key i) ch, in_user_id i) (messages s) \<noteq> None)"

text \<open>Registration only appends.\<close>

definition grown :: "'a outbox_scheme \<Rightarrow> 'a outbox_scheme \<Rightarrow> bool" where
  "grown s s' \<longleftrightarrow> (\<exists>ms. messages s' = messages s @ ms) \<and> (\<exists>ds. deliveries s' = deliveries s @ ds)
     \<and> templates s' = templates s \<and> recipients s' = recipients s"

lemma grown_refl [simp]: "grown s s"
  by (simp add: grown_def)

lemma grown_trans: "grown s s1 \<Longrightarrow> grown s1 s2 \<Longrightarrow> grown s s2"
  unfolding grown_def by (metis append_assoc)

lemma row_grown: "t' = t @ new \<Longrightarrow> row_of key k t = Some r \<Longrightarrow> row_of key k t' = Some r"
  by (simp add: row_of_append)

lemma product_templates: "templates s' = templates s \<Longrightarrow> product_of env i vars ch s' = product_of env i vars ch s"
  by (simp add: product_of_def render_channel_product_def channel_template_def)

lemma frozen_grown: "frozen env i vars chs s \<Longrightarrow> grown s s' \<Longrightarrow> frozen env i vars chs s'"
  unfolding frozen_def
proof (intro ballI allI impI)
  fix ch m
  assume fr: "\<forall>ch\<in>set chs. \<forall>m. product_of env i vars ch s = Some m \<longrightarrow> length (rm_title m) \<le> 255
      \<and> row_of note_key (snapshot_event_key (in_event_key i) ch, in_user_id i) (messages s) \<noteq> None"
    and g: "grown s s'" and ch: "ch \<in> set chs" and m: "product_of env i vars ch s' = Some m"
  have "product_of env i vars ch s = Some m" using m product_templates [of s' s env i vars ch] g by (simp add: grown_def)
  then have "length (rm_title m) \<le> 255 \<and> row_of note_key (snapshot_event_key (in_event_key i) ch, in_user_id i) (messages s) \<noteq> None"
    using fr ch by blast
  moreover obtain ms where "messages s' = messages s @ ms" using g unfolding grown_def by blast
  ultimately show "length (rm_title m) \<le> 255
      \<and> row_of note_key (snapshot_event_key (in_event_key i) ch, in_user_id i) (messages s') \<noteq> None"
    by (auto simp: row_of_append)
qed

lemma freeze_Inr:
  "freeze_products env i vars chs s = Inr (ids, s') \<Longrightarrow> grown s s' \<and> deliveries s' = deliveries s \<and> frozen env i vars chs s'"
proof (induction chs arbitrary: s ids s')
  case Nil then show ?case by (simp add: frozen_def)
next
  case (Cons ch chs)
  show ?case
  proof (cases "product_of env i vars ch s")
    case None
    then have "freeze_products env i vars chs s = Inr (ids, s')" using Cons.prems by (simp add: product_of_def)
    from Cons.IH [OF this] have ih: "grown s s'" "deliveries s' = deliveries s" "frozen env i vars chs s'" by blast+
    have "product_of env i vars ch s' = None"
      using ih(1) product_templates [of s' s env i vars ch] None by (simp add: grown_def)
    then show ?thesis using ih by (simp add: frozen_def)
  next
    case (Some m)
    let ?i = "i\<lparr>in_event_key := snapshot_event_key (in_event_key i) ch\<rparr>"
    obtain nid s1 ids1 where ins: "insert_notification env ?i m s = Inr (nid, s1)"
      and rest: "freeze_products env i vars chs s1 = Inr (ids1, s')"
      using Cons.prems Some by (auto simp: product_of_def split: sum.splits)
    have s1: "grown s s1" "deliveries s1 = deliveries s" "templates s1 = templates s"
      using insert_notification_Inr [OF ins] by (auto simp: grown_def)
    have ih: "grown s1 s'" "deliveries s' = deliveries s1" "frozen env i vars chs s'" using Cons.IH [OF rest] by blast+
    have "frozen env i vars [ch] s1"
      using insert_notification_Inr(1,2) [OF ins] Some product_templates [OF s1(3), of env i vars ch]
      by (simp add: frozen_def)
    then have "frozen env i vars [ch] s'" using frozen_grown ih(1) by blast
    then show ?thesis using ih s1 grown_trans [OF s1(1) ih(1)] by (simp add: frozen_def)
  qed
qed

lemma freeze_again: "frozen env i vars chs s \<Longrightarrow> \<exists>ids. freeze_products env i vars chs s = Inr (ids, s)"
proof (induction chs)
  case (Cons ch chs)
  have ih: "\<exists>ids. freeze_products env i vars chs s = Inr (ids, s)" using Cons by (simp add: frozen_def)
  show ?case
  proof (cases "product_of env i vars ch s")
    case None then show ?thesis using ih by (simp add: product_of_def)
  next
    case (Some m)
    have "\<exists>nid. insert_notification env (i\<lparr>in_event_key := snapshot_event_key (in_event_key i) ch\<rparr>) m s = Inr (nid, s)"
      using Cons.prems Some by (intro insert_notification_again) (auto simp: frozen_def)
    then show ?thesis using ih Some by (auto simp: product_of_def)
  qed
qed simp

lemma insert_delivery_grown:
  "grown s (insert_delivery env i nid ch s) \<and> messages (insert_delivery env i nid ch s) = messages s
    \<and> row_of delivery_key (in_event_key i, in_user_id i, ch) (deliveries (insert_delivery env i nid ch s)) \<noteq> None"
  by (auto simp: insert_delivery_def grown_def row_of_append delivery_key_def)

lemma insert_deliveries_grown:
  "grown s (fold (\<lambda>ch. insert_delivery env i (f ch) ch) chs s)
    \<and> messages (fold (\<lambda>ch. insert_delivery env i (f ch) ch) chs s) = messages s
    \<and> (\<forall>ch\<in>set chs. row_of delivery_key (in_event_key i, in_user_id i, ch)
        (deliveries (fold (\<lambda>ch. insert_delivery env i (f ch) ch) chs s)) \<noteq> None)"
proof (induction chs arbitrary: s)
  case (Cons ch chs)
  let ?s1 = "insert_delivery env i (f ch) ch s"
  let ?s2 = "fold (\<lambda>ch. insert_delivery env i (f ch) ch) chs ?s1"
  have one: "grown s ?s1" "messages ?s1 = messages s"
    "row_of delivery_key (in_event_key i, in_user_id i, ch) (deliveries ?s1) \<noteq> None"
    using insert_delivery_grown [of s env i "f ch" ch] by blast+
  have ih: "grown ?s1 ?s2" "messages ?s2 = messages ?s1"
    "\<forall>c\<in>set chs. row_of delivery_key (in_event_key i, in_user_id i, c) (deliveries ?s2) \<noteq> None"
    using Cons.IH [of ?s1] by blast+
  obtain r where r: "row_of delivery_key (in_event_key i, in_user_id i, ch) (deliveries ?s1) = Some r" using one(3) by blast
  obtain ds where ds: "deliveries ?s2 = deliveries ?s1 @ ds" using ih(1) unfolding grown_def by blast
  have "row_of delivery_key (in_event_key i, in_user_id i, ch) (deliveries ?s2) \<noteq> None"
    using row_grown [OF ds r] by simp
  then show ?case using one(2) ih grown_trans [OF one(1) ih(1)] by simp
qed simp

lemma insert_deliveries_again:
  "\<forall>ch\<in>set chs. row_of delivery_key (in_event_key i, in_user_id i, ch) (deliveries s) \<noteq> None
    \<Longrightarrow> fold (\<lambda>ch. insert_delivery env i (f ch) ch) chs s = s"
  by (induction chs) (auto simp: insert_delivery_def)

definition recorded :: "port_env \<Rightarrow> payload \<Rightarrow> RecordIntent \<Rightarrow> 'a outbox_scheme \<Rightarrow> bool" where
  "recorded env p i s \<longleftrightarrow> in_channels i = [] \<or> (\<exists>vs m. render_variables env p (EVENT_VARIABLES (in_event_type i)) = Inr vs
     \<and> render_in_app_snapshot env i (channel_template (in_event_type i) IN_APP s) (map_of vs) = Inr m
     \<and> length (rm_title m) \<le> 255 \<and> row_of note_key (in_event_key i, in_user_id i) (messages s) \<noteq> None
     \<and> frozen env i (map_of vs) (in_channels i) s
     \<and> (\<forall>ch\<in>set (in_channels i). row_of delivery_key (in_event_key i, in_user_id i, ch) (deliveries s) \<noteq> None))"

lemma recorded_grown:
  assumes "recorded env p i s" "grown s s'"
  shows "recorded env p i s'"
proof (cases "in_channels i = []")
  case False
  then obtain vs m where r: "render_variables env p (EVENT_VARIABLES (in_event_type i)) = Inr vs"
    "render_in_app_snapshot env i (channel_template (in_event_type i) IN_APP s) (map_of vs) = Inr m"
    "length (rm_title m) \<le> 255" "row_of note_key (in_event_key i, in_user_id i) (messages s) \<noteq> None"
    "frozen env i (map_of vs) (in_channels i) s"
    "\<forall>ch\<in>set (in_channels i). row_of delivery_key (in_event_key i, in_user_id i, ch) (deliveries s) \<noteq> None"
    using assms(1) unfolding recorded_def by blast
  obtain ms ds where g: "messages s' = messages s @ ms" "deliveries s' = deliveries s @ ds" "templates s' = templates s"
    using assms(2) unfolding grown_def by blast
  have "row_of note_key (in_event_key i, in_user_id i) (messages s') \<noteq> None"
    using r(4) by (auto simp: g row_of_append)
  moreover have "\<forall>ch\<in>set (in_channels i). row_of delivery_key (in_event_key i, in_user_id i, ch) (deliveries s') \<noteq> None"
    using r(6) by (auto simp: g row_of_append)
  moreover have "channel_template et ch s' = channel_template et ch s" for et ch by (simp add: channel_template_def g)
  ultimately show ?thesis using r(1-3) frozen_grown [OF r(5) assms(2)] unfolding recorded_def by auto
qed (simp add: recorded_def)

lemma persist_records:
  assumes "persist_intent env p i s = Inr s'"
  shows "grown s s' \<and> recorded env p i s'"
proof (cases "in_channels i = []")
  case True then show ?thesis using assms by (simp add: persist_intent_def recorded_def)
next
  case False
  obtain vs m nid s1 ids s2 where r: "render_variables env p (EVENT_VARIABLES (in_event_type i)) = Inr vs"
    "render_in_app_snapshot env i (channel_template (in_event_type i) IN_APP s) (map_of vs) = Inr m"
    and ins: "insert_notification env i m s = Inr (nid, s1)"
    and fr: "freeze_products env i (map_of vs) (in_channels i) s1 = Inr (ids, s2)"
    and s': "s' = fold (\<lambda>ch. insert_delivery env i (case map_of ids ch of None \<Rightarrow> nid | Some j \<Rightarrow> j) ch) (in_channels i) s2"
    using assms False unfolding persist_intent_def by (auto split: sum.splits)
  have g1: "grown s s1" using insert_notification_Inr [OF ins] by (auto simp: grown_def)
  have g2: "grown s1 s2" "frozen env i (map_of vs) (in_channels i) s2" using freeze_Inr [OF fr] by blast+
  have g3: "grown s2 s'" "messages s' = messages s2"
    "\<forall>ch\<in>set (in_channels i). row_of delivery_key (in_event_key i, in_user_id i, ch) (deliveries s') \<noteq> None"
    unfolding s' using insert_deliveries_grown [of s2 env i "\<lambda>ch. case map_of ids ch of None \<Rightarrow> nid | Some j \<Rightarrow> j" "in_channels i"]
    by blast+
  have g: "grown s s'" using g1 g2(1) g3(1) grown_trans by blast
  obtain ms where "messages s2 = messages s1 @ ms" using g2(1) unfolding grown_def by blast
  then have "row_of note_key (in_event_key i, in_user_id i) (messages s') \<noteq> None"
    using insert_notification_Inr(2) [OF ins] g3(2) by (auto simp: row_of_append)
  moreover have "channel_template (in_event_type i) IN_APP s' = channel_template (in_event_type i) IN_APP s"
    using g by (simp add: grown_def channel_template_def)
  ultimately show ?thesis
    using g r insert_notification_Inr(1) [OF ins] g3(3) frozen_grown [OF g2(2) g3(1)] unfolding recorded_def by auto
qed

text \<open>The parts of the environment that a text depends on.\<close>

definition same_texts :: "port_env \<Rightarrow> port_env \<Rightarrow> bool" where
  "same_texts env env' \<longleftrightarrow> pe_seeds env' = pe_seeds env \<and> pe_isoformat env' = pe_isoformat env
     \<and> pe_str_int env' = pe_str_int env \<and> pe_parse_id env' = pe_parse_id env"

lemma render_value_same: "same_texts env env' \<Longrightarrow> render_value env' n v = render_value env n v"
  by (cases v) (simp_all add: same_texts_def)

lemma render_variables_same: "same_texts env env' \<Longrightarrow> render_variables env' p ns = render_variables env p ns"
  by (induction ns) (simp_all add: render_value_same cong: option.case_cong sum.case_cong)

lemma recorded_again:
  assumes "recorded env p i s" "same_texts env env'"
  shows "persist_intent env' p (i\<lparr>in_scheduled_at := t\<rparr>) s = Inr s"
proof (cases "in_channels i = []")
  case False
  let ?i = "i\<lparr>in_scheduled_at := t\<rparr>"
  obtain vs m where r: "render_variables env p (EVENT_VARIABLES (in_event_type i)) = Inr vs"
    "render_in_app_snapshot env i (channel_template (in_event_type i) IN_APP s) (map_of vs) = Inr m"
    "length (rm_title m) \<le> 255" "row_of note_key (in_event_key i, in_user_id i) (messages s) \<noteq> None"
    "frozen env i (map_of vs) (in_channels i) s"
    "\<forall>ch\<in>set (in_channels i). row_of delivery_key (in_event_key i, in_user_id i, ch) (deliveries s) \<noteq> None"
    using assms(1) False unfolding recorded_def by blast
  have "render_in_app_snapshot env' ?i = render_in_app_snapshot env i"
    using assms(2) by (intro ext) (simp add: render_in_app_snapshot_def same_texts_def Let_def split: option.split)
  moreover have "product_of env' ?i v ch s = product_of env i v ch s" for v ch
    using assms(2) by (simp add: product_of_def render_channel_product_def same_texts_def split: option.split)
  then have "frozen env' ?i (map_of vs) (in_channels i) s" using r(5) by (simp add: frozen_def)
  then obtain ids where "freeze_products env' ?i (map_of vs) (in_channels i) s = Inr (ids, s)"
    using freeze_again by blast
  moreover obtain nid where "insert_notification env' ?i m s = Inr (nid, s)"
    using insert_notification_again [of m ?i s env'] r(3,4) by auto
  moreover have "fold (\<lambda>ch. insert_delivery env' ?i (f ch) ch) (in_channels i) s = s" for f
    using insert_deliveries_again [of "in_channels i" ?i s env' f] r(6) by simp
  ultimately show ?thesis
    using False r(1,2) render_variables_same [OF assms(2)] by (simp add: persist_intent_def)
qed (simp add: persist_intent_def)

text \<open>Planning again later plans a part of what was planned.\<close>

lemma later_plans:
  assumes "now \<le> later" "plan_reminders cid uid d user now pol rs = Inr ps"
  shows "\<exists>js. plan_reminders cid uid d user later pol rs = Inr js \<and> set js \<subseteq> set ps"
  using assms(2)
proof (induction rs arbitrary: "ps")
  case (Cons r rs)
  show ?case
  proof (cases "d - rs_lead_time r < now")
    case True then show ?thesis using Cons assms(1) by simp
  next
    case False
    obtain ds where ds: "eligible_channels user (Some pol) (rs_event_type r) = Inr ds"
      using Cons.prems False by (auto simp: Let_def split: sum.splits)
    obtain ps1 where ps1: "plan_reminders cid uid d user now pol rs = Inr ps1" "set ps1 \<subseteq> set ps"
      proof (cases "eligible_of ds = []")
      case True then show ?thesis using Cons.prems False ds that [of ps] by (simp add: Let_def)
    next
      case False' : False
      then obtain qs where qs: "plan_reminders cid uid d user now pol rs = Inr qs" and ps: "\<exists>i. ps = i # qs"
        using Cons.prems False ds by (auto simp: Let_def split: sum.splits)
      from ps have "set qs \<subseteq> set ps" by auto
      with qs show ?thesis by (rule that)
    qed
    obtain js where js: "plan_reminders cid uid d user later pol rs = Inr js" "set js \<subseteq> set ps1"
      using Cons.IH [OF ps1(1)] by blast
    show ?thesis
    proof (cases "d - rs_lead_time r < later \<or> eligible_of ds = []")
      case True then show ?thesis using js ps1(2) ds by (auto simp: Let_def)
    next
      case False': False
      then show ?thesis using js ps1 ds False Cons.prems by (auto simp: Let_def)
    qed
  qed
qed simp

lemma later_intents:
  assumes "now \<le> later" "build_record_intents parse user key et p now pol = Inr ps"
  shows "\<exists>js. build_record_intents parse user key et p later pol = Inr js
    \<and> (\<forall>j\<in>set js. \<exists>i\<in>set ps. \<exists>t. j = i\<lparr>in_scheduled_at := t\<rparr>)"
proof -
  have self: "\<exists>t. i = i\<lparr>in_scheduled_at := t\<rparr>" for i :: RecordIntent
    by (rule exI [of _ "in_scheduled_at i"]) simp
  have plan: "\<exists>js. deadline_planning_intents parse user p later pol = Inr js \<and> set js \<subseteq> set ps"
    if "deadline_planning_intents parse user p now pol = Inr ps" for "ps"
    using that later_plans [OF assms(1)]
    by (fastforce simp: deadline_planning_intents_def schedule_claim_deadline_notifications_def split: sum.splits option.splits)
  have fan: "\<exists>t. fanout_intent user key e later pol = Inr (i\<lparr>in_scheduled_at := t\<rparr>)"
    if "fanout_intent user key e now pol = Inr i" for e i
    using that by (auto simp: fanout_intent_def split: sum.splits)
  show ?thesis
  proof (cases "normalize_event_type et")
    case (Inr o')
    show ?thesis
    proof (cases o')
      case None
      then show ?thesis using Inr assms(2) plan self by (simp add: build_record_intents_def) blast
    next
      case (Some e)
      obtain i where i: "fanout_intent user key e now pol = Inr i"
        using assms(2) Inr Some by (auto simp: build_record_intents_def split: sum.splits)
      obtain t where t: "fanout_intent user key e later pol = Inr (i\<lparr>in_scheduled_at := t\<rparr>)" using fan [OF i] by blast
      show ?thesis
      proof (cases "e = NotificationEventType.SUBMISSION_VALIDATION_FAILED")
        case True
        obtain ks where ks: "deadline_planning_intents parse user p now pol = Inr ks" "ps = i # ks"
          using assms(2) Inr Some i True by (auto simp: build_record_intents_def split: sum.splits)
        obtain js where "deadline_planning_intents parse user p later pol = Inr js" "set js \<subseteq> set ks"
          using plan [OF ks(1)] by blast
        moreover from this self have "\<forall>j\<in>set js. \<exists>i\<in>set ks. \<exists>t. j = i\<lparr>in_scheduled_at := t\<rparr>" by blast
        ultimately show ?thesis using Inr Some t True ks(2) by (auto simp: build_record_intents_def)
      next
        case False
        then have "ps = [i]" using assms(2) Inr Some i by (auto simp: build_record_intents_def)
        then show ?thesis using Inr Some t False by (auto simp: build_record_intents_def)
      qed
    qed
  qed (use assms(2) in \<open>simp add: build_record_intents_def\<close>)
qed

lemma persist_all:
  "persist_intents env p ps s = Inr s' \<Longrightarrow> grown s s' \<and> (\<forall>i\<in>set ps. recorded env p i s')"
proof (induction "ps" arbitrary: s)
  case (Cons i "ps")
  obtain s1 where s1: "persist_intent env p i s = Inr s1" "persist_intents env p ps s1 = Inr s'"
    using Cons.prems by (auto split: sum.splits)
  show ?case
    using persist_records [OF s1(1)] Cons.IH [OF s1(2)] grown_trans recorded_grown by auto
qed simp

lemma persist_none:
  assumes "same_texts env env'" "\<forall>j\<in>set js. \<exists>i t. recorded env p i s \<and> j = i\<lparr>in_scheduled_at := t\<rparr>"
  shows "persist_intents env' p js s = Inr s"
  using assms(2)
proof (induction js)
  case (Cons j js)
  obtain i t where "recorded env p i s" "j = i\<lparr>in_scheduled_at := t\<rparr>" using Cons.prems by auto
  then have "persist_intent env' p j s = Inr s" using recorded_again [OF _ assms(1)] by simp
  then show ?case using Cons by simp
qed simp

text \<open>C14: Registering an event is idempotent and only appends: the first registration leaves every existing message,
  delivery, template and account untouched, and registering the same event again, at any later instant
  and whatever ids the database would mint, succeeds and writes nothing.\<close>

theorem registration_is_idempotent:
  assumes "port_record_event env now key et uid p policy s = Inr s'" "now \<le> later" "same_texts env env'"
  shows "grown s s' \<and> port_record_event env' later key et uid p policy s' = Inr s'"
proof -
  obtain user ps where user: "row_of rc_id uid (recipients s) = Some user"
    and built: "build_record_intents (pe_parse_id env) user key et p now policy = Inr ps"
    and run: "persist_intents env p ps s = Inr s'"
    using assms(1) by (auto simp: port_record_event_def split: option.splits sum.splits)
  have g: "grown s s'" and rec: "\<forall>i\<in>set ps. recorded env p i s'" using persist_all [OF run] by blast+
  obtain js where js: "build_record_intents (pe_parse_id env) user key et p later policy = Inr js"
    "\<forall>j\<in>set js. \<exists>i\<in>set ps. \<exists>t. j = i\<lparr>in_scheduled_at := t\<rparr>"
    using later_intents [OF assms(2) built] by blast
  have "persist_intents env' p js s' = Inr s'"
    by (rule persist_none [OF assms(3)]) (use js(2) rec in blast)
  moreover have "pe_parse_id env' = pe_parse_id env" "row_of rc_id uid (recipients s') = Some user"
    using assms(3) g user by (simp_all add: same_texts_def grown_def)
  ultimately show ?thesis using g js(1) by (simp add: port_record_event_def)
qed

section \<open>When registration fails\<close>

definition templates_ok :: "'a outbox_scheme \<Rightarrow> bool" where
  "templates_ok s \<longleftrightarrow> (\<forall>t\<in>set (templates s).
     validate_admin_template (tp_event_type t) (tp_channel t) (tp_title t) (tp_template_body t) = Inr ())"

lemma validated_texts_Inr: "validated_texts et ch title body = Inr (t, b) \<Longrightarrow> validate_admin_template et ch t b = Inr ()"
  by (auto simp: validated_texts_def Let_def split: option.splits if_splits sum.splits template_error.splits)

lemma templates_audit [simp]: "templates (template_audit a act tid b af ctx s) = templates s"
  by (simp add: template_audit_def audit_append_def)

lemma create_keeps_templates: "create_template tx tid a et ch title body ctx s = Inr (t, s') \<Longrightarrow> templates_ok s \<Longrightarrow> templates_ok s'"
  by (auto simp: create_template_def templates_ok_def Let_def dest!: validated_texts_Inr split: sum.splits if_splits)

lemma put_template_rows: "r \<in> set (templates (put_template t s)) \<Longrightarrow> r = t \<or> r \<in> set (templates s)"
  by (auto simp: put_template_def set_update_row split: if_splits)

lemma update_keeps_templates: "update_template tx a tid title body ctx s = Inr (t, s') \<Longrightarrow> templates_ok s \<Longrightarrow> templates_ok s'"
  by (auto simp: update_template_def templates_ok_def Let_def dest!: validated_texts_Inr put_template_rows
      split: sum.splits if_splits option.splits)

lemma toggle_keeps_templates:
  assumes "set_template_enabled tx a tid enabled ctx s = Inr (t, s')" "templates_ok s"
  shows "templates_ok s'"
proof (cases "s' = s")
  case False
  obtain row where row: "row_of tp_id tid (templates s) = Some row"
    using assms(1) by (auto simp: set_template_enabled_def split: option.splits if_splits)
  obtain v where "enabled = Some v"
    using assms(1) by (auto simp: set_template_enabled_def split: option.splits if_splits)
  then have rows: "templates s' = templates (put_template (row\<lparr>tp_enabled := v\<rparr>) s)"
    using assms(1) False row by (auto simp: set_template_enabled_def Let_def split: if_splits)
  have "row \<in> set (templates s)" using row_of_SomeD [OF row] by simp
  then show ?thesis using assms(2) put_template_rows [of _ "row\<lparr>tp_enabled := v\<rparr>" s]
    unfolding templates_ok_def rows by fastforce
qed (use assms(2) in simp)

definition value_of :: "port_env \<Rightarrow> payload \<Rightarrow> string \<Rightarrow> string option" where
  "value_of env p n = (case map_of p n of None \<Rightarrow> None | Some v \<Rightarrow>
     (case render_value env n v of Inl e \<Rightarrow> None | Inr t \<Rightarrow> Some t))"

definition complete_payload :: "port_env \<Rightarrow> NotificationEventType \<Rightarrow> payload \<Rightarrow> bool" where
  "complete_payload env et p \<longleftrightarrow> (\<forall>n\<in>set (EVENT_VARIABLES et). value_of env p n \<noteq> None)"

lemma render_variables_complete:
  "\<forall>n\<in>set ns. value_of env p n \<noteq> None
    \<Longrightarrow> \<exists>vs. render_variables env p ns = Inr vs \<and> (\<forall>n\<in>set ns. map_of vs n = value_of env p n)"
proof (induction ns)
  case (Cons n ns)
  then obtain vs where vs: "render_variables env p ns = Inr vs" "\<forall>n\<in>set ns. map_of vs n = value_of env p n" by auto
  obtain v t where "map_of p n = Some v" "render_value env n v = Inr t"
    using Cons.prems by (auto simp: value_of_def split: option.splits sum.splits)
  then show ?case using vs by (auto simp: value_of_def)
qed simp

lemma fill_cong: "\<forall>n\<in>set (holes ps). v n = w n \<Longrightarrow> fill v ps = fill w ps"
  by (induction ps rule: holes.induct) auto

lemma all_event_types [simp]: "et \<in> set all_event_types"
  by (cases et) (simp_all add: all_event_types_def)

lemma all_channels [simp]: "ch \<in> set all_channels"
  by (cases ch) (simp_all add: all_channels_def)

text \<open>A title that is whitelisted and filled from a complete payload.\<close>

definition rendered_title :: "port_env \<Rightarrow> payload \<Rightarrow> string \<Rightarrow> string" where
  "rendered_title env p title = fill (value_of env p) (pieces title)"

lemma render_complete:
  assumes "\<forall>n\<in>set (holes (pieces (tt_title t))) \<union> set (holes (pieces (tt_body t))). whitelisted et n"
    and "\<forall>n\<in>set (EVENT_VARIABLES et). vars n = value_of env p n" "complete_payload env et p"
    and "case o' of None \<Rightarrow> seed et ch = t | Some t' \<Rightarrow> t' = t"
  shows "\<exists>m. render_template seed et ch vars o' = Inr m \<and> rm_title m = rendered_title env p (tt_title t)"
proof -
  have v: "vars n = value_of env p n \<and> vars n \<noteq> None"
    if "n \<in> set (holes (pieces (tt_title t))) \<union> set (holes (pieces (tt_body t)))" for n
    using assms(1-3) that by (auto simp: whitelisted_def complete_payload_def)
  have src: "(case o' of None \<Rightarrow> seed et ch | Some t \<Rightarrow> t) = t" using assms(4) by (cases o') auto
  have "substitute_pieces et ch vars (pieces (tt_title t)) = Inr (fill vars (pieces (tt_title t)))"
    "substitute_pieces et ch vars (pieces (tt_body t)) = Inr (fill vars (pieces (tt_body t)))"
    using assms(1) v by (auto intro!: substitute_clean)
  moreover have "fill vars (pieces (tt_title t)) = rendered_title env p (tt_title t)"
    unfolding rendered_title_def by (rule fill_cong) (use v in blast)
  ultimately show ?thesis by (simp add: render_template_def src Let_def substitute_placeholders_def)
qed

lemma insert_notification_ok: "ok (insert_notification env i m s) \<longleftrightarrow> length (rm_title m) \<le> 255"
  by (simp add: insert_notification_def Let_def split: option.split)

lemma freeze_ok: "ok (freeze_products env i vars chs s)
    \<longleftrightarrow> (\<forall>ch\<in>set chs. \<forall>m. product_of env i vars ch s = Some m \<longrightarrow> length (rm_title m) \<le> 255)"
proof (induction chs arbitrary: s)
  case (Cons ch chs)
  show ?case
  proof (cases "product_of env i vars ch s")
    case None then show ?thesis using Cons.IH [of s] by (auto simp: product_of_def)
  next
    case (Some m)
    let ?ins = "insert_notification env (i\<lparr>in_event_key := snapshot_event_key (in_event_key i) ch\<rparr>) m s"
    show ?thesis
    proof (cases ?ins)
      case (Inl e)
      then have "255 < length (rm_title m)" using insert_notification_ok [of env _ m s] by (metis isl_def not_le)
      then show ?thesis using Inl Some by (auto simp: product_of_def)
    next
      case (Inr q)
      obtain nid s1 where q: "q = (nid, s1)" by (cases q)
      have ins: "?ins = Inr (nid, s1)" using Inr q by simp
      have "product_of env i vars c s1 = product_of env i vars c s" for c
        using product_templates [of s1 s env i vars c] insert_notification_Inr(4) [OF ins] by blast
      then have "ok (freeze_products env i vars chs s1)
          \<longleftrightarrow> (\<forall>c\<in>set chs. \<forall>m. product_of env i vars c s = Some m \<longrightarrow> length (rm_title m) \<le> 255)"
        using Cons.IH [of s1] by simp
      moreover have "ok (freeze_products env i vars (ch # chs) s) = ok (freeze_products env i vars chs s1)"
        using ins Some by (auto simp: product_of_def split: sum.splits)
      ultimately show ?thesis using Some insert_notification_Inr(1) [OF ins] by auto
    qed
  qed
qed simp

definition in_app_title :: "port_env \<Rightarrow> NotificationEventType \<Rightarrow> 'a outbox_scheme \<Rightarrow> string" where
  "in_app_title env et s = (case channel_template et IN_APP s of
     Some t \<Rightarrow> if tp_enabled t then tp_title t else tt_title (pe_seeds env et IN_APP)
   | None \<Rightarrow> tt_title (pe_seeds env et IN_APP))"

lemma seed_clean:
  assumes "validate_seed_templates seed"
  shows "\<forall>n\<in>set (holes (pieces (tt_title (seed et ch)))) \<union> set (holes (pieces (tt_body (seed et ch)))). whitelisted et n"
proof -
  have "first_bad_hole et (tt_title (seed et ch)) = None \<and> first_bad_hole et (tt_body (seed et ch)) = None"
    using assms all_event_types [of et] all_channels [of ch] unfolding validate_seed_templates_def list_all_iff by blast
  then show ?thesis by (auto simp: first_bad_None)
qed

lemma row_clean:
  assumes "templates_ok s" "channel_template et ch s = Some t"
  shows "\<forall>n\<in>set (holes (pieces (tt_title (row_text t)))) \<union> set (holes (pieces (tt_body (row_text t)))). whitelisted et n"
proof -
  have "t \<in> set (templates s)" "tp_event_type t = et"
    using row_of_SomeD [OF assms(2) [unfolded channel_template_def]] by (auto simp: template_key_def)
  then show ?thesis using assms(1) by (auto simp: templates_ok_def validate_Inr row_text_def)
qed

lemma product_complete:
  assumes "templates_ok s" "complete_payload env (in_event_type i) p" "ch \<noteq> IN_APP"
    and "\<forall>n\<in>set (EVENT_VARIABLES (in_event_type i)). vars n = value_of env p n"
  shows "(\<forall>m. product_of env i vars ch s = Some m \<longrightarrow> length (rm_title m) \<le> 255)
    \<longleftrightarrow> (\<forall>t. channel_template (in_event_type i) ch s = Some t \<and> tp_enabled t
        \<longrightarrow> length (rendered_title env p (tp_title t)) \<le> 255)"
proof (cases "channel_template (in_event_type i) ch s")
  case None then show ?thesis using assms(3) by (simp add: product_of_def render_channel_product_def)
next
  case (Some t)
  obtain m where "render_template (pe_seeds env) (in_event_type i) ch vars (Some (row_text t)) = Inr m"
    "rm_title m = rendered_title env p (tp_title t)"
    using render_complete [where o' = "Some (row_text t)" and seed = "pe_seeds env" and ch = ch, OF row_clean [OF assms(1) Some] assms(4,2)]
    by (auto simp: row_text_def)
  then show ?thesis using assms(3) Some by (auto simp: product_of_def render_channel_product_def)
qed

text \<open>With templates that passed the write gate, checked seeds and a complete payload a registration fails for exactly one
  reason, a rendered title over the 255 characters of its column: that of the in-app message (from its
  enabled managed template, or else the seed) or of a channel's enabled managed template.  The write gate bounds
  a title before the variables are filled in, so an accepted template can make the business transaction of an
  event fail.\<close>

theorem registration_fails_only_for_long_titles:
  assumes "templates_ok s" "validate_seed_templates (pe_seeds env)"
    and "complete_payload env (in_event_type i) p" "in_channels i \<noteq> []"
  shows "ok (persist_intent env p i s)
    \<longleftrightarrow> length (rendered_title env p (in_app_title env (in_event_type i) s)) \<le> 255
      \<and> (\<forall>ch\<in>set (in_channels i) - {IN_APP}. \<forall>t. channel_template (in_event_type i) ch s = Some t \<and> tp_enabled t
          \<longrightarrow> length (rendered_title env p (tp_title t)) \<le> 255)"
proof -
  let ?et = "in_event_type i"
  obtain vs where vs: "render_variables env p (EVENT_VARIABLES ?et) = Inr vs"
    "\<forall>n\<in>set (EVENT_VARIABLES ?et). map_of vs n = value_of env p n"
    using render_variables_complete [of "EVENT_VARIABLES ?et" env p] assms(3) by (auto simp: complete_payload_def)
  obtain m0 where m0: "render_template (pe_seeds env) ?et IN_APP (map_of vs) None = Inr m0"
    "rm_title m0 = rendered_title env p (tt_title (pe_seeds env ?et IN_APP))"
    using render_complete [where o' = None and seed = "pe_seeds env" and ch = IN_APP, OF seed_clean [OF assms(2)] vs(2) assms(3)] by auto
  have "\<exists>m. render_in_app_snapshot env i (channel_template ?et IN_APP s) (map_of vs) = Inr m
      \<and> rm_title m = rendered_title env p (in_app_title env ?et s)"
  proof (cases "channel_template ?et IN_APP s")
    case None then show ?thesis using m0 by (simp add: render_in_app_snapshot_def in_app_title_def)
  next
    case (Some t)
    obtain m where "render_template (pe_seeds env) ?et IN_APP (map_of vs) (Some (row_text t)) = Inr m"
      "rm_title m = rendered_title env p (tp_title t)"
      using render_complete [where o' = "Some (row_text t)" and seed = "pe_seeds env" and ch = IN_APP, OF row_clean [OF assms(1) Some] vs(2) assms(3)]
      by (auto simp: row_text_def)
    then show ?thesis using Some m0 by (simp add: render_in_app_snapshot_def in_app_title_def)
  qed
  then obtain m where m: "render_in_app_snapshot env i (channel_template ?et IN_APP s) (map_of vs) = Inr m"
    "rm_title m = rendered_title env p (in_app_title env ?et s)" by blast
  have run: "persist_intent env p i s = (case insert_notification env i m s of Inl e \<Rightarrow> Inl e | Inr (nid, s1) \<Rightarrow>
      case freeze_products env i (map_of vs) (in_channels i) s1 of Inl e \<Rightarrow> Inl e | Inr (ids, s2) \<Rightarrow>
      Inr (fold (\<lambda>ch. insert_delivery env i (case map_of ids ch of None \<Rightarrow> nid | Some j \<Rightarrow> j) ch) (in_channels i) s2))"
    using assms(4) vs(1) m(1) by (simp add: persist_intent_def)
  show ?thesis
  proof (cases "insert_notification env i m s")
    case (Inl e)
    then have "\<not> length (rm_title m) \<le> 255" using insert_notification_ok [of env i m s] by simp
    then show ?thesis using Inl m(2) by (simp add: run)
  next
    case (Inr q)
    obtain nid s1 where ins: "insert_notification env i m s = Inr (nid, s1)" using Inr by (cases q) auto
    have "ok (persist_intent env p i s) = ok (freeze_products env i (map_of vs) (in_channels i) s1)"
      by (auto simp: run ins split: sum.split)
    also have "\<dots> \<longleftrightarrow> (\<forall>ch\<in>set (in_channels i). \<forall>m. product_of env i (map_of vs) ch s = Some m \<longrightarrow> length (rm_title m) \<le> 255)"
      using freeze_ok [of env i "map_of vs" "in_channels i" s1]
        product_templates [OF insert_notification_Inr(4) [OF ins], of env i "map_of vs"] by simp
    also have "\<dots> \<longleftrightarrow> (\<forall>ch\<in>set (in_channels i) - {IN_APP}. \<forall>t. channel_template ?et ch s = Some t \<and> tp_enabled t
          \<longrightarrow> length (rendered_title env p (tp_title t)) \<le> 255)"
      using product_complete [OF assms(1,3) _ vs(2)] by (auto simp: product_of_def)
    finally show ?thesis using insert_notification_Inr(1) [OF ins] m(2) by simp
  qed
qed

section \<open>The reminders of a claim\<close>

definition open_channels :: "recipient \<Rightarrow> TaskNotificationPolicy \<Rightarrow> NotificationEventType \<Rightarrow> NotificationChannel list" where
  "open_channels user pol et = filter (\<lambda>ch. skip_reason user pol et ch = None) all_channels"

definition reminder_key :: "uuid \<Rightarrow> ReminderSpec \<Rightarrow> string" where
  "reminder_key cid r = ''claim:'' @ uuid_str cid @ '':'' @ rs_key_suffix r"

definition reminder_intent :: "uuid \<Rightarrow> uuid \<Rightarrow> instant \<Rightarrow> recipient \<Rightarrow> TaskNotificationPolicy \<Rightarrow> ReminderSpec \<Rightarrow> RecordIntent" where
  "reminder_intent cid uid d user pol r = \<lparr>in_event_key = reminder_key cid r, in_event_type = rs_event_type r,
     in_user_id = uid, in_scheduled_at = d - rs_lead_time r, in_channels = open_channels user pol (rs_event_type r)\<rparr>"

lemma eligible_policy: "\<exists>ds. eligible_channels user (Some pol) et = Inr ds \<and> eligible_of ds = open_channels user pol et"
  by (auto simp: eligible_channels_def eligible_of_def open_channels_def Let_def filter_map comp_def)

lemma plan_eq: "plan_reminders cid uid d user now pol rs = Inr (map (reminder_intent cid uid d user pol)
    (filter (\<lambda>r. now \<le> d - rs_lead_time r \<and> open_channels user pol (rs_event_type r) \<noteq> []) rs))"
proof (induction rs)
  case (Cons r rs)
  obtain ds where "eligible_channels user (Some pol) (rs_event_type r) = Inr ds"
    "eligible_of ds = open_channels user pol (rs_event_type r)" using eligible_policy by blast
  then show ?case using Cons by (auto simp: Let_def reminder_intent_def reminder_key_def)
qed simp

definition new_delivery :: "RecordIntent \<Rightarrow> NotificationDelivery \<Rightarrow> bool" where
  "new_delivery i d \<longleftrightarrow> nd_event_key d = in_event_key i \<and> nd_user_id d = in_user_id i \<and> nd_channel d \<in> set (in_channels i)
     \<and> nd_scheduled_at d = in_scheduled_at i \<and> nd_status d = PENDING \<and> nd_attempts d = 0"

lemma insert_deliveries_new:
  "set chs \<subseteq> set (in_channels i) \<Longrightarrow> d \<in> set (deliveries (fold (\<lambda>ch. insert_delivery env i (f ch) ch) chs s))
    \<Longrightarrow> d \<in> set (deliveries s) \<or> new_delivery i d"
proof (induction chs arbitrary: s)
  case (Cons ch chs)
  have "d \<in> set (deliveries (insert_delivery env i (f ch) ch s)) \<or> new_delivery i d"
    using Cons.IH [of "insert_delivery env i (f ch) ch s"] Cons.prems by simp
  moreover have "e \<in> set (deliveries s) \<or> new_delivery i e" if "e \<in> set (deliveries (insert_delivery env i (f ch) ch s))" for e
    using that Cons.prems(1) by (auto simp: insert_delivery_def new_delivery_def split: if_splits)
  ultimately show ?case by blast
qed simp

lemma persist_new:
  assumes "persist_intent env p i s = Inr s'" "d \<in> set (deliveries s')"
  shows "d \<in> set (deliveries s) \<or> new_delivery i d"
proof (cases "in_channels i = []")
  case True then show ?thesis using assms by (simp add: persist_intent_def)
next
  case False
  obtain m nid s1 vs ids s2 where ins: "insert_notification env i m s = Inr (nid, s1)"
    and fr: "freeze_products env i (map_of vs) (in_channels i) s1 = Inr (ids, s2)"
    and s': "s' = fold (\<lambda>ch. insert_delivery env i (case map_of ids ch of None \<Rightarrow> nid | Some j \<Rightarrow> j) ch) (in_channels i) s2"
    using assms(1) False unfolding persist_intent_def by (auto split: sum.splits)
  have "deliveries s2 = deliveries s" using insert_notification_Inr(5) [OF ins] freeze_Inr [OF fr] by simp
  then show ?thesis
    using insert_deliveries_new [of "in_channels i" i d env "\<lambda>ch. case map_of ids ch of None \<Rightarrow> nid | Some j \<Rightarrow> j" s2] assms(2) s'
    by simp
qed

lemma persist_all_new:
  "persist_intents env p ps s = Inr s' \<Longrightarrow> d \<in> set (deliveries s') \<Longrightarrow> d \<in> set (deliveries s) \<or> (\<exists>i\<in>set ps. new_delivery i d)"
proof (induction ps arbitrary: s)
  case (Cons i ps)
  obtain s1 where s1: "persist_intent env p i s = Inr s1" "persist_intents env p ps s1 = Inr s'"
    using Cons.prems(1) by (auto split: sum.splits)
  show ?case using Cons.IH [OF s1(2) Cons.prems(2)] persist_new [OF s1(1)] by auto
qed simp

text \<open>When the intent a claim recorded is registered, its deliveries are exactly the reminders still ahead: for each
  of the 24-hour and the 4-hour reminder whose instant has not passed and each channel that the task's toggles
  and the account allow there is a delivery under the key of the claim; every delivery that was added is one of these,
  pending, due exactly that long before the deadline, and its key names the claim for the dispatcher.\<close>

theorem claim_reminders_are_registered:
  assumes "port_record_event env now key (nt_type (claim_created c task)) (cl_user_id c)
      (nt_payload (claim_created c task)) (Some (from_task task)) s = Inr s'"
    and "row_of rc_id (cl_user_id c) (recipients s) = Some user" "cl_id c < 16 ^ 32"
  shows "(\<forall>r\<in>set REMINDER_SPECS. \<forall>ch. now \<le> cl_deadline_at c - rs_lead_time r
        \<and> skip_reason user (from_task task) (rs_event_type r) ch = None
        \<longrightarrow> (\<exists>d\<in>set (deliveries s'). delivery_key d = (reminder_key (cl_id c) r, cl_user_id c, ch)))
    \<and> (\<forall>d\<in>set (deliveries s') - set (deliveries s). nd_status d = PENDING
        \<and> claim_id_from_event_key (nd_event_key d) = Some (cl_id c)
        \<and> (\<exists>r\<in>set REMINDER_SPECS. delivery_key d = (reminder_key (cl_id c) r, cl_user_id c, nd_channel d)
            \<and> nd_scheduled_at d = cl_deadline_at c - rs_lead_time r \<and> now \<le> nd_scheduled_at d
            \<and> skip_reason user (from_task task) (rs_event_type r) (nd_channel d) = None))"
proof -
  let ?plan = "map (reminder_intent (cl_id c) (cl_user_id c) (cl_deadline_at c) user (from_task task))
    (filter (\<lambda>r. now \<le> cl_deadline_at c - rs_lead_time r \<and> open_channels user (from_task task) (rs_event_type r) \<noteq> []) REMINDER_SPECS)"
  have uid: "rc_id user = cl_user_id c" using row_of_SomeD [OF assms(2)] by simp
  have "build_record_intents (pe_parse_id env) user key (nt_type (claim_created c task)) (nt_payload (claim_created c task)) now
      (Some (from_task task)) = Inr ?plan"
    by (simp add: build_record_intents_def normalize_event_type_def claim_created_def CLAIM_CREATED_def
        deadline_planning_intents_def claim_deadline_snapshot_def schedule_claim_deadline_notifications_def plan_eq uid)
  then have run: "persist_intents env (nt_payload (claim_created c task)) ?plan s = Inr s'"
    using assms(1,2) by (simp add: port_record_event_def)
  have "\<exists>d\<in>set (deliveries s'). delivery_key d = (reminder_key (cl_id c) r, cl_user_id c, ch)"
    if r: "r \<in> set REMINDER_SPECS" "now \<le> cl_deadline_at c - rs_lead_time r"
      and ch: "skip_reason user (from_task task) (rs_event_type r) ch = None" for r ch
  proof -
    let ?i = "reminder_intent (cl_id c) (cl_user_id c) (cl_deadline_at c) user (from_task task) r"
    have opened: "ch \<in> set (open_channels user (from_task task) (rs_event_type r))" using ch by (simp add: open_channels_def)
    then have "?i \<in> set ?plan" using r by auto
    then have "recorded env (nt_payload (claim_created c task)) ?i s'" using persist_all [OF run] by blast
    then have "row_of delivery_key (reminder_key (cl_id c) r, cl_user_id c, ch) (deliveries s') \<noteq> None"
      using opened by (auto simp: recorded_def reminder_intent_def)
    then show ?thesis using row_of_SomeD by fastforce
  qed
  moreover have "nd_status d = PENDING \<and> claim_id_from_event_key (nd_event_key d) = Some (cl_id c)
        \<and> (\<exists>r\<in>set REMINDER_SPECS. delivery_key d = (reminder_key (cl_id c) r, cl_user_id c, nd_channel d)
            \<and> nd_scheduled_at d = cl_deadline_at c - rs_lead_time r \<and> now \<le> nd_scheduled_at d
            \<and> skip_reason user (from_task task) (rs_event_type r) (nd_channel d) = None)"
    if later: "d \<in> set (deliveries s')" and fresh: "d \<notin> set (deliveries s)" for d
  proof -
    obtain r where r: "r \<in> set REMINDER_SPECS" "now \<le> cl_deadline_at c - rs_lead_time r"
      "new_delivery (reminder_intent (cl_id c) (cl_user_id c) (cl_deadline_at c) user (from_task task) r) d"
      using persist_all_new [OF run later] fresh by auto
    then show ?thesis
      using reminder_key_names_its_claim [OF assms(3)]
      by (auto simp: new_delivery_def reminder_intent_def delivery_key_def open_channels_def reminder_key_def)
  qed
  ultimately show ?thesis by blast
qed

section \<open>Concrete registrations\<close>

definition plain_seeds :: seeds where
  "plain_seeds et ch = \<lparr>tt_title = ''Notice'', tt_body = ''See the portal''\<rparr>"

definition notice_env :: port_env where
  "notice_env = \<lparr>pe_seeds = plain_seeds, pe_note_id = (\<lambda>_. 70), pe_delivery_id = (\<lambda>_ _. 80), pe_db_now = 0,
     pe_isoformat = (\<lambda>_. ''then''), pe_str_int = (\<lambda>_. ''7''), pe_parse_id = (\<lambda>_. None)\<rparr>"

definition doubled_title :: string where "doubled_title = ''{task_title}{task_title}''"

definition doubled_template :: NotificationTemplate where
  "doubled_template = \<lparr>tp_id = 90, tp_event_type = SUBMISSION_APPROVED, tp_channel = IN_APP, tp_title = doubled_title,
     tp_template_body = ''done'', tp_enabled = True, tp_version = 1\<rparr>"

definition notice_user :: recipient where
  "notice_user = \<lparr>rc_id = 7, rc_status = UserStatus.ACTIVE, rc_phone_e164 = Some ''+8613800000000'', rc_email_normalized = None,
     rc_email_verified_at = None\<rparr>"

definition notice_outbox :: outbox where
  "notice_outbox = \<lparr>audit_logs = [], domain_events = [], notifications = [], armed_jobs = [], ranking_jobs = [],
     recipients = [notice_user], messages = [], deliveries = [], templates = [doubled_template]\<rparr>"

definition approved_intent :: RecordIntent where
  "approved_intent = \<lparr>in_event_key = ''claim:1:approved'', in_event_type = SUBMISSION_APPROVED, in_user_id = 7,
     in_scheduled_at = 5, in_channels = [SMS, IN_APP]\<rparr>"

definition approved_payload :: "nat \<Rightarrow> payload" where
  "approved_payload n = [(''task_title'', JStr (replicate n CHR ''a'')), (''reward_points'', JInt 7)]"

lemma doubled_pieces: "pieces doubled_title = [Hole ''task_title'', Hole ''task_title'']" by code_simp

lemma doubled_template_accepted: "templates_ok notice_outbox"
proof -
  have "validate_admin_template SUBMISSION_APPROVED IN_APP doubled_title ''done'' = Inr ()" by code_simp
  then show ?thesis by (simp add: templates_ok_def notice_outbox_def doubled_template_def)
qed

lemma plain_seeds_valid: "validate_seed_templates plain_seeds" by code_simp

lemma approved_payload_complete: "complete_payload notice_env SUBMISSION_APPROVED (approved_payload n)"
  by (simp add: complete_payload_def value_of_def approved_payload_def)

lemma doubled_length: "length (rendered_title notice_env (approved_payload n) doubled_title) = 2 * n"
  by (simp add: rendered_title_def doubled_pieces value_of_def approved_payload_def)

theorem registration_fails_only_for_long_titles_witness:
  "ok (persist_intent notice_env (approved_payload 100) approved_intent notice_outbox)
   \<and> \<not> ok (persist_intent notice_env (approved_payload 200) approved_intent notice_outbox)"
proof -
  have facts: "in_event_type approved_intent = SUBMISSION_APPROVED" "in_channels approved_intent = [SMS, IN_APP]"
    "pe_seeds notice_env = plain_seeds"
    by (simp_all add: approved_intent_def notice_env_def)
  have rows: "in_app_title notice_env SUBMISSION_APPROVED notice_outbox = doubled_title"
    "channel_template SUBMISSION_APPROVED SMS notice_outbox = None"
    by (simp_all add: in_app_title_def channel_template_def notice_outbox_def template_key_def doubled_template_def)
  have "ok (persist_intent notice_env (approved_payload n) approved_intent notice_outbox) \<longleftrightarrow> 2 * n \<le> 255" for n
    using registration_fails_only_for_long_titles [of notice_outbox notice_env approved_intent "approved_payload n"]
    by (simp add: facts rows doubled_template_accepted plain_seeds_valid approved_payload_complete doubled_length insert_Diff_if)
  then show ?thesis by simp
qed

definition noticed_task :: task where
  "noticed_task = demo_task\<lparr>tk_notify_24h := True, tk_notify_4h := False, tk_notification_channels := [''SMS'', ''EMAIL'']\<rparr>"

definition noticed_claim :: claim where "noticed_claim = demo_claim\<lparr>cl_deadline_at := hours 100\<rparr>"

definition noticed_created :: notification where "noticed_created = claim_created noticed_claim noticed_task"

lemma noticed_registration:
  "ok (port_record_event notice_env 0 ''k'' (nt_type noticed_created) 7 (nt_payload noticed_created)
     (Some (from_task noticed_task)) notice_outbox)"
  by code_simp

lemma noticed_facts: "cl_user_id noticed_claim = 7" "cl_id noticed_claim = 100" "cl_deadline_at noticed_claim = hours 100"
  "recipients notice_outbox = [notice_user]" "deliveries notice_outbox = []" "rc_id notice_user = 7"
  by (simp_all add: noticed_claim_def demo_claim_def new_claim_def notice_outbox_def notice_user_def)

lemma noticed_channels: "skip_reason notice_user (from_task noticed_task) ASSIGNMENT_DEADLINE_24H SMS = None" by code_simp

theorem claim_reminders_are_registered_witness:
  "\<exists>s'. port_record_event notice_env 0 ''k'' (nt_type noticed_created) 7 (nt_payload noticed_created)
      (Some (from_task noticed_task)) notice_outbox = Inr s'
    \<and> (\<exists>d\<in>set (deliveries s'). delivery_key d = (reminder_key 100 (hd REMINDER_SPECS), 7, SMS))"
proof -
  obtain s' where run: "port_record_event notice_env 0 ''k'' (nt_type noticed_created) 7 (nt_payload noticed_created)
      (Some (from_task noticed_task)) notice_outbox = Inr s'"
    using noticed_registration by (metis isl_def sum.exhaust)
  have "hd REMINDER_SPECS \<in> set REMINDER_SPECS" "now \<le> hours 100 - rs_lead_time (hd REMINDER_SPECS)
      \<and> rs_event_type (hd REMINDER_SPECS) = ASSIGNMENT_DEADLINE_24H" if "now = 0" for now
    using that by (simp_all add: REMINDER_SPECS_def hours_def minutes_def)
  then show ?thesis
    using claim_reminders_are_registered [of notice_env 0 "''k''" noticed_claim noticed_task notice_outbox s' notice_user]
      run noticed_channels by (auto simp: noticed_facts noticed_created_def)
qed

theorem registration_is_idempotent_witness:
  "\<exists>s'. port_record_event notice_env 0 ''k'' (nt_type noticed_created) 7 (nt_payload noticed_created)
      (Some (from_task noticed_task)) notice_outbox = Inr s'
    \<and> port_record_event (notice_env\<lparr>pe_note_id := \<lambda>_. 71\<rparr>) (hours 90) ''k'' (nt_type noticed_created) 7
      (nt_payload noticed_created) (Some (from_task noticed_task)) s' = Inr s'"
proof -
  obtain s' where run: "port_record_event notice_env 0 ''k'' (nt_type noticed_created) 7 (nt_payload noticed_created)
      (Some (from_task noticed_task)) notice_outbox = Inr s'"
    using noticed_registration by (metis isl_def sum.exhaust)
  have "0 \<le> hours 90" "same_texts notice_env (notice_env\<lparr>pe_note_id := \<lambda>_. 71\<rparr>)"
    by (simp_all add: hours_def minutes_def same_texts_def notice_env_def)
  then show ?thesis using registration_is_idempotent [OF run] run by blast
qed

end
