(* ===== verification/Delivery_Facts.thy ===== *)
theory Delivery_Facts
  imports Delivery Outbox_Facts
begin

text \<open>
  What delivering guarantees: every due delivery comes to an end, a reminder whose claim is no longer
  actionable reaches nobody, and any number of dispatchers, stalled anywhere, call a provider at most once per
  recorded attempt and always under the one idempotency key of the row.
\<close>

section \<open>One send\<close>

definition unsettled :: "NotificationDelivery \<Rightarrow> bool" where
  "unsettled d \<longleftrightarrow> nd_status d \<noteq> SENT \<and> nd_status d \<noteq> FAILED"

text \<open>The claim statuses a resolver can report are those of the claim table.\<close>

definition known_status :: "string \<Rightarrow> bool" where
  "known_status st \<longleftrightarrow> st \<in> set (ACTIONABLE_CLAIM_STATUSES @ SUPPRESSED_CLAIM_STATUSES)"

definition known_statuses :: "delivery_config \<Rightarrow> bool" where
  "known_statuses cfg \<longleftrightarrow> (\<forall>resolve cid st. dv_claim_status cfg = Some resolve \<and> resolve cid = Some st \<longrightarrow> known_status st)"

lemma claim_statuses_are_known: "known_status (claim_status_value st)"
  by (cases st) (simp_all add: known_status_def ACTIONABLE_CLAIM_STATUSES_def SUPPRESSED_CLAIM_STATUSES_def)

lemma production_service:
  "build_delivery_service stale cs rc pu aware = Inr cfg
   \<Longrightarrow> known_statuses cfg \<and> dv_max_attempts cfg = 3 \<and> dv_claim_status cfg = Some (claim_status_of cs)
     \<and> dv_stale_claim_threshold cfg = stale"
  using claim_statuses_are_known
  by (auto simp: build_delivery_service_def DeliveryService_init_def known_statuses_def claim_status_of_def
      DEFAULT_MAX_ATTEMPTS_def split: if_splits option.splits)

lemma should_send_known: "known_status st \<Longrightarrow> \<exists>b. should_send_reminder st (Aware now) (Aware d) = Inr b"
  by (simp add: known_status_def should_send_reminder_def)

text \<open>A channel without an address is skipped before the address is needed.\<close>

lemma routed_has_address:
  assumes "dispatch_skip_reason u et ch = None" "ch \<noteq> IN_APP"
  shows "(if ch = SMS then rc_phone_e164 u else rc_email_normalized u) \<noteq> None"
  using assms by (cases ch) (auto simp: dispatch_skip_reason_def skip_reason_def present_def split: if_splits)

lemma skip_token_ok:
  assumes "known_statuses cfg" "sc_event_type c \<noteq> IE_RECRUITMENT_CONFIRMATION_DUE"
  shows "\<exists>t. dispatch_skip_token cfg c now = Inr t"
proof -
  have sent: "\<exists>t. (case should_send_reminder st (Aware now) (Aware d) of Inl e \<Rightarrow> Inl e | Inr goes \<Rightarrow> Inr (f goes)) = Inr t"
    if status: "dv_claim_status cfg = Some r" "r cid = Some st" for r cid st d and f :: "bool \<Rightarrow> string option"
  proof -
    obtain b where "should_send_reminder st (Aware now) (Aware d) = Inr b"
      using status assms(1) should_send_known unfolding known_statuses_def by blast
    then show ?thesis by simp
  qed
  show ?thesis
    by (cases "sc_channel_skip_reason c"; cases "dv_claim_status cfg"; cases "claim_id_from_event_key (sc_event_key c)")
      (use assms(2) sent in \<open>auto simp: dispatch_skip_token_def split: option.split\<close>)
qed

text \<open>What a claim reads of the rows it refers to.\<close>

lemma send_claim_Inr:
  "claim_delivery cfg did now s = Inr (Inr c, s')
   \<longleftrightarrow> (\<exists>d n u. row_of nd_id did (deliveries s) = Some d \<and> unsettled d
      \<and> \<not> (nd_status d = SENDING \<and> now - nd_updated_at d < dv_stale_claim_threshold cfg) \<and> nd_scheduled_at d \<le> now
      \<and> row_of nf_id (nd_notification_id d) (messages s) = Some n \<and> row_of rc_id (nd_user_id d) (recipients s) = Some u
      \<and> c = \<lparr>sc_delivery_id = did, sc_user_id = nd_user_id d, sc_event_key = nd_event_key d,
          sc_event_type = nf_event_type n, sc_channel = nd_channel d, sc_attempts = nd_attempts d + 1,
          sc_scheduled_at = nd_scheduled_at d, sc_title = nf_title n, sc_body = nf_body n,
          sc_phone_e164 = rc_phone_e164 u, sc_email_normalized = rc_email_normalized u,
          sc_channel_skip_reason = dispatch_skip_reason u (nf_event_type n) (nd_channel d)\<rparr>
      \<and> s' = put_delivery (claimed_delivery now d) s)"
proof -
  have "nd_id d = did" if "row_of nd_id did (deliveries s) = Some d" for d using row_of_SomeD [OF that] by simp
  then show ?thesis
    unfolding claim_delivery_def unsettled_def
    by (auto simp: Let_def claimed_delivery_def not_less split: option.splits)
qed

text \<open>The outcome a claim is given.\<close>

definition routed :: "send_claim \<Rightarrow> bool" where
  "routed c \<longleftrightarrow> sc_event_type c \<noteq> IE_RECRUITMENT_CONFIRMATION_DUE
     \<and> (sc_channel_skip_reason c = None \<and> sc_channel c \<noteq> IN_APP
        \<longrightarrow> (if sc_channel c = SMS then sc_phone_e164 c else sc_email_normalized c) \<noteq> None)"

definition fair_outcome :: "delivery_config \<Rightarrow> send_claim \<Rightarrow> instant \<Rightarrow> finalize_request \<Rightarrow> bool" where
  "fair_outcome cfg c now f \<longleftrightarrow> fz_recruitment f = None \<and>
     (fz_status f \<in> {SENT, FAILED} \<and> fz_retry_due_at f = None
      \<or> fz_status f = RETRYABLE \<and> sc_attempts c < dv_max_attempts cfg
        \<and> (\<exists>t. fz_retry_due_at f = Some t \<and> now < t \<and> t \<le> now + minutes 20))"

lemma retry_delay_bounds: "k < 3 \<Longrightarrow> 0 < RETRY_DELAYS ! k \<and> RETRY_DELAYS ! k \<le> minutes 20"
  by (auto simp: RETRY_DELAYS_def minutes_def less_Suc_eq numeral_3_eq_3)

lemma retry_delays_count: "length RETRY_DELAYS = 3"
  by (simp add: RETRY_DELAYS_def)

lemma retry_or_fail_fair: "fair_outcome cfg c now (retry_or_fail cfg c now token)"
  using retry_delay_bounds [of "min (sc_attempts c) (length RETRY_DELAYS) - 1"]
  by (auto simp: fair_outcome_def retry_or_fail_def plain_request_def retry_delays_count)

lemma provider_outcome_fair: "fair_outcome cfg c now (provider_outcome cfg c now answer)"
  using retry_or_fail_fair [of cfg c now]
  by (auto simp: provider_outcome_def fair_outcome_def plain_request_def split: send_answer.splits provider_failure.splits)

lemma decide_send_fair:
  assumes "known_statuses cfg" "routed c"
  shows "\<exists>f. decide_send cfg provider c now = Inr f \<and> fair_outcome cfg c now f"
proof -
  have ev: "sc_event_type c \<noteq> IE_RECRUITMENT_CONFIRMATION_DUE" using assms(2) by (simp add: routed_def)
  obtain t where t: "dispatch_skip_token cfg c now = Inr t" using skip_token_ok [OF assms(1) ev] by blast
  show ?thesis
  proof (cases "t = None \<and> sc_channel c \<noteq> IN_APP")
    case True
    then have "sc_channel_skip_reason c = None" using t by (auto simp: dispatch_skip_token_def split: option.splits)
    then obtain q where "provider_request c = Inr q"
      using assms(2) True by (auto simp: provider_request_def routed_def split: if_splits)
    then show ?thesis using t True provider_outcome_fair by (simp add: decide_send_def)
  next
    case False
    then show ?thesis using t ev by (cases t) (auto simp: decide_send_def fair_outcome_def plain_request_def)
  qed
qed

lemma put_delivery_row:
  "row_of nd_id did (deliveries s) = Some d \<Longrightarrow> nd_id e = did
    \<Longrightarrow> row_of nd_id did (deliveries (put_delivery e s)) = Some e"
  by (simp add: put_delivery_def row_of_update_row)

lemma put_delivery_frame [simp]:
  "messages (put_delivery e s) = messages s" "recipients (put_delivery e s) = recipients s"
  "templates (put_delivery e s) = templates s"
  by (simp_all add: put_delivery_def)

lemma clear_read_frame [simp]:
  "deliveries (clear_read nid s) = deliveries s" "recipients (clear_read nid s) = recipients s"
  by (simp_all add: clear_read_def)

section \<open>Every delivery ends\<close>

definition deliverable :: "NotificationDelivery \<Rightarrow> 'a outbox_scheme \<Rightarrow> bool" where
  "deliverable d s \<longleftrightarrow> (\<exists>n u. row_of nf_id (nd_notification_id d) (messages s) = Some n
     \<and> nf_event_type n \<noteq> IE_RECRUITMENT_CONFIRMATION_DUE \<and> row_of rc_id (nd_user_id d) (recipients s) = Some u)"

lemma deliverable_put [simp]: "deliverable d (put_delivery e s) = deliverable d s"
  by (simp add: deliverable_def)

lemma deliverable_clear [simp]: "deliverable d (clear_read nid s) = deliverable d s"
  by (auto simp: deliverable_def clear_read_def row_of_update_row)

lemma settled_send:
  assumes "row_of nd_id did (deliveries s) = Some d" "\<not> unsettled d"
  shows "snd (send cfg provider did now s) = s"
  using assms by (auto simp: send_def claim_delivery_def unsettled_def)

lemma finalize_own:
  assumes "row_of nd_id did (deliveries s) = Some d" "nd_status d = SENDING" "fz_recruitment f = None"
  shows "\<exists>r. finalize_delivery cfg did now f s = Inr (r, (let s1 = put_delivery (finalized_delivery now f d) s in
    if fz_clear_read_at f then clear_read (nd_notification_id d) s1 else s1))"
  using assms by (simp add: finalize_delivery_def settle_recruitment_def Let_def)

lemma due_send:
  assumes row: "row_of nd_id did (deliveries s) = Some d" and st: "unsettled d" "nd_status d \<noteq> SENDING"
    and due: "nd_scheduled_at d \<le> now" and deliv: "deliverable d s" and known: "known_statuses cfg"
  obtains d' where "row_of nd_id did (deliveries (snd (send cfg provider did now s))) = Some d'"
    "deliverable d' (snd (send cfg provider did now s))" "nd_attempts d' = nd_attempts d + 1"
    "\<not> unsettled d' \<or> nd_status d' = RETRYABLE \<and> nd_attempts d' < dv_max_attempts cfg \<and> nd_scheduled_at d' \<le> now + minutes 20"
proof -
  obtain n u where nu: "row_of nf_id (nd_notification_id d) (messages s) = Some n"
    "nf_event_type n \<noteq> IE_RECRUITMENT_CONFIRMATION_DUE" "row_of rc_id (nd_user_id d) (recipients s) = Some u"
    using deliv by (auto simp: deliverable_def)
  define e where "e = claimed_delivery now d"
  have did: "nd_id d = did" using row_of_SomeD [OF row] by simp
  obtain c where c: "claim_delivery cfg did now s = Inr (Inr c, put_delivery e s)" "sc_delivery_id c = did"
    "sc_event_type c = nf_event_type n" "sc_attempts c = nd_attempts d + 1"
    "sc_channel_skip_reason c = dispatch_skip_reason u (nf_event_type n) (nd_channel d)" "sc_channel c = nd_channel d"
    "sc_phone_e164 c = rc_phone_e164 u" "sc_email_normalized c = rc_email_normalized u"
    using row st due nu unfolding send_claim_Inr e_def by auto
  have "routed c" unfolding routed_def using c nu(2) routed_has_address [of u "nf_event_type n" "nd_channel d"] by auto
  then obtain f where f: "decide_send cfg provider c now = Inr f" "fair_outcome cfg c now f"
    using decide_send_fair [OF known] by blast
  have erow: "row_of nd_id did (deliveries (put_delivery e s)) = Some e"
    by (rule put_delivery_row [OF row]) (simp add: e_def claimed_delivery_def did)
  define d' where "d' = finalized_delivery now f e"
  obtain r where run: "finalize_delivery cfg did now f (put_delivery e s) = Inr (r, (let s1 = put_delivery d' (put_delivery e s) in
      if fz_clear_read_at f then clear_read (nd_notification_id e) s1 else s1))"
    using finalize_own [OF erow, of f cfg now] f(2) by (auto simp: e_def claimed_delivery_def fair_outcome_def d'_def)
  have after: "snd (send cfg provider did now s) = (let s1 = put_delivery d' (put_delivery e s) in
      if fz_clear_read_at f then clear_read (nd_notification_id e) s1 else s1)"
    using run by (simp add: send_def c(1,2) f(1))
  have same: "nd_id d' = did" "nd_notification_id d' = nd_notification_id d" "nd_user_id d' = nd_user_id d"
    "nd_attempts d' = nd_attempts d + 1" "nd_status d' = fz_status f"
    "nd_scheduled_at d' = (case fz_retry_due_at f of None \<Rightarrow> nd_scheduled_at d | Some t \<Rightarrow> t)"
    by (simp_all add: d'_def e_def finalized_delivery_def claimed_delivery_def did split: option.split)
  show thesis
  proof (rule that [of d'])
    show "row_of nd_id did (deliveries (snd (send cfg provider did now s))) = Some d'"
      unfolding after Let_def using put_delivery_row [OF erow same(1)] by simp
    have "deliverable d' s" using deliv same by (simp add: deliverable_def)
    then show "deliverable d' (snd (send cfg provider did now s))" unfolding after Let_def by simp
    show "nd_attempts d' = nd_attempts d + 1" by (rule same(4))
    show "\<not> unsettled d' \<or> nd_status d' = RETRYABLE \<and> nd_attempts d' < dv_max_attempts cfg \<and> nd_scheduled_at d' \<le> now + minutes 20"
      using f(2) same c(4) by (auto simp: fair_outcome_def unsettled_def)
  qed
qed

text \<open>A delivery that is sent again and again, at instants that wait for each retry.\<close>

fun send_rounds ::
  "delivery_config \<Rightarrow> (instant \<Rightarrow> send_request \<Rightarrow> send_answer) \<Rightarrow> uuid \<Rightarrow> instant list \<Rightarrow> 'a outbox_scheme \<Rightarrow> 'a outbox_scheme" where
  "send_rounds cfg provider did [] s = s"
| "send_rounds cfg provider did (t # ts) s = send_rounds cfg provider did ts (snd (send cfg (provider t) did t s))"

fun spaced :: "instant \<Rightarrow> instant list \<Rightarrow> bool" where
  "spaced due [] = True"
| "spaced due (t # ts) = (due \<le> t \<and> spaced (t + minutes 20) ts)"

lemma spaced_mono: "spaced a ts \<Longrightarrow> b \<le> a \<Longrightarrow> spaced b ts"
  by (cases ts) auto

lemma settled_rounds:
  "row_of nd_id did (deliveries s) = Some d \<Longrightarrow> \<not> unsettled d \<Longrightarrow> send_rounds cfg provider did ts s = s"
  by (induction ts) (simp_all add: settled_send)

lemma rounds_end:
  assumes "known_statuses cfg" "row_of nd_id did (deliveries s) = Some d" "unsettled d" "nd_status d \<noteq> SENDING"
    and "deliverable d s" "spaced (nd_scheduled_at d) ts" "ts \<noteq> []" "dv_max_attempts cfg \<le> nd_attempts d + length ts"
  shows "\<exists>d'. row_of nd_id did (deliveries (send_rounds cfg provider did ts s)) = Some d' \<and> \<not> unsettled d'
    \<and> nd_attempts d < nd_attempts d' \<and> nd_attempts d' \<le> max (dv_max_attempts cfg) (nd_attempts d + 1)"
  using assms(2-)
proof (induction ts arbitrary: s d)
  case (Cons t ts)
  let ?s = "snd (send cfg (provider t) did t s)"
  have "nd_scheduled_at d \<le> t" using Cons.prems(5) by simp
  then obtain d1 where d1: "row_of nd_id did (deliveries ?s) = Some d1" "deliverable d1 ?s" "nd_attempts d1 = nd_attempts d + 1"
    "\<not> unsettled d1 \<or> nd_status d1 = RETRYABLE \<and> nd_attempts d1 < dv_max_attempts cfg \<and> nd_scheduled_at d1 \<le> t + minutes 20"
    using due_send [OF Cons.prems(1-3) _ Cons.prems(4) assms(1), of t "provider t"] by blast
  show ?case
  proof (cases "unsettled d1")
    case False
    then show ?thesis using d1(1,3) settled_rounds [OF d1(1)] by auto
  next
    case True
    then have re: "nd_status d1 = RETRYABLE" "nd_attempts d1 < dv_max_attempts cfg" "nd_scheduled_at d1 \<le> t + minutes 20"
      using d1(4) by auto
    then have "ts \<noteq> []" using Cons.prems(7) d1(3) by auto
    moreover have "spaced (nd_scheduled_at d1) ts" using Cons.prems(5) re(3) spaced_mono by auto
    ultimately show ?thesis using Cons.IH [OF d1(1) True _ d1(2)] re d1(3) Cons.prems(7) by auto
  qed
qed simp


section \<open>Suppression\<close>

lemma rows_after_put:
  "x \<in> set (deliveries (put_delivery e s)) \<Longrightarrow> x = e \<or> x \<in> set (deliveries s) \<and> nd_id x \<noteq> nd_id e"
  by (auto simp: put_delivery_def set_update_row)

lemma quiet_token:
  assumes "dv_claim_status cfg = Some (claim_status_of cs)" "sc_event_type c \<in> set DEADLINE_REMINDER_EVENTS"
    and "claim_id_from_event_key (sc_event_key c) = Some cid"
    and "\<And>k. row_of cl_id cid cs = Some k \<Longrightarrow> cl_status k \<notin> {CLAIMED, ClaimStatus.REVISION_REQUIRED}"
  obtains r where "dispatch_skip_token cfg c now = Inr (Some (SKIPPED_LAST_ERROR_PREFIX @ r))"
proof (cases "sc_channel_skip_reason c")
  case (Some r) then show thesis using that by (simp add: dispatch_skip_token_def)
next
  case None
  have ev: "sc_event_type c \<noteq> IE_RECRUITMENT_CONFIRMATION_DUE" using assms(2) by (auto simp: DEADLINE_REMINDER_EVENTS_def)
  show thesis
  proof (cases "row_of cl_id cid cs")
    case None': None
    then show thesis using that None assms(1-3) ev by (simp add: dispatch_skip_token_def claim_status_of_def)
  next
    case (Some k)
    have "\<not> claim_status_value (cl_status k) \<in> set ACTIONABLE_CLAIM_STATUSES"
      using assms(4) [OF Some] by (cases "cl_status k") (simp_all add: ACTIONABLE_CLAIM_STATUSES_def)
    then have "should_send_reminder (claim_status_value (cl_status k)) (Aware now) (Aware (sc_scheduled_at c)) = Inr False"
      using claim_statuses_are_known [of "cl_status k"] by (simp add: known_status_def should_send_reminder_def)
    then show thesis using that None Some assms(1-3) ev by (simp add: dispatch_skip_token_def claim_status_of_def)
  qed
qed


section \<open>Concrete deliveries\<close>

definition due_row :: NotificationDelivery where
  "due_row = \<lparr>nd_id = 80, nd_notification_id = 70, nd_user_id = 7, nd_event_key = ''claim:1:approved'', nd_channel = SMS,
     nd_status = PENDING, nd_scheduled_at = 5, nd_attempts = 0, nd_sent_at = None, nd_provider_message_id = None,
     nd_last_error = None, nd_updated_at = 0\<rparr>"

definition due_note :: Notification where
  "due_note = \<lparr>nf_id = 70, nf_user_id = 7, nf_event_key = ''claim:1:approved'', nf_event_type = SUBMISSION_APPROVED,
     nf_title = ''Approved'', nf_body = ''Approved'', nf_read_at = None, nf_created_at = 0\<rparr>"

definition due_box :: outbox where
  "due_box = notice_outbox\<lparr>messages := [due_note], deliveries := [due_row]\<rparr>"

definition production :: "claim list \<Rightarrow> delivery_config" where
  "production cs = \<lparr>dv_max_attempts = DEFAULT_MAX_ATTEMPTS, dv_stale_claim_threshold = minutes 15,
     dv_claim_status = Some (claim_status_of cs), dv_recruitment = Some (\<lambda>_. True), dv_parse_uuid = (\<lambda>_. None),
     dv_iso_aware = (\<lambda>_. False)\<rparr>"

lemma production_builds:
  "build_delivery_service (minutes 15) cs (\<lambda>_. True) (\<lambda>_. None) (\<lambda>_. False) = Inr (production cs)"
  by (simp add: build_delivery_service_def DeliveryService_init_def production_def DEFAULT_MAX_ATTEMPTS_def minutes_def)

lemma due_tables: "deliveries due_box = [due_row]" "messages due_box = [due_note]" "recipients due_box = [notice_user]"
  by (simp_all add: due_box_def notice_outbox_def)


definition reminder_row :: NotificationDelivery where
  "reminder_row = due_row\<lparr>nd_event_key := reminder_key 1 (hd REMINDER_SPECS), nd_channel := IN_APP\<rparr>"

definition reminder_note :: Notification where
  "reminder_note = due_note\<lparr>nf_event_type := ASSIGNMENT_DEADLINE_24H\<rparr>"

definition reminder_box :: outbox where
  "reminder_box = due_box\<lparr>messages := [reminder_note], deliveries := [reminder_row]\<rparr>"


end
