(* ===== verification/Dispatchers.thy ===== *)
theory Dispatchers
  imports Delivery_Facts
begin

text \<open>
  Any number of senders over one outbox.  A sender can stall or die between its claim transaction, its decision
  (with the provider call) and its finalize transaction, while the port registers events, the monitor
  recovers stuck claims, users read their inbox and admins edit templates.
\<close>

section \<open>The system\<close>

record dispatchers =
  di_box :: outbox
  di_claimed :: "(send_claim \<times> instant) list"
  di_decided :: "(uuid \<times> instant \<times> finalize_request) list"
  di_calls :: "(uuid \<times> send_request) list"

text \<open>The call a sender makes when it decides.\<close>

definition provider_call :: "delivery_config \<Rightarrow> send_claim \<Rightarrow> instant \<Rightarrow> send_request option" where
  "provider_call cfg c now = (case dispatch_skip_token cfg c now of
       Inr None \<Rightarrow> if sc_channel c = IN_APP then None
         else (case provider_request c of Inl e \<Rightarrow> None | Inr q \<Rightarrow> Some q)
     | _ \<Rightarrow> None)"

lemma decision_depends_on_call:
  assumes "\<And>q. provider_call cfg c now = Some q \<Longrightarrow> p q = p' q"
  shows "decide_send cfg p c now = decide_send cfg p' c now"
  using assms by (auto simp: provider_call_def decide_send_def split: sum.splits option.splits)

inductive dispatch_step :: "dispatchers \<Rightarrow> dispatchers \<Rightarrow> bool" where
  claim: "claim_delivery cfg did now (di_box x) = Inr (Inr c, s)
    \<Longrightarrow> dispatch_step x (x\<lparr>di_box := s, di_claimed := (c, now) # di_claimed x\<rparr>)"
| decide: "(c, now) \<in> set (di_claimed x) \<Longrightarrow> decide_send cfg provider c now = Inr f
    \<Longrightarrow> dispatch_step x (x\<lparr>di_claimed := remove1 (c, now) (di_claimed x),
          di_decided := (sc_delivery_id c, now, f) # di_decided x,
          di_calls := di_calls x @ (case provider_call cfg c now of None \<Rightarrow> [] | Some q \<Rightarrow> [(sc_delivery_id c, q)])\<rparr>)"
| settle: "(did, now, f) \<in> set (di_decided x) \<Longrightarrow> finalize_delivery cfg did now f (di_box x) = Inr (r, s)
    \<Longrightarrow> dispatch_step x (x\<lparr>di_box := s, di_decided := remove1 (did, now, f) (di_decided x)\<rparr>)"
| die_claimed: "dispatch_step x (x\<lparr>di_claimed := remove1 w (di_claimed x)\<rparr>)"
| die_decided: "dispatch_step x (x\<lparr>di_decided := remove1 w' (di_decided x)\<rparr>)"
| recover: "recover_stuck_sending_deliveries stuck_after lim now (di_box x) = (ids, s)
    \<Longrightarrow> dispatch_step x (x\<lparr>di_box := s\<rparr>)"
| register: "port_record_event env now key et uid p policy (di_box x) = Inr s
    \<Longrightarrow> distinct (map nd_id (deliveries s)) \<Longrightarrow> dispatch_step x (x\<lparr>di_box := s\<rparr>)"
| read: "mark_read now nid uid (di_box x) = Inr (n, s) \<Longrightarrow> dispatch_step x (x\<lparr>di_box := s\<rparr>)"
| create: "create_template tx tid a ev ch title body ctx (di_box x) = Inr (t, s) \<Longrightarrow> dispatch_step x (x\<lparr>di_box := s\<rparr>)"
| update: "update_template tx a tid title body ctx (di_box x) = Inr (t, s) \<Longrightarrow> dispatch_step x (x\<lparr>di_box := s\<rparr>)"
| toggle: "set_template_enabled tx a tid enabled ctx (di_box x) = Inr (t, s) \<Longrightarrow> dispatch_step x (x\<lparr>di_box := s\<rparr>)"

section \<open>Rows\<close>

text \<open>What a row keeps, and how it may change.\<close>

definition evolves :: "NotificationDelivery \<Rightarrow> NotificationDelivery \<Rightarrow> bool" where
  "evolves d d' \<longleftrightarrow> nd_id d' = nd_id d \<and> delivery_key d' = delivery_key d \<and> nd_notification_id d' = nd_notification_id d
     \<and> nd_attempts d \<le> nd_attempts d' \<and> (\<not> unsettled d \<longrightarrow> d' = d)"

lemma evolves_refl [simp]: "evolves d d"
  by (simp add: evolves_def)

lemma evolves_among: "d \<in> A \<Longrightarrow> \<exists>z\<in>A. evolves z d"
  by (rule bexI [where x = d]) simp_all

lemma evolves_trans: "evolves a b \<Longrightarrow> evolves b c \<Longrightarrow> evolves a c"
  by (auto simp: evolves_def)

definition rows_evolve :: "'a outbox_scheme \<Rightarrow> 'b outbox_scheme \<Rightarrow> bool" where
  "rows_evolve s s' \<longleftrightarrow> (\<forall>d\<in>set (deliveries s). \<exists>d'\<in>set (deliveries s'). evolves d d')"

lemma rows_evolve_same: "deliveries s' = deliveries s \<Longrightarrow> rows_evolve s s'"
  by (auto simp: rows_evolve_def intro!: bexI [where x = "d" for d])

lemma rows_evolve_refl [simp]: "rows_evolve s s"
  by (rule rows_evolve_same) simp

lemma rows_evolve_map:
  "deliveries s' = map f (deliveries s) \<Longrightarrow> (\<And>d. d \<in> set (deliveries s) \<Longrightarrow> evolves d (f d)) \<Longrightarrow> rows_evolve s s'"
  by (auto simp: rows_evolve_def)

definition keyed :: "'a outbox_scheme \<Rightarrow> bool" where
  "keyed s \<longleftrightarrow> distinct (map nd_id (deliveries s)) \<and> distinct (map delivery_key (deliveries s))"

lemma keyed_row: "keyed s \<Longrightarrow> d \<in> set (deliveries s) \<Longrightarrow> row_of nd_id (nd_id d) (deliveries s) = Some d"
  by (simp add: keyed_def row_of_unique)

lemma put_row:
  assumes "keyed s" "row_of nd_id (nd_id e) (deliveries s) = Some d" "delivery_key e = delivery_key d"
  shows "keyed (put_delivery e s)"
    and "x \<in> set (deliveries (put_delivery e s)) \<longleftrightarrow> x = e \<or> x \<in> set (deliveries s) \<and> nd_id x \<noteq> nd_id e"
proof -
  have d: "x = d" if "x \<in> set (deliveries s)" "nd_id x = nd_id e" for x
    using keyed_row [OF assms(1) that(1)] assms(2) that(2) by simp
  have "map nd_id (deliveries (put_delivery e s)) = map nd_id (deliveries s)"
    "map delivery_key (deliveries (put_delivery e s)) = map delivery_key (deliveries s)"
    using d assms(3) by (auto simp: put_delivery_def update_row_def)
  then show "keyed (put_delivery e s)" using assms(1) by (simp add: keyed_def)
  show "x \<in> set (deliveries (put_delivery e s)) \<longleftrightarrow> x = e \<or> x \<in> set (deliveries s) \<and> nd_id x \<noteq> nd_id e"
    using row_of_SomeD [OF assms(2)] by (auto simp: put_delivery_def set_update_row)
qed

lemma put_evolves:
  assumes "keyed s" "row_of nd_id (nd_id e) (deliveries s) = Some d" "evolves d e"
  shows "rows_evolve s (put_delivery e s)"
proof -
  have "delivery_key e = delivery_key d" using assms(3) by (simp add: evolves_def)
  note rows = put_row(2) [OF assms(1,2) this]
  show ?thesis unfolding rows_evolve_def
  proof
    fix x assume x: "x \<in> set (deliveries s)"
    show "\<exists>d'\<in>set (deliveries (put_delivery e s)). evolves x d'"
    proof (cases "nd_id x = nd_id e")
      case True
      then have "x = d" using keyed_row [OF assms(1) x] assms(2) by simp
      then show ?thesis using assms(3) rows by blast
    next
      case False then show ?thesis using x rows evolves_refl by blast
    qed
  qed
qed

lemma claimed_evolves: "unsettled d \<Longrightarrow> evolves d (claimed_delivery now d)"
  by (simp add: evolves_def claimed_delivery_def delivery_key_def)

lemma finalized_evolves: "nd_status d = SENDING \<Longrightarrow> evolves d (finalized_delivery now f d)"
  by (simp add: evolves_def finalized_delivery_def delivery_key_def unsettled_def)

lemma recovered_evolves: "nd_status d = SENDING \<Longrightarrow> evolves d (recovered now d)"
  by (simp add: evolves_def recovered_def delivery_key_def unsettled_def)

lemma delivery_key_row [simp]:
  "delivery_key \<lparr>nd_id = i, nd_notification_id = n, nd_user_id = u, nd_event_key = k, nd_channel = ch, nd_status = st,
     nd_scheduled_at = t, nd_attempts = m, nd_sent_at = sa, nd_provider_message_id = pm, nd_last_error = le, nd_updated_at = up\<rparr>
   = (k, u, ch)"
  by (simp add: delivery_key_def)

lemma insert_deliveries_keyed:
  "distinct (map delivery_key (deliveries s))
   \<Longrightarrow> distinct (map delivery_key (deliveries (fold (\<lambda>ch. insert_delivery env i (f ch) ch) chs s)))"
proof (induction chs arbitrary: s)
  case (Cons ch chs)
  have "distinct (map delivery_key (deliveries (insert_delivery env i (f ch) ch s)))"
    using Cons.prems by (auto simp: insert_delivery_def row_of_None)
  then show ?case using Cons.IH by simp
qed simp

lemma persist_keyed:
  assumes "persist_intent env p i s = Inr s'" "distinct (map delivery_key (deliveries s))"
  shows "distinct (map delivery_key (deliveries s'))"
proof (cases "in_channels i = []")
  case False
  then obtain vs m nid s1 ids s2 where ins: "insert_notification env i m s = Inr (nid, s1)"
    and fr: "freeze_products env i (map_of vs) (in_channels i) s1 = Inr (ids, s2)"
    and s': "s' = fold (\<lambda>ch. insert_delivery env i (case map_of ids ch of None \<Rightarrow> nid | Some j \<Rightarrow> j) ch) (in_channels i) s2"
    using assms(1) unfolding persist_intent_def by (auto split: sum.splits)
  have "deliveries s2 = deliveries s" using insert_notification_Inr(5) [OF ins] freeze_Inr [OF fr] by simp
  then show ?thesis unfolding s' using insert_deliveries_keyed assms(2) by metis
qed (use assms in \<open>simp add: persist_intent_def\<close>)

lemma persist_all_keyed:
  "persist_intents env p ps s = Inr s' \<Longrightarrow> distinct (map delivery_key (deliveries s)) \<Longrightarrow> distinct (map delivery_key (deliveries s'))"
proof (induction ps arbitrary: s)
  case (Cons i ps)
  obtain s1 where s1: "persist_intent env p i s = Inr s1" "persist_intents env p ps s1 = Inr s'"
    using Cons.prems(1) by (auto split: sum.splits)
  show ?case by (rule Cons.IH [OF s1(2) persist_keyed [OF s1(1) Cons.prems(2)]])
qed simp

lemma register_rows:
  assumes "port_record_event env now key et uid p policy s = Inr s'" "keyed s" "distinct (map nd_id (deliveries s'))"
  shows "keyed s'" "rows_evolve s s'" "d \<in> set (deliveries s') \<Longrightarrow> d \<in> set (deliveries s) \<or> nd_status d = PENDING \<and> nd_attempts d = 0"
proof -
  obtain ps where run: "persist_intents env p ps s = Inr s'"
    using assms(1) by (auto simp: port_record_event_def split: option.splits sum.splits)
  have "grown s s'" using persist_all [OF run] by blast
  then show "rows_evolve s s'" by (auto simp: grown_def rows_evolve_def intro: evolves_refl)
  show "keyed s'" using persist_all_keyed [OF run] assms(2,3) by (simp add: keyed_def)
  show "d \<in> set (deliveries s) \<or> nd_status d = PENDING \<and> nd_attempts d = 0" if "d \<in> set (deliveries s')"
    using persist_all_new [OF run that] by (auto simp: new_delivery_def)
qed

lemma recover_rows:
  assumes "recover_stuck_sending_deliveries stuck_after lim now s = (ids, s')" "keyed s"
  shows "keyed s'" "rows_evolve s s'"
    "d \<in> set (deliveries s') \<Longrightarrow> d \<in> set (deliveries s) \<or> (\<exists>e\<in>set (deliveries s). nd_status e = SENDING \<and> d = recovered now e)"
proof -
  have s': "deliveries s' = map (\<lambda>d. if nd_id d \<in> set ids then recovered now d else d) (deliveries s)"
    using assms(1) by (auto simp: recover_stuck_sending_deliveries_def Let_def)
  have stuck: "nd_status d = SENDING" if d: "d \<in> set (deliveries s)" "nd_id d \<in> set ids" for d
  proof -
    let ?L = "sort_key nd_updated_at (sort_key nd_id (filter (\<lambda>d. nd_status d = SENDING
      \<and> nd_updated_at d \<le> now - stuck_after) (deliveries s)))"
    have "ids = map nd_id (take lim ?L)" using assms(1) by (simp add: recover_stuck_sending_deliveries_def Let_def)
    then have "nd_id d \<in> nd_id ` set (take lim ?L)" using d(2) by simp
    then obtain e where "e \<in> set (take lim ?L)" "nd_id e = nd_id d" unfolding image_iff by force
    then have "e \<in> set ?L" "nd_id e = nd_id d" using in_set_takeD by fast+
    then have e: "e \<in> set (deliveries s)" "nd_id e = nd_id d" "nd_status e = SENDING" by simp_all
    have "row_of nd_id (nd_id d) (deliveries s) = Some e" using keyed_row [OF assms(2) e(1)] unfolding e(2) .
    then have "e = d" using keyed_row [OF assms(2) d(1)] by simp
    then show ?thesis using e(3) by simp
  qed
  have "map nd_id (deliveries s') = map nd_id (deliveries s)" "map delivery_key (deliveries s') = map delivery_key (deliveries s)"
    unfolding s' by (auto simp: recovered_def delivery_key_def)
  then show "keyed s'" using assms(2) by (simp add: keyed_def)
  show "rows_evolve s s'" by (rule rows_evolve_map [OF s']) (use stuck recovered_evolves in simp)
  show "d \<in> set (deliveries s) \<or> (\<exists>e\<in>set (deliveries s). nd_status e = SENDING \<and> d = recovered now e)"
    if "d \<in> set (deliveries s')" using that stuck unfolding s' by auto
qed

section \<open>The invariant\<close>

definition calls_of :: "uuid \<Rightarrow> dispatchers \<Rightarrow> nat" where
  "calls_of did x = length (filter (\<lambda>q. fst q = did) (di_calls x))"

definition claims_of :: "uuid \<Rightarrow> dispatchers \<Rightarrow> nat" where
  "claims_of did x = length (filter (\<lambda>w. sc_delivery_id (fst w) = did) (di_claimed x))"

definition row_key :: "NotificationDelivery \<Rightarrow> string" where
  "row_key d = provider_idempotency_key (nd_event_key d) (nd_channel d) (nd_user_id d)"

definition claim_of_row :: "NotificationDelivery \<Rightarrow> send_claim \<Rightarrow> bool" where
  "claim_of_row d c \<longleftrightarrow> sc_delivery_id c = nd_id d \<and> sc_event_key c = nd_event_key d \<and> sc_channel c = nd_channel d
     \<and> sc_user_id c = nd_user_id d"

definition dispatch_inv :: "dispatchers \<Rightarrow> bool" where
  "dispatch_inv x \<longleftrightarrow> keyed (di_box x)
     \<and> (\<forall>w\<in>set (di_claimed x). \<exists>d\<in>set (deliveries (di_box x)). claim_of_row d (fst w))
     \<and> (\<forall>q\<in>set (di_calls x). \<exists>d\<in>set (deliveries (di_box x)). nd_id d = fst q \<and> sq_channel (snd q) = nd_channel d
          \<and> sq_idempotency_key (snd q) = row_key d)
     \<and> (\<forall>d\<in>set (deliveries (di_box x)). calls_of (nd_id d) x + claims_of (nd_id d) x \<le> nd_attempts d)"

definition call_of_row :: "NotificationDelivery \<Rightarrow> uuid \<times> send_request \<Rightarrow> bool" where
  "call_of_row d q \<longleftrightarrow> nd_id d = fst q \<and> sq_channel (snd q) = nd_channel d \<and> sq_idempotency_key (snd q) = row_key d"

lemma dispatch_invI:
  assumes "keyed (di_box x)" "\<And>w. w \<in> set (di_claimed x) \<Longrightarrow> \<exists>d\<in>set (deliveries (di_box x)). claim_of_row d (fst w)"
    and "\<And>q. q \<in> set (di_calls x) \<Longrightarrow> \<exists>d\<in>set (deliveries (di_box x)). call_of_row d q"
    and "\<And>d. d \<in> set (deliveries (di_box x)) \<Longrightarrow> calls_of (nd_id d) x + claims_of (nd_id d) x \<le> nd_attempts d"
  shows "dispatch_inv x"
  using assms by (simp add: dispatch_inv_def call_of_row_def)

lemma dispatch_invD:
  assumes "dispatch_inv x"
  shows "keyed (di_box x)" "w \<in> set (di_claimed x) \<Longrightarrow> \<exists>d\<in>set (deliveries (di_box x)). claim_of_row d (fst w)"
    "q \<in> set (di_calls x) \<Longrightarrow> \<exists>d\<in>set (deliveries (di_box x)). call_of_row d q"
    "d \<in> set (deliveries (di_box x)) \<Longrightarrow> calls_of (nd_id d) x + claims_of (nd_id d) x \<le> nd_attempts d"
  using assms by (simp_all add: dispatch_inv_def call_of_row_def)

text \<open>A change of the workers alone.\<close>

lemma inv_workers:
  assumes inv: "dispatch_inv x" and "di_box y = di_box x" "set (di_claimed y) \<subseteq> set (di_claimed x)"
    and "\<And>q. q \<in> set (di_calls y) \<Longrightarrow> \<exists>d\<in>set (deliveries (di_box x)). call_of_row d q"
    and "\<And>i. calls_of i y + claims_of i y \<le> calls_of i x + claims_of i x"
  shows "dispatch_inv y"
proof (rule dispatch_invI)
  show "calls_of (nd_id d) y + claims_of (nd_id d) y \<le> nd_attempts d" if d: "d \<in> set (deliveries (di_box y))" for d
    using order_trans [OF assms(5) dispatch_invD(4) [OF inv]] d assms(2) by simp
qed (use assms dispatch_invD [OF inv] in auto)

lemma claim_evolves: "evolves d d' \<Longrightarrow> claim_of_row d c \<Longrightarrow> claim_of_row d' c"
  by (auto simp: evolves_def claim_of_row_def delivery_key_def)

lemma key_evolves: "evolves d d' \<Longrightarrow> row_key d' = row_key d \<and> nd_channel d' = nd_channel d \<and> nd_id d' = nd_id d"
  by (auto simp: evolves_def row_key_def delivery_key_def)

text \<open>A change of the box alone: rows evolve and new rows are fresh.\<close>

lemma inv_box:
  assumes inv: "dispatch_inv x" and "keyed s" and ev: "rows_evolve (di_box x) s"
    and new: "\<And>d. d \<in> set (deliveries s) \<Longrightarrow> (\<exists>e\<in>set (deliveries (di_box x)). evolves e d)
      \<or> nd_id d \<notin> nd_id ` set (deliveries (di_box x))"
  shows "dispatch_inv (x\<lparr>di_box := s\<rparr>)"
proof -
  have "\<exists>d\<in>set (deliveries s). claim_of_row d (fst w)" if "w \<in> set (di_claimed x)" for w
    using inv that ev claim_evolves unfolding dispatch_inv_def rows_evolve_def by meson
  moreover have "\<exists>d\<in>set (deliveries s). nd_id d = fst q \<and> sq_channel (snd q) = nd_channel d \<and> sq_idempotency_key (snd q) = row_key d"
    if q: "q \<in> set (di_calls x)" for q
  proof -
    obtain d where d: "d \<in> set (deliveries (di_box x))" "nd_id d = fst q" "sq_channel (snd q) = nd_channel d"
      "sq_idempotency_key (snd q) = row_key d"
      using inv q unfolding dispatch_inv_def by blast
    obtain d' where "d' \<in> set (deliveries s)" "evolves d d'" using ev d(1) unfolding rows_evolve_def by blast
    then show ?thesis using d key_evolves by metis
  qed
  moreover have "calls_of (nd_id d) x + claims_of (nd_id d) x \<le> nd_attempts d" if d: "d \<in> set (deliveries s)" for d
    using new [OF d]
  proof
    assume "\<exists>e\<in>set (deliveries (di_box x)). evolves e d"
    then obtain e where e: "e \<in> set (deliveries (di_box x))" "nd_id d = nd_id e" "nd_attempts e \<le> nd_attempts d"
      by (auto simp: evolves_def)
    then have "calls_of (nd_id e) x + claims_of (nd_id e) x \<le> nd_attempts e" using inv by (simp add: dispatch_inv_def)
    then show ?thesis using e by simp
  next
    assume fresh: "nd_id d \<notin> nd_id ` set (deliveries (di_box x))"
    have "fst q \<noteq> nd_id d" if "q \<in> set (di_calls x)" for q
      using inv that fresh unfolding dispatch_inv_def by (metis imageI)
    moreover have "sc_delivery_id (fst w) \<noteq> nd_id d" if "w \<in> set (di_claimed x)" for w
      using inv that fresh unfolding dispatch_inv_def claim_of_row_def by (metis imageI)
    ultimately have "calls_of (nd_id d) x = 0" "claims_of (nd_id d) x = 0" by (auto simp: calls_of_def claims_of_def)
    then show ?thesis by simp
  qed
  ultimately show ?thesis using assms(2) by (simp add: dispatch_inv_def calls_of_def claims_of_def)
qed

lemma count_remove1:
  "w \<in> set ws \<Longrightarrow> length (filter P ws) = length (filter P (remove1 w ws)) + (if P w then 1 else 0)"
  by (induction ws) auto

lemma count_remove1_le: "length (filter P (remove1 w ws)) \<le> length (filter P ws)"
  by (cases "w \<in> set ws") (simp_all add: count_remove1 remove1_idem)

lemma box_of_put:
  assumes "keyed s" "row_of nd_id (nd_id e) (deliveries s) = Some d" "evolves d e"
  shows "keyed (put_delivery e s)" "rows_evolve s (put_delivery e s)"
    "y \<in> set (deliveries (put_delivery e s)) \<Longrightarrow> \<exists>z\<in>set (deliveries s). evolves z y"
proof -
  have key: "delivery_key e = delivery_key d" using assms(3) by (simp add: evolves_def)
  show "keyed (put_delivery e s)" "rows_evolve s (put_delivery e s)"
    using put_row(1) [OF assms(1,2) key] put_evolves [OF assms] by auto
  have "d \<in> set (deliveries s)" using row_of_SomeD [OF assms(2)] by simp
  then show "\<exists>z\<in>set (deliveries s). evolves z y" if "y \<in> set (deliveries (put_delivery e s))"
    using that put_row(2) [OF assms(1,2) key, of y] assms(3) evolves_refl by blast
qed

lemma finalize_rows:
  assumes "finalize_delivery cfg did now req s = Inr (r, s')"
  shows "deliveries s' = deliveries s
    \<or> (\<exists>f d. row_of nd_id did (deliveries s) = Some d \<and> nd_status d = SENDING
        \<and> deliveries s' = deliveries (put_delivery (finalized_delivery now f d) s))"
  using assms by (auto simp: finalize_delivery_def Let_def split: sum.splits option.splits if_splits)

lemma claim_row:
  assumes "claim_delivery cfg did now s = Inr (Inr c, s')"
  obtains d where "row_of nd_id did (deliveries s) = Some d" "nd_id d = did" "unsettled d" "claim_of_row d c"
    "s' = put_delivery (claimed_delivery now d) s"
  using assms row_of_SomeD [of nd_id did "deliveries s"] unfolding send_claim_Inr by (auto simp: claim_of_row_def)

lemma provider_call_key:
  "provider_call cfg c now = Some q \<Longrightarrow> sq_channel q = sc_channel c
    \<and> sq_idempotency_key q = provider_idempotency_key (sc_event_key c) (sc_channel c) (sc_user_id c)"
  by (auto simp: provider_call_def provider_request_def split: sum.splits option.splits if_splits)

lemma rows_evolve_trans: "rows_evolve a b \<Longrightarrow> rows_evolve b c \<Longrightarrow> rows_evolve a c"
  unfolding rows_evolve_def using evolves_trans by blast

lemma same_deliveries: "keyed s \<Longrightarrow> deliveries s' = deliveries s \<Longrightarrow> keyed s' \<and> rows_evolve s s'"
  using rows_evolve_same by (auto simp: keyed_def)

lemma mark_read_rows: "mark_read now nid uid s = Inr (n, s') \<Longrightarrow> deliveries s' = deliveries s"
  by (auto simp: mark_read_def Let_def split: option.splits if_splits)

lemma template_rows:
  "create_template tx tid a ev ch title body ctx s = Inr (t, s') \<Longrightarrow> deliveries s' = deliveries s"
  "update_template tx a tid title' body' ctx s = Inr (t, s') \<Longrightarrow> deliveries s' = deliveries s"
  "set_template_enabled tx a tid enabled ctx s = Inr (t, s') \<Longrightarrow> deliveries s' = deliveries s"
  by (auto simp: create_template_def update_template_def set_template_enabled_def template_audit_def audit_append_def
      put_template_def Let_def split: sum.splits option.splits if_splits)

text \<open>A claim adds one attempt and one claim, a decision turns a claim into at most one call.\<close>

lemma inv_claim:
  assumes inv: "dispatch_inv x" and run: "claim_delivery cfg did now (di_box x) = Inr (Inr c, s)"
  shows "dispatch_inv (x\<lparr>di_box := s, di_claimed := (c, now) # di_claimed x\<rparr>)"
proof -
  obtain d where d: "row_of nd_id did (deliveries (di_box x)) = Some d" "nd_id d = did" "unsettled d" "claim_of_row d c"
    "s = put_delivery (claimed_delivery now d) (di_box x)"
    using claim_row [OF run] by blast
  let ?e = "claimed_delivery now d"
  have e: "nd_id ?e = did" "claim_of_row ?e c" "nd_attempts ?e = nd_attempts d + 1"
    using d by (simp_all add: claimed_delivery_def claim_of_row_def)
  have key: "keyed (di_box x)" using inv by (simp add: dispatch_inv_def)
  have row: "row_of nd_id (nd_id ?e) (deliveries (di_box x)) = Some d" using d(1) e(1) by simp
  have rows: "y \<in> set (deliveries s) \<longleftrightarrow> y = ?e \<or> y \<in> set (deliveries (di_box x)) \<and> nd_id y \<noteq> did" for y
    using put_row(2) [OF key row, of y] e(1) d(5) by (simp add: claimed_delivery_def delivery_key_def)
  have box: "dispatch_inv (x\<lparr>di_box := s\<rparr>)"
    using inv_box [OF inv] box_of_put [OF key row claimed_evolves [OF d(3)]] d(5) by blast
  have "calls_of (nd_id d) x + claims_of (nd_id d) x \<le> nd_attempts d"
    using inv row_of_SomeD [OF d(1)] unfolding dispatch_inv_def by blast
  then have own: "calls_of did x + claims_of did x + 1 \<le> nd_attempts ?e" using d(2) e(3) by simp
  let ?x = "x\<lparr>di_box := s, di_claimed := (c, now) # di_claimed x\<rparr>"
  have cid: "sc_delivery_id c = did" using d(2,4) by (simp add: claim_of_row_def)
  show ?thesis
  proof (rule dispatch_invI)
    fix w assume "w \<in> set (di_claimed ?x)"
    then show "\<exists>d\<in>set (deliveries (di_box ?x)). claim_of_row d (fst w)"
      using dispatch_invD(2) [OF box, of w] e(2) rows by auto
  next
    fix y assume y: "y \<in> set (deliveries (di_box ?x))"
    show "calls_of (nd_id y) ?x + claims_of (nd_id y) ?x \<le> nd_attempts y"
    proof (cases "nd_id y = did")
      case True
      then have "y = ?e" using y rows by simp
      then show ?thesis using own True cid by (simp add: calls_of_def claims_of_def)
    next
      case False
      then show ?thesis using dispatch_invD(4) [OF box, of y] y cid by (simp add: calls_of_def claims_of_def)
    qed
  qed (use dispatch_invD(1,3) [OF box] in auto)
qed

lemma inv_decide:
  assumes inv: "dispatch_inv x" and w: "(c, now) \<in> set (di_claimed x)"
  shows "dispatch_inv (x\<lparr>di_claimed := remove1 (c, now) (di_claimed x), di_decided := ds,
      di_calls := di_calls x @ (case provider_call cfg c now of None \<Rightarrow> [] | Some q \<Rightarrow> [(sc_delivery_id c, q)])\<rparr>)" (is "dispatch_inv ?x")
proof -
  obtain d where d: "d \<in> set (deliveries (di_box x))" "claim_of_row d c" using inv w by (auto simp: dispatch_inv_def)
  have calls: "\<exists>e\<in>set (deliveries (di_box x)). call_of_row e q" if "q \<in> set (di_calls ?x)" for q
  proof (cases "q \<in> set (di_calls x)")
    case True then show ?thesis by (rule dispatch_invD(3) [OF inv])
  next
    case False
    then have "fst q = sc_delivery_id c" "provider_call cfg c now = Some (snd q)"
      using that by (auto split: option.splits)
    then have "call_of_row d q" using d(2) provider_call_key by (auto simp: claim_of_row_def row_key_def call_of_row_def)
    then show ?thesis using d(1) by blast
  qed
  have counts: "calls_of i ?x + claims_of i ?x \<le> calls_of i x + claims_of i x" for i
    using count_remove1 [OF w, of "\<lambda>w. sc_delivery_id (fst w) = i"]
    by (auto simp: calls_of_def claims_of_def split: option.splits)
  show ?thesis by (rule inv_workers [OF inv _ _ calls counts]) (simp_all add: set_remove1_subset)
qed

lemma inv_same_rows:
  assumes "dispatch_inv x" "deliveries s = deliveries (di_box x)"
  shows "dispatch_inv (x\<lparr>di_box := s\<rparr>) \<and> rows_evolve (di_box x) s"
  using inv_box [OF assms(1)] same_deliveries [OF dispatch_invD(1) [OF assms(1)] assms(2)] assms(2) evolves_refl by metis

lemma dispatch_step_inv:
  assumes "dispatch_step x y" "dispatch_inv x"
  shows "dispatch_inv y \<and> rows_evolve (di_box x) (di_box y)"
  using assms
proof (induction rule: dispatch_step.induct)
  case (claim cfg did now x c s)
  obtain d where d: "row_of nd_id did (deliveries (di_box x)) = Some d" "nd_id d = did" "unsettled d"
    "s = put_delivery (claimed_delivery now d) (di_box x)"
    using claim_row [OF claim.hyps] by blast
  have "row_of nd_id (nd_id (claimed_delivery now d)) (deliveries (di_box x)) = Some d"
    using d(1,2) by (simp add: claimed_delivery_def)
  then have "rows_evolve (di_box x) s"
    using put_evolves [OF _ _ claimed_evolves [OF d(3)]] claim.prems d(4) by (auto simp: dispatch_inv_def)
  then show ?case using inv_claim [OF claim.prems claim.hyps] by simp
next
  case (decide c now x cfg provider f)
  show ?case using inv_decide [OF decide.prems decide.hyps(1)] rows_evolve_same by auto
next
  case (settle did now f x cfg r s)
  have key: "keyed (di_box x)" using settle.prems by (simp add: dispatch_inv_def)
  have box: "keyed s \<and> rows_evolve (di_box x) s \<and> (\<forall>y\<in>set (deliveries s). \<exists>z\<in>set (deliveries (di_box x)). evolves z y)"
    using finalize_rows [OF settle.hyps(2)]
  proof (elim disjE exE conjE)
    assume "deliveries s = deliveries (di_box x)"
    then show ?thesis using same_deliveries [OF key, of s] evolves_among by auto
  next
    fix g d assume d: "row_of nd_id did (deliveries (di_box x)) = Some d" "nd_status d = SENDING"
      and s: "deliveries s = deliveries (put_delivery (finalized_delivery now g d) (di_box x))"
    have "row_of nd_id (nd_id (finalized_delivery now g d)) (deliveries (di_box x)) = Some d"
      using d(1) row_of_SomeD [OF d(1)] by (simp add: finalized_delivery_def)
    from box_of_put [OF key this finalized_evolves [OF d(2)]] show ?thesis
      using s by (auto simp: keyed_def rows_evolve_def)
  qed
  then have "dispatch_inv (x\<lparr>di_box := s\<rparr>)" using inv_box [OF settle.prems] by blast
  then show ?case using box by (simp add: dispatch_inv_def calls_of_def claims_of_def)
next
  case (die_claimed x w)
  have "dispatch_inv (x\<lparr>di_claimed := remove1 w (di_claimed x)\<rparr>)"
    by (rule inv_workers [OF die_claimed.prems])
      (simp_all add: set_remove1_subset dispatch_invD(3) [OF die_claimed.prems] calls_of_def claims_of_def count_remove1_le)
  then show ?case using rows_evolve_same by simp
next
  case (die_decided x w')
  then show ?case using rows_evolve_same by (simp add: dispatch_inv_def calls_of_def claims_of_def)
next
  case (recover stuck_after lim now x ids s)
  have key: "keyed (di_box x)" using recover.prems by (simp add: dispatch_inv_def)
  note r = recover_rows [OF recover.hyps key]
  have "\<exists>e\<in>set (deliveries (di_box x)). evolves e d" if "d \<in> set (deliveries s)" for d
    using r(3) [OF that] recovered_evolves evolves_refl by blast
  then show ?case using inv_box [OF recover.prems r(1,2)] r(2) by simp
next
  case (register env now key et uid p policy x s)
  have key: "keyed (di_box x)" using register.prems by (simp add: dispatch_inv_def)
  note r = register_rows [OF register.hyps(1) key register.hyps(2)]
  have "(\<exists>e\<in>set (deliveries (di_box x)). evolves e d) \<or> nd_id d \<notin> nd_id ` set (deliveries (di_box x))"
    if d: "d \<in> set (deliveries s)" for d
  proof (cases "nd_id d \<in> nd_id ` set (deliveries (di_box x))")
    case True
    then obtain e where e: "e \<in> set (deliveries (di_box x))" "nd_id e = nd_id d" by auto
    obtain e' where e': "e' \<in> set (deliveries s)" "evolves e e'" using r(2) e(1) unfolding rows_evolve_def by blast
    have same: "nd_id e' = nd_id d" using e'(2) e(2) unfolding evolves_def by (elim conjE) (rule trans)
    have "row_of nd_id (nd_id d) (deliveries s) = Some e'" using keyed_row [OF r(1) e'(1)] unfolding same .
    then have "e' = d" using keyed_row [OF r(1) d] by simp
    then show ?thesis using e(1) e'(2) by blast
  qed simp
  then show ?case using inv_box [OF register.prems r(1,2)] r(2) by simp
next
  case (read now nid uid x n s)
  show ?case using inv_same_rows [OF read.prems mark_read_rows [OF read.hyps]] by simp
next
  case (create tx tid a ev ch title body ctx x t s)
  show ?case using inv_same_rows [OF create.prems template_rows(1) [OF create.hyps]] by simp
next
  case (update tx a tid title body ctx x t s)
  show ?case using inv_same_rows [OF update.prems template_rows(2) [OF update.hyps]] by simp
next
  case (toggle tx a tid enabled ctx x t s)
  show ?case using inv_same_rows [OF toggle.prems template_rows(3) [OF toggle.hyps]] by simp
qed

lemma dispatch_run_inv:
  "dispatch_step\<^sup>*\<^sup>* x y \<Longrightarrow> dispatch_inv x \<Longrightarrow> dispatch_inv y \<and> rows_evolve (di_box x) (di_box y)"
proof (induction rule: rtranclp_induct)
  case (step y z)
  then show ?case using dispatch_step_inv rows_evolve_trans by blast
qed simp

lemma idle_inv: "keyed (di_box x) \<Longrightarrow> di_claimed x = [] \<Longrightarrow> di_calls x = [] \<Longrightarrow> dispatch_inv x"
  by (simp add: dispatch_inv_def calls_of_def claims_of_def)

section \<open>Idempotency keys\<close>

lemma uuid_str_inject: "u < 16 ^ 32 \<Longrightarrow> v < 16 ^ 32 \<Longrightarrow> uuid_str u = uuid_str v \<Longrightarrow> u = v"
  using strict_uuid_str by (metis option.inject)

lemma channel_suffix_inject: "k @ '':'' @ channel_value ch = k' @ '':'' @ channel_value ch' \<Longrightarrow> k = k' \<and> ch = ch'"
  using arg_cong [of "k @ '':'' @ channel_value ch" "k' @ '':'' @ channel_value ch'" last]
  by (cases ch; cases ch') auto

lemma idempotency_key_inject:
  assumes "provider_idempotency_key k ch u = provider_idempotency_key k' ch' u'" "u < 16 ^ 32" "u' < 16 ^ 32"
  shows "k = k' \<and> ch = ch' \<and> u = u'"
proof -
  have "(k @ '':'' @ channel_value ch @ '':'') @ uuid_str u = (k' @ '':'' @ channel_value ch' @ '':'') @ uuid_str u'"
    using assms(1) by (simp add: provider_idempotency_key_def)
  then have "k @ '':'' @ channel_value ch @ '':'' = k' @ '':'' @ channel_value ch' @ '':''" "uuid_str u = uuid_str u'"
    using append_eq_append_conv [of "k @ '':'' @ channel_value ch @ '':''" "k' @ '':'' @ channel_value ch' @ '':''"
        "uuid_str u" "uuid_str u'"] by simp_all
  then show ?thesis using channel_suffix_inject [of k ch k' ch'] uuid_str_inject assms(2,3)
    by (metis append.assoc append_same_eq)
qed

section \<open>Properties of concurrent dispatch\<close>

text \<open>C11: Whatever senders, monitor, port, readers and admins do and however they interleave, a provider is called for a delivery
  at most as often as the row records attempts; every call for a row goes over the row's channel under the row's
  one idempotency key, and calls for different rows carry different keys, so a provider that honours the key
  delivers each row at most once.\<close>

theorem provider_calls_are_recorded_attempts:
  assumes "dispatch_step\<^sup>*\<^sup>* x y" "keyed (di_box x)" "di_claimed x = []" "di_calls x = []"
    and "\<And>d. d \<in> set (deliveries (di_box y)) \<Longrightarrow> nd_user_id d < 16 ^ 32"
  shows "(\<forall>d\<in>set (deliveries (di_box y)). calls_of (nd_id d) y \<le> nd_attempts d)
    \<and> (\<forall>p\<in>set (di_calls y). \<exists>d\<in>set (deliveries (di_box y)). nd_id d = fst p \<and> sq_channel (snd p) = nd_channel d
        \<and> sq_idempotency_key (snd p) = provider_idempotency_key (nd_event_key d) (nd_channel d) (nd_user_id d))
    \<and> (\<forall>p\<in>set (di_calls y). \<forall>q\<in>set (di_calls y). sq_idempotency_key (snd p) = sq_idempotency_key (snd q) \<longleftrightarrow> fst p = fst q)"
proof -
  have inv: "dispatch_inv y" using dispatch_run_inv [OF assms(1) idle_inv [OF assms(2-4)]] by simp
  note I = dispatch_invD [OF inv]
  have "calls_of (nd_id d) y \<le> nd_attempts d" if "d \<in> set (deliveries (di_box y))" for d
    using I(4) [OF that] by linarith
  moreover have "(sq_idempotency_key (snd p) = sq_idempotency_key (snd q)) = (fst p = fst q)"
    if pq: "p \<in> set (di_calls y)" "q \<in> set (di_calls y)" for p q
  proof -
    obtain d e where d: "d \<in> set (deliveries (di_box y))" "call_of_row d p"
      and e: "e \<in> set (deliveries (di_box y))" "call_of_row e q"
      using I(3) [OF pq(1)] I(3) [OF pq(2)] by blast
    have "row_key d = row_key e \<longleftrightarrow> delivery_key d = delivery_key e"
      using idempotency_key_inject assms(5) d(1) e(1) by (auto simp: row_key_def delivery_key_def)
    also have "\<dots> \<longleftrightarrow> d = e" using I(1) d(1) e(1) by (auto simp: keyed_def distinct_map inj_on_def)
    also have "\<dots> \<longleftrightarrow> nd_id d = nd_id e" using I(1) d(1) e(1) by (auto simp: keyed_def distinct_map inj_on_def)
    finally show ?thesis using d(2) e(2) by (simp add: call_of_row_def)
  qed
  ultimately show ?thesis using I(3) by (auto simp: call_of_row_def row_key_def)
qed

text \<open>No delivery is lost or changes its identity, attempts are never taken back, and a delivery that was sent or has
  failed keeps its whole row forever, however late a stalled sender comes back to finalize it.\<close>

theorem finished_deliveries_are_final:
  assumes "dispatch_step\<^sup>*\<^sup>* x y" "dispatch_step\<^sup>*\<^sup>* y z" "keyed (di_box x)" "di_claimed x = []" "di_calls x = []"
    and "d \<in> set (deliveries (di_box y))"
  shows "\<exists>d'\<in>set (deliveries (di_box z)). nd_id d' = nd_id d \<and> delivery_key d' = delivery_key d
    \<and> nd_notification_id d' = nd_notification_id d \<and> nd_attempts d \<le> nd_attempts d'
    \<and> (nd_status d \<in> {SENT, FAILED} \<longrightarrow> d' = d)"
proof -
  have "dispatch_inv y" using dispatch_run_inv [OF assms(1) idle_inv [OF assms(3-5)]] by simp
  then have "rows_evolve (di_box y) (di_box z)" using dispatch_run_inv [OF assms(2)] by simp
  then obtain d' where "d' \<in> set (deliveries (di_box z))" "evolves d d'" using assms(6) unfolding rows_evolve_def by blast
  then show ?thesis by (auto simp: evolves_def unsettled_def intro!: bexI [of _ d'])
qed

section \<open>A concrete run\<close>

text \<open>A sender claims the row, calls the provider and times out.\<close>

definition idle :: dispatchers where
  "idle = \<lparr>di_box = due_box, di_claimed = [], di_decided = [], di_calls = []\<rparr>"

definition due_claim :: send_claim where
  "due_claim = \<lparr>sc_delivery_id = 80, sc_user_id = 7, sc_event_key = ''claim:1:approved'', sc_event_type = SUBMISSION_APPROVED,
     sc_channel = SMS, sc_attempts = 1, sc_scheduled_at = 5, sc_title = ''Approved'', sc_body = ''Approved'',
     sc_phone_e164 = Some ''+8613800000000'', sc_email_normalized = None, sc_channel_skip_reason = None\<rparr>"

lemma due_claimed:
  "claim_delivery (production []) 80 6 due_box = Inr (Inr due_claim, put_delivery (claimed_delivery 6 due_row) due_box)"
proof -
  have box: "deliveries due_box = [due_row]" "messages due_box = [due_note]" "recipients due_box = [notice_user]"
    by (simp_all add: due_box_def notice_outbox_def)
  have skip: "dispatch_skip_reason notice_user SUBMISSION_APPROVED SMS = None" by code_simp
  show ?thesis unfolding send_claim_Inr
    by (rule exI [of _ due_row], rule exI [of _ due_note], rule exI [of _ notice_user])
      (simp add: box skip due_row_def due_note_def notice_user_def due_claim_def unsettled_def
        skip [unfolded notice_user_def])
qed

definition timed_out :: finalize_request where
  "timed_out = retry_or_fail (production []) due_claim 6 ''unknown_outcome:t''"

definition the_call :: send_request where
  "the_call = \<lparr>sq_channel = SMS, sq_to = ''+8613800000000'', sq_template = ''submission_approved'', sq_title = ''Approved'',
     sq_body = ''Approved'', sq_idempotency_key = provider_idempotency_key ''claim:1:approved'' SMS 7\<rparr>"

lemma due_decided:
  "decide_send (production []) (\<lambda>_. Failure UnknownOutcomeError ''t'') due_claim 6 = Inr timed_out"
  "provider_call (production []) due_claim 6 = Some the_call"
proof -
  have token: "dispatch_skip_token (production []) due_claim 6 = Inr None" by code_simp
  have "provider_request due_claim = Inr the_call" by code_simp
  with token show "decide_send (production []) (\<lambda>_. Failure UnknownOutcomeError ''t'') due_claim 6 = Inr timed_out"
    "provider_call (production []) due_claim 6 = Some the_call"
    by (simp_all add: decide_send_def provider_call_def provider_outcome_def timed_out_def due_claim_def)
qed

definition claimed_box :: outbox where "claimed_box = put_delivery (claimed_delivery 6 due_row) due_box"

definition called :: dispatchers where
  "called = \<lparr>di_box = claimed_box, di_claimed = [], di_decided = [(80, 6, timed_out)], di_calls = [(80, the_call)]\<rparr>"

lemma called_run: "dispatch_step\<^sup>*\<^sup>* idle called"
proof -
  have "dispatch_step idle (idle\<lparr>di_box := claimed_box, di_claimed := [(due_claim, 6)]\<rparr>)"
    using dispatch_step.claim [of "production []" 80 6 idle due_claim claimed_box] due_claimed
    by (simp add: idle_def claimed_box_def)
  moreover have "dispatch_step (idle\<lparr>di_box := claimed_box, di_claimed := [(due_claim, 6)]\<rparr>) called"
    using dispatch_step.decide [of due_claim 6 "idle\<lparr>di_box := claimed_box, di_claimed := [(due_claim, 6)]\<rparr>"
        "production []" "\<lambda>_. Failure UnknownOutcomeError ''t''" timed_out] due_decided
    by (simp add: idle_def called_def due_claim_def)
  ultimately show ?thesis by (meson converse_rtranclp_into_rtranclp rtranclp.rtrancl_refl)
qed

lemma idle_facts: "keyed (di_box idle)" "di_claimed idle = []" "di_calls idle = []"
  by (simp_all add: idle_def keyed_def due_box_def notice_outbox_def)

lemma claimed_rows: "deliveries claimed_box = [claimed_delivery 6 due_row]"
  by (simp add: claimed_box_def put_delivery_def due_box_def notice_outbox_def update_row_def claimed_delivery_def)

theorem provider_calls_are_recorded_attempts_witness:
  "calls_of 80 called = 1 \<and> calls_of 80 called \<le> nd_attempts (claimed_delivery 6 due_row)"
proof -
  have "nd_user_id d < 16 ^ 32" if "d \<in> set (deliveries (di_box called))" for d
    using that by (simp add: called_def claimed_rows claimed_delivery_def due_row_def)
  then have "\<forall>d\<in>set (deliveries (di_box called)). calls_of (nd_id d) called \<le> nd_attempts d"
    using provider_calls_are_recorded_attempts [OF called_run idle_facts] by blast
  moreover have "nd_id (claimed_delivery 6 due_row) = 80" by (simp add: claimed_delivery_def due_row_def)
  ultimately show ?thesis by (auto simp: called_def claimed_rows calls_of_def)
qed

text \<open>The row is sent, and stays so.\<close>

definition sent_row :: NotificationDelivery where
  "sent_row = due_row\<lparr>nd_status := SENT, nd_attempts := 1, nd_sent_at := Some 6\<rparr>"

definition sent_state :: dispatchers where
  "sent_state = idle\<lparr>di_box := due_box\<lparr>deliveries := [sent_row]\<rparr>\<rparr>"

theorem finished_deliveries_are_final_witness:
  "\<exists>d'. d' \<in> set (deliveries (di_box sent_state)) \<and> d' = sent_row"
  using finished_deliveries_are_final [of sent_state sent_state sent_state sent_row]
  by (auto simp: sent_state_def sent_row_def keyed_def idle_def)

end
