(* ===== verification/Sessions.thy ===== *)
theory Sessions
  imports Core
begin

text \<open>
  Accounts, the login failure guard and refresh sessions: the account and session tables
  (\<open>identity/models.py\<close>), the lockout counter (\<open>identity/login_failure_guard.py\<close>), the live-session lookup of
  \<open>identity/repository.py\<close>, and login, rotation, replay and revocation (\<open>identity/session_service.py\<close>).
\<close>

section \<open>Tables\<close>

record account =
  au_id :: uuid
  au_username :: string
  au_password_hash :: "string option"
  au_nickname :: string
  au_phone_e164 :: "string option"
  au_email_normalized :: "string option"
  au_email_verified_at :: "instant option"
  au_role :: Role
  au_status :: UserStatus
  au_approved_at :: "instant option"
  au_rejected_reason :: "string option"

record UserSession =
  us_sid :: uuid
  us_user :: uuid
  us_refresh_token_hash :: string
  us_expires_at :: instant
  us_revoked_at :: "instant option"
  us_replaced_by :: "uuid option"
  us_replaced_at :: "instant option"
  us_replay_envelope :: "string option"

text \<open>A Redis counter: its value and the instant at which the key expires, if one was set.\<close>

record counter =
  ct_value :: nat
  ct_expires :: "instant option"

record auth_db = core_db +
  accounts :: "account list"
  sessions :: "UserSession list"
  login_fails :: "uuid \<Rightarrow> counter option"

section \<open>The failure guard\<close>

definition LOCK_THRESHOLD :: nat where "LOCK_THRESHOLD = 5"
definition LOCK_TTL :: int where "LOCK_TTL = 900 * 1000000"

text \<open>The documented reading of a key: an expired key is absent.\<close>

definition live_counter :: "instant \<Rightarrow> counter option \<Rightarrow> counter option" where
  "live_counter now c = (case c of None \<Rightarrow> None | Some k \<Rightarrow>
     (case ct_expires k of None \<Rightarrow> Some k | Some t \<Rightarrow> if now < t then Some k else None))"

definition is_locked :: "instant \<Rightarrow> uuid \<Rightarrow> 'a auth_db_scheme \<Rightarrow> bool" where
  "is_locked now uid s = (case live_counter now (login_fails s uid) of None \<Rightarrow> False
     | Some k \<Rightarrow> LOCK_THRESHOLD \<le> ct_value k)"

text \<open>\<open>INCR\<close> keeps the expiry of a live key, and starts a key without one.\<close>

definition incr_failures :: "instant \<Rightarrow> uuid \<Rightarrow> 'a auth_db_scheme \<Rightarrow> nat \<times> 'a auth_db_scheme" where
  "incr_failures now uid s = (let k = (case live_counter now (login_fails s uid) of
       None \<Rightarrow> \<lparr>ct_value = 1, ct_expires = None\<rparr> | Some k \<Rightarrow> k\<lparr>ct_value := ct_value k + 1\<rparr>) in
     (ct_value k, s\<lparr>login_fails := (login_fails s)(uid := Some k)\<rparr>))"

definition expire_failures :: "instant \<Rightarrow> uuid \<Rightarrow> 'a auth_db_scheme \<Rightarrow> 'a auth_db_scheme" where
  "expire_failures now uid s = (case live_counter now (login_fails s uid) of None \<Rightarrow> s
     | Some k \<Rightarrow> s\<lparr>login_fails := (login_fails s)(uid := Some (k\<lparr>ct_expires := Some (now + LOCK_TTL)\<rparr>))\<rparr>)"

definition record_failure :: "instant \<Rightarrow> uuid \<Rightarrow> 'a auth_db_scheme \<Rightarrow> 'a auth_db_scheme" where
  "record_failure now uid s = (case incr_failures now uid s of (n, s1) \<Rightarrow>
     if n = 1 then expire_failures now uid s1 else s1)"

definition reset_failures :: "uuid \<Rightarrow> 'a auth_db_scheme \<Rightarrow> 'a auth_db_scheme" where
  "reset_failures uid s = s\<lparr>login_fails := (login_fails s)(uid := None)\<rparr>"

text \<open>The remaining cooldown in whole seconds; none without an expiry.\<close>

definition retry_after_seconds :: "instant \<Rightarrow> uuid \<Rightarrow> 'a auth_db_scheme \<Rightarrow> int option" where
  "retry_after_seconds now uid s = (case live_counter now (login_fails s uid) of None \<Rightarrow> None | Some k \<Rightarrow>
     if ct_value k < LOCK_THRESHOLD then None
     else case ct_expires k of None \<Rightarrow> None | Some t \<Rightarrow>
     let ttl = (t - now + 500000) div 1000000 in if ttl \<le> 0 then None else Some ttl)"

datatype session_error =
    AuthenticationRequired
  | AccountNotActive
  | AccountLocked "int option"
  | SessionConflict

fun session_envelope :: "session_error \<Rightarrow> business_error" where
  "session_envelope AuthenticationRequired = Business AUTHENTICATION_REQUIRED 401 []"
| "session_envelope AccountNotActive = Business ACCOUNT_NOT_ACTIVE 403 []"
| "session_envelope (AccountLocked retry) =
     Business ErrorCode.ACCOUNT_LOCKED 429 [(''retry_after_seconds'', jopt JInt retry)]"
| "session_envelope SessionConflict = Business INTERNAL_ERROR 500 []"

definition ensure_not_locked :: "instant \<Rightarrow> uuid \<Rightarrow> 'a auth_db_scheme \<Rightarrow> session_error + unit" where
  "ensure_not_locked now uid s = (if \<not> is_locked now uid s then Inr ()
     else Inl (AccountLocked (retry_after_seconds now uid s)))"

section \<open>Sessions\<close>

definition REPLAY_ENVELOPE_PREFIX :: string where "REPLAY_ENVELOPE_PREFIX = ''replay:v1:''"
definition CHAIN_HOP_BOUND :: nat where "CHAIN_HOP_BOUND = 8"

text \<open>
  The configured service: the token digest, the password verifier and the encryption are functions of
  libraries.
\<close>

record session_config =
  sv_refresh_ttl :: int
  sv_grace :: int
  sv_crypt :: "((string \<Rightarrow> string) \<times> (string \<Rightarrow> string option)) option"
  sv_digest :: "string \<Rightarrow> string"
  sv_verify :: "string \<Rightarrow> string \<Rightarrow> bool"
  sv_guarded :: bool
  sv_access_minutes :: int

definition SessionService_init :: "session_config \<Rightarrow> unit + session_config" where
  "SessionService_init cfg = (if 0 < sv_grace cfg \<and> sv_crypt cfg = None then Inl () else Inr cfg)"

text \<open>
  The access token is the text of these claims under the server's key; the random token id \<open>jti\<close>, which
  nothing reads, is left out.
\<close>

record access_claims =
  cm_sub :: uuid
  cm_sid :: uuid
  cm_role :: Role
  cm_iat :: int
  cm_exp :: int

record SessionTokens =
  tk_access_token :: access_claims
  tk_refresh_token :: string
  tk_session_role :: "Role option"

definition access_token :: "int \<Rightarrow> account \<Rightarrow> uuid \<Rightarrow> instant \<Rightarrow> access_claims" where
  "access_token ttl_minutes u sid now = (let iat = now div 1000000 in
     \<lparr>cm_sub = au_id u, cm_sid = sid, cm_role = au_role u, cm_iat = iat, cm_exp = iat + ttl_minutes * 60\<rparr>)"

definition issue_session ::
  "session_config \<Rightarrow> instant \<Rightarrow> account \<Rightarrow> uuid \<Rightarrow> string \<Rightarrow> 'a auth_db_scheme
    \<Rightarrow> session_error + (UserSession \<times> SessionTokens \<times> 'a auth_db_scheme)" where
  "issue_session cfg now u sid secret s =
     (let row = \<lparr>us_sid = sid, us_user = au_id u, us_refresh_token_hash = sv_digest cfg secret,
        us_expires_at = now + sv_refresh_ttl cfg, us_revoked_at = None, us_replaced_by = None,
        us_replaced_at = None, us_replay_envelope = None\<rparr> in
      if sid \<in> us_sid ` set (sessions s) \<or> sv_digest cfg secret \<in> us_refresh_token_hash ` set (sessions s)
      then Inl SessionConflict
      else Inr (row, \<lparr>tk_access_token = access_token (sv_access_minutes cfg) u sid now, tk_refresh_token = secret,
          tk_session_role = Some (au_role u)\<rparr>, s\<lparr>sessions := sessions s @ [row]\<rparr>))"

definition may_sign_in :: "account \<Rightarrow> bool" where
  "may_sign_in u \<longleftrightarrow> au_status u \<in> {UserStatus.ACTIVE, PENDING_APPROVAL}"

definition PASSWORD_MIN_LENGTH :: nat where "PASSWORD_MIN_LENGTH = 10"
definition PASSWORD_MAX_LENGTH :: nat where "PASSWORD_MAX_LENGTH = 128"

definition validate_password_length :: "string \<Rightarrow> bool" where
  "validate_password_length p \<longleftrightarrow> PASSWORD_MIN_LENGTH \<le> length p \<and> length p \<le> PASSWORD_MAX_LENGTH"

text \<open>None is the \<open>ValueError\<close> of a length outside the band.\<close>

definition verify_password :: "session_config \<Rightarrow> string \<Rightarrow> string \<Rightarrow> bool option" where
  "verify_password cfg password encoded =
     (if \<not> validate_password_length password then None else Some (sv_verify cfg password encoded))"

definition password_matches :: "session_config \<Rightarrow> string \<Rightarrow> account \<Rightarrow> bool" where
  "password_matches cfg password u = (case au_password_hash u of None \<Rightarrow> False | Some h \<Rightarrow>
     (case verify_password cfg password h of None \<Rightarrow> False | Some b \<Rightarrow> b))"

text \<open>A refused login keeps the failure it recorded: the state comes back with the error.\<close>

definition login_student ::
  "session_config \<Rightarrow> instant \<Rightarrow> uuid \<Rightarrow> string \<Rightarrow> string \<Rightarrow> string \<Rightarrow> 'a auth_db_scheme
    \<Rightarrow> (session_error + SessionTokens) \<times> 'a auth_db_scheme" where
  "login_student cfg now sid secret username password s =
     (case row_of au_username (py_strip username) (accounts s) of None \<Rightarrow> (Inl AuthenticationRequired, s) | Some u \<Rightarrow>
      case (if sv_guarded cfg then ensure_not_locked now (au_id u) s else Inr ()) of Inl e \<Rightarrow> (Inl e, s) | Inr _ \<Rightarrow>
      if \<not> password_matches cfg password u
      then (Inl AuthenticationRequired, if sv_guarded cfg then record_failure now (au_id u) s else s)
      else if \<not> may_sign_in u then (Inl AccountNotActive, s)
      else if au_role u \<noteq> STUDENT then (Inl AuthenticationRequired, s)
      else case issue_session cfg now u sid secret s of Inl e \<Rightarrow> (Inl e, s) | Inr (row, tokens, s1) \<Rightarrow>
      (Inr tokens, if sv_guarded cfg then reset_failures (au_id u) s1 else s1))"

section \<open>Replay of a retired token\<close>

definition decrypt_envelope :: "session_config \<Rightarrow> UserSession \<Rightarrow> string option" where
  "decrypt_envelope cfg row = (case us_replay_envelope row of None \<Rightarrow> None | Some e \<Rightarrow>
     if e = [] then None
     else case sv_crypt cfg of None \<Rightarrow> None | Some (enc, dec) \<Rightarrow>
     case dec e of None \<Rightarrow> None | Some t \<Rightarrow>
     if take (length REPLAY_ENVELOPE_PREFIX) t \<noteq> REPLAY_ENVELOPE_PREFIX then None
     else Some (drop (length REPLAY_ENVELOPE_PREFIX) t))"

text \<open>At most the given number of hops; a walk that ends on a retired row is a refusal.\<close>

fun replay_walk :: "session_config \<Rightarrow> UserSession list \<Rightarrow> nat \<Rightarrow> UserSession \<Rightarrow> (UserSession \<times> string) option" where
  "replay_walk cfg rows 0 row = None"
| "replay_walk cfg rows (Suc n) row =
     (case decrypt_envelope cfg row of None \<Rightarrow> None | Some secret \<Rightarrow>
      case row_of us_refresh_token_hash (sv_digest cfg secret) rows of None \<Rightarrow> None | Some successor \<Rightarrow>
      if us_revoked_at successor \<noteq> None \<and> us_replaced_by successor = None then None
      else if us_replaced_by successor = None then Some (successor, secret)
      else replay_walk cfg rows n successor)"

definition stable_replay ::
  "session_config \<Rightarrow> instant \<Rightarrow> UserSession \<Rightarrow> 'a auth_db_scheme \<Rightarrow> (SessionTokens \<times> UserSession) option" where
  "stable_replay cfg now presented s =
     (if sv_grace cfg \<le> 0 \<or> us_replaced_by presented = None then None
      else case us_replaced_at presented of None \<Rightarrow> None | Some t \<Rightarrow>
      if sv_grace cfg < now - t then None
      else case replay_walk cfg (sessions s) CHAIN_HOP_BOUND presented of None \<Rightarrow> None | Some (row, secret) \<Rightarrow>
      if us_revoked_at row \<noteq> None \<or> us_replaced_by row \<noteq> None \<or> us_expires_at row \<le> now then None
      else case row_of au_id (us_user row) (accounts s) of None \<Rightarrow> None | Some u \<Rightarrow>
      if \<not> may_sign_in u then None
      else Some (\<lparr>tk_access_token = access_token (sv_access_minutes cfg) u (us_sid row) now, tk_refresh_token = secret,
        tk_session_role = Some (au_role u)\<rparr>, row))"

section \<open>Rotation\<close>

definition retired ::
  "session_config \<Rightarrow> instant \<Rightarrow> uuid \<Rightarrow> string \<Rightarrow> UserSession \<Rightarrow> UserSession" where
  "retired cfg now successor secret row = row\<lparr>us_revoked_at := Some now, us_replaced_by := Some successor,
     us_replaced_at := Some now,
     us_replay_envelope := (case sv_crypt cfg of None \<Rightarrow> us_replay_envelope row | Some (enc, dec) \<Rightarrow>
       if 0 < sv_grace cfg then Some (enc (REPLAY_ENVELOPE_PREFIX @ secret)) else us_replay_envelope row)\<rparr>"

definition put_session :: "UserSession \<Rightarrow> 'a auth_db_scheme \<Rightarrow> 'a auth_db_scheme" where
  "put_session r s = s\<lparr>sessions := update_row us_sid (us_sid r) (\<lambda>_. r) (sessions s)\<rparr>"

definition rotate_refresh ::
  "session_config \<Rightarrow> instant \<Rightarrow> uuid \<Rightarrow> string \<Rightarrow> string \<Rightarrow> 'a auth_db_scheme
    \<Rightarrow> session_error + (SessionTokens \<times> 'a auth_db_scheme)" where
  "rotate_refresh cfg now sid secret token s =
     (case row_of us_refresh_token_hash (sv_digest cfg token) (sessions s) of
        None \<Rightarrow> Inl AuthenticationRequired | Some current \<Rightarrow>
      if us_expires_at current \<le> now then Inl AuthenticationRequired
      else if us_revoked_at current \<noteq> None \<or> us_replaced_by current \<noteq> None
      then (case stable_replay cfg now current s of None \<Rightarrow> Inl AuthenticationRequired
         | Some (tokens, row) \<Rightarrow> Inr (tokens, s))
      else case row_of au_id (us_user current) (accounts s) of None \<Rightarrow> Inl AuthenticationRequired | Some u \<Rightarrow>
      if \<not> may_sign_in u then Inl AccountNotActive
      else case issue_session cfg now u sid secret s of Inl e \<Rightarrow> Inl e | Inr (row, tokens, s1) \<Rightarrow>
      Inr (tokens, put_session (retired cfg now (us_sid row) secret current) s1))"

section \<open>Revocation\<close>

text \<open>The walk of a logout has no bound: \<open>None\<close> is a walk that never returns.\<close>

partial_function (option) live_tip :: "UserSession list \<Rightarrow> UserSession \<Rightarrow> UserSession option" where
  "live_tip rows row = (case us_replaced_by row of None \<Rightarrow> Some row | Some nid \<Rightarrow>
     (case row_of us_sid nid rows of None \<Rightarrow> Some row | Some successor \<Rightarrow> live_tip rows successor))"

declare live_tip.simps [code]

definition revoke_session ::
  "session_config \<Rightarrow> instant \<Rightarrow> string \<Rightarrow> 'a auth_db_scheme \<Rightarrow> 'a auth_db_scheme option" where
  "revoke_session cfg now token s =
     (case row_of us_refresh_token_hash (sv_digest cfg token) (sessions s) of None \<Rightarrow> Some s | Some row \<Rightarrow>
      case live_tip (sessions s) row of None \<Rightarrow> None | Some tip \<Rightarrow>
      Some (if us_revoked_at tip = None then put_session (tip\<lparr>us_revoked_at := Some now\<rparr>) s else s))"

text \<open>
  One \<open>UPDATE\<close>: it sees the rows that were committed when the statement began (an argument) and applies to those that
  still satisfy its conditions.
\<close>

definition revoke_matching ::
  "(uuid \<Rightarrow> bool) \<Rightarrow> instant \<Rightarrow> uuid \<Rightarrow> uuid option \<Rightarrow> 'a auth_db_scheme \<Rightarrow> nat \<times> 'a auth_db_scheme" where
  "revoke_matching visible now uid keep s =
     (let hit = (\<lambda>r. visible (us_sid r) \<and> us_user r = uid \<and> us_revoked_at r = None \<and> keep \<noteq> Some (us_sid r)) in
      (length (filter hit (sessions s)),
       s\<lparr>sessions := map (\<lambda>r. if hit r then r\<lparr>us_revoked_at := Some now\<rparr> else r) (sessions s)\<rparr>))"

definition revoke_all :: "(uuid \<Rightarrow> bool) \<Rightarrow> instant \<Rightarrow> uuid \<Rightarrow> 'a auth_db_scheme \<Rightarrow> 'a auth_db_scheme" where
  "revoke_all visible now uid s = snd (revoke_matching visible now uid None s)"

definition revoke_all_except ::
  "(uuid \<Rightarrow> bool) \<Rightarrow> instant \<Rightarrow> uuid \<Rightarrow> uuid option \<Rightarrow> 'a auth_db_scheme \<Rightarrow> 'a auth_db_scheme" where
  "revoke_all_except visible now uid keep s = snd (revoke_matching visible now uid keep s)"

section \<open>Request authentication\<close>

definition live_session :: "instant \<Rightarrow> UserSession \<Rightarrow> bool" where
  "live_session now r \<longleftrightarrow> us_revoked_at r = None \<and> us_replaced_by r = None \<and> now < us_expires_at r"

definition find_with_live_session :: "instant \<Rightarrow> uuid \<Rightarrow> uuid \<Rightarrow> 'a auth_db_scheme \<Rightarrow> account option" where
  "find_with_live_session now uid sid s =
     (if list_ex (\<lambda>r. us_user r = uid \<and> us_sid r = sid \<and> live_session now r) (sessions s)
      then row_of au_id uid (accounts s) else None)"

end
