(* ===== verification/Session_Facts.thy ===== *)
theory Session_Facts
  imports Sessions
begin

text \<open>
  What sessions guarantee: a chain of rotations has one end, a logout or a revocation ends it for every token
  of the chain, and a replay answers with the one live generation.
\<close>

section \<open>The chain of rotations\<close>

definition crypt_ok :: "session_config \<Rightarrow> bool" where
  "crypt_ok cfg \<longleftrightarrow> (\<forall>enc dec. sv_crypt cfg = Some (enc, dec) \<longrightarrow> (\<forall>t. dec (enc t) = Some t \<and> enc t \<noteq> []))"

definition linked :: "session_config \<Rightarrow> UserSession \<Rightarrow> UserSession \<Rightarrow> bool" where
  "linked cfg r n \<longleftrightarrow> us_replaced_by r = Some (us_sid n) \<and> us_user n = us_user r \<and> us_revoked_at r \<noteq> None
     \<and> us_replaced_at r \<noteq> None
     \<and> (\<forall>secret. decrypt_envelope cfg r = Some secret \<longrightarrow> sv_digest cfg secret = us_refresh_token_hash n)"

definition sessions_inv :: "session_config \<Rightarrow> UserSession list \<Rightarrow> bool" where
  "sessions_inv cfg rows \<longleftrightarrow> distinct (map us_sid rows) \<and> distinct (map us_refresh_token_hash rows)
     \<and> (\<forall>i<length rows. us_replaced_by (rows ! i) \<noteq> None
         \<longrightarrow> (\<exists>j<length rows. i < j \<and> linked cfg (rows ! i) (rows ! j)))
     \<and> (\<forall>r\<in>set rows. us_replaced_by r = None \<longrightarrow> us_replay_envelope r = None)"

lemma row_of_nth: "distinct (map key rows) \<Longrightarrow> i < length rows \<Longrightarrow> row_of key (key (rows ! i)) rows = Some (rows ! i)"
  by (simp add: row_of_unique)

lemma inv_rows:
  assumes "sessions_inv cfg rows" "i < length rows"
  shows "row_of us_sid (us_sid (rows ! i)) rows = Some (rows ! i)"
    "row_of us_refresh_token_hash (us_refresh_token_hash (rows ! i)) rows = Some (rows ! i)"
  using assms row_of_nth [of us_sid rows i] row_of_nth [of us_refresh_token_hash rows i] by (simp_all add: sessions_inv_def)

lemma inv_same_sid:
  assumes "sessions_inv cfg rows" "r \<in> set rows" "r' \<in> set rows" "us_sid r = us_sid r'" shows "r = r'"
  using assms by (auto simp: sessions_inv_def distinct_map inj_on_def)

lemma inv_link:
  assumes "sessions_inv cfg rows" "i < length rows" "us_replaced_by (rows ! i) = Some k"
  obtains j where "i < j" "j < length rows" "linked cfg (rows ! i) (rows ! j)" "row_of us_sid k rows = Some (rows ! j)"
proof -
  obtain j where j: "j < length rows" "i < j" "linked cfg (rows ! i) (rows ! j)"
    using assms unfolding sessions_inv_def by blast
  moreover have "k = us_sid (rows ! j)" using j(3) assms(3) by (simp add: linked_def)
  ultimately show thesis using that inv_rows [OF assms(1) j(1)] by simp
qed

text \<open>The walk of a logout ends on the one row of the chain that was not replaced.\<close>

lemma tip_exists:
  assumes "sessions_inv cfg rows" "i < length rows"
  shows "\<exists>j<length rows. i \<le> j \<and> live_tip rows (rows ! i) = Some (rows ! j) \<and> us_replaced_by (rows ! j) = None
    \<and> us_user (rows ! j) = us_user (rows ! i)"
  using assms(2)
proof (induction "length rows - i" arbitrary: i rule: less_induct)
  case less
  show ?case
  proof (cases "us_replaced_by (rows ! i)")
    case None
    then have "live_tip rows (rows ! i) = Some (rows ! i)" by (simp add: live_tip.simps)
    then show ?thesis using None less.prems by blast
  next
    case (Some k)
    obtain n where n: "i < n" "n < length rows" "linked cfg (rows ! i) (rows ! n)" "row_of us_sid k rows = Some (rows ! n)"
      using inv_link [OF assms(1) less.prems Some] by blast
    obtain j where j: "j < length rows" "n \<le> j" "live_tip rows (rows ! n) = Some (rows ! j)"
      "us_replaced_by (rows ! j) = None" "us_user (rows ! j) = us_user (rows ! n)"
      using less.hyps [of n, OF diff_less_mono2] n(1,2) less.prems by blast
    have "live_tip rows (rows ! i) = live_tip rows (rows ! n)" using Some n(4) by (simp add: live_tip.simps)
    then show ?thesis using j n(1,3) by (auto simp: linked_def intro!: exI [of _ j])
  qed
qed

section \<open>Rows only move forward\<close>

text \<open>A row keeps its identity, and is frozen once it is revoked.\<close>

definition keeps :: "UserSession \<Rightarrow> UserSession \<Rightarrow> bool" where
  "keeps r r' \<longleftrightarrow> us_sid r' = us_sid r \<and> us_user r' = us_user r \<and> us_refresh_token_hash r' = us_refresh_token_hash r
     \<and> us_expires_at r' = us_expires_at r \<and> (us_revoked_at r \<noteq> None \<longrightarrow> r' = r)"

definition onward :: "UserSession list \<Rightarrow> UserSession list \<Rightarrow> bool" where
  "onward rows rows' \<longleftrightarrow> length rows \<le> length rows' \<and> (\<forall>i<length rows. keeps (rows ! i) (rows' ! i))"

lemma keeps_refl [simp]: "keeps r r" by (simp add: keeps_def)

lemma keeps_trans: "keeps a b \<Longrightarrow> keeps b c \<Longrightarrow> keeps a c"
  by (auto simp: keeps_def)

lemma onward_refl [simp]: "onward rows rows" by (simp add: onward_def)

lemma onward_trans:
  assumes "onward a b" "onward b c" shows "onward a c"
proof -
  have "keeps (a ! i) (c ! i)" if "i < length a" for i
    using assms that keeps_trans [of "a ! i" "b ! i" "c ! i"] by (auto simp: onward_def)
  then show ?thesis using assms by (auto simp: onward_def)
qed

lemma onward_append [simp]: "onward rows (rows @ new)"
  by (simp add: onward_def nth_append)

lemma onward_map: "(\<And>r. r \<in> set rows \<Longrightarrow> keeps r (f r)) \<Longrightarrow> onward rows (map f rows)"
  by (simp add: onward_def)

text \<open>The end of a chain is final once it is revoked.\<close>

definition dead_end :: "UserSession list \<Rightarrow> nat \<Rightarrow> bool" where
  "dead_end rows i \<longleftrightarrow> (\<exists>j<length rows. live_tip rows (rows ! i) = Some (rows ! j) \<and> us_revoked_at (rows ! j) \<noteq> None
     \<and> us_replaced_by (rows ! j) = None)"

lemma dead_end_step:
  assumes "sessions_inv cfg rows" "i < length rows" "us_replaced_by (rows ! i) = Some k" "row_of us_sid k rows = Some (rows ! n)"
  shows "dead_end rows i \<longleftrightarrow> dead_end rows n"
  using assms(3,4) by (simp add: dead_end_def live_tip.simps [of rows "rows ! i"])

lemma dead_end_tip:
  assumes "us_replaced_by (rows ! i) = None" "i < length rows"
  shows "dead_end rows i \<longleftrightarrow> us_revoked_at (rows ! i) \<noteq> None"
  using assms by (auto simp: dead_end_def live_tip.simps [of rows "rows ! i"])

text \<open>Two rows of one chain stay on one chain.\<close>

lemma tip_onward:
  assumes "sessions_inv cfg rows" "sessions_inv cfg rows'" "onward rows rows'" "i < length rows"
    and "live_tip rows (rows ! i) = Some (rows ! j)" "j < length rows"
  shows "live_tip rows' (rows' ! i) = live_tip rows' (rows' ! j)"
  using assms(4,5)
proof (induction "length rows - i" arbitrary: i rule: less_induct)
  case less
  show ?case
  proof (cases "us_replaced_by (rows ! i)")
    case None
    then have "rows ! i = rows ! j" using less.prems(2) by (simp add: live_tip.simps)
    then have "i = j" using assms(1,6) less.prems(1) nth_eq_iff_index_eq [OF distinct_rows, of us_sid rows i j]
      by (simp add: sessions_inv_def)
    then show ?thesis by simp
  next
    case (Some k)
    obtain n where n: "i < n" "n < length rows" "linked cfg (rows ! i) (rows ! n)" "row_of us_sid k rows = Some (rows ! n)"
      using inv_link [OF assms(1) less.prems(1) Some] by blast
    have same: "rows' ! i = rows ! i" using assms(3) less.prems(1) n(3) by (simp add: onward_def keeps_def linked_def)
    have "k = us_sid (rows ! n)" using n(3) Some by (simp add: linked_def)
    also have "\<dots> = us_sid (rows' ! n)" using assms(3) n(2) by (simp add: onward_def keeps_def)
    finally have k: "row_of us_sid k rows' = Some (rows' ! n)" using inv_rows [OF assms(2), of n] assms(3) n(2) by (simp add: onward_def)
    have "live_tip rows (rows ! n) = Some (rows ! j)" using less.prems(2) Some n(4) by (simp add: live_tip.simps [of rows "rows ! i"])
    then have "live_tip rows' (rows' ! n) = live_tip rows' (rows' ! j)"
      using less.hyps [of n, OF diff_less_mono2] n(1,2) less.prems(1) by blast
    then show ?thesis using Some same k by (simp add: live_tip.simps [of rows' "rows ! i"])
  qed
qed

lemma dead_end_onward:
  assumes "sessions_inv cfg rows" "sessions_inv cfg rows'" "onward rows rows'" "i < length rows" "dead_end rows i"
  shows "dead_end rows' i"
proof -
  obtain j where j: "j < length rows" "live_tip rows (rows ! i) = Some (rows ! j)" "us_revoked_at (rows ! j) \<noteq> None"
    "us_replaced_by (rows ! j) = None"
    using assms(5) by (auto simp: dead_end_def)
  have "rows' ! j = rows ! j" "j < length rows'" using assms(3) j(1,3) by (auto simp: onward_def keeps_def)
  then show ?thesis using tip_onward [OF assms(1-4) j(2,1)] j(3,4) by (auto simp: dead_end_def live_tip.simps [of rows' "rows ! j"])
qed

section \<open>A dead chain answers nobody\<close>

lemma walk_dead:
  assumes "sessions_inv cfg rows" "i < length rows" "dead_end rows i" "us_replaced_by (rows ! i) \<noteq> None"
  shows "replay_walk cfg rows n (rows ! i) = None"
  using assms(2-4)
proof (induction n arbitrary: i)
  case (Suc n)
  obtain k where k: "us_replaced_by (rows ! i) = Some k" using Suc.prems(3) by blast
  obtain m where m: "m < length rows" "linked cfg (rows ! i) (rows ! m)" "row_of us_sid k rows = Some (rows ! m)"
    using inv_link [OF assms(1) Suc.prems(1) k] by blast
  have dead: "dead_end rows m" using dead_end_step [OF assms(1) Suc.prems(1) k m(3)] Suc.prems(2) by blast
  show ?case
  proof (cases "decrypt_envelope cfg (rows ! i)")
    case (Some secret)
    then have "row_of us_refresh_token_hash (sv_digest cfg secret) rows = Some (rows ! m)"
      using m(2) inv_rows(2) [OF assms(1) m(1)] by (simp add: linked_def)
    moreover have "us_replaced_by (rows ! m) = None \<Longrightarrow> us_revoked_at (rows ! m) \<noteq> None"
      using dead dead_end_tip m(1) by blast
    moreover have "us_replaced_by (rows ! m) \<noteq> None \<Longrightarrow> replay_walk cfg rows n (rows ! m) = None"
      using Suc.IH [OF m(1) dead] .
    ultimately show ?thesis using Some by auto
  qed simp
qed simp

lemma dead_rotation_fails:
  assumes "sessions_inv cfg (sessions s)" "i < length (sessions s)" "dead_end (sessions s) i"
    and "sv_digest cfg token = us_refresh_token_hash (sessions s ! i)"
  shows "rotate_refresh cfg now sid secret token s = Inl AuthenticationRequired"
proof -
  let ?r = "sessions s ! i"
  have row: "row_of us_refresh_token_hash (sv_digest cfg token) (sessions s) = Some ?r"
    unfolding assms(4) by (rule inv_rows(2) [OF assms(1,2)])
  have closed: "us_revoked_at ?r \<noteq> None \<or> us_replaced_by ?r \<noteq> None"
    using dead_end_tip [of "sessions s" i] assms(2,3) by blast
  have "stable_replay cfg now ?r s = None"
  proof (cases "us_replaced_by ?r = None")
    case False
    then have "replay_walk cfg (sessions s) CHAIN_HOP_BOUND ?r = None" using walk_dead [OF assms(1-3)] by blast
    then show ?thesis by (simp add: stable_replay_def split: option.split)
  qed (simp add: stable_replay_def)
  then show ?thesis using row closed by (simp add: rotate_refresh_def)
qed

lemma dead_not_live:
  assumes "sessions_inv cfg (sessions s)" "i < length (sessions s)" "dead_end (sessions s) i"
  shows "find_with_live_session now uid (us_sid (sessions s ! i)) s = None"
proof -
  have "\<not> live_session now (sessions s ! i)"
    using dead_end_tip [of "sessions s" i] assms(2,3) by (auto simp: live_session_def)
  moreover have "r = sessions s ! i" if "r \<in> set (sessions s)" "us_sid r = us_sid (sessions s ! i)" for r
    by (rule inv_same_sid [OF assms(1) that(1) nth_mem [OF assms(2)] that(2)])
  ultimately show ?thesis by (auto simp: find_with_live_session_def list_ex_iff)
qed

section \<open>The operations keep the chain\<close>

definition same_handle :: "UserSession \<Rightarrow> UserSession \<Rightarrow> bool" where
  "same_handle r r' \<longleftrightarrow> us_sid r' = us_sid r \<and> us_user r' = us_user r \<and> us_refresh_token_hash r' = us_refresh_token_hash r"

lemma linked_handle: "same_handle n n' \<Longrightarrow> linked cfg r n' = linked cfg r n"
  by (auto simp: linked_def same_handle_def)

lemma inv_append:
  assumes "sessions_inv cfg rows" "us_sid r \<notin> us_sid ` set rows"
    "us_refresh_token_hash r \<notin> us_refresh_token_hash ` set rows" "us_replaced_by r = None" "us_replay_envelope r = None"
  shows "sessions_inv cfg (rows @ [r])"
proof -
  have "\<exists>j<length (rows @ [r]). i < j \<and> linked cfg ((rows @ [r]) ! i) ((rows @ [r]) ! j)"
    if i: "i < length (rows @ [r])" "us_replaced_by ((rows @ [r]) ! i) \<noteq> None" for i
  proof -
    have "i < length rows" using i assms(4) by (cases "i = length rows") auto
    moreover from this obtain j where "j < length rows" "i < j" "linked cfg (rows ! i) (rows ! j)"
      using i(2) assms(1) unfolding sessions_inv_def by (auto simp: nth_append)
    ultimately show ?thesis by (auto simp: nth_append intro!: exI [of _ j])
  qed
  then show ?thesis using assms by (auto simp: sessions_inv_def)
qed

lemma inv_update:
  assumes inv: "sessions_inv cfg rows" and i: "i < length rows" "same_handle (rows ! i) r"
    and free: "us_replaced_by r = None \<Longrightarrow> us_replay_envelope r = None"
    and link: "us_replaced_by r \<noteq> None \<Longrightarrow> \<exists>j<length rows. i < j \<and> linked cfg r (rows ! j)"
  shows "sessions_inv cfg (rows[i := r])"
proof -
  have key: "map us_sid (rows[i := r]) = map us_sid rows" "map us_refresh_token_hash (rows[i := r]) = map us_refresh_token_hash rows"
    using i by (simp_all add: map_update same_handle_def list_update_same_conv)
  have handle: "same_handle (rows ! j) (rows[i := r] ! j)" if "j < length rows" for j
    using i(2) that by (cases "j = i") (simp_all add: same_handle_def)
  have "\<exists>j<length rows. k < j \<and> linked cfg (rows[i := r] ! k) (rows[i := r] ! j)"
    if k: "k < length rows" "us_replaced_by (rows[i := r] ! k) \<noteq> None" for k
  proof -
    have "\<exists>j<length rows. k < j \<and> linked cfg (rows[i := r] ! k) (rows ! j)"
    proof (cases "k = i")
      case True then show ?thesis using link k i(1) by simp
    next
      case False then show ?thesis using inv k by (simp add: sessions_inv_def)
    qed
    then show ?thesis using handle linked_handle by blast
  qed
  moreover have "us_replay_envelope x = None" if "x \<in> set (rows[i := r])" "us_replaced_by x = None" for x
    using that set_update_subset_insert [of rows i r] free inv by (auto simp: sessions_inv_def)
  ultimately show ?thesis using inv key by (simp add: sessions_inv_def)
qed

lemma inv_map:
  assumes inv: "sessions_inv cfg rows"
    and f: "\<And>r. us_sid (f r) = us_sid r" "\<And>r. us_refresh_token_hash (f r) = us_refresh_token_hash r"
      "\<And>r. us_replaced_by (f r) = us_replaced_by r" "\<And>r. us_replay_envelope (f r) = us_replay_envelope r"
    and link: "\<And>r n. linked cfg r n \<Longrightarrow> linked cfg (f r) (f n)"
  shows "sessions_inv cfg (map f rows)"
proof -
  have "\<exists>j<length (map f rows). i < j \<and> linked cfg (map f rows ! i) (map f rows ! j)"
    if i: "i < length (map f rows)" "us_replaced_by (map f rows ! i) \<noteq> None" for i
  proof -
    obtain j where "j < length rows" "i < j" "linked cfg (rows ! i) (rows ! j)"
      using inv i f(3) unfolding sessions_inv_def by auto
    then show ?thesis using link i(1) by (auto intro!: exI [of _ j])
  qed
  then show ?thesis using inv f(4) unfolding sessions_inv_def by (simp add: comp_def f(1-3))
qed

lemma inv_revoke:
  assumes inv: "sessions_inv cfg rows"
  shows "sessions_inv cfg (map (\<lambda>r. if hit r then r\<lparr>us_revoked_at := Some now\<rparr> else r) rows)"
  by (rule inv_map [OF inv]) (auto simp: linked_def decrypt_envelope_def)

lemma sessions_put:
  assumes "sessions_inv cfg (sessions s)" "i < length (sessions s)" "us_sid r = us_sid (sessions s ! i)"
  shows "sessions (put_session r s) = (sessions s)[i := r]"
proof (rule nth_equalityI)
  fix k assume "k < length (sessions (put_session r s))"
  then have k: "k < length (sessions s)" by (simp add: put_session_def update_row_def)
  have "us_sid (sessions s ! k) = us_sid r \<longleftrightarrow> k = i"
    using assms k nth_eq_iff_index_eq [of "map us_sid (sessions s)" k i] by (simp add: sessions_inv_def)
  then show "sessions (put_session r s) ! k = (sessions s)[i := r] ! k"
    using k assms(2) by (auto simp: put_session_def update_row_def)
qed (simp add: put_session_def update_row_def)

lemma issue_Inr:
  assumes "issue_session cfg now u sid secret s = Inr (row, tokens, s')" "sessions_inv cfg (sessions s)"
  shows "sessions s' = sessions s @ [row]" "us_sid row = sid" "us_user row = au_id u" "us_refresh_token_hash row = sv_digest cfg secret"
    "us_revoked_at row = None" "us_replaced_by row = None" "us_expires_at row = now + sv_refresh_ttl cfg"
    "tokens = \<lparr>tk_access_token = access_token (sv_access_minutes cfg) u sid now, tk_refresh_token = secret, tk_session_role = Some (au_role u)\<rparr>"
    "sid \<notin> us_sid ` set (sessions s)" "accounts s' = accounts s" "login_fails s' = login_fails s"
    "sessions_inv cfg (sessions s')"
proof -
  show facts: "sessions s' = sessions s @ [row]" "us_sid row = sid" "us_user row = au_id u" "us_refresh_token_hash row = sv_digest cfg secret"
    "us_revoked_at row = None" "us_replaced_by row = None" "us_expires_at row = now + sv_refresh_ttl cfg"
    "tokens = \<lparr>tk_access_token = access_token (sv_access_minutes cfg) u sid now, tk_refresh_token = secret, tk_session_role = Some (au_role u)\<rparr>"
    "sid \<notin> us_sid ` set (sessions s)" "accounts s' = accounts s" "login_fails s' = login_fails s"
    using assms(1) by (auto simp: issue_session_def Let_def split: if_splits)
  have "us_replay_envelope row = None" "us_refresh_token_hash row \<notin> us_refresh_token_hash ` set (sessions s)"
    using assms(1) by (auto simp: issue_session_def Let_def split: if_splits)
  then show "sessions_inv cfg (sessions s')" unfolding facts(1)
    by (intro inv_append [OF assms(2)]) (use facts in simp_all)
qed

lemma revoke_rows:
  "sessions (snd (revoke_matching visible now uid keep s)) = map (\<lambda>r. if visible (us_sid r) \<and> us_user r = uid
     \<and> us_revoked_at r = None \<and> keep \<noteq> Some (us_sid r) then r\<lparr>us_revoked_at := Some now\<rparr> else r) (sessions s)"
  by (simp add: revoke_matching_def Let_def)

lemma revoke_ok:
  assumes "sessions_inv cfg (sessions s)"
  shows "sessions_inv cfg (sessions (snd (revoke_matching visible now uid keep s)))
    \<and> onward (sessions s) (sessions (snd (revoke_matching visible now uid keep s)))"
  unfolding revoke_rows using inv_revoke [OF assms] by (auto intro!: onward_map simp: keeps_def)

lemma onward_update: "i < length rows \<Longrightarrow> keeps (rows ! i) r \<Longrightarrow> onward rows (rows[i := r])"
  by (auto simp: onward_def nth_list_update)

lemma retired_linked:
  assumes "crypt_ok cfg" "us_replay_envelope r = None" "us_sid n = sid" "us_user n = us_user r"
    "us_refresh_token_hash n = sv_digest cfg secret"
  shows "linked cfg (retired cfg now sid secret r) n"
proof -
  have "sv_digest cfg t = sv_digest cfg secret" if "decrypt_envelope cfg (retired cfg now sid secret r) = Some t" for t
    using that assms(1,2) by (auto simp: decrypt_envelope_def retired_def crypt_ok_def REPLAY_ENVELOPE_PREFIX_def
        split: option.splits if_splits prod.splits)
  then show ?thesis using assms(3-5) by (simp add: linked_def retired_def)
qed

text \<open>The two ways a rotation succeeds.\<close>

lemma rotate_Inr:
  assumes "rotate_refresh cfg now sid secret token s = Inr (tokens, s')" "sessions_inv cfg (sessions s)" "crypt_ok cfg"
  obtains (replay) i row where "i < length (sessions s)" "us_refresh_token_hash (sessions s ! i) = sv_digest cfg token"
      "us_replaced_by (sessions s ! i) \<noteq> None" "stable_replay cfg now (sessions s ! i) s = Some (tokens, row)" "s' = s"
  | (fresh) i u row where "i < length (sessions s)" "us_refresh_token_hash (sessions s ! i) = sv_digest cfg token"
      "us_revoked_at (sessions s ! i) = None" "us_replaced_by (sessions s ! i) = None" "now < us_expires_at (sessions s ! i)"
      "row_of au_id (us_user (sessions s ! i)) (accounts s) = Some u" "may_sign_in u"
      "sessions s' = (sessions s @ [row])[i := retired cfg now sid secret (sessions s ! i)]" "accounts s' = accounts s"
      "us_sid row = sid" "us_user row = us_user (sessions s ! i)" "us_refresh_token_hash row = sv_digest cfg secret"
      "us_revoked_at row = None" "us_replaced_by row = None" "us_expires_at row = now + sv_refresh_ttl cfg"
      "tokens = \<lparr>tk_access_token = access_token (sv_access_minutes cfg) u sid now, tk_refresh_token = secret, tk_session_role = Some (au_role u)\<rparr>"
      "sid \<notin> us_sid ` set (sessions s)" "sessions_inv cfg (sessions s')" "login_fails s' = login_fails s"
proof -
  obtain current where row: "row_of us_refresh_token_hash (sv_digest cfg token) (sessions s) = Some current"
    using assms(1) by (auto simp: rotate_refresh_def split: option.splits)
  obtain i where i: "i < length (sessions s)" "sessions s ! i = current"
    using row_of_SomeD [OF row] by (metis in_set_conv_nth)
  have hash: "us_refresh_token_hash current = sv_digest cfg token" using row_of_SomeD [OF row] by simp
  show thesis
  proof (cases "us_revoked_at current \<noteq> None \<or> us_replaced_by current \<noteq> None")
    case True
    then obtain n where n: "stable_replay cfg now current s = Some (tokens, n)" "s' = s"
      using assms(1) row by (auto simp: rotate_refresh_def split: option.splits if_splits)
    then have "us_replaced_by current \<noteq> None" by (auto simp: stable_replay_def split: if_splits)
    then show thesis using replay [of i n] i hash n by simp
  next
    case False
    then obtain u n t s1 where u: "row_of au_id (us_user current) (accounts s) = Some u" "may_sign_in u" "now < us_expires_at current"
      and iss: "issue_session cfg now u sid secret s = Inr (n, tokens, s1)"
      and s': "s' = put_session (retired cfg now (us_sid n) secret current) s1"
      using assms(1) row by (auto simp: rotate_refresh_def split: option.splits if_splits sum.splits)
    note I = issue_Inr [OF iss assms(2)]
    have uid: "au_id u = us_user current" using row_of_SomeD [OF u(1)] by simp
    have i1: "i < length (sessions s1)" "sessions s1 ! i = current" using i I(1) by (simp_all add: nth_append)
    have same: "us_sid (retired cfg now (us_sid n) secret current) = us_sid (sessions s1 ! i)"
      using i1 by (simp add: retired_def)
    have rows: "sessions s' = (sessions s @ [n])[i := retired cfg now sid secret current]"
      using sessions_put [OF I(12) i1(1) same] I(1,2) s' by simp
    have env: "us_replay_envelope current = None" using assms(2) False i nth_mem [OF i(1)] by (auto simp: sessions_inv_def)
    have "linked cfg (retired cfg now sid secret current) n"
      by (rule retired_linked [OF assms(3) env]) (use I uid in simp_all)
    then have "\<exists>j<length (sessions s @ [n]). i < j \<and> linked cfg (retired cfg now sid secret current) ((sessions s @ [n]) ! j)"
      using i(1) by (intro exI [of _ "length (sessions s)"]) simp
    then have "sessions_inv cfg (sessions s')" unfolding rows
      by (intro inv_update) (use I(1,12) i1 i in \<open>auto simp: same_handle_def retired_def nth_append\<close>)
    then show thesis using fresh [of i u n] i hash u uid rows I False s' by (simp add: put_session_def)
  qed
qed

lemma rotate_ok:
  assumes "rotate_refresh cfg now sid secret token s = Inr (tokens, s')" "sessions_inv cfg (sessions s)" "crypt_ok cfg"
  shows "sessions_inv cfg (sessions s') \<and> onward (sessions s) (sessions s')"
  using assms
proof (cases rule: rotate_Inr)
  case (fresh i u row)
  have "onward (sessions s @ [row]) (sessions s')" unfolding fresh(8)
    by (rule onward_update) (use fresh(1,3) in \<open>auto simp: nth_append keeps_def retired_def\<close>)
  then show ?thesis using onward_trans [OF onward_append] fresh by blast
qed (use assms(2) in simp)

text \<open>A logout returns, and closes the end of the chain of the row it was called with.\<close>

lemma logout_rows:
  assumes "sessions_inv cfg (sessions s)"
  obtains "row_of us_refresh_token_hash (sv_digest cfg token) (sessions s) = None" "revoke_session cfg now token s = Some s"
  | i j where "i < length (sessions s)" "us_refresh_token_hash (sessions s ! i) = sv_digest cfg token" "j < length (sessions s)"
      "live_tip (sessions s) (sessions s ! i) = Some (sessions s ! j)" "us_replaced_by (sessions s ! j) = None"
      "revoke_session cfg now token s = Some (if us_revoked_at (sessions s ! j) = None
         then put_session ((sessions s ! j)\<lparr>us_revoked_at := Some now\<rparr>) s else s)"
proof (cases "row_of us_refresh_token_hash (sv_digest cfg token) (sessions s)")
  case None then show thesis using that(1) by (simp add: revoke_session_def)
next
  case (Some row)
  obtain i where i: "i < length (sessions s)" "sessions s ! i = row" using row_of_SomeD [OF Some] by (metis in_set_conv_nth)
  obtain j where j: "j < length (sessions s)" "live_tip (sessions s) (sessions s ! i) = Some (sessions s ! j)"
    "us_replaced_by (sessions s ! j) = None"
    using tip_exists [OF assms i(1)] by blast
  then show thesis using that(2) [of i j] i Some row_of_SomeD [OF Some] by (simp add: revoke_session_def)
qed

lemma logout_ok:
  assumes "revoke_session cfg now token s = Some s'" "sessions_inv cfg (sessions s)"
  shows "sessions_inv cfg (sessions s') \<and> onward (sessions s) (sessions s')"
  using assms(2)
proof (cases rule: logout_rows [where token = token and now = now])
  case (2 i j)
  let ?r = "(sessions s ! j)\<lparr>us_revoked_at := Some now\<rparr>"
  show ?thesis
  proof (cases "us_revoked_at (sessions s ! j) = None")
    case True
    then have s': "sessions s' = (sessions s)[j := ?r]" using assms(1) 2(6) sessions_put [OF assms(2) 2(3), of ?r] by simp
    have "sessions_inv cfg (sessions s')" unfolding s'
      by (rule inv_update [OF assms(2) 2(3)]) (use 2(3,5) assms(2) in \<open>auto simp: same_handle_def sessions_inv_def\<close>)
    moreover have "onward (sessions s) (sessions s')" unfolding s'
      by (rule onward_update [OF 2(3)]) (use True in \<open>simp add: keeps_def\<close>)
    ultimately show ?thesis by blast
  next
    case False then have "s' = s" using assms(1) 2(6) by auto
    then show ?thesis using assms(2) by simp
  qed
qed (use assms in simp)

section \<open>The session system\<close>

text \<open>
  Everything that happens to sessions: the student login, the other doors that issue one, rotation, logout,
  revocation by whatever statement, and any change of accounts and counters.
\<close>

inductive session_step :: "session_config \<Rightarrow> auth_db \<Rightarrow> auth_db \<Rightarrow> bool" for cfg where
  login: "login_student cfg now sid secret username password s = (res, s') \<Longrightarrow> session_step cfg s s'"
| door: "issue_session cfg now u sid secret s = Inr (row, tokens, s') \<Longrightarrow> session_step cfg s s'"
| rotate: "rotate_refresh cfg now sid secret token s = Inr (tokens, s') \<Longrightarrow> session_step cfg s s'"
| logout: "revoke_session cfg now token s = Some s' \<Longrightarrow> session_step cfg s s'"
| revoke: "session_step cfg s (snd (revoke_matching visible now uid keep s))"
| elsewhere: "sessions s' = sessions s \<Longrightarrow> session_step cfg s s'"

lemma failure_rows [simp]:
  "sessions (record_failure now uid s) = sessions s" "accounts (record_failure now uid s) = accounts s"
  "sessions (reset_failures uid s) = sessions s" "accounts (reset_failures uid s) = accounts s"
  by (simp_all add: record_failure_def incr_failures_def expire_failures_def reset_failures_def Let_def split: option.split)

lemma login_rows:
  assumes "login_student cfg now sid secret username password s = (res, s')"
  obtains "sessions s' = sessions s" "\<not> ok res"
  | u row tokens s1 where "issue_session cfg now u sid secret s = Inr (row, tokens, s1)" "sessions s' = sessions s1"
      "res = Inr tokens"
  using assms unfolding login_student_def
  by (auto split: option.splits if_splits sum.splits)

lemma session_step_ok:
  assumes "session_step cfg s s'" "sessions_inv cfg (sessions s)" "crypt_ok cfg"
  shows "sessions_inv cfg (sessions s') \<and> onward (sessions s) (sessions s')"
  using assms
proof (induction rule: session_step.induct)
  case (login now sid secret username password s res s')
  from login.hyps show ?case
  proof (cases rule: login_rows)
    case (2 u row tokens s1)
    show ?thesis using issue_Inr(1,12) [OF 2(1) login.prems(1)] 2(2) by simp
  qed (use login.prems in simp)
next
  case (door now u sid secret s row tokens s')
  show ?case using issue_Inr(1,12) [OF door.hyps door.prems(1)] by simp
next
  case (rotate now sid secret token s tokens s')
  show ?case by (rule rotate_ok [OF rotate.hyps rotate.prems])
next
  case (logout now token s s')
  show ?case by (rule logout_ok [OF logout.hyps logout.prems(1)])
next
  case (revoke s visible now uid keep)
  show ?case by (rule revoke_ok [OF revoke.prems(1)])
qed simp

lemma session_run_ok:
  assumes "(session_step cfg)\<^sup>*\<^sup>* s s'" "sessions_inv cfg (sessions s)" "crypt_ok cfg"
  shows "sessions_inv cfg (sessions s') \<and> onward (sessions s) (sessions s')"
  using assms(1)
proof (induction rule: rtranclp_induct)
  case (step y z)
  then show ?case using session_step_ok [OF step.hyps(2)] assms(3) onward_trans by blast
qed (use assms in simp)

lemma empty_inv: "sessions s = [] \<Longrightarrow> sessions_inv cfg (sessions s)"
  by (simp add: sessions_inv_def)

text \<open>Once a chain has a dead end no token of it does anything, now or later.\<close>

lemma dead_forever:
  assumes "sessions_inv cfg (sessions s)" "crypt_ok cfg" "r \<in> set (sessions s)"
    and "\<And>i. i < length (sessions s) \<Longrightarrow> sessions s ! i = r \<Longrightarrow> dead_end (sessions s) i"
    and "(session_step cfg)\<^sup>*\<^sup>* s s'" "sv_digest cfg token = us_refresh_token_hash r"
  shows "rotate_refresh cfg now sid secret token s' = Inl AuthenticationRequired \<and> find_with_live_session now uid (us_sid r) s' = None"
proof -
  obtain i where i: "i < length (sessions s)" "sessions s ! i = r" using assms(3) by (metis in_set_conv_nth)
  have run: "sessions_inv cfg (sessions s')" "onward (sessions s) (sessions s')" using session_run_ok [OF assms(5,1,2)] by blast+
  have i': "i < length (sessions s')" "keeps r (sessions s' ! i)" using run(2) i by (auto simp: onward_def)
  have dead: "dead_end (sessions s') i" by (rule dead_end_onward [OF assms(1) run i(1) assms(4) [OF i]])
  have "sv_digest cfg token = us_refresh_token_hash (sessions s' ! i)" "us_sid r = us_sid (sessions s' ! i)"
    using i'(2) assms(6) by (simp_all add: keeps_def)
  then show ?thesis using dead_rotation_fails [OF run(1) i'(1) dead] dead_not_live [OF run(1) i'(1) dead] by simp
qed

end
