(* ===== verification/Session_Laws.thy ===== *)
theory Session_Laws
  imports Session_Facts
begin

text \<open>
  The properties of sign-in and sessions: logout and revocation are final for whole chains, rotation answers
  with the one live generation, and two places where the code promises more than it does.
\<close>

section \<open>Logout\<close>

lemma dead_after_close:
  assumes "sessions_inv cfg rows" "sessions_inv cfg rows'" "onward rows rows'" "i < length rows" "j < length rows"
    and "live_tip rows (rows ! i) = Some (rows ! j)" "us_revoked_at (rows' ! j) \<noteq> None" "us_replaced_by (rows' ! j) = None"
  shows "dead_end rows' i"
proof -
  have "j < length rows'" using assms(3,5) by (simp add: onward_def)
  moreover have "live_tip rows' (rows' ! i) = Some (rows' ! j)"
    using tip_onward [OF assms(1-4,6,5)] assms(8) by (simp add: live_tip.simps [of rows' "rows' ! j"])
  ultimately show ?thesis using assms(7,8) unfolding dead_end_def by blast
qed

text \<open>A row, its later version and a dead end: nothing its token does works any more.\<close>

lemma closed_chain:
  assumes "sessions_inv cfg (sessions s)" "crypt_ok cfg" "i < length (sessions s)" "dead_end (sessions s) i"
    and "us_sid (sessions s ! i) = sid0" "us_refresh_token_hash (sessions s ! i) = sv_digest cfg token"
    and "(session_step cfg)\<^sup>*\<^sup>* s s'"
  shows "rotate_refresh cfg now sid secret token s' = Inl AuthenticationRequired \<and> find_with_live_session now uid sid0 s' = None"
proof -
  have "k = i" if "k < length (sessions s)" "sessions s ! k = sessions s ! i" for k
    using that assms(1,3) nth_eq_iff_index_eq [OF distinct_rows, of us_sid "sessions s" k i] by (simp add: sessions_inv_def)
  then show ?thesis
    using dead_forever [OF assms(1,2) nth_mem [OF assms(3)] _ assms(7), of token] assms(4-6) by metis
qed

text \<open>C32: A logout is final for the whole chain of rotations.  Whichever generation of the refresh token the client presents
  to log out, from then on no generation of that chain, retired or live, refreshes or replays or authenticates a
  request, whatever happens and whatever the replay window is.\<close>

theorem logout_ends_the_whole_chain:
  assumes "crypt_ok cfg" "(session_step cfg)\<^sup>*\<^sup>* s0 s" "sessions s0 = []"
    and "revoke_session cfg now token s = Some s1"
    and "row_of us_refresh_token_hash (sv_digest cfg token) (sessions s) = Some r"
    and "old \<in> set (sessions s)" "live_tip (sessions s) old = live_tip (sessions s) r"
    and "(session_step cfg)\<^sup>*\<^sup>* s1 s2" "sv_digest cfg token' = us_refresh_token_hash old"
  shows "rotate_refresh cfg later sid secret token' s2 = Inl AuthenticationRequired
    \<and> find_with_live_session later uid (us_sid old) s2 = None"
proof -
  have inv: "sessions_inv cfg (sessions s)" using session_run_ok [OF assms(2) empty_inv [OF assms(3)] assms(1)] by blast
  have after: "sessions_inv cfg (sessions s1)" "onward (sessions s) (sessions s1)" using logout_ok [OF assms(4) inv] by blast+
  obtain k where k: "k < length (sessions s)" "sessions s ! k = old" using assms(6) by (metis in_set_conv_nth)
  from inv show ?thesis
  proof (cases rule: logout_rows [where token = token and now = now])
    case 1 then show ?thesis using assms(5) by simp
  next
    case (2 i j)
    have "r = sessions s ! i" using assms(5) inv_rows(2) [OF inv 2(1)] 2(2) by simp
    then have tip: "live_tip (sessions s) (sessions s ! k) = Some (sessions s ! j)" using assms(7) 2(4) k(2) by simp
    have closed: "us_revoked_at (sessions s1 ! j) \<noteq> None \<and> us_replaced_by (sessions s1 ! j) = None"
    proof (cases "us_revoked_at (sessions s ! j) = None")
      case True
      then have "sessions s1 = (sessions s)[j := (sessions s ! j)\<lparr>us_revoked_at := Some now\<rparr>]"
        using 2(6) assms(4) sessions_put [OF inv 2(3), of "(sessions s ! j)\<lparr>us_revoked_at := Some now\<rparr>"] by simp
      then show ?thesis using 2(3,5) by simp
    next
      case False then have "s1 = s" using 2(6) assms(4) by auto
      then show ?thesis using False 2(5) by simp
    qed
    have dead: "dead_end (sessions s1) k"
      by (rule dead_after_close [OF inv after k(1) 2(3) tip conjunct1 [OF closed] conjunct2 [OF closed]])
    have k1: "k < length (sessions s1)" "us_sid (sessions s1 ! k) = us_sid old"
      "us_refresh_token_hash (sessions s1 ! k) = sv_digest cfg token'"
      using after(2) k assms(9) by (auto simp: onward_def keeps_def)
    show ?thesis by (rule closed_chain [OF after(1) assms(1) k1(1) dead k1(2,3) assms(8)])
  qed
qed

text \<open>The walk of a logout has no hop bound, and it returns in every state that the session operations can reach, however
  long the chain of rotations has grown.\<close>

theorem logout_always_returns:
  assumes "crypt_ok cfg" "(session_step cfg)\<^sup>*\<^sup>* s0 s" "sessions s0 = []"
  shows "\<exists>s'. revoke_session cfg now token s = Some s'"
proof -
  have inv: "sessions_inv cfg (sessions s)" using session_run_ok [OF assms(2) empty_inv [OF assms(3)] assms(1)] by blast
  then show ?thesis by (cases rule: logout_rows [where token = token and now = now]) auto
qed

section \<open>Revocation\<close>

text \<open>A revocation of a user's sessions that sees them all is final for every chain of that user but the one that is kept:
  no token issued before it refreshes, replays or authenticates a request afterwards.\<close>

theorem revocation_signs_out_every_other_chain:
  assumes "crypt_ok cfg" "(session_step cfg)\<^sup>*\<^sup>* s0 s" "sessions s0 = []"
    and "\<And>r. r \<in> set (sessions s) \<Longrightarrow> visible (us_sid r)"
    and "old \<in> set (sessions s)" "us_user old = uid" "live_tip (sessions s) old = Some tip" "keep \<noteq> Some (us_sid tip)"
    and "(session_step cfg)\<^sup>*\<^sup>* (revoke_all_except visible now uid keep s) s2" "sv_digest cfg token = us_refresh_token_hash old"
  shows "rotate_refresh cfg later sid secret token s2 = Inl AuthenticationRequired
    \<and> find_with_live_session later uid' (us_sid old) s2 = None"
proof -
  have inv: "sessions_inv cfg (sessions s)" using session_run_ok [OF assms(2) empty_inv [OF assms(3)] assms(1)] by blast
  define s1 where "s1 = revoke_all_except visible now uid keep s"
  have after: "sessions_inv cfg (sessions s1)" "onward (sessions s) (sessions s1)"
    using revoke_ok [OF inv, of visible now uid keep] by (simp_all add: s1_def revoke_all_except_def)
  obtain k where k: "k < length (sessions s)" "sessions s ! k = old" using assms(5) by (metis in_set_conv_nth)
  obtain j where j: "j < length (sessions s)" "live_tip (sessions s) old = Some (sessions s ! j)"
    "us_replaced_by (sessions s ! j) = None" "us_user (sessions s ! j) = uid"
    using tip_exists [OF inv k(1)] k(2) assms(6) by metis
  have tip: "sessions s ! j = tip" using j(2) assms(7) by simp
  have "us_revoked_at (sessions s1 ! j) \<noteq> None \<and> us_replaced_by (sessions s1 ! j) = None"
    using j assms(4,8) nth_mem [OF j(1)] tip by (auto simp: s1_def revoke_all_except_def revoke_rows)
  then have dead: "dead_end (sessions s1) k" using dead_after_close [OF inv after k(1) j(1)] j(2) k(2) by simp
  have k1: "k < length (sessions s1)" "us_sid (sessions s1 ! k) = us_sid old"
    "us_refresh_token_hash (sessions s1 ! k) = sv_digest cfg token"
    using after(2) k assms(10) by (auto simp: onward_def keeps_def)
  show ?thesis using closed_chain [OF after(1) assms(1) k1(1) dead k1(2,3)] assms(9) s1_def by simp
qed

text \<open>A revocation can miss a session.  Its one UPDATE does not see a row that another transaction inserts while it waits: when a
  refresh with a token of the user commits in that window, the generation it issued survives the revocation
  and authenticates requests until it expires, although a password change or reset relies on the revocation
  to end every session that was opened with the old password.\<close>

theorem revocation_misses_a_concurrent_refresh:
  assumes "crypt_ok cfg" "(session_step cfg)\<^sup>*\<^sup>* s0 s" "sessions s0 = []"
    and "rotate_refresh cfg now sid secret token s = Inr (tokens, s1)" "tk_refresh_token tokens = secret" "sv_grace cfg \<le> 0"
    and "cm_sub (tk_access_token tokens) = uid" "later < now + sv_refresh_ttl cfg"
  shows "\<exists>u. find_with_live_session later uid sid (revoke_all (\<lambda>i. i \<in> us_sid ` set (sessions s)) now uid s1) = Some u
    \<and> may_sign_in u"
proof -
  have inv: "sessions_inv cfg (sessions s)" using session_run_ok [OF assms(2) empty_inv [OF assms(3)] assms(1)] by blast
  from assms(4) inv assms(1) show ?thesis
  proof (cases rule: rotate_Inr)
    case (replay i row) then show ?thesis using assms(6) by (simp add: stable_replay_def)
  next
    case (fresh i u row)
    have u: "au_id u = us_user (sessions s ! i)" using row_of_SomeD [OF fresh(6)] by simp
    have uid: "us_user row = uid" using assms(7) fresh(11,16) u by (simp add: access_token_def Let_def)
    have "row \<in> set (sessions s1)" using fresh(1,8) by (auto simp: set_conv_nth nth_list_update intro!: exI [of _ "length (sessions s)"])
    then have "row \<in> set (sessions (revoke_all (\<lambda>i. i \<in> us_sid ` set (sessions s)) now uid s1))"
      using fresh(10,17) by (force simp: revoke_all_def revoke_rows)
    moreover have "live_session later row" using fresh(13-15) assms(8) by (simp add: live_session_def)
    ultimately have "find_with_live_session later uid sid (revoke_all (\<lambda>i. i \<in> us_sid ` set (sessions s)) now uid s1)
        = row_of au_id uid (accounts s1)"
      using fresh(10) uid by (auto simp: find_with_live_session_def list_ex_iff revoke_all_def revoke_matching_def Let_def)
    then show ?thesis using fresh(6,7,9,11) uid by auto
  qed
qed

section \<open>Rotation\<close>

lemma walk_tip:
  assumes "sessions_inv cfg rows" "i < length rows" "replay_walk cfg rows n (rows ! i) = Some (row, secret)"
  shows "live_tip rows (rows ! i) = Some row \<and> row \<in> set rows \<and> us_refresh_token_hash row = sv_digest cfg secret
    \<and> us_replaced_by row = None \<and> us_user row = us_user (rows ! i)"
  using assms(2,3)
proof (induction n arbitrary: i)
  case (Suc n)
  obtain t m where t: "decrypt_envelope cfg (rows ! i) = Some t" "row_of us_refresh_token_hash (sv_digest cfg t) rows = Some m"
    using Suc.prems(2) by (auto split: option.splits)
  have "us_replay_envelope (rows ! i) \<noteq> None" using t(1) by (auto simp: decrypt_envelope_def split: option.splits)
  then obtain k where k: "us_replaced_by (rows ! i) = Some k"
    using assms(1) nth_mem [OF Suc.prems(1)] by (auto simp: sessions_inv_def)
  obtain j where j: "j < length rows" "linked cfg (rows ! i) (rows ! j)" "row_of us_sid k rows = Some (rows ! j)"
    using inv_link [OF assms(1) Suc.prems(1) k] by blast
  have m: "m = rows ! j" using t j inv_rows(2) [OF assms(1) j(1)] by (simp add: linked_def)
  have step: "live_tip rows (rows ! i) = live_tip rows (rows ! j)" using k j(3) by (simp add: live_tip.simps)
  have user: "us_user (rows ! j) = us_user (rows ! i)" using j(2) by (simp add: linked_def)
  show ?case
  proof (cases "us_replaced_by m")
    case None
    then have "row = m" "secret = t" using Suc.prems(2) t by (auto split: if_splits)
    then show ?thesis using None m step user nth_mem [OF j(1)] row_of_SomeD [OF t(2)] live_tip.simps [of rows m] by simp
  next
    case (Some k')
    then have "replay_walk cfg rows n (rows ! j) = Some (row, secret)" using Suc.prems(2) t m by (auto split: if_splits)
    then show ?thesis using Suc.IH [OF j(1)] step user by simp
  qed
qed simp

lemma chain_revoked:
  assumes "sessions_inv cfg rows" "r \<in> set rows" "live_tip rows r = Some t" "r \<noteq> t"
  shows "us_revoked_at r \<noteq> None"
proof -
  obtain i where i: "i < length rows" "rows ! i = r" using assms(2) by (metis in_set_conv_nth)
  have "us_replaced_by r \<noteq> None" using assms(3,4) by (cases "us_replaced_by r") (simp_all add: live_tip.simps)
  then show ?thesis using assms(1) i by (auto simp: sessions_inv_def linked_def)
qed


text \<open>With the replay window off every refresh token works once: after it was rotated no later presentation of it, by anyone
  and at any time, succeeds.\<close>

theorem without_grace_a_token_rotates_once:
  assumes "crypt_ok cfg" "sv_grace cfg \<le> 0" "(session_step cfg)\<^sup>*\<^sup>* s0 s" "sessions s0 = []"
    and "rotate_refresh cfg now sid secret token s = Inr (tokens, s1)" "(session_step cfg)\<^sup>*\<^sup>* s1 s2"
  shows "rotate_refresh cfg later sid' secret' token s2 = Inl AuthenticationRequired"
proof -
  have inv: "sessions_inv cfg (sessions s)" using session_run_ok [OF assms(3) empty_inv [OF assms(4)] assms(1)] by blast
  from assms(5) inv assms(1) show ?thesis
  proof (cases rule: rotate_Inr)
    case (replay i row) then show ?thesis using assms(2) by (simp add: stable_replay_def)
  next
    case (fresh i u row)
    let ?r = "retired cfg now sid secret (sessions s ! i)"
    have run: "sessions_inv cfg (sessions s2)" "onward (sessions s1) (sessions s2)"
      using session_run_ok [OF assms(6) fresh(18) assms(1)] by blast+
    have "i < length (sessions s1)" "sessions s1 ! i = ?r" using fresh(1,8) by simp_all
    then have r: "i < length (sessions s2)" "sessions s2 ! i = ?r"
      using run(2) by (auto simp: onward_def keeps_def retired_def)
    then have "row_of us_refresh_token_hash (sv_digest cfg token) (sessions s2) = Some ?r"
      using inv_rows(2) [OF run(1) r(1)] fresh(2) by (simp add: retired_def)
    moreover have "stable_replay cfg later ?r s2 = None" using assms(2) by (simp add: stable_replay_def)
    moreover have "us_revoked_at ?r \<noteq> None" by (simp add: retired_def)
    ultimately show ?thesis by (simp add: rotate_refresh_def)
  qed
qed

section \<open>The lockout\<close>

text \<open>A counter without an expiry never dissolves; failures only raise it.\<close>

definition stuck :: "uuid \<Rightarrow> nat \<Rightarrow> 'a auth_db_scheme \<Rightarrow> bool" where
  "stuck uid n s \<longleftrightarrow> login_fails s uid = Some \<lparr>ct_value = n, ct_expires = None\<rparr>"

lemma stuck_failure: "stuck uid n s \<Longrightarrow> 0 < n \<Longrightarrow> stuck uid (Suc n) (record_failure now uid s)"
  by (simp add: stuck_def record_failure_def incr_failures_def live_counter_def Let_def)

lemma stuck_failures: "stuck uid n s \<Longrightarrow> 0 < n \<Longrightarrow> stuck uid (n + length ts) (fold (\<lambda>t. record_failure t uid) ts s)"
proof (induction ts arbitrary: s n)
  case (Cons t ts)
  show ?case using Cons.IH [OF stuck_failure [OF Cons.prems]] by simp
qed simp

text \<open>The guard can lock an account for good.  The counter is created by INCR and given its 15 minutes by a second command: when
  the worker dies between them and four more passwords are mistyped, at whatever times, then the account is refused at
  every later instant, with the right password too, and a refused login changes nothing, so no login ever
  clears the counter.\<close>

theorem interrupted_failure_locks_the_account_forever:
  assumes "live_counter now (login_fails s uid) = None" "sv_guarded cfg" "4 \<le> length ts"
    and "s' = fold (\<lambda>t. record_failure t uid) ts (snd (incr_failures now uid s))"
    and "row_of au_username (py_strip username) (accounts s') = Some u" "au_id u = uid"
  shows "login_student cfg later sid secret username password s' = (Inl (AccountLocked None), s')"
proof -
  have "stuck uid 1 (snd (incr_failures now uid s))" using assms(1) by (simp add: stuck_def incr_failures_def Let_def)
  then have "stuck uid (1 + length ts) s'" unfolding assms(4) by (rule stuck_failures) simp
  then have "ensure_not_locked later uid s' = Inl (AccountLocked None)"
    using assms(3) by (simp add: stuck_def ensure_not_locked_def is_locked_def live_counter_def LOCK_THRESHOLD_def
        retry_after_seconds_def Let_def)
  then show ?thesis using assms(2,5,6) by (simp add: login_student_def)
qed

text \<open>A counter with at least one failure that expires at a given instant.\<close>

definition timed :: "instant \<Rightarrow> uuid \<Rightarrow> 'a auth_db_scheme \<Rightarrow> bool" where
  "timed e uid s \<longleftrightarrow> (\<exists>n. login_fails s uid = Some \<lparr>ct_value = Suc n, ct_expires = Some e\<rparr>)"

lemma first_failure_timed: "live_counter now (login_fails s uid) = None \<Longrightarrow> timed (now + LOCK_TTL) uid (record_failure now uid s)"
  by (simp add: timed_def record_failure_def incr_failures_def expire_failures_def live_counter_def Let_def)

lemma later_failure_timed: "timed e uid s \<Longrightarrow> now < e \<Longrightarrow> timed e uid (record_failure now uid s)"
  by (auto simp: timed_def record_failure_def incr_failures_def expire_failures_def live_counter_def Let_def)

lemma timed_failures: "timed e uid s \<Longrightarrow> \<forall>t\<in>set ts. t < e \<Longrightarrow> timed e uid (fold (\<lambda>t. record_failure t uid) ts s)"
  by (induction ts arbitrary: s) (simp_all add: later_failure_timed)

text \<open>When no worker dies the lock dissolves: a counter that every failure has finished expires at most 15 minutes after
  the first failure of its burst, and from then on the account is not locked.\<close>

theorem finished_failures_lock_for_at_most_fifteen_minutes:
  assumes "live_counter now (login_fails s uid) = None" "\<forall>t\<in>set ts. t < now + LOCK_TTL" "now + LOCK_TTL \<le> later"
  shows "\<not> is_locked later uid (fold (\<lambda>t. record_failure t uid) (now # ts) s)"
proof -
  have "timed (now + LOCK_TTL) uid (fold (\<lambda>t. record_failure t uid) (now # ts) s)"
    using timed_failures [OF first_failure_timed [OF assms(1)] assms(2)] by simp
  then show ?thesis using assms(3) by (auto simp: timed_def is_locked_def live_counter_def)
qed

section \<open>A concrete chain\<close>

definition key_cfg :: "int \<Rightarrow> session_config" where
  "key_cfg grace = \<lparr>sv_refresh_ttl = hours 24, sv_grace = grace, sv_crypt = Some (\<lambda>t. CHR ''x'' # t, \<lambda>e. Some (tl e)),
     sv_digest = (\<lambda>t. t), sv_verify = (\<lambda>p h. p = h), sv_guarded = True, sv_access_minutes = 15\<rparr>"

definition student7 :: account where
  "student7 = \<lparr>au_id = 7, au_username = ''amy'', au_password_hash = Some ''correct horse'', au_nickname = ''Amy'',
     au_phone_e164 = None, au_email_normalized = None, au_email_verified_at = None, au_role = STUDENT,
     au_status = UserStatus.ACTIVE, au_approved_at = None, au_rejected_reason = None\<rparr>"

definition signed_out :: auth_db where
  "signed_out = \<lparr>audit_logs = [], domain_events = [], notifications = [], armed_jobs = [], ranking_jobs = [],
     accounts = [student7], sessions = [], login_fails = (\<lambda>_. None)\<rparr>"

definition generation :: "uuid \<Rightarrow> string \<Rightarrow> instant \<Rightarrow> UserSession" where
  "generation sid secret now = \<lparr>us_sid = sid, us_user = 7, us_refresh_token_hash = secret, us_expires_at = now + hours 24,
     us_revoked_at = None, us_replaced_by = None, us_replaced_at = None, us_replay_envelope = None\<rparr>"

definition once_rotated :: "int \<Rightarrow> auth_db" where
  "once_rotated grace = signed_out\<lparr>sessions := [retired (key_cfg grace) 10 2 ''b'' (generation 1 ''a'' 0), generation 2 ''b'' 10]\<rparr>"

definition tokens_b :: SessionTokens where
  "tokens_b = \<lparr>tk_access_token = access_token 15 student7 2 10, tk_refresh_token = ''b'', tk_session_role = Some STUDENT\<rparr>"

definition once_issued :: auth_db where "once_issued = signed_out\<lparr>sessions := [generation 1 ''a'' 0]\<rparr>"

lemma key_cfg_ok: "crypt_ok (key_cfg grace)"
  by (simp add: crypt_ok_def key_cfg_def)

lemmas chain_defs = key_cfg_def student7_def signed_out_def generation_def access_token_def Let_def once_issued_def once_rotated_def
  tokens_b_def may_sign_in_def hours_def minutes_def

lemma first_issue: "\<exists>row t. issue_session (key_cfg grace) 0 student7 1 ''a'' signed_out = Inr (row, t, once_issued)"
  by (simp add: issue_session_def Let_def chain_defs)

lemma first_rotation: "rotate_refresh (key_cfg grace) 10 2 ''b'' ''a'' once_issued = Inr (tokens_b, once_rotated grace)"
  by (simp add: rotate_refresh_def issue_session_def Let_def chain_defs put_session_def update_row_def retired_def)

lemma issued_run: "(session_step (key_cfg grace))\<^sup>*\<^sup>* signed_out once_issued"
  using first_issue session_step.door by (metis r_into_rtranclp)

lemma rotated_run: "(session_step (key_cfg grace))\<^sup>*\<^sup>* signed_out (once_rotated grace)"
  using issued_run session_step.rotate [OF first_rotation] by (metis rtranclp.rtrancl_into_rtrancl)

lemma no_sessions: "sessions signed_out = []" by (simp add: signed_out_def)

lemma rotated_rows:
  "row_of us_refresh_token_hash ''a'' (sessions (once_rotated grace)) = Some (retired (key_cfg grace) 10 2 ''b'' (generation 1 ''a'' 0))"
  "row_of us_refresh_token_hash ''b'' (sessions (once_rotated grace)) = Some (generation 2 ''b'' 10)"
  "row_of us_sid 2 (sessions (once_rotated grace)) = Some (generation 2 ''b'' 10)"
  "generation 2 ''b'' 10 \<in> set (sessions (once_rotated grace))" "sv_digest (key_cfg grace) t = t"
  by (simp_all add: once_rotated_def retired_def generation_def key_cfg_def)

lemma rotated_tip:
  "live_tip (sessions (once_rotated grace)) (generation 2 ''b'' 10) = Some (generation 2 ''b'' 10)"
  "live_tip (sessions (once_rotated grace)) (retired (key_cfg grace) 10 2 ''b'' (generation 1 ''a'' 0)) = Some (generation 2 ''b'' 10)"
proof -
  show tip: "live_tip (sessions (once_rotated grace)) (generation 2 ''b'' 10) = Some (generation 2 ''b'' 10)"
  proof -
    have "us_replaced_by (generation 2 ''b'' 10) = None" by (simp add: generation_def)
    then show ?thesis by (simp add: live_tip.simps [of _ "generation 2 ''b'' 10"])
  qed
  define old where "old = retired (key_cfg grace) 10 2 ''b'' (generation 1 ''a'' 0)"
  have "us_replaced_by old = Some 2" by (simp add: retired_def old_def)
  then have "live_tip (sessions (once_rotated grace)) old = Some (generation 2 ''b'' 10)"
    using tip rotated_rows(3) by (simp add: live_tip.simps [of _ old])
  then show "live_tip (sessions (once_rotated grace)) (retired (key_cfg grace) 10 2 ''b'' (generation 1 ''a'' 0)) = Some (generation 2 ''b'' 10)"
    by (simp only: old_def)
qed

text \<open>Logging out with the retired first token closes the second generation.\<close>

theorem logout_ends_the_whole_chain_witness:
  "\<exists>s1. revoke_session (key_cfg (hours 1)) 20 ''a'' (once_rotated (hours 1)) = Some s1
    \<and> rotate_refresh (key_cfg (hours 1)) 30 3 ''c'' ''b'' s1 = Inl AuthenticationRequired"
proof -
  obtain s1 where out: "revoke_session (key_cfg (hours 1)) 20 ''a'' (once_rotated (hours 1)) = Some s1"
    using rotated_rows rotated_tip by (simp add: revoke_session_def)
  have "rotate_refresh (key_cfg (hours 1)) 30 3 ''c'' ''b'' s1 = Inl AuthenticationRequired"
    using logout_ends_the_whole_chain [OF key_cfg_ok rotated_run no_sessions out, of _ "generation 2 ''b'' 10" s1 "''b''" 30 3 "''c''" 7]
      rotated_rows rotated_tip by (simp add: generation_def)
  with out show ?thesis by blast
qed

theorem logout_always_returns_witness:
  "\<exists>s'. revoke_session (key_cfg (hours 1)) 20 ''a'' (once_rotated (hours 1)) = Some s'"
  by (rule logout_always_returns [OF key_cfg_ok rotated_run no_sessions])

theorem revocation_signs_out_every_other_chain_witness:
  "rotate_refresh (key_cfg 0) 30 3 ''c'' ''b'' (revoke_all_except (\<lambda>_. True) 20 7 None (once_rotated 0)) = Inl AuthenticationRequired"
proof -
  have owner: "us_user (generation 2 ''b'' 10) = 7" "None \<noteq> Some (us_sid (generation 2 ''b'' 10))"
    "sv_digest (key_cfg 0) ''b'' = us_refresh_token_hash (generation 2 ''b'' 10)" by (simp_all add: generation_def key_cfg_def)
  from revocation_signs_out_every_other_chain [OF key_cfg_ok rotated_run no_sessions TrueI rotated_rows(4) owner(1) rotated_tip(1)
      owner(2) rtranclp.rtrancl_refl owner(3)] show ?thesis by blast
qed

theorem revocation_misses_a_concurrent_refresh_witness:
  "\<exists>u. find_with_live_session (hours 1) 7 2 (revoke_all (\<lambda>i. i \<in> us_sid ` set (sessions once_issued)) 10 7 (once_rotated 0)) = Some u"
  using revocation_misses_a_concurrent_refresh [OF key_cfg_ok issued_run no_sessions first_rotation [of 0], of 7 "hours 1"]
  by (auto simp: tokens_b_def access_token_def Let_def student7_def key_cfg_def hours_def minutes_def)


theorem without_grace_a_token_rotates_once_witness:
  "rotate_refresh (key_cfg 0) 11 3 ''c'' ''a'' (once_rotated 0) = Inl AuthenticationRequired"
proof -
  have "sv_grace (key_cfg 0) \<le> 0" by (simp add: key_cfg_def)
  from without_grace_a_token_rotates_once [OF key_cfg_ok this issued_run no_sessions first_rotation] show ?thesis by blast
qed

theorem interrupted_failure_locks_the_account_forever_witness:
  "fst (login_student (key_cfg 0) (hours 9999) 1 ''a'' ''amy'' ''correct horse''
     (fold (\<lambda>t. record_failure t 7) [1, 2, 3, 4] (snd (incr_failures 0 7 signed_out)))) = Inl (AccountLocked None)"
proof -
  define s' where "s' = fold (\<lambda>t. record_failure t 7) [1, 2, 3, 4] (snd (incr_failures 0 7 signed_out))"
  have "accounts s' = [student7]" by (simp add: s'_def incr_failures_def Let_def signed_out_def)
  moreover have "py_strip ''amy'' = ''amy''" by code_simp
  ultimately have "row_of au_username (py_strip ''amy'') (accounts s') = Some student7" by (simp add: student7_def)
  then show ?thesis
    using interrupted_failure_locks_the_account_forever [of 0 signed_out 7 "key_cfg 0" "[1, 2, 3, 4]" s' "''amy''" student7]
    by (simp add: s'_def live_counter_def signed_out_def key_cfg_def student7_def)
qed

theorem finished_failures_lock_for_at_most_fifteen_minutes_witness:
  "\<not> is_locked (hours 1) 7 (fold (\<lambda>t. record_failure t 7) [0, 1, 2, 3, 4, 5] signed_out)"
  using finished_failures_lock_for_at_most_fifteen_minutes [of 0 signed_out 7 "[1, 2, 3, 4, 5]" "hours 1"]
  by (simp add: signed_out_def live_counter_def LOCK_TTL_def hours_def minutes_def)

end
