(* ===== verification/Otp.thy ===== *)
theory Otp
  imports Sessions
begin

text \<open>
  Phone challenges (\<open>identity/otp.py\<close>): the four tables it keeps in Redis, the request with its cooldown and its
  caps, the verification as one sequence of Redis commands that other workers can interrupt, and the
  single-use proof.  The mapping of the errors to envelopes is \<open>identity/routing_common.py\<close>.
\<close>

section \<open>Vocabulary\<close>

datatype OtpPurpose = REGISTER | PHONE_CHANGE | PASSWORD_RESET | PHONE_BIND

fun purpose_value :: "OtpPurpose \<Rightarrow> string" where
  "purpose_value REGISTER = ''REGISTER''"
| "purpose_value PHONE_CHANGE = ''PHONE_CHANGE''"
| "purpose_value PASSWORD_RESET = ''PASSWORD_RESET''"
| "purpose_value PHONE_BIND = ''PHONE_BIND''"

lemma purpose_value_inj [simp]: "purpose_value p = purpose_value q \<longleftrightarrow> p = q"
  by (cases p; cases q) simp_all

record ChallengePublic =
  cp_challenge_id :: uuid
  cp_expires_at :: instant

record VerifiedPhoneToken =
  vt_token :: string
  vt_expires_at :: instant

record VerifiedPhone =
  vp_phone_e164 :: string
  vp_purpose :: "string option"

text \<open>\<open>MissingField\<close> is the \<open>KeyError\<close> of an incomplete record, \<open>SmsFailed\<close> whatever the sender raises.\<close>

datatype otp_error =
    InvalidPhone
  | ResendCooldown
  | OtpRateLimit string
  | UnknownChallenge
  | ChallengeExpired
  | TooManyAttempts
  | WrongCode nat nat
  | ChallengeAlreadyConsumed
  | InvalidToken
  | MissingField
  | SmsFailed

fun otp_envelope :: "otp_error \<Rightarrow> business_error" where
  "otp_envelope InvalidPhone = Business VALIDATION_ERROR 400 []"
| "otp_envelope (WrongCode used most) = Business OTP_CODE_INVALID 400 []"
| "otp_envelope TooManyAttempts = Business OTP_TOO_MANY_ATTEMPTS 429 []"
| "otp_envelope ChallengeExpired = Business OTP_CHALLENGE_EXPIRED 400 []"
| "otp_envelope ChallengeAlreadyConsumed = Business OTP_CHALLENGE_CONSUMED 400 []"
| "otp_envelope UnknownChallenge = Business OTP_CHALLENGE_INVALID 400 []"
| "otp_envelope InvalidToken = Business OTP_TOKEN_INVALID 400 []"
| "otp_envelope ResendCooldown = Business OTP_RESEND_COOLDOWN 429 []"
| "otp_envelope (OtpRateLimit scope) = Business RATE_LIMITED 429 []"
| "otp_envelope MissingField = Business INTERNAL_ERROR 500 []"
| "otp_envelope SmsFailed = Business INTERNAL_ERROR 500 []"

section \<open>Policy\<close>

record OtpPolicy =
  op_ttl_seconds :: int
  op_max_verify_attempts :: int
  op_resend_cooldown_seconds :: int
  op_verified_token_ttl_seconds :: int
  op_phone_hourly_request_limit :: int
  op_phone_daily_request_limit :: int
  op_ip_hourly_request_limit :: int
  op_ip_daily_request_limit :: int
  op_hmac_secret :: string
  op_default_region :: string

text \<open>The error is the name of the field that is out of bounds.\<close>

definition OtpPolicy_init :: "(string \<Rightarrow> bool) \<Rightarrow> OtpPolicy \<Rightarrow> string + OtpPolicy" where
  "OtpPolicy_init valid_region p =
     (if op_ttl_seconds p < 1 then Inl ''ttl_seconds''
      else if op_max_verify_attempts p < 1 then Inl ''max_verify_attempts''
      else if op_resend_cooldown_seconds p < 0 then Inl ''resend_cooldown_seconds''
      else if op_verified_token_ttl_seconds p < 1 then Inl ''verified_token_ttl_seconds''
      else if op_phone_hourly_request_limit p < 1 then Inl ''phone_hourly_request_limit''
      else if op_phone_daily_request_limit p < 1 then Inl ''phone_daily_request_limit''
      else if op_ip_hourly_request_limit p < 1 then Inl ''ip_hourly_request_limit''
      else if op_ip_daily_request_limit p < 1 then Inl ''ip_daily_request_limit''
      else if op_hmac_secret p = [] then Inl ''hmac_secret''
      else if \<not> valid_region (op_default_region p) then Inl ''default_region''
      else Inr p)"

text \<open>The keyed digest and the phone number library are arguments.\<close>

record otp_env =
  ov_hmac :: "string \<Rightarrow> string \<Rightarrow> string"
  ov_parse :: "string \<Rightarrow> string \<Rightarrow> string option"
  ov_is_valid :: "string \<Rightarrow> bool"
  ov_format :: "string \<Rightarrow> string"

definition seconds :: "int \<Rightarrow> int" where "seconds n = n * 1000000"

definition HOUR_SECONDS :: int where "HOUR_SECONDS = 3600"
definition DAY_SECONDS :: int where "DAY_SECONDS = 86400"
definition REDIS_TTL_GRACE_SECONDS :: int where "REDIS_TTL_GRACE_SECONDS = 600"
definition TOKEN_HASH_SALT :: string where "TOKEN_HASH_SALT = ''verified-token''"
definition RATE_KEY_PREFIX :: string where "RATE_KEY_PREFIX = ''otp:rate:''"

definition hmac_hex :: "otp_env \<Rightarrow> string \<Rightarrow> string \<Rightarrow> string \<Rightarrow> string" where
  "hmac_hex env secret salt text = ov_hmac env secret (salt @ '':'' @ text)"

definition normalize_phone :: "otp_env \<Rightarrow> string \<Rightarrow> string \<Rightarrow> otp_error + string" where
  "normalize_phone env raw region = (case ov_parse env raw region of None \<Rightarrow> Inl InvalidPhone | Some n \<Rightarrow>
     if \<not> ov_is_valid env n then Inl InvalidPhone else Inr (ov_format env n))"

section \<open>Redis\<close>

text \<open>
  A challenge is a hash whose fields can be absent: a command that writes one field creates the key when it is
  gone, and then without an expiry.
\<close>

record redis_hash =
  rh_phone :: "string option"
  rh_purpose :: "string option"
  rh_code_hash :: "string option"
  rh_salt :: "string option"
  rh_attempts :: "nat option"
  rh_created_at :: "instant option"
  rh_expires_at :: "instant option"
  rh_consumed_at :: "instant option"
  rh_key_expires :: "instant option"

definition blank_hash :: redis_hash where
  "blank_hash = \<lparr>rh_phone = None, rh_purpose = None, rh_code_hash = None, rh_salt = None, rh_attempts = None,
     rh_created_at = None, rh_expires_at = None, rh_consumed_at = None, rh_key_expires = None\<rparr>"

record token_payload =
  tp_phone :: string
  tp_purpose :: "string option"
  tp_expires_at :: instant

record 'v volatile =
  vo_value :: 'v
  vo_expires :: instant

record otp_db = auth_db +
  ot_challenges :: "uuid \<Rightarrow> redis_hash option"
  ot_cooldowns :: "string \<Rightarrow> instant volatile option"
  ot_tokens :: "string \<Rightarrow> token_payload volatile option"
  ot_rates :: "string \<Rightarrow> counter option"
  ot_sms :: "(string \<times> string) list"

text \<open>An expired key is absent for every command.\<close>

definition live_hash :: "instant \<Rightarrow> redis_hash option \<Rightarrow> redis_hash option" where
  "live_hash now h = (case h of None \<Rightarrow> None | Some r \<Rightarrow>
     (case rh_key_expires r of None \<Rightarrow> Some r | Some t \<Rightarrow> if now < t then Some r else None))"

definition live_value :: "instant \<Rightarrow> 'v volatile option \<Rightarrow> 'v option" where
  "live_value now e = (case e of None \<Rightarrow> None | Some r \<Rightarrow> if now < vo_expires r then Some (vo_value r) else None)"

definition hgetall :: "instant \<Rightarrow> uuid \<Rightarrow> 'a otp_db_scheme \<Rightarrow> redis_hash option" where
  "hgetall now cid s = live_hash now (ot_challenges s cid)"

definition hash_or_blank :: "instant \<Rightarrow> uuid \<Rightarrow> 'a otp_db_scheme \<Rightarrow> redis_hash" where
  "hash_or_blank now cid s = (case hgetall now cid s of None \<Rightarrow> blank_hash | Some h \<Rightarrow> h)"

definition put_hash :: "uuid \<Rightarrow> redis_hash \<Rightarrow> 'a otp_db_scheme \<Rightarrow> 'a otp_db_scheme" where
  "put_hash cid h s = s\<lparr>ot_challenges := (ot_challenges s)(cid := Some h)\<rparr>"

definition attempts_of :: "redis_hash \<Rightarrow> nat" where
  "attempts_of h = (case rh_attempts h of None \<Rightarrow> 0 | Some n \<Rightarrow> n)"

definition hincrby_attempts :: "instant \<Rightarrow> uuid \<Rightarrow> 'a otp_db_scheme \<Rightarrow> nat \<times> 'a otp_db_scheme" where
  "hincrby_attempts now cid s = (let h = hash_or_blank now cid s; n = attempts_of h + 1 in
     (n, put_hash cid (h\<lparr>rh_attempts := Some n\<rparr>) s))"

definition hsetnx_consumed :: "instant \<Rightarrow> instant \<Rightarrow> uuid \<Rightarrow> 'a otp_db_scheme \<Rightarrow> bool \<times> 'a otp_db_scheme" where
  "hsetnx_consumed now stamp cid s = (let h = hash_or_blank now cid s in
     if rh_consumed_at h \<noteq> None then (False, s) else (True, put_hash cid (h\<lparr>rh_consumed_at := Some stamp\<rparr>) s))"

definition hexists_code_hash :: "instant \<Rightarrow> uuid \<Rightarrow> 'a otp_db_scheme \<Rightarrow> bool" where
  "hexists_code_hash now cid s \<longleftrightarrow> (case hgetall now cid s of None \<Rightarrow> False | Some h \<Rightarrow> rh_code_hash h \<noteq> None)"

definition delete_challenge :: "uuid \<Rightarrow> 'a otp_db_scheme \<Rightarrow> 'a otp_db_scheme" where
  "delete_challenge cid s = s\<lparr>ot_challenges := (ot_challenges s)(cid := None)\<rparr>"

section \<open>Request\<close>

text \<open>\<open>INCR\<close> and \<open>EXPIRE ... NX\<close> on one counter.\<close>

definition incr_rate :: "instant \<Rightarrow> string \<Rightarrow> 'a otp_db_scheme \<Rightarrow> nat \<times> 'a otp_db_scheme" where
  "incr_rate now key s = (case live_counter now (ot_rates s key) of
     None \<Rightarrow> (1, s\<lparr>ot_rates := (ot_rates s)(key := Some \<lparr>ct_value = 1, ct_expires = None\<rparr>)\<rparr>)
   | Some k \<Rightarrow> (ct_value k + 1, s\<lparr>ot_rates := (ot_rates s)(key := Some (k\<lparr>ct_value := ct_value k + 1\<rparr>))\<rparr>))"

definition expire_rate_nx :: "instant \<Rightarrow> string \<Rightarrow> int \<Rightarrow> 'a otp_db_scheme \<Rightarrow> 'a otp_db_scheme" where
  "expire_rate_nx now key window s = (case live_counter now (ot_rates s key) of None \<Rightarrow> s | Some k \<Rightarrow>
     if ct_expires k \<noteq> None then s
     else s\<lparr>ot_rates := (ot_rates s)(key := Some (k\<lparr>ct_expires := Some (now + seconds window)\<rparr>))\<rparr>)"

definition rate_key :: "string \<Rightarrow> string \<Rightarrow> string \<Rightarrow> string" where
  "rate_key scope window subject = RATE_KEY_PREFIX @ scope @ '':'' @ window @ '':'' @ subject"

record cap =
  ca_scope :: string
  ca_window :: string
  ca_subject :: string
  ca_limit :: int
  ca_seconds :: int

definition request_caps :: "OtpPolicy \<Rightarrow> string \<Rightarrow> string \<Rightarrow> cap list" where
  "request_caps p phone ip =
     [\<lparr>ca_scope = ''phone'', ca_window = ''hourly'', ca_subject = phone,
        ca_limit = op_phone_hourly_request_limit p, ca_seconds = HOUR_SECONDS\<rparr>,
      \<lparr>ca_scope = ''phone'', ca_window = ''daily'', ca_subject = phone,
        ca_limit = op_phone_daily_request_limit p, ca_seconds = DAY_SECONDS\<rparr>,
      \<lparr>ca_scope = ''ip'', ca_window = ''hourly'', ca_subject = ip,
        ca_limit = op_ip_hourly_request_limit p, ca_seconds = HOUR_SECONDS\<rparr>,
      \<lparr>ca_scope = ''ip'', ca_window = ''daily'', ca_subject = ip,
        ca_limit = op_ip_daily_request_limit p, ca_seconds = DAY_SECONDS\<rparr>]"

definition cap_key :: "cap \<Rightarrow> string" where
  "cap_key c = rate_key (ca_scope c) (ca_window c) (ca_subject c)"

text \<open>A refused request keeps what it counted.\<close>

fun count_caps :: "instant \<Rightarrow> cap list \<Rightarrow> 'a otp_db_scheme \<Rightarrow> (otp_error + unit) \<times> 'a otp_db_scheme" where
  "count_caps now [] s = (Inr (), s)"
| "count_caps now (c # cs) s =
     (let (n, s1) = incr_rate now (cap_key c) s; s2 = expire_rate_nx now (cap_key c) (ca_seconds c) s1 in
      if ca_limit c < int n then (Inl (OtpRateLimit (ca_scope c @ ''_'' @ ca_window c)), s2) else count_caps now cs s2)"

definition require_within_caps ::
  "OtpPolicy \<Rightarrow> instant \<Rightarrow> string \<Rightarrow> string \<Rightarrow> 'a otp_db_scheme \<Rightarrow> (otp_error + unit) \<times> 'a otp_db_scheme" where
  "require_within_caps p now phone ip s = count_caps now (request_caps p phone ip) s"

definition in_cooldown :: "instant \<Rightarrow> string \<Rightarrow> 'a otp_db_scheme \<Rightarrow> bool" where
  "in_cooldown now phone s = (case live_value now (ot_cooldowns s phone) of None \<Rightarrow> False | Some t \<Rightarrow> now < t)"

definition new_challenge :: "otp_env \<Rightarrow> OtpPolicy \<Rightarrow> instant \<Rightarrow> string \<Rightarrow> OtpPurpose \<Rightarrow> string \<Rightarrow> string \<Rightarrow> redis_hash" where
  "new_challenge env p now phone purpose code salt =
     \<lparr>rh_phone = Some phone, rh_purpose = Some (purpose_value purpose),
      rh_code_hash = Some (hmac_hex env (op_hmac_secret p) salt code), rh_salt = Some salt, rh_attempts = Some 0,
      rh_created_at = Some now, rh_expires_at = Some (now + seconds (op_ttl_seconds p)), rh_consumed_at = None,
      rh_key_expires = Some (now + seconds (op_ttl_seconds p + REDIS_TTL_GRACE_SECONDS))\<rparr>"

definition put_cooldown :: "OtpPolicy \<Rightarrow> instant \<Rightarrow> string \<Rightarrow> 'a otp_db_scheme \<Rightarrow> 'a otp_db_scheme" where
  "put_cooldown p now phone s = s\<lparr>ot_cooldowns := (ot_cooldowns s)(phone := Some
     \<lparr>vo_value = now + seconds (op_resend_cooldown_seconds p),
      vo_expires = now + seconds (max 1 (op_resend_cooldown_seconds p + REDIS_TTL_GRACE_SECONDS))\<rparr>)\<rparr>"

text \<open>The challenge id, the code, the salt and whether the provider takes the message are arguments.\<close>

definition request_phone_challenge ::
  "otp_env \<Rightarrow> OtpPolicy \<Rightarrow> instant \<Rightarrow> uuid \<Rightarrow> string \<Rightarrow> string \<Rightarrow> bool \<Rightarrow> string \<Rightarrow> OtpPurpose \<Rightarrow> string
    \<Rightarrow> 'a otp_db_scheme \<Rightarrow> (otp_error + ChallengePublic) \<times> 'a otp_db_scheme" where
  "request_phone_challenge env p now cid code salt delivered raw_phone purpose ip s =
     (case normalize_phone env raw_phone (op_default_region p) of Inl e \<Rightarrow> (Inl e, s) | Inr phone \<Rightarrow>
      if in_cooldown now phone s then (Inl ResendCooldown, s)
      else case require_within_caps p now phone ip s of (Inl e, s1) \<Rightarrow> (Inl e, s1) | (Inr _, s1) \<Rightarrow>
      let s2 = put_cooldown p now phone (put_hash cid (new_challenge env p now phone purpose code salt) s1) in
      if \<not> delivered then (Inl SmsFailed, s2)
      else (Inr \<lparr>cp_challenge_id = cid, cp_expires_at = now + seconds (op_ttl_seconds p)\<rparr>,
            s2\<lparr>ot_sms := ot_sms s2 @ [(phone, code)]\<rparr>))"

section \<open>Verification\<close>

text \<open>What the record that was read says about the code.\<close>

datatype verdict = Refuse otp_error | Mismatch | Match redis_hash

definition judge_code :: "otp_env \<Rightarrow> OtpPolicy \<Rightarrow> instant \<Rightarrow> string \<Rightarrow> redis_hash option \<Rightarrow> verdict" where
  "judge_code env p now code found =
     (case found of None \<Rightarrow> Refuse UnknownChallenge | Some h \<Rightarrow>
      if rh_consumed_at h \<noteq> None then Refuse ChallengeAlreadyConsumed
      else case (rh_expires_at h, rh_code_hash h, rh_salt h) of
        (Some expires, Some stored, Some salt) \<Rightarrow>
          (if expires \<le> now then Refuse ChallengeExpired
           else if op_max_verify_attempts p \<le> int (attempts_of h) then Refuse TooManyAttempts
           else if hmac_hex env (op_hmac_secret p) salt code \<noteq> stored then Mismatch
           else Match h)
      | _ \<Rightarrow> Refuse UnknownChallenge)"

definition token_key :: "otp_env \<Rightarrow> OtpPolicy \<Rightarrow> string \<Rightarrow> string" where
  "token_key env p token = hmac_hex env (op_hmac_secret p) TOKEN_HASH_SALT token"

definition mint_token ::
  "otp_env \<Rightarrow> OtpPolicy \<Rightarrow> instant \<Rightarrow> instant \<Rightarrow> string \<Rightarrow> redis_hash \<Rightarrow> 'a otp_db_scheme
    \<Rightarrow> (otp_error + VerifiedPhoneToken) \<times> 'a otp_db_scheme" where
  "mint_token env p clock now token h s =
     (case rh_phone h of None \<Rightarrow> (Inl MissingField, s) | Some phone \<Rightarrow>
      (Inr \<lparr>vt_token = token, vt_expires_at = now + seconds (op_verified_token_ttl_seconds p)\<rparr>,
       s\<lparr>ot_tokens := (ot_tokens s)(token_key env p token := Some
         \<lparr>vo_value = \<lparr>tp_phone = phone, tp_purpose = rh_purpose h,
            tp_expires_at = now + seconds (op_verified_token_ttl_seconds p)\<rparr>,
          vo_expires = clock + seconds (op_verified_token_ttl_seconds p + REDIS_TTL_GRACE_SECONDS)\<rparr>)\<rparr>))"

text \<open>The call with nothing between its commands; a refusal keeps the attempt it counted.\<close>

definition verify_phone_challenge ::
  "otp_env \<Rightarrow> OtpPolicy \<Rightarrow> instant \<Rightarrow> string \<Rightarrow> uuid \<Rightarrow> string \<Rightarrow> 'a otp_db_scheme
    \<Rightarrow> (otp_error + VerifiedPhoneToken) \<times> 'a otp_db_scheme" where
  "verify_phone_challenge env p now token cid code s =
     (case judge_code env p now code (hgetall now cid s) of
        Refuse e \<Rightarrow> (Inl e, s)
      | Mismatch \<Rightarrow> (let (n, s1) = hincrby_attempts now cid s in (Inl (WrongCode n (nat (op_max_verify_attempts p))), s1))
      | Match h \<Rightarrow> (let (won, s1) = hsetnx_consumed now now cid s in
          if \<not> won then (Inl ChallengeAlreadyConsumed, s1)
          else if \<not> hexists_code_hash now cid s1 then (Inl ChallengeExpired, delete_challenge cid s1)
          else mint_token env p now now token h s1))"

text \<open>The same call as the Redis commands it issues, each at its own instant; \<open>vw_now\<close> is the clock read at the start.\<close>

datatype verify_pc =
    VRead | VMiss | VClaim redis_hash | VCheck redis_hash | VStub | VMint redis_hash
  | VEnd "otp_error + VerifiedPhoneToken"

record verify_call =
  vw_challenge :: uuid
  vw_code :: string
  vw_token :: string
  vw_now :: instant
  vw_pc :: verify_pc

definition verify_command ::
  "otp_env \<Rightarrow> OtpPolicy \<Rightarrow> instant \<Rightarrow> verify_call \<Rightarrow> 'a otp_db_scheme \<Rightarrow> verify_pc \<times> 'a otp_db_scheme" where
  "verify_command env p clock w s = (case vw_pc w of
       VRead \<Rightarrow> (case judge_code env p (vw_now w) (vw_code w) (hgetall clock (vw_challenge w) s) of
           Refuse e \<Rightarrow> (VEnd (Inl e), s) | Mismatch \<Rightarrow> (VMiss, s) | Match h \<Rightarrow> (VClaim h, s))
     | VMiss \<Rightarrow> (let (n, s1) = hincrby_attempts clock (vw_challenge w) s in
           (VEnd (Inl (WrongCode n (nat (op_max_verify_attempts p)))), s1))
     | VClaim h \<Rightarrow> (let (won, s1) = hsetnx_consumed clock (vw_now w) (vw_challenge w) s in
           (if won then VCheck h else VEnd (Inl ChallengeAlreadyConsumed), s1))
     | VCheck h \<Rightarrow> (if hexists_code_hash clock (vw_challenge w) s then VMint h else VStub, s)
     | VStub \<Rightarrow> (VEnd (Inl ChallengeExpired), delete_challenge (vw_challenge w) s)
     | VMint h \<Rightarrow> (let (r, s1) = mint_token env p clock (vw_now w) (vw_token w) h s in (VEnd r, s1))
     | VEnd r \<Rightarrow> (VEnd r, s))"

section \<open>The proof\<close>

definition verify_phone_token ::
  "otp_env \<Rightarrow> OtpPolicy \<Rightarrow> instant \<Rightarrow> string \<Rightarrow> 'a otp_db_scheme \<Rightarrow> (otp_error + VerifiedPhone) \<times> 'a otp_db_scheme" where
  "verify_phone_token env p now token s =
     (let key = token_key env p token; s1 = s\<lparr>ot_tokens := (ot_tokens s)(key := None)\<rparr> in
      case live_value now (ot_tokens s key) of None \<Rightarrow> (Inl InvalidToken, s1) | Some pl \<Rightarrow>
      if tp_expires_at pl \<le> now then (Inl InvalidToken, s1)
      else (Inr \<lparr>vp_phone_e164 = tp_phone pl, vp_purpose = tp_purpose pl\<rparr>, s1))"

end
