(* ===== verification/Accounts.thy ===== *)
theory Accounts
  imports Otp
begin

text \<open>
  Accounts: input validation (\<open>identity/validation.py\<close>), registration (\<open>identity/service.py\<close>), the status verbs
  of the administrator (\<open>identity/account_admin_service.py\<close>), and role changes and batches
  (\<open>identity/admin_power_service.py\<close>).
\<close>

section \<open>Errors\<close>

text \<open>
  \<open>UncaughtValueError\<close> is an exception no handler turns into an envelope; \<open>UniqueViolation\<close> an unexpected
  constraint.
\<close>

datatype identity_error =
    OtpFailure otp_error
  | SessionFailure session_error
  | InvalidInput string string
  | AuthorityRefused
  | ReasonRequired
  | PhoneAlreadyBound
  | UsernameTaken
  | AccountNotFound uuid
  | InvalidTransition string UserStatus UserStatus
  | RoleNotSwitchable
  | LastAdministrator
  | ResetLinkInvalid
  | ChallengeCodeInvalid
  | UncaughtValueError

fun status_text :: "UserStatus \<Rightarrow> string" where
  "status_text PENDING_PHONE = ''PENDING_PHONE''"
| "status_text UserStatus.ACTIVE = ''ACTIVE''"
| "status_text SUSPENDED = ''SUSPENDED''"
| "status_text BANNED = ''BANNED''"
| "status_text PENDING_APPROVAL = ''PENDING_APPROVAL''"

lemma status_text_inj [simp]: "status_text a = status_text b \<longleftrightarrow> a = b"
  by (cases a; cases b) simp_all

fun identity_envelope :: "identity_error \<Rightarrow> business_error" where
  "identity_envelope (OtpFailure e) = otp_envelope e"
| "identity_envelope (SessionFailure e) = session_envelope e"
| "identity_envelope (InvalidInput field reason) =
     Business VALIDATION_ERROR 400 [(''field'', JStr field), (''reason'', JStr reason)]"
| "identity_envelope AuthorityRefused = Business PERMISSION_DENIED 403 []"
| "identity_envelope ReasonRequired = Business VALIDATION_ERROR 400 [(''field'', JStr ''reason'')]"
| "identity_envelope PhoneAlreadyBound = Business PHONE_ALREADY_BOUND 409 []"
| "identity_envelope UsernameTaken = Business USERNAME_ALREADY_EXISTS 409 []"
| "identity_envelope (AccountNotFound uid) = Business NOT_FOUND 404 [(''user_id'', JUuid uid)]"
| "identity_envelope (InvalidTransition operation current requested) =
     Business CONFLICT 409 [(''operation'', JStr operation), (''from'', JStr (status_text current)),
       (''to'', JStr (status_text requested))]"
| "identity_envelope RoleNotSwitchable = Business VALIDATION_ERROR 400 []"
| "identity_envelope LastAdministrator = Business CONFLICT 409 []"
| "identity_envelope ResetLinkInvalid = Business OTP_TOKEN_INVALID 400 []"
| "identity_envelope ChallengeCodeInvalid = Business CHALLENGE_CODE_INVALID 400 []"
| "identity_envelope UncaughtValueError = Business INTERNAL_ERROR 500 []"

section \<open>Validation\<close>

definition STUDENT_NUMBER_DEFAULT_MIN_LEN :: nat where "STUDENT_NUMBER_DEFAULT_MIN_LEN = 6"
definition STUDENT_NUMBER_DEFAULT_MAX_LEN :: nat where "STUDENT_NUMBER_DEFAULT_MAX_LEN = 20"
definition NICKNAME_MAX_GRAPHEME_CLUSTERS :: nat where "NICKNAME_MAX_GRAPHEME_CLUSTERS = 16"
definition NICKNAME_MAX_CODE_POINTS :: nat where "NICKNAME_MAX_CODE_POINTS = 255"

definition ascii_digit :: "char \<Rightarrow> bool" where
  "ascii_digit c \<longleftrightarrow> (let n = (of_char c :: nat) in 48 \<le> n \<and> n \<le> 57)"

text \<open>The error is the text of the \<open>ValueError\<close>.\<close>

definition validate_student_number :: "string \<Rightarrow> nat \<Rightarrow> nat \<Rightarrow> string + string" where
  "validate_student_number v min_len max_len =
     (if v = [] \<or> \<not> list_all ascii_digit v
      then Inl (''student number must contain only ASCII digits 0-9 (got '' @ py_str_nat (length v) @ '' characters)'')
      else if length v < min_len \<or> max_len < length v
      then Inl (''student number must be '' @ py_str_nat min_len @ ''-'' @ py_str_nat max_len @ '' digits (got ''
        @ py_str_nat (length v) @ '')'')
      else Inr v)"

text \<open>On the code points 0 to 255 the categories starting with C are the two control blocks and the soft hyphen.\<close>

definition is_invisible :: "char \<Rightarrow> bool" where
  "is_invisible c \<longleftrightarrow> (let n = (of_char c :: nat) in n < 32 \<or> (127 \<le> n \<and> n \<le> 159) \<or> n = 173)"

text \<open>That range has no joiner and no combining mark: a character draws unless it is space.\<close>

definition is_visually_empty :: "string \<Rightarrow> bool" where
  "is_visually_empty s \<longleftrightarrow> list_all py_space s"

text \<open>The counter of grapheme clusters is a library and an argument.\<close>

definition normalize_nickname :: "(string \<Rightarrow> nat) \<Rightarrow> string \<Rightarrow> string + string" where
  "normalize_nickname graphemes v =
     (let cleaned = py_strip (filter (\<lambda>c. \<not> is_invisible c) v) in
      if cleaned = [] then Inl ''nickname must not be empty after trimming''
      else if is_visually_empty cleaned then Inl ''nickname must contain at least one visible character''
      else if NICKNAME_MAX_CODE_POINTS < length cleaned
      then Inl (''nickname must be at most '' @ py_str_nat NICKNAME_MAX_CODE_POINTS @ '' code points (got ''
        @ py_str_nat (length cleaned) @ '')'')
      else if NICKNAME_MAX_GRAPHEME_CLUSTERS < graphemes cleaned
      then Inl (''nickname must be at most '' @ py_str_nat NICKNAME_MAX_GRAPHEME_CLUSTERS @ '' grapheme clusters (got ''
        @ py_str_nat (graphemes cleaned) @ '')'')
      else Inr cleaned)"

definition validated :: "string \<Rightarrow> string + 'r \<Rightarrow> identity_error + 'r" where
  "validated field r = (case r of Inl reason \<Rightarrow> Inl (InvalidInput field reason) | Inr v \<Rightarrow> Inr v)"

definition LENGTH_MESSAGE :: string where
  "LENGTH_MESSAGE = ''password length must be '' @ py_str_nat PASSWORD_MIN_LENGTH @ ''-'' @ py_str_nat PASSWORD_MAX_LENGTH
     @ '' characters''"

definition require_usable_password :: "string \<Rightarrow> identity_error + unit" where
  "require_usable_password p = (if validate_password_length p then Inr () else Inl (InvalidInput ''password'' LENGTH_MESSAGE))"

section \<open>Lookups\<close>

definition find_by_username :: "string \<Rightarrow> 'a auth_db_scheme \<Rightarrow> account option" where
  "find_by_username name s = row_of au_username name (accounts s)"

definition find_by_phone_e164 :: "string \<Rightarrow> 'a auth_db_scheme \<Rightarrow> account option" where
  "find_by_phone_e164 phone s = row_of au_phone_e164 (Some phone) (accounts s)"

definition put_account :: "uuid \<Rightarrow> (account \<Rightarrow> account) \<Rightarrow> 'a auth_db_scheme \<Rightarrow> 'a auth_db_scheme" where
  "put_account uid f s = s\<lparr>accounts := update_row au_id uid f (accounts s)\<rparr>"

section \<open>Registration\<close>

record RegisterStudent =
  rs_student_number :: string
  rs_nickname :: "string option"
  rs_password :: "string option"
  rs_phone_token :: string

text \<open>What the service is configured with; hashing is a library.\<close>

record identity_config =
  ic_otp :: otp_env
  ic_policy :: OtpPolicy
  ic_session :: session_config
  ic_hash :: "string \<Rightarrow> string"
  ic_graphemes :: "string \<Rightarrow> nat"

definition registered :: "identity_config \<Rightarrow> uuid \<Rightarrow> string \<Rightarrow> string \<Rightarrow> string option \<Rightarrow> string \<Rightarrow> account" where
  "registered cfg uid student_number nickname password phone =
     \<lparr>au_id = uid, au_username = student_number,
      au_password_hash = (case password of None \<Rightarrow> None | Some p \<Rightarrow> if p = [] then None else Some (ic_hash cfg p)),
      au_nickname = nickname, au_phone_e164 = Some phone, au_email_normalized = None, au_email_verified_at = None,
      au_role = STUDENT, au_status = PENDING_APPROVAL, au_approved_at = None, au_rejected_reason = None\<rparr>"

text \<open>The pure checks, before the token is touched: the number and the nickname of the account to be.\<close>

definition register_checks :: "identity_config \<Rightarrow> RegisterStudent \<Rightarrow> identity_error + (string \<times> string)" where
  "register_checks cfg cmd =
     (case validated ''student_number'' (validate_student_number (rs_student_number cmd)
         STUDENT_NUMBER_DEFAULT_MIN_LEN STUDENT_NUMBER_DEFAULT_MAX_LEN) of Inl e \<Rightarrow> Inl e | Inr number \<Rightarrow>
      case (case rs_nickname cmd of None \<Rightarrow> Inr number | Some n \<Rightarrow>
          if py_strip n = [] then Inr number
          else validated ''nickname'' (normalize_nickname (ic_graphemes cfg) n)) of Inl e \<Rightarrow> Inl e | Inr nickname \<Rightarrow>
      case (case rs_password cmd of None \<Rightarrow> Inr () | Some p \<Rightarrow> if p = [] then Inr () else require_usable_password p) of
        Inl e \<Rightarrow> Inl e | Inr _ \<Rightarrow> Inr (number, nickname))"

text \<open>A refusal after the checks keeps the spent token.\<close>

definition register_student ::
  "identity_config \<Rightarrow> instant \<Rightarrow> uuid \<Rightarrow> RegisterStudent \<Rightarrow> 'a otp_db_scheme \<Rightarrow> (identity_error + account) \<times> 'a otp_db_scheme" where
  "register_student cfg now uid cmd s =
     (case register_checks cfg cmd of Inl e \<Rightarrow> (Inl e, s) | Inr (number, nickname) \<Rightarrow>
      case verify_phone_token (ic_otp cfg) (ic_policy cfg) now (rs_phone_token cmd) s of
        (Inl e, s1) \<Rightarrow> (Inl (OtpFailure e), s1)
      | (Inr v, s1) \<Rightarrow>
        if vp_purpose v \<noteq> Some (purpose_value REGISTER) then (Inl (OtpFailure InvalidToken), s1)
        else if find_by_phone_e164 (vp_phone_e164 v) s1 \<noteq> None then (Inl PhoneAlreadyBound, s1)
        else if number \<in> au_username ` set (accounts s1) then (Inl UsernameTaken, s1)
        else let u = registered cfg uid number nickname (rs_password cmd) (vp_phone_e164 v) in
          (Inr u, s1\<lparr>accounts := accounts s1 @ [u]\<rparr>))"

section \<open>Status verbs\<close>

text \<open>What a verb fixes: its label, the states it starts from, its target, its audit action and its extra columns.\<close>

record status_verb =
  sb_operation :: string
  sb_allowed_from :: "UserStatus list"
  sb_to_status :: UserStatus
  sb_action :: string
  sb_before_extras :: "(string \<times> json) list"
  sb_after_extras :: "(string \<times> json) list"
  sb_apply :: "account \<Rightarrow> account"

definition account_transition ::
  "status_verb \<Rightarrow> actor \<Rightarrow> uuid \<Rightarrow> string \<Rightarrow> audit_context option \<Rightarrow> 'a auth_db_scheme
    \<Rightarrow> identity_error + (account \<times> 'a auth_db_scheme)" where
  "account_transition verb actor uid reason ctx s =
     (if \<not> is_admin (actor_role actor) then Inl AuthorityRefused
      else if py_strip reason = [] then Inl ReasonRequired
      else case row_of au_id uid (accounts s) of None \<Rightarrow> Inl (AccountNotFound uid) | Some u \<Rightarrow>
      if au_status u \<notin> set (sb_allowed_from verb)
      then Inl (InvalidTransition (sb_operation verb) (au_status u) (sb_to_status verb))
      else let u' = sb_apply verb (u\<lparr>au_status := sb_to_status verb\<rparr>) in
        Inr (u', audit_append actor (sb_action verb) ''user'' uid (Some reason) None
          (Some (dict ((''status'', JStr (status_text (au_status u))) # sb_before_extras verb)))
          (Some (dict ((''status'', JStr (status_text (sb_to_status verb))) # sb_after_extras verb))) ctx
          (put_account uid (\<lambda>_. u') s)))"

definition suspend_verb :: status_verb where
  "suspend_verb = \<lparr>sb_operation = ''suspend'', sb_allowed_from = [UserStatus.ACTIVE], sb_to_status = SUSPENDED,
     sb_action = ''USER_SUSPENDED'', sb_before_extras = [], sb_after_extras = [], sb_apply = (\<lambda>u. u)\<rparr>"

definition ban_verb :: status_verb where
  "ban_verb = \<lparr>sb_operation = ''ban'', sb_allowed_from = [UserStatus.ACTIVE], sb_to_status = BANNED,
     sb_action = ''USER_BANNED'', sb_before_extras = [], sb_after_extras = [], sb_apply = (\<lambda>u. u)\<rparr>"

definition reactivate_verb :: status_verb where
  "reactivate_verb = \<lparr>sb_operation = ''reactivate'', sb_allowed_from = [SUSPENDED, BANNED], sb_to_status = UserStatus.ACTIVE,
     sb_action = ''USER_REACTIVATED'', sb_before_extras = [], sb_after_extras = [], sb_apply = (\<lambda>u. u)\<rparr>"

definition approve_verb :: "instant \<Rightarrow> status_verb" where
  "approve_verb now = \<lparr>sb_operation = ''approve'', sb_allowed_from = [PENDING_APPROVAL], sb_to_status = UserStatus.ACTIVE,
     sb_action = ''USER_APPROVED'', sb_before_extras = [(''approved_at'', JNull)],
     sb_after_extras = [(''approved_at'', JTime now)], sb_apply = (\<lambda>u. u\<lparr>au_approved_at := Some now\<rparr>)\<rparr>"

definition stored_reason :: "string \<Rightarrow> string option" where
  "stored_reason reason = (if py_strip reason = [] then None else Some (py_strip reason))"

definition reject_verb :: "string \<Rightarrow> status_verb" where
  "reject_verb reason = \<lparr>sb_operation = ''reject'', sb_allowed_from = [PENDING_APPROVAL], sb_to_status = BANNED,
     sb_action = ''USER_REJECTED'', sb_before_extras = [(''rejected_reason'', JNull)],
     sb_after_extras = [(''rejected_reason'', jopt JStr (stored_reason reason))],
     sb_apply = (\<lambda>u. u\<lparr>au_rejected_reason := stored_reason reason\<rparr>)\<rparr>"

definition suspend_user ::
  "actor \<Rightarrow> uuid \<Rightarrow> string \<Rightarrow> audit_context option \<Rightarrow> 'a auth_db_scheme \<Rightarrow> identity_error + (account \<times> 'a auth_db_scheme)" where
  "suspend_user actor uid reason ctx s = account_transition suspend_verb actor uid reason ctx s"

definition ban_user ::
  "actor \<Rightarrow> uuid \<Rightarrow> string \<Rightarrow> audit_context option \<Rightarrow> 'a auth_db_scheme \<Rightarrow> identity_error + (account \<times> 'a auth_db_scheme)" where
  "ban_user actor uid reason ctx s = account_transition ban_verb actor uid reason ctx s"

definition reactivate_user ::
  "actor \<Rightarrow> uuid \<Rightarrow> string \<Rightarrow> audit_context option \<Rightarrow> 'a auth_db_scheme \<Rightarrow> identity_error + (account \<times> 'a auth_db_scheme)" where
  "reactivate_user actor uid reason ctx s = account_transition reactivate_verb actor uid reason ctx s"


text \<open>The two fixed Chinese reasons are arguments.\<close>

definition approve_student ::
  "string \<Rightarrow> instant \<Rightarrow> actor \<Rightarrow> uuid \<Rightarrow> audit_context option \<Rightarrow> 'a auth_db_scheme \<Rightarrow> identity_error + (account \<times> 'a auth_db_scheme)" where
  "approve_student approved_text now actor uid ctx s = account_transition (approve_verb now) actor uid approved_text ctx s"

definition reject_student ::
  "string \<Rightarrow> actor \<Rightarrow> uuid \<Rightarrow> string \<Rightarrow> audit_context option \<Rightarrow> 'a auth_db_scheme \<Rightarrow> identity_error + (account \<times> 'a auth_db_scheme)" where
  "reject_student rejected_text actor uid reason ctx s =
     account_transition (reject_verb reason) actor uid (if py_strip reason \<noteq> [] then reason else rejected_text) ctx s"

section \<open>Roles and batches\<close>

definition other_admins :: "uuid \<Rightarrow> 'a auth_db_scheme \<Rightarrow> int" where
  "other_admins uid s = count_rows (\<lambda>u. au_role u = ADMIN \<and> au_status u = UserStatus.ACTIVE \<and> au_id u \<noteq> uid) (accounts s)"

definition change_role ::
  "actor \<Rightarrow> uuid \<Rightarrow> Role \<Rightarrow> audit_context option \<Rightarrow> 'a auth_db_scheme \<Rightarrow> identity_error + (account \<times> 'a auth_db_scheme)" where
  "change_role actor uid new_role ctx s =
     (if uid = actor_user_id actor then Inl AuthorityRefused
      else case row_of au_id uid (accounts s) of None \<Rightarrow> Inl (AccountNotFound uid) | Some u \<Rightarrow>
      if au_role u = STUDENT then Inl AuthorityRefused
      else if new_role \<notin> {TEACHER, ADMIN} then Inl RoleNotSwitchable
      else if au_role u = new_role then Inr (u, s)
      else if au_role u = ADMIN \<and> new_role = TEACHER \<and> other_admins uid s = 0 then Inl LastAdministrator
      else let u' = u\<lparr>au_role := new_role\<rparr> in
        Inr (u', audit_append actor ''ROLE_CHANGED'' ''user'' uid None None
          (Some (dict [(''role'', JStr (role_value (au_role u)))])) (Some (dict [(''role'', JStr (role_value new_role))])) ctx
          (put_account uid (\<lambda>_. u') s)))"

text \<open>One row at a time, each its own transaction; the reason is the error code or nothing.\<close>

fun batch_status_action ::
  "bool \<Rightarrow> actor \<Rightarrow> audit_context option \<Rightarrow> uuid list \<Rightarrow> 'a auth_db_scheme \<Rightarrow> (uuid \<times> ErrorCode option) list \<times> 'a auth_db_scheme" where
  "batch_status_action suspend actor ctx [] s = ([], s)"
| "batch_status_action suspend actor ctx (uid # uids) s =
     (let (answer, s1) =
        (if uid = actor_user_id actor then (Some PERMISSION_DENIED, s)
         else case account_transition (if suspend then suspend_verb else reactivate_verb) actor uid ''batch'' ctx s of
           Inl e \<Rightarrow> (Some (be_code (identity_envelope e)), s) | Inr (u, s') \<Rightarrow> (None, s'));
        (answers, s2) = batch_status_action suspend actor ctx uids s1
      in ((uid, answer) # answers, s2))"

end
