(* ===== verification/Devices.thy ===== *)
theory Devices
  imports Accounts
begin

text \<open>
  Remembered devices (\<open>identity/device_credentials.py\<close>), the login on a device cookie alone
  (\<open>identity/unified_login_service.py\<close>), and the administrator's emergency stop and reset link
  (\<open>identity/admin_power_service.py\<close>).
\<close>

section \<open>Credentials\<close>

record RememberedDevice =
  rd_id :: uuid
  rd_user :: uuid
  rd_token_hash :: string
  rd_expires_at :: instant
  rd_last_used_at :: "instant option"
  rd_created_at :: instant

text \<open>Beside the table, the pending second factors and the reset links, which live in Redis.\<close>

record device_db = otp_db +
  devices :: "RememberedDevice list"
  staff_pending :: "string \<Rightarrow> uuid volatile option"
  reset_links :: "string \<Rightarrow> uuid volatile option"

definition DEVICE_COOKIE_PREFIX :: string where "DEVICE_COOKIE_PREFIX = ''cq_dev_''"
definition DEVICE_TTL_DAYS :: int where "DEVICE_TTL_DAYS = 30"

text \<open>SHA-256 in hexadecimal is a library and an argument.\<close>

definition slot_suffix :: "(string \<Rightarrow> string) \<Rightarrow> string \<Rightarrow> string" where
  "slot_suffix sha identifier = take 10 (sha identifier)"

datatype slot_kind = PhoneSlot | EmailSlot

definition canonical_identifier :: "account \<Rightarrow> (string \<times> slot_kind) option" where
  "canonical_identifier u =
     (case au_phone_e164 u of
        Some (c # cs) \<Rightarrow> Some (c # cs, PhoneSlot)
      | _ \<Rightarrow> (case au_email_normalized u of
          Some (c # cs) \<Rightarrow> Some (c # cs, EmailSlot)
        | _ \<Rightarrow> if CHR ''@'' \<in> set (au_username u) then Some (au_username u, EmailSlot) else None))"

definition slots_from :: "(string \<times> string) list \<Rightarrow> (string \<times> string) list" where
  "slots_from cookies = map (\<lambda>(name, v). (drop (length DEVICE_COOKIE_PREFIX) name, v))
     (filter (\<lambda>(name, v). take (length DEVICE_COOKIE_PREFIX) name = DEVICE_COOKIE_PREFIX) cookies)"

definition issue_device ::
  "(string \<Rightarrow> string) \<Rightarrow> instant \<Rightarrow> uuid \<Rightarrow> instant \<Rightarrow> string \<Rightarrow> account \<Rightarrow> 'a device_db_scheme \<Rightarrow> (string \<times> string) \<times> 'a device_db_scheme" where
  "issue_device sha now rid row_instant secret u s =
     (case canonical_identifier u of None \<Rightarrow> (([], []), s) | Some (identifier, kind) \<Rightarrow>
      ((secret, slot_suffix sha identifier),
       s\<lparr>devices := devices s @ [\<lparr>rd_id = rid, rd_user = au_id u, rd_token_hash = sha secret,
         rd_expires_at = now + seconds (DEVICE_TTL_DAYS * 86400), rd_last_used_at = None, rd_created_at = row_instant\<rparr>]\<rparr>))"

definition resolve_row :: "(string \<Rightarrow> string) \<Rightarrow> instant \<Rightarrow> string \<Rightarrow> 'a device_db_scheme \<Rightarrow> RememberedDevice option" where
  "resolve_row sha now cookie s = (case row_of rd_token_hash (sha cookie) (devices s) of None \<Rightarrow> None | Some r \<Rightarrow>
     if rd_expires_at r \<le> now then None else Some r)"

definition bump :: "instant \<Rightarrow> uuid \<Rightarrow> 'a device_db_scheme \<Rightarrow> 'a device_db_scheme" where
  "bump now rid s = s\<lparr>devices := update_row rd_id rid (\<lambda>r. r\<lparr>rd_last_used_at := Some now\<rparr>) (devices s)\<rparr>"

definition validate_device :: "(string \<Rightarrow> string) \<Rightarrow> instant \<Rightarrow> string \<Rightarrow> 'a device_db_scheme \<Rightarrow> uuid option \<times> 'a device_db_scheme" where
  "validate_device sha now cookie s = (case resolve_row sha now cookie s of None \<Rightarrow> (None, s)
     | Some r \<Rightarrow> (Some (rd_user r), bump now (rd_id r) s))"

record RememberedEntry =
  re_slot :: string
  re_row :: RememberedDevice
  re_user :: account

definition recency :: "RememberedEntry \<Rightarrow> instant" where
  "recency e = (case rd_last_used_at (re_row e) of None \<Rightarrow> rd_created_at (re_row e) | Some t \<Rightarrow> t)"

fun entries_of :: "(string \<Rightarrow> string) \<Rightarrow> instant \<Rightarrow> (string \<times> string) list \<Rightarrow> 'a device_db_scheme \<Rightarrow> RememberedEntry list" where
  "entries_of sha now [] s = []"
| "entries_of sha now ((slot, v) # rest) s =
     (case resolve_row sha now v s of None \<Rightarrow> entries_of sha now rest s | Some r \<Rightarrow>
      case row_of au_id (rd_user r) (accounts s) of None \<Rightarrow> entries_of sha now rest s | Some u \<Rightarrow>
      \<lparr>re_slot = slot, re_row = r, re_user = u\<rparr> # entries_of sha now rest s)"

fun first_per_user :: "uuid set \<Rightarrow> RememberedEntry list \<Rightarrow> RememberedEntry list" where
  "first_per_user seen [] = []"
| "first_per_user seen (e # es) = (if au_id (re_user e) \<in> seen then first_per_user seen es
     else e # first_per_user (insert (au_id (re_user e)) seen) es)"

definition resolve_remembered ::
  "(string \<Rightarrow> string) \<Rightarrow> instant \<Rightarrow> (string \<times> string) list \<Rightarrow> 'a device_db_scheme \<Rightarrow> RememberedEntry list" where
  "resolve_remembered sha now slots s = first_per_user {} (sort_key (\<lambda>e. - recency e) (entries_of sha now slots s))"

fun any_valid_for ::
  "(string \<Rightarrow> string) \<Rightarrow> instant \<Rightarrow> string list \<Rightarrow> uuid \<Rightarrow> 'a device_db_scheme \<Rightarrow> bool \<times> 'a device_db_scheme" where
  "any_valid_for sha now [] uid s = (False, s)"
| "any_valid_for sha now (v # vs) uid s =
     (case resolve_row sha now v s of None \<Rightarrow> any_valid_for sha now vs uid s | Some r \<Rightarrow>
      if rd_user r = uid then (True, bump now (rd_id r) s) else any_valid_for sha now vs uid s)"

definition revoke_devices :: "uuid \<Rightarrow> 'a device_db_scheme \<Rightarrow> nat \<times> 'a device_db_scheme" where
  "revoke_devices uid s = (length (filter (\<lambda>r. rd_user r = uid) (devices s)),
     s\<lparr>devices := filter (\<lambda>r. rd_user r \<noteq> uid) (devices s)\<rparr>)"

definition list_devices :: "uuid \<Rightarrow> 'a device_db_scheme \<Rightarrow> RememberedDevice list" where
  "list_devices uid s = sort_key (\<lambda>r. - rd_created_at r) (sort_key rd_id (filter (\<lambda>r. rd_user r = uid) (devices s)))"

definition revoke_all_for_user :: "actor \<Rightarrow> uuid \<Rightarrow> audit_context option \<Rightarrow> 'a device_db_scheme \<Rightarrow> nat \<times> 'a device_db_scheme" where
  "revoke_all_for_user actor uid ctx s = (let (n, s1) = revoke_devices uid s in
     (n, audit_append actor ''OWN_DEVICES_REVOKED'' ''user'' uid None None None (Some (dict [(''revoked'', JInt (int n))])) ctx s1))"

section \<open>Login on a cookie alone\<close>

definition STAFF_PENDING_TTL_SECONDS :: int where "STAFF_PENDING_TTL_SECONDS = 30 * 60"

definition mint_staff_pending ::
  "(string \<Rightarrow> string) \<Rightarrow> instant \<Rightarrow> string \<Rightarrow> uuid \<Rightarrow> 'a device_db_scheme \<Rightarrow> string \<times> 'a device_db_scheme" where
  "mint_staff_pending sha now token uid s = (token, s\<lparr>staff_pending := (staff_pending s)(sha token := Some
     \<lparr>vo_value = uid, vo_expires = now + seconds STAFF_PENDING_TTL_SECONDS\<rparr>)\<rparr>)"

datatype UnifiedOutcome = Authenticated Role uuid SessionTokens | TotpRequired uuid string

definition chosen_entry :: "string option \<Rightarrow> RememberedEntry list \<Rightarrow> RememberedEntry option" where
  "chosen_entry target entries =
     (let wanted = py_strip (case target of None \<Rightarrow> [] | Some t \<Rightarrow> t) in
      if wanted \<noteq> [] then row_of re_slot wanted entries
      else case entries of [] \<Rightarrow> None | e # es \<Rightarrow> Some e)"

definition verify_on_cookie_alone ::
  "identity_config \<Rightarrow> (string \<Rightarrow> string) \<Rightarrow> instant \<Rightarrow> uuid \<Rightarrow> string \<Rightarrow> string \<Rightarrow> (string \<times> string) list \<Rightarrow> string option
    \<Rightarrow> 'a device_db_scheme \<Rightarrow> identity_error + (UnifiedOutcome \<times> 'a device_db_scheme)" where
  "verify_on_cookie_alone cfg sha now sid secret pending slots target s =
     (case chosen_entry target (resolve_remembered sha now slots s) of None \<Rightarrow> Inl ChallengeCodeInvalid | Some e \<Rightarrow>
      let u = re_user e in
      if \<not> may_sign_in u then Inl ChallengeCodeInvalid
      else let s1 = bump now (rd_id (re_row e)) s in
        if au_role u = ADMIN
        then (let (token, s2) = mint_staff_pending sha now pending (au_id u) s1 in Inr (TotpRequired (au_id u) token, s2))
        else case issue_session (ic_session cfg) now u sid secret s1 of Inl err \<Rightarrow> Inl (SessionFailure err)
          | Inr (row, tokens, s2) \<Rightarrow> Inr (Authenticated (au_role u) (au_id u) tokens, s2))"

section \<open>The administrator\<close>

definition live_session_count :: "instant \<Rightarrow> uuid \<Rightarrow> 'a auth_db_scheme \<Rightarrow> nat" where
  "live_session_count now uid s = length (filter (\<lambda>r. us_user r = uid \<and> us_revoked_at r = None \<and> now < us_expires_at r) (sessions s))"

text \<open>Two commits: the sessions first, then the devices with the audit row.\<close>

definition kick_sessions :: "(uuid \<Rightarrow> bool) \<Rightarrow> instant \<Rightarrow> uuid \<Rightarrow> 'a device_db_scheme \<Rightarrow> identity_error + (nat \<times> 'a device_db_scheme)" where
  "kick_sessions visible now uid s = (case row_of au_id uid (accounts s) of None \<Rightarrow> Inl (AccountNotFound uid) | Some u \<Rightarrow>
     Inr (live_session_count now uid s, revoke_all visible now uid s))"

definition kick_devices :: "actor \<Rightarrow> uuid \<Rightarrow> nat \<Rightarrow> audit_context option \<Rightarrow> 'a device_db_scheme \<Rightarrow> (nat \<times> nat) \<times> 'a device_db_scheme" where
  "kick_devices actor uid revoked ctx s = (let (n, s1) = revoke_devices uid s in
     ((revoked, n), audit_append actor ''ADMIN_SESSIONS_REVOKED'' ''user'' uid None None None
        (Some (dict [(''revoked_sessions'', JInt (int revoked)), (''revoked_devices'', JInt (int n))])) ctx s1))"

definition kick ::
  "(uuid \<Rightarrow> bool) \<Rightarrow> actor \<Rightarrow> instant \<Rightarrow> uuid \<Rightarrow> audit_context option \<Rightarrow> 'a device_db_scheme \<Rightarrow> identity_error + ((nat \<times> nat) \<times> 'a device_db_scheme)" where
  "kick visible actor now uid ctx s = (case kick_sessions visible now uid s of Inl e \<Rightarrow> Inl e
     | Inr (n, s1) \<Rightarrow> Inr (kick_devices actor uid n ctx s1))"

definition RESET_TOKEN_TTL_SECONDS :: int where "RESET_TOKEN_TTL_SECONDS = 48 * 3600"

definition issue_password_reset ::
  "(string \<Rightarrow> string) \<Rightarrow> instant \<Rightarrow> actor \<Rightarrow> uuid \<Rightarrow> string \<Rightarrow> audit_context option \<Rightarrow> 'a device_db_scheme
    \<Rightarrow> identity_error + (string \<times> 'a device_db_scheme)" where
  "issue_password_reset sha now actor uid token ctx s =
     (if uid = actor_user_id actor then Inl AuthorityRefused
      else case row_of au_id uid (accounts s) of None \<Rightarrow> Inl (AccountNotFound uid) | Some u \<Rightarrow>
      if au_role u = STUDENT then Inl AuthorityRefused
      else Inr (token, audit_append actor ''ADMIN_PASSWORD_RESET_ISSUED'' ''user'' uid None None None
        (Some (dict [(''ttl_hours'', JInt 48)])) ctx
        (s\<lparr>reset_links := (reset_links s)(sha token := Some
          \<lparr>vo_value = uid, vo_expires = now + seconds RESET_TOKEN_TTL_SECONDS\<rparr>)\<rparr>)))"

text \<open>The link is gone once it was looked at, whatever happens after.\<close>

definition consume_password_reset ::
  "identity_config \<Rightarrow> (string \<Rightarrow> string) \<Rightarrow> (uuid \<Rightarrow> bool) \<Rightarrow> instant \<Rightarrow> string \<Rightarrow> string \<Rightarrow> 'a device_db_scheme
    \<Rightarrow> (identity_error + unit) \<times> 'a device_db_scheme" where
  "consume_password_reset cfg sha visible now token new_password s =
     (let s1 = s\<lparr>reset_links := (reset_links s)(sha token := None)\<rparr> in
      case live_value now (reset_links s (sha token)) of None \<Rightarrow> (Inl ResetLinkInvalid, s1) | Some uid \<Rightarrow>
      case row_of au_id uid (accounts s) of None \<Rightarrow> (Inl ResetLinkInvalid, s1) | Some u \<Rightarrow>
      if au_status u \<noteq> UserStatus.ACTIVE then (Inl ResetLinkInvalid, s1)
      else if \<not> validate_password_length new_password then (Inl UncaughtValueError, s1)
      else (Inr (), audit_append \<lparr>actor_user_id = uid, actor_role = au_role u\<rparr> ''ADMIN_PASSWORD_RESET_CONSUMED'' ''user'' uid
        None None None (Some (dict [(''sessions_revoked'', JBool True)])) None
        (revoke_all visible now uid
          (put_account uid (\<lambda>a. a\<lparr>au_password_hash := Some (ic_hash cfg new_password)\<rparr>) s1))))"

end
