(* ===== verification/Profile.thy ===== *)
theory Profile
  imports Devices
begin

text \<open>
  Profile and account recovery (\<open>identity/profile_service.py\<close>): nickname, the change and the first binding of a
  phone, the reset of a password by a phone proof and its change by the owner.  An operation that spends a proof
  keeps the spent challenge also when the database transaction rolls back.
\<close>

definition mask_phone :: "string \<Rightarrow> string" where
  "mask_phone p = (if length p \<le> 8 then take 2 p @ ''****'' else take 3 p @ ''****'' @ drop (length p - 4) p)"

definition mask_email :: "string \<Rightarrow> string" where
  "mask_email e = (let local = takeWhile (\<lambda>c. c \<noteq> CHR ''@'') e in
     if local = e \<or> local = [] then ''***'' else take 1 local @ ''***@'' @ drop (length local + 1) e)"

definition mask_student_number :: "string \<Rightarrow> string" where
  "mask_student_number n = (if length n < 6 then ''****'' else take 2 n @ ''****'' @ drop (length n - 2) n)"

section \<open>Guards\<close>

definition auth_required :: identity_error where
  "auth_required = SessionFailure AuthenticationRequired"

definition require_user :: "uuid \<Rightarrow> 'a auth_db_scheme \<Rightarrow> identity_error + account" where
  "require_user uid s = (case row_of au_id uid (accounts s) of None \<Rightarrow> Inl auth_required | Some u \<Rightarrow> Inr u)"

definition require_current_password :: "identity_config \<Rightarrow> account \<Rightarrow> string \<Rightarrow> identity_error + unit" where
  "require_current_password cfg u password = (if password_matches (ic_session cfg) password u then Inr () else Inl auth_required)"

text \<open>What the environment supplies to one request for a challenge.\<close>

record sms_draw =
  sd_challenge :: uuid
  sd_code :: string
  sd_salt :: string
  sd_delivered :: bool

definition request_code ::
  "identity_config \<Rightarrow> instant \<Rightarrow> sms_draw \<Rightarrow> string \<Rightarrow> OtpPurpose \<Rightarrow> string \<Rightarrow> 'a otp_db_scheme
    \<Rightarrow> (identity_error + ChallengePublic) \<times> 'a otp_db_scheme" where
  "request_code cfg now d phone purpose ip s =
     (case request_phone_challenge (ic_otp cfg) (ic_policy cfg) now (sd_challenge d) (sd_code d) (sd_salt d) (sd_delivered d)
        phone purpose ip s of (Inl e, s1) \<Rightarrow> (Inl (OtpFailure e), s1) | (Inr c, s1) \<Rightarrow> (Inr c, s1))"

definition consume_phone_proof ::
  "identity_config \<Rightarrow> instant \<Rightarrow> string \<Rightarrow> uuid \<Rightarrow> string \<Rightarrow> OtpPurpose \<Rightarrow> 'a otp_db_scheme
    \<Rightarrow> (identity_error + string) \<times> 'a otp_db_scheme" where
  "consume_phone_proof cfg now token cid code expected s =
     (case verify_phone_challenge (ic_otp cfg) (ic_policy cfg) now token cid code s of
        (Inl e, s1) \<Rightarrow> (Inl (OtpFailure e), s1)
      | (Inr t, s1) \<Rightarrow>
        (case verify_phone_token (ic_otp cfg) (ic_policy cfg) now (vt_token t) s1 of
           (Inl e, s2) \<Rightarrow> (Inl (OtpFailure e), s2)
         | (Inr v, s2) \<Rightarrow>
           if vp_purpose v \<noteq> Some (purpose_value expected) then (Inl (OtpFailure InvalidToken), s2)
           else (Inr (vp_phone_e164 v), s2)))"

section \<open>Nickname\<close>

definition change_nickname :: "identity_config \<Rightarrow> uuid \<Rightarrow> string \<Rightarrow> 'a auth_db_scheme \<Rightarrow> identity_error + 'a auth_db_scheme" where
  "change_nickname cfg uid nickname s =
     (case require_user uid s of Inl e \<Rightarrow> Inl e | Inr u \<Rightarrow>
      case validated ''nickname'' (normalize_nickname (ic_graphemes cfg) nickname) of Inl e \<Rightarrow> Inl e | Inr n \<Rightarrow>
      Inr (put_account uid (\<lambda>a. a\<lparr>au_nickname := n\<rparr>) s))"

section \<open>Phone\<close>

definition unbound_phone :: "identity_config \<Rightarrow> string \<Rightarrow> 'a auth_db_scheme \<Rightarrow> identity_error + string" where
  "unbound_phone cfg raw s =
     (case normalize_phone (ic_otp cfg) raw (op_default_region (ic_policy cfg)) of Inl e \<Rightarrow> Inl (OtpFailure e) | Inr phone \<Rightarrow>
      if find_by_phone_e164 phone s \<noteq> None then Inl PhoneAlreadyBound else Inr phone)"

definition request_phone_change ::
  "identity_config \<Rightarrow> instant \<Rightarrow> sms_draw \<Rightarrow> uuid \<Rightarrow> string \<Rightarrow> string \<Rightarrow> string \<Rightarrow> 'a otp_db_scheme
    \<Rightarrow> (identity_error + ChallengePublic) \<times> 'a otp_db_scheme" where
  "request_phone_change cfg now d uid password raw ip s =
     (case require_user uid s of Inl e \<Rightarrow> (Inl e, s) | Inr u \<Rightarrow>
      case require_current_password cfg u password of Inl e \<Rightarrow> (Inl e, s) | Inr _ \<Rightarrow>
      case unbound_phone cfg raw s of Inl e \<Rightarrow> (Inl e, s) | Inr phone \<Rightarrow>
      request_code cfg now d phone PHONE_CHANGE ip s)"

definition request_phone_bind ::
  "identity_config \<Rightarrow> instant \<Rightarrow> sms_draw \<Rightarrow> uuid \<Rightarrow> string \<Rightarrow> string \<Rightarrow> 'a otp_db_scheme
    \<Rightarrow> (identity_error + ChallengePublic) \<times> 'a otp_db_scheme" where
  "request_phone_bind cfg now d uid raw ip s =
     (case require_user uid s of Inl e \<Rightarrow> (Inl e, s) | Inr u \<Rightarrow>
      if au_role u = STUDENT then (Inl AuthorityRefused, s)
      else case unbound_phone cfg raw s of Inl e \<Rightarrow> (Inl e, s) | Inr phone \<Rightarrow>
      request_code cfg now d phone PHONE_BIND ip s)"

text \<open>The unique index over the bound phones, seen by the flush of one row.\<close>

definition phone_held_by_other :: "uuid \<Rightarrow> string \<Rightarrow> 'a auth_db_scheme \<Rightarrow> bool" where
  "phone_held_by_other uid phone s \<longleftrightarrow> list_ex (\<lambda>a. au_id a \<noteq> uid \<and> au_phone_e164 a = Some phone) (accounts s)"

definition set_phone :: "uuid \<Rightarrow> string \<Rightarrow> 'a auth_db_scheme \<Rightarrow> identity_error + 'a auth_db_scheme" where
  "set_phone uid phone s =
     (case row_of au_id uid (accounts s) of None \<Rightarrow> Inl auth_required | Some u \<Rightarrow>
      if phone_held_by_other uid phone s then Inl PhoneAlreadyBound
      else Inr (put_account uid (\<lambda>a. a\<lparr>au_phone_e164 := Some phone\<rparr>) s))"

definition confirm_phone_change ::
  "identity_config \<Rightarrow> instant \<Rightarrow> string \<Rightarrow> uuid \<Rightarrow> uuid \<Rightarrow> string \<Rightarrow> 'a otp_db_scheme \<Rightarrow> (identity_error + unit) \<times> 'a otp_db_scheme" where
  "confirm_phone_change cfg now token uid cid code s =
     (case require_user uid s of Inl e \<Rightarrow> (Inl e, s) | Inr u \<Rightarrow>
      case consume_phone_proof cfg now token cid code PHONE_CHANGE s of
        (Inl e, s1) \<Rightarrow> (Inl e, s1)
      | (Inr phone, s1) \<Rightarrow> (case set_phone uid phone s1 of Inl e \<Rightarrow> (Inl e, s1) | Inr s2 \<Rightarrow> (Inr (), s2)))"

definition confirm_phone_bind ::
  "identity_config \<Rightarrow> instant \<Rightarrow> string \<Rightarrow> actor \<Rightarrow> uuid \<Rightarrow> string \<Rightarrow> audit_context option \<Rightarrow> 'a otp_db_scheme
    \<Rightarrow> (identity_error + unit) \<times> 'a otp_db_scheme" where
  "confirm_phone_bind cfg now token actor cid code ctx s =
     (case require_user (actor_user_id actor) s of Inl e \<Rightarrow> (Inl e, s) | Inr u \<Rightarrow>
      case consume_phone_proof cfg now token cid code PHONE_BIND s of
        (Inl e, s1) \<Rightarrow> (Inl e, s1)
      | (Inr phone, s1) \<Rightarrow> (case set_phone (actor_user_id actor) phone s1 of Inl e \<Rightarrow> (Inl e, s1)
          | Inr s2 \<Rightarrow> (Inr (), audit_append actor ''PHONE_BOUND'' ''user'' (au_id u) None None None
              (Some (dict [(''phone'', JStr (mask_phone phone))])) ctx s2)))"

section \<open>Password\<close>

text \<open>A challenge that no record backs.\<close>

definition decoy_challenge :: "identity_config \<Rightarrow> instant \<Rightarrow> uuid \<Rightarrow> ChallengePublic" where
  "decoy_challenge cfg now cid = \<lparr>cp_challenge_id = cid, cp_expires_at = now + seconds (op_ttl_seconds (ic_policy cfg))\<rparr>"

definition request_password_reset ::
  "identity_config \<Rightarrow> instant \<Rightarrow> sms_draw \<Rightarrow> string \<Rightarrow> string \<Rightarrow> 'a otp_db_scheme
    \<Rightarrow> (identity_error + ChallengePublic) \<times> 'a otp_db_scheme" where
  "request_password_reset cfg now d username ip s =
     (case find_by_username (py_strip username) s of None \<Rightarrow> (Inr (decoy_challenge cfg now (sd_challenge d)), s) | Some u \<Rightarrow>
      if au_role u \<noteq> STUDENT then (Inr (decoy_challenge cfg now (sd_challenge d)), s)
      else case au_phone_e164 u of None \<Rightarrow> (Inr (decoy_challenge cfg now (sd_challenge d)), s) | Some phone \<Rightarrow>
      request_code cfg now d phone PASSWORD_RESET ip s)"

definition set_password :: "identity_config \<Rightarrow> uuid \<Rightarrow> string \<Rightarrow> 'a auth_db_scheme \<Rightarrow> 'a auth_db_scheme" where
  "set_password cfg uid password s = put_account uid (\<lambda>a. a\<lparr>au_password_hash := Some (ic_hash cfg password)\<rparr>) s"

definition confirm_password_reset ::
  "identity_config \<Rightarrow> (uuid \<Rightarrow> bool) \<Rightarrow> instant \<Rightarrow> string \<Rightarrow> uuid \<Rightarrow> string \<Rightarrow> string \<Rightarrow> 'a otp_db_scheme
    \<Rightarrow> (identity_error + unit) \<times> 'a otp_db_scheme" where
  "confirm_password_reset cfg visible now token cid code new_password s =
     (case require_usable_password new_password of Inl e \<Rightarrow> (Inl e, s) | Inr _ \<Rightarrow>
      case consume_phone_proof cfg now token cid code PASSWORD_RESET s of
        (Inl e, s1) \<Rightarrow> (Inl e, s1)
      | (Inr phone, s1) \<Rightarrow> (case find_by_phone_e164 phone s1 of None \<Rightarrow> (Inl (OtpFailure InvalidToken), s1) | Some u \<Rightarrow>
          if au_role u \<noteq> STUDENT then (Inl (OtpFailure InvalidToken), s1)
          else (Inr (), revoke_all visible now (au_id u) (set_password cfg (au_id u) new_password s1))))"

definition change_password ::
  "identity_config \<Rightarrow> (uuid \<Rightarrow> bool) \<Rightarrow> instant \<Rightarrow> uuid \<Rightarrow> string \<Rightarrow> string \<Rightarrow> uuid option \<Rightarrow> 'a auth_db_scheme
    \<Rightarrow> identity_error + 'a auth_db_scheme" where
  "change_password cfg visible now uid current new_password current_session s =
     (case require_user uid s of Inl e \<Rightarrow> Inl e | Inr u \<Rightarrow>
      case require_current_password cfg u current of Inl e \<Rightarrow> Inl e | Inr _ \<Rightarrow>
      case require_usable_password new_password of Inl e \<Rightarrow> Inl e | Inr _ \<Rightarrow>
      Inr (revoke_all_except visible now uid current_session (set_password cfg uid new_password s)))"

end
