(* ===== verification/Account_Facts.thy ===== *)
theory Account_Facts
  imports Profile
begin

text \<open>What every operation on accounts leaves alone, and the ways in which it changes the table.\<close>

section \<open>Frames\<close>

text \<open>Everything but the challenges, the tokens and the counters.\<close>

definition redis_only :: "'a device_db_scheme \<Rightarrow> 'a device_db_scheme \<Rightarrow> bool" where
  "redis_only s s' \<longleftrightarrow> accounts s' = accounts s \<and> sessions s' = sessions s \<and> devices s' = devices s
     \<and> audit_logs s' = audit_logs s \<and> staff_pending s' = staff_pending s \<and> reset_links s' = reset_links s"

lemma redis_only_refl [simp]: "redis_only s s" by (simp add: redis_only_def)

lemma redis_only_trans: "redis_only a b \<Longrightarrow> redis_only b c \<Longrightarrow> redis_only a c" by (simp add: redis_only_def)

lemma verify_redis_only: "verify_phone_challenge env p now token cid code s = (r, s1) \<Longrightarrow> redis_only s s1"
  by (auto simp: verify_phone_challenge_def hincrby_attempts_def hsetnx_consumed_def delete_challenge_def mint_token_def put_hash_def
      Let_def redis_only_def split: verdict.splits option.splits if_splits)

lemma token_redis_only: "verify_phone_token env p now token s = (r, s1) \<Longrightarrow> redis_only s s1"
  by (auto simp: verify_phone_token_def Let_def redis_only_def split: option.splits if_splits)

lemma proof_redis_only: "consume_phone_proof cfg now token cid code purpose s = (r, s1) \<Longrightarrow> redis_only s s1"
  by (auto simp: consume_phone_proof_def split: prod.splits sum.splits if_splits dest!: verify_redis_only token_redis_only
      intro: redis_only_trans)

lemma audit_accounts [simp]: "accounts (audit_append a act tt ti r d b af c s) = accounts s"
  "sessions (audit_append a act tt ti r d b af c s) = sessions s"
  by (simp_all add: audit_append_def)

lemma audit_devices [simp]: "devices (audit_append a act tt ti r d b af c s) = devices s"
  by (simp add: audit_append_def)

lemma revoke_accounts [simp]: "accounts (revoke_all_except visible now uid keep s) = accounts s"
  "accounts (revoke_all visible now uid s) = accounts s"
  by (simp_all add: revoke_all_except_def revoke_all_def revoke_matching_def Let_def)

lemma revoke_devices_kept [simp]: "devices (revoke_all_except visible now uid keep s) = devices s"
  "devices (revoke_all visible now uid s) = devices s"
  by (simp_all add: revoke_all_except_def revoke_all_def revoke_matching_def Let_def)

lemma put_account_accounts [simp]: "accounts (put_account uid f s) = update_row au_id uid f (accounts s)"
  "sessions (put_account uid f s) = sessions s"
  by (simp_all add: put_account_def)

lemma put_account_devices [simp]: "devices (put_account uid f s) = devices s"
  by (simp add: put_account_def)

section \<open>The status table\<close>

definition STATUS_TABLE :: "(UserStatus \<times> UserStatus) set" where
  "STATUS_TABLE = {(UserStatus.ACTIVE, SUSPENDED), (UserStatus.ACTIVE, BANNED), (SUSPENDED, UserStatus.ACTIVE),
     (BANNED, UserStatus.ACTIVE), (PENDING_APPROVAL, UserStatus.ACTIVE), (PENDING_APPROVAL, BANNED)}"

text \<open>What may happen to one row.\<close>

definition account_edge :: "account list \<Rightarrow> account \<Rightarrow> account \<Rightarrow> bool" where
  "account_edge rows u v \<longleftrightarrow> au_id v = au_id u \<and> au_username v = au_username u
     \<and> (au_role v = STUDENT \<longleftrightarrow> au_role u = STUDENT)
     \<and> (au_status v = au_status u \<or> (au_status u, au_status v) \<in> STATUS_TABLE)
     \<and> (au_phone_e164 v = au_phone_e164 u \<or> (\<forall>a\<in>set rows. au_id a \<noteq> au_id u \<longrightarrow> au_phone_e164 a \<noteq> au_phone_e164 v))"

definition account_rows_evolve :: "account list \<Rightarrow> account list \<Rightarrow> bool" where
  "account_rows_evolve rows rows' \<longleftrightarrow> rows' = rows
     \<or> (\<exists>u. rows' = rows @ [u] \<and> au_role u = STUDENT \<and> au_status u = PENDING_APPROVAL \<and> au_username u \<notin> au_username ` set rows
         \<and> au_phone_e164 u \<noteq> None \<and> au_phone_e164 u \<notin> au_phone_e164 ` set rows \<and> au_id u \<notin> au_id ` set rows)
     \<or> (\<exists>uid f u. row_of au_id uid rows = Some u \<and> rows' = update_row au_id uid f rows \<and> account_edge rows u (f u))"

lemma evolve_refl [simp]: "account_rows_evolve rows rows" by (simp add: account_rows_evolve_def)

lemma evolve_update: "row_of au_id uid rows = Some u \<Longrightarrow> account_edge rows u (f u) \<Longrightarrow> account_rows_evolve rows (update_row au_id uid f rows)"
  unfolding account_rows_evolve_def by blast

lemma edge_fields: "au_id v = au_id u \<Longrightarrow> au_username v = au_username u \<Longrightarrow> au_role v = au_role u \<Longrightarrow> au_status v = au_status u
    \<Longrightarrow> au_phone_e164 v = au_phone_e164 u \<Longrightarrow> account_edge rows u v"
  by (simp add: account_edge_def)

lemma edge_phone: "au_id v = au_id u \<Longrightarrow> au_username v = au_username u \<Longrightarrow> au_role v = au_role u \<Longrightarrow> au_status v = au_status u
    \<Longrightarrow> \<forall>a\<in>set rows. au_id a \<noteq> au_id u \<longrightarrow> au_phone_e164 a \<noteq> au_phone_e164 v \<Longrightarrow> account_edge rows u v"
  by (simp add: account_edge_def)

section \<open>The operations\<close>

lemma register_evolves:
  fixes s :: "'a device_db_scheme"
  assumes "register_student cfg now uid cmd s = (r, s')" "uid \<notin> au_id ` set (accounts s)"
  shows "account_rows_evolve (accounts s) (accounts s')"
proof (cases r)
  case (Inl e)
  then have "accounts s' = accounts s" using assms(1)
    by (auto simp: register_student_def Let_def redis_only_def split: sum.splits prod.splits if_splits dest!: token_redis_only)
  then show ?thesis by (simp add: account_rows_evolve_def)
next
  case (Inr u)
  obtain number nickname where checks: "register_checks cfg cmd = Inr (number, nickname)"
    using assms(1) Inr by (auto simp: register_student_def split: sum.splits)
  obtain v s1 where v: "verify_phone_token (ic_otp cfg) (ic_policy cfg) now (rs_phone_token cmd) s = (Inr v, s1)"
    using assms(1) Inr checks by (auto simp: register_student_def split: sum.splits prod.splits)
  have same: "accounts s1 = accounts s" using token_redis_only [OF v] by (simp add: redis_only_def)
  have "find_by_phone_e164 (vp_phone_e164 v) s1 = None" "number \<notin> au_username ` set (accounts s1)"
    "s' = s1\<lparr>accounts := accounts s1 @ [registered cfg uid number nickname (rs_password cmd) (vp_phone_e164 v)]\<rparr>"
    using assms(1) Inr checks v by (auto simp: register_student_def Let_def split: if_splits)
  then show ?thesis using assms(2) same
    unfolding account_rows_evolve_def
    by (intro disjI2 disjI1 exI [of _ "registered cfg uid number nickname (rs_password cmd) (vp_phone_e164 v)"])
      (simp add: registered_def find_by_phone_e164_def row_of_None)
qed

definition lawful_verb :: "status_verb \<Rightarrow> bool" where
  "lawful_verb verb \<longleftrightarrow> (\<forall>st\<in>set (sb_allowed_from verb). (st, sb_to_status verb) \<in> STATUS_TABLE)
     \<and> (\<forall>u. au_id (sb_apply verb u) = au_id u \<and> au_username (sb_apply verb u) = au_username u
         \<and> au_role (sb_apply verb u) = au_role u \<and> au_status (sb_apply verb u) = au_status u \<and> au_phone_e164 (sb_apply verb u) = au_phone_e164 u)"

lemma verbs_lawful: "lawful_verb suspend_verb" "lawful_verb ban_verb" "lawful_verb reactivate_verb" "lawful_verb (approve_verb now)"
  "lawful_verb (reject_verb reason)"
  by (simp_all add: lawful_verb_def suspend_verb_def ban_verb_def reactivate_verb_def approve_verb_def reject_verb_def STATUS_TABLE_def)

lemma transition_evolves:
  assumes "account_transition verb actor uid reason ctx s = Inr (u, s')" "lawful_verb verb"
  shows "account_rows_evolve (accounts s) (accounts s')"
proof -
  obtain v where v: "row_of au_id uid (accounts s) = Some v" "au_status v \<in> set (sb_allowed_from verb)"
    "accounts s' = update_row au_id uid (\<lambda>_. sb_apply verb (v\<lparr>au_status := sb_to_status verb\<rparr>)) (accounts s)"
    using assms(1) by (auto simp: account_transition_def Let_def split: option.splits if_splits)
  have "account_edge (accounts s) v (sb_apply verb (v\<lparr>au_status := sb_to_status verb\<rparr>))"
    using v(2) assms(2) by (simp add: account_edge_def lawful_verb_def)
  then show ?thesis using evolve_update [OF v(1), of "\<lambda>_. sb_apply verb (v\<lparr>au_status := sb_to_status verb\<rparr>)"] v(3) by simp
qed

lemma change_role_evolves:
  assumes "change_role actor uid new_role ctx s = Inr (u, s')"
  shows "account_rows_evolve (accounts s) (accounts s')"
proof -
  obtain v where v: "row_of au_id uid (accounts s) = Some v" "au_role v \<noteq> STUDENT" "new_role \<noteq> STUDENT"
    using assms by (auto simp: change_role_def split: option.splits if_splits)
  have edge: "account_edge (accounts s) v (v\<lparr>au_role := new_role\<rparr>)" using v by (simp add: account_edge_def)
  have "accounts s' = accounts s \<or> accounts s' = update_row au_id uid (\<lambda>_. v\<lparr>au_role := new_role\<rparr>) (accounts s)"
    using assms v by (auto simp: change_role_def Let_def split: if_splits)
  then show ?thesis
  proof
    assume "accounts s' = accounts s" then show ?thesis by (simp add: account_rows_evolve_def)
  next
    assume "accounts s' = update_row au_id uid (\<lambda>_. v\<lparr>au_role := new_role\<rparr>) (accounts s)"
    then show ?thesis using evolve_update [OF v(1), of "\<lambda>_. v\<lparr>au_role := new_role\<rparr>"] edge by simp
  qed
qed

lemma batch_evolves:
  "batch_status_action suspend actor ctx uids s = (answers, s') \<Longrightarrow> (\<lambda>a b. account_rows_evolve a b)\<^sup>*\<^sup>* (accounts s) (accounts s')"
proof (induction uids arbitrary: s answers)
  case (Cons uid uids)
  let ?verb = "if suspend then suspend_verb else reactivate_verb"
  have lawful: "lawful_verb ?verb" by (simp add: verbs_lawful)
  obtain answer s1 where one: "(if uid = actor_user_id actor then (Some PERMISSION_DENIED, s)
      else case account_transition ?verb actor uid ''batch'' ctx s of Inl e \<Rightarrow> (Some (be_code (identity_envelope e)), s)
        | Inr (u, s') \<Rightarrow> (None, s')) = (answer, s1)" by fastforce
  have "account_rows_evolve (accounts s) (accounts s1)"
    using one transition_evolves [OF _ lawful] by (auto split: if_splits sum.splits)
  moreover have "(\<lambda>a b. account_rows_evolve a b)\<^sup>*\<^sup>* (accounts s1) (accounts s')"
    using Cons.prems one by (auto simp: Let_def split: prod.splits intro: Cons.IH)
  ultimately show ?case by (rule converse_rtranclp_into_rtranclp)
qed simp

lemma put_account_evolves:
  assumes "row_of au_id uid rows = Some u"
    "\<And>a. au_id (f a) = au_id a \<and> au_username (f a) = au_username a \<and> au_role (f a) = au_role a \<and> au_status (f a) = au_status a
      \<and> au_phone_e164 (f a) = au_phone_e164 a"
  shows "account_rows_evolve rows (update_row au_id uid f rows)"
  using assms by (intro evolve_update [OF assms(1)] edge_fields) simp_all

lemma nickname_evolves:
  assumes "change_nickname cfg uid nickname s = Inr s'"
  shows "account_rows_evolve (accounts s) (accounts s')"
  using assms by (auto simp: change_nickname_def require_user_def split: sum.splits option.splits intro!: put_account_evolves)

lemma set_phone_evolves:
  assumes "set_phone uid phone s = Inr s'"
  shows "account_rows_evolve (accounts s) (accounts s')"
proof -
  obtain u where u: "row_of au_id uid (accounts s) = Some u" "\<not> phone_held_by_other uid phone s"
    "accounts s' = update_row au_id uid (\<lambda>a. a\<lparr>au_phone_e164 := Some phone\<rparr>) (accounts s)"
    using assms by (auto simp: set_phone_def split: option.splits if_splits)
  have "au_id u = uid" using row_of_SomeD [OF u(1)] by simp
  then have "account_edge (accounts s) u (u\<lparr>au_phone_e164 := Some phone\<rparr>)"
    using u(2) by (intro edge_phone) (auto simp: phone_held_by_other_def list_ex_iff)
  then show ?thesis using evolve_update [OF u(1)] u(3) by simp
qed

lemma confirm_change_evolves:
  fixes s :: "'a device_db_scheme"
  assumes "confirm_phone_change cfg now token uid cid code s = (r, s')"
  shows "account_rows_evolve (accounts s) (accounts s')"
proof -
  obtain x s1 where x: "consume_phone_proof cfg now token cid code PHONE_CHANGE s = (x, s1)" by fastforce
  have "accounts s1 = accounts s" using proof_redis_only [OF x] by (simp add: redis_only_def)
  then have "accounts s' = accounts s \<or> (\<exists>phone s2. set_phone uid phone s1 = Inr s2 \<and> accounts s' = accounts s2)"
    using assms x by (auto simp: confirm_phone_change_def split: sum.splits)
  then show ?thesis using set_phone_evolves [where s = s1] \<open>accounts s1 = accounts s\<close> by auto
qed

lemma confirm_bind_evolves:
  fixes s :: "'a device_db_scheme"
  assumes "confirm_phone_bind cfg now token actor cid code ctx s = (r, s')"
  shows "account_rows_evolve (accounts s) (accounts s')"
proof -
  obtain x s1 where x: "consume_phone_proof cfg now token cid code PHONE_BIND s = (x, s1)" by fastforce
  have "accounts s1 = accounts s" using proof_redis_only [OF x] by (simp add: redis_only_def)
  then have "accounts s' = accounts s \<or> (\<exists>phone s2. set_phone (actor_user_id actor) phone s1 = Inr s2 \<and> accounts s' = accounts s2)"
    using assms x by (force simp: confirm_phone_bind_def split: sum.splits)
  then show ?thesis using set_phone_evolves [where s = s1] \<open>accounts s1 = accounts s\<close> by auto
qed

lemma change_password_evolves:
  assumes "change_password cfg visible now uid current password keep s = Inr s'"
  shows "account_rows_evolve (accounts s) (accounts s')"
  using assms by (auto simp: change_password_def require_user_def set_password_def split: sum.splits option.splits intro!: put_account_evolves)

lemma reset_Inr:
  fixes s :: "'a device_db_scheme"
  assumes "confirm_password_reset cfg visible now token cid code password s = (Inr (), s')"
  obtains phone s1 u where "validate_password_length password" "consume_phone_proof cfg now token cid code PASSWORD_RESET s = (Inr phone, s1)"
    "find_by_phone_e164 phone s = Some u" "au_role u = STUDENT" "s' = revoke_all visible now (au_id u) (set_password cfg (au_id u) password s1)"
proof -
  obtain x s1 where x: "consume_phone_proof cfg now token cid code PASSWORD_RESET s = (x, s1)" by fastforce
  have same: "find_by_phone_e164 phone s1 = find_by_phone_e164 phone s" for phone
    using proof_redis_only [OF x] by (simp add: redis_only_def find_by_phone_e164_def)
  show thesis
  proof (cases x)
    case (Inl e) then show thesis using assms x by (auto simp: confirm_password_reset_def require_usable_password_def split: if_splits)
  next
    case (Inr phone)
    then obtain u where "find_by_phone_e164 phone s1 = Some u" "au_role u = STUDENT" "validate_password_length password"
      "s' = revoke_all visible now (au_id u) (set_password cfg (au_id u) password s1)"
      using assms x by (auto simp: confirm_password_reset_def require_usable_password_def split: if_splits option.splits)
    then show thesis using that x Inr same by simp
  qed
qed

lemma reset_evolves:
  fixes s :: "'a device_db_scheme"
  assumes "confirm_password_reset cfg visible now token cid code password s = (r, s')"
  shows "\<exists>uid f. accounts s' = accounts s \<or> (uid \<in> au_id ` set (accounts s) \<and> f = (\<lambda>a. a\<lparr>au_password_hash := Some (ic_hash cfg password)\<rparr>)
    \<and> accounts s' = update_row au_id uid f (accounts s))"
proof (cases r)
  case (Inl e)
  then have "accounts s' = accounts s" using assms
    by (auto simp: confirm_password_reset_def redis_only_def split: sum.splits prod.splits option.splits if_splits dest!: proof_redis_only)
  then show ?thesis by blast
next
  case (Inr x)
  then have "confirm_password_reset cfg visible now token cid code password s = (Inr (), s')" using assms by simp
  then obtain phone s1 u where u: "consume_phone_proof cfg now token cid code PASSWORD_RESET s = (Inr phone, s1)"
    "find_by_phone_e164 phone s = Some u" "s' = revoke_all visible now (au_id u) (set_password cfg (au_id u) password s1)"
    by (rule reset_Inr)
  have "accounts s1 = accounts s" using proof_redis_only [OF u(1)] by (simp add: redis_only_def)
  moreover have "au_id u \<in> au_id ` set (accounts s)" using u(2) by (auto simp: find_by_phone_e164_def dest: row_of_SomeD)
  ultimately show ?thesis using u(3)
    by (intro exI [of _ "au_id u"] exI [of _ "\<lambda>a. a\<lparr>au_password_hash := Some (ic_hash cfg password)\<rparr>"]) (simp add: set_password_def)
qed

lemma link_evolves:
  assumes "consume_password_reset cfg sha visible now token password s = (r, s')"
  shows "accounts s' = accounts s \<or> (\<exists>uid\<in>au_id ` set (accounts s).
    accounts s' = update_row au_id uid (\<lambda>a. a\<lparr>au_password_hash := Some (ic_hash cfg password)\<rparr>) (accounts s))"
  using assms
  by (auto simp: consume_password_reset_def Let_def split: option.splits if_splits dest!: row_of_SomeD)

lemma hash_evolves:
  assumes "accounts s' = accounts s \<or> (\<exists>uid\<in>au_id ` set (accounts s).
    accounts s' = update_row au_id uid (\<lambda>a. a\<lparr>au_password_hash := h\<rparr>) (accounts s))"
  shows "account_rows_evolve (accounts s) (accounts s')"
  using assms
proof
  assume "accounts s' = accounts s" then show ?thesis by (simp add: account_rows_evolve_def)
next
  assume "\<exists>uid\<in>au_id ` set (accounts s). accounts s' = update_row au_id uid (\<lambda>a. a\<lparr>au_password_hash := h\<rparr>) (accounts s)"
  then obtain uid where uid: "uid \<in> au_id ` set (accounts s)"
    "accounts s' = update_row au_id uid (\<lambda>a. a\<lparr>au_password_hash := h\<rparr>) (accounts s)" by blast
  then obtain u where "row_of au_id uid (accounts s) = Some u" using row_of_None by (metis not_None_eq)
  then show ?thesis using uid(2) put_account_evolves [of uid "accounts s" u "\<lambda>a. a\<lparr>au_password_hash := h\<rparr>"] by simp
qed

end
