(* ===== verification/Otp_Facts.thy ===== *)
theory Otp_Facts
  imports Otp
begin

text \<open>
  Challenges under interruption: requests, any number of verifications stopped between any two of their Redis
  commands, and uses of the proof are the steps of one system, and its invariant says who can still win a
  challenge.
\<close>

section \<open>The system\<close>

text \<open>
  Calls are named by the secret they would mint.  What was requested and what was proved are recorded beside
  the store.
\<close>

record otp_system =
  sy_db :: otp_db
  sy_calls :: "string \<Rightarrow> verify_call option"
  sy_issued :: "uuid \<Rightarrow> (string \<times> string) option"
  sy_proofs :: "(string \<times> VerifiedPhone) list"

inductive otp_step :: "otp_env \<Rightarrow> OtpPolicy \<Rightarrow> otp_system \<Rightarrow> otp_system \<Rightarrow> bool" for env p where
  ask: "normalize_phone env raw (op_default_region p) = Inr phone \<Longrightarrow> sy_issued S cid = None
    \<Longrightarrow> request_phone_challenge env p now cid code salt delivered raw purpose ip (sy_db S) = (r, s1)
    \<Longrightarrow> otp_step env p S (S\<lparr>sy_db := s1, sy_issued := (sy_issued S)(cid := Some (phone, purpose_value purpose))\<rparr>)"
| begin_call: "sy_calls S token = None
    \<Longrightarrow> otp_step env p S (S\<lparr>sy_calls := (sy_calls S)(token := Some
      \<lparr>vw_challenge = cid, vw_code = code, vw_token = token, vw_now = now, vw_pc = VRead\<rparr>)\<rparr>)"
| command: "sy_calls S token = Some w \<Longrightarrow> verify_command env p clock w (sy_db S) = (pc, s1)
    \<Longrightarrow> otp_step env p S (S\<lparr>sy_db := s1, sy_calls := (sy_calls S)(token := Some (w\<lparr>vw_pc := pc\<rparr>))\<rparr>)"
| spend: "verify_phone_token env p now token (sy_db S) = (Inr v, s1)
    \<Longrightarrow> otp_step env p S (S\<lparr>sy_db := s1, sy_proofs := sy_proofs S @ [(token, v)]\<rparr>)"
| waste: "verify_phone_token env p now token (sy_db S) = (Inl e, s1) \<Longrightarrow> otp_step env p S (S\<lparr>sy_db := s1\<rparr>)"

definition fresh_system :: "otp_system \<Rightarrow> bool" where
  "fresh_system S \<longleftrightarrow> ot_challenges (sy_db S) = (\<lambda>_. None) \<and> ot_tokens (sy_db S) = (\<lambda>_. None)
     \<and> sy_calls S = (\<lambda>_. None) \<and> sy_issued S = (\<lambda>_. None) \<and> sy_proofs S = []"

section \<open>Who can win\<close>

definition has_code :: "redis_hash option \<Rightarrow> bool" where
  "has_code x \<longleftrightarrow> (\<exists>h. x = Some h \<and> rh_code_hash h \<noteq> None)"

fun past_claim :: "verify_pc \<Rightarrow> bool" where
  "past_claim (VCheck h) = True"
| "past_claim (VMint h) = True"
| "past_claim (VEnd (Inr t)) = True"
| "past_claim _ = False"

fun may_win :: "bool \<Rightarrow> verify_pc \<Rightarrow> bool" where
  "may_win present (VCheck h) = present"
| "may_win present (VMint h) = True"
| "may_win present (VEnd (Inr t)) = True"
| "may_win present _ = False"

fun in_flight :: "verify_pc \<Rightarrow> bool" where
  "in_flight VRead = False"
| "in_flight (VEnd (Inl e)) = False"
| "in_flight _ = True"

fun carried :: "verify_pc \<Rightarrow> redis_hash option" where
  "carried (VClaim h) = Some h"
| "carried (VCheck h) = Some h"
| "carried (VMint h) = Some h"
| "carried _ = None"

definition names_issue :: "redis_hash \<Rightarrow> (string \<times> string) option \<Rightarrow> bool" where
  "names_issue h x \<longleftrightarrow> (\<exists>phone purpose. x = Some (phone, purpose) \<and> rh_phone h = Some phone \<and> rh_purpose h = Some purpose)"

definition challenges_ok :: "otp_system \<Rightarrow> bool" where
  "challenges_ok S \<longleftrightarrow> (\<forall>cid h. ot_challenges (sy_db S) cid = Some h \<longrightarrow>
     sy_issued S cid \<noteq> None \<and> (rh_code_hash h \<noteq> None \<longrightarrow> names_issue h (sy_issued S cid)))"

definition calls_ok :: "otp_system \<Rightarrow> bool" where
  "calls_ok S \<longleftrightarrow> (\<forall>t w. sy_calls S t = Some w \<longrightarrow> vw_token w = t
     \<and> (in_flight (vw_pc w) \<longrightarrow> sy_issued S (vw_challenge w) \<noteq> None)
     \<and> (\<forall>h. carried (vw_pc w) = Some h \<longrightarrow> names_issue h (sy_issued S (vw_challenge w))))"

definition claims_ok :: "otp_system \<Rightarrow> bool" where
  "claims_ok S \<longleftrightarrow> (\<forall>t w h. sy_calls S t = Some w \<longrightarrow> ot_challenges (sy_db S) (vw_challenge w) = Some h
     \<longrightarrow> rh_code_hash h \<noteq> None \<longrightarrow> rh_consumed_at h = None \<longrightarrow> \<not> past_claim (vw_pc w))"

definition one_winner :: "otp_system \<Rightarrow> bool" where
  "one_winner S \<longleftrightarrow> (\<forall>t1 w1 t2 w2. sy_calls S t1 = Some w1 \<longrightarrow> sy_calls S t2 = Some w2
     \<longrightarrow> vw_challenge w1 = vw_challenge w2
     \<longrightarrow> may_win (has_code (ot_challenges (sy_db S) (vw_challenge w1))) (vw_pc w1)
     \<longrightarrow> may_win (has_code (ot_challenges (sy_db S) (vw_challenge w2))) (vw_pc w2) \<longrightarrow> t1 = t2)"

definition minted :: "otp_system \<Rightarrow> string \<Rightarrow> verify_call \<Rightarrow> bool" where
  "minted S t w \<longleftrightarrow> sy_calls S t = Some w \<and> (\<exists>v. vw_pc w = VEnd (Inr v))"

definition tokens_ok :: "otp_env \<Rightarrow> OtpPolicy \<Rightarrow> otp_system \<Rightarrow> bool" where
  "tokens_ok env p S \<longleftrightarrow> (\<forall>k e. ot_tokens (sy_db S) k = Some e \<longrightarrow> (\<exists>t w purpose. k = token_key env p t \<and> minted S t w
     \<and> t \<notin> fst ` set (sy_proofs S) \<and> tp_purpose (vo_value e) = Some purpose
     \<and> sy_issued S (vw_challenge w) = Some (tp_phone (vo_value e), purpose)))"

definition proofs_ok :: "otp_system \<Rightarrow> bool" where
  "proofs_ok S \<longleftrightarrow> distinct (map fst (sy_proofs S)) \<and> (\<forall>t v. (t, v) \<in> set (sy_proofs S) \<longrightarrow>
     (\<exists>w purpose. minted S t w \<and> vp_purpose v = Some purpose
       \<and> sy_issued S (vw_challenge w) = Some (vp_phone_e164 v, purpose)))"

definition otp_inv :: "otp_env \<Rightarrow> OtpPolicy \<Rightarrow> otp_system \<Rightarrow> bool" where
  "otp_inv env p S \<longleftrightarrow> challenges_ok S \<and> calls_ok S \<and> claims_ok S \<and> one_winner S \<and> tokens_ok env p S \<and> proofs_ok S"

lemmas otp_inv_defs = challenges_ok_def calls_ok_def claims_ok_def one_winner_def tokens_ok_def proofs_ok_def minted_def

lemma fresh_inv: "fresh_system S \<Longrightarrow> otp_inv env p S"
  by (simp add: otp_inv_def otp_inv_defs fresh_system_def)

section \<open>The commands\<close>

lemma count_caps_frame:
  "count_caps now cs s = (r, s1) \<Longrightarrow> ot_challenges s1 = ot_challenges s \<and> ot_tokens s1 = ot_tokens s \<and> ot_sms s1 = ot_sms s"
proof (induction cs arbitrary: s)
  case (Cons c cs)
  then show ?case
    by (auto simp: Let_def incr_rate_def expire_rate_nx_def split: option.splits prod.splits if_splits)
qed simp

lemma request_frame:
  assumes "normalize_phone env raw (op_default_region p) = Inr phone"
    and "request_phone_challenge env p now cid code salt delivered raw purpose ip s = (r, s1)"
  shows "ot_tokens s1 = ot_tokens s" "ot_challenges s1 = ot_challenges s
    \<or> ot_challenges s1 = (ot_challenges s)(cid := Some (new_challenge env p now phone purpose code salt))"
  using assms
  by (auto dest!: count_caps_frame simp: request_phone_challenge_def require_within_caps_def put_cooldown_def put_hash_def Let_def
      split: prod.splits sum.splits if_splits)

lemma live_hash_Some: "live_hash now x = Some h \<Longrightarrow> x = Some h"
  by (auto simp: live_hash_def split: option.splits if_splits)

lemma judge_Match: "judge_code env p now code x = Match h \<Longrightarrow> x = Some h \<and> rh_code_hash h \<noteq> None \<and> rh_consumed_at h = None"
  by (auto simp: judge_code_def split: option.splits if_splits)

lemma judge_known: "judge_code env p now code x = Mismatch \<Longrightarrow> x \<noteq> None"
  by (cases x) (auto simp: judge_code_def)

text \<open>No command other than a request brings a code back.\<close>

definition wanes :: "redis_hash option \<Rightarrow> redis_hash option \<Rightarrow> bool" where
  "wanes x x' \<longleftrightarrow> (\<forall>h'. x' = Some h' \<longrightarrow> rh_code_hash h' \<noteq> None \<longrightarrow> (\<exists>h. x = Some h \<and> rh_code_hash h \<noteq> None
     \<and> rh_phone h' = rh_phone h \<and> rh_purpose h' = rh_purpose h \<and> (rh_consumed_at h' = None \<longrightarrow> rh_consumed_at h = None)))"

lemma wanes_refl [simp]: "wanes x x" by (simp add: wanes_def)

lemma wanes_None [simp]: "wanes x None" by (simp add: wanes_def)

lemma wanes_code: "wanes x x' \<Longrightarrow> has_code x' \<Longrightarrow> has_code x"
  by (auto simp: wanes_def has_code_def)

lemma blank_fields [simp]: "rh_code_hash blank_hash = None" "rh_consumed_at blank_hash = None"
  by (simp_all add: blank_hash_def)

lemma hash_or_blank_cases:
  "hash_or_blank now cid s = blank_hash \<or> ot_challenges s cid = Some (hash_or_blank now cid s)"
  by (auto simp: hash_or_blank_def hgetall_def split: option.splits dest: live_hash_Some)

lemma incr_wanes: "hincrby_attempts now cid s = (n, s1) \<Longrightarrow> wanes (ot_challenges s cid) (ot_challenges s1 cid)
    \<and> (\<forall>c. c \<noteq> cid \<longrightarrow> ot_challenges s1 c = ot_challenges s c) \<and> ot_tokens s1 = ot_tokens s"
  using hash_or_blank_cases [of now cid s]
  by (auto simp: hincrby_attempts_def put_hash_def wanes_def Let_def)

lemma setnx_wanes: "hsetnx_consumed now stamp cid s = (won, s1) \<Longrightarrow> wanes (ot_challenges s cid) (ot_challenges s1 cid)
    \<and> (\<forall>c. c \<noteq> cid \<longrightarrow> ot_challenges s1 c = ot_challenges s c) \<and> ot_tokens s1 = ot_tokens s"
  using hash_or_blank_cases [of now cid s]
  by (auto simp: hsetnx_consumed_def put_hash_def wanes_def Let_def split: if_splits)

lemma setnx_wins: "hsetnx_consumed now stamp cid s = (True, s1) \<Longrightarrow>
    (\<exists>h. ot_challenges s1 cid = Some h \<and> rh_consumed_at h \<noteq> None)
    \<and> (has_code (ot_challenges s1 cid) \<longrightarrow> (\<exists>h. ot_challenges s cid = Some h \<and> rh_code_hash h \<noteq> None \<and> rh_consumed_at h = None))"
  using hash_or_blank_cases [of now cid s]
  by (auto simp: hsetnx_consumed_def put_hash_def has_code_def Let_def split: if_splits)

lemma mint_frame: "mint_token env p clock now token h s = (r, s1) \<Longrightarrow> ot_challenges s1 = ot_challenges s"
  by (auto simp: mint_token_def split: option.splits)

lemma command_wanes:
  assumes "verify_command env p clock w s = (pc, s1)"
  shows "wanes (ot_challenges s (vw_challenge w)) (ot_challenges s1 (vw_challenge w))
    \<and> (\<forall>c. c \<noteq> vw_challenge w \<longrightarrow> ot_challenges s1 c = ot_challenges s c)"
  using assms
  by (cases "vw_pc w") (auto simp: verify_command_def Let_def delete_challenge_def dest!: incr_wanes setnx_wanes mint_frame
      split: verdict.splits prod.splits)

lemma command_tokens:
  assumes "verify_command env p clock w s = (pc, s1)"
  shows "ot_tokens s1 = ot_tokens s \<or> (\<exists>h v e phone. vw_pc w = VMint h \<and> pc = VEnd (Inr v)
    \<and> ot_tokens s1 = (ot_tokens s)(token_key env p (vw_token w) := Some e)
    \<and> rh_phone h = Some phone \<and> tp_phone (vo_value e) = phone \<and> tp_purpose (vo_value e) = rh_purpose h)"
  using assms
  by (cases "vw_pc w") (auto simp: verify_command_def mint_token_def Let_def delete_challenge_def dest!: incr_wanes setnx_wanes
      split: verdict.splits prod.splits option.splits)

lemma command_past_claim:
  assumes "verify_command env p clock w s = (pc, s1)" "past_claim pc"
  shows "past_claim (vw_pc w) \<or> (\<exists>h. vw_pc w = VClaim h \<and> pc = VCheck h
    \<and> (\<exists>g. ot_challenges s1 (vw_challenge w) = Some g \<and> rh_consumed_at g \<noteq> None)
    \<and> (has_code (ot_challenges s1 (vw_challenge w)) \<longrightarrow>
        (\<exists>g. ot_challenges s (vw_challenge w) = Some g \<and> rh_code_hash g \<noteq> None \<and> rh_consumed_at g = None)))"
  using assms
  by (cases "vw_pc w") (auto simp: verify_command_def Let_def dest!: setnx_wins
      split: verdict.splits prod.splits if_splits sum.splits)

lemma command_winner:
  assumes "verify_command env p clock w s = (pc, s1)" "may_win (has_code (ot_challenges s1 (vw_challenge w))) pc"
  shows "may_win (has_code (ot_challenges s (vw_challenge w))) (vw_pc w)
    \<or> (\<exists>g. ot_challenges s (vw_challenge w) = Some g \<and> rh_code_hash g \<noteq> None \<and> rh_consumed_at g = None)"
  using assms
  by (cases "vw_pc w") (auto simp: verify_command_def Let_def hexists_code_hash_def hgetall_def has_code_def
      dest!: setnx_wins live_hash_Some split: verdict.splits prod.splits if_splits sum.splits option.splits)

lemma command_in_flight:
  assumes "verify_command env p clock w s = (pc, s1)" "in_flight pc"
  shows "in_flight (vw_pc w) \<or> ot_challenges s (vw_challenge w) \<noteq> None"
  using assms
  by (cases "vw_pc w") (auto simp: verify_command_def Let_def hgetall_def
      dest!: live_hash_Some judge_Match judge_known split: verdict.splits prod.splits if_splits sum.splits)

lemma command_carried:
  assumes "verify_command env p clock w s = (pc, s1)" "carried pc = Some h"
  shows "carried (vw_pc w) = Some h \<or> (ot_challenges s (vw_challenge w) = Some h \<and> rh_code_hash h \<noteq> None)"
  using assms
  by (cases "vw_pc w") (auto simp: verify_command_def Let_def hgetall_def
      dest!: live_hash_Some judge_Match split: verdict.splits prod.splits if_splits sum.splits)

lemma command_ended: "verify_command env p clock w s = (pc, s1) \<Longrightarrow> vw_pc w = VEnd r \<Longrightarrow> pc = VEnd r \<and> s1 = s"
  by (simp add: verify_command_def)

lemma may_win_past: "may_win b pc \<Longrightarrow> past_claim pc"
  by (cases "(b, pc)" rule: may_win.cases) simp_all

lemma may_win_mono: "may_win b pc \<Longrightarrow> (b \<Longrightarrow> b') \<Longrightarrow> may_win b' pc"
  by (cases "(b, pc)" rule: may_win.cases) simp_all

lemma past_in_flight: "past_claim pc \<Longrightarrow> in_flight pc"
  by (cases pc rule: past_claim.cases) simp_all

section \<open>Every step keeps the invariant\<close>

lemma minted_calls: "minted (S\<lparr>sy_db := d, sy_issued := i\<rparr>) = minted S" "minted (S\<lparr>sy_db := d, sy_proofs := ps\<rparr>) = minted S"
  "minted (S\<lparr>sy_db := d\<rparr>) = minted S"
  by (simp_all add: minted_def fun_eq_iff)

lemma minted_past: "minted S t w \<Longrightarrow> sy_calls S t = Some w \<and> in_flight (vw_pc w)"
  by (auto simp: minted_def)

lemma issued_calls: "calls_ok S \<Longrightarrow> sy_calls S t = Some w \<Longrightarrow> in_flight (vw_pc w) \<Longrightarrow> sy_issued S (vw_challenge w) \<noteq> None"
  by (simp add: calls_ok_def)

lemma carried_in_flight: "carried pc = Some h \<Longrightarrow> in_flight pc"
  by (cases pc) simp_all

lemma inv_ask:
  assumes "otp_inv env p S" "normalize_phone env raw (op_default_region p) = Inr phone" "sy_issued S cid = None"
    and "request_phone_challenge env p now cid code salt delivered raw purpose ip (sy_db S) = (r, s1)"
  shows "otp_inv env p (S\<lparr>sy_db := s1, sy_issued := (sy_issued S)(cid := Some (phone, purpose_value purpose))\<rparr>)"
    (is "otp_inv env p ?S")
proof -
  have inv: "challenges_ok S" "calls_ok S" "claims_ok S" "one_winner S" "tokens_ok env p S" "proofs_ok S"
    using assms(1) by (simp_all add: otp_inv_def)
  note fr = request_frame [OF assms(2,4)]
  have elsewhere: "vw_challenge w \<noteq> cid" if "sy_calls S t = Some w" "in_flight (vw_pc w)" for t w
    using issued_calls [OF inv(2) that] assms(3) by auto
  have other: "c \<noteq> cid \<Longrightarrow> ot_challenges s1 c = ot_challenges (sy_db S) c" for c using fr(2) by auto
  have here: "ot_challenges s1 cid = None \<or> ot_challenges s1 cid = Some (new_challenge env p now phone purpose code salt)"
  proof -
    have "ot_challenges (sy_db S) cid = None" using inv(1) assms(3) unfolding challenges_ok_def
      by (metis option.exhaust)
    then show ?thesis using fr(2) by auto
  qed
  have "challenges_ok ?S" unfolding challenges_ok_def
  proof (intro allI impI)
    fix c h assume h: "ot_challenges (sy_db ?S) c = Some h"
    show "sy_issued ?S c \<noteq> None \<and> (rh_code_hash h \<noteq> None \<longrightarrow> names_issue h (sy_issued ?S c))"
    proof (cases "c = cid")
      case True then show ?thesis using h here by (auto simp: new_challenge_def names_issue_def)
    next
      case False then show ?thesis using h other [OF False] inv(1) by (simp add: challenges_ok_def)
    qed
  qed
  moreover have "calls_ok ?S"
    unfolding calls_ok_def
  proof (intro allI impI)
    fix t w assume "sy_calls ?S t = Some w"
    then have w: "sy_calls S t = Some w" by simp
    have old: "vw_token w = t" "in_flight (vw_pc w) \<longrightarrow> sy_issued S (vw_challenge w) \<noteq> None"
      "\<forall>h. carried (vw_pc w) = Some h \<longrightarrow> names_issue h (sy_issued S (vw_challenge w))"
      using inv(2) w unfolding calls_ok_def by blast+
    show "vw_token w = t \<and> (in_flight (vw_pc w) \<longrightarrow> sy_issued ?S (vw_challenge w) \<noteq> None)
      \<and> (\<forall>h. carried (vw_pc w) = Some h \<longrightarrow> names_issue h (sy_issued ?S (vw_challenge w)))"
    proof (cases "in_flight (vw_pc w)")
      case True then show ?thesis using old elsewhere [OF w True] by simp
    next
      case False then show ?thesis using old carried_in_flight by auto
    qed
  qed
  moreover have "claims_ok ?S" unfolding claims_ok_def
  proof (intro allI impI)
    fix t w h assume a: "sy_calls ?S t = Some w" "ot_challenges (sy_db ?S) (vw_challenge w) = Some h"
      "rh_code_hash h \<noteq> None" "rh_consumed_at h = None"
    show "\<not> past_claim (vw_pc w)"
    proof
      assume past: "past_claim (vw_pc w)"
      have "vw_challenge w \<noteq> cid" using elsewhere [of t w] a(1) past_in_flight [OF past] by simp
      then show False using a past other [of "vw_challenge w"] inv(3) unfolding claims_ok_def by simp
    qed
  qed
  moreover have "one_winner ?S" unfolding one_winner_def
  proof (intro allI impI)
    fix t1 w1 t2 w2 assume a: "sy_calls ?S t1 = Some w1" "sy_calls ?S t2 = Some w2" "vw_challenge w1 = vw_challenge w2"
      "may_win (has_code (ot_challenges (sy_db ?S) (vw_challenge w1))) (vw_pc w1)"
      "may_win (has_code (ot_challenges (sy_db ?S) (vw_challenge w2))) (vw_pc w2)"
    have "vw_challenge w1 \<noteq> cid" using elsewhere [of t1 w1] a(1) past_in_flight [OF may_win_past [OF a(4)]] by simp
    then show "t1 = t2" using a other [of "vw_challenge w1"] inv(4) unfolding one_winner_def by simp
  qed
  moreover have "tokens_ok env p ?S" unfolding tokens_ok_def minted_calls
  proof (intro allI impI)
    fix k e assume "ot_tokens (sy_db ?S) k = Some e"
    then have "ot_tokens (sy_db S) k = Some e" using fr(1) by simp
    with inv(5) obtain t w purpose' where m: "k = token_key env p t" "minted S t w" "t \<notin> fst ` set (sy_proofs S)"
      "tp_purpose (vo_value e) = Some purpose'" "sy_issued S (vw_challenge w) = Some (tp_phone (vo_value e), purpose')"
      unfolding tokens_ok_def by blast
    then have "vw_challenge w \<noteq> cid" using assms(3) by auto
    with m show "\<exists>t w purpose. k = token_key env p t \<and> minted S t w \<and> t \<notin> fst ` set (sy_proofs ?S)
      \<and> tp_purpose (vo_value e) = Some purpose \<and> sy_issued ?S (vw_challenge w) = Some (tp_phone (vo_value e), purpose)"
      by (intro exI [of _ t] exI [of _ w] exI [of _ purpose']) simp
  qed
  moreover have "proofs_ok ?S" unfolding proofs_ok_def minted_calls
  proof (intro conjI allI impI)
    show "distinct (map fst (sy_proofs ?S))" using inv(6) by (simp add: proofs_ok_def)
    fix t v assume "(t, v) \<in> set (sy_proofs ?S)"
    then have "(t, v) \<in> set (sy_proofs S)" by simp
    with inv(6) obtain w purpose' where m: "minted S t w" "vp_purpose v = Some purpose'"
      "sy_issued S (vw_challenge w) = Some (vp_phone_e164 v, purpose')"
      unfolding proofs_ok_def by blast
    then have "vw_challenge w \<noteq> cid" using assms(3) by auto
    with m show "\<exists>w purpose. minted S t w \<and> vp_purpose v = Some purpose
      \<and> sy_issued ?S (vw_challenge w) = Some (vp_phone_e164 v, purpose)"
      by (intro exI [of _ w] exI [of _ purpose']) simp
  qed
  ultimately show ?thesis by (simp add: otp_inv_def)
qed

lemma inv_begin:
  assumes "otp_inv env p S" "sy_calls S token = None"
  shows "otp_inv env p (S\<lparr>sy_calls := (sy_calls S)(token := Some
      \<lparr>vw_challenge = cid, vw_code = code, vw_token = token, vw_now = now, vw_pc = VRead\<rparr>)\<rparr>)" (is "otp_inv env p ?S")
proof -
  have inv: "challenges_ok S" "calls_ok S" "claims_ok S" "one_winner S" "tokens_ok env p S" "proofs_ok S"
    using assms(1) by (simp_all add: otp_inv_def)
  have keep: "minted S t w \<Longrightarrow> minted ?S t w" for t w using assms(2) by (auto simp: minted_def)
  have "tokens_ok env p ?S" using inv(5) keep unfolding tokens_ok_def by simp blast
  moreover have "proofs_ok ?S" using inv(6) keep unfolding proofs_ok_def by simp blast
  ultimately show ?thesis using inv(1-4) by (simp add: otp_inv_def challenges_ok_def calls_ok_def claims_ok_def one_winner_def)
qed

lemma inv_command:
  assumes "otp_inv env p S" "sy_calls S token = Some w" "verify_command env p clock w (sy_db S) = (pc, s1)"
    and inj: "inj (token_key env p)"
  shows "otp_inv env p (S\<lparr>sy_db := s1, sy_calls := (sy_calls S)(token := Some (w\<lparr>vw_pc := pc\<rparr>))\<rparr>)" (is "otp_inv env p ?S")
proof -
  have inv: "challenges_ok S" "calls_ok S" "claims_ok S" "one_winner S" "tokens_ok env p S" "proofs_ok S"
    using assms(1) by (simp_all add: otp_inv_def)
  let ?c = "vw_challenge w"
  note wane = command_wanes [OF assms(3)]
  have wane': "wanes (ot_challenges (sy_db S) c) (ot_challenges s1 c)" for c using wane by (cases "c = ?c") auto
  have code: "has_code (ot_challenges s1 c) \<Longrightarrow> has_code (ot_challenges (sy_db S) c)" for c
    using wanes_code [OF wane'] .
  have open_before: "\<exists>g. ot_challenges (sy_db S) c = Some g \<and> rh_code_hash g \<noteq> None \<and> rh_consumed_at g = None
      \<and> rh_phone h = rh_phone g \<and> rh_purpose h = rh_purpose g"
    if "ot_challenges s1 c = Some h" "rh_code_hash h \<noteq> None" "rh_consumed_at h = None" for c h
    using wane' [of c] that unfolding wanes_def by metis
  have known: "in_flight pc \<Longrightarrow> sy_issued S ?c \<noteq> None"
    using command_in_flight [OF assms(3)] issued_calls [OF inv(2) assms(2)] inv(1) unfolding challenges_ok_def by auto
  have touched: "sy_issued S ?c \<noteq> None" if "ot_challenges s1 ?c \<noteq> None"
  proof (cases "in_flight (vw_pc w)")
    case True then show ?thesis using issued_calls [OF inv(2) assms(2)] by simp
  next
    case False
    then have "s1 = sy_db S" using assms(3) by (cases "vw_pc w" rule: in_flight.cases)
      (auto simp: verify_command_def split: verdict.splits)
    then show ?thesis using that inv(1) unfolding challenges_ok_def by auto
  qed
  have "challenges_ok ?S" unfolding challenges_ok_def
  proof (intro allI impI)
    fix c h assume h: "ot_challenges (sy_db ?S) c = Some h"
    have "sy_issued S c \<noteq> None" using h touched wane inv(1) unfolding challenges_ok_def by (cases "c = ?c") auto
    moreover have "names_issue h (sy_issued S c)" if "rh_code_hash h \<noteq> None"
      using wane' [of c] h that inv(1) unfolding wanes_def challenges_ok_def names_issue_def by simp metis
    ultimately show "sy_issued ?S c \<noteq> None \<and> (rh_code_hash h \<noteq> None \<longrightarrow> names_issue h (sy_issued ?S c))" by simp
  qed
  moreover have "calls_ok ?S"
  proof -
    have "names_issue h (sy_issued S ?c)" if "carried pc = Some h" for h
      using command_carried [OF assms(3) that] inv(1,2) assms(2) unfolding calls_ok_def challenges_ok_def by auto
    moreover have "vw_token w = token" using inv(2) assms(2) by (simp add: calls_ok_def)
    ultimately show ?thesis using inv(2) known unfolding calls_ok_def by auto
  qed
  moreover have "claims_ok ?S" unfolding claims_ok_def
  proof (intro allI impI)
    fix t v h assume a: "sy_calls ?S t = Some v" "ot_challenges (sy_db ?S) (vw_challenge v) = Some h"
      "rh_code_hash h \<noteq> None" "rh_consumed_at h = None"
    obtain g where g: "ot_challenges (sy_db S) (vw_challenge v) = Some g" "rh_code_hash g \<noteq> None" "rh_consumed_at g = None"
      using open_before [of "vw_challenge v" h] a by auto
    show "\<not> past_claim (vw_pc v)"
    proof (cases "t = token")
      case True
      then have v: "vw_challenge v = ?c" "vw_pc v = pc" using a(1) by auto
      have "\<not> past_claim (vw_pc w)" using inv(3) assms(2) g v(1) unfolding claims_ok_def by auto
      then show ?thesis using command_past_claim [OF assms(3)] a(2,4) v by auto
    next
      case False then show ?thesis using a(1) g inv(3) unfolding claims_ok_def by auto
    qed
  qed
  moreover have "one_winner ?S" unfolding one_winner_def
  proof (intro allI impI)
    fix t1 w1 t2 w2 assume a: "sy_calls ?S t1 = Some w1" "sy_calls ?S t2 = Some w2" "vw_challenge w1 = vw_challenge w2"
      "may_win (has_code (ot_challenges (sy_db ?S) (vw_challenge w1))) (vw_pc w1)"
      "may_win (has_code (ot_challenges (sy_db ?S) (vw_challenge w2))) (vw_pc w2)"
    have earlier: "may_win (has_code (ot_challenges (sy_db S) (vw_challenge u))) (vw_pc u)"
      if "may_win (has_code (ot_challenges (sy_db ?S) (vw_challenge u))) (vw_pc u)" for u
      using that code by (auto intro: may_win_mono)
    have alone: "u = w" if "may_win (has_code (ot_challenges s1 ?c)) pc" "sy_calls S t = Some u" "t \<noteq> token"
      "vw_challenge u = ?c" "may_win (has_code (ot_challenges s1 ?c)) (vw_pc u)" for t u
    proof -
      have u: "may_win (has_code (ot_challenges (sy_db S) ?c)) (vw_pc u)" using that(5) code by (auto intro: may_win_mono)
      from command_winner [OF assms(3) that(1)] show ?thesis
      proof
        assume "may_win (has_code (ot_challenges (sy_db S) ?c)) (vw_pc w)"
        then have "t = token" using inv(4) that(2,4) assms(2) u unfolding one_winner_def by metis
        then show ?thesis using that(3) by simp
      next
        assume "\<exists>g. ot_challenges (sy_db S) ?c = Some g \<and> rh_code_hash g \<noteq> None \<and> rh_consumed_at g = None"
        then have "\<not> past_claim (vw_pc u)" using inv(3) that(2,4) unfolding claims_ok_def by metis
        then show ?thesis using may_win_past [OF u] by simp
      qed
    qed
    show "t1 = t2"
    proof (rule ccontr)
      assume ne: "t1 \<noteq> t2"
      show False
      proof (cases "t1 = token \<or> t2 = token")
        case False
        then show False using a earlier [OF a(4)] earlier [OF a(5)] inv(4) ne unfolding one_winner_def by auto
      next
        case True
        then obtain t u where u: "sy_calls S t = Some u" "t \<noteq> token" "vw_challenge u = ?c"
          "may_win (has_code (ot_challenges s1 ?c)) (vw_pc u)" "may_win (has_code (ot_challenges s1 ?c)) pc"
          using a ne by (auto split: if_splits)
        have "u = w" using alone [OF u(5,1,2,3,4)] .
        then have "vw_token w = t" "vw_token w = token" using inv(2) u(1) assms(2) unfolding calls_ok_def by blast+
        then show False using u(2) by simp
      qed
    qed
  qed
  moreover have keep: "minted ?S t u" if "minted S t u" for t u
    using that assms(2) command_ended [OF assms(3)] by (auto simp: minted_def)
  moreover have "tokens_ok env p ?S" unfolding tokens_ok_def
  proof (intro allI impI)
    fix k e assume e: "ot_tokens (sy_db ?S) k = Some e"
    show "\<exists>t u purpose. k = token_key env p t \<and> minted ?S t u \<and> t \<notin> fst ` set (sy_proofs ?S)
      \<and> tp_purpose (vo_value e) = Some purpose \<and> sy_issued ?S (vw_challenge u) = Some (tp_phone (vo_value e), purpose)"
    proof (cases "ot_tokens (sy_db S) k = Some e")
      case True
      then obtain t u purpose where "k = token_key env p t" "minted S t u" "t \<notin> fst ` set (sy_proofs S)"
        "tp_purpose (vo_value e) = Some purpose" "sy_issued S (vw_challenge u) = Some (tp_phone (vo_value e), purpose)"
        using inv(5) unfolding tokens_ok_def by blast
      then show ?thesis using keep by (intro exI [of _ t] exI [of _ u] exI [of _ purpose]) simp
    next
      case False
      then obtain h v phone where m: "vw_pc w = VMint h" "pc = VEnd (Inr v)" "k = token_key env p (vw_token w)"
        "rh_phone h = Some phone" "tp_phone (vo_value e) = phone" "tp_purpose (vo_value e) = rh_purpose h"
        using command_tokens [OF assms(3)] e by (auto split: if_splits)
      have tok: "vw_token w = token" using inv(2) assms(2) by (simp add: calls_ok_def)
      have iss: "names_issue h (sy_issued S ?c)" using inv(2) assms(2) m(1) unfolding calls_ok_def by auto
      have unused: "token \<notin> fst ` set (sy_proofs S)"
        using inv(6) assms(2) m(1) unfolding proofs_ok_def minted_def by force
      obtain purpose where "rh_purpose h = Some purpose" "sy_issued S ?c = Some (phone, purpose)"
        using iss m(4) by (auto simp: names_issue_def)
      then show ?thesis using m tok unused
        by (intro exI [of _ token] exI [of _ "w\<lparr>vw_pc := pc\<rparr>"] exI [of _ purpose]) (simp add: minted_def)
    qed
  qed
  moreover have "proofs_ok ?S" using inv(6) keep unfolding proofs_ok_def by simp blast
  ultimately show ?thesis by (simp add: otp_inv_def)
qed

section \<open>Uses of the proof\<close>

lemma token_spent:
  assumes "verify_phone_token env p now token s = (Inr v, s1)"
  obtains e where "ot_tokens s (token_key env p token) = Some e" "vp_phone_e164 v = tp_phone (vo_value e)"
    "vp_purpose v = tp_purpose (vo_value e)" "s1 = s\<lparr>ot_tokens := (ot_tokens s)(token_key env p token := None)\<rparr>"
proof -
  obtain pl where pl: "live_value now (ot_tokens s (token_key env p token)) = Some pl"
    "vp_phone_e164 v = tp_phone pl" "vp_purpose v = tp_purpose pl"
    "s1 = s\<lparr>ot_tokens := (ot_tokens s)(token_key env p token := None)\<rparr>"
    using assms by (auto simp: verify_phone_token_def Let_def split: option.splits if_splits)
  from pl(1) obtain e where "ot_tokens s (token_key env p token) = Some e" "vo_value e = pl"
    by (auto simp: live_value_def split: option.splits if_splits)
  with pl that show thesis by simp
qed

lemma token_wasted: "verify_phone_token env p now token s = (Inl e, s1)
    \<Longrightarrow> s1 = s\<lparr>ot_tokens := (ot_tokens s)(token_key env p token := None)\<rparr>"
  by (auto simp: verify_phone_token_def Let_def split: option.splits if_splits)

lemma tokens_shrink:
  assumes "tokens_ok env p S" "\<And>k e. m k = Some e \<Longrightarrow> ot_tokens (sy_db S) k = Some e"
  shows "tokens_ok env p (S\<lparr>sy_db := (sy_db S)\<lparr>ot_tokens := m\<rparr>\<rparr>)"
  using assms unfolding tokens_ok_def minted_calls by simp

lemma inv_waste:
  assumes "otp_inv env p S" "verify_phone_token env p now token (sy_db S) = (Inl e, s1)"
  shows "otp_inv env p (S\<lparr>sy_db := s1\<rparr>)"
proof -
  have "tokens_ok env p S" using assms(1) by (simp add: otp_inv_def)
  then have "tokens_ok env p (S\<lparr>sy_db := s1\<rparr>)" unfolding token_wasted [OF assms(2)]
    by (rule tokens_shrink) (simp split: if_splits)
  then show ?thesis using assms(1) token_wasted [OF assms(2)]
    by (simp add: otp_inv_def challenges_ok_def calls_ok_def claims_ok_def one_winner_def proofs_ok_def minted_calls)
qed

lemma inv_spend:
  assumes "otp_inv env p S" "verify_phone_token env p now token (sy_db S) = (Inr v, s1)" and inj: "inj (token_key env p)"
  shows "otp_inv env p (S\<lparr>sy_db := s1, sy_proofs := sy_proofs S @ [(token, v)]\<rparr>)" (is "otp_inv env p ?S")
proof -
  have inv: "challenges_ok S" "calls_ok S" "claims_ok S" "one_winner S" "tokens_ok env p S" "proofs_ok S"
    using assms(1) by (simp_all add: otp_inv_def)
  obtain e where e: "ot_tokens (sy_db S) (token_key env p token) = Some e" "vp_phone_e164 v = tp_phone (vo_value e)"
    "vp_purpose v = tp_purpose (vo_value e)"
    and s1: "s1 = (sy_db S)\<lparr>ot_tokens := (ot_tokens (sy_db S))(token_key env p token := None)\<rparr>"
    using assms(2) by (rule token_spent)
  from inv(5) e(1) obtain t w purpose where t: "token_key env p token = token_key env p t" "minted S t w"
    "t \<notin> fst ` set (sy_proofs S)" "tp_purpose (vo_value e) = Some purpose"
    "sy_issued S (vw_challenge w) = Some (tp_phone (vo_value e), purpose)" unfolding tokens_ok_def by blast
  have tt: "t = token" using inj t(1) by (simp add: inj_eq)
  have "proofs_ok ?S" unfolding proofs_ok_def minted_calls
  proof (intro conjI allI impI)
    show "distinct (map fst (sy_proofs ?S))" using inv(6) t(3) tt by (simp add: proofs_ok_def)
    fix u x assume "(u, x) \<in> set (sy_proofs ?S)"
    then consider "(u, x) \<in> set (sy_proofs S)" | "u = token" "x = v" by auto
    then show "\<exists>w purpose. minted S u w \<and> vp_purpose x = Some purpose
      \<and> sy_issued ?S (vw_challenge w) = Some (vp_phone_e164 x, purpose)"
    proof cases
      case 1 then show ?thesis using inv(6) unfolding proofs_ok_def by simp
    next
      case 2 then show ?thesis using t tt e by (intro exI [of _ w] exI [of _ purpose]) simp
    qed
  qed
  moreover have "tokens_ok env p ?S" unfolding tokens_ok_def minted_calls
  proof (intro allI impI)
    fix k x assume "ot_tokens (sy_db ?S) k = Some x"
    then have k: "k \<noteq> token_key env p token" "ot_tokens (sy_db S) k = Some x" using s1 by (auto split: if_splits)
    from inv(5) k(2) obtain u y purpose where "k = token_key env p u" "minted S u y" "u \<notin> fst ` set (sy_proofs S)"
      "tp_purpose (vo_value x) = Some purpose" "sy_issued S (vw_challenge y) = Some (tp_phone (vo_value x), purpose)"
      unfolding tokens_ok_def by blast
    with k(1) show "\<exists>t w purpose. k = token_key env p t \<and> minted S t w \<and> t \<notin> fst ` set (sy_proofs ?S)
      \<and> tp_purpose (vo_value x) = Some purpose \<and> sy_issued ?S (vw_challenge w) = Some (tp_phone (vo_value x), purpose)"
      by (intro exI [of _ u] exI [of _ y] exI [of _ purpose]) auto
  qed
  ultimately show ?thesis using inv(1-4) s1
    by (simp add: otp_inv_def challenges_ok_def calls_ok_def claims_ok_def one_winner_def)
qed

lemma step_inv: "otp_step env p S S' \<Longrightarrow> otp_inv env p S \<Longrightarrow> inj (token_key env p) \<Longrightarrow> otp_inv env p S'"
proof (induction rule: otp_step.induct)
  case ask then show ?case by (blast intro: inv_ask)
next
  case begin_call then show ?case by (blast intro: inv_begin)
next
  case command then show ?case by (blast intro: inv_command)
next
  case spend then show ?case by (blast intro: inv_spend)
next
  case waste then show ?case by (blast intro: inv_waste)
qed

lemma run_inv: "(otp_step env p)\<^sup>*\<^sup>* S S' \<Longrightarrow> otp_inv env p S \<Longrightarrow> inj (token_key env p) \<Longrightarrow> otp_inv env p S'"
  by (induction rule: rtranclp_induct) (auto intro: step_inv)

end
