(* ===== verification/Otp_Laws.thy ===== *)
theory Otp_Laws
  imports Otp_Facts
begin

text \<open>What the challenges guarantee: single use under any interruption, the two caps, and how far they reach.\<close>

section \<open>Single use\<close>

text \<open>C26: However the commands of any number of concurrent verifications are interleaved, and whichever keys expire
  between them: a challenge is proved at most once, each minted secret is accepted at most once, and the proof
  names the phone and the purpose the challenge was requested for.
\<close>

theorem challenge_proves_at_most_once:
  assumes "fresh_system S0" "inj (token_key env p)" "(otp_step env p)\<^sup>*\<^sup>* S0 S"
    and "(t1, v1) \<in> set (sy_proofs S)" "(t2, v2) \<in> set (sy_proofs S)"
    and "sy_calls S t1 = Some w1" "sy_calls S t2 = Some w2" "vw_challenge w1 = vw_challenge w2"
  shows "t1 = t2 \<and> v1 = v2 \<and> distinct (map fst (sy_proofs S))
    \<and> (\<exists>purpose. vp_purpose v1 = Some purpose \<and> sy_issued S (vw_challenge w1) = Some (vp_phone_e164 v1, purpose))"
proof -
  have inv: "one_winner S" "proofs_ok S"
    using run_inv [OF assms(3) fresh_inv [OF assms(1)] assms(2)] by (simp_all add: otp_inv_def)
  have won: "\<exists>r. vw_pc w = VEnd (Inr r)" if "(t, v) \<in> set (sy_proofs S)" "sy_calls S t = Some w" for t v w
    using inv(2) that unfolding proofs_ok_def minted_def by fastforce
  have "t1 = t2" using inv(1) assms(6-8) won [OF assms(4,6)] won [OF assms(5,7)] unfolding one_winner_def by fastforce
  moreover have "distinct (map fst (sy_proofs S))" using inv(2) by (simp add: proofs_ok_def)
  moreover have "v1 = v2" using calculation assms(4,5) by (metis eq_key_imp_eq_value)
  moreover have "\<exists>purpose. vp_purpose v1 = Some purpose \<and> sy_issued S (vw_challenge w1) = Some (vp_phone_e164 v1, purpose)"
    using inv(2) assms(4,6) unfolding proofs_ok_def minted_def by fastforce
  ultimately show ?thesis by simp
qed

section \<open>A call that nobody interrupts\<close>

fun drive :: "otp_env \<Rightarrow> OtpPolicy \<Rightarrow> instant \<Rightarrow> nat \<Rightarrow> verify_call \<Rightarrow> 'a otp_db_scheme \<Rightarrow> verify_call \<times> 'a otp_db_scheme" where
  "drive env p clock 0 w s = (w, s)"
| "drive env p clock (Suc n) w s = (let (pc, s1) = verify_command env p clock w s in drive env p clock n (w\<lparr>vw_pc := pc\<rparr>) s1)"

lemma drive_call:
  "(let (w, s1) = drive env p now 4 \<lparr>vw_challenge = cid, vw_code = code, vw_token = token, vw_now = now, vw_pc = VRead\<rparr> s in
     (vw_pc w, s1)) = (let (r, s1) = verify_phone_challenge env p now token cid code s in (VEnd r, s1))"
proof -
  consider (no) e where "judge_code env p now code (hgetall now cid s) = Refuse e"
    | (miss) "judge_code env p now code (hgetall now cid s) = Mismatch"
    | (hit) h where "judge_code env p now code (hgetall now cid s) = Match h"
    by (cases "judge_code env p now code (hgetall now cid s)") auto
  then show ?thesis
  proof cases
    case no then show ?thesis by (simp add: numeral_eq_Suc verify_command_def verify_phone_challenge_def)
  next
    case miss then show ?thesis
      by (simp add: numeral_eq_Suc verify_command_def verify_phone_challenge_def Let_def split: prod.splits)
  next
    case (hit h)
    obtain won s1 where won: "hsetnx_consumed now now cid s = (won, s1)" by (cases "hsetnx_consumed now now cid s")
    show ?thesis
      by (cases won; cases "hexists_code_hash now cid s1"; cases "mint_token env p now now token h s1")
        (simp_all add: hit won numeral_eq_Suc verify_command_def verify_phone_challenge_def Let_def)
  qed
qed

text \<open>Four commands without an interruption are the call: same answer and same store.
\<close>

theorem uninterrupted_commands_are_the_call:
  "(let (w, s1) = drive env p now 4 \<lparr>vw_challenge = cid, vw_code = code, vw_token = token, vw_now = now, vw_pc = VRead\<rparr> s in
     (vw_pc w, s1)) = (let (r, s1) = verify_phone_challenge env p now token cid code s in (VEnd r, s1))"
  by (rule drive_call)

lemma drive_runs:
  assumes "sy_calls S t = Some w" "drive env p clock n w (sy_db S) = (w', s')"
  shows "(otp_step env p)\<^sup>*\<^sup>* S (S\<lparr>sy_db := s', sy_calls := (sy_calls S)(t := Some w')\<rparr>)"
  using assms
proof (induction n arbitrary: S w)
  case 0
  then have "S\<lparr>sy_db := s', sy_calls := (sy_calls S)(t := Some w')\<rparr> = S" by (simp add: fun_upd_idem)
  then show ?case by (simp only: rtranclp.rtrancl_refl)
next
  case (Suc n)
  obtain pc s1 where one: "verify_command env p clock w (sy_db S) = (pc, s1)" by fastforce
  let ?S1 = "S\<lparr>sy_db := s1, sy_calls := (sy_calls S)(t := Some (w\<lparr>vw_pc := pc\<rparr>))\<rparr>"
  have "otp_step env p S ?S1" by (rule otp_step.command [OF Suc.prems(1) one])
  moreover have "(otp_step env p)\<^sup>*\<^sup>* ?S1 (?S1\<lparr>sy_db := s', sy_calls := (sy_calls ?S1)(t := Some w')\<rparr>)"
    by (rule Suc.IH) (use Suc.prems(2) one in simp_all)
  moreover have "?S1\<lparr>sy_db := s', sy_calls := (sy_calls ?S1)(t := Some w')\<rparr> = S\<lparr>sy_db := s', sy_calls := (sy_calls S)(t := Some w')\<rparr>"
    by simp
  ultimately show ?case by (simp only: converse_rtranclp_into_rtranclp)
qed

lemma call_runs:
  assumes "sy_calls S t = None" "verify_phone_challenge env p now t cid code (sy_db S) = (r, s1)"
  shows "\<exists>S' w. (otp_step env p)\<^sup>*\<^sup>* S S' \<and> sy_db S' = s1 \<and> sy_calls S' t = Some w \<and> vw_challenge w = cid \<and> vw_pc w = VEnd r
    \<and> sy_issued S' = sy_issued S \<and> sy_proofs S' = sy_proofs S"
proof -
  let ?w = "\<lparr>vw_challenge = cid, vw_code = code, vw_token = t, vw_now = now, vw_pc = VRead\<rparr>"
  let ?S1 = "S\<lparr>sy_calls := (sy_calls S)(t := Some ?w)\<rparr>"
  obtain w s2 where w: "drive env p now 4 ?w (sy_db S) = (w, s2)" by fastforce
  have ended: "vw_pc w = VEnd r" "s2 = s1" using drive_call [of env p now cid code t "sy_db S"] w assms(2) by simp_all
  have cid: "vw_challenge w' = vw_challenge v" if "drive env p c n v d = (w', d')" for c n v d w' d'
    using that by (induction n arbitrary: v d) (auto split: prod.splits)
  have "(otp_step env p)\<^sup>*\<^sup>* ?S1 (?S1\<lparr>sy_db := s2, sy_calls := (sy_calls ?S1)(t := Some w)\<rparr>)"
    by (rule drive_runs) (use w in simp_all)
  moreover have "otp_step env p S ?S1" by (rule otp_step.begin_call [OF assms(1)])
  ultimately have "(otp_step env p)\<^sup>*\<^sup>* S (?S1\<lparr>sy_db := s2, sy_calls := (sy_calls ?S1)(t := Some w)\<rparr>)"
    by (rule converse_rtranclp_into_rtranclp [rotated])
  then show ?thesis using ended cid [OF w]
    by (intro exI [of _ "?S1\<lparr>sy_db := s2, sy_calls := (sy_calls ?S1)(t := Some w)\<rparr>"] exI [of _ w]) simp
qed

section \<open>Guessing\<close>

record guess =
  gu_now :: instant
  gu_token :: string
  gu_challenge :: uuid
  gu_code :: string

text \<open>The answers to guesses that come one after the other, each with the challenge it was for.\<close>

fun guess_all :: "otp_env \<Rightarrow> OtpPolicy \<Rightarrow> guess list \<Rightarrow> 'a otp_db_scheme \<Rightarrow> (uuid \<times> (otp_error + VerifiedPhoneToken)) list" where
  "guess_all env p [] s = []"
| "guess_all env p (g # gs) s = (let (r, s1) = verify_phone_challenge env p (gu_now g) (gu_token g) (gu_challenge g) (gu_code g) s in
     (gu_challenge g, r) # guess_all env p gs s1)"

fun wrong_code :: "otp_error + 'r \<Rightarrow> bool" where
  "wrong_code (Inl (WrongCode n m)) = True"
| "wrong_code _ = False"

definition misses_left :: "OtpPolicy \<Rightarrow> redis_hash option \<Rightarrow> nat" where
  "misses_left p x = (case x of None \<Rightarrow> 0 | Some h \<Rightarrow>
     if rh_code_hash h = None then 0 else nat (op_max_verify_attempts p) - attempts_of h)"

lemma wrong_code_read: "wrong_code (fst (verify_phone_challenge env p now token cid code s))
    \<Longrightarrow> judge_code env p now code (hgetall now cid s) = Mismatch"
  by (auto simp: verify_phone_challenge_def mint_token_def Let_def judge_code_def split: verdict.splits option.splits prod.splits if_splits)

lemma judge_Mismatch: "judge_code env p now code x = Mismatch
    \<Longrightarrow> \<exists>h. x = Some h \<and> rh_code_hash h \<noteq> None \<and> int (attempts_of h) < op_max_verify_attempts p"
  by (auto simp: judge_code_def split: option.splits if_splits)

lemma misses_left_verify:
  assumes "verify_phone_challenge env p now token c code s = (r, s1)"
  shows "misses_left p (ot_challenges s1 cid) + (if c = cid \<and> wrong_code r then 1 else 0) \<le> misses_left p (ot_challenges s cid)"
proof (cases "judge_code env p now code (hgetall now c s)")
  case (Refuse e) then show ?thesis using assms wrong_code_read [of env p now token c code s]
    by (auto simp: verify_phone_challenge_def)
next
  case Mismatch
  then obtain h where h: "hgetall now c s = Some h" "rh_code_hash h \<noteq> None" "int (attempts_of h) < op_max_verify_attempts p"
    using judge_Mismatch by blast
  have raw: "ot_challenges s c = Some h" using h(1) by (simp add: hgetall_def live_hash_Some)
  have "r = Inl (WrongCode (attempts_of h + 1) (nat (op_max_verify_attempts p)))"
    "s1 = put_hash c (h\<lparr>rh_attempts := Some (attempts_of h + 1)\<rparr>) s"
    using assms Mismatch h(1) by (auto simp: verify_phone_challenge_def hincrby_attempts_def hash_or_blank_def Let_def)
  then show ?thesis using raw h(2,3) by (auto simp: put_hash_def misses_left_def attempts_of_def)
next
  case (Match h)
  have "\<not> wrong_code r" using assms wrong_code_read [of env p now token c code s] Match by auto
  moreover have "ot_challenges s1 cid = ot_challenges s cid \<or> ot_challenges s1 cid = None
    \<or> (\<exists>g. ot_challenges s1 cid = Some g \<and> rh_code_hash g = None)
    \<or> (\<exists>g stamp. ot_challenges s cid = Some g \<and> ot_challenges s1 cid = Some (g\<lparr>rh_consumed_at := Some stamp\<rparr>))"
    using assms Match hash_or_blank_cases [of now c s]
    by (auto simp: verify_phone_challenge_def hsetnx_consumed_def put_hash_def delete_challenge_def mint_token_def Let_def
        split: if_splits option.splits)
  ultimately show ?thesis by (auto simp: misses_left_def attempts_of_def)
qed

text \<open>C27: Guesses that come one after the other: over the whole life of a challenge at most as many wrong codes are
  compared as the policy allows, whatever else is verified in between and whenever.
\<close>

theorem sequential_guesses_are_capped:
  "length (filter (\<lambda>(c, r). c = cid \<and> wrong_code r) (guess_all env p gs s)) \<le> misses_left p (ot_challenges s cid)
    \<and> misses_left p (ot_challenges s cid) \<le> nat (op_max_verify_attempts p)"
proof
  show "length (filter (\<lambda>(c, r). c = cid \<and> wrong_code r) (guess_all env p gs s)) \<le> misses_left p (ot_challenges s cid)"
  proof (induction gs arbitrary: s)
    case (Cons g gs)
    obtain r s1 where one: "verify_phone_challenge env p (gu_now g) (gu_token g) (gu_challenge g) (gu_code g) s = (r, s1)"
      by (cases "verify_phone_challenge env p (gu_now g) (gu_token g) (gu_challenge g) (gu_code g) s")
    then show ?case using misses_left_verify [OF one, of cid] Cons.IH [of s1] by auto
  qed simp
  show "misses_left p (ot_challenges s cid) \<le> nat (op_max_verify_attempts p)"
    by (simp add: misses_left_def split: option.splits)
qed

text \<open>Guesses that overlap: all of them read the record before the first one counts.\<close>

definition open_call :: "instant \<Rightarrow> uuid \<Rightarrow> string \<times> string \<Rightarrow> verify_pc \<Rightarrow> verify_call" where
  "open_call now cid g pc = \<lparr>vw_challenge = cid, vw_code = snd g, vw_token = fst g, vw_now = now, vw_pc = pc\<rparr>"

lemma open_call_pc [simp]: "(open_call now cid g pc)\<lparr>vw_pc := pc'\<rparr> = open_call now cid g pc'"
  by (simp add: open_call_def)

lemma open_call_fields [simp]: "vw_pc (open_call now cid g pc) = pc" "vw_challenge (open_call now cid g pc) = cid"
  "vw_code (open_call now cid g pc) = snd g" "vw_token (open_call now cid g pc) = fst g" "vw_now (open_call now cid g pc) = now"
  by (simp_all add: open_call_def)

fun pc_after :: "verdict \<Rightarrow> verify_pc" where
  "pc_after (Refuse e) = VEnd (Inl e)"
| "pc_after Mismatch = VMiss"
| "pc_after (Match h) = VClaim h"

lemma burst_reads:
  assumes "distinct (map fst gs)" "\<forall>g\<in>set gs. sy_calls S (fst g) = None"
  shows "\<exists>S'. (otp_step env p)\<^sup>*\<^sup>* S S' \<and> sy_db S' = sy_db S \<and> (\<forall>t. t \<notin> fst ` set gs \<longrightarrow> sy_calls S' t = sy_calls S t)
    \<and> (\<forall>g\<in>set gs. sy_calls S' (fst g) = Some (open_call now cid g (pc_after (judge_code env p now (snd g) (hgetall now cid (sy_db S))))))"
  using assms
proof (induction gs)
  case Nil then show ?case by (intro exI [of _ S]) auto
next
  case (Cons g gs)
  then obtain S' where S': "(otp_step env p)\<^sup>*\<^sup>* S S'" "sy_db S' = sy_db S" "\<forall>t. t \<notin> fst ` set gs \<longrightarrow> sy_calls S' t = sy_calls S t"
    "\<forall>g\<in>set gs. sy_calls S' (fst g) = Some (open_call now cid g (pc_after (judge_code env p now (snd g) (hgetall now cid (sy_db S)))))"
    by auto
  let ?pc = "pc_after (judge_code env p now (snd g) (hgetall now cid (sy_db S)))"
  let ?S1 = "S'\<lparr>sy_calls := (sy_calls S')(fst g := Some (open_call now cid g VRead))\<rparr>"
  let ?S2 = "?S1\<lparr>sy_db := sy_db S, sy_calls := (sy_calls ?S1)(fst g := Some (open_call now cid g ?pc))\<rparr>"
  have none: "sy_calls S' (fst g) = None" using S'(3) Cons.prems by auto
  have "otp_step env p S' ?S1" using otp_step.begin_call [OF none, of env p cid "snd g" now] by (simp add: open_call_def)
  moreover have "verify_command env p now (open_call now cid g VRead) (sy_db ?S1) = (?pc, sy_db S)"
    using S'(2) by (simp add: verify_command_def split: verdict.split)
  then have "otp_step env p ?S1 ?S2" using otp_step.command [of ?S1 "fst g" "open_call now cid g VRead" env p now ?pc "sy_db S"]
    by simp
  ultimately have run: "(otp_step env p)\<^sup>*\<^sup>* S ?S2" using S'(1) by (metis rtranclp.rtrancl_into_rtrancl)
  have apart: "fst g \<notin> fst ` set gs" using Cons.prems(1) by simp
  have "\<forall>x\<in>set (g # gs). sy_calls ?S2 (fst x) = Some (open_call now cid x (pc_after (judge_code env p now (snd x) (hgetall now cid (sy_db S)))))"
  proof
    fix x assume x: "x \<in> set (g # gs)"
    show "sy_calls ?S2 (fst x) = Some (open_call now cid x (pc_after (judge_code env p now (snd x) (hgetall now cid (sy_db S)))))"
    proof (cases "x = g")
      case False
      then have in_gs: "x \<in> set gs" using x by simp
      then have "fst x \<noteq> fst g" using apart by (metis image_eqI)
      then show ?thesis using S'(4) in_gs by simp
    qed simp
  qed
  then show ?case using run S'(3) by (intro exI [of _ ?S2]) auto
qed

definition still_open :: "instant \<Rightarrow> uuid \<Rightarrow> redis_hash \<Rightarrow> 'a otp_db_scheme \<Rightarrow> bool" where
  "still_open now cid h s \<longleftrightarrow> (\<exists>n. hgetall now cid s = Some (h\<lparr>rh_attempts := n\<rparr>))"

lemma incr_still_open: "still_open now cid h s \<Longrightarrow> still_open now cid h (snd (hincrby_attempts now cid s))"
  by (auto simp: still_open_def hincrby_attempts_def hash_or_blank_def hgetall_def put_hash_def live_hash_def Let_def
      split: option.splits if_splits)

lemma burst_misses:
  assumes "distinct (map fst gs)" "\<forall>g\<in>set gs. sy_calls S (fst g) = Some (open_call now cid g VMiss)" "still_open now cid h (sy_db S)"
  shows "\<exists>S'. (otp_step env p)\<^sup>*\<^sup>* S S' \<and> still_open now cid h (sy_db S')
    \<and> (\<forall>t. t \<notin> fst ` set gs \<longrightarrow> sy_calls S' t = sy_calls S t)
    \<and> (\<forall>g\<in>set gs. \<exists>n m. sy_calls S' (fst g) = Some (open_call now cid g (VEnd (Inl (WrongCode n m)))))"
  using assms
proof (induction gs)
  case Nil then show ?case by (intro exI [of _ S]) auto
next
  case (Cons g gs)
  then obtain S' where S': "(otp_step env p)\<^sup>*\<^sup>* S S'" "still_open now cid h (sy_db S')"
    "\<forall>t. t \<notin> fst ` set gs \<longrightarrow> sy_calls S' t = sy_calls S t"
    "\<forall>g\<in>set gs. \<exists>n m. sy_calls S' (fst g) = Some (open_call now cid g (VEnd (Inl (WrongCode n m))))"
    by auto
  have apart: "fst g \<notin> fst ` set gs" using Cons.prems(1) by simp
  then have mine: "sy_calls S' (fst g) = Some (open_call now cid g VMiss)" using S'(3) Cons.prems(2) by simp
  obtain n s1 where incr: "hincrby_attempts now cid (sy_db S') = (n, s1)" by (cases "hincrby_attempts now cid (sy_db S')")
  let ?pc = "VEnd (Inl (WrongCode n (nat (op_max_verify_attempts p))))"
  let ?S2 = "S'\<lparr>sy_db := s1, sy_calls := (sy_calls S')(fst g := Some (open_call now cid g ?pc))\<rparr>"
  have "verify_command env p now (open_call now cid g VMiss) (sy_db S') = (?pc, s1)"
    by (simp add: verify_command_def incr)
  then have "otp_step env p S' ?S2" using otp_step.command [OF mine, of env p now ?pc s1] by simp
  then have run: "(otp_step env p)\<^sup>*\<^sup>* S ?S2" using S'(1) by (metis rtranclp.rtrancl_into_rtrancl)
  have "\<exists>n m. sy_calls ?S2 (fst x) = Some (open_call now cid x (VEnd (Inl (WrongCode n m))))" if "x \<in> set (g # gs)" for x
  proof (cases "x = g")
    case False
    then have in_gs: "x \<in> set gs" using that by simp
    then have "fst x \<noteq> fst g" using apart by (metis image_eqI)
    then show ?thesis using S'(4) in_gs by simp
  qed auto
  moreover have "still_open now cid h s1" using incr_still_open [OF S'(2)] incr by simp
  ultimately show ?case using run S'(3) by (intro exI [of _ ?S2]) auto
qed

lemma claim_command:
  assumes "sy_calls S t = Some (open_call now cid (t, code) (VClaim h))" "still_open now cid h (sy_db S)"
    and "rh_consumed_at h = None" "rh_code_hash h \<noteq> None" "rh_phone h \<noteq> None"
  shows "\<exists>S' v. (otp_step env p)\<^sup>*\<^sup>* S S' \<and> sy_calls S' t = Some (open_call now cid (t, code) (VEnd (Inr v)))
    \<and> (\<forall>u. u \<noteq> t \<longrightarrow> sy_calls S' u = sy_calls S u)"
proof -
  let ?w = "open_call now cid (t, code)"
  obtain n where n: "hgetall now cid (sy_db S) = Some (h\<lparr>rh_attempts := n\<rparr>)" using assms(2) by (auto simp: still_open_def)
  let ?g = "h\<lparr>rh_attempts := n, rh_consumed_at := Some now\<rparr>"
  let ?s1 = "put_hash cid ?g (sy_db S)"
  let ?S1 = "S\<lparr>sy_db := ?s1, sy_calls := (sy_calls S)(t := Some (?w (VCheck h)))\<rparr>"
  let ?S2 = "?S1\<lparr>sy_db := ?s1, sy_calls := (sy_calls ?S1)(t := Some (?w (VMint h)))\<rparr>"
  obtain v s2 where mint: "mint_token env p now now t h ?s1 = (Inr v, s2)"
    using assms(5) by (auto simp: mint_token_def)
  let ?S3 = "?S2\<lparr>sy_db := s2, sy_calls := (sy_calls ?S2)(t := Some (?w (VEnd (Inr v))))\<rparr>"
  have "verify_command env p now (?w (VClaim h)) (sy_db S) = (VCheck h, ?s1)"
    using n assms(3) by (simp add: verify_command_def hsetnx_consumed_def hash_or_blank_def)
  then have one: "otp_step env p S ?S1" using otp_step.command [OF assms(1)] by fastforce
  have live: "hgetall now cid ?s1 = Some ?g"
    using n by (auto simp: hgetall_def put_hash_def live_hash_def split: option.splits if_splits)
  have "verify_command env p now (?w (VCheck h)) (sy_db ?S1) = (VMint h, ?s1)"
    using live assms(4) by (simp add: verify_command_def hexists_code_hash_def)
  then have two: "otp_step env p ?S1 ?S2" using otp_step.command [of ?S1 t "?w (VCheck h)" env p now "VMint h" ?s1] by simp
  have "verify_command env p now (?w (VMint h)) (sy_db ?S2) = (VEnd (Inr v), s2)"
    using mint by (simp add: verify_command_def)
  then have three: "otp_step env p ?S2 ?S3"
    using otp_step.command [of ?S2 t "?w (VMint h)" env p now "VEnd (Inr v)" s2] by simp
  have "(otp_step env p)\<^sup>*\<^sup>* S ?S3" using one two three by (meson converse_rtranclp_into_rtranclp rtranclp.rtrancl_refl)
  then show ?thesis by (intro exI [of _ ?S3] exI [of _ v]) simp
qed

text \<open>C28: Guesses that overlap are not capped: for any number of wrong codes, however small the configured limit, there
  is a run in which every one of them is compared with the stored code, and a right code that was in flight
  with them is still accepted afterwards.
\<close>

theorem concurrent_guesses_pass_the_cap:
  assumes "judge_code env p now right (hgetall now cid (sy_db S)) = Match h" "rh_phone h \<noteq> None"
    and "\<forall>g\<in>set gs. judge_code env p now (snd g) (hgetall now cid (sy_db S)) = Mismatch"
    and "distinct (token # map fst gs)" "\<forall>t\<in>set (token # map fst gs). sy_calls S t = None"
  shows "\<exists>S' w v. (otp_step env p)\<^sup>*\<^sup>* S S' \<and> (\<forall>g\<in>set gs. \<exists>u n m. sy_calls S' (fst g) = Some u \<and> vw_challenge u = cid
      \<and> vw_code u = snd g \<and> vw_pc u = VEnd (Inl (WrongCode n m)))
    \<and> sy_calls S' token = Some w \<and> vw_challenge w = cid \<and> vw_code w = right \<and> vw_pc w = VEnd (Inr v)"
proof -
  note hit = judge_Match [OF assms(1)]
  have dist: "distinct (map fst ((token, right) # gs))" using assms(4) by simp
  have none: "\<forall>g\<in>set ((token, right) # gs). sy_calls S (fst g) = None" using assms(5) by auto
  obtain S1 where S1: "(otp_step env p)\<^sup>*\<^sup>* S S1" "sy_db S1 = sy_db S" "\<forall>g\<in>set ((token, right) # gs). sy_calls S1 (fst g)
      = Some (open_call now cid g (pc_after (judge_code env p now (snd g) (hgetall now cid (sy_db S)))))"
    using burst_reads [OF dist none, of env p now cid] by blast
  have reading: "\<forall>g\<in>set gs. sy_calls S1 (fst g) = Some (open_call now cid g VMiss)"
    "sy_calls S1 token = Some (open_call now cid (token, right) (VClaim h))"
    using S1(3) assms(1,3) by auto
  have "still_open now cid h (sy_db S1)" unfolding still_open_def S1(2)
    using hit by (intro exI [of _ "rh_attempts h"]) simp
  then obtain S2 where S2: "(otp_step env p)\<^sup>*\<^sup>* S1 S2" "still_open now cid h (sy_db S2)"
    "\<forall>t. t \<notin> fst ` set gs \<longrightarrow> sy_calls S2 t = sy_calls S1 t"
    "\<forall>g\<in>set gs. \<exists>n m. sy_calls S2 (fst g) = Some (open_call now cid g (VEnd (Inl (WrongCode n m))))"
    using burst_misses [OF _ reading(1), of h env p] assms(4) by auto
  have "sy_calls S2 token = Some (open_call now cid (token, right) (VClaim h))"
    using S2(3) reading(2) assms(4) by auto
  then obtain S3 v where S3: "(otp_step env p)\<^sup>*\<^sup>* S2 S3" "sy_calls S3 token = Some (open_call now cid (token, right) (VEnd (Inr v)))"
    "\<forall>u. u \<noteq> token \<longrightarrow> sy_calls S3 u = sy_calls S2 u"
    using claim_command [OF _ S2(2)] hit assms(2) by blast
  have run: "(otp_step env p)\<^sup>*\<^sup>* S S3" using S1(1) S2(1) S3(1) by (meson rtranclp_trans)
  have "\<exists>u n m. sy_calls S3 (fst g) = Some u \<and> vw_challenge u = cid \<and> vw_code u = snd g \<and> vw_pc u = VEnd (Inl (WrongCode n m))"
    if g: "g \<in> set gs" for g
  proof -
    have "fst g \<noteq> token" using assms(4) g by auto
    then show ?thesis using S2(4) S3(3) g by (metis open_call_fields(1-3))
  qed
  with run S3(2) show ?thesis
    by (intro exI [of _ S3] exI [of _ "open_call now cid (token, right) (VEnd (Inr v))"] exI [of _ v]) auto
qed

section \<open>Requests\<close>

record asking =
  as_now :: instant
  as_challenge :: uuid
  as_otp :: string
  as_salt :: string
  as_delivered :: bool
  as_phone :: string
  as_purpose :: OtpPurpose
  as_ip :: string

definition ask :: "otp_env \<Rightarrow> OtpPolicy \<Rightarrow> asking \<Rightarrow> 'a otp_db_scheme \<Rightarrow> (otp_error + ChallengePublic) \<times> 'a otp_db_scheme" where
  "ask env p a s = request_phone_challenge env p (as_now a) (as_challenge a) (as_otp a) (as_salt a) (as_delivered a) (as_phone a)
     (as_purpose a) (as_ip a) s"

definition messages_to :: "string \<Rightarrow> 'a otp_db_scheme \<Rightarrow> nat" where
  "messages_to phone s = length (filter (\<lambda>(q, code). q = phone) (ot_sms s))"

text \<open>The window of a counter reaches past an instant, and it counted at least so many.\<close>

definition counted_to :: "instant \<Rightarrow> nat \<Rightarrow> counter option \<Rightarrow> bool" where
  "counted_to until n c \<longleftrightarrow> (\<exists>k e. c = Some k \<and> ct_expires k = Some e \<and> until \<le> e \<and> n \<le> ct_value k)"

lemma counted_mono: "counted_to until n c \<Longrightarrow> m \<le> n \<Longrightarrow> counted_to until m c"
  by (auto simp: counted_to_def)

lemma incr_counted:
  assumes "counted_to until n (ot_rates s key)" "now < until"
  shows "counted_to until n (ot_rates (snd (incr_rate now k s)) key)"
    and "k = key \<Longrightarrow> counted_to until (n + 1) (ot_rates (snd (incr_rate now k s)) key) \<and> n + 1 \<le> fst (incr_rate now k s)"
  using assms by (auto simp: counted_to_def incr_rate_def live_counter_def Let_def split: option.splits if_splits)

lemma expire_counted: "counted_to until n (ot_rates s key) \<Longrightarrow> now < until
    \<Longrightarrow> counted_to until n (ot_rates (expire_rate_nx now k w s) key)"
  by (auto simp: counted_to_def expire_rate_nx_def live_counter_def split: option.splits if_splits)

lemma caps_counted:
  assumes "count_caps now cs s = (r, s1)" "counted_to until n (ot_rates s key)" "now < until"
  shows "counted_to until n (ot_rates s1 key)"
  using assms(1,2)
proof (induction cs arbitrary: s)
  case (Cons c cs)
  have "counted_to until n (ot_rates (expire_rate_nx now (cap_key c) (ca_seconds c) (snd (incr_rate now (cap_key c) s))) key)"
    using Cons.prems(2) assms(3) by (intro expire_counted incr_counted)
  then show ?case using Cons by (auto simp: Let_def split: prod.splits if_splits)
qed simp

lemma first_hit:
  assumes "live_counter now (ot_rates s key) = None"
  shows "counted_to (now + seconds w) 1 (ot_rates (expire_rate_nx now key w (snd (incr_rate now key s))) key)
    \<and> fst (incr_rate now key s) = 1"
  using assms by (auto simp: counted_to_def incr_rate_def expire_rate_nx_def live_counter_def split: option.splits)

lemma caps_step:
  assumes "count_caps now (c # cs) s = (r, s1)"
  shows "r = Inr () \<Longrightarrow> int (fst (incr_rate now (cap_key c) s)) \<le> ca_limit c"
    and "counted_to until m (ot_rates (expire_rate_nx now (cap_key c) (ca_seconds c) (snd (incr_rate now (cap_key c) s))) key)
      \<Longrightarrow> now < until \<Longrightarrow> counted_to until m (ot_rates s1 key)"
  using assms caps_counted by (auto simp: Let_def split: prod.splits if_splits)

definition phone_cap :: "OtpPolicy \<Rightarrow> string \<Rightarrow> cap" where
  "phone_cap p phone = \<lparr>ca_scope = ''phone'', ca_window = ''hourly'', ca_subject = phone,
        ca_limit = op_phone_hourly_request_limit p, ca_seconds = HOUR_SECONDS\<rparr>"

lemma caps_of_phone: "\<exists>cs. request_caps p phone ip = phone_cap p phone # cs"
  by (simp add: request_caps_def phone_cap_def)

text \<open>What one request does to the count of another phone's or its own messages.\<close>

lemma ask_frame:
  assumes "ask env p a s = (r, s1)"
  shows "(ot_rates s1 = ot_rates s \<and> ot_sms s1 = ot_sms s) \<or> (\<exists>q r2 s2. count_caps (as_now a) (request_caps p q (as_ip a)) s = (r2, s2)
      \<and> ot_rates s1 = ot_rates s2 \<and> (ot_sms s1 = ot_sms s \<or> (r2 = Inr () \<and> ot_sms s1 = ot_sms s @ [(q, as_otp a)])))"
proof -
  note d = ask_def request_phone_challenge_def require_within_caps_def put_cooldown_def put_hash_def Let_def
  show ?thesis
  proof (cases "normalize_phone env (as_phone a) (op_default_region p)")
    case (Inl e) then show ?thesis using assms by (auto simp: d)
  next
    case (Inr q)
    obtain r2 s2 where caps: "count_caps (as_now a) (request_caps p q (as_ip a)) s = (r2, s2)" by fastforce
    have "ot_sms s2 = ot_sms s" using count_caps_frame [OF caps] by simp
    then show ?thesis
    proof (cases "in_cooldown (as_now a) q s")
      case True then show ?thesis using assms Inr by (simp add: d)
    next
      case False
      then have "ot_rates s1 = ot_rates s2 \<and> (ot_sms s1 = ot_sms s \<or> (r2 = Inr () \<and> ot_sms s1 = ot_sms s @ [(q, as_otp a)]))"
        using assms Inr caps \<open>ot_sms s2 = ot_sms s\<close> by (auto simp: d split: sum.splits if_splits)
      then show ?thesis using caps by blast
    qed
  qed
qed

lemma counted_earlier: "counted_to until n c \<Longrightarrow> until' \<le> until \<Longrightarrow> counted_to until' n c"
  by (auto simp: counted_to_def)

lemma caps_touch:
  assumes "count_caps now cs s = (r, s1)" "\<forall>c\<in>set cs. HOUR_SECONDS \<le> ca_seconds c" "live_counter now (ot_rates s key) = None"
  shows "ot_rates s1 key = ot_rates s key \<or> counted_to (now + seconds HOUR_SECONDS) 0 (ot_rates s1 key)"
  using assms
proof (induction cs arbitrary: s)
  case (Cons c cs)
  let ?s2 = "expire_rate_nx now (cap_key c) (ca_seconds c) (snd (incr_rate now (cap_key c) s))"
  show ?case
  proof (cases "cap_key c = key")
    case True
    have hour: "now < now + seconds HOUR_SECONDS" "seconds HOUR_SECONDS \<le> seconds (ca_seconds c)"
      using Cons.prems(2) by (simp_all add: seconds_def HOUR_SECONDS_def)
    have "counted_to (now + seconds (ca_seconds c)) 1 (ot_rates ?s2 key)" using first_hit [of now s key "ca_seconds c"] Cons.prems(3) True by simp
    then have "counted_to (now + seconds HOUR_SECONDS) 0 (ot_rates ?s2 key)" using hour(2)
      by (auto intro: counted_earlier counted_mono)
    then show ?thesis using caps_step(2) [OF Cons.prems(1)] hour(1) by blast
  next
    case False
    then have same: "ot_rates ?s2 key = ot_rates s key"
      by (auto simp: incr_rate_def expire_rate_nx_def split: option.splits)
    have "(s1 = ?s2) \<or> count_caps now cs ?s2 = (r, s1)" using Cons.prems(1) by (auto simp: Let_def split: prod.splits if_splits)
    then show ?thesis using same Cons.IH [of ?s2] Cons.prems(2,3) by auto
  qed
qed simp

lemma caps_seconds: "\<forall>c\<in>set (request_caps p q ip). HOUR_SECONDS \<le> ca_seconds c"
  by (simp add: request_caps_def HOUR_SECONDS_def DAY_SECONDS_def)

fun ask_all :: "otp_env \<Rightarrow> OtpPolicy \<Rightarrow> asking list \<Rightarrow> 'a otp_db_scheme \<Rightarrow> 'a otp_db_scheme" where
  "ask_all env p [] s = s"
| "ask_all env p (a # as) s = ask_all env p as (snd (ask env p a s))"

definition phone_counter :: "string \<Rightarrow> string" where
  "phone_counter phone = rate_key ''phone'' ''hourly'' phone"

text \<open>In the window that opens at an instant, the counter of a phone has counted so many messages.\<close>

definition in_window :: "OtpPolicy \<Rightarrow> string \<Rightarrow> instant \<Rightarrow> nat \<Rightarrow> 'a otp_db_scheme \<Rightarrow> bool" where
  "in_window p phone t0 n d \<longleftrightarrow> (n = 0 \<and> (\<forall>t\<ge>t0. live_counter t (ot_rates d (phone_counter phone)) = None))
     \<or> counted_to (t0 + seconds HOUR_SECONDS) n (ot_rates d (phone_counter phone))"

lemma other_caps_in_window:
  assumes "in_window p phone t0 n d" "count_caps now (request_caps p q ip) d = (r2, s2)" "ot_rates s1 = ot_rates s2"
    and "t0 \<le> now" "now < t0 + seconds HOUR_SECONDS"
  shows "in_window p phone t0 n s1"
proof (cases "counted_to (t0 + seconds HOUR_SECONDS) n (ot_rates d (phone_counter phone))")
  case True then show ?thesis using caps_counted [OF assms(2) True assms(5)] assms(3) by (simp add: in_window_def)
next
  case False
  then have "n = 0" "\<forall>t\<ge>t0. live_counter t (ot_rates d (phone_counter phone)) = None" using assms(1) by (auto simp: in_window_def)
  then show ?thesis using caps_touch [OF assms(2) caps_seconds, of "phone_counter phone"] assms(3,4)
    by (auto simp: in_window_def intro: counted_earlier)
qed

lemma own_caps_in_window:
  assumes "in_window p phone t0 n d" "count_caps now (request_caps p phone ip) d = (Inr (), s2)" "ot_rates s1 = ot_rates s2"
    and "t0 \<le> now" and early: "now < t0 + seconds HOUR_SECONDS"
  shows "in_window p phone t0 (n + 1) s1 \<and> int (n + 1) \<le> op_phone_hourly_request_limit p"
proof -
  let ?k = "phone_counter phone" and ?close = "t0 + seconds HOUR_SECONDS"
  have hour: "?close \<le> now + seconds HOUR_SECONDS" using assms(4) by simp
  obtain cs where cs: "request_caps p phone ip = phone_cap p phone # cs" using caps_of_phone by blast
  have key: "cap_key (phone_cap p phone) = ?k" by (simp add: cap_key_def phone_cap_def phone_counter_def)
  note caps = assms(2) [unfolded cs]
  note lim = caps_step(1) [OF caps refl] and go = caps_step(2) [OF caps _ early]
  have "counted_to ?close (n + 1) (ot_rates s2 ?k) \<and> n + 1 \<le> fst (incr_rate now ?k d)"
  proof (cases "counted_to ?close n (ot_rates d ?k)")
    case True
    show ?thesis using incr_counted(2) [OF True early refl] go [unfolded key] expire_counted [OF _ early] by blast
  next
    case False
    then have n: "n = 0" "live_counter now (ot_rates d ?k) = None" using assms(1,4) by (auto simp: in_window_def)
    have "counted_to ?close 1 (ot_rates (expire_rate_nx now ?k HOUR_SECONDS (snd (incr_rate now ?k d))) ?k)"
      using first_hit [OF n(2), of HOUR_SECONDS] hour by (blast intro: counted_earlier)
    then show ?thesis using go [unfolded key] first_hit [OF n(2), of HOUR_SECONDS] n(1) by (simp add: phone_cap_def)
  qed
  then show ?thesis using assms(3) lim key by (auto simp: in_window_def phone_cap_def)
qed

lemma ask_in_window:
  assumes w: "in_window p phone t0 n d" and one: "ask env p a d = (r, s1)"
    and at: "t0 \<le> as_now a" "as_now a < t0 + seconds HOUR_SECONDS"
  shows "\<exists>n'. in_window p phone t0 n' s1 \<and> messages_to phone s1 + n = messages_to phone d + n'
    \<and> (n' = n \<or> int n' \<le> op_phone_hourly_request_limit p)"
  using ask_frame [OF one]
proof (elim disjE exE conjE)
  assume "ot_rates s1 = ot_rates d" "ot_sms s1 = ot_sms d"
  then show ?thesis using w by (intro exI [of _ n]) (simp add: in_window_def messages_to_def)
next
  fix q r2 s2 assume caps: "count_caps (as_now a) (request_caps p q (as_ip a)) d = (r2, s2)" "ot_rates s1 = ot_rates s2"
    and "ot_sms s1 = ot_sms d"
  then show ?thesis using other_caps_in_window [OF w caps at] by (intro exI [of _ n]) (simp add: messages_to_def)
next
  fix q r2 s2 assume caps: "count_caps (as_now a) (request_caps p q (as_ip a)) d = (r2, s2)" "ot_rates s1 = ot_rates s2"
    and sent: "r2 = Inr ()" "ot_sms s1 = ot_sms d @ [(q, as_otp a)]"
  show ?thesis
  proof (cases "q = phone")
    case True
    then show ?thesis using own_caps_in_window [OF w caps(1) [unfolded True sent(1)] caps(2) at] sent
      by (intro exI [of _ "n + 1"]) (simp add: messages_to_def)
  next
    case False
    then show ?thesis using other_caps_in_window [OF w caps at] sent by (intro exI [of _ n]) (simp add: messages_to_def)
  qed
qed

lemma asks_in_window:
  assumes "in_window p phone t0 n d" "\<forall>a\<in>set as. t0 \<le> as_now a \<and> as_now a < t0 + seconds HOUR_SECONDS"
  shows "\<exists>n'. messages_to phone (ask_all env p as d) + n = messages_to phone d + n' \<and> (n' = n \<or> int n' \<le> op_phone_hourly_request_limit p)"
  using assms
proof (induction as arbitrary: n d)
  case (Cons b bs)
  obtain r s1 where one: "ask env p b d = (r, s1)" by fastforce
  obtain m where m: "in_window p phone t0 m s1" "messages_to phone s1 + n = messages_to phone d + m" "m = n \<or> int m \<le> op_phone_hourly_request_limit p"
    using ask_in_window [OF Cons.prems(1) one] Cons.prems(2) by auto
  obtain n' where "messages_to phone (ask_all env p bs s1) + m = messages_to phone s1 + n'" "n' = m \<or> int n' \<le> op_phone_hourly_request_limit p"
    using Cons.IH [OF m(1)] Cons.prems(2) by auto
  then show ?case using m one by (intro exI [of _ n']) auto
qed auto

text \<open>In the window that the first request opens, however many requests are made and from whatever addresses, a
  phone receives at most the hourly number of messages.
\<close>

theorem messages_per_window_are_capped:
  assumes "\<forall>a\<in>set as. t0 \<le> as_now a \<and> as_now a < t0 + seconds HOUR_SECONDS"
    and "\<forall>t\<ge>t0. live_counter t (ot_rates s (phone_counter phone)) = None" "0 \<le> op_phone_hourly_request_limit p"
  shows "int (messages_to phone (ask_all env p as s)) \<le> int (messages_to phone s) + op_phone_hourly_request_limit p"
proof -
  have "in_window p phone t0 0 s" using assms(2) by (simp add: in_window_def)
  from asks_in_window [OF this assms(1), of env] obtain n' where
    "messages_to phone (ask_all env p as s) = messages_to phone s + n'" "n' = 0 \<or> int n' \<le> op_phone_hourly_request_limit p" by auto
  then show ?thesis using assms(3) by auto
qed

definition armed :: "counter option \<Rightarrow> bool" where
  "armed c \<longleftrightarrow> (\<exists>k t. c = Some k \<and> ct_expires k = Some t)"

lemma armed_dies: "armed c \<Longrightarrow> \<exists>t. live_counter t c = None"
  by (auto simp: armed_def live_counter_def)

lemma counting_arms: "armed (ot_rates (expire_rate_nx now key w (snd (incr_rate now key s))) key)"
  by (auto simp: armed_def incr_rate_def expire_rate_nx_def live_counter_def split: option.splits)

lemma refusing_cap:
  assumes "count_caps now cs s = (Inl e, s1)"
  shows "\<exists>c\<in>set cs. e = OtpRateLimit (ca_scope c @ ''_'' @ ca_window c) \<and> armed (ot_rates s1 (cap_key c))"
  using assms
proof (induction cs arbitrary: s)
  case (Cons c cs)
  show ?case
  proof (cases "ca_limit c < int (fst (incr_rate now (cap_key c) s))")
    case True
    then have "e = OtpRateLimit (ca_scope c @ ''_'' @ ca_window c)"
      "s1 = expire_rate_nx now (cap_key c) (ca_seconds c) (snd (incr_rate now (cap_key c) s))"
      using Cons.prems by (auto simp: Let_def split: prod.splits)
    then show ?thesis using counting_arms [of now "cap_key c" "ca_seconds c" s] by simp
  next
    case False
    then have "count_caps now cs (expire_rate_nx now (cap_key c) (ca_seconds c) (snd (incr_rate now (cap_key c) s))) = (Inl e, s1)"
      using Cons.prems by (auto simp: Let_def split: prod.splits)
    from Cons.IH [OF this] show ?thesis by auto
  qed
qed simp

text \<open>A counter that refuses a request has an expiry when it does, also one that an earlier crash left without:
  nobody is throttled for good.
\<close>

theorem a_refusing_counter_expires:
  assumes "ask env p a s = (Inl (OtpRateLimit scope), s1)"
  shows "\<exists>phone c t. normalize_phone env (as_phone a) (op_default_region p) = Inr phone \<and> c \<in> set (request_caps p phone (as_ip a))
    \<and> scope = ca_scope c @ ''_'' @ ca_window c \<and> live_counter t (ot_rates s1 (cap_key c)) = None"
proof (cases "normalize_phone env (as_phone a) (op_default_region p)")
  case (Inl e)
  then have "e = InvalidPhone" by (auto simp: normalize_phone_def split: option.splits if_splits)
  then show ?thesis using assms Inl by (simp add: ask_def request_phone_challenge_def)
next
  case (Inr phone)
  then have "count_caps (as_now a) (request_caps p phone (as_ip a)) s = (Inl (OtpRateLimit scope), s1)"
    using assms by (auto simp: ask_def request_phone_challenge_def require_within_caps_def Let_def split: prod.splits sum.splits if_splits)
  from refusing_cap [OF this] Inr armed_dies show ?thesis by blast
qed

section \<open>A concrete challenge\<close>

definition wrong_pc :: "verify_pc \<Rightarrow> bool" where
  "wrong_pc pc \<longleftrightarrow> (\<exists>n m. pc = VEnd (Inl (WrongCode n m)))"

definition six_digits :: OtpPolicy where
  "six_digits = \<lparr>op_ttl_seconds = 300, op_max_verify_attempts = 2, op_resend_cooldown_seconds = 60,
     op_verified_token_ttl_seconds = 600, op_phone_hourly_request_limit = 1, op_phone_daily_request_limit = 10,
     op_ip_hourly_request_limit = 20, op_ip_daily_request_limit = 100, op_hmac_secret = ''k'', op_default_region = ''CN''\<rparr>"

definition plain_env :: otp_env where
  "plain_env = \<lparr>ov_hmac = (\<lambda>secret text. text), ov_parse = (\<lambda>raw region. Some raw), ov_is_valid = (\<lambda>n. True), ov_format = (\<lambda>n. n)\<rparr>"

definition quiet_db :: otp_db where
  "quiet_db = \<lparr>audit_logs = [], domain_events = [], notifications = [], armed_jobs = [], ranking_jobs = [],
     accounts = [], sessions = [], login_fails = (\<lambda>_. None), ot_challenges = (\<lambda>_. None), ot_cooldowns = (\<lambda>_. None),
     ot_tokens = (\<lambda>_. None), ot_rates = (\<lambda>_. None), ot_sms = []\<rparr>"

definition nobody :: otp_system where
  "nobody = \<lparr>sy_db = quiet_db, sy_calls = (\<lambda>_. None), sy_issued = (\<lambda>_. None), sy_proofs = []\<rparr>"

definition asking_amy :: asking where
  "asking_amy = \<lparr>as_now = 0, as_challenge = 1, as_otp = ''123456'', as_salt = ''s'', as_delivered = True, as_phone = ''+86'',
     as_purpose = PASSWORD_RESET, as_ip = ''ip''\<rparr>"

definition amy_hash :: redis_hash where
  "amy_hash = new_challenge plain_env six_digits 0 ''+86'' PASSWORD_RESET ''123456'' ''s''"

definition amy_proof :: VerifiedPhone where
  "amy_proof = \<lparr>vp_phone_e164 = ''+86'', vp_purpose = Some ''PASSWORD_RESET''\<rparr>"

lemmas otp_defs = ask_def asking_amy_def six_digits_def plain_env_def quiet_db_def request_phone_challenge_def normalize_phone_def
  in_cooldown_def live_value_def require_within_caps_def request_caps_def incr_rate_def expire_rate_nx_def live_counter_def
  put_cooldown_def put_hash_def cap_key_def rate_key_def RATE_KEY_PREFIX_def seconds_def HOUR_SECONDS_def DAY_SECONDS_def

lemma asked:
  obtains r s1 where "ask plain_env six_digits asking_amy quiet_db = (r, s1)" "ot_challenges s1 = (\<lambda>_. None)(1 := Some amy_hash)"
    "ot_tokens s1 = (\<lambda>_. None)"
proof -
  obtain r s1 where one: "ask plain_env six_digits asking_amy quiet_db = (r, s1)" by fastforce
  have "ot_challenges s1 = (\<lambda>_. None)(1 := Some amy_hash) \<and> ot_tokens s1 = (\<lambda>_. None)"
    using one by (auto simp: otp_defs amy_hash_def Let_def)
  with one that show thesis by blast
qed

lemma key_inj: "inj (token_key plain_env six_digits)"
  by (auto simp: inj_def token_key_def hmac_hex_def plain_env_def TOKEN_HASH_SALT_def)

lemma nobody_fresh: "fresh_system nobody"
  by (simp add: fresh_system_def nobody_def quiet_db_def)

text \<open>The system after the request.\<close>

lemma requested:
  obtains S where "(otp_step plain_env six_digits)\<^sup>*\<^sup>* nobody S" "ot_challenges (sy_db S) = (\<lambda>_. None)(1 := Some amy_hash)"
    "sy_calls S = (\<lambda>_. None)" "sy_proofs S = []"
proof -
  obtain r s1 where one: "ask plain_env six_digits asking_amy quiet_db = (r, s1)" "ot_challenges s1 = (\<lambda>_. None)(1 := Some amy_hash)"
    by (rule asked)
  have "otp_step plain_env six_digits nobody (nobody\<lparr>sy_db := s1, sy_issued := (sy_issued nobody)(1 := Some (''+86'', purpose_value PASSWORD_RESET))\<rparr>)"
    by (rule otp_step.ask [where raw = "''+86''" and delivered = True and code = "''123456''" and salt = "''s''" and ip = "''ip''" and now = 0 and r = r])
      (use one(1) in \<open>simp_all add: normalize_phone_def plain_env_def nobody_def ask_def asking_amy_def\<close>)
  then have "(otp_step plain_env six_digits)\<^sup>*\<^sup>* nobody (nobody\<lparr>sy_db := s1, sy_issued := (sy_issued nobody)(1 := Some (''+86'', purpose_value PASSWORD_RESET))\<rparr>)" ..
  then show thesis by (rule that) (simp_all add: one(2) nobody_def)
qed

lemmas judging = judge_code_def hgetall_def live_hash_def amy_hash_def new_challenge_def attempts_of_def hmac_hex_def plain_env_def
  six_digits_def seconds_def REDIS_TTL_GRACE_SECONDS_def

lemma amy_judged:
  assumes "ot_challenges s = (\<lambda>_. None)(1 := Some amy_hash)"
  shows "judge_code plain_env six_digits 10 ''123456'' (hgetall 10 1 s) = Match amy_hash"
    "\<forall>g\<in>set [(''a'', ''000000''), (''b'', ''111111''), (''c'', ''222222'')]. judge_code plain_env six_digits 10 (snd g) (hgetall 10 1 s) = Mismatch"
    "rh_phone amy_hash \<noteq> None"
  using assms by (simp_all add: judging)

text \<open>Two wrong codes are allowed; three overlap and the right one is accepted after them.\<close>

theorem concurrent_guesses_pass_the_cap_witness:
  "\<exists>S u1 u2 u3 w v. (otp_step plain_env six_digits)\<^sup>*\<^sup>* nobody S \<and> sy_calls S ''a'' = Some u1 \<and> sy_calls S ''b'' = Some u2 \<and> sy_calls S ''c'' = Some u3
    \<and> wrong_pc (vw_pc u1) \<and> wrong_pc (vw_pc u2) \<and> wrong_pc (vw_pc u3) \<and> sy_calls S ''t'' = Some w \<and> vw_pc w = VEnd (Inr v)"
proof -
  obtain S where S: "(otp_step plain_env six_digits)\<^sup>*\<^sup>* nobody S" "ot_challenges (sy_db S) = (\<lambda>_. None)(1 := Some amy_hash)"
    "sy_calls S = (\<lambda>_. None)" by (rule requested)
  have free: "distinct (''t'' # map fst [(''a'', ''000000''), (''b'', ''111111''), (''c'', ''222222'')])"
    "\<forall>t\<in>set (''t'' # map fst [(''a'', ''000000''), (''b'', ''111111''), (''c'', ''222222'')]). sy_calls S t = None" by (simp_all add: S(3))
  obtain S' w v where S': "(otp_step plain_env six_digits)\<^sup>*\<^sup>* S S'" "\<forall>g\<in>set [(''a'', ''000000''), (''b'', ''111111''), (''c'', ''222222'')].
      \<exists>u n m. sy_calls S' (fst g) = Some u \<and> vw_challenge u = 1 \<and> vw_code u = snd g \<and> vw_pc u = VEnd (Inl (WrongCode n m))"
    "sy_calls S' ''t'' = Some w" "vw_pc w = VEnd (Inr v)"
    using concurrent_guesses_pass_the_cap [OF amy_judged(1) [OF S(2)] amy_judged(3) [OF S(2)] amy_judged(2) [OF S(2)] free] by blast
  have "(otp_step plain_env six_digits)\<^sup>*\<^sup>* nobody S'" using S(1) S'(1) by (rule rtranclp_trans)
  with S'(2-4) show ?thesis by (intro exI [of _ S']) (auto simp: wrong_pc_def)
qed

theorem challenge_proves_at_most_once_witness:
  "\<exists>S w purpose. (otp_step plain_env six_digits)\<^sup>*\<^sup>* nobody S \<and> sy_proofs S = [(''t'', amy_proof)] \<and> sy_calls S ''t'' = Some w
    \<and> sy_issued S (vw_challenge w) = Some (''+86'', purpose)"
proof -
  obtain S where S: "(otp_step plain_env six_digits)\<^sup>*\<^sup>* nobody S" "ot_challenges (sy_db S) = (\<lambda>_. None)(1 := Some amy_hash)"
    "sy_calls S = (\<lambda>_. None)" "sy_proofs S = []" by (rule requested)
  obtain r s1 where call: "verify_phone_challenge plain_env six_digits 10 ''t'' 1 ''123456'' (sy_db S) = (r, s1)" by fastforce
  have stored: "ot_tokens s1 (token_key plain_env six_digits ''t'') = Some \<lparr>vo_value = \<lparr>tp_phone = ''+86'', tp_purpose = Some ''PASSWORD_RESET'',
      tp_expires_at = 10 + seconds 600\<rparr>, vo_expires = 10 + seconds 1200\<rparr>"
    using call S(2) by (auto simp: verify_phone_challenge_def amy_judged(1) [OF S(2)] hsetnx_consumed_def hash_or_blank_def put_hash_def
        hexists_code_hash_def mint_token_def judging Let_def)
  have "sy_calls S ''t'' = None" by (simp add: S(3))
  then obtain S1 w where S1: "(otp_step plain_env six_digits)\<^sup>*\<^sup>* S S1" "sy_db S1 = s1" "sy_calls S1 ''t'' = Some w" "sy_proofs S1 = []"
    using call_runs [OF _ call] S(4) by metis
  let ?s2 = "s1\<lparr>ot_tokens := (ot_tokens s1)(token_key plain_env six_digits ''t'' := None)\<rparr>"
  have "verify_phone_token plain_env six_digits 20 ''t'' (sy_db S1) = (Inr amy_proof, ?s2)"
    by (simp add: S1(2) verify_phone_token_def stored live_value_def seconds_def amy_proof_def Let_def)
  then have "otp_step plain_env six_digits S1 (S1\<lparr>sy_db := ?s2, sy_proofs := sy_proofs S1 @ [(''t'', amy_proof)]\<rparr>)" (is "otp_step _ _ _ ?S2")
    by (rule otp_step.spend)
  then have run: "(otp_step plain_env six_digits)\<^sup>*\<^sup>* nobody ?S2" using S(1) S1(1) by (meson rtranclp.rtrancl_into_rtrancl rtranclp_trans)
  have proof_in: "(''t'', amy_proof) \<in> set (sy_proofs ?S2)" and calls: "sy_calls ?S2 ''t'' = Some w" using S1(3) by simp_all
  from challenge_proves_at_most_once [OF nobody_fresh key_inj run proof_in proof_in calls calls refl] obtain purpose where
    "sy_issued ?S2 (vw_challenge w) = Some (''+86'', purpose)" by (auto simp: amy_proof_def)
  then show ?thesis using run S1(3,4) by (intro exI [of _ ?S2] exI [of _ w] exI [of _ purpose]) simp
qed

theorem messages_per_window_are_capped_witness:
  "messages_to ''+86'' (ask_all plain_env six_digits [asking_amy, asking_amy\<lparr>as_now := seconds 61, as_challenge := 2\<rparr>,
     asking_amy\<lparr>as_now := seconds 122, as_challenge := 3\<rparr>] quiet_db) \<le> 1"
  using messages_per_window_are_capped [of "[asking_amy, asking_amy\<lparr>as_now := seconds 61, as_challenge := 2\<rparr>,
     asking_amy\<lparr>as_now := seconds 122, as_challenge := 3\<rparr>]" 0 quiet_db "''+86''" six_digits plain_env]
  by (simp add: asking_amy_def seconds_def HOUR_SECONDS_def quiet_db_def live_counter_def six_digits_def messages_to_def)

theorem a_refusing_counter_expires_witness:
  "\<exists>s1. ask plain_env six_digits (asking_amy\<lparr>as_now := seconds 61\<rparr>) (quiet_db\<lparr>ot_rates := (\<lambda>_. None)(phone_counter ''+86'' := Some \<lparr>ct_value = 1, ct_expires = None\<rparr>)\<rparr>)
      = (Inl (OtpRateLimit ''phone_hourly''), s1)
    \<and> (\<exists>c t. ca_scope c @ ''_'' @ ca_window c = ''phone_hourly'' \<and> live_counter t (ot_rates s1 (cap_key c)) = None)"
proof -
  obtain s1 where one: "ask plain_env six_digits (asking_amy\<lparr>as_now := seconds 61\<rparr>)
      (quiet_db\<lparr>ot_rates := (\<lambda>_. None)(phone_counter ''+86'' := Some \<lparr>ct_value = 1, ct_expires = None\<rparr>)\<rparr>) = (Inl (OtpRateLimit ''phone_hourly''), s1)"
    by (simp add: otp_defs phone_counter_def Let_def)
  from a_refusing_counter_expires [OF one] one show ?thesis by metis
qed

end
