(* ===== verification/Recovery_Laws.thy ===== *)
theory Recovery_Laws
  imports Account_Facts Otp_Laws Session_Laws
begin

text \<open>
  Password recovery, the emergency stop and the login on a remembered device: what a phone proof authorizes, what
  survives a new password, and what a stranger can learn from the reset form.
\<close>

section \<open>A phone proof\<close>

lemma proof_Inr:
  assumes "consume_phone_proof cfg now token cid code purpose s = (Inr phone, s1)"
  obtains h where "hgetall now cid s = Some h" "judge_code (ic_otp cfg) (ic_policy cfg) now code (hgetall now cid s) = Match h"
    "rh_phone h = Some phone" "rh_purpose h = Some (purpose_value purpose)" "rh_consumed_at h = None"
    "\<exists>g. ot_challenges s1 cid = Some g \<and> rh_consumed_at g \<noteq> None"
proof -
  let ?env = "ic_otp cfg" and ?p = "ic_policy cfg"
  obtain t s2 where verify: "verify_phone_challenge ?env ?p now token cid code s = (Inr t, s2)"
    using assms by (auto simp: consume_phone_proof_def split: prod.splits sum.splits)
  obtain v where v: "verify_phone_token ?env ?p now (vt_token t) s2 = (Inr v, s1)" "vp_purpose v = Some (purpose_value purpose)"
    "vp_phone_e164 v = phone"
    using assms verify by (auto simp: consume_phone_proof_def split: prod.splits sum.splits if_splits)
  obtain h where h: "judge_code ?env ?p now code (hgetall now cid s) = Match h"
    using verify by (auto simp: verify_phone_challenge_def Let_def split: verdict.splits prod.splits)
  note read = judge_Match [OF h]
  have won: "hsetnx_consumed now now cid s = (True, put_hash cid (h\<lparr>rh_consumed_at := Some now\<rparr>) s)"
    using read by (simp add: hsetnx_consumed_def hash_or_blank_def)
  let ?s' = "put_hash cid (h\<lparr>rh_consumed_at := Some now\<rparr>) s"
  have mint: "mint_token ?env ?p now now token h ?s' = (Inr t, s2)"
    using verify h won by (auto simp: verify_phone_challenge_def Let_def split: if_splits)
  then obtain ph where ph: "rh_phone h = Some ph" "vt_token t = token" "ot_challenges s2 = ot_challenges ?s'"
    "ot_tokens s2 (token_key ?env ?p token) = Some \<lparr>vo_value = \<lparr>tp_phone = ph, tp_purpose = rh_purpose h,
       tp_expires_at = now + seconds (op_verified_token_ttl_seconds ?p)\<rparr>,
       vo_expires = now + seconds (op_verified_token_ttl_seconds ?p + REDIS_TTL_GRACE_SECONDS)\<rparr>"
    by (auto simp: mint_token_def split: option.splits)
  obtain e where "ot_tokens s2 (token_key ?env ?p (vt_token t)) = Some e" "vp_phone_e164 v = tp_phone (vo_value e)"
    "vp_purpose v = tp_purpose (vo_value e)" "s1 = s2\<lparr>ot_tokens := (ot_tokens s2)(token_key ?env ?p (vt_token t) := None)\<rparr>"
    using v(1) by (rule token_spent)
  then have "ph = phone" "rh_purpose h = Some (purpose_value purpose)" "ot_challenges s1 cid = Some (h\<lparr>rh_consumed_at := Some now\<rparr>)"
    using ph v(2,3) by (auto simp: put_hash_def)
  then show thesis using that [of h] h read ph(1) by simp
qed

lemma consumed_never_proves:
  assumes "ot_challenges s cid = Some g" "rh_consumed_at g \<noteq> None"
  shows "\<exists>e s'. consume_phone_proof cfg now token cid code purpose s = (Inl e, s')"
proof -
  have "judge_code (ic_otp cfg) (ic_policy cfg) now code (hgetall now cid s) \<in> {Refuse UnknownChallenge, Refuse ChallengeAlreadyConsumed}"
    using assms by (auto simp: hgetall_def live_hash_def judge_code_def split: option.splits)
  then show ?thesis by (auto simp: consume_phone_proof_def verify_phone_challenge_def)
qed

lemma revoked_rows:
  assumes "r \<in> set (sessions (revoke_all visible now uid s))" "us_user r = uid" "visible (us_sid r)"
  shows "us_revoked_at r \<noteq> None"
proof -
  let ?hit = "\<lambda>r. visible (us_sid r) \<and> us_user r = uid \<and> us_revoked_at r = None"
  have "r \<in> (\<lambda>x. if ?hit x then x\<lparr>us_revoked_at := Some now\<rparr> else x) ` set (sessions s)"
    using assms(1) by (simp add: revoke_all_def revoke_matching_def Let_def)
  then obtain x where x: "r = (if ?hit x then x\<lparr>us_revoked_at := Some now\<rparr> else x)" by (rule imageE)
  show ?thesis
  proof (cases "?hit x")
    case True then have "r = x\<lparr>us_revoked_at := Some now\<rparr>" using x by simp
    then show ?thesis by simp
  next
    case False then have "r = x" using x by simp
    then show ?thesis using False assms(2,3) by simp
  qed
qed


section \<open>Remembered devices\<close>

definition outcome_of :: "identity_error + (UnifiedOutcome \<times> 's) \<Rightarrow> identity_error + UnifiedOutcome" where
  "outcome_of r = (case r of Inl e \<Rightarrow> Inl e | Inr (out, s) \<Rightarrow> Inr out)"

definition same_person :: "(account \<Rightarrow> account) \<Rightarrow> bool" where
  "same_person f \<longleftrightarrow> (\<forall>a. au_id (f a) = au_id a \<and> au_role (f a) = au_role a \<and> au_status (f a) = au_status a)"

lemma row_of_map: "(\<And>a. key (f a) = key a) \<Longrightarrow> row_of key k (map f rows) = map_option f (row_of key k rows)"
  by (induction rows) auto

definition refaced :: "(account \<Rightarrow> account) \<Rightarrow> RememberedEntry \<Rightarrow> RememberedEntry" where
  "refaced f e = e\<lparr>re_user := f (re_user e)\<rparr>"

lemma refaced_fields [simp]: "re_slot (refaced f e) = re_slot e" "re_row (refaced f e) = re_row e" "re_user (refaced f e) = f (re_user e)"
  by (simp_all add: refaced_def)

lemma entries_refaced:
  assumes "devices s' = devices s" "accounts s' = map f (accounts s)" "same_person f"
  shows "entries_of sha now slots s' = map (refaced f) (entries_of sha now slots s)"
proof (induction slots)
  case (Cons sv slots)
  have row: "resolve_row sha now v s' = resolve_row sha now v s" for v by (simp add: resolve_row_def assms(1))
  have user: "row_of au_id uid (accounts s') = map_option f (row_of au_id uid (accounts s))" for uid
    unfolding assms(2) by (rule row_of_map) (use assms(3) in \<open>simp add: same_person_def\<close>)
  show ?case using Cons by (cases sv) (auto simp: row user refaced_def split: option.splits)
qed simp

lemma insort_map: "insort_key k (g x) (map g xs) = map g (insort_key (\<lambda>y. k (g y)) x xs)"
  by (induction xs) auto

lemma sort_map: "sort_key k (map g xs) = map g (sort_key (\<lambda>y. k (g y)) xs)"
  by (induction xs) (simp_all add: insort_map)

lemma first_per_user_map:
  assumes "same_person f"
  shows "first_per_user seen (map (refaced f) es) = map (refaced f) (first_per_user seen es)"
  using assms by (induction es arbitrary: seen) (simp_all add: same_person_def)

lemma recency_refaced [simp]: "recency (refaced f e) = recency e"
  by (simp add: recency_def split: option.split)

lemma remembered_refaced:
  assumes "devices s' = devices s" "accounts s' = map f (accounts s)" "same_person f"
  shows "resolve_remembered sha now slots s' = map (refaced f) (resolve_remembered sha now slots s)"
  unfolding resolve_remembered_def entries_refaced [OF assms] sort_map first_per_user_map [OF assms(3), symmetric]
  by simp

lemma chosen_refaced: "chosen_entry target (map (refaced f) es) = map_option (refaced f) (chosen_entry target es)"
  unfolding chosen_entry_def Let_def by (cases es) (simp_all add: row_of_map [where key = re_slot and f = "refaced f"])

lemma issue_same:
  assumes "us_sid ` set (sessions s') = us_sid ` set (sessions s)"
    "us_refresh_token_hash ` set (sessions s') = us_refresh_token_hash ` set (sessions s)" "au_id u' = au_id u" "au_role u' = au_role u"
  shows "(\<exists>row t s1 s2. issue_session cfg now u sid secret s = Inr (row, t, s1) \<and> issue_session cfg now u' sid secret s' = Inr (row, t, s2))
    \<or> (\<exists>e. issue_session cfg now u sid secret s = Inl e \<and> issue_session cfg now u' sid secret s' = Inl e)"
  using assms by (simp add: issue_session_def Let_def access_token_def)

lemma device_login_survives:
  assumes "devices s' = devices s" "accounts s' = map f (accounts s)" "same_person f"
    and "us_sid ` set (sessions s') = us_sid ` set (sessions s)"
    and "us_refresh_token_hash ` set (sessions s') = us_refresh_token_hash ` set (sessions s)"
  shows "outcome_of (verify_on_cookie_alone cfg sha later sid secret pending slots target s')
    = outcome_of (verify_on_cookie_alone cfg sha later sid secret pending slots target s)"
proof (cases "chosen_entry target (resolve_remembered sha later slots s)")
  case None
  then show ?thesis unfolding verify_on_cookie_alone_def remembered_refaced [OF assms(1-3)] chosen_refaced outcome_of_def by simp
next
  case (Some e)
  let ?u = "re_user e"
  have person: "au_id (f ?u) = au_id ?u" "au_role (f ?u) = au_role ?u" "may_sign_in (f ?u) = may_sign_in ?u"
    using assms(3) by (simp_all add: same_person_def may_sign_in_def)
  have same: "sessions (bump later (rd_id (re_row e)) d) = sessions d" for d :: "'a device_db_scheme" by (simp add: bump_def)
  have sess: "us_sid ` set (sessions (bump later (rd_id (re_row e)) s')) = us_sid ` set (sessions (bump later (rd_id (re_row e)) s))"
    "us_refresh_token_hash ` set (sessions (bump later (rd_id (re_row e)) s')) = us_refresh_token_hash ` set (sessions (bump later (rd_id (re_row e)) s))"
    by (simp_all add: bump_def assms(4,5))
  from issue_same [OF sess person(1,2), of "ic_session cfg" later sid secret] show ?thesis
    unfolding verify_on_cookie_alone_def remembered_refaced [OF assms(1-3)] chosen_refaced Some
    by (auto simp: person outcome_of_def mint_staff_pending_def Let_def)
qed

lemma update_as_map: "\<exists>f. (\<forall>a. f a = (if key a = k then g a else a)) \<and> update_row key k g rows = map f rows"
  by (intro exI [of _ "\<lambda>a. if key a = k then g a else a"]) (simp add: update_row_def)

lemma revoked_keys:
  "us_sid ` set (sessions (revoke_all_except visible now uid keep s)) = us_sid ` set (sessions s)"
  "us_refresh_token_hash ` set (sessions (revoke_all_except visible now uid keep s)) = us_refresh_token_hash ` set (sessions s)"
proof -
  have "map us_sid (sessions (revoke_all_except visible now uid keep s)) = map us_sid (sessions s)"
    "map us_refresh_token_hash (sessions (revoke_all_except visible now uid keep s)) = map us_refresh_token_hash (sessions s)"
    by (auto simp: revoke_all_except_def revoke_matching_def Let_def)
  then show "us_sid ` set (sessions (revoke_all_except visible now uid keep s)) = us_sid ` set (sessions s)"
    "us_refresh_token_hash ` set (sessions (revoke_all_except visible now uid keep s)) = us_refresh_token_hash ` set (sessions s)"
    by (metis set_map)+
qed

lemma revoke_all_is: "revoke_all visible now uid s = revoke_all_except visible now uid None s"
  by (simp add: revoke_all_def revoke_all_except_def)

text \<open>The three ways to set a password.\<close>

definition sets_password :: "identity_config \<Rightarrow> (string \<Rightarrow> string) \<Rightarrow> 'a device_db_scheme \<Rightarrow> 'a device_db_scheme \<Rightarrow> bool" where
  "sets_password cfg sha s s' \<longleftrightarrow> (\<exists>visible now token cid code password. confirm_password_reset cfg visible now token cid code password s = (Inr (), s'))
     \<or> (\<exists>visible now uid current password keep. change_password cfg visible now uid current password keep s = Inr s')
     \<or> (\<exists>visible now token password. consume_password_reset cfg sha visible now token password s = (Inr (), s'))"

lemma sets_password_shape:
  fixes s :: "'a device_db_scheme"
  assumes "sets_password cfg sha s s'"
  shows "\<exists>uid h. devices s' = devices s \<and> accounts s' = update_row au_id uid (\<lambda>a. a\<lparr>au_password_hash := h\<rparr>) (accounts s)
    \<and> us_sid ` set (sessions s') = us_sid ` set (sessions s)
    \<and> us_refresh_token_hash ` set (sessions s') = us_refresh_token_hash ` set (sessions s)"
  using assms unfolding sets_password_def
proof (elim disjE exE)
  fix visible now token cid code password assume "confirm_password_reset cfg visible now token cid code password s = (Inr (), s')"
  then obtain phone s1 u where "validate_password_length password" "consume_phone_proof cfg now token cid code PASSWORD_RESET s = (Inr phone, s1)"
    "find_by_phone_e164 phone s = Some u" "au_role u = STUDENT"
    "s' = revoke_all visible now (au_id u) (set_password cfg (au_id u) password s1)" by (rule reset_Inr)
  moreover from this(2) have "redis_only s s1" by (rule proof_redis_only)
  ultimately show ?thesis
    by (intro exI [of _ "au_id u"] exI [of _ "Some (ic_hash cfg password)"])
      (simp add: set_password_def revoke_all_is revoked_keys redis_only_def)
next
  fix visible now uid current password keep assume "change_password cfg visible now uid current password keep s = Inr s'"
  then have "s' = revoke_all_except visible now uid keep (set_password cfg uid password s)"
    by (auto simp: change_password_def split: sum.splits)
  then show ?thesis by (intro exI [of _ uid] exI [of _ "Some (ic_hash cfg password)"]) (simp add: set_password_def revoked_keys)
next
  fix visible now token password assume "consume_password_reset cfg sha visible now token password s = (Inr (), s')"
  then obtain uid role where "s' = audit_append \<lparr>actor_user_id = uid, actor_role = role\<rparr> ''ADMIN_PASSWORD_RESET_CONSUMED'' ''user'' uid
      None None None (Some (dict [(''sessions_revoked'', JBool True)])) None
      (revoke_all visible now uid (put_account uid (\<lambda>a. a\<lparr>au_password_hash := Some (ic_hash cfg password)\<rparr>)
        (s\<lparr>reset_links := (reset_links s)(sha token := None)\<rparr>)))"
    by (auto simp: consume_password_reset_def Let_def split: option.splits if_splits)
  then show ?thesis by (intro exI [of _ uid] exI [of _ "Some (ic_hash cfg password)"]) (simp add: revoke_all_is revoked_keys)
qed

text \<open>A new password does not end remembered logins: whatever a device cookie answered before the reset by phone, the
  change by the owner or the reset by link (a session for a student or a teacher), it answers the same after it.
\<close>

theorem a_new_password_keeps_device_logins:
  fixes s :: "'a device_db_scheme"
  assumes "sets_password cfg sha s s'"
  shows "outcome_of (verify_on_cookie_alone cfg sha later sid secret pending slots target s')
    = outcome_of (verify_on_cookie_alone cfg sha later sid secret pending slots target s)"
proof -
  obtain uid h where e: "devices s' = devices s" "accounts s' = update_row au_id uid (\<lambda>a. a\<lparr>au_password_hash := h\<rparr>) (accounts s)"
    "us_sid ` set (sessions s') = us_sid ` set (sessions s)"
    "us_refresh_token_hash ` set (sessions s') = us_refresh_token_hash ` set (sessions s)"
    using sets_password_shape [OF assms] by (elim exE conjE) (rule that)
  let ?f = "\<lambda>a. if au_id a = uid then a\<lparr>au_password_hash := h\<rparr> else a"
  have "same_person ?f" by (simp add: same_person_def)
  moreover have "accounts s' = map ?f (accounts s)" using e(2) by (simp add: update_row_def)
  ultimately show ?thesis using device_login_survives [OF e(1) _ _ e(3,4)] by blast
qed

section \<open>The reset form\<close>

lemma live_cooldown:
  assumes "request_phone_challenge env p now cid code salt delivered raw purpose ip s = (Inr c, s1)"
    and "normalize_phone env raw (op_default_region p) = Inr phone" "now \<le> later" "later < now + seconds (op_resend_cooldown_seconds p)"
  shows "in_cooldown later phone s1"
proof -
  have "ot_cooldowns s1 phone = Some \<lparr>vo_value = now + seconds (op_resend_cooldown_seconds p),
      vo_expires = now + seconds (max 1 (op_resend_cooldown_seconds p + REDIS_TTL_GRACE_SECONDS))\<rparr>"
    using assms(1,2) by (auto simp: request_phone_challenge_def put_cooldown_def Let_def split: prod.splits sum.splits if_splits)
  moreover have "op_resend_cooldown_seconds p * 1000000 \<le> max 1 (op_resend_cooldown_seconds p + 600) * 1000000" by simp
  then have "later < now + max 1 (op_resend_cooldown_seconds p + 600) * 1000000" using assms(4) by (simp add: seconds_def)
  ultimately show ?thesis using assms(4) by (simp add: in_cooldown_def live_value_def seconds_def REDIS_TTL_GRACE_SECONDS_def)
qed

lemma request_accounts:
  "request_phone_challenge env p now cid code salt delivered raw purpose ip s = (r, s1) \<Longrightarrow> accounts s1 = accounts s"
proof -
  have caps: "count_caps now cs d = (x, d1) \<Longrightarrow> accounts d1 = accounts d" for cs x and d d1 :: "'a otp_db_scheme"
    by (induction cs arbitrary: d) (auto simp: Let_def incr_rate_def expire_rate_nx_def split: option.splits prod.splits if_splits)
  assume "request_phone_challenge env p now cid code salt delivered raw purpose ip s = (r, s1)"
  then show ?thesis
    by (auto simp: request_phone_challenge_def require_within_caps_def put_cooldown_def put_hash_def Let_def
        split: prod.splits sum.splits if_splits dest!: caps)
qed

text \<open>The reset form tells who is a student with a phone: asked twice within the resend cooldown it refuses the second
  time for such an account, and answers both times for a name that nobody holds.
\<close>

theorem the_reset_form_reveals_students:
  assumes "find_by_username (py_strip student) s = Some u" "au_role u = STUDENT" "au_phone_e164 u = Some raw"
    and "normalize_phone (ic_otp cfg) raw (op_default_region (ic_policy cfg)) = Inr phone"
    and "request_password_reset cfg now d student ip s = (Inr c, s1)" "find_by_username (py_strip stranger) s = None"
    and "now \<le> later" "later < now + seconds (op_resend_cooldown_seconds (ic_policy cfg))"
  shows "fst (request_password_reset cfg later d' student ip' s1) = Inl (OtpFailure ResendCooldown)
    \<and> (\<exists>c1. request_password_reset cfg now d stranger ip s = (Inr c1, s) \<and> cp_expires_at c1 = cp_expires_at c
       \<and> (\<exists>c2. request_password_reset cfg later d' stranger ip' s = (Inr c2, s)))"
proof -
  have one: "request_phone_challenge (ic_otp cfg) (ic_policy cfg) now (sd_challenge d) (sd_code d) (sd_salt d) (sd_delivered d)
      raw PASSWORD_RESET ip s = (Inr c, s1)"
    using assms(1-3,5) by (auto simp: request_password_reset_def request_code_def split: prod.splits sum.splits)
  have "find_by_username (py_strip student) s1 = Some u"
    using assms(1) request_accounts [OF one] by (simp add: find_by_username_def)
  then have "request_password_reset cfg later d' student ip' s1 = request_code cfg later d' raw PASSWORD_RESET ip' s1"
    using assms(2,3) by (simp add: request_password_reset_def)
  moreover have "in_cooldown later phone s1" using live_cooldown [OF one assms(4,7,8)] .
  ultimately have "fst (request_password_reset cfg later d' student ip' s1) = Inl (OtpFailure ResendCooldown)"
    using assms(4) by (simp add: request_code_def request_phone_challenge_def)
  moreover have "cp_expires_at c = now + seconds (op_ttl_seconds (ic_policy cfg))"
    using one by (auto simp: request_phone_challenge_def Let_def split: sum.splits prod.splits if_splits)
  ultimately show ?thesis using assms(6) by (simp add: request_password_reset_def decoy_challenge_def)
qed

section \<open>The reset link\<close>

text \<open>A reset link is spent by a password of the wrong length: the request fails with an unhandled exception, no password
  is set, and the link is refused from then on.
\<close>

theorem a_short_password_burns_the_link:
  assumes "live_value now (reset_links s (sha token)) = Some uid" "row_of au_id uid (accounts s) = Some u"
    and "au_status u = UserStatus.ACTIVE" "\<not> validate_password_length password"
  shows "\<exists>s1. consume_password_reset cfg sha visible now token password s = (Inl UncaughtValueError, s1) \<and> accounts s1 = accounts s
    \<and> (\<forall>later visible' password'. fst (consume_password_reset cfg sha visible' later token password' s1) = Inl ResetLinkInvalid)"
  using assms by (simp add: consume_password_reset_def Let_def live_value_def)

section \<open>The emergency stop\<close>

lemma entries_owned:
  "e \<in> set (entries_of sha now slots s) \<Longrightarrow> \<exists>r\<in>set (devices s). au_id (re_user e) = rd_user r"
proof (induction slots)
  case (Cons sv slots)
  obtain slot v where sv: "sv = (slot, v)" by (cases sv)
  show ?case
  proof (cases "e \<in> set (entries_of sha now slots s)")
    case True then show ?thesis using Cons.IH by simp
  next
    case False
    then obtain r u where "resolve_row sha now v s = Some r" "row_of au_id (rd_user r) (accounts s) = Some u" "re_user e = u"
      using Cons.prems sv by (auto split: option.splits)
    moreover from this(1) have "r \<in> set (devices s)" by (auto simp: resolve_row_def dest: row_of_SomeD split: option.splits if_splits)
    ultimately show ?thesis by (auto dest: row_of_SomeD intro!: bexI [of _ r])
  qed
qed simp

lemma first_per_user_sub: "set (first_per_user seen es) \<subseteq> set es"
  by (induction es arbitrary: seen) (auto split: if_splits)

lemma remembered_owned: "e \<in> set (resolve_remembered sha now slots s) \<Longrightarrow> \<exists>r\<in>set (devices s). au_id (re_user e) = rd_user r"
  using first_per_user_sub [of "{}" "sort_key (\<lambda>e. - recency e) (entries_of sha now slots s)"] entries_owned
  unfolding resolve_remembered_def by fastforce

text \<open>The emergency stop ends both kinds of credential: afterwards no session of the account that the update saw
  authenticates a request or rotates, no set of cookies resolves to the account, and the audit log has the row.
\<close>

theorem kick_closes_both_doors:
  assumes "kick visible actor now uid ctx s = Inr (counts, s')" "\<forall>r\<in>set (sessions s). visible (us_sid r)"
  shows "find_with_live_session later uid sid s' = None
    \<and> (\<forall>e\<in>set (resolve_remembered sha later slots s'). au_id (re_user e) \<noteq> uid)
    \<and> snd counts = length (filter (\<lambda>r. rd_user r = uid) (devices s)) \<and> fst counts = live_session_count now uid s
    \<and> length (audit_logs s') = length (audit_logs s) + 1"
proof -
  obtain u where u: "row_of au_id uid (accounts s) = Some u"
    using assms(1) by (auto simp: kick_def kick_sessions_def split: option.splits)
  then have eq: "Inr (kick_devices actor uid (live_session_count now uid s) ctx (revoke_all visible now uid s)) = (Inr (counts, s') :: identity_error + _)"
    using assms(1) by (simp add: kick_def kick_sessions_def)
  then have s': "sessions s' = sessions (revoke_all visible now uid s)" "devices s' = filter (\<lambda>r. rd_user r \<noteq> uid) (devices s)"
    "snd counts = length (filter (\<lambda>r. rd_user r = uid) (devices s))" "fst counts = live_session_count now uid s"
    "length (audit_logs s') = length (audit_logs s) + 1"
    by (auto simp: kick_devices_def revoke_devices_def Let_def audit_append_def revoke_all_def revoke_matching_def)
  have seen: "\<forall>r\<in>set (sessions s'). visible (us_sid r)"
    using assms(2) unfolding s'(1) by (auto simp: revoke_all_def revoke_matching_def Let_def)
  have dead: "us_revoked_at r \<noteq> None" if "r \<in> set (sessions s')" "us_user r = uid" for r
    using revoked_rows [of r visible now uid s] that seen s'(1) by auto
  have "find_with_live_session later uid sid s' = None"
  proof -
    have "\<not> list_ex (\<lambda>r. us_user r = uid \<and> us_sid r = sid \<and> live_session later r) (sessions s')"
      unfolding list_ex_iff live_session_def using dead by blast
    then show ?thesis by (simp add: find_with_live_session_def)
  qed
  moreover have "au_id (re_user e) \<noteq> uid" if e: "e \<in> set (resolve_remembered sha later slots s')" for e
    using remembered_owned [OF e] s'(2) by auto
  ultimately show ?thesis using s'(3-5) by blast
qed

section \<open>The last administrator\<close>

definition active_admins :: "'a auth_db_scheme \<Rightarrow> account list" where
  "active_admins s = filter (\<lambda>u. au_role u = ADMIN \<and> au_status u = UserStatus.ACTIVE) (accounts s)"

text \<open>The role change keeps an administrator but suspension does not: the only active administrator cannot be demoted
  by anybody, and can suspend himself, after which there is none.
\<close>

theorem the_last_administrator_can_suspend_himself:
  assumes "active_admins s = [u]" "distinct (map au_id (accounts s))" "py_strip reason \<noteq> []"
    and "actor_user_id other \<noteq> au_id u"
  shows "change_role other (au_id u) TEACHER ctx s = Inl LastAdministrator
    \<and> (\<exists>v s'. suspend_user \<lparr>actor_user_id = au_id u, actor_role = ADMIN\<rparr> (au_id u) reason ctx s = Inr (v, s') \<and> active_admins s' = [])"
proof -
  have "u \<in> set (active_admins s)" using assms(1) by simp
  then have u: "u \<in> set (accounts s)" "au_role u = ADMIN" "au_status u = UserStatus.ACTIVE" by (simp_all add: active_admins_def)
  then have row: "row_of au_id (au_id u) (accounts s) = Some u" using assms(2) by (simp add: row_of_unique)
  have only: "v = u" if "v \<in> set (accounts s)" "au_role v = ADMIN" "au_status v = UserStatus.ACTIVE" for v
  proof -
    have "v \<in> set (active_admins s)" using that by (simp add: active_admins_def)
    then show ?thesis using assms(1) by simp
  qed
  have "filter (\<lambda>v. au_role v = ADMIN \<and> au_status v = UserStatus.ACTIVE \<and> au_id v \<noteq> au_id u) (accounts s) = []"
    unfolding filter_empty_conv using only by blast
  then have "other_admins (au_id u) s = 0" by (simp add: other_admins_def count_rows_def)
  then have "change_role other (au_id u) TEACHER ctx s = Inl LastAdministrator"
    using row u assms(4) by (simp add: change_role_def)
  moreover obtain v s' where s': "suspend_user \<lparr>actor_user_id = au_id u, actor_role = ADMIN\<rparr> (au_id u) reason ctx s = Inr (v, s')"
    "accounts s' = update_row au_id (au_id u) (\<lambda>_. u\<lparr>au_status := SUSPENDED\<rparr>) (accounts s)"
    using row u assms(3) by (simp add: suspend_user_def account_transition_def suspend_verb_def is_admin_def Let_def)
  moreover have "active_admins s' = []"
  proof -
    have "\<not> (au_role w = ADMIN \<and> au_status w = UserStatus.ACTIVE)" if w: "w \<in> set (accounts s')" for w
    proof -
      obtain x where x: "x \<in> set (accounts s)" "w = (if au_id x = au_id u then u\<lparr>au_status := SUSPENDED\<rparr> else x)"
        using w unfolding s'(2) update_row_def by auto
      show ?thesis
      proof (cases "au_id x = au_id u")
        case True then show ?thesis using x(2) by simp
      next
        case False then show ?thesis using x only by auto
      qed
    qed
    then show ?thesis unfolding active_admins_def filter_empty_conv by blast
  qed
  ultimately show ?thesis by blast
qed

section \<open>A new password\<close>

text \<open>With a verifier that accepts exactly the hashed text: after the owner's change the new password matches and the old
  one does not, every other session of the account that the update saw is revoked, and the kept one is as before.
\<close>

theorem change_replaces_the_password:
  assumes "change_password cfg visible now uid current password keep s = Inr s'" "row_of au_id uid (accounts s') = Some u"
    and "\<And>p q. sv_verify (ic_session cfg) p (ic_hash cfg q) \<longleftrightarrow> p = q" "current \<noteq> password"
  shows "password_matches (ic_session cfg) password u \<and> \<not> password_matches (ic_session cfg) current u
    \<and> (\<forall>r\<in>set (sessions s'). us_user r = uid \<longrightarrow> visible (us_sid r) \<longrightarrow> keep \<noteq> Some (us_sid r) \<longrightarrow> us_revoked_at r \<noteq> None)
    \<and> (\<forall>r\<in>set (sessions s). keep = Some (us_sid r) \<longrightarrow> r \<in> set (sessions s'))"
proof -
  have s': "s' = revoke_all_except visible now uid keep (set_password cfg uid password s)" and long: "validate_password_length password"
    using assms(1) by (auto simp: change_password_def require_usable_password_def split: sum.splits if_splits)
  obtain v where "u = v\<lparr>au_password_hash := Some (ic_hash cfg password)\<rparr>"
  proof -
    have "accounts s' = map (\<lambda>a. if au_id a = uid then a\<lparr>au_password_hash := Some (ic_hash cfg password)\<rparr> else a) (accounts s)"
      by (simp add: s' set_password_def update_row_def)
    moreover have mine: "u \<in> set (accounts s')" "au_id u = uid" using row_of_SomeD [OF assms(2)] by simp_all
    ultimately have "u \<in> (\<lambda>a. if au_id a = uid then a\<lparr>au_password_hash := Some (ic_hash cfg password)\<rparr> else a) ` set (accounts s)"
      by simp
    then obtain v where v: "u = (if au_id v = uid then v\<lparr>au_password_hash := Some (ic_hash cfg password)\<rparr> else v)" by (rule imageE)
    show thesis
    proof (cases "au_id v = uid")
      case True then show thesis using that v by simp
    next
      case False then show thesis using v mine(2) by simp
    qed
  qed
  then have "password_matches (ic_session cfg) password u \<and> \<not> password_matches (ic_session cfg) current u"
    using assms(3,4) long by (auto simp: password_matches_def verify_password_def)
  moreover have "us_revoked_at r \<noteq> None"
    if r: "r \<in> set (sessions s')" "us_user r = uid" "visible (us_sid r)" "keep \<noteq> Some (us_sid r)" for r
  proof -
    let ?hit = "\<lambda>r. visible (us_sid r) \<and> us_user r = uid \<and> us_revoked_at r = None \<and> keep \<noteq> Some (us_sid r)"
    have "r \<in> (\<lambda>x. if ?hit x then x\<lparr>us_revoked_at := Some now\<rparr> else x) ` set (sessions s)"
      using r(1) by (simp add: s' revoke_all_except_def revoke_matching_def set_password_def Let_def)
    then obtain x where x: "r = (if ?hit x then x\<lparr>us_revoked_at := Some now\<rparr> else x)" by (rule imageE)
    show ?thesis
    proof (cases "?hit x")
      case True then have "r = x\<lparr>us_revoked_at := Some now\<rparr>" using x by simp
      then show ?thesis by simp
    next
      case False then have "r = x" using x by simp
      then show ?thesis using False r(2-4) by simp
    qed
  qed
  moreover have "r \<in> set (sessions s')" if r: "r \<in> set (sessions s)" "keep = Some (us_sid r)" for r
    using r by (simp add: s' revoke_all_except_def revoke_matching_def set_password_def Let_def image_iff)
  ultimately show ?thesis by blast
qed

section \<open>A concrete account\<close>

definition amy :: account where
  "amy = \<lparr>au_id = 7, au_username = ''amy'', au_password_hash = Some ''correct horse'', au_nickname = ''Amy'',
     au_phone_e164 = Some ''+86'', au_email_normalized = None, au_email_verified_at = None, au_role = STUDENT,
     au_status = UserStatus.ACTIVE, au_approved_at = None, au_rejected_reason = None\<rparr>"

definition root_admin :: account where
  "root_admin = amy\<lparr>au_id := 1, au_username := ''root'', au_phone_e164 := None, au_role := ADMIN\<rparr>"

definition plain_config :: identity_config where
  "plain_config = \<lparr>ic_otp = plain_env, ic_policy = six_digits, ic_session = key_cfg 0, ic_hash = (\<lambda>p. p), ic_graphemes = length\<rparr>"

definition amys_phone :: RememberedDevice where
  "amys_phone = \<lparr>rd_id = 5, rd_user = 7, rd_token_hash = ''cookie'', rd_expires_at = hours 24, rd_last_used_at = None, rd_created_at = 0\<rparr>"

definition amys_world :: device_db where
  "amys_world = \<lparr>audit_logs = [], domain_events = [], notifications = [], armed_jobs = [], ranking_jobs = [],
     accounts = [amy, root_admin], sessions = [generation 1 ''a'' 0], login_fails = (\<lambda>_. None), ot_challenges = (\<lambda>_. None)(1 := Some amy_hash),
     ot_cooldowns = (\<lambda>_. None), ot_tokens = (\<lambda>_. None), ot_rates = (\<lambda>_. None), ot_sms = [], devices = [amys_phone],
     staff_pending = (\<lambda>_. None), reset_links = (\<lambda>_. None)(''link'' := Some \<lparr>vo_value = 1, vo_expires = hours 24\<rparr>)\<rparr>"

lemmas amy_defs = amys_world_def amy_def root_admin_def plain_config_def amys_phone_def key_cfg_def generation_def hours_def minutes_def

lemma amys_challenge: "ot_challenges amys_world = (\<lambda>_. None)(1 := Some amy_hash)" by (simp add: amys_world_def)

lemma amys_reset:
  obtains s' where "confirm_password_reset plain_config (\<lambda>_. True) 10 ''t'' 1 ''123456'' ''battery staple'' amys_world = (Inr (), s')"
proof -
  have config: "ic_otp plain_config = plain_env" "ic_policy plain_config = six_digits" by (simp_all add: plain_config_def)
  have long: "validate_password_length ''battery staple''"
    by (simp add: validate_password_length_def PASSWORD_MIN_LENGTH_def PASSWORD_MAX_LENGTH_def)
  let ?h = "amy_hash\<lparr>rh_consumed_at := Some 10\<rparr>"
  let ?s1 = "put_hash 1 ?h amys_world"
  have hit: "hgetall 10 1 amys_world = Some amy_hash" by (simp add: hgetall_def amys_challenge live_hash_def amy_hash_def new_challenge_def seconds_def six_digits_def REDIS_TTL_GRACE_SECONDS_def)
  have won: "hsetnx_consumed 10 10 1 amys_world = (True, ?s1)"
    by (simp add: hsetnx_consumed_def hash_or_blank_def hit del: One_nat_def) (simp add: amy_hash_def new_challenge_def)
  have there: "hexists_code_hash 10 1 ?s1"
    by (simp add: hexists_code_hash_def hgetall_def put_hash_def live_hash_def amy_hash_def new_challenge_def seconds_def six_digits_def REDIS_TTL_GRACE_SECONDS_def)
  obtain t s2 where mint: "mint_token plain_env six_digits 10 10 ''t'' amy_hash ?s1 = (Inr t, s2)" "vt_token t = ''t''"
    "ot_tokens s2 (token_key plain_env six_digits ''t'') = Some \<lparr>vo_value = \<lparr>tp_phone = ''+86'', tp_purpose = Some ''PASSWORD_RESET'',
      tp_expires_at = 10 + seconds 600\<rparr>, vo_expires = 10 + seconds 1200\<rparr>" "accounts s2 = [amy, root_admin]"
    by (simp add: mint_token_def amy_hash_def new_challenge_def six_digits_def REDIS_TTL_GRACE_SECONDS_def put_hash_def amys_world_def)
  have "verify_phone_challenge plain_env six_digits 10 ''t'' 1 ''123456'' amys_world = (Inr t, s2)"
    unfolding verify_phone_challenge_def amy_judged(1) [OF amys_challenge] by (simp add: won there mint(1) del: One_nat_def)
  moreover have "verify_phone_token plain_env six_digits 10 ''t'' s2
      = (Inr amy_proof, s2\<lparr>ot_tokens := (ot_tokens s2)(token_key plain_env six_digits ''t'' := None)\<rparr>)"
    by (simp add: verify_phone_token_def mint(3) live_value_def seconds_def amy_proof_def Let_def)
  ultimately have "consume_phone_proof plain_config 10 ''t'' 1 ''123456'' PASSWORD_RESET amys_world
      = (Inr ''+86'', s2\<lparr>ot_tokens := (ot_tokens s2)(token_key plain_env six_digits ''t'' := None)\<rparr>)"
    by (simp add: consume_phone_proof_def config mint(2) amy_proof_def)
  moreover have "find_by_phone_e164 ''+86'' (s2\<lparr>ot_tokens := m\<rparr>) = Some amy" for m
    using mint(4) by (simp add: find_by_phone_e164_def amy_def root_admin_def)
  ultimately show thesis using that by (simp add: confirm_password_reset_def require_usable_password_def long amy_def)
qed


lemma amys_cookie:
  "\<exists>tokens. outcome_of (verify_on_cookie_alone plain_config (\<lambda>t. t) 20 9 ''z'' ''p'' [(''slot'', ''cookie'')] None amys_world)
    = Inr (Authenticated STUDENT 7 tokens)"
proof -
  have "resolve_remembered (\<lambda>t. t) 20 [(''slot'', ''cookie'')] amys_world = [\<lparr>re_slot = ''slot'', re_row = amys_phone, re_user = amy\<rparr>]"
    by (simp add: resolve_remembered_def resolve_row_def amy_defs)
  moreover have "py_strip [] = []" by (simp add: py_strip_def)
  ultimately show ?thesis
    by (simp add: verify_on_cookie_alone_def chosen_entry_def outcome_of_def issue_session_def may_sign_in_def bump_def amy_defs Let_def)
qed

text \<open>The password was reset, every session is revoked, and the cookie opens a new session.\<close>

theorem a_new_password_keeps_device_logins_witness:
  "\<exists>s' tokens. confirm_password_reset plain_config (\<lambda>_. True) 10 ''t'' 1 ''123456'' ''battery staple'' amys_world = (Inr (), s')
    \<and> outcome_of (verify_on_cookie_alone plain_config (\<lambda>t. t) 20 9 ''z'' ''p'' [(''slot'', ''cookie'')] None s') = Inr (Authenticated STUDENT 7 tokens)"
proof -
  obtain s' where s': "confirm_password_reset plain_config (\<lambda>_. True) 10 ''t'' 1 ''123456'' ''battery staple'' amys_world = (Inr (), s')"
    by (rule amys_reset)
  then have "sets_password plain_config (\<lambda>t. t) amys_world s'" unfolding sets_password_def by blast
  from a_new_password_keeps_device_logins [OF this] amys_cookie s' show ?thesis by metis
qed

text \<open>A moment later the form refuses Amy and still answers for a name that nobody holds.\<close>

definition any_draw :: sms_draw where
  "any_draw = \<lparr>sd_challenge = 2, sd_code = ''654321'', sd_salt = ''s'', sd_delivered = True\<rparr>"

theorem the_reset_form_reveals_students_witness:
  "\<exists>c s1. request_password_reset plain_config 10 any_draw ''amy'' ''ip'' amys_world = (Inr c, s1)
    \<and> fst (request_password_reset plain_config 20 any_draw ''amy'' ''ip'' s1) = Inl (OtpFailure ResendCooldown)
    \<and> (\<exists>c2. request_password_reset plain_config 20 any_draw ''eve'' ''ip'' amys_world = (Inr c2, amys_world))"
proof -
  have strip: "py_strip ''amy'' = ''amy''" "py_strip ''eve'' = ''eve''" by code_simp+
  have config: "ic_otp plain_config = plain_env" "ic_policy plain_config = six_digits" by (simp_all add: plain_config_def)
  have who: "find_by_username (py_strip ''amy'') amys_world = Some amy" "find_by_username (py_strip ''eve'') amys_world = None"
    by (simp_all add: strip find_by_username_def amys_world_def amy_def root_admin_def)
  have amy: "au_role amy = STUDENT" "au_phone_e164 amy = Some ''+86''" by (simp_all add: amy_def)
  have phone: "normalize_phone (ic_otp plain_config) ''+86'' (op_default_region (ic_policy plain_config)) = Inr ''+86''"
    by (simp add: config normalize_phone_def plain_env_def)
  have quiet: "ot_rates amys_world = (\<lambda>_. None)" "ot_cooldowns amys_world = (\<lambda>_. None)" by (simp_all add: amys_world_def)
  obtain c s1 where one: "request_password_reset plain_config 10 any_draw ''amy'' ''ip'' amys_world = (Inr c, s1)"
    by (simp add: request_password_reset_def who amy request_code_def config any_draw_def request_phone_challenge_def normalize_phone_def
        plain_env_def in_cooldown_def quiet live_value_def require_within_caps_def request_caps_def incr_rate_def expire_rate_nx_def live_counter_def
        six_digits_def cap_key_def rate_key_def RATE_KEY_PREFIX_def seconds_def HOUR_SECONDS_def DAY_SECONDS_def Let_def)
  have soon: "(10::int) \<le> 20" "20 < 10 + seconds (op_resend_cooldown_seconds (ic_policy plain_config))"
    by (simp_all add: config seconds_def six_digits_def)
  from the_reset_form_reveals_students [OF who(1) amy phone one who(2) soon] one show ?thesis by blast
qed

theorem a_short_password_burns_the_link_witness:
  "fst (consume_password_reset plain_config (\<lambda>t. t) (\<lambda>_. True) 20 ''link'' ''long enough now''
     (snd (consume_password_reset plain_config (\<lambda>t. t) (\<lambda>_. True) 10 ''link'' ''short'' amys_world))) = Inl ResetLinkInvalid"
proof -
  have live: "live_value 10 (reset_links amys_world ''link'') = Some 1" by (simp add: amys_world_def live_value_def hours_def minutes_def)
  have root: "row_of au_id 1 (accounts amys_world) = Some root_admin" "au_status root_admin = UserStatus.ACTIVE"
    by (simp_all add: amys_world_def amy_def root_admin_def)
  have short: "\<not> validate_password_length ''short''" by (simp add: validate_password_length_def PASSWORD_MIN_LENGTH_def)
  show ?thesis
    using a_short_password_burns_the_link [of 10 amys_world "\<lambda>t. t" "''link''", OF live root short, of plain_config "\<lambda>_. True"] by auto
qed

theorem kick_closes_both_doors_witness:
  "\<exists>counts s'. kick (\<lambda>_. True) \<lparr>actor_user_id = 1, actor_role = ADMIN\<rparr> 10 7 None amys_world = Inr (counts, s') \<and> counts = (1, 1)
    \<and> find_with_live_session 20 7 1 s' = None \<and> resolve_remembered (\<lambda>t. t) 20 [(''slot'', ''cookie'')] s' = []"
proof -
  obtain counts s' where k: "kick (\<lambda>_. True) \<lparr>actor_user_id = 1, actor_role = ADMIN\<rparr> 10 7 None amys_world = Inr (counts, s')"
  proof -
    have "row_of au_id 7 (accounts amys_world) = Some amy" by (simp add: amys_world_def amy_def)
    then show thesis using that
      by (cases "kick_devices \<lparr>actor_user_id = 1, actor_role = ADMIN\<rparr> 7 (live_session_count 10 7 amys_world) None (revoke_all (\<lambda>_. True) 10 7 amys_world)")
        (simp add: kick_def kick_sessions_def)
  qed
  have seen: "\<forall>r\<in>set (sessions amys_world). (\<lambda>_::uuid. True) (us_sid r)" by simp
  note law = kick_closes_both_doors [OF k seen]
  have "counts = (1, 1)" using law by (cases counts) (simp add: live_session_count_def amys_world_def amys_phone_def generation_def hours_def minutes_def)
  moreover have "devices s' = []" using k
    by (auto simp: kick_def kick_sessions_def kick_devices_def revoke_devices_def amys_world_def amy_def amys_phone_def Let_def audit_append_def)
  then have "resolve_remembered (\<lambda>t. t) 20 [(''slot'', ''cookie'')] s' = []"
    by (simp add: resolve_remembered_def resolve_row_def)
  ultimately show ?thesis using k law by blast
qed

theorem the_last_administrator_can_suspend_himself_witness:
  "change_role \<lparr>actor_user_id = 7, actor_role = ADMIN\<rparr> 1 TEACHER None amys_world = Inl LastAdministrator
    \<and> (\<exists>v s'. suspend_user \<lparr>actor_user_id = 1, actor_role = ADMIN\<rparr> 1 ''tired'' None amys_world = Inr (v, s') \<and> active_admins s' = [])"
proof -
  have "active_admins amys_world = [root_admin]" "distinct (map au_id (accounts amys_world))" "au_id root_admin = 1"
    by (simp_all add: active_admins_def amys_world_def amy_def root_admin_def)
  moreover have "py_strip ''tired'' \<noteq> []" by code_simp
  ultimately show ?thesis
    using the_last_administrator_can_suspend_himself [of amys_world root_admin "''tired''" "\<lparr>actor_user_id = 7, actor_role = ADMIN\<rparr>" None] by simp
qed

theorem change_replaces_the_password_witness:
  "\<exists>s' u. change_password plain_config (\<lambda>_. True) 10 7 ''correct horse'' ''battery staple'' (Some 1) amys_world = Inr s'
    \<and> row_of au_id 7 (accounts s') = Some u \<and> \<not> password_matches (key_cfg 0) ''correct horse'' u \<and> generation 1 ''a'' 0 \<in> set (sessions s')"
proof -
  have "verify_password (key_cfg 0) ''correct horse'' ''correct horse'' = Some True" "validate_password_length ''battery staple''"
    by (simp_all add: verify_password_def validate_password_length_def PASSWORD_MIN_LENGTH_def PASSWORD_MAX_LENGTH_def key_cfg_def)
  then obtain s' where s': "change_password plain_config (\<lambda>_. True) 10 7 ''correct horse'' ''battery staple'' (Some 1) amys_world = Inr s'"
    by (simp add: change_password_def require_user_def require_current_password_def require_usable_password_def password_matches_def
        amys_world_def amy_def plain_config_def)
  obtain u where u: "row_of au_id 7 (accounts s') = Some u" using s'
    by (auto simp: change_password_def set_password_def amys_world_def amy_def update_row_def split: sum.splits)
  have exact: "sv_verify (ic_session plain_config) p (ic_hash plain_config q) \<longleftrightarrow> p = q" for p q
    by (simp add: plain_config_def key_cfg_def)
  have "generation 1 ''a'' 0 \<in> set (sessions amys_world)" "Some 1 = Some (us_sid (generation 1 ''a'' 0))"
    by (simp_all add: amys_world_def generation_def)
  moreover have "ic_session plain_config = key_cfg 0" by (simp add: plain_config_def)
  ultimately show ?thesis using change_replaces_the_password [OF s' u exact] s' u by auto
qed

end
