(* ===== verification/Account_Laws.thy ===== *)
theory Account_Laws
  imports Recovery_Laws
begin

text \<open>
  The life of an account: every operation as a step on the table, and what holds of the table in every reachable
  state.
\<close>

section \<open>The life of an account\<close>

inductive account_step :: "identity_config \<Rightarrow> (string \<Rightarrow> string) \<Rightarrow> device_db \<Rightarrow> device_db \<Rightarrow> bool" for cfg sha where
  register: "register_student cfg now uid cmd s = (r, s') \<Longrightarrow> uid \<notin> au_id ` set (accounts s) \<Longrightarrow> account_step cfg sha s s'"
| suspend: "suspend_user actor uid reason ctx s = Inr (u, s') \<Longrightarrow> account_step cfg sha s s'"
| ban: "ban_user actor uid reason ctx s = Inr (u, s') \<Longrightarrow> account_step cfg sha s s'"
| reactivate: "reactivate_user actor uid reason ctx s = Inr (u, s') \<Longrightarrow> account_step cfg sha s s'"
| approve: "approve_student approved_text now actor uid ctx s = Inr (u, s') \<Longrightarrow> account_step cfg sha s s'"
| reject: "reject_student rejected_text actor uid reason ctx s = Inr (u, s') \<Longrightarrow> account_step cfg sha s s'"
| role: "change_role actor uid new_role ctx s = Inr (u, s') \<Longrightarrow> account_step cfg sha s s'"
| batch: "batch_status_action do_suspend actor ctx uids s = (answers, s') \<Longrightarrow> account_step cfg sha s s'"
| nickname: "change_nickname cfg uid nick s = Inr s' \<Longrightarrow> account_step cfg sha s s'"
| change_phone: "confirm_phone_change cfg now token uid cid code s = (r, s') \<Longrightarrow> account_step cfg sha s s'"
| bind_phone: "confirm_phone_bind cfg now token actor cid code ctx s = (r, s') \<Longrightarrow> account_step cfg sha s s'"
| change: "change_password cfg visible now uid current password keep s = Inr s' \<Longrightarrow> account_step cfg sha s s'"
| reset: "confirm_password_reset cfg visible now token cid code password s = (r, s') \<Longrightarrow> account_step cfg sha s s'"
| link: "consume_password_reset cfg sha visible now token password s = (r, s') \<Longrightarrow> account_step cfg sha s s'"
| elsewhere: "accounts s' = accounts s \<Longrightarrow> account_step cfg sha s s'"

lemma step_evolves: "account_step cfg sha s s' \<Longrightarrow> account_rows_evolve\<^sup>*\<^sup>* (accounts s) (accounts s')"
proof (induction rule: account_step.induct)
  case register then show ?case by (blast intro: register_evolves)
next
  case suspend then show ?case unfolding suspend_user_def by (blast intro: transition_evolves verbs_lawful)
next
  case ban then show ?case unfolding ban_user_def by (blast intro: transition_evolves verbs_lawful)
next
  case reactivate then show ?case unfolding reactivate_user_def by (blast intro: transition_evolves verbs_lawful)
next
  case approve then show ?case unfolding approve_student_def by (blast intro: transition_evolves verbs_lawful)
next
  case reject then show ?case unfolding reject_student_def by (blast intro: transition_evolves verbs_lawful)
next
  case role then show ?case by (blast intro: change_role_evolves)
next
  case batch then show ?case using batch_evolves by (metis (mono_tags, lifting))
next
  case nickname then show ?case by (blast intro: nickname_evolves)
next
  case change_phone then show ?case by (blast intro: confirm_change_evolves)
next
  case bind_phone then show ?case by (blast intro: confirm_bind_evolves)
next
  case change then show ?case by (blast intro: change_password_evolves)
next
  case (reset visible now token cid code password s r s')
  from reset_evolves [OF this] have "account_rows_evolve (accounts s) (accounts s')"
    by (intro hash_evolves [where h = "Some (ic_hash cfg password)"]) blast
  then show ?case by blast
next
  case (link visible now token password s r s')
  from link_evolves [OF this] have "account_rows_evolve (accounts s) (accounts s')" by (rule hash_evolves)
  then show ?case by blast
next
  case (elsewhere s' s) then show ?case by simp
qed

definition phones_unique :: "account list \<Rightarrow> bool" where
  "phones_unique rows \<longleftrightarrow> inj_on au_phone_e164 {a \<in> set rows. au_phone_e164 a \<noteq> None}"

definition keys_unique :: "account list \<Rightarrow> bool" where
  "keys_unique rows \<longleftrightarrow> distinct (map au_id rows) \<and> distinct (map au_username rows) \<and> phones_unique rows"

lemma phones_uniqueI:
  "(\<And>a b. a \<in> set rows \<Longrightarrow> b \<in> set rows \<Longrightarrow> au_phone_e164 a = au_phone_e164 b \<Longrightarrow> au_phone_e164 a \<noteq> None \<Longrightarrow> a = b)
    \<Longrightarrow> phones_unique rows"
  unfolding phones_unique_def by (rule inj_onI) simp

lemma phones_uniqueD: "phones_unique rows \<Longrightarrow> a \<in> set rows \<Longrightarrow> b \<in> set rows \<Longrightarrow> au_phone_e164 a = au_phone_e164 b
    \<Longrightarrow> au_phone_e164 a \<noteq> None \<Longrightarrow> a = b"
  unfolding phones_unique_def by (erule inj_onD) simp_all

definition succeeds :: "account list \<Rightarrow> account \<Rightarrow> bool" where
  "succeeds rows' u \<longleftrightarrow> (\<exists>v\<in>set rows'. au_id v = au_id u \<and> au_username v = au_username u
     \<and> (au_role v = STUDENT \<longleftrightarrow> au_role u = STUDENT) \<and> (au_status u, au_status v) \<in> STATUS_TABLE\<^sup>*)"

lemma succeedsE:
  assumes "succeeds rows' u"
  obtains v where "v \<in> set rows'" "au_id v = au_id u" "au_username v = au_username u" "(au_role v = STUDENT) = (au_role u = STUDENT)"
    "(au_status u, au_status v) \<in> STATUS_TABLE\<^sup>*"
  using assms unfolding succeeds_def by blast

lemma succeeds_refl: "u \<in> set rows \<Longrightarrow> succeeds rows u"
  by (auto simp: succeeds_def)

lemma evolve_keys:
  assumes "account_rows_evolve rows rows'" "keys_unique rows"
  shows "keys_unique rows' \<and> (\<forall>u\<in>set rows. succeeds rows' u)"
  using assms(1) unfolding account_rows_evolve_def
proof (elim disjE exE conjE)
  assume "rows' = rows" then show ?thesis using assms(2) succeeds_refl by simp
next
  fix u assume u: "rows' = rows @ [u]" "au_username u \<notin> au_username ` set rows" "au_phone_e164 u \<noteq> None"
    "au_phone_e164 u \<notin> au_phone_e164 ` set rows" "au_id u \<notin> au_id ` set rows"
  have old: "distinct (map au_id rows)" "distinct (map au_username rows)" "phones_unique rows"
    using assms(2) by (simp_all add: keys_unique_def)
  have new: "au_phone_e164 z \<noteq> au_phone_e164 u" if "z \<in> set rows" for z using u(4) that by (metis imageI)
  have "phones_unique rows'"
  proof (rule phones_uniqueI)
    fix a b assume that: "a \<in> set rows'" "b \<in> set rows'" "au_phone_e164 a = au_phone_e164 b" "au_phone_e164 a \<noteq> None"
    have ab: "a = u \<or> a \<in> set rows" "b = u \<or> b \<in> set rows" using that(1,2) u(1) by simp_all
    consider "a = u" "b = u" | "a = u" "b \<in> set rows" | "a \<in> set rows" "b = u" | "a \<in> set rows" "b \<in> set rows"
      using ab by blast
    then show "a = b"
    proof cases
      case 2 then show ?thesis using new [of b] that(3) by simp
    next
      case 3 then show ?thesis using new [of a] that(3) by simp
    next
      case 4 then show ?thesis using phones_uniqueD [OF old(3)] that(3,4) by blast
    qed simp
  qed
  then have "keys_unique rows'" unfolding keys_unique_def using u(1,2,5) old(1,2) by simp
  then show ?thesis using u(1) by (auto simp: succeeds_def)
next
  fix uid f u assume r: "row_of au_id uid rows = Some u" "rows' = update_row au_id uid f rows" and e: "account_edge rows u (f u)"
  have u: "u \<in> set rows" "au_id u = uid" using row_of_SomeD [OF r(1)] by simp_all
  have only: "a = u" if "a \<in> set rows" "au_id a = uid" for a
    using assms(2) u that unfolding keys_unique_def by (auto simp: distinct_map dest: inj_onD)
  have rows': "rows' = map (\<lambda>a. if a = u then f u else a) rows"
    unfolding r(2) update_row_def
  proof (rule map_cong [OF refl])
    fix a assume a: "a \<in> set rows"
    show "(if au_id a = uid then f a else a) = (if a = u then f u else a)"
    proof (cases "a = u")
      case True then show ?thesis using u(2) by simp
    next
      case False
      then have "au_id a \<noteq> uid" using only [OF a] by blast
      then show ?thesis using False by simp
    qed
  qed
  have ids: "map au_id rows' = map au_id rows" "map au_username rows' = map au_username rows"
    unfolding rows' map_map using e by (intro map_cong; auto simp: account_edge_def)+
  have phones: "a = b" if ab: "a \<in> set rows'" "b \<in> set rows'" "au_phone_e164 a = au_phone_e164 b" "au_phone_e164 a \<noteq> None" for a b
  proof -
    obtain x y where xy: "x \<in> set rows" "y \<in> set rows" "a = (if x = u then f u else x)" "b = (if y = u then f u else y)"
      using ab(1,2) unfolding rows' by auto
    have old: "phones_unique rows" using assms(2) by (simp add: keys_unique_def)
    have apart: "au_phone_e164 z \<noteq> au_phone_e164 (f u)" if z: "z \<noteq> u" "z \<in> set rows" "au_phone_e164 (f u) \<noteq> None" for z
    proof
      assume eq: "au_phone_e164 z = au_phone_e164 (f u)"
      have "au_id z \<noteq> au_id u" using only [OF z(2)] z(1) u(2) by blast
      then have "au_phone_e164 (f u) = au_phone_e164 u" using e eq z(2) unfolding account_edge_def by metis
      then have "z = u" using phones_uniqueD [OF old z(2) u(1)] eq z(3) by simp
      then show False using z(1) by simp
    qed
    show ?thesis
    proof (cases "x = u"; cases "y = u")
      assume "x = u" "y = u" then show ?thesis using xy by simp
    next
      assume "x = u" "y \<noteq> u" then show ?thesis using xy ab apart [of y] by auto
    next
      assume "x \<noteq> u" "y = u" then show ?thesis using xy ab apart [of x] by auto
    next
      assume "x \<noteq> u" "y \<noteq> u" then show ?thesis using xy ab phones_uniqueD [OF old xy(1,2)] by simp
    qed
  qed
  have "succeeds rows' a" if "a \<in> set rows" for a
  proof (cases "a = u")
    case True
    have "f u \<in> set rows'" using u(1) unfolding rows' by force
    then show ?thesis using e True unfolding succeeds_def account_edge_def by (intro bexI [of _ "f u"]) auto
  next
    case False
    then have "a \<in> set rows'" using that unfolding rows' by force
    then show ?thesis by (rule succeeds_refl)
  qed
  moreover have "phones_unique rows'" by (rule phones_uniqueI) (rule phones)
  then have "keys_unique rows'" using assms(2) by (simp add: keys_unique_def ids)
  ultimately show ?thesis by blast
qed

lemma evolve_run:
  assumes "account_rows_evolve\<^sup>*\<^sup>* rows rows'" "keys_unique rows"
  shows "keys_unique rows' \<and> (\<forall>u\<in>set rows. succeeds rows' u)"
  using assms(1)
proof (induction rule: rtranclp_induct)
  case base then show ?case using assms(2) succeeds_refl by simp
next
  case (step b c)
  then have c: "keys_unique c" "\<forall>u\<in>set b. succeeds c u" using evolve_keys by blast+
  have "succeeds c u" if u: "u \<in> set rows" for u
  proof -
    have "succeeds b u" using step.IH u by blast
    then obtain v where v: "v \<in> set b" "au_id v = au_id u" "au_username v = au_username u" "(au_role v = STUDENT) = (au_role u = STUDENT)"
      "(au_status u, au_status v) \<in> STATUS_TABLE\<^sup>*" by (rule succeedsE)
    have "succeeds c v" using c(2) v(1) by blast
    then obtain w where w: "w \<in> set c" "au_id w = au_id v" "au_username w = au_username v" "(au_role w = STUDENT) = (au_role v = STUDENT)"
      "(au_status v, au_status w) \<in> STATUS_TABLE\<^sup>*" by (rule succeedsE)
    show ?thesis unfolding succeeds_def using v w rtrancl_trans [OF v(5) w(5)] by (intro bexI [of _ w]) simp_all
  qed
  then show ?case using c(1) by blast
qed



section \<open>Registration\<close>

text \<open>What a client of the phone port relies on: it touches no account, and a token it looked at is gone.\<close>

locale phone_port =
  fixes resolve :: "instant \<Rightarrow> string \<Rightarrow> 's \<Rightarrow> (otp_error + VerifiedPhone) \<times> 's"
    and people :: "'s \<Rightarrow> account list"
  assumes keeps_people: "resolve now token s = (r, s') \<Longrightarrow> people s' = people s"
    and spends: "resolve now token s = (r, s') \<Longrightarrow> resolve later token s' = (Inl InvalidToken, s')"
begin

lemma second_use_fails: "resolve now token s = (r, s') \<Longrightarrow> fst (resolve later token s') = Inl InvalidToken"
  using spends by (metis fst_conv)

lemma second_use_changes_nothing: "resolve now token s = (r, s') \<Longrightarrow> resolve later token s' = (r2, s2) \<Longrightarrow> people s2 = people s"
  using keeps_people spends by (metis prod.inject)

end

interpretation otp_port: phone_port "verify_phone_token env p" "accounts :: 'a otp_db_scheme \<Rightarrow> account list"
proof unfold_locales
  fix now token and s s' :: "'a otp_db_scheme" and r assume v: "verify_phone_token env p now token s = (r, s')"
  show "accounts s' = accounts s" using v by (auto simp: verify_phone_token_def Let_def split: option.splits if_splits)
  have "s' = s\<lparr>ot_tokens := (ot_tokens s)(token_key env p token := None)\<rparr>"
    using v by (auto simp: verify_phone_token_def Let_def split: option.splits if_splits)
  then show "verify_phone_token env p later token s' = (Inl InvalidToken, s')" for later
    by (simp add: verify_phone_token_def Let_def live_value_def)
qed

text \<open>C30: A malformed registration touches nothing, so its proof can be used again; one that passed the checks spent its proof
  whatever came of it, and no later registration with that proof succeeds; a success adds exactly one student who
  waits for approval, under a free username and a free phone.
\<close>

theorem a_proof_registers_at_most_once:
  fixes s :: "'a otp_db_scheme"
  assumes "register_student cfg now uid cmd s = (r, s')"
  shows "(\<exists>e. register_checks cfg cmd = Inl e \<and> r = Inl e \<and> s' = s)
    \<or> ((\<exists>x. register_checks cfg cmd = Inr x)
       \<and> (\<forall>later uid' cmd'. rs_phone_token cmd' = rs_phone_token cmd \<longrightarrow> (\<exists>e. fst (register_student cfg later uid' cmd' s') = Inl e))
       \<and> (\<forall>u. r = Inr u \<longrightarrow> accounts s' = accounts s @ [u] \<and> au_role u = STUDENT \<and> au_status u = PENDING_APPROVAL
            \<and> au_username u \<notin> au_username ` set (accounts s) \<and> au_phone_e164 u \<notin> au_phone_e164 ` set (accounts s))
       \<and> ((\<exists>e. r = Inl e) \<longrightarrow> accounts s' = accounts s))"
proof (cases "register_checks cfg cmd")
  case (Inl e) then show ?thesis using assms by (simp add: register_student_def)
next
  case (Inr x)
  obtain number nickname where x: "x = (number, nickname)" by (cases x)
  obtain v s1 where v: "verify_phone_token (ic_otp cfg) (ic_policy cfg) now (rs_phone_token cmd) s = (v, s1)" by fastforce
  note same = otp_port.keeps_people [OF v]
  have tokens: "ot_tokens s' = ot_tokens s1"
    using assms Inr x v by (auto simp: register_student_def Let_def split: sum.splits if_splits)
  have gone: "live_value later (ot_tokens s1 (token_key (ic_otp cfg) (ic_policy cfg) (rs_phone_token cmd))) = None" for later
    using v by (auto simp: verify_phone_token_def Let_def live_value_def split: option.splits if_splits)
  have "\<exists>e. fst (register_student cfg later uid' cmd' s') = Inl e" if "rs_phone_token cmd' = rs_phone_token cmd" for later uid' cmd'
  proof (cases "register_checks cfg cmd'")
    case (Inl e) then show ?thesis by (simp add: register_student_def)
  next
    case (Inr y)
    have "fst (verify_phone_token (ic_otp cfg) (ic_policy cfg) later (rs_phone_token cmd') s') = Inl InvalidToken"
      by (simp add: verify_phone_token_def that tokens gone Let_def)
    then show ?thesis using Inr by (cases y) (auto simp: register_student_def split: prod.splits sum.splits)
  qed
  moreover have "accounts s' = accounts s @ [u] \<and> au_role u = STUDENT \<and> au_status u = PENDING_APPROVAL
      \<and> au_username u \<notin> au_username ` set (accounts s) \<and> au_phone_e164 u \<notin> au_phone_e164 ` set (accounts s)" if "r = Inr u" for u
    using assms Inr x v that same
    by (auto simp: register_student_def Let_def registered_def find_by_phone_e164_def row_of_None split: sum.splits if_splits)
  moreover have "accounts s' = accounts s" if "r = Inl e" for e
    using assms Inr x v that same by (auto simp: register_student_def Let_def split: sum.splits if_splits)
  ultimately show ?thesis using Inr by blast
qed

definition eves_form :: RegisterStudent where
  "eves_form = \<lparr>rs_student_number = ''20260001'', rs_nickname = None, rs_password = None, rs_phone_token = ''t''\<rparr>"

definition eves_world :: device_db where
  "eves_world = amys_world\<lparr>ot_tokens := (\<lambda>_. None)(token_key plain_env six_digits ''t'' := Some
     \<lparr>vo_value = \<lparr>tp_phone = ''+87'', tp_purpose = Some ''REGISTER'', tp_expires_at = 100\<rparr>, vo_expires = 100\<rparr>)\<rparr>"

theorem a_proof_registers_at_most_once_witness:
  "\<exists>u s'. register_student plain_config 10 9 eves_form eves_world = (Inr u, s') \<and> accounts s' = [amy, root_admin, u]
    \<and> (\<exists>e. fst (register_student plain_config 11 10 (eves_form\<lparr>rs_student_number := ''20260002''\<rparr>) s') = Inl e)"
proof -
  have "validate_student_number ''20260001'' STUDENT_NUMBER_DEFAULT_MIN_LEN STUDENT_NUMBER_DEFAULT_MAX_LEN = Inr ''20260001''" by code_simp
  then have checks: "register_checks plain_config eves_form = Inr (''20260001'', ''20260001'')"
    by (simp add: register_checks_def validated_def eves_form_def)
  have config: "ic_otp plain_config = plain_env" "ic_policy plain_config = six_digits" by (simp_all add: plain_config_def)
  have token: "ot_tokens eves_world (token_key plain_env six_digits ''t'') = Some
     \<lparr>vo_value = \<lparr>tp_phone = ''+87'', tp_purpose = Some ''REGISTER'', tp_expires_at = 100\<rparr>, vo_expires = 100\<rparr>"
    by (simp add: eves_world_def)
  have people: "accounts eves_world = [amy, root_admin]" by (simp add: eves_world_def amys_world_def)
  obtain u s' where one: "register_student plain_config 10 9 eves_form eves_world = (Inr u, s')"
  proof -
    have "rs_phone_token eves_form = ''t''" by (simp add: eves_form_def)
    then show thesis using that
      by (simp add: register_student_def checks config verify_phone_token_def token live_value_def find_by_phone_e164_def
        people amy_def root_admin_def Let_def)
  qed
  from a_proof_registers_at_most_once [OF one] checks people
  have "accounts s' = [amy, root_admin, u]" "\<exists>e. fst (register_student plain_config 11 10 (eves_form\<lparr>rs_student_number := ''20260002''\<rparr>) s') = Inl e"
    by (auto simp: eves_form_def)
  then show ?thesis using one by blast
qed

end
