(* ===== verification/Cleanup.thy ===== *)
theory Cleanup
  imports Campus_Facts
begin

text \<open>
  File retention: the cleanup service (\<open>files/cleanup_service.py\<close>) and its repository
  (\<open>workers/jobs/cleanup_files.py\<close>) over the submission and upload-intent rows.  The deletion right
  over a row is a lease with an ownership token; the provider's delete runs outside any transaction.
  Arguments stand for the minted tokens, the lease length and the provider's answers.
\<close>

section \<open>Records and outcomes\<close>

definition CLEANUP_BATCH_LIMIT :: nat where "CLEANUP_BATCH_LIMIT = 500"

record FileRecord =
  fr_submission_id :: uuid
  fr_object_key :: string
  fr_retention_until :: "instant option"
  fr_permanent :: bool
  fr_legal_hold :: bool
  fr_protected :: bool
  fr_deleted_at :: "instant option"

record IntentRecord =
  ir_intent_id :: uuid
  ir_object_key :: string

datatype MarkOutcome = MARKED | MARK_ALREADY_DELETED | CLAIM_LOST

datatype FileCleanupOutcome =
    DELETED | RECONCILED_MISSING | ALREADY_DELETED | SKIPPED_PERMANENT | SKIPPED_LEGAL_HOLD
  | SKIPPED_UNDER_REVIEW | SKIPPED_RETENTION_NOT_DUE | SKIPPED_CLAIM_LOST
  | FAILED_STORAGE_TEMPORARY | FAILED_STORAGE_PERMANENT | FAILED_STORAGE_UNKNOWN

datatype OrphanIntentOutcome =
    INTENT_DELETED | MISSING_OBJECT | INTENT_CLAIM_LOST
  | INTENT_FAILED_TEMPORARY | INTENT_FAILED_PERMANENT | INTENT_FAILED_UNKNOWN

fun is_skipped :: "FileCleanupOutcome \<Rightarrow> bool" where
  "is_skipped SKIPPED_PERMANENT = True"
| "is_skipped SKIPPED_LEGAL_HOLD = True"
| "is_skipped SKIPPED_UNDER_REVIEW = True"
| "is_skipped SKIPPED_RETENTION_NOT_DUE = True"
| "is_skipped SKIPPED_CLAIM_LOST = True"
| "is_skipped _ = False"

text \<open>\<open>delete_object\<close>: done, \<open>FileNotFoundError\<close>, the adapter's taxonomy, or any other exception.\<close>

datatype delete_answer = Removed | NotThere | Refused provider_failure | Crashed

text \<open>Exceptions the service lets through: a crash of the storage, a vanished row.\<close>

datatype cleanup_error = StorageCrash | RowVanished uuid

record CleanupSummary =
  cs_scanned :: nat
  cs_deleted :: nat
  cs_reconciled :: nat
  cs_already_deleted :: nat
  cs_skipped :: "FileCleanupOutcome \<Rightarrow> nat"
  cs_failed :: "FileCleanupOutcome \<Rightarrow> nat"

definition empty_summary :: CleanupSummary where
  "empty_summary = \<lparr>cs_scanned = 0, cs_deleted = 0, cs_reconciled = 0, cs_already_deleted = 0,
     cs_skipped = (\<lambda>_. 0), cs_failed = (\<lambda>_. 0)\<rparr>"

record OrphanIntentSummary =
  os_scanned :: nat
  os_deleted :: nat
  os_missing :: nat
  os_skipped :: "OrphanIntentOutcome \<Rightarrow> nat"
  os_failed :: "OrphanIntentOutcome \<Rightarrow> nat"

section \<open>The repository: files\<close>

definition UNDER_REVIEW_CLAIM_STATUSES :: "ClaimStatus list" where
  "UNDER_REVIEW_CLAIM_STATUSES = [ClaimStatus.VALIDATING, ClaimStatus.UNDER_REVIEW]"

definition past :: "instant option \<Rightarrow> instant \<Rightarrow> bool" where
  "past t now \<longleftrightarrow> (case t of None \<Rightarrow> False | Some x \<Rightarrow> x \<le> now)"

text \<open>The candidate filter joins the claim; a claimed row with no lease instant stays excluded.\<close>

definition due_file :: "instant \<Rightarrow> 'a campus_db_scheme \<Rightarrow> submission \<Rightarrow> bool" where
  "due_file now s b \<longleftrightarrow> sb_deleted_at b = None \<and> \<not> sb_retention_permanent b \<and> \<not> sb_legal_hold b
     \<and> past (sb_retention_until b) now
     \<and> (sb_cleanup_claimed_at b = None \<or> past (sb_cleanup_lease_expires_at b) now)
     \<and> (case row_of cl_id (sb_claim_id b) (claims s) of None \<Rightarrow> False
        | Some c \<Rightarrow> cl_status c \<notin> set UNDER_REVIEW_CLAIM_STATUSES)"

definition file_record :: "submission \<Rightarrow> FileRecord" where
  "file_record b = \<lparr>fr_submission_id = sb_id b, fr_object_key = sb_object_key b,
     fr_retention_until = sb_retention_until b, fr_permanent = False, fr_legal_hold = False,
     fr_protected = False, fr_deleted_at = None\<rparr>"

definition retention_key :: "submission \<Rightarrow> int" where
  "retention_key b = (case sb_retention_until b of None \<Rightarrow> 0 | Some t \<Rightarrow> t)"

definition collect_due_files :: "nat \<Rightarrow> instant \<Rightarrow> 'a campus_db_scheme \<Rightarrow> FileRecord list" where
  "collect_due_files lim now s = take lim (map file_record
     (sort_key retention_key (sort_key sb_id (filter (due_file now s) (submissions s)))))"

definition lease_live :: "submission \<Rightarrow> instant \<Rightarrow> bool" where
  "lease_live b now \<longleftrightarrow> sb_cleanup_claimed_at b \<noteq> None \<and> sb_deleted_at b = None
     \<and> (case sb_cleanup_lease_expires_at b of None \<Rightarrow> True | Some t \<Rightarrow> now < t)"

definition claim_for_cleanup ::
  "int \<Rightarrow> uuid \<Rightarrow> FileRecord \<Rightarrow> instant \<Rightarrow> 'a campus_db_scheme \<Rightarrow> uuid option \<times> 'a campus_db_scheme" where
  "claim_for_cleanup lease token r now s =
     (case row_of sb_id (fr_submission_id r) (submissions s) of None \<Rightarrow> (None, s) | Some b \<Rightarrow>
      if sb_deleted_at b \<noteq> None \<or> sb_retention_permanent b \<or> sb_legal_hold b
         \<or> \<not> past (sb_retention_until b) now \<or> lease_live b now
         \<or> (case row_of cl_id (sb_claim_id b) (claims s) of None \<Rightarrow> True
            | Some c \<Rightarrow> cl_status c \<in> set UNDER_REVIEW_CLAIM_STATUSES)
      then (None, s)
      else (Some token, put_submission (b\<lparr>sb_cleanup_claimed_at := Some now,
              sb_cleanup_lease_expires_at := Some (now + lease), sb_cleanup_claim_token := Some token\<rparr>) s))"

definition release_cleanup_claim :: "FileRecord \<Rightarrow> uuid \<Rightarrow> 'a campus_db_scheme \<Rightarrow> 'a campus_db_scheme" where
  "release_cleanup_claim r token s =
     (case row_of sb_id (fr_submission_id r) (submissions s) of None \<Rightarrow> s | Some b \<Rightarrow>
      if sb_cleanup_claim_token b = Some token \<and> sb_cleanup_claimed_at b \<noteq> None \<and> sb_deleted_at b = None
      then put_submission (b\<lparr>sb_cleanup_claimed_at := None, sb_cleanup_lease_expires_at := None,
             sb_cleanup_claim_token := None\<rparr>) s
      else s)"

definition mark_deleted ::
  "FileRecord \<Rightarrow> uuid \<Rightarrow> instant \<Rightarrow> 'a campus_db_scheme \<Rightarrow> cleanup_error + (MarkOutcome \<times> 'a campus_db_scheme)" where
  "mark_deleted r token deleted_at s =
     (case row_of sb_id (fr_submission_id r) (submissions s) of
        None \<Rightarrow> Inl (RowVanished (fr_submission_id r)) | Some b \<Rightarrow>
      if sb_cleanup_claim_token b = Some token \<and> sb_deleted_at b = None
      then Inr (MARKED, put_submission (b\<lparr>sb_deleted_at := Some deleted_at\<rparr>) s)
      else if sb_deleted_at b \<noteq> None then Inr (MARK_ALREADY_DELETED, s)
      else if sb_cleanup_claim_token b \<noteq> Some token then Inr (CLAIM_LOST, s)
      else Inl (RowVanished (fr_submission_id r)))"

section \<open>The service: files\<close>

definition guard :: "FileRecord \<Rightarrow> instant \<Rightarrow> FileCleanupOutcome option" where
  "guard r now = (if fr_permanent r then Some SKIPPED_PERMANENT
     else if fr_legal_hold r then Some SKIPPED_LEGAL_HOLD
     else if fr_protected r then Some SKIPPED_UNDER_REVIEW
     else if \<not> past (fr_retention_until r) now then Some SKIPPED_RETENTION_NOT_DUE
     else None)"

fun failure_outcome :: "provider_failure \<Rightarrow> FileCleanupOutcome" where
  "failure_outcome TemporaryProviderError = FAILED_STORAGE_TEMPORARY"
| "failure_outcome PermanentProviderError = FAILED_STORAGE_PERMANENT"
| "failure_outcome UnknownOutcomeError = FAILED_STORAGE_UNKNOWN"

fun settled_outcome :: "bool \<Rightarrow> MarkOutcome \<Rightarrow> FileCleanupOutcome" where
  "settled_outcome missing MARK_ALREADY_DELETED = ALREADY_DELETED"
| "settled_outcome missing _ = (if missing then RECONCILED_MISSING else DELETED)"

text \<open>The provider's answer is acted on under the token; a failure keeps the claim.\<close>

definition settle_delete ::
  "delete_answer \<Rightarrow> FileRecord \<Rightarrow> uuid \<Rightarrow> instant \<Rightarrow> 'a campus_db_scheme
    \<Rightarrow> (cleanup_error + FileCleanupOutcome) \<times> 'a campus_db_scheme" where
  "settle_delete answer r token now s = (case answer of
       Crashed \<Rightarrow> (Inl StorageCrash, s)
     | Refused f \<Rightarrow> (Inr (failure_outcome f), s)
     | NotThere \<Rightarrow> (case mark_deleted r token now s of Inl e \<Rightarrow> (Inl e, s)
         | Inr (m, s') \<Rightarrow> (Inr (settled_outcome True m), s'))
     | Removed \<Rightarrow> (case mark_deleted r token now s of Inl e \<Rightarrow> (Inl e, s)
         | Inr (m, s') \<Rightarrow> (Inr (settled_outcome False m), s')))"

definition cleanup_expired_file ::
  "int \<Rightarrow> uuid \<Rightarrow> (string \<Rightarrow> delete_answer) \<Rightarrow> instant \<Rightarrow> FileRecord \<Rightarrow> 'a campus_db_scheme
    \<Rightarrow> (cleanup_error + FileCleanupOutcome) \<times> 'a campus_db_scheme" where
  "cleanup_expired_file lease token delete now r s =
     (case guard r now of Some skipped \<Rightarrow> (Inr skipped, s) | None \<Rightarrow>
      case claim_for_cleanup lease token r now s of (None, s1) \<Rightarrow> (Inr SKIPPED_CLAIM_LOST, s1)
      | (Some t, s1) \<Rightarrow> settle_delete (delete (fr_object_key r)) r t now s1)"

definition tally :: "FileCleanupOutcome \<Rightarrow> CleanupSummary \<Rightarrow> CleanupSummary" where
  "tally out c = (let c1 = c\<lparr>cs_scanned := cs_scanned c + 1\<rparr> in
     if out = DELETED then c1\<lparr>cs_deleted := cs_deleted c + 1\<rparr>
     else if out = RECONCILED_MISSING then c1\<lparr>cs_reconciled := cs_reconciled c + 1\<rparr>
     else if out = ALREADY_DELETED then c1\<lparr>cs_already_deleted := cs_already_deleted c + 1\<rparr>
     else if is_skipped out then c1\<lparr>cs_skipped := (cs_skipped c)(out := cs_skipped c out + 1)\<rparr>
     else c1\<lparr>cs_failed := (cs_failed c)(out := cs_failed c out + 1)\<rparr>)"

fun cleanup_records ::
  "int \<Rightarrow> (uuid \<Rightarrow> uuid) \<Rightarrow> (string \<Rightarrow> delete_answer) \<Rightarrow> instant \<Rightarrow> FileRecord list \<Rightarrow> CleanupSummary
    \<Rightarrow> 'a campus_db_scheme \<Rightarrow> (cleanup_error + CleanupSummary) \<times> 'a campus_db_scheme" where
  "cleanup_records lease mint delete now [] c s = (Inr c, s)"
| "cleanup_records lease mint delete now (r # rs) c s =
     (case cleanup_expired_file lease (mint (fr_submission_id r)) delete now r s of
        (Inl e, s1) \<Rightarrow> (Inl e, s1)
      | (Inr out, s1) \<Rightarrow> cleanup_records lease mint delete now rs (tally out c) s1)"

definition cleanup_expired_files ::
  "int \<Rightarrow> (uuid \<Rightarrow> uuid) \<Rightarrow> (string \<Rightarrow> delete_answer) \<Rightarrow> nat \<Rightarrow> instant \<Rightarrow> 'a campus_db_scheme
    \<Rightarrow> (cleanup_error + CleanupSummary) \<times> 'a campus_db_scheme" where
  "cleanup_expired_files lease mint delete lim now s =
     cleanup_records lease mint delete now (collect_due_files lim now s) empty_summary s"

section \<open>Orphaned intents\<close>

definition due_intent :: "instant \<Rightarrow> upload_intent \<Rightarrow> bool" where
  "due_intent now i \<longleftrightarrow> ui_expires_at i \<le> now \<and> ui_finalized_submission_id i = None
     \<and> ui_cleanup_deleted_at i = None
     \<and> (ui_cleanup_claimed_at i = None \<or> past (ui_cleanup_lease_expires_at i) now)"

definition collect_due_intents :: "nat \<Rightarrow> instant \<Rightarrow> 'a campus_db_scheme \<Rightarrow> IntentRecord list" where
  "collect_due_intents lim now s = take lim (map (\<lambda>i. \<lparr>ir_intent_id = ui_id i, ir_object_key = ui_object_key i\<rparr>)
     (sort_key ui_expires_at (sort_key ui_id (filter (due_intent now) (upload_intents s)))))"

definition claim_intent ::
  "int \<Rightarrow> uuid \<Rightarrow> IntentRecord \<Rightarrow> instant \<Rightarrow> 'a campus_db_scheme \<Rightarrow> uuid option \<times> 'a campus_db_scheme" where
  "claim_intent lease token r now s =
     (case row_of ui_id (ir_intent_id r) (upload_intents s) of None \<Rightarrow> (None, s) | Some i \<Rightarrow>
      if due_intent now i
      then (Some token, put_intent (i\<lparr>ui_cleanup_claimed_at := Some now,
              ui_cleanup_lease_expires_at := Some (now + lease), ui_cleanup_claim_token := Some token\<rparr>) s)
      else (None, s))"

definition mark_intent_deleted ::
  "IntentRecord \<Rightarrow> uuid \<Rightarrow> instant \<Rightarrow> 'a campus_db_scheme \<Rightarrow> cleanup_error + 'a campus_db_scheme" where
  "mark_intent_deleted r token deleted_at s =
     (case row_of ui_id (ir_intent_id r) (upload_intents s) of
        None \<Rightarrow> Inl (RowVanished (ir_intent_id r)) | Some i \<Rightarrow>
      if ui_cleanup_claim_token i = Some token \<and> ui_cleanup_deleted_at i = None
      then Inr (put_intent (i\<lparr>ui_cleanup_deleted_at := Some deleted_at\<rparr>) s) else Inr s)"

definition release_intent :: "IntentRecord \<Rightarrow> uuid \<Rightarrow> 'a campus_db_scheme \<Rightarrow> 'a campus_db_scheme" where
  "release_intent r token s =
     (case row_of ui_id (ir_intent_id r) (upload_intents s) of None \<Rightarrow> s | Some i \<Rightarrow>
      if ui_cleanup_claim_token i = Some token \<and> ui_cleanup_claimed_at i \<noteq> None
      then put_intent (i\<lparr>ui_cleanup_claimed_at := None, ui_cleanup_lease_expires_at := None,
             ui_cleanup_claim_token := None\<rparr>) s
      else s)"

fun intent_failure :: "provider_failure \<Rightarrow> OrphanIntentOutcome" where
  "intent_failure TemporaryProviderError = INTENT_FAILED_TEMPORARY"
| "intent_failure PermanentProviderError = INTENT_FAILED_PERMANENT"
| "intent_failure UnknownOutcomeError = INTENT_FAILED_UNKNOWN"

definition cleanup_orphaned_intent ::
  "int \<Rightarrow> uuid \<Rightarrow> (string \<Rightarrow> delete_answer) \<Rightarrow> instant \<Rightarrow> IntentRecord \<Rightarrow> 'a campus_db_scheme
    \<Rightarrow> (cleanup_error + OrphanIntentOutcome) \<times> 'a campus_db_scheme" where
  "cleanup_orphaned_intent lease token delete now r s =
     (case claim_intent lease token r now s of (None, s1) \<Rightarrow> (Inr INTENT_CLAIM_LOST, s1)
      | (Some t, s1) \<Rightarrow>
        (case delete (ir_object_key r) of
           Crashed \<Rightarrow> (Inl StorageCrash, s1)
         | Refused f \<Rightarrow> (Inr (intent_failure f), release_intent r t s1)
         | NotThere \<Rightarrow> (case mark_intent_deleted r t now s1 of Inl e \<Rightarrow> (Inl e, s1)
             | Inr s2 \<Rightarrow> (Inr MISSING_OBJECT, s2))
         | Removed \<Rightarrow> (case mark_intent_deleted r t now s1 of Inl e \<Rightarrow> (Inl e, s1)
             | Inr s2 \<Rightarrow> (Inr INTENT_DELETED, s2))))"

definition tally_intent :: "OrphanIntentOutcome \<Rightarrow> OrphanIntentSummary \<Rightarrow> OrphanIntentSummary" where
  "tally_intent out c = (let c1 = c\<lparr>os_scanned := os_scanned c + 1\<rparr> in
     if out = INTENT_DELETED then c1\<lparr>os_deleted := os_deleted c + 1\<rparr>
     else if out = MISSING_OBJECT then c1\<lparr>os_missing := os_missing c + 1\<rparr>
     else if out = INTENT_CLAIM_LOST then c1\<lparr>os_skipped := (os_skipped c)(out := os_skipped c out + 1)\<rparr>
     else c1\<lparr>os_failed := (os_failed c)(out := os_failed c out + 1)\<rparr>)"

fun cleanup_intents ::
  "int \<Rightarrow> (uuid \<Rightarrow> uuid) \<Rightarrow> (string \<Rightarrow> delete_answer) \<Rightarrow> instant \<Rightarrow> IntentRecord list \<Rightarrow> OrphanIntentSummary
    \<Rightarrow> 'a campus_db_scheme \<Rightarrow> (cleanup_error + OrphanIntentSummary) \<times> 'a campus_db_scheme" where
  "cleanup_intents lease mint delete now [] c s = (Inr c, s)"
| "cleanup_intents lease mint delete now (r # rs) c s =
     (case cleanup_orphaned_intent lease (mint (ir_intent_id r)) delete now r s of
        (Inl e, s1) \<Rightarrow> (Inl e, s1)
      | (Inr out, s1) \<Rightarrow> cleanup_intents lease mint delete now rs (tally_intent out c) s1)"

definition cleanup_orphaned_intents ::
  "int \<Rightarrow> (uuid \<Rightarrow> uuid) \<Rightarrow> (string \<Rightarrow> delete_answer) \<Rightarrow> nat \<Rightarrow> instant \<Rightarrow> 'a campus_db_scheme
    \<Rightarrow> (cleanup_error + OrphanIntentSummary) \<times> 'a campus_db_scheme" where
  "cleanup_orphaned_intents lease mint delete lim now s =
     cleanup_intents lease mint delete now (collect_due_intents lim now s)
       \<lparr>os_scanned = 0, os_deleted = 0, os_missing = 0, os_skipped = (\<lambda>_. 0), os_failed = (\<lambda>_. 0)\<rparr> s"

text \<open>The worker's scan: the files, then the intents, with one clock reading.\<close>

definition cleanup_files_scan ::
  "int \<Rightarrow> (uuid \<Rightarrow> uuid) \<Rightarrow> (uuid \<Rightarrow> uuid) \<Rightarrow> (string \<Rightarrow> delete_answer) \<Rightarrow> instant \<Rightarrow> 'a campus_db_scheme
    \<Rightarrow> (cleanup_error + (CleanupSummary \<times> OrphanIntentSummary)) \<times> 'a campus_db_scheme" where
  "cleanup_files_scan lease mint mint_intent delete now s =
     (case cleanup_expired_files lease mint delete CLEANUP_BATCH_LIMIT now s of
        (Inl e, s1) \<Rightarrow> (Inl e, s1)
      | (Inr files, s1) \<Rightarrow>
        (case cleanup_orphaned_intents lease mint_intent delete CLEANUP_BATCH_LIMIT now s1 of
           (Inl e, s2) \<Rightarrow> (Inl e, s2)
         | (Inr intents, s2) \<Rightarrow> (Inr (files, intents), s2)))"

end
