(* ===== verification/Retention.thy ===== *)
theory Retention
  imports Cleanup
begin

text \<open>
  Retention and review at the same time: cleanup workers, the object store and every operation of the
  campus interleaved, with workers that stall between any two of their transactions.  The object of a
  submission that is being validated or reviewed is never deleted.
\<close>

section \<open>What the campus does to files\<close>

definition filed :: "submission \<Rightarrow> (uuid \<times> uuid \<times> int \<times> string) \<times> instant option \<times> instant option \<times> uuid option" where
  "filed b = (upload_key b, sb_deleted_at b, sb_cleanup_claimed_at b, sb_cleanup_claim_token b)"

definition untouched :: "submission \<Rightarrow> bool" where
  "untouched b \<longleftrightarrow> sb_deleted_at b = None \<and> sb_cleanup_claimed_at b = None \<and> sb_cleanup_claim_token b = None"

definition files_extend :: "'a campus_db_scheme \<Rightarrow> 'b campus_db_scheme \<Rightarrow> bool" where
  "files_extend s s' \<longleftrightarrow> (\<exists>new. map filed (submissions s') = map filed (submissions s @ new) \<and> list_all untouched new)"

lemma files_same: "submissions s' = submissions s \<Longrightarrow> files_extend s s'"
  by (auto simp: files_extend_def intro: exI [of _ "[]"])

lemma filed_put:
  assumes "distinct (map sb_id (submissions s))" "row_of sb_id (sb_id b) (submissions s) = Some sub"
    and "filed b = filed sub"
  shows "map filed (submissions (put_submission b s)) = map filed (submissions s)"
proof -
  have "filed (if sb_id r = sb_id b then b else r) = filed r" if "r \<in> set (submissions s)" for r
    using row_of_unique [OF assms(1) that] assms(2,3) by auto
  then show ?thesis by (simp add: submissions_put_submission update_row_def)
qed

lemma files_put:
  assumes "distinct (map sb_id (submissions s))" "row_of sb_id (sb_id b) (submissions s) = Some sub"
    and "filed b = filed sub" "submissions s' = submissions (put_submission b s)"
  shows "files_extend s s'"
  using filed_put [OF assms(1-3)] by (auto simp: files_extend_def assms(4) intro: exI [of _ "[]"])

text \<open>A claim that a step brings into the review pipeline holds no unfinished deletion.\<close>

definition in_pipeline :: "claim \<Rightarrow> bool" where
  "in_pipeline c \<longleftrightarrow> cl_status c \<in> {ClaimStatus.VALIDATING, ClaimStatus.UNDER_REVIEW}"

definition guarded_entry :: "'a campus_db_scheme \<Rightarrow> 'b campus_db_scheme \<Rightarrow> bool" where
  "guarded_entry s s' \<longleftrightarrow> (\<forall>cid c'. row_of cl_id cid (claims s') = Some c' \<and> in_pipeline c'
     \<longrightarrow> (\<exists>c. row_of cl_id cid (claims s) = Some c \<and> in_pipeline c) \<or> no_unfinished_cleanup cid s)"

lemma entry_same: "claims s' = claims s \<Longrightarrow> guarded_entry s s'"
  by (auto simp: guarded_entry_def)

lemma entry_put:
  assumes "row_of cl_id cid (claims s) = Some c" "claims s' = claims (put_claim d s)" "cl_id d = cid"
    and "in_pipeline d \<Longrightarrow> in_pipeline c \<or> no_unfinished_cleanup cid s"
  shows "guarded_entry s s'"
  using assms by (auto simp: guarded_entry_def row_of_put_claim split: if_splits)

lemma unfinished_filed: "unfinished_cleanup cid b \<longleftrightarrow>
    (case filed b of ((_, claim, _, _), gone, claimed, token) \<Rightarrow>
      claim = cid \<and> gone = None \<and> (claimed \<noteq> None \<or> token \<noteq> None))"
  by (auto simp: filed_def upload_key_def unfinished_cleanup_def)

lemma no_unfinished_files:
  assumes "map filed (submissions s') = map filed (submissions s)"
  shows "no_unfinished_cleanup cid s' = no_unfinished_cleanup cid s"
proof -
  have *: "list_all (\<lambda>b. \<not> P (filed b)) bs = list_all (\<lambda>x. \<not> P x) (map filed bs)" for P bs
    by (simp add: list_all_iff)
  show ?thesis
    unfolding no_unfinished_cleanup_def list_all_iff [symmetric] unfinished_filed
    unfolding * assms by (rule refl)
qed

lemma start_files:
  assumes "start_validation at rid b s = Inr (e, s')" "campus_inv s"
  shows "files_extend s s' \<and> guarded_entry s s'"
  using assms(1)
proof (cases rule: start_cases)
  case (started sub)
  have sub: "row_of sb_id (sb_id sub) (submissions s) = Some sub"
    using started(1) row_of_SomeD [OF started(1)] by simp
  have kept: "sb_id (in_validation sub) = sb_id sub" "filed (in_validation sub) = filed sub"
    by (simp_all add: filed_def upload_key_def in_validation_def)
  have rows: "map filed (submissions (put_submission (in_validation sub) s)) = map filed (submissions s)"
    by (rule filed_put [OF campus_submission_ids [OF assms(2)] _ kept(2)]) (simp only: kept(1) sub)
  have "guarded_entry s s'"
    unfolding guarded_entry_def
  proof (intro allI impI)
    fix cid c'
    assume c': "row_of cl_id cid (claims s') = Some c' \<and> in_pipeline c'"
    show "(\<exists>c. row_of cl_id cid (claims s) = Some c \<and> in_pipeline c) \<or> no_unfinished_cleanup cid s"
    proof (cases "cid = sb_claim_id sub")
      case True
      obtain c where c: "row_of cl_id cid (claims s) = Some c"
        using c' by (auto simp: started(4) row_of_enter_validation split: option.splits)
      have cid: "cl_id c = cid" using row_of_SomeD [OF c] by simp
      show ?thesis
      proof (cases "cl_status c \<in> {CLAIMED, ClaimStatus.REVISION_REQUIRED}")
        case act: True
        then have "no_unfinished_cleanup cid (put_submission (in_validation sub) s)"
          using started(2) c True cid by (auto simp: may_start_def)
        then show ?thesis using no_unfinished_files [OF rows] by simp
      next
        case False
        then have "c' = c" using c' c True by (auto simp: started(4) row_of_enter_validation)
        then show ?thesis using c c' by blast
      qed
    next
      case False
      then show ?thesis using c' by (auto simp: started(4) row_of_enter_validation split: option.splits)
    qed
  qed
  moreover have "files_extend s s'"
    using rows by (auto simp: files_extend_def started(4) intro: exI [of _ "[]"])
  ultimately show ?thesis by blast
qed (simp add: files_same entry_same)

lemma finish_files:
  assumes run: "finish_validation tx notify t0 t1 rid b (report, detected) s = Inr (r, s')" and inv: "campus_inv s"
  shows "files_extend s s' \<and> guarded_entry s s'"
proof (rule finish_InrD [OF run])
  fix sub
  assume sub0: "row_of sb_id b (submissions s) = Some sub"
    and subs: "submissions s' = submissions (put_submission (judged report detected sub) s)"
    and cls: "claims s' = settled_claims report sub s"
  have sub: "row_of sb_id (sb_id (judged report detected sub)) (submissions s) = Some sub"
    using sub0 row_of_SomeD [OF sub0] by simp
  have "filed (judged report detected sub) = filed sub" by (simp add: filed_def upload_key_def judged_def)
  then have "files_extend s s'" by (rule files_put [OF campus_submission_ids [OF inv] sub _ subs])
  moreover have "in_pipeline (given_back k c) \<Longrightarrow> in_pipeline c" for k c
    by (auto simp: given_back_def in_pipeline_def split: if_splits)
  then have "guarded_entry s s'"
    by (auto simp: guarded_entry_def cls row_of_settled split: if_splits)
  ultimately show ?thesis by blast
qed

lemma lock_files:
  assumes "on_validation_passed now b s = Inr (c', s')"
  shows "files_extend s s' \<and> guarded_entry s s'"
proof -
  obtain sub c where c: "row_of cl_id (sb_claim_id sub) (claims s) = Some c"
    and out: "\<not> active_claim c \<and> s' = s \<or> active_claim c \<and> may_lock sub c s \<and> s' = review_state now sub c s"
    using assms(1) unfolding passed_Inr by blast
  show ?thesis
  proof (cases "active_claim c")
    case True
    then have s': "s' = review_state now sub c s" and may: "may_lock sub c s" using out by blast+
    have cid: "cl_id c = sb_claim_id sub" using row_of_SomeD [OF c] by simp
    have "in_pipeline c \<or> no_unfinished_cleanup (sb_claim_id sub) s"
      using may cid by (auto simp: may_lock_def in_pipeline_def)
    then show ?thesis
      by (auto simp: s' cid intro!: files_same entry_put [OF c, of _ "in_review sub c s"])
  qed (use out in \<open>simp add: files_same entry_same\<close>)
qed

lemma decided_files:
  assumes "decidable_pair b sub c s" "claims s' = claims (put_claim d s)" "cl_id d = cl_id c"
    and "submissions s' = submissions (put_submission (reviewed_submission sub st a now note) s)"
    and "\<not> in_pipeline d" "campus_inv s"
  shows "files_extend s s' \<and> guarded_entry s s'"
proof -
  have rows: "row_of sb_id b (submissions s) = Some sub" "row_of cl_id (sb_claim_id sub) (claims s) = Some c"
    using assms(1) by (simp_all add: decidable_pair_def)
  have ids: "sb_id sub = b" "cl_id c = sb_claim_id sub"
    using row_of_SomeD [OF rows(1)] row_of_SomeD [OF rows(2)] by simp_all
  have "filed (reviewed_submission sub st a now note) = filed sub"
    "sb_id (reviewed_submission sub st a now note) = sb_id sub"
    by (simp_all add: filed_def upload_key_def reviewed_submission_def)
  then have "files_extend s s'"
    using rows(1) ids by (intro files_put [OF campus_submission_ids [OF assms(6)] _ _ assms(4)]) simp_all
  moreover have "guarded_entry s s'"
    using assms(5) ids by (intro entry_put [OF rows(2) assms(2)]) (simp_all add: assms(3))
  ultimately show ?thesis by blast
qed

lemma claim_files: "claim_random_assignment limit wired cid now rnd locked u t s = Inr (c, s') \<Longrightarrow> claims_inv s
    \<Longrightarrow> files_extend s s' \<and> guarded_entry s s'"
  by (erule claim_effect)
    (auto intro!: files_same simp: guarded_entry_def in_pipeline_def row_of_append new_claim_def
      split: option.splits if_splits)

lemma campus_step_files: "campus_step s s' \<Longrightarrow> campus_inv s \<Longrightarrow> files_extend s s' \<and> guarded_entry s s'"
proof (induction rule: campus_step.induct)
  case step_claim then show ?case using claim_files [OF step_claim(1)] campus_invD(2) [OF step_claim(2)] by blast
next
  case (step_expire pub inspect now cid s er s')
  show ?case
  proof (cases "s' = s")
    case False
    then obtain c where c: "row_of cl_id cid (claims s) = Some c" and s': "s' = expiry_state pub now c s"
      using step_expire by (auto simp: expire_eq Let_def expiry_outcome_def split: option.splits if_splits)
    have "cl_id (expired now c) = cid" "\<not> in_pipeline (expired now c)"
      using row_of_SomeD [OF c] by (simp_all add: expired_def in_pipeline_def)
    then show ?thesis
      by (intro conjI files_same entry_put [OF c, of _ "expired now c"])
        (simp_all add: s' claims_expiry_state claims_put_claim)
  qed (simp add: files_same entry_same)
next
  case (step_abandon tz lim now u cid s c' s')
  show ?case
  proof (cases "s' = s")
    case False
    then obtain c where c: "row_of cl_id cid (claims s) = Some c" and s': "s' = abandon_state now c s"
      using step_abandon unfolding abandon_Inr by auto
    have "cl_id (abandoned now c) = cid" "\<not> in_pipeline (abandoned now c)"
      using row_of_SomeD [OF c] by (simp_all add: abandoned_def in_pipeline_def)
    then show ?thesis
      by (intro conjI files_same entry_put [OF c, of _ "abandoned now c"])
        (simp_all add: s' claims_abandon_state claims_put_claim abandon_state_def)
  qed (simp add: files_same entry_same)
next
  case (step_intent cfg presign iid now a cid fname ty n s ir s')
  then show ?case by (elim create_cases) (auto intro: files_same entry_same)
next
  case (step_finalize probe iid s disp fr sid now a rq fo s')
  from step_finalize(2) show ?case
  proof (cases rule: finalize_cases)
    case (first i c head task keep b)
    have row: "row_of cl_id (lo_claim_id (fst probe)) (claims s) = Some c"
      and st: "cl_status c \<in> {CLAIMED, ClaimStatus.REVISION_REQUIRED}"
      using first(1) by (auto simp: may_finalize_def)
    have "untouched b" by (simp add: first(3) untouched_def new_submission_def)
    then have "files_extend s s'" by (auto simp: files_extend_def first(5) intro: exI [of _ "[b]"])
    moreover have "guarded_entry s s'"
      using row_of_SomeD [OF row] st
      by (intro entry_put [OF row, of _ "c\<lparr>cl_latest_submission_id := Some sid\<rparr>"])
        (auto simp: first(5) in_pipeline_def)
    ultimately show ?thesis by blast
  qed (auto intro!: files_same entry_same simp: burn_intent_def put_intent_def handed_def)
next
  case step_start then show ?case using start_files by blast
next
  case step_finish then show ?case using finish_files by blast
next
  case step_lock then show ?case using lock_files by blast
next
  case (step_revise env now rid a b remark ctx s c' s')
  show ?case
  proof (rule revision_InrD [OF step_revise(1)])
    fix sub c
    assume pair: "decidable_pair b sub c s" and c': "c' = returned now c"
      and dec: "decided c' (reviewed_submission sub ReviewStatus.REVISION_REQUIRED a now (strip_or_none remark)) s s'"
    show ?thesis
      by (rule decided_files [OF pair, of s' c'])
        (use dec step_revise(2) in \<open>simp_all add: decided_def c' in_pipeline_def\<close>)
  qed
next
  case (step_invalidate env now rid a b reason ctx s c' s')
  show ?case
  proof (rule invalidate_InrD [OF step_invalidate(1)])
    fix sub c t
    assume pair: "decidable_pair b sub c s" and c': "c' = unlocked now c"
      and dec: "decided c' (reviewed_submission sub ReviewStatus.REVISION_REQUIRED a now (Some t)) s s'"
    show ?thesis
      by (rule decided_files [OF pair, of s' c'])
        (use dec step_invalidate(2) in \<open>simp_all add: decided_def c' in_pipeline_def\<close>)
  qed
next
  case (step_approve env str eid m ov df honors now rid a b ctx s ar s')
  from step_approve(1) show ?case
  proof (cases rule: adapter.approve_cases)
    case (paid sub c points g s2)
    have pair: "decidable_pair b sub c s" using paid(1) by (simp add: payable_def)
    have more: "claims s2 = claims (put_claim (approved_claim now c) s)"
      "submissions s2 = submissions (put_submission (reviewed_submission sub ReviewStatus.APPROVED a now None) s)"
      using campus_of_more [of s2 "settle_approval now rid a sub c s"] adapter.frame [OF paid(2)]
      by (simp_all add: points_only_def)
    show ?thesis
      by (rule decided_files [OF pair, of s' "approved_claim now c"])
        (use more paid(4,6) step_approve(2) in \<open>simp_all add: in_pipeline_def\<close>)
  qed (simp add: files_same entry_same)
next
  case step_requeue show ?case by (simp add: files_same entry_same requeue_stale_validating_def)
next
  case step_points show ?case by (simp add: files_same entry_same)
next
  case step_admin show ?case by (simp add: files_same entry_same)
next
  case step_units show ?case by (simp add: files_same entry_same)
qed

section \<open>Workers, the object store and the campus, interleaved\<close>

text \<open>
  Every record a scan ever listed, every lease ever granted and every delete ever sent to the store, whatever its
  answer; a worker may act on any of them at any later time.  A row is marked after the worker's delete returned.
\<close>

record retention =
  rt_db :: campus_db
  rt_listed :: "FileRecord set"
  rt_held :: "(FileRecord \<times> uuid) set"
  rt_sent :: "(FileRecord \<times> uuid) set"

inductive retention_step :: "retention \<Rightarrow> retention \<Rightarrow> bool" where
  campus_moves: "campus_step (rt_db x) d \<Longrightarrow> retention_step x (x\<lparr>rt_db := d\<rparr>)"
| scan_lists: "retention_step x (x\<lparr>rt_listed := rt_listed x \<union> set (collect_due_files lim now (rt_db x))\<rparr>)"
| worker_claims: "r \<in> rt_listed x \<Longrightarrow> claim_for_cleanup lease token r now (rt_db x) = (Some t, d)
    \<Longrightarrow> retention_step x (x\<lparr>rt_db := d, rt_held := insert (r, t) (rt_held x)\<rparr>)"
| worker_deletes: "(r, t) \<in> rt_held x \<Longrightarrow> retention_step x (x\<lparr>rt_sent := insert (r, t) (rt_sent x)\<rparr>)"
| worker_marks: "(r, t) \<in> rt_sent x \<Longrightarrow> mark_deleted r t now (rt_db x) = Inr (m, d)
    \<Longrightarrow> retention_step x (x\<lparr>rt_db := d\<rparr>)"

definition initial_retention :: retention where
  "initial_retention = \<lparr>rt_db = initial_campus, rt_listed = {}, rt_held = {}, rt_sent = {}\<rparr>"

definition reachable_retention :: "retention \<Rightarrow> bool" where
  "reachable_retention x \<longleftrightarrow> retention_step\<^sup>*\<^sup>* initial_retention x"

definition names :: "FileRecord \<Rightarrow> submission \<Rightarrow> bool" where
  "names r b \<longleftrightarrow> sb_id b = fr_submission_id r \<and> sb_object_key b = fr_object_key r"

definition pipeline_clean :: "'a campus_db_scheme \<Rightarrow> bool" where
  "pipeline_clean s \<longleftrightarrow> (\<forall>cid c. row_of cl_id cid (claims s) = Some c \<and> in_pipeline c \<longrightarrow> no_unfinished_cleanup cid s)"

definition retention_inv :: "retention \<Rightarrow> bool" where
  "retention_inv x \<longleftrightarrow> campus_inv (rt_db x) \<and> pipeline_clean (rt_db x)
     \<and> (\<forall>r\<in>rt_listed x. \<exists>b\<in>set (submissions (rt_db x)). names r b)
     \<and> (\<forall>(r, t)\<in>rt_held x. \<exists>b\<in>set (submissions (rt_db x)). names r b \<and> \<not> untouched b)
     \<and> rt_sent x \<subseteq> rt_held x
     \<and> (\<forall>b\<in>set (submissions (rt_db x)). sb_deleted_at b \<noteq> None \<longrightarrow> (\<exists>(r, t)\<in>rt_sent x. names r b))"

section \<open>Every step keeps the retention invariant\<close>

lemma row_files:
  assumes "filed b = filed b'"
  shows "sb_deleted_at b = sb_deleted_at b'" "untouched b = untouched b'" "names r b = names r b'"
    "unfinished_cleanup cid b = unfinished_cleanup cid b'"
  using assms by (auto simp: filed_def upload_key_def untouched_def names_def unfinished_cleanup_def)

lemma kept_row:
  assumes "map filed (submissions s') = map filed (submissions s @ new)" "b \<in> set (submissions s)"
  shows "\<exists>b'\<in>set (submissions s'). filed b' = filed b"
proof -
  have "filed b \<in> filed ` set (submissions s')"
    unfolding set_map [symmetric] assms(1) using assms(2) by simp
  then show ?thesis by (auto simp: image_iff)
qed

lemma old_row:
  assumes "map filed (submissions s') = map filed (submissions s @ new)" "list_all untouched new"
    and "b \<in> set (submissions s')" "\<not> untouched b"
  shows "\<exists>b'\<in>set (submissions s). filed b' = filed b"
proof -
  have "filed b \<in> set (map filed (submissions s'))" using assms(3) by simp
  then have "filed b \<in> filed ` set (submissions s @ new)" unfolding assms(1) set_map .
  then obtain b' where b': "b' \<in> set (submissions s @ new)" "filed b' = filed b" by (metis imageE)
  then have "b' \<notin> set new" using assms(2,4) row_files(2) [OF b'(2)] by (auto simp: list_all_iff)
  then show ?thesis using b' by auto
qed

lemma clean_extends:
  assumes "files_extend s s'" "no_unfinished_cleanup cid s"
  shows "no_unfinished_cleanup cid s'"
  unfolding no_unfinished_cleanup_def
proof (intro ballI notI)
  fix b assume b: "b \<in> set (submissions s')" "unfinished_cleanup cid b"
  obtain new where new: "map filed (submissions s') = map filed (submissions s @ new)" "list_all untouched new"
    using assms(1) unfolding files_extend_def by blast
  have "\<not> untouched b" using b(2) by (auto simp: unfinished_cleanup_def untouched_def)
  then obtain b' where b': "b' \<in> set (submissions s)" "filed b' = filed b" using old_row [OF new b(1)] by blast
  then show False using assms(2) b(2) row_files(4) [OF b'(2)] unfolding no_unfinished_cleanup_def by blast
qed

lemma campus_move_keeps:
  assumes step: "campus_step (rt_db x) d" and inv: "retention_inv x"
  shows "retention_inv (x\<lparr>rt_db := d\<rparr>)"
proof -
  have campus: "campus_inv (rt_db x)" using inv by (simp add: retention_inv_def)
  obtain new where new: "map filed (submissions d) = map filed (submissions (rt_db x) @ new)" "list_all untouched new"
    using campus_step_files [OF step campus] unfolding files_extend_def by blast
  have "pipeline_clean d"
    using campus_step_files [OF step campus] clean_extends inv
    unfolding pipeline_clean_def guarded_entry_def retention_inv_def by blast
  moreover have kept: "\<exists>b\<in>set (submissions d). names r b \<and> (untouched b \<longrightarrow> untouched b0)"
    if b0: "b0 \<in> set (submissions (rt_db x))" "names r b0" for r b0
  proof -
    obtain b where b: "b \<in> set (submissions d)" "filed b = filed b0" using kept_row [OF new(1) b0(1)] by blast
    then show ?thesis using row_files(2,3) [OF b(2)] b0(2) by blast
  qed
  have "\<exists>b\<in>set (submissions d). names r b" if "r \<in> rt_listed x" for r
    using inv that kept unfolding retention_inv_def by blast
  moreover have "\<exists>b\<in>set (submissions d). names r b \<and> \<not> untouched b" if "(r, t) \<in> rt_held x" for r t
    using inv that kept unfolding retention_inv_def by blast
  moreover have "\<exists>(r, t)\<in>rt_sent x. names r b" if b: "b \<in> set (submissions d)" "sb_deleted_at b \<noteq> None" for b
  proof -
    have "\<not> untouched b" using b(2) by (simp add: untouched_def)
    then obtain b' where b': "b' \<in> set (submissions (rt_db x))" "filed b' = filed b" using old_row [OF new b(1)] by blast
    then have "\<exists>(r, t)\<in>rt_sent x. names r b'" using inv b(2) row_files(1) [OF b'(2)] by (simp add: retention_inv_def)
    then show ?thesis using row_files(3) [OF b'(2)] by simp
  qed
  moreover have "rt_sent x \<subseteq> rt_held x" using inv by (simp add: retention_inv_def)
  ultimately show ?thesis using campus_step_keeps [OF step campus] by (auto simp: retention_inv_def)
qed

lemma row_write_keeps:
  assumes inv: "retention_inv x" and row: "row_of sb_id (sb_id b) (submissions (rt_db x)) = Some b"
    and key: "upload_key b' = upload_key b" and touched: "\<not> untouched b'"
    and ended: "unfinished_cleanup (sb_claim_id b) b' \<Longrightarrow>
      \<exists>c. row_of cl_id (sb_claim_id b) (claims (rt_db x)) = Some c \<and> \<not> in_pipeline c"
    and sent: "sb_deleted_at b' \<noteq> None \<Longrightarrow> \<exists>(r, t)\<in>rt_sent x. names r b"
  shows "retention_inv (x\<lparr>rt_db := put_submission b' (rt_db x)\<rparr>)"
proof -
  let ?s = "rt_db x" and ?d = "put_submission b' (rt_db x)"
  have campus: "campus_inv ?s" and ids: "distinct (map sb_id (submissions ?s))"
    using inv campus_submission_ids by (auto simp: retention_inv_def)
  have cols: "sb_id b' = sb_id b" "sb_claim_id b' = sb_claim_id b" "sb_object_key b' = sb_object_key b"
    using key by (simp_all add: upload_key_def)
  have names: "names r b' = names r b" for r by (simp add: names_def cols)
  have rows: "e \<in> set (submissions ?d) \<longleftrightarrow> e = b' \<or> e \<in> set (submissions ?s) \<and> e \<noteq> b" for e
  proof -
    have only: "sb_id e = sb_id b \<longleftrightarrow> e = b" if "e \<in> set (submissions ?s)" for e
    proof
      assume "sb_id e = sb_id b"
      then have "Some e = Some b" using row_of_unique [OF ids that] row by (simp only:)
      then show "e = b" by (simp only: option.inject)
    qed (simp only:)
    have "set (submissions ?d) = (\<lambda>e. if e = b then b' else e) ` set (submissions ?s)"
      unfolding submissions_put_submission update_row_def set_map cols(1) by (intro image_cong refl if_cong only)
    moreover have "b \<in> set (submissions ?s)" using row_of_SomeD [OF row] by blast
    ultimately show ?thesis by auto
  qed
  have "upload_keys ?d = upload_keys ?s" by (rule upload_keys_put [OF ids _ key]) (simp only: cols row)
  then have "campus_inv ?d"
    using campus_invD(1-3) [OF campus] uploads_inv_upload_keys [of ?d ?s]
    by (intro campus_inv_cong [OF campus]) (simp_all add: claims_inv_cong [of ?d ?s] points_inv_cong [of ?d ?s])
  moreover have "\<not> unfinished_cleanup cid e"
    if c: "row_of cl_id cid (claims ?d) = Some c" "in_pipeline c" and e: "e \<in> set (submissions ?d)" for cid c e
  proof
    assume un: "unfinished_cleanup cid e"
    have c': "row_of cl_id cid (claims ?s) = Some c" using c(1) by simp
    then have "no_unfinished_cleanup cid ?s" using inv c(2) unfolding retention_inv_def pipeline_clean_def by blast
    then have "e = b'" using e un rows unfolding no_unfinished_cleanup_def by blast
    moreover from this have "cid = sb_claim_id b" using un cols(2) by (simp add: unfinished_cleanup_def)
    ultimately show False using ended un c' c(2) by auto
  qed
  then have "pipeline_clean ?d" unfolding pipeline_clean_def no_unfinished_cleanup_def by blast
  moreover have "\<exists>e\<in>set (submissions ?d). names r e" if "r \<in> rt_listed x" for r
    using inv that rows names unfolding retention_inv_def by metis
  moreover have "\<exists>e\<in>set (submissions ?d). names r e \<and> \<not> untouched e" if "(r, t) \<in> rt_held x" for r t
  proof -
    obtain e where "e \<in> set (submissions ?s)" "names r e" "\<not> untouched e"
      using inv \<open>(r, t) \<in> rt_held x\<close> unfolding retention_inv_def by blast
    then show ?thesis using rows names touched by (cases "e = b") auto
  qed
  moreover have "\<exists>(r, t)\<in>rt_sent x. names r e" if "e \<in> set (submissions ?d)" "sb_deleted_at e \<noteq> None" for e
    using that sent names inv rows unfolding retention_inv_def by (cases "e = b'") auto
  moreover have "rt_sent x \<subseteq> rt_held x" using inv by (simp add: retention_inv_def)
  ultimately show ?thesis by (auto simp: retention_inv_def)
qed

definition leased :: "int \<Rightarrow> uuid \<Rightarrow> instant \<Rightarrow> submission \<Rightarrow> submission" where
  "leased lease token now b = b\<lparr>sb_cleanup_claimed_at := Some now,
     sb_cleanup_lease_expires_at := Some (now + lease), sb_cleanup_claim_token := Some token\<rparr>"

lemma claim_cleanup_Some:
  assumes "claim_for_cleanup lease token r now s = (Some t, d)"
  obtains b c where "row_of sb_id (fr_submission_id r) (submissions s) = Some b" "t = token"
    "row_of cl_id (sb_claim_id b) (claims s) = Some c" "\<not> in_pipeline c" "sb_deleted_at b = None"
    "past (sb_retention_until b) now" "\<not> lease_live b now" "\<not> sb_retention_permanent b" "\<not> sb_legal_hold b"
    "d = put_submission (leased lease token now b) s"
  using assms
  by (auto simp: claim_for_cleanup_def leased_def in_pipeline_def UNDER_REVIEW_CLAIM_STATUSES_def
      split: option.splits if_splits)

lemma mark_Inr:
  assumes "mark_deleted r token now s = Inr (m, d)"
  obtains (kept) "d = s" "m \<noteq> MARKED"
  | (marked) b where "row_of sb_id (fr_submission_id r) (submissions s) = Some b" "m = MARKED"
      "sb_cleanup_claim_token b = Some token" "sb_deleted_at b = None"
      "d = put_submission (b\<lparr>sb_deleted_at := Some now\<rparr>) s"
proof (cases "row_of sb_id (fr_submission_id r) (submissions s)")
  case (Some b)
  show thesis
  proof (cases "sb_cleanup_claim_token b = Some token \<and> sb_deleted_at b = None")
    case True with assms Some marked show thesis by (simp add: mark_deleted_def)
  next
    case False with assms Some kept show thesis by (simp add: mark_deleted_def split: if_splits)
  qed
qed (use assms in \<open>simp add: mark_deleted_def\<close>)

lemma named_row:
  assumes "retention_inv x" "e \<in> set (submissions (rt_db x))" "names r e"
  shows "row_of sb_id (fr_submission_id r) (submissions (rt_db x)) = Some e"
proof -
  have "distinct (map sb_id (submissions (rt_db x)))"
    using assms(1) campus_submission_ids by (auto simp: retention_inv_def)
  from row_of_unique [OF this assms(2)] show ?thesis using assms(3) by (simp add: names_def)
qed

lemma listed_row:
  assumes "retention_inv x" "r \<in> rt_listed x" "row_of sb_id (fr_submission_id r) (submissions (rt_db x)) = Some b"
  shows "names r b"
proof -
  obtain e where "e \<in> set (submissions (rt_db x))" "names r e"
    using assms(1,2) unfolding retention_inv_def by blast
  with named_row [OF assms(1) this] show ?thesis using assms(3) by simp
qed

lemma held_row:
  assumes "retention_inv x" "(r, t) \<in> rt_held x" "row_of sb_id (fr_submission_id r) (submissions (rt_db x)) = Some b"
  shows "names r b" "\<not> untouched b"
proof -
  obtain e where "e \<in> set (submissions (rt_db x))" "names r e" "\<not> untouched e"
    using assms(1,2) unfolding retention_inv_def by blast
  with named_row [OF assms(1) this(1,2)] show "names r b" "\<not> untouched b" using assms(3) by simp_all
qed

lemma retention_step_keeps: "retention_step x y \<Longrightarrow> retention_inv x \<Longrightarrow> retention_inv y"
proof (induction rule: retention_step.induct)
  case (campus_moves x d) then show ?case by (rule campus_move_keeps)
next
  case (scan_lists x lim now)
  have "\<exists>b\<in>set (submissions (rt_db x)). names r b" if "r \<in> set (collect_due_files lim now (rt_db x))" for r
    using that by (fastforce simp: collect_due_files_def names_def file_record_def dest!: in_set_takeD)
  then show ?case using scan_lists by (auto simp: retention_inv_def)
next
  case (worker_claims r x lease token now t d)
  from worker_claims(2) obtain b c where b: "row_of sb_id (fr_submission_id r) (submissions (rt_db x)) = Some b"
      "row_of cl_id (sb_claim_id b) (claims (rt_db x)) = Some c" "\<not> in_pipeline c" "sb_deleted_at b = None"
      "d = put_submission (leased lease token now b) (rt_db x)"
    by (rule claim_cleanup_Some)
  have idb: "sb_id b = fr_submission_id r" "b \<in> set (submissions (rt_db x))" using row_of_SomeD [OF b(1)] by simp_all
  have keep: "retention_inv (x\<lparr>rt_db := d\<rparr>)"
    unfolding b(5) by (rule row_write_keeps [OF worker_claims(3), of b])
      (use b idb in \<open>simp_all add: leased_def upload_key_def untouched_def\<close>)
  have "names r (leased lease token now b)" "\<not> untouched (leased lease token now b)"
    using listed_row [OF worker_claims(3,1) b(1)] by (simp_all add: names_def leased_def untouched_def)
  moreover have "leased lease token now b \<in> set (submissions d)"
    using idb by (auto simp: b(5) submissions_put_submission set_update_row leased_def)
  ultimately show ?case using keep by (auto simp: retention_inv_def)
next
  case (worker_deletes r t x) then show ?case unfolding retention_inv_def by auto
next
  case (worker_marks r t x now m d)
  have held: "(r, t) \<in> rt_held x" using worker_marks(1,3) by (auto simp: retention_inv_def)
  from worker_marks(2) show ?case
  proof (cases rule: mark_Inr)
    case kept then show ?thesis using worker_marks(3) by simp
  next
    case (marked b)
    have "sb_id b = fr_submission_id r" using row_of_SomeD [OF marked(1)] by simp
    then show ?thesis
      unfolding marked(5)
      by (intro row_write_keeps [OF worker_marks(3), of b])
        (use marked held_row [OF worker_marks(3) held marked(1)] worker_marks(1) in
          \<open>auto simp: upload_key_def untouched_def unfinished_cleanup_def\<close>)
  qed
qed

end
