(* ===== verification/Retention_Facts.thy ===== *)
theory Retention_Facts
  imports Retention
begin

text \<open>
  The properties of file retention: what a deletion may touch while reviews go on, what a scan reports,
  what a failed delete leaves, and that an orphaned upload is never also a submission.
\<close>

lemma initial_retention_ok: "retention_inv initial_retention"
  by (simp add: retention_inv_def initial_retention_def initial_campus_ok pipeline_clean_def)
    (simp add: initial_campus_def points_db.defs)

lemma reachable_retention_inv: "reachable_retention x \<Longrightarrow> retention_inv x"
  unfolding reachable_retention_def
  by (induction rule: rtranclp_induct) (auto simp: initial_retention_ok dest: retention_step_keeps)

lemma submissions_have_distinct_objects:
  assumes "uploads_inv s" "b \<in> set (submissions s)" "e \<in> set (submissions s)" "sb_object_key b = sb_object_key e"
  shows "b = e"
proof -
  obtain i j where ij: "i \<in> set (upload_intents s)" "backs_submission i b" "j \<in> set (upload_intents s)" "backs_submission j e"
    using uploads_inv_backed [OF assms(1)] assms(2,3) by metis
  then have "i = j" using uploads_inv_same_object [OF assms(1) ij(1,3)] assms(4) by (auto simp: backs_submission_def)
  then have "sb_id b = sb_id e" using ij(2,4) by (auto simp: backs_submission_def)
  moreover have "distinct (map sb_id (submissions s))" using assms(1) unfolding uploads_inv_def by blast
  ultimately show ?thesis using assms(2,3) by (auto simp: distinct_map dest: inj_onD)
qed

section \<open>Review and deletion\<close>

text \<open>C3: In every state that cleanup workers, stalled at any point, and the operations of the campus can
  reach together: while a claim is being validated or reviewed, no worker holds the deletion right over the
  object of one of its undeleted submissions, and no delete of it was ever sent to the store; and a submission is
  only marked deleted after a delete of its object was sent under a lease granted for it.\<close>

theorem reviewed_files_are_never_deleted:
  assumes "reachable_retention x" "b \<in> set (submissions (rt_db x))"
    and "row_of cl_id (sb_claim_id b) (claims (rt_db x)) = Some c"
  shows "(cl_status c \<in> {ClaimStatus.VALIDATING, ClaimStatus.UNDER_REVIEW} \<and> sb_deleted_at b = None
      \<longrightarrow> (\<forall>(r, t)\<in>rt_held x \<union> rt_sent x. fr_object_key r \<noteq> sb_object_key b))
    \<and> (sb_deleted_at b \<noteq> None \<longrightarrow> (\<exists>(r, t)\<in>rt_sent x \<inter> rt_held x. names r b))"
proof -
  have inv: "retention_inv x" by (rule reachable_retention_inv [OF assms(1)])
  have up: "uploads_inv (rt_db x)" using inv campus_invD(3) by (auto simp: retention_inv_def)
  have "fr_object_key r \<noteq> sb_object_key b" if "(r, t) \<in> rt_held x" "sb_deleted_at b = None"
    and st: "cl_status c \<in> {ClaimStatus.VALIDATING, ClaimStatus.UNDER_REVIEW}" for r t
  proof
    assume key: "fr_object_key r = sb_object_key b"
    have "no_unfinished_cleanup (sb_claim_id b) (rt_db x)"
      using inv assms(3) st unfolding retention_inv_def pipeline_clean_def in_pipeline_def by blast
    then have "\<not> unfinished_cleanup (sb_claim_id b) b" using assms(2) unfolding no_unfinished_cleanup_def by blast
    then have clean: "untouched b" using that(2) by (simp add: unfinished_cleanup_def untouched_def)
    obtain e where e: "e \<in> set (submissions (rt_db x))" "names r e" "\<not> untouched e"
      using inv \<open>(r, t) \<in> rt_held x\<close> unfolding retention_inv_def by blast
    then have "e = b" using submissions_have_distinct_objects [OF up e(1) assms(2)] key by (simp add: names_def)
    then show False using e(3) clean by simp
  qed
  moreover have "\<exists>(r, t)\<in>rt_sent x \<inter> rt_held x. names r b" if "sb_deleted_at b \<noteq> None"
    using inv assms(2) that unfolding retention_inv_def by blast
  moreover have "rt_sent x \<subseteq> rt_held x" using inv by (simp add: retention_inv_def)
  ultimately show ?thesis by blast
qed

section \<open>One delete\<close>

text \<open>The outcome of one record, by the provider's answer.\<close>

fun answered :: "delete_answer \<Rightarrow> cleanup_error + FileCleanupOutcome" where
  "answered Removed = Inr DELETED"
| "answered NotThere = Inr RECONCILED_MISSING"
| "answered (Refused f) = Inr (failure_outcome f)"
| "answered Crashed = Inl StorageCrash"

definition eligible :: "instant \<Rightarrow> 'a campus_db_scheme \<Rightarrow> submission \<Rightarrow> bool" where
  "eligible now s b \<longleftrightarrow> sb_deleted_at b = None \<and> \<not> sb_retention_permanent b \<and> \<not> sb_legal_hold b
     \<and> past (sb_retention_until b) now \<and> \<not> lease_live b now
     \<and> (\<exists>c. row_of cl_id (sb_claim_id b) (claims s) = Some c \<and> \<not> in_pipeline c)"

lemma claim_cleanup_eq:
  "claim_for_cleanup lease token r now s = (case row_of sb_id (fr_submission_id r) (submissions s) of
     None \<Rightarrow> (None, s)
   | Some b \<Rightarrow> if eligible now s b then (Some token, put_submission (leased lease token now b) s) else (None, s))"
proof (cases "row_of sb_id (fr_submission_id r) (submissions s)")
  case (Some b)
  have cl: "(case row_of cl_id (sb_claim_id b) (claims s) of None \<Rightarrow> True
      | Some c \<Rightarrow> cl_status c \<in> set UNDER_REVIEW_CLAIM_STATUSES)
      = (\<not> (\<exists>c. row_of cl_id (sb_claim_id b) (claims s) = Some c \<and> \<not> in_pipeline c))"
    by (cases "row_of cl_id (sb_claim_id b) (claims s)") (simp_all add: in_pipeline_def UNDER_REVIEW_CLAIM_STATUSES_def)
  have "(sb_deleted_at b \<noteq> None \<or> sb_retention_permanent b \<or> sb_legal_hold b
      \<or> \<not> past (sb_retention_until b) now \<or> lease_live b now
      \<or> (case row_of cl_id (sb_claim_id b) (claims s) of None \<Rightarrow> True
         | Some c \<Rightarrow> cl_status c \<in> set UNDER_REVIEW_CLAIM_STATUSES)) = (\<not> eligible now s b)"
    unfolding eligible_def cl by (simp only: de_Morgan_conj de_Morgan_disj not_not)
  then show ?thesis
    unfolding claim_for_cleanup_def Some option.case leased_def
    by (cases "eligible now s b") (simp_all only: if_True if_False simp_thms)
qed (simp only: claim_for_cleanup_def option.case)

definition deleted_row :: "int \<Rightarrow> uuid \<Rightarrow> instant \<Rightarrow> submission \<Rightarrow> submission" where
  "deleted_row lease token now b = (leased lease token now b)\<lparr>sb_deleted_at := Some now\<rparr>"

lemma update_row_twice: "key x = k \<Longrightarrow> update_row key k (\<lambda>_. y) (update_row key k (\<lambda>_. x) t) = update_row key k (\<lambda>_. y) t"
  by (induction t) (auto simp: update_row_def)

lemma put_submission_twice:
  "sb_id b2 = sb_id b1 \<Longrightarrow> put_submission b2 (put_submission b1 s) = put_submission b2 s"
  unfolding put_submission_def by (simp add: update_row_twice)

lemma cleanup_file_eq:
  assumes "guard r now = None" "row_of sb_id (fr_submission_id r) (submissions s) = Some b" "eligible now s b"
  shows "cleanup_expired_file lease token delete now r s = (answered (delete (fr_object_key r)),
     if delete (fr_object_key r) \<in> {Removed, NotThere} then put_submission (deleted_row lease token now b) s
     else put_submission (leased lease token now b) s)"
proof -
  let ?l = "leased lease token now b"
  have id: "sb_id b = fr_submission_id r" using row_of_SomeD [OF assms(2)] by simp
  have cols: "sb_id ?l = sb_id b" "sb_cleanup_claim_token ?l = Some token" "sb_deleted_at ?l = None"
    using assms(3) by (simp_all add: leased_def eligible_def)
  have "row_of sb_id (fr_submission_id r) (submissions (put_submission ?l s)) = Some ?l"
    using assms(2) by (simp add: row_of_put_submission cols(1) id)
  then have "mark_deleted r token now (put_submission ?l s) = Inr (MARKED, put_submission (deleted_row lease token now b) s)"
    by (simp add: mark_deleted_def cols deleted_row_def put_submission_twice)
  then show ?thesis
    using assms by (simp add: cleanup_expired_file_def claim_cleanup_eq settle_delete_def split: delete_answer.split)
qed

text \<open>What a scan leaves of a row it processed.\<close>

definition after_delete :: "int \<Rightarrow> (uuid \<Rightarrow> uuid) \<Rightarrow> (string \<Rightarrow> delete_answer) \<Rightarrow> instant \<Rightarrow> submission \<Rightarrow> submission" where
  "after_delete lease mint delete now b = (if delete (sb_object_key b) \<in> {Removed, NotThere}
     then deleted_row lease (mint (sb_id b)) now b else leased lease (mint (sb_id b)) now b)"

definition answers :: "(string \<Rightarrow> delete_answer) \<Rightarrow> delete_answer \<Rightarrow> FileRecord list \<Rightarrow> nat" where
  "answers delete a rs = length (filter (\<lambda>r. delete (fr_object_key r) = a) rs)"

definition counted :: "(string \<Rightarrow> delete_answer) \<Rightarrow> FileRecord list \<Rightarrow> CleanupSummary \<Rightarrow> CleanupSummary" where
  "counted delete rs c = \<lparr>cs_scanned = cs_scanned c + length rs,
     cs_deleted = cs_deleted c + answers delete Removed rs, cs_reconciled = cs_reconciled c + answers delete NotThere rs,
     cs_already_deleted = cs_already_deleted c, cs_skipped = cs_skipped c,
     cs_failed = (\<lambda>out. cs_failed c out + length (filter (\<lambda>r. \<exists>f. delete (fr_object_key r) = Refused f \<and> failure_outcome f = out) rs))\<rparr>"

definition listed_now :: "instant \<Rightarrow> 'a campus_db_scheme \<Rightarrow> FileRecord list \<Rightarrow> bool" where
  "listed_now now s rs \<longleftrightarrow> distinct (map fr_submission_id rs)
     \<and> (\<forall>r\<in>set rs. \<exists>b. row_of sb_id (fr_submission_id r) (submissions s) = Some b \<and> r = file_record b \<and> eligible now s b)"

lemma tally_failure: "tally (failure_outcome f) c = c\<lparr>cs_scanned := cs_scanned c + 1,
    cs_failed := (cs_failed c)(failure_outcome f := cs_failed c (failure_outcome f) + 1)\<rparr>"
  by (cases f) (simp_all add: tally_def)

lemma tally_counted:
  assumes "answered (delete (fr_object_key r)) = Inr out"
  shows "counted delete rs (tally out c) = counted delete (r # rs) c"
proof (cases "delete (fr_object_key r)")
  case (Refused f)
  then have out: "out = failure_outcome f" using assms by simp
  show ?thesis unfolding out tally_failure by (simp add: counted_def answers_def Refused fun_eq_iff)
qed (use assms in \<open>simp_all add: counted_def answers_def tally_def\<close>)

lemma after_delete_cols [simp]:
  "sb_id (after_delete lease mint delete now b) = sb_id b"
  "sb_object_key (after_delete lease mint delete now b) = sb_object_key b"
  by (simp_all add: after_delete_def deleted_row_def leased_def)

lemma row_of_put_other:
  "sb_id b \<noteq> k \<Longrightarrow> row_of sb_id k (submissions (put_submission b s)) = row_of sb_id k (submissions s)"
  by (simp add: row_of_put_submission)

lemma scan_processes:
  assumes "distinct (map sb_id (submissions s))" "listed_now now s rs"
    and "cleanup_records lease mint delete now rs c s = (Inr c', s')"
  shows "c' = counted delete rs c \<and> submissions s' = map (\<lambda>b. if sb_id b \<in> fr_submission_id ` set rs
      then after_delete lease mint delete now b else b) (submissions s) \<and> claims s' = claims s"
  using assms
proof (induction rs arbitrary: c s)
  case Nil then show ?case by (simp add: counted_def answers_def cong: map_cong)
next
  case (Cons r rs)
  let ?after = "after_delete lease mint delete now"
  obtain b where row: "row_of sb_id (fr_submission_id r) (submissions s) = Some b"
    and r: "r = file_record b" and el: "eligible now s b"
    using Cons.prems(2) by (auto simp: listed_now_def)
  have id: "sb_id b = fr_submission_id r" using row_of_SomeD [OF row] by simp
  have g: "guard r now = None" using el by (simp add: r guard_def file_record_def eligible_def)
  have key: "fr_object_key r = sb_object_key b" by (simp add: r file_record_def)
  define s1 where "s1 = put_submission (?after b) s"
  have run: "cleanup_expired_file lease (mint (fr_submission_id r)) delete now r s
      = (answered (delete (fr_object_key r)), s1)"
    using cleanup_file_eq [OF g row el, of lease "mint (fr_submission_id r)" delete]
    by (simp add: s1_def after_delete_def id key)
  obtain out where out: "answered (delete (fr_object_key r)) = Inr out"
    and rest: "cleanup_records lease mint delete now rs (tally out c) s1 = (Inr c', s')"
    using Cons.prems(3) run by (auto split: sum.splits)
  have subs: "submissions s1 = map (\<lambda>e. if sb_id e = sb_id b then ?after e else e) (submissions s)"
  proof -
    have "(if sb_id e = sb_id b then ?after b else e) = (if sb_id e = sb_id b then ?after e else e)"
      if "e \<in> set (submissions s)" for e
    proof (cases "sb_id e = sb_id b")
      case True
      then have "Some e = Some b" using row_of_unique [OF Cons.prems(1) that] row unfolding id by (simp only:)
      then show ?thesis by (simp only: option.inject)
    qed (simp only: if_False)
    then show ?thesis unfolding s1_def submissions_put_submission update_row_def after_delete_cols
      by (intro map_cong [OF refl])
  qed
  have ids: "distinct (map sb_id (submissions s1))"
    using Cons.prems(1) by (simp add: subs comp_def if_distrib [of sb_id] cong: if_cong)
  have cls: "claims s1 = claims s" by (simp add: s1_def)
  have fresh: "sb_id b \<notin> fr_submission_id ` set rs" using Cons.prems(2) by (simp add: listed_now_def id)
  have "row_of sb_id (fr_submission_id q) (submissions s1) = row_of sb_id (fr_submission_id q) (submissions s)"
    if "q \<in> set rs" for q
  proof -
    have "sb_id b \<noteq> fr_submission_id q" using fresh imageI [OF that] by (metis (no_types))
    then show ?thesis unfolding s1_def by (intro row_of_put_other) simp
  qed
  then have "listed_now now s1 rs" using Cons.prems(2) by (auto simp: listed_now_def eligible_def cls)
  from Cons.IH [OF ids this rest] have ih: "c' = counted delete rs (tally out c)"
    "submissions s' = map (\<lambda>e. if sb_id e \<in> fr_submission_id ` set rs then ?after e else e) (submissions s1)"
    "claims s' = claims s1" by simp_all
  have "submissions s' = map (\<lambda>e. if sb_id e \<in> fr_submission_id ` set (r # rs) then ?after e else e) (submissions s)"
    unfolding ih(2) subs map_map
  proof (intro map_cong [OF refl])
    fix e
    show "((\<lambda>e. if sb_id e \<in> fr_submission_id ` set rs then ?after e else e) \<circ>
        (\<lambda>e. if sb_id e = sb_id b then ?after e else e)) e = (if sb_id e \<in> fr_submission_id ` set (r # rs) then ?after e else e)"
      using fresh by (cases "sb_id e = sb_id b") (simp_all add: id)
  qed
  then show ?case using ih(1,3) tally_counted [of delete r out rs c, OF out] cls by simp
qed

lemma lease_over: "sb_deleted_at b = None \<Longrightarrow>
    \<not> lease_live b now \<longleftrightarrow> sb_cleanup_claimed_at b = None \<or> past (sb_cleanup_lease_expires_at b) now"
  by (auto simp: lease_live_def past_def split: option.splits)

lemma due_iff_eligible: "due_file now s b = eligible now s b"
proof (cases "sb_deleted_at b = None")
  case True
  show ?thesis unfolding due_file_def eligible_def lease_over [OF True]
    by (auto simp: in_pipeline_def UNDER_REVIEW_CLAIM_STATUSES_def split: option.splits)
next
  case False
  then show ?thesis unfolding due_file_def eligible_def by blast
qed

lemma collect_listed:
  assumes "distinct (map sb_id (submissions s))"
  shows "listed_now now s (collect_due_files lim now s)"
proof -
  let ?due = "sort_key retention_key (sort_key sb_id (filter (due_file now s) (submissions s)))"
  have "distinct (map sb_id (filter (due_file now s) (submissions s)))"
    using assms by (rule distinct_map_filter)
  then have "distinct (map sb_id ?due)"
    by (simp add: distinct_map)
  then have "distinct (take lim (map sb_id ?due))" by (rule distinct_take)
  then have "distinct (map fr_submission_id (collect_due_files lim now s))"
    by (simp add: collect_due_files_def take_map comp_def file_record_def)
  moreover have "\<exists>b. row_of sb_id (fr_submission_id r) (submissions s) = Some b \<and> r = file_record b \<and> eligible now s b"
    if "r \<in> set (collect_due_files lim now s)" for r
  proof -
    obtain b where b: "b \<in> set (submissions s)" "due_file now s b" "r = file_record b"
      using \<open>r \<in> set (collect_due_files lim now s)\<close> by (fastforce simp: collect_due_files_def dest!: in_set_takeD)
    then show ?thesis using row_of_unique [OF assms b(1)] by (auto simp: file_record_def due_iff_eligible)
  qed
  ultimately show ?thesis by (simp add: listed_now_def)
qed

section \<open>A scan\<close>

text \<open>A scan of a consistent campus with no concurrent writer handles exactly the files it lists, each of them once,
  and its report is exact: the counters are the numbers of listed objects by what the store answered, none is
  skipped or found deleted already; the rows of the removed and the missing objects are marked deleted, the
  rows of the refused ones keep the scan's lease, and every other row is untouched.\<close>

theorem scan_report_is_exact:
  assumes "uploads_inv s" "cleanup_expired_files lease mint delete lim now s = (Inr c, s')"
  shows "c = counted delete (collect_due_files lim now s) empty_summary
    \<and> submissions s' = map (\<lambda>b. if sb_id b \<in> fr_submission_id ` set (collect_due_files lim now s)
        then after_delete lease mint delete now b else b) (submissions s) \<and> claims s' = claims s"
proof -
  have ids: "distinct (map sb_id (submissions s))" using assms(1) unfolding uploads_inv_def by blast
  show ?thesis
    using scan_processes [OF ids collect_listed [OF ids]] assms(2) unfolding cleanup_expired_files_def by blast
qed

text \<open>A worker that claims a file and whose delete does not succeed, because the store refuses, fails in an
  unforeseen way or the worker dies, loses nothing: the row is kept undeleted, no scan lists it while the lease
  lasts, and from the end of the lease on every scan considers it again as long as its claim stays out of review.\<close>

theorem failed_delete_is_retried:
  assumes "claim_for_cleanup lease token r now s = (Some t, s1)" "now \<le> later"
    and "answer = Crashed \<or> (\<exists>f. answer = Refused f)"
    and "settle_delete answer r t now s1 = (res, s2)"
  shows "\<exists>b. row_of sb_id (fr_submission_id r) (submissions s2) = Some b \<and> sb_deleted_at b = None
    \<and> (due_file later s2 b \<longleftrightarrow> now + lease \<le> later)"
proof -
  obtain b c where b: "row_of sb_id (fr_submission_id r) (submissions s) = Some b" "t = token"
    "row_of cl_id (sb_claim_id b) (claims s) = Some c" "\<not> in_pipeline c" "sb_deleted_at b = None"
    "past (sb_retention_until b) now" "\<not> lease_live b now" "\<not> sb_retention_permanent b" "\<not> sb_legal_hold b"
    "s1 = put_submission (leased lease token now b) s"
    using assms(1) by (rule claim_cleanup_Some)
  have s2: "s2 = s1" using assms(3,4) by (auto simp: settle_delete_def)
  let ?b = "leased lease token now b"
  have id: "sb_id ?b = fr_submission_id r" using row_of_SomeD [OF b(1)] by (simp add: leased_def)
  have "row_of sb_id (fr_submission_id r) (submissions s2) = Some ?b"
    using b(1) id by (simp add: s2 b(10) row_of_put_submission)
  moreover have "past (sb_retention_until b) later"
    using b(6) assms(2) by (auto simp: past_def split: option.splits)
  moreover have "row_of cl_id (sb_claim_id b) (claims s2) = Some c" using b(3) by (simp add: s2 b(10))
  moreover have "cl_status c \<notin> set UNDER_REVIEW_CLAIM_STATUSES"
    using b(4) by (simp add: in_pipeline_def UNDER_REVIEW_CLAIM_STATUSES_def)
  ultimately show ?thesis using b(5,8,9) by (intro exI [of _ ?b]) (simp add: due_file_def leased_def past_def)
qed

section \<open>Witnesses\<close>

definition retention_end :: instant where "retention_end = minutes 5 + days 180"

lemma lift_campus:
  assumes "campus_step\<^sup>*\<^sup>* s d" "reachable_retention x" "rt_db x = s"
  shows "reachable_retention (x\<lparr>rt_db := d\<rparr>)"
  using assms(1)
proof (induction rule: rtranclp_induct)
  case base
  have "x\<lparr>rt_db := s\<rparr> = x" using assms(3) by (cases x) simp
  then show ?case using assms(2) by simp
next
  case (step d e)
  have "retention_step (x\<lparr>rt_db := d\<rparr>) (x\<lparr>rt_db := d, rt_db := e\<rparr>)"
    using campus_moves [of "x\<lparr>rt_db := d\<rparr>" e] step.hyps(2) by simp
  then show ?case using step.IH unfolding reachable_retention_def by (simp add: rtranclp.rtrancl_into_rtrancl)
qed

lemma demo_due: "due_file retention_end uploaded_campus demo_upload"
  using uploaded_rows(2) uploaded_claim_facts
  by (simp add: due_file_def retention_end_def past_def demo_upload_def UNDER_REVIEW_CLAIM_STATUSES_def demo_claim_def
      new_submission_def new_claim_def)

lemma demo_listing: "collect_due_files 500 retention_end uploaded_campus = [file_record demo_upload]"
  using demo_due uploaded_rows by (simp add: collect_due_files_def)

definition listed_retention :: "campus_db \<Rightarrow> retention" where
  "listed_retention d = \<lparr>rt_db = d, rt_listed = {file_record demo_upload}, rt_held = {}, rt_sent = {}\<rparr>"

lemma reachable_listed:
  assumes "campus_step\<^sup>*\<^sup>* uploaded_campus d"
  shows "reachable_retention (listed_retention d)"
proof -
  have "reachable_retention initial_retention" by (simp add: reachable_retention_def)
  from lift_campus [OF reachable_uploaded [unfolded reachable_campus_def] this]
  have "reachable_retention (initial_retention\<lparr>rt_db := uploaded_campus\<rparr>)" by (simp add: initial_retention_def)
  moreover have "retention_step (initial_retention\<lparr>rt_db := uploaded_campus\<rparr>) (listed_retention uploaded_campus)"
    using scan_lists [of "initial_retention\<lparr>rt_db := uploaded_campus\<rparr>" 500 retention_end]
    by (simp add: initial_retention_def listed_retention_def demo_listing)
  ultimately have "reachable_retention (listed_retention uploaded_campus)"
    unfolding reachable_retention_def by (rule rtranclp.rtrancl_into_rtrancl)
  from lift_campus [OF assms this] show ?thesis by (simp add: listed_retention_def)
qed

definition demo_row :: submission where "demo_row = leased (minutes 5) 900 retention_end demo_upload"

lemma demo_grant: "claim_for_cleanup (minutes 5) 900 (file_record demo_upload) retention_end uploaded_campus
    = (Some 900, put_submission demo_row uploaded_campus)"
  using demo_due uploaded_rows(1)
  by (simp add: claim_cleanup_eq due_iff_eligible demo_row_def file_record_def demo_upload_def)

theorem reviewed_files_are_never_deleted_witness:
  "(let x = listed_retention (started_state (minutes 6) 400 demo_upload uploaded_campus) in
      in_validation demo_upload \<in> set (submissions (rt_db x)) \<and> rt_listed x \<noteq> {}
      \<and> (\<forall>(r, t)\<in>rt_held x \<union> rt_sent x. fr_object_key r \<noteq> sb_object_key (in_validation demo_upload)))"
proof -
  let ?s4 = "started_state (minutes 6) 400 demo_upload uploaded_campus"
  have started: "start_validation (minutes 6) 400 200 uploaded_campus = Inr (Started (in_validation demo_upload), ?s4)"
    by (rule start_runs [OF uploaded_rows(1) demo_may_start])
  have step: "campus_step uploaded_campus ?s4"
    by (rule step_start [OF _ started]) (simp add: uploaded_rows)
  have ids: "sb_id demo_upload = 200" "sb_id (in_validation demo_upload) = 200"
    "sb_claim_id (in_validation demo_upload) = 100" "sb_deleted_at (in_validation demo_upload) = None"
    by (simp_all add: demo_upload_def in_validation_def new_submission_def demo_claim_def new_claim_def)
  have row4: "row_of sb_id 200 (submissions ?s4) = Some (in_validation demo_upload)"
    using uploaded_rows(1) by (simp add: row_of_put_submission ids)
  have claim4: "row_of cl_id 100 (claims ?s4) = Some (demo_claim\<lparr>cl_latest_submission_id := Some 200, cl_status := ClaimStatus.VALIDATING\<rparr>)"
    using uploaded_rows(2) by (simp add: row_of_enter_validation uploaded_rows(5) demo_claim_def new_claim_def)
  show ?thesis
    using reviewed_files_are_never_deleted [OF reachable_listed [OF r_into_rtranclp [of campus_step, OF step]],
        of "in_validation demo_upload"] row_of_SomeD [OF row4] claim4 ids
    by (simp add: listed_retention_def)
qed

theorem scan_report_is_exact_witness:
  "\<exists>c s'. cleanup_expired_files (minutes 5) (\<lambda>_. 900) (\<lambda>_. Removed) 500 retention_end uploaded_campus = (Inr c, s')
     \<and> cs_scanned c = 1 \<and> cs_deleted c = 1 \<and> map sb_deleted_at (submissions s') = [Some retention_end]"
proof -
  have up: "uploads_inv uploaded_campus" by (rule campus_invD(3) [OF reachable_campus_inv [OF reachable_uploaded]])
  have row: "row_of sb_id (fr_submission_id (file_record demo_upload)) (submissions uploaded_campus) = Some demo_upload"
    using uploaded_rows(1) by (simp add: file_record_def demo_upload_def)
  have "guard (file_record demo_upload) retention_end = None"
    using demo_due by (simp add: guard_def file_record_def due_file_def)
  then have "fst (cleanup_expired_files (minutes 5) (\<lambda>_. 900) (\<lambda>_. Removed) 500 retention_end uploaded_campus)
      = Inr (tally DELETED empty_summary)"
    using cleanup_file_eq [OF _ row] demo_due
    by (simp add: cleanup_expired_files_def demo_listing due_iff_eligible)
  then obtain c s' where run: "cleanup_expired_files (minutes 5) (\<lambda>_. 900) (\<lambda>_. Removed) 500 retention_end uploaded_campus
      = (Inr c, s')" by (metis prod.collapse)
  show ?thesis
    using scan_report_is_exact [OF up run] run uploaded_rows(9)
    by (simp add: demo_listing counted_def empty_summary_def answers_def after_delete_def deleted_row_def
        file_record_def demo_upload_def)
qed

theorem failed_delete_is_retried_witness:
  "due_file (retention_end + minutes 5) (put_submission demo_row uploaded_campus) demo_row
     \<and> \<not> due_file (retention_end + minutes 4) (put_submission demo_row uploaded_campus) demo_row"
proof -
  have settle: "settle_delete Crashed (file_record demo_upload) 900 retention_end (put_submission demo_row uploaded_campus)
      = (Inl StorageCrash, put_submission demo_row uploaded_campus)" by (simp add: settle_delete_def)
  have "row_of sb_id (fr_submission_id (file_record demo_upload)) (submissions (put_submission demo_row uploaded_campus))
      = Some demo_row"
    using uploaded_rows(1) by (simp add: row_of_put_submission file_record_def demo_upload_def demo_row_def leased_def)
  then show ?thesis
    using failed_delete_is_retried [OF demo_grant _ _ settle, of "retention_end + minutes 5"]
      failed_delete_is_retried [OF demo_grant _ _ settle, of "retention_end + minutes 4"]
    by (simp add: minutes_def)
qed

end
