(* ===== verification/Orphans.thy ===== *)
theory Orphans
  imports Cleanup
begin

text \<open>
  Orphaned uploads: students that upload and submit, and the cleanup of expired intents, on one clock.  An
  upload is submitted or discarded, never both.
\<close>

record orphanage =
  od_db :: campus_db
  od_now :: instant
  od_listed :: "IntentRecord set"
  od_held :: "(IntentRecord \<times> uuid) set"

text \<open>
  \<open>od_held\<close> keeps every right ever granted over an intent's object: its holder may delete the object at any
  later time.
\<close>

inductive orphan_step :: "orphanage \<Rightarrow> orphanage \<Rightarrow> bool" where
  time_passes: "od_now x \<le> n \<Longrightarrow> orphan_step x (x\<lparr>od_now := n\<rparr>)"
| student_uploads: "create_upload_intent cfg presign iid (od_now x) a cid fname ty n (od_db x) = (ir, d)
    \<Longrightarrow> orphan_step x (x\<lparr>od_db := d\<rparr>)"
| student_submits: "locates probe iid (od_db x)
    \<Longrightarrow> finalize_locked disp fr sid (od_now x) a iid rq probe (od_db x) = (fo, d)
    \<Longrightarrow> orphan_step x (x\<lparr>od_db := d\<rparr>)"
| sweep_lists: "orphan_step x (x\<lparr>od_listed := od_listed x \<union> set (collect_due_intents lim now (od_db x))\<rparr>)"
| sweep_claims: "r \<in> od_listed x \<Longrightarrow> claim_intent lease token r (od_now x) (od_db x) = (Some t, d)
    \<Longrightarrow> orphan_step x (x\<lparr>od_db := d, od_held := insert (r, t) (od_held x)\<rparr>)"
| sweep_marks: "(r, t) \<in> od_held x \<Longrightarrow> mark_intent_deleted r t now (od_db x) = Inr d
    \<Longrightarrow> orphan_step x (x\<lparr>od_db := d\<rparr>)"
| sweep_releases: "(r, t) \<in> od_held x \<Longrightarrow> orphan_step x (x\<lparr>od_db := release_intent r t (od_db x)\<rparr>)"

definition ages :: "upload_intent \<Rightarrow> instant \<Rightarrow> upload_intent \<Rightarrow> bool" where
  "ages i now i' \<longleftrightarrow> ui_id i' = ui_id i \<and> ui_object_key i' = ui_object_key i \<and> ui_expires_at i' = ui_expires_at i
     \<and> (ui_expires_at i \<le> now \<and> ui_finalized_submission_id i = None \<longrightarrow> ui_finalized_submission_id i' = None)"

definition intents_age :: "instant \<Rightarrow> 'a campus_db_scheme \<Rightarrow> 'b campus_db_scheme \<Rightarrow> bool" where
  "intents_age now s s' \<longleftrightarrow> (\<forall>i\<in>set (upload_intents s). \<exists>i'\<in>set (upload_intents s'). ages i now i')"

definition discarded :: "IntentRecord \<Rightarrow> instant \<Rightarrow> upload_intent \<Rightarrow> bool" where
  "discarded r now i \<longleftrightarrow> ui_object_key i = ir_object_key r \<and> ui_id i = ir_intent_id r
     \<and> ui_finalized_submission_id i = None \<and> ui_expires_at i \<le> now"

definition orphanage_inv :: "orphanage \<Rightarrow> bool" where
  "orphanage_inv x \<longleftrightarrow> uploads_inv (od_db x)
     \<and> (\<forall>r\<in>od_listed x. \<exists>i\<in>set (upload_intents (od_db x)). ui_object_key i = ir_object_key r \<and> ui_id i = ir_intent_id r)
     \<and> (\<forall>(r, t)\<in>od_held x. \<exists>i\<in>set (upload_intents (od_db x)). discarded r (od_now x) i)"

lemma ages_refl [simp]: "ages i now i"
  by (simp add: ages_def)

lemma age_same: "set (upload_intents s) \<subseteq> set (upload_intents s') \<Longrightarrow> intents_age now s s'"
  unfolding intents_age_def using ages_refl by blast

lemma age_put:
  assumes "uploads_inv s" "row_of ui_id iid (upload_intents s) = Some i" "ages i now i'"
    and "upload_intents s' = upload_intents (put_intent i' s)"
  shows "intents_age now s s'"
proof -
  have same: "ui_id i' = ui_id i" "ui_object_key i' = ui_object_key i" using assms(3) by (simp_all add: ages_def)
  have "set (upload_intents s') = insert i' (set (upload_intents s) - {i})"
    using put_intent_rows(1) [OF assms(1,2) same] by (simp add: assms(4) put_intent_def same(1))
  then show ?thesis unfolding intents_age_def using assms(3) ages_refl by blast
qed

lemma intent_write_keeps:
  assumes inv: "uploads_inv s" and i: "row_of ui_id iid (upload_intents s) = Some i"
    and same: "ui_id i' = ui_id i" "ui_object_key i' = ui_object_key i" "ui_claim_id i' = ui_claim_id i"
      "ui_finalized_submission_id i' = ui_finalized_submission_id i" "ui_consumed_at i' = ui_consumed_at i"
      "ui_declared_size i' = ui_declared_size i"
  shows "uploads_inv (put_intent i' s)"
proof -
  note rows = put_intent_rows [OF inv i same(1,2)]
  have U: "upload_intents (put_intent i' s) = update_row ui_id (ui_id i) (\<lambda>_. i') (upload_intents s)"
    by (simp add: put_intent_def same(1))
  have v: "versions cid' (put_intent i' s) = versions cid' s" for cid' by (simp add: versions_def)
  have subs: "submissions (put_intent i' s) = submissions s" by simp
  have backs: "backs_submission i' b = backs_submission i b" for b by (simp add: backs_submission_def same)
  have iin: "i \<in> set (upload_intents s)" using row_of_SomeD [OF i] by simp
  have backed: "\<exists>j\<in>insert i' (set (upload_intents s) - {i}). backs_submission j b" if "b \<in> set (submissions s)" for b
    using uploads_inv_backed [OF inv that] backs by blast
  show ?thesis
    unfolding uploads_inv_def v U rows subs
    using inv iin backed backs same unfolding uploads_inv_def by (auto simp del: upt_Suc)
qed

lemma submit_ages:
  assumes "finalize_locked disp fr sid now a iid rq probe s = (fo, d)" "uploads_inv s"
  shows "intents_age now s d"
  using assms(1)
proof (cases rule: finalize_cases)
  case (burned i)
  then show ?thesis
    by (intro age_put [OF assms(2) burned(3), of now "i\<lparr>ui_consumed_at := Some now\<rparr>"])
      (simp_all add: ages_def burn_intent_def)
next
  case (first i c head task keep b)
  have "row_of ui_id iid (upload_intents s) = Some i" "now < ui_expires_at i"
    using first(1) by (simp_all add: may_finalize_def)
  then show ?thesis
    by (intro age_put [OF assms(2), of iid i now "i\<lparr>ui_consumed_at := Some now, ui_finalized_submission_id := Some sid\<rparr>"])
      (simp_all add: ages_def first(5) finalized_state_def put_intent_def)
qed (simp_all add: age_same)

lemma age_keeps:
  assumes "orphanage_inv x" "intents_age (od_now x) (od_db x) d" "uploads_inv d"
  shows "orphanage_inv (x\<lparr>od_db := d\<rparr>)"
proof -
  have "\<exists>i\<in>set (upload_intents d). ui_object_key i = ir_object_key r \<and> ui_id i = ir_intent_id r"
    if "r \<in> od_listed x" for r
    using assms that unfolding orphanage_inv_def intents_age_def ages_def by metis
  moreover have "\<exists>i\<in>set (upload_intents d). discarded r (od_now x) i" if "(r, t) \<in> od_held x" for r t
  proof -
    obtain i where i: "i \<in> set (upload_intents (od_db x))" "discarded r (od_now x) i"
      using assms(1) \<open>(r, t) \<in> od_held x\<close> unfolding orphanage_inv_def by blast
    then obtain i' where "i' \<in> set (upload_intents d)" "ages i (od_now x) i'"
      using assms(2) unfolding intents_age_def by blast
    then show ?thesis using i(2) by (intro bexI [of _ i']) (simp_all add: ages_def discarded_def)
  qed
  ultimately show ?thesis using assms(3) by (auto simp: orphanage_inv_def)
qed

lemma write_keeps:
  assumes "orphanage_inv x" "row_of ui_id iid (upload_intents (od_db x)) = Some i"
    and "ui_id i' = ui_id i" "ui_object_key i' = ui_object_key i" "ui_claim_id i' = ui_claim_id i"
      "ui_finalized_submission_id i' = ui_finalized_submission_id i" "ui_consumed_at i' = ui_consumed_at i"
      "ui_declared_size i' = ui_declared_size i" "ui_expires_at i' = ui_expires_at i"
  shows "orphanage_inv (x\<lparr>od_db := put_intent i' (od_db x)\<rparr>)"
proof -
  have inv: "uploads_inv (od_db x)" using assms(1) by (simp add: orphanage_inv_def)
  show ?thesis
    by (rule age_keeps [OF assms(1) age_put [OF inv assms(2) _ refl] intent_write_keeps [OF inv assms(2-8)]])
      (simp add: ages_def assms)
qed

lemma orphan_step_keeps: "orphan_step x y \<Longrightarrow> orphanage_inv x \<Longrightarrow> orphanage_inv y"
proof (induction rule: orphan_step.induct)
  case (time_passes x n)
  then show ?case by (fastforce simp: orphanage_inv_def discarded_def)
next
  case (student_uploads cfg presign iid x a cid fname ty n ir d)
  have inv: "uploads_inv (od_db x)" using student_uploads(2) by (simp add: orphanage_inv_def)
  have "set (upload_intents (od_db x)) \<subseteq> set (upload_intents d)"
    using student_uploads(1) by (cases rule: create_cases) (auto dest!: insert_intent_Inr)
  then show ?case
    by (rule age_keeps [OF student_uploads(2) age_same create_keeps [OF student_uploads(1) inv]])
next
  case (student_submits probe iid x disp fr sid a rq fo d)
  have inv: "uploads_inv (od_db x)" using student_submits(3) by (simp add: orphanage_inv_def)
  show ?case
    by (rule age_keeps [OF student_submits(3) submit_ages [OF student_submits(2) inv]
          finalize_keeps [OF student_submits(2) inv student_submits(1)]])
next
  case (sweep_lists x lim now)
  have "\<exists>i\<in>set (upload_intents (od_db x)). ui_object_key i = ir_object_key r \<and> ui_id i = ir_intent_id r"
    if "r \<in> set (collect_due_intents lim now (od_db x))" for r
    using that by (fastforce simp: collect_due_intents_def dest!: in_set_takeD)
  then show ?case using sweep_lists by (auto simp: orphanage_inv_def)
next
  case (sweep_claims r x lease token t d)
  obtain i where i: "row_of ui_id (ir_intent_id r) (upload_intents (od_db x)) = Some i" "due_intent (od_now x) i"
    and d: "d = put_intent (i\<lparr>ui_cleanup_claimed_at := Some (od_now x),
              ui_cleanup_lease_expires_at := Some (od_now x + lease), ui_cleanup_claim_token := Some token\<rparr>) (od_db x)"
    using sweep_claims(2) by (auto simp: claim_intent_def split: option.splits if_splits)
  have keep: "orphanage_inv (x\<lparr>od_db := d\<rparr>)"
    unfolding d by (rule write_keeps [OF sweep_claims(3) i(1)]) simp_all
  have inv: "uploads_inv (od_db x)" using sweep_claims(3) by (simp add: orphanage_inv_def)
  obtain j where j: "j \<in> set (upload_intents (od_db x))" "ui_object_key j = ir_object_key r" "ui_id j = ir_intent_id r"
    using sweep_claims(1,3) unfolding orphanage_inv_def by blast
  have "j = i" using uploads_inv_same_object [OF inv j(1)] row_of_SomeD [OF i(1)] j(3) by metis
  then have "discarded r (od_now x) i" using i(2) j by (simp add: discarded_def due_intent_def)
  moreover have "intents_age (od_now x) (od_db x) d"
    by (rule age_put [OF inv i(1), of _ "i\<lparr>ui_cleanup_claimed_at := Some (od_now x),
          ui_cleanup_lease_expires_at := Some (od_now x + lease), ui_cleanup_claim_token := Some token\<rparr>"])
      (simp_all add: ages_def d)
  ultimately have "\<exists>i\<in>set (upload_intents d). discarded r (od_now x) i"
    using row_of_SomeD [OF i(1)] unfolding intents_age_def ages_def discarded_def by metis
  then show ?case using keep by (auto simp: orphanage_inv_def)
next
  case (sweep_marks r t x now d)
  show ?case
  proof (cases "d = od_db x")
    case False
    then obtain i where "row_of ui_id (ir_intent_id r) (upload_intents (od_db x)) = Some i"
      "d = put_intent (i\<lparr>ui_cleanup_deleted_at := Some now\<rparr>) (od_db x)"
      using sweep_marks(2) by (auto simp: mark_intent_deleted_def split: option.splits if_splits)
    then show ?thesis using write_keeps [OF sweep_marks(3)] by simp
  qed (use sweep_marks(3) in simp)
next
  case (sweep_releases r t x)
  show ?case
  proof (cases "release_intent r t (od_db x) = od_db x")
    case False
    then obtain i where "row_of ui_id (ir_intent_id r) (upload_intents (od_db x)) = Some i"
      "release_intent r t (od_db x) = put_intent (i\<lparr>ui_cleanup_claimed_at := None, ui_cleanup_lease_expires_at := None,
             ui_cleanup_claim_token := None\<rparr>) (od_db x)"
      by (auto simp: release_intent_def split: option.splits if_splits)
    then show ?thesis using write_keeps [OF sweep_releases(2)] by simp
  qed (use sweep_releases(2) in simp)
qed

section \<open>The property\<close>

text \<open>C15: An upload is submitted or discarded as an orphan, never both: however uploads, submissions and cleanup
  sweeps of expired intents interleave on one clock, starting from consistent uploads with no sweep under way, no
  submission ever has an object that a sweep got the right to delete.\<close>

theorem orphaned_upload_is_never_submitted:
  assumes "uploads_inv s" and "orphan_step\<^sup>*\<^sup>* \<lparr>od_db = s, od_now = now, od_listed = {}, od_held = {}\<rparr> x"
    and "(r, t) \<in> od_held x" "b \<in> set (submissions (od_db x))"
  shows "sb_object_key b \<noteq> ir_object_key r"
proof
  assume key: "sb_object_key b = ir_object_key r"
  have "orphanage_inv x"
    using assms(2)
  proof (induction rule: rtranclp_induct)
    case base show ?case by (simp add: orphanage_inv_def assms(1))
  next
    case (step y z) show ?case by (rule orphan_step_keeps [OF step.hyps(2) step.IH])
  qed
  then have inv: "uploads_inv (od_db x)" and "\<exists>i\<in>set (upload_intents (od_db x)). discarded r (od_now x) i"
    using assms(3) unfolding orphanage_inv_def by blast+
  then obtain i where i: "i \<in> set (upload_intents (od_db x))" "discarded r (od_now x) i" by blast
  obtain j where j: "j \<in> set (upload_intents (od_db x))" "backs_submission j b"
    using uploads_inv_backed [OF inv assms(4)] by blast
  then have "i = j" using uploads_inv_same_object [OF inv i(1) j(1)] i(2) key by (simp add: backs_submission_def discarded_def)
  then show False using i(2) j(2) by (simp add: backs_submission_def discarded_def)
qed

definition spare_intent :: upload_intent where
  "spare_intent = demo_intent\<lparr>ui_id := 301, ui_object_key := ''submissions/y''\<rparr>"

definition two_uploads :: campus_db where
  "two_uploads = uploaded_campus\<lparr>upload_intents := upload_intents uploaded_campus @ [spare_intent]\<rparr>"

theorem orphaned_upload_is_never_submitted_witness:
  "\<exists>(x :: orphanage) r t. (r, t) \<in> od_held x \<and> demo_upload \<in> set (submissions (od_db x))
     \<and> sb_object_key demo_upload \<noteq> ir_object_key r"
proof -
  have up: "uploads_inv uploaded_campus" by (rule campus_invD(3) [OF reachable_campus_inv [OF reachable_uploaded]])
  have rows: "upload_intents uploaded_campus = [demo_intent\<lparr>ui_consumed_at := Some (minutes 5), ui_finalized_submission_id := Some 200\<rparr>]"
    by (simp add: uploaded_campus_def finalized_state_def intent_campus_def put_intent_def update_row_def demo_intent_def put_claim_def)
  have v: "versions cid two_uploads = versions cid uploaded_campus" for cid by (simp add: versions_def two_uploads_def)
  have more: "upload_intents two_uploads = upload_intents uploaded_campus @ [spare_intent]"
    "submissions two_uploads = submissions uploaded_campus" by (simp_all add: two_uploads_def)
  have spare: "spare_intent \<notin> set (upload_intents uploaded_campus)" "0 \<le> ui_declared_size spare_intent"
    "ui_finalized_submission_id spare_intent = None"
    "ui_id spare_intent \<notin> ui_id ` set (upload_intents uploaded_campus)"
    "ui_object_key spare_intent \<notin> ui_object_key ` set (upload_intents uploaded_campus)"
    by (simp_all add: rows spare_intent_def demo_intent_def)
  have inv: "uploads_inv two_uploads"
    using up spare unfolding uploads_inv_def v more by (auto simp del: upt_Suc)
  let ?r = "\<lparr>ir_intent_id = 301, ir_object_key = ''submissions/y''\<rparr>"
  let ?x0 = "\<lparr>od_db = two_uploads, od_now = 0, od_listed = {}, od_held = {}\<rparr>"
  let ?x1 = "?x0\<lparr>od_now := minutes 20\<rparr>"
  let ?x2 = "?x1\<lparr>od_listed := od_listed ?x1 \<union> set (collect_due_intents 500 (minutes 20) (od_db ?x1))\<rparr>"
  have listing: "collect_due_intents 500 (minutes 20) two_uploads = [?r]"
    by (simp add: collect_due_intents_def two_uploads_def rows due_intent_def spare_intent_def demo_intent_def minutes_def)
  have "\<exists>d. claim_intent (minutes 5) 900 ?r (minutes 20) two_uploads = (Some 900, d)
      \<and> submissions d = submissions uploaded_campus"
    by (simp add: claim_intent_def two_uploads_def rows due_intent_def spare_intent_def demo_intent_def minutes_def)
  then obtain d where grant: "claim_intent (minutes 5) 900 ?r (od_now ?x2) (od_db ?x2) = (Some 900, d)"
    and subs: "submissions d = submissions uploaded_campus" by auto
  have "orphan_step ?x0 ?x1" by (rule time_passes) (simp add: minutes_def)
  moreover have "orphan_step ?x1 ?x2" by (rule sweep_lists)
  moreover have "orphan_step ?x2 (?x2\<lparr>od_db := d, od_held := insert (?r, 900) (od_held ?x2)\<rparr>)"
    by (rule sweep_claims [OF _ grant]) (simp add: listing)
  ultimately have path: "orphan_step\<^sup>*\<^sup>* ?x0 (?x2\<lparr>od_db := d, od_held := insert (?r, 900) (od_held ?x2)\<rparr>)"
    by (meson converse_rtranclp_into_rtranclp rtranclp.rtrancl_refl)
  obtain x where x: "orphan_step\<^sup>*\<^sup>* ?x0 x" "(?r, 900) \<in> od_held x" "od_db x = d"
    using path by (rule that) simp_all
  have row: "demo_upload \<in> set (submissions (od_db x))" by (simp add: x(3) subs uploaded_rows(9))
  have "sb_object_key demo_upload \<noteq> ir_object_key ?r"
    by (rule orphaned_upload_is_never_submitted [OF inv x(1,2) row])
  with x(2) row show ?thesis by blast
qed

end
