(* ===== verification/Task_Facts.thy ===== *)
theory Task_Facts
  imports Collaborators Claim_Facts
begin

text \<open>
  Correctness of the task life cycle: when a verb is accepted, the row invariant every operation
  keeps, the frozen contract of a published task, and the agreement with the claim service; and of
  the collaborator grants: which are accepted, and that delegation creates no capability.
\<close>

section \<open>The verbs\<close>

definition may_manage :: "actor \<Rightarrow> task \<Rightarrow> bool" where
  "may_manage a t \<longleftrightarrow> actor_user_id a = tk_owner_teacher_id t \<or> actor_role a = ADMIN"

definition has_types :: "string list \<Rightarrow> task \<Rightarrow> bool" where
  "has_types codes t \<longleftrightarrow> (\<exists>c\<in>set (tk_allowed_file_types t). c \<in> set codes)"

text \<open>What a live task promises: a payable reward, an open-ended or future deadline, one file family.\<close>

definition complete :: "task \<Rightarrow> bool" where
  "complete t \<longleftrightarrow> 0 < tk_base_reward_points t
     \<and> (if tk_deadline_mode t = ''FIXED'' then \<exists>d. tk_fixed_deadline_at t = Some (Aware d)
        else tk_deadline_mode t = ''RELATIVE'' \<and> (\<exists>n>0. tk_duration_minutes t = Some n))
     \<and> tk_allowed_file_types t \<noteq> [] \<and> set (tk_allowed_file_types t) \<subseteq> set SUPPORTED_FILE_TYPES
     \<and> \<not> (has_types STRUCTURED_FILE_TYPE_CODES t \<and> has_types DOCUMENT_FILE_TYPE_CODES t)
     \<and> (has_types DOCUMENT_FILE_TYPE_CODES t \<longrightarrow>
         tk_submission_schema t = None \<or> tk_submission_schema t = Some (JObj []))
     \<and> 0 < tk_max_file_size_bytes t"

definition cutoff_of :: "task \<Rightarrow> int" where
  "cutoff_of t = (case tk_claim_cutoff_minutes t of None \<Rightarrow> 0 | Some n \<Rightarrow> n)"

definition publishable :: "int \<Rightarrow> instant \<Rightarrow> task \<Rightarrow> bool" where
  "publishable m now t \<longleftrightarrow> complete t \<and> tk_max_file_size_bytes t \<le> m
     \<and> (\<forall>d. tk_deadline_mode t = ''FIXED'' \<and> tk_fixed_deadline_at t = Some (Aware d)
          \<longrightarrow> now < d \<and> now + minutes (cutoff_of t) \<le> d)"

lemma deadline_mode_of_eq: "deadline_mode_of v =
    (if v = ''FIXED'' then Some FIXED else if v = ''RELATIVE'' then Some RELATIVE else None)"
  by (auto simp: deadline_mode_of_def member_with_def)

lemma sort_Nil_iff [simp]: "sort xs = [] \<longleftrightarrow> xs = []"
  by (metis length_0_conv length_sort)

lemma file_policy_Inr: "validate_file_policy t = Inr u \<longleftrightarrow> tk_allowed_file_types t \<noteq> []
     \<and> set (tk_allowed_file_types t) \<subseteq> set SUPPORTED_FILE_TYPES
     \<and> \<not> (has_types STRUCTURED_FILE_TYPE_CODES t \<and> has_types DOCUMENT_FILE_TYPE_CODES t)
     \<and> (has_types DOCUMENT_FILE_TYPE_CODES t \<longrightarrow>
         tk_submission_schema t = None \<or> tk_submission_schema t = Some (JObj []))"
  unfolding validate_file_policy_def Let_def has_types_def empty_schema_def
  by (auto simp: filter_empty_conv)

lemma deadline_policy_Inr: "validate_deadline_policy now t = Inr u \<longleftrightarrow>
    (if tk_deadline_mode t = ''FIXED'' then \<exists>d. tk_fixed_deadline_at t = Some (Aware d)
        \<and> now < d \<and> now + minutes (cutoff_of t) \<le> d
     else tk_deadline_mode t = ''RELATIVE'' \<and> (\<exists>n>0. tk_duration_minutes t = Some n))"
  by (auto simp: validate_deadline_policy_def deadline_mode_of_eq cutoff_of_def utc_instant_def
      split: option.splits datetime.splits if_splits)

lemma validate_publishable_Inr: "validate_publishable m now t = Inr u \<longleftrightarrow> 0 < tk_base_reward_points t
    \<and> validate_deadline_policy now t = Inr () \<and> validate_file_policy t = Inr ()
    \<and> 0 < tk_max_file_size_bytes t \<and> tk_max_file_size_bytes t \<le> m"
  by (cases "validate_deadline_policy now t"; cases "validate_file_policy t")
    (auto simp: validate_publishable_def validate_size_cap_def)

lemma publishable_iff: "validate_publishable m now t = Inr u \<longleftrightarrow> publishable m now t"
  unfolding validate_publishable_Inr file_policy_Inr deadline_policy_Inr publishable_def complete_def
  by (cases "tk_deadline_mode t = ''FIXED''") auto

lemma owner_Inr: "require_owner_or_admin t a = Inr u \<longleftrightarrow> may_manage a t"
  by (auto simp: require_owner_or_admin_def may_manage_def)

lemma audit_action_of_edge: "target \<in> set (ALLOWED_TASK_TRANSITIONS st)
    \<Longrightarrow> \<exists>action. TRANSITION_AUDIT_ACTIONS (st, target) = Some action"
  by (cases st; cases target) simp_all

lemma enter_target_ok: "ok (enter_target m now t target s) \<longleftrightarrow> (target = PUBLISHED \<longrightarrow>
    publishable m now t \<and> (tk_status t = DRAFT \<longrightarrow> (\<exists>u\<in>set (assignments s). as_task_id u = tk_id t)))"
proof (cases "target = PUBLISHED")
  case True
  have "ok (enter_target m now t PUBLISHED s) \<longleftrightarrow> validate_publishable m now t = Inr ()
      \<and> (tk_status t = DRAFT \<longrightarrow> count_rows (\<lambda>u. as_task_id u = tk_id t) (assignments s) \<noteq> 0)"
    by (cases "validate_publishable m now t") (auto simp: enter_target_def)
  then show ?thesis using True by (auto simp: publishable_iff count_rows_zero)
qed (simp add: enter_target_def)

lemma transition_cases:
  assumes "transition m now a tid target s = Inr (t2, s')"
  obtains t t1 action where "row_of tk_id tid (tasks s) = Some t" "may_manage a t"
    "target \<in> set (ALLOWED_TASK_TRANSITIONS (tk_status t))" "enter_target m now t target s = Inr t1"
    "t2 = t1\<lparr>tk_status := target\<rparr>" "TRANSITION_AUDIT_ACTIONS (tk_status t, target) = Some action"
    "s' = audit_append a action ''task'' tid None None
      (Some (dict [(''status'', JStr (task_status_value (tk_status t)))]))
      (Some (dict [(''status'', JStr (task_status_value target))])) None (put_task t2 s)"
proof -
  obtain t where t: "row_of tk_id tid (tasks s) = Some t"
    using assms by (auto simp: transition_def split: option.splits)
  note run = assms [unfolded transition_def t option.case]
  obtain u where u: "require_owner_or_admin t a = Inr u"
    using run by (cases "require_owner_or_admin t a") auto
  have edge: "target \<in> set (ALLOWED_TASK_TRANSITIONS (tk_status t))"
    using run [unfolded u sum.case] by (auto simp: require_transition_def split: if_splits)
  then have "require_transition t target = Inr ()" by (simp add: require_transition_def)
  note run = run [unfolded u this sum.case]
  obtain t1 where t1: "enter_target m now t target s = Inr t1"
    using run by (cases "enter_target m now t target s") auto
  obtain action where action: "TRANSITION_AUDIT_ACTIONS (tk_status t, target) = Some action"
    using audit_action_of_edge [OF edge] by blast
  show thesis
    using that [OF t _ edge t1 _ action] run [unfolded t1 action sum.case option.case] u row_of_SomeD [OF t]
    by (auto simp add: owner_Inr [of t a u, symmetric] Let_def)
qed

text \<open>A status verb is accepted exactly when the task exists, the actor owns it or is an administrator,
  the life cycle has an edge from the stored status to the verb's target, and, for every entry into
  PUBLISHED, the task is publishable at that instant: a positive reward, a fixed deadline that lies in
  the future and leaves the whole claim window open or a positive duration, supported file types of a
  single family, no submission schema on a document task, a size cap within the platform's; a first
  publish also needs a unit of work.\<close>

theorem status_verb_accepted_iff:
  "ok (transition m now a tid target s) \<longleftrightarrow> (\<exists>t. row_of tk_id tid (tasks s) = Some t
    \<and> (actor_user_id a = tk_owner_teacher_id t \<or> actor_role a = ADMIN)
    \<and> (tk_status t, target) \<in> {(DRAFT, PUBLISHED), (PUBLISHED, PAUSED), (PUBLISHED, CLOSED),
        (PAUSED, PUBLISHED), (PAUSED, CLOSED), (CLOSED, ARCHIVED)}
    \<and> (target = PUBLISHED \<longrightarrow> publishable m now t
        \<and> (tk_status t = DRAFT \<longrightarrow> (\<exists>u\<in>set (assignments s). as_task_id u = tid))))"
    (is "?L \<longleftrightarrow> (\<exists>t. ?R t)")
proof
  assume ?L
  then obtain t2 s' where run: "transition m now a tid target s = Inr (t2, s')" by (auto simp: ok_iff)
  show "\<exists>t. ?R t"
  proof (rule transition_cases [OF run])
    fix t t1
    assume t: "row_of tk_id tid (tasks s) = Some t" "may_manage a t"
      "target \<in> set (ALLOWED_TASK_TRANSITIONS (tk_status t))" "enter_target m now t target s = Inr t1"
    have "(tk_status t, target) \<in> {(DRAFT, PUBLISHED), (PUBLISHED, PAUSED), (PUBLISHED, CLOSED),
        (PAUSED, PUBLISHED), (PAUSED, CLOSED), (CLOSED, ARCHIVED)}"
      using t(3) by (cases "tk_status t") auto
    moreover have "tk_id t = tid" using row_of_SomeD [OF t(1)] by simp
    ultimately show ?thesis
      using t(1,2) enter_target_ok [of m now t target s] t(4) by (intro exI [of _ t]) (simp add: may_manage_def)
  qed
next
  assume "\<exists>t. ?R t"
  then obtain t where t: "?R t" by blast
  then have edge: "target \<in> set (ALLOWED_TASK_TRANSITIONS (tk_status t))" by auto
  have id: "tk_id t = tid" using t row_of_SomeD [of tk_id tid "tasks s" t] by simp
  obtain t1 where "enter_target m now t target s = Inr t1"
    using t enter_target_ok [of m now t target s] by (auto simp: ok_iff id)
  moreover obtain action where "TRANSITION_AUDIT_ACTIONS (tk_status t, target) = Some action"
    using audit_action_of_edge [OF edge] by blast
  ultimately show ?L
    using t edge by (simp add: transition_def require_owner_or_admin_def require_transition_def Let_def)
qed

section \<open>Every row an operation leaves\<close>

text \<open>
  The check constraints of the table, what the status says about the time stamps, and that a task
  is live only when it is complete.
\<close>

definition task_ok :: "task \<Rightarrow> bool" where
  "task_ok t \<longleftrightarrow> 0 < tk_base_reward_points t \<and> tk_deadline_mode t \<in> {''FIXED'', ''RELATIVE''}
     \<and> (\<forall>n. tk_duration_minutes t = Some n \<longrightarrow> 0 < n) \<and> tk_grace_period_minutes t = Some 1440
     \<and> (\<exists>n\<ge>0. tk_claim_cutoff_minutes t = Some n)
     \<and> set (tk_allowed_file_types t) \<subseteq> set SUPPORTED_FILE_TYPES \<and> distinct (tk_allowed_file_types t)
     \<and> 0 < tk_max_file_size_bytes t
     \<and> set (tk_notification_channels t) \<subseteq> set SUPPORTED_NOTIFICATION_CHANNELS
     \<and> (\<forall>d. tk_fixed_deadline_at t = Some d \<longrightarrow> (\<exists>x. d = Aware x))
     \<and> tk_title t \<noteq> [] \<and> length (tk_title t) \<le> 255 \<and> tk_description t \<noteq> []
     \<and> (tk_published_at t = None \<longleftrightarrow> tk_status t = DRAFT)
     \<and> (tk_closed_at t = None \<longleftrightarrow> tk_status t \<notin> {CLOSED, ARCHIVED})
     \<and> (tk_status t \<noteq> DRAFT \<longrightarrow> complete t)"

lemma collect_codes_distinct: "distinct acc \<Longrightarrow> distinct (collect_codes acc raws)"
  by (induction acc raws rule: collect_codes.induct) (auto simp: Let_def)

lemma normalize_codes_Inr: "normalize_codes raws supported = Inr cs
    \<Longrightarrow> set cs \<subseteq> set supported \<and> distinct cs"
  using collect_codes_distinct [of "[]" raws]
  by (auto simp: normalize_codes_def Let_def filter_empty_conv split: if_splits)

lemma required_text_Inr: "required_text v e n = Inr w
    \<Longrightarrow> w \<noteq> [] \<and> (\<forall>k. n = Some k \<longrightarrow> length w \<le> k)"
  by (auto simp: required_text_def Let_def split: if_splits option.splits)

lemma utc_instant_Inr: "utc_instant d = Inr t \<longleftrightarrow> d = Aware t"
  by (auto simp: utc_instant_def split: datetime.splits)

lemma member_or_Inr: "member_or value members v = Inr m \<longleftrightarrow> member_with value members v = Some m"
  by (auto simp: member_or_def split: option.splits)

lemma create_checks_Inr: "create_checks m cmd = Inr u \<longleftrightarrow> 0 < ct_base_reward_points cmd
    \<and> (\<forall>n. ct_duration_minutes cmd = Some n \<longrightarrow> 0 < n) \<and> 0 \<le> ct_claim_cutoff_minutes cmd
    \<and> 0 < ct_max_file_size_bytes cmd \<and> ct_max_file_size_bytes cmd \<le> m
    \<and> \<not> empty_schema (ct_submission_schema cmd)
    \<and> (\<forall>n. ct_submission_schema_version cmd = Some n \<longrightarrow> 1 \<le> n)
    \<and> (\<forall>n. ct_target_count cmd = Some n \<longrightarrow> 1 \<le> n \<and> n \<le> MAX_TARGET_COUNT)"
  by (auto simp: create_checks_def validate_size_cap_def not_le not_less split: option.splits)

lemma new_task_Inr:
  assumes "new_task tid a title description cmd = Inr t"
  shows "tk_id t = tid \<and> tk_owner_teacher_id t = actor_user_id a \<and> tk_title t = title
    \<and> tk_description t = description \<and> tk_status t = DRAFT \<and> tk_published_at t = None \<and> tk_closed_at t = None
    \<and> tk_base_reward_points t = ct_base_reward_points cmd \<and> tk_duration_minutes t = ct_duration_minutes cmd
    \<and> tk_grace_period_minutes t = Some 1440 \<and> tk_claim_cutoff_minutes t = Some (ct_claim_cutoff_minutes cmd)
    \<and> tk_max_file_size_bytes t = ct_max_file_size_bytes cmd
    \<and> tk_deadline_mode t \<in> {''FIXED'', ''RELATIVE''}
    \<and> (\<forall>d. tk_fixed_deadline_at t = Some d \<longrightarrow> (\<exists>x. d = Aware x))
    \<and> set (tk_allowed_file_types t) \<subseteq> set SUPPORTED_FILE_TYPES \<and> distinct (tk_allowed_file_types t)
    \<and> set (tk_notification_channels t) \<subseteq> set SUPPORTED_NOTIFICATION_CHANNELS"
proof -
  have mode [simp]: "deadline_mode_value k \<noteq> ''RELATIVE'' \<Longrightarrow> deadline_mode_value k = ''FIXED''" for k
    by (cases k) simp_all
  show ?thesis
    using assms normalize_codes_Inr [of "ct_allowed_file_types cmd" SUPPORTED_FILE_TYPES]
      normalize_codes_Inr [of "ct_notification_channels cmd" SUPPORTED_NOTIFICATION_CHANNELS]
    unfolding new_task_def DEFAULT_GRACE_PERIOD_MINUTES_def
    by (auto split: sum.splits option.splits)
qed

lemma created_cases:
  assumes "create_task m ut tid uid a cmd s = Inr (t, s')"
  obtains title description where "actor_role a \<in> {TEACHER, ADMIN}"
    "required_text (ct_title cmd) InvalidTitle (Some 255) = Inr title"
    "required_text (ct_description cmd) InvalidDescription None = Inr description"
    "create_checks m cmd = Inr ()" "new_task tid a title description cmd = Inr t"
    "tid \<notin> tk_id ` set (tasks s)" "units_admissible (target_units ut uid tid (ct_target_count cmd)) s"
    "s' = s\<lparr>tasks := tasks s @ [t],
            assignments := assignments s @ target_units ut uid tid (ct_target_count cmd)\<rparr>"
  using assms unfolding create_task_def by (auto simp: Let_def split: if_splits sum.splits)

lemma created_task_ok:
  assumes "create_task m ut tid uid a cmd s = Inr (t, s')"
  shows "task_ok t"
proof (rule created_cases [OF assms])
  fix title description
  assume "required_text (ct_title cmd) InvalidTitle (Some 255) = Inr title"
    "required_text (ct_description cmd) InvalidDescription None = Inr description"
    "create_checks m cmd = Inr ()" "new_task tid a title description cmd = Inr t"
  with required_text_Inr [OF this(1)] required_text_Inr [OF this(2)] new_task_Inr [OF this(4)]
  show ?thesis unfolding task_ok_def create_checks_Inr by auto
qed

lemma set_to_Inr: "set_to v old check = Inr x \<longleftrightarrow> (v = None \<and> x = old \<or> (\<exists>y. v = Some y \<and> check y = Inr x))"
  by (auto simp: set_to_def split: option.splits)

lemma guarded_Inr: "guarded e good f x = Inr y \<longleftrightarrow> good x \<and> y = f x"
  by (auto simp: guarded_def)

lemma map_sum_Inr: "map_sum f g r = Inr y \<longleftrightarrow> (\<exists>x. r = Inr x \<and> y = g x)"
  by (cases r) auto

lemma size_cap_Inr: "validate_size_cap m n = Inr u \<longleftrightarrow> 0 < n \<and> n \<le> m"
  by (auto simp: validate_size_cap_def)

text \<open>The columns the two kinds of edit leave alone.\<close>

definition contract :: "task \<Rightarrow> int \<times> string \<times> datetime option \<times> int option \<times> int option \<times> int option
    \<times> json option \<times> int option \<times> string list \<times> int" where
  "contract t = (tk_base_reward_points t, tk_deadline_mode t, tk_fixed_deadline_at t, tk_duration_minutes t,
     tk_grace_period_minutes t, tk_claim_cutoff_minutes t, tk_submission_schema t,
     tk_submission_schema_version t, tk_allowed_file_types t, tk_max_file_size_bytes t)"

definition identity :: "task \<Rightarrow> uuid \<times> uuid \<times> TaskType \<times> TaskRarity \<times> string" where
  "identity t = (tk_id t, tk_owner_teacher_id t, tk_task_type t, tk_rarity t, tk_retention_policy t)"

definition stamps :: "task \<Rightarrow> TaskStatus \<times> instant option \<times> instant option" where
  "stamps t = (tk_status t, tk_published_at t, tk_closed_at t)"

definition texts_ok :: "task \<Rightarrow> bool" where
  "texts_ok t \<longleftrightarrow> tk_title t \<noteq> [] \<and> length (tk_title t) \<le> 255 \<and> tk_description t \<noteq> []
     \<and> set (tk_notification_channels t) \<subseteq> set SUPPORTED_NOTIFICATION_CHANNELS"

lemma edit_presentation_Inr:
  assumes "edit_presentation u t = Inr t1" "texts_ok t"
  shows "texts_ok t1 \<and> contract t1 = contract t \<and> identity t1 = identity t \<and> stamps t1 = stamps t"
proof -
  obtain title description channels where parts:
    "set_to (ut_title u) (tk_title t) (\<lambda>v. required_text v InvalidTitle (Some 255)) = Inr title"
    "set_to (ut_description u) (tk_description t) (\<lambda>v. required_text v InvalidDescription None) = Inr description"
    "set_to (ut_notification_channels u) (tk_notification_channels t)
       (\<lambda>v. normalize_codes v SUPPORTED_NOTIFICATION_CHANNELS) = Inr channels"
    and t1: "t1 = t\<lparr>tk_title := title, tk_description := description,
             tk_notify_24h := (case ut_notify_24h u of None \<Rightarrow> tk_notify_24h t | Some b \<Rightarrow> b),
             tk_notify_4h := (case ut_notify_4h u of None \<Rightarrow> tk_notify_4h t | Some b \<Rightarrow> b),
             tk_notification_channels := channels\<rparr>"
    using assms(1) unfolding edit_presentation_def by (auto split: sum.splits)
  have "title \<noteq> [] \<and> length title \<le> 255" "description \<noteq> []"
    "set channels \<subseteq> set SUPPORTED_NOTIFICATION_CHANNELS"
    using parts assms(2) by (auto simp: set_to_Inr texts_ok_def dest: required_text_Inr normalize_codes_Inr)
  then show ?thesis by (simp add: t1 texts_ok_def contract_def identity_def stamps_def)
qed

definition contract_ok :: "task \<Rightarrow> bool" where
  "contract_ok t \<longleftrightarrow> 0 < tk_base_reward_points t \<and> tk_deadline_mode t \<in> {''FIXED'', ''RELATIVE''}
     \<and> (\<forall>n. tk_duration_minutes t = Some n \<longrightarrow> 0 < n) \<and> tk_grace_period_minutes t = Some 1440
     \<and> (\<exists>n\<ge>0. tk_claim_cutoff_minutes t = Some n)
     \<and> set (tk_allowed_file_types t) \<subseteq> set SUPPORTED_FILE_TYPES \<and> distinct (tk_allowed_file_types t)
     \<and> 0 < tk_max_file_size_bytes t
     \<and> (\<forall>d. tk_fixed_deadline_at t = Some d \<longrightarrow> (\<exists>x. d = Aware x))"

definition stamps_ok :: "task \<Rightarrow> bool" where
  "stamps_ok t \<longleftrightarrow> (tk_published_at t = None \<longleftrightarrow> tk_status t = DRAFT)
     \<and> (tk_closed_at t = None \<longleftrightarrow> tk_status t \<notin> {CLOSED, ARCHIVED})"

lemma task_ok_parts: "task_ok t \<longleftrightarrow> contract_ok t \<and> texts_ok t \<and> stamps_ok t
    \<and> (tk_status t \<noteq> DRAFT \<longrightarrow> complete t)"
  unfolding task_ok_def contract_ok_def texts_ok_def stamps_ok_def by blast

lemma edit_contract_Inr:
  assumes "edit_contract m u t = Inr t1" "contract_ok t"
  shows "contract_ok t1 \<and> identity t1 = identity t \<and> stamps t1 = stamps t
    \<and> (texts_ok t \<longrightarrow> texts_ok t1) \<and> (contract_provided u = [] \<longrightarrow> t1 = t)"
proof -
  obtain base mode fixed duration cutoff schema version types cap where parts:
    "set_to (ut_base_reward_points u) (tk_base_reward_points t) (guarded InvalidReward (\<lambda>n. 0 < n) id) = Inr base"
    "set_to (ut_deadline_mode u) (tk_deadline_mode t) (\<lambda>v.
       map_sum id deadline_mode_value (member_or deadline_mode_value [FIXED, RELATIVE] v)) = Inr mode"
    "set_to (ut_fixed_deadline_at u) (tk_fixed_deadline_at t) (\<lambda>d. map_sum id (Some \<circ> Aware) (utc_instant d))
      = Inr fixed"
    "set_to (ut_duration_minutes u) (tk_duration_minutes t) (guarded InvalidDuration (\<lambda>n. 0 < n) Some) = Inr duration"
    "set_to (ut_claim_cutoff_minutes u) (tk_claim_cutoff_minutes t) (guarded NegativeCutoff (\<lambda>n. 0 \<le> n) Some)
      = Inr cutoff"
    "set_to (ut_submission_schema u) (tk_submission_schema t) (guarded InvalidSchema (\<lambda>j. j \<noteq> JObj []) Some) = Inr schema"
    "set_to (ut_submission_schema_version u) (tk_submission_schema_version t)
      (guarded InvalidSchema (\<lambda>n. 1 \<le> n) Some) = Inr version"
    "set_to (ut_allowed_file_types u) (tk_allowed_file_types t) (\<lambda>v. normalize_codes v SUPPORTED_FILE_TYPES) = Inr types"
    "set_to (ut_max_file_size_bytes u) (tk_max_file_size_bytes t)
      (\<lambda>n. map_sum id (\<lambda>_. n) (validate_size_cap m n)) = Inr cap"
    and t1: "t1 = t\<lparr>tk_base_reward_points := base, tk_deadline_mode := mode, tk_fixed_deadline_at := fixed,
             tk_duration_minutes := duration, tk_claim_cutoff_minutes := cutoff,
             tk_submission_schema := schema, tk_submission_schema_version := version,
             tk_allowed_file_types := types, tk_max_file_size_bytes := cap\<rparr>"
    using assms(1) unfolding edit_contract_def edit_deadline_def by (auto split: sum.splits)
  have mode: "deadline_mode_value k \<in> {''FIXED'', ''RELATIVE''}" for k by (cases k) simp_all
  note ok = assms(2) [unfolded contract_ok_def]
  have "0 < base" using parts(1) ok by (auto simp: set_to_Inr guarded_Inr)
  moreover have "mode \<in> {''FIXED'', ''RELATIVE''}"
    using parts(2) ok mode unfolding set_to_Inr map_sum_Inr by blast
  moreover have "\<forall>d. fixed = Some d \<longrightarrow> (\<exists>x. d = Aware x)" using parts(3) ok by (auto simp: set_to_Inr map_sum_Inr)
  moreover have "\<forall>n. duration = Some n \<longrightarrow> 0 < n" using parts(4) ok by (auto simp: set_to_Inr guarded_Inr)
  moreover have "\<exists>n\<ge>0. cutoff = Some n" using parts(5) ok by (auto simp: set_to_Inr guarded_Inr)
  moreover have "set types \<subseteq> set SUPPORTED_FILE_TYPES \<and> distinct types"
    using parts(8) ok normalize_codes_Inr unfolding set_to_Inr by blast
  moreover have "0 < cap" using parts(9) ok by (auto simp: set_to_Inr map_sum_Inr size_cap_Inr)
  ultimately have good: "contract_ok t1" using ok by (simp add: t1 contract_ok_def)
  have same: "t1 = t" if none: "contract_provided u = []"
  proof -
    have absent: "ut_base_reward_points u = None" "ut_deadline_mode u = None" "ut_fixed_deadline_at u = None"
      "ut_duration_minutes u = None" "ut_claim_cutoff_minutes u = None" "ut_submission_schema u = None"
      "ut_submission_schema_version u = None" "ut_allowed_file_types u = None" "ut_max_file_size_bytes u = None"
      using none by (auto simp: contract_provided_def split: if_splits)
    show ?thesis using parts unfolding absent set_to_def option.case t1 by simp
  qed
  show ?thesis
    using good same by (simp add: t1 identity_def stamps_def texts_ok_def)
qed

lemma update_cases:
  assumes "update_task m a tid u s = Inr (t2, s')"
  obtains (frozen) t where "row_of tk_id tid (tasks s) = Some t" "tk_status t \<in> {CLOSED, ARCHIVED}"
      "presentation_provided u = []" "contract_provided u = []" "t2 = t" "s' = s"
  | (edited) t t1 where "row_of tk_id tid (tasks s) = Some t" "may_manage a t"
      "tk_status t \<in> {DRAFT, PUBLISHED, PAUSED}" "tk_status t \<noteq> DRAFT \<longrightarrow> contract_provided u = []"
      "edit_presentation u t = Inr t1" "edit_contract m u t1 = Inr t2" "s' = put_task t2 s"
proof -
  obtain t where t: "row_of tk_id tid (tasks s) = Some t"
    using assms by (auto simp: update_task_def split: option.splits)
  note run = assms [unfolded update_task_def t option.case]
  obtain w where w: "require_owner_or_admin t a = Inr w"
    using run by (cases "require_owner_or_admin t a") auto
  then have may: "may_manage a t" by (simp add: owner_Inr)
  note run = run [unfolded w sum.case]
  show thesis
  proof (cases "tk_status t \<in> {CLOSED, ARCHIVED}")
    case True
    with run show thesis by (intro frozen [OF t]) (auto simp: Let_def split: if_splits)
  next
    case False
    then have st: "tk_status t \<in> {DRAFT, PUBLISHED, PAUSED}" by (cases "tk_status t") auto
    with run False obtain t1 where "edit_presentation u t = Inr t1" "edit_contract m u t1 = Inr t2"
      "s' = put_task t2 s" "tk_status t \<noteq> DRAFT \<longrightarrow> contract_provided u = []"
      by (auto simp: Let_def split: if_splits sum.splits)
    then show thesis by (intro edited [OF t may st])
  qed
qed

section \<open>Any sequence of operations\<close>

text \<open>
  One step: an operation of the task module with any arguments, or any transaction of another module
  (claims, uploads, reviews, points) that leaves the task rows alone.
\<close>

inductive task_step :: "campus_db \<Rightarrow> campus_db \<Rightarrow> bool" where
  create: "create_task m ut tid uid a cmd s = Inr (t, s') \<Longrightarrow> task_step s s'"
| verb: "transition m now a tid target s = Inr (t, s') \<Longrightarrow> task_step s s'"
| edit: "update_task m a tid u s = Inr (t, s') \<Longrightarrow> task_step s s'"
| elsewhere: "tasks s' = tasks s \<Longrightarrow> task_step s s'"

definition tasks_inv :: "campus_db \<Rightarrow> bool" where
  "tasks_inv s \<longleftrightarrow> distinct (map tk_id (tasks s)) \<and> (\<forall>t\<in>set (tasks s). task_ok t)"

lemma tasks_put_task: "tasks (put_task t s) = update_row tk_id (tk_id t) (\<lambda>_. t) (tasks s)"
  by (simp add: put_task_def)

lemma row_of_put_task: "row_of tk_id k (tasks (put_task t s)) =
    (if k = tk_id t then map_option (\<lambda>_. t) (row_of tk_id k (tasks s)) else row_of tk_id k (tasks s))"
  by (auto simp: tasks_put_task row_of_update_row)

lemma put_task_keeps:
  assumes "tasks_inv s" "tasks s' = tasks (put_task t s)" "task_ok t"
  shows "tasks_inv s'"
  using assms by (auto simp: tasks_inv_def tasks_put_task set_update_row keys_update_row split: if_splits)

text \<open>How a row may change in one step.\<close>

definition task_moves :: "task \<Rightarrow> task \<Rightarrow> bool" where
  "task_moves t t' \<longleftrightarrow> identity t' = identity t
     \<and> (tk_status t' = tk_status t \<or> tk_status t' \<in> set (ALLOWED_TASK_TRANSITIONS (tk_status t)))
     \<and> (tk_status t \<noteq> DRAFT \<longrightarrow> contract t' = contract t \<and> tk_published_at t' = tk_published_at t)
     \<and> (tk_status t \<in> {CLOSED, ARCHIVED} \<longrightarrow> t' = t\<lparr>tk_status := tk_status t'\<rparr>)"

lemma task_moves_refl [simp]: "task_moves t t"
  by (simp add: task_moves_def)

lemma complete_cong: "contract t' = contract t \<Longrightarrow> complete t' = complete t"
  by (simp add: contract_def complete_def has_types_def)

lemma contract_ok_cong: "contract t' = contract t \<Longrightarrow> contract_ok t' = contract_ok t"
  by (simp add: contract_def contract_ok_def)

lemma restamped:
  assumes "t' = t\<lparr>tk_status := st, tk_published_at := p, tk_closed_at := c\<rparr>" "task_ok t" "stamps_ok t'" "complete t"
  shows "task_ok t' \<and> contract t' = contract t \<and> identity t' = identity t"
proof -
  have c: "contract t' = contract t" "identity t' = identity t" "texts_ok t' = texts_ok t"
    by (simp_all add: assms(1) contract_def identity_def texts_ok_def)
  then show ?thesis
    using assms(2-4) contract_ok_cong [OF c(1)] complete_cong [OF c(1)] by (simp add: task_ok_parts)
qed

lemma enter_target_Inr:
  assumes run: "enter_target m now t target s = Inr t1"
    and edge: "target \<in> set (ALLOWED_TASK_TRANSITIONS (tk_status t))" and ok: "task_ok t"
  shows "task_moves t (t1\<lparr>tk_status := target\<rparr>) \<and> task_ok (t1\<lparr>tk_status := target\<rparr>)"
proof -
  have stamps: "stamps_ok t" using ok by (simp add: task_ok_parts)
  have t1: "t1 = (if target = PUBLISHED \<and> tk_published_at t = None then t\<lparr>tk_published_at := Some now\<rparr>
      else if target = CLOSED then t\<lparr>tk_closed_at := Some now\<rparr> else t)"
    using run by (auto simp: enter_target_def split: sum.splits if_splits)
  have pairs: "(tk_status t, target) \<in> {(DRAFT, PUBLISHED), (PAUSED, PUBLISHED), (PUBLISHED, PAUSED),
      (PUBLISHED, CLOSED), (PAUSED, CLOSED), (CLOSED, ARCHIVED)}"
    using edge by (cases "tk_status t") auto
  have full: "complete t"
    using enter_target_ok [of m now t target s] run pairs ok by (auto simp: publishable_def task_ok_parts)
  let ?d = "t1\<lparr>tk_status := target\<rparr>"
  have good: "stamps_ok ?d" using stamps pairs by (auto simp: t1 stamps_ok_def)
  have "?d = t\<lparr>tk_status := target, tk_published_at := tk_published_at t1, tk_closed_at := tk_closed_at t1\<rparr>"
    by (simp add: t1)
  from restamped [OF this ok good full]
  have "task_ok ?d \<and> contract ?d = contract t \<and> identity ?d = identity t" .
  moreover have "tk_status t \<noteq> DRAFT \<Longrightarrow> tk_published_at ?d = tk_published_at t"
    using stamps by (auto simp: t1 stamps_ok_def)
  moreover have "tk_status t \<in> {CLOSED, ARCHIVED} \<Longrightarrow> ?d = t\<lparr>tk_status := tk_status ?d\<rparr>"
  proof -
    assume "tk_status t \<in> {CLOSED, ARCHIVED}"
    with pairs have "target = ARCHIVED" by auto
    then show "?d = t\<lparr>tk_status := tk_status ?d\<rparr>" by (simp add: t1)
  qed
  ultimately show ?thesis using edge by (simp add: task_moves_def)
qed

lemma edited_row:
  assumes "edit_presentation u t = Inr t1" "edit_contract m u t1 = Inr t2"
    and "tk_status t \<in> {DRAFT, PUBLISHED, PAUSED}" "tk_status t \<noteq> DRAFT \<longrightarrow> contract_provided u = []" "task_ok t"
  shows "task_moves t t2 \<and> task_ok t2"
proof -
  note ok = assms(5) [unfolded task_ok_parts]
  have p: "texts_ok t1 \<and> contract t1 = contract t \<and> identity t1 = identity t \<and> stamps t1 = stamps t"
    using edit_presentation_Inr [OF assms(1)] ok by blast
  then have c1: "contract_ok t1" using ok by (simp add: contract_ok_def contract_def)
  note q = edit_contract_Inr [OF assms(2) c1]
  have frozen: "contract t2 = contract t" if "tk_status t \<noteq> DRAFT" using that assms(4) p q by simp
  have st: "stamps t2 = stamps t" "identity t2 = identity t" using p q by simp_all
  then have st1: "tk_status t2 = tk_status t" "tk_published_at t2 = tk_published_at t"
    by (simp_all add: stamps_def)
  have "stamps_ok t2" using st(1) ok by (simp add: stamps_ok_def stamps_def)
  moreover have "tk_status t2 \<noteq> DRAFT \<longrightarrow> complete t2"
    using frozen complete_cong [of t2 t] ok unfolding st1 by blast
  ultimately have "task_ok t2" using p q by (simp add: task_ok_parts)
  moreover have "tk_status t \<notin> {CLOSED, ARCHIVED}" using assms(3) by auto
  ultimately show ?thesis using frozen st st1 by (simp add: task_moves_def)
qed

lemma task_step_effect:
  assumes "task_step s s'" "tasks_inv s"
  shows "tasks_inv s' \<and> (\<forall>k t. row_of tk_id k (tasks s) = Some t
    \<longrightarrow> (\<exists>t'. row_of tk_id k (tasks s') = Some t' \<and> task_moves t t'))"
  using assms
proof (cases rule: task_step.cases)
  case (create m ut tid uid a cmd t)
  from create show ?thesis
  proof (cases rule: created_cases)
    case (1 title description)
    then show ?thesis
      using assms(2) created_task_ok [OF create] new_task_Inr [OF 1(5)]
      by (auto simp: tasks_inv_def row_of_append)
  qed
next
  case (verb m now a tid target t)
  from verb show ?thesis
  proof (cases rule: transition_cases)
    case (1 t0 t1 action)
    have row: "task_ok t0" "tk_id t0 = tid" using row_of_SomeD [OF 1(1)] assms(2) by (auto simp: tasks_inv_def)
    note eff = enter_target_Inr [OF 1(4,3) row(1)]
    have rows: "tasks s' = tasks (put_task t s)" by (simp add: 1(7))
    have "tk_id t = tid" using eff row(2) by (simp add: 1(5) task_moves_def identity_def)
    then show ?thesis
      using put_task_keeps [OF assms(2) rows] eff 1(1) unfolding rows 1(5) [symmetric]
      by (auto simp: row_of_put_task)
  qed
next
  case (edit m a tid u t)
  from edit show ?thesis
  proof (cases rule: update_cases)
    case (frozen t0)
    then show ?thesis using assms(2) by auto
  next
    case (edited t0 t1)
    have row: "task_ok t0" "tk_id t0 = tid" using row_of_SomeD [OF edited(1)] assms(2) by (auto simp: tasks_inv_def)
    note eff = edited_row [OF edited(5,6,3,4) row(1)]
    have "tk_id t = tid" using eff row(2) by (simp add: task_moves_def identity_def)
    then show ?thesis
      using put_task_keeps [OF assms(2), of s' t] eff edited(1) by (auto simp: row_of_put_task edited(7))
  qed
next
  case elsewhere
  then show ?thesis using assms(2) by (simp add: tasks_inv_def)
qed

definition task_edges :: "(TaskStatus \<times> TaskStatus) set" where
  "task_edges = {(a, b). b \<in> set (ALLOWED_TASK_TRANSITIONS a)}"

lemma never_draft_again: "(a, b) \<in> task_edges \<Longrightarrow> b \<noteq> DRAFT"
  by (cases a) (auto simp: task_edges_def)

lemma closed_edges: "(a, b) \<in> task_edges \<Longrightarrow> a \<in> {CLOSED, ARCHIVED} \<Longrightarrow> b = ARCHIVED"
  by (auto simp: task_edges_def)

definition task_evolves :: "task \<Rightarrow> task \<Rightarrow> bool" where
  "task_evolves t t' \<longleftrightarrow> identity t' = identity t \<and> (tk_status t, tk_status t') \<in> task_edges\<^sup>*
     \<and> (tk_status t \<noteq> DRAFT \<longrightarrow> tk_status t' \<noteq> DRAFT \<and> contract t' = contract t
          \<and> tk_published_at t' = tk_published_at t)
     \<and> (tk_status t \<in> {CLOSED, ARCHIVED} \<longrightarrow> tk_status t' \<in> {CLOSED, ARCHIVED}
          \<and> t' = t\<lparr>tk_status := tk_status t'\<rparr>)"

lemma task_evolves_step:
  assumes "task_evolves t t1" "task_moves t1 t2"
  shows "task_evolves t t2"
proof -
  have edge: "tk_status t2 = tk_status t1 \<or> (tk_status t1, tk_status t2) \<in> task_edges"
    using assms(2) by (auto simp: task_moves_def task_edges_def)
  have path: "(tk_status t, tk_status t2) \<in> task_edges\<^sup>*"
    using assms(1) edge unfolding task_evolves_def by (metis rtrancl.rtrancl_into_rtrancl)
  have closed: "tk_status t2 \<in> {CLOSED, ARCHIVED} \<and> t2 = t\<lparr>tk_status := tk_status t2\<rparr>"
    if "tk_status t \<in> {CLOSED, ARCHIVED}"
  proof -
    have t1: "tk_status t1 \<in> {CLOSED, ARCHIVED}" "t1 = t\<lparr>tk_status := tk_status t1\<rparr>"
      using assms(1) that unfolding task_evolves_def by blast+
    then have "t2 = t1\<lparr>tk_status := tk_status t2\<rparr>" using assms(2) unfolding task_moves_def by blast
    also have "\<dots> = t\<lparr>tk_status := tk_status t2\<rparr>" by (subst t1(2)) simp
    finally have "t2 = t\<lparr>tk_status := tk_status t2\<rparr>" .
    moreover have "tk_status t2 \<in> {CLOSED, ARCHIVED}" using edge t1(1) closed_edges by auto
    ultimately show ?thesis by blast
  qed
  have "tk_status t2 \<noteq> DRAFT \<and> contract t2 = contract t \<and> tk_published_at t2 = tk_published_at t"
    if "tk_status t \<noteq> DRAFT"
    using assms that edge never_draft_again unfolding task_evolves_def task_moves_def by metis
  with path closed show ?thesis using assms by (simp add: task_evolves_def task_moves_def)
qed

lemma task_path:
  assumes "task_step\<^sup>*\<^sup>* s s'" "tasks_inv s"
  shows "tasks_inv s' \<and> (\<forall>k t. row_of tk_id k (tasks s) = Some t
    \<longrightarrow> (\<exists>t'. row_of tk_id k (tasks s') = Some t' \<and> task_evolves t t'))"
  using assms(1)
proof (induction rule: rtranclp_induct)
  case base
  then show ?case using assms(2) by (auto simp: task_evolves_def)
next
  case (step s1 s2)
  show ?case
  proof (intro conjI allI impI)
    show "tasks_inv s2" using task_step_effect [OF step.hyps(2)] step.IH by blast
  next
    fix k t
    assume "row_of tk_id k (tasks s) = Some t"
    then obtain t1 where t1: "row_of tk_id k (tasks s1) = Some t1" "task_evolves t t1" using step.IH by blast
    then obtain t2 where "row_of tk_id k (tasks s2) = Some t2" "task_moves t1 t2"
      using task_step_effect [OF step.hyps(2)] step.IH by blast
    with t1(2) show "\<exists>t'. row_of tk_id k (tasks s2) = Some t' \<and> task_evolves t t'"
      using task_evolves_step by blast
  qed
qed

text \<open>C22: A published task is a contract: in any interleaving of task operations by anyone, with everything
  the other modules do, a task keeps its owner and id and its status walks the life cycle
  DRAFT, PUBLISHED or PAUSED, CLOSED, ARCHIVED without return to an earlier phase; from the first
  publish on, reward, deadline policy, claim window, schema, file policy and the instant of the first
  publish never change, so claims taken at different times promise the same; a closed task is frozen
  as a whole except for being archived.\<close>

theorem published_contract_is_frozen:
  assumes "task_step\<^sup>*\<^sup>* s s'" "tasks_inv s" "row_of tk_id tid (tasks s) = Some t"
  shows "\<exists>t'. row_of tk_id tid (tasks s') = Some t' \<and> tk_owner_teacher_id t' = tk_owner_teacher_id t
    \<and> (tk_status t, tk_status t') \<in> {(DRAFT, PUBLISHED), (PUBLISHED, PAUSED), (PUBLISHED, CLOSED),
         (PAUSED, PUBLISHED), (PAUSED, CLOSED), (CLOSED, ARCHIVED)}\<^sup>*
    \<and> (tk_status t \<noteq> DRAFT \<longrightarrow> tk_status t' \<noteq> DRAFT \<and> contract t' = contract t
         \<and> tk_published_at t' = tk_published_at t)
    \<and> (tk_status t \<in> {CLOSED, ARCHIVED} \<longrightarrow> t' = t\<lparr>tk_status := tk_status t'\<rparr>)"
proof -
  have edges: "task_edges = {(DRAFT, PUBLISHED), (PUBLISHED, PAUSED), (PUBLISHED, CLOSED),
      (PAUSED, PUBLISHED), (PAUSED, CLOSED), (CLOSED, ARCHIVED)}" (is "_ = ?E")
  proof (intro set_eqI)
    fix p show "p \<in> task_edges \<longleftrightarrow> p \<in> ?E"
      by (cases p; cases "fst p") (auto simp: task_edges_def)
  qed
  obtain t' where "row_of tk_id tid (tasks s') = Some t'" "task_evolves t t'"
    using task_path [OF assms(1,2)] assms(3) by blast
  then show ?thesis by (intro exI [of _ t']) (simp add: task_evolves_def edges identity_def)
qed



section \<open>Delegation\<close>

text \<open>Requests to the collaborator service, in any order; a refused one changes nothing.\<close>

datatype collaborator_request = Grant actor uuid uuid "string list" | Remove actor uuid uuid

fun request_actor :: "collaborator_request \<Rightarrow> actor" where
  "request_actor (Grant a tid u ps) = a"
| "request_actor (Remove a tid u) = a"

fun serve :: "collaborator_request \<Rightarrow> campus_db \<Rightarrow> campus_db" where
  "serve (Grant a tid u ps) s = (case add_collaborator a tid u ps s of Inl e \<Rightarrow> s | Inr (r, s') \<Rightarrow> s')"
| "serve (Remove a tid u) s = (case remove_collaborator a tid u s of Inl e \<Rightarrow> s | Inr s' \<Rightarrow> s')"

definition rows_of_task :: "uuid \<Rightarrow> campus_db \<Rightarrow> collaborator set" where
  "rows_of_task tid s = {r \<in> set (collaborators s). co_task_id r = tid}"

definition capabilities :: "uuid \<Rightarrow> campus_db \<Rightarrow> CollaboratorPermission set" where
  "capabilities tid s = (\<Union>r\<in>rows_of_task tid s. set (co_permissions r))"

lemma normalize_permissions_Inr: "normalize_permissions raws = Inr ps \<Longrightarrow> ps \<noteq> [] \<and> distinct ps"
proof -
  assume run: "normalize_permissions raws = Inr ps"
  have known: "set (collect_codes [] raws) \<subseteq> permission_value ` set PERMISSION_ORDER" "collect_codes [] raws \<noteq> []"
    and ps: "ps = filter (\<lambda>p. permission_value p \<in> set (collect_codes [] raws)) PERMISSION_ORDER"
    using run by (auto simp: normalize_permissions_def Let_def filter_empty_conv split: if_splits)
  obtain c where "c \<in> set (collect_codes [] raws)" using known(2) by (cases "collect_codes [] raws") auto
  then have "\<exists>p\<in>set PERMISSION_ORDER. permission_value p \<in> set (collect_codes [] raws)" using known(1) by blast
  then show "ps \<noteq> [] \<and> distinct ps" by (auto simp: ps filter_empty_conv PERMISSION_ORDER_def)
qed

lemma add_cases:
  assumes "add_collaborator a tid u ps s = Inr (r, s')"
  obtains t granted ceiling where "row_of tk_id tid (tasks s) = Some t" "grant_ceiling t a s = Inr ceiling"
    "normalize_permissions ps = Inr granted" "\<forall>own. ceiling = Some own \<longrightarrow> set granted \<subseteq> set own"
    "row_of collaborator_key (tid, u) (collaborators s) = None"
    "r = \<lparr>co_task_id = tid, co_teacher_id = u, co_permissions = granted\<rparr>"
    "collaborators s' = collaborators s @ [r]" "tasks s' = tasks s"
proof -
  obtain t where t: "row_of tk_id tid (tasks s) = Some t"
    using assms by (auto simp: add_collaborator_def split: option.splits)
  note run = assms [unfolded add_collaborator_def t option.case]
  obtain ceiling where c: "grant_ceiling t a s = Inr ceiling"
    using run by (cases "grant_ceiling t a s") auto
  note run = run [unfolded c sum.case]
  obtain granted where g: "normalize_permissions ps = Inr granted"
    using run by (cases "normalize_permissions ps") auto
  note run = run [unfolded g sum.case]
  have "\<forall>own. ceiling = Some own \<longrightarrow> set granted \<subseteq> set own" using run by (auto split: if_splits)
  moreover have "row_of collaborator_key (tid, u) (collaborators s) = None"
    and "r = \<lparr>co_task_id = tid, co_teacher_id = u, co_permissions = granted\<rparr>
      \<and> collaborators s' = collaborators s @ [r] \<and> tasks s' = tasks s"
    using run by (auto simp: Let_def split: if_splits option.splits)
  ultimately show thesis using that [OF t c g] by blast
qed

lemma serve_tasks [simp]: "tasks (serve q s) = tasks s"
proof (cases q)
  case (Grant a tid u ps)
  then show ?thesis
    by (cases "add_collaborator a tid u ps s") (auto elim: add_cases)
qed (auto simp: remove_collaborator_def split: option.split)

lemma serve_delegated:
  assumes t: "row_of tk_id tid (tasks s) = Some t"
    and delegate: "actor_user_id (request_actor q) \<noteq> tk_owner_teacher_id t" "actor_role (request_actor q) \<noteq> ADMIN"
  shows "capabilities tid (serve q s) = capabilities tid s \<and> rows_of_task tid s \<subseteq> rows_of_task tid (serve q s)"
proof (cases q)
  case (Remove a k u)
  show ?thesis
  proof (cases "k = tid")
    case True
    then show ?thesis using t delegate by (simp add: Remove remove_collaborator_def)
  next
    case False
    then have "rows_of_task tid (serve q s) = rows_of_task tid s"
      by (auto simp: Remove remove_collaborator_def rows_of_task_def collaborator_key_def split: option.split)
    then show ?thesis by (simp add: capabilities_def)
  qed
next
  case (Grant a k u ps)
  show ?thesis
  proof (cases "add_collaborator a k u ps s")
    case (Inr p)
    obtain r s' where p: "p = (r, s')" by (cases p)
    from Inr [unfolded p] show ?thesis
    proof (rule add_cases)
      fix t2 granted ceiling
      assume g: "row_of tk_id k (tasks s) = Some t2" "grant_ceiling t2 a s = Inr ceiling"
        "\<forall>own. ceiling = Some own \<longrightarrow> set granted \<subseteq> set own"
        "r = \<lparr>co_task_id = k, co_teacher_id = u, co_permissions = granted\<rparr>"
        "collaborators s' = collaborators s @ [r]"
      have rows: "rows_of_task tid (serve q s) = rows_of_task tid s \<union> (if k = tid then {r} else {})"
        using g(4,5) by (auto simp: Grant Inr p rows_of_task_def)
      have "set (co_permissions r) \<subseteq> capabilities tid s" if "k = tid"
      proof -
        have t2: "t2 = t" "tk_id t = tid" using t g(1) that row_of_SomeD [OF t] by auto
        then obtain own where own: "row_of collaborator_key (tid, actor_user_id a) (collaborators s) = Some own"
          "ceiling = Some (co_permissions own)"
          using g(2) delegate Grant by (auto simp: grant_ceiling_def split: option.splits)
        have "own \<in> rows_of_task tid s"
          using row_of_SomeD [OF own(1)] by (simp add: rows_of_task_def collaborator_key_def)
        then show ?thesis using g(3,4) own(2) by (auto simp: capabilities_def)
      qed
      then show ?thesis by (auto simp: capabilities_def rows)
    qed
  qed (simp add: Grant)
qed

text \<open>C25: Delegation creates no capability: whatever requests accounts other than the task's owner and
  administrators send to the collaborator service, in any order and number, the set of capabilities
  held on the task by anyone stays exactly what it was, and no collaborator row is lost.\<close>

theorem delegation_never_amplifies:
  assumes "row_of tk_id tid (tasks s) = Some t"
    and "\<forall>q\<in>set requests. actor_user_id (request_actor q) \<noteq> tk_owner_teacher_id t
      \<and> actor_role (request_actor q) \<noteq> ADMIN"
  shows "capabilities tid (fold serve requests s) = capabilities tid s
    \<and> rows_of_task tid s \<subseteq> rows_of_task tid (fold serve requests s)"
  using assms
proof (induction requests arbitrary: s)
  case (Cons q requests)
  have "capabilities tid (serve q s) = capabilities tid s \<and> rows_of_task tid s \<subseteq> rows_of_task tid (serve q s)"
    using Cons.prems by (intro serve_delegated) auto
  moreover have "capabilities tid (fold serve requests (serve q s)) = capabilities tid (serve q s)
    \<and> rows_of_task tid (serve q s) \<subseteq> rows_of_task tid (fold serve requests (serve q s))"
    using Cons.prems by (intro Cons.IH) auto
  ultimately show ?case by auto
qed simp

section \<open>Witnesses\<close>

definition demo_owner :: actor where
  "demo_owner = \<lparr>actor_user_id = 50, actor_role = TEACHER\<rparr>"

definition demo_command :: CreateTask where
  "demo_command = \<lparr>ct_title = '' Poll '', ct_description = ''Count'', ct_base_reward_points = 10,
     ct_deadline_mode = ''RELATIVE'', ct_allowed_file_types = [''csv'', ''CSV''], ct_max_file_size_bytes = 100,
     ct_task_type = ''DATA_CRAWL'', ct_rarity = ''RARE'', ct_fixed_deadline_at = None,
     ct_duration_minutes = Some 60, ct_claim_cutoff_minutes = 240, ct_submission_schema = None,
     ct_submission_schema_version = None, ct_target_count = Some 1, ct_notify_24h = True, ct_notify_4h = True,
     ct_notification_channels = [''IN_APP'']\<rparr>"

definition demo_draft :: task where
  "demo_draft = \<lparr>tk_id = 5, tk_owner_teacher_id = 50, tk_title = ''Poll'', tk_description = ''Count'',
     tk_task_type = DATA_CRAWL, tk_rarity = RARE, tk_base_reward_points = 10, tk_status = DRAFT,
     tk_deadline_mode = ''RELATIVE'', tk_fixed_deadline_at = None, tk_duration_minutes = Some 60,
     tk_grace_period_minutes = Some 1440, tk_claim_cutoff_minutes = Some 240, tk_submission_schema = None,
     tk_submission_schema_version = None, tk_allowed_file_types = [''CSV''], tk_max_file_size_bytes = 100,
     tk_notify_24h = True, tk_notify_4h = True, tk_notification_channels = [''IN_APP''],
     tk_retention_policy = ''DAYS_180'', tk_published_at = None, tk_closed_at = None\<rparr>"

definition demo_unit :: assignment where
  "demo_unit = \<lparr>as_id = 51, as_task_id = 5, as_platform = ''generic'', as_keyword = ''unit'', as_payload = None,
     as_availability_status = AVAILABLE\<rparr>"

definition empty_campus :: campus_db where
  "empty_campus = initial_campus\<lparr>platforms := [\<lparr>pf_code = ''generic'', pf_display_name = ''any'',
     pf_sort_order = 1, pf_enabled = True\<rparr>]\<rparr>"

definition drafted_campus :: campus_db where
  "drafted_campus = empty_campus\<lparr>tasks := [demo_draft], assignments := [demo_unit]\<rparr>"

definition demo_live :: task where
  "demo_live = demo_draft\<lparr>tk_published_at := Some (hours 1), tk_status := PUBLISHED\<rparr>"

lemma empty_tables: "tasks empty_campus = []" "assignments empty_campus = []"
  "platforms empty_campus = [\<lparr>pf_code = ''generic'', pf_display_name = ''any'', pf_sort_order = 1, pf_enabled = True\<rparr>]"
  by (simp_all add: empty_campus_def initial_campus_def points_db.defs)

lemma demo_created: "create_task 1000 (\<lambda>i. ''unit'') 5 (\<lambda>i. 50 + i) demo_owner demo_command empty_campus
    = Inr (demo_draft, drafted_campus)"
proof -
  have texts: "required_text (ct_title demo_command) InvalidTitle (Some 255) = Inr ''Poll''"
    "required_text (ct_description demo_command) InvalidDescription None = Inr ''Count''"
    by code_simp+
  have checks: "create_checks 1000 demo_command = Inr ()" by code_simp
  have row: "new_task 5 demo_owner ''Poll'' ''Count'' demo_command = Inr demo_draft"
    by code_simp
  have units: "target_units (\<lambda>i. ''unit'') (\<lambda>i. 50 + i) 5 (ct_target_count demo_command) = [demo_unit]"
    by (simp add: target_units_def demo_command_def demo_unit_def GENERIC_PLATFORM_CODE_def)
  have admissible: "units_admissible [demo_unit] empty_campus"
    by (simp add: units_admissible_def empty_tables demo_unit_def)
  have role: "actor_role demo_owner = TEACHER" by (simp add: demo_owner_def)
  show ?thesis
    by (simp add: create_task_def texts checks row units admissible empty_tables role Let_def drafted_campus_def)
qed

lemma drafted_tables: "tasks drafted_campus = [demo_draft]" "assignments drafted_campus = [demo_unit]"
  by (simp_all add: drafted_campus_def)

lemma demo_publishable: "publishable 1000 (hours 1) demo_draft"
proof -
  have "tk_deadline_mode demo_draft = ''RELATIVE''" "tk_duration_minutes demo_draft = Some 60"
    "tk_allowed_file_types demo_draft = [''CSV'']" "0 < tk_base_reward_points demo_draft"
    "tk_max_file_size_bytes demo_draft = 100"
    by (simp_all add: demo_draft_def)
  moreover have "set [''CSV''] \<subseteq> set SUPPORTED_FILE_TYPES" by code_simp
  moreover have "''CSV'' \<notin> set DOCUMENT_FILE_TYPE_CODES" by code_simp
  ultimately show ?thesis by (simp add: publishable_def complete_def has_types_def)
qed

lemma demo_published: "\<exists>s'. transition 1000 (hours 1) demo_owner 5 PUBLISHED drafted_campus = Inr (demo_live, s')
    \<and> tasks s' = [demo_live]"
proof -
  have valid: "validate_publishable 1000 (hours 1) demo_draft = Inr ()" by (simp add: publishable_iff demo_publishable)
  have facts: "tk_id demo_draft = 5" "tk_published_at demo_draft = None" "tk_status demo_draft = DRAFT"
    "tk_owner_teacher_id demo_draft = 50" "as_task_id demo_unit = 5" "actor_user_id demo_owner = 50"
    by (simp_all add: demo_draft_def demo_unit_def demo_owner_def)
  have row: "row_of tk_id 5 (tasks drafted_campus) = Some demo_draft" by (simp add: drafted_tables facts)
  have entered: "enter_target 1000 (hours 1) demo_draft PUBLISHED drafted_campus
      = Inr (demo_draft\<lparr>tk_published_at := Some (hours 1)\<rparr>)"
    by (simp add: enter_target_def valid drafted_tables facts)
  have live: "demo_draft\<lparr>tk_published_at := Some (hours 1), tk_status := PUBLISHED\<rparr> = demo_live"
    by (simp add: demo_live_def)
  have "tk_id demo_live = 5" by (simp add: demo_live_def facts)
  then show ?thesis
    by (simp add: transition_def row require_owner_or_admin_def require_transition_def entered Let_def facts live
        put_task_def drafted_tables update_row_def)
qed

lemma demo_history: "\<exists>s'. task_step\<^sup>*\<^sup>* empty_campus s' \<and> tasks s' = [demo_live]"
proof -
  obtain s' where run: "transition 1000 (hours 1) demo_owner 5 PUBLISHED drafted_campus = Inr (demo_live, s')"
    and rows: "tasks s' = [demo_live]" using demo_published by blast
  have "task_step\<^sup>*\<^sup>* empty_campus s'"
    using task_step.create [OF demo_created] task_step.verb [OF run] by (auto intro: rtranclp.rtrancl_into_rtrancl)
  with rows show ?thesis by blast
qed

theorem status_verb_accepted_iff_witness:
  "ok (transition 1000 (hours 1) demo_owner 5 PUBLISHED drafted_campus)
   \<and> \<not> ok (transition 1000 (hours 1) demo_owner 5 PUBLISHED (drafted_campus\<lparr>assignments := []\<rparr>))"
  using demo_publishable
  by (simp add: status_verb_accepted_iff) (simp add: drafted_tables demo_draft_def demo_unit_def demo_owner_def)

theorem published_contract_is_frozen_witness:
  "\<exists>t'. row_of tk_id 5 (tasks drafted_campus) = Some t' \<and> tk_owner_teacher_id t' = 50"
proof -
  have "tasks_inv drafted_campus" using created_task_ok [OF demo_created] by (simp add: tasks_inv_def drafted_tables)
  moreover have "row_of tk_id 5 (tasks drafted_campus) = Some demo_draft" by (simp add: drafted_tables demo_draft_def)
  ultimately show ?thesis
    using published_contract_is_frozen [of drafted_campus drafted_campus 5 demo_draft] by (auto simp: demo_draft_def)
qed



theorem delegation_never_amplifies_witness:
  "capabilities 5 (fold serve [Grant \<lparr>actor_user_id = 60, actor_role = TEACHER\<rparr> 5 60 [''VIEW_TASK'']] drafted_campus)
    = capabilities 5 drafted_campus"
  using delegation_never_amplifies [of 5 drafted_campus demo_draft
      "[Grant \<lparr>actor_user_id = 60, actor_role = TEACHER\<rparr> 5 60 [''VIEW_TASK'']]"]
  by (simp add: drafted_tables demo_draft_def)

end
