(* ===== verification/Spec2Isabelle.thy ===== *)
theory Spec2Isabelle
  imports Community_Laws Campus_Facts Dispatchers Session_Laws Account_Laws Retention_Facts Orphans Task_Facts Report Schema Points_Lifecycle Points_Admin Expiry_Facts Abandon
begin

text \<open>
  Campus quest is a service on which teachers publish tasks, students claim units of work, upload
  files, have them validated by a worker and reviewed by teachers, and are paid points that they
  spend on rewards.  This library models the transactional core of the Python backend under
  \<^verbatim>\<open>src/backend/app\<close> and proves what makes it correct.

  \<^bold>\<open>How the code is read.\<close>  A table is a list of rows in insertion order (\<open>Prelude\<close>: \<open>row_of\<close> is the
  lookup by key, \<open>update_row\<close> the update, \<open>count_rows\<close> and \<open>sum_rows\<close> the aggregates).  A row is a
  record with the columns of the SQLAlchemy model, a \<open>StrEnum\<close> a datatype with its value function.
  The database is one record: \<open>core_db\<close> (audit log, domain events, notification intents),
  extended by \<open>points_db\<close> (ledger, wallets, rewards, redemptions, reservations) and \<open>campus_db\<close>
  (accounts, tasks, units of work, claims, submissions, uploads, validation runs, jobs).  A service
  method is a function from its arguments and the database to an error or to a result and the new
  database: an exception is an \<open>Inl\<close> whose database is the old one, because the session rolls back;
  a method that commits before it fails returns the error next to the state (uploads, validation).
  Clock readings, generated ids, random sort keys, rows that others hold locked and texts outside
  ASCII are arguments.  Rows are locked \<open>FOR UPDATE\<close>, so one transaction is one step; where the
  code runs two transactions (validation) or a lock-free read before a transaction (reward grants,
  upload confirmation) the model has two steps or takes the earlier state as an argument.  Integers
  are Python's unbounded ones; instants are microseconds; a \<open>Decimal\<close> fraction is a coefficient and
  a power of ten, a \<open>float\<close> a mantissa and a power of two.

  \<^bold>\<open>Shared kernel.\<close>  \<open>Core\<close>: roles and guards (\<^verbatim>\<open>core/rbac.py\<close>), error registry and envelopes
  (\<^verbatim>\<open>core/error_codes.py\<close>, \<^verbatim>\<open>core/errors.py\<close>), the audit writer with its redaction
  (\<^verbatim>\<open>modules/audit\<close>), events and notification intents.

  \<^bold>\<open>Points.\<close>  \<open>Points_Models\<close> are the tables of \<^verbatim>\<open>points/models.py\<close>; \<open>Ledger\<close> is
  \<^verbatim>\<open>points/ledger_service.py\<close> (posting, grants, reversals; the locale \<open>ledger_port\<close> is the posting
  contract), \<open>Redemption\<close> and \<open>Redemption_Facts\<close> are \<^verbatim>\<open>points/redemption_service.py\<close> (the locale
  \<open>decision\<close> is what approval, rejection and fulfilment share), \<open>Points_Admin\<close> is
  \<^verbatim>\<open>points/admin_service.py\<close>.  \<open>Points_Lifecycle\<close> makes them one state machine and shows in every
  reachable state that wallets equal the ledger, reservations equal the frozen points and history is
  only appended to.

  \<^bold>\<open>Tasks.\<close>  \<open>Task_Models\<close> are the tables of \<^verbatim>\<open>tasks/models.py\<close> and \<^verbatim>\<open>submissions/models.py\<close>.
  \<open>Tasks\<close> is \<^verbatim>\<open>tasks/service.py\<close> (creation, status verbs with the publish gate, edits) and
  \<open>Collaborators\<close> is \<^verbatim>\<open>tasks/collaborator_service.py\<close>; \<open>Task_Facts\<close> shows when verbs are accepted,
  that rows stay well-formed, that the contract of a published task is frozen, that the task and
  claim services agree on claimability and that delegation creates no capability.  \<open>Deadlines\<close> is
  the deadline and tier calculator \<^verbatim>\<open>tasks/deadlines.py\<close>.

  \<^bold>\<open>Claims.\<close>  \<open>Claims\<close> is \<^verbatim>\<open>tasks/claim_service.py\<close> with the expiry worker's discovery query and
  job (\<^verbatim>\<open>workers/jobs/expire_claims.py\<close>), \<open>Abandon\<close> is \<^verbatim>\<open>tasks/abandon_service.py\<close> (the locale
  \<open>business_zone\<close> states what a time zone must satisfy).  \<open>Claim_Facts\<close> and \<open>Expiry_Facts\<close> hold the
  invariant of claims and units, acceptance, the expiry ladder and the agreement of the scan with
  it; the locale \<open>submission_inspector\<close> is the contract of the expiry service's protection check.

  \<^bold>\<open>Submissions.\<close>  \<open>Upload\<close> and \<open>Upload_Facts\<close> are \<^verbatim>\<open>submissions/upload_service.py\<close>; \<open>Report\<close> is
  the report of \<^verbatim>\<open>submissions/validators/common.py\<close>, \<open>Schema\<close> the grammar of
  \<^verbatim>\<open>submissions/schema.py\<close>, \<open>Validation\<close> and \<open>Validation_Facts\<close> are \<^verbatim>\<open>validation_service.py\<close>,
  \<^verbatim>\<open>validation_runner.py\<close>, the worker job and the recovery scan; \<open>Reward_Lock\<close> is
  \<^verbatim>\<open>reward_lock_service.py\<close>; \<open>Review\<close>, \<open>Review_Facts\<close>, \<open>Approval\<close> and \<open>Decisions\<close> are
  \<^verbatim>\<open>review_service.py\<close> (the locale \<open>points_reward_port\<close> is the contract of the port through which a
  review pays, interpreted on the ledger adapter).

  \<^bold>\<open>The whole.\<close>  \<open>Campus\<close> is the step relation of all these services on the shared tables, in any
  order and with any arguments, and its invariant; \<open>Campus_Facts\<close> derives from it that completed
  claims and paid claims are the same claims, at exactly the locked amounts, that work is
  exclusive, and that every claim row follows the claim automaton.

  \<^bold>\<open>Retention.\<close>  \<open>Cleanup\<close> is \<^verbatim>\<open>files/cleanup_service.py\<close> over the repository of
  \<^verbatim>\<open>workers/jobs/cleanup_files.py\<close>: leases with ownership tokens over due files and expired intents.
  \<open>Retention\<close> interleaves cleanup workers, stalled at any point, with every operation of the campus;
  \<open>Retention_Facts\<close> shows that no object under validation or review is ever deleted, that a scan reports
  exactly what it did and that a failed delete is retried; \<open>Orphans\<close> shows on one clock that an
  upload is submitted or discarded, never both.  The repository's \<open>release_cleanup_claim\<close>, which the
  service never calls, is defined but no step of these systems.

  \<^bold>\<open>Notifications.\<close>  \<open>Messages\<close> is \<^verbatim>\<open>notifications/enums.py\<close> and the renderer and write gate of
  \<^verbatim>\<open>notifications/templates.py\<close>; \<open>Outbox\<close> is \<^verbatim>\<open>service.py\<close>, \<^verbatim>\<open>deadline_scheduler.py\<close>,
  \<^verbatim>\<open>event_handlers.py\<close>, \<^verbatim>\<open>models.py\<close> and \<^verbatim>\<open>port.py\<close> (from an event to rows, inside the caller's
  transaction); \<open>Template_Admin\<close> is \<^verbatim>\<open>template_admin.py\<close>.  \<open>Delivery\<close> is \<^verbatim>\<open>delivery_service.py\<close> (claim,
  decision, finalize), the scan and the monitor of \<^verbatim>\<open>workers/jobs\<close> and \<^verbatim>\<open>inbox_service.py\<close>.
  \<open>Outbox_Facts\<close> shows that registration is idempotent, what it plans for a claim and the one way it can
  fail; \<open>Delivery_Facts\<close> that every delivery ends and that suppressed reminders reach nobody; \<open>Dispatchers\<close>
  interleaves senders that can stall or die between their transactions and bounds the provider calls.
  The providers, the seed texts and \<open>str\<close> of numbers and instants are arguments.

  \<^bold>\<open>Identity.\<close>  \<open>Sessions\<close> holds accounts and refresh sessions (\<^verbatim>\<open>identity/models.py\<close>), the lockout counter of
  \<^verbatim>\<open>identity/login_failure_guard.py\<close>, and login, rotation with its replay window and revocation of
  \<^verbatim>\<open>identity/session_service.py\<close>, over the database \<open>auth_db\<close>.  \<open>Session_Facts\<close> proves the invariant of the chains
  of generations (they only grow, never fork and end in one row) over the steps \<open>session_step\<close>;
  \<open>Session_Laws\<close> shows that a logout closes a whole chain, that it always returns, what a rotation answers,
  and the two ways in which a revocation and a lockout miss their promise.  The token digest, the
  password verifier and the encryption are fields of \<open>session_config\<close>; the facts about replay assume
  that decryption undoes encryption and that no envelope is empty (\<open>crypt_ok\<close>).  \<open>Otp\<close> is \<^verbatim>\<open>identity/otp.py\<close>: the
  Redis tables are maps from keys to values with an expiry, a verification is both one call and a
  sequence of commands that other workers interrupt, and \<open>Otp_Facts\<close> holds the invariant that says who
  can still win a challenge; \<open>Otp_Laws\<close> proves single use and the two caps, and shows that overlapping
  guesses pass the attempt limit.  \<open>Accounts\<close> is validation, registration and the administrator's verbs
  (\<^verbatim>\<open>identity/validation.py\<close>, \<^verbatim>\<open>service.py\<close>, \<^verbatim>\<open>account_admin_service.py\<close>, \<^verbatim>\<open>admin_power_service.py\<close>), \<open>Devices\<close>
  the remembered devices (\<^verbatim>\<open>device_credentials.py\<close>) with the login they open, \<open>Profile\<close> is
  \<^verbatim>\<open>profile_service.py\<close>.  \<open>Account_Facts\<close> and \<open>Account_Laws\<close> make them one step relation on the table of accounts
  (the locale \<open>phone_port\<close> is what a client of the proofs relies on); \<open>Recovery_Laws\<close> shows what a phone proof
  authorizes and what a new password does not end.

  \<^bold>\<open>Bounds.\<close>  No fuel is used.  The loops of the modelled code run over a finite table or list, so
  the definitions recurse structurally; the replay walk has the bound of the code (\<open>CHAIN_HOP_BOUND\<close>), and the
  walk of a logout, which the code does not bound, is a \<open>partial_function\<close> with a proof that it returns.  The sandboxed parser, the object store and the text of
  messages are arguments of the definitions that use them.

  \<^bold>\<open>Not modelled.\<close>  HTTP routers and transport schemas (request parsing and serialisation); the
  file-type parsers inside the sandbox (third-party readers over bytes); the community and
  innovation, ranking and system modules, the email, mobile-code and TOTP doors and the staff service of identity, the importer, platform
  registry, query services and audit repair, which the modelled core does not call except through
  the recorded intents and events; scripts, migrations and tests; columns that only the database
  sets.  The PostgreSQL locking protocol is taken as given: a row lock is held until commit.
\<close>

end
